(* ===== verification/Prelude.thy ===== *)
theory Prelude
  imports Complex_Main "HOL-Library.Char_ord"
begin

text \<open>
  Shared vocabulary of the development: the API's error values
  (\<^verbatim>\<open>core/errors.py\<close>), tables as lists of rows with the lookups and sums the
  queries use, and the ASCII part of Python's string operations. Every other theory
  imports this one, directly or through a component.
\<close>

named_theorems table_simps \<open>rows, lookups and sums over tables\<close>
named_theorems string_simps \<open>the string operations on literals\<close>

section \<open>Errors\<close>

text \<open>
  The exceptions of \<^verbatim>\<open>core/errors.py\<close> the modelled handlers raise, each with the
  constant part of its message. A handler returns \<open>Inl e\<close> where the code raises: the
  surrounding transaction rolls back, so no new state is returned with an error.
\<close>

datatype api_error =
    NotFoundError string
  | ConflictError string
  | ValidationError string
  | AuthenticationError string
  | PermissionDeniedError string
  | StepUpRequiredError string
  | PasswordChangeRequiredError string
  | MfaRequiredError string
  | RateLimitedError string int
  | PackageLimitError string
  | IntegrityError string
  | AccountDeletionPendingError string
  | DeletionAlreadyRequestedError string
  | ObligationsOpenError string bool
  | TenantContextError string
  | PayloadTooLargeError string
  | UpstreamUnavailableError string
  | InternalError string

text \<open>The HTTP status each is answered with. A tenant-context error that
  reaches the error handler is a failure of the server, not a refusal; \<open>InternalError\<close> is any
  exception nothing catches.\<close>

fun status_code :: "api_error \<Rightarrow> nat" where
  "status_code (NotFoundError _) = 404"
| "status_code (ConflictError _) = 409"
| "status_code (ValidationError _) = 422"
| "status_code (AuthenticationError _) = 401"
| "status_code (PermissionDeniedError _) = 403"
| "status_code (StepUpRequiredError _) = 403"
| "status_code (PasswordChangeRequiredError _) = 403"
| "status_code (MfaRequiredError _) = 401"
| "status_code (RateLimitedError _ _) = 429"
| "status_code (PackageLimitError _) = 402"
| "status_code (AccountDeletionPendingError _) = 403"
| "status_code (DeletionAlreadyRequestedError _) = 409"
| "status_code (ObligationsOpenError _ _) = 409"
| "status_code (IntegrityError _) = 409"
| "status_code (TenantContextError _) = 500"
| "status_code (PayloadTooLargeError _) = 413"
| "status_code (UpstreamUnavailableError _) = 503"
| "status_code (InternalError _) = 500"

type_synonym 'a result = "api_error + 'a"

definition bind_result :: "'a result \<Rightarrow> ('a \<Rightarrow> 'b result) \<Rightarrow> 'b result" where
  "bind_result r f = (case r of Inl e \<Rightarrow> Inl e | Inr x \<Rightarrow> f x)"

lemma bind_result_simps [simp]:
  "bind_result (Inl e) f = Inl e"
  "bind_result (Inr x) f = f x"
  by (simp_all add: bind_result_def)

lemma bind_result_Inr_iff:
  "bind_result r f = Inr y \<longleftrightarrow> (\<exists>x. r = Inr x \<and> f x = Inr y)"
  by (auto simp: bind_result_def split: sum.splits)

lemma bind_result_InrE [elim!]:
  assumes "bind_result r f = Inr y"
  obtains x where "r = Inr x" and "f x = Inr y"
  using assms by (auto simp: bind_result_Inr_iff)

text \<open>A loop that stops at the first error, collecting results or threading a state.\<close>

fun map_result :: "('a \<Rightarrow> 'b result) \<Rightarrow> 'a list \<Rightarrow> 'b list result" where
  "map_result f [] = Inr []"
| "map_result f (x # xs) = bind_result (f x) (\<lambda>y. bind_result (map_result f xs) (\<lambda>ys. Inr (y # ys)))"

fun fold_result :: "('a \<Rightarrow> 's \<Rightarrow> 's result) \<Rightarrow> 'a list \<Rightarrow> 's \<Rightarrow> 's result" where
  "fold_result f [] s = Inr s"
| "fold_result f (x # xs) s = bind_result (f x s) (fold_result f xs)"

lemma map_result_Inr_iff:
  "map_result f xs = Inr ys \<longleftrightarrow> list_all2 (\<lambda>x y. f x = Inr y) xs ys"
  by (induction xs arbitrary: ys) (auto simp: bind_result_Inr_iff list_all2_Cons1)

lemma fold_result_invariant:
  assumes "fold_result f xs s = Inr s'" and "P s"
    and "\<And>x s s'. x \<in> set xs \<Longrightarrow> P s \<Longrightarrow> f x s = Inr s' \<Longrightarrow> P s'"
  shows "P s'"
  using assms
proof (induction xs arbitrary: s)
  case (Cons x xs)
  from Cons.prems(1) obtain t where t: "f x s = Inr t" "fold_result f xs t = Inr s'"
    by (auto simp: bind_result_Inr_iff)
  show ?case
    by (rule Cons.IH [OF t(2)]) (use Cons.prems t(1) in \<open>auto\<close>)
qed simp

section \<open>Tables\<close>

text \<open>
  A table is the list of its rows in the order they were inserted (the order of their
  ids). \<open>get_row\<close> is the ORM's \<^verbatim>\<open>db.get(Model, id)\<close>, \<open>sum_where\<close> is
  \<^verbatim>\<open>COALESCE(SUM(column), 0) WHERE ...\<close>.
\<close>

definition get_row :: "('r \<Rightarrow> 'k) \<Rightarrow> 'k \<Rightarrow> 'r list \<Rightarrow> 'r option" where
  "get_row key k rows = find (\<lambda>r. key r = k) rows"

definition sum_where :: "('r \<Rightarrow> 'n::comm_monoid_add) \<Rightarrow> ('r \<Rightarrow> bool) \<Rightarrow> 'r list \<Rightarrow> 'n" where
  "sum_where f P rows = sum_list (map f (filter P rows))"

definition update_where :: "('r \<Rightarrow> bool) \<Rightarrow> ('r \<Rightarrow> 'r) \<Rightarrow> 'r list \<Rightarrow> 'r list" where
  "update_where P f rows = map (\<lambda>r. if P r then f r else r) rows"

lemma get_row_Nil [simp, table_simps]: "get_row key k [] = None"
  by (simp add: get_row_def)

lemma get_row_Cons [simp, table_simps]:
  "get_row key k (r # rows) = (if key r = k then Some r else get_row key k rows)"
  by (simp add: get_row_def)

lemma get_row_append [table_simps]:
  "get_row key k (xs @ ys) = (case get_row key k xs of None \<Rightarrow> get_row key k ys | Some r \<Rightarrow> Some r)"
  by (induction xs) auto

lemma get_row_Some_iff_distinct:
  "distinct (map key rows) \<Longrightarrow> get_row key k rows = Some r \<longleftrightarrow> r \<in> set rows \<and> key r = k"
  by (induction rows) (auto split: if_splits)

lemma get_row_SomeD: "get_row key k rows = Some r \<Longrightarrow> r \<in> set rows \<and> key r = k"
  by (induction rows) (auto split: if_splits)

lemma get_row_None_iff: "get_row key k rows = None \<longleftrightarrow> (\<forall>r \<in> set rows. key r \<noteq> k)"
  by (induction rows) auto

lemma get_row_None_notin: "get_row key k rows = None \<longleftrightarrow> k \<notin> key ` set rows"
  by (auto simp: get_row_None_iff)

lemma sum_where_Nil [simp, table_simps]: "sum_where f P [] = 0"
  by (simp add: sum_where_def)

lemma sum_where_Cons [simp, table_simps]:
  "sum_where f P (r # rows) = (if P r then f r + sum_where f P rows else sum_where f P rows)"
  by (simp add: sum_where_def)

lemma sum_where_append [simp, table_simps]:
  "sum_where f P (xs @ ys) = sum_where f P xs + sum_where f P ys"
  by (simp add: sum_where_def)

lemma sum_where_cong:
  assumes "\<And>r. r \<in> set rows \<Longrightarrow> P r = Q r" and "\<And>r. r \<in> set rows \<Longrightarrow> Q r \<Longrightarrow> f r = g r"
  shows "sum_where f P rows = sum_where g Q rows"
  using assms by (induction rows) auto

lemma sum_where_none: "(\<And>r. r \<in> set rows \<Longrightarrow> \<not> P r) \<Longrightarrow> sum_where f P rows = 0"
  by (induction rows) auto

lemma sum_where_filter [simp, table_simps]:
  "sum_where f P (filter Q rows) = sum_where f (\<lambda>r. P r \<and> Q r) rows"
  by (induction rows) auto

lemma sum_where_map [simp, table_simps]:
  "sum_where f P (map g rows) = sum_where (f \<circ> g) (P \<circ> g) rows"
  by (induction rows) auto

lemma sum_where_nonneg:
  "(\<And>r. r \<in> set rows \<Longrightarrow> P r \<Longrightarrow> 0 \<le> f r) \<Longrightarrow> (0::'n::ordered_comm_monoid_add) \<le> sum_where f P rows"
  by (induction rows) (auto intro: add_nonneg_nonneg)

lemma sum_where_mono_pred:
  fixes f :: "'r \<Rightarrow> 'n::ordered_comm_monoid_add"
  assumes "\<And>r. r \<in> set rows \<Longrightarrow> P r \<Longrightarrow> Q r"
    and "\<And>r. r \<in> set rows \<Longrightarrow> Q r \<Longrightarrow> 0 \<le> f r"
  shows "sum_where f P rows \<le> sum_where f Q rows"
  using assms
proof (induction rows)
  case Nil
  then show ?case by simp
next
  case (Cons r rows)
  then have IH: "sum_where f P rows \<le> sum_where f Q rows" by simp
  show ?case
  proof (cases "P r")
    case True
    with Cons.prems IH show ?thesis by (simp add: add_left_mono)
  next
    case False
    show ?thesis
    proof (cases "Q r")
      case True
      with Cons.prems have "0 \<le> f r" by simp
      with IH True False show ?thesis by (simp add: add_increasing)
    qed (use False IH in simp)
  qed
qed

lemma sum_where_split:
  "sum_where f P rows = sum_where f (\<lambda>r. P r \<and> Q r) rows + sum_where f (\<lambda>r. P r \<and> \<not> Q r) rows"
  by (induction rows) (auto simp: ac_simps)

lemma length_update_where [simp]: "length (update_where P f rows) = length rows"
  by (simp add: update_where_def)

lemma update_where_Nil [simp, table_simps]: "update_where P f [] = []"
  by (simp add: update_where_def)

lemma update_where_Cons [simp, table_simps]:
  "update_where P f (r # rows) = (if P r then f r else r) # update_where P f rows"
  by (simp add: update_where_def)

lemma set_update_where:
  "set (update_where P f rows) = f ` {r \<in> set rows. P r} \<union> {r \<in> set rows. \<not> P r}"
  by (auto simp: update_where_def)

lemma map_key_update_where:
  "(\<And>r. key (f r) = key r) \<Longrightarrow> map key (update_where P f rows) = map key rows"
  by (induction rows) auto

lemma get_row_update_where_gen:
  assumes "\<And>r. key (f r) = key r"
  shows "get_row key k (update_where P f rows) =
           map_option (\<lambda>r. if P r then f r else r) (get_row key k rows)"
  using assms by (induction rows) auto

lemma get_row_update_where:
  assumes "\<And>r. key (f r) = key r"
  shows "get_row key k (update_where (\<lambda>r. key r = i) f rows) =
           (if k = i then map_option f (get_row key k rows) else get_row key k rows)"
  using assms by (induction rows) auto

text \<open>Summing group by group is summing once, when the groups cover the rows and do not overlap.\<close>

lemma sum_list_filter_where: "sum_list (map f (filter P rows)) = sum_where f P rows"
  by (simp add: sum_where_def)

lemma sum_where_groups:
  fixes f :: "'r \<Rightarrow> 'n::comm_monoid_add"
  assumes "distinct ks" and "\<And>r. r \<in> set rows \<Longrightarrow> P r \<Longrightarrow> key r \<in> set ks"
  shows "sum_list (map (\<lambda>k. sum_where f (\<lambda>r. key r = k \<and> P r) rows) ks) = sum_where f P rows"
  using assms(2)
proof (induction rows)
  case Nil
  then show ?case by (induction ks) simp_all
next
  case (Cons r rows)
  have one: "sum_list (map (\<lambda>k. if key r = k then f r else 0) ks) = (if key r \<in> set ks then f r else 0)"
    using assms(1) by (induction ks) auto
  have "sum_list (map (\<lambda>k. sum_where f (\<lambda>r. key r = k \<and> P r) (r # rows)) ks) =
      sum_list (map (\<lambda>k. (if key r = k then if P r then f r else 0 else 0) +
        sum_where f (\<lambda>r. key r = k \<and> P r) rows) ks)"
    by (intro arg_cong [where f = sum_list] map_cong) auto
  also have "\<dots> = (if P r then sum_list (map (\<lambda>k. if key r = k then f r else 0) ks) else 0) +
      sum_list (map (\<lambda>k. sum_where f (\<lambda>r. key r = k \<and> P r) rows) ks)"
    by (cases "P r") (simp_all add: sum_list_addf)
  also have "\<dots> = sum_where f P (r # rows)"
    using Cons one by auto
  finally show ?case .
qed

lemma sum_where_as_max:
  fixes f :: "'r \<Rightarrow> 'n::linordered_ab_group_add"
  shows "sum_where f (\<lambda>r. 0 < f r) rows = sum_list (map (\<lambda>r. max 0 (f r)) rows)"
  by (induction rows) (auto simp: max_def)

lemma distinct_map_filter_subset:
  "distinct (map key rows) \<Longrightarrow> distinct (map key (filter P rows))"
  by (rule distinct_map_filter)

text \<open>Counting rows through the replacement or the removal of the row with one key.\<close>

lemma update_where_absent: "k \<notin> key ` set rows \<Longrightarrow> update_where (\<lambda>r. key r = k) f rows = rows"
  by (induction rows) auto

lemma count_replaced:
  assumes "distinct (map key rows)" and "get_row key k rows = Some r"
  shows "length (filter P (update_where (\<lambda>r. key r = k) (\<lambda>_. x) rows)) + (if P r then 1 else 0) =
           length (filter P rows) + (if P x then 1 else 0)"
  using assms
proof (induction rows)
  case (Cons y rows)
  then show ?case by (cases "key y = k") (simp_all add: update_where_absent)
qed simp

lemma get_row_replaced:
  assumes "key x = k"
  shows "get_row key j (update_where (\<lambda>r. key r = k) (\<lambda>_. x) rows) =
    (if j = k then map_option (\<lambda>_. x) (get_row key k rows) else get_row key j rows)"
  using assms by (induction rows) auto

lemma filter_update_where:
  "(\<And>r. P (f r) = P r) \<Longrightarrow> filter P (update_where P f rows) = map f (filter P rows)"
  by (induction rows) auto

lemma replace_back:
  assumes "distinct (map key rows)" and "r \<in> set rows" and "key x = key r"
  shows "update_where (\<lambda>y. key y = key r) (\<lambda>_. r) (update_where (\<lambda>y. key y = key r) (\<lambda>_. x) rows) = rows"
  using assms by (auto simp: update_where_def intro!: map_idI dest: inj_onD simp: distinct_map)

lemma filter_absent: "k \<notin> key ` set rows \<Longrightarrow> filter (\<lambda>r. key r \<noteq> k) rows = rows"
  by (induction rows) auto

lemma count_removed:
  assumes "distinct (map key rows)" and "get_row key k rows = Some r"
  shows "length (filter P (filter (\<lambda>r. key r \<noteq> k) rows)) + (if P r then 1 else 0) =
           length (filter P rows)"
  using assms
proof (induction rows)
  case (Cons y rows)
  show ?case
  proof (cases "key y = k")
    case True
    with Cons.prems have "filter (\<lambda>r. key r \<noteq> k) rows = rows" by (simp add: filter_absent)
    with True Cons.prems show ?thesis by simp
  next
    case False
    with Cons show ?thesis by simp
  qed
qed simp

section \<open>Strings\<close>

text \<open>
  \<^verbatim>\<open>str.lower\<close>, \<^verbatim>\<open>str.strip\<close> and \<^verbatim>\<open>str.isdigit\<close> on ASCII text. Status keys, permission
  names, package audiences and period strings are all ASCII in the source.
\<close>

definition lower_char :: "char \<Rightarrow> char" where
  "lower_char c = (let n = (of_char c :: nat) in if 65 \<le> n \<and> n \<le> 90 then char_of (n + 32) else c)"

definition upper_char :: "char \<Rightarrow> char" where
  "upper_char c = (let n = (of_char c :: nat) in if 97 \<le> n \<and> n \<le> 122 then char_of (n - 32) else c)"

definition lower :: "string \<Rightarrow> string" where
  "lower = map lower_char"

definition is_space :: "char \<Rightarrow> bool" where
  "is_space c = (let n = (of_char c :: nat) in n = 32 \<or> (9 \<le> n \<and> n \<le> 13) \<or> (28 \<le> n \<and> n \<le> 31))"

definition strip :: "string \<Rightarrow> string" where
  "strip s = rev (dropWhile is_space (rev (dropWhile is_space s)))"

definition is_alpha :: "char \<Rightarrow> bool" where
  "is_alpha c = (let n = (of_char c :: nat) in (65 \<le> n \<and> n \<le> 90) \<or> (97 \<le> n \<and> n \<le> 122))"

definition is_digit :: "char \<Rightarrow> bool" where
  "is_digit c = (let n = (of_char c :: nat) in 48 \<le> n \<and> n \<le> 57)"

text \<open>\<^verbatim>\<open>(value or "")\<close>, and \<^verbatim>\<open>(value or "").strip() or None\<close>.\<close>

definition or_blank :: "string option \<Rightarrow> string" where
  "or_blank v = (case v of None \<Rightarrow> [] | Some s \<Rightarrow> s)"

definition strip_or_none :: "string option \<Rightarrow> string option" where
  "strip_or_none v = (let s = strip (or_blank v) in if s = [] then None else Some s)"

lemma of_char_lower [simp]:
  "(of_char (lower_char c) :: nat) =
     (let n = of_char c in if 65 \<le> n \<and> n \<le> 90 then n + 32 else n)"
  by (simp add: lower_char_def Let_def)

lemma lower_char_idem [simp]: "lower_char (lower_char c) = lower_char c"
proof -
  have "(of_char (lower_char (lower_char c)) :: nat) = of_char (lower_char c)"
    unfolding of_char_lower by (simp add: Let_def)
  then show ?thesis by (simp only: of_char_eq_iff)
qed

lemma lower_idem [simp]: "lower (lower s) = lower s"
  by (simp add: lower_def)

lemma is_space_lower [simp]: "is_space (lower_char c) = is_space c"
  by (auto simp: is_space_def Let_def)

lemma dropWhile_space_lower: "dropWhile is_space (lower s) = lower (dropWhile is_space s)"
  by (induction s) (simp_all add: lower_def)

lemma rev_lower: "rev (lower s) = lower (rev s)"
  by (simp add: lower_def rev_map)

lemma strip_lower: "strip (lower s) = lower (strip s)"
  by (simp add: strip_def dropWhile_space_lower rev_lower)

lemma dropWhile_twice [simp]: "dropWhile P (dropWhile P xs) = dropWhile P xs"
  by (induction xs) auto

lemma dropWhile_last_stays:
  "dropWhile P xs \<noteq> [] \<Longrightarrow> last (dropWhile P xs) = last xs"
  by (induction xs) (auto split: if_splits)

lemma dropWhile_strip: "dropWhile is_space (strip s) = strip s"
proof (cases "strip s")
  case Nil
  then show ?thesis by simp
next
  case (Cons c cs)
  let ?d = "dropWhile is_space s"
  have ne: "dropWhile is_space (rev ?d) \<noteq> []" using Cons by (auto simp: strip_def)
  have "c = hd (strip s)" using Cons by simp
  also have "\<dots> = last (dropWhile is_space (rev ?d))" using ne by (simp add: strip_def hd_rev)
  also have "\<dots> = last (rev ?d)" by (rule dropWhile_last_stays [OF ne])
  finally have c: "c = last (rev ?d)" .
  have "?d \<noteq> []" using ne by (cases "?d") simp_all
  then have "c = hd ?d" using c by (simp add: last_rev)
  moreover have "\<not> is_space (hd ?d)" using \<open>?d \<noteq> []\<close> by (rule hd_dropWhile)
  ultimately show ?thesis using Cons by simp
qed

lemma strip_idem [simp]: "strip (strip s) = strip s"
proof -
  have "strip (strip s) = rev (dropWhile is_space (rev (strip s)))"
    by (simp add: strip_def [of "strip s"] dropWhile_strip)
  also have "rev (strip s) = dropWhile is_space (rev (dropWhile is_space s))"
    by (simp add: strip_def)
  finally show ?thesis by (simp add: strip_def)
qed

lemmas string_defs [string_simps] =
  lower_def lower_char_def strip_def is_space_def is_alpha_def is_digit_def upper_char_def
  or_blank_def strip_or_none_def Let_def

text \<open>\<^verbatim>\<open>" ".join(value.split())\<close>: \<open>pending\<close> says that a space is due before the next word.\<close>

fun collapse_from :: "bool \<Rightarrow> bool \<Rightarrow> string \<Rightarrow> string" where
  "collapse_from started pending [] = []"
| "collapse_from started pending (c # cs) =
     (if is_space c then collapse_from started started cs
      else (if pending then [CHR '' '', c] else [c]) @ collapse_from True False cs)"

definition collapse_spaces :: "string \<Rightarrow> string" where
  "collapse_spaces = collapse_from False False"

end
