(* ===== verification/Permissions.thy ===== *)
theory Permissions
  imports Prelude
begin

text \<open>
  \<^verbatim>\<open>security/permissions.py\<close> and \<^verbatim>\<open>domain/plans.py\<close>: the permission catalogue, the role
  bundles, the plan masks and \<open>effective_permissions\<close>, which combines role, per-user
  overrides and plan in that order. Frozensets are sets given by their elements, the
  overrides dictionary is the list of its items in order.
\<close>

section \<open>The catalogue\<close>

datatype permission =
    ORDERS_READ | ORDERS_WRITE | ORDERS_DELETE | ORDERS_CHANGE_STATUS
  | CLIENTS_READ | CLIENTS_WRITE | TRANSLATORS_READ | TRANSLATORS_WRITE
  | NOTARIES_READ | NOTARIES_WRITE | FINANCE_READ | FINANCE_RECORD_PAYMENT
  | FINANCE_REFUND | FINANCE_TRANSFER | FINANCE_EXPENSES | REPORTS_READ
  | REPORTS_PROFIT | USERS_INVITE | USERS_MANAGE | SETTINGS_MANAGE
  | APIKEYS_MANAGE | CMS_MANAGE | TENANT_MANAGE | TENANT_BILLING
  | PLATFORM_TENANTS | PLATFORM_IMPERSONATE | PLATFORM_AUDIT

fun permission_value :: "permission \<Rightarrow> string" where
  "permission_value ORDERS_READ = ''orders.read''"
| "permission_value ORDERS_WRITE = ''orders.write''"
| "permission_value ORDERS_DELETE = ''orders.delete''"
| "permission_value ORDERS_CHANGE_STATUS = ''orders.change_status''"
| "permission_value CLIENTS_READ = ''clients.read''"
| "permission_value CLIENTS_WRITE = ''clients.write''"
| "permission_value TRANSLATORS_READ = ''translators.read''"
| "permission_value TRANSLATORS_WRITE = ''translators.write''"
| "permission_value NOTARIES_READ = ''notaries.read''"
| "permission_value NOTARIES_WRITE = ''notaries.write''"
| "permission_value FINANCE_READ = ''finance.read''"
| "permission_value FINANCE_RECORD_PAYMENT = ''finance.record_payment''"
| "permission_value FINANCE_REFUND = ''finance.refund''"
| "permission_value FINANCE_TRANSFER = ''finance.transfer''"
| "permission_value FINANCE_EXPENSES = ''finance.expenses''"
| "permission_value REPORTS_READ = ''reports.read''"
| "permission_value REPORTS_PROFIT = ''reports.profit''"
| "permission_value USERS_INVITE = ''users.invite''"
| "permission_value USERS_MANAGE = ''users.manage''"
| "permission_value SETTINGS_MANAGE = ''settings.manage''"
| "permission_value APIKEYS_MANAGE = ''apikeys.manage''"
| "permission_value CMS_MANAGE = ''cms.manage''"
| "permission_value TENANT_MANAGE = ''tenant.manage''"
| "permission_value TENANT_BILLING = ''tenant.billing''"
| "permission_value PLATFORM_TENANTS = ''platform.tenants''"
| "permission_value PLATFORM_IMPERSONATE = ''platform.impersonate''"
| "permission_value PLATFORM_AUDIT = ''platform.audit''"

definition all_permissions :: "permission list" where
  "all_permissions =
  [ORDERS_READ, ORDERS_WRITE, ORDERS_DELETE, ORDERS_CHANGE_STATUS,
   CLIENTS_READ, CLIENTS_WRITE, TRANSLATORS_READ, TRANSLATORS_WRITE,
   NOTARIES_READ, NOTARIES_WRITE, FINANCE_READ, FINANCE_RECORD_PAYMENT,
   FINANCE_REFUND, FINANCE_TRANSFER, FINANCE_EXPENSES, REPORTS_READ,
   REPORTS_PROFIT, USERS_INVITE, USERS_MANAGE, SETTINGS_MANAGE,
   APIKEYS_MANAGE, CMS_MANAGE, TENANT_MANAGE, TENANT_BILLING,
   PLATFORM_TENANTS, PLATFORM_IMPERSONATE, PLATFORM_AUDIT]"

lemma UNIV_permission: "UNIV = set all_permissions"
proof -
  have "p \<in> set all_permissions" for p by (cases p) (simp_all add: all_permissions_def)
  then show ?thesis by blast
qed

instantiation permission :: finite
begin
instance by standard (simp add: UNIV_permission)
end

text \<open>\<^verbatim>\<open>Permission(name)\<close>, with \<open>None\<close> where the enum raises \<^verbatim>\<open>ValueError\<close>.\<close>

definition permission_of :: "string \<Rightarrow> permission option" where
  "permission_of name = find (\<lambda>p. permission_value p = name) all_permissions"

lemma permission_of_value [simp]: "permission_of (permission_value p) = Some p"
  by (cases p) (simp_all add: permission_of_def all_permissions_def)

lemma permission_of_SomeD: "permission_of name = Some p \<Longrightarrow> permission_value p = name"
  by (auto simp: permission_of_def find_Some_iff)

section \<open>Roles\<close>

datatype role = SUPERUSER | OWNER | ADMIN | MANAGER | STAFF

definition STAFF_bundle :: "permission set" where
  "STAFF_bundle = {ORDERS_READ, ORDERS_WRITE, ORDERS_CHANGE_STATUS, CLIENTS_READ, CLIENTS_WRITE,
     TRANSLATORS_READ, NOTARIES_READ, REPORTS_READ}"

definition MANAGER_bundle :: "permission set" where
  "MANAGER_bundle = STAFF_bundle \<union> {ORDERS_DELETE, TRANSLATORS_WRITE, NOTARIES_WRITE, FINANCE_READ,
     FINANCE_RECORD_PAYMENT, FINANCE_EXPENSES, REPORTS_PROFIT, USERS_INVITE}"

definition ADMIN_bundle :: "permission set" where
  "ADMIN_bundle = MANAGER_bundle \<union> {FINANCE_REFUND, FINANCE_TRANSFER, USERS_MANAGE,
     SETTINGS_MANAGE, APIKEYS_MANAGE, CMS_MANAGE}"

definition OWNER_bundle :: "permission set" where
  "OWNER_bundle = ADMIN_bundle \<union> {TENANT_MANAGE, TENANT_BILLING}"

definition SUPERUSER_bundle :: "permission set" where
  "SUPERUSER_bundle = OWNER_bundle \<union> {PLATFORM_TENANTS, PLATFORM_IMPERSONATE, PLATFORM_AUDIT}"

lemmas bundle_defs =
  STAFF_bundle_def MANAGER_bundle_def ADMIN_bundle_def OWNER_bundle_def SUPERUSER_bundle_def

fun permissions_for_role :: "role \<Rightarrow> permission set" where
  "permissions_for_role STAFF = STAFF_bundle"
| "permissions_for_role MANAGER = MANAGER_bundle"
| "permissions_for_role ADMIN = ADMIN_bundle"
| "permissions_for_role OWNER = OWNER_bundle"
| "permissions_for_role SUPERUSER = SUPERUSER_bundle"

definition has_permission :: "role \<Rightarrow> permission \<Rightarrow> bool" where
  "has_permission role permission \<longleftrightarrow> permission \<in> permissions_for_role role"

definition MFA_REQUIRED_ROLES :: "role set" where
  "MFA_REQUIRED_ROLES = {SUPERUSER, OWNER, ADMIN}"

definition STEP_UP_PERMISSIONS :: "permission set" where
  "STEP_UP_PERMISSIONS = {FINANCE_TRANSFER, APIKEYS_MANAGE, SETTINGS_MANAGE, USERS_MANAGE,
     USERS_INVITE, TENANT_MANAGE, PLATFORM_IMPERSONATE}"

definition requires_step_up :: "permission \<Rightarrow> bool" where
  "requires_step_up permission \<longleftrightarrow> permission \<in> STEP_UP_PERMISSIONS"

definition requires_mfa :: "role \<Rightarrow> bool" where
  "requires_mfa role \<longleftrightarrow> role \<in> MFA_REQUIRED_ROLES"

section \<open>Plans\<close>

datatype tenant_plan = FREELANCER | BUREAU

definition DEFAULT_PLAN :: tenant_plan where
  "DEFAULT_PLAN = FREELANCER"

definition FREELANCER_mask :: "permission set" where
  "FREELANCER_mask = {ORDERS_READ, ORDERS_WRITE, ORDERS_DELETE, ORDERS_CHANGE_STATUS,
     CLIENTS_READ, CLIENTS_WRITE, NOTARIES_READ, NOTARIES_WRITE, REPORTS_READ, REPORTS_PROFIT,
     FINANCE_READ, FINANCE_RECORD_PAYMENT, FINANCE_REFUND, FINANCE_EXPENSES,
     SETTINGS_MANAGE, TENANT_MANAGE, TENANT_BILLING}"

definition BUREAU_mask :: "permission set" where
  "BUREAU_mask = set all_permissions"

fun permissions_for_plan :: "tenant_plan \<Rightarrow> permission set" where
  "permissions_for_plan FREELANCER = FREELANCER_mask"
| "permissions_for_plan BUREAU = BUREAU_mask"

datatype feature = NOTIFICATIONS

fun plan_features :: "tenant_plan \<Rightarrow> feature set" where
  "plan_features FREELANCER = {}"
| "plan_features BUREAU = {NOTIFICATIONS}"

definition allows_feature :: "tenant_plan \<Rightarrow> feature \<Rightarrow> bool" where
  "allows_feature plan feature \<longleftrightarrow> feature \<in> plan_features plan"

datatype integration_provider =
  GOOGLE_DRIVE | BOG_ECOMMERCE | BOG_BUSINESS | SMS_OFFICE | SMTP | ELEVENLABS | RECAPTCHA | API24

fun providers_for_plan :: "tenant_plan \<Rightarrow> integration_provider set" where
  "providers_for_plan FREELANCER = {}"
| "providers_for_plan BUREAU = {GOOGLE_DRIVE, BOG_ECOMMERCE, BOG_BUSINESS, SMS_OFFICE, SMTP,
     ELEVENLABS, RECAPTCHA, API24}"

definition allows_provider :: "tenant_plan \<Rightarrow> integration_provider \<Rightarrow> bool" where
  "allows_provider plan provider \<longleftrightarrow> provider \<in> providers_for_plan plan"

text \<open>A stored plan string; unset, empty or unrecognised is \<open>None\<close>.\<close>

definition parse_plan :: "string option \<Rightarrow> tenant_plan option" where
  "parse_plan value =
     (case value of
        None \<Rightarrow> None
      | Some s \<Rightarrow>
          if s = ''freelancer'' then Some FREELANCER
          else if s = ''bureau'' then Some BUREAU
          else None)"

definition effective_plan :: "string option \<Rightarrow> tenant_plan" where
  "effective_plan value = (case parse_plan value of None \<Rightarrow> DEFAULT_PLAN | Some p \<Rightarrow> p)"

section \<open>What a person may do\<close>

definition NON_OVERRIDABLE :: "permission set" where
  "NON_OVERRIDABLE = {PLATFORM_TENANTS, PLATFORM_IMPERSONATE, PLATFORM_AUDIT}"

definition OVERRIDABLE :: "permission set" where
  "OVERRIDABLE = set all_permissions - NON_OVERRIDABLE"

text \<open>One turn of the loop over \<^verbatim>\<open>overrides.items()\<close>.\<close>

definition apply_override :: "string \<times> bool \<Rightarrow> permission set \<Rightarrow> permission set" where
  "apply_override item granted =
     (case item of (name, allow) \<Rightarrow>
        (case permission_of name of
           None \<Rightarrow> granted
         | Some permission \<Rightarrow>
             if permission \<in> NON_OVERRIDABLE then granted
             else if allow then insert permission granted
             else granted - {permission}))"

definition effective_permissions ::
    "role \<Rightarrow> tenant_plan \<Rightarrow> (string \<times> bool) list \<Rightarrow> permission set" where
  "effective_permissions role plan overrides =
     (let granted = fold apply_override overrides (permissions_for_role role);
          granted = (if USERS_MANAGE \<in> granted then insert USERS_INVITE granted else granted)
      in granted \<inter> permissions_for_plan plan)"

definition overridable_for_plan :: "tenant_plan \<Rightarrow> permission set" where
  "overridable_for_plan plan = OVERRIDABLE \<inter> permissions_for_plan plan"

section \<open>Facts about the catalogue\<close>

fun rank :: "role \<Rightarrow> nat" where
  "rank STAFF = 1"
| "rank MANAGER = 2"
| "rank ADMIN = 3"
| "rank OWNER = 4"
| "rank SUPERUSER = 5"

lemma rank_inj: "rank r = rank r' \<Longrightarrow> r = r'"
  by (cases r; cases r') simp_all

lemma bundle_steps:
  "STAFF_bundle \<subseteq> MANAGER_bundle" "MANAGER_bundle \<subseteq> ADMIN_bundle"
  "ADMIN_bundle \<subseteq> OWNER_bundle" "OWNER_bundle \<subseteq> SUPERUSER_bundle"
  unfolding MANAGER_bundle_def ADMIN_bundle_def OWNER_bundle_def SUPERUSER_bundle_def
  by (rule Un_upper1)+

lemma bundle_mono: "rank r \<le> rank r' \<Longrightarrow> permissions_for_role r \<subseteq> permissions_for_role r'"
  using bundle_steps by (cases r; cases r') auto

lemma platform_only_superuser:
  "p \<in> NON_OVERRIDABLE \<Longrightarrow> p \<in> permissions_for_role r \<Longrightarrow> r = SUPERUSER"
  by (cases r) (auto simp: NON_OVERRIDABLE_def bundle_defs)

lemma manage_implies_invite_in_bundle:
  "USERS_MANAGE \<in> permissions_for_role r \<Longrightarrow> USERS_INVITE \<in> permissions_for_role r"
  by (cases r) (simp_all add: bundle_defs)

lemma in_all_permissions [simp]: "p \<in> set all_permissions"
  using UNIV_permission by blast

lemma OVERRIDABLE_iff [simp]: "p \<in> OVERRIDABLE \<longleftrightarrow> p \<notin> NON_OVERRIDABLE"
  by (simp add: OVERRIDABLE_def)

lemma BUREAU_mask_all [simp]: "p \<in> BUREAU_mask"
  by (simp add: BUREAU_mask_def)

lemma plan_manage_invite:
  "USERS_MANAGE \<in> permissions_for_plan plan \<Longrightarrow> USERS_INVITE \<in> permissions_for_plan plan"
  by (cases plan) (simp_all add: FREELANCER_mask_def)

lemma users_not_platform [simp]: "USERS_MANAGE \<notin> NON_OVERRIDABLE" "USERS_INVITE \<notin> NON_OVERRIDABLE"
  by (simp_all add: NON_OVERRIDABLE_def)

section \<open>What overrides do\<close>

text \<open>
  The overrides are a dictionary, so its names are distinct; then the outcome for one
  permission depends on its own entry alone, in whatever order the items come.
\<close>

definition granted_by :: "permission set \<Rightarrow> (string \<times> bool) list \<Rightarrow> permission \<Rightarrow> bool" where
  "granted_by base overrides p =
     (if p \<in> NON_OVERRIDABLE then p \<in> base
      else case map_of overrides (permission_value p) of
             Some allow \<Rightarrow> allow
           | None \<Rightarrow> p \<in> base)"

lemma permission_value_inj: "permission_value p = permission_value q \<Longrightarrow> p = q"
  by (metis option.inject permission_of_value)

lemma apply_override_other:
  "permission_value p \<noteq> name \<or> p \<in> NON_OVERRIDABLE \<Longrightarrow>
     p \<in> apply_override (name, allow) S \<longleftrightarrow> p \<in> S"
  by (auto simp: apply_override_def split: option.splits dest!: permission_of_SomeD)

lemma apply_override_same:
  "p \<notin> NON_OVERRIDABLE \<Longrightarrow> p \<in> apply_override (permission_value p, allow) S \<longleftrightarrow> allow"
  by (simp add: apply_override_def)

lemma map_of_notin: "k \<notin> fst ` set ov \<Longrightarrow> map_of ov k = None"
  by (simp add: map_of_eq_None_iff)

lemma fold_apply_override:
  "distinct (map fst ov) \<Longrightarrow> p \<in> fold apply_override ov S \<longleftrightarrow> granted_by S ov p"
proof (induction ov arbitrary: S)
  case Nil
  then show ?case by (simp add: granted_by_def)
next
  case (Cons item ov)
  obtain name allow where item: "item = (name, allow)" by (cases item)
  from Cons have IH: "p \<in> fold apply_override (item # ov) S \<longleftrightarrow> granted_by (apply_override item S) ov p"
    by simp
  show ?case
  proof (cases "p \<notin> NON_OVERRIDABLE \<and> name = permission_value p")
    case True
    then have "map_of ov (permission_value p) = None"
      using Cons.prems by (simp add: item map_of_eq_None_iff)
    with True IH show ?thesis by (simp add: item granted_by_def apply_override_same)
  next
    case False
    then have "p \<in> apply_override (name, allow) S \<longleftrightarrow> p \<in> S" by (auto simp: apply_override_other)
    moreover have "p \<in> NON_OVERRIDABLE \<or> name \<noteq> permission_value p" using False by blast
    ultimately show ?thesis using IH unfolding item granted_by_def
      by (cases "p \<in> NON_OVERRIDABLE") (simp_all split: option.split)
  qed
qed

lemma fold_apply_override_platform:
  "p \<in> NON_OVERRIDABLE \<Longrightarrow> p \<in> fold apply_override ov S \<longleftrightarrow> p \<in> S"
proof (induction ov arbitrary: S)
  case (Cons item ov)
  then show ?case by (cases item) (simp add: apply_override_other)
qed simp

lemma effective_permissions_mem:
  assumes "distinct (map fst ov)"
  shows "p \<in> effective_permissions role plan ov \<longleftrightarrow>
           p \<in> permissions_for_plan plan \<and>
           (granted_by (permissions_for_role role) ov p \<or>
            (p = USERS_INVITE \<and> granted_by (permissions_for_role role) ov USERS_MANAGE))"
  using assms by (auto simp: effective_permissions_def Let_def fold_apply_override)

lemma effective_within_plan: "effective_permissions role plan ov \<subseteq> permissions_for_plan plan"
  by (auto simp: effective_permissions_def Let_def)

lemma effective_manage_invite:
  "USERS_MANAGE \<in> effective_permissions role plan ov \<Longrightarrow> USERS_INVITE \<in> effective_permissions role plan ov"
  by (auto simp: effective_permissions_def Let_def plan_manage_invite split: if_splits)

lemma effective_platform:
  "p \<in> NON_OVERRIDABLE \<Longrightarrow> p \<in> effective_permissions role plan ov \<longleftrightarrow>
     p \<in> permissions_for_role role \<and> p \<in> permissions_for_plan plan"
  by (auto simp: effective_permissions_def Let_def fold_apply_override_platform)

lemma effective_no_overrides:
  "effective_permissions role plan [] = permissions_for_role role \<inter> permissions_for_plan plan"
  by (auto simp: effective_permissions_def Let_def manage_implies_invite_in_bundle)

section \<open>Properties\<close>

text \<open>What a person may do is exactly: allowed by the plan, and either ticked for them,
  or in their role and not unticked, or the invitation right that comes with managing users;
  a platform permission follows the role alone. Every item of the overrides counts for its own
  permission only, so the order of the dictionary does not matter.\<close>

lemma effective_permissions_spec:
  assumes "distinct (map fst overrides)"
  shows "p \<in> effective_permissions role plan overrides \<longleftrightarrow>
           p \<in> permissions_for_plan plan \<and>
           (if p \<in> NON_OVERRIDABLE then p \<in> permissions_for_role role
            else (case map_of overrides (permission_value p) of
                    Some allow \<Rightarrow> allow | None \<Rightarrow> p \<in> permissions_for_role role) \<or>
                 (p = USERS_INVITE \<and>
                  (case map_of overrides (permission_value USERS_MANAGE) of
                     Some allow \<Rightarrow> allow | None \<Rightarrow> USERS_MANAGE \<in> permissions_for_role role)))"
  using assms by (auto simp: effective_permissions_mem granted_by_def)

text \<open>Nobody below superuser ever holds a platform permission, and nobody holds one
  their plan withholds, whatever rows the override table has (also repeated, stale or
  hand-edited ones).\<close>

lemma effective_permissions_safe:
  "effective_permissions role plan overrides \<subseteq> permissions_for_plan plan \<and>
   (role \<noteq> SUPERUSER \<longrightarrow> effective_permissions role plan overrides \<inter> NON_OVERRIDABLE = {})"
  using effective_within_plan effective_platform platform_only_superuser by blast

end
