(* ===== verification/Models.thy ===== *)
theory Models
  imports Permissions
begin

text \<open>
  The rows people, organisations and sessions are stored in (\<^verbatim>\<open>models/user.py\<close>,
  \<^verbatim>\<open>models/tenant.py\<close>) and the settings the security code reads (\<^verbatim>\<open>config.py\<close>). A moment
  is the number of microseconds since the epoch, Python's own resolution of
  \<^verbatim>\<open>datetime\<close>, so a \<^verbatim>\<open>timedelta\<close> is an exact integer.
\<close>

type_synonym instant = int

definition seconds :: "int \<Rightarrow> int" where "seconds n = n * 1000000"
definition minutes :: "int \<Rightarrow> int" where "minutes n = seconds (n * 60)"
definition hours :: "int \<Rightarrow> int" where "hours n = minutes (n * 60)"
definition days :: "int \<Rightarrow> int" where "days n = hours (n * 24)"

lemmas time_units = days_def hours_def minutes_def seconds_def

datatype tenant_status = TRIAL | ACTIVE | SUSPENDED

record tenant =
  t_id :: int
  t_slug :: string
  t_display_name :: string
  t_status :: tenant_status
  t_plan :: "string option"
  t_package_tier :: int
  t_locale :: string
  t_timezone :: string
  t_claude_translate_enabled :: bool
  t_is_personal :: bool
  t_accepts_bureau_orders :: "bool option"
  t_created_at :: instant

definition is_usable :: "tenant \<Rightarrow> bool" where
  "is_usable t \<longleftrightarrow> t_status t = ACTIVE \<or> t_status t = TRIAL"

record account =
  a_id :: int
  a_email :: "string option"
  a_phone :: "string option"
  a_suliko_user_id :: "string option"
  a_password_hash :: string
  a_full_name :: string
  a_must_change_password :: bool
  a_email_verified_at :: "instant option"
  a_last_login_at :: "instant option"
  a_tips_seen :: "string list"
  a_created_at :: instant

record user =
  u_id :: int
  u_tenant_id :: int
  u_username :: string
  u_email :: "string option"
  u_full_name :: string
  u_position :: "string option"
  u_phone :: "string option"
  u_password_hash :: string
  u_role :: role
  u_is_active :: bool
  u_must_change_password :: bool
  u_email_verified_at :: "instant option"
  u_sessions_invalid_before :: "instant option"
  u_account_id :: "int option"
  u_invitation_pending :: bool
  u_last_login_at :: "instant option"

record permission_override =
  po_user_id :: int
  po_permission :: string
  po_granted :: bool

record mfa_method =
  mm_id :: int
  mm_user_id :: int
  mm_secret :: string
  mm_confirmed_at :: "instant option"
  mm_last_used_timestep :: "int option"

record recovery_code =
  rc_user_id :: int
  rc_code_hash :: string
  rc_used_at :: "instant option"

record reset_token =
  rt_user_id :: int
  rt_token_hash :: string
  rt_expires_at :: instant
  rt_used_at :: "instant option"
  rt_purpose :: string

text \<open>A staff invitation; the columns that seat someone in a directory row are left out.\<close>

datatype invite_kind = TRANSLATOR_invite | STAFF_invite

record account_invite =
  ai_kind :: invite_kind
  ai_user_id :: "int option"
  ai_invited_by_user_id :: "int option"
  ai_portal_translator_id :: "int option"

text \<open>One audit entry: who did what to which row (without the before/after snapshots).\<close>

datatype actor_type = USER_actor | SUPERUSER_actor | API_PARTNER_actor | SYSTEM_actor | PORTAL_ADMIN_actor

record audit_entry =
  au_tenant_id :: "int option"
  au_actor_id :: "int option"
  au_actor_type :: actor_type
  au_impersonated_by :: "int option"
  au_action :: string
  au_entity_type :: "string option"
  au_entity_id :: "int option"

record user_session =
  us_id :: int
  us_tenant_id :: int
  us_user_id :: int
  us_token_hash :: string
  us_created_at :: instant
  us_last_seen_at :: instant
  us_idle_expires_at :: instant
  us_absolute_expires_at :: instant
  us_mfa_satisfied_at :: "instant option"
  us_revoked_at :: "instant option"
  us_ip :: "string option"
  us_user_agent :: "string option"
  us_impersonated_by_user_id :: "int option"
  us_impersonation_reason :: "string option"

definition is_valid_at :: "user_session \<Rightarrow> instant \<Rightarrow> bool" where
  "is_valid_at s now \<longleftrightarrow>
     us_revoked_at s = None \<and> now < us_idle_expires_at s \<and> now < us_absolute_expires_at s"

text \<open>The settings the security code reads, with the defaults of \<^verbatim>\<open>config.py\<close>.\<close>

record settings =
  session_idle_timeout_minutes :: int
  session_absolute_timeout_hours :: int
  step_up_max_age_minutes :: int
  mfa_enforced :: bool
  mfa_require_enrolment :: bool
  password_reset_ttl_minutes :: int
  email_verification_ttl_hours :: int
  signup_enabled :: bool
  default_signup_locale :: string
  tips_accounts_since :: instant
  login_max_attempts_per_account :: nat
  login_max_attempts_per_ip :: nat
  login_window_seconds :: int
  mfa_max_attempts :: nat
  mfa_window_seconds :: int
  write_max_per_minute :: nat
  password_reset_max_per_account :: nat
  password_reset_max_per_ip :: nat
  password_reset_window_seconds :: int
  signup_max_per_ip :: nat
  signup_window_seconds :: int
  invite_max_per_tenant :: nat
  invite_window_seconds :: int
  document_mail_max_per_tenant :: nat
  document_mail_window_seconds :: int
  email_verification_resend_max :: nat
  email_verification_resend_window_seconds :: int
  claude_job_stuck_minutes :: int
  claude_job_max_attempts :: int
  claude_worker_offline_seconds :: int

definition default_settings :: settings where
  "default_settings = \<lparr>
     session_idle_timeout_minutes = 30, session_absolute_timeout_hours = 12,
     step_up_max_age_minutes = 5, mfa_enforced = False, mfa_require_enrolment = False,
     password_reset_ttl_minutes = 60, email_verification_ttl_hours = 72,
     signup_enabled = False, default_signup_locale = ''ka'', tips_accounts_since = seconds 1792454400,
     login_max_attempts_per_account = 5, login_max_attempts_per_ip = 20,
     login_window_seconds = 900, mfa_max_attempts = 5, mfa_window_seconds = 300,
     write_max_per_minute = 120,
     password_reset_max_per_account = 3, password_reset_max_per_ip = 10,
     password_reset_window_seconds = 3600,
     signup_max_per_ip = 3, signup_window_seconds = 3600,
     invite_max_per_tenant = 30, invite_window_seconds = 86400,
     document_mail_max_per_tenant = 200, document_mail_window_seconds = 86400,
     email_verification_resend_max = 5, email_verification_resend_window_seconds = 3600,
     claude_job_stuck_minutes = 30, claude_job_max_attempts = 3,
     claude_worker_offline_seconds = 300\<rparr>"

end
