(* ===== verification/Sessions.thy ===== *)
theory Sessions
  imports Models
begin

text \<open>
  \<^verbatim>\<open>security/sessions.py\<close> and the dependency chain of \<^verbatim>\<open>api/deps.py\<close>: issuing, resolving
  and revoking opaque sessions, and the gate every endpoint sits behind. The token hash
  (SHA-256) is a parameter \<open>hash_token\<close>; the random token is an argument of
  \<open>create_session\<close>.
\<close>

section \<open>State\<close>

record id_db =
  users :: "user list"
  accounts :: "account list"
  tenants :: "tenant list"
  user_sessions :: "user_session list"
  mfa_methods :: "mfa_method list"
  permission_overrides :: "permission_override list"
  recovery_codes :: "recovery_code list"
  reset_tokens :: "reset_token list"
  account_invites :: "account_invite list"
  audit_log :: "audit_entry list"

text \<open>\<^verbatim>\<open>AuthenticatedSession\<close>: everything a handler needs about the caller.\<close>

record auth_session =
  as_session_id :: int
  as_user_id :: int
  as_username :: string
  as_full_name :: string
  as_email :: "string option"
  as_role :: role
  as_tenant_id :: int
  as_tenant_slug :: string
  as_tenant_name :: string
  as_plan :: tenant_plan
  as_onboarding_required :: bool
  as_must_change_password :: bool
  as_has_mfa :: bool
  as_permissions :: "permission set"
  as_mfa_satisfied_at :: "instant option"
  as_impersonated_by_user_id :: "int option"
  as_timezone :: string
  as_tenant_locale :: string
  as_claude_translate :: bool
  as_email_verified :: bool
  as_account_id :: "int option"

definition DEFAULT_TIMEZONE :: string where
  "DEFAULT_TIMEZONE = ''Asia/Tbilisi''"

definition is_impersonated :: "auth_session \<Rightarrow> bool" where
  "is_impersonated s \<longleftrightarrow> as_impersonated_by_user_id s \<noteq> None"

definition has :: "auth_session \<Rightarrow> permission \<Rightarrow> bool" where
  "has s permission \<longleftrightarrow> permission \<in> as_permissions s"

definition can_step_up :: "settings \<Rightarrow> auth_session \<Rightarrow> bool" where
  "can_step_up cfg s \<longleftrightarrow> mfa_enforced cfg \<and> as_has_mfa s"

text \<open>The entry \<^verbatim>\<open>core/audit.py\<close>'s \<^verbatim>\<open>record\<close> adds for a handler with a session.\<close>

definition audit_record :: "auth_session option \<Rightarrow> string \<Rightarrow> string option \<Rightarrow> int option \<Rightarrow> audit_entry" where
  "audit_record session action entity_type entity_id =
     \<lparr>au_tenant_id = map_option as_tenant_id session,
      au_actor_id = map_option as_user_id session,
      au_actor_type = (case session of
          Some s \<Rightarrow> if as_role s = SUPERUSER then SUPERUSER_actor else USER_actor
        | None \<Rightarrow> SYSTEM_actor),
      au_impersonated_by = Option.bind session as_impersonated_by_user_id,
      au_action = action, au_entity_type = entity_type, au_entity_id = entity_id\<rparr>"

text \<open>The age in microseconds; the code's float of seconds is this over a million.\<close>

definition mfa_age :: "auth_session \<Rightarrow> instant \<Rightarrow> int option" where
  "mfa_age s now = map_option (\<lambda>t. now - t) (as_mfa_satisfied_at s)"

section \<open>Issuing\<close>

definition nonempty_prefix :: "string option \<Rightarrow> string option" where
  "nonempty_prefix v = (let s = take 255 (or_blank v) in if s = [] then None else Some s)"

text \<open>The row's \<^verbatim>\<open>created_at\<close> is the database's \<^verbatim>\<open>now()\<close>; the model has one clock.\<close>

definition create_session ::
    "settings \<Rightarrow> (string \<Rightarrow> string) \<Rightarrow> instant \<Rightarrow> int \<Rightarrow> string \<Rightarrow> user \<Rightarrow> string option \<Rightarrow> string option
     \<Rightarrow> bool \<Rightarrow> int option \<Rightarrow> string option \<Rightarrow> id_db \<Rightarrow> string \<times> id_db" where
  "create_session cfg hash_token now sid token user ip user_agent mfa_satisfied
       impersonated_by reason db =
     (token, db\<lparr>user_sessions := user_sessions db @
        [\<lparr>us_id = sid, us_tenant_id = u_tenant_id user, us_user_id = u_id user,
          us_token_hash = hash_token token, us_created_at = now, us_last_seen_at = now,
          us_idle_expires_at = now + minutes (session_idle_timeout_minutes cfg),
          us_absolute_expires_at = now + hours (session_absolute_timeout_hours cfg),
          us_mfa_satisfied_at = (if mfa_satisfied then Some now else None),
          us_revoked_at = None, us_ip = ip, us_user_agent = nonempty_prefix user_agent,
          us_impersonated_by_user_id = impersonated_by,
          us_impersonation_reason = reason\<rparr>]\<rparr>)"

section \<open>Resolving\<close>

text \<open>
  The joined row: the session with this token hash, its user and the user's tenant. The
  token hash is unique, so it is the first and only such row.
\<close>

definition session_row :: "id_db \<Rightarrow> string \<Rightarrow> (user_session \<times> user \<times> tenant) option" where
  "session_row db digest =
     (case get_row us_token_hash digest (user_sessions db) of
        None \<Rightarrow> None
      | Some s \<Rightarrow>
          (case get_row u_id (us_user_id s) (users db) of
             None \<Rightarrow> None
           | Some u \<Rightarrow>
               (case get_row t_id (u_tenant_id u) (tenants db) of
                  None \<Rightarrow> None
                | Some t \<Rightarrow> Some (s, u, t))))"

text \<open>The chain of refusals, in the order the code makes them.\<close>

definition session_refused :: "user_session \<Rightarrow> user \<Rightarrow> tenant \<Rightarrow> instant \<Rightarrow> bool" where
  "session_refused s u t now \<longleftrightarrow>
     \<not> is_valid_at s now \<or>
     \<not> u_is_active u \<or> u_invitation_pending u \<or>
     \<not> is_usable t \<or>
     (case u_sessions_invalid_before u of None \<Rightarrow> False | Some b \<Rightarrow> us_created_at s < b)"

definition account_of :: "id_db \<Rightarrow> user \<Rightarrow> account option" where
  "account_of db u =
     (case u_account_id u of
        None \<Rightarrow> None
      | Some i \<Rightarrow> if i = 0 then None else get_row a_id i (accounts db))"

definition overrides_of :: "permission_override list \<Rightarrow> int \<Rightarrow> (string \<times> bool) list" where
  "overrides_of rows uid =
     map (\<lambda>r. (po_permission r, po_granted r)) (filter (\<lambda>r. po_user_id r = uid) rows)"

definition has_confirmed_mfa :: "id_db \<Rightarrow> int \<Rightarrow> bool" where
  "has_confirmed_mfa db uid \<longleftrightarrow>
     (\<exists>m \<in> set (mfa_methods db). mm_user_id m = uid \<and> mm_confirmed_at m \<noteq> None)"

definition or_default :: "string \<Rightarrow> string \<Rightarrow> string" where
  "or_default s d = (if s = [] then d else s)"

definition authenticated :: "id_db \<Rightarrow> user_session \<Rightarrow> user \<Rightarrow> tenant \<Rightarrow> auth_session" where
  "authenticated db s u t =
     (let plan = effective_plan (t_plan t);
          account = account_of db u;
          must_change = (case account of Some a \<Rightarrow> a_must_change_password a
                                       | None \<Rightarrow> u_must_change_password u);
          has_address = (case account of Some a \<Rightarrow> a_email a | None \<Rightarrow> u_email u) \<noteq> None;
          verified = (\<not> has_address \<or>
                      (case account of Some a \<Rightarrow> a_email_verified_at a
                                     | None \<Rightarrow> u_email_verified_at u) \<noteq> None)
      in \<lparr>as_session_id = us_id s, as_user_id = u_id u, as_username = u_username u,
          as_full_name = u_full_name u, as_email = u_email u, as_role = u_role u,
          as_tenant_id = u_tenant_id u, as_tenant_slug = t_slug t,
          as_tenant_name = t_display_name t, as_plan = plan,
          as_onboarding_required = (parse_plan (t_plan t) = None),
          as_must_change_password = must_change,
          as_has_mfa = has_confirmed_mfa db (u_id u),
          as_permissions =
            effective_permissions (u_role u) plan (overrides_of (permission_overrides db) (u_id u)),
          as_mfa_satisfied_at = us_mfa_satisfied_at s,
          as_impersonated_by_user_id = us_impersonated_by_user_id s,
          as_timezone = or_default (t_timezone t) DEFAULT_TIMEZONE,
          as_tenant_locale = or_default (t_locale t) ''ka'',
          as_claude_translate = t_claude_translate_enabled t,
          as_email_verified = verified,
          as_account_id = u_account_id u\<rparr>)"

text \<open>The idle window slides; the absolute expiry is never written.\<close>

definition slide :: "settings \<Rightarrow> instant \<Rightarrow> user_session \<Rightarrow> user_session" where
  "slide cfg now s = s\<lparr>us_last_seen_at := now,
     us_idle_expires_at := now + minutes (session_idle_timeout_minutes cfg)\<rparr>"

definition resolve_session ::
    "settings \<Rightarrow> (string \<Rightarrow> string) \<Rightarrow> string \<Rightarrow> instant \<Rightarrow> id_db \<Rightarrow> auth_session option \<times> id_db" where
  "resolve_session cfg hash_token token now db =
     (if token = [] then (None, db)
      else
        (case session_row db (hash_token token) of
           None \<Rightarrow> (None, db)
         | Some (s, u, t) \<Rightarrow>
             if session_refused s u t now then (None, db)
             else (Some (authenticated db s u t),
                   db\<lparr>user_sessions := update_where (\<lambda>r. us_id r = us_id s) (slide cfg now)
                        (user_sessions db)\<rparr>)))"

definition mark_mfa_satisfied :: "instant \<Rightarrow> int \<Rightarrow> id_db \<Rightarrow> id_db" where
  "mark_mfa_satisfied now sid db = db\<lparr>user_sessions :=
     update_where (\<lambda>r. us_id r = sid) (\<lambda>r. r\<lparr>us_mfa_satisfied_at := Some now\<rparr>) (user_sessions db)\<rparr>"

definition revoke_session :: "instant \<Rightarrow> int \<Rightarrow> id_db \<Rightarrow> id_db" where
  "revoke_session now sid db = db\<lparr>user_sessions :=
     update_where (\<lambda>r. us_id r = sid \<and> us_revoked_at r = None)
       (\<lambda>r. r\<lparr>us_revoked_at := Some now\<rparr>) (user_sessions db)\<rparr>"

definition revoke_all_for_user :: "instant \<Rightarrow> int \<Rightarrow> id_db \<Rightarrow> id_db" where
  "revoke_all_for_user now uid db = db\<lparr>users :=
     update_where (\<lambda>u. u_id u = uid) (\<lambda>u. u\<lparr>u_sessions_invalid_before := Some now\<rparr>) (users db)\<rparr>"

section \<open>The gate\<close>

definition get_current_session ::
    "settings \<Rightarrow> (string \<Rightarrow> string) \<Rightarrow> string option \<Rightarrow> instant \<Rightarrow> id_db \<Rightarrow> (auth_session \<times> id_db) result" where
  "get_current_session cfg hash_token token now db =
     (case token of
        None \<Rightarrow> Inl (AuthenticationError ''Missing bearer token.'')
      | Some tk \<Rightarrow>
          (case resolve_session cfg hash_token tk now db of
             (None, _) \<Rightarrow> Inl (AuthenticationError ''Invalid or expired session.'')
           | (Some s, db') \<Rightarrow> Inr (s, db')))"

definition require_mfa :: "settings \<Rightarrow> auth_session \<Rightarrow> auth_session result" where
  "require_mfa cfg s =
     (if \<not> mfa_enforced cfg then Inr s
      else if as_mfa_satisfied_at s = None
        then Inl (MfaRequiredError ''Two-factor authentication is required to continue.'')
      else Inr s)"

definition get_session_for_password_change :: "settings \<Rightarrow> auth_session \<Rightarrow> auth_session result" where
  "get_session_for_password_change cfg s = require_mfa cfg s"

definition get_authenticated_session :: "settings \<Rightarrow> auth_session \<Rightarrow> auth_session result" where
  "get_authenticated_session cfg s =
     bind_result (require_mfa cfg s)
       (\<lambda>s. if as_must_change_password s
            then Inl (PasswordChangeRequiredError ''Set your own password before continuing.'')
            else Inr s)"

definition require_feature :: "settings \<Rightarrow> feature \<Rightarrow> auth_session \<Rightarrow> auth_session result" where
  "require_feature cfg feature s =
     bind_result (get_authenticated_session cfg s)
       (\<lambda>s. if \<not> allows_feature (as_plan s) feature
            then Inl (PermissionDeniedError '' is not included in the plan.'') else Inr s)"

text \<open>The loop over the listed permissions inside \<^verbatim>\<open>require(...)\<close>.\<close>

fun check_permissions :: "settings \<Rightarrow> instant \<Rightarrow> permission list \<Rightarrow> auth_session \<Rightarrow> auth_session result" where
  "check_permissions cfg now [] s = Inr s"
| "check_permissions cfg now (permission # rest) s =
     (if \<not> has s permission
        then Inl (PermissionDeniedError (permission_value permission))
      else if requires_step_up permission \<and> can_step_up cfg s \<and>
              (case mfa_age s now of
                 None \<Rightarrow> True
               | Some age \<Rightarrow> age > minutes (step_up_max_age_minutes cfg))
        then Inl (StepUpRequiredError (permission_value permission))
      else check_permissions cfg now rest s)"

definition require :: "settings \<Rightarrow> instant \<Rightarrow> permission list \<Rightarrow> auth_session \<Rightarrow> auth_session result" where
  "require cfg now permissions s =
     bind_result (get_authenticated_session cfg s) (check_permissions cfg now permissions)"

text \<open>The whole chain for one request: token, session, gate.\<close>

definition admit ::
    "settings \<Rightarrow> (string \<Rightarrow> string) \<Rightarrow> string option \<Rightarrow> instant \<Rightarrow> permission list \<Rightarrow> id_db \<Rightarrow> (auth_session \<times> id_db) result" where
  "admit cfg hash_token token now permissions db =
     bind_result (get_current_session cfg hash_token token now db)
       (\<lambda>(s, db'). bind_result (require cfg now permissions s) (\<lambda>s. Inr (s, db')))"

section \<open>Facts about resolving\<close>

lemma resolve_session_SomeE:
  assumes "resolve_session cfg hash_token token now db = (Some a, db')"
  obtains s u t where "session_row db (hash_token token) = Some (s, u, t)"
    and "\<not> session_refused s u t now" and "token \<noteq> []"
    and "a = authenticated db s u t"
    and "db' = db\<lparr>user_sessions :=
           update_where (\<lambda>r. us_id r = us_id s) (slide cfg now) (user_sessions db)\<rparr>"
  using assms by (auto simp: resolve_session_def split: if_splits option.splits prod.splits)

lemma session_rowD:
  assumes "session_row db digest = Some (s, u, t)"
  shows "s \<in> set (user_sessions db)" "us_token_hash s = digest"
    "u \<in> set (users db)" "u_id u = us_user_id s"
    "t \<in> set (tenants db)" "t_id t = u_tenant_id u"
  using assms by (auto simp: session_row_def dest!: get_row_SomeD split: option.splits)

lemma session_row_first:
  "session_row db digest = Some (s, u, t) \<Longrightarrow> get_row us_token_hash digest (user_sessions db) = Some s"
  by (auto simp: session_row_def split: option.splits)

lemma resolve_session_dead:
  assumes "get_row us_token_hash (hash_token token) (user_sessions db) = Some s"
    and "\<not> is_valid_at s now"
  shows "resolve_session cfg hash_token token now db = (None, db)"
  using assms by (auto simp: resolve_session_def session_row_def session_refused_def split: option.splits)

lemma slide_frame [simp]:
  "us_id (slide cfg now s) = us_id s" "us_token_hash (slide cfg now s) = us_token_hash s"
  "us_user_id (slide cfg now s) = us_user_id s"
  "us_absolute_expires_at (slide cfg now s) = us_absolute_expires_at s"
  "us_revoked_at (slide cfg now s) = us_revoked_at s"
  "us_created_at (slide cfg now s) = us_created_at s"
  by (simp_all add: slide_def)

lemma resolve_users_unchanged:
  "users (snd (resolve_session cfg hash_token token now db)) = users db"
  by (auto simp: resolve_session_def split: option.splits prod.splits)

section \<open>The life of a session\<close>

text \<open>
  The operations on the session table as a step relation over the database and a clock
  that never runs backwards. A new session's token hash is not in the table: the column
  is unique, so the insert would fail otherwise.
\<close>

inductive id_step :: "settings \<Rightarrow> (string \<Rightarrow> string) \<Rightarrow> id_db \<times> instant \<Rightarrow> id_db \<times> instant \<Rightarrow> bool"
  for cfg hash_token where
  tick: "now \<le> now' \<Longrightarrow> id_step cfg hash_token (db, now) (db, now')"
| login: "hash_token token \<notin> us_token_hash ` set (user_sessions db) \<Longrightarrow>
    id_step cfg hash_token (db, now)
      (snd (create_session cfg hash_token now sid token u ip ua ms imp reason db), now)"
| resolve: "id_step cfg hash_token (db, now) (snd (resolve_session cfg hash_token token now db), now)"
| second_factor: "id_step cfg hash_token (db, now) (mark_mfa_satisfied now sid db, now)"
| logout: "id_step cfg hash_token (db, now) (revoke_session now sid db, now)"
| revoke_user: "id_step cfg hash_token (db, now) (revoke_all_for_user now uid db, now)"

inductive id_run :: "settings \<Rightarrow> (string \<Rightarrow> string) \<Rightarrow> id_db \<times> instant \<Rightarrow> id_db \<times> instant \<Rightarrow> bool"
  for cfg hash_token where
  stay: "id_run cfg hash_token c c"
| step: "id_run cfg hash_token c d \<Longrightarrow> id_step cfg hash_token d e \<Longrightarrow> id_run cfg hash_token c e"

inductive_cases id_stepE: "id_step cfg hash_token c d"

text \<open>What no step changes about the row a token hash finds, and what it may add.\<close>

definition row_kept :: "user_session \<Rightarrow> user_session \<Rightarrow> bool" where
  "row_kept s s' \<longleftrightarrow>
     us_id s' = us_id s \<and> us_user_id s' = us_user_id s \<and>
     us_created_at s' = us_created_at s \<and>
     us_absolute_expires_at s' = us_absolute_expires_at s \<and>
     (us_revoked_at s \<noteq> None \<longrightarrow> us_revoked_at s' = us_revoked_at s)"

lemma row_kept_refl [simp]: "row_kept s s"
  by (simp add: row_kept_def)

lemma row_kept_trans: "row_kept r s \<Longrightarrow> row_kept s t \<Longrightarrow> row_kept r t"
  by (auto simp: row_kept_def)

lemma row_kept_slide [simp]: "row_kept s (slide cfg now s)"
  by (simp add: row_kept_def)

lemma row_kept_mfa [simp]: "row_kept s (s\<lparr>us_mfa_satisfied_at := m\<rparr>)"
  by (simp add: row_kept_def)

lemma row_kept_revoke [simp]: "us_revoked_at s = None \<Longrightarrow> row_kept s (s\<lparr>us_revoked_at := m\<rparr>)"
  by (simp add: row_kept_def)

lemma row_kept_update:
  assumes "get_row us_token_hash k rows = Some s"
    and "\<And>r. us_token_hash (f r) = us_token_hash r" and "\<And>r. P r \<Longrightarrow> row_kept r (f r)"
  shows "\<exists>s'. get_row us_token_hash k (update_where P f rows) = Some s' \<and> row_kept s s'"
  using assms by (simp add: get_row_update_where_gen)

lemma create_session_sessions:
  "user_sessions (snd (create_session cfg h now sid token u ip ua ms imp reason db)) =
     user_sessions db @ [\<lparr>us_id = sid, us_tenant_id = u_tenant_id u, us_user_id = u_id u,
          us_token_hash = h token, us_created_at = now, us_last_seen_at = now,
          us_idle_expires_at = now + minutes (session_idle_timeout_minutes cfg),
          us_absolute_expires_at = now + hours (session_absolute_timeout_hours cfg),
          us_mfa_satisfied_at = (if ms then Some now else None),
          us_revoked_at = None, us_ip = ip, us_user_agent = nonempty_prefix ua,
          us_impersonated_by_user_id = imp,
          us_impersonation_reason = reason\<rparr>]"
  by (simp add: create_session_def)

lemma id_step_keeps_row:
  assumes "id_step cfg hash_token (db, now) (db', now')"
    and row: "get_row us_token_hash k (user_sessions db) = Some s"
  shows "\<exists>s'. get_row us_token_hash k (user_sessions db') = Some s' \<and> row_kept s s'"
  using assms(1)
proof (cases rule: id_step.cases)
  case (resolve token)
  show ?thesis
  proof (cases "fst (resolve_session cfg hash_token token now db)")
    case None
    then have "db' = db"
      using resolve by (auto simp: resolve_session_def split: if_splits option.splits prod.splits)
    with row show ?thesis by auto
  next
    case (Some a)
    then obtain x where "resolve_session cfg hash_token token now db = (Some a, x)" "db' = x"
      using resolve by (cases "resolve_session cfg hash_token token now db") auto
    then show ?thesis
      by (elim resolve_session_SomeE) (auto intro!: row_kept_update [OF row])
  qed
qed (use row in \<open>auto simp: create_session_sessions get_row_append mark_mfa_satisfied_def
      revoke_session_def revoke_all_for_user_def intro!: row_kept_update\<close>)

lemma id_run_keeps_row:
  assumes "id_run cfg hash_token c d"
    and "get_row us_token_hash k (user_sessions (fst c)) = Some s"
  shows "\<exists>s'. get_row us_token_hash k (user_sessions (fst d)) = Some s' \<and> row_kept s s'"
  using assms
proof (induction rule: id_run.induct)
  case (stay c)
  then show ?case by auto
next
  case (step c d e)
  then obtain s' where s': "get_row us_token_hash k (user_sessions (fst d)) = Some s'" "row_kept s s'"
    by auto
  obtain db now db' now' where e: "d = (db, now)" "e = (db', now')" by (cases d; cases e) auto
  obtain s'' where "get_row us_token_hash k (user_sessions db') = Some s''" "row_kept s' s''"
    using id_step_keeps_row [OF step.hyps(2) [unfolded e]] s'(1) e by auto
  with s'(2) e show ?case by (auto intro: row_kept_trans)
qed

lemma id_step_clock: "id_step cfg hash_token (db, now) (db', now') \<Longrightarrow> now \<le> now'"
  by (cases rule: id_stepE) auto

section \<open>An example organisation\<close>

definition ex_tenant :: tenant where
  "ex_tenant = \<lparr>t_id = 1, t_slug = ''acme'', t_display_name = ''Acme'', t_status = ACTIVE,
     t_plan = Some ''bureau'', t_package_tier = 1, t_locale = ''en'', t_timezone = ''UTC'',
     t_claude_translate_enabled = False, t_is_personal = False, t_accepts_bureau_orders = None,
     t_created_at = 0\<rparr>"

definition ex_user :: user where
  "ex_user = \<lparr>u_id = 7, u_tenant_id = 1, u_username = ''nino'', u_email = None,
     u_full_name = ''Nino'', u_position = None, u_phone = None, u_password_hash = ''x'',
     u_role = OWNER, u_is_active = True, u_must_change_password = False,
     u_email_verified_at = None, u_sessions_invalid_before = None, u_account_id = None,
     u_invitation_pending = False, u_last_login_at = None\<rparr>"

definition ex_session :: user_session where
  "ex_session = \<lparr>us_id = 3, us_tenant_id = 1, us_user_id = 7, us_token_hash = ''abc'',
     us_created_at = 100, us_last_seen_at = 100, us_idle_expires_at = 100 + minutes 30,
     us_absolute_expires_at = 100 + hours 12, us_mfa_satisfied_at = None, us_revoked_at = None,
     us_ip = None, us_user_agent = None, us_impersonated_by_user_id = None,
     us_impersonation_reason = None\<rparr>"

definition ex_id_db :: id_db where
  "ex_id_db = \<lparr>users = [ex_user], accounts = [], tenants = [ex_tenant],
     user_sessions = [ex_session], mfa_methods = [], permission_overrides = [],
     recovery_codes = [], reset_tokens = [], account_invites = [], audit_log = []\<rparr>"

definition ex_caller :: auth_session where
  "ex_caller = authenticated ex_id_db ex_session ex_user ex_tenant"

lemmas ex_id_defs = ex_id_db_def ex_tenant_def ex_user_def ex_session_def

lemma ex_row: "get_row us_token_hash (id ''abc'') (user_sessions ex_id_db) = Some ex_session"
  by (simp add: ex_id_defs)

lemma ex_session_row: "session_row ex_id_db (id ''abc'') = Some (ex_session, ex_user, ex_tenant)"
  by (simp add: session_row_def ex_id_defs)

lemma ex_resolves:
  "resolve_session default_settings id ''abc'' 200 ex_id_db =
     (Some (authenticated ex_id_db ex_session ex_user ex_tenant),
      ex_id_db\<lparr>user_sessions := [slide default_settings 200 ex_session]\<rparr>)"
proof -
  have "\<not> session_refused ex_session ex_user ex_tenant 200"
    by (simp add: session_refused_def is_valid_at_def is_usable_def ex_session_def ex_user_def
        ex_tenant_def time_units)
  moreover have "user_sessions ex_id_db = [ex_session]" by (simp add: ex_id_db_def)
  ultimately show ?thesis by (simp add: resolve_session_def ex_session_row [simplified])
qed

section \<open>Properties\<close>

text \<open>C2: a token is only ever resolved for a live session of an active, accepted member of a
  usable organisation that was not retired by a bulk revocation, and the caller's tenant and
  permissions are those of the stored rows.\<close>

theorem resolve_session_sound:
  assumes "resolve_session cfg hash_token token now db = (Some a, db')"
  shows "\<exists>s \<in> set (user_sessions db). \<exists>u \<in> set (users db). \<exists>t \<in> set (tenants db).
           us_token_hash s = hash_token token \<and> us_revoked_at s = None \<and>
           now < us_idle_expires_at s \<and> now < us_absolute_expires_at s \<and>
           u_id u = us_user_id s \<and> u_is_active u \<and> \<not> u_invitation_pending u \<and>
           t_id t = u_tenant_id u \<and> is_usable t \<and>
           (\<forall>b. u_sessions_invalid_before u = Some b \<longrightarrow> b \<le> us_created_at s) \<and>
           as_user_id a = u_id u \<and> as_tenant_id a = t_id t \<and>
           as_permissions a = effective_permissions (u_role u) (effective_plan (t_plan t))
             (overrides_of (permission_overrides db) (u_id u))"
  using assms
proof (rule resolve_session_SomeE)
  fix s u t
  assume row: "session_row db (hash_token token) = Some (s, u, t)"
    and ok: "\<not> session_refused s u t now" and a: "a = authenticated db s u t"
  from ok have "is_valid_at s now" "u_is_active u" "\<not> u_invitation_pending u" "is_usable t"
    "\<forall>b. u_sessions_invalid_before u = Some b \<longrightarrow> b \<le> us_created_at s"
    by (auto simp: session_refused_def)
  with session_rowD [OF row] a show ?thesis
    by (intro bexI [of _ s] bexI [of _ u] bexI [of _ t])
      (simp_all add: is_valid_at_def authenticated_def Let_def)
qed

theorem resolve_session_sound_witness:
  "\<exists>s \<in> set (user_sessions ex_id_db). us_token_hash s = id ''abc'' \<and> us_revoked_at s = None"
  using resolve_session_sound [OF ex_resolves] by blast

text \<open>Neither use nor anything else extends a session past its absolute expiry, and a
  revoked session stays dead: whatever happens between, its token resolves to nothing.\<close>

lemma dead_session_stays_dead:
  assumes "id_run cfg hash_token (db, now) (db', now')"
    and "get_row us_token_hash (hash_token token) (user_sessions db) = Some s"
    and "us_revoked_at s \<noteq> None \<or> us_absolute_expires_at s \<le> now'"
  shows "fst (resolve_session cfg hash_token token now' db') = None"
proof -
  obtain s' where "get_row us_token_hash (hash_token token) (user_sessions db') = Some s'"
    and "row_kept s s'" using id_run_keeps_row [OF assms(1)] assms(2) by auto
  moreover from this(2) assms(3) have "\<not> is_valid_at s' now'"
    by (auto simp: row_kept_def is_valid_at_def)
  ultimately show ?thesis by (simp add: resolve_session_dead)
qed

text \<open>A password or role change (\<open>revoke_all_for_user\<close>) ends every session of that user that
  was issued before it, at once, without touching anybody else's.\<close>

lemma revoke_all_for_user_ends_sessions:
  assumes "get_row us_token_hash (hash_token token) (user_sessions db) = Some s"
    and "us_created_at s < moment"
  shows "fst (resolve_session cfg hash_token token now (revoke_all_for_user moment uid db)) =
           (if us_user_id s = uid then None else fst (resolve_session cfg hash_token token now db))"
  using assms by (auto simp: resolve_session_def session_row_def session_refused_def
      revoke_all_for_user_def get_row_update_where authenticated_def account_of_def
      has_confirmed_mfa_def Let_def split: option.splits)

lemma check_permissions_Inr:
  "check_permissions cfg now ps s = Inr s' \<longleftrightarrow> s' = s \<and>
     (\<forall>p \<in> set ps. has s p \<and>
        (requires_step_up p \<and> can_step_up cfg s \<longrightarrow>
           (\<exists>t. as_mfa_satisfied_at s = Some t \<and> now - t \<le> minutes (step_up_max_age_minutes cfg))))"
  by (induction ps) (auto simp: mfa_age_def not_less split: option.splits)

text \<open>The gate \<open>require\<close> admits a request exactly when the second factor is satisfied (where it
  is enforced), no password change is pending, every listed permission is held, and for a
  step-up permission the second factor is recent: the age is at most the configured limit.\<close>

lemma require_iff:
  "require cfg now ps s = Inr s' \<longleftrightarrow>
     s' = s \<and> (mfa_enforced cfg \<longrightarrow> as_mfa_satisfied_at s \<noteq> None) \<and>
     \<not> as_must_change_password s \<and>
     (\<forall>p \<in> set ps. has s p \<and>
        (requires_step_up p \<and> can_step_up cfg s \<longrightarrow>
           (\<exists>t. as_mfa_satisfied_at s = Some t \<and> now - t \<le> minutes (step_up_max_age_minutes cfg))))"
  by (auto simp: require_def get_authenticated_session_def require_mfa_def bind_result_Inr_iff
      check_permissions_Inr)

lemma ex_permissions:
  "as_permissions (authenticated ex_id_db ex_session ex_user ex_tenant) = OWNER_bundle"
  by (simp add: authenticated_def overrides_of_def ex_id_defs effective_plan_def parse_plan_def
      effective_no_overrides Let_def BUREAU_mask_def flip: UNIV_permission)

end
