(* ===== verification/Users.thy ===== *)
theory Users
  imports Sessions "HOL-Library.List_Lexorder"
begin

text \<open>
  \<^verbatim>\<open>api/v1/users.py\<close>: editing the people of an organisation. The guards on rank and on what
  an editor may hand out, the override rows an access form is stored as, and the three
  handlers that change or remove a member. Rows are those of the caller's organisation:
  the tenancy filter adds \<^verbatim>\<open>tenant_id = :current\<close> to every lookup.
\<close>

section \<open>Lookups\<close>

text \<open>\<^verbatim>\<open>db.get(User, id)\<close> under the tenancy filter.\<close>

definition get_member :: "auth_session \<Rightarrow> int \<Rightarrow> id_db \<Rightarrow> user option" where
  "get_member session uid db =
     (case get_row u_id uid (users db) of
        None \<Rightarrow> None
      | Some u \<Rightarrow> if u_tenant_id u = as_tenant_id session then Some u else None)"

definition is_active_owner :: "int \<Rightarrow> user \<Rightarrow> bool" where
  "is_active_owner tid u \<longleftrightarrow> u_tenant_id u = tid \<and> u_role u = OWNER \<and> u_is_active u"

definition active_owner_count :: "int \<Rightarrow> id_db \<Rightarrow> nat" where
  "active_owner_count tid db = length (filter (is_active_owner tid) (users db))"

text \<open>What a member may do now, from the stored rows.\<close>

definition member_permissions :: "tenant_plan \<Rightarrow> user \<Rightarrow> id_db \<Rightarrow> permission set" where
  "member_permissions plan u db =
     effective_permissions (u_role u) plan (overrides_of (permission_overrides db) (u_id u))"

section \<open>Override rows\<close>

fun requested_permissions :: "string list \<Rightarrow> tenant_plan \<Rightarrow> permission set result" where
  "requested_permissions [] plan = Inr {}"
| "requested_permissions (name # names) plan =
     (case permission_of name of
        None \<Rightarrow> Inl (ValidationError ''Unknown permission'')
      | Some permission \<Rightarrow>
          if permission \<in> NON_OVERRIDABLE
            then Inl (ValidationError ''cannot be granted to a user.'')
          else if permission \<notin> overridable_for_plan plan
            then Inl (ValidationError ''is not included in the plan.'')
          else bind_result (requested_permissions names plan)
                 (\<lambda>requested. Inr (insert permission requested)))"

text \<open>\<^verbatim>\<open>sorted(grants)\<close>: by the permission's string value.\<close>

definition sorted_permissions :: "permission set \<Rightarrow> permission list" where
  "sorted_permissions S = filter (\<lambda>p. p \<in> S) (sort_key permission_value all_permissions)"

definition override_row :: "int \<Rightarrow> bool \<Rightarrow> permission \<Rightarrow> permission_override" where
  "override_row uid granted p =
     \<lparr>po_user_id = uid, po_permission = permission_value p, po_granted = granted\<rparr>"

definition write_overrides :: "user \<Rightarrow> permission set \<Rightarrow> tenant_plan \<Rightarrow> id_db \<Rightarrow> id_db" where
  "write_overrides u requested plan db =
     (let from_role = permissions_for_role (u_role u) \<inter> permissions_for_plan plan;
          grants = requested - from_role;
          revokes = from_role - requested;
          rest = filter (\<lambda>r. po_user_id r \<noteq> u_id u) (permission_overrides db)
      in db\<lparr>permission_overrides := rest
            @ map (override_row (u_id u) True) (sorted_permissions grants)
            @ map (override_row (u_id u) False) (sorted_permissions revokes)\<rparr>)"

section \<open>Guards\<close>

definition guard_grantable :: "auth_session \<Rightarrow> permission set \<Rightarrow> unit result" where
  "guard_grantable session requested =
     (if requested - as_permissions session \<noteq> {}
        then Inl (ValidationError ''You cannot grant access you do not have yourself'')
      else Inr ())"

text \<open>The target role may be an explicit null in the request: then \<^verbatim>\<open>RANK[None]\<close> fails.\<close>

definition guard_assignable :: "role \<Rightarrow> role option \<Rightarrow> unit result" where
  "guard_assignable actor target =
     (case target of
        None \<Rightarrow> Inl (InternalError ''KeyError'')
      | Some r \<Rightarrow>
          if r = SUPERUSER then Inl (ValidationError ''Superuser cannot be assigned here.'')
          else if rank r > rank actor
            then Inl (ValidationError ''You cannot assign a role above your own.'')
          else Inr ())"

definition guard_target :: "auth_session \<Rightarrow> user \<Rightarrow> unit result" where
  "guard_target session row =
     (if u_id row = as_user_id session then Inr ()
      else if u_role row = SUPERUSER
        then Inl (PermissionDeniedError ''A platform account cannot be changed from here.'')
      else if rank (u_role row) > rank (as_role session) \<or>
              (rank (u_role row) = rank (as_role session) \<and> as_role session \<noteq> OWNER)
        then Inl (PermissionDeniedError ''You cannot change an account at or above your own role.'')
      else Inr ())"

definition guard_resend :: "id_db \<Rightarrow> auth_session \<Rightarrow> user \<Rightarrow> unit result" where
  "guard_resend db session row =
     (case guard_target session row of
        Inr () \<Rightarrow> Inr ()
      | Inl e \<Rightarrow>
          if u_role row = SUPERUSER \<or> rank (u_role row) > rank (as_role session) then Inl e
          else if \<exists>i \<in> set (account_invites db). ai_kind i = STAFF_invite \<and>
                    ai_user_id i = Some (u_id row) \<and>
                    ai_invited_by_user_id i = Some (as_user_id session)
            then Inr ()
          else Inl e)"

definition sees_everyone :: "auth_session \<Rightarrow> bool" where
  "sees_everyone session \<longleftrightarrow> USERS_MANAGE \<in> as_permissions session"

definition visible_roles :: "auth_session \<Rightarrow> role list" where
  "visible_roles session =
     filter (\<lambda>r. rank r \<le> rank (as_role session)) [STAFF, MANAGER, ADMIN, OWNER, SUPERUSER]"

section \<open>Handlers\<close>

text \<open>
  \<^verbatim>\<open>UserUpdate\<close>: the outer option says whether the field was sent, the inner one whether it
  was null. For \<open>permissions\<close> null and absent mean the same.
\<close>

record user_update =
  uu_full_name :: "string option option"
  uu_position :: "string option option"
  uu_phone :: "string option option"
  uu_role :: "role option option"
  uu_is_active :: "bool option option"
  uu_permissions :: "string list option"

text \<open>\<^verbatim>\<open>setattr\<close> for each field sent, then the flush: three columns are not nullable.\<close>

definition apply_changes :: "user_update \<Rightarrow> user \<Rightarrow> user result" where
  "apply_changes p u =
     (if uu_full_name p = Some None \<or> uu_role p = Some None \<or> uu_is_active p = Some None
        then Inl (IntegrityError ''not null'')
      else Inr (u\<lparr>u_full_name := (case uu_full_name p of Some (Some n) \<Rightarrow> n | _ \<Rightarrow> u_full_name u),
             u_position := (case uu_position p of Some v \<Rightarrow> v | None \<Rightarrow> u_position u),
             u_phone := (case uu_phone p of Some v \<Rightarrow> v | None \<Rightarrow> u_phone u),
             u_role := (case uu_role p of Some (Some r) \<Rightarrow> r | _ \<Rightarrow> u_role u),
             u_is_active := (case uu_is_active p of Some (Some b) \<Rightarrow> b | _ \<Rightarrow> u_is_active u)\<rparr>))"

definition store_user :: "user \<Rightarrow> id_db \<Rightarrow> id_db" where
  "store_user u db = db\<lparr>users := update_where (\<lambda>r. u_id r = u_id u) (\<lambda>_. u) (users db)\<rparr>"

definition guard_when :: "bool \<Rightarrow> unit result \<Rightarrow> unit result" where
  "guard_when c r = (if c then r else Inr ())"

definition role_changed :: "user_update \<Rightarrow> user \<Rightarrow> bool" where
  "role_changed p row \<longleftrightarrow>
     (case uu_role p of None \<Rightarrow> False | Some r \<Rightarrow> r \<noteq> Some (u_role row))"

definition deactivating :: "user_update \<Rightarrow> user \<Rightarrow> bool" where
  "deactivating p row \<longleftrightarrow> uu_is_active p = Some (Some False) \<and> u_is_active row"

definition new_role :: "user_update \<Rightarrow> user \<Rightarrow> role option" where
  "new_role p row = (case uu_role p of Some r \<Rightarrow> r | None \<Rightarrow> Some (u_role row))"

text \<open>Everything \<^verbatim>\<open>update_user\<close> refuses before it changes the row, in its order.\<close>

definition update_user_checks :: "auth_session \<Rightarrow> user_update \<Rightarrow> user \<Rightarrow> id_db \<Rightarrow> unit result" where
  "update_user_checks session p row db =
     (let self = (u_id row = as_user_id session);
          current = member_permissions (as_plan session) row db;
          overrides = overrides_of (permission_overrides db) (u_id row)
      in bind_result (guard_target session row) (\<lambda>_.
         bind_result (guard_when (deactivating p row \<and> self)
            (Inl (ValidationError ''You cannot deactivate your own account.''))) (\<lambda>_.
         bind_result (guard_when (role_changed p row)
            (if self then Inl (ValidationError ''You cannot change your own role.'')
             else bind_result (guard_assignable (as_role session) (new_role p row)) (\<lambda>_.
               guard_when (uu_permissions p = None)
                 (case new_role p row of
                    None \<Rightarrow> Inl (InternalError ''KeyError'')
                  | Some r \<Rightarrow> guard_grantable session
                      (effective_permissions r (as_plan session) overrides - current))))) (\<lambda>_.
         bind_result (guard_when
            (u_role row = OWNER \<and>
             (deactivating p row \<or> (role_changed p row \<and> new_role p row \<noteq> Some OWNER)) \<and>
             active_owner_count (as_tenant_id session) db \<le> 1)
            (Inl (ConflictError ''This is the last active owner.''))) (\<lambda>_.
         bind_result (guard_when (uu_permissions p \<noteq> None \<and> self)
            (Inl (ValidationError ''You cannot change your own access.''))) (\<lambda>_.
         guard_when (uu_permissions p \<noteq> None)
           (guard_assignable (as_role session) (new_role p row))))))))"

text \<open>The access form: what the editor does not hold is neither granted nor taken away.\<close>

definition set_permissions ::
    "auth_session \<Rightarrow> string list \<Rightarrow> permission set \<Rightarrow> user \<Rightarrow> id_db \<Rightarrow> id_db result" where
  "set_permissions session names current row db =
     bind_result (requested_permissions names (as_plan session)) (\<lambda>requested.
     bind_result (guard_grantable session (requested - current)) (\<lambda>_.
       Inr (write_overrides row
              ((requested \<inter> as_permissions session) \<union> (current - as_permissions session))
              (as_plan session) db)))"

definition log_audit :: "auth_session \<Rightarrow> string \<Rightarrow> string \<Rightarrow> int \<Rightarrow> id_db \<Rightarrow> id_db" where
  "log_audit session action entity_type i db = db\<lparr>audit_log := audit_log db @
     [audit_record (Some session) action (Some entity_type) (Some i)]\<rparr>"

definition update_user ::
    "auth_session \<Rightarrow> instant \<Rightarrow> int \<Rightarrow> user_update \<Rightarrow> id_db \<Rightarrow> id_db result" where
  "update_user session now uid p db =
     (case get_member session uid db of
        None \<Rightarrow> Inl (NotFoundError ''User not found.'')
      | Some row \<Rightarrow>
          bind_result (update_user_checks session p row db) (\<lambda>_.
          bind_result (apply_changes p row) (\<lambda>row'.
            let current = member_permissions (as_plan session) row db;
                db1 = store_user row' db
            in bind_result (case uu_permissions p of
                   None \<Rightarrow> Inr db1
                 | Some names \<Rightarrow> set_permissions session names current row' db1) (\<lambda>db2.
               let db3 = (if role_changed p row \<or> deactivating p row \<or> uu_permissions p \<noteq> None
                          then revoke_all_for_user now uid db2 else db2)
               in Inr (log_audit session ''user.updated'' ''user'' uid db3)))))"

definition reset_user_mfa :: "auth_session \<Rightarrow> instant \<Rightarrow> int \<Rightarrow> id_db \<Rightarrow> id_db result" where
  "reset_user_mfa session now uid db =
     (case get_member session uid db of
        None \<Rightarrow> Inl (NotFoundError ''User not found.'')
      | Some row \<Rightarrow>
          if u_id row = as_user_id session
            then Inl (ValidationError ''Use your own Account screen to change your two-factor settings.'')
          else bind_result (guard_target session row) (\<lambda>_.
            Inr (log_audit session ''user.mfa_reset'' ''user'' uid
              (revoke_all_for_user now uid
                (db\<lparr>mfa_methods := filter (\<lambda>m. mm_user_id m \<noteq> uid) (mfa_methods db),
                    recovery_codes := filter (\<lambda>c. rc_user_id c \<noteq> uid) (recovery_codes db)\<rparr>)))))"

text \<open>The row goes, with what the foreign keys cascade to or set to null.\<close>

definition drop_user :: "int \<Rightarrow> id_db \<Rightarrow> id_db" where
  "drop_user uid db = db\<lparr>
     users := filter (\<lambda>u. u_id u \<noteq> uid) (users db),
     permission_overrides := filter (\<lambda>r. po_user_id r \<noteq> uid) (permission_overrides db),
     mfa_methods := filter (\<lambda>m. mm_user_id m \<noteq> uid) (mfa_methods db),
     recovery_codes := filter (\<lambda>c. rc_user_id c \<noteq> uid) (recovery_codes db),
     reset_tokens := filter (\<lambda>t. rt_user_id t \<noteq> uid) (reset_tokens db),
     user_sessions := update_where (\<lambda>s. us_impersonated_by_user_id s = Some uid)
        (\<lambda>s. s\<lparr>us_impersonated_by_user_id := None\<rparr>)
        (filter (\<lambda>s. us_user_id s \<noteq> uid) (user_sessions db)),
     account_invites := update_where (\<lambda>i. ai_invited_by_user_id i = Some uid)
        (\<lambda>i. i\<lparr>ai_invited_by_user_id := None\<rparr>)
        (filter (\<lambda>i. ai_user_id i \<noteq> Some uid) (account_invites db))\<rparr>"

definition delete_user :: "auth_session \<Rightarrow> int \<Rightarrow> id_db \<Rightarrow> id_db result" where
  "delete_user session uid db =
     (case get_member session uid db of
        None \<Rightarrow> Inl (NotFoundError ''User not found.'')
      | Some row \<Rightarrow>
          if u_id row = as_user_id session
            then Inl (ValidationError ''You cannot delete your own account.'')
          else bind_result (guard_target session row) (\<lambda>_.
            if u_role row = OWNER \<and> active_owner_count (as_tenant_id session) db \<le> 1
              then Inl (ConflictError ''This is the last active owner and cannot be deleted.'')
            else Inr (drop_user uid (log_audit session ''user.deleted'' ''user'' uid db))))"

section \<open>Facts about the override rows\<close>

lemma distinct_all_permissions: "distinct all_permissions"
  by (simp add: all_permissions_def)

lemma set_sorted_permissions [simp]: "set (sorted_permissions S) = S"
  by (auto simp: sorted_permissions_def)

lemma distinct_sorted_permissions [simp]: "distinct (sorted_permissions S)"
  by (simp add: sorted_permissions_def distinct_all_permissions)

lemma map_of_override_rows:
  "map_of (map (\<lambda>p. (permission_value p, b)) ps) (permission_value q) =
     (if q \<in> set ps then Some b else None)"
  by (induction ps) (auto dest: permission_value_inj)

lemma overrides_of_append [simp]:
  "overrides_of (xs @ ys) uid = overrides_of xs uid @ overrides_of ys uid"
  by (simp add: overrides_of_def)

lemma overrides_of_rows:
  "overrides_of (map (override_row uid b) ps) v =
     (if v = uid then map (\<lambda>p. (permission_value p, b)) ps else [])"
  by (induction ps) (simp_all add: overrides_of_def override_row_def)

lemma overrides_of_others:
  "overrides_of (filter (\<lambda>r. po_user_id r \<noteq> uid) rows) v = (if v = uid then [] else overrides_of rows v)"
  by (induction rows) (auto simp: overrides_of_def)

lemma write_overrides_frame [simp]:
  "users (write_overrides u S plan db) = users db"
  "mfa_methods (write_overrides u S plan db) = mfa_methods db"
  "audit_log (write_overrides u S plan db) = audit_log db"
  by (simp_all add: write_overrides_def Let_def)

lemma overrides_of_write_other:
  "v \<noteq> u_id u \<Longrightarrow> overrides_of (permission_overrides (write_overrides u S plan db)) v =
     overrides_of (permission_overrides db) v"
  by (simp add: write_overrides_def Let_def overrides_of_rows overrides_of_others)

text \<open>What the stored difference reads back as, for any requested set.\<close>

lemma inj_permission_value: "inj_on permission_value A"
  by (auto intro: inj_onI dest: permission_value_inj)

lemma overrides_of_write_self:
  "overrides_of (permission_overrides (write_overrides u S plan db)) (u_id u) =
     (let from_role = permissions_for_role (u_role u) \<inter> permissions_for_plan plan
      in map (\<lambda>p. (permission_value p, True)) (sorted_permissions (S - from_role)) @
         map (\<lambda>p. (permission_value p, False)) (sorted_permissions (from_role - S)))"
  by (simp add: write_overrides_def Let_def overrides_of_rows overrides_of_others)

lemma overrides_of_write_distinct:
  "distinct (map fst (overrides_of (permission_overrides (write_overrides u S plan db)) (u_id u)))"
proof -
  have fst_ov: "map fst (map (\<lambda>p. (permission_value p, b)) ps) = map permission_value ps" for b ps
    by (induction ps) simp_all
  show ?thesis
    unfolding overrides_of_write_self Let_def map_append fst_ov
    by (auto simp: distinct_map inj_permission_value dest: permission_value_inj)
qed

lemma plan_invite_iff: "USERS_INVITE \<in> permissions_for_plan plan \<longleftrightarrow> USERS_MANAGE \<in> permissions_for_plan plan"
  by (cases plan) (simp_all add: FREELANCER_mask_def)

lemma member_permissions_after_write:
  assumes "u_role u \<noteq> SUPERUSER" and "S \<subseteq> overridable_for_plan plan"
  shows "p \<in> member_permissions plan u (write_overrides u S plan db) \<longleftrightarrow>
           p \<in> S \<or> (p = USERS_INVITE \<and> USERS_MANAGE \<in> S)"
proof -
  let ?ov = "overrides_of (permission_overrides (write_overrides u S plan db)) (u_id u)"
  let ?R = "permissions_for_role (u_role u)"
  let ?P = "permissions_for_plan plan"
  have S: "q \<in> S \<Longrightarrow> q \<in> ?P \<and> q \<notin> NON_OVERRIDABLE" for q
    using assms(2) by (auto simp: overridable_for_plan_def)
  have plat: "q \<in> NON_OVERRIDABLE \<Longrightarrow> q \<notin> ?R" for q
    using assms(1) platform_only_superuser by blast
  have granted: "granted_by ?R ?ov q \<longleftrightarrow> q \<in> S \<or> (q \<in> ?R \<and> q \<notin> ?P)" for q
    unfolding granted_by_def overrides_of_write_self Let_def
    using plat [of q] S [of q] by (auto simp: map_add_def map_of_override_rows split: option.splits)
  have mem: "p \<in> member_permissions plan u (write_overrides u S plan db) \<longleftrightarrow>
       p \<in> ?P \<and> (granted_by ?R ?ov p \<or> (p = USERS_INVITE \<and> granted_by ?R ?ov USERS_MANAGE))"
    unfolding member_permissions_def by (rule effective_permissions_mem) (rule overrides_of_write_distinct)
  show ?thesis
    unfolding mem granted using S [of p] S [of USERS_MANAGE] plan_invite_iff [of plan]
    by blast
qed

section \<open>What the handlers do\<close>

lemma guard_when_Inr: "guard_when c r = Inr () \<longleftrightarrow> (c \<longrightarrow> r = Inr ())"
  by (simp add: guard_when_def)

lemma guard_grantable_Inr: "guard_grantable session S = Inr () \<longleftrightarrow> S \<subseteq> as_permissions session"
  by (auto simp: guard_grantable_def)

lemma guard_assignable_Inr:
  "guard_assignable actor target = Inr () \<longleftrightarrow>
     (\<exists>r. target = Some r \<and> r \<noteq> SUPERUSER \<and> rank r \<le> rank actor)"
  by (auto simp: guard_assignable_def split: option.split)

lemma guard_target_Inr:
  "guard_target session row = Inr () \<longleftrightarrow>
     u_id row = as_user_id session \<or>
     (u_role row \<noteq> SUPERUSER \<and>
      (rank (u_role row) < rank (as_role session) \<or>
       (u_role row = OWNER \<and> as_role session = OWNER)))"
  using rank_inj by (auto simp: guard_target_def)

lemma unit_result_bind:
  "bind_result r (\<lambda>_. f) = Inr x \<longleftrightarrow> r = Inr () \<and> f = Inr x"
  by (cases r) auto

lemma update_user_checks_Inr:
  assumes "update_user_checks session p row db = Inr ()"
  shows "guard_target session row = Inr ()"
    and "deactivating p row \<Longrightarrow> u_id row \<noteq> as_user_id session"
    and "role_changed p row \<Longrightarrow> u_id row \<noteq> as_user_id session"
    and "role_changed p row \<or> uu_permissions p \<noteq> None \<Longrightarrow>
           \<exists>r. new_role p row = Some r \<and> r \<noteq> SUPERUSER \<and> rank r \<le> rank (as_role session)"
    and "role_changed p row \<Longrightarrow> uu_permissions p = None \<Longrightarrow> new_role p row = Some r \<Longrightarrow>
           effective_permissions r (as_plan session) (overrides_of (permission_overrides db) (u_id row))
             \<subseteq> member_permissions (as_plan session) row db \<union> as_permissions session"
    and "u_role row = OWNER \<Longrightarrow>
           deactivating p row \<or> (role_changed p row \<and> new_role p row \<noteq> Some OWNER) \<Longrightarrow>
           1 < active_owner_count (as_tenant_id session) db"
    and "uu_permissions p \<noteq> None \<Longrightarrow> u_id row \<noteq> as_user_id session"
proof -
  note checks = assms [unfolded update_user_checks_def Let_def unit_result_bind guard_when_Inr]
  show "guard_target session row = Inr ()"
    and "deactivating p row \<Longrightarrow> u_id row \<noteq> as_user_id session"
    and "role_changed p row \<Longrightarrow> u_id row \<noteq> as_user_id session"
    and "uu_permissions p \<noteq> None \<Longrightarrow> u_id row \<noteq> as_user_id session"
    using checks by (auto simp: guard_when_Inr split: if_splits)
  show "u_role row = OWNER \<Longrightarrow>
           deactivating p row \<or> (role_changed p row \<and> new_role p row \<noteq> Some OWNER) \<Longrightarrow>
           1 < active_owner_count (as_tenant_id session) db"
    using checks by (auto simp: guard_when_Inr)
  show "role_changed p row \<or> uu_permissions p \<noteq> None \<Longrightarrow>
           \<exists>r. new_role p row = Some r \<and> r \<noteq> SUPERUSER \<and> rank r \<le> rank (as_role session)"
    using checks by (auto simp: guard_when_Inr guard_assignable_Inr unit_result_bind split: if_splits)
  assume "role_changed p row" "uu_permissions p = None" "new_role p row = Some r"
  with checks have "guard_grantable session
      (effective_permissions r (as_plan session) (overrides_of (permission_overrides db) (u_id row))
         - member_permissions (as_plan session) row db) = Inr ()"
    by (auto simp: guard_when_Inr unit_result_bind split: if_splits)
  then show "effective_permissions r (as_plan session) (overrides_of (permission_overrides db) (u_id row))
             \<subseteq> member_permissions (as_plan session) row db \<union> as_permissions session"
    unfolding guard_grantable_Inr by blast
qed

lemma apply_changes_Inr:
  assumes "apply_changes p row = Inr row'"
  shows "u_id row' = u_id row" "u_tenant_id row' = u_tenant_id row"
    and "new_role p row = Some (u_role row')"
    and "u_is_active row' \<longleftrightarrow> (if deactivating p row then False
           else u_is_active row \<or> uu_is_active p = Some (Some True))"
  using assms by (auto simp: apply_changes_def new_role_def deactivating_def
      split: if_splits option.splits)

lemma requested_permissions_sub:
  "requested_permissions names plan = Inr S \<Longrightarrow> S \<subseteq> overridable_for_plan plan"
  by (induction names arbitrary: S) (auto split: option.splits if_splits)

lemma set_permissions_Inr:
  assumes "set_permissions session names current row db = Inr db'"
  obtains requested where "requested_permissions names (as_plan session) = Inr requested"
    and "requested \<subseteq> current \<union> as_permissions session"
    and "db' = write_overrides row ((requested \<inter> as_permissions session) \<union>
                 (current - as_permissions session)) (as_plan session) db"
  using assms by (auto simp: set_permissions_def guard_grantable_Inr bind_result_Inr_iff)

text \<open>The row a successful edit leaves, whatever else it did.\<close>

definition retired :: "instant \<Rightarrow> user \<Rightarrow> user" where
  "retired now u = u\<lparr>u_sessions_invalid_before := Some now\<rparr>"

lemma retired_frame [simp]:
  "u_id (retired now u) = u_id u" "u_tenant_id (retired now u) = u_tenant_id u"
  "u_role (retired now u) = u_role u" "u_is_active (retired now u) = u_is_active u"
  by (simp_all add: retired_def)

lemma retired_eq: "retired now = u_sessions_invalid_before_update (\<lambda>_. Some now)"
  by (rule ext) (simp add: retired_def)

lemma member_permissions_retired [simp]:
  "member_permissions plan (retired now u) db = member_permissions plan u db"
  by (simp add: member_permissions_def)

lemma update_where_after_store:
  "u_id u = uid \<Longrightarrow> update_where (\<lambda>r. u_id r = uid) f (update_where (\<lambda>r. u_id r = uid) (\<lambda>_. u) rows) =
     update_where (\<lambda>r. u_id r = uid) (\<lambda>_. f u) rows"
  by (induction rows) auto

lemma get_member_SomeD:
  "get_member session uid db = Some row \<Longrightarrow>
     get_row u_id uid (users db) = Some row \<and> u_id row = uid \<and> u_tenant_id row = as_tenant_id session"
  by (auto simp: get_member_def dest: get_row_SomeD split: option.splits if_splits)

text \<open>The facts of a successful edit that decide what the edited member may do.\<close>

definition edit_of :: "auth_session \<Rightarrow> user_update \<Rightarrow> id_db \<Rightarrow> id_db \<Rightarrow> user \<Rightarrow> user \<Rightarrow> bool" where
  "edit_of session p db db' row row' \<longleftrightarrow>
     update_user_checks session p row db = Inr () \<and> apply_changes p row = Inr row' \<and>
     (uu_permissions p = None \<longrightarrow> permission_overrides db' = permission_overrides db) \<and>
     (\<forall>names. uu_permissions p = Some names \<longrightarrow> (\<exists>requested.
        requested_permissions names (as_plan session) = Inr requested \<and>
        permission_overrides db' = permission_overrides (write_overrides row'
          ((requested \<inter> as_permissions session) \<union>
           (member_permissions (as_plan session) row db - as_permissions session))
          (as_plan session) db)))"

lemma update_user_InrE:
  assumes "update_user session now uid p db = Inr db'"
  obtains row row' row'' where
    "get_member session uid db = Some row"
    and "edit_of session p db db' row row'"
    and "row'' = (if role_changed p row \<or> deactivating p row \<or> uu_permissions p \<noteq> None
                  then retired now row' else row')"
    and "users db' = update_where (\<lambda>r. u_id r = uid) (\<lambda>_. row'') (users db)"
proof -
  let ?P = "\<lambda>r. u_id r = uid"
  from assms obtain row where row: "get_member session uid db = Some row"
    by (auto simp: update_user_def split: option.splits)
  let ?current = "member_permissions (as_plan session) row db"
  from assms row obtain row' db2 where checks: "update_user_checks session p row db = Inr ()"
    and row': "apply_changes p row = Inr row'"
    and db2: "(case uu_permissions p of None \<Rightarrow> Inr (store_user row' db)
         | Some names \<Rightarrow> set_permissions session names ?current row' (store_user row' db)) = Inr db2"
    and db': "db' = log_audit session ''user.updated'' ''user'' uid
         (if role_changed p row \<or> deactivating p row \<or> uu_permissions p \<noteq> None
          then revoke_all_for_user now uid db2 else db2)"
    by (auto simp: update_user_def Let_def)
  have uid: "u_id row' = uid" using apply_changes_Inr(1) [OF row'] get_member_SomeD [OF row] by simp
  have users2: "users db2 = update_where ?P (\<lambda>_. row') (users db)"
    using db2 uid by (auto simp: store_user_def split: option.splits elim!: set_permissions_Inr)
  have ov: "permission_overrides db' = permission_overrides db2"
    by (simp add: db' log_audit_def revoke_all_for_user_def)
  have edit: "edit_of session p db db' row row'"
    unfolding edit_of_def ov using checks row' db2
    by (auto simp: write_overrides_def store_user_def Let_def elim!: set_permissions_Inr)
  show ?thesis
  proof (rule that [OF row edit refl])
    show "users db' = update_where ?P
        (\<lambda>_. if role_changed p row \<or> deactivating p row \<or> uu_permissions p \<noteq> None
          then retired now row' else row') (users db)"
      using uid by (simp add: db' users2 log_audit_def revoke_all_for_user_def
          update_where_after_store retired_def)
  qed
qed

lemma edit_ofD:
  assumes "edit_of session p db db' row row'"
  shows "update_user_checks session p row db = Inr ()" "apply_changes p row = Inr row'"
  using assms by (simp_all add: edit_of_def)

section \<open>Invariants of the member table\<close>

lemma get_row_put:
  assumes "key row = k"
  shows "get_row key v (update_where (\<lambda>r. key r = k) (\<lambda>_. row) rows) =
           (if v = k then map_option (\<lambda>_. row) (get_row key v rows) else get_row key v rows)"
  using assms by (induction rows) auto

lemma update_user_row:
  assumes "update_user session now uid p db = Inr db'"
    and "get_row u_id v (users db) = Some u" and "get_row u_id v (users db') = Some u'"
  shows "v \<noteq> uid \<Longrightarrow> u' = u" and "u_tenant_id u' = u_tenant_id u"
    and "v = uid \<Longrightarrow> get_member session uid db = Some u \<and> u_role u' = the (new_role p u)"
proof -
  from assms(1) obtain row row' row'' where row: "get_member session uid db = Some row"
    and edit: "edit_of session p db db' row row'"
    and row'': "row'' = (if role_changed p row \<or> deactivating p row \<or> uu_permissions p \<noteq> None
                  then retired now row' else row')"
    and db': "users db' = update_where (\<lambda>r. u_id r = uid) (\<lambda>_. row'') (users db)"
    by (rule update_user_InrE)
  note row' = edit_ofD(2) [OF edit]
  have "u_id row'' = uid" and t: "u_tenant_id row'' = u_tenant_id row"
    and r: "u_role row'' = the (new_role p row)"
    using get_member_SomeD [OF row] apply_changes_Inr [OF row'] row'' by auto
  with assms(2,3) have u': "if v = uid then u' = row'' else u' = u"
    by (auto simp: db' get_row_put [of u_id row''] split: if_splits)
  have "v = uid \<Longrightarrow> u = row" using get_member_SomeD [OF row] assms(2) by simp
  with u' t r row show "v \<noteq> uid \<Longrightarrow> u' = u" and "u_tenant_id u' = u_tenant_id u"
    and "v = uid \<Longrightarrow> get_member session uid db = Some u \<and> u_role u' = the (new_role p u)"
    by (auto split: if_splits)
qed

section \<open>Nobody hands out what they do not hold\<close>

text \<open>Managing users includes inviting them, as in every resolved session.\<close>

definition editor_ok :: "auth_session \<Rightarrow> bool" where
  "editor_ok session \<longleftrightarrow>
     (USERS_MANAGE \<in> as_permissions session \<longrightarrow> USERS_INVITE \<in> as_permissions session)"

lemma authenticated_editor_ok: "editor_ok (authenticated db s u t)"
  by (simp add: editor_ok_def authenticated_def Let_def effective_manage_invite)

lemma member_permissions_cong:
  assumes "overrides_of (permission_overrides db') (u_id u) = overrides_of (permission_overrides db) (u_id u)"
  shows "member_permissions plan u db' = member_permissions plan u db"
  using assms by (simp add: member_permissions_def)

text \<open>The access form leaves the person within what they had and what the editor holds, and
  keeps everything they had that the editor does not hold.\<close>

lemma access_form_bounds:
  assumes "u_role row' \<noteq> SUPERUSER" and "u_role row \<noteq> SUPERUSER" and "u_id row' = u_id row"
    and "requested_permissions names plan = Inr requested"
    and "current = member_permissions plan row db"
    and "USERS_MANAGE \<in> held \<longrightarrow> USERS_INVITE \<in> held"
    and "permission_overrides db' = permission_overrides
           (write_overrides row' ((requested \<inter> held) \<union> (current - held)) plan db)"
  shows "member_permissions plan row' db' \<subseteq> current \<union> held" and "current - held \<subseteq> member_permissions plan row' db'"
proof -
  let ?S = "(requested \<inter> held) \<union> (current - held)"
  have "current \<subseteq> overridable_for_plan plan"
    using assms(2,5) effective_within_plan effective_platform platform_only_superuser
    by (auto simp: member_permissions_def overridable_for_plan_def)
  then have S: "?S \<subseteq> overridable_for_plan plan"
    using requested_permissions_sub [OF assms(4)] by blast
  have "member_permissions plan row' db' =
      member_permissions plan row' (write_overrides row' ?S plan db)"
    using assms(7) by (simp add: member_permissions_def)
  with member_permissions_after_write [OF assms(1) S]
  have mem: "p \<in> member_permissions plan row' db' \<longleftrightarrow> p \<in> ?S \<or> (p = USERS_INVITE \<and> USERS_MANAGE \<in> ?S)" for p
    by simp
  have "USERS_MANAGE \<in> current \<Longrightarrow> USERS_INVITE \<in> current"
    using assms(5) effective_manage_invite by (simp add: member_permissions_def)
  with mem assms(6) show "member_permissions plan row' db' \<subseteq> current \<union> held"
    and "current - held \<subseteq> member_permissions plan row' db'" by blast+
qed

lemma update_user_edit:
  assumes "update_user session now uid p db = Inr db'"
  shows "\<exists>row row'. get_member session uid db = Some row \<and> edit_of session p db db' row row'"
  using assms by (rule update_user_InrE) blast

lemma edit_of_bounds:
  assumes "edit_of session p db db' row row'" and "editor_ok session"
  shows "member_permissions (as_plan session) row' db' \<subseteq>
           member_permissions (as_plan session) row db \<union> as_permissions session"
    and "uu_permissions p \<noteq> None \<Longrightarrow>
           member_permissions (as_plan session) row db - as_permissions session \<subseteq>
             member_permissions (as_plan session) row' db'"
proof -
  let ?A = "member_permissions (as_plan session) row' db' \<subseteq>
           member_permissions (as_plan session) row db \<union> as_permissions session"
  let ?B = "member_permissions (as_plan session) row db - as_permissions session \<subseteq>
             member_permissions (as_plan session) row' db'"
  from assms(1) have C: "update_user_checks session p row db = Inr ()"
    and a: "apply_changes p row = Inr row'" by (simp_all add: edit_of_def)
  note checks = update_user_checks_Inr [OF C] and id = apply_changes_Inr(1) [OF a]
    and role = apply_changes_Inr(3) [OF a]
  have "?A \<and> (uu_permissions p \<noteq> None \<longrightarrow> ?B)"
  proof (cases "uu_permissions p")
    case None
    with assms(1) have ov: "permission_overrides db' = permission_overrides db"
      by (simp add: edit_of_def)
    show ?thesis
    proof (cases "role_changed p row")
      case True
      from checks(5) [OF True None role] None show ?thesis by (simp add: member_permissions_def ov id)
    next
      case False
      then have "u_role row' = u_role row"
        using role by (auto simp: role_changed_def new_role_def split: option.splits)
      then show ?thesis using None by (simp add: member_permissions_def ov id)
    qed
  next
    case (Some names)
    then have ns: "u_role row' \<noteq> SUPERUSER" and os: "u_role row \<noteq> SUPERUSER"
      using checks(1,4,7) role by (auto simp: guard_target_Inr)
    from assms(1) Some obtain requested
      where req: "requested_permissions names (as_plan session) = Inr requested"
      and ov: "permission_overrides db' = permission_overrides (write_overrides row'
             ((requested \<inter> as_permissions session) \<union>
              (member_permissions (as_plan session) row db - as_permissions session))
             (as_plan session) db)" unfolding edit_of_def by blast
    from access_form_bounds [OF ns os id req refl assms(2) [unfolded editor_ok_def] ov]
    show ?thesis by blast
  qed
  then show ?A and "uu_permissions p \<noteq> None \<Longrightarrow> ?B" by blast+
qed

lemma edit_of_others:
  assumes "edit_of session p db db' row row'" and "v \<noteq> u_id row"
  shows "overrides_of (permission_overrides db') v = overrides_of (permission_overrides db) v"
  using assms apply_changes_Inr(1) [of p row row']
  by (cases "uu_permissions p") (auto simp: edit_of_def overrides_of_write_other)

section \<open>The member table as a step relation\<close>

text \<open>Anybody's successful edit, second-factor reset or deletion, one after the other.\<close>

inductive member_step :: "auth_session \<Rightarrow> int \<Rightarrow> id_db \<Rightarrow> id_db \<Rightarrow> bool" where
  update: "update_user session now uid p db = Inr db' \<Longrightarrow> member_step session uid db db'"
| reset: "reset_user_mfa session now uid db = Inr db' \<Longrightarrow> member_step session uid db db'"
| delete: "delete_user session uid db = Inr db' \<Longrightarrow> member_step session uid db db'"

inductive member_run :: "id_db \<Rightarrow> id_db \<Rightarrow> bool" where
  stop: "member_run db db"
| more: "member_run db db' \<Longrightarrow> member_step session uid db' db'' \<Longrightarrow> member_run db db''"

lemma delete_user_InrE:
  assumes "delete_user session uid db = Inr db'"
  obtains row where "get_member session uid db = Some row" and "u_id row \<noteq> as_user_id session"
    and "guard_target session row = Inr ()"
    and "u_role row = OWNER \<Longrightarrow> 1 < active_owner_count (as_tenant_id session) db"
    and "users db' = filter (\<lambda>u. u_id u \<noteq> uid) (users db)"
  using assms
  by (auto simp: delete_user_def drop_user_def log_audit_def not_le split: option.splits if_splits)

lemma reset_user_mfa_InrE:
  assumes "reset_user_mfa session now uid db = Inr db'"
  obtains row where "get_member session uid db = Some row" and "u_id row \<noteq> as_user_id session"
    and "guard_target session row = Inr ()"
    and "users db' = update_where (\<lambda>u. u_id u = uid) (retired now) (users db)"
  using assms
  by (auto simp: reset_user_mfa_def revoke_all_for_user_def log_audit_def retired_eq
      split: option.splits if_splits)

definition members_ok :: "int \<Rightarrow> id_db \<Rightarrow> bool" where
  "members_ok tid db \<longleftrightarrow> distinct (map u_id (users db)) \<and> 1 \<le> active_owner_count tid db"

lemma update_user_keeps_owner:
  assumes "update_user session now uid p db = Inr db'" and "members_ok tid db"
  shows "members_ok tid db'"
proof -
  from assms(1) obtain row row' row'' where row: "get_member session uid db = Some row"
    and edit: "edit_of session p db db' row row'"
    and row'': "row'' = (if role_changed p row \<or> deactivating p row \<or> uu_permissions p \<noteq> None
                  then retired now row' else row')"
    and db': "users db' = update_where (\<lambda>r. u_id r = uid) (\<lambda>_. row'') (users db)"
    by (rule update_user_InrE)
  note row' = edit_ofD(2) [OF edit] and checks = update_user_checks_Inr [OF edit_ofD(1) [OF edit]]
  have r: "get_row u_id uid (users db) = Some row" "u_id row = uid" "u_tenant_id row = as_tenant_id session"
    using get_member_SomeD [OF row] by simp_all
  have id: "u_id row'' = uid" and t: "u_tenant_id row'' = u_tenant_id row"
    and role: "new_role p row = Some (u_role row'')"
    and active: "u_is_active row'' \<longleftrightarrow> (if deactivating p row then False
           else u_is_active row \<or> uu_is_active p = Some (Some True))"
    using apply_changes_Inr [OF row'] r row'' by auto
  have "map u_id (update_where (\<lambda>r. u_id r = uid) (\<lambda>_. row'') rows) = map u_id rows" for rows
    using id by (induction rows) auto
  with assms(2) have dist: "distinct (map u_id (users db'))" by (simp add: members_ok_def db')
  have dist0: "distinct (map u_id (users db))" using assms(2) by (simp add: members_ok_def)
  have count: "active_owner_count tid db' + (if is_active_owner tid row then 1 else 0) =
      active_owner_count tid db + (if is_active_owner tid row'' then 1 else 0)"
    unfolding active_owner_count_def db' by (rule count_replaced [OF dist0 r(1)])
  have "1 < active_owner_count tid db" if "is_active_owner tid row" and "\<not> is_active_owner tid row''"
  proof -
    from that t have tid: "tid = as_tenant_id session" "u_role row = OWNER"
      and "u_role row'' \<noteq> OWNER \<or> \<not> u_is_active row''" "u_is_active row"
      using r by (auto simp: is_active_owner_def)
    then have "deactivating p row \<or> (role_changed p row \<and> new_role p row \<noteq> Some OWNER)"
      using role active by (auto simp: role_changed_def new_role_def split: option.splits if_splits)
    with checks(6) tid show ?thesis by blast
  qed
  with count assms(2) dist show ?thesis by (auto simp: members_ok_def split: if_splits)
qed

lemma delete_user_keeps_owner:
  assumes "delete_user session uid db = Inr db'" and "members_ok tid db"
  shows "members_ok tid db'"
  using assms(1)
proof (rule delete_user_InrE)
  fix row
  assume row: "get_member session uid db = Some row"
    and last: "u_role row = OWNER \<Longrightarrow> 1 < active_owner_count (as_tenant_id session) db"
    and db': "users db' = filter (\<lambda>u. u_id u \<noteq> uid) (users db)"
  have r: "get_row u_id uid (users db) = Some row" "u_tenant_id row = as_tenant_id session"
    using get_member_SomeD [OF row] by simp_all
  have dist: "distinct (map u_id (users db))" using assms(2) by (simp add: members_ok_def)
  have "active_owner_count tid db' + (if is_active_owner tid row then 1 else 0) = active_owner_count tid db"
    unfolding active_owner_count_def db' by (rule count_removed [OF dist r(1)])
  moreover have "is_active_owner tid row \<Longrightarrow> 1 < active_owner_count tid db"
    using last r by (auto simp: is_active_owner_def)
  ultimately show ?thesis
    using assms(2) by (auto simp: members_ok_def db' distinct_map inj_on_def split: if_splits)
qed

lemma reset_user_mfa_keeps_owner:
  assumes "reset_user_mfa session now uid db = Inr db'" and "members_ok tid db"
  shows "members_ok tid db'"
  using assms(1)
proof (rule reset_user_mfa_InrE)
  fix row
  assume db': "users db' = update_where (\<lambda>u. u_id u = uid) (retired now) (users db)"
  have "map u_id (users db') = map u_id (users db)"
    unfolding db' by (rule map_key_update_where) simp
  moreover have "length (filter (is_active_owner tid) (update_where P (retired now) rows)) =
      length (filter (is_active_owner tid) rows)" for P rows
    by (induction rows) (auto simp: is_active_owner_def)
  ultimately show ?thesis using assms(2) by (simp add: members_ok_def active_owner_count_def db')
qed

lemma member_step_keeps_owner: "member_step session uid db db' \<Longrightarrow> members_ok tid db \<Longrightarrow> members_ok tid db'"
  by (cases rule: member_step.cases)
    (auto intro: update_user_keeps_owner delete_user_keeps_owner reset_user_mfa_keeps_owner)

section \<open>Properties\<close>

text \<open>C1: no edit is an escalation. After a successful \<open>update_user\<close> every member can do only what
  they could before or what the editor can do, and whatever the member had beyond the editor
  survives an edit of their access form.\<close>

theorem update_user_no_escalation:
  assumes "update_user session now uid p db = Inr db'" and "editor_ok session"
    and "get_row u_id v (users db) = Some u" and "get_row u_id v (users db') = Some u'"
  shows "member_permissions (as_plan session) u' db' \<subseteq>
           member_permissions (as_plan session) u db \<union> as_permissions session \<and>
         (uu_permissions p \<noteq> None \<longrightarrow>
           member_permissions (as_plan session) u db - as_permissions session \<subseteq>
             member_permissions (as_plan session) u' db')"
proof -
  note changed = update_user_row [OF assms(1,3,4)]
  from update_user_edit [OF assms(1)] obtain row row'
    where row: "get_member session uid db = Some row" and e: "edit_of session p db db' row row'" by blast
  have ids: "u_id row = uid" "u_id row' = uid" "new_role p row = Some (u_role row')"
    using get_member_SomeD [OF row] e apply_changes_Inr [of p row row'] by (auto simp: edit_of_def)
  have v: "u_id u = v" "u_id u' = v" using assms(3,4) by (auto dest: get_row_SomeD)
  show ?thesis
  proof (cases "v = uid")
    case True
    then have "u = row" "u_role u' = u_role row'" "u_id u' = u_id row'"
      using changed(3) row ids v by auto
    with edit_of_bounds [OF e assms(2)] show ?thesis by (simp add: member_permissions_def)
  next
    case False
    with changed(1) v edit_of_others [OF e, of v] ids
    have "member_permissions (as_plan session) u' db' = member_permissions (as_plan session) u db"
      by (simp add: member_permissions_def)
    then show ?thesis by blast
  qed
qed

definition ex_staff :: user where
  "ex_staff = ex_user\<lparr>u_id := 8, u_username := ''gio'', u_role := STAFF\<rparr>"

definition ex_members :: id_db where
  "ex_members = ex_id_db\<lparr>users := [ex_user, ex_staff]\<rparr>"

definition ex_owner_session :: auth_session where
  "ex_owner_session = authenticated ex_id_db ex_session ex_user ex_tenant"

lemma ex_owner_session_facts:
  "as_user_id ex_owner_session = 7" "as_role ex_owner_session = OWNER"
  "as_tenant_id ex_owner_session = 1" "as_plan ex_owner_session = BUREAU"
  "as_permissions ex_owner_session = OWNER_bundle" "editor_ok ex_owner_session"
proof -
  show "as_user_id ex_owner_session = 7" "as_role ex_owner_session = OWNER"
    "as_tenant_id ex_owner_session = 1" "as_plan ex_owner_session = BUREAU"
    by (simp_all add: ex_owner_session_def authenticated_def ex_id_defs Let_def effective_plan_def
        parse_plan_def)
  show "as_permissions ex_owner_session = OWNER_bundle"
    unfolding ex_owner_session_def by (rule ex_permissions)
  show "editor_ok ex_owner_session"
    unfolding ex_owner_session_def by (rule authenticated_editor_ok)
qed

lemma ex_staff_facts:
  "u_id ex_staff = 8" "u_role ex_staff = STAFF" "u_tenant_id ex_staff = 1" "u_is_active ex_staff"
  by (simp_all add: ex_staff_def ex_user_def)

definition ex_promotion :: user_update where
  "ex_promotion = \<lparr>uu_full_name = None, uu_position = None, uu_phone = None,
     uu_role = Some (Some MANAGER), uu_is_active = None, uu_permissions = None\<rparr>"

lemma ex_manager_grant:
  "effective_permissions MANAGER BUREAU [] - member_permissions BUREAU ex_staff ex_members \<subseteq> OWNER_bundle"
  using bundle_mono [of MANAGER OWNER] by (auto simp: effective_no_overrides)

definition ex_promoted :: id_db where
  "ex_promoted = (case update_user ex_owner_session 500 8 ex_promotion ex_members of
     Inr db \<Rightarrow> db | Inl _ \<Rightarrow> ex_members)"

lemma ex_promotion_runs:
  "update_user ex_owner_session 500 8 ex_promotion ex_members = Inr ex_promoted"
  "get_row u_id 8 (users ex_promoted) = Some (retired 500 (ex_staff\<lparr>u_role := MANAGER\<rparr>))"
proof -
  have m: "get_member ex_owner_session 8 ex_members = Some ex_staff"
    by (simp add: get_member_def ex_owner_session_facts ex_members_def ex_staff_def ex_id_defs)
  have ov: "overrides_of (permission_overrides ex_members) i = []" for i
    by (simp add: ex_members_def ex_id_defs overrides_of_def)
  have "guard_target ex_owner_session ex_staff = Inr ()"
    by (simp add: guard_target_Inr ex_owner_session_facts ex_staff_facts)
  moreover have "guard_grantable ex_owner_session
      (effective_permissions MANAGER BUREAU [] - member_permissions BUREAU ex_staff ex_members) = Inr ()"
    using ex_manager_grant by (simp add: guard_grantable_Inr ex_owner_session_facts)
  ultimately have "update_user_checks ex_owner_session ex_promotion ex_staff ex_members = Inr ()"
    by (simp add: update_user_checks_def ex_owner_session_facts ex_promotion_def role_changed_def
        deactivating_def new_role_def guard_when_def guard_assignable_def ov ex_staff_facts)
  then have run: "update_user ex_owner_session 500 8 ex_promotion ex_members =
      Inr (log_audit ex_owner_session ''user.updated'' ''user'' 8
        (revoke_all_for_user 500 8 (store_user (ex_staff\<lparr>u_role := MANAGER\<rparr>) ex_members)))"
    by (simp add: update_user_def m apply_changes_def Let_def)
      (simp add: ex_promotion_def role_changed_def ex_staff_def ex_user_def)
  then show "update_user ex_owner_session 500 8 ex_promotion ex_members = Inr ex_promoted"
    by (simp add: ex_promoted_def)
  show "get_row u_id 8 (users ex_promoted) = Some (retired 500 (ex_staff\<lparr>u_role := MANAGER\<rparr>))"
    unfolding ex_promoted_def run
    by (simp add: log_audit_def revoke_all_for_user_def store_user_def
        ex_members_def ex_staff_def ex_user_def retired_def)
qed

theorem update_user_no_escalation_witness:
  "member_permissions BUREAU (retired 500 (ex_staff\<lparr>u_role := MANAGER\<rparr>)) ex_promoted \<subseteq>
     member_permissions BUREAU ex_staff ex_members \<union> OWNER_bundle"
proof -
  have "get_row u_id 8 (users ex_members) = Some ex_staff"
    by (simp add: ex_members_def ex_staff_def ex_user_def)
  from update_user_no_escalation [OF ex_promotion_runs(1) ex_owner_session_facts(6) this ex_promotion_runs(2)]
  show ?thesis by (simp add: ex_owner_session_facts)
qed

text \<open>The access form is a round trip. What the form submits for a member is exactly what the
  stored difference reads back as, other members keep theirs, and asking for the role's own
  permissions leaves no rows behind.\<close>

lemma access_form_roundtrip:
  assumes "u_role u \<noteq> SUPERUSER" and "S \<subseteq> overridable_for_plan plan"
    and "USERS_MANAGE \<in> S \<longrightarrow> USERS_INVITE \<in> S"
  shows "member_permissions plan u (write_overrides u S plan db) = S \<and>
         (\<forall>v. u_id v \<noteq> u_id u \<longrightarrow>
            member_permissions plan v (write_overrides u S plan db) = member_permissions plan v db) \<and>
         (S = permissions_for_role (u_role u) \<inter> permissions_for_plan plan \<longrightarrow>
            overrides_of (permission_overrides (write_overrides u S plan db)) (u_id u) = [])"
proof (intro conjI allI impI)
  show "member_permissions plan u (write_overrides u S plan db) = S"
    using member_permissions_after_write [OF assms(1,2)] assms(3) by auto
  show "member_permissions plan v (write_overrides u S plan db) = member_permissions plan v db"
    if "u_id v \<noteq> u_id u" for v
    using that by (simp add: member_permissions_def overrides_of_write_other)
  show "overrides_of (permission_overrides (write_overrides u S plan db)) (u_id u) = []"
    if "S = permissions_for_role (u_role u) \<inter> permissions_for_plan plan"
    by (simp add: overrides_of_write_self that sorted_permissions_def)
qed

text \<open>Nobody acts on an account at or above their own rank (co-owners apart), and no edit
  hands out a role above the editor's or makes a superuser.\<close>

lemma member_step_respects_rank:
  assumes "member_step session uid db db'" and "uid \<noteq> as_user_id session"
  shows "\<exists>row. get_member session uid db = Some row \<and> u_role row \<noteq> SUPERUSER \<and>
           (rank (u_role row) < rank (as_role session) \<or>
            (u_role row = OWNER \<and> as_role session = OWNER)) \<and>
           (\<forall>u'. get_row u_id uid (users db') = Some u' \<longrightarrow>
              u_role u' \<noteq> SUPERUSER \<and> rank (u_role u') \<le> rank (as_role session))"
  using assms(1)
proof (cases rule: member_step.cases)
  case (update now p)
  from update_user_edit [OF update] obtain row row'
    where row: "get_member session uid db = Some row" and e: "edit_of session p db db' row row'" by blast
  note checks = update_user_checks_Inr [OF edit_ofD(1) [OF e]]
  have r: "get_row u_id uid (users db) = Some row" "u_id row = uid"
    using get_member_SomeD [OF row] by simp_all
  have g: "u_role row \<noteq> SUPERUSER" "rank (u_role row) < rank (as_role session) \<or>
      (u_role row = OWNER \<and> as_role session = OWNER)"
    using checks(1) r assms(2) by (auto simp: guard_target_Inr)
  have "u_role u' \<noteq> SUPERUSER \<and> rank (u_role u') \<le> rank (as_role session)"
    if "get_row u_id uid (users db') = Some u'" for u'
  proof -
    have "u_role u' = the (new_role p row)" using update_user_row(3) [OF update r(1) that] by simp
    then show ?thesis
      using checks(4) g by (cases "role_changed p row")
        (auto simp: role_changed_def new_role_def split: option.splits)
  qed
  with row g show ?thesis by blast
next
  case (reset now)
  then show ?thesis
  proof (rule reset_user_mfa_InrE)
    fix row
    assume row: "get_member session uid db = Some row" and "u_id row \<noteq> as_user_id session"
      and "guard_target session row = Inr ()"
      and db': "users db' = update_where (\<lambda>u. u_id u = uid) (retired now) (users db)"
    then have g: "u_role row \<noteq> SUPERUSER" "rank (u_role row) < rank (as_role session) \<or>
      (u_role row = OWNER \<and> as_role session = OWNER)" by (auto simp: guard_target_Inr)
    have "get_row u_id uid (users db') = Some (retired now row)"
      using get_member_SomeD [OF row] by (simp add: db' get_row_update_where)
    with row g show ?thesis by auto
  qed
next
  case delete
  then show ?thesis
  proof (rule delete_user_InrE)
    fix row
    assume row: "get_member session uid db = Some row" and "u_id row \<noteq> as_user_id session"
      and "guard_target session row = Inr ()"
      and db': "users db' = filter (\<lambda>u. u_id u \<noteq> uid) (users db)"
    then have g: "u_role row \<noteq> SUPERUSER" "rank (u_role row) < rank (as_role session) \<or>
      (u_role row = OWNER \<and> as_role session = OWNER)" by (auto simp: guard_target_Inr)
    have "get_row u_id uid (users db') = None" by (auto simp: get_row_None_iff db')
    with row g show ?thesis by simp
  qed
qed

text \<open>C18: whatever members do to each other, an organisation with an active owner keeps one, and
  ids stay unique.\<close>

theorem member_run_keeps_owner:
  assumes "member_run db db'" and "members_ok tid db"
  shows "members_ok tid db'"
  using assms
  by (induction rule: member_run.induct) (auto intro: member_step_keeps_owner)

theorem member_run_keeps_owner_witness:
  "members_ok 1 ex_promoted"
proof (rule member_run_keeps_owner)
  show "member_run ex_members ex_promoted"
    by (rule member_run.more [OF member_run.stop member_step.update [OF ex_promotion_runs(1)]])
  show "members_ok 1 ex_members"
    by (simp add: members_ok_def active_owner_count_def is_active_owner_def ex_members_def
        ex_staff_def ex_user_def)
qed

end
