(* ===== verification/Decimals.thy ===== *)
theory Decimals
  imports Prelude
begin

text \<open>
  Python's \<^verbatim>\<open>decimal\<close> as the code uses it. A \<^verbatim>\<open>Decimal\<close> is an exact rational; the
  operations that can lose digits are written out: \<open>dec28\<close> is the default context
  (28 significant digits, halves to even), applied where a quotient is formed and
  where that quotient is multiplied on, \<open>money\<close> is
  \<^verbatim>\<open>quantize(Decimal("0.01"), ROUND_HALF_UP)\<close>, \<open>cents_even\<close> the same with the
  context's own rounding. Lemma \<open>dec28_exact\<close> says when the context changes nothing,
  which covers every sum and product of the amounts a \<^verbatim>\<open>NUMERIC(10, 2)\<close> column holds.
\<close>

section \<open>Rounding to an integer\<close>

definition round_half_up :: "rat \<Rightarrow> int" where
  "round_half_up x = (if 0 \<le> x then \<lfloor>x + 1/2\<rfloor> else - \<lfloor>- x + 1/2\<rfloor>)"

definition round_half_even :: "rat \<Rightarrow> int" where
  "round_half_even x =
     (let f = \<lfloor>x\<rfloor>; r = x - of_int f
      in if r < 1/2 then f else if 1/2 < r then f + 1 else if even f then f else f + 1)"

lemma round_half_up_of_int [simp]: "round_half_up (of_int n) = n"
proof -
  have "\<lfloor>(of_int n :: rat) + 1/2\<rfloor> = n" for n by (simp add: floor_eq_iff)
  from this [of n] this [of "- n"] show ?thesis by (simp add: round_half_up_def)
qed

lemma round_half_even_of_int [simp]: "round_half_even (of_int n) = n"
  by (simp add: round_half_even_def)

lemma round_half_up_mono: "x \<le> y \<Longrightarrow> round_half_up x \<le> round_half_up y"
proof -
  assume xy: "x \<le> y"
  have nn: "0 \<le> \<lfloor>z + 1/2\<rfloor>" if "0 \<le> z" for z :: rat using that by simp
  show ?thesis
  proof (cases "0 \<le> x")
    case True
    with xy show ?thesis by (auto simp: round_half_up_def intro: floor_mono)
  next
    case x: False
    show ?thesis
    proof (cases "0 \<le> y")
      case True
      have "0 \<le> \<lfloor>- x + 1/2\<rfloor>" using x by (intro nn) simp
      then have "round_half_up x \<le> 0" using x by (simp add: round_half_up_def)
      also have "0 \<le> round_half_up y" using True nn by (simp add: round_half_up_def)
      finally show ?thesis .
    next
      case False
      have "\<lfloor>- y + 1/2\<rfloor> \<le> \<lfloor>- x + 1/2\<rfloor>" using xy by (intro floor_mono) simp
      then show ?thesis using x False by (simp add: round_half_up_def)
    qed
  qed
qed

lemma round_half_up_err: "\<bar>of_int (round_half_up x) - x\<bar> \<le> (1/2 :: rat)"
proof -
  have *: "\<bar>of_int \<lfloor>z + 1/2\<rfloor> - z\<bar> \<le> 1/2" for z :: rat
    using of_int_floor_le [of "z + 1/2"] floor_correct [of "z + 1/2"] by linarith
  show ?thesis
  proof (cases "0 \<le> x")
    case True
    then show ?thesis using * [of x] by (simp add: round_half_up_def)
  next
    case False
    have "of_int (round_half_up x) - x = - (of_int \<lfloor>- x + 1/2\<rfloor> - - x)"
      using False by (simp add: round_half_up_def)
    then show ?thesis using * [of "- x"] by (simp only: abs_minus_cancel)
  qed
qed

lemma round_half_even_bounds:
  "\<lfloor>x\<rfloor> \<le> round_half_even x" "round_half_even x \<le> \<lfloor>x\<rfloor> + 1"
  by (auto simp: round_half_even_def Let_def)

lemma round_half_even_mono: "x \<le> y \<Longrightarrow> round_half_even x \<le> round_half_even y"
proof -
  assume xy: "x \<le> y"
  then have f: "\<lfloor>x\<rfloor> \<le> \<lfloor>y\<rfloor>" by (rule floor_mono)
  show ?thesis
  proof (cases "\<lfloor>x\<rfloor> = \<lfloor>y\<rfloor>")
    case True
    with xy show ?thesis by (auto simp: round_half_even_def Let_def)
  next
    case False
    with f have "\<lfloor>x\<rfloor> + 1 \<le> \<lfloor>y\<rfloor>" by simp
    then show ?thesis
      using round_half_even_bounds(2) [of x] round_half_even_bounds(1) [of y] by linarith
  qed
qed

lemma round_half_even_nonneg: "0 \<le> x \<Longrightarrow> 0 \<le> round_half_even x"
  using round_half_even_mono [of 0 x] round_half_even_of_int [of 0] by simp

section \<open>Two decimal places\<close>

definition money :: "rat \<Rightarrow> rat" where
  "money value = of_int (round_half_up (value * 100)) / 100"

definition cents_even :: "rat \<Rightarrow> rat" where
  "cents_even value = of_int (round_half_even (value * 100)) / 100"

text \<open>A value with at most two decimal places: what a money column holds.\<close>

definition is_cents :: "rat \<Rightarrow> bool" where
  "is_cents x \<longleftrightarrow> of_int \<lfloor>x * 100\<rfloor> = x * 100"

lemma is_centsI: "x = of_int n / 100 \<Longrightarrow> is_cents x"
  by (simp add: is_cents_def)

lemma is_centsE:
  assumes "is_cents x"
  obtains n where "x = of_int n / 100"
proof -
  from assms have "of_int \<lfloor>x * 100\<rfloor> = x * 100" by (simp only: is_cents_def)
  then have "x = of_int \<lfloor>x * 100\<rfloor> / 100" by linarith
  then show thesis by (rule that)
qed

lemma is_cents_of_int_div [simp, intro]: "is_cents (of_int n / 100)"
  by (rule is_centsI) simp

lemma is_cents_0 [simp, intro]: "is_cents 0"
  using is_cents_of_int_div [of 0] by simp

lemma is_cents_add [intro]: "is_cents x \<Longrightarrow> is_cents y \<Longrightarrow> is_cents (x + y)"
  by (elim is_centsE, rule_tac n = "n + na" in is_centsI) (simp add: add_divide_distrib)

lemma is_cents_diff [intro]: "is_cents x \<Longrightarrow> is_cents y \<Longrightarrow> is_cents (x - y)"
  by (elim is_centsE, rule_tac n = "n - na" in is_centsI) (simp add: diff_divide_distrib)

lemma is_cents_money [simp, intro]: "is_cents (money x)"
  by (simp add: money_def)

text \<open>
  The interface of a rounding to a grid: what pricing relies on when it adds up rounded
  lines. The client facts are proved once, for any such rounding.
\<close>

locale rounding =
  fixes rnd :: "rat \<Rightarrow> rat"
    and grid :: "rat \<Rightarrow> bool"
  assumes grid_rnd: "grid (rnd x)"
    and rnd_grid: "grid x \<Longrightarrow> rnd x = x"
    and rnd_mono: "x \<le> y \<Longrightarrow> rnd x \<le> rnd y"
    and rnd_close: "\<bar>rnd x - x\<bar> \<le> 1/200"
    and grid_zero: "grid 0"
    and grid_plus: "grid x \<Longrightarrow> grid y \<Longrightarrow> grid (x + y)"
begin

lemma rnd_idem: "rnd (rnd x) = rnd x"
  by (simp add: rnd_grid grid_rnd)

lemma rnd_zero: "rnd 0 = 0"
  by (simp add: rnd_grid grid_zero)

lemma rnd_nonneg: "0 \<le> x \<Longrightarrow> 0 \<le> rnd x"
  using rnd_mono [of 0 x] by (simp add: rnd_zero)

lemma grid_sum_list: "(\<And>x. x \<in> set xs \<Longrightarrow> grid x) \<Longrightarrow> grid (sum_list xs)"
  by (induction xs) (auto intro: grid_zero grid_plus)

lemma rnd_sum_of_rounded: "rnd (sum_list (map (\<lambda>x. rnd (f x)) xs)) = sum_list (map (\<lambda>x. rnd (f x)) xs)"
  by (rule rnd_grid, rule grid_sum_list) (auto intro: grid_rnd)

lemma rounded_sum_drift:
  "\<bar>sum_list (map (\<lambda>x. rnd (f x)) xs) - sum_list (map f xs)\<bar> \<le> of_nat (length xs) / 200"
proof (induction xs)
  case Nil
  then show ?case by simp
next
  case (Cons x xs)
  let ?a = "rnd (f x) - f x"
  let ?b = "sum_list (map (\<lambda>x. rnd (f x)) xs) - sum_list (map f xs)"
  have "\<bar>?a + ?b\<bar> \<le> 1/200 + of_nat (length xs) / 200"
    using rnd_close [of "f x"] Cons.IH by linarith
  then show ?case by (simp add: add_divide_distrib algebra_simps)
qed

end

lemma money_of_cents: "is_cents x \<Longrightarrow> money x = x"
  by (elim is_centsE) (simp add: money_def)

lemma cents_even_of_cents: "is_cents x \<Longrightarrow> cents_even x = x"
  by (elim is_centsE) (simp add: cents_even_def)

lemma money_mono: "x \<le> y \<Longrightarrow> money x \<le> money y"
  by (simp add: money_def divide_right_mono round_half_up_mono)

lemma cents_even_mono: "x \<le> y \<Longrightarrow> cents_even x \<le> cents_even y"
  by (simp add: cents_even_def divide_right_mono round_half_even_mono)

lemma div_hundred_close:
  assumes "\<bar>of_int n - x * 100\<bar> \<le> (1/2 :: rat)"
  shows "\<bar>of_int n / 100 - x\<bar> \<le> 1/200"
  using assms by (simp add: abs_le_iff field_simps)

lemma money_close: "\<bar>money x - x\<bar> \<le> 1/200"
  unfolding money_def by (rule div_hundred_close, rule round_half_up_err)

lemma round_half_even_err: "\<bar>of_int (round_half_even x) - x\<bar> \<le> (1/2 :: rat)"
proof -
  have "of_int \<lfloor>x\<rfloor> \<le> x" and "x < of_int \<lfloor>x\<rfloor> + 1"
    using floor_correct [of x] by simp_all
  then show ?thesis by (auto simp: round_half_even_def Let_def abs_le_iff)
qed

lemma cents_even_close: "\<bar>cents_even x - x\<bar> \<le> 1/200"
  unfolding cents_even_def by (rule div_hundred_close, rule round_half_even_err)

interpretation money_r: rounding money is_cents
  by unfold_locales (fact is_cents_money money_of_cents money_mono money_close is_cents_0 is_cents_add)+

lemma is_cents_even [simp, intro]: "is_cents (cents_even x)"
  by (simp add: cents_even_def)

interpretation cents_r: rounding cents_even is_cents
  by unfold_locales
    (fact is_cents_even cents_even_of_cents cents_even_mono cents_even_close is_cents_0 is_cents_add)+

lemmas money_facts = money_r.rnd_zero money_r.rnd_nonneg money_r.rnd_idem money_of_cents

section \<open>The 28-digit context\<close>

fun ndigits :: "nat \<Rightarrow> nat" where
  "ndigits n = (if n < 10 then 1 else Suc (ndigits (n div 10)))"

declare ndigits.simps [simp del]

definition pow10 :: "int \<Rightarrow> rat" where
  "pow10 k = (if 0 \<le> k then 10 ^ nat k else 1 / 10 ^ nat (- k))"

text \<open>The adjusted exponent: \<open>10^e \<le> |x| < 10^(e+1)\<close> for \<open>x \<noteq> 0\<close>.\<close>

definition adj_exp :: "rat \<Rightarrow> int" where
  "adj_exp x =
     (if 1 \<le> \<bar>x\<bar> then int (ndigits (nat \<lfloor>\<bar>x\<bar>\<rfloor>)) - 1
      else - int (ndigits (nat (\<lceil>1 / \<bar>x\<bar>\<rceil> - 1))))"

definition dec28 :: "rat \<Rightarrow> rat" where
  "dec28 x =
     (if x = 0 then 0
      else let s = pow10 (27 - adj_exp x) in of_int (round_half_even (x * s)) / s)"

text \<open>\<^verbatim>\<open>a * b\<close> and \<^verbatim>\<open>a / b\<close> of decimals under the default context. The code never divides
  by zero (\<^verbatim>\<open>max(1, ...)\<close>).\<close>

definition dmul :: "rat \<Rightarrow> rat \<Rightarrow> rat" where
  "dmul a b = dec28 (a * b)"

definition ddiv :: "rat \<Rightarrow> rat \<Rightarrow> rat" where
  "ddiv a b = dec28 (a / b)"

lemma pow10_power_int: "pow10 k = power_int 10 k"
  by (simp add: pow10_def power_int_def inverse_eq_divide power_one_over)

lemma pow10_pos [simp]: "0 < pow10 k"
  by (simp add: pow10_def)

lemma pow10_nonzero [simp]: "pow10 k \<noteq> 0"
  using pow10_pos [of k] by linarith

lemma pow10_add: "pow10 (a + b) = pow10 a * pow10 b"
  by (simp add: pow10_power_int power_int_add)

lemma pow10_0 [simp]: "pow10 0 = 1"
  by (simp add: pow10_def)

lemma pow10_of_nat: "pow10 (int n) = 10 ^ n"
  by (simp add: pow10_def)

lemma pow10_minus: "pow10 (- a) = 1 / pow10 a"
  using pow10_add [of a "- a"] by (simp add: field_simps)

lemma pow10_mono: "a \<le> b \<Longrightarrow> pow10 a \<le> pow10 b"
proof -
  assume "a \<le> b"
  then have "pow10 b = pow10 a * 10 ^ nat (b - a)"
    using pow10_add [of a "b - a"] pow10_of_nat [of "nat (b - a)"] by simp
  moreover have "(1 :: rat) \<le> 10 ^ nat (b - a)" by simp
  ultimately show ?thesis using mult_left_mono [of 1 "10 ^ nat (b - a)" "pow10 a"] pow10_pos [of a]
    by simp
qed

lemma ndigits_bounds: "0 < n \<Longrightarrow> 10 ^ (ndigits n - 1) \<le> n \<and> n < 10 ^ ndigits n \<and> 0 < ndigits n"
proof (induction n rule: ndigits.induct)
  case (1 n)
  show ?case
  proof (cases "n < 10")
    case True
    with "1.prems" show ?thesis by (simp add: ndigits.simps [of n])
  next
    case False
    then have IH: "10 ^ (ndigits (n div 10) - 1) \<le> n div 10" "n div 10 < 10 ^ ndigits (n div 10)"
      "0 < ndigits (n div 10)"
      using "1.IH" by auto
    obtain d where d: "ndigits (n div 10) = Suc d" using IH(3) by (cases "ndigits (n div 10)") auto
    have lo: "10 ^ d \<le> n div 10" and hi: "n div 10 < 10 * 10 ^ d" using IH d by auto
    have "10 ^ Suc d \<le> n" using lo by (simp add: less_eq_div_iff_mult_less_eq mult.commute)
    moreover have "n < 10 ^ Suc (Suc d)" using hi by (simp add: div_less_iff_less_mult mult.commute)
    ultimately show ?thesis using False d by (simp add: ndigits.simps [of n])
  qed
qed

lemma pow_le_of_nat: "10 ^ k \<le> n \<Longrightarrow> (10 :: rat) ^ k \<le> of_nat n"
  using of_nat_le_iff [of "10 ^ k" n, where 'a = rat] by simp

lemma of_nat_le_pow: "n + 1 \<le> 10 ^ k \<Longrightarrow> of_nat n + 1 \<le> (10 :: rat) ^ k"
  using of_nat_le_iff [of "n + 1" "10 ^ k", where 'a = rat] by simp

lemma adj_exp_bounds:
  assumes "x \<noteq> 0"
  shows "pow10 (adj_exp x) \<le> \<bar>x\<bar>" and "\<bar>x\<bar> < pow10 (adj_exp x + 1)"
proof -
  let ?y = "\<bar>x\<bar>"
  have y: "0 < ?y" using assms by simp
  have "pow10 (adj_exp x) \<le> ?y \<and> ?y < pow10 (adj_exp x + 1)"
  proof (cases "1 \<le> ?y")
    case True
    define n where "n = nat \<lfloor>?y\<rfloor>"
    have n: "0 < n" "of_nat n \<le> ?y" "?y < of_nat n + 1"
      using True floor_correct [of ?y] by (auto simp: n_def)
    from ndigits_bounds [OF n(1)]
    have b: "10 ^ (ndigits n - 1) \<le> n" "n + 1 \<le> 10 ^ ndigits n" "0 < ndigits n" by auto
    have e: "adj_exp x = int (ndigits n - 1)" "adj_exp x + 1 = int (ndigits n)"
      using True b(3) by (simp_all add: adj_exp_def n_def)
    have "(10 :: rat) ^ (ndigits n - 1) \<le> of_nat n"
      using b(1) by (rule pow_le_of_nat)
    moreover have "of_nat n + 1 \<le> (10 :: rat) ^ ndigits n"
      using b(2) by (rule of_nat_le_pow)
    ultimately show ?thesis unfolding e(2) unfolding e(1) pow10_of_nat using n by linarith
  next
    case False
    define c where "c = \<lceil>1 / ?y\<rceil>"
    define n where "n = nat (c - 1)"
    have "1 < 1 / ?y" using False y by (simp add: field_simps)
    then have "1 < c" by (simp only: c_def less_ceiling_iff of_int_1)
    then have n: "0 < n" "of_nat n = (of_int c :: rat) - 1" by (simp_all add: n_def)
    have nb: "of_nat n < 1 / ?y" "1 / ?y \<le> of_nat n + 1"
      using ceiling_correct [of "1 / ?y"] n(2) unfolding c_def [symmetric] by linarith+
    from ndigits_bounds [OF n(1)]
    have b: "10 ^ (ndigits n - 1) \<le> n" "n + 1 \<le> 10 ^ ndigits n" "0 < ndigits n" by auto
    have e: "adj_exp x = - int (ndigits n)" "adj_exp x + 1 = - int (ndigits n - 1)"
      using False b(3) by (simp_all add: adj_exp_def n_def c_def)
    have "(10 :: rat) ^ (ndigits n - 1) \<le> of_nat n"
      using b(1) by (rule pow_le_of_nat)
    then have hi: "(10 :: rat) ^ (ndigits n - 1) < 1 / ?y" using nb by linarith
    have "of_nat n + 1 \<le> (10 :: rat) ^ ndigits n"
      using b(2) by (rule of_nat_le_pow)
    then have lo: "1 / ?y \<le> (10 :: rat) ^ ndigits n" using nb by linarith
    show ?thesis unfolding e(2) unfolding e(1) pow10_minus pow10_of_nat
      using lo hi y by (simp add: field_simps)
  qed
  then show "pow10 (adj_exp x) \<le> ?y" and "?y < pow10 (adj_exp x + 1)" by auto
qed

lemma dec28_0 [simp]: "dec28 0 = 0"
  by (simp add: dec28_def)

lemma dec28_nonneg [intro]: "0 \<le> x \<Longrightarrow> 0 \<le> dec28 x"
  by (auto simp: dec28_def Let_def intro!: divide_nonneg_pos mult_nonneg_nonneg round_half_even_nonneg
      order.strict_implies_order [OF pow10_pos])

lemma pow10_nat_int: "0 \<le> k \<Longrightarrow> \<exists>m. pow10 k = of_int m"
  by (rule exI [of _ "10 ^ nat k"]) (simp add: pow10_def)

text \<open>The context changes nothing when the exact result has at most 28 digits.\<close>

lemma dec28_exact:
  assumes x: "x = of_int m / 10 ^ d" and m: "\<bar>m\<bar> < 10 ^ 28"
  shows "dec28 x = x"
proof (cases "x = 0")
  case True
  then show ?thesis by simp
next
  case False
  have p: "pow10 (- int d) = 1 / 10 ^ d" by (simp add: pow10_minus pow10_of_nat)
  have "\<bar>x\<bar> = of_int \<bar>m\<bar> * pow10 (- int d)" by (simp add: x p abs_divide)
  also have "\<dots> < 10 ^ 28 * pow10 (- int d)"
    using m of_int_less_iff [of "\<bar>m\<bar>" "10 ^ 28", where 'a = rat]
    by (intro mult_strict_right_mono) simp_all
  also have "\<dots> = pow10 (28 - int d)"
    using pow10_add [of 28 "- int d"] pow10_of_nat [of 28] by simp
  finally have "pow10 (adj_exp x) < pow10 (28 - int d)"
    using adj_exp_bounds(1) [OF False] by linarith
  then have e: "adj_exp x < 28 - int d"
    using pow10_mono [of "28 - int d" "adj_exp x"] by linarith
  obtain k where k: "pow10 (27 - adj_exp x - int d) = of_int k" using pow10_nat_int e by fastforce
  have "x * pow10 (27 - adj_exp x) = of_int m * (pow10 (27 - adj_exp x) * pow10 (- int d))"
    by (simp add: p) (simp add: x)
  also have "\<dots> = of_int (m * k)"
    using pow10_add [of "27 - adj_exp x" "- int d"] k by simp
  finally have "x * pow10 (27 - adj_exp x) = of_int (m * k)" .
  then have "of_int (round_half_even (x * pow10 (27 - adj_exp x))) = x * pow10 (27 - adj_exp x)"
    by (simp only: round_half_even_of_int)
  then show ?thesis using False by (simp add: dec28_def Let_def)
qed

text \<open>
  The context keeps order on non-negative values. Within one decade this is the order of
  the rounding; across decades the power of ten between them separates the results.
\<close>

lemma dec28_decade:
  assumes x: "0 < x"
  shows "pow10 (adj_exp x) \<le> dec28 x" and "dec28 x \<le> pow10 (adj_exp x + 1)"
proof -
  let ?e = "adj_exp x" and ?s = "pow10 (27 - adj_exp x)"
  have b: "pow10 ?e \<le> x" "x < pow10 (?e + 1)" using adj_exp_bounds [of x] x by auto
  have s: "0 \<le> ?s" by (rule order.strict_implies_order [OF pow10_pos])
  have q: "pow10 ?e * ?s = of_int (10 ^ 27)" "pow10 (?e + 1) * ?s = of_int (10 ^ 28)"
    using pow10_add [of ?e "27 - ?e"] pow10_of_nat [of 27]
      pow10_add [of "?e + 1" "27 - ?e"] pow10_of_nat [of 28] by simp_all
  have lo: "of_int (10 ^ 27) \<le> x * ?s"
    using mult_right_mono [OF b(1) s] unfolding q .
  have hi: "x * ?s \<le> of_int (10 ^ 28)"
    using mult_right_mono [OF order.strict_implies_order [OF b(2)] s] unfolding q .
  have r: "10 ^ 27 \<le> round_half_even (x * ?s)" "round_half_even (x * ?s) \<le> 10 ^ 28"
    using round_half_even_mono [OF lo] round_half_even_mono [OF hi]
    by (simp_all only: round_half_even_of_int)
  have d: "dec28 x = of_int (round_half_even (x * ?s)) / ?s" using x by (simp add: dec28_def Let_def)
  have "pow10 ?e * ?s \<le> of_int (round_half_even (x * ?s))"
    unfolding q using r(1) by (simp only: of_int_le_iff)
  then show "pow10 ?e \<le> dec28 x" by (simp add: d pos_le_divide_eq)
  have "of_int (round_half_even (x * ?s)) \<le> pow10 (?e + 1) * ?s"
    unfolding q using r(2) by (simp only: of_int_le_iff)
  then show "dec28 x \<le> pow10 (?e + 1)" by (simp add: d pos_divide_le_eq)
qed

lemma dec28_mono:
  assumes "0 \<le> x" and "x \<le> y"
  shows "dec28 x \<le> dec28 y"
proof (cases "x = 0")
  case True
  with assms show ?thesis by (auto intro: dec28_nonneg)
next
  case False
  with assms have x: "0 < x" and y: "0 < y" by auto
  have bx: "pow10 (adj_exp x) \<le> x" and by': "y < pow10 (adj_exp y + 1)"
    using adj_exp_bounds [of x] adj_exp_bounds [of y] x y by auto
  have "pow10 (adj_exp x) < pow10 (adj_exp y + 1)" using bx by' assms(2) by linarith
  then have "adj_exp x < adj_exp y + 1"
    using pow10_mono [of "adj_exp y + 1" "adj_exp x"] by linarith
  then consider "adj_exp x = adj_exp y" | "adj_exp x + 1 \<le> adj_exp y" by linarith
  then show ?thesis
  proof cases
    case 1
    have "round_half_even (x * pow10 (27 - adj_exp y)) \<le> round_half_even (y * pow10 (27 - adj_exp y))"
      by (intro round_half_even_mono mult_right_mono assms order.strict_implies_order [OF pow10_pos])
    then show ?thesis using x y 1
      by (simp add: dec28_def Let_def divide_right_mono order.strict_implies_order)
  next
    case 2
    have "dec28 x \<le> pow10 (adj_exp x + 1)" using x by (rule dec28_decade)
    also have "\<dots> \<le> pow10 (adj_exp y)" using 2 by (rule pow10_mono)
    also have "\<dots> \<le> dec28 y" using y by (rule dec28_decade)
    finally show ?thesis .
  qed
qed

lemma dmul_nonneg [intro]: "0 \<le> a \<Longrightarrow> 0 \<le> b \<Longrightarrow> 0 \<le> dmul a b"
  unfolding dmul_def by (intro dec28_nonneg mult_nonneg_nonneg)

lemma ddiv_nonneg [intro]: "0 \<le> a \<Longrightarrow> 0 \<le> b \<Longrightarrow> 0 \<le> ddiv a b"
  unfolding ddiv_def by (intro dec28_nonneg divide_nonneg_nonneg)

lemma dmul_mono:
  "0 \<le> a \<Longrightarrow> a \<le> a' \<Longrightarrow> 0 \<le> b \<Longrightarrow> b \<le> b' \<Longrightarrow> dmul a b \<le> dmul a' b'"
  unfolding dmul_def by (intro dec28_mono mult_mono mult_nonneg_nonneg) auto

lemma ddiv_mono: "0 \<le> a \<Longrightarrow> a \<le> a' \<Longrightarrow> 0 \<le> b \<Longrightarrow> ddiv a b \<le> ddiv a' b"
  unfolding ddiv_def by (intro dec28_mono divide_right_mono divide_nonneg_nonneg) auto

lemma dmul_0 [simp]: "dmul 0 b = 0" "dmul a 0 = 0"
  by (simp_all add: dmul_def)

lemma dmul_exact:
  "a * b = of_int m / 10 ^ d \<Longrightarrow> \<bar>m\<bar> < 10 ^ 28 \<Longrightarrow> dmul a b = a * b"
  unfolding dmul_def by (rule dec28_exact)

end
