(* ===== verification/Pricing.thy ===== *)
theory Pricing
  imports Decimals Permissions
begin

text \<open>
  The pricing engine (\<^verbatim>\<open>domain/pricing.py\<close>) and what it is fed
  (\<^verbatim>\<open>domain/pricing_context.py\<close>, \<^verbatim>\<open>plans.pricing_for_plan\<close>). Amounts are exact rationals;
  every product and quotient the code computes with \<^verbatim>\<open>Decimal\<close> goes through the 28-digit
  context (\<open>dmul\<close>, \<open>ddiv\<close>), and \<open>money\<close> is its only other rounding. Sums of a few amounts
  stay far below 28 digits and are exact.
\<close>

section \<open>Enumerations\<close>

datatype urgency = STANDARD | EXPRESS | URGENT

datatype handover_method = SCAN | PICKUP | DELIVERY

datatype service_type = WRITTEN | ORAL

datatype copy_type = ORIGINAL | PLAIN | NOTARY_ORIGINAL | NOTARY_COPY | NOTARY_CERTIFIED

fun copy_is_notarized :: "copy_type \<Rightarrow> bool" where
  "copy_is_notarized NOTARY_ORIGINAL = True"
| "copy_is_notarized NOTARY_COPY = True"
| "copy_is_notarized NOTARY_CERTIFIED = True"
| "copy_is_notarized _ = False"

section \<open>Tariffs\<close>

definition VAT_RATE :: rat where "VAT_RATE = 118 / 100"
definition NOTARY_FLAT_FEE :: rat where "NOTARY_FLAT_FEE = 5"
definition FALLBACK_RATE_PER_PAGE :: rat where "FALLBACK_RATE_PER_PAGE = 15"
definition FALLBACK_RATE_PER_MINUTE :: rat where "FALLBACK_RATE_PER_MINUTE = 2"

definition NOTARY_PAGE_TIERS :: "(int option \<times> rat) list" where
  "NOTARY_PAGE_TIERS = [(Some 1, 6), (Some 10, 4), (Some 50, 3), (None, 2)]"

definition CERTIFICATION_PAGE_TIERS :: "(int option \<times> rat) list" where
  "CERTIFICATION_PAGE_TIERS = [(Some 1, 4), (Some 10, 2), (Some 50, 1), (None, 1 / 2)]"

text \<open>\<open>None\<close> is the \<^verbatim>\<open>AssertionError\<close> of a table without an open-ended last entry.\<close>

fun tier_rate :: "int \<Rightarrow> (int option \<times> rat) list \<Rightarrow> rat option" where
  "tier_rate page_count [] = None"
| "tier_rate page_count ((None, rate) # tiers) = Some rate"
| "tier_rate page_count ((Some max_pages, rate) # tiers) =
     (if page_count \<le> max_pages then Some rate else tier_rate page_count tiers)"

section \<open>Inputs and results\<close>

record pricing_config =
  urgency_multipliers :: "urgency \<Rightarrow> rat option"
  delivery_fee :: rat
  translator_share :: rat

definition pricing_defaults :: pricing_config where
  "pricing_defaults = \<lparr>
     urgency_multipliers = [STANDARD \<mapsto> 1, EXPRESS \<mapsto> 3 / 2, URGENT \<mapsto> 2],
     delivery_fee = 10, translator_share = 1 / 2\<rparr>"

definition urgency_multiplier :: "pricing_config \<Rightarrow> urgency \<Rightarrow> rat" where
  "urgency_multiplier cfg u = (case urgency_multipliers cfg u of None \<Rightarrow> 1 | Some m \<Rightarrow> m)"

record doc_input =
  dp_page_count :: int
  dp_base_rate_per_page :: "rat option"
  dp_document_type_multiplier :: rat
  dp_copy_type :: copy_type
  dp_urgency :: urgency
  dp_is_notarized :: "bool option"
  dp_service_type :: service_type
  dp_base_rate_per_minute :: "rat option"
  dp_character_count :: "int option"
  dp_characters_per_page :: int

record price_breakdown =
  pb_translation_cost :: rat
  pb_notary_cost :: rat
  pb_certification_cost :: rat
  pb_price :: rat
  pb_translator_cost :: rat
  pb_base_rate_per_page :: rat
  pb_document_type_multiplier :: rat
  pb_urgency_multiplier :: rat
  pb_page_count :: int
  pb_is_notarized :: bool
  pb_used_fallback_rate :: bool
  pb_service_type :: service_type
  pb_character_count :: "int option"
  pb_standard_pages :: "rat option"

definition profit :: "price_breakdown \<Rightarrow> rat" where
  "profit b = money (pb_price b - pb_translator_cost b - pb_notary_cost b)"

section \<open>Pricing a document\<close>

definition price_oral :: "doc_input \<Rightarrow> int \<Rightarrow> pricing_config \<Rightarrow> price_breakdown" where
  "price_oral doc mins cfg =
     (let rate = (case dp_base_rate_per_minute doc of None \<Rightarrow> FALLBACK_RATE_PER_MINUTE | Some r \<Rightarrow> r);
          um = urgency_multiplier cfg (dp_urgency doc);
          cost = money (dmul (dmul rate (of_int mins)) um)
      in \<lparr>pb_translation_cost = cost, pb_notary_cost = 0, pb_certification_cost = 0,
          pb_price = cost, pb_translator_cost = money (dmul cost (translator_share cfg)),
          pb_base_rate_per_page = rate, pb_document_type_multiplier = 1,
          pb_urgency_multiplier = um, pb_page_count = mins, pb_is_notarized = False,
          pb_used_fallback_rate = (dp_base_rate_per_minute doc = None),
          pb_service_type = ORAL, pb_character_count = None, pb_standard_pages = None\<rparr>)"

text \<open>A count of characters is used when it is there and not zero.\<close>

definition truthy_count :: "int option \<Rightarrow> int option" where
  "truthy_count c = (if c = Some 0 then None else c)"

definition standard_pages_of :: "doc_input \<Rightarrow> rat option" where
  "standard_pages_of doc = map_option
     (\<lambda>c. max 1 (ddiv (of_int c) (of_int (max 1 (dp_characters_per_page doc)))))
     (truthy_count (dp_character_count doc))"

definition billed_pages :: "doc_input \<Rightarrow> int \<Rightarrow> rat" where
  "billed_pages doc page_count =
     (case standard_pages_of doc of None \<Rightarrow> of_int page_count | Some p \<Rightarrow> p)"

definition notarized :: "doc_input \<Rightarrow> bool" where
  "notarized doc = (case dp_is_notarized doc of Some b \<Rightarrow> b | None \<Rightarrow> copy_is_notarized (dp_copy_type doc))"

text \<open>The tables end with an open entry, so the lookup never fails (\<open>tiers_total\<close> below).\<close>

definition tier :: "int \<Rightarrow> (int option \<times> rat) list \<Rightarrow> rat" where
  "tier page_count tiers = (case tier_rate page_count tiers of Some r \<Rightarrow> r | None \<Rightarrow> 0)"

definition raw_certification :: "doc_input \<Rightarrow> int \<Rightarrow> rat" where
  "raw_certification doc page_count =
     (if notarized doc \<and> dp_copy_type doc = NOTARY_CERTIFIED
      then dmul (dmul (tier page_count CERTIFICATION_PAGE_TIERS) (of_int page_count)) VAT_RATE
      else 0)"

definition raw_notary :: "doc_input \<Rightarrow> int \<Rightarrow> rat" where
  "raw_notary doc page_count =
     (if notarized doc
      then dmul (dmul (tier page_count NOTARY_PAGE_TIERS) (of_int page_count)) VAT_RATE
             + NOTARY_FLAT_FEE + raw_certification doc page_count
      else 0)"

definition base_rate :: "doc_input \<Rightarrow> rat" where
  "base_rate doc = (case dp_base_rate_per_page doc of None \<Rightarrow> FALLBACK_RATE_PER_PAGE | Some r \<Rightarrow> r)"

definition raw_translation :: "doc_input \<Rightarrow> int \<Rightarrow> pricing_config \<Rightarrow> rat" where
  "raw_translation doc page_count cfg =
     dmul (dmul (dmul (base_rate doc) (billed_pages doc page_count)) (dp_document_type_multiplier doc))
       (urgency_multiplier cfg (dp_urgency doc))"

definition price_written :: "doc_input \<Rightarrow> int \<Rightarrow> pricing_config \<Rightarrow> price_breakdown" where
  "price_written doc page_count cfg =
     (let translation_cost = raw_translation doc page_count cfg;
          translation_rounded = money translation_cost;
          notary_rounded = money (raw_notary doc page_count)
      in \<lparr>pb_translation_cost = translation_rounded, pb_notary_cost = notary_rounded,
          pb_certification_cost = money (raw_certification doc page_count),
          pb_price = translation_rounded + notary_rounded,
          pb_translator_cost = money (dmul translation_cost (translator_share cfg)),
          pb_base_rate_per_page = base_rate doc,
          pb_document_type_multiplier = dp_document_type_multiplier doc,
          pb_urgency_multiplier = urgency_multiplier cfg (dp_urgency doc),
          pb_page_count = page_count, pb_is_notarized = notarized doc,
          pb_used_fallback_rate = (dp_base_rate_per_page doc = None),
          pb_service_type = WRITTEN,
          pb_character_count = truthy_count (dp_character_count doc),
          pb_standard_pages = standard_pages_of doc\<rparr>)"

definition price_document :: "doc_input \<Rightarrow> pricing_config \<Rightarrow> price_breakdown" where
  "price_document doc cfg =
     (let page_count = max 1 (dp_page_count doc)
      in if dp_service_type doc = ORAL then price_oral doc page_count cfg
         else price_written doc page_count cfg)"

section \<open>Pricing an order\<close>

record order_quote =
  oq_documents :: "price_breakdown list"
  oq_documents_total :: rat
  oq_delivery_cost :: rat
  oq_total :: rat
  oq_translator_cost_total :: rat
  oq_notary_cost_total :: rat

definition gross_profit :: "order_quote \<Rightarrow> rat" where
  "gross_profit q = money (oq_total q - oq_translator_cost_total q - oq_notary_cost_total q)"

definition quote_order :: "doc_input list \<Rightarrow> handover_method \<Rightarrow> pricing_config \<Rightarrow> order_quote" where
  "quote_order documents handover cfg =
     (let breakdowns = map (\<lambda>d. price_document d cfg) documents;
          documents_total = sum_list (map pb_price breakdowns);
          translator_total = sum_list (map pb_translator_cost breakdowns);
          notary_total = sum_list (map pb_notary_cost breakdowns);
          delivery_cost = (if handover = DELIVERY then delivery_fee cfg else 0)
      in \<lparr>oq_documents = breakdowns, oq_documents_total = money documents_total,
          oq_delivery_cost = money delivery_cost,
          oq_total = money (documents_total + delivery_cost),
          oq_translator_cost_total = money translator_total,
          oq_notary_cost_total = money notary_total\<rparr>)"

section \<open>What the engine is fed\<close>

definition pricing_for_plan :: "pricing_config \<Rightarrow> tenant_plan \<Rightarrow> pricing_config" where
  "pricing_for_plan config plan =
     (if plan = FREELANCER then config\<lparr>translator_share := 0\<rparr> else config)"

datatype pricing_unit = PAGES | CHARACTERS

record tenant_settings =
  ts_urgency_standard :: rat
  ts_urgency_express :: rat
  ts_urgency_urgent :: rat
  ts_delivery_fee :: rat
  ts_default_translator_share :: rat
  ts_characters_per_page :: int
  ts_due_days_standard :: int
  ts_due_days_express :: int
  ts_due_days_urgent :: int
  ts_default_language :: string
  ts_system_email :: "string option"
  ts_pricing_unit :: pricing_unit

fun DEFAULT_DUE_DAYS :: "urgency \<Rightarrow> int" where
  "DEFAULT_DUE_DAYS STANDARD = 5"
| "DEFAULT_DUE_DAYS EXPRESS = 2"
| "DEFAULT_DUE_DAYS URGENT = 0"

definition config_from_settings :: "tenant_settings option \<Rightarrow> tenant_plan \<Rightarrow> pricing_config" where
  "config_from_settings s plan =
     (case s of
        None \<Rightarrow> pricing_for_plan pricing_defaults plan
      | Some s \<Rightarrow> pricing_for_plan
          \<lparr>urgency_multipliers = [STANDARD \<mapsto> ts_urgency_standard s,
              EXPRESS \<mapsto> ts_urgency_express s, URGENT \<mapsto> ts_urgency_urgent s],
           delivery_fee = ts_delivery_fee s, translator_share = ts_default_translator_share s\<rparr> plan)"

fun due_days_from_settings :: "tenant_settings option \<Rightarrow> urgency \<Rightarrow> int" where
  "due_days_from_settings None u = DEFAULT_DUE_DAYS u"
| "due_days_from_settings (Some s) STANDARD = ts_due_days_standard s"
| "due_days_from_settings (Some s) EXPRESS = ts_due_days_express s"
| "due_days_from_settings (Some s) URGENT = ts_due_days_urgent s"

record language_pair_price =
  lp_source_language :: string
  lp_target_language :: string
  lp_price_per_page :: rat
  lp_price_per_minute :: "rat option"
  lp_is_active :: bool
  lp_id :: int
  lp_price_per_page_bureau :: "rat option"

record document_type =
  dt_id :: int
  dt_price_multiplier :: rat
  dt_is_active :: bool
  dt_name_en :: string
  dt_name_ka :: string

record pricing_context =
  pc_config :: pricing_config
  pc_rates :: "(string \<times> string) \<Rightarrow> rat option"
  pc_minute_rates :: "(string \<times> string) \<Rightarrow> rat option"
  pc_multipliers :: "int \<Rightarrow> rat option"
  pc_due_days :: "urgency \<Rightarrow> int"
  pc_characters_per_page :: int

definition pair_of :: "language_pair_price \<Rightarrow> string \<times> string" where
  "pair_of row = (lower (lp_source_language row), lower (lp_target_language row))"

definition load_rates :: "language_pair_price list \<Rightarrow> (string \<times> string) \<Rightarrow> rat option" where
  "load_rates rows = fold (\<lambda>row m. m(pair_of row \<mapsto> lp_price_per_page row)) (filter lp_is_active rows) Map.empty"

definition load_minute_rates :: "language_pair_price list \<Rightarrow> (string \<times> string) \<Rightarrow> rat option" where
  "load_minute_rates rows = fold (\<lambda>row m.
     case lp_price_per_minute row of None \<Rightarrow> m | Some p \<Rightarrow> m(pair_of row \<mapsto> p))
     (filter lp_is_active rows) Map.empty"

definition load_pricing_context ::
    "tenant_settings option \<Rightarrow> language_pair_price list \<Rightarrow> document_type list \<Rightarrow> tenant_plan \<Rightarrow> int list \<Rightarrow> pricing_context" where
  "load_pricing_context settings pairs types plan type_ids =
     \<lparr>pc_config = config_from_settings settings plan,
      pc_rates = load_rates pairs, pc_minute_rates = load_minute_rates pairs,
      pc_multipliers = (\<lambda>i. if i \<in> set type_ids
         then map_option dt_price_multiplier (get_row dt_id i types) else None),
      pc_due_days = due_days_from_settings settings,
      pc_characters_per_page = (case settings of Some s \<Rightarrow> ts_characters_per_page s | None \<Rightarrow> 1800)\<rparr>"

definition ctx_rate :: "pricing_context \<Rightarrow> string \<Rightarrow> string \<Rightarrow> rat option" where
  "ctx_rate ctx source target = pc_rates ctx (lower source, lower target)"

definition ctx_minute_rate :: "pricing_context \<Rightarrow> string \<Rightarrow> string \<Rightarrow> rat option" where
  "ctx_minute_rate ctx source target = pc_minute_rates ctx (lower source, lower target)"

definition ctx_price ::
    "pricing_context \<Rightarrow> int option \<Rightarrow> string \<Rightarrow> string \<Rightarrow> int \<Rightarrow> copy_type \<Rightarrow> urgency \<Rightarrow> bool option
     \<Rightarrow> service_type \<Rightarrow> int option \<Rightarrow> price_breakdown" where
  "ctx_price ctx document_type_id source target page_count copy urgency is_notarized service character_count =
     price_document
       \<lparr>dp_page_count = page_count, dp_base_rate_per_page = ctx_rate ctx source target,
        dp_document_type_multiplier =
          (case document_type_id of None \<Rightarrow> 1
           | Some i \<Rightarrow> (case pc_multipliers ctx i of None \<Rightarrow> 1 | Some m \<Rightarrow> m)),
        dp_copy_type = copy, dp_urgency = urgency, dp_is_notarized = is_notarized,
        dp_service_type = service, dp_base_rate_per_minute = ctx_minute_rate ctx source target,
        dp_character_count = character_count,
        dp_characters_per_page = pc_characters_per_page ctx\<rparr> (pc_config ctx)"

section \<open>Tariffs in closed form\<close>

lemma notary_tier:
  "tier n NOTARY_PAGE_TIERS = (if n \<le> 1 then 6 else if n \<le> 10 then 4 else if n \<le> 50 then 3 else 2)"
  by (simp add: tier_def NOTARY_PAGE_TIERS_def)

lemma certification_tier:
  "tier n CERTIFICATION_PAGE_TIERS = (if n \<le> 1 then 4 else if n \<le> 10 then 2 else if n \<le> 50 then 1 else 1 / 2)"
  by (simp add: tier_def CERTIFICATION_PAGE_TIERS_def)

text \<open>The \<^verbatim>\<open>AssertionError\<close> of \<^verbatim>\<open>_tier_rate\<close> is never raised on the two tables of the module.\<close>

lemma tiers_total:
  "tier_rate n NOTARY_PAGE_TIERS = Some (tier n NOTARY_PAGE_TIERS)"
  "tier_rate n CERTIFICATION_PAGE_TIERS = Some (tier n CERTIFICATION_PAGE_TIERS)"
  by (simp_all add: tier_def NOTARY_PAGE_TIERS_def CERTIFICATION_PAGE_TIERS_def)

lemma dmul_fractions:
  assumes "a = of_int m / 10 ^ d" and "b = of_int n / 10 ^ e" and "\<bar>m * n\<bar> < 10 ^ 28"
  shows "dmul a b = a * b"
proof (rule dmul_exact [OF _ assms(3)])
  show "a * b = of_int (m * n) / 10 ^ (d + e)" by (simp add: assms(1,2) power_add)
qed

lemma tiered_exact:
  assumes "r = of_int m / 10" and "0 \<le> m" "m \<le> 60" and "1 \<le> n" "n \<le> 10000"
  shows "dmul (dmul r (of_int n)) VAT_RATE = r * of_int n * VAT_RATE"
proof -
  have mn: "m * n \<le> 60 * 10000" "0 \<le> m * n"
    using mult_mono [of m 60 n 10000] assms by auto
  have "dmul r (of_int n) = r * of_int n"
    using mn by (intro dmul_fractions [where m = m and d = 1 and n = n and e = 0]) (simp_all add: assms(1))
  moreover have "dmul (r * of_int n) VAT_RATE = r * of_int n * VAT_RATE"
    using mn by (intro dmul_fractions [where m = "m * n" and d = 1 and n = 118 and e = 2])
      (simp_all add: assms(1) VAT_RATE_def)
  ultimately show ?thesis by simp
qed

lemma notary_exact:
  assumes "1 \<le> n" "n \<le> 10000"
  shows "dmul (dmul (tier n NOTARY_PAGE_TIERS) (of_int n)) VAT_RATE =
      tier n NOTARY_PAGE_TIERS * of_int n * VAT_RATE"
    and "dmul (dmul (tier n CERTIFICATION_PAGE_TIERS) (of_int n)) VAT_RATE =
      tier n CERTIFICATION_PAGE_TIERS * of_int n * VAT_RATE"
  by (rule tiered_exact [where m = "(if n \<le> 1 then 60 else if n \<le> 10 then 40 else if n \<le> 50 then 30 else 20)"],
      use assms in \<open>simp_all add: notary_tier\<close>)
    (rule tiered_exact [where m = "(if n \<le> 1 then 40 else if n \<le> 10 then 20 else if n \<le> 50 then 10 else 5)"],
      use assms in \<open>simp_all add: certification_tier\<close>)

lemma raw_notary_exact:
  assumes "1 \<le> n" "n \<le> 10000"
  shows "raw_notary doc n =
    (if notarized doc
     then tier n NOTARY_PAGE_TIERS * of_int n * VAT_RATE + NOTARY_FLAT_FEE +
       (if dp_copy_type doc = NOTARY_CERTIFIED
        then tier n CERTIFICATION_PAGE_TIERS * of_int n * VAT_RATE else 0)
     else 0)"
  by (simp add: raw_notary_def raw_certification_def notary_exact [OF assms])

lemma is_cents_tiered:
  "is_cents (tier n NOTARY_PAGE_TIERS * of_int n * VAT_RATE)"
  "is_cents (tier n CERTIFICATION_PAGE_TIERS * of_int n * VAT_RATE)"
  by (rule is_centsI [where n = "(if n \<le> 1 then 6 else if n \<le> 10 then 4 else if n \<le> 50 then 3 else 2) * n * 118"],
      simp add: notary_tier VAT_RATE_def)
    (rule is_centsI [where n = "(if n \<le> 1 then 8 else if n \<le> 10 then 4 else if n \<le> 50 then 2 else 1) * n * 59"],
      simp add: certification_tier VAT_RATE_def)

lemma is_cents_flat: "is_cents NOTARY_FLAT_FEE"
  by (rule is_centsI [where n = 500]) (simp add: NOTARY_FLAT_FEE_def)

section \<open>Signs and monotonicity\<close>

lemma tier_nonneg: "0 \<le> tier n NOTARY_PAGE_TIERS" "0 \<le> tier n CERTIFICATION_PAGE_TIERS"
  by (simp_all add: notary_tier certification_tier)

lemma raw_notary_nonneg: "0 \<le> n \<Longrightarrow> 0 \<le> raw_notary doc n" "0 \<le> n \<Longrightarrow> 0 \<le> raw_certification doc n"
  unfolding raw_notary_def raw_certification_def
  by (auto intro!: add_nonneg_nonneg dmul_nonneg tier_nonneg simp: VAT_RATE_def NOTARY_FLAT_FEE_def)

lemma billed_pages_at_least_one: "1 \<le> n \<Longrightarrow> 1 \<le> billed_pages doc n"
  by (auto simp: billed_pages_def standard_pages_of_def split: option.split)

lemma billed_pages_mono:
  assumes "m \<le> n" and "dp_characters_per_page doc' = dp_characters_per_page doc"
    and "dp_character_count doc = None \<and> dp_character_count doc' = None \<or>
         (\<exists>c c'. dp_character_count doc = Some c \<and> dp_character_count doc' = Some c' \<and> 0 < c \<and> c \<le> c')"
  shows "billed_pages doc m \<le> billed_pages doc' n"
proof (cases "dp_character_count doc")
  case None
  with assms show ?thesis by (simp add: billed_pages_def standard_pages_of_def truthy_count_def)
next
  case (Some c)
  with assms(3) obtain c' where c': "dp_character_count doc' = Some c'" "0 < c" "c \<le> c'" by auto
  let ?w = "(of_int (max 1 (dp_characters_per_page doc)) :: rat)"
  have "ddiv (of_int c) ?w \<le> ddiv (of_int c') ?w"
    using c' by (intro ddiv_mono) auto
  then have "max 1 (ddiv (of_int c) ?w) \<le> max 1 (ddiv (of_int c') ?w)"
    by (rule max.mono [OF order_refl])
  with Some c' assms(2) show ?thesis
    by (simp add: billed_pages_def standard_pages_of_def truthy_count_def)
qed

section \<open>Properties\<close>

text \<open>The lines of a quote are whole tetri, so its totals are their sums.\<close>

lemma priced_cents:
  "is_cents (pb_price (price_document d cfg))" "is_cents (pb_translator_cost (price_document d cfg))"
  "is_cents (pb_notary_cost (price_document d cfg))"
  "profit (price_document d cfg) = pb_price (price_document d cfg) -
     pb_translator_cost (price_document d cfg) - pb_notary_cost (price_document d cfg)"
  by (auto simp: profit_def price_document_def price_oral_def price_written_def Let_def
      intro!: money_of_cents is_cents_diff is_cents_add)

lemma quote_order_totals:
  fixes docs cfg
  defines "bs \<equiv> map (\<lambda>d. price_document d cfg) docs"
  assumes "is_cents (delivery_fee cfg)"
  shows "oq_documents (quote_order docs h cfg) = bs"
    "oq_documents_total (quote_order docs h cfg) = sum_list (map pb_price bs)"
    "oq_delivery_cost (quote_order docs h cfg) = (if h = DELIVERY then delivery_fee cfg else 0)"
    "oq_total (quote_order docs h cfg) = sum_list (map pb_price bs) + (if h = DELIVERY then delivery_fee cfg else 0)"
    "oq_translator_cost_total (quote_order docs h cfg) = sum_list (map pb_translator_cost bs)"
    "oq_notary_cost_total (quote_order docs h cfg) = sum_list (map pb_notary_cost bs)"
    "is_cents (oq_total (quote_order docs h cfg))"
    "is_cents (oq_translator_cost_total (quote_order docs h cfg))"
    "is_cents (oq_notary_cost_total (quote_order docs h cfg))"
proof -
  let ?d = "if h = DELIVERY then delivery_fee cfg else 0"
  have d: "is_cents ?d" using assms by simp
  have sums: "is_cents (sum_list (map pb_price bs))" "is_cents (sum_list (map pb_translator_cost bs))"
      "is_cents (sum_list (map pb_notary_cost bs))"
    unfolding bs_def by (auto intro!: money_r.grid_sum_list priced_cents)
  show "oq_documents (quote_order docs h cfg) = bs"
    "oq_documents_total (quote_order docs h cfg) = sum_list (map pb_price bs)"
    "oq_delivery_cost (quote_order docs h cfg) = ?d"
    "oq_total (quote_order docs h cfg) = sum_list (map pb_price bs) + ?d"
    "oq_translator_cost_total (quote_order docs h cfg) = sum_list (map pb_translator_cost bs)"
    "oq_notary_cost_total (quote_order docs h cfg) = sum_list (map pb_notary_cost bs)"
    "is_cents (oq_total (quote_order docs h cfg))"
    "is_cents (oq_translator_cost_total (quote_order docs h cfg))"
    "is_cents (oq_notary_cost_total (quote_order docs h cfg))"
    using sums d is_cents_add [OF sums(1) d]
    by (simp_all only: bs_def quote_order_def Let_def order_quote.simps money_of_cents is_cents_money)
qed

text \<open>Every priced line adds up in whole tetri: its price is its translation plus its notary
  cost, its profit is exactly the translation minus the translator's share, an oral line has no
  notary, and no line is priced for less than one unit.\<close>

lemma price_document_adds_up:
  "let b = price_document doc cfg in
     is_cents (pb_price b) \<and> is_cents (pb_translator_cost b) \<and>
     pb_price b = pb_translation_cost b + pb_notary_cost b \<and>
     profit b = pb_translation_cost b - pb_translator_cost b \<and>
     pb_page_count b = max 1 (dp_page_count doc) \<and>
     (dp_service_type doc = ORAL \<longrightarrow> pb_notary_cost b = 0 \<and> \<not> pb_is_notarized b)"
proof -
  let ?b = "price_document doc cfg"
  have parts: "is_cents (pb_translation_cost ?b)" "is_cents (pb_notary_cost ?b)"
    "is_cents (pb_translator_cost ?b)" "pb_price ?b = pb_translation_cost ?b + pb_notary_cost ?b"
    "pb_page_count ?b = max 1 (dp_page_count doc)"
    "dp_service_type doc = ORAL \<Longrightarrow> pb_notary_cost ?b = 0 \<and> \<not> pb_is_notarized ?b"
    by (simp_all add: price_document_def price_oral_def price_written_def Let_def)
  then have "profit ?b = pb_translation_cost ?b - pb_translator_cost ?b"
    by (simp add: profit_def money_of_cents is_cents_diff)
  with parts show ?thesis by (simp add: Let_def is_cents_add)
qed

definition ex_doc :: doc_input where
  "ex_doc = \<lparr>dp_page_count = 11, dp_base_rate_per_page = Some 15, dp_document_type_multiplier = 1,
     dp_copy_type = NOTARY_CERTIFIED, dp_urgency = EXPRESS, dp_is_notarized = None,
     dp_service_type = WRITTEN, dp_base_rate_per_minute = None, dp_character_count = None,
     dp_characters_per_page = 1800\<rparr>"

text \<open>An order's quote is the sum of the lines the client sees, to the tetri: nothing is lost
  or gained by rounding, in the total, the translators' and the notaries' cost and the profit.\<close>

lemma quote_order_adds_up:
  assumes "is_cents (delivery_fee cfg)"
  shows "let q = quote_order docs handover cfg;
             delivery = (if handover = DELIVERY then delivery_fee cfg else 0) in
     oq_documents q = map (\<lambda>d. price_document d cfg) docs \<and>
     oq_total q = sum_list (map pb_price (oq_documents q)) + delivery \<and>
     oq_total q = oq_documents_total q + oq_delivery_cost q \<and>
     oq_translator_cost_total q = sum_list (map pb_translator_cost (oq_documents q)) \<and>
     oq_notary_cost_total q = sum_list (map pb_notary_cost (oq_documents q)) \<and>
     gross_profit q = sum_list (map profit (oq_documents q)) + delivery"
proof -
  let ?bs = "map (\<lambda>d. price_document d cfg) docs"
  note totals = quote_order_totals [OF assms, of docs handover]
  have gp: "sum_list (map pb_price bs) - sum_list (map pb_translator_cost bs) - sum_list (map pb_notary_cost bs)
      = sum_list (map profit bs)" if "set bs \<subseteq> set ?bs" for bs
    using that by (induction bs) (auto simp: priced_cents(4))
  have "gross_profit (quote_order docs handover cfg) = oq_total (quote_order docs handover cfg) -
      oq_translator_cost_total (quote_order docs handover cfg) - oq_notary_cost_total (quote_order docs handover cfg)"
    unfolding gross_profit_def by (intro money_of_cents is_cents_diff totals(7-9))
  with gp [OF order_refl] have "gross_profit (quote_order docs handover cfg) = sum_list (map profit ?bs) +
      (if handover = DELIVERY then delivery_fee cfg else 0)"
    unfolding totals by simp
  then show ?thesis unfolding Let_def totals(1-6) by simp
qed

text \<open>Column ranges: \<^verbatim>\<open>NUMERIC(10, 2)\<close> rates and \<^verbatim>\<open>NUMERIC(6, 3)\<close> multipliers.\<close>

definition rate_column :: "rat \<Rightarrow> bool" where
  "rate_column x \<longleftrightarrow> is_cents x \<and> \<bar>x\<bar> < 10 ^ 8"

definition multiplier_column :: "rat \<Rightarrow> bool" where
  "multiplier_column x \<longleftrightarrow> of_int \<lfloor>x * 1000\<rfloor> = x * 1000 \<and> \<bar>x\<bar> < 10 ^ 3"

lemma abs_scaled_less: "\<bar>of_int n / (c :: rat)\<bar> < of_int b \<Longrightarrow> 0 < c \<Longrightarrow> \<bar>of_int n :: rat\<bar> < of_int b * c"
  by (simp add: abs_divide field_simps)

lemma rate_columnE:
  assumes "rate_column x"
  obtains n where "x = of_int n / 10 ^ 2" and "\<bar>n\<bar> < 10 ^ 10"
proof -
  from assms obtain n where n: "x = of_int n / 100" unfolding rate_column_def by (auto elim: is_centsE)
  have "\<bar>of_int n / 100 :: rat\<bar> < of_int (10 ^ 8)" using assms n by (simp add: rate_column_def)
  from abs_scaled_less [OF this] have "\<bar>of_int n :: rat\<bar> < of_int (10 ^ 10)" by simp
  then have "\<bar>n\<bar> < 10 ^ 10" by (simp only: of_int_abs [symmetric] of_int_less_iff)
  with n that show ?thesis by simp
qed

lemma multiplier_columnE:
  assumes "multiplier_column x"
  obtains n where "x = of_int n / 10 ^ 3" and "\<bar>n\<bar> < 10 ^ 6"
proof -
  have "of_int \<lfloor>x * 1000\<rfloor> = x * 1000" using assms unfolding multiplier_column_def by blast
  then have n: "x = of_int \<lfloor>x * 1000\<rfloor> / 1000" by (simp only:)
  have "\<bar>of_int \<lfloor>x * 1000\<rfloor> / 1000 :: rat\<bar> < of_int (10 ^ 3)"
    using assms n by (simp add: multiplier_column_def)
  from abs_scaled_less [OF this] have "\<bar>of_int \<lfloor>x * 1000\<rfloor> :: rat\<bar> < of_int (10 ^ 6)" by simp
  then have "\<bar>\<lfloor>x * 1000\<rfloor>\<bar> < 10 ^ 6" by (simp only: of_int_abs [symmetric] of_int_less_iff)
  with n that show ?thesis by simp
qed

lemma abs_mult_less_pow:
  assumes "\<bar>a\<bar> < (10::int) ^ i" and "\<bar>b\<bar> \<le> 10 ^ j"
  shows "\<bar>a * b\<bar> < 10 ^ (i + j)"
proof -
  have "\<bar>a * b\<bar> = \<bar>a\<bar> * \<bar>b\<bar>" by (rule abs_mult)
  also have "\<dots> \<le> \<bar>a\<bar> * 10 ^ j" by (rule mult_left_mono [OF assms(2)]) simp
  also have "\<dots> < 10 ^ i * 10 ^ j" by (rule mult_strict_right_mono [OF assms(1)]) simp
  finally show ?thesis by (simp add: power_add)
qed

lemma translation_exact:
  assumes "rate_column r" and "multiplier_column m" and "multiplier_column u"
    and "1 \<le> n" and "n \<le> 10000"
  shows "dmul (dmul (dmul r (of_int n)) m) u = r * of_int n * m * u"
proof -
  obtain a where a: "r = of_int a / 10 ^ 2" "\<bar>a\<bar> < 10 ^ 10" using rate_columnE [OF assms(1)] .
  obtain b where b: "m = of_int b / 10 ^ 3" "\<bar>b\<bar> < 10 ^ 6" using multiplier_columnE [OF assms(2)] .
  obtain c where c: "u = of_int c / 10 ^ 3" "\<bar>c\<bar> < 10 ^ 6" using multiplier_columnE [OF assms(3)] .
  have an: "\<bar>a * n\<bar> < 10 ^ (10 + 4)" by (rule abs_mult_less_pow [OF a(2)]) (use assms in simp)
  have anb: "\<bar>a * n * b\<bar> < 10 ^ (10 + 4 + 6)" by (rule abs_mult_less_pow [OF an]) (use b in simp)
  have anbc: "\<bar>a * n * b * c\<bar> < 10 ^ (10 + 4 + 6 + 6)" by (rule abs_mult_less_pow [OF anb]) (use c in simp)
  have 1: "dmul r (of_int n) = r * of_int n"
    by (rule dmul_fractions [where m = a and d = 2 and n = n and e = 0])
      (use a an in \<open>simp_all\<close>)
  have 2: "dmul (r * of_int n) m = r * of_int n * m"
    by (rule dmul_fractions [where m = "a * n" and d = 2 and n = b and e = 3])
      (use a b anb in \<open>simp_all\<close>)
  have e: "r * of_int n * m = of_int (a * n * b) / 10 ^ 5" unfolding a(1) b(1) by simp
  have 3: "dmul (r * of_int n * m) u = r * of_int n * m * u"
    by (rule dmul_fractions [OF e c(1)]) (use anbc in simp)
  show ?thesis by (simp add: 1 2 3)
qed

text \<open>C23: for every rate and multiplier the columns can hold, and every page count a request may send (ten thousand
  is the most an order's line or a quote accepts; the column itself would hold more), the 28-digit arithmetic is exact:
  a written line priced by its pages costs the true product, rounded once, and the notary's tariff is charged to the
  tetri with no rounding at all.\<close>

theorem price_document_exact:
  assumes "dp_service_type doc = WRITTEN" and "truthy_count (dp_character_count doc) = None"
    and "rate_column (base_rate doc)" and "multiplier_column (dp_document_type_multiplier doc)"
    and "multiplier_column (urgency_multiplier cfg (dp_urgency doc))"
    and "dp_page_count doc \<le> 10000"
  shows "let b = price_document doc cfg; n = max 1 (dp_page_count doc) in
     pb_translation_cost b = money (base_rate doc * of_int n * dp_document_type_multiplier doc *
        urgency_multiplier cfg (dp_urgency doc)) \<and>
     pb_notary_cost b =
       (if notarized doc
        then tier n NOTARY_PAGE_TIERS * of_int n * VAT_RATE + NOTARY_FLAT_FEE +
          (if dp_copy_type doc = NOTARY_CERTIFIED
           then tier n CERTIFICATION_PAGE_TIERS * of_int n * VAT_RATE else 0)
        else 0)"
proof -
  let ?n = "max 1 (dp_page_count doc)"
  have n: "1 \<le> ?n" "?n \<le> 10000" using assms(6) by auto
  have raw: "raw_translation doc ?n cfg = base_rate doc * of_int ?n * dp_document_type_multiplier doc *
        urgency_multiplier cfg (dp_urgency doc)"
    using translation_exact [OF assms(3-5) n]
    by (simp add: raw_translation_def billed_pages_def standard_pages_of_def assms(2))
  let ?notary = "if notarized doc
        then tier ?n NOTARY_PAGE_TIERS * of_int ?n * VAT_RATE + NOTARY_FLAT_FEE +
          (if dp_copy_type doc = NOTARY_CERTIFIED
           then tier ?n CERTIFICATION_PAGE_TIERS * of_int ?n * VAT_RATE else 0)
        else 0"
  have notary: "raw_notary doc ?n = ?notary"
    by (rule raw_notary_exact [OF n])
  have "is_cents ?notary"
    using is_cents_tiered [of ?n] is_cents_flat by (simp add: is_cents_add)
  with raw notary show ?thesis
    by (simp only: Let_def price_document_def price_written_def assms(1) service_type.simps if_False
        price_breakdown.simps money_of_cents)
qed

theorem price_document_exact_witness:
  "pb_notary_cost (price_document ex_doc pricing_defaults) = 3 * 11 * VAT_RATE + 5 + 11 * VAT_RATE"
proof -
  have "is_cents 15" by (rule is_centsI [where n = 1500]) simp
  then have "rate_column (base_rate ex_doc)" by (simp add: base_rate_def ex_doc_def rate_column_def)
  moreover have "multiplier_column (dp_document_type_multiplier ex_doc)"
    by (simp add: ex_doc_def multiplier_column_def)
  moreover have "multiplier_column (urgency_multiplier pricing_defaults (dp_urgency ex_doc))"
    by (simp add: ex_doc_def multiplier_column_def urgency_multiplier_def pricing_defaults_def)
  ultimately show ?thesis
    using price_document_exact [of ex_doc pricing_defaults]
    by (simp add: ex_doc_def truthy_count_def notarized_def Let_def notary_tier certification_tier
        NOTARY_FLAT_FEE_def)
qed

text \<open>Translation prices never fall with more pages or characters, a higher rate or a higher
  multiplier; and the page tiers do make the notary's fee fall when a page is added (eleven
  pages cost less to notarise than ten), so a price as a whole is not monotone.\<close>

lemma translation_cost_monotone:
  assumes "dp_service_type doc = WRITTEN" and "dp_service_type doc' = WRITTEN"
    and "dp_page_count doc \<le> dp_page_count doc'" and "dp_urgency doc' = dp_urgency doc"
    and "0 \<le> base_rate doc" and "base_rate doc \<le> base_rate doc'"
    and "0 \<le> dp_document_type_multiplier doc"
    and "dp_document_type_multiplier doc \<le> dp_document_type_multiplier doc'"
    and "0 \<le> urgency_multiplier cfg (dp_urgency doc)"
    and "dp_characters_per_page doc' = dp_characters_per_page doc"
    and "dp_character_count doc = None \<and> dp_character_count doc' = None \<or>
         (\<exists>c c'. dp_character_count doc = Some c \<and> dp_character_count doc' = Some c' \<and> 0 < c \<and> c \<le> c')"
  shows "pb_translation_cost (price_document doc cfg) \<le> pb_translation_cost (price_document doc' cfg) \<and>
     pb_notary_cost (price_document (ex_doc\<lparr>dp_page_count := 11\<rparr>) cfg)
       < pb_notary_cost (price_document (ex_doc\<lparr>dp_page_count := 10\<rparr>) cfg)"
proof
  let ?m = "max 1 (dp_page_count doc)" and ?n = "max 1 (dp_page_count doc')"
  have bp: "billed_pages doc ?m \<le> billed_pages doc' ?n"
    by (rule billed_pages_mono [OF _ assms(10,11)]) (use assms(3) in simp)
  have nn: "0 \<le> billed_pages doc ?m"
    using billed_pages_at_least_one [of ?m doc] by (simp del: max.bounded_iff)
  have "raw_translation doc ?m cfg \<le> raw_translation doc' ?n cfg"
    unfolding raw_translation_def assms(4)
    by (intro dmul_mono dmul_nonneg nn bp assms(5-9) order_refl)
  then show "pb_translation_cost (price_document doc cfg) \<le> pb_translation_cost (price_document doc' cfg)"
    by (simp add: price_document_def price_written_def assms(1,2) Let_def money_mono)
  have eleven: "raw_notary (ex_doc\<lparr>dp_page_count := 11\<rparr>) 11 = 1423 / 25"
    by (simp add: raw_notary_exact)
      (simp add: ex_doc_def notarized_def notary_tier certification_tier VAT_RATE_def NOTARY_FLAT_FEE_def)
  have ten: "raw_notary (ex_doc\<lparr>dp_page_count := 10\<rparr>) 10 = 379 / 5"
    by (simp add: raw_notary_exact)
      (simp add: ex_doc_def notarized_def notary_tier certification_tier VAT_RATE_def NOTARY_FLAT_FEE_def)
  have "money (1423 / 25) = 1423 / 25" "money (379 / 5) = 379 / 5"
    by (rule money_of_cents, rule is_centsI [where n = 5692], simp)
      (rule money_of_cents, rule is_centsI [where n = 7580], simp)
  moreover have "pb_notary_cost (price_document (ex_doc\<lparr>dp_page_count := k\<rparr>) cfg) =
      money (raw_notary (ex_doc\<lparr>dp_page_count := k\<rparr>) k)" if "1 \<le> k" for k
  proof -
    have "dp_service_type ex_doc = WRITTEN" by (simp add: ex_doc_def)
    with that show ?thesis by (simp add: price_document_def price_written_def Let_def max_absorb2)
  qed
  ultimately show "pb_notary_cost (price_document (ex_doc\<lparr>dp_page_count := 11\<rparr>) cfg)
       < pb_notary_cost (price_document (ex_doc\<lparr>dp_page_count := 10\<rparr>) cfg)"
    by (simp add: eleven ten)
qed

text \<open>A freelancer is never booked a translator's cost: whatever the settings row says, under
  the freelancer plan the share is zero, so a line's profit is its whole translation price; the
  bureau plan changes nothing.\<close>

lemma freelancer_keeps_everything:
  "(let ctx = load_pricing_context settings pairs types FREELANCER ids;
        b = ctx_price ctx dt source target pages copy urg notar service chars
    in pb_translator_cost b = 0 \<and> profit b = pb_translation_cost b) \<and>
   pc_config (load_pricing_context (Some s) pairs types BUREAU ids) =
     \<lparr>urgency_multipliers = [STANDARD \<mapsto> ts_urgency_standard s,
        EXPRESS \<mapsto> ts_urgency_express s, URGENT \<mapsto> ts_urgency_urgent s],
      delivery_fee = ts_delivery_fee s, translator_share = ts_default_translator_share s\<rparr>"
proof
  have share: "translator_share (config_from_settings settings FREELANCER) = 0"
    by (simp add: config_from_settings_def pricing_for_plan_def split: option.split)
  have zero: "pb_translator_cost (price_document doc (config_from_settings settings FREELANCER)) = 0" for doc
    by (simp add: price_document_def price_oral_def price_written_def Let_def share money_facts)
  have cents: "is_cents (pb_translation_cost (price_document doc cfg))"
    "pb_price (price_document doc cfg) = pb_translation_cost (price_document doc cfg) +
       pb_notary_cost (price_document doc cfg)" for doc cfg
    by (simp_all add: price_document_def price_oral_def price_written_def Let_def)
  show "let ctx = load_pricing_context settings pairs types FREELANCER ids;
        b = ctx_price ctx dt source target pages copy urg notar service chars
    in pb_translator_cost b = 0 \<and> profit b = pb_translation_cost b"
    by (simp add: Let_def ctx_price_def load_pricing_context_def profit_def zero cents money_of_cents)
  show "pc_config (load_pricing_context (Some s) pairs types BUREAU ids) =
     \<lparr>urgency_multipliers = [STANDARD \<mapsto> ts_urgency_standard s,
        EXPRESS \<mapsto> ts_urgency_express s, URGENT \<mapsto> ts_urgency_urgent s],
      delivery_fee = ts_delivery_fee s, translator_share = ts_default_translator_share s\<rparr>"
    by (simp add: load_pricing_context_def config_from_settings_def pricing_for_plan_def)
qed

end
