(* ===== verification/Office.thy ===== *)
theory Office
  imports Sessions Pricing
begin

text \<open>
  The rows of one bureau's work (\<^verbatim>\<open>models/order.py\<close>, \<^verbatim>\<open>models/finance.py\<close>,
  \<^verbatim>\<open>models/directory.py\<close>), the status vocabulary (\<^verbatim>\<open>domain/statuses.py\<close>) and the aggregate
  queries every screen shares (\<^verbatim>\<open>domain/orders.py\<close>). The state holds one tenant's rows, which
  is what the tenancy filter shows any request. A date is a day number; ids come from
  database sequences, modelled by one counter, so an id is never drawn twice.
\<close>

section \<open>Status vocabulary\<close>

datatype status_tone = NEW_tone | SUCCESS_tone | WARNING_tone | INFO_tone | DANGER_tone | NEUTRAL_tone | PICKUP_tone

definition STATUS_DEFINITIONS :: "(string \<times> string \<times> status_tone) list" where
  "STATUS_DEFINITIONS = [
     (''new'', ''New'', NEW_tone),
     (''confirmed'', ''Confirmed'', SUCCESS_tone),
     (''rejected'', ''Rejected'', DANGER_tone),
     (''payed'', ''Paid'', SUCCESS_tone),
     (''being translated'', ''Being Translated'', WARNING_tone),
     (''being corrected'', ''Being Corrected'', WARNING_tone),
     (''being notarised'', ''Being Notarised'', WARNING_tone),
     (''in_progress'', ''In Progress'', WARNING_tone),
     (''translated'', ''Translated'', INFO_tone),
     (''translated_by_suliko'', ''Translated by Suliko (AI)'', INFO_tone),
     (''sent_for_review'', ''Sent for Review'', INFO_tone),
     (''sent to the translator'', ''Sent to Translator'', INFO_tone),
     (''documents_uploaded'', ''Documents Uploaded'', WARNING_tone),
     (''ready_for_pickup_notary'', ''Ready for Pickup (Notary)'', PICKUP_tone),
     (''ready_for_pickup_translator'', ''Ready for Pickup (Translator)'', PICKUP_tone),
     (''picked_up'', ''Picked Up'', SUCCESS_tone),
     (''sent to the client for confirmation'', ''Sent to Client (Confirmation)'', INFO_tone),
     (''sent to the client'', ''Sent to Client'', INFO_tone),
     (''sent to custom recipient'', ''Sent to Custom Recipient'', INFO_tone),
     (''reviewed'', ''Reviewed'', NEW_tone),
     (''ready_for_pickup'', ''Ready for Pickup'', PICKUP_tone),
     (''completed'', ''Delivered'', SUCCESS_tone),
     (''cancelled'', ''Cancelled'', NEUTRAL_tone)]"

definition EXCLUDED_FROM_AGGREGATES :: "string set" where
  "EXCLUDED_FROM_AGGREGATES = {''cancelled'', ''rejected''}"

definition CLOSED_STATUSES :: "string set" where
  "CLOSED_STATUSES = {''completed'', ''cancelled'', ''rejected''}"

definition INITIAL_STATUS :: string where "INITIAL_STATUS = ''new''"

definition SELECTABLE_STATUSES :: "string list" where
  "SELECTABLE_STATUSES = [''new'', ''confirmed'', ''sent to the translator'', ''being notarised'',
     ''ready_for_pickup'', ''completed'']"

definition normalise :: "string option \<Rightarrow> string" where
  "normalise status = lower (strip (or_blank status))"

definition status_definition :: "string \<Rightarrow> (string \<times> status_tone) option" where
  "status_definition key = map_of STATUS_DEFINITIONS key"

text \<open>\<^verbatim>\<open>str.title\<close> on ASCII: a letter after a non-letter is upper case, any other letter lower.\<close>

fun title_from :: "bool \<Rightarrow> string \<Rightarrow> string" where
  "title_from prev_cased [] = []"
| "title_from prev_cased (c # cs) =
     (if is_alpha c then (if prev_cased then lower_char c else upper_char c) # title_from True cs
      else c # title_from False cs)"

definition get_label :: "string option \<Rightarrow> string" where
  "get_label status =
     (let key = normalise status
      in case status_definition key of
           Some (label, _) \<Rightarrow> label
         | None \<Rightarrow> if key = [] then ''No Status''
                   else title_from False (map (\<lambda>c. if c = CHR ''_'' then CHR '' '' else c) key))"

definition get_tone :: "string option \<Rightarrow> status_tone" where
  "get_tone status = (case status_definition (normalise status) of Some (_, tone) \<Rightarrow> tone | None \<Rightarrow> NEUTRAL_tone)"

definition is_known :: "string option \<Rightarrow> bool" where
  "is_known status \<longleftrightarrow> status_definition (normalise status) \<noteq> None"

definition is_selectable :: "string option \<Rightarrow> bool" where
  "is_selectable status \<longleftrightarrow> normalise status \<in> set SELECTABLE_STATUSES"

definition is_closed :: "string option \<Rightarrow> bool" where
  "is_closed status \<longleftrightarrow> normalise status \<in> CLOSED_STATUSES"

definition counts_toward_aggregates :: "string option \<Rightarrow> bool" where
  "counts_toward_aggregates status \<longleftrightarrow> normalise status \<notin> EXCLUDED_FROM_AGGREGATES"

section \<open>Rows\<close>

type_synonym date = int

datatype client_type = B2B | B2C

record client =
  cl_id :: int
  cl_name :: string
  cl_phone :: "string option"
  cl_number :: int
  cl_client_type :: client_type
  cl_email :: "string option"
  cl_address :: "string option"
  cl_personal_number :: "string option"
  cl_acquisition_source :: "string option"
  cl_notes :: "string option"

record translator =
  tr_id :: int
  tr_name :: string
  tr_default_rate :: "rat option"
  tr_phone :: "string option"
  tr_email :: "string option"
  tr_office_address :: "string option"
  tr_comment :: "string option"
  tr_experience_from :: "date option"
  tr_is_active :: bool
  tr_can_notarize :: bool
  tr_works_written :: bool
  tr_works_oral :: bool
  tr_cities :: "string option"
  tr_portal_username :: "string option"
  tr_portal_password_hash :: "string option"
  tr_bank_iban :: "string option"
  tr_bank_inn :: "string option"
  tr_bank_code :: "string option"

text \<open>A direction a translator works in, with what they are paid per page for it when it is not the default.\<close>

record translator_pair =
  tp_id :: int
  tp_translator_id :: int
  tp_source_language :: string
  tp_target_language :: string
  tp_rate_per_page :: "rat option"

record notary =
  no_id :: int
  no_name :: string
  no_phone :: "string option"
  no_email :: "string option"
  no_registration_number :: "string option"
  no_office_address :: "string option"
  no_comment :: "string option"
  no_bank_iban :: "string option"
  no_bank_inn :: "string option"
  no_bank_code :: "string option"

record language =
  la_id :: int
  la_code :: string
  la_name_en :: string
  la_name_ka :: string
  la_is_active :: bool

record order =
  o_id :: int
  o_number :: int
  o_client_id :: int
  o_order_date :: date
  o_due_date :: "date option"
  o_contact_info :: "string option"
  o_identifier :: "string option"
  o_urgency :: urgency
  o_handover_method :: handover_method
  o_delivery_address :: "string option"
  o_delivery_cost :: rat
  o_source :: "string option"
  o_notes :: "string option"
  o_translation_instructions :: "string option"
  o_created_by_user_id :: "int option"
  o_created_at :: instant

record order_document =
  d_id :: int
  d_order_id :: int
  d_document_type_id :: "int option"
  d_service_type :: service_type
  d_source_language :: string
  d_target_language :: string
  d_page_count :: int
  d_character_count :: "int option"
  d_interpreting_place :: "string option"
  d_interpreting_date :: "date option"
  d_interpreting_time :: "int option"
  d_copy_type :: copy_type
  d_is_notarized :: bool
  d_price :: rat
  d_translator_cost :: rat
  d_notary_cost :: rat
  d_translator_id :: "int option"
  d_notary_id :: "int option"

definition document_profit :: "order_document \<Rightarrow> rat" where
  "document_profit d = d_price d - d_translator_cost d - d_notary_cost d"

record status_event =
  e_id :: int
  e_order_id :: int
  e_status :: string
  e_changed_at :: instant
  e_changed_by_user_id :: "int option"
  e_note :: "string option"

datatype payment_method = CASH | BANK_TRANSFER | CARD | BOG_ONLINE | OTHER

text \<open>
  The three money ledgers have the same columns but for whom the money moved to or from:
  a client, a translator, or (for a notary fee) the translator payment it was reimbursed
  through, if any.
\<close>

record 'p ledger_row =
  l_id :: int
  l_party :: 'p
  l_amount :: rat
  l_payment_date :: date
  l_method :: payment_method
  l_notes :: "string option"
  l_recorded_by_user_id :: "int option"
  l_idempotency_key :: "string option"

type_synonym client_payment = "int ledger_row"
type_synonym translator_payment = "int ledger_row"
type_synonym notary_payment = "int option ledger_row"

text \<open>
  An allocation: of a client or translator payment to an order, of a notary payment to a
  document.
\<close>

record allocation =
  al_payment_id :: int
  al_target_id :: int
  al_amount :: rat

record client_refund =
  rf_payment_id :: int
  rf_amount :: rat

record expense =
  x_id :: int
  x_order_id :: "int option"
  x_expense_date :: date
  x_category :: string
  x_description :: string
  x_amount :: rat
  x_recorded_by_user_id :: "int option"

datatype option_list = ACQUISITION_SOURCE | ORDER_STATUS

record custom_option =
  co_id :: int
  co_list_key :: option_list
  co_value :: string

text \<open>A request to notify: the fan-out to people's inboxes is not modelled.\<close>

datatype notice_audience = Everyone | Permitted permission | Users "int list"

record notice =
  nt_kind :: string
  nt_audience :: notice_audience
  nt_order_id :: "int option"

record office =
  next_id :: int
  clients :: "client list"
  translators :: "translator list"
  notaries :: "notary list"
  tenant_settings_row :: "tenant_settings option"
  language_pairs :: "language_pair_price list"
  document_types :: "document_type list"
  languages :: "language list"
  translator_pairs :: "translator_pair list"
  orders :: "order list"
  documents :: "order_document list"
  status_events :: "status_event list"
  client_payments :: "client_payment list"
  client_allocations :: "allocation list"
  client_refunds :: "client_refund list"
  translator_payments :: "translator_payment list"
  translator_allocations :: "allocation list"
  notary_payments :: "notary_payment list"
  notary_allocations :: "allocation list"
  expenses :: "expense list"
  custom_options :: "custom_option list"
  office_audit :: "audit_entry list"
  notices :: "notice list"

section \<open>Aggregates over an order\<close>

text \<open>
  The most recent status event. Where two of one order carry the same instant the later row wins.
  The queries that read one order's status spell that tie-break out; \<^verbatim>\<open>latest_status_subquery\<close>, which
  the lists join, orders by the instant alone and leaves the choice between such rows to the
  database, so there the model is one of the answers it may give.
\<close>

definition later_event :: "status_event \<Rightarrow> status_event option \<Rightarrow> status_event option" where
  "later_event e best =
     (case best of
        None \<Rightarrow> Some e
      | Some b \<Rightarrow> if e_changed_at b < e_changed_at e \<or>
                    (e_changed_at b = e_changed_at e \<and> e_id b \<le> e_id e) then Some e else best)"

definition latest_event :: "int \<Rightarrow> status_event list \<Rightarrow> status_event option" where
  "latest_event oid events = fold later_event (filter (\<lambda>e. e_order_id e = oid) events) None"

definition latest_status :: "int \<Rightarrow> office \<Rightarrow> string option" where
  "latest_status oid db = map_option e_status (latest_event oid (status_events db))"

definition order_documents :: "int \<Rightarrow> office \<Rightarrow> order_document list" where
  "order_documents oid db = filter (\<lambda>d. d_order_id d = oid) (documents db)"

definition documents_total :: "int \<Rightarrow> office \<Rightarrow> rat" where
  "documents_total oid db = sum_where d_price (\<lambda>d. d_order_id d = oid) (documents db)"

definition translator_total :: "int \<Rightarrow> office \<Rightarrow> rat" where
  "translator_total oid db = sum_where d_translator_cost (\<lambda>d. d_order_id d = oid) (documents db)"

definition notary_total :: "int \<Rightarrow> office \<Rightarrow> rat" where
  "notary_total oid db = sum_where d_notary_cost (\<lambda>d. d_order_id d = oid) (documents db)"

definition documents_gross_profit :: "int \<Rightarrow> office \<Rightarrow> rat" where
  "documents_gross_profit oid db = sum_where document_profit (\<lambda>d. d_order_id d = oid) (documents db)"

definition document_count :: "int \<Rightarrow> office \<Rightarrow> nat" where
  "document_count oid db = length (order_documents oid db)"

definition pages_total :: "int \<Rightarrow> office \<Rightarrow> int" where
  "pages_total oid db = sum_where (\<lambda>d. if d_service_type d = ORAL then 0 else d_page_count d)
     (\<lambda>d. d_order_id d = oid) (documents db)"

definition paid_on :: "int \<Rightarrow> office \<Rightarrow> rat" where
  "paid_on oid db = sum_where al_amount (\<lambda>a. al_target_id a = oid) (client_allocations db)"

definition order_expenses :: "int \<Rightarrow> office \<Rightarrow> rat" where
  "order_expenses oid db = sum_where x_amount (\<lambda>x. x_order_id x = Some oid) (expenses db)"

text \<open>One row of \<^verbatim>\<open>base_order_query\<close>: every aggregate left-joined, so absent rows read 0.\<close>

record order_row =
  ro_order :: order
  ro_status :: "string option"
  ro_documents_total :: rat
  ro_translator_total :: rat
  ro_notary_total :: rat
  ro_gross_profit :: rat
  ro_document_count :: nat
  ro_page_count :: int
  ro_paid :: rat
  ro_expenses :: rat

definition order_row_of :: "office \<Rightarrow> order \<Rightarrow> order_row" where
  "order_row_of db ord = \<lparr>ro_order = ord, ro_status = latest_status (o_id ord) db,
     ro_documents_total = documents_total (o_id ord) db,
     ro_translator_total = translator_total (o_id ord) db,
     ro_notary_total = notary_total (o_id ord) db,
     ro_gross_profit = documents_gross_profit (o_id ord) db,
     ro_document_count = document_count (o_id ord) db,
     ro_page_count = pages_total (o_id ord) db,
     ro_paid = paid_on (o_id ord) db, ro_expenses = order_expenses (o_id ord) db\<rparr>"

definition base_order_query :: "office \<Rightarrow> order_row list" where
  "base_order_query db = map (order_row_of db) (orders db)"

section \<open>Amounts a request may carry\<close>

text \<open>\<^verbatim>\<open>Money\<close> and \<^verbatim>\<open>PositiveMoney\<close> of \<^verbatim>\<open>api/v1/_shared.py\<close>: at most ten digits, two of them
  decimals.\<close>

definition money_field :: "rat \<Rightarrow> bool" where
  "money_field x \<longleftrightarrow> 0 \<le> x \<and> is_cents x \<and> x < 10 ^ 8"

definition positive_money_field :: "rat \<Rightarrow> bool" where
  "positive_money_field x \<longleftrightarrow> 0 < x \<and> is_cents x \<and> x < 10 ^ 8"

section \<open>Facts\<close>

lemma later_event_not_None [simp]: "later_event e best \<noteq> None"
  by (simp add: later_event_def split: option.split)

lemma latest_event_append:
  "latest_event oid (events @ [e]) =
     (if e_order_id e = oid then later_event e (latest_event oid events) else latest_event oid events)"
  by (simp add: latest_event_def)

lemma fold_later_event_mem:
  "fold later_event es best = Some b \<Longrightarrow> b \<in> set es \<or> best = Some b"
proof (induction es arbitrary: best)
  case (Cons e es)
  then have "b \<in> set es \<or> later_event e best = Some b" by simp
  then show ?case by (auto simp: later_event_def split: option.splits if_splits)
qed simp

lemma latest_event_mem:
  "latest_event oid events = Some b \<Longrightarrow> b \<in> set events \<and> e_order_id b = oid"
  using fold_later_event_mem [of "filter (\<lambda>e. e_order_id e = oid) events" None b]
  by (auto simp: latest_event_def)

lemma gross_profit_split:
  "documents_gross_profit oid db = documents_total oid db - translator_total oid db - notary_total oid db"
proof -
  have "sum_where document_profit P ds = sum_where d_price P ds - sum_where d_translator_cost P ds -
      sum_where d_notary_cost P ds" for P ds
    by (induction ds) (auto simp: document_profit_def)
  then show ?thesis
    by (simp add: documents_gross_profit_def documents_total_def translator_total_def notary_total_def)
qed

lemma normalise_idem [simp]: "normalise (Some (normalise s)) = normalise s"
  by (simp add: normalise_def or_blank_def strip_lower)

section \<open>An example bureau\<close>

definition ex_client :: client where
  "ex_client = \<lparr>cl_id = 1, cl_name = ''Client'', cl_phone = None, cl_number = 1, cl_client_type = B2C,
     cl_email = None, cl_address = None, cl_personal_number = None, cl_acquisition_source = None, cl_notes = None\<rparr>"

definition ex_translator :: translator where
  "ex_translator = \<lparr>tr_id = 2, tr_name = ''Translator'', tr_default_rate = None, tr_phone = None, tr_email = None,
     tr_office_address = None, tr_comment = None, tr_experience_from = None, tr_is_active = True, tr_can_notarize = True,
     tr_works_written = True, tr_works_oral = False, tr_cities = None, tr_portal_username = None,
     tr_portal_password_hash = None, tr_bank_iban = None, tr_bank_inn = None, tr_bank_code = None\<rparr>"

definition ex_notary :: notary where
  "ex_notary = \<lparr>no_id = 3, no_name = ''Notary'', no_phone = None, no_email = None, no_registration_number = None,
     no_office_address = None, no_comment = None, no_bank_iban = None, no_bank_inn = None, no_bank_code = None\<rparr>"

definition ex_order :: order where
  "ex_order = \<lparr>o_id = 4, o_number = 1, o_client_id = 1, o_order_date = 20, o_due_date = Some 25,
     o_contact_info = None, o_identifier = None, o_urgency = STANDARD, o_handover_method = SCAN,
     o_delivery_address = None, o_delivery_cost = 0, o_source = Some ''office'', o_notes = None,
     o_translation_instructions = None, o_created_by_user_id = Some 7, o_created_at = 1000\<rparr>"

definition ex_document :: order_document where
  "ex_document = \<lparr>d_id = 5, d_order_id = 4, d_document_type_id = Some 8, d_service_type = WRITTEN,
     d_source_language = ''ka'', d_target_language = ''en'', d_page_count = 2,
     d_character_count = None, d_interpreting_place = None, d_interpreting_date = None,
     d_interpreting_time = None, d_copy_type = NOTARY_COPY, d_is_notarized = True,
     d_price = 100, d_translator_cost = 40, d_notary_cost = 20, d_translator_id = Some 2,
     d_notary_id = Some 3\<rparr>"

definition ex_event :: status_event where
  "ex_event = \<lparr>e_id = 6, e_order_id = 4, e_status = ''new'', e_changed_at = 1000,
     e_changed_by_user_id = Some 7, e_note = None\<rparr>"

definition ex_office :: office where
  "ex_office = \<lparr>next_id = 100, clients = [ex_client], translators = [ex_translator],
     notaries = [ex_notary], tenant_settings_row = None,
     language_pairs = [\<lparr>lp_source_language = ''ka'', lp_target_language = ''en'',
        lp_price_per_page = 15, lp_price_per_minute = None, lp_is_active = True, lp_id = 9,
        lp_price_per_page_bureau = None\<rparr>],
     document_types = [\<lparr>dt_id = 8, dt_price_multiplier = 1, dt_is_active = True,
        dt_name_en = ''Contract'', dt_name_ka = ''Contract''\<rparr>],
     languages = [\<lparr>la_id = 10, la_code = ''ka'', la_name_en = ''Georgian'', la_name_ka = ''Georgian'', la_is_active = True\<rparr>,
        \<lparr>la_id = 11, la_code = ''en'', la_name_en = ''English'', la_name_ka = ''English'', la_is_active = True\<rparr>],
     translator_pairs = [],
     orders = [ex_order], documents = [ex_document], status_events = [ex_event],
     client_payments = [], client_allocations = [], client_refunds = [],
     translator_payments = [], translator_allocations = [], notary_payments = [],
     notary_allocations = [], expenses = [], custom_options = [], office_audit = [], notices = []\<rparr>"

lemmas ex_office_defs = ex_office_def ex_client_def ex_translator_def ex_notary_def ex_order_def
  ex_document_def ex_event_def

end
