(* ===== verification/Finances.thy ===== *)
theory Finances
  imports Office "HOL-Library.Product_Lexorder" "HOL-Library.Multiset"
begin

text \<open>
  The read side of \<^verbatim>\<open>api/v1/finances.py\<close>: the one definition of every balance, the overview
  cards, who owes what, and the cash flow of a period. Each query is written as the join it
  is: a filter over the rows of one table and sums over the rows of another.
\<close>

section \<open>Balances: the one definition\<close>

text \<open>
  \<^verbatim>\<open>_live_orders\<close>: the SQL compares the stored status as it is, without normalising it; an
  order without an event reads as the empty string.
\<close>

definition is_live :: "office \<Rightarrow> int \<Rightarrow> bool" where
  "is_live db oid \<longleftrightarrow> oid \<in> o_id ` set (orders db) \<and>
     or_blank (latest_status oid db) \<notin> EXCLUDED_FROM_AGGREGATES"

definition translator_earned :: "office \<Rightarrow> int \<Rightarrow> rat" where
  "translator_earned db tid = sum_where d_translator_cost
     (\<lambda>d. d_translator_id d = Some tid \<and> is_live db (d_order_id d)) (documents db)"

definition translator_payouts :: "office \<Rightarrow> int \<Rightarrow> rat" where
  "translator_payouts db tid = sum_where l_amount (\<lambda>p. l_party p = tid) (translator_payments db)"

text \<open>The join of translator payments with the notary payments made through them.\<close>

definition paid_through :: "office \<Rightarrow> int \<Rightarrow> rat" where
  "paid_through db payment_id = sum_where l_amount (\<lambda>n. l_party n = Some payment_id) (notary_payments db)"

definition translator_fronted :: "office \<Rightarrow> int \<Rightarrow> rat" where
  "translator_fronted db tid = sum_where (\<lambda>p. paid_through db (l_id p)) (\<lambda>p. l_party p = tid)
     (translator_payments db)"

record balance =
  b_id :: int
  b_name :: string
  b_earned :: rat
  b_paid :: rat
  b_outstanding :: rat

definition translator_balance_of :: "office \<Rightarrow> translator \<Rightarrow> balance" where
  "translator_balance_of db t =
     (let paid = translator_payouts db (tr_id t) - translator_fronted db (tr_id t);
          earned = translator_earned db (tr_id t)
      in \<lparr>b_id = tr_id t, b_name = tr_name t, b_earned = earned, b_paid = paid,
          b_outstanding = earned - paid\<rparr>)"

definition translator_balances :: "office \<Rightarrow> balance list" where
  "translator_balances db = map (translator_balance_of db) (translators db)"

definition notary_earned :: "office \<Rightarrow> int \<Rightarrow> rat" where
  "notary_earned db nid = sum_where d_notary_cost
     (\<lambda>d. d_notary_id d = Some nid \<and> is_live db (d_order_id d)) (documents db)"

text \<open>What was allocated to one document, and to all the documents of one notary.\<close>

definition notary_settled_on :: "office \<Rightarrow> int \<Rightarrow> rat" where
  "notary_settled_on db did = sum_where al_amount (\<lambda>a. al_target_id a = did) (notary_allocations db)"

definition notary_settled :: "office \<Rightarrow> int \<Rightarrow> rat" where
  "notary_settled db nid = sum_where (\<lambda>d. notary_settled_on db (d_id d)) (\<lambda>d. d_notary_id d = Some nid)
     (documents db)"

definition notary_balance_of :: "office \<Rightarrow> notary \<Rightarrow> balance" where
  "notary_balance_of db n =
     \<lparr>b_id = no_id n, b_name = no_name n, b_earned = notary_earned db (no_id n),
      b_paid = notary_settled db (no_id n),
      b_outstanding = notary_earned db (no_id n) - notary_settled db (no_id n)\<rparr>"

definition notary_balances :: "office \<Rightarrow> balance list" where
  "notary_balances db = map (notary_balance_of db) (notaries db)"

record owed_row =
  w_order_id :: int
  w_client_id :: int
  w_order_date :: date
  w_billed :: rat
  w_paid :: rat
  w_owed :: rat

definition billed_on :: "office \<Rightarrow> order \<Rightarrow> rat" where
  "billed_on db ord = documents_total (o_id ord) db + o_delivery_cost ord"

definition owed_row_of :: "office \<Rightarrow> order \<Rightarrow> owed_row" where
  "owed_row_of db ord =
     \<lparr>w_order_id = o_id ord, w_client_id = o_client_id ord, w_order_date = o_order_date ord,
      w_billed = billed_on db ord, w_paid = paid_on (o_id ord) db,
      w_owed = billed_on db ord - paid_on (o_id ord) db\<rparr>"

definition per_order_owed :: "office \<Rightarrow> owed_row list" where
  "per_order_owed db = map (owed_row_of db) (filter (\<lambda>ord. is_live db (o_id ord)) (orders db))"

section \<open>Overview\<close>

record period_cash_flow =
  cf_payments_received :: rat
  cf_translator_payouts :: rat
  cf_notary_payouts :: rat
  cf_expenses :: rat
  cf_net :: rat

definition in_period :: "date option \<Rightarrow> date option \<Rightarrow> date \<Rightarrow> bool" where
  "in_period start end d \<longleftrightarrow>
     (case start of None \<Rightarrow> True | Some s \<Rightarrow> s \<le> d) \<and> (case end of None \<Rightarrow> True | Some e \<Rightarrow> d \<le> e)"

definition sum_in_period ::
    "('r \<Rightarrow> rat) \<Rightarrow> ('r \<Rightarrow> date) \<Rightarrow> date option \<Rightarrow> date option \<Rightarrow> ('r \<Rightarrow> bool) \<Rightarrow> 'r list \<Rightarrow> rat" where
  "sum_in_period column date_column start end condition rows =
     sum_where column (\<lambda>r. condition r \<and> in_period start end (date_column r)) rows"

definition cash_flow :: "office \<Rightarrow> date option \<Rightarrow> date option \<Rightarrow> period_cash_flow" where
  "cash_flow db start end =
     (let received = sum_in_period l_amount l_payment_date start end (\<lambda>_. True) (client_payments db);
          payouts_t = sum_in_period l_amount l_payment_date start end (\<lambda>_. True) (translator_payments db);
          payouts_n = sum_in_period l_amount l_payment_date start end (\<lambda>p. l_party p = None) (notary_payments db);
          spent = sum_in_period x_amount x_expense_date start end (\<lambda>_. True) (expenses db)
      in \<lparr>cf_payments_received = received, cf_translator_payouts = payouts_t,
          cf_notary_payouts = payouts_n, cf_expenses = spent,
          cf_net = received - payouts_t - payouts_n - spent\<rparr>)"

record finance_overview =
  fo_receivables :: rat
  fo_receivable_clients :: nat
  fo_payables_translators :: rat
  fo_payables_notaries :: rat
  fo_unattributed_notary_fees :: rat
  fo_net_outstanding :: rat
  fo_period :: period_cash_flow

text \<open>With neither end given the period is the current month up to today: \<open>month_start\<close> is
  \<^verbatim>\<open>today.replace(day=1)\<close> in the bureau's time zone.\<close>

definition overview :: "date \<Rightarrow> date \<Rightarrow> date option \<Rightarrow> date option \<Rightarrow> office \<Rightarrow> finance_overview" where
  "overview month_start today start end db =
     (let (start, end) = (if start = None \<and> end = None then (Some month_start, Some today) else (start, end));
          owing = filter (\<lambda>w. w_owed w > 0) (per_order_owed db);
          receivables = sum_list (map w_owed owing);
          payables_t = sum_where b_outstanding (\<lambda>b. b_outstanding b > 0) (translator_balances db);
          payables_n = sum_where b_outstanding (\<lambda>b. b_outstanding b > 0) (notary_balances db)
      in \<lparr>fo_receivables = receivables,
          fo_receivable_clients = length (remdups (map w_client_id owing)),
          fo_payables_translators = payables_t, fo_payables_notaries = payables_n,
          fo_unattributed_notary_fees = sum_where d_notary_cost
            (\<lambda>d. is_live db (d_order_id d) \<and> d_notary_id d = None \<and> d_notary_cost d > 0) (documents db),
          fo_net_outstanding = receivables - payables_t - payables_n,
          fo_period = cash_flow db start end\<rparr>)"

section \<open>Who owes what\<close>

record client_balance =
  cb_client_id :: int
  cb_client_name :: string
  cb_orders :: nat
  cb_billed :: rat
  cb_paid :: rat
  cb_outstanding :: rat
  cb_oldest_unpaid :: "date option"

definition oldest :: "date list \<Rightarrow> date option" where
  "oldest ds = (case ds of [] \<Rightarrow> None | d # ds \<Rightarrow> Some (fold min ds d))"

definition client_balance_of :: "office \<Rightarrow> client \<Rightarrow> client_balance" where
  "client_balance_of db c =
     (let owing = filter (\<lambda>w. w_client_id w = cl_id c \<and> w_owed w > 0) (per_order_owed db)
      in \<lparr>cb_client_id = cl_id c, cb_client_name = cl_name c, cb_orders = length owing,
          cb_billed = sum_list (map w_billed owing), cb_paid = sum_list (map w_paid owing),
          cb_outstanding = sum_list (map w_owed owing),
          cb_oldest_unpaid = oldest (map w_order_date owing)\<rparr>)"

text \<open>The grouped query: one row per client with an owing order, largest debt first.\<close>

definition receivable_rows :: "office \<Rightarrow> client_balance list" where
  "receivable_rows db = filter (\<lambda>b. cb_orders b > 0) (map (client_balance_of db) (clients db))"

definition receivables :: "nat \<Rightarrow> office \<Rightarrow> client_balance list" where
  "receivables limit db =
     take limit (sort_key (\<lambda>b. (- cb_outstanding b, cb_client_id b)) (receivable_rows db))"

record client_account_out =
  ca_client_id :: int
  ca_orders :: nat
  ca_billed :: rat
  ca_paid :: rat
  ca_outstanding :: rat
  ca_oldest_unpaid :: "date option"
  ca_unallocated_credit :: rat
  ca_last_payment_date :: "date option"

definition latest_date :: "date list \<Rightarrow> date option" where
  "latest_date ds = (case ds of [] \<Rightarrow> None | d # ds \<Rightarrow> Some (fold max ds d))"

definition payment_allocated :: "allocation list \<Rightarrow> int \<Rightarrow> rat" where
  "payment_allocated allocations pid = sum_where al_amount (\<lambda>a. al_payment_id a = pid) allocations"

definition client_account :: "int \<Rightarrow> office \<Rightarrow> client_account_out result" where
  "client_account client_id db =
     (case get_row cl_id client_id (clients db) of
        None \<Rightarrow> Inl (NotFoundError ''Client not found.'')
      | Some _ \<Rightarrow>
          let mine = filter (\<lambda>w. w_client_id w = client_id) (per_order_owed db);
              unpaid = filter (\<lambda>w. w_owed w > 0) mine;
              payments = filter (\<lambda>p. l_party p = client_id) (client_payments db);
              allocated = sum_where (\<lambda>p. payment_allocated (client_allocations db) (l_id p))
                (\<lambda>p. l_party p = client_id) (client_payments db)
          in Inr \<lparr>ca_client_id = client_id, ca_orders = length mine,
                  ca_billed = sum_list (map w_billed mine), ca_paid = sum_list (map w_paid mine),
                  ca_outstanding = sum_list (map w_owed unpaid),
                  ca_oldest_unpaid = oldest (map w_order_date unpaid),
                  ca_unallocated_credit = sum_list (map l_amount payments) - allocated,
                  ca_last_payment_date = latest_date (map l_payment_date payments)\<rparr>)"

definition payables :: "nat \<Rightarrow> office \<Rightarrow> balance list" where
  "payables limit db = take limit (sort_key (\<lambda>b. (- b_outstanding b, b_id b))
     (filter (\<lambda>b. b_outstanding b > 0) (translator_balances db)))"

definition translator_balance :: "int \<Rightarrow> office \<Rightarrow> balance result" where
  "translator_balance tid db =
     (case get_row b_id tid (translator_balances db) of
        None \<Rightarrow> Inl (NotFoundError ''Translator not found.'') | Some b \<Rightarrow> Inr b)"

definition notary_balances_list :: "nat \<Rightarrow> office \<Rightarrow> balance list" where
  "notary_balances_list limit db = take limit (sort_key (\<lambda>b. (- b_outstanding b, b_id b))
     (filter (\<lambda>b. b_outstanding b > 0) (notary_balances db)))"

definition notary_balance :: "int \<Rightarrow> office \<Rightarrow> balance result" where
  "notary_balance nid db =
     (case get_row b_id nid (notary_balances db) of
        None \<Rightarrow> Inl (NotFoundError ''Notary not found.'') | Some b \<Rightarrow> Inr b)"

section \<open>Facts about balances\<close>

text \<open>What the foreign keys and primary keys promise about the directory.\<close>

definition directory_ok :: "office \<Rightarrow> bool" where
  "directory_ok db \<longleftrightarrow> distinct (map cl_id (clients db)) \<and>
     o_client_id ` set (orders db) \<subseteq> cl_id ` set (clients db)"

lemma per_order_owed_clients:
  "directory_ok db \<Longrightarrow> w \<in> set (per_order_owed db) \<Longrightarrow> w_client_id w \<in> set (map cl_id (clients db))"
  by (auto simp: directory_ok_def per_order_owed_def owed_row_of_def)

lemma cb_outstanding_groups:
  "cb_outstanding (client_balance_of db c) =
     sum_where w_owed (\<lambda>w. w_client_id w = cl_id c \<and> 0 < w_owed w) (per_order_owed db)"
  by (simp add: client_balance_of_def sum_list_filter_where Let_def)

lemma sum_list_drop_zero:
  "(\<And>x. x \<in> set xs \<Longrightarrow> \<not> P x \<Longrightarrow> f x = 0) \<Longrightarrow>
     sum_list (map f (filter P xs)) = sum_list (map f xs :: rat list)"
  by (induction xs) auto

lemma receivables_total:
  assumes "directory_ok db"
  shows "sum_list (map cb_outstanding (receivable_rows db)) =
           sum_where w_owed (\<lambda>w. 0 < w_owed w) (per_order_owed db)"
proof -
  have "sum_list (map cb_outstanding (receivable_rows db)) =
      sum_list (map cb_outstanding (map (client_balance_of db) (clients db)))"
    unfolding receivable_rows_def
    by (rule sum_list_drop_zero) (auto simp: client_balance_of_def Let_def)
  also have "\<dots> = sum_list (map (\<lambda>k. sum_where w_owed (\<lambda>w. w_client_id w = k \<and> 0 < w_owed w) (per_order_owed db))
      (map cl_id (clients db)))"
    by (simp add: cb_outstanding_groups comp_def)
  also have "\<dots> = sum_where w_owed (\<lambda>w. 0 < w_owed w) (per_order_owed db)"
    by (rule sum_where_groups) (use assms per_order_owed_clients [OF assms] in \<open>auto simp: directory_ok_def\<close>)
  finally show ?thesis .
qed

lemma receivable_row_ids:
  assumes "directory_ok db"
  shows "set (map cb_client_id (receivable_rows db)) =
           w_client_id ` {w \<in> set (per_order_owed db). 0 < w_owed w}"
    and "distinct (map cb_client_id (receivable_rows db))"
proof -
  have id: "cb_client_id \<circ> client_balance_of db = cl_id"
    by (rule ext) (simp add: client_balance_of_def Let_def)
  have ids: "map cb_client_id (filter P (map (client_balance_of db) cs)) =
      map cl_id (filter (P \<circ> client_balance_of db) cs)" for P cs
    by (simp add: filter_map id)
  show "distinct (map cb_client_id (receivable_rows db))"
    using assms by (simp only: receivable_rows_def ids) (simp add: directory_ok_def distinct_map_filter)
  have owing: "0 < cb_orders (client_balance_of db c) \<longleftrightarrow>
      (\<exists>w \<in> set (per_order_owed db). w_client_id w = cl_id c \<and> 0 < w_owed w)" for c
    by (auto simp: client_balance_of_def Let_def filter_empty_conv)
  show "set (map cb_client_id (receivable_rows db)) =
           w_client_id ` {w \<in> set (per_order_owed db). 0 < w_owed w}"
    using per_order_owed_clients [OF assms]
    by (simp only: receivable_rows_def ids) (force simp: owing)
qed

lemma owed_row_of_owed: "w \<in> set (per_order_owed db) \<Longrightarrow> w_owed w = w_billed w - w_paid w"
  by (auto simp: per_order_owed_def owed_row_of_def)

lemma sum_in_period_split:
  assumes "s \<le> m" and "m < e"
  shows "sum_in_period f g (Some s) (Some e) P rows =
      sum_in_period f g (Some s) (Some m) P rows + sum_in_period f g (Some (m + 1)) (Some e) P rows"
  unfolding sum_in_period_def
  by (induction rows) (use assms in \<open>auto simp: in_period_def\<close>)

section \<open>Properties\<close>

text \<open>C39: the overview cards are the totals of the lists behind them. Receivables is the sum of what
  the clients in the receivables list owe, their number is its length, and the two payables
  cards are the sums of the payables lists (asked for without a limit).\<close>

theorem overview_matches_lists:
  assumes "directory_ok db"
  shows "let v = overview month_start today start end db in
     fo_receivables v = sum_list (map cb_outstanding (receivable_rows db)) \<and>
     fo_receivable_clients v = length (receivable_rows db) \<and>
     mset (receivables (length (receivable_rows db)) db) = mset (receivable_rows db) \<and>
     fo_payables_translators v =
       sum_list (map b_outstanding (payables (length (translators db)) db)) \<and>
     fo_payables_notaries v =
       sum_list (map b_outstanding (notary_balances_list (length (notaries db)) db)) \<and>
     fo_net_outstanding v =
       fo_receivables v - fo_payables_translators v - fo_payables_notaries v"
proof -
  have cards: "fo_receivables (overview month_start today start end db) =
      sum_where w_owed (\<lambda>w. 0 < w_owed w) (per_order_owed db)"
    by (simp add: overview_def Let_def sum_list_filter_where split: prod.split)
  have "length (remdups (map w_client_id (filter (\<lambda>w. 0 < w_owed w) (per_order_owed db)))) =
      card (w_client_id ` {w \<in> set (per_order_owed db). 0 < w_owed w})"
    by (simp add: length_remdups_card_conv)
  also have "\<dots> = length (receivable_rows db)"
    using receivable_row_ids [OF assms] by (metis distinct_card length_map)
  finally have count: "fo_receivable_clients (overview month_start today start end db) = length (receivable_rows db)"
    by (simp add: overview_def Let_def split: prod.split)
  have whole: "sum_list (map b_outstanding (take n (sort_key k (filter P bs)))) = sum_where b_outstanding P bs"
    if "length bs \<le> n" for n k P and bs :: "balance list"
  proof -
    have "length (sort_key k (filter P bs)) \<le> n" using that by (simp add: le_trans [OF length_filter_le])
    then have "take n (sort_key k (filter P bs)) = sort_key k (filter P bs)" by simp
    moreover have "sum_list (map b_outstanding (sort_key k (filter P bs))) =
        sum_list (map b_outstanding (filter P bs))"
      by (metis mset_map mset_sort sum_mset_sum_list)
    ultimately show ?thesis by (simp add: sum_list_filter_where)
  qed
  let ?v = "overview month_start today start end db"
  have pay: "fo_payables_translators ?v = sum_where b_outstanding (\<lambda>b. 0 < b_outstanding b) (translator_balances db)"
    "fo_payables_notaries ?v = sum_where b_outstanding (\<lambda>b. 0 < b_outstanding b) (notary_balances db)"
    "fo_net_outstanding ?v = fo_receivables ?v - fo_payables_translators ?v - fo_payables_notaries ?v"
    by (simp_all add: overview_def Let_def split: prod.split)
  have lists: "length (translator_balances db) = length (translators db)"
    "length (notary_balances db) = length (notaries db)"
    by (simp_all add: translator_balances_def notary_balances_def)
  show ?thesis
    unfolding Let_def pay cards receivables_total [OF assms] count receivables_def payables_def
      notary_balances_list_def
    by (simp add: whole lists)
qed

lemma ex_directory_ok: "directory_ok ex_office"
  by (simp add: directory_ok_def ex_office_defs)

theorem overview_matches_lists_witness:
  "fo_receivables (overview 1 20 None None ex_office) =
     sum_list (map cb_outstanding (receivable_rows ex_office))"
  using overview_matches_lists [OF ex_directory_ok, of 1 20 None None] by (simp add: Let_def)

text \<open>A client's account is consistent with the list: what they owe is the sum over their live
  orders of the unpaid part of each (an overpaid order never hides an unpaid one), and it is at
  least what they were billed minus what was allocated.\<close>

lemma client_account_consistent:
  assumes "client_account cid db = Inr a" and "get_row cl_id cid (clients db) = Some c"
  shows "ca_outstanding a = cb_outstanding (client_balance_of db c) \<and>
     ca_outstanding a = sum_list (map (\<lambda>w. max 0 (w_owed w))
       (filter (\<lambda>w. w_client_id w = cid) (per_order_owed db))) \<and>
     ca_billed a - ca_paid a \<le> ca_outstanding a \<and> 0 \<le> ca_outstanding a"
proof -
  let ?mine = "filter (\<lambda>w. w_client_id w = cid) (per_order_owed db)"
  have cid: "cl_id c = cid" using get_row_SomeD [OF assms(2)] by simp
  have a: "ca_outstanding a = sum_where w_owed (\<lambda>w. 0 < w_owed w) ?mine"
    "ca_billed a = sum_list (map w_billed ?mine)" "ca_paid a = sum_list (map w_paid ?mine)"
    using assms by (auto simp: client_account_def Let_def sum_list_filter_where conj_commute)
  have max: "ca_outstanding a = sum_list (map (\<lambda>w. max 0 (w_owed w)) ?mine)"
    by (simp only: a sum_where_as_max)
  have diff: "sum_list (map w_billed ws) - sum_list (map w_paid ws) \<le>
      sum_list (map (\<lambda>w. max 0 (w_owed w)) ws)" if "set ws \<subseteq> set (per_order_owed db)" for ws
    using that
  proof (induction ws)
    case (Cons w ws)
    then have "w_owed w = w_billed w - w_paid w" by (intro owed_row_of_owed) auto
    with Cons show ?case by auto
  qed simp
  have "0 \<le> sum_list (map (\<lambda>w. max 0 (w_owed w)) ws)" for ws
    by (induction ws) auto
  then have "0 \<le> ca_outstanding a" unfolding max .
  moreover have "ca_billed a - ca_paid a \<le> ca_outstanding a"
    unfolding max a(2,3) by (rule diff) auto
  moreover have "ca_outstanding a = cb_outstanding (client_balance_of db c)"
    unfolding cb_outstanding_groups cid a(1) by (simp add: conj_commute)
  ultimately show ?thesis using max by blast
qed

text \<open>The cash flow of a period is the sum of the cash flows of its parts, card by card: no day
  is counted twice and none is missed.\<close>

lemma cash_flow_splits:
  assumes "s \<le> m" and "m < e"
  shows "let whole = cash_flow db (Some s) (Some e); a = cash_flow db (Some s) (Some m);
             b = cash_flow db (Some (m + 1)) (Some e) in
     cf_payments_received whole = cf_payments_received a + cf_payments_received b \<and>
     cf_translator_payouts whole = cf_translator_payouts a + cf_translator_payouts b \<and>
     cf_notary_payouts whole = cf_notary_payouts a + cf_notary_payouts b \<and>
     cf_expenses whole = cf_expenses a + cf_expenses b \<and> cf_net whole = cf_net a + cf_net b"
  by (simp add: cash_flow_def Let_def sum_in_period_split [OF assms])

end
