(* ===== verification/Ledgers.thy ===== *)
theory Ledgers
  imports Finances
begin

text \<open>
  The write side of \<^verbatim>\<open>api/v1/finances.py\<close>: recording and undoing client payments, translator
  payouts and notary payouts, with the duplicate-submit guard, and the expense ledger. A
  handler returns the id it answers with and the new state; where it raises, the transaction
  rolls back and nothing changes.
\<close>

section \<open>Requests\<close>

text \<open>
  \<^verbatim>\<open>PaymentIn\<close> and \<^verbatim>\<open>TranslatorPayoutIn\<close> (the party is the client or the translator, an
  allocation an order and an amount), and \<^verbatim>\<open>NotaryPayoutIn\<close>.
\<close>

record payment_in =
  pi_party :: int
  pi_amount :: rat
  pi_payment_date :: date
  pi_method :: payment_method
  pi_notes :: "string option"
  pi_allocations :: "(int \<times> rat) list"
  pi_idempotency_key :: "string option"

record notary_payout_in =
  ni_amount :: rat
  ni_payment_date :: date
  ni_method :: payment_method
  ni_notes :: "string option"
  ni_idempotency_key :: "string option"
  ni_document_ids :: "int list"
  ni_amounts :: "rat list"
  ni_paid_via_translator_payment_id :: "int option"

text \<open>The field types and \<^verbatim>\<open>_allocations_fit\<close>: a request that fails them is answered 422.\<close>

definition at_most :: "nat \<Rightarrow> string option \<Rightarrow> bool" where
  "at_most n v \<longleftrightarrow> (case v of None \<Rightarrow> True | Some s \<Rightarrow> length s \<le> n)"

definition validate_payment :: "payment_in \<Rightarrow> unit result" where
  "validate_payment p =
     (if \<not> positive_money_field (pi_amount p) \<or> length (pi_allocations p) > 200 \<or>
         \<not> list_all (\<lambda>a. positive_money_field (snd a)) (pi_allocations p) \<or>
         \<not> at_most 255 (pi_notes p) \<or> \<not> at_most 64 (pi_idempotency_key p)
        then Inl (ValidationError ''field'')
      else if sum_list (map snd (pi_allocations p)) > pi_amount p
        then Inl (ValidationError ''Allocations total more than the payment.'')
      else if \<not> distinct (map fst (pi_allocations p))
        then Inl (ValidationError ''The same order appears twice in the allocations.'')
      else Inr ())"

definition validate_notary_payout :: "notary_payout_in \<Rightarrow> unit result" where
  "validate_notary_payout p =
     (if \<not> positive_money_field (ni_amount p) \<or> length (ni_document_ids p) > 200 \<or>
         length (ni_amounts p) > 200 \<or> \<not> list_all positive_money_field (ni_amounts p) \<or>
         \<not> at_most 255 (ni_notes p) \<or> \<not> at_most 64 (ni_idempotency_key p)
        then Inl (ValidationError ''field'')
      else if length (ni_document_ids p) \<noteq> length (ni_amounts p)
        then Inl (ValidationError ''document_ids and amounts must be the same length.'')
      else if \<not> distinct (ni_document_ids p)
        then Inl (ValidationError ''The same document appears twice in the allocations.'')
      else if sum_list (ni_amounts p) > ni_amount p
        then Inl (ValidationError ''Allocations total more than the payout.'')
      else Inr ())"

section \<open>Idempotent inserts\<close>

text \<open>The lookup made only for a key that is present and not empty (\<^verbatim>\<open>if key:\<close>).\<close>

definition ledger_lookup :: "string option \<Rightarrow> 'p ledger_row list \<Rightarrow> 'p ledger_row option" where
  "ledger_lookup key rows =
     (case key of
        None \<Rightarrow> None
      | Some k \<Rightarrow> if k = [] then None else get_row l_idempotency_key (Some k) rows)"

text \<open>The unique index on the key: null keys are distinct from each other.\<close>

definition key_taken :: "string option \<Rightarrow> 'p ledger_row list \<Rightarrow> bool" where
  "key_taken key rows \<longleftrightarrow> key \<noteq> None \<and> (\<exists>r \<in> set rows. l_idempotency_key r = key)"

text \<open>
  \<^verbatim>\<open>_insert_once\<close>: \<open>seen\<close> are the rows at the lookup and \<open>now\<close> those at the insert, which a
  request that raced past may have extended. The result is the existing row, or none and
  the table with the new row.
\<close>

definition insert_once ::
    "'p ledger_row \<Rightarrow> 'p ledger_row list \<Rightarrow> 'p ledger_row list
     \<Rightarrow> ('p ledger_row option \<times> 'p ledger_row list) result" where
  "insert_once row seen now =
     (let key = l_idempotency_key row
      in case ledger_lookup key seen of
           Some existing \<Rightarrow> Inr (Some existing, now)
         | None \<Rightarrow>
             if key_taken key now then
               (case ledger_lookup key now of
                  None \<Rightarrow> Inl (IntegrityError ''unique'')
                | Some existing \<Rightarrow> Inr (Some existing, now))
             else Inr (None, now @ [row]))"

section \<open>Client payments\<close>

fun check_client_allocations :: "office \<Rightarrow> int \<Rightarrow> (int \<times> rat) list \<Rightarrow> unit result" where
  "check_client_allocations db client_id [] = Inr ()"
| "check_client_allocations db client_id ((order_id, amount) # rest) =
     (case get_row o_id order_id (orders db) of
        None \<Rightarrow> Inl (NotFoundError ''Order not found.'')
      | Some ord \<Rightarrow>
          if o_client_id ord \<noteq> client_id
            then Inl (ValidationError ''Order belongs to a different client.'')
          else if \<not> is_live db order_id
            then Inl (ValidationError ''Order is cancelled or rejected.'')
          else if amount > billed_on db ord - paid_on order_id db
            then Inl (ValidationError ''Order has less outstanding.'')
          else check_client_allocations db client_id rest)"

definition allocation_rows :: "int \<Rightarrow> (int \<times> rat) list \<Rightarrow> allocation list" where
  "allocation_rows pid as = map (\<lambda>(t, x). \<lparr>al_payment_id = pid, al_target_id = t, al_amount = x\<rparr>) as"

definition payment_row :: "auth_session \<Rightarrow> office \<Rightarrow> payment_in \<Rightarrow> int ledger_row" where
  "payment_row session db p =
     \<lparr>l_id = next_id db, l_party = pi_party p, l_amount = pi_amount p,
      l_payment_date = pi_payment_date p, l_method = pi_method p, l_notes = pi_notes p,
      l_recorded_by_user_id = Some (as_user_id session), l_idempotency_key = pi_idempotency_key p\<rparr>"

definition log_office :: "auth_session \<Rightarrow> string \<Rightarrow> string \<Rightarrow> int \<Rightarrow> office \<Rightarrow> office" where
  "log_office session action entity_type i db = db\<lparr>office_audit := office_audit db @
     [audit_record (Some session) action (Some entity_type) (Some i)]\<rparr>"

definition record_payment :: "auth_session \<Rightarrow> payment_in \<Rightarrow> office \<Rightarrow> (int \<times> office) result" where
  "record_payment session p db =
     bind_result (validate_payment p) (\<lambda>_.
     if get_row cl_id (pi_party p) (clients db) = None then Inl (NotFoundError ''Client not found.'')
     else case ledger_lookup (pi_idempotency_key p) (client_payments db) of
       Some existing \<Rightarrow> Inr (l_id existing, db)
     | None \<Rightarrow>
         bind_result (check_client_allocations db (pi_party p) (pi_allocations p)) (\<lambda>_.
         bind_result (insert_once (payment_row session db p) (client_payments db) (client_payments db))
           (\<lambda>(existing, rows). case existing of
              Some e \<Rightarrow> Inr (l_id e, db)
            | None \<Rightarrow> Inr (next_id db,
                log_office session ''payment.recorded'' ''client_payment'' (next_id db)
                  (db\<lparr>next_id := next_id db + 1, client_payments := rows,
                      client_allocations := client_allocations db @
                        allocation_rows (next_id db) (pi_allocations p),
                      notices := notices db @
                        [\<lparr>nt_kind = ''payment'', nt_audience = Permitted FINANCE_READ,
                          nt_order_id = (case pi_allocations p of [] \<Rightarrow> None | a # _ \<Rightarrow> Some (fst a))\<rparr>]\<rparr>)))))"

definition delete_payment :: "auth_session \<Rightarrow> int \<Rightarrow> office \<Rightarrow> office result" where
  "delete_payment session payment_id db =
     (case get_row l_id payment_id (client_payments db) of
        None \<Rightarrow> Inl (NotFoundError ''Payment not found.'')
      | Some row \<Rightarrow>
          if \<exists>r \<in> set (client_refunds db). rf_payment_id r = payment_id
            then Inl (ConflictError ''This payment has refunds recorded against it.'')
          else Inr (log_office session ''payment.deleted'' ''client_payment'' payment_id
            (db\<lparr>client_payments := filter (\<lambda>p. l_id p \<noteq> payment_id) (client_payments db),
                client_allocations := filter (\<lambda>a. al_payment_id a \<noteq> payment_id) (client_allocations db)\<rparr>)))"

section \<open>Translator payouts\<close>

definition translator_cost_on :: "office \<Rightarrow> int \<Rightarrow> int \<Rightarrow> rat" where
  "translator_cost_on db order_id tid = sum_where d_translator_cost
     (\<lambda>d. d_order_id d = order_id \<and> d_translator_id d = Some tid) (documents db)"

definition paid_to_translator :: "office \<Rightarrow> int \<Rightarrow> int \<Rightarrow> bool" where
  "paid_to_translator db pid tid \<longleftrightarrow>
     (\<exists>p \<in> set (translator_payments db). l_id p = pid \<and> l_party p = tid)"

definition translator_already :: "office \<Rightarrow> int \<Rightarrow> int \<Rightarrow> rat" where
  "translator_already db order_id tid = sum_where al_amount
     (\<lambda>a. al_target_id a = order_id \<and> paid_to_translator db (al_payment_id a) tid)
     (translator_allocations db)"

fun check_translator_allocations :: "office \<Rightarrow> int \<Rightarrow> (int \<times> rat) list \<Rightarrow> unit result" where
  "check_translator_allocations db tid [] = Inr ()"
| "check_translator_allocations db tid ((order_id, amount) # rest) =
     (if get_row o_id order_id (orders db) = None then Inl (NotFoundError ''Order not found.'')
      else if translator_cost_on db order_id tid = 0
        then Inl (ValidationError ''Order has no documents by this translator.'')
      else if amount > translator_cost_on db order_id tid - translator_already db order_id tid
        then Inl (ValidationError ''This translator is owed less for it.'')
      else check_translator_allocations db tid rest)"

definition pay_translator :: "auth_session \<Rightarrow> payment_in \<Rightarrow> office \<Rightarrow> (int \<times> office) result" where
  "pay_translator session p db =
     bind_result (validate_payment p) (\<lambda>_.
     if get_row tr_id (pi_party p) (translators db) = None
       then Inl (NotFoundError ''Translator not found.'')
     else case ledger_lookup (pi_idempotency_key p) (translator_payments db) of
       Some existing \<Rightarrow> Inr (l_id existing, db)
     | None \<Rightarrow>
         bind_result (check_translator_allocations db (pi_party p) (pi_allocations p)) (\<lambda>_.
         bind_result (insert_once (payment_row session db p) (translator_payments db) (translator_payments db))
           (\<lambda>(existing, rows). case existing of
              Some e \<Rightarrow> Inr (l_id e, db)
            | None \<Rightarrow> Inr (next_id db,
                log_office session ''translator_payout.recorded'' ''translator_payment'' (next_id db)
                  (db\<lparr>next_id := next_id db + 1, translator_payments := rows,
                      translator_allocations := translator_allocations db @
                        allocation_rows (next_id db) (pi_allocations p)\<rparr>)))))"

definition delete_translator_payout :: "auth_session \<Rightarrow> int \<Rightarrow> office \<Rightarrow> office result" where
  "delete_translator_payout session payout_id db =
     (case get_row l_id payout_id (translator_payments db) of
        None \<Rightarrow> Inl (NotFoundError ''Payout not found.'')
      | Some row \<Rightarrow>
          if \<exists>n \<in> set (notary_payments db). l_party n = Some payout_id
            then Inl (ConflictError ''A notary fee was reimbursed through this payout.'')
          else Inr (log_office session ''translator_payout.deleted'' ''translator_payment'' payout_id
            (db\<lparr>translator_payments := filter (\<lambda>p. l_id p \<noteq> payout_id) (translator_payments db),
                translator_allocations :=
                  filter (\<lambda>a. al_payment_id a \<noteq> payout_id) (translator_allocations db)\<rparr>)))"

section \<open>Notary payouts\<close>

fun check_notary_allocations :: "office \<Rightarrow> (int \<times> rat) list \<Rightarrow> unit result" where
  "check_notary_allocations db [] = Inr ()"
| "check_notary_allocations db ((document_id, amount) # rest) =
     (case get_row d_id document_id (documents db) of
        None \<Rightarrow> Inl (NotFoundError ''Document not found.'')
      | Some d \<Rightarrow>
          if \<not> d_is_notarized d then Inl (ValidationError ''Document is not being notarised.'')
          else if amount > d_notary_cost d - notary_settled_on db document_id
            then Inl (ValidationError ''Document has less of notary fee outstanding.'')
          else check_notary_allocations db rest)"

definition notary_payment_row :: "auth_session \<Rightarrow> office \<Rightarrow> notary_payout_in \<Rightarrow> notary_payment" where
  "notary_payment_row session db p =
     \<lparr>l_id = next_id db, l_party = ni_paid_via_translator_payment_id p, l_amount = ni_amount p,
      l_payment_date = ni_payment_date p, l_method = ni_method p, l_notes = ni_notes p,
      l_recorded_by_user_id = Some (as_user_id session), l_idempotency_key = ni_idempotency_key p\<rparr>"

definition pay_notary :: "auth_session \<Rightarrow> notary_payout_in \<Rightarrow> office \<Rightarrow> (int \<times> office) result" where
  "pay_notary session p db =
     bind_result (validate_notary_payout p) (\<lambda>_.
     case ledger_lookup (ni_idempotency_key p) (notary_payments db) of
       Some existing \<Rightarrow> Inr (l_id existing, db)
     | None \<Rightarrow>
         if (case ni_paid_via_translator_payment_id p of None \<Rightarrow> False
             | Some via \<Rightarrow> get_row l_id via (translator_payments db) = None)
           then Inl (NotFoundError ''The translator payment it was paid through was not found.'')
         else bind_result (check_notary_allocations db (zip (ni_document_ids p) (ni_amounts p))) (\<lambda>_.
         bind_result (insert_once (notary_payment_row session db p) (notary_payments db) (notary_payments db))
           (\<lambda>(existing, rows). case existing of
              Some e \<Rightarrow> Inr (l_id e, db)
            | None \<Rightarrow> Inr (next_id db,
                log_office session ''notary_payout.recorded'' ''notary_payment'' (next_id db)
                  (db\<lparr>next_id := next_id db + 1, notary_payments := rows,
                      notary_allocations := notary_allocations db @
                        allocation_rows (next_id db) (zip (ni_document_ids p) (ni_amounts p))\<rparr>)))))"

definition delete_notary_payout :: "auth_session \<Rightarrow> int \<Rightarrow> office \<Rightarrow> office result" where
  "delete_notary_payout session payout_id db =
     (case get_row l_id payout_id (notary_payments db) of
        None \<Rightarrow> Inl (NotFoundError ''Payout not found.'')
      | Some row \<Rightarrow>
          Inr (log_office session ''notary_payout.deleted'' ''notary_payment'' payout_id
            (db\<lparr>notary_payments := filter (\<lambda>p. l_id p \<noteq> payout_id) (notary_payments db),
                notary_allocations := filter (\<lambda>a. al_payment_id a \<noteq> payout_id) (notary_allocations db)\<rparr>)))"

section \<open>Expenses\<close>

definition EXPENSE_CATEGORIES :: "string list" where
  "EXPENSE_CATEGORIES = [''courier'', ''notary_office'', ''office'', ''rent'', ''utilities'',
     ''marketing'', ''salary'', ''software'', ''tax'', ''other'']"

record expense_in =
  xi_expense_date :: date
  xi_category :: string
  xi_description :: string
  xi_amount :: rat
  xi_order_id :: "int option"

definition validate_expense :: "expense_in \<Rightarrow> unit result" where
  "validate_expense p =
     (if \<not> positive_money_field (xi_amount p) \<or> xi_description p = [] \<or>
         length (xi_description p) > 255 \<or> length (xi_category p) > 50
        then Inl (ValidationError ''field'')
      else if xi_category p \<notin> set EXPENSE_CATEGORIES
        then Inl (ValidationError ''category must be one of'')
      else Inr ())"

definition create_expense :: "auth_session \<Rightarrow> expense_in \<Rightarrow> office \<Rightarrow> (int \<times> office) result" where
  "create_expense session p db =
     bind_result (validate_expense p) (\<lambda>_.
     if (case xi_order_id p of None \<Rightarrow> False | Some oid \<Rightarrow> get_row o_id oid (orders db) = None)
       then Inl (NotFoundError ''Order not found.'')
     else Inr (next_id db, log_office session ''expense.created'' ''expense'' (next_id db)
       (db\<lparr>next_id := next_id db + 1, expenses := expenses db @
          [\<lparr>x_id = next_id db, x_order_id = xi_order_id p, x_expense_date = xi_expense_date p,
            x_category = xi_category p, x_description = xi_description p, x_amount = xi_amount p,
            x_recorded_by_user_id = Some (as_user_id session)\<rparr>]\<rparr>)))"

definition delete_expense :: "auth_session \<Rightarrow> int \<Rightarrow> office \<Rightarrow> office result" where
  "delete_expense session expense_id db =
     (case get_row x_id expense_id (expenses db) of
        None \<Rightarrow> Inl (NotFoundError ''Expense not found.'')
      | Some row \<Rightarrow> Inr (log_office session ''expense.deleted'' ''expense'' expense_id
          (db\<lparr>expenses := filter (\<lambda>x. x_id x \<noteq> expense_id) (expenses db)\<rparr>)))"

section \<open>The duplicate-submit guard as an interface\<close>

lemma ledger_lookup_SomeD:
  assumes "ledger_lookup key rows = Some r"
  shows "r \<in> set rows" "l_idempotency_key r = key" "key_taken key rows"
  using assms
  by (auto simp: ledger_lookup_def key_taken_def split: option.splits if_splits dest!: get_row_SomeD)

lemma ledger_lookup_None_iff:
  "ledger_lookup key rows = None \<longleftrightarrow> (key = None \<or> key = Some [] \<or> \<not> key_taken key rows)"
  by (auto simp: ledger_lookup_def key_taken_def get_row_None_iff split: option.splits)

lemma insert_once_serial:
  "insert_once row rows rows =
     (case ledger_lookup (l_idempotency_key row) rows of
        Some e \<Rightarrow> Inr (Some e, rows)
      | None \<Rightarrow> if key_taken (l_idempotency_key row) rows then Inl (IntegrityError ''unique'')
                else Inr (None, rows @ [row]))"
  by (simp add: insert_once_def Let_def split: option.split)

definition keys_unique :: "'p ledger_row list \<Rightarrow> bool" where
  "keys_unique rows \<longleftrightarrow> distinct (filter (\<lambda>k. k \<noteq> None) (map l_idempotency_key rows))"

lemma keys_unique_append:
  "keys_unique rows \<Longrightarrow> \<not> key_taken (l_idempotency_key row) rows \<Longrightarrow> keys_unique (rows @ [row])"
  by (auto simp: keys_unique_def key_taken_def)

lemma keys_unique_lookup:
  assumes "keys_unique rows" and "r \<in> set rows" and "l_idempotency_key r = Some k" and "k \<noteq> []"
  shows "ledger_lookup (Some k) rows = Some r"
proof -
  have "get_row l_idempotency_key (Some k) rows = Some r"
    using assms(1-3)
  proof (induction rows)
    case (Cons x rows)
    then have u: "keys_unique rows" by (auto simp: keys_unique_def split: if_splits)
    show ?case
    proof (cases "l_idempotency_key x = Some k")
      case True
      then have "Some k \<notin> set (filter (\<lambda>k. k \<noteq> None) (map l_idempotency_key rows))"
        using Cons.prems(1) by (simp add: keys_unique_def)
      then have "r \<notin> set rows" using Cons.prems(3) by force
      with True Cons.prems(2) show ?thesis by auto
    next
      case False
      with Cons u show ?thesis by auto
    qed
  qed simp
  with assms(4) show ?thesis by (simp add: ledger_lookup_def)
qed

text \<open>
  What every money ledger promises its callers: a request whose key was used is answered with
  the stored row and changes nothing, and one whose key is new adds exactly its own row.
\<close>

locale once_ledger =
  fixes table :: "'s \<Rightarrow> 'p ledger_row list"
    and post :: "'i \<Rightarrow> 's \<Rightarrow> (int \<times> 's) result"
    and key :: "'i \<Rightarrow> string option"
    and ready :: "'i \<Rightarrow> 's \<Rightarrow> bool"
  assumes replayed: "ready i s \<Longrightarrow> ledger_lookup (key i) (table s) = Some r \<Longrightarrow> post i s = Inr (l_id r, s)"
    and accepted: "post i s = Inr (n, s') \<Longrightarrow> ready i s \<and> ready i s'"
    and added: "post i s = Inr (n, s') \<Longrightarrow> ledger_lookup (key i) (table s) = None \<Longrightarrow>
      \<exists>r. table s' = table s @ [r] \<and> l_id r = n \<and> l_idempotency_key r = key i \<and> \<not> key_taken (key i) (table s)"
begin

lemma post_cases:
  assumes "post i s = Inr (n, s')"
  obtains (again) r where "ledger_lookup (key i) (table s) = Some r" "l_id r = n" "s' = s"
  | (first) r where "table s' = table s @ [r]" "l_id r = n" "l_idempotency_key r = key i"
      "\<not> key_taken (key i) (table s)"
proof (cases "ledger_lookup (key i) (table s)")
  case None
  from added [OF assms this] first show ?thesis by blast
next
  case (Some r)
  from accepted [OF assms] replayed [OF _ Some] assms have "l_id r = n" "s' = s" by auto
  with Some again show ?thesis by blast
qed

lemma retry:
  assumes "post i s = Inr (n, s')" and "key i = Some k" and "k \<noteq> []"
  shows "post i s' = Inr (n, s')"
  using assms(1)
proof (cases rule: post_cases)
  case (again r)
  with assms show ?thesis by simp
next
  case (first r)
  have "get_row l_idempotency_key (Some k) (table s) = None"
    using first(4) assms(2) by (auto simp: get_row_None_iff key_taken_def)
  then have "ledger_lookup (key i) (table s') = Some r"
    using first assms(2,3) by (simp add: ledger_lookup_def get_row_append)
  with accepted [OF assms(1)] replayed first(2) show ?thesis by auto
qed

lemma retry_later:
  assumes "ready i t" and "keys_unique (table t)" and "r \<in> set (table t)"
    and "l_idempotency_key r = Some k" and "key i = Some k" and "k \<noteq> []"
  shows "post i t = Inr (l_id r, t)"
  using keys_unique_lookup [OF assms(2,3,4,6)] replayed [OF assms(1)] assms(5) by simp

lemma keys_stay_unique:
  assumes "post i s = Inr (n, s')" and "keys_unique (table s)"
  shows "keys_unique (table s')"
  using assms(1)
  by (cases rule: post_cases) (use assms(2) in \<open>auto intro!: keys_unique_append\<close>)

end

subsection \<open>The three ledgers\<close>

definition payment_ready :: "payment_in \<Rightarrow> office \<Rightarrow> bool" where
  "payment_ready p db \<longleftrightarrow> validate_payment p = Inr () \<and> get_row cl_id (pi_party p) (clients db) \<noteq> None"

definition payout_ready :: "payment_in \<Rightarrow> office \<Rightarrow> bool" where
  "payout_ready p db \<longleftrightarrow> validate_payment p = Inr () \<and> get_row tr_id (pi_party p) (translators db) \<noteq> None"

definition notary_ready :: "notary_payout_in \<Rightarrow> office \<Rightarrow> bool" where
  "notary_ready p db \<longleftrightarrow> validate_notary_payout p = Inr ()"

lemma log_office_frame [simp]:
  "next_id (log_office s a t i db) = next_id db" "clients (log_office s a t i db) = clients db"
  "translators (log_office s a t i db) = translators db" "notaries (log_office s a t i db) = notaries db"
  "orders (log_office s a t i db) = orders db" "documents (log_office s a t i db) = documents db"
  "status_events (log_office s a t i db) = status_events db"
  "client_payments (log_office s a t i db) = client_payments db"
  "client_allocations (log_office s a t i db) = client_allocations db"
  "client_refunds (log_office s a t i db) = client_refunds db"
  "translator_payments (log_office s a t i db) = translator_payments db"
  "translator_allocations (log_office s a t i db) = translator_allocations db"
  "notary_payments (log_office s a t i db) = notary_payments db"
  "notary_allocations (log_office s a t i db) = notary_allocations db"
  "expenses (log_office s a t i db) = expenses db"
  "custom_options (log_office s a t i db) = custom_options db"
  "tenant_settings_row (log_office s a t i db) = tenant_settings_row db"
  "language_pairs (log_office s a t i db) = language_pairs db"
  "document_types (log_office s a t i db) = document_types db"
  by (simp_all add: log_office_def)

text \<open>The new state of each ledger when the request is the first with its key.\<close>

lemma record_payment_first:
  assumes "record_payment session p db = Inr (n, db')"
    and "ledger_lookup (pi_idempotency_key p) (client_payments db) = None"
  shows "payment_ready p db" "n = next_id db"
    "check_client_allocations db (pi_party p) (pi_allocations p) = Inr ()"
    "\<not> key_taken (pi_idempotency_key p) (client_payments db)"
    "db' = log_office session ''payment.recorded'' ''client_payment'' (next_id db)
       (db\<lparr>next_id := next_id db + 1, client_payments := client_payments db @ [payment_row session db p],
           client_allocations := client_allocations db @ allocation_rows (next_id db) (pi_allocations p),
           notices := notices db @ [\<lparr>nt_kind = ''payment'', nt_audience = Permitted FINANCE_READ,
             nt_order_id = (case pi_allocations p of [] \<Rightarrow> None | a # _ \<Rightarrow> Some (fst a))\<rparr>]\<rparr>)"
  using assms
  by (auto simp: record_payment_def payment_ready_def insert_once_serial payment_row_def
      split: if_splits option.splits)

lemma record_payment_again:
  assumes "record_payment session p db = Inr (n, db')"
    and "ledger_lookup (pi_idempotency_key p) (client_payments db) = Some r"
  shows "payment_ready p db" "n = l_id r" "db' = db"
  using assms by (auto simp: record_payment_def payment_ready_def split: if_splits)

lemma pay_translator_first:
  assumes "pay_translator session p db = Inr (n, db')"
    and "ledger_lookup (pi_idempotency_key p) (translator_payments db) = None"
  shows "payout_ready p db" "n = next_id db"
    "check_translator_allocations db (pi_party p) (pi_allocations p) = Inr ()"
    "\<not> key_taken (pi_idempotency_key p) (translator_payments db)"
    "db' = log_office session ''translator_payout.recorded'' ''translator_payment'' (next_id db)
       (db\<lparr>next_id := next_id db + 1,
           translator_payments := translator_payments db @ [payment_row session db p],
           translator_allocations := translator_allocations db @
             allocation_rows (next_id db) (pi_allocations p)\<rparr>)"
  using assms
  by (auto simp: pay_translator_def payout_ready_def insert_once_serial payment_row_def
      split: if_splits option.splits)

lemma pay_translator_again:
  assumes "pay_translator session p db = Inr (n, db')"
    and "ledger_lookup (pi_idempotency_key p) (translator_payments db) = Some r"
  shows "payout_ready p db" "n = l_id r" "db' = db"
  using assms by (auto simp: pay_translator_def payout_ready_def split: if_splits)

lemma pay_notary_first:
  assumes "pay_notary session p db = Inr (n, db')"
    and "ledger_lookup (ni_idempotency_key p) (notary_payments db) = None"
  shows "notary_ready p db" "n = next_id db"
    "check_notary_allocations db (zip (ni_document_ids p) (ni_amounts p)) = Inr ()"
    "\<not> key_taken (ni_idempotency_key p) (notary_payments db)"
    "\<And>via. ni_paid_via_translator_payment_id p = Some via \<Longrightarrow>
       get_row l_id via (translator_payments db) \<noteq> None"
    "db' = log_office session ''notary_payout.recorded'' ''notary_payment'' (next_id db)
       (db\<lparr>next_id := next_id db + 1,
           notary_payments := notary_payments db @ [notary_payment_row session db p],
           notary_allocations := notary_allocations db @
             allocation_rows (next_id db) (zip (ni_document_ids p) (ni_amounts p))\<rparr>)"
  using assms
  by (auto simp: pay_notary_def notary_ready_def insert_once_serial notary_payment_row_def
      split: if_splits option.splits)

lemma pay_notary_again:
  assumes "pay_notary session p db = Inr (n, db')"
    and "ledger_lookup (ni_idempotency_key p) (notary_payments db) = Some r"
  shows "notary_ready p db" "n = l_id r" "db' = db"
  using assms by (auto simp: pay_notary_def notary_ready_def)

interpretation client_ledger:
  once_ledger client_payments "record_payment session" pi_idempotency_key payment_ready
  for session
proof unfold_locales
  fix i s r n s'
  show "payment_ready i s \<Longrightarrow> ledger_lookup (pi_idempotency_key i) (client_payments s) = Some r \<Longrightarrow>
      record_payment session i s = Inr (l_id r, s)"
    by (simp add: record_payment_def payment_ready_def)
  assume post: "record_payment session i s = Inr (n, s')"
  show "payment_ready i s \<and> payment_ready i s'"
  proof (cases "ledger_lookup (pi_idempotency_key i) (client_payments s)")
    case None
    from record_payment_first(1,5) [OF post None] show ?thesis by (simp add: payment_ready_def)
  next
    case (Some r)
    from record_payment_again [OF post Some] show ?thesis by simp
  qed
  assume "ledger_lookup (pi_idempotency_key i) (client_payments s) = None"
  from record_payment_first [OF post this] show "\<exists>r. client_payments s' = client_payments s @ [r] \<and>
      l_id r = n \<and> l_idempotency_key r = pi_idempotency_key i \<and>
      \<not> key_taken (pi_idempotency_key i) (client_payments s)"
    by (simp add: payment_row_def)
qed

interpretation translator_ledger:
  once_ledger translator_payments "pay_translator session" pi_idempotency_key payout_ready
  for session
proof unfold_locales
  fix i s r n s'
  show "payout_ready i s \<Longrightarrow> ledger_lookup (pi_idempotency_key i) (translator_payments s) = Some r \<Longrightarrow>
      pay_translator session i s = Inr (l_id r, s)"
    by (simp add: pay_translator_def payout_ready_def)
  assume post: "pay_translator session i s = Inr (n, s')"
  show "payout_ready i s \<and> payout_ready i s'"
  proof (cases "ledger_lookup (pi_idempotency_key i) (translator_payments s)")
    case None
    from pay_translator_first(1,5) [OF post None] show ?thesis by (simp add: payout_ready_def)
  next
    case (Some r)
    from pay_translator_again [OF post Some] show ?thesis by simp
  qed
  assume "ledger_lookup (pi_idempotency_key i) (translator_payments s) = None"
  from pay_translator_first [OF post this] show "\<exists>r. translator_payments s' = translator_payments s @ [r] \<and>
      l_id r = n \<and> l_idempotency_key r = pi_idempotency_key i \<and>
      \<not> key_taken (pi_idempotency_key i) (translator_payments s)"
    by (simp add: payment_row_def)
qed

interpretation notary_ledger:
  once_ledger notary_payments "pay_notary session" ni_idempotency_key notary_ready
  for session
proof unfold_locales
  fix i s r n s'
  show "notary_ready i s \<Longrightarrow> ledger_lookup (ni_idempotency_key i) (notary_payments s) = Some r \<Longrightarrow>
      pay_notary session i s = Inr (l_id r, s)"
    by (simp add: pay_notary_def notary_ready_def)
  assume post: "pay_notary session i s = Inr (n, s')"
  show "notary_ready i s \<and> notary_ready i s'"
  proof (cases "ledger_lookup (ni_idempotency_key i) (notary_payments s)")
    case None
    from pay_notary_first(1) [OF post None] show ?thesis by (simp add: notary_ready_def)
  next
    case (Some r)
    from pay_notary_again [OF post Some] show ?thesis by simp
  qed
  assume "ledger_lookup (ni_idempotency_key i) (notary_payments s) = None"
  from pay_notary_first [OF post this] show "\<exists>r. notary_payments s' = notary_payments s @ [r] \<and>
      l_id r = n \<and> l_idempotency_key r = ni_idempotency_key i \<and>
      \<not> key_taken (ni_idempotency_key i) (notary_payments s)"
    by (simp add: notary_payment_row_def)
qed

section \<open>What the books keep true\<close>

text \<open>
  One ledger: ids are unique and drawn, amounts positive, keys unique, every allocation is
  positive and belongs to a row and a target that exist, and no payment is allocated beyond
  its amount.
\<close>

definition ledger_ok :: "int \<Rightarrow> 'p ledger_row list \<Rightarrow> allocation list \<Rightarrow> int set \<Rightarrow> bool" where
  "ledger_ok nxt rows as targets \<longleftrightarrow>
     distinct (map l_id rows) \<and> keys_unique rows \<and>
     (\<forall>r \<in> set rows. l_id r < nxt \<and> 0 < l_amount r \<and> payment_allocated as (l_id r) \<le> l_amount r) \<and>
     (\<forall>a \<in> set as. 0 < al_amount a \<and> al_payment_id a \<in> l_id ` set rows \<and> al_target_id a \<in> targets)"

definition books_ok :: "office \<Rightarrow> bool" where
  "books_ok db \<longleftrightarrow>
     distinct (map o_id (orders db)) \<and> distinct (map d_id (documents db)) \<and>
     ledger_ok (next_id db) (client_payments db) (client_allocations db) (o_id ` set (orders db)) \<and>
     ledger_ok (next_id db) (translator_payments db) (translator_allocations db) (o_id ` set (orders db)) \<and>
     ledger_ok (next_id db) (notary_payments db) (notary_allocations db) (d_id ` set (documents db)) \<and>
     (\<forall>n \<in> set (notary_payments db). \<forall>via. l_party n = Some via \<longrightarrow> via \<in> l_id ` set (translator_payments db))"

text \<open>Nothing is settled beyond what it costs.\<close>

definition within_cost :: "office \<Rightarrow> bool" where
  "within_cost db \<longleftrightarrow>
     (\<forall>ord \<in> set (orders db). paid_on (o_id ord) db \<le> billed_on db ord) \<and>
     (\<forall>oid tid. translator_already db oid tid \<le> translator_cost_on db oid tid) \<and>
     (\<forall>d \<in> set (documents db). notary_settled_on db (d_id d) \<le> d_notary_cost d)"

lemma payment_allocated_append:
  "payment_allocated (as @ bs) pid = payment_allocated as pid + payment_allocated bs pid"
  by (simp add: payment_allocated_def)

lemma payment_allocated_rows:
  "payment_allocated (allocation_rows n as) pid = (if pid = n then sum_list (map snd as) else 0)"
  by (induction as) (auto simp: payment_allocated_def allocation_rows_def)

lemma ledger_ok_next: "ledger_ok n rows as T \<Longrightarrow> n \<le> m \<Longrightarrow> ledger_ok m rows as T"
  by (force simp: ledger_ok_def)

lemma ledger_ok_Suc: "ledger_ok n rows as T \<Longrightarrow> ledger_ok (n + 1) rows as T"
  by (erule ledger_ok_next) simp

lemma ledger_ok_targets: "ledger_ok n rows as T \<Longrightarrow> al_target_id ` set as \<subseteq> T' \<Longrightarrow> ledger_ok n rows as T'"
  by (force simp: ledger_ok_def)

lemma ledger_ok_targets_mono: "ledger_ok n rows as T \<Longrightarrow> T \<subseteq> T' \<Longrightarrow> ledger_ok n rows as T'"
  by (force simp: ledger_ok_def)

lemma ledger_ok_add:
  assumes ok: "ledger_ok n rows as T" and id: "l_id row = n" and amount: "0 < l_amount row"
    and key: "\<not> key_taken (l_idempotency_key row) rows"
    and fits: "sum_list (map snd new) \<le> l_amount row"
    and pos: "\<And>t x. (t, x) \<in> set new \<Longrightarrow> 0 < x \<and> t \<in> T"
  shows "ledger_ok (n + 1) (rows @ [row]) (as @ allocation_rows n new) T"
proof -
  have fresh: "payment_allocated as n = 0"
    unfolding payment_allocated_def by (rule sum_where_none) (use ok in \<open>force simp: ledger_ok_def\<close>)
  have "distinct (map l_id (rows @ [row]))" using ok id by (force simp: ledger_ok_def)
  moreover have "keys_unique (rows @ [row])" using ok key by (simp add: ledger_ok_def keys_unique_append)
  moreover have "l_id r < n + 1 \<and> 0 < l_amount r \<and>
      payment_allocated (as @ allocation_rows n new) (l_id r) \<le> l_amount r" if "r \<in> set (rows @ [row])" for r
    using that ok id amount fits fresh
    by (auto simp: ledger_ok_def payment_allocated_append payment_allocated_rows)
  moreover have "0 < al_amount a \<and> al_payment_id a \<in> l_id ` set (rows @ [row]) \<and> al_target_id a \<in> T"
    if "a \<in> set (as @ allocation_rows n new)" for a
    using that ok id pos by (auto simp: ledger_ok_def allocation_rows_def)
  ultimately show ?thesis by (simp add: ledger_ok_def)
qed

lemma payment_allocated_filter:
  "payment_allocated (filter (\<lambda>a. al_payment_id a \<noteq> pid) as) i = (if i = pid then 0 else payment_allocated as i)"
  by (induction as) (auto simp: payment_allocated_def)

lemma keys_unique_filter: "keys_unique rows \<Longrightarrow> keys_unique (filter P rows)"
  by (induction rows) (force simp: keys_unique_def)+

lemma ledger_ok_remove:
  assumes "ledger_ok n rows as T"
  shows "ledger_ok n (filter (\<lambda>r. l_id r \<noteq> pid) rows) (filter (\<lambda>a. al_payment_id a \<noteq> pid) as) T"
  using assms
  by (force simp: ledger_ok_def distinct_map_filter keys_unique_filter payment_allocated_filter)

text \<open>What a successful check says about every allocation.\<close>

lemma validate_payment_Inr:
  "validate_payment p = Inr () \<longleftrightarrow>
     positive_money_field (pi_amount p) \<and> length (pi_allocations p) \<le> 200 \<and>
     (\<forall>a \<in> set (pi_allocations p). positive_money_field (snd a)) \<and>
     at_most 255 (pi_notes p) \<and> at_most 64 (pi_idempotency_key p) \<and>
     sum_list (map snd (pi_allocations p)) \<le> pi_amount p \<and> distinct (map fst (pi_allocations p))"
  by (auto simp: validate_payment_def list_all_iff)

lemma validate_notary_payout_Inr:
  "validate_notary_payout p = Inr () \<longleftrightarrow>
     positive_money_field (ni_amount p) \<and> length (ni_document_ids p) \<le> 200 \<and>
     (\<forall>x \<in> set (ni_amounts p). positive_money_field x) \<and>
     at_most 255 (ni_notes p) \<and> at_most 64 (ni_idempotency_key p) \<and>
     length (ni_document_ids p) = length (ni_amounts p) \<and> distinct (ni_document_ids p) \<and>
     sum_list (ni_amounts p) \<le> ni_amount p"
  by (auto simp: validate_notary_payout_def list_all_iff)

lemma check_client_allocations_Inr:
  "check_client_allocations db cid as = Inr () \<Longrightarrow> (oid, x) \<in> set as \<Longrightarrow>
     \<exists>ord. get_row o_id oid (orders db) = Some ord \<and> o_client_id ord = cid \<and> is_live db oid \<and>
       x \<le> billed_on db ord - paid_on oid db"
  by (induction as) (auto split: option.splits if_splits)

lemma check_translator_allocations_Inr:
  "check_translator_allocations db tid as = Inr () \<Longrightarrow> (oid, x) \<in> set as \<Longrightarrow>
     oid \<in> o_id ` set (orders db) \<and> x \<le> translator_cost_on db oid tid - translator_already db oid tid"
  by (induction as) (auto split: if_splits simp: get_row_None_notin)

lemma check_notary_allocations_Inr:
  "check_notary_allocations db as = Inr () \<Longrightarrow> (did, x) \<in> set as \<Longrightarrow>
     \<exists>d. get_row d_id did (documents db) = Some d \<and> d_is_notarized d \<and>
       x \<le> d_notary_cost d - notary_settled_on db did"
  by (induction as) (auto split: option.splits if_splits)

text \<open>An order or document named once gets that one amount.\<close>

lemma allocated_to_target:
  "distinct (map fst as) \<Longrightarrow> sum_where al_amount (\<lambda>a. al_target_id a = t) (allocation_rows n as) =
     (case map_of as t of None \<Rightarrow> 0 | Some x \<Rightarrow> x)"
proof (induction as)
  case (Cons a as)
  obtain u x where a: "a = (u, x)" by (cases a)
  have "u \<notin> fst ` set as" using Cons.prems by (auto simp: a)
  then have "map_of as u = None" by (rule map_of_notin)
  with Cons show ?case by (auto simp: a allocation_rows_def)
qed (simp add: allocation_rows_def)

section \<open>The books as a step relation\<close>

inductive ledger_step :: "office \<Rightarrow> office \<Rightarrow> bool" where
  payment: "record_payment session p db = Inr (n, db') \<Longrightarrow> ledger_step db db'"
| unpayment: "delete_payment session i db = Inr db' \<Longrightarrow> ledger_step db db'"
| payout: "pay_translator session p db = Inr (n, db') \<Longrightarrow> ledger_step db db'"
| unpayout: "delete_translator_payout session i db = Inr db' \<Longrightarrow> ledger_step db db'"
| notary: "pay_notary session q db = Inr (n, db') \<Longrightarrow> ledger_step db db'"
| unnotary: "delete_notary_payout session i db = Inr db' \<Longrightarrow> ledger_step db db'"
| expense: "create_expense session x db = Inr (n, db') \<Longrightarrow> ledger_step db db'"
| unexpense: "delete_expense session i db = Inr db' \<Longrightarrow> ledger_step db db'"

inductive ledger_run :: "office \<Rightarrow> office \<Rightarrow> bool" where
  none: "ledger_run db db"
| later: "ledger_run db db' \<Longrightarrow> ledger_step db' db'' \<Longrightarrow> ledger_run db db''"

text \<open>The shape of each successful removal.\<close>

lemma delete_payment_Inr:
  assumes "delete_payment session i db = Inr db'"
  shows "\<exists>row. get_row l_id i (client_payments db) = Some row"
    and "db' = log_office session ''payment.deleted'' ''client_payment'' i
       (db\<lparr>client_payments := filter (\<lambda>p. l_id p \<noteq> i) (client_payments db),
           client_allocations := filter (\<lambda>a. al_payment_id a \<noteq> i) (client_allocations db)\<rparr>)"
  using assms by (auto simp: delete_payment_def split: option.splits if_splits)

lemma delete_translator_payout_Inr:
  assumes "delete_translator_payout session i db = Inr db'"
  shows "\<And>n. n \<in> set (notary_payments db) \<Longrightarrow> l_party n \<noteq> Some i"
    and "db' = log_office session ''translator_payout.deleted'' ''translator_payment'' i
       (db\<lparr>translator_payments := filter (\<lambda>p. l_id p \<noteq> i) (translator_payments db),
           translator_allocations := filter (\<lambda>a. al_payment_id a \<noteq> i) (translator_allocations db)\<rparr>)"
  using assms by (auto simp: delete_translator_payout_def split: option.splits if_splits)

lemma delete_notary_payout_Inr:
  assumes "delete_notary_payout session i db = Inr db'"
  shows "db' = log_office session ''notary_payout.deleted'' ''notary_payment'' i
       (db\<lparr>notary_payments := filter (\<lambda>p. l_id p \<noteq> i) (notary_payments db),
           notary_allocations := filter (\<lambda>a. al_payment_id a \<noteq> i) (notary_allocations db)\<rparr>)"
  using assms by (auto simp: delete_notary_payout_def split: option.splits)

lemma create_expense_Inr:
  assumes "create_expense session p db = Inr (n, db')"
  obtains x where "n = next_id db" and "x_id x = next_id db" and "x_order_id x = xi_order_id p"
    and "\<And>oid. xi_order_id p = Some oid \<Longrightarrow> oid \<in> o_id ` set (orders db)"
    and "db' = log_office session ''expense.created'' ''expense'' (next_id db)
       (db\<lparr>next_id := next_id db + 1, expenses := expenses db @ [x]\<rparr>)"
proof -
  let ?x = "\<lparr>x_id = next_id db, x_order_id = xi_order_id p, x_expense_date = xi_expense_date p,
            x_category = xi_category p, x_description = xi_description p, x_amount = xi_amount p,
            x_recorded_by_user_id = Some (as_user_id session)\<rparr>"
  show ?thesis
    by (rule that [of ?x])
      (use assms in \<open>auto simp: create_expense_def get_row_None_iff split: if_splits option.splits\<close>)
qed

lemma delete_expense_Inr:
  assumes "delete_expense session i db = Inr db'"
  shows "db' = log_office session ''expense.deleted'' ''expense'' i
       (db\<lparr>expenses := filter (\<lambda>x. x_id x \<noteq> i) (expenses db)\<rparr>)"
  using assms by (auto simp: delete_expense_def split: option.splits)

lemma record_payment_books:
  assumes "record_payment session p db = Inr (n, db')" and "books_ok db"
  shows "books_ok db'"
proof (cases "ledger_lookup (pi_idempotency_key p) (client_payments db)")
  case (Some r)
  from record_payment_again(3) [OF assms(1) Some] assms(2) show ?thesis by simp
next
  case None
  note first = record_payment_first [OF assms(1) None]
  have v: "0 < pi_amount p" "sum_list (map snd (pi_allocations p)) \<le> pi_amount p"
    "\<And>t x. (t, x) \<in> set (pi_allocations p) \<Longrightarrow> 0 < x"
    using first(1) by (auto simp: payment_ready_def validate_payment_Inr positive_money_field_def)
  have "ledger_ok (next_id db + 1) (client_payments db @ [payment_row session db p])
      (client_allocations db @ allocation_rows (next_id db) (pi_allocations p)) (o_id ` set (orders db))"
  proof (rule ledger_ok_add)
    fix t x
    assume "(t, x) \<in> set (pi_allocations p)"
    with check_client_allocations_Inr [OF first(3) this] v(3)
    show "0 < x \<and> t \<in> o_id ` set (orders db)" by (auto dest!: get_row_SomeD)
  qed (use assms(2) first(4) v in \<open>simp_all add: books_ok_def payment_row_def\<close>)
  with assms(2) show ?thesis
    unfolding first(5) by (simp add: books_ok_def ledger_ok_Suc)
qed

lemma pay_translator_books:
  assumes "pay_translator session p db = Inr (n, db')" and "books_ok db"
  shows "books_ok db'"
proof (cases "ledger_lookup (pi_idempotency_key p) (translator_payments db)")
  case (Some r)
  from pay_translator_again(3) [OF assms(1) Some] assms(2) show ?thesis by simp
next
  case None
  note first = pay_translator_first [OF assms(1) None]
  have v: "0 < pi_amount p" "sum_list (map snd (pi_allocations p)) \<le> pi_amount p"
    "\<And>t x. (t, x) \<in> set (pi_allocations p) \<Longrightarrow> 0 < x"
    using first(1) by (auto simp: payout_ready_def validate_payment_Inr positive_money_field_def)
  have "ledger_ok (next_id db + 1) (translator_payments db @ [payment_row session db p])
      (translator_allocations db @ allocation_rows (next_id db) (pi_allocations p)) (o_id ` set (orders db))"
  proof (rule ledger_ok_add)
    fix t x
    assume "(t, x) \<in> set (pi_allocations p)"
    with check_translator_allocations_Inr [OF first(3) this] v(3)
    show "0 < x \<and> t \<in> o_id ` set (orders db)" by auto
  qed (use assms(2) first(4) v in \<open>simp_all add: books_ok_def payment_row_def\<close>)
  with assms(2) show ?thesis
    unfolding first(5) by (simp add: books_ok_def ledger_ok_Suc)
qed

lemma pay_notary_books:
  assumes "pay_notary session p db = Inr (n, db')" and "books_ok db"
  shows "books_ok db'"
proof (cases "ledger_lookup (ni_idempotency_key p) (notary_payments db)")
  case (Some r)
  from pay_notary_again(3) [OF assms(1) Some] assms(2) show ?thesis by simp
next
  case None
  note first = pay_notary_first [OF assms(1) None]
  let ?new = "zip (ni_document_ids p) (ni_amounts p)"
  have v: "0 < ni_amount p" "sum_list (map snd ?new) \<le> ni_amount p"
    "\<And>t x. (t, x) \<in> set ?new \<Longrightarrow> 0 < x"
    using first(1) by (auto simp: notary_ready_def validate_notary_payout_Inr positive_money_field_def
        dest: set_zip_rightD)
  have ok: "ledger_ok (next_id db + 1) (notary_payments db @ [notary_payment_row session db p])
      (notary_allocations db @ allocation_rows (next_id db) ?new) (d_id ` set (documents db))"
  proof (rule ledger_ok_add)
    fix t x
    assume "(t, x) \<in> set ?new"
    with check_notary_allocations_Inr [OF first(3) this] v(3)
    show "0 < x \<and> t \<in> d_id ` set (documents db)" by (auto dest!: get_row_SomeD)
  qed (use assms(2) first(4) v in \<open>simp_all add: books_ok_def notary_payment_row_def\<close>)
  have "via \<in> l_id ` set (translator_payments db)" if "ni_paid_via_translator_payment_id p = Some via" for via
    using first(5) [OF that] by (simp add: get_row_None_notin)
  with assms(2) ok show ?thesis
    unfolding first(6) by (simp add: books_ok_def ledger_ok_Suc notary_payment_row_def)
qed

lemma ledger_step_books:
  assumes "ledger_step db db'" and ok: "books_ok db"
  shows "books_ok db'"
  using assms(1)
proof (cases rule: ledger_step.cases)
  case (unpayment session i)
  show ?thesis unfolding delete_payment_Inr(2) [OF unpayment]
    using ok by (simp add: books_ok_def ledger_ok_remove)
next
  case (unpayout session i)
  show ?thesis using delete_translator_payout_Inr(1) [OF unpayout] ok
    unfolding delete_translator_payout_Inr(2) [OF unpayout]
    by (force simp: books_ok_def ledger_ok_remove)
next
  case (unnotary session i)
  show ?thesis unfolding delete_notary_payout_Inr [OF unnotary]
    using ok by (auto simp: books_ok_def ledger_ok_remove)
next
  case (expense session x n)
  with ok show ?thesis by (elim create_expense_Inr) (simp add: books_ok_def ledger_ok_Suc)
next
  case (unexpense session i)
  show ?thesis unfolding delete_expense_Inr [OF unexpense] using ok by (simp add: books_ok_def)
qed (use ok in \<open>auto intro: record_payment_books pay_translator_books pay_notary_books\<close>)

section \<open>Nothing is settled beyond its cost\<close>

lemma get_row_distinct: "distinct (map key rows) \<Longrightarrow> r \<in> set rows \<Longrightarrow> get_row key (key r) rows = Some r"
  by (simp add: get_row_Some_iff_distinct)

lemma sum_where_filter_le:
  assumes "\<And>a. a \<in> set as \<Longrightarrow> 0 < al_amount a"
  shows "sum_where al_amount P (filter Q as) \<le> sum_where al_amount P as"
  unfolding sum_where_filter
  by (rule sum_where_mono_pred) (use assms in \<open>auto intro: less_imp_le\<close>)

lemma is_live_cong:
  "orders db' = orders db \<Longrightarrow> status_events db' = status_events db \<Longrightarrow> is_live db' = is_live db"
  by (rule ext) (simp add: is_live_def latest_status_def)

lemma cost_cong:
  assumes "documents db' = documents db"
  shows "billed_on db' ord = billed_on db ord" "translator_cost_on db' oid tid = translator_cost_on db oid tid"
  using assms by (simp_all add: billed_on_def documents_total_def translator_cost_on_def)

lemma record_payment_within:
  assumes "record_payment session p db = Inr (n, db')" and "books_ok db" and "within_cost db"
  shows "within_cost db'"
proof (cases "ledger_lookup (pi_idempotency_key p) (client_payments db)")
  case (Some r)
  from record_payment_again(3) [OF assms(1) Some] assms(3) show ?thesis by simp
next
  case None
  note first = record_payment_first [OF assms(1) None]
  have dist: "distinct (map fst (pi_allocations p))"
    using first(1) by (simp add: payment_ready_def validate_payment_Inr)
  have paid: "paid_on oid db' = paid_on oid db +
      (case map_of (pi_allocations p) oid of None \<Rightarrow> 0 | Some x \<Rightarrow> x)" for oid
    unfolding first(5) by (simp add: paid_on_def allocated_to_target [OF dist])
  have docs: "documents db' = documents db" "orders db' = orders db" "translator_payments db' = translator_payments db"
    "translator_allocations db' = translator_allocations db" "notary_allocations db' = notary_allocations db"
    unfolding first(5) by simp_all
  have "paid_on (o_id ord) db' \<le> billed_on db ord" if "ord \<in> set (orders db)" for ord
  proof (cases "map_of (pi_allocations p) (o_id ord)")
    case None
    with paid assms(3) that show ?thesis by (simp add: within_cost_def)
  next
    case (Some x)
    have "get_row o_id (o_id ord) (orders db) = Some ord"
      using assms(2) that by (intro get_row_distinct) (simp_all add: books_ok_def)
    with check_client_allocations_Inr [OF first(3) map_of_SomeD [OF Some]]
    have "x \<le> billed_on db ord - paid_on (o_id ord) db" by auto
    with paid [of "o_id ord"] Some show ?thesis by simp
  qed
  with assms(3) show ?thesis
    by (simp add: within_cost_def cost_cong [OF docs(1)] docs translator_already_def paid_to_translator_def notary_settled_on_def)
qed

lemma pay_translator_within:
  assumes "pay_translator session p db = Inr (n, db')" and "books_ok db" and "within_cost db"
  shows "within_cost db'"
proof (cases "ledger_lookup (pi_idempotency_key p) (translator_payments db)")
  case (Some r)
  from pay_translator_again(3) [OF assms(1) Some] assms(3) show ?thesis by simp
next
  case None
  note first = pay_translator_first [OF assms(1) None]
  have dist: "distinct (map fst (pi_allocations p))"
    using first(1) by (simp add: payout_ready_def validate_payment_Inr)
  have docs: "documents db' = documents db" "orders db' = orders db"
    "client_allocations db' = client_allocations db" "notary_allocations db' = notary_allocations db"
    unfolding first(5) by simp_all
  have old: "al_payment_id a \<noteq> next_id db" if "a \<in> set (translator_allocations db)" for a
    using assms(2) that by (force simp: books_ok_def ledger_ok_def)
  have to: "paid_to_translator db' pid tid \<longleftrightarrow>
      paid_to_translator db pid tid \<or> (pid = next_id db \<and> pi_party p = tid)" for pid tid
    unfolding first(5) by (auto simp: paid_to_translator_def payment_row_def)
  have none: "\<not> paid_to_translator db (next_id db) tid" for tid
    using assms(2) by (force simp: paid_to_translator_def books_ok_def ledger_ok_def)
  have already: "translator_already db' oid tid = translator_already db oid tid +
      (if pi_party p = tid then case map_of (pi_allocations p) oid of None \<Rightarrow> 0 | Some x \<Rightarrow> x else 0)" for oid tid
  proof -
    have "translator_already db' oid tid =
        sum_where al_amount (\<lambda>a. al_target_id a = oid \<and> paid_to_translator db' (al_payment_id a) tid)
          (translator_allocations db) +
        sum_where al_amount (\<lambda>a. al_target_id a = oid \<and> paid_to_translator db' (al_payment_id a) tid)
          (allocation_rows (next_id db) (pi_allocations p))"
      by (simp add: translator_already_def) (simp add: first(5))
    moreover have "sum_where al_amount (\<lambda>a. al_target_id a = oid \<and> paid_to_translator db' (al_payment_id a) tid)
          (translator_allocations db) = translator_already db oid tid"
      unfolding translator_already_def by (rule sum_where_cong) (auto simp: to old)
    moreover have "sum_where al_amount (\<lambda>a. al_target_id a = oid \<and> paid_to_translator db' (al_payment_id a) tid)
          (allocation_rows (next_id db) (pi_allocations p)) =
        (if pi_party p = tid then sum_where al_amount (\<lambda>a. al_target_id a = oid)
           (allocation_rows (next_id db) (pi_allocations p)) else 0)"
      by (auto simp: to none allocation_rows_def intro!: sum_where_cong sum_where_none)
    ultimately show ?thesis by (simp add: allocated_to_target [OF dist])
  qed
  have "translator_already db' oid tid \<le> translator_cost_on db oid tid" for oid tid
  proof (cases "map_of (pi_allocations p) oid")
    case None
    with already assms(3) show ?thesis by (simp add: within_cost_def)
  next
    case (Some x)
    from check_translator_allocations_Inr [OF first(3) map_of_SomeD [OF Some]]
    have "x \<le> translator_cost_on db oid (pi_party p) - translator_already db oid (pi_party p)" by simp
    with already [of oid tid] Some assms(3) show ?thesis by (auto simp: within_cost_def)
  qed
  with assms(3) show ?thesis
    by (simp add: within_cost_def cost_cong [OF docs(1)] docs paid_on_def notary_settled_on_def)
qed

lemma pay_notary_within:
  assumes "pay_notary session p db = Inr (n, db')" and "books_ok db" and "within_cost db"
  shows "within_cost db'"
proof (cases "ledger_lookup (ni_idempotency_key p) (notary_payments db)")
  case (Some r)
  from pay_notary_again(3) [OF assms(1) Some] assms(3) show ?thesis by simp
next
  case None
  note first = pay_notary_first [OF assms(1) None]
  let ?new = "zip (ni_document_ids p) (ni_amounts p)"
  have dist: "distinct (map fst ?new)"
    using first(1) by (simp add: notary_ready_def validate_notary_payout_Inr)
  have docs: "documents db' = documents db" "orders db' = orders db" "translator_payments db' = translator_payments db"
    "translator_allocations db' = translator_allocations db" "client_allocations db' = client_allocations db"
    unfolding first(6) by simp_all
  have settled: "notary_settled_on db' did = notary_settled_on db did +
      (case map_of ?new did of None \<Rightarrow> 0 | Some x \<Rightarrow> x)" for did
    unfolding first(6) by (simp add: notary_settled_on_def allocated_to_target [OF dist])
  have "notary_settled_on db' (d_id d) \<le> d_notary_cost d" if "d \<in> set (documents db)" for d
  proof (cases "map_of ?new (d_id d)")
    case None
    with settled assms(3) that show ?thesis by (simp add: within_cost_def)
  next
    case (Some x)
    have "get_row d_id (d_id d) (documents db) = Some d"
      using assms(2) that by (intro get_row_distinct) (simp_all add: books_ok_def)
    with check_notary_allocations_Inr [OF first(3) map_of_SomeD [OF Some]]
    have "x \<le> d_notary_cost d - notary_settled_on db (d_id d)" by auto
    with settled [of "d_id d"] Some show ?thesis by simp
  qed
  with assms(3) show ?thesis
    by (simp add: within_cost_def cost_cong [OF docs(1)] docs paid_on_def translator_already_def paid_to_translator_def)
qed

lemma removals_within:
  assumes "books_ok db" and "within_cost db"
    and "documents db' = documents db" and "orders db' = orders db"
    and "\<And>t. sum_where al_amount (\<lambda>a. al_target_id a = t) (client_allocations db') \<le>
           sum_where al_amount (\<lambda>a. al_target_id a = t) (client_allocations db)"
    and "\<And>oid tid. translator_already db' oid tid \<le> translator_already db oid tid"
    and "\<And>t. sum_where al_amount (\<lambda>a. al_target_id a = t) (notary_allocations db') \<le>
           sum_where al_amount (\<lambda>a. al_target_id a = t) (notary_allocations db)"
  shows "within_cost db'"
  unfolding within_cost_def
proof (intro conjI ballI allI)
  fix ord assume "ord \<in> set (orders db')"
  then have "paid_on (o_id ord) db \<le> billed_on db ord" using assms(2,4) by (simp add: within_cost_def)
  with assms(5) show "paid_on (o_id ord) db' \<le> billed_on db' ord"
    unfolding paid_on_def cost_cong [OF assms(3)] by (rule order_trans)
next
  fix oid tid
  have "translator_already db oid tid \<le> translator_cost_on db oid tid"
    using assms(2) by (simp add: within_cost_def)
  with assms(6) show "translator_already db' oid tid \<le> translator_cost_on db' oid tid"
    unfolding cost_cong [OF assms(3)] by (rule order_trans)
next
  fix d assume "d \<in> set (documents db')"
  then have "notary_settled_on db (d_id d) \<le> d_notary_cost d" using assms(2,3) by (simp add: within_cost_def)
  with assms(7) show "notary_settled_on db' (d_id d) \<le> d_notary_cost d"
    unfolding notary_settled_on_def by (rule order_trans)
qed

lemma ledger_step_within:
  assumes "ledger_step db db'" and ok: "books_ok db" "within_cost db"
  shows "within_cost db'"
proof -
  have pos: "a \<in> set (client_allocations db) \<Longrightarrow> 0 < al_amount a"
    "a \<in> set (translator_allocations db) \<Longrightarrow> 0 < al_amount a"
    "a \<in> set (notary_allocations db) \<Longrightarrow> 0 < al_amount a" for a
    using ok(1) by (auto simp: books_ok_def ledger_ok_def)
  show ?thesis
    using assms(1)
  proof (cases rule: ledger_step.cases)
    case (unpayment session i)
    show ?thesis unfolding delete_payment_Inr(2) [OF unpayment]
      by (rule removals_within [OF ok])
        (simp_all add: sum_where_filter_le [OF pos(1), simplified] translator_already_def paid_to_translator_def)
  next
    case (unpayout session i)
    have "translator_already db' oid tid \<le> translator_already db oid tid" for oid tid
    proof -
      have "translator_already db' oid tid = sum_where al_amount
          (\<lambda>a. (al_target_id a = oid \<and> paid_to_translator db' (al_payment_id a) tid) \<and> al_payment_id a \<noteq> i)
          (translator_allocations db)"
        by (simp add: translator_already_def) (simp add: delete_translator_payout_Inr(2) [OF unpayout])
      also have "\<dots> \<le> translator_already db oid tid"
        unfolding translator_already_def
      proof (rule sum_where_mono_pred)
        fix a
        assume "(al_target_id a = oid \<and> paid_to_translator db' (al_payment_id a) tid) \<and> al_payment_id a \<noteq> i"
        then show "al_target_id a = oid \<and> paid_to_translator db (al_payment_id a) tid"
          unfolding delete_translator_payout_Inr(2) [OF unpayout] by (auto simp: paid_to_translator_def)
      qed (use pos(2) in \<open>auto intro: less_imp_le\<close>)
      finally show ?thesis .
    qed
    then show ?thesis unfolding delete_translator_payout_Inr(2) [OF unpayout]
      by (intro removals_within [OF ok]) simp_all
  next
    case (unnotary session i)
    show ?thesis unfolding delete_notary_payout_Inr [OF unnotary]
      by (rule removals_within [OF ok])
        (simp_all add: sum_where_filter_le [OF pos(3), simplified] translator_already_def paid_to_translator_def)
  next
    case (expense session x n)
    then show ?thesis
      by (elim create_expense_Inr) (rule removals_within [OF ok],
        simp_all add: translator_already_def paid_to_translator_def)
  next
    case (unexpense session i)
    show ?thesis unfolding delete_expense_Inr [OF unexpense]
      by (rule removals_within [OF ok]) (simp_all add: translator_already_def paid_to_translator_def)
  qed (use ok in \<open>auto intro: record_payment_within pay_translator_within pay_notary_within\<close>)
qed

section \<open>A notary fee paid through a translator\<close>

lemma sum_where_one_row:
  fixes f :: "'r \<Rightarrow> rat"
  assumes "distinct (map key rows)"
  shows "sum_where (\<lambda>p. f p + (if key p = v then x else 0)) P rows =
     sum_where f P rows + (case get_row key v rows of Some r \<Rightarrow> if P r then x else 0 | None \<Rightarrow> 0)"
  using assms
proof (induction rows)
  case (Cons r rows)
  show ?case
  proof (cases "key r = v")
    case True
    then have "get_row key v rows = None" using Cons.prems by (simp add: get_row_None_notin)
    with Cons True show ?thesis by simp
  next
    case False
    with Cons show ?thesis by (simp split: option.split)
  qed
qed simp

lemma pay_notary_frame:
  assumes "pay_notary session q db = Inr (n, db')"
    and "ledger_lookup (ni_idempotency_key q) (notary_payments db) = None"
  shows "paid_through db' pid = paid_through db pid +
      (if ni_paid_via_translator_payment_id q = Some pid then ni_amount q else 0)"
    and "translator_payments db' = translator_payments db" and "documents db' = documents db"
    and "is_live db' = is_live db" and "client_payments db' = client_payments db"
    and "expenses db' = expenses db"
    and "notary_payments db' = notary_payments db @ [notary_payment_row session db q]"
proof -
  note first = pay_notary_first(6) [OF assms]
  show np: "notary_payments db' = notary_payments db @ [notary_payment_row session db q]"
    unfolding first by simp
  show "paid_through db' pid = paid_through db pid +
      (if ni_paid_via_translator_payment_id q = Some pid then ni_amount q else 0)"
    by (simp add: paid_through_def np notary_payment_row_def)
  show "translator_payments db' = translator_payments db" "documents db' = documents db"
    "client_payments db' = client_payments db" "expenses db' = expenses db"
    unfolding first by simp_all
  show "is_live db' = is_live db" by (rule is_live_cong) (simp_all add: first)
qed

section \<open>Example requests\<close>

definition ex_payment :: payment_in where
  "ex_payment = \<lparr>pi_party = 1, pi_amount = 60, pi_payment_date = 21, pi_method = CASH,
     pi_notes = None, pi_allocations = [(4, 50)], pi_idempotency_key = Some ''k1''\<rparr>"

definition ex_payout :: payment_in where
  "ex_payout = ex_payment\<lparr>pi_party := 2, pi_amount := 45, pi_allocations := [(4, 40)]\<rparr>"

definition ex_notary_payout :: notary_payout_in where
  "ex_notary_payout = \<lparr>ni_amount = 20, ni_payment_date = 22, ni_method = CASH, ni_notes = None,
     ni_idempotency_key = None, ni_document_ids = [5], ni_amounts = [20],
     ni_paid_via_translator_payment_id = None\<rparr>"

lemma cents_numeral [simp]: "is_cents (numeral n)" "is_cents 1"
  by (rule is_centsI [where n = "numeral n * 100"], simp) (rule is_centsI [where n = 100], simp)

lemma ex_live: "is_live ex_office 4"
  by (simp add: is_live_def latest_status_def latest_event_def ex_office_defs later_event_def or_blank_def
      EXCLUDED_FROM_AGGREGATES_def)

lemma ex_billed: "billed_on ex_office ex_order = 100"
  by (simp add: billed_on_def documents_total_def ex_office_defs)

definition ex_paid :: "auth_session \<Rightarrow> office" where
  "ex_paid session = (case record_payment session ex_payment ex_office of Inr (n, db) \<Rightarrow> db | Inl _ \<Rightarrow> ex_office)"

lemma ex_payment_runs: "record_payment session ex_payment ex_office = Inr (100, ex_paid session)"
proof -
  have "validate_payment ex_payment = Inr ()"
    by (simp add: validate_payment_def ex_payment_def positive_money_field_def at_most_def)
  moreover have "get_row cl_id (pi_party ex_payment) (clients ex_office) = Some ex_client"
    by (simp add: ex_payment_def ex_office_defs)
  moreover have "ledger_lookup (pi_idempotency_key ex_payment) (client_payments ex_office) = None"
    by (simp add: ledger_lookup_def ex_payment_def ex_office_defs)
  moreover have "check_client_allocations ex_office (pi_party ex_payment) (pi_allocations ex_payment) = Inr ()"
  proof -
    have "get_row o_id 4 (orders ex_office) = Some ex_order" "o_client_id ex_order = 1"
      "paid_on 4 ex_office = 0"
      by (simp_all add: paid_on_def ex_office_defs)
    then show ?thesis by (simp add: ex_payment_def ex_live ex_billed)
  qed
  moreover have "insert_once (payment_row session ex_office ex_payment) (client_payments ex_office) (client_payments ex_office)
      = Inr (None, [payment_row session ex_office ex_payment])"
    by (simp add: insert_once_serial payment_row_def ledger_lookup_def key_taken_def ex_office_def
        ex_payment_def)
  moreover have "next_id ex_office = 100" by (simp add: ex_office_def)
  ultimately show ?thesis by (simp add: ex_paid_def record_payment_def)
qed

lemma ex_books: "books_ok ex_office" "within_cost ex_office"
  by (simp_all add: books_ok_def ledger_ok_def keys_unique_def within_cost_def paid_on_def
      translator_already_def translator_cost_on_def notary_settled_on_def billed_on_def
      documents_total_def ex_office_defs)

lemma ex_step: "ledger_step ex_office (ex_paid session)"
  using ex_payment_runs by (rule ledger_step.payment)

section \<open>Properties\<close>

text \<open>A retry is answered like the first time and changes nothing. Once a payment or payout
  with a (non-empty) key has gone through, sending it again returns the same row and leaves
  the books exactly as they are, on all three ledgers.\<close>

lemma retry_changes_nothing:
  assumes "k \<noteq> []"
  shows "(record_payment session p db = Inr (n, db') \<and> pi_idempotency_key p = Some k \<longrightarrow>
            record_payment session p db' = Inr (n, db')) \<and>
         (pay_translator session p db = Inr (n, db') \<and> pi_idempotency_key p = Some k \<longrightarrow>
            pay_translator session p db' = Inr (n, db')) \<and>
         (pay_notary session q db = Inr (n, db') \<and> ni_idempotency_key q = Some k \<longrightarrow>
            pay_notary session q db' = Inr (n, db'))"
  using client_ledger.retry [OF _ _ assms] translator_ledger.retry [OF _ _ assms]
    notary_ledger.retry [OF _ _ assms] by blast

text \<open>C40: two requests racing past each other's lookup with one key insert one row: the second
  finds the unique index taken and answers with the row the first inserted. With an empty key,
  which the lookup treats as no key but the index does not, the second is refused.\<close>

theorem insert_race:
  assumes "\<not> key_taken (l_idempotency_key row) seen" and "l_idempotency_key row = Some k"
    and "insert_once other seen seen = Inr (None, now)" and "l_idempotency_key other = Some k"
    and "keys_unique seen"
  shows "keys_unique now \<and>
     insert_once row seen now =
       (if k = [] then Inl (IntegrityError ''unique'') else Inr (Some other, now))"
proof -
  have now: "now = seen @ [other]"
    using assms(1-4) by (auto simp: insert_once_serial split: option.splits if_splits)
  have fresh: "\<not> key_taken (l_idempotency_key other) seen" using assms(1,2,4) by simp
  then have u: "keys_unique now" unfolding now by (rule keys_unique_append [OF assms(5)])
  have none: "ledger_lookup (Some k) seen = None" using assms(1,2) by (simp add: ledger_lookup_None_iff)
  have taken: "key_taken (Some k) now" using assms(4) by (simp add: key_taken_def now)
  have "k \<noteq> [] \<Longrightarrow> ledger_lookup (Some k) now = Some other"
    using u assms(4) by (intro keys_unique_lookup) (simp_all add: now)
  moreover have "ledger_lookup (Some []) now = None" by (simp add: ledger_lookup_def)
  ultimately show ?thesis using u none taken assms(2)
    by (auto simp: insert_once_def Let_def)
qed

theorem insert_race_witness:
  "insert_once (payment_row ex_caller ex_office ex_payment) []
     [payment_row ex_caller ex_office ex_payment] =
   Inr (Some (payment_row ex_caller ex_office ex_payment), [payment_row ex_caller ex_office ex_payment])"
  using insert_race [of "payment_row ex_caller ex_office ex_payment" "[]" "''k1''"
      "payment_row ex_caller ex_office ex_payment" "[payment_row ex_caller ex_office ex_payment]"]
  by (simp add: key_taken_def payment_row_def ex_payment_def insert_once_serial ledger_lookup_def
      keys_unique_def)

text \<open>C11: whatever is recorded and undone, the books stay consistent: ids and keys unique, every
  allocation positive and on a row and a target that exist, no payment allocated beyond its
  amount, no order paid beyond its bill, no translator or notary settled beyond the cost.\<close>

theorem ledger_run_keeps_books:
  assumes "ledger_run db db'" and "books_ok db" and "within_cost db"
  shows "books_ok db' \<and> within_cost db'"
  using assms
  by (induction rule: ledger_run.induct) (auto intro: ledger_step_books ledger_step_within)

theorem ledger_run_keeps_books_witness:
  "books_ok (ex_paid ex_caller) \<and> within_cost (ex_paid ex_caller)"
  by (rule ledger_run_keeps_books [OF ledger_run.later [OF ledger_run.none ex_step] ex_books])

text \<open>Undoing a payment undoes it: recording and then deleting leaves every ledger, every
  allocation and so every balance as it was.\<close>

lemma delete_payment_undoes:
  assumes "record_payment session p db = Inr (n, db')" and "books_ok db"
    and "ledger_lookup (pi_idempotency_key p) (client_payments db) = None"
    and "delete_payment session' n db' = Inr db''"
  shows "client_payments db'' = client_payments db \<and> client_allocations db'' = client_allocations db \<and>
     per_order_owed db'' = per_order_owed db \<and> translator_balances db'' = translator_balances db \<and>
     notary_balances db'' = notary_balances db \<and> cash_flow db'' s e = cash_flow db s e"
proof -
  note first = record_payment_first [OF assms(1,3)]
  have ids: "l_id r \<noteq> next_id db" if "r \<in> set (client_payments db)" for r
    using assms(2) that by (force simp: books_ok_def ledger_ok_def)
  have als: "al_payment_id a \<noteq> next_id db" if "a \<in> set (client_allocations db)" for a
    using assms(2) that ids by (force simp: books_ok_def ledger_ok_def)
  have new: "filter (\<lambda>a. al_payment_id a \<noteq> n) (allocation_rows n as) = []" for as
    by (induction as) (auto simp: allocation_rows_def)
  have "filter (\<lambda>r. l_id r \<noteq> n) (client_payments db) = client_payments db"
    "filter (\<lambda>a. al_payment_id a \<noteq> n) (client_allocations db) = client_allocations db"
    using ids als unfolding first(2) by (simp_all add: filter_id_conv)
  with new [of "pi_allocations p"]
  have cp: "client_payments db'' = client_payments db" and ca: "client_allocations db'' = client_allocations db"
    unfolding delete_payment_Inr(2) [OF assms(4)] first(5)
    by (simp_all add: payment_row_def first(2))
  have rest: "orders db'' = orders db" "documents db'' = documents db" "status_events db'' = status_events db"
    "translators db'' = translators db" "notaries db'' = notaries db"
    "translator_payments db'' = translator_payments db" "notary_payments db'' = notary_payments db"
    "notary_allocations db'' = notary_allocations db" "expenses db'' = expenses db"
    unfolding delete_payment_Inr(2) [OF assms(4)] first(5) by simp_all
  have live: "is_live db'' = is_live db" by (rule is_live_cong) (simp_all add: rest)
  have "owed_row_of db'' = owed_row_of db"
    by (rule ext) (simp add: owed_row_of_def cost_cong [OF rest(2)] paid_on_def ca)
  moreover have "translator_balance_of db'' = translator_balance_of db"
    by (rule ext) (simp add: translator_balance_of_def translator_earned_def translator_payouts_def
        translator_fronted_def paid_through_def live rest Let_def)
  moreover have "notary_balance_of db'' = notary_balance_of db"
    by (rule ext) (simp add: notary_balance_of_def notary_earned_def notary_settled_def
        notary_settled_on_def live rest)
  ultimately show ?thesis
    by (simp add: cp ca rest live per_order_owed_def translator_balances_def notary_balances_def cash_flow_def)
qed

text \<open>A notary fee is counted once. Paid through a translator's payout it moves that
  translator's balance (the payout settled that much less of their own fee) and not the cash
  flow, which already has the payout; paid directly it moves the cash flow and no translator's
  balance.\<close>

lemma notary_fee_counted_once:
  assumes "pay_notary session q db = Inr (n, db')" and "books_ok db"
    and "ledger_lookup (ni_idempotency_key q) (notary_payments db) = None"
  shows "b_outstanding (translator_balance_of db' t) - b_outstanding (translator_balance_of db t) =
      (case ni_paid_via_translator_payment_id q of
         None \<Rightarrow> 0
       | Some via \<Rightarrow> if paid_to_translator db via (tr_id t) then ni_amount q else 0) \<and>
     cf_net (cash_flow db s e) - cf_net (cash_flow db' s e) =
      (if ni_paid_via_translator_payment_id q = None \<and> in_period s e (ni_payment_date q)
       then ni_amount q else 0)"
proof
  note frame = pay_notary_frame [OF assms(1,3)]
  have dist: "distinct (map l_id (translator_payments db))"
    using assms(2) by (simp add: books_ok_def ledger_ok_def)
  have fronted: "translator_fronted db' (tr_id t) - translator_fronted db (tr_id t) =
      (case ni_paid_via_translator_payment_id q of
         None \<Rightarrow> 0
       | Some via \<Rightarrow> if paid_to_translator db via (tr_id t) then ni_amount q else 0)"
  proof (cases "ni_paid_via_translator_payment_id q")
    case None
    then show ?thesis by (simp add: translator_fronted_def frame)
  next
    case (Some via)
    have to: "paid_to_translator db via (tr_id t) \<longleftrightarrow>
        (\<exists>r. get_row l_id via (translator_payments db) = Some r \<and> l_party r = tr_id t)"
      using get_row_Some_iff_distinct [OF dist] by (auto simp: paid_to_translator_def)
    have eq: "(if Some via = Some (l_id p) then ni_amount q else 0) = (if l_id p = via then ni_amount q else 0)" for p :: "int ledger_row"
      by auto
    have "translator_fronted db' (tr_id t) = translator_fronted db (tr_id t) +
        (case get_row l_id via (translator_payments db) of
           Some r \<Rightarrow> if l_party r = tr_id t then ni_amount q else 0 | None \<Rightarrow> 0)"
      unfolding translator_fronted_def frame(1,2) Some eq by (rule sum_where_one_row [OF dist])
    with to Some show ?thesis by (auto split: option.splits)
  qed
  have "b_outstanding (translator_balance_of db' t) - b_outstanding (translator_balance_of db t) =
      translator_fronted db' (tr_id t) - translator_fronted db (tr_id t)"
    by (simp add: translator_balance_of_def Let_def translator_earned_def translator_payouts_def frame)
  with fronted show "b_outstanding (translator_balance_of db' t) - b_outstanding (translator_balance_of db t) =
      (case ni_paid_via_translator_payment_id q of
         None \<Rightarrow> 0
       | Some via \<Rightarrow> if paid_to_translator db via (tr_id t) then ni_amount q else 0)" by simp
  show "cf_net (cash_flow db s e) - cf_net (cash_flow db' s e) =
      (if ni_paid_via_translator_payment_id q = None \<and> in_period s e (ni_payment_date q)
       then ni_amount q else 0)"
    by (simp add: cash_flow_def Let_def frame sum_in_period_def notary_payment_row_def)
qed

lemma ex_notary_runs: "\<exists>db. pay_notary session ex_notary_payout ex_office = Inr (100, db)"
proof -
  have "validate_notary_payout ex_notary_payout = Inr ()"
    by (simp add: validate_notary_payout_def ex_notary_payout_def positive_money_field_def at_most_def)
  moreover have "ledger_lookup None rows = None" for rows :: "notary_payment list"
    by (simp add: ledger_lookup_def)
  moreover have "check_notary_allocations ex_office [(5, 20)] = Inr ()"
    by (simp add: ex_office_defs notary_settled_on_def)
  ultimately show ?thesis
    by (simp add: pay_notary_def ex_notary_payout_def insert_once_serial notary_payment_row_def
        key_taken_def) (simp add: ex_office_def)
qed

end
