(* ===== verification/Billing.thy ===== *)
theory Billing
  imports Office
begin

text \<open>
  \<^verbatim>\<open>domain/billing.py\<close>: packages, the month an order counts in, what is counted, and the
  refusal of a new order once the package is used up. The zone database is not part of the
  program: a zone is a parameter that says when a month begins there and what day it is.
\<close>

section \<open>Packages\<close>

definition TIERS :: "int list" where "TIERS = [1, 2, 3]"

datatype audience = Bureau | Freelancer

record package =
  pk_audience :: audience
  pk_tier :: int
  pk_orders_included :: int
  pk_monthly_price_cents :: "int option"

definition DEFAULT_PACKAGES :: "audience \<Rightarrow> int \<Rightarrow> (int \<times> int option) option" where
  "DEFAULT_PACKAGES a = (case a of
       Bureau \<Rightarrow> [1 \<mapsto> (50, Some 5000), 2 \<mapsto> (150, Some 10000), 3 \<mapsto> (500, None)]
     | Freelancer \<Rightarrow> [1 \<mapsto> (50, Some 0), 2 \<mapsto> (150, Some 2000), 3 \<mapsto> (500, None)])"

definition default_package :: "audience \<Rightarrow> int \<Rightarrow> package option" where
  "default_package a n = map_option
     (\<lambda>(included, price). \<lparr>pk_audience = a, pk_tier = n, pk_orders_included = included,
        pk_monthly_price_cents = price\<rparr>) (DEFAULT_PACKAGES a n)"

text \<open>The stored row of a tier if there is one (the last, as the dictionary keeps it), else the
  default; only the three tiers are keys.\<close>

definition load_packages :: "package list \<Rightarrow> audience \<Rightarrow> int \<Rightarrow> package option" where
  "load_packages rows a n =
     (if n \<notin> set TIERS then None
      else case get_row pk_tier n (rev (filter (\<lambda>r. pk_audience r = a) rows)) of
             Some p \<Rightarrow> Some p
           | None \<Rightarrow> default_package a n)"

definition audience_of :: "tenant \<Rightarrow> audience" where
  "audience_of t = (if t_is_personal t \<or> effective_plan (t_plan t) = FREELANCER then Freelancer else Bureau)"

datatype level = OK | NEAR | LIMIT

definition level_of :: "int \<Rightarrow> int \<Rightarrow> level" where
  "level_of n included =
     (if n \<ge> included then LIMIT
      else if n * 5 \<ge> included * 4 then NEAR
      else OK)"

record quote =
  q_orders :: int
  q_included :: int
  q_remaining :: int
  q_level :: level
  q_plan_fee_cents :: "int option"

definition q_blocked :: "quote \<Rightarrow> bool" where
  "q_blocked q \<longleftrightarrow> q_level q = LIMIT"

definition q_total_cents :: "quote \<Rightarrow> int" where
  "q_total_cents q = (case q_plan_fee_cents q of None \<Rightarrow> 0 | Some c \<Rightarrow> c)"

definition quote :: "package \<Rightarrow> int \<Rightarrow> quote" where
  "quote p n = \<lparr>q_orders = n, q_included = pk_orders_included p,
     q_remaining = max 0 (pk_orders_included p - n),
     q_level = level_of n (pk_orders_included p),
     q_plan_fee_cents = pk_monthly_price_cents p\<rparr>"

section \<open>Money\<close>

definition to_cents :: "rat \<Rightarrow> int" where
  "to_cents amount = round_half_up (amount * 100)"

definition from_cents :: "int \<Rightarrow> rat" where
  "from_cents cents = of_int cents / 100"

section \<open>Months\<close>

type_synonym ymd = "int \<times> int \<times> int"

definition digit_char :: "int \<Rightarrow> char" where
  "digit_char n = char_of (nat (n + 48))"

definition digit_value :: "char \<Rightarrow> int" where
  "digit_value c = int (of_char c) - 48"

text \<open>\<^verbatim>\<open>f"{year:04d}-{month:02d}"\<close>, for the years a date can have.\<close>

definition period_of :: "ymd \<Rightarrow> string" where
  "period_of day = (case day of (y, m, d) \<Rightarrow>
     [digit_char (y div 1000 mod 10), digit_char (y div 100 mod 10), digit_char (y div 10 mod 10),
      digit_char (y mod 10), CHR ''-'', digit_char (m div 10 mod 10), digit_char (m mod 10)])"

text \<open>
  The pattern \<^verbatim>\<open>^(\d{4})-(0[1-9]|1[0-2])$\<close> with \<^verbatim>\<open>re.match\<close>: the dollar also matches before
  one trailing newline.
\<close>

definition drop_newline :: "string \<Rightarrow> string" where
  "drop_newline s = (if s \<noteq> [] \<and> last s = CHR 0x0A then butlast s else s)"

definition parse_period :: "string \<Rightarrow> (int \<times> int) result" where
  "parse_period text =
     (case drop_newline text of
        [a, b, c, d, dash, e, f] \<Rightarrow>
          if is_digit a \<and> is_digit b \<and> is_digit c \<and> is_digit d \<and> dash = CHR ''-'' \<and>
             ((e = CHR ''0'' \<and> is_digit f \<and> f \<noteq> CHR ''0'') \<or>
              (e = CHR ''1'' \<and> f \<in> {CHR ''0'', CHR ''1'', CHR ''2''}))
          then Inr (digit_value a * 1000 + digit_value b * 100 + digit_value c * 10 + digit_value d,
                    digit_value e * 10 + digit_value f)
          else Inl (ValidationError ''Choose a month as YYYY-MM, for example 2026-10.'')
      | _ \<Rightarrow> Inl (ValidationError ''Choose a month as YYYY-MM, for example 2026-10.''))"

definition next_month :: "int \<times> int \<Rightarrow> int \<times> int" where
  "next_month ym = (case ym of (y, m) \<Rightarrow> (if m = 12 then y + 1 else y, m mod 12 + 1))"

definition is_leap :: "int \<Rightarrow> bool" where
  "is_leap y \<longleftrightarrow> y mod 4 = 0 \<and> (y mod 100 \<noteq> 0 \<or> y mod 400 = 0)"

definition days_in_month :: "int \<Rightarrow> int \<Rightarrow> int" where
  "days_in_month y m =
     (if m = 2 then if is_leap y then 29 else 28
      else if m \<in> {4, 6, 9, 11} then 30 else 31)"

text \<open>\<^verbatim>\<open>date(y, m, 1)\<close> exists for the years 1 to 9999 only.\<close>

definition month_ok :: "int \<times> int \<Rightarrow> bool" where
  "month_ok ym \<longleftrightarrow> 1 \<le> fst ym \<and> fst ym \<le> 9999"

text \<open>The day before the first of the next month is the last of this one.\<close>

definition period_days :: "string \<Rightarrow> (ymd \<times> ymd) result" where
  "period_days period =
     bind_result (parse_period period) (\<lambda>(y, m).
       if \<not> month_ok (y, m) \<or> \<not> month_ok (next_month (y, m)) then Inl (InternalError ''ValueError'')
       else Inr ((y, m, 1), (y, m, days_in_month y m)))"

definition day_before_first :: "int \<times> int \<Rightarrow> ymd" where
  "day_before_first ym = (case ym of (y, m) \<Rightarrow>
     if m = 1 then (y - 1, 12, 31) else (y, m - 1, days_in_month y (m - 1)))"

definition previous_period :: "string \<Rightarrow> string result" where
  "previous_period period =
     bind_result (period_days period) (\<lambda>((y, m, _), _).
       if y = 1 \<and> m = 1 then Inl (InternalError ''OverflowError'')
       else Inr (period_of (day_before_first (y, m))))"

record zone =
  z_month_start :: "int \<Rightarrow> int \<Rightarrow> instant"
  z_today :: "instant \<Rightarrow> ymd"

definition current_period :: "zone \<Rightarrow> instant \<Rightarrow> string" where
  "current_period tz now = period_of (z_today tz now)"

definition month_window :: "zone \<Rightarrow> string \<Rightarrow> (instant \<times> instant) result" where
  "month_window tz period =
     bind_result (parse_period period) (\<lambda>(y, m).
       if \<not> month_ok (y, m) \<or> \<not> month_ok (next_month (y, m)) then Inl (InternalError ''ValueError'')
       else Inr (z_month_start tz y m, case next_month (y, m) of (y', m') \<Rightarrow> z_month_start tz y' m'))"

section \<open>What is counted\<close>

text \<open>One order's part in the count of a window.\<close>

definition order_counts :: "office \<Rightarrow> instant \<times> instant \<Rightarrow> order \<Rightarrow> bool" where
  "order_counts db window ord \<longleftrightarrow>
     fst window \<le> o_created_at ord \<and> o_created_at ord < snd window \<and>
     o_source ord \<noteq> Some ''import'' \<and>
     (case latest_status (o_id ord) db of None \<Rightarrow> ''new'' | Some s \<Rightarrow> s) \<notin> EXCLUDED_FROM_AGGREGATES"

definition count_in :: "office \<Rightarrow> instant \<times> instant \<Rightarrow> int" where
  "count_in db window = int (length (filter (order_counts db window) (orders db)))"

definition count_orders :: "zone \<Rightarrow> string \<Rightarrow> office \<Rightarrow> int result" where
  "count_orders tz period db = bind_result (month_window tz period) (\<lambda>w. Inr (count_in db w))"

definition package_for :: "package list \<Rightarrow> tenant \<Rightarrow> package option" where
  "package_for rows t =
     (case load_packages rows (audience_of t) (t_package_tier t) of
        Some p \<Rightarrow> Some p
      | None \<Rightarrow> load_packages rows (audience_of t) 1)"

definition month_of ::
    "zone \<Rightarrow> package list \<Rightarrow> instant \<Rightarrow> tenant \<Rightarrow> string option \<Rightarrow> office \<Rightarrow> (package \<times> quote) result" where
  "month_of tz rows now t period db =
     (let chosen = (case period of Some p \<Rightarrow> if p = [] then current_period tz now else p
                                 | None \<Rightarrow> current_period tz now)
      in case package_for rows t of
           None \<Rightarrow> Inl (InternalError ''KeyError'')
         | Some p \<Rightarrow> bind_result (count_orders tz chosen db) (\<lambda>n. Inr (p, quote p n)))"

definition ensure_room_for_order ::
    "zone \<Rightarrow> package list \<Rightarrow> instant \<Rightarrow> tenant \<Rightarrow> office \<Rightarrow> unit result" where
  "ensure_room_for_order tz rows now t db =
     bind_result (month_of tz rows now t None db) (\<lambda>(p, figures).
       if q_blocked figures then Inl (PackageLimitError ''All orders of this month's package are used.'')
       else Inr ())"

section \<open>Facts\<close>

lemma load_packages_first: "load_packages rows a 1 \<noteq> None"
  by (cases a) (simp_all add: load_packages_def TIERS_def default_package_def DEFAULT_PACKAGES_def split: option.split)

lemma package_for_total: "package_for rows t \<noteq> None"
  using load_packages_first by (simp add: package_for_def split: option.split)

lemma of_char_digit: "0 \<le> n \<Longrightarrow> n < 10 \<Longrightarrow> (of_char (digit_char n) :: nat) = nat n + 48"
  by (simp add: digit_char_def nat_add_distrib)

lemma digit_round: "0 \<le> n \<Longrightarrow> n < 10 \<Longrightarrow> is_digit (digit_char n) \<and> digit_value (digit_char n) = n"
  by (simp add: is_digit_def Let_def digit_value_def of_char_digit)

lemma four_digits:
  "0 \<le> (y::int) \<Longrightarrow> y \<le> 9999 \<Longrightarrow>
     (y div 1000 mod 10) * 1000 + (y div 100 mod 10) * 100 + (y div 10 mod 10) * 10 + y mod 10 = y"
proof -
  assume "0 \<le> y" "y \<le> 9999"
  then have top: "y div 1000 mod 10 = y div 1000" by simp
  have steps: "y div 100 = (y div 10) div 10" "y div 1000 = (y div 100) div 10"
    by (simp_all add: div_mult2_eq [symmetric] zdiv_zmult2_eq [symmetric])
  have split: "n = n div 10 * 10 + n mod 10" for n :: int by simp
  show ?thesis
    using split [of y] split [of "y div 10"] split [of "y div 100"] steps top by linarith
qed

lemma parse_period_chars:
  assumes "is_digit a" "is_digit b" "is_digit c" "is_digit d"
    and "(e = CHR ''0'' \<and> is_digit f \<and> f \<noteq> CHR ''0'') \<or>
         (e = CHR ''1'' \<and> f \<in> {CHR ''0'', CHR ''1'', CHR ''2''})"
    and "f \<noteq> CHR 0x0A"
  shows "parse_period [a, b, c, d, CHR ''-'', e, f] =
     Inr (digit_value a * 1000 + digit_value b * 100 + digit_value c * 10 + digit_value d,
          digit_value e * 10 + digit_value f)"
proof -
  have "drop_newline [a, b, c, d, CHR ''-'', e, f] = [a, b, c, d, CHR ''-'', e, f]"
    using assms(6) by (simp add: drop_newline_def)
  with assms(1-5) show ?thesis by (simp only: parse_period_def list.case if_True simp_thms)
qed

lemma parse_period_of:
  assumes "0 \<le> y" "y \<le> 9999" "1 \<le> m" "m \<le> 12"
  shows "parse_period (period_of (y, m, d)) = Inr (y, m)"
proof -
  have y: "0 \<le> y div k mod 10" "y div k mod 10 < 10" for k by simp_all
  have nl: "digit_char n \<noteq> CHR 0x0A" if "0 \<le> n" "n < 10" for n
    using of_char_digit [OF that] that by (auto simp: nat_eq_iff)
  have zero: "digit_char 0 = CHR ''0''" "digit_char 1 = CHR ''1''" "digit_char 2 = CHR ''2''"
    by (simp_all add: digit_char_def char_of_def bit_0)
  have m: "(m div 10 mod 10 = 0 \<and> m mod 10 \<noteq> 0 \<and> m mod 10 = m) \<or>
      (m div 10 mod 10 = 1 \<and> m mod 10 \<in> {0, 1, 2} \<and> m = 10 + m mod 10)"
  proof -
    have "m div 10 = 0 \<and> m mod 10 = m \<or> m div 10 = 1 \<and> m = 10 + m mod 10 \<and> m mod 10 \<le> 2"
      using assms(3,4) by presburger
    with assms(3) show ?thesis by (auto dest: order.antisym)
  qed
  have nz: "digit_char n \<noteq> CHR ''0''" if "0 < n" "n < 10" for n
  proof
    assume "digit_char n = CHR ''0''"
    then have "digit_value (digit_char n) = digit_value (CHR ''0'')" by simp
    with digit_round [of n] that show False by (simp add: digit_value_def)
  qed
  have month: "((digit_char (m div 10 mod 10) = CHR ''0'' \<and> is_digit (digit_char (m mod 10)) \<and>
        digit_char (m mod 10) \<noteq> CHR ''0'') \<or>
      (digit_char (m div 10 mod 10) = CHR ''1'' \<and> digit_char (m mod 10) \<in> {CHR ''0'', CHR ''1'', CHR ''2''}))"
    using m digit_round [of "m mod 10"] nz [of "m mod 10"] zero by auto
  have val: "digit_value (digit_char (m div 10 mod 10)) * 10 + digit_value (digit_char (m mod 10)) = m"
    using m digit_round [of "m mod 10"] digit_round [of "m div 10 mod 10"] by auto
  have digits: "is_digit (digit_char (y div k mod 10))" "digit_value (digit_char (y div k mod 10)) = y div k mod 10" for k
    using digit_round [OF y] by simp_all
  from digits [of 1] have d1: "is_digit (digit_char (y mod 10))" "digit_value (digit_char (y mod 10)) = y mod 10" by simp_all
  have "parse_period (period_of (y, m, d)) =
      Inr (digit_value (digit_char (y div 1000 mod 10)) * 1000 +
        digit_value (digit_char (y div 100 mod 10)) * 100 +
        digit_value (digit_char (y div 10 mod 10)) * 10 + digit_value (digit_char (y mod 10)),
        digit_value (digit_char (m div 10 mod 10)) * 10 + digit_value (digit_char (m mod 10)))"
    unfolding period_of_def prod.case
    by (rule parse_period_chars [OF digits(1) digits(1) digits(1) d1(1) month]) (rule nl, simp_all)
  then show ?thesis unfolding digits d1 val four_digits [OF assms(1,2)] .
qed

lemma month_window_of:
  assumes "1 \<le> y" "y \<le> 9998" "1 \<le> m" "m \<le> 12"
  shows "month_window tz (period_of (y, m, d)) =
     Inr (z_month_start tz y m, z_month_start tz (fst (next_month (y, m))) (snd (next_month (y, m))))"
proof -
  have "month_ok (y, m)" "month_ok (next_month (y, m))"
    using assms by (auto simp: month_ok_def next_month_def)
  moreover have "parse_period (period_of (y, m, d)) = Inr (y, m)"
    using assms by (intro parse_period_of) auto
  ultimately show ?thesis by (simp add: month_window_def split: prod.split)
qed

text \<open>A zone in which months follow each other, as every real one does.\<close>

definition months_in_order :: "zone \<Rightarrow> bool" where
  "months_in_order tz \<longleftrightarrow>
     (\<forall>y m y' m'. y * 12 + m < y' * 12 + m' \<longrightarrow> 1 \<le> m \<longrightarrow> m \<le> 12 \<longrightarrow> 1 \<le> m' \<longrightarrow> m' \<le> 12 \<longrightarrow>
        z_month_start tz y m < z_month_start tz y' m')"

lemma month_start_le:
  assumes "months_in_order tz" and "y * 12 + m \<le> y' * 12 + m'" and "1 \<le> m" "m \<le> 12" "1 \<le> m'" "m' \<le> 12"
  shows "z_month_start tz y m \<le> z_month_start tz y' m'"
proof (cases "y * 12 + m = y' * 12 + m'")
  case True
  with assms(3-6) have "y = y'" by linarith
  with True show ?thesis by simp
next
  case False
  then have "y * 12 + m < y' * 12 + m'" using assms(2) by simp
  then have "z_month_start tz y m < z_month_start tz y' m'"
    using assms(1) [unfolded months_in_order_def, rule_format, of y m y' m'] assms(3-6) by simp
  then show ?thesis by simp
qed

section \<open>Properties\<close>

text \<open>A month's period is a round trip and the months tile the time line: reading back a
  written period gives its year and month, the period before the next month is this one, and
  a moment inside the window of one month is in no other month's window, so no order is
  counted in two months.\<close>

lemma periods_tile:
  assumes "1 \<le> y" "y \<le> 9997" "1 \<le> m" "m \<le> 12" and "months_in_order tz"
    and "1 \<le> y'" "y' \<le> 9997" "1 \<le> m'" "m' \<le> 12"
  shows "parse_period (period_of (y, m, d)) = Inr (y, m) \<and>
     previous_period (period_of (fst (next_month (y, m)), snd (next_month (y, m)), d)) = Inr (period_of (y, m, d)) \<and>
     (\<exists>w w'. month_window tz (period_of (y, m, d)) = Inr w \<and> month_window tz (period_of (y', m', d')) = Inr w' \<and>
        fst w < snd w \<and>
        (fst w \<le> t \<and> t < snd w \<and> fst w' \<le> t \<and> t < snd w' \<longrightarrow> (y, m) = (y', m')))"
proof (intro conjI)
  show "parse_period (period_of (y, m, d)) = Inr (y, m)" using assms by (intro parse_period_of) auto
  have nm: "1 \<le> fst (next_month (y, m))" "fst (next_month (y, m)) \<le> 9998"
    "1 \<le> snd (next_month (y, m))" "snd (next_month (y, m)) \<le> 12"
    using assms(1-4) by (auto simp: next_month_def)
  have len: "period_of (a, b, c) = period_of (a, b, d)" for a b c by (simp add: period_of_def)
  have "previous_period (period_of (fst (next_month (y, m)), snd (next_month (y, m)), d)) =
      Inr (period_of (day_before_first (next_month (y, m))))"
  proof -
    obtain a b where ab: "next_month (y, m) = (a, b)" by (cases "next_month (y, m)")
    with nm have "parse_period (period_of (a, b, d)) = Inr (a, b)" by (intro parse_period_of) auto
    moreover have "month_ok (a, b) \<and> month_ok (next_month (a, b))"
      using nm ab by (auto simp: month_ok_def next_month_def)
    moreover have "\<not> (a = 1 \<and> b = 1)" using ab assms(1,3,4) by (auto simp: next_month_def split: if_splits)
    ultimately show ?thesis by (simp add: ab previous_period_def period_days_def)
  qed
  also have "day_before_first (next_month (y, m)) = (y, m, days_in_month y m)"
    using assms(3,4) by (auto simp: next_month_def day_before_first_def days_in_month_def)
  finally show "previous_period (period_of (fst (next_month (y, m)), snd (next_month (y, m)), d)) = Inr (period_of (y, m, d))"
    using len by simp
  let ?w = "(z_month_start tz y m, z_month_start tz (fst (next_month (y, m))) (snd (next_month (y, m))))"
  let ?w' = "(z_month_start tz y' m', z_month_start tz (fst (next_month (y', m'))) (snd (next_month (y', m'))))"
  have nx: "fst (next_month (a, b)) * 12 + snd (next_month (a, b)) = a * 12 + b + 1" if "1 \<le> b" "b \<le> 12" for a b
    using that by (auto simp: next_month_def)
  have sn: "1 \<le> snd (next_month (a, b))" "snd (next_month (a, b)) \<le> 12" if "1 \<le> b" "b \<le> 12" for a b
    using that by (auto simp: next_month_def)
  have "z_month_start tz y m < snd ?w"
    using assms(5) [unfolded months_in_order_def, rule_format, of y m "fst (next_month (y, m))" "snd (next_month (y, m))"]
      assms(3,4) nx [OF assms(3,4), of y] sn [OF assms(3,4), of y] by simp
  moreover have "(y, m) = (y', m')"
    if t: "z_month_start tz y m \<le> t" "t < snd ?w" "z_month_start tz y' m' \<le> t" "t < snd ?w'"
  proof (rule ccontr)
    assume "(y, m) \<noteq> (y', m')"
    then have "y * 12 + m \<noteq> y' * 12 + m'" using assms(3,4,8,9) by (cases "y = y'") (simp, linarith)
    then consider "y * 12 + m + 1 \<le> y' * 12 + m'" | "y' * 12 + m' + 1 \<le> y * 12 + m" by linarith
    then show False
    proof cases
      case 1
      then have "snd ?w \<le> z_month_start tz y' m'"
        unfolding snd_conv
        by (intro month_start_le assms(5,8,9) sn [OF assms(3,4)]) (simp add: nx [OF assms(3,4)])
      with t show False by simp
    next
      case 2
      then have "snd ?w' \<le> z_month_start tz y m"
        unfolding snd_conv
        by (intro month_start_le assms(3-5) sn [OF assms(8,9)]) (simp add: nx [OF assms(8,9)])
      with t show False by simp
    qed
  qed
  moreover have "month_window tz (period_of (y, m, d)) = Inr ?w"
    using assms by (intro month_window_of) auto
  moreover have "month_window tz (period_of (y', m', d')) = Inr ?w'"
    using assms by (intro month_window_of) auto
  ultimately show "\<exists>w w'. month_window tz (period_of (y, m, d)) = Inr w \<and> month_window tz (period_of (y', m', d')) = Inr w' \<and>
        fst w < snd w \<and>
        (fst w \<le> t \<and> t < snd w \<and> fst w' \<le> t \<and> t < snd w' \<longrightarrow> (y, m) = (y', m'))"
    by (intro exI [of _ ?w] exI [of _ ?w']) auto
qed

definition ex_zone :: zone where
  "ex_zone = \<lparr>z_month_start = (\<lambda>y m. days (30 * (y * 12 + m))), z_today = (\<lambda>_. (2026, 10, 17))\<rparr>"

lemma ex_zone_ok: "months_in_order ex_zone"
  by (simp add: months_in_order_def ex_zone_def time_units)

text \<open>The three levels are exact: an account is stopped once it used all its included orders and
  not before, warned from four fifths on, and what remains reaches zero exactly when it is
  stopped; and an amount in tetri is the amount in lari to the tetri, both ways.\<close>

lemma package_levels:
  assumes "0 \<le> n"
  shows "let q = quote p n in
     (q_blocked q \<longleftrightarrow> pk_orders_included p \<le> n) \<and>
     (q_level q = NEAR \<longleftrightarrow> n < pk_orders_included p \<and> 4 * pk_orders_included p \<le> 5 * n) \<and>
     (q_remaining q = 0 \<longleftrightarrow> q_blocked q) \<and>
     from_cents (to_cents x) = money x \<and> to_cents (from_cents c) = c"
  by (auto simp: quote_def Let_def level_of_def q_blocked_def from_cents_def to_cents_def money_def)

text \<open>The pattern's dollar also accepts one trailing newline.\<close>

lemma parse_period_trailing_newline: "parse_period (period_of (2026, 10, 1) @ [CHR 0x0A]) = Inr (2026, 10)"
proof -
  have "drop_newline (s @ [CHR 0x0A]) = s" for s by (simp add: drop_newline_def)
  moreover have "drop_newline (period_of (2026, 10, 1)) = period_of (2026, 10, 1)"
    by (simp add: drop_newline_def period_of_def digit_char_def char_of_def bit_0)
  ultimately have "parse_period (period_of (2026, 10, 1) @ [CHR 0x0A]) = parse_period (period_of (2026, 10, 1))"
    by (simp only: parse_period_def)
  then show ?thesis by (simp add: parse_period_of)
qed

end
