(* ===== verification/Orders.thy ===== *)
theory Orders
  imports Ledgers Billing
begin

text \<open>
  \<^verbatim>\<open>api/v1/orders.py\<close> and \<^verbatim>\<open>api/v1/options.py\<close>: creating an order, editing its header and
  its documents, its status log, deleting it, and the bureau's own statuses. Every handler is
  one definition over \<open>office\<close>; the framework's validation of a request body is a definition
  of its own, made before the handler. The fields of an update are options (absent, or the
  value sent, which may itself be null).
\<close>

section \<open>Requests\<close>

definition MAX_DOCUMENTS :: nat where "MAX_DOCUMENTS = 50"
definition NOTES_MAX :: nat where "NOTES_MAX = 5000"
definition IDENTIFIER_MAX :: nat where "IDENTIFIER_MAX = 100"
definition PLACE_MAX :: nat where "PLACE_MAX = 500"

definition optional :: "('a \<Rightarrow> bool) \<Rightarrow> 'a option \<Rightarrow> bool" where
  "optional P v \<longleftrightarrow> (case v of None \<Rightarrow> True | Some x \<Rightarrow> P x)"

record document_in =
  di_document_type_id :: "int option"
  di_service_type :: service_type
  di_source_language :: string
  di_target_language :: string
  di_page_count :: int
  di_character_count :: "int option"
  di_copy_type :: copy_type
  di_is_notarized :: "bool option"
  di_translator_id :: "int option"
  di_notary_id :: "int option"
  di_interpreting_place :: "string option"
  di_interpreting_date :: "date option"
  di_interpreting_time :: "int option"
  di_price_override :: "rat option"
  di_translator_cost_override :: "rat option"
  di_notary_cost_override :: "rat option"

definition language_field :: "string \<Rightarrow> bool" where
  "language_field s \<longleftrightarrow> 2 \<le> length s \<and> length s \<le> 5"

definition has_place :: "document_in \<Rightarrow> bool" where
  "has_place item \<longleftrightarrow> strip (or_blank (di_interpreting_place item)) \<noteq> [] \<or>
     di_interpreting_date item \<noteq> None \<or> di_interpreting_time item \<noteq> None"

definition kind_rules :: "document_in \<Rightarrow> document_in result" where
  "kind_rules item =
     (if di_service_type item = WRITTEN then
        if di_document_type_id item = None then Inl (ValidationError ''A written line needs a document type.'')
        else if has_place item then Inl (ValidationError ''Only an interpreting line has a place.'')
        else Inr item
      else
        if di_copy_type item \<noteq> ORIGINAL \<or> di_is_notarized item = Some True \<or> di_notary_id item \<noteq> None
          then Inl (ValidationError ''An oral line has no copy type, notarisation or notary.'')
        else Inr (item\<lparr>di_document_type_id := None, di_character_count := None,
                       di_interpreting_place := strip_or_none (di_interpreting_place item)\<rparr>))"

definition validate_document_in :: "document_in \<Rightarrow> document_in result" where
  "validate_document_in item =
     (if \<not> language_field (di_source_language item) \<or> \<not> language_field (di_target_language item) \<or>
         di_page_count item < 1 \<or> 10000 < di_page_count item \<or>
         \<not> optional (\<lambda>c. 1 \<le> c \<and> c \<le> 100000000) (di_character_count item) \<or>
         \<not> at_most PLACE_MAX (di_interpreting_place item) \<or>
         \<not> optional money_field (di_price_override item) \<or>
         \<not> optional money_field (di_translator_cost_override item) \<or>
         \<not> optional money_field (di_notary_cost_override item)
        then Inl (ValidationError ''field'') else kind_rules item)"

record order_in =
  oi_client_id :: int
  oi_documents :: "document_in list"
  oi_order_date :: "date option"
  oi_due_date :: "date option"
  oi_contact_info :: "string option"
  oi_identifier :: "string option"
  oi_urgency :: urgency
  oi_handover_method :: handover_method
  oi_delivery_address :: "string option"
  oi_source :: "string option"
  oi_notes :: "string option"
  oi_translation_instructions :: "string option"

definition validate_order_in :: "order_in \<Rightarrow> order_in result" where
  "validate_order_in p =
     (if oi_documents p = [] \<or> MAX_DOCUMENTS < length (oi_documents p) \<or>
         \<not> at_most 255 (oi_contact_info p) \<or> \<not> at_most IDENTIFIER_MAX (oi_identifier p) \<or>
         \<not> at_most 500 (oi_delivery_address p) \<or> \<not> at_most 50 (oi_source p) \<or>
         \<not> at_most NOTES_MAX (oi_notes p) \<or> \<not> at_most NOTES_MAX (oi_translation_instructions p)
        then Inl (ValidationError ''field'')
      else bind_result (map_result validate_document_in (oi_documents p)) (\<lambda>items.
        Inr (p\<lparr>oi_documents := items\<rparr>)))"

record order_update =
  ou_client_id :: "int option option"
  ou_order_date :: "date option option"
  ou_due_date :: "date option option"
  ou_contact_info :: "string option option"
  ou_identifier :: "string option option"
  ou_urgency :: "urgency option option"
  ou_handover_method :: "handover_method option option"
  ou_delivery_address :: "string option option"
  ou_delivery_cost :: "rat option option"
  ou_notes :: "string option option"
  ou_translation_instructions :: "string option option"

definition validate_order_update :: "order_update \<Rightarrow> unit result" where
  "validate_order_update p =
     (if \<not> optional (at_most 255) (ou_contact_info p) \<or> \<not> optional (at_most IDENTIFIER_MAX) (ou_identifier p) \<or>
         \<not> optional (at_most 500) (ou_delivery_address p) \<or>
         \<not> optional (optional money_field) (ou_delivery_cost p) \<or>
         \<not> optional (at_most NOTES_MAX) (ou_notes p) \<or>
         \<not> optional (at_most NOTES_MAX) (ou_translation_instructions p)
        then Inl (ValidationError ''field'') else Inr ())"

record document_update =
  du_document_type_id :: "int option option"
  du_service_type :: "service_type option option"
  du_source_language :: "string option option"
  du_target_language :: "string option option"
  du_page_count :: "int option option"
  du_character_count :: "int option option"
  du_copy_type :: "copy_type option option"
  du_is_notarized :: "bool option option"
  du_translator_id :: "int option option"
  du_notary_id :: "int option option"
  du_interpreting_place :: "string option option"
  du_interpreting_date :: "date option option"
  du_interpreting_time :: "int option option"
  du_price :: "rat option option"
  du_translator_cost :: "rat option option"
  du_notary_cost :: "rat option option"

definition validate_document_update :: "document_update \<Rightarrow> unit result" where
  "validate_document_update p =
     (if \<not> optional (optional language_field) (du_source_language p) \<or>
         \<not> optional (optional language_field) (du_target_language p) \<or>
         \<not> optional (optional (\<lambda>n. 1 \<le> n \<and> n \<le> 10000)) (du_page_count p) \<or>
         \<not> optional (optional (\<lambda>c. 1 \<le> c \<and> c \<le> 100000000)) (du_character_count p) \<or>
         \<not> optional (at_most PLACE_MAX) (du_interpreting_place p) \<or>
         \<not> optional (optional money_field) (du_price p) \<or>
         \<not> optional (optional money_field) (du_translator_cost p) \<or>
         \<not> optional (optional money_field) (du_notary_cost p)
        then Inl (ValidationError ''field'') else Inr ())"

text \<open>\<^verbatim>\<open>changes\<close> is empty.\<close>

definition no_document_change :: document_update where
  "no_document_change = \<lparr>du_document_type_id = None, du_service_type = None, du_source_language = None,
     du_target_language = None, du_page_count = None, du_character_count = None, du_copy_type = None,
     du_is_notarized = None, du_translator_id = None, du_notary_id = None, du_interpreting_place = None,
     du_interpreting_date = None, du_interpreting_time = None, du_price = None,
     du_translator_cost = None, du_notary_cost = None\<rparr>"

record order_save =
  os_header :: "order_update option"
  os_add :: "document_in list"
  os_update :: "(int \<times> document_update) list"
  os_remove :: "int list"

definition validate_order_save :: "order_save \<Rightarrow> order_save result" where
  "validate_order_save p =
     (if MAX_DOCUMENTS < length (os_add p) \<or> MAX_DOCUMENTS < length (os_update p) \<or>
         MAX_DOCUMENTS < length (os_remove p) then Inl (ValidationError ''field'')
      else bind_result (case os_header p of None \<Rightarrow> Inr () | Some h \<Rightarrow> validate_order_update h) (\<lambda>_.
        bind_result (map_result validate_document_in (os_add p)) (\<lambda>items.
        bind_result (map_result (\<lambda>(i, u). validate_document_update u) (os_update p)) (\<lambda>_.
          Inr (p\<lparr>os_add := items\<rparr>)))))"

section \<open>Helpers of the handlers\<close>

datatype paid_state = Unpaid | Partial | Paid

definition paid_state_of :: "rat \<Rightarrow> rat \<Rightarrow> paid_state" where
  "paid_state_of due paid =
     (if due \<le> 0 \<or> due \<le> paid then Paid else if paid \<le> 0 then Unpaid else Partial)"

definition shows_costs :: "auth_session \<Rightarrow> bool" where
  "shows_costs session = has session REPORTS_PROFIT"

record order_summary =
  sm_id :: int
  sm_number :: int
  sm_status_label :: string
  sm_document_count :: nat
  sm_page_count :: int
  sm_total :: rat
  sm_paid :: rat
  sm_profit :: "rat option"
  sm_paid_state :: paid_state
  sm_is_overdue :: bool

definition summary_from_row :: "order_row \<Rightarrow> date \<Rightarrow> bool \<Rightarrow> order_summary" where
  "summary_from_row row today show_costs =
     (let ord = ro_order row;
          due = ro_documents_total row + o_delivery_cost ord;
          closed = (normalise (ro_status row) \<in> CLOSED_STATUSES)
      in \<lparr>sm_id = o_id ord, sm_number = o_number ord, sm_status_label = get_label (ro_status row),
          sm_document_count = ro_document_count row, sm_page_count = ro_page_count row,
          sm_total = due, sm_paid = ro_paid row,
          sm_profit = (if show_costs then Some (ro_gross_profit row - ro_expenses row) else None),
          sm_paid_state = paid_state_of due (ro_paid row),
          sm_is_overdue = ((case o_due_date ord of None \<Rightarrow> False | Some d \<Rightarrow> d < today) \<and> \<not> closed)\<rparr>)"

definition check_assignees ::
    "auth_session \<Rightarrow> int option \<Rightarrow> int option \<Rightarrow> office \<Rightarrow> translator option result" where
  "check_assignees session translator_id notary_id db =
     bind_result
       (case translator_id of
          None \<Rightarrow> Inr None
        | Some i \<Rightarrow>
            if \<not> has session TRANSLATORS_READ
              then Inl (ValidationError ''Your plan does not include assigning translators.'')
            else (case get_row tr_id i (translators db) of
                    None \<Rightarrow> Inl (ValidationError ''That translator does not exist.'')
                  | Some t \<Rightarrow> Inr (Some t))) (\<lambda>assigned.
       if (case notary_id of None \<Rightarrow> False | Some i \<Rightarrow> get_row no_id i (notaries db) = None)
         then Inl (ValidationError ''That notary does not exist.'')
       else Inr assigned)"

definition translator_default_cost :: "translator option \<Rightarrow> int \<Rightarrow> service_type \<Rightarrow> rat option" where
  "translator_default_cost assigned page_count service =
     (if service = ORAL then None
      else case Option.bind assigned tr_default_rate of
             None \<Rightarrow> None
           | Some rate \<Rightarrow> Some (cents_even (dmul rate (of_int page_count))))"

definition require_rate :: "pricing_context \<Rightarrow> string \<Rightarrow> string \<Rightarrow> bool \<Rightarrow> bool \<Rightarrow> unit result" where
  "require_rate ctx source target has_price oral =
     (if oral then
        if \<not> has_price \<and> ctx_minute_rate ctx source target = None
          then Inl (ValidationError ''No price per minute is set.'') else Inr ()
      else if \<not> has_price \<and> ctx_rate ctx source target = None
        then Inl (ValidationError ''No price is set.'') else Inr ())"

text \<open>The context loaded for a set of document types; ids the code tests for truth drop zero.\<close>

definition office_context :: "auth_session \<Rightarrow> office \<Rightarrow> int list \<Rightarrow> pricing_context" where
  "office_context session db type_ids =
     load_pricing_context (tenant_settings_row db) (language_pairs db) (document_types db)
       (as_plan session) type_ids"

definition truthy_ids :: "int option \<Rightarrow> int list" where
  "truthy_ids i = (case i of None \<Rightarrow> [] | Some n \<Rightarrow> if n = 0 then [] else [n])"

definition unknown_type :: "pricing_context \<Rightarrow> int option \<Rightarrow> bool" where
  "unknown_type ctx i \<longleftrightarrow> (case i of None \<Rightarrow> False | Some n \<Rightarrow> pc_multipliers ctx n = None)"

definition item_price :: "pricing_context \<Rightarrow> urgency \<Rightarrow> document_in \<Rightarrow> price_breakdown" where
  "item_price ctx u item =
     ctx_price ctx (di_document_type_id item) (di_source_language item) (di_target_language item)
       (di_page_count item) (di_copy_type item) u (di_is_notarized item) (di_service_type item)
       (di_character_count item)"

text \<open>\<^verbatim>\<open>item.f if item.f is not None else default\<close>\<close>

definition or_else :: "'a option \<Rightarrow> 'a \<Rightarrow> 'a" where
  "or_else v d = (case v of Some x \<Rightarrow> x | None \<Rightarrow> d)"

definition document_row ::
    "order \<Rightarrow> document_in \<Rightarrow> pricing_context \<Rightarrow> translator option \<Rightarrow> int \<Rightarrow> order_document result" where
  "document_row ord item ctx assigned i =
     (let oral = (di_service_type item = ORAL);
          breakdown = item_price ctx (o_urgency ord) item
      in bind_result (require_rate ctx (di_source_language item) (di_target_language item)
            (di_price_override item \<noteq> None) oral) (\<lambda>_.
         Inr \<lparr>d_id = i, d_order_id = o_id ord, d_document_type_id = di_document_type_id item,
           d_service_type = di_service_type item,
           d_source_language = lower (di_source_language item),
           d_target_language = lower (di_target_language item),
           d_page_count = di_page_count item,
           d_character_count = (if oral then None else di_character_count item),
           d_interpreting_place = (if oral then di_interpreting_place item else None),
           d_interpreting_date = (if oral then di_interpreting_date item else None),
           d_interpreting_time = (if oral then di_interpreting_time item else None),
           d_copy_type = di_copy_type item, d_is_notarized = pb_is_notarized breakdown,
           d_price = or_else (di_price_override item) (pb_price breakdown),
           d_translator_cost = or_else (di_translator_cost_override item)
             (or_else (translator_default_cost assigned (di_page_count item) (di_service_type item))
               (pb_translator_cost breakdown)),
           d_notary_cost = or_else (di_notary_cost_override item) (pb_notary_cost breakdown),
           d_translator_id = di_translator_id item,
           d_notary_id = (if pb_is_notarized breakdown then di_notary_id item else None)\<rparr>))"

fun document_rows ::
    "order \<Rightarrow> pricing_context \<Rightarrow> (document_in \<times> translator option) list \<Rightarrow> int \<Rightarrow> order_document list result" where
  "document_rows ord ctx [] i = Inr []"
| "document_rows ord ctx ((item, assigned) # rest) i =
     bind_result (document_row ord item ctx assigned i) (\<lambda>d.
     bind_result (document_rows ord ctx rest (i + 1)) (\<lambda>ds. Inr (d # ds)))"

definition order_source :: "string option \<Rightarrow> string" where
  "order_source claimed =
     (case claimed of None \<Rightarrow> ''office''
      | Some s \<Rightarrow> if s \<noteq> [] \<and> s \<noteq> ''import'' then s else ''office'')"

definition blank :: "string option \<Rightarrow> bool" where
  "blank v \<longleftrightarrow> or_blank v = []"

text \<open>The number drawn on insert (\<^verbatim>\<open>db/numbering.py\<close>): one above the bureau's highest.\<close>

definition next_number :: "office \<Rightarrow> int" where
  "next_number db = fold max (map o_number (orders db)) 0 + 1"

section \<open>Creating an order\<close>

text \<open>What a request reads beside the bureau's rows: the account and its package, and the time.\<close>

record order_env =
  oe_zone :: zone
  oe_packages :: "package list"
  oe_tenant :: "tenant option"
  oe_now :: instant
  oe_today :: date

definition new_order :: "auth_session \<Rightarrow> order_env \<Rightarrow> order_in \<Rightarrow> client \<Rightarrow> pricing_context \<Rightarrow> office \<Rightarrow> order" where
  "new_order session env p cl ctx db =
     (let day = or_else (oi_order_date p) (oe_today env)
      in \<lparr>o_id = next_id db, o_number = next_number db, o_client_id = oi_client_id p,
          o_order_date = day,
          o_due_date = Some (or_else (oi_due_date p) (day + pc_due_days ctx (oi_urgency p))),
          o_contact_info = (if blank (oi_contact_info p) then cl_phone cl else oi_contact_info p),
          o_identifier = strip_or_none (oi_identifier p), o_urgency = oi_urgency p,
          o_handover_method = oi_handover_method p, o_delivery_address = oi_delivery_address p,
          o_delivery_cost = (if oi_handover_method p = DELIVERY then delivery_fee (pc_config ctx) else 0),
          o_source = Some (order_source (oi_source p)), o_notes = oi_notes p,
          o_translation_instructions = strip_or_none (oi_translation_instructions p),
          o_created_by_user_id = Some (as_user_id session), o_created_at = oe_now env\<rparr>)"

definition insert_order ::
    "auth_session \<Rightarrow> order_env \<Rightarrow> order \<Rightarrow> order_document list \<Rightarrow> office \<Rightarrow> office" where
  "insert_order session env ord rows db =
     (let eid = next_id db + 1 + int (length rows)
      in log_office session ''order.created'' ''order'' (o_id ord)
        (db\<lparr>next_id := eid + 1, orders := orders db @ [ord], documents := documents db @ rows,
            status_events := status_events db @
              [\<lparr>e_id = eid, e_order_id = o_id ord, e_status = INITIAL_STATUS, e_changed_at = oe_now env,
                e_changed_by_user_id = Some (as_user_id session), e_note = None\<rparr>],
            notices := notices db @
              [\<lparr>nt_kind = ''order_created'', nt_audience = Everyone, nt_order_id = Some (o_id ord)\<rparr>]\<rparr>))"

definition create_order :: "auth_session \<Rightarrow> order_env \<Rightarrow> order_in \<Rightarrow> office \<Rightarrow> (int \<times> office) result" where
  "create_order session env payload db =
     bind_result (validate_order_in payload) (\<lambda>p.
     bind_result (case oe_tenant env of None \<Rightarrow> Inr ()
        | Some t \<Rightarrow> ensure_room_for_order (oe_zone env) (oe_packages env) (oe_now env) t db) (\<lambda>_.
     case get_row cl_id (oi_client_id p) (clients db) of
       None \<Rightarrow> Inl (ValidationError ''That client does not exist.'')
     | Some cl \<Rightarrow>
         if oi_handover_method p = DELIVERY \<and> blank (oi_delivery_address p)
           then Inl (ValidationError ''Courier delivery needs a delivery address.'')
         else
           let type_ids = List.map_filter di_document_type_id (oi_documents p);
               ctx = office_context session db type_ids
           in if \<exists>i \<in> set type_ids. pc_multipliers ctx i = None
                then Inl (ValidationError ''Unknown document type(s)'')
              else bind_result (map_result (\<lambda>item.
                  check_assignees session (di_translator_id item) (di_notary_id item) db) (oi_documents p))
                (\<lambda>assigned.
                 let ord = new_order session env p cl ctx db
                 in bind_result (document_rows ord ctx (zip (oi_documents p) assigned) (next_id db + 1))
                   (\<lambda>rows. Inr (o_id ord, insert_order session env ord rows db)))))"


section \<open>Editing an order\<close>

text \<open>The fields that may not be null when they are sent.\<close>

definition order_field_null :: "order_update \<Rightarrow> bool" where
  "order_field_null p \<longleftrightarrow> ou_client_id p = Some None \<or> ou_order_date p = Some None \<or>
     ou_urgency p = Some None \<or> ou_handover_method p = Some None \<or> ou_delivery_cost p = Some None"

definition moves_client :: "order_update \<Rightarrow> order \<Rightarrow> int option" where
  "moves_client p ord =
     (case ou_client_id p of
        Some (Some c) \<Rightarrow> if c = o_client_id ord then None else Some c
      | _ \<Rightarrow> None)"

text \<open>\<^verbatim>\<open>setattr\<close> of a field that was sent, and was sent with a value.\<close>

definition required :: "'a option option \<Rightarrow> 'a \<Rightarrow> 'a" where
  "required v old = (case v of Some (Some x) \<Rightarrow> x | _ \<Rightarrow> old)"

definition apply_order_changes :: "order_update \<Rightarrow> order \<Rightarrow> order" where
  "apply_order_changes p ord = ord\<lparr>
     o_client_id := required (ou_client_id p) (o_client_id ord),
     o_order_date := required (ou_order_date p) (o_order_date ord),
     o_due_date := or_else (ou_due_date p) (o_due_date ord),
     o_contact_info := or_else (ou_contact_info p) (o_contact_info ord),
     o_identifier := or_else (map_option strip_or_none (ou_identifier p)) (o_identifier ord),
     o_urgency := required (ou_urgency p) (o_urgency ord),
     o_handover_method := required (ou_handover_method p) (o_handover_method ord),
     o_delivery_address := or_else (ou_delivery_address p) (o_delivery_address ord),
     o_delivery_cost := required (ou_delivery_cost p) (o_delivery_cost ord),
     o_notes := or_else (ou_notes p) (o_notes ord),
     o_translation_instructions :=
       or_else (map_option strip_or_none (ou_translation_instructions p)) (o_translation_instructions ord)\<rparr>"

definition computed_with :: "bool option \<Rightarrow> order_document \<Rightarrow> pricing_context \<Rightarrow> urgency \<Rightarrow> price_breakdown" where
  "computed_with flag d ctx u =
     ctx_price ctx (d_document_type_id d) (d_source_language d) (d_target_language d)
       (d_page_count d) (d_copy_type d) u flag (d_service_type d) (d_character_count d)"

definition computed :: "order_document \<Rightarrow> pricing_context \<Rightarrow> urgency \<Rightarrow> price_breakdown" where
  "computed d ctx u = computed_with (Some (d_is_notarized d)) d ctx u"

definition reprice :: "pricing_context \<Rightarrow> urgency \<Rightarrow> urgency \<Rightarrow> order_document \<Rightarrow> order_document" where
  "reprice ctx old_urgency urgency d =
     (let was = computed d ctx old_urgency; now = computed d ctx urgency
      in d\<lparr>d_price := (if d_price d = pb_price was then pb_price now else d_price d),
           d_translator_cost := (if d_translator_cost d = pb_translator_cost was
              then pb_translator_cost now else d_translator_cost d),
           d_notary_cost := (if d_notary_cost d = pb_notary_cost was
              then pb_notary_cost now else d_notary_cost d)\<rparr>)"

text \<open>The courier fee follows the handover, unless the caller set it.\<close>

definition edited_header :: "pricing_context \<Rightarrow> order_update \<Rightarrow> order \<Rightarrow> order" where
  "edited_header ctx p ord =
     (let ord1 = apply_order_changes p ord
      in if o_handover_method ord1 \<noteq> o_handover_method ord \<and> ou_delivery_cost p = None
         then ord1\<lparr>o_delivery_cost := (if o_handover_method ord1 = DELIVERY then delivery_fee (pc_config ctx) else 0)\<rparr>
         else ord1)"

definition edit_order :: "auth_session \<Rightarrow> int \<Rightarrow> order_update \<Rightarrow> office \<Rightarrow> office result" where
  "edit_order session oid p db =
     (case get_row o_id oid (orders db) of
        None \<Rightarrow> Inl (NotFoundError ''Order not found.'')
      | Some ord \<Rightarrow>
          if order_field_null p then Inl (ValidationError ''field cannot be empty.'')
          else if (case moves_client p ord of None \<Rightarrow> False | Some c \<Rightarrow> get_row cl_id c (clients db) = None)
            then Inl (ValidationError ''That client does not exist.'')
          else if moves_client p ord \<noteq> None \<and> (\<exists>a \<in> set (client_allocations db). al_target_id a = oid)
            then Inl (ConflictError ''A payment is recorded against this order.'')
          else
            let ctx = office_context session db
                        (concat (map (truthy_ids \<circ> d_document_type_id) (order_documents oid db)));
                edited = edited_header ctx p ord;
                rows = (if o_urgency edited \<noteq> o_urgency ord
                        then update_where (\<lambda>d. d_order_id d = oid)
                               (reprice ctx (o_urgency ord) (o_urgency edited)) (documents db)
                        else documents db)
            in if o_handover_method edited = DELIVERY \<and> blank (o_delivery_address edited)
                 then Inl (ValidationError ''Courier delivery needs a delivery address.'')
               else Inr (log_office session ''order.updated'' ''order'' oid
                 (db\<lparr>orders := update_where (\<lambda>r. o_id r = oid) (\<lambda>_. edited) (orders db),
                     documents := rows\<rparr>)))"

definition update_order :: "auth_session \<Rightarrow> int \<Rightarrow> order_update \<Rightarrow> office \<Rightarrow> office result" where
  "update_order session oid p db = bind_result (validate_order_update p) (\<lambda>_. edit_order session oid p db)"

section \<open>Documents of an order\<close>

definition add_document :: "auth_session \<Rightarrow> int \<Rightarrow> document_in \<Rightarrow> office \<Rightarrow> office result" where
  "add_document session oid item db =
     (case get_row o_id oid (orders db) of
        None \<Rightarrow> Inl (NotFoundError ''Order not found.'')
      | Some ord \<Rightarrow>
          if MAX_DOCUMENTS \<le> document_count oid db
            then Inl (ValidationError ''An order can have at most 50 documents.'')
          else
            let ctx = office_context session db (truthy_ids (di_document_type_id item))
            in if unknown_type ctx (di_document_type_id item)
                 then Inl (ValidationError ''That document type does not exist.'')
               else bind_result (check_assignees session (di_translator_id item) (di_notary_id item) db) (\<lambda>assigned.
                 bind_result (document_row ord item ctx assigned (next_id db)) (\<lambda>row.
                   Inr (log_office session ''order.document_added'' ''order'' oid
                     (db\<lparr>next_id := next_id db + 1, documents := documents db @ [row]\<rparr>)))))"

definition add_order_document :: "auth_session \<Rightarrow> int \<Rightarrow> document_in \<Rightarrow> office \<Rightarrow> office result" where
  "add_order_document session oid payload db =
     bind_result (validate_document_in payload) (\<lambda>item. add_document session oid item db)"

definition document_field_null :: "document_update \<Rightarrow> bool" where
  "document_field_null p \<longleftrightarrow> du_service_type p = Some None \<or> du_source_language p = Some None \<or>
     du_target_language p = Some None \<or> du_page_count p = Some None \<or> du_copy_type p = Some None \<or>
     du_price p = Some None \<or> du_translator_cost p = Some None \<or> du_notary_cost p = Some None"

definition structural_change :: "document_update \<Rightarrow> bool" where
  "structural_change p \<longleftrightarrow> du_document_type_id p \<noteq> None \<or> du_service_type p \<noteq> None \<or>
     du_source_language p \<noteq> None \<or> du_target_language p \<noteq> None \<or> du_page_count p \<noteq> None \<or>
     du_character_count p \<noteq> None \<or> du_copy_type p \<noteq> None \<or> du_is_notarized p \<noteq> None"

text \<open>The notarisation flag, which an edit may set to null, is kept beside the row until the
  engine has derived it (\<open>notarized_flag\<close>).\<close>

definition apply_structure :: "document_update \<Rightarrow> order_document \<Rightarrow> order_document" where
  "apply_structure p d = d\<lparr>
     d_document_type_id := or_else (du_document_type_id p) (d_document_type_id d),
     d_service_type := required (du_service_type p) (d_service_type d),
     d_source_language := required (map_option (map_option lower) (du_source_language p)) (d_source_language d),
     d_target_language := required (map_option (map_option lower) (du_target_language p)) (d_target_language d),
     d_page_count := required (du_page_count p) (d_page_count d),
     d_character_count := or_else (du_character_count p) (d_character_count d),
     d_copy_type := required (du_copy_type p) (d_copy_type d),
     d_translator_id := or_else (du_translator_id p) (d_translator_id d),
     d_notary_id := or_else (du_notary_id p) (d_notary_id d)\<rparr>"


definition place_sent :: "document_update \<Rightarrow> bool" where
  "place_sent p \<longleftrightarrow> du_interpreting_place p \<noteq> None \<or> du_interpreting_date p \<noteq> None \<or> du_interpreting_time p \<noteq> None"

definition apply_place :: "document_update \<Rightarrow> order_document \<Rightarrow> order_document result" where
  "apply_place p d =
     (let place = map_option strip_or_none (du_interpreting_place p)
      in if \<not> place_sent p then Inr d
         else if d_service_type d = ORAL then
           Inr (d\<lparr>d_interpreting_place := or_else place (d_interpreting_place d),
                  d_interpreting_date := or_else (du_interpreting_date p) (d_interpreting_date d),
                  d_interpreting_time := or_else (du_interpreting_time p) (d_interpreting_time d)\<rparr>)
         else if or_else place None \<noteq> None \<or> or_else (du_interpreting_date p) None \<noteq> None \<or>
                 or_else (du_interpreting_time p) None \<noteq> None
           then Inl (ValidationError ''Only an interpreting line has a place.'')
         else Inr d)"

definition clean_kind :: "order_document \<Rightarrow> order_document" where
  "clean_kind d =
     (if d_service_type d = ORAL
      then d\<lparr>d_document_type_id := None, d_copy_type := ORIGINAL, d_is_notarized := False\<rparr>
      else d\<lparr>d_interpreting_place := None, d_interpreting_date := None, d_interpreting_time := None\<rparr>)"

definition notarized_flag :: "document_update \<Rightarrow> order_document \<Rightarrow> bool option" where
  "notarized_flag p d =
     (if d_service_type d = ORAL then Some False
      else if du_copy_type p \<noteq> None \<and> du_is_notarized p = None then Some (copy_is_notarized (d_copy_type d))
      else or_else (du_is_notarized p) (Some (d_is_notarized d)))"

definition restructure ::
    "auth_session \<Rightarrow> document_update \<Rightarrow> urgency \<Rightarrow> translator option \<Rightarrow> office \<Rightarrow> order_document \<Rightarrow> order_document result" where
  "restructure session p u given db d0 =
     (let d = clean_kind d0;
          oral = (d_service_type d = ORAL);
          ctx = office_context session db (truthy_ids (d_document_type_id d))
      in if \<not> oral \<and> d_document_type_id d = None
           then Inl (ValidationError ''A written line needs a document type.'')
         else if unknown_type ctx (d_document_type_id d)
           then Inl (ValidationError ''That document type does not exist.'')
         else bind_result (require_rate ctx (d_source_language d) (d_target_language d) (du_price p \<noteq> None) oral) (\<lambda>_.
           let breakdown = computed_with (notarized_flag p d) d ctx u;
               assigned = (case given of Some t \<Rightarrow> Some t
                 | None \<Rightarrow> Option.bind (d_translator_id d) (\<lambda>i. get_row tr_id i (translators db)))
           in Inr (d\<lparr>d_is_notarized := pb_is_notarized breakdown, d_price := pb_price breakdown,
               d_translator_cost := or_else
                 (translator_default_cost assigned (d_page_count d) (d_service_type d))
                 (pb_translator_cost breakdown),
               d_notary_cost := pb_notary_cost breakdown\<rparr>)))"

definition new_translator_rate :: "document_update \<Rightarrow> translator option \<Rightarrow> order_document \<Rightarrow> order_document" where
  "new_translator_rate p given d =
     (if du_translator_id p \<noteq> None \<and> du_translator_cost p = None \<and> given \<noteq> None
      then d\<lparr>d_translator_cost :=
             or_else (translator_default_cost given (d_page_count d) (d_service_type d)) (d_translator_cost d)\<rparr>
      else d)"

definition explicit_figures :: "document_update \<Rightarrow> order_document \<Rightarrow> order_document" where
  "explicit_figures p d = d\<lparr>d_price := required (du_price p) (d_price d),
     d_translator_cost := required (du_translator_cost p) (d_translator_cost d),
     d_notary_cost := required (du_notary_cost p) (d_notary_cost d)\<rparr>"

definition drop_notary :: "document_update \<Rightarrow> order_document \<Rightarrow> order_document" where
  "drop_notary p d =
     (if d_is_notarized d then d
      else d\<lparr>d_notary_id := None,
             d_notary_cost := (if du_notary_cost p = None then 0 else d_notary_cost d)\<rparr>)"

definition changed_document ::
    "auth_session \<Rightarrow> document_update \<Rightarrow> urgency \<Rightarrow> translator option \<Rightarrow> office \<Rightarrow> order_document \<Rightarrow> order_document result" where
  "changed_document session p u given db d =
     bind_result (apply_place p (apply_structure p d)) (\<lambda>d1.
     bind_result (if structural_change p then restructure session p u given db d1
                  else Inr (new_translator_rate p given d1)) (\<lambda>d2.
       Inr (drop_notary p (explicit_figures p d2))))"

definition edit_document :: "auth_session \<Rightarrow> int \<Rightarrow> int \<Rightarrow> document_update \<Rightarrow> office \<Rightarrow> office result" where
  "edit_document session oid did p db =
     (case get_row d_id did (documents db) of
        None \<Rightarrow> Inl (NotFoundError ''Document not found.'')
      | Some d \<Rightarrow>
          if d_order_id d \<noteq> oid then Inl (NotFoundError ''Document not found.'')
          else case get_row o_id oid (orders db) of
            None \<Rightarrow> Inl (NotFoundError ''Order not found.'')
          | Some ord \<Rightarrow>
              if document_field_null p then Inl (ValidationError ''field cannot be empty.'')
              else bind_result (check_assignees session (or_else (du_translator_id p) None)
                  (or_else (du_notary_id p) None) db) (\<lambda>given.
                bind_result (changed_document session p (o_urgency ord) given db d) (\<lambda>d'.
                  Inr (log_office session ''order.document_updated'' ''order'' oid
                    (db\<lparr>documents := update_where (\<lambda>r. d_id r = did) (\<lambda>_. d') (documents db)\<rparr>)))))"

definition update_order_document :: "auth_session \<Rightarrow> int \<Rightarrow> int \<Rightarrow> document_update \<Rightarrow> office \<Rightarrow> office result" where
  "update_order_document session oid did p db =
     bind_result (validate_document_update p) (\<lambda>_. edit_document session oid did p db)"

definition delete_order_document :: "auth_session \<Rightarrow> int \<Rightarrow> int \<Rightarrow> office \<Rightarrow> office result" where
  "delete_order_document session oid did db =
     (case get_row d_id did (documents db) of
        None \<Rightarrow> Inl (NotFoundError ''Document not found.'')
      | Some d \<Rightarrow>
          if d_order_id d \<noteq> oid then Inl (NotFoundError ''Document not found.'')
          else if document_count oid db \<le> 1
            then Inl (ConflictError ''An order needs at least one document.'')
          else if \<exists>a \<in> set (notary_allocations db). al_target_id a = did
            then Inl (ConflictError ''A notary payment is recorded against this document.'')
          else Inr (log_office session ''order.document_removed'' ''order'' oid
            (db\<lparr>documents := filter (\<lambda>r. d_id r \<noteq> did) (documents db)\<rparr>)))"

text \<open>The ids the save reports as added: those of the order the step brought.\<close>

definition add_step :: "auth_session \<Rightarrow> int \<Rightarrow> document_in \<Rightarrow> int list \<times> office \<Rightarrow> (int list \<times> office) result" where
  "add_step session oid item = (\<lambda>(added, db).
     bind_result (add_document session oid item db) (\<lambda>db'.
       Inr (added @ sorted_list_of_set (set (map d_id (order_documents oid db')) -
              set (map d_id (order_documents oid db))), db')))"

definition save_order :: "auth_session \<Rightarrow> int \<Rightarrow> order_save \<Rightarrow> office \<Rightarrow> (int list \<times> office) result" where
  "save_order session oid payload db =
     bind_result (validate_order_save payload) (\<lambda>p.
     if get_row o_id oid (orders db) = None then Inl (NotFoundError ''Order not found.'')
     else if set (map fst (os_update p)) \<inter> set (os_remove p) \<noteq> {}
       then Inl (ValidationError ''A document cannot be both changed and removed.'')
     else bind_result (case os_header p of None \<Rightarrow> Inr db | Some h \<Rightarrow> edit_order session oid h db) (\<lambda>db1.
       bind_result (fold_result (add_step session oid) (os_add p) ([], db1)) (\<lambda>(added, db2).
       bind_result (fold_result (\<lambda>(did, u) s. if u = no_document_change then Inr s
                                  else edit_document session oid did u s) (os_update p) db2) (\<lambda>db3.
       bind_result (fold_result (delete_order_document session oid) (os_remove p) db3) (\<lambda>db4.
         Inr (added, db4))))))"

section \<open>Status log\<close>

definition resolve_status :: "office \<Rightarrow> string \<Rightarrow> string result" where
  "resolve_status db raw =
     (if is_selectable (Some raw) then Inr (normalise (Some raw))
      else case find (\<lambda>c. co_list_key c = ORDER_STATUS \<and> lower (co_value c) = lower (strip raw)) (custom_options db) of
             None \<Rightarrow> Inl (ValidationError ''Unknown status'')
           | Some c \<Rightarrow> Inr (co_value c))"

definition validate_status_change :: "string \<Rightarrow> string option \<Rightarrow> unit result" where
  "validate_status_change raw note =
     (if raw = [] \<or> 60 < length raw \<or> \<not> at_most 500 note then Inl (ValidationError ''field'') else Inr ())"

text \<open>Who is told: everyone who changed this order's status, and who created it.\<close>

definition involved :: "int \<Rightarrow> order \<Rightarrow> status_event list \<Rightarrow> int list" where
  "involved oid ord events =
     remdups (List.map_filter (\<lambda>e. if e_order_id e = oid then e_changed_by_user_id e else None) events) @
     (case o_created_by_user_id ord of None \<Rightarrow> [] | Some u \<Rightarrow> [u])"

definition change_status ::
    "auth_session \<Rightarrow> instant \<Rightarrow> int \<Rightarrow> string \<Rightarrow> string option \<Rightarrow> office \<Rightarrow> office result" where
  "change_status session now oid raw note db =
     bind_result (validate_status_change raw note) (\<lambda>_.
     case get_row o_id oid (orders db) of
       None \<Rightarrow> Inl (NotFoundError ''Order not found.'')
     | Some ord \<Rightarrow>
         bind_result (resolve_status db raw) (\<lambda>status_value.
           let events = status_events db @
                 [\<lparr>e_id = next_id db, e_order_id = oid, e_status = status_value, e_changed_at = now,
                   e_changed_by_user_id = Some (as_user_id session), e_note = note\<rparr>]
           in Inr (log_office session ''order.status_changed'' ''order'' oid
             (db\<lparr>next_id := next_id db + 1, status_events := events,
                 notices := notices db @
                   [\<lparr>nt_kind = ''status_change'', nt_audience = Users (involved oid ord events),
                     nt_order_id = Some oid\<rparr>]\<rparr>))))"

section \<open>Deleting an order\<close>

definition money_recorded :: "int \<Rightarrow> office \<Rightarrow> bool" where
  "money_recorded oid db \<longleftrightarrow>
     (\<exists>a \<in> set (client_allocations db). al_target_id a = oid) \<or>
     (\<exists>a \<in> set (translator_allocations db). al_target_id a = oid) \<or>
     (\<exists>a \<in> set (notary_allocations db). \<exists>d \<in> set (documents db). d_id d = al_target_id a \<and> d_order_id d = oid) \<or>
     (\<exists>x \<in> set (expenses db). x_order_id x = Some oid)"

definition delete_order :: "auth_session \<Rightarrow> int \<Rightarrow> office \<Rightarrow> office result" where
  "delete_order session oid db =
     (case get_row o_id oid (orders db) of
        None \<Rightarrow> Inl (NotFoundError ''Order not found.'')
      | Some ord \<Rightarrow>
          if money_recorded oid db
            then Inl (ConflictError ''This order has money recorded against it. Set its status to Cancelled instead.'')
          else Inr (log_office session ''order.deleted'' ''order'' oid
            (db\<lparr>orders := filter (\<lambda>r. o_id r \<noteq> oid) (orders db),
                documents := filter (\<lambda>d. d_order_id d \<noteq> oid) (documents db),
                status_events := filter (\<lambda>e. e_order_id e \<noteq> oid) (status_events db)\<rparr>)))"

section \<open>The bureau's own statuses\<close>

fun LIST_PERMISSIONS :: "option_list \<Rightarrow> permission \<times> permission" where
  "LIST_PERMISSIONS ACQUISITION_SOURCE = (CLIENTS_READ, CLIENTS_WRITE)"
| "LIST_PERMISSIONS ORDER_STATUS = (ORDERS_READ, SETTINGS_MANAGE)"

definition MAX_PER_LIST :: nat where "MAX_PER_LIST = 100"

definition validate_option :: "string \<Rightarrow> string result" where
  "validate_option value =
     (if value = [] \<or> 60 < length value then Inl (ValidationError ''field'')
      else if collapse_spaces value = [] then Inl (ValidationError ''Enter a value.'')
      else Inr (collapse_spaces value))"

definition built_in_statuses :: "string list" where
  "built_in_statuses = map (\<lambda>(key, _). normalise (Some key)) STATUS_DEFINITIONS @
     map (\<lambda>(_, label, _). normalise (Some label)) STATUS_DEFINITIONS"

definition add_option :: "auth_session \<Rightarrow> option_list \<Rightarrow> string \<Rightarrow> office \<Rightarrow> (int \<times> office) result" where
  "add_option session list_key raw db =
     bind_result (validate_option raw) (\<lambda>value.
     if \<not> has session (snd (LIST_PERMISSIONS list_key))
       then Inl (PermissionDeniedError ''You do not have permission to change this list.'')
     else if list_key = ORDER_STATUS \<and> normalise (Some value) \<in> set built_in_statuses
       then Inl (ValidationError ''That status already exists.'')
     else case filter (\<lambda>c. co_list_key c = list_key \<and> lower (co_value c) = lower value) (custom_options db) of
       [c] \<Rightarrow> Inr (co_id c, db)
     | [] \<Rightarrow>
         if MAX_PER_LIST \<le> length (filter (\<lambda>c. co_list_key c = list_key) (custom_options db))
           then Inl (ValidationError ''A list can hold at most 100 values.'')
         else Inr (next_id db, db\<lparr>next_id := next_id db + 1, custom_options := custom_options db @
           [\<lparr>co_id = next_id db, co_list_key = list_key, co_value = value\<rparr>]\<rparr>)
     | _ \<Rightarrow> Inl (InternalError ''MultipleResultsFound''))"

definition delete_option :: "auth_session \<Rightarrow> option_list \<Rightarrow> int \<Rightarrow> office \<Rightarrow> office result" where
  "delete_option session list_key option_id db =
     (if \<not> has session SETTINGS_MANAGE
        then Inl (PermissionDeniedError ''You do not have permission to change this list.'')
      else case get_row co_id option_id (custom_options db) of
        None \<Rightarrow> Inl (NotFoundError ''Option not found.'')
      | Some c \<Rightarrow>
          if co_list_key c \<noteq> list_key then Inl (NotFoundError ''Option not found.'')
          else Inr (db\<lparr>custom_options := filter (\<lambda>c. co_id c \<noteq> option_id) (custom_options db)\<rparr>))"


section \<open>What each successful handler does\<close>

lemma validate_order_in_Inr:
  assumes "validate_order_in payload = Inr p"
  shows "oi_documents p \<noteq> []" "length (oi_documents p) \<le> MAX_DOCUMENTS"
    "list_all2 (\<lambda>a b. validate_document_in a = Inr b) (oi_documents payload) (oi_documents p)"
    "oi_urgency p = oi_urgency payload" "oi_handover_method p = oi_handover_method payload"
    "oi_source p = oi_source payload" "oi_client_id p = oi_client_id payload"
  using assms
  by (auto simp: validate_order_in_def map_result_Inr_iff list_all2_lengthD split: if_splits)

lemma document_row_Inr:
  assumes "document_row ord item ctx assigned i = Inr d"
  shows "d_id d = i" "d_order_id d = o_id ord" "d_service_type d = di_service_type item"
    "d_price d = or_else (di_price_override item) (pb_price (item_price ctx (o_urgency ord) item))"
    "d_notary_cost d = or_else (di_notary_cost_override item) (pb_notary_cost (item_price ctx (o_urgency ord) item))"
    "d_translator_cost d = or_else (di_translator_cost_override item)
       (or_else (translator_default_cost assigned (di_page_count item) (di_service_type item))
         (pb_translator_cost (item_price ctx (o_urgency ord) item)))"
    "d_is_notarized d = pb_is_notarized (item_price ctx (o_urgency ord) item)"
    "d_notary_id d = (if pb_is_notarized (item_price ctx (o_urgency ord) item) then di_notary_id item else None)"
  using assms by (auto simp: document_row_def Let_def)

lemma document_rows_Inr:
  assumes "document_rows ord ctx items i = Inr rows"
  shows "list_all2 (\<lambda>(item, assigned) d. \<exists>n. document_row ord item ctx assigned n = Inr d) items rows"
    "map d_id rows = [i..i + int (length items) - 1]" "length rows = length items"
  using assms
proof (induction items arbitrary: i rows)
  case (Cons x items)
  {
    case 1
    then show ?case using Cons.IH(1) by (cases x) (auto simp: bind_result_Inr_iff)
  next
    case 2
    obtain item assigned where x: "x = (item, assigned)" by (cases x)
    with 2 obtain d ds where d: "document_row ord item ctx assigned i = Inr d"
      "document_rows ord ctx items (i + 1) = Inr ds" "rows = d # ds"
      by (auto simp: bind_result_Inr_iff)
    have "map d_id ds = [i + 1..i + int (length items)]" using Cons.IH(2) [OF d(2)] by (simp add: algebra_simps)
    with d document_row_Inr(1) [OF d(1)] show ?case by (simp add: upto_rec1)
  next
    case 3
    then show ?case using Cons.IH(3) by (cases x) (auto simp: bind_result_Inr_iff)
  }
qed simp_all

lemma new_order_simps [simp]:
  "o_id (new_order session env p cl ctx db) = next_id db"
  "o_number (new_order session env p cl ctx db) = next_number db"
  "o_client_id (new_order session env p cl ctx db) = oi_client_id p"
  "o_urgency (new_order session env p cl ctx db) = oi_urgency p"
  "o_source (new_order session env p cl ctx db) = Some (order_source (oi_source p))"
  "o_created_at (new_order session env p cl ctx db) = oe_now env"
  "o_handover_method (new_order session env p cl ctx db) = oi_handover_method p"
  "o_delivery_address (new_order session env p cl ctx db) = oi_delivery_address p"
  "o_delivery_cost (new_order session env p cl ctx db) =
     (if oi_handover_method p = DELIVERY then delivery_fee (pc_config ctx) else 0)"
  by (simp_all add: new_order_def Let_def)

lemma create_order_Inr:
  assumes "create_order session env payload db = Inr (oid, db')"
  obtains p cl ctx assigned rows where
    "validate_order_in payload = Inr p"
    "get_row cl_id (oi_client_id p) (clients db) = Some cl"
    "ctx = office_context session db (List.map_filter di_document_type_id (oi_documents p))"
    "\<forall>i \<in> set (List.map_filter di_document_type_id (oi_documents p)). pc_multipliers ctx i \<noteq> None"
    "list_all2 (\<lambda>item t. check_assignees session (di_translator_id item) (di_notary_id item) db = Inr t)
       (oi_documents p) assigned"
    "document_rows (new_order session env p cl ctx db) ctx (zip (oi_documents p) assigned) (next_id db + 1) = Inr rows"
    "oid = next_id db"
    "db' = insert_order session env (new_order session env p cl ctx db) rows db"
    "oi_handover_method p = DELIVERY \<longrightarrow> \<not> blank (oi_delivery_address p)"
    "case oe_tenant env of None \<Rightarrow> True
       | Some t \<Rightarrow> ensure_room_for_order (oe_zone env) (oe_packages env) (oe_now env) t db = Inr ()"
proof -
  from assms obtain p u where p: "validate_order_in payload = Inr p"
    and room: "(case oe_tenant env of None \<Rightarrow> Inr ()
        | Some t \<Rightarrow> ensure_room_for_order (oe_zone env) (oe_packages env) (oe_now env) t db) = Inr u"
    and rest: "(case get_row cl_id (oi_client_id p) (clients db) of
       None \<Rightarrow> Inl (ValidationError ''That client does not exist.'')
     | Some cl \<Rightarrow>
         if oi_handover_method p = DELIVERY \<and> blank (oi_delivery_address p)
           then Inl (ValidationError ''Courier delivery needs a delivery address.'')
         else
           let type_ids = List.map_filter di_document_type_id (oi_documents p);
               ctx = office_context session db type_ids
           in if \<exists>i \<in> set type_ids. pc_multipliers ctx i = None
                then Inl (ValidationError ''Unknown document type(s)'')
              else bind_result (map_result (\<lambda>item.
                  check_assignees session (di_translator_id item) (di_notary_id item) db) (oi_documents p))
                (\<lambda>assigned.
                 let ord = new_order session env p cl ctx db
                 in bind_result (document_rows ord ctx (zip (oi_documents p) assigned) (next_id db + 1))
                   (\<lambda>rows. Inr (o_id ord, insert_order session env ord rows db)))) = Inr (oid, db')"
    unfolding create_order_def bind_result_Inr_iff by blast
  from rest obtain cl where cl: "get_row cl_id (oi_client_id p) (clients db) = Some cl"
    by (auto split: option.splits)
  let ?ids = "List.map_filter di_document_type_id (oi_documents p)"
  let ?ctx = "office_context session db ?ids"
  from rest cl have addr: "oi_handover_method p = DELIVERY \<longrightarrow> \<not> blank (oi_delivery_address p)"
    by (auto split: if_splits)
  with rest cl have known: "\<forall>i \<in> set ?ids. pc_multipliers ?ctx i \<noteq> None"
    by (auto simp: Let_def split: if_splits)
  with rest cl addr obtain assigned rows where
    "map_result (\<lambda>item. check_assignees session (di_translator_id item) (di_notary_id item) db) (oi_documents p) = Inr assigned"
    "document_rows (new_order session env p cl ?ctx db) ?ctx (zip (oi_documents p) assigned) (next_id db + 1) = Inr rows"
    "oid = next_id db" "db' = insert_order session env (new_order session env p cl ?ctx db) rows db"
    by (auto simp: Let_def split: if_splits)
  then show thesis
    by (intro that [OF p cl refl known _ _ _ _ addr]) (use room in \<open>auto simp: map_result_Inr_iff split: option.splits\<close>)
qed


lemma edited_header_simps [simp]:
  "o_id (edited_header ctx p ord) = o_id ord" "o_number (edited_header ctx p ord) = o_number ord"
  "o_client_id (edited_header ctx p ord) = required (ou_client_id p) (o_client_id ord)"
  "o_urgency (edited_header ctx p ord) = required (ou_urgency p) (o_urgency ord)"
  "o_source (edited_header ctx p ord) = o_source ord" "o_created_at (edited_header ctx p ord) = o_created_at ord"
  by (simp_all add: edited_header_def apply_order_changes_def Let_def)

lemma edit_order_Inr:
  assumes "edit_order session oid p db = Inr db'"
  obtains ord ctx where
    "get_row o_id oid (orders db) = Some ord"
    "ctx = office_context session db (concat (map (truthy_ids \<circ> d_document_type_id) (order_documents oid db)))"
    "case moves_client p ord of None \<Rightarrow> True
       | Some c \<Rightarrow> get_row cl_id c (clients db) \<noteq> None \<and> (\<forall>a \<in> set (client_allocations db). al_target_id a \<noteq> oid)"
    "db' = log_office session ''order.updated'' ''order'' oid
       (db\<lparr>orders := update_where (\<lambda>r. o_id r = oid) (\<lambda>_. edited_header ctx p ord) (orders db),
           documents := (if required (ou_urgency p) (o_urgency ord) \<noteq> o_urgency ord
             then update_where (\<lambda>d. d_order_id d = oid)
               (reprice ctx (o_urgency ord) (required (ou_urgency p) (o_urgency ord))) (documents db)
             else documents db)\<rparr>)"
proof -
  from assms obtain ord where ord: "get_row o_id oid (orders db) = Some ord"
    by (auto simp: edit_order_def split: option.splits)
  show thesis
    by (rule that [OF ord refl]) (use assms ord in
      \<open>auto simp: edit_order_def Let_def split: if_splits option.splits\<close>)
qed

lemma add_document_Inr:
  assumes "add_document session oid item db = Inr db'"
  obtains ord ctx assigned row where
    "get_row o_id oid (orders db) = Some ord" "document_count oid db < MAX_DOCUMENTS"
    "ctx = office_context session db (truthy_ids (di_document_type_id item))"
    "check_assignees session (di_translator_id item) (di_notary_id item) db = Inr assigned"
    "document_row ord item ctx assigned (next_id db) = Inr row"
    "db' = log_office session ''order.document_added'' ''order'' oid
       (db\<lparr>next_id := next_id db + 1, documents := documents db @ [row]\<rparr>)"
  using assms by (auto simp: add_document_def Let_def split: option.splits if_splits)

lemma edit_document_Inr:
  assumes "edit_document session oid did p db = Inr db'"
  obtains d ord given d' where
    "get_row d_id did (documents db) = Some d" "d_order_id d = oid" "get_row o_id oid (orders db) = Some ord"
    "\<not> document_field_null p"
    "check_assignees session (or_else (du_translator_id p) None) (or_else (du_notary_id p) None) db = Inr given"
    "changed_document session p (o_urgency ord) given db d = Inr d'"
    "db' = log_office session ''order.document_updated'' ''order'' oid
       (db\<lparr>documents := update_where (\<lambda>r. d_id r = did) (\<lambda>_. d') (documents db)\<rparr>)"
  using assms by (auto simp: edit_document_def split: option.splits if_splits)

lemma delete_order_document_Inr:
  assumes "delete_order_document session oid did db = Inr db'"
  obtains d where "get_row d_id did (documents db) = Some d" "d_order_id d = oid" "1 < document_count oid db"
    "\<forall>a \<in> set (notary_allocations db). al_target_id a \<noteq> did"
    "db' = log_office session ''order.document_removed'' ''order'' oid
       (db\<lparr>documents := filter (\<lambda>r. d_id r \<noteq> did) (documents db)\<rparr>)"
  using assms by (auto simp: delete_order_document_def split: option.splits if_splits)

lemma change_status_Inr:
  assumes "change_status session now oid raw note db = Inr db'"
  obtains ord st where "get_row o_id oid (orders db) = Some ord" "resolve_status db raw = Inr st"
    "db' = log_office session ''order.status_changed'' ''order'' oid
       (db\<lparr>next_id := next_id db + 1,
           status_events := status_events db @
             [\<lparr>e_id = next_id db, e_order_id = oid, e_status = st, e_changed_at = now,
               e_changed_by_user_id = Some (as_user_id session), e_note = note\<rparr>],
           notices := notices db'\<rparr>)"
  using assms by (auto simp: change_status_def Let_def log_office_def split: option.splits if_splits)

lemma delete_order_Inr:
  assumes "delete_order session oid db = Inr db'"
  obtains ord where "get_row o_id oid (orders db) = Some ord" "\<not> money_recorded oid db"
    "db' = log_office session ''order.deleted'' ''order'' oid
       (db\<lparr>orders := filter (\<lambda>r. o_id r \<noteq> oid) (orders db),
           documents := filter (\<lambda>d. d_order_id d \<noteq> oid) (documents db),
           status_events := filter (\<lambda>e. e_order_id e \<noteq> oid) (status_events db)\<rparr>)"
  using assms by (auto simp: delete_order_def split: option.splits if_splits)

section \<open>Changing the urgency\<close>

lemma computed_frame:
  "computed (d\<lparr>d_price := x, d_translator_cost := y, d_notary_cost := z\<rparr>) ctx u = computed d ctx u"
  by (simp add: computed_def computed_with_def)

text \<open>A figure that was set by hand is not, by chance, what the engine computes at the other urgency.\<close>

definition unambiguous :: "pricing_context \<Rightarrow> urgency \<Rightarrow> urgency \<Rightarrow> order_document \<Rightarrow> bool" where
  "unambiguous ctx u u' d \<longleftrightarrow>
     (d_price d = pb_price (computed d ctx u') \<longrightarrow> d_price d = pb_price (computed d ctx u)) \<and>
     (d_translator_cost d = pb_translator_cost (computed d ctx u') \<longrightarrow>
        d_translator_cost d = pb_translator_cost (computed d ctx u)) \<and>
     (d_notary_cost d = pb_notary_cost (computed d ctx u') \<longrightarrow> d_notary_cost d = pb_notary_cost (computed d ctx u))"

lemma reprice_back:
  assumes "unambiguous ctx u u' d"
  shows "reprice ctx u' u (reprice ctx u u' d) = d"
  using assms by (auto simp: reprice_def Let_def computed_frame unambiguous_def)

definition only_urgency :: "urgency \<Rightarrow> order_update" where
  "only_urgency u = \<lparr>ou_client_id = None, ou_order_date = None, ou_due_date = None, ou_contact_info = None,
     ou_identifier = None, ou_urgency = Some (Some u), ou_handover_method = None, ou_delivery_address = None,
     ou_delivery_cost = None, ou_notes = None, ou_translation_instructions = None\<rparr>"

text \<open>The context an edit of the header loads: it depends on the types of the documents only.\<close>

definition header_context :: "auth_session \<Rightarrow> int \<Rightarrow> office \<Rightarrow> pricing_context" where
  "header_context session oid db =
     office_context session db (concat (map (truthy_ids \<circ> d_document_type_id) (order_documents oid db)))"

lemma only_urgency_header:
  "edited_header ctx (only_urgency u) ord = ord\<lparr>o_urgency := u\<rparr>"
  by (simp add: edited_header_def apply_order_changes_def only_urgency_def required_def or_else_def)

lemma reprice_same [simp]: "reprice ctx u u d = d"
  by (simp add: reprice_def)

lemma reprice_keys [simp]:
  "d_id (reprice ctx u u' d) = d_id d" "d_order_id (reprice ctx u u' d) = d_order_id d"
  "d_document_type_id (reprice ctx u u' d) = d_document_type_id d"
  by (simp_all add: reprice_def Let_def)

lemma update_only_urgency:
  assumes "get_row o_id oid (orders db) = Some ord"
  shows "update_order session oid (only_urgency u) db =
     (if o_handover_method ord = DELIVERY \<and> blank (o_delivery_address ord)
        then Inl (ValidationError ''Courier delivery needs a delivery address.'')
      else Inr (log_office session ''order.updated'' ''order'' oid
        (db\<lparr>orders := update_where (\<lambda>r. o_id r = oid) (\<lambda>_. ord\<lparr>o_urgency := u\<rparr>) (orders db),
            documents := update_where (\<lambda>d. d_order_id d = oid)
              (reprice (header_context session oid db) (o_urgency ord) u) (documents db)\<rparr>)))"
proof -
  have "validate_order_update (only_urgency u) = Inr ()"
    by (simp add: validate_order_update_def only_urgency_def optional_def)
  moreover have "order_field_null (only_urgency u) = False" "moves_client (only_urgency u) ord = None"
    by (simp_all add: order_field_null_def moves_client_def only_urgency_def)
  moreover have "update_where (\<lambda>d. d_order_id d = oid) (reprice ctx u u) ds = ds" for ctx and ds :: "order_document list"
    by (induction ds) auto
  ultimately show ?thesis
    using assms by (auto simp: update_order_def edit_order_def only_urgency_header header_context_def Let_def)
qed

lemma order_documents_repriced:
  "documents db1 = update_where (\<lambda>d. d_order_id d = oid) (reprice ctx u u') (documents db) \<Longrightarrow>
     order_documents oid db1 = map (reprice ctx u u') (order_documents oid db)"
  by (simp add: order_documents_def filter_update_where)

text \<open>C25: changing the urgency re-prices exactly what the engine had priced and can be taken back. Each of a document's
  three figures (price, translator's cost, notary fee) that was the engine's at the old urgency becomes the engine's at the
  new one, each one set by hand stays, and nothing else of the document changes; and going back to the old urgency restores
  the order and all its documents. Both are said of an order no document of which carries a hand-set figure that happens to be the
  engine's at the new urgency.\<close>

theorem urgency_there_and_back:
  assumes "update_order session oid (only_urgency u) db = Inr db1"
    and "get_row o_id oid (orders db) = Some ord" and "distinct (map o_id (orders db))"
    and "\<forall>d \<in> set (order_documents oid db). unambiguous (header_context session oid db) (o_urgency ord) u d"
  shows "(\<forall>d \<in> set (order_documents oid db). \<exists>d1 \<in> set (order_documents oid db1). d_id d1 = d_id d \<and>
       d_price d1 = (if d_price d = pb_price (computed d (header_context session oid db) (o_urgency ord))
          then pb_price (computed d (header_context session oid db) u) else d_price d) \<and>
       d_translator_cost d1 = (if d_translator_cost d = pb_translator_cost (computed d (header_context session oid db) (o_urgency ord))
          then pb_translator_cost (computed d (header_context session oid db) u) else d_translator_cost d) \<and>
       d_notary_cost d1 = (if d_notary_cost d = pb_notary_cost (computed d (header_context session oid db) (o_urgency ord))
          then pb_notary_cost (computed d (header_context session oid db) u) else d_notary_cost d) \<and>
       d1\<lparr>d_price := d_price d, d_translator_cost := d_translator_cost d, d_notary_cost := d_notary_cost d\<rparr> = d) \<and>
     (\<exists>db2. update_order session oid (only_urgency (o_urgency ord)) db1 = Inr db2 \<and>
        orders db2 = orders db \<and> documents db2 = documents db)"
proof (intro conjI ballI)
  let ?ctx = "header_context session oid db"
  from assms(1) have db1: "orders db1 = update_where (\<lambda>r. o_id r = oid) (\<lambda>_. ord\<lparr>o_urgency := u\<rparr>) (orders db)"
    "documents db1 = update_where (\<lambda>d. d_order_id d = oid) (reprice ?ctx (o_urgency ord) u) (documents db)"
    "tenant_settings_row db1 = tenant_settings_row db" "language_pairs db1 = language_pairs db"
    "document_types db1 = document_types db" "\<not> (o_handover_method ord = DELIVERY \<and> blank (o_delivery_address ord))"
    by (auto simp: update_only_urgency [OF assms(2)] log_office_def split: if_splits)
  note docs1 = order_documents_repriced [OF db1(2)]
  {
    fix d assume "d \<in> set (order_documents oid db)"
    then show "\<exists>d1 \<in> set (order_documents oid db1). d_id d1 = d_id d \<and>
       d_price d1 = (if d_price d = pb_price (computed d ?ctx (o_urgency ord))
          then pb_price (computed d ?ctx u) else d_price d) \<and>
       d_translator_cost d1 = (if d_translator_cost d = pb_translator_cost (computed d ?ctx (o_urgency ord))
          then pb_translator_cost (computed d ?ctx u) else d_translator_cost d) \<and>
       d_notary_cost d1 = (if d_notary_cost d = pb_notary_cost (computed d ?ctx (o_urgency ord))
          then pb_notary_cost (computed d ?ctx u) else d_notary_cost d) \<and>
       d1\<lparr>d_price := d_price d, d_translator_cost := d_translator_cost d, d_notary_cost := d_notary_cost d\<rparr> = d"
      unfolding docs1 by (intro bexI [of _ "reprice ?ctx (o_urgency ord) u d"]) (auto simp: reprice_def Let_def)
  }
  have ctx: "header_context session oid db1 = ?ctx"
    by (simp add: header_context_def office_context_def db1 docs1 comp_def)
  have oid: "o_id ord = oid" and mem: "ord \<in> set (orders db)" using get_row_SomeD [OF assms(2)] by auto
  have "get_row o_id oid (orders db1) = Some (ord\<lparr>o_urgency := u\<rparr>)"
    unfolding db1(1) using assms(2) oid by (simp add: get_row_replaced)
  note again = update_only_urgency [OF this, of session "o_urgency ord", unfolded ctx]
  have "update_where (\<lambda>r. o_id r = oid) (\<lambda>_. ord) (orders db1) = orders db"
    using replace_back [OF assms(3) mem, of "ord\<lparr>o_urgency := u\<rparr>"] oid by (simp add: db1(1))
  moreover have "update_where (\<lambda>d. d_order_id d = oid) (reprice ?ctx u (o_urgency ord)) (documents db1) = documents db"
    unfolding db1(2) update_where_def using assms(4)
    by (auto intro!: map_idI reprice_back simp: order_documents_def)
  ultimately show "\<exists>db2. update_order session oid (only_urgency (o_urgency ord)) db1 = Inr db2 \<and>
        orders db2 = orders db \<and> documents db2 = documents db"
    using again db1(6) by simp
qed

section \<open>Editing a document\<close>

lemma apply_place_keys:
  assumes "apply_place p d = Inr d'"
  shows "d_id d' = d_id d" "d_order_id d' = d_order_id d" "d_service_type d' = d_service_type d"
    "d_translator_id d' = d_translator_id d" "d_document_type_id d' = d_document_type_id d"
    "d_copy_type d' = d_copy_type d" "d_is_notarized d' = d_is_notarized d" "d_notary_id d' = d_notary_id d"
    "d_page_count d' = d_page_count d"
    "d_price d' = d_price d" "d_translator_cost d' = d_translator_cost d" "d_notary_cost d' = d_notary_cost d"
  using assms by (auto simp: apply_place_def Let_def split: if_splits)

lemma clean_kind_keys [simp]:
  "d_id (clean_kind d) = d_id d" "d_order_id (clean_kind d) = d_order_id d"
  "d_service_type (clean_kind d) = d_service_type d" "d_translator_id (clean_kind d) = d_translator_id d"
  "d_notary_id (clean_kind d) = d_notary_id d" "d_page_count (clean_kind d) = d_page_count d"
  by (simp_all add: clean_kind_def)

text \<open>The row a restructuring leaves, and the context it was priced in.\<close>

lemma restructure_Inr:
  fixes d0
  defines "d \<equiv> clean_kind d0"
  assumes "restructure session p u given db d0 = Inr d'"
  defines "ctx \<equiv> office_context session db (truthy_ids (d_document_type_id d))"
  shows "d_service_type d = WRITTEN \<longrightarrow> d_document_type_id d \<noteq> None"
    "\<not> unknown_type ctx (d_document_type_id d)"
    "require_rate ctx (d_source_language d) (d_target_language d) (du_price p \<noteq> None) (d_service_type d = ORAL) = Inr ()"
    "d' = d\<lparr>d_is_notarized := pb_is_notarized (computed_with (notarized_flag p d) d ctx u),
       d_price := pb_price (computed_with (notarized_flag p d) d ctx u),
       d_translator_cost := or_else
         (translator_default_cost (case given of Some t \<Rightarrow> Some t
            | None \<Rightarrow> Option.bind (d_translator_id d) (\<lambda>i. get_row tr_id i (translators db)))
            (d_page_count d) (d_service_type d))
         (pb_translator_cost (computed_with (notarized_flag p d) d ctx u)),
       d_notary_cost := pb_notary_cost (computed_with (notarized_flag p d) d ctx u)\<rparr>"
  using assms(2) unfolding restructure_def Let_def d_def [symmetric] ctx_def [symmetric]
  by (cases "d_service_type d"; auto split: if_splits)+

text \<open>Telling the engine the notarisation it derived changes nothing.\<close>

lemma price_notarized_again:
  "price_document (doc\<lparr>dp_is_notarized := Some (pb_is_notarized (price_document doc cfg))\<rparr>) cfg = price_document doc cfg"
  by (simp add: price_document_def Let_def price_oral_def price_written_def notarized_def raw_notary_def
      raw_certification_def raw_translation_def base_rate_def billed_pages_def standard_pages_of_def)

lemma computed_again:
  "computed_with (Some (pb_is_notarized (computed_with flag d ctx u))) d ctx u = computed_with flag d ctx u"
  unfolding computed_with_def ctx_price_def
  using price_notarized_again [of "\<lparr>dp_page_count = d_page_count d,
      dp_base_rate_per_page = ctx_rate ctx (d_source_language d) (d_target_language d),
      dp_document_type_multiplier = (case d_document_type_id d of None \<Rightarrow> 1
         | Some i \<Rightarrow> (case pc_multipliers ctx i of None \<Rightarrow> 1 | Some m \<Rightarrow> m)),
      dp_copy_type = d_copy_type d, dp_urgency = u, dp_is_notarized = flag, dp_service_type = d_service_type d,
      dp_base_rate_per_minute = ctx_minute_rate ctx (d_source_language d) (d_target_language d),
      dp_character_count = d_character_count d, dp_characters_per_page = pc_characters_per_page ctx\<rparr>" "pc_config ctx"]
  by simp

text \<open>The same line as a request to add it, with no figure given.\<close>

definition line_of :: "order_document \<Rightarrow> document_in" where
  "line_of d = \<lparr>di_document_type_id = d_document_type_id d, di_service_type = d_service_type d,
     di_source_language = d_source_language d, di_target_language = d_target_language d,
     di_page_count = d_page_count d, di_character_count = d_character_count d, di_copy_type = d_copy_type d,
     di_is_notarized = Some (d_is_notarized d), di_translator_id = d_translator_id d,
     di_notary_id = d_notary_id d, di_interpreting_place = d_interpreting_place d,
     di_interpreting_date = d_interpreting_date d, di_interpreting_time = d_interpreting_time d,
     di_price_override = None, di_translator_cost_override = None, di_notary_cost_override = None\<rparr>"

definition assigned_translator :: "order_document \<Rightarrow> office \<Rightarrow> translator option" where
  "assigned_translator d db = Option.bind (d_translator_id d) (\<lambda>i. get_row tr_id i (translators db))"

lemma item_price_line: "item_price ctx u (line_of d) = computed d ctx u"
  by (simp add: item_price_def line_of_def computed_def computed_with_def)

lemma unnotarized_free: "\<not> pb_is_notarized (computed_with flag d ctx u) \<Longrightarrow> pb_notary_cost (computed_with flag d ctx u) = 0"
  by (auto simp: computed_with_def ctx_price_def price_document_def price_oral_def price_written_def Let_def
      raw_notary_def money_of_cents split: if_splits)

lemma given_assigned:
  assumes "check_assignees session (or_else v None) n db = Inr given"
  shows "(case given of Some t \<Rightarrow> Some t | None \<Rightarrow> Option.bind (or_else v old) (\<lambda>i. get_row tr_id i (translators db))) =
     Option.bind (or_else v old) (\<lambda>i. get_row tr_id i (translators db))"
  using assms by (auto simp: check_assignees_def or_else_def split: option.splits if_splits)

lemma changed_document_keys:
  assumes "changed_document session p u given db d = Inr d'"
  shows "d_id d' = d_id d" "d_order_id d' = d_order_id d"
proof -
  from assms obtain d1 d2 where 1: "apply_place p (apply_structure p d) = Inr d1"
    and 2: "(if structural_change p then restructure session p u given db d1 else Inr (new_translator_rate p given d1)) = Inr d2"
    and 3: "d' = drop_notary p (explicit_figures p d2)"
    by (auto simp: changed_document_def bind_result_Inr_iff)
  have "d_id d2 = d_id d1 \<and> d_order_id d2 = d_order_id d1"
    using 2 by (auto simp: new_translator_rate_def dest!: restructure_Inr(4) split: if_splits)
  with apply_place_keys(1,2) [OF 1] 3 show "d_id d' = d_id d" "d_order_id d' = d_order_id d"
    by (simp_all add: drop_notary_def explicit_figures_def apply_structure_def)
qed

lemma restructured_document:
  assumes "changed_document session p u given db d = Inr d'" and "structural_change p"
    and "du_price p = None" "du_translator_cost p = None" "du_notary_cost p = None"
    and "check_assignees session (or_else (du_translator_id p) None) (or_else (du_notary_id p) None) db = Inr given"
  defines "ctx \<equiv> office_context session db (truthy_ids (d_document_type_id d'))"
  shows "require_rate ctx (d_source_language d') (d_target_language d') False (d_service_type d' = ORAL) = Inr ()"
    "d_is_notarized d' = pb_is_notarized (computed d' ctx u)" "d_price d' = pb_price (computed d' ctx u)"
    "d_notary_cost d' = pb_notary_cost (computed d' ctx u)"
    "d_translator_cost d' = or_else
       (translator_default_cost (assigned_translator d' db) (d_page_count d') (d_service_type d'))
       (pb_translator_cost (computed d' ctx u))"
    "\<not> d_is_notarized d' \<longrightarrow> d_notary_id d' = None" "\<not> unknown_type ctx (d_document_type_id d')"
    "d_service_type d' = ORAL \<longrightarrow> d_document_type_id d' = None"
proof -
  from assms(1,2) obtain d1 d2 where 1: "apply_place p (apply_structure p d) = Inr d1"
    and 2: "restructure session p u given db d1 = Inr d2"
    and "d' = drop_notary p (explicit_figures p d2)"
    by (auto simp: changed_document_def bind_result_Inr_iff)
  then have d': "d' = (if d_is_notarized d2 then d2 else d2\<lparr>d_notary_id := None, d_notary_cost := 0\<rparr>)"
    using assms(3-5) by (simp add: drop_notary_def explicit_figures_def required_def)
  let ?c = "clean_kind d1"
  note r = restructure_Inr [OF 2]
  have types: "d_document_type_id d' = d_document_type_id ?c" "d_source_language d' = d_source_language ?c"
    "d_target_language d' = d_target_language ?c" "d_service_type d' = d_service_type ?c"
    "d_page_count d' = d_page_count ?c" "d_translator_id d' = d_translator_id ?c"
    by (simp_all add: d' r(4))
  have ctx: "ctx = office_context session db (truthy_ids (d_document_type_id ?c))"
    by (simp add: ctx_def types)
  let ?b = "computed_with (notarized_flag p ?c) ?c ctx u"
  have flag: "d_is_notarized d' = pb_is_notarized ?b" by (simp add: d' r(4) ctx)
  have "computed_with f d' ctx u = computed_with f ?c ctx u" for f
    unfolding computed_with_def types by (simp add: d' r(4))
  then have "computed d' ctx u = computed_with (Some (pb_is_notarized ?b)) ?c ctx u"
    unfolding computed_def flag by simp
  then have b: "computed d' ctx u = ?b" by (simp add: computed_again)
  have tid: "d_translator_id d1 = or_else (du_translator_id p) (d_translator_id d)"
    by (simp add: apply_place_keys [OF 1] apply_structure_def)
  have given: "(case given of Some t \<Rightarrow> Some t | None \<Rightarrow> Option.bind (d_translator_id ?c) (\<lambda>i. get_row tr_id i (translators db)))
      = assigned_translator d' db"
    unfolding assigned_translator_def types clean_kind_keys tid
    by (rule given_assigned [OF assms(6)])
  show "require_rate ctx (d_source_language d') (d_target_language d') False (d_service_type d' = ORAL) = Inr ()"
    using r(3) assms(3) by (simp add: types ctx)
  show "d_is_notarized d' = pb_is_notarized (computed d' ctx u)" by (simp add: flag b)
  show "d_price d' = pb_price (computed d' ctx u)" unfolding b by (simp add: d' r(4) ctx)
  show "d_notary_cost d' = pb_notary_cost (computed d' ctx u)"
    unfolding b using unnotarized_free [of "notarized_flag p ?c" ?c ctx u] by (simp add: d' r(4) ctx)
  show "d_translator_cost d' = or_else
       (translator_default_cost (assigned_translator d' db) (d_page_count d') (d_service_type d'))
       (pb_translator_cost (computed d' ctx u))"
    unfolding b given [symmetric] by (simp add: d' r(4) ctx)
  show "\<not> d_is_notarized d' \<longrightarrow> d_notary_id d' = None" by (simp add: d' r(4))
  show "\<not> unknown_type ctx (d_document_type_id d')" using r(2) by (simp add: types ctx)
  show "d_service_type d' = ORAL \<longrightarrow> d_document_type_id d' = None" by (simp add: types clean_kind_def)
qed

text \<open>A line that passes the checks of a new one is priced as it stands: what the checks drop from an interpreting line, its
  character count, has no part in its price.\<close>

lemma validated_line:
  assumes "validate_document_in (line_of d) = Inr item" and "d_service_type d = ORAL \<longrightarrow> d_document_type_id d = None"
  shows "di_document_type_id item = d_document_type_id d" "di_service_type item = d_service_type d"
    "di_source_language item = d_source_language d" "di_target_language item = d_target_language d"
    "di_page_count item = d_page_count d" "di_translator_id item = d_translator_id d" "di_notary_id item = d_notary_id d"
    "di_price_override item = None" "di_translator_cost_override item = None" "di_notary_cost_override item = None"
    "item_price ctx u item = computed d ctx u"
proof -
  have kind: "kind_rules (line_of d) = Inr item" using assms(1) by (simp add: validate_document_in_def split: if_splits)
  then show "di_document_type_id item = d_document_type_id d" "di_service_type item = d_service_type d"
    "di_source_language item = d_source_language d" "di_target_language item = d_target_language d"
    "di_page_count item = d_page_count d" "di_translator_id item = d_translator_id d" "di_notary_id item = d_notary_id d"
    "di_price_override item = None" "di_translator_cost_override item = None" "di_notary_cost_override item = None"
    using assms(2) by (cases "d_service_type d"; auto simp: kind_rules_def line_of_def split: if_splits)+
  have "item_price ctx u item = item_price ctx u (line_of d)"
  proof (cases "d_service_type d")
    case WRITTEN
    then show ?thesis using kind by (auto simp: kind_rules_def line_of_def split: if_splits)
  next
    case ORAL
    then show ?thesis
      using kind by (auto simp: kind_rules_def line_of_def item_price_def ctx_price_def price_document_def price_oral_def Let_def
          split: if_splits)
  qed
  then show "item_price ctx u item = computed d ctx u" by (simp add: item_price_line)
qed

lemma assignees_of_line:
  assumes "check_assignees session (d_translator_id d) n db = Inr assigned"
  shows "assigned = assigned_translator d db"
  using assms by (auto simp: check_assignees_def assigned_translator_def split: option.splits if_splits)

text \<open>C22: a line that was changed is priced like a new one. After an edit of what is being translated, with no figure
  sent along, add the same line afresh to the same order, again without figures: the new line has the same price, translator's
  cost, notary fee, notarisation and notary. And it is added whenever the order has room for one more (fifty is the limit),
  the line passes the checks on a new one, and the caller may assign its translator and notary; the document type and the
  bureau's rate never stand in the way.\<close>

theorem edited_line_priced_afresh:
  assumes "update_order_document session oid did p db = Inr db'" and "structural_change p"
    and "du_price p = None" "du_translator_cost p = None" "du_notary_cost p = None"
    and "get_row d_id did (documents db') = Some d'"
  shows "(\<forall>db''. add_order_document session oid (line_of d') db' = Inr db'' \<longrightarrow>
      (\<exists>row. documents db'' = documents db' @ [row] \<and> d_order_id row = oid \<and>
         d_price row = d_price d' \<and> d_translator_cost row = d_translator_cost d' \<and>
         d_notary_cost row = d_notary_cost d' \<and> d_is_notarized row = d_is_notarized d' \<and> d_notary_id row = d_notary_id d')) \<and>
    ((\<exists>db''. add_order_document session oid (line_of d') db' = Inr db'') \<longleftrightarrow>
       document_count oid db' < 50 \<and> (\<exists>item. validate_document_in (line_of d') = Inr item) \<and>
       (\<exists>given. check_assignees session (d_translator_id d') (d_notary_id d') db' = Inr given))"
proof -
  obtain d ord given e where d: "get_row d_id did (documents db) = Some d" "get_row o_id oid (orders db) = Some ord"
    "check_assignees session (or_else (du_translator_id p) None) (or_else (du_notary_id p) None) db = Inr given"
    "changed_document session p (o_urgency ord) given db d = Inr e"
    "db' = log_office session ''order.document_updated'' ''order'' oid
       (db\<lparr>documents := update_where (\<lambda>r. d_id r = did) (\<lambda>_. e) (documents db)\<rparr>)"
    using assms(1) by (auto simp: update_order_document_def elim!: edit_document_Inr)
  have "d_id e = did" using changed_document_keys [OF d(4)] get_row_SomeD [OF d(1)] by simp
  with d(1,5) assms(6) have "e = d'" by (simp add: get_row_replaced log_office_def)
  note same = restructured_document [OF d(4) assms(2-5) d(3), unfolded this]
  have db': "get_row o_id oid (orders db') = Some ord" "office_context session db' = office_context session db"
    "assigned_translator d' db' = assigned_translator d' db"
    by (simp_all add: d(2,5) log_office_def office_context_def assigned_translator_def fun_eq_iff)
  have oid: "o_id ord = oid" using get_row_SomeD [OF d(2)] by simp
  let ?ctx = "office_context session db (truthy_ids (d_document_type_id d'))"
  have row: "document_row ord item ?ctx (assigned_translator d' db) n = Inr row \<Longrightarrow> d_order_id row = oid \<and>
      d_price row = d_price d' \<and> d_translator_cost row = d_translator_cost d' \<and>
      d_notary_cost row = d_notary_cost d' \<and> d_is_notarized row = d_is_notarized d' \<and> d_notary_id row = d_notary_id d'"
    and made: "\<exists>row. document_row ord item ?ctx (assigned_translator d' db) n = Inr row"
    if "validate_document_in (line_of d') = Inr item" for item n row
  proof -
    note line = validated_line [OF that same(8)]
    show "d_order_id row = oid \<and>
      d_price row = d_price d' \<and> d_translator_cost row = d_translator_cost d' \<and>
      d_notary_cost row = d_notary_cost d' \<and> d_is_notarized row = d_is_notarized d' \<and> d_notary_id row = d_notary_id d'"
      if "document_row ord item ?ctx (assigned_translator d' db) n = Inr row"
      using document_row_Inr [OF that] same(2-6) by (simp add: line oid or_else_def [of None])
    show "\<exists>row. document_row ord item ?ctx (assigned_translator d' db) n = Inr row"
      using same(1) by (simp add: document_row_def Let_def line)
  qed
  have added: "add_order_document session oid (line_of d') db' = Inr db'' \<longleftrightarrow> document_count oid db' < 50 \<and>
      (\<exists>item row. validate_document_in (line_of d') = Inr item \<and>
        (\<exists>given. check_assignees session (d_translator_id d') (d_notary_id d') db' = Inr given) \<and>
        document_row ord item ?ctx (assigned_translator d' db) (next_id db') = Inr row \<and>
        db'' = log_office session ''order.document_added'' ''order'' oid
          (db'\<lparr>next_id := next_id db' + 1, documents := documents db' @ [row]\<rparr>))" for db''
  proof (cases "validate_document_in (line_of d')")
    case (Inr item)
    note line = validated_line [OF Inr same(8)]
    show ?thesis
    proof (cases "check_assignees session (d_translator_id d') (d_notary_id d') db'")
      case assigned: (Inr t)
      with assignees_of_line [OF this] db'(3) have "check_assignees session (d_translator_id d') (d_notary_id d') db' =
          Inr (assigned_translator d' db)" by simp
      then show ?thesis
        using Inr same(7)
        by (auto simp: add_order_document_def add_document_def db'(1,2) line MAX_DOCUMENTS_def Let_def bind_result_Inr_iff)
    qed (use Inr same(7) in \<open>auto simp: add_order_document_def add_document_def db'(1,2) line Let_def\<close>)
  qed (simp add: add_order_document_def)
  show ?thesis unfolding added using row made by (auto simp: log_office_def)
qed

section \<open>The package\<close>

lemma ensure_room_Inr:
  assumes "ensure_room_for_order tz pkgs now t db = Inr ()"
  obtains pk w where "package_for pkgs t = Some pk" "month_window tz (current_period tz now) = Inr w"
    "count_in db w < pk_orders_included pk"
proof -
  from assms obtain pk n where pk: "package_for pkgs t = Some pk" "count_orders tz (current_period tz now) db = Inr n"
    "\<not> q_blocked (quote pk n)"
    by (auto simp: ensure_room_for_order_def month_of_def split: option.splits if_splits)
  then obtain w where "month_window tz (current_period tz now) = Inr w" "n = count_in db w"
    by (auto simp: count_orders_def)
  with pk that show thesis by (auto simp: quote_def Let_def q_blocked_def level_of_def split: if_splits)
qed

lemma latest_status_other:
  "status_events db' = status_events db @ [e] \<Longrightarrow> e_order_id e \<noteq> oid \<Longrightarrow> latest_status oid db' = latest_status oid db"
  by (simp add: latest_status_def latest_event_append)

lemma latest_status_first:
  assumes "status_events db' = status_events db @ [e]" and "\<forall>x \<in> set (status_events db). e_order_id x \<noteq> e_order_id e"
  shows "latest_status (e_order_id e) db' = Some (e_status e)"
proof -
  have "filter (\<lambda>x. e_order_id x = e_order_id e) (status_events db) = []"
    using assms(2) by (auto simp: filter_empty_conv)
  then have "latest_event (e_order_id e) (status_events db) = None" by (simp add: latest_event_def)
  then show ?thesis by (simp add: latest_status_def assms(1) latest_event_append later_event_def)
qed

lemma order_source_not_import [simp]: "order_source c \<noteq> ''import''"
  by (auto simp: order_source_def split: option.split)

lemma insert_order_frame [simp]:
  "orders (insert_order session env ord rows db) = orders db @ [ord]"
  "documents (insert_order session env ord rows db) = documents db @ rows"
  "status_events (insert_order session env ord rows db) = status_events db @
     [\<lparr>e_id = next_id db + 1 + int (length rows), e_order_id = o_id ord, e_status = INITIAL_STATUS,
       e_changed_at = oe_now env, e_changed_by_user_id = Some (as_user_id session), e_note = None\<rparr>]"
  "next_id (insert_order session env ord rows db) = next_id db + 2 + int (length rows)"
  "clients (insert_order session env ord rows db) = clients db"
  "translators (insert_order session env ord rows db) = translators db"
  "notaries (insert_order session env ord rows db) = notaries db"
  "client_payments (insert_order session env ord rows db) = client_payments db"
  "client_allocations (insert_order session env ord rows db) = client_allocations db"
  "translator_payments (insert_order session env ord rows db) = translator_payments db"
  "translator_allocations (insert_order session env ord rows db) = translator_allocations db"
  "notary_payments (insert_order session env ord rows db) = notary_payments db"
  "notary_allocations (insert_order session env ord rows db) = notary_allocations db"
  "expenses (insert_order session env ord rows db) = expenses db"
  "custom_options (insert_order session env ord rows db) = custom_options db"
  by (simp_all add: insert_order_def Let_def)

text \<open>C17: an account never creates more orders in a month than its package includes. A created order
  found room before it, counts as one in its month (a caller cannot pass it off as imported)
  and leaves the month's count within the package; and while there is no room every valid
  request is refused as over the package, before anything else is looked at.\<close>

theorem create_order_within_package:
  assumes "oe_tenant env = Some t" and "package_for (oe_packages env) t = Some pk"
    and "month_window (oe_zone env) (current_period (oe_zone env) (oe_now env)) = Inr w"
    and "fst w \<le> oe_now env" "oe_now env < snd w"
    and "\<forall>ord \<in> set (orders db). o_id ord < next_id db" "\<forall>e \<in> set (status_events db). e_order_id e < next_id db"
  shows "(\<forall>oid db'. create_order session env payload db = Inr (oid, db') \<longrightarrow>
      count_in db' w = count_in db w + 1 \<and> count_in db' w \<le> pk_orders_included pk) \<and>
    (pk_orders_included pk \<le> count_in db w \<longrightarrow> (\<exists>e. create_order session env payload db = Inl e \<and>
      (validate_order_in payload = Inl e \<or> status_code e = 402)))"
proof (intro conjI allI impI)
  fix oid db' assume "create_order session env payload db = Inr (oid, db')"
  then obtain p cl ctx rows where
    db': "db' = insert_order session env (new_order session env p cl ctx db) rows db"
    and room: "ensure_room_for_order (oe_zone env) (oe_packages env) (oe_now env) t db = Inr ()"
    by (rule create_order_Inr) (simp add: assms(1))
  let ?ord = "new_order session env p cl ctx db"
  have old: "order_counts db' w ord = order_counts db w ord" if "ord \<in> set (orders db)" for ord
  proof -
    have "o_id ord \<noteq> next_id db" using assms(6) that by force
    then have "latest_status (o_id ord) db' = latest_status (o_id ord) db"
      by (intro latest_status_other) (auto simp: db')
    then show ?thesis by (simp add: order_counts_def)
  qed
  have "latest_status (o_id ?ord) db' = Some INITIAL_STATUS"
    using latest_status_first [of db' db "\<lparr>e_id = next_id db + 1 + int (length rows), e_order_id = o_id ?ord,
       e_status = INITIAL_STATUS, e_changed_at = oe_now env, e_changed_by_user_id = Some (as_user_id session), e_note = None\<rparr>"]
      assms(7) by (force simp: db')
  then have "order_counts db' w ?ord"
    using assms(4,5) by (simp add: order_counts_def INITIAL_STATUS_def EXCLUDED_FROM_AGGREGATES_def)
  moreover have "filter (order_counts db' w) (orders db) = filter (order_counts db w) (orders db)"
    using old by (intro filter_cong) auto
  ultimately show n: "count_in db' w = count_in db w + 1" by (simp add: count_in_def db')
  from room assms(2,3) show "count_in db' w \<le> pk_orders_included pk"
    unfolding n by (auto elim!: ensure_room_Inr)
next
  assume "pk_orders_included pk \<le> count_in db w"
  then have "ensure_room_for_order (oe_zone env) (oe_packages env) (oe_now env) t db =
      Inl (PackageLimitError ''All orders of this month's package are used.'')"
    using assms(2,3) by (simp add: ensure_room_for_order_def month_of_def count_orders_def quote_def Let_def
        q_blocked_def level_of_def)
  then show "\<exists>e. create_order session env payload db = Inl e \<and>
      (validate_order_in payload = Inl e \<or> status_code e = 402)"
    by (cases "validate_order_in payload") (simp_all add: create_order_def assms(1))
qed

section \<open>Which statuses an order can have\<close>

text \<open>The bureau's own statuses never stand for a built-in one.\<close>

definition options_ok :: "office \<Rightarrow> bool" where
  "options_ok db \<longleftrightarrow> (\<forall>c \<in> set (custom_options db). co_list_key c = ORDER_STATUS \<longrightarrow>
     normalise (Some (co_value c)) \<notin> set built_in_statuses)"

lemma add_option_ok:
  assumes "add_option session key raw db = Inr (n, db')" and "options_ok db"
  shows "options_ok db'"
  using assms
  by (auto simp: add_option_def options_ok_def split: if_splits list.splits)

lemma delete_option_ok:
  "delete_option session key i db = Inr db' \<Longrightarrow> options_ok db \<Longrightarrow> options_ok db'"
  by (auto simp: delete_option_def options_ok_def split: if_splits option.splits)

lemma selectable_counts: "normalise (Some raw) \<in> set SELECTABLE_STATUSES \<Longrightarrow> normalise (Some raw) \<notin> EXCLUDED_FROM_AGGREGATES"
  by (auto simp: SELECTABLE_STATUSES_def EXCLUDED_FROM_AGGREGATES_def)

lemma excluded_built_in: "EXCLUDED_FROM_AGGREGATES \<subseteq> set built_in_statuses"
  by (auto simp: EXCLUDED_FROM_AGGREGATES_def built_in_statuses_def STATUS_DEFINITIONS_def normalise_def
      or_blank_def strip_def is_space_def lower_def lower_char_def)

lemma find_SomeD: "find P xs = Some x \<Longrightarrow> x \<in> set xs \<and> P x"
  by (induction xs) (auto split: if_splits)

lemma resolved_status_counts:
  assumes "resolve_status db raw = Inr st" and "options_ok db"
  shows "normalise (Some st) \<notin> EXCLUDED_FROM_AGGREGATES" "st \<notin> EXCLUDED_FROM_AGGREGATES"
proof -
  show n: "normalise (Some st) \<notin> EXCLUDED_FROM_AGGREGATES"
  proof (cases "is_selectable (Some raw)")
    case True
    with assms(1) show ?thesis by (auto simp: resolve_status_def is_selectable_def dest: selectable_counts)
  next
    case False
    with assms(1) obtain c where "c \<in> set (custom_options db)" "co_list_key c = ORDER_STATUS" "st = co_value c"
      by (auto simp: resolve_status_def split: option.splits dest!: find_SomeD)
    with assms(2) excluded_built_in show ?thesis by (auto simp: options_ok_def)
  qed
  have "normalise (Some x) = x" if "x \<in> EXCLUDED_FROM_AGGREGATES" for x
    using that by (auto simp: EXCLUDED_FROM_AGGREGATES_def normalise_def or_blank_def strip_def is_space_def
        lower_def lower_char_def)
  with n show "st \<notin> EXCLUDED_FROM_AGGREGATES" by metis
qed

section \<open>An example order\<close>

definition ex_item :: document_in where
  "ex_item = \<lparr>di_document_type_id = Some 8, di_service_type = WRITTEN, di_source_language = ''ka'',
     di_target_language = ''en'', di_page_count = 3, di_character_count = None, di_copy_type = PLAIN,
     di_is_notarized = None, di_translator_id = None, di_notary_id = None, di_interpreting_place = None,
     di_interpreting_date = None, di_interpreting_time = None, di_price_override = None,
     di_translator_cost_override = None, di_notary_cost_override = None\<rparr>"

definition ex_order_in :: order_in where
  "ex_order_in = \<lparr>oi_client_id = 1, oi_documents = [ex_item], oi_order_date = None, oi_due_date = None,
     oi_contact_info = None, oi_identifier = None, oi_urgency = EXPRESS, oi_handover_method = SCAN,
     oi_delivery_address = None, oi_source = Some ''import'', oi_notes = None,
     oi_translation_instructions = None\<rparr>"

definition ex_env :: order_env where
  "ex_env = \<lparr>oe_zone = ex_zone, oe_packages = [], oe_tenant = Some ex_tenant, oe_now = days (30 * (2026 * 12 + 10)),
     oe_today = 31\<rparr>"

lemma ex_item_valid [simp]: "validate_document_in ex_item = Inr ex_item"
  by (simp add: validate_document_in_def kind_rules_def ex_item_def language_field_def optional_def
      at_most_def has_place_def or_blank_def strip_def)

lemma ex_order_in_valid: "validate_order_in ex_order_in = Inr ex_order_in"
  by (simp add: validate_order_in_def ex_order_in_def at_most_def MAX_DOCUMENTS_def NOTES_MAX_def IDENTIFIER_MAX_def)

lemma ex_env_simps [simp]:
  "oe_zone ex_env = ex_zone" "oe_packages ex_env = []" "oe_tenant ex_env = Some ex_tenant"
  "oe_now ex_env = days (30 * (2026 * 12 + 10))" "oe_today ex_env = 31"
  by (simp_all add: ex_env_def)

lemma ex_package: "package_for [] ex_tenant = Some \<lparr>pk_audience = Bureau, pk_tier = 1, pk_orders_included = 50,
     pk_monthly_price_cents = Some 5000\<rparr>"
proof -
  have "effective_plan (Some ''bureau'') = BUREAU" by (simp add: effective_plan_def parse_plan_def lower_def lower_char_def strip_def is_space_def)
  then show ?thesis
    by (simp add: package_for_def load_packages_def TIERS_def audience_of_def ex_tenant_def default_package_def
        DEFAULT_PACKAGES_def)
qed

lemma ex_window: "month_window ex_zone (current_period ex_zone now) =
    Inr (days (30 * (2026 * 12 + 10)), days (30 * (2026 * 12 + 11)))"
  using month_window_of [of 2026 10 ex_zone 17]
  by (simp add: current_period_def ex_zone_def next_month_def)

lemma ex_room: "ensure_room_for_order ex_zone [] now ex_tenant ex_office = Inr ()"
proof -
  have "count_in ex_office (days (30 * (2026 * 12 + 10)), days (30 * (2026 * 12 + 11))) = 0"
    by (simp add: count_in_def order_counts_def ex_office_defs time_units)
  then show ?thesis
    by (simp add: ensure_room_for_order_def month_of_def ex_package count_orders_def ex_window quote_def
        q_blocked_def level_of_def Let_def)
qed

lemma ex_create: "\<exists>rows. create_order session ex_env ex_order_in ex_office =
    Inr (100, insert_order session ex_env (new_order session ex_env ex_order_in ex_client
      (office_context session ex_office [8]) ex_office) rows ex_office) \<and>
    length rows = 1 \<and> d_order_id (hd rows) = 100 \<and> d_id (hd rows) = 101"
proof -
  have types: "List.map_filter di_document_type_id [ex_item] = [8]" "di_price_override ex_item = None"
    by (simp_all add: ex_item_def map_filter_simps)
  have item: "oi_documents ex_order_in = [ex_item]" "oi_client_id ex_order_in = 1" "oi_handover_method ex_order_in = SCAN"
    by (simp_all add: ex_order_in_def)
  have f: "di_source_language ex_item = ''ka''" "di_target_language ex_item = ''en''" "di_service_type ex_item = WRITTEN"
    by (simp_all add: ex_item_def)
  let ?ctx = "office_context session ex_office [8]"
  have "pc_multipliers ?ctx 8 = Some 1" "ctx_rate ?ctx ''ka'' ''en'' = Some 15"
    by (simp_all add: office_context_def load_pricing_context_def ex_office_defs ctx_rate_def load_rates_def
        pair_of_def lower_def lower_char_def)
  moreover have "check_assignees session (di_translator_id ex_item) (di_notary_id ex_item) ex_office = Inr None"
    by (simp add: check_assignees_def ex_item_def)
  moreover have "get_row cl_id 1 (clients ex_office) = Some ex_client" "next_id ex_office = 100"
    by (simp_all add: ex_office_defs)
  moreover have "\<exists>row. document_row (new_order session ex_env ex_order_in ex_client ?ctx ex_office) ex_item ?ctx None 101 = Inr row"
    using calculation(2) by (simp add: document_row_def require_rate_def f Let_def)
  then obtain row where row: "document_row (new_order session ex_env ex_order_in ex_client ?ctx ex_office) ex_item ?ctx None 101 = Inr row" ..
  ultimately show ?thesis
    using document_row_Inr(1,2) [OF row] row
    by (simp only: create_order_def ex_order_in_valid bind_result_simps item types ex_room ex_env_simps option.case)
      (auto simp: types Let_def intro!: exI [of _ "[row]"])
qed


text \<open>The example order with its document at the engine's figures.\<close>

definition ex_priced :: office where
  "ex_priced = (let b = computed ex_document (office_context ex_caller ex_office [8]) STANDARD
     in ex_office\<lparr>documents := [ex_document\<lparr>d_price := pb_price b, d_translator_cost := pb_translator_cost b,
        d_notary_cost := pb_notary_cost b\<rparr>]\<rparr>)"

lemma ex_priced_header: "header_context ex_caller 4 ex_priced = office_context ex_caller ex_office [8]"
  by (simp add: header_context_def ex_priced_def Let_def order_documents_def ex_office_defs truthy_ids_def
      office_context_def)

theorem urgency_there_and_back_witness:
  "\<exists>db1 db2. update_order ex_caller 4 (only_urgency URGENT) ex_priced = Inr db1 \<and>
     update_order ex_caller 4 (only_urgency STANDARD) db1 = Inr db2 \<and> documents db2 = documents ex_priced"
proof -
  have ord: "get_row o_id 4 (orders ex_priced) = Some ex_order" "distinct (map o_id (orders ex_priced))"
    by (simp_all add: ex_priced_def Let_def ex_office_defs)
  from ord(1) obtain db1 where db1: "update_order ex_caller 4 (only_urgency URGENT) ex_priced = Inr db1"
    by (auto simp: update_only_urgency ex_order_def)
  have "\<forall>d \<in> set (order_documents 4 ex_priced).
      unambiguous (header_context ex_caller 4 ex_priced) (o_urgency ex_order) URGENT d"
    unfolding ex_priced_header
    by (simp add: ex_priced_def Let_def order_documents_def ex_document_def ex_order_def unambiguous_def
        computed_def computed_with_def)
  from urgency_there_and_back [OF db1 ord this] db1 show ?thesis by (auto simp: ex_order_def)
qed

definition ex_edit :: document_update where
  "ex_edit = no_document_change\<lparr>du_page_count := Some (Some 3)\<rparr>"

lemma ex_edit_runs: "\<exists>db' d'. update_order_document ex_caller 4 5 ex_edit ex_office = Inr db' \<and>
    get_row d_id 5 (documents db') = Some d'"
proof -
  have valid: "validate_document_update ex_edit = Inr ()" "document_field_null ex_edit = False"
    "structural_change ex_edit" "place_sent ex_edit = False"
    by (simp_all add: ex_edit_def no_document_change_def validate_document_update_def optional_def
        document_field_null_def structural_change_def place_sent_def)
  let ?d = "clean_kind (apply_structure ex_edit ex_document)"
  have d: "d_document_type_id ?d = Some 8" "d_service_type ?d = WRITTEN" "d_source_language ?d = ''ka''"
    "d_target_language ?d = ''en''" "d_id ?d = 5"
    by (simp_all add: clean_kind_def apply_structure_def ex_edit_def no_document_change_def ex_document_def
        or_else_def required_def)
  have ctx: "pc_multipliers (office_context ex_caller ex_office [8]) 8 = Some 1"
    "ctx_rate (office_context ex_caller ex_office [8]) ''ka'' ''en'' = Some 15"
    by (simp_all add: office_context_def load_pricing_context_def ex_office_defs ctx_rate_def load_rates_def
        pair_of_def lower_def lower_char_def)
  have "check_assignees ex_caller (or_else (du_translator_id ex_edit) None) (or_else (du_notary_id ex_edit) None) ex_office = Inr None"
    by (simp add: check_assignees_def ex_edit_def no_document_change_def or_else_def)
  moreover have "\<exists>d'. restructure ex_caller ex_edit STANDARD None ex_office (apply_structure ex_edit ex_document) = Inr d' \<and> d_id d' = 5"
    by (simp add: restructure_def Let_def d truthy_ids_def unknown_type_def ctx require_rate_def)
      (simp add: d(2,5) [simplified])
  moreover have "get_row d_id 5 (documents ex_office) = Some ex_document" "d_order_id ex_document = 4"
    "get_row o_id 4 (orders ex_office) = Some ex_order" "o_urgency ex_order = STANDARD"
    by (simp_all add: ex_office_defs)
  ultimately show ?thesis
    using valid
    by (auto simp: update_order_document_def edit_document_def changed_document_def apply_place_def
        get_row_replaced drop_notary_def explicit_figures_def)
qed

theorem edited_line_priced_afresh_witness:
  "\<exists>db' d' db'' row. update_order_document ex_caller 4 5 ex_edit ex_office = Inr db' \<and>
     get_row d_id 5 (documents db') = Some d' \<and> add_order_document ex_caller 4 (line_of d') db' = Inr db'' \<and>
     documents db'' = documents db' @ [row] \<and> d_price row = d_price d'"
proof -
  from ex_edit_runs obtain db' d' where run: "update_order_document ex_caller 4 5 ex_edit ex_office = Inr db'"
    "get_row d_id 5 (documents db') = Some d'" by blast
  have edit: "structural_change ex_edit" "du_price ex_edit = None" "du_translator_cost ex_edit = None"
    "du_notary_cost ex_edit = None"
    by (simp_all add: ex_edit_def no_document_change_def structural_change_def)
  have "case update_order_document ex_caller 4 5 ex_edit ex_office of Inl _ \<Rightarrow> False | Inr db' \<Rightarrow>
      (case get_row d_id 5 (documents db') of None \<Rightarrow> False | Some d' \<Rightarrow>
        (case add_order_document ex_caller 4 (line_of d') db' of Inl _ \<Rightarrow> False | Inr _ \<Rightarrow> True))" by code_simp
  then obtain db'' where "add_order_document ex_caller 4 (line_of d') db' = Inr db''"
    by (auto simp: run split: sum.splits)
  with edited_line_priced_afresh [OF run(1) edit run(2)] run show ?thesis by blast
qed

theorem create_order_within_package_witness:
  "\<exists>db'. create_order ex_caller ex_env ex_order_in ex_office = Inr (100, db') \<and>
     count_in db' (days (30 * (2026 * 12 + 10)), days (30 * (2026 * 12 + 11))) =
     count_in ex_office (days (30 * (2026 * 12 + 10)), days (30 * (2026 * 12 + 11))) + 1"
proof -
  obtain db' where db': "create_order ex_caller ex_env ex_order_in ex_office = Inr (100, db')"
    using ex_create [of ex_caller] by blast
  have "oe_tenant ex_env = Some ex_tenant" by simp
  moreover note ex_package [folded ex_env_simps(2)]
  moreover have "month_window (oe_zone ex_env) (current_period (oe_zone ex_env) (oe_now ex_env)) =
      Inr (days (30 * (2026 * 12 + 10)), days (30 * (2026 * 12 + 11)))"
    by (simp only: ex_env_simps ex_window)
  ultimately show ?thesis
    using create_order_within_package [of ex_env ex_tenant] db'
    by (auto simp: time_units ex_office_defs)
qed

end
