(* ===== verification/Calculator.thy ===== *)
theory Calculator
  imports Orders
begin

text \<open>
  \<^verbatim>\<open>api/v1/calculator.py\<close>: the quote shown while an order is built, and its agreement with
  the order that is then created.
\<close>

section \<open>Requests\<close>

record quote_document =
  qd_source_language :: string
  qd_target_language :: string
  qd_document_type_id :: "int option"
  qd_service_type :: service_type
  qd_page_count :: int
  qd_character_count :: "int option"
  qd_copy_type :: copy_type
  qd_is_notarized :: "bool option"

definition validate_quote_document :: "quote_document \<Rightarrow> quote_document result" where
  "validate_quote_document d =
     (if \<not> language_field (qd_source_language d) \<or> \<not> language_field (qd_target_language d) \<or>
         qd_page_count d < 1 \<or> 10000 < qd_page_count d \<or>
         \<not> optional (\<lambda>c. 1 \<le> c \<and> c \<le> 100000000) (qd_character_count d)
        then Inl (ValidationError ''field'')
      else if qd_service_type d = WRITTEN then
        if qd_document_type_id d = None then Inl (ValidationError ''A written line needs a document type.'')
        else Inr d
      else Inr (d\<lparr>qd_document_type_id := None, qd_copy_type := ORIGINAL, qd_is_notarized := Some False\<rparr>))"

record quote_request =
  qr_documents :: "quote_document list"
  qr_urgency :: urgency
  qr_handover_method :: handover_method

definition validate_quote_request :: "quote_request \<Rightarrow> quote_request result" where
  "validate_quote_request p =
     (if qr_documents p = [] \<or> MAX_DOCUMENTS < length (qr_documents p) then Inl (ValidationError ''field'')
      else bind_result (map_result validate_quote_document (qr_documents p)) (\<lambda>ds.
        Inr (p\<lparr>qr_documents := ds\<rparr>)))"

record quote_response =
  qs_lines :: "price_breakdown list"
  qs_line_translator_costs :: "rat option list"
  qs_documents_total :: rat
  qs_delivery_cost :: rat
  qs_total :: rat
  qs_translator_cost_total :: "rat option"
  qs_notary_cost_total :: rat
  qs_gross_profit :: "rat option"

section \<open>The endpoint\<close>

definition pricing_input :: "pricing_context \<Rightarrow> urgency \<Rightarrow> quote_document \<Rightarrow> doc_input" where
  "pricing_input ctx u d =
     \<lparr>dp_page_count = qd_page_count d,
      dp_base_rate_per_page = ctx_rate ctx (qd_source_language d) (qd_target_language d),
      dp_document_type_multiplier =
        (case qd_document_type_id d of None \<Rightarrow> 1
         | Some i \<Rightarrow> (case pc_multipliers ctx i of Some m \<Rightarrow> m | None \<Rightarrow> 1)),
      dp_copy_type = qd_copy_type d, dp_urgency = u, dp_is_notarized = qd_is_notarized d,
      dp_service_type = qd_service_type d,
      dp_base_rate_per_minute = ctx_minute_rate ctx (qd_source_language d) (qd_target_language d),
      dp_character_count = (if qd_service_type d = WRITTEN then qd_character_count d else None),
      dp_characters_per_page = pc_characters_per_page ctx\<rparr>"

definition quote_endpoint :: "auth_session \<Rightarrow> quote_request \<Rightarrow> office \<Rightarrow> quote_response result" where
  "quote_endpoint session payload db =
     bind_result (validate_quote_request payload) (\<lambda>p.
       let type_ids = List.map_filter qd_document_type_id (qr_documents p);
           ctx = office_context session db type_ids
       in if \<exists>i \<in> set type_ids. pc_multipliers ctx i = None
            then Inl (ValidationError ''Unknown document type(s)'')
          else
            let q = quote_order (map (pricing_input ctx (qr_urgency p)) (qr_documents p))
                      (qr_handover_method p) (pc_config ctx);
                shown = (\<lambda>x. if shows_costs session then Some x else None)
            in Inr \<lparr>qs_lines = oq_documents q,
                 qs_line_translator_costs = map (\<lambda>b. shown (pb_translator_cost b)) (oq_documents q),
                 qs_documents_total = oq_documents_total q, qs_delivery_cost = oq_delivery_cost q,
                 qs_total = oq_total q, qs_translator_cost_total = shown (oq_translator_cost_total q),
                 qs_notary_cost_total = oq_notary_cost_total q,
                 qs_gross_profit = shown (gross_profit q)\<rparr>)"


section \<open>The quote and the order\<close>

text \<open>What the order form asks the calculator about the lines it is about to submit.\<close>

definition quote_of_item :: "document_in \<Rightarrow> quote_document" where
  "quote_of_item item = \<lparr>qd_source_language = di_source_language item,
     qd_target_language = di_target_language item, qd_document_type_id = di_document_type_id item,
     qd_service_type = di_service_type item, qd_page_count = di_page_count item,
     qd_character_count = di_character_count item, qd_copy_type = di_copy_type item,
     qd_is_notarized = di_is_notarized item\<rparr>"

definition quote_of_order :: "order_in \<Rightarrow> quote_request" where
  "quote_of_order p = \<lparr>qr_documents = map quote_of_item (oi_documents p), qr_urgency = oi_urgency p,
     qr_handover_method = oi_handover_method p\<rparr>"

text \<open>One line: accepted by both, with the same type and the same price.\<close>

definition agrees :: "document_in \<Rightarrow> quote_document \<Rightarrow> bool" where
  "agrees item q \<longleftrightarrow> qd_document_type_id q = di_document_type_id item \<and>
     (\<forall>ctx u. price_document (pricing_input ctx u q) (pc_config ctx) = item_price ctx u item)"

lemma price_oral_cong:
  assumes "dp_service_type d = ORAL" "dp_service_type e = ORAL" "dp_page_count d = dp_page_count e"
    "dp_base_rate_per_minute d = dp_base_rate_per_minute e" "dp_urgency d = dp_urgency e"
  shows "price_document d cfg = price_document e cfg"
  using assms by (simp add: price_document_def price_oral_def)

lemma item_agrees:
  assumes "validate_document_in raw = Inr item"
  shows "\<exists>q. validate_quote_document (quote_of_item raw) = Inr q \<and> agrees item q"
proof (cases "di_service_type raw")
  case WRITTEN
  with assms have "item = raw" "di_document_type_id raw \<noteq> None"
    by (auto simp: validate_document_in_def kind_rules_def split: if_splits)
  moreover have "validate_quote_document (quote_of_item raw) = Inr (quote_of_item raw)"
    using assms WRITTEN calculation
    by (auto simp: validate_document_in_def validate_quote_document_def quote_of_item_def split: if_splits)
  moreover have "agrees raw (quote_of_item raw)"
    by (auto simp: agrees_def quote_of_item_def item_price_def ctx_price_def pricing_input_def WRITTEN
        intro!: arg_cong [where f = "\<lambda>d. price_document d cfg" for cfg] split: option.split)
  ultimately show ?thesis by blast
next
  case ORAL
  let ?q = "(quote_of_item raw)\<lparr>qd_document_type_id := None, qd_copy_type := ORIGINAL, qd_is_notarized := Some False\<rparr>"
  from assms ORAL have item: "item = raw\<lparr>di_document_type_id := None, di_character_count := None,
      di_interpreting_place := strip_or_none (di_interpreting_place raw)\<rparr>"
    by (auto simp: validate_document_in_def kind_rules_def split: if_splits)
  have "validate_quote_document (quote_of_item raw) = Inr ?q"
    using assms ORAL
    by (auto simp: validate_document_in_def validate_quote_document_def quote_of_item_def split: if_splits)
  moreover have "agrees item ?q"
    unfolding agrees_def item_price_def ctx_price_def
    by (auto simp: quote_of_item_def item pricing_input_def ORAL intro!: price_oral_cong)
  ultimately show ?thesis by blast
qed

lemma items_agree:
  assumes "list_all2 (\<lambda>a b. validate_document_in a = Inr b) raws items"
  shows "\<exists>qs. map_result validate_quote_document (map quote_of_item raws) = Inr qs \<and> list_all2 agrees items qs"
  using assms
proof (induction raws items rule: list_all2_induct)
  case (Cons raw raws item items)
  from item_agrees [OF Cons.hyps(1)] Cons.IH show ?case by auto
qed simp

lemma agrees_types:
  "list_all2 agrees items qs \<Longrightarrow>
     List.map_filter qd_document_type_id qs = List.map_filter di_document_type_id items"
  by (induction rule: list_all2_induct) (auto simp: agrees_def map_filter_simps split: option.split)

lemma agrees_prices:
  "list_all2 agrees items qs \<Longrightarrow>
     map (\<lambda>d. price_document d (pc_config ctx)) (map (pricing_input ctx u) qs) = map (item_price ctx u) items"
  by (induction rule: list_all2_induct) (auto simp: agrees_def)

lemma rows_priced:
  assumes "list_all2 (\<lambda>(item, assigned) d. \<exists>n. document_row ord item ctx assigned n = Inr d) (zip items given) rows"
    and "length given = length items"
    and "\<forall>item \<in> set items. di_price_override item = None \<and> di_notary_cost_override item = None"
  shows "map d_price rows = map pb_price (map (item_price ctx (o_urgency ord)) items) \<and>
    map d_notary_cost rows = map pb_notary_cost (map (item_price ctx (o_urgency ord)) items) \<and>
    (\<forall>d \<in> set rows. d_order_id d = o_id ord)"
  using assms
proof (induction items arbitrary: given rows)
  case (Cons item items)
  then obtain g gs where g: "given = g # gs" by (cases given) auto
  with Cons.prems(1) obtain d ds n where d: "rows = d # ds" "document_row ord item ctx g n = Inr d"
    "list_all2 (\<lambda>(item, assigned) d. \<exists>n. document_row ord item ctx assigned n = Inr d) (zip items gs) ds"
    by (auto simp: list_all2_Cons1)
  with Cons.IH [OF d(3)] Cons.prems g document_row_Inr [OF d(2)] show ?case by (simp add: or_else_def)
qed simp

lemma sum_where_all: "(\<And>r. r \<in> set rows \<Longrightarrow> P r) \<Longrightarrow> sum_where f P rows = sum_list (map f rows)"
  by (induction rows) auto

lemma list_all2_source:
  "list_all2 (\<lambda>a b. f a = Inr b) xs ys \<Longrightarrow> y \<in> set ys \<Longrightarrow> \<exists>x \<in> set xs. f x = Inr y"
  by (induction rule: list_all2_induct) auto

lemma no_override_kept:
  assumes "list_all2 (\<lambda>a b. validate_document_in a = Inr b) raws items"
    and "\<forall>item \<in> set raws. di_price_override item = None \<and> di_notary_cost_override item = None"
  shows "\<forall>item \<in> set items. di_price_override item = None \<and> di_notary_cost_override item = None"
proof
  fix item assume "item \<in> set items"
  with list_all2_source [OF assms(1)] obtain raw where "raw \<in> set raws" "validate_document_in raw = Inr item"
    by blast
  with assms(2) show "di_price_override item = None \<and> di_notary_cost_override item = None"
    by (auto simp: validate_document_in_def kind_rules_def split: if_splits)
qed

text \<open>The calculator accepts what the order accepts, and quotes the engine's figures for it.\<close>

lemma quote_accepts:
  fixes session db payload p
  defines "ctx \<equiv> office_context session db (List.map_filter di_document_type_id (oi_documents p))"
  assumes "validate_order_in payload = Inr p"
    and "\<forall>i \<in> set (List.map_filter di_document_type_id (oi_documents p)). pc_multipliers ctx i \<noteq> None"
    and "is_cents (delivery_fee (pc_config ctx))"
  shows "\<exists>q. quote_endpoint session (quote_of_order payload) db = Inr q \<and>
     qs_documents_total q = sum_list (map pb_price (map (item_price ctx (oi_urgency p)) (oi_documents p))) \<and>
     qs_notary_cost_total q = sum_list (map pb_notary_cost (map (item_price ctx (oi_urgency p)) (oi_documents p))) \<and>
     qs_delivery_cost q = (if oi_handover_method p = DELIVERY then delivery_fee (pc_config ctx) else 0) \<and>
     qs_total q = qs_documents_total q + qs_delivery_cost q"
proof -
  note p' = validate_order_in_Inr [OF assms(2)]
  from items_agree [OF p'(3)] obtain qs where
    qs: "map_result validate_quote_document (map quote_of_item (oi_documents payload)) = Inr qs" and
    agree: "list_all2 agrees (oi_documents p) qs" by blast
  note totals = quote_order_totals [OF assms(4), of "map (pricing_input ctx (oi_urgency p)) qs" "oi_handover_method p",
      unfolded agrees_prices [OF agree]]
  have "qr_documents (quote_of_order payload) \<noteq> [] \<and> length (qr_documents (quote_of_order payload)) \<le> MAX_DOCUMENTS"
    using p'(1,2) list_all2_lengthD [OF p'(3)] by (auto simp: quote_of_order_def)
  then have "validate_quote_request (quote_of_order payload) = Inr ((quote_of_order payload)\<lparr>qr_documents := qs\<rparr>)"
    using qs by (auto simp: validate_quote_request_def quote_of_order_def)
  with assms(3) show ?thesis
    by (simp add: quote_endpoint_def quote_of_order_def agrees_types [OF agree] ctx_def [symmetric]
        p'(4,5) [symmetric] totals Let_def)
qed

text \<open>C10: a created order costs what the calculator quoted. Submitting the lines that were quoted, with
  no figure typed in, stores an order whose total, notary cost and delivery fee are exactly
  those of the quote for the same lines, urgency and handover; and the quote is never refused
  for lines the order accepts.\<close>

theorem order_matches_quote:
  assumes "create_order session env payload db = Inr (oid, db')"
    and "\<forall>item \<in> set (oi_documents payload). di_price_override item = None \<and> di_notary_cost_override item = None"
    and "case tenant_settings_row db of None \<Rightarrow> True | Some s \<Rightarrow> is_cents (ts_delivery_fee s)"
    and "\<forall>d \<in> set (documents db). d_order_id d < next_id db"
  shows "\<exists>q ord. quote_endpoint session (quote_of_order payload) db = Inr q \<and>
     ord \<in> set (orders db') \<and> o_id ord = oid \<and>
     documents_total oid db' = qs_documents_total q \<and> notary_total oid db' = qs_notary_cost_total q \<and>
     o_delivery_cost ord = qs_delivery_cost q \<and> billed_on db' ord = qs_total q"
proof -
  from assms(1) obtain p cl ctx given rows where p: "validate_order_in payload = Inr p"
    and ctx: "ctx = office_context session db (List.map_filter di_document_type_id (oi_documents p))"
    and known: "\<forall>i \<in> set (List.map_filter di_document_type_id (oi_documents p)). pc_multipliers ctx i \<noteq> None"
    and given: "length given = length (oi_documents p)"
    and rows: "document_rows (new_order session env p cl ctx db) ctx (zip (oi_documents p) given) (next_id db + 1) = Inr rows"
    and oid: "oid = next_id db" and db': "db' = insert_order session env (new_order session env p cl ctx db) rows db"
    by (rule create_order_Inr) (auto dest: list_all2_lengthD)
  let ?ord = "new_order session env p cl ctx db"
  let ?bs = "map (item_price ctx (oi_urgency p)) (oi_documents p)"
  note none = no_override_kept [OF validate_order_in_Inr(3) [OF p] assms(2)]
  note priced = rows_priced [OF document_rows_Inr(1) [OF rows] given none, unfolded new_order_simps]
  have cents: "is_cents (delivery_fee (pc_config ctx))"
    using assms(3) is_centsI [of 10 1000]
    by (simp add: ctx office_context_def load_pricing_context_def config_from_settings_def
        pricing_for_plan_def pricing_defaults_def split: option.splits)
  from quote_accepts [OF p known [unfolded ctx] cents [unfolded ctx], folded ctx] obtain q where
    q: "quote_endpoint session (quote_of_order payload) db = Inr q"
      "qs_documents_total q = sum_list (map pb_price ?bs)" "qs_notary_cost_total q = sum_list (map pb_notary_cost ?bs)"
      "qs_delivery_cost q = o_delivery_cost ?ord" "qs_total q = qs_documents_total q + qs_delivery_cost q"
    by auto
  have "sum_where f (\<lambda>d. d_order_id d = oid) (documents db) = 0" for f :: "order_document \<Rightarrow> rat"
    using assms(4) oid by (intro sum_where_none) auto
  then have "sum_where f (\<lambda>d. d_order_id d = oid) (documents db') = sum_list (map f rows)" for f :: "order_document \<Rightarrow> rat"
    using priced oid by (simp add: db' insert_order_def Let_def sum_where_all)
  then have sums: "documents_total oid db' = qs_documents_total q" "notary_total oid db' = qs_notary_cost_total q"
    using priced by (simp_all add: documents_total_def notary_total_def q)
  have "?ord \<in> set (orders db')" by (simp add: db' insert_order_def Let_def)
  with q(1,4,5) sums oid show ?thesis
    by (intro exI [of _ q] exI [of _ ?ord]) (simp add: billed_on_def)
qed


theorem order_matches_quote_witness:
  "\<exists>db' q ord. create_order ex_caller ex_env ex_order_in ex_office = Inr (100, db') \<and>
     quote_endpoint ex_caller (quote_of_order ex_order_in) ex_office = Inr q \<and>
     ord \<in> set (orders db') \<and> o_id ord = 100 \<and> billed_on db' ord = qs_total q"
proof -
  obtain db' where db': "create_order ex_caller ex_env ex_order_in ex_office = Inr (100, db')"
    using ex_create [of ex_caller] by blast
  from order_matches_quote [OF this] show ?thesis
    using db' by (auto simp: ex_order_in_def ex_item_def ex_office_defs)
qed

end
