(* ===== verification/Texts.thy ===== *)
theory Texts
  imports Billing
begin

text \<open>
  Text the file and queue components build and take apart: decimal numbers in f-strings,
  \<^verbatim>\<open>str.split\<close> and \<^verbatim>\<open>str.rpartition\<close> on one character, and the two character classes of
  the identifier patterns. Only what the code uses of them is defined.
\<close>

section \<open>Decimal numbers\<close>

fun show_nat :: "nat \<Rightarrow> string" where
  "show_nat n =
     (if n < 10 then [digit_char (int n)] else show_nat (n div 10) @ [digit_char (int (n mod 10))])"

declare show_nat.simps [simp del]

text \<open>\<^verbatim>\<open>f"{i}"\<close> for an integer, and \<^verbatim>\<open>int(s)\<close> for a string of digits.\<close>

definition show_int :: "int \<Rightarrow> string" where
  "show_int i = (if i < 0 then CHR ''-'' # show_nat (nat (- i)) else show_nat (nat i))"

definition read_nat :: "string \<Rightarrow> int" where
  "read_nat s = fold (\<lambda>c acc. acc * 10 + digit_value c) s 0"

lemma show_nat_not_Nil [simp]: "show_nat n \<noteq> []"
  by (subst show_nat.simps) simp

lemma show_nat_digits: "c \<in> set (show_nat n) \<Longrightarrow> is_digit c"
proof (induction n rule: show_nat.induct)
  case (1 n)
  show ?case
  proof (cases "n < 10")
    case True
    with 1(2) show ?thesis using digit_round [of "int n"] by (subst (asm) show_nat.simps) simp
  next
    case False
    with 1 show ?thesis using digit_round [of "int (n mod 10)"] by (subst (asm) (2) show_nat.simps) auto
  qed
qed

lemma read_show_nat [simp]: "read_nat (show_nat n) = int n"
proof (induction n rule: show_nat.induct)
  case (1 n)
  show ?case
  proof (cases "n < 10")
    case True
    then show ?thesis using digit_round [of "int n"] by (subst show_nat.simps) (simp add: read_nat_def)
  next
    case False
    from 1 [OF False] have "fold (\<lambda>c acc. acc * 10 + digit_value c) (show_nat (n div 10)) 0 = int (n div 10)"
      by (simp add: read_nat_def)
    then have "read_nat (show_nat n) = int (n div 10) * 10 + int (n mod 10)"
      using False digit_round [of "int (n mod 10)"] by (subst show_nat.simps) (simp add: read_nat_def)
    also have "\<dots> = int n" by (simp add: zdiv_int zmod_int)
    finally show ?thesis .
  qed
qed

lemma show_nat_inject [simp]: "show_nat m = show_nat n \<longleftrightarrow> m = n"
  by (metis read_show_nat of_nat_eq_iff)

lemma length_show_nat: "0 < k \<Longrightarrow> n < 10 ^ k \<Longrightarrow> length (show_nat n) \<le> k"
proof (induction n arbitrary: k rule: show_nat.induct)
  case (1 n)
  show ?case
  proof (cases "n < 10")
    case True
    with 1(2) show ?thesis by (subst show_nat.simps) simp
  next
    case False
    then obtain j where k: "k = Suc j" "0 < j" using 1(2,3) by (cases k; cases "k - 1") auto
    have "n div 10 < 10 ^ j" using 1(3) by (simp add: k less_mult_imp_div_less mult.commute)
    with 1(1) [OF False k(2)] False show ?thesis by (subst show_nat.simps) (simp add: k)
  qed
qed

section \<open>Cutting\<close>

text \<open>\<^verbatim>\<open>s.rpartition(c)\<close>: what stands before the last \<open>c\<close>, the \<open>c\<close> itself, and the rest;
  two empty strings and the whole when there is none.\<close>

definition rpartition :: "char \<Rightarrow> string \<Rightarrow> string \<times> string \<times> string" where
  "rpartition c s =
     (if c \<in> set s
      then (rev (tl (dropWhile (\<lambda>x. x \<noteq> c) (rev s))), [c], rev (takeWhile (\<lambda>x. x \<noteq> c) (rev s)))
      else ([], [], s))"

text \<open>\<^verbatim>\<open>s.split(c)[-1]\<close>, the part after the last \<open>c\<close>.\<close>

definition after_last :: "char \<Rightarrow> string \<Rightarrow> string" where
  "after_last c s = rev (takeWhile (\<lambda>x. x \<noteq> c) (rev s))"

fun split_on :: "char \<Rightarrow> string \<Rightarrow> string list" where
  "split_on c [] = [[]]"
| "split_on c (x # xs) =
     (if x = c then [] # split_on c xs
      else case split_on c xs of [] \<Rightarrow> [[x]] | p # ps \<Rightarrow> (x # p) # ps)"

definition starts_with :: "string \<Rightarrow> string \<Rightarrow> bool" where
  "starts_with s t \<longleftrightarrow> take (length t) s = t"

lemma split_on_not_Nil [simp]: "split_on c s \<noteq> []"
  by (cases s) (simp_all split: list.split)

lemma split_on_absent: "c \<notin> set s \<Longrightarrow> split_on c s = [s]"
  by (induction s) auto

lemma split_on_append: "c \<notin> set s \<Longrightarrow> split_on c (s @ c # t) = s # split_on c t"
  by (induction s) auto

lemma rpartition_join:
  "rpartition c s = (a, b, d) \<Longrightarrow> a @ b @ d = s"
proof (cases "c \<in> set s")
  case True
  assume "rpartition c s = (a, b, d)"
  with True have abd: "a = rev (tl (dropWhile (\<lambda>x. x \<noteq> c) (rev s)))" "b = [c]"
    "d = rev (takeWhile (\<lambda>x. x \<noteq> c) (rev s))" by (auto simp: rpartition_def)
  have "dropWhile (\<lambda>x. x \<noteq> c) (rev s) \<noteq> []" using True by (auto simp: dropWhile_eq_Nil_conv)
  from hd_dropWhile [OF this] this obtain u where u: "dropWhile (\<lambda>x. x \<noteq> c) (rev s) = c # u"
    by (cases "dropWhile (\<lambda>x. x \<noteq> c) (rev s)") simp_all
  have "rev s = takeWhile (\<lambda>x. x \<noteq> c) (rev s) @ c # u"
    using takeWhile_dropWhile_id [of "\<lambda>x. x \<noteq> c" "rev s"] u by simp
  then have "rev (rev s) = rev u @ [c] @ rev (takeWhile (\<lambda>x. x \<noteq> c) (rev s))"
    by (metis rev_append rev.simps(2) append.assoc)
  then show ?thesis using abd u by simp
qed (simp add: rpartition_def)

section \<open>Identifiers\<close>

text \<open>\<^verbatim>\<open>[A-Za-z0-9_-]\<close>, and \<^verbatim>\<open>[a-z0-9.+-]\<close>.\<close>

definition is_id_char :: "char \<Rightarrow> bool" where
  "is_id_char c \<longleftrightarrow> is_alpha c \<or> is_digit c \<or> c = CHR ''_'' \<or> c = CHR ''-''"

definition is_mime_char :: "char \<Rightarrow> bool" where
  "is_mime_char c \<longleftrightarrow> is_alpha c \<and> lower_char c = c \<or> is_digit c \<or> c \<in> {CHR ''.'', CHR ''+'', CHR ''-''}"

lemma id_chars_plain:
  "is_id_char c \<Longrightarrow> c \<noteq> CHR ''.'' \<and> c \<noteq> CHR ''/''"
  by (auto simp: is_id_char_def is_alpha_def is_digit_def Let_def)

lemma digits_are_ids: "is_digit c \<Longrightarrow> is_id_char c"
  by (simp add: is_id_char_def)

lemma show_nat_ids: "c \<in> set (show_nat n) \<Longrightarrow> is_id_char c"
  using show_nat_digits digits_are_ids by blast

lemma lower_digit: "is_digit c \<Longrightarrow> lower_char c = c"
  by (auto simp: is_digit_def lower_char_def Let_def)

lemma lower_show_nat [simp]: "lower (show_nat n) = show_nat n"
  unfolding lower_def by (rule map_idI) (simp add: lower_digit show_nat_digits)

end
