(* ===== verification/Storage.thy ===== *)
theory Storage
  imports Texts
begin

text \<open>
  \<^verbatim>\<open>integrations/object_storage.py\<close>: where the bytes of order files are kept. Three calls
  (put, get, delete) over a folder on the server or an S3-compatible bucket, and the Order
  Vault, which can be written and deleted from but never read. What the disk or a service
  answers is an argument of each call; what it then holds is the state. The contract the file
  component relies on is the locale \<open>object_store\<close>, which every backend satisfies.
\<close>

section \<open>Errors and answers\<close>

datatype storage_error =
    StorageError "nat option"
  | StorageNotConfiguredError
  | StorageDownloadUnavailableError "int option"

type_synonym 'a storage_result = "storage_error + 'a"

definition is_not_found :: "storage_error \<Rightarrow> bool" where
  "is_not_found e \<longleftrightarrow> e = StorageError (Some 404)"

text \<open>
  How an outside call went: the HTTP status it was answered with, or that it failed on the
  way. A write to a service that failed on the way may have been carried out all the same,
  which is the flag; on the server's own disk \<open>Answered\<close> is success, \<open>Failed\<close> an
  \<^verbatim>\<open>OSError\<close>, and a write is a rename into place, so a failed one changes nothing.
\<close>

datatype reply = Answered nat | Failed bool

text \<open>What the outside world holds: objects by key, and the vault's files by the key
  \<^verbatim>\<open>vault/<order>/<file>\<close>. The vault's maps hold what it was given, before encryption.\<close>

record objects =
  blobs :: "string \<Rightarrow> string option"
  vaulted :: "string \<Rightarrow> string option"

section \<open>Keys\<close>

definition well_formed_key :: "string \<Rightarrow> bool" where
  "well_formed_key key \<longleftrightarrow> length key \<le> 500 \<and>
     list_all (\<lambda>p. p \<noteq> [] \<and> list_all is_id_char p) (split_on (CHR ''/'') key)"

definition is_hex_char :: "char \<Rightarrow> bool" where
  "is_hex_char c \<longleftrightarrow> is_digit c \<or> c \<in> set ''abcdef''"

definition match_vault_key :: "string \<Rightarrow> (string \<times> string) option" where
  "match_vault_key key =
     (case split_on (CHR ''/'') key of
        [v, n, f] \<Rightarrow>
          if v = ''vault'' \<and> 1 \<le> length n \<and> length n \<le> 9 \<and> list_all is_digit n \<and>
             length f = 32 \<and> list_all is_hex_char f
          then Some (n, f) else None
      | _ \<Rightarrow> None)"

definition vault_order_of :: "string \<Rightarrow> int option" where
  "vault_order_of key = map_option (\<lambda>(n, _). read_nat n) (match_vault_key key)"

definition vault_key :: "int \<Rightarrow> string \<Rightarrow> string" where
  "vault_key order_no file_id = ''vault/'' @ show_int order_no @ CHR ''/'' # file_id"

section \<open>A folder or a bucket\<close>

datatype blob_backend = Local | S3

definition blob_put ::
    "blob_backend \<Rightarrow> reply \<Rightarrow> string \<Rightarrow> string \<Rightarrow> objects \<Rightarrow> unit storage_result \<times> objects" where
  "blob_put b r key content w =
     (if \<not> well_formed_key key then (Inl (StorageError None), w)
      else case r of
        Answered status \<Rightarrow>
          if b = S3 \<and> 300 \<le> status then (Inl (StorageError (Some status)), w)
          else (Inr (), w\<lparr>blobs := (blobs w)(key \<mapsto> content)\<rparr>)
      | Failed carried_out \<Rightarrow>
          (Inl (StorageError None),
           if b = S3 \<and> carried_out then w\<lparr>blobs := (blobs w)(key \<mapsto> content)\<rparr> else w))"

definition blob_get :: "blob_backend \<Rightarrow> reply \<Rightarrow> string \<Rightarrow> objects \<Rightarrow> string storage_result" where
  "blob_get b r key w =
     (if \<not> well_formed_key key then Inl (StorageError None)
      else case r of
        Answered status \<Rightarrow>
          if b = S3 \<and> 300 \<le> status then Inl (StorageError (Some status))
          else (case blobs w key of None \<Rightarrow> Inl (StorageError (Some 404)) | Some c \<Rightarrow> Inr c)
      | Failed _ \<Rightarrow> Inl (StorageError None))"

definition blob_delete ::
    "blob_backend \<Rightarrow> reply \<Rightarrow> string \<Rightarrow> objects \<Rightarrow> unit storage_result \<times> objects" where
  "blob_delete b r key w =
     (if \<not> well_formed_key key then (Inl (StorageError None), w)
      else case r of
        Answered status \<Rightarrow>
          if b = S3 \<and> 300 \<le> status \<and> status \<noteq> 404 then (Inl (StorageError (Some status)), w)
          else (Inr (), w\<lparr>blobs := (blobs w)(key := None)\<rparr>)
      | Failed carried_out \<Rightarrow>
          (Inl (StorageError None),
           if b = S3 \<and> carried_out then w\<lparr>blobs := (blobs w)(key := None)\<rparr> else w))"

section \<open>The Order Vault\<close>

text \<open>What the vault is told about a file: its side, a label, its name, and the vault order
  its siblings are in.\<close>

record vault_request =
  vr_kind :: string
  vr_label :: string
  vr_name :: string
  vr_order :: "string option"

text \<open>
  \<^verbatim>\<open>^tenants/(?P<tenant>[0-9]+)/orders/(?P<order>[0-9]+)/\<close>: the tenant and the order a key
  names, when it starts that way.
\<close>

definition match_suliko_key :: "string \<Rightarrow> (string \<times> string) option" where
  "match_suliko_key key =
     (case split_on (CHR ''/'') key of
        a # t # b # n # _ # _ \<Rightarrow>
          if a = ''tenants'' \<and> t \<noteq> [] \<and> list_all is_digit t \<and>
             b = ''orders'' \<and> n \<noteq> [] \<and> list_all is_digit n
          then Some (t, n) else None
      | _ \<Rightarrow> None)"

definition vault_label :: "string \<Rightarrow> string" where
  "vault_label key =
     (case match_suliko_key key of
        None \<Rightarrow> ''Suliko order''
      | Some (t, n) \<Rightarrow> ''Suliko order '' @ n @ '' (bureau '' @ t @ '')'')"

definition vault_request_for :: "string \<Rightarrow> string \<Rightarrow> string \<Rightarrow> string option \<Rightarrow> vault_request" where
  "vault_request_for key file_name kind sibling_key =
     \<lparr>vr_kind = kind, vr_label = vault_label key, vr_name = file_name,
      vr_order = map_option show_int (Option.bind sibling_key vault_order_of)\<rparr>"

text \<open>
  The vault's answer: a status, and with 200 the order number and file id of its body, if the
  body was readable. A file is in the vault under the key its answer names; bytes it may keep
  without ever naming them are outside the model.
\<close>

record vault_answer =
  va_status :: "nat option"
  va_body :: "(int \<times> string) option"

definition put_file ::
    "(vault_request \<Rightarrow> vault_answer) \<Rightarrow> string \<Rightarrow> string \<Rightarrow> string \<Rightarrow> string \<Rightarrow> string option \<Rightarrow> objects
     \<Rightarrow> string storage_result \<times> objects" where
  "put_file vault key content file_name kind sibling_key w =
     (let answer = vault (vault_request_for key file_name kind sibling_key)
      in case va_status answer of
           None \<Rightarrow> (Inl (StorageError None), w)
         | Some status \<Rightarrow>
             if status \<noteq> 200 then (Inl (StorageError (Some status)), w)
             else case va_body answer of
               None \<Rightarrow> (Inl (StorageError None), w)
             | Some (order_no, file_id) \<Rightarrow>
                 let stored = vault_key order_no file_id;
                     w' = w\<lparr>vaulted := (vaulted w)(stored \<mapsto> content)\<rparr>
                 in if match_vault_key stored = None then (Inl (StorageError None), w')
                    else (Inr stored, w'))"

text \<open>What is configured: one of the two plain backends, the vault with or without a plain
  backend for working copies, or nothing.\<close>

datatype storage = Blob blob_backend | Vault "blob_backend option" | Unconfigured

definition configured :: "storage \<Rightarrow> bool" where
  "configured s \<longleftrightarrow> s \<noteq> Unconfigured"

definition is_vault :: "storage \<Rightarrow> bool" where
  "is_vault s \<longleftrightarrow> (case s of Vault _ \<Rightarrow> True | _ \<Rightarrow> False)"

definition keeps_working_copies :: "storage \<Rightarrow> bool" where
  "keeps_working_copies s \<longleftrightarrow> (case s of Vault (Some _) \<Rightarrow> True | _ \<Rightarrow> False)"

definition put_working ::
    "storage \<Rightarrow> reply \<Rightarrow> string \<Rightarrow> string \<Rightarrow> objects \<Rightarrow> unit storage_result \<times> objects" where
  "put_working s r key content w =
     (case s of Vault (Some b) \<Rightarrow> blob_put b r key content w | _ \<Rightarrow> (Inl StorageNotConfiguredError, w))"

definition iter_working :: "storage \<Rightarrow> reply \<Rightarrow> string \<Rightarrow> objects \<Rightarrow> string storage_result" where
  "iter_working s r key w =
     (case s of Vault (Some b) \<Rightarrow> blob_get b r key w | _ \<Rightarrow> Inl StorageNotConfiguredError)"

definition delete_working :: "storage \<Rightarrow> reply \<Rightarrow> string \<Rightarrow> objects \<Rightarrow> unit storage_result \<times> objects" where
  "delete_working s r key w =
     (case s of Vault (Some b) \<Rightarrow> blob_delete b r key w | _ \<Rightarrow> (Inl StorageNotConfiguredError, w))"

definition iter_get :: "storage \<Rightarrow> reply \<Rightarrow> string \<Rightarrow> objects \<Rightarrow> string storage_result" where
  "iter_get s r key w =
     (case s of
        Blob b \<Rightarrow> blob_get b r key w
      | Vault working \<Rightarrow>
          (case vault_order_of key of
             Some n \<Rightarrow> Inl (StorageDownloadUnavailableError (Some n))
           | None \<Rightarrow>
               (case working of
                  None \<Rightarrow> Inl (StorageError (Some 404))
                | Some b \<Rightarrow> blob_get b r key w))
      | Unconfigured \<Rightarrow> Inl StorageNotConfiguredError)"

definition storage_delete :: "storage \<Rightarrow> reply \<Rightarrow> string \<Rightarrow> objects \<Rightarrow> unit storage_result \<times> objects" where
  "storage_delete s r key w =
     (case s of
        Blob b \<Rightarrow> blob_delete b r key w
      | Vault working \<Rightarrow>
          (case match_vault_key key of
             None \<Rightarrow>
               (case working of
                  None \<Rightarrow> (Inl (StorageError None), w)
                | Some b \<Rightarrow> blob_delete b r key w)
           | Some _ \<Rightarrow>
               (case r of
                  Answered status \<Rightarrow>
                    if 300 \<le> status \<and> status \<noteq> 404 then (Inl (StorageError (Some status)), w)
                    else (Inr (), w\<lparr>vaulted := (vaulted w)(key := None)\<rparr>)
                | Failed carried_out \<Rightarrow>
                    (Inl (StorageError None),
                     if carried_out then w\<lparr>vaulted := (vaulted w)(key := None)\<rparr> else w)))
      | Unconfigured \<Rightarrow> (Inl StorageNotConfiguredError, w))"

section \<open>The contract\<close>

text \<open>
  What a plain backend promises whoever stores files in it: a put that reports success is read
  back, a delete that reports success leaves nothing, neither touches another key, and a get
  answers only with what is there.
\<close>

locale object_store =
  fixes put :: "reply \<Rightarrow> string \<Rightarrow> string \<Rightarrow> objects \<Rightarrow> unit storage_result \<times> objects"
    and get :: "reply \<Rightarrow> string \<Rightarrow> objects \<Rightarrow> string storage_result"
    and del :: "reply \<Rightarrow> string \<Rightarrow> objects \<Rightarrow> unit storage_result \<times> objects"
  assumes put_holds: "put r key content w = (Inr u, w') \<Longrightarrow> blobs w' key = Some content"
    and put_keeps: "put r key content w = (x, w') \<Longrightarrow> other \<noteq> key \<Longrightarrow> blobs w' other = blobs w other"
    and put_vault: "put r key content w = (x, w') \<Longrightarrow> vaulted w' = vaulted w"
    and get_true: "get r key w = Inr content \<Longrightarrow> blobs w key = Some content"
    and get_reads: "blobs w key = Some content \<Longrightarrow> well_formed_key key \<Longrightarrow> get (Answered 200) key w = Inr content"
    and del_gone: "del r key w = (Inr u, w') \<Longrightarrow> blobs w' key = None"
    and del_keeps: "del r key w = (x, w') \<Longrightarrow> other \<noteq> key \<Longrightarrow> blobs w' other = blobs w other"
    and del_vault: "del r key w = (x, w') \<Longrightarrow> vaulted w' = vaulted w"
    and put_key: "put r key content w = (Inr u, w') \<Longrightarrow> well_formed_key key"
begin

lemma put_then_get:
  assumes "put r key content w = (Inr u, w')"
  shows "get (Answered 200) key w' = Inr content"
  by (rule get_reads [OF put_holds [OF assms] put_key [OF assms]])

lemma get_after_put:
  assumes "put r key content w = (Inr u, w')" and "get r' key w' = Inr c"
  shows "c = content"
  using put_holds [OF assms(1)] get_true [OF assms(2)] by simp

lemma get_after_del:
  assumes "del r key w = (Inr u, w')"
  shows "get r' key w' \<noteq> Inr c"
  using del_gone [OF assms] get_true [of r' key w' c] by auto

lemma put_blobs:
  assumes "put r key content w = (x, w')" and "blobs w other = Some c" and "other = key \<longrightarrow> c = content"
    and "x = Inr u"
  shows "blobs w' other = Some c"
  using assms put_holds [of r key content w u w'] put_keeps [OF assms(1), of other] by (cases "other = key") auto

end

interpretation blob: object_store "blob_put b" "blob_get b" "blob_delete b" for b
  by unfold_locales
    (auto simp: blob_put_def blob_get_def blob_delete_def split: if_splits reply.splits option.splits)

section \<open>Reading keys\<close>

lemma no_slash_show: "CHR ''/'' \<notin> set (show_nat n)"
  using show_nat_ids [of "CHR ''/''" n] id_chars_plain by blast

lemma hex_no_slash: "list_all is_hex_char f \<Longrightarrow> CHR ''/'' \<notin> set f"
  by (auto simp: list_all_iff is_hex_char_def is_digit_def Let_def)

lemma id_no_slash: "list_all is_id_char f \<Longrightarrow> CHR ''/'' \<notin> set f"
  using id_chars_plain by (auto simp: list_all_iff)

lemma vault_order_of_vault_key:
  assumes "0 \<le> n" and "n < 10 ^ 9" and "length f = 32" and "list_all is_hex_char f"
  shows "vault_order_of (vault_key n f) = Some n"
proof -
  have "split_on (CHR ''/'') (vault_key n f) = [''vault'', show_nat (nat n), f]"
    using assms(1) hex_no_slash [OF assms(4)] no_slash_show [of "nat n"]
      split_on_append [of "CHR ''/''" "''vault''" "show_nat (nat n) @ CHR ''/'' # f"]
    by (simp add: vault_key_def show_int_def split_on_append split_on_absent)
  moreover have "list_all is_digit (show_nat (nat n))"
    using show_nat_digits by (auto simp: list_all_iff)
  moreover have "length (show_nat (nat n)) \<le> 9"
    using length_show_nat [of 9 "nat n"] assms(1,2) by (simp add: nat_less_iff)
  moreover have "1 \<le> length (show_nat (nat n))" using show_nat_not_Nil by (cases "show_nat (nat n)") auto
  ultimately show ?thesis using assms by (simp add: vault_order_of_def match_vault_key_def)
qed

lemma match_vault_key_SomeD:
  "match_vault_key key = Some (n, f) \<Longrightarrow>
     split_on (CHR ''/'') key = [''vault'', n, f] \<and> list_all is_digit n \<and> list_all is_hex_char f"
  by (auto simp: match_vault_key_def split: list.splits if_splits)

lemma vault_order_None_iff: "vault_order_of key = None \<longleftrightarrow> match_vault_key key = None"
  by (auto simp: vault_order_of_def)

lemma put_file_Inr:
  assumes "put_file vault key content file_name kind sibling w = (Inr stored, w')"
  shows "match_vault_key stored \<noteq> None \<and> w' = w\<lparr>vaulted := (vaulted w)(stored \<mapsto> content)\<rparr>"
  using assms by (auto simp: put_file_def Let_def split: option.splits if_splits)

lemma put_file_blobs: "put_file vault key content file_name kind sibling w = (x, w') \<Longrightarrow> blobs w' = blobs w"
  by (auto simp: put_file_def Let_def split: option.splits if_splits)

end
