(* ===== verification/Files.thy ===== *)
theory Files
  imports Storage Orders
begin

text \<open>
  \<^verbatim>\<open>domain/order_files.py\<close> and \<^verbatim>\<open>api/v1/order_files.py\<close>: the rows of one bureau's order
  files beside the objects that hold their bytes. Uploading, downloading, renaming, moving to
  another document, removing (hidden at once, purged after the retention period), the
  translators' working copies, and what deleting a document or an order does to its files.
\<close>

section \<open>Names and keys\<close>

definition is_file_id :: "string \<Rightarrow> bool" where
  "is_file_id s \<longleftrightarrow> 8 \<le> length s \<and> length s \<le> 100 \<and> list_all is_id_char s"

definition storage_key :: "int \<Rightarrow> int \<Rightarrow> int \<Rightarrow> string \<Rightarrow> string" where
  "storage_key tenant_id order_id document_id public_id =
     ''tenants/'' @ show_int tenant_id @ ''/orders/'' @ show_int order_id @
     ''/documents/'' @ show_int document_id @ CHR ''/'' # public_id"

definition is_control :: "char \<Rightarrow> bool" where
  "is_control c = (let n = (of_char c :: nat) in n < 32 \<or> n = 127)"

definition clean_name :: "string \<Rightarrow> string" where
  "clean_name value = take 200 (strip (filter (\<lambda>c. \<not> is_control c) value))"

definition safe_file_name :: "string option \<Rightarrow> string" where
  "safe_file_name name =
     (let base = after_last (CHR 0x5C) (after_last (CHR ''/'') (or_blank name));
          cleaned = clean_name base
      in if cleaned = [] then ''file'' else cleaned)"

definition is_mime :: "string \<Rightarrow> bool" where
  "is_mime s \<longleftrightarrow>
     (case split_on (CHR ''/'') s of
        [a, b] \<Rightarrow> a \<noteq> [] \<and> b \<noteq> [] \<and> list_all is_mime_char a \<and> list_all is_mime_char b
      | _ \<Rightarrow> False)"

definition safe_content_type :: "string option \<Rightarrow> string" where
  "safe_content_type value =
     (let v = lower (strip (hd (split_on (CHR '';'') (or_blank value))))
      in if \<not> is_mime v \<or> 100 < length v then ''application/octet-stream'' else v)"

text \<open>\<^verbatim>\<open>PurePosixPath(name).suffix\<close> for a name without a slash: from the last dot, unless the
  name begins or ends with it. And \<^verbatim>\<open>s[:n]\<close>, where a negative \<open>n\<close> counts from the end.\<close>

definition name_suffix :: "string \<Rightarrow> string" where
  "name_suffix name =
     (case rpartition (CHR ''.'') name of
        (stem, dot, ext) \<Rightarrow> if stem \<noteq> [] \<and> dot \<noteq> [] \<and> ext \<noteq> [] then dot @ ext else [])"

definition slice_to :: "int \<Rightarrow> string \<Rightarrow> string" where
  "slice_to n s = take (nat (if n < 0 then int (length s) + n else n)) s"

definition ends_with :: "string \<Rightarrow> string \<Rightarrow> bool" where
  "ends_with s t \<longleftrightarrow> take (length t) (rev s) = rev t"

definition renamed :: "string \<Rightarrow> string \<Rightarrow> string" where
  "renamed current wanted =
     (let name = safe_file_name (Some wanted);
          suffix = name_suffix current
      in if suffix \<noteq> [] \<and> \<not> ends_with (lower name) (lower suffix)
         then safe_file_name (Some (slice_to (200 - int (length suffix)) name @ suffix))
         else name)"

section \<open>Rows\<close>

datatype file_kind = SOURCE_file | TRANSLATION_file

fun file_kind_value :: "file_kind \<Rightarrow> string" where
  "file_kind_value SOURCE_file = ''source''"
| "file_kind_value TRANSLATION_file = ''translation''"

record order_file =
  f_id :: int
  f_public_id :: string
  f_document_id :: "int option"
  f_kind :: file_kind
  f_name :: string
  f_content_type :: string
  f_size :: int
  f_sha256 :: string
  f_storage_key :: string
  f_working_key :: "string option"
  f_uploaded_by :: string
  f_created_at :: instant
  f_deleted_at :: "instant option"
  f_deleted_by :: "string option"

text \<open>
  One bureau's files: its rows and documents, the objects outside, and the source files a
  Suliko Translate job is running on (\<^verbatim>\<open>DocumentTranslation\<close> rows being processed).
\<close>

record room =
  rm_tenant_id :: int
  rm_next_file_id :: int
  rm_office :: office
  rm_files :: "order_file list"
  rm_objects :: objects
  rm_translating :: "int list"

definition is_live_file :: "order_file \<Rightarrow> bool" where
  "is_live_file f \<longleftrightarrow> f_deleted_at f = None"

definition vault_order :: "order_file \<Rightarrow> int option" where
  "vault_order f = vault_order_of (f_storage_key f)"

definition downloadable :: "order_file \<Rightarrow> bool" where
  "downloadable f \<longleftrightarrow> vault_order f = None \<or> f_working_key f \<noteq> None"

definition DOCX_CONTENT_TYPE :: string where
  "DOCX_CONTENT_TYPE = ''application/vnd.openxmlformats-officedocument.wordprocessingml.document''"

definition is_editable_translation :: "order_file \<Rightarrow> bool" where
  "is_editable_translation f \<longleftrightarrow>
     f_kind f = TRANSLATION_file \<and> f_content_type f \<in> {DOCX_CONTENT_TYPE, ''text/html''}"

section \<open>Reading\<close>

definition list_document_files :: "int \<Rightarrow> room \<Rightarrow> order_file list" where
  "list_document_files did rm = filter (\<lambda>f. f_document_id f = Some did \<and> is_live_file f) (rm_files rm)"

definition count_files_added_by :: "int \<Rightarrow> file_kind \<Rightarrow> string \<Rightarrow> room \<Rightarrow> nat" where
  "count_files_added_by did kind uploaded_by rm =
     length (filter (\<lambda>f. f_document_id f = Some did \<and> is_live_file f \<and> f_kind f = kind \<and>
                         f_uploaded_by f = uploaded_by) (rm_files rm))"

definition get_document_file :: "int \<Rightarrow> string \<Rightarrow> room \<Rightarrow> order_file result" where
  "get_document_file did public_id rm =
     (if \<not> is_file_id public_id then Inl (NotFoundError ''File not found.'')
      else case find (\<lambda>f. f_public_id f = public_id \<and> f_document_id f = Some did \<and> is_live_file f) (rm_files rm) of
             None \<Rightarrow> Inl (NotFoundError ''File not found.'')
           | Some f \<Rightarrow> Inr f)"

definition open_download :: "storage \<Rightarrow> reply \<Rightarrow> order_file \<Rightarrow> objects \<Rightarrow> string storage_result" where
  "open_download s r f w =
     (case vault_order f of
        None \<Rightarrow> iter_get s r (f_storage_key f) w
      | Some n \<Rightarrow>
          let stream = (if is_vault s
                        then (case f_working_key f of
                                None \<Rightarrow> Inl (StorageDownloadUnavailableError (Some n))
                              | Some key \<Rightarrow> iter_working s r key w)
                        else iter_get s r (f_storage_key f) w)
          in case stream of
               Inl e \<Rightarrow> Inl (if is_not_found e then StorageDownloadUnavailableError (Some n) else e)
             | Inr content \<Rightarrow> Inr content)"

definition storage_usage :: "room \<Rightarrow> nat \<times> int" where
  "storage_usage rm = (length (rm_files rm), sum_list (map f_size (rm_files rm)))"

section \<open>Writing\<close>

text \<open>What the outside calls of one upload are answered with.\<close>

record replies =
  rp_put :: reply
  rp_working :: reply
  rp_vault :: "vault_request \<Rightarrow> vault_answer"
  rp_cleanup :: reply

text \<open>The bytes first: the key they are stored under, and the key of the working copy.\<close>

definition upload_bytes ::
    "storage \<Rightarrow> replies \<Rightarrow> string option \<Rightarrow> string \<Rightarrow> string \<Rightarrow> file_kind \<Rightarrow> string \<Rightarrow> objects
     \<Rightarrow> (string \<times> string option) storage_result \<times> objects" where
  "upload_bytes s rp sibling key file_name kind content w =
     (case s of
        Unconfigured \<Rightarrow> (Inl StorageNotConfiguredError, w)
      | Blob b \<Rightarrow>
          (case blob_put b (rp_put rp) key content w of
             (Inl e, w1) \<Rightarrow> (Inl e, w1)
           | (Inr _, w1) \<Rightarrow> (Inr (key, None), w1))
      | Vault working \<Rightarrow>
          (case (if keeps_working_copies s then put_working s (rp_working rp) key content w else (Inr (), w)) of
             (Inl e, w1) \<Rightarrow> (Inl e, w1)
           | (Inr _, w1) \<Rightarrow>
               (case put_file (rp_vault rp) key content file_name (file_kind_value kind) sibling w1 of
                  (Inl e, w2) \<Rightarrow>
                    (Inl e, if keeps_working_copies s then snd (delete_working s (rp_cleanup rp) key w2) else w2)
                | (Inr stored, w2) \<Rightarrow>
                    (Inr (stored, if keeps_working_copies s then Some key else None), w2))))"

definition file_order :: "office \<Rightarrow> order_file \<Rightarrow> int option" where
  "file_order db f =
     map_option d_order_id (Option.bind (f_document_id f) (\<lambda>did. get_row d_id did (documents db)))"

definition vault_sibling_key :: "int \<Rightarrow> room \<Rightarrow> string option" where
  "vault_sibling_key order_id rm =
     map_option f_storage_key
       (find (\<lambda>f. file_order (rm_office rm) f = Some order_id \<and> take 6 (f_storage_key f) = ''vault/'')
         (rev (rm_files rm)))"

definition upload_document_file ::
    "storage \<Rightarrow> replies \<Rightarrow> (string \<Rightarrow> string) \<Rightarrow> instant \<Rightarrow> string \<Rightarrow> int \<Rightarrow> int \<Rightarrow> file_kind
     \<Rightarrow> string \<Rightarrow> string \<Rightarrow> string \<Rightarrow> string \<Rightarrow> room \<Rightarrow> order_file storage_result \<times> room" where
  "upload_document_file s rp sha256 now public_id order_id document_id kind file_name content
       content_type uploaded_by rm =
     (case upload_bytes s rp (vault_sibling_key order_id rm)
             (storage_key (rm_tenant_id rm) order_id document_id public_id) file_name kind content
             (rm_objects rm) of
        (Inl e, w) \<Rightarrow> (Inl e, rm\<lparr>rm_objects := w\<rparr>)
      | (Inr (key, working_key), w) \<Rightarrow>
          let row = \<lparr>f_id = rm_next_file_id rm, f_public_id = public_id,
                     f_document_id = Some document_id, f_kind = kind, f_name = file_name,
                     f_content_type = content_type, f_size = int (length content),
                     f_sha256 = sha256 content, f_storage_key = key, f_working_key = working_key,
                     f_uploaded_by = uploaded_by, f_created_at = now, f_deleted_at = None,
                     f_deleted_by = None\<rparr>
          in (Inr row, rm\<lparr>rm_next_file_id := rm_next_file_id rm + 1, rm_files := rm_files rm @ [row],
                          rm_objects := w\<rparr>))"

definition mark_removed :: "instant \<Rightarrow> string \<Rightarrow> order_file \<Rightarrow> order_file" where
  "mark_removed now removed_by f = f\<lparr>f_deleted_at := Some now, f_deleted_by := Some removed_by\<rparr>"

definition remove_document_file :: "instant \<Rightarrow> string \<Rightarrow> order_file \<Rightarrow> room \<Rightarrow> room" where
  "remove_document_file now removed_by f rm =
     rm\<lparr>rm_files := update_where (\<lambda>g. f_id g = f_id f) (mark_removed now removed_by) (rm_files rm)\<rparr>"

definition remove_files_of_documents :: "instant \<Rightarrow> string \<Rightarrow> int list \<Rightarrow> room \<Rightarrow> room" where
  "remove_files_of_documents now removed_by document_ids rm =
     rm\<lparr>rm_files := update_where
          (\<lambda>f. is_live_file f \<and> (\<exists>did \<in> set document_ids. f_document_id f = Some did))
          (mark_removed now removed_by) (rm_files rm)\<rparr>"

text \<open>Deleting a document sets the document of its files to null.\<close>

definition clear_documents :: "int list \<Rightarrow> room \<Rightarrow> room" where
  "clear_documents document_ids rm =
     rm\<lparr>rm_files := update_where (\<lambda>f. \<exists>did \<in> set document_ids. f_document_id f = Some did)
          (\<lambda>f. f\<lparr>f_document_id := None\<rparr>) (rm_files rm)\<rparr>"

section \<open>Housekeeping\<close>

record purge_result =
  pr_purged :: nat
  pr_purged_bytes :: int
  pr_failed :: nat

text \<open>
  The answers to the two deletions of a row are a function of its id. A row goes only when its
  bytes have gone; one that fails stays, to be tried again.
\<close>

definition delete_bytes ::
    "storage \<Rightarrow> (int \<Rightarrow> reply \<times> reply) \<Rightarrow> order_file \<Rightarrow> objects \<Rightarrow> unit storage_result \<times> objects" where
  "delete_bytes s answers f w =
     (case (case f_working_key f of
              Some key \<Rightarrow> if is_vault s then delete_working s (fst (answers (f_id f))) key w else (Inr (), w)
            | None \<Rightarrow> (Inr (), w)) of
        (Inl e, w1) \<Rightarrow> (Inl e, w1)
      | (Inr _, w1) \<Rightarrow> storage_delete s (snd (answers (f_id f))) (f_storage_key f) w1)"

definition purge_file ::
    "storage \<Rightarrow> (int \<Rightarrow> reply \<times> reply) \<Rightarrow> order_file \<Rightarrow> purge_result \<times> room \<Rightarrow> purge_result \<times> room" where
  "purge_file s answers f = (\<lambda>(res, rm).
     case delete_bytes s answers f (rm_objects rm) of
       (Inl _, w) \<Rightarrow> (res\<lparr>pr_failed := pr_failed res + 1\<rparr>, rm\<lparr>rm_objects := w\<rparr>)
     | (Inr _, w) \<Rightarrow>
         (res\<lparr>pr_purged := pr_purged res + 1, pr_purged_bytes := pr_purged_bytes res + f_size f\<rparr>,
          rm\<lparr>rm_objects := w, rm_files := filter (\<lambda>g. f_id g \<noteq> f_id f) (rm_files rm)\<rparr>))"

definition stamp_orphans :: "instant \<Rightarrow> room \<Rightarrow> room" where
  "stamp_orphans now rm =
     rm\<lparr>rm_files := update_where (\<lambda>f. f_document_id f = None \<and> is_live_file f)
          (mark_removed now ''system:document-deleted'') (rm_files rm)\<rparr>"

definition removed_before :: "instant \<Rightarrow> order_file \<Rightarrow> bool" where
  "removed_before cutoff f \<longleftrightarrow> (case f_deleted_at f of None \<Rightarrow> False | Some t \<Rightarrow> t < cutoff)"

definition purge_removed_files ::
    "storage \<Rightarrow> (int \<Rightarrow> reply \<times> reply) \<Rightarrow> instant \<Rightarrow> instant \<Rightarrow> room \<Rightarrow> purge_result \<times> room" where
  "purge_removed_files s answers now cutoff rm =
     (let rm1 = stamp_orphans now rm
      in fold (purge_file s answers) (filter (removed_before cutoff) (rm_files rm1))
           (\<lparr>pr_purged = 0, pr_purged_bytes = 0, pr_failed = 0\<rparr>, rm1))"

definition closed_order :: "office \<Rightarrow> int \<Rightarrow> bool" where
  "closed_order db oid \<longleftrightarrow>
     (case latest_status oid db of None \<Rightarrow> False | Some st \<Rightarrow> is_closed (Some st))"

definition working_copy_due :: "office \<Rightarrow> instant \<Rightarrow> order_file \<Rightarrow> bool" where
  "working_copy_due db older_than f \<longleftrightarrow>
     f_deleted_at f \<noteq> None \<or>
     (case file_order db f of None \<Rightarrow> True | Some oid \<Rightarrow> closed_order db oid) \<or>
     f_created_at f < older_than"

definition drop_working_copy ::
    "storage \<Rightarrow> (int \<Rightarrow> reply \<times> reply) \<Rightarrow> instant \<Rightarrow> order_file \<Rightarrow> purge_result \<times> room \<Rightarrow> purge_result \<times> room" where
  "drop_working_copy s answers older_than f = (\<lambda>(res, rm).
     case f_working_key f of
       None \<Rightarrow> (res, rm)
     | Some key \<Rightarrow>
         if \<not> working_copy_due (rm_office rm) older_than f then (res, rm)
         else case delete_working s (fst (answers (f_id f))) key (rm_objects rm) of
           (Inl _, w) \<Rightarrow> (res\<lparr>pr_failed := pr_failed res + 1\<rparr>, rm\<lparr>rm_objects := w\<rparr>)
         | (Inr _, w) \<Rightarrow>
             (res\<lparr>pr_purged := pr_purged res + 1, pr_purged_bytes := pr_purged_bytes res + f_size f\<rparr>,
              rm\<lparr>rm_objects := w,
                 rm_files := update_where (\<lambda>g. f_id g = f_id f) (\<lambda>g. g\<lparr>f_working_key := None\<rparr>)
                               (rm_files rm)\<rparr>))"

definition purge_working_copies ::
    "storage \<Rightarrow> (int \<Rightarrow> reply \<times> reply) \<Rightarrow> instant \<Rightarrow> room \<Rightarrow> purge_result \<times> room" where
  "purge_working_copies s answers older_than rm =
     (let none = \<lparr>pr_purged = 0, pr_purged_bytes = 0, pr_failed = 0\<rparr>
      in if \<not> is_vault s then (none, rm)
         else fold (drop_working_copy s answers older_than)
                (filter (\<lambda>f. f_working_key f \<noteq> None) (rm_files rm)) (none, rm))"

section \<open>What staff ask for\<close>

definition storage_failure :: "storage_error \<Rightarrow> api_error" where
  "storage_failure e =
     (case e of
        StorageDownloadUnavailableError _ \<Rightarrow> ConflictError ''This file is kept in the Order Vault.''
      | StorageNotConfiguredError \<Rightarrow> UpstreamUnavailableError ''File storage is not configured on the server.''
      | StorageError _ \<Rightarrow>
          if is_not_found e then NotFoundError ''That file is no longer there.''
          else UpstreamUnavailableError ''File storage is not available right now. Please try again.'')"

definition read_upload :: "nat \<Rightarrow> string \<Rightarrow> string result" where
  "read_upload max_bytes content =
     (if max_bytes < length content then Inl (PayloadTooLargeError ''The file is larger than the limit.'')
      else if content = [] then Inl (ValidationError ''The file is empty.'')
      else Inr content)"

definition document_of_order :: "int \<Rightarrow> int \<Rightarrow> office \<Rightarrow> unit result" where
  "document_of_order oid did db =
     (case (get_row o_id oid (orders db), get_row d_id did (documents db)) of
        (Some _, Some d) \<Rightarrow>
          if d_order_id d = oid then Inr () else Inl (NotFoundError ''Document not found.'')
      | _ \<Rightarrow> Inl (NotFoundError ''Document not found.''))"

definition user_tag :: "auth_session \<Rightarrow> string" where
  "user_tag session = ''user:'' @ show_int (as_user_id session)"

definition log_room :: "auth_session \<Rightarrow> string \<Rightarrow> int \<Rightarrow> room \<Rightarrow> room" where
  "log_room session action oid rm = rm\<lparr>rm_office := log_office session action ''order'' oid (rm_office rm)\<rparr>"

definition list_files :: "int \<Rightarrow> int \<Rightarrow> room \<Rightarrow> order_file list result" where
  "list_files oid did rm =
     bind_result (document_of_order oid did (rm_office rm)) (\<lambda>_. Inr (list_document_files did rm))"

text \<open>An upload returns the room in every case: a failed one may have left bytes outside.\<close>

definition upload_file ::
    "auth_session \<Rightarrow> storage \<Rightarrow> replies \<Rightarrow> (string \<Rightarrow> string) \<Rightarrow> nat \<Rightarrow> instant \<Rightarrow> string \<Rightarrow> int \<Rightarrow> int
     \<Rightarrow> file_kind \<Rightarrow> string option \<Rightarrow> string option \<Rightarrow> string \<Rightarrow> room \<Rightarrow> order_file result \<times> room" where
  "upload_file session s rp sha256 max_bytes now public_id oid did kind file_name content_type content rm =
     (case bind_result (document_of_order oid did (rm_office rm)) (\<lambda>_. read_upload max_bytes content) of
        Inl e \<Rightarrow> (Inl e, rm)
      | Inr bytes \<Rightarrow>
          (case upload_document_file s rp sha256 now public_id oid did kind (safe_file_name file_name) bytes
                  (safe_content_type content_type) (user_tag session) rm of
             (Inl e, rm1) \<Rightarrow> (Inl (storage_failure e), rm1)
           | (Inr row, rm1) \<Rightarrow> (Inr row, log_room session ''order.file_uploaded'' oid rm1)))"

text \<open>The pattern on the path, which the framework checks before the handler runs.\<close>

definition file_id_path :: "string \<Rightarrow> unit result" where
  "file_id_path file_id =
     (if is_file_id file_id then Inr () else Inl (ValidationError ''Request validation failed.''))"

definition download_file :: "storage \<Rightarrow> reply \<Rightarrow> int \<Rightarrow> int \<Rightarrow> string \<Rightarrow> room \<Rightarrow> string result" where
  "download_file s r oid did file_id rm =
     bind_result (file_id_path file_id) (\<lambda>_.
     bind_result (document_of_order oid did (rm_office rm)) (\<lambda>_.
     bind_result (get_document_file did file_id rm) (\<lambda>f.
       case open_download s r f (rm_objects rm) of
         Inl e \<Rightarrow> Inl (storage_failure e)
       | Inr content \<Rightarrow> Inr content)))"

record file_change =
  fc_kind :: "file_kind option"
  fc_name :: "string option"

definition validate_file_change :: "file_change \<Rightarrow> file_change result" where
  "validate_file_change p =
     (if fc_kind p = None \<and> fc_name p = None
        then Inl (ValidationError ''Nothing to change: give a kind, a name, or both.'')
      else if \<not> optional (\<lambda>n. 1 \<le> length n \<and> length n \<le> 255) (fc_name p)
        then Inl (ValidationError ''Request validation failed.'')
      else Inr p)"

definition changed_file :: "file_change \<Rightarrow> order_file \<Rightarrow> order_file" where
  "changed_file p f = f\<lparr>f_kind := or_else (fc_kind p) (f_kind f),
     f_name := (case fc_name p of None \<Rightarrow> f_name f | Some n \<Rightarrow> renamed (f_name f) n)\<rparr>"

definition update_file ::
    "auth_session \<Rightarrow> int \<Rightarrow> int \<Rightarrow> string \<Rightarrow> file_change \<Rightarrow> room \<Rightarrow> (order_file \<times> room) result" where
  "update_file session oid did file_id payload rm =
     bind_result (file_id_path file_id) (\<lambda>_.
     bind_result (validate_file_change payload) (\<lambda>p.
     bind_result (document_of_order oid did (rm_office rm)) (\<lambda>_.
     bind_result (get_document_file did file_id rm) (\<lambda>f.
       if vault_order f \<noteq> None
         then Inl (ConflictError ''This file is kept in the Order Vault, where it stays as it was filed.'')
       else let f' = changed_file p f
            in if f_kind f' = f_kind f \<and> f_name f' = f_name f then Inr (f, rm)
               else Inr (f', log_room session ''order.file_changed'' oid
                 (rm\<lparr>rm_files := update_where (\<lambda>g. f_id g = f_id f) (\<lambda>_. f') (rm_files rm)\<rparr>))))))"

definition MAX_LINKS :: nat where "MAX_LINKS = 200"

definition validate_links :: "(string \<times> int) list \<Rightarrow> (string \<times> int) list result" where
  "validate_links links =
     (if links = [] \<or> MAX_LINKS < length links \<or> \<not> list_all (\<lambda>(i, _). is_file_id i) links
        then Inl (ValidationError ''Request validation failed.'')
      else if \<not> distinct (map fst links)
        then Inl (ValidationError ''A file can be linked to one document at a time.'')
      else Inr links)"

definition linked_row :: "int list \<Rightarrow> string \<Rightarrow> room \<Rightarrow> order_file option" where
  "linked_row document_ids public_id rm =
     find (\<lambda>f. f_public_id f = public_id \<and> (\<exists>did \<in> set document_ids. f_document_id f = Some did) \<and>
               is_live_file f) (rm_files rm)"

text \<open>The rows a request names, each with the document it is to go to: all of them, or the
  file that is not the order's.\<close>

definition moves_asked :: "int list \<Rightarrow> (string \<times> int) list \<Rightarrow> room \<Rightarrow> (order_file \<times> int) list result" where
  "moves_asked document_ids links rm =
     map_result (\<lambda>(i, target). case linked_row document_ids i rm of
         None \<Rightarrow> Inl (NotFoundError ''File not found.'')
       | Some f \<Rightarrow> Inr (f, target)) links"

definition move_file :: "order_file \<times> int \<Rightarrow> room \<Rightarrow> room" where
  "move_file m rm = rm\<lparr>rm_files := update_where (\<lambda>g. f_id g = f_id (fst m))
     (\<lambda>g. g\<lparr>f_document_id := Some (snd m)\<rparr>) (rm_files rm)\<rparr>"

definition link_files ::
    "auth_session \<Rightarrow> int \<Rightarrow> (string \<times> int) list \<Rightarrow> room \<Rightarrow> ((string \<times> int) list \<times> room) result" where
  "link_files session oid payload rm =
     bind_result (validate_links payload) (\<lambda>links.
     case get_row o_id oid (orders (rm_office rm)) of
       None \<Rightarrow> Inl (NotFoundError ''Order not found.'')
     | Some _ \<Rightarrow>
       let document_ids = map d_id (order_documents oid (rm_office rm))
       in if \<not> snd ` set links \<subseteq> set document_ids then Inl (NotFoundError ''Document not found.'')
          else bind_result (moves_asked document_ids links rm) (\<lambda>asked.
            let moving = filter (\<lambda>(f, target). f_document_id f \<noteq> Some target) asked
            in if \<exists>(f, _) \<in> set moving. f_id f \<in> set (rm_translating rm)
                 then Inl (ConflictError ''Suliko Translate is working on a file. Link it when it has finished.'')
               else if moving = [] then Inr ([], rm)
               else Inr (map (\<lambda>(f, target). (f_public_id f, target)) moving,
                         log_room session ''order.files_linked'' oid (fold move_file moving rm))))"

definition delete_file :: "auth_session \<Rightarrow> instant \<Rightarrow> int \<Rightarrow> int \<Rightarrow> string \<Rightarrow> room \<Rightarrow> room result" where
  "delete_file session now oid did file_id rm =
     bind_result (file_id_path file_id) (\<lambda>_.
     bind_result (document_of_order oid did (rm_office rm)) (\<lambda>_.
     bind_result (get_document_file did file_id rm) (\<lambda>f.
       Inr (log_room session ''order.file_removed'' oid
              (remove_document_file now (user_tag session) f rm)))))"

text \<open>Deleting a document or an order: the rows of \<open>Orders\<close>, and the files marked first.\<close>

definition delete_document_and_files ::
    "auth_session \<Rightarrow> instant \<Rightarrow> int \<Rightarrow> int \<Rightarrow> room \<Rightarrow> room result" where
  "delete_document_and_files session now oid did rm =
     bind_result (delete_order_document session oid did (rm_office rm)) (\<lambda>db.
       Inr (clear_documents [did]
              (remove_files_of_documents now (user_tag session) [did] (rm\<lparr>rm_office := db\<rparr>))))"

definition delete_order_and_files :: "auth_session \<Rightarrow> instant \<Rightarrow> int \<Rightarrow> room \<Rightarrow> room result" where
  "delete_order_and_files session now oid rm =
     bind_result (delete_order session oid (rm_office rm)) (\<lambda>db.
       let ids = map d_id (order_documents oid (rm_office rm))
       in Inr (clear_documents ids
                 (remove_files_of_documents now (user_tag session) ids (rm\<lparr>rm_office := db\<rparr>))))"

section \<open>Keys the server builds\<close>

lemma after_last_append: "c \<notin> set t \<Longrightarrow> after_last c (s @ c # t) = t"
proof -
  assume "c \<notin> set t"
  have "takeWhile (\<lambda>x. x \<noteq> c) (rev t @ c # rev s) = rev t @ takeWhile (\<lambda>x. x \<noteq> c) (c # rev s)"
    by (rule takeWhile_append2) (use \<open>c \<notin> set t\<close> in auto)
  then show ?thesis by (simp add: after_last_def)
qed

lemma after_last_storage_key:
  "list_all is_id_char pid \<Longrightarrow> after_last (CHR ''/'') (storage_key t oid did pid) = pid"
  using after_last_append [of "CHR ''/''" pid "''tenants/'' @ show_int t @ ''/orders/'' @ show_int oid @
      ''/documents/'' @ show_int did"] id_no_slash [of pid]
  by (simp add: storage_key_def)

lemma storage_key_not_vault: "match_vault_key (storage_key t oid did pid) = None"
proof -
  have "split_on (CHR ''/'') (storage_key t oid did pid) =
      ''tenants'' # split_on (CHR ''/'') (show_int t @ ''/orders/'' @ show_int oid @ ''/documents/'' @ show_int did @ CHR ''/'' # pid)"
    using split_on_append [of "CHR ''/''" "''tenants''"] by (simp add: storage_key_def)
  then show ?thesis by (auto simp: match_vault_key_def split: list.splits)
qed

section \<open>Every live file has its bytes\<close>

definition holds_bytes :: "(string \<Rightarrow> string) \<Rightarrow> order_file \<Rightarrow> string \<Rightarrow> bool" where
  "holds_bytes sha256 f c \<longleftrightarrow> f_size f = int (length c) \<and> f_sha256 f = sha256 c"

definition own_file :: "order_file \<Rightarrow> bool" where
  "own_file f \<longleftrightarrow> match_vault_key (f_storage_key f) = None"

text \<open>
  A file in the bureau's own storage: its key is its own, and its bytes are there as long as it is
  not removed. A file in the vault is the vault's to keep; what the server may read back of it is
  its working copy. Whatever is found under either key is what was uploaded.
\<close>

definition file_ok :: "(string \<Rightarrow> string) \<Rightarrow> objects \<Rightarrow> order_file \<Rightarrow> bool" where
  "file_ok sha256 w f \<longleftrightarrow>
     (own_file f \<longrightarrow> well_formed_key (f_storage_key f) \<and> after_last (CHR ''/'') (f_storage_key f) = f_public_id f \<and>
        f_working_key f = None \<and> (is_live_file f \<longrightarrow> blobs w (f_storage_key f) \<noteq> None) \<and>
        (\<forall>c. blobs w (f_storage_key f) = Some c \<longrightarrow> holds_bytes sha256 f c)) \<and>
     (\<forall>k. f_working_key f = Some k \<longrightarrow>
        after_last (CHR ''/'') k = f_public_id f \<and> (\<forall>c. blobs w k = Some c \<longrightarrow> holds_bytes sha256 f c))"

definition room_ok :: "(string \<Rightarrow> string) \<Rightarrow> room \<Rightarrow> bool" where
  "room_ok sha256 rm \<longleftrightarrow>
     distinct (map f_id (rm_files rm)) \<and> distinct (map f_public_id (rm_files rm)) \<and>
     (\<forall>k. match_vault_key k \<noteq> None \<longrightarrow> blobs (rm_objects rm) k = None) \<and>
     (\<forall>f \<in> set (rm_files rm). f_id f < rm_next_file_id rm \<and> file_ok sha256 (rm_objects rm) f)"

text \<open>A row rewritten without touching what ties it to its bytes.\<close>

definition same_file :: "order_file \<Rightarrow> order_file \<Rightarrow> bool" where
  "same_file f g \<longleftrightarrow> f_id g = f_id f \<and> f_public_id g = f_public_id f \<and> f_storage_key g = f_storage_key f \<and>
     f_size g = f_size f \<and> f_sha256 g = f_sha256 f \<and>
     (f_working_key g = f_working_key f \<or> f_working_key g = None) \<and> (is_live_file g \<longrightarrow> is_live_file f)"

lemma same_file_refl [simp]: "same_file f f"
  by (simp add: same_file_def)

lemma file_okD:
  assumes "file_ok sha256 w f"
  shows "own_file f \<Longrightarrow> blobs w (f_storage_key f) = Some c \<Longrightarrow> holds_bytes sha256 f c"
    and "own_file f \<Longrightarrow> is_live_file f \<Longrightarrow> blobs w (f_storage_key f) \<noteq> None"
    and "own_file f \<Longrightarrow> after_last (CHR ''/'') (f_storage_key f) = f_public_id f"
    and "own_file f \<Longrightarrow> f_working_key f = None"
    and "f_working_key f = Some k \<Longrightarrow> after_last (CHR ''/'') k = f_public_id f"
    and "f_working_key f = Some k \<Longrightarrow> blobs w k = Some c \<Longrightarrow> holds_bytes sha256 f c"
    and "own_file f \<Longrightarrow> well_formed_key (f_storage_key f)"
  using assms unfolding file_ok_def by blast+

lemma same_file_ok:
  assumes "same_file f g" and "file_ok sha256 w f"
  shows "file_ok sha256 w g"
proof -
  note ok = file_okD [OF assms(2)]
  have key: "f_storage_key g = f_storage_key f" and pid: "f_public_id g = f_public_id f"
    and live: "is_live_file g \<Longrightarrow> is_live_file f"
    and work: "f_working_key g = Some k \<Longrightarrow> f_working_key f = Some k" for k
    using assms(1) by (auto simp: same_file_def)
  have own: "own_file g = own_file f" by (simp add: own_file_def key)
  have holds: "holds_bytes sha256 g c = holds_bytes sha256 f c" for c
    using assms(1) by (simp add: holds_bytes_def same_file_def)
  have none: "f_working_key f = None \<Longrightarrow> f_working_key g = None"
    using work by (cases "f_working_key g") simp_all
  show ?thesis
    unfolding file_ok_def own holds key pid using ok live work none by blast
qed

lemma same_file_from:
  "list_all2 same_file fs gs \<Longrightarrow> g \<in> set gs \<Longrightarrow> \<exists>f \<in> set fs. same_file f g"
  by (induction rule: list_all2_induct) auto

lemma rows_rewritten:
  assumes "room_ok sha256 rm" and "list_all2 same_file (rm_files rm) (rm_files rm')"
    and "rm_objects rm' = rm_objects rm" and "rm_next_file_id rm' = rm_next_file_id rm"
  shows "room_ok sha256 rm'"
proof -
  have keys: "map h (rm_files rm') = map h (rm_files rm)"
    if "\<And>f g. same_file f g \<Longrightarrow> h g = h f" for h :: "order_file \<Rightarrow> 'k"
    using assms(2) that by (simp add: list_all2_conv_all_nth list_eq_iff_nth_eq)
  have "map f_id (rm_files rm') = map f_id (rm_files rm)"
       "map f_public_id (rm_files rm') = map f_public_id (rm_files rm)"
    by (auto intro: keys simp: same_file_def)
  moreover have "f_id g < rm_next_file_id rm' \<and> file_ok sha256 (rm_objects rm') g"
    if g: "g \<in> set (rm_files rm')" for g
  proof -
    from same_file_from [OF assms(2) g] obtain f where "f \<in> set (rm_files rm)" "same_file f g" by blast
    moreover from this assms(1) have "f_id f < rm_next_file_id rm" "file_ok sha256 (rm_objects rm) f"
      by (auto simp: room_ok_def)
    ultimately show ?thesis using assms(3,4) same_file_ok [of f g] by (simp add: same_file_def)
  qed
  ultimately show ?thesis using assms(1,3) by (simp add: room_ok_def)
qed

lemma same_files_update:
  "(\<And>f. P f \<Longrightarrow> same_file f (h f)) \<Longrightarrow> list_all2 same_file fs (update_where P h fs)"
  by (simp add: update_where_def list_all2_conv_all_nth)

lemma rows_updated:
  assumes "room_ok sha256 rm" and "\<And>f. P f \<Longrightarrow> same_file f (h f)"
  shows "room_ok sha256 (rm\<lparr>rm_files := update_where P h (rm_files rm)\<rparr>)"
  by (rule rows_rewritten [OF assms(1)]) (simp_all add: same_files_update assms(2))

lemma office_irrelevant: "room_ok sha256 (rm\<lparr>rm_office := db\<rparr>) \<longleftrightarrow> room_ok sha256 rm"
  by (simp add: room_ok_def)

lemma log_room_ok [simp]: "room_ok sha256 (log_room session action oid rm) \<longleftrightarrow> room_ok sha256 rm"
  by (simp add: log_room_def office_irrelevant)

text \<open>Objects may only have gone, and none that a live row needs.\<close>

definition shrinks :: "objects \<Rightarrow> objects \<Rightarrow> bool" where
  "shrinks w w' \<longleftrightarrow> (\<forall>k. blobs w' k = None \<or> blobs w' k = blobs w k)"

definition needed :: "room \<Rightarrow> string set" where
  "needed rm = f_storage_key ` {f \<in> set (rm_files rm). own_file f \<and> is_live_file f}"

lemma file_ok_shrinks:
  assumes "file_ok sha256 w f" and "shrinks w w'"
    and "own_file f \<Longrightarrow> is_live_file f \<Longrightarrow> blobs w' (f_storage_key f) = blobs w (f_storage_key f)"
  shows "file_ok sha256 w' f"
proof -
  have b: "blobs w' k = Some c \<Longrightarrow> blobs w k = Some c" for k c
    using assms(2) unfolding shrinks_def by (metis option.distinct(1))
  have "own_file f \<Longrightarrow> is_live_file f \<Longrightarrow> blobs w' (f_storage_key f) \<noteq> None"
    using assms(3) file_okD(2) [OF assms(1)] by simp
  then show ?thesis using file_okD [OF assms(1)] b unfolding file_ok_def by blast
qed

text \<open>What one deletion may do: nothing but forget its own key.\<close>

lemma blob_delete_shrinks:
  assumes "blob_delete b r key w = (x, w')"
  shows "shrinks w w' \<and> (\<forall>k. k \<noteq> key \<longrightarrow> blobs w' k = blobs w k)"
  using assms by (auto simp: blob_delete_def shrinks_def split: if_splits reply.splits)

lemma delete_working_shrinks:
  assumes "delete_working s r key w = (x, w')"
  shows "shrinks w w' \<and> (\<forall>k. k \<noteq> key \<longrightarrow> blobs w' k = blobs w k)"
  using assms blob_delete_shrinks [of _ r key w x w']
  by (auto simp: delete_working_def shrinks_def split: storage.splits option.splits)

lemma storage_delete_shrinks:
  assumes "storage_delete s r key w = (x, w')"
  shows "shrinks w w' \<and> (\<forall>k. k \<noteq> key \<longrightarrow> blobs w' k = blobs w k)"
proof (cases s)
  case (Blob b)
  with assms show ?thesis using blob_delete_shrinks [of b r key w x w']
    by (simp add: storage_delete_def is_vault_def)
next
  case (Vault working)
  show ?thesis
  proof (cases "match_vault_key key")
    case None
    with assms Vault show ?thesis using blob_delete_shrinks [of "the working" r key w x w']
      by (auto simp: storage_delete_def shrinks_def split: option.splits)
  next
    case (Some p)
    with assms Vault show ?thesis
      by (auto simp: storage_delete_def shrinks_def split: reply.splits if_splits)
  qed
next
  case Unconfigured
  with assms show ?thesis by (simp add: storage_delete_def shrinks_def)
qed

lemma shrinks_refl [simp]: "shrinks w w"
  by (simp add: shrinks_def)

lemma shrinks_trans: "shrinks u v \<Longrightarrow> shrinks v w \<Longrightarrow> shrinks u w"
  unfolding shrinks_def by (metis (no_types))

lemma room_shrinks:
  assumes "room_ok sha256 rm" and "shrinks (rm_objects rm) w"
    and "\<And>k. k \<in> needed rm \<Longrightarrow> blobs w k = blobs (rm_objects rm) k"
  shows "room_ok sha256 (rm\<lparr>rm_objects := w, rm_files := filter P (rm_files rm)\<rparr>)"
    and "room_ok sha256 (rm\<lparr>rm_objects := w\<rparr>)"
proof -
  have "f_id f < rm_next_file_id rm \<and> file_ok sha256 w f" if f: "f \<in> set (rm_files rm)" for f
  proof -
    from assms(1) f have "f_id f < rm_next_file_id rm" "file_ok sha256 (rm_objects rm) f"
      by (auto simp: room_ok_def)
    moreover have "own_file f \<Longrightarrow> is_live_file f \<Longrightarrow> f_storage_key f \<in> needed rm" using f by (auto simp: needed_def)
    ultimately show ?thesis using file_ok_shrinks [OF _ assms(2)] assms(3) by simp
  qed
  moreover have "blobs w k = None" if "match_vault_key k \<noteq> None" for k
  proof -
    from assms(1) that have "blobs (rm_objects rm) k = None" unfolding room_ok_def by blast
    with assms(2) show ?thesis unfolding shrinks_def by (metis (no_types))
  qed
  ultimately show "room_ok sha256 (rm\<lparr>rm_objects := w, rm_files := filter P (rm_files rm)\<rparr>)"
    and "room_ok sha256 (rm\<lparr>rm_objects := w\<rparr>)"
    using assms(1) by (simp_all add: room_ok_def distinct_map_filter_subset)
qed

lemma distinct_map_eq: "distinct (map h xs) \<Longrightarrow> x \<in> set xs \<Longrightarrow> y \<in> set xs \<Longrightarrow> h x = h y \<Longrightarrow> x = y"
  by (auto simp: distinct_map inj_on_def)

text \<open>The two keys of one row are no other file's in the bureau's own storage.\<close>

lemma keys_of_others:
  assumes "room_ok sha256 rm" and "f \<in> set (rm_files rm)" and "g \<in> set (rm_files rm)" and "g \<noteq> f" and own: "own_file g"
  shows "f_storage_key g \<noteq> f_storage_key f" and "f_working_key f \<noteq> Some (f_storage_key g)"
proof -
  from assms(1) have d: "distinct (map f_public_id (rm_files rm))"
    and ok: "\<And>h. h \<in> set (rm_files rm) \<Longrightarrow> file_ok sha256 (rm_objects rm) h" by (auto simp: room_ok_def)
  have apart: "f_public_id g \<noteq> f_public_id f" using distinct_map_eq [OF d assms(3,2)] assms(4) by blast
  note tail = file_okD(3) [OF ok [OF assms(3)] own]
  show "f_storage_key g \<noteq> f_storage_key f"
  proof
    assume same: "f_storage_key g = f_storage_key f"
    with own have "own_file f" by (simp add: own_file_def)
    from file_okD(3) [OF ok [OF assms(2)] this] same tail apart show False by simp
  qed
  show "f_working_key f \<noteq> Some (f_storage_key g)"
    using file_okD(5) [OF ok [OF assms(2)]] tail apart by auto
qed

lemma delete_bytes_shrinks:
  assumes "delete_bytes s answers f w = (x, w')"
  shows "shrinks w w' \<and> (\<forall>k. k \<noteq> f_storage_key f \<and> f_working_key f \<noteq> Some k \<longrightarrow> blobs w' k = blobs w k)"
proof -
  define first where "first = (case f_working_key f of
      Some key \<Rightarrow> if is_vault s then delete_working s (fst (answers (f_id f))) key w else (Inr (), w)
    | None \<Rightarrow> (Inr (), w))"
  obtain e w1 where fw: "first = (e, w1)" by (cases first)
  then have first: "shrinks w w1 \<and> (\<forall>k. f_working_key f \<noteq> Some k \<longrightarrow> blobs w1 k = blobs w k)"
    using delete_working_shrinks by (auto simp: first_def split: option.splits if_splits)
  from assms fw have "e = x \<and> w1 = w' \<or> storage_delete s (snd (answers (f_id f))) (f_storage_key f) w1 = (x, w')"
    by (auto simp: delete_bytes_def first_def [symmetric] split: sum.splits)
  then show ?thesis
  proof
    assume "storage_delete s (snd (answers (f_id f))) (f_storage_key f) w1 = (x, w')"
    from storage_delete_shrinks [OF this] first show ?thesis using shrinks_trans by auto
  qed (use first in auto)
qed

lemma purge_file_ok:
  assumes "room_ok sha256 rm0" and "f \<in> set (rm_files rm0)" and "\<not> is_live_file f"
    and "room_ok sha256 rm" and "set (rm_files rm) \<subseteq> set (rm_files rm0)"
    and "purge_file s answers f (res, rm) = (res', rm')"
  shows "room_ok sha256 rm' \<and> set (rm_files rm') \<subseteq> set (rm_files rm0)"
proof -
  obtain x w where xw: "delete_bytes s answers f (rm_objects rm) = (x, w)" by fastforce
  note sh = delete_bytes_shrinks [OF xw]
  have keep: "blobs w k = blobs (rm_objects rm) k" if "k \<in> needed rm" for k
  proof -
    from that obtain g where g: "g \<in> set (rm_files rm0)" "own_file g" "k = f_storage_key g" "g \<noteq> f"
      using assms(3,5) by (auto simp: needed_def)
    with keys_of_others [OF assms(1,2) g(1) g(4) g(2)] sh show ?thesis by simp
  qed
  have "rm' = rm\<lparr>rm_objects := w\<rparr> \<or> rm' = rm\<lparr>rm_objects := w, rm_files := filter (\<lambda>g. f_id g \<noteq> f_id f) (rm_files rm)\<rparr>"
    using assms(6) xw by (auto simp: purge_file_def split: sum.splits)
  then show ?thesis
    using room_shrinks [OF assms(4) conjunct1 [OF sh] keep] assms(5) by (elim disjE) auto
qed

lemma fold_pair_invariant:
  assumes "\<And>x res st res' st'. x \<in> set xs \<Longrightarrow> P st \<Longrightarrow> step x (res, st) = (res', st') \<Longrightarrow> P st'" and "P st"
    and "fold step xs (res, st) = (res', st')"
  shows "P st'"
  using assms
proof (induction xs arbitrary: res st)
  case (Cons x xs)
  obtain r1 s1 where x: "step x (res, st) = (r1, s1)" by fastforce
  from Cons.prems(1) [OF _ Cons.prems(2) x] have "P s1" by simp
  moreover have "fold step xs (r1, s1) = (res', st')" using Cons.prems(3) x by simp
  ultimately show ?case using Cons.IH [of s1 r1] Cons.prems(1) by (meson list.set_intros(2))
qed simp

lemma stamp_orphans_ok: "room_ok sha256 rm \<Longrightarrow> room_ok sha256 (stamp_orphans now rm)"
  unfolding stamp_orphans_def
  by (rule rows_updated) (simp_all add: same_file_def mark_removed_def is_live_file_def)

lemma purge_removed_files_ok:
  assumes "room_ok sha256 rm"
  shows "room_ok sha256 (snd (purge_removed_files s answers now cutoff rm))"
proof -
  define rm1 where "rm1 = stamp_orphans now rm"
  have rm1: "room_ok sha256 rm1" unfolding rm1_def by (rule stamp_orphans_ok [OF assms])
  obtain res rm' where out: "purge_removed_files s answers now cutoff rm = (res, rm')" by fastforce
  have "room_ok sha256 rm' \<and> set (rm_files rm') \<subseteq> set (rm_files rm1)"
  proof (rule fold_pair_invariant [where P = "\<lambda>st. room_ok sha256 st \<and> set (rm_files st) \<subseteq> set (rm_files rm1)"])
    show "fold (purge_file s answers) (filter (removed_before cutoff) (rm_files rm1))
        (\<lparr>pr_purged = 0, pr_purged_bytes = 0, pr_failed = 0\<rparr>, rm1) = (res, rm')"
      using out by (simp add: purge_removed_files_def rm1_def Let_def)
    show "room_ok sha256 st' \<and> set (rm_files st') \<subseteq> set (rm_files rm1)"
      if "f \<in> set (filter (removed_before cutoff) (rm_files rm1))"
        "room_ok sha256 st \<and> set (rm_files st) \<subseteq> set (rm_files rm1)"
        "purge_file s answers f (r, st) = (r', st')" for f r st r' st'
      using purge_file_ok [OF rm1 _ _ _ _ that(3)] that(1,2)
      by (auto simp: removed_before_def is_live_file_def split: option.splits)
  qed (use rm1 in simp)
  then show ?thesis by (simp add: out)
qed

lemma same_file_trans: "same_file f g \<Longrightarrow> same_file g h \<Longrightarrow> same_file f h"
  by (auto simp: same_file_def)

lemma drop_working_copy_ok:
  assumes "room_ok sha256 rm0" and "f \<in> set (rm_files rm0)" and "room_ok sha256 rm"
    and "list_all2 same_file (rm_files rm0) (rm_files rm)"
    and "drop_working_copy s answers older_than f (res, rm) = (res', rm')"
  shows "room_ok sha256 rm' \<and> list_all2 same_file (rm_files rm0) (rm_files rm')"
proof (cases "f_working_key f")
  case None
  with assms(3-5) show ?thesis by (simp add: drop_working_copy_def)
next
  case (Some key)
  obtain x w where xw: "delete_working s (fst (answers (f_id f))) key (rm_objects rm) = (x, w)" by fastforce
  note sh = delete_working_shrinks [OF xw]
  have keep: "blobs w k = blobs (rm_objects rm) k" if "k \<in> needed rm" for k
  proof -
    from that obtain g where g: "g \<in> set (rm_files rm)" "own_file g" "k = f_storage_key g" by (auto simp: needed_def)
    from same_file_from [OF assms(4) g(1)] obtain h where h: "h \<in> set (rm_files rm0)" "same_file h g" by blast
    then have own: "own_file h" "k = f_storage_key h" using g(2,3) by (simp_all add: own_file_def same_file_def)
    have "key \<noteq> k"
    proof (cases "h = f")
      case True
      with own(1) file_okD(4) [of sha256 "rm_objects rm0" f] assms(1,2) Some show ?thesis by (auto simp: room_ok_def)
    next
      case False
      with keys_of_others(2) [OF assms(1,2) h(1) _ own(1)] own(2) Some show ?thesis by auto
    qed
    then show ?thesis using sh by auto
  qed
  let ?gone = "rm\<lparr>rm_objects := w\<rparr>"
  let ?upd = "update_where (\<lambda>g. f_id g = f_id f) (\<lambda>g. g\<lparr>f_working_key := None\<rparr>)"
  have gone: "room_ok sha256 ?gone" by (rule room_shrinks(2) [OF assms(3) conjunct1 [OF sh] keep])
  have same: "same_file g (g\<lparr>f_working_key := None\<rparr>)" for g by (simp add: same_file_def is_live_file_def)
  have "room_ok sha256 (?gone\<lparr>rm_files := ?upd (rm_files ?gone)\<rparr>)" by (rule rows_updated [OF gone same])
  moreover have "list_all2 same_file (rm_files rm0) (?upd (rm_files rm))"
    by (rule list_all2_trans [OF same_file_trans assms(4) same_files_update]) (simp_all add: same)
  moreover have "rm' = rm \<or> rm' = ?gone \<or> rm' = ?gone\<lparr>rm_files := ?upd (rm_files ?gone)\<rparr>"
    using assms(5) Some xw by (auto simp: drop_working_copy_def split: if_splits sum.splits)
  ultimately show ?thesis using gone assms(3,4) by (elim disjE) simp_all
qed

lemma purge_working_copies_ok:
  assumes "room_ok sha256 rm"
  shows "room_ok sha256 (snd (purge_working_copies s answers older_than rm))"
proof (cases "is_vault s")
  case True
  obtain res rm' where out: "purge_working_copies s answers older_than rm = (res, rm')" by fastforce
  have "room_ok sha256 rm' \<and> list_all2 same_file (rm_files rm) (rm_files rm')"
  proof (rule fold_pair_invariant [where P = "\<lambda>st. room_ok sha256 st \<and> list_all2 same_file (rm_files rm) (rm_files st)"])
    show "fold (drop_working_copy s answers older_than) (filter (\<lambda>f. f_working_key f \<noteq> None) (rm_files rm))
        (\<lparr>pr_purged = 0, pr_purged_bytes = 0, pr_failed = 0\<rparr>, rm) = (res, rm')"
      using out True by (simp add: purge_working_copies_def Let_def)
    show "room_ok sha256 st' \<and> list_all2 same_file (rm_files rm) (rm_files st')"
      if "f \<in> set (filter (\<lambda>f. f_working_key f \<noteq> None) (rm_files rm))"
        "room_ok sha256 st \<and> list_all2 same_file (rm_files rm) (rm_files st)"
        "drop_working_copy s answers older_than f (r, st) = (r', st')" for f r st r' st'
      using drop_working_copy_ok [OF assms _ _ _ that(3)] that(1,2) by auto
  qed (use assms in \<open>simp add: list_all2_refl\<close>)
  then show ?thesis by (simp add: out)
qed (use assms in \<open>simp add: purge_working_copies_def\<close>)

text \<open>Uploading touches the new key alone, and what it reports as stored is there.\<close>

lemma upload_bytes_writes:
  assumes "upload_bytes s rp sibling key file_name kind content w = (x, w')" and "k \<noteq> key"
  shows "blobs w' k = blobs w k"
proof -
  have put: "blobs v k = blobs u k" if "put_working s r key content u = (y, v)" for r u y v
    using that assms(2) blob.put_keeps [of _ r key content u y v]
    by (auto simp: put_working_def split: storage.splits option.splits)
  have post: "blobs v = blobs u"
    if "put_file (rp_vault rp) key content file_name kd sibling u = (y, v)" for kd u y v
    using that by (auto simp: put_file_def Let_def split: option.splits if_splits)
  have del: "blobs (snd (delete_working s r key u)) k = blobs u k" for r u
    using delete_working_shrinks [OF surjective_pairing] assms(2) by blast
  show ?thesis
  proof (cases s)
    case (Blob b)
    with assms show ?thesis using blob.put_keeps [of b "rp_put rp" key content w]
      by (auto simp: upload_bytes_def split: prod.splits sum.splits)
  next
    case Unconfigured
    with assms(1) show ?thesis by (simp add: upload_bytes_def)
  next
    case (Vault working)
    obtain y w1 where y: "(if keeps_working_copies s then put_working s (rp_working rp) key content w else (Inr (), w)) = (y, w1)"
      by fastforce
    then have w1: "blobs w1 k = blobs w k" using put by (auto split: if_splits)
    show ?thesis
    proof (cases y)
      case (Inl e)
      with assms(1) Vault y w1 show ?thesis by (auto simp: upload_bytes_def)
    next
      case (Inr u)
      obtain z w2 where z: "put_file (rp_vault rp) key content file_name (file_kind_value kind) sibling w1 = (z, w2)"
        by fastforce
      from assms(1) Vault y Inr z
      have "w' = w2 \<or> w' = snd (delete_working s (rp_cleanup rp) key w2)"
        by (auto simp: upload_bytes_def split: sum.splits)
      then show ?thesis using w1 post [OF z] del by auto
    qed
  qed
qed

lemma upload_bytes_stored:
  assumes "upload_bytes s rp sibling key file_name kind content w = (Inr (stored, working_key), w')"
    and "match_vault_key key = None"
  shows "(if match_vault_key stored = None
          then stored = key \<and> working_key = None \<and> blobs w' key = Some content \<and> well_formed_key key
          else vaulted w' stored = Some content \<and>
               (working_key = None \<or> working_key = Some key \<and> blobs w' key = Some content))"
proof (cases s)
  case (Blob b)
  with assms(1) have "blob_put b (rp_put rp) key content w = (Inr (), w')" "stored = key" "working_key = None"
    by (auto simp: upload_bytes_def split: prod.splits sum.splits)
  then show ?thesis using assms(2) blob.put_holds blob.put_key by auto
next
  case Unconfigured
  with assms(1) show ?thesis by (simp add: upload_bytes_def)
next
  case (Vault working)
  obtain w1 where w1: "(if keeps_working_copies s then put_working s (rp_working rp) key content w else (Inr (), w)) = (Inr (), w1)"
    and z: "put_file (rp_vault rp) key content file_name (file_kind_value kind) sibling w1 = (Inr stored, w')"
    and wk: "working_key = (if keeps_working_copies s then Some key else None)"
    using assms(1) Vault by (auto simp: upload_bytes_def split: prod.splits sum.splits)
  from put_file_Inr [OF z] have st: "match_vault_key stored \<noteq> None" "vaulted w' stored = Some content" by auto
  have "keeps_working_copies s \<Longrightarrow> blobs w' key = Some content"
    using w1 put_file_blobs [OF z] blob.put_holds
    by (auto simp: put_working_def split: storage.splits option.splits)
  with st wk show ?thesis by auto
qed

text \<open>The id is drawn at random and unique in the table; it is the last part of the key.\<close>

definition fresh_id :: "string \<Rightarrow> room \<Rightarrow> bool" where
  "fresh_id public_id rm \<longleftrightarrow> list_all is_id_char public_id \<and> public_id \<notin> f_public_id ` set (rm_files rm)"

lemma objects_written_ok:
  assumes "room_ok sha256 rm" and "fresh_id pid rm"
    and "\<And>k. k \<noteq> storage_key (rm_tenant_id rm) oid did pid \<Longrightarrow> blobs w k = blobs (rm_objects rm) k"
  shows "room_ok sha256 (rm\<lparr>rm_objects := w\<rparr>)"
proof -
  let ?key = "storage_key (rm_tenant_id rm) oid did pid"
  have tail: "after_last (CHR ''/'') ?key = pid"
    using assms(2) by (intro after_last_storage_key) (simp add: fresh_id_def)
  have "file_ok sha256 w f" if f: "f \<in> set (rm_files rm)" for f
  proof -
    from assms(1) f have ok: "file_ok sha256 (rm_objects rm) f" by (auto simp: room_ok_def)
    have other: "blobs w k = blobs (rm_objects rm) k" if "after_last (CHR ''/'') k = f_public_id f" for k
      using that tail assms(2) f by (intro assms(3)) (auto simp: fresh_id_def)
    have "blobs w (f_storage_key f) = blobs (rm_objects rm) (f_storage_key f)" if "own_file f"
      by (rule other [OF file_okD(3) [OF ok that]])
    moreover have "blobs w k = blobs (rm_objects rm) k" if "f_working_key f = Some k" for k
      by (rule other [OF file_okD(5) [OF ok that]])
    ultimately show ?thesis using ok unfolding file_ok_def by auto
  qed
  moreover have "blobs w k = None" if "match_vault_key k \<noteq> None" for k
  proof -
    from assms(1) that have "blobs (rm_objects rm) k = None" unfolding room_ok_def by blast
    moreover have "k \<noteq> ?key" using that storage_key_not_vault by auto
    ultimately show ?thesis using assms(3) by simp
  qed
  ultimately show ?thesis using assms(1) by (simp add: room_ok_def)
qed

lemma upload_document_file_ok:
  assumes "room_ok sha256 rm" and "fresh_id pid rm"
    and "upload_document_file s rp sha256 now pid oid did kind file_name content content_type uploaded_by rm = (x, rm')"
  shows "room_ok sha256 rm'" and "room_ok sha256 (rm\<lparr>rm_objects := rm_objects rm'\<rparr>)"
proof -
  let ?key = "storage_key (rm_tenant_id rm) oid did pid"
  obtain y w where y: "upload_bytes s rp (vault_sibling_key oid rm) ?key file_name kind content (rm_objects rm) = (y, w)"
    by fastforce
  have written: "room_ok sha256 (rm\<lparr>rm_objects := w\<rparr>)"
    by (rule objects_written_ok [OF assms(1,2)]) (rule upload_bytes_writes [OF y])
  have "rm_objects rm' = w" using assms(3) y by (auto simp: upload_document_file_def Let_def split: sum.splits)
  with written show "room_ok sha256 (rm\<lparr>rm_objects := rm_objects rm'\<rparr>)" by simp
  show "room_ok sha256 rm'"
  proof (cases y)
    case (Inl e)
    with assms(3) y written show ?thesis by (auto simp: upload_document_file_def)
  next
    case (Inr p)
    obtain stored wk where p: "p = (stored, wk)" by fastforce
    have st: "if match_vault_key stored = None
          then stored = ?key \<and> wk = None \<and> blobs w ?key = Some content \<and> well_formed_key ?key
          else vaulted w stored = Some content \<and> (wk = None \<or> wk = Some ?key \<and> blobs w ?key = Some content)"
      by (rule upload_bytes_stored [OF y [unfolded Inr p] storage_key_not_vault])
    define row where "row = \<lparr>f_id = rm_next_file_id rm, f_public_id = pid, f_document_id = Some did,
      f_kind = kind, f_name = file_name, f_content_type = content_type, f_size = int (length content),
      f_sha256 = sha256 content, f_storage_key = stored, f_working_key = wk, f_uploaded_by = uploaded_by,
      f_created_at = now, f_deleted_at = None, f_deleted_by = None\<rparr>"
    have rm': "rm' = rm\<lparr>rm_next_file_id := rm_next_file_id rm + 1, rm_files := rm_files rm @ [row], rm_objects := w\<rparr>"
      using assms(3) y Inr p by (simp add: upload_document_file_def Let_def row_def)
    have pid: "list_all is_id_char pid" "pid \<notin> f_public_id ` set (rm_files rm)"
      using assms(2) by (simp_all add: fresh_id_def)
    have "file_ok sha256 w row"
      using st after_last_storage_key [OF pid(1)]
      by (auto simp: file_ok_def row_def own_file_def holds_bytes_def split: if_splits)
    moreover have "rm_next_file_id rm \<notin> f_id ` set (rm_files rm)" using assms(1) by (auto simp: room_ok_def)
    ultimately show ?thesis using written pid(2) rm' by (auto simp: room_ok_def row_def distinct_append)
  qed
qed

section \<open>Steps\<close>

text \<open>
  Anything that happens to a bureau's files, with any storage configured and any answers from
  outside: uploads from the order screen; every other upload of the program (the translators'
  portal, the workers' results, the Suliko Translate results and the Word editor), all of which
  end in \<^verbatim>\<open>upload_document_file\<close>; an upload whose request then fails, which leaves its bytes and no row;
  staff requests, deletions of documents and orders, the two purges; whatever the vault does with
  what it holds; and whatever else the bureau's other rows go through.
\<close>

inductive room_step :: "(string \<Rightarrow> string) \<Rightarrow> room \<Rightarrow> room \<Rightarrow> bool" for sha256 where
  uploaded: "fresh_id public_id rm \<Longrightarrow>
    upload_file session s rp sha256 max_bytes now public_id oid did kind file_name content_type content rm = (x, rm') \<Longrightarrow>
    room_step sha256 rm rm'"
| filed: "fresh_id public_id rm \<Longrightarrow>
    upload_document_file s rp sha256 now public_id oid did kind name content content_type by_whom rm = (y, rm') \<Longrightarrow>
    room_step sha256 rm rm'"
| not_committed: "fresh_id public_id rm \<Longrightarrow>
    upload_document_file s rp sha256 now public_id oid did kind name content content_type by_whom rm = (y, rm') \<Longrightarrow>
    room_step sha256 rm (rm\<lparr>rm_objects := rm_objects rm'\<rparr>)"
| vault_acts: "room_step sha256 rm (rm\<lparr>rm_objects := (rm_objects rm)\<lparr>vaulted := held\<rparr>\<rparr>)"
| changed: "update_file session oid did file_id payload rm = Inr (f, rm') \<Longrightarrow> room_step sha256 rm rm'"
| linked: "link_files session oid payload rm = Inr (moved, rm') \<Longrightarrow> room_step sha256 rm rm'"
| removed: "delete_file session now oid did file_id rm = Inr rm' \<Longrightarrow> room_step sha256 rm rm'"
| document_deleted: "delete_document_and_files session now oid did rm = Inr rm' \<Longrightarrow> room_step sha256 rm rm'"
| order_deleted: "delete_order_and_files session now oid rm = Inr rm' \<Longrightarrow> room_step sha256 rm rm'"
| purged: "purge_removed_files s answers now cutoff rm = (res, rm') \<Longrightarrow> room_step sha256 rm rm'"
| copies_purged: "purge_working_copies s answers older_than rm = (res, rm') \<Longrightarrow> room_step sha256 rm rm'"
| office_changed: "room_step sha256 rm (rm\<lparr>rm_office := db\<rparr>)"

inductive room_run :: "(string \<Rightarrow> string) \<Rightarrow> room \<Rightarrow> room \<Rightarrow> bool" for sha256 where
  still: "room_run sha256 rm rm"
| more: "room_run sha256 rm rm1 \<Longrightarrow> room_step sha256 rm1 rm2 \<Longrightarrow> room_run sha256 rm rm2"

lemma get_document_file_Inr:
  assumes "get_document_file did file_id rm = Inr f"
  shows "f \<in> set (rm_files rm)" and "f_public_id f = file_id" and "f_document_id f = Some did" and "is_live_file f"
  using assms by (auto simp: get_document_file_def find_Some_iff split: if_splits option.splits)

lemma update_file_ok:
  assumes "room_ok sha256 rm" and "update_file session oid did file_id payload rm = Inr (f', rm')"
  shows "room_ok sha256 rm'"
proof -
  from assms(2) obtain f p where f: "get_document_file did file_id rm = Inr f"
    and rm': "rm' = rm \<or> rm' = log_room session ''order.file_changed'' oid
      (rm\<lparr>rm_files := update_where (\<lambda>g. f_id g = f_id f) (\<lambda>_. changed_file p f) (rm_files rm)\<rparr>)"
    unfolding update_file_def bind_result_Inr_iff Let_def
    by (elim exE conjE) (simp split: if_split_asm; blast)
  have fin: "f \<in> set (rm_files rm)" using get_document_file_Inr [OF f] by simp
  have d: "distinct (map f_id (rm_files rm))" using assms(1) by (simp add: room_ok_def)
  let ?h = "\<lambda>g. if g = f then changed_file p f else g"
  have "update_where (\<lambda>g. f_id g = f_id f) (\<lambda>_. changed_file p f) (rm_files rm) =
      update_where (\<lambda>g. f_id g = f_id f) ?h (rm_files rm)"
    using distinct_map_eq [OF d _ fin] by (auto simp: update_where_def)
  moreover have "room_ok sha256 (rm\<lparr>rm_files := update_where (\<lambda>g. f_id g = f_id f) ?h (rm_files rm)\<rparr>)"
    by (rule rows_updated [OF assms(1)]) (simp add: same_file_def changed_file_def is_live_file_def)
  ultimately show ?thesis using rm' assms(1) by auto
qed

lemma move_files_ok: "room_ok sha256 rm \<Longrightarrow> room_ok sha256 (fold move_file ms rm)"
proof (induction ms arbitrary: rm)
  case (Cons m ms)
  have "room_ok sha256 (move_file m rm)"
    unfolding move_file_def by (rule rows_updated [OF Cons.prems]) (simp add: same_file_def is_live_file_def)
  then show ?case using Cons.IH by simp
qed simp

lemma link_files_ok:
  assumes "room_ok sha256 rm" and "link_files session oid payload rm = Inr (moved, rm')"
  shows "room_ok sha256 rm'"
proof -
  from assms(2) obtain ms where "rm' = rm \<or> rm' = log_room session ''order.files_linked'' oid (fold move_file ms rm)"
    unfolding link_files_def bind_result_Inr_iff Let_def
    by (elim exE conjE) (simp add: bind_result_Inr_iff split: option.split_asm if_split_asm; blast)
  then show ?thesis using assms(1) move_files_ok by auto
qed

lemma removing_ok:
  assumes "room_ok sha256 rm"
  shows "room_ok sha256 (remove_document_file now who f rm)"
    and "room_ok sha256 (remove_files_of_documents now who ids rm)"
    and "room_ok sha256 (clear_documents ids rm)"
  unfolding remove_document_file_def remove_files_of_documents_def clear_documents_def
  by (rule rows_updated [OF assms]; simp add: same_file_def mark_removed_def is_live_file_def)+

lemma room_step_ok:
  assumes "room_step sha256 rm rm'" and "room_ok sha256 rm"
  shows "room_ok sha256 rm'"
  using assms
proof cases
  case (uploaded rp pid session s max_bytes now oid did kind file_name content_type content x)
  then show ?thesis using upload_document_file_ok(1) [OF assms(2) uploaded(1)] assms(2)
    by (auto simp: upload_file_def split: sum.splits prod.splits)
next
  case filed
  then show ?thesis using upload_document_file_ok(1) [OF assms(2)] by blast
next
  case not_committed
  then show ?thesis using upload_document_file_ok(2) [OF assms(2)] by blast
next
  case vault_acts
  then show ?thesis using assms(2) by (simp add: room_ok_def file_ok_def)
next
  case changed
  then show ?thesis using update_file_ok [OF assms(2)] by blast
next
  case linked
  then show ?thesis using link_files_ok [OF assms(2)] by blast
next
  case removed
  then show ?thesis using removing_ok(1) [OF assms(2)] by (auto simp: delete_file_def)
next
  case document_deleted
  then show ?thesis using removing_ok assms(2) by (auto simp: delete_document_and_files_def office_irrelevant)
next
  case order_deleted
  then show ?thesis using removing_ok assms(2)
    by (auto simp: delete_order_and_files_def Let_def office_irrelevant)
next
  case purged
  then show ?thesis using purge_removed_files_ok [OF assms(2)] by (metis snd_conv)
next
  case copies_purged
  then show ?thesis using purge_working_copies_ok [OF assms(2)] by (metis snd_conv)
next
  case office_changed
  then show ?thesis using assms(2) by (simp add: office_irrelevant)
qed

lemma room_run_ok: "room_run sha256 rm rm' \<Longrightarrow> room_ok sha256 rm \<Longrightarrow> room_ok sha256 rm'"
  by (induction rule: room_run.induct) (blast intro: room_step_ok)+

section \<open>What is served\<close>

lemma blob_get_Inr: "blob_get b r key w = Inr c \<Longrightarrow> blobs w key = Some c"
  by (rule blob.get_true)

lemma iter_working_Inr: "iter_working s r key w = Inr c \<Longrightarrow> blobs w key = Some c"
  by (auto simp: iter_working_def blob_get_Inr split: storage.splits option.splits)

lemma iter_get_Inr: "iter_get s r key w = Inr c \<Longrightarrow> blobs w key = Some c"
  by (auto simp: iter_get_def blob_get_Inr split: storage.splits option.splits)

lemma open_download_own:
  assumes "room_ok sha256 rm" and "f \<in> set (rm_files rm)"
    and "open_download s r f (rm_objects rm) = Inr content"
  shows "holds_bytes sha256 f content"
proof -
  from assms(1,2) have ok: "file_ok sha256 (rm_objects rm) f" by (auto simp: room_ok_def)
  show ?thesis
  proof (cases "vault_order f")
    case None
    then have own: "own_file f" by (simp add: own_file_def vault_order_def vault_order_None_iff)
    from assms(3) None have "blobs (rm_objects rm) (f_storage_key f) = Some content"
      by (simp add: open_download_def iter_get_Inr)
    then show ?thesis using file_okD(1) [OF ok own] by simp
  next
    case (Some n)
    then have "match_vault_key (f_storage_key f) \<noteq> None" by (auto simp: vault_order_def vault_order_of_def)
    with assms(1) have none: "blobs (rm_objects rm) (f_storage_key f) = None" unfolding room_ok_def by blast
    then have "iter_get s r (f_storage_key f) (rm_objects rm) \<noteq> Inr content"
      using iter_get_Inr by fastforce
    with assms(3) Some obtain k where "f_working_key f = Some k" "iter_working s r k (rm_objects rm) = Inr content"
      by (auto simp: open_download_def Let_def split: if_splits option.splits sum.splits)
    then show ?thesis using file_okD(6) [OF ok] iter_working_Inr by blast
  qed
qed

lemma download_file_Inr:
  assumes "download_file s r oid did file_id rm = Inr content"
  obtains f where "f \<in> set (rm_files rm)" "f_public_id f = file_id" "f_document_id f = Some did" "is_live_file f"
    "open_download s r f (rm_objects rm) = Inr content" "document_of_order oid did (rm_office rm) = Inr ()"
proof -
  from assms obtain f where "get_document_file did file_id rm = Inr f"
    "open_download s r f (rm_objects rm) = Inr content" "document_of_order oid did (rm_office rm) = Inr ()"
    unfolding download_file_def bind_result_Inr_iff by (elim exE conjE) (simp split: sum.split_asm)
  with get_document_file_Inr [OF this(1)] that show thesis by blast
qed

text \<open>A file in the bureau's own storage is served when that storage answers.\<close>

lemma own_file_served:
  assumes "room_ok sha256 rm" and f: "f \<in> set (rm_files rm)" "is_live_file f" "own_file f" "f_document_id f = Some did"
    and "is_file_id (f_public_id f)" and "document_of_order oid did (rm_office rm) = Inr ()"
  obtains c where "download_file (Blob b) (Answered 200) oid did (f_public_id f) rm = Inr c"
    and "blobs (rm_objects rm) (f_storage_key f) = Some c"
proof -
  have ok: "file_ok sha256 (rm_objects rm) f" and d: "distinct (map f_public_id (rm_files rm))"
    using assms(1,2) by (auto simp: room_ok_def)
  from file_okD(2) [OF ok f(3,2)] obtain c where c: "blobs (rm_objects rm) (f_storage_key f) = Some c" by auto
  have "find (\<lambda>g. f_public_id g = f_public_id f \<and> f_document_id g = Some did \<and> is_live_file g) (rm_files rm) = Some f"
  proof -
    obtain g where g: "find (\<lambda>g. f_public_id g = f_public_id f \<and> f_document_id g = Some did \<and> is_live_file g) (rm_files rm) = Some g"
      using f by (cases "find (\<lambda>g. f_public_id g = f_public_id f \<and> f_document_id g = Some did \<and> is_live_file g) (rm_files rm)")
        (auto simp: find_None_iff)
    then have "g \<in> set (rm_files rm)" "f_public_id g = f_public_id f" by (auto simp: find_Some_iff)
    with distinct_map_eq [OF d _ f(1)] g show ?thesis by simp
  qed
  then have "get_document_file did (f_public_id f) rm = Inr f" using assms(6) by (simp add: get_document_file_def)
  moreover have "open_download (Blob b) (Answered 200) f (rm_objects rm) = Inr c"
  proof -
    have "vault_order f = None" using f(3) by (simp add: own_file_def vault_order_def vault_order_None_iff)
    then show ?thesis using blob.get_reads [OF c file_okD(7) [OF ok f(3)]]
      by (simp add: open_download_def iter_get_def is_vault_def)
  qed
  ultimately show thesis using that c assms(6,7) by (simp add: download_file_def file_id_path_def)
qed

text \<open>C29: files keep their bytes. From consistent rows and objects, as a bureau with no files has, whatever
  happens to a bureau's files (uploads from any screen, worker or
  portal, failed ones included, renaming, moving, removal, deletion of documents and orders, the
  purges), under any storage and any answers from it, whatever the vault does with what it holds: a
  file in the bureau's own storage that was not removed has bytes of the size and hash recorded at
  its upload under the key its row names, and when that storage answers, a download under its order
  and document returns them; and whatever a download returns, from the storage or from the working
  copy of a vault file, has the size and hash of the live file of that document that was asked for. A
  file whose row names a vault key is the vault's to keep, and nothing is claimed of its bytes there.
  The one thing assumed of an upload is that the id drawn for it is new and of the id alphabet.\<close>

theorem files_keep_their_bytes:
  assumes "room_run sha256 rm rm'" and "room_ok sha256 rm"
  shows "room_ok sha256 rm' \<and>
    (\<forall>f \<in> set (rm_files rm'). is_live_file f \<and> match_vault_key (f_storage_key f) = None \<longrightarrow>
       (\<exists>c. blobs (rm_objects rm') (f_storage_key f) = Some c \<and> f_size f = int (length c) \<and> f_sha256 f = sha256 c \<and>
          (\<forall>b oid did. f_document_id f = Some did \<and> is_file_id (f_public_id f) \<and>
             document_of_order oid did (rm_office rm') = Inr () \<longrightarrow>
             download_file (Blob b) (Answered 200) oid did (f_public_id f) rm' = Inr c))) \<and>
    (\<forall>s r oid did file_id content. download_file s r oid did file_id rm' = Inr content \<longrightarrow>
       (\<exists>f \<in> set (rm_files rm'). f_public_id f = file_id \<and> f_document_id f = Some did \<and> is_live_file f \<and>
          f_size f = int (length content) \<and> f_sha256 f = sha256 content))"
proof (intro conjI ballI allI impI)
  show ok: "room_ok sha256 rm'" by (rule room_run_ok [OF assms])
  fix f assume f: "f \<in> set (rm_files rm')" and "is_live_file f \<and> match_vault_key (f_storage_key f) = None"
  then have live: "is_live_file f" "own_file f" by (simp_all add: own_file_def)
  have f_ok: "file_ok sha256 (rm_objects rm') f" using ok f by (auto simp: room_ok_def)
  from file_okD(2) [OF this live(2,1)] obtain c where c: "blobs (rm_objects rm') (f_storage_key f) = Some c" by auto
  with file_okD(1) [OF f_ok live(2)] have "f_size f = int (length c)" "f_sha256 f = sha256 c" by (simp_all add: holds_bytes_def)
  moreover have "download_file (Blob b) (Answered 200) oid did (f_public_id f) rm' = Inr c"
    if "f_document_id f = Some did \<and> is_file_id (f_public_id f) \<and> document_of_order oid did (rm_office rm') = Inr ()"
    for b oid did
    using own_file_served [OF ok f live] that c by (metis option.inject)
  ultimately show "\<exists>c. blobs (rm_objects rm') (f_storage_key f) = Some c \<and> f_size f = int (length c) \<and> f_sha256 f = sha256 c \<and>
      (\<forall>b oid did. f_document_id f = Some did \<and> is_file_id (f_public_id f) \<and>
         document_of_order oid did (rm_office rm') = Inr () \<longrightarrow>
         download_file (Blob b) (Answered 200) oid did (f_public_id f) rm' = Inr c)"
    using c by blast
next
  note ok = room_run_ok [OF assms]
  show "\<exists>f \<in> set (rm_files rm'). f_public_id f = file_id \<and> f_document_id f = Some did \<and> is_live_file f \<and>
      f_size f = int (length content) \<and> f_sha256 f = sha256 content"
    if "download_file s r oid did file_id rm' = Inr content" for s r oid did file_id content
    using download_file_Inr [OF that] open_download_own [OF ok] unfolding holds_bytes_def by metis
qed

text \<open>Where a plain backend took the bytes, its key was well formed.\<close>

lemma upload_bytes_key:
  assumes "upload_bytes s rp sibling key file_name kind content w = (Inr p, w')"
    and "is_vault s \<Longrightarrow> keeps_working_copies s"
  shows "well_formed_key key"
proof (cases s)
  case (Blob b)
  with assms(1) have "blob_put b (rp_put rp) key content w = (Inr (), w')"
    by (auto simp: upload_bytes_def split: prod.splits sum.splits)
  then show ?thesis by (rule blob.put_key)
next
  case Unconfigured
  with assms(1) show ?thesis by (simp add: upload_bytes_def)
next
  case (Vault working)
  with assms(2) obtain b where b: "s = Vault (Some b)" "keeps_working_copies s"
    by (cases working) (simp_all add: is_vault_def keeps_working_copies_def)
  with assms(1) obtain w1 where "blob_put b (rp_working rp) key content w = (Inr (), w1)"
    by (auto simp: upload_bytes_def put_working_def split: prod.splits sum.splits)
  then show ?thesis by (rule blob.put_key)
qed

lemma upload_file_Inr:
  assumes "upload_file session s rp sha256 max_bytes now public_id oid did kind file_name content_type content rm = (Inr row, rm')"
  obtains stored wk w where "document_of_order oid did (rm_office rm) = Inr ()"
    "upload_bytes s rp (vault_sibling_key oid rm) (storage_key (rm_tenant_id rm) oid did public_id)
       (safe_file_name file_name) kind content (rm_objects rm) = (Inr (stored, wk), w)"
    "f_public_id row = public_id" "f_document_id row = Some did" "is_live_file row"
    "f_storage_key row = stored" "f_working_key row = wk" "rm_files rm' = rm_files rm @ [row]"
    "rm_objects rm' = w" "orders (rm_office rm') = orders (rm_office rm)"
    "documents (rm_office rm') = documents (rm_office rm)"
proof -
  from assms obtain bytes where b: "document_of_order oid did (rm_office rm) = Inr ()" "read_upload max_bytes content = Inr bytes"
    by (auto simp: upload_file_def split: sum.splits)
  then have bytes: "bytes = content" by (auto simp: read_upload_def split: if_splits)
  obtain y w where y: "upload_bytes s rp (vault_sibling_key oid rm) (storage_key (rm_tenant_id rm) oid did public_id)
       (safe_file_name file_name) kind content (rm_objects rm) = (y, w)" by fastforce
  show thesis
  proof (cases y)
    case (Inl e)
    with assms b bytes y show thesis by (simp add: upload_file_def upload_document_file_def)
  next
    case (Inr p)
    obtain stored wk where p: "p = (stored, wk)" by fastforce
    let ?row = "\<lparr>f_id = rm_next_file_id rm, f_public_id = public_id, f_document_id = Some did, f_kind = kind,
      f_name = safe_file_name file_name, f_content_type = safe_content_type content_type,
      f_size = int (length content), f_sha256 = sha256 content, f_storage_key = stored, f_working_key = wk,
      f_uploaded_by = user_tag session, f_created_at = now, f_deleted_at = None, f_deleted_by = None\<rparr>"
    let ?rm1 = "rm\<lparr>rm_next_file_id := rm_next_file_id rm + 1, rm_files := rm_files rm @ [?row], rm_objects := w\<rparr>"
    have "upload_document_file s rp sha256 now public_id oid did kind (safe_file_name file_name) content
        (safe_content_type content_type) (user_tag session) rm = (Inr ?row, ?rm1)"
      using y Inr p by (simp add: upload_document_file_def Let_def)
    with assms b bytes have "row = ?row" and "rm' = log_room session ''order.file_uploaded'' oid ?rm1"
      by (auto simp: upload_file_def)
    then show thesis
      by (intro that [OF b(1) y [unfolded Inr p]]) (simp_all add: log_room_def log_office_def is_live_file_def)
  qed
qed

lemma find_append_fresh: "(\<forall>x \<in> set xs. \<not> P x) \<Longrightarrow> find P (xs @ ys) = find P ys"
  by (induction xs) auto

text \<open>An upload that succeeds can be read back at once, byte for byte, from a plain backend
  or from the working copy of a vault file; a file that only the vault holds is refused as kept
  there, and nothing else can come back under its id.\<close>

lemma upload_then_download:
  assumes "upload_file session s rp sha256 max_bytes now public_id oid did kind file_name content_type content rm = (Inr row, rm')"
    and "is_file_id public_id" and "fresh_id public_id rm"
  shows "download_file s (Answered 200) oid did public_id rm' =
    (if is_vault s \<and> \<not> keeps_working_copies s
     then Inl (ConflictError ''This file is kept in the Order Vault.'') else Inr content)"
proof -
  obtain stored wk w where up: "document_of_order oid did (rm_office rm) = Inr ()"
    "upload_bytes s rp (vault_sibling_key oid rm) (storage_key (rm_tenant_id rm) oid did public_id)
       (safe_file_name file_name) kind content (rm_objects rm) = (Inr (stored, wk), w)"
    and row: "f_public_id row = public_id" "f_document_id row = Some did" "is_live_file row"
      "f_storage_key row = stored" "f_working_key row = wk"
    and rm': "rm_files rm' = rm_files rm @ [row]" "rm_objects rm' = w"
      "orders (rm_office rm') = orders (rm_office rm)" "documents (rm_office rm') = documents (rm_office rm)"
    by (rule upload_file_Inr [OF assms(1)])
  let ?key = "storage_key (rm_tenant_id rm) oid did public_id"
  have doc: "document_of_order oid did (rm_office rm') = Inr ()" using up(1) rm'(3,4) by (simp add: document_of_order_def)
  have found: "get_document_file did public_id rm' = Inr row"
  proof -
    have "\<forall>f \<in> set (rm_files rm). \<not> (f_public_id f = public_id \<and> f_document_id f = Some did \<and> is_live_file f)"
      using assms(3) by (auto simp: fresh_id_def)
    then show ?thesis using assms(2) row rm'(1) by (simp add: get_document_file_def find_append_fresh)
  qed
  have st: "if match_vault_key stored = None
        then stored = ?key \<and> wk = None \<and> blobs w ?key = Some content \<and> well_formed_key ?key
        else vaulted w stored = Some content \<and> (wk = None \<or> wk = Some ?key \<and> blobs w ?key = Some content)"
    by (rule upload_bytes_stored [OF up(2) storage_key_not_vault])
  have "open_download s (Answered 200) row w =
      (if is_vault s \<and> \<not> keeps_working_copies s then Inl (StorageDownloadUnavailableError (vault_order row)) else Inr content)"
  proof (cases s)
    case (Blob b)
    with up(2) have "stored = ?key" by (auto simp: upload_bytes_def split: prod.splits sum.splits)
    then have plain: "vault_order row = None" using row(4) by (simp add: vault_order_def vault_order_None_iff storage_key_not_vault)
    have "well_formed_key ?key" by (rule upload_bytes_key [OF up(2)]) (simp add: Blob is_vault_def)
    moreover have "blobs w ?key = Some content" using st storage_key_not_vault [of "rm_tenant_id rm" oid did public_id]
      \<open>stored = ?key\<close> by simp
    ultimately have "blob_get b (Answered 200) ?key w = Inr content" using blob.get_reads by blast
    then show ?thesis using plain Blob row(4) \<open>stored = ?key\<close>
      by (simp add: open_download_def iter_get_def is_vault_def)
  next
    case Unconfigured
    with up(2) show ?thesis by (simp add: upload_bytes_def)
  next
    case (Vault working)
    obtain w1 where put: "put_file (rp_vault rp) ?key content (safe_file_name file_name) (file_kind_value kind)
        (vault_sibling_key oid rm) w1 = (Inr stored, w)" and wk: "wk = (if keeps_working_copies s then Some ?key else None)"
      using up(2) Vault by (auto simp: upload_bytes_def split: prod.splits sum.splits)
    from put_file_Inr [OF put] obtain n where n: "vault_order row = Some n" and m: "match_vault_key stored \<noteq> None"
      using row(4) by (auto simp: vault_order_def vault_order_of_def)
    show ?thesis
    proof (cases working)
      case None
      with Vault wk n row(5) show ?thesis
        by (simp add: open_download_def is_vault_def keeps_working_copies_def is_not_found_def)
    next
      case (Some b)
      with Vault have keeps: "keeps_working_copies s" by (simp add: keeps_working_copies_def)
      with wk st m have "blobs w ?key = Some content" by auto
      moreover have "well_formed_key ?key" by (rule upload_bytes_key [OF up(2)]) (rule keeps)
      ultimately have "blob_get b (Answered 200) ?key w = Inr content" using blob.get_reads by blast
      with Vault Some keeps wk n row(5) show ?thesis
        by (simp add: open_download_def is_vault_def iter_working_def)
    qed
  qed
  then show ?thesis using doc found assms(2) rm'(2)
    by (simp add: download_file_def file_id_path_def storage_failure_def)
qed

section \<open>Examples\<close>

definition ex_room :: room where
  "ex_room = \<lparr>rm_tenant_id = 1, rm_next_file_id = 1, rm_office = ex_office, rm_files = [],
     rm_objects = \<lparr>blobs = (\<lambda>_. None), vaulted = (\<lambda>_. None)\<rparr>, rm_translating = []\<rparr>"

definition ex_replies :: replies where
  "ex_replies = \<lparr>rp_put = Answered 200, rp_working = Answered 200,
     rp_vault = (\<lambda>_. \<lparr>va_status = None, va_body = None\<rparr>), rp_cleanup = Answered 200\<rparr>"

lemma ex_room_ok: "room_ok sha256 ex_room"
  by (simp add: room_ok_def ex_room_def)

lemma ex_fresh: "fresh_id ''abcdefgh'' ex_room"
  by (simp add: fresh_id_def ex_room_def is_id_char_def is_alpha_def)

lemma ex_file_id: "is_file_id ''abcdefgh''"
  by (simp add: is_file_id_def is_id_char_def is_alpha_def)

lemma ex_key: "storage_key 1 4 5 ''abcdefgh'' = ''tenants/1/orders/4/documents/5/abcdefgh''"
  by (simp add: storage_key_def show_int_def show_nat.simps digit_char_def char_of_def bit_0)

lemma ex_key_ok: "well_formed_key ''tenants/1/orders/4/documents/5/abcdefgh''"
  by (simp add: well_formed_key_def is_id_char_def is_alpha_def is_digit_def)

lemma ex_upload:
  obtains row rm' where
    "upload_file ex_caller (Blob Local) ex_replies id 100 50 ''abcdefgh'' 4 5 SOURCE_file (Some ''a.pdf'')
       (Some ''text/html'') ''hi'' ex_room = (Inr row, rm')" and "rm_files rm' = [row]" and "is_live_file row"
    and "f_storage_key row = ''tenants/1/orders/4/documents/5/abcdefgh''" and "f_public_id row = ''abcdefgh''"
    and "rm_tenant_id rm' = 1"
proof -
  have "\<exists>row rm'. upload_file ex_caller (Blob Local) ex_replies id 100 50 ''abcdefgh'' 4 5 SOURCE_file (Some ''a.pdf'')
      (Some ''text/html'') ''hi'' ex_room = (Inr row, rm') \<and> rm_files rm' = [row] \<and> is_live_file row \<and>
      f_storage_key row = ''tenants/1/orders/4/documents/5/abcdefgh'' \<and> f_public_id row = ''abcdefgh'' \<and> rm_tenant_id rm' = 1"
    by (simp add: upload_file_def document_of_order_def read_upload_def upload_document_file_def
        upload_bytes_def blob_put_def ex_key ex_key_ok ex_replies_def ex_room_def ex_office_defs
        log_room_def is_live_file_def Let_def)
  with that show thesis by blast
qed

text \<open>One file goes to a folder, a second to the vault with a working copy; then the vault empties itself.\<close>

definition ex_vault_replies :: replies where
  "ex_vault_replies = \<lparr>rp_put = Answered 200, rp_working = Answered 200,
     rp_vault = (\<lambda>_. \<lparr>va_status = Some 200, va_body = Some (7, replicate 32 (CHR ''a''))\<rparr>), rp_cleanup = Answered 200\<rparr>"

lemma ex_vault_key: "match_vault_key (vault_key 7 (replicate 32 (CHR ''a''))) \<noteq> None"
proof -
  have "list_all is_hex_char (replicate 32 (CHR ''a''))" by (simp add: is_hex_char_def list_all_iff)
  from vault_order_of_vault_key [of 7, OF _ _ _ this] show ?thesis by (auto simp: vault_order_of_def)
qed

lemma ex_key2: "storage_key 1 4 5 ''hgfedcba'' = ''tenants/1/orders/4/documents/5/hgfedcba''"
  by (simp add: storage_key_def show_int_def show_nat.simps digit_char_def char_of_def bit_0)

lemma ex_key2_ok: "well_formed_key ''tenants/1/orders/4/documents/5/hgfedcba''"
  by (simp add: well_formed_key_def is_id_char_def is_alpha_def is_digit_def)

theorem files_keep_their_bytes_witness:
  "\<exists>rm1 rm2 rm3 row1 row2.
     upload_file ex_caller (Blob Local) ex_replies id 100 50 ''abcdefgh'' 4 5 SOURCE_file (Some ''a.pdf'')
       (Some ''text/html'') ''hi'' ex_room = (Inr row1, rm1) \<and>
     upload_document_file (Vault (Some Local)) ex_vault_replies id 60 ''hgfedcba'' 4 5 SOURCE_file ''b.pdf'' ''ho''
       ''text/html'' ''portal:1'' rm1 = (Inr row2, rm2) \<and>
     rm3 = rm2\<lparr>rm_objects := (rm_objects rm2)\<lparr>vaulted := (\<lambda>_. None)\<rparr>\<rparr> \<and> rm_files rm3 = [row1, row2] \<and>
     match_vault_key (f_storage_key row2) \<noteq> None \<and> room_ok id rm3 \<and>
     (\<exists>c. blobs (rm_objects rm3) (f_storage_key row1) = Some c \<and> f_sha256 row1 = id c)"
proof -
  obtain row1 rm1 where up: "upload_file ex_caller (Blob Local) ex_replies id 100 50 ''abcdefgh'' 4 5 SOURCE_file
      (Some ''a.pdf'') (Some ''text/html'') ''hi'' ex_room = (Inr row1, rm1)" and rm1: "rm_files rm1 = [row1]" "is_live_file row1"
      "f_storage_key row1 = ''tenants/1/orders/4/documents/5/abcdefgh''" "f_public_id row1 = ''abcdefgh''" "rm_tenant_id rm1 = 1"
    by (rule ex_upload)
  have "\<exists>row2 rm2. upload_document_file (Vault (Some Local)) ex_vault_replies id 60 ''hgfedcba'' 4 5 SOURCE_file ''b.pdf'' ''ho''
       ''text/html'' ''portal:1'' rm1 = (Inr row2, rm2) \<and> rm_files rm2 = [row1, row2] \<and> match_vault_key (f_storage_key row2) \<noteq> None"
    using rm1(1,5) by (simp add: upload_document_file_def upload_bytes_def keeps_working_copies_def put_working_def blob_put_def
      ex_vault_replies_def ex_key2 ex_key2_ok put_file_def ex_vault_key [simplified] Let_def)
  then obtain row2 rm2 where vault: "upload_document_file (Vault (Some Local)) ex_vault_replies id 60 ''hgfedcba'' 4 5 SOURCE_file ''b.pdf'' ''ho''
       ''text/html'' ''portal:1'' rm1 = (Inr row2, rm2)" and rm2: "rm_files rm2 = [row1, row2]" "match_vault_key (f_storage_key row2) \<noteq> None" by blast
  have fresh: "fresh_id ''hgfedcba'' rm1" using rm1 by (simp add: fresh_id_def is_id_char_def is_alpha_def)
  have run: "room_run id ex_room (rm2\<lparr>rm_objects := (rm_objects rm2)\<lparr>vaulted := (\<lambda>_. None)\<rparr>\<rparr>)" (is "room_run id ex_room ?rm3")
    by (rule room_run.more [OF room_run.more [OF room_run.more [OF room_run.still room_step.uploaded [OF ex_fresh up]]
      room_step.filed [OF fresh vault]] room_step.vault_acts])
  have plain: "match_vault_key (f_storage_key row1) = None"
    unfolding rm1(3) ex_key [symmetric] by (rule storage_key_not_vault)
  have "row1 \<in> set (rm_files ?rm3)" "rm_files ?rm3 = [row1, row2]" using rm2 by simp_all
  with files_keep_their_bytes [OF run ex_room_ok] rm1(2) plain up vault rm2(2) show ?thesis by blast
qed

end
