(* ===== verification/Jobs.thy ===== *)
theory Jobs
  imports Files
begin

text \<open>
  The Claude translation queue: \<^verbatim>\<open>domain/claude_translate.py\<close>, the worker's routes
  (\<^verbatim>\<open>api/v1/claude_worker.py\<close>) and the staff's (\<^verbatim>\<open>api/v1/claude_translate.py\<close>). Every
  bureau has its own queue; a worker serves all of them. Every move of a job is one guarded
  update, so requests that race are a sequence of these operations in some order.
\<close>

section \<open>Rows\<close>

datatype claude_job_status = QUEUED | TRANSLATING | TRANSLATED | FAILED | CANCELLED

fun status_value :: "claude_job_status \<Rightarrow> string" where
  "status_value QUEUED = ''queued''"
| "status_value TRANSLATING = ''translating''"
| "status_value TRANSLATED = ''translated''"
| "status_value FAILED = ''failed''"
| "status_value CANCELLED = ''cancelled''"

definition ACTIVE_STATUSES :: "claude_job_status set" where
  "ACTIVE_STATUSES = {QUEUED, TRANSLATING}"

record claude_job =
  cj_id :: int
  cj_public_id :: string
  cj_order_id :: int
  cj_document_id :: "int option"
  cj_source_file_id :: "int option"
  cj_result_file_id :: "int option"
  cj_status :: claude_job_status
  cj_file_name :: string
  cj_content_type :: string
  cj_source_language :: string
  cj_target_language :: string
  cj_instructions :: "string option"
  cj_attempts :: int
  cj_error :: "string option"
  cj_requested_by :: "int option"
  cj_created_at :: instant
  cj_started_at :: "instant option"
  cj_finished_at :: "instant option"

text \<open>One bureau's queue beside its files; all the bureaus a worker serves, and when each
  worker was last heard of.\<close>

record workshop =
  ws_room :: room
  ws_languages :: "(string \<times> string) list"
  ws_next_job :: int
  ws_jobs :: "claude_job list"

record floor =
  fl_tenants :: "tenant list"
  fl_shops :: "int \<Rightarrow> workshop"
  fl_heartbeats :: "(string \<times> instant \<times> string option) list"

definition is_active_job :: "claude_job \<Rightarrow> bool" where
  "is_active_job j \<longleftrightarrow> cj_status j \<in> ACTIVE_STATUSES"

text \<open>The partial unique index \<^verbatim>\<open>uq_claude_translation_jobs_active_file\<close>: at most one active
  job per source file. Null source files do not clash.\<close>

definition one_active :: "claude_job list \<Rightarrow> bool" where
  "one_active js \<longleftrightarrow>
     distinct (map cj_source_file_id (filter (\<lambda>j. is_active_job j \<and> cj_source_file_id j \<noteq> None) js))"

definition store_jobs :: "claude_job list \<Rightarrow> workshop \<Rightarrow> workshop result" where
  "store_jobs js ws =
     (if one_active js then Inr (ws\<lparr>ws_jobs := js\<rparr>)
      else Inl (IntegrityError ''A record with the same details already exists.''))"

section \<open>Names\<close>

definition STUCK_MESSAGE :: string where
  "STUCK_MESSAGE = ''The translation did not finish in time.''"

definition FILE_GONE_MESSAGE :: string where
  "FILE_GONE_MESSAGE = ''The file was removed before it could be translated.''"

definition job_ref :: "int \<Rightarrow> string \<Rightarrow> string" where
  "job_ref tenant_id public_id = show_int tenant_id @ CHR ''.'' # public_id"

text \<open>\<^verbatim>\<open>^(\d{1,12})\.([A-Za-z0-9_-]{8,40})$\<close>, the whole string.\<close>

definition parse_job_ref :: "string \<Rightarrow> (int \<times> string) result" where
  "parse_job_ref ref =
     (case split_on (CHR ''.'') ref of
        [t, p] \<Rightarrow>
          if 1 \<le> length t \<and> length t \<le> 12 \<and> list_all is_digit t \<and>
             8 \<le> length p \<and> length p \<le> 40 \<and> list_all is_id_char p
          then Inr (read_nat t, p) else Inl (NotFoundError ''Job not found.'')
      | _ \<Rightarrow> Inl (NotFoundError ''Job not found.''))"

definition result_name :: "string \<Rightarrow> string" where
  "result_name source_name =
     (let stem = (if CHR ''.'' \<in> set source_name then fst (rpartition (CHR ''.'') source_name) else source_name)
      in take 180 (if stem = [] then ''translation'' else stem) @ ''_Translated.docx'')"

definition numbered_name :: "string \<Rightarrow> nat \<Rightarrow> string" where
  "numbered_name name number =
     (case rpartition (CHR ''.'') name of
        (stem, dot, extension) \<Rightarrow> stem @ '' ('' @ show_nat number @ '')'' @ dot @ extension)"

definition unique_name :: "string \<Rightarrow> string list \<Rightarrow> string" where
  "unique_name name taken =
     (let used = map lower taken
      in if lower name \<notin> set used then name
         else case find (\<lambda>n. lower (numbered_name name n) \<notin> set used) [2..<1000] of
                Some n \<Rightarrow> numbered_name name n
              | None \<Rightarrow> name)"

section \<open>Putting jobs back\<close>

definition held_too_long :: "settings \<Rightarrow> instant \<Rightarrow> claude_job \<Rightarrow> bool" where
  "held_too_long cfg now j \<longleftrightarrow> cj_status j = TRANSLATING \<and>
     (case cj_started_at j of None \<Rightarrow> False | Some t \<Rightarrow> t < now - minutes (claude_job_stuck_minutes cfg))"

definition give_up :: "settings \<Rightarrow> instant \<Rightarrow> claude_job \<Rightarrow> claude_job" where
  "give_up cfg now j = j\<lparr>cj_status := FAILED,
     cj_error := Some (STUCK_MESSAGE @ '' It was tried '' @ show_int (claude_job_max_attempts cfg) @ '' times.''),
     cj_finished_at := Some now\<rparr>"

definition put_back :: "claude_job \<Rightarrow> claude_job" where
  "put_back j = j\<lparr>cj_status := QUEUED, cj_error := Some STUCK_MESSAGE\<rparr>"

definition requeue_stuck :: "settings \<Rightarrow> instant \<Rightarrow> workshop \<Rightarrow> workshop" where
  "requeue_stuck cfg now ws =
     (let gave_up = update_where (\<lambda>j. held_too_long cfg now j \<and> claude_job_max_attempts cfg \<le> cj_attempts j)
                      (give_up cfg now) (ws_jobs ws);
          back = update_where (\<lambda>j. held_too_long cfg now j \<and> cj_attempts j < claude_job_max_attempts cfg)
                   put_back gave_up
      in ws\<lparr>ws_jobs := back\<rparr>)"

section \<open>Claiming\<close>

definition waiting_jobs :: "workshop \<Rightarrow> claude_job list" where
  "waiting_jobs ws = sort_key (\<lambda>j. (cj_created_at j, cj_id j)) (filter (\<lambda>j. cj_status j = QUEUED) (ws_jobs ws))"

definition start_job :: "instant \<Rightarrow> claude_job \<Rightarrow> claude_job" where
  "start_job now j = j\<lparr>cj_status := TRANSLATING, cj_started_at := Some now,
     cj_attempts := cj_attempts j + 1, cj_error := None\<rparr>"

definition lose_file :: "instant \<Rightarrow> claude_job \<Rightarrow> claude_job" where
  "lose_file now j = j\<lparr>cj_status := FAILED, cj_error := Some FILE_GONE_MESSAGE, cj_finished_at := Some now\<rparr>"

definition live_file :: "room \<Rightarrow> int option \<Rightarrow> order_file option" where
  "live_file rm fid =
     (case fid of
        None \<Rightarrow> None
      | Some i \<Rightarrow> if i = 0 then None
                  else case get_row f_id i (rm_files rm) of
                         None \<Rightarrow> None
                       | Some f \<Rightarrow> if is_live_file f then Some f else None)"

definition language_name :: "workshop \<Rightarrow> string \<Rightarrow> string" where
  "language_name ws code =
     (case map_of (ws_languages ws) code of None \<Rightarrow> code | Some n \<Rightarrow> if n = [] then code else n)"

record claimed =
  cm_ref :: string
  cm_order_number :: int
  cm_file_name :: string
  cm_content_type :: string
  cm_size_bytes :: int
  cm_source_language :: string
  cm_target_language :: string
  cm_source_language_name :: string
  cm_target_language_name :: string
  cm_instructions :: "string option"
  cm_attempts :: int
  cm_output_name :: string

definition claimed_of :: "workshop \<Rightarrow> claude_job \<Rightarrow> order_file \<Rightarrow> claimed" where
  "claimed_of ws j f =
     \<lparr>cm_ref = job_ref (rm_tenant_id (ws_room ws)) (cj_public_id j),
      cm_order_number = (case get_row o_id (cj_order_id j) (orders (rm_office (ws_room ws))) of
                           None \<Rightarrow> 0 | Some ord \<Rightarrow> o_number ord),
      cm_file_name = cj_file_name j, cm_content_type = cj_content_type j, cm_size_bytes = f_size f,
      cm_source_language = cj_source_language j, cm_target_language = cj_target_language j,
      cm_source_language_name = language_name ws (cj_source_language j),
      cm_target_language_name = language_name ws (cj_target_language j),
      cm_instructions = cj_instructions j, cm_attempts = cj_attempts j,
      cm_output_name = result_name (cj_file_name j)\<rparr>"

definition set_job :: "int \<Rightarrow> (claude_job \<Rightarrow> claude_job) \<Rightarrow> workshop \<Rightarrow> workshop" where
  "set_job i f ws = ws\<lparr>ws_jobs := update_where (\<lambda>j. cj_id j = i) f (ws_jobs ws)\<rparr>"

definition claim_row :: "instant \<Rightarrow> int \<Rightarrow> workshop \<Rightarrow> workshop" where
  "claim_row now i ws = ws\<lparr>ws_jobs := update_where (\<lambda>j. cj_id j = i \<and> cj_status j = QUEUED)
     (start_job now) (ws_jobs ws)\<rparr>"

definition queued_count :: "workshop \<Rightarrow> nat" where
  "queued_count ws = length (filter (\<lambda>j. cj_status j = QUEUED) (ws_jobs ws))"

lemma filter_update_le:
  "(\<And>x. Q x \<Longrightarrow> \<not> P (f x)) \<Longrightarrow> length (filter P (update_where Q f xs)) \<le> length (filter P xs)"
  by (induction xs) (auto simp: le_SucI)

lemma filter_update_less:
  assumes "\<And>x. Q x \<Longrightarrow> \<not> P (f x)" and "j \<in> set xs" and "Q j" and "P j"
  shows "length (filter P (update_where Q f xs)) < length (filter P xs)"
proof -
  from assms(2) obtain us vs where xs: "xs = us @ j # vs" by (meson split_list)
  have "update_where Q f xs = update_where Q f us @ f j # update_where Q f vs"
    using assms(3) by (simp add: xs update_where_def)
  then show ?thesis
    using filter_update_le [of Q P f us] filter_update_le [of Q P f vs] assms(1,3,4) by (simp add: xs)
qed

lemma waiting_jobs_mem: "j \<in> set (waiting_jobs ws) \<longleftrightarrow> j \<in> set (ws_jobs ws) \<and> cj_status j = QUEUED"
  by (auto simp: waiting_jobs_def)

lemma claim_row_fewer:
  assumes "waiting_jobs ws = j # js"
  shows "queued_count (claim_row now (cj_id j) ws) < queued_count ws"
proof -
  have "j \<in> set (ws_jobs ws)" "cj_status j = QUEUED" using waiting_jobs_mem [of j ws] assms by simp_all
  then show ?thesis unfolding queued_count_def claim_row_def
    by (simp add: filter_update_less [where j = j] start_job_def)
qed

lemma lose_file_no_more: "queued_count (set_job i (lose_file now) ws) \<le> queued_count ws"
  by (simp add: queued_count_def set_job_def filter_update_le lose_file_def)

text \<open>
  The loop of \<^verbatim>\<open>_claim_in_tenant\<close>: a job whose file is gone is failed and the next is tried.
  Every turn takes one job out of the waiting ones, so the loop ends.
\<close>

function claim_in_tenant :: "instant \<Rightarrow> workshop \<Rightarrow> (claude_job \<times> claimed) option \<times> workshop" where
  "claim_in_tenant now ws =
     (case waiting_jobs ws of
        [] \<Rightarrow> (None, ws)
      | j # _ \<Rightarrow>
          let ws1 = claim_row now (cj_id j) ws
          in case live_file (ws_room ws) (cj_source_file_id j) of
               None \<Rightarrow> claim_in_tenant now (set_job (cj_id j) (lose_file now) ws1)
             | Some f \<Rightarrow> (Some (start_job now j, claimed_of ws (start_job now j) f), ws1))"
  by pat_completeness auto

termination
proof (relation "measure (\<lambda>(now, ws). queued_count ws)", goal_cases)
  case (2 now ws j js ws1)
  then show ?case
    using claim_row_fewer [of ws j js now] lose_file_no_more [of "cj_id j" now ws1] by simp
qed simp

declare claim_in_tenant.simps [simp del]

section \<open>The worker\<close>

definition enabled_tenants :: "floor \<Rightarrow> int list" where
  "enabled_tenants fl =
     sort (map t_id (filter (\<lambda>t. t_claude_translate_enabled t \<and> is_usable t) (fl_tenants fl)))"

definition set_shop :: "int \<Rightarrow> workshop \<Rightarrow> floor \<Rightarrow> floor" where
  "set_shop tid ws fl = fl\<lparr>fl_shops := (fl_shops fl)(tid := ws)\<rparr>"

definition requeue_all :: "settings \<Rightarrow> instant \<Rightarrow> int list \<Rightarrow> floor \<Rightarrow> floor" where
  "requeue_all cfg now tids fl = fold (\<lambda>tid fl. set_shop tid (requeue_stuck cfg now (fl_shops fl tid)) fl) tids fl"

definition oldest_waiting :: "workshop \<Rightarrow> instant option" where
  "oldest_waiting ws = (case waiting_jobs ws of [] \<Rightarrow> None | j # _ \<Rightarrow> Some (cj_created_at j))"

definition waiting_tenants :: "int list \<Rightarrow> floor \<Rightarrow> int list" where
  "waiting_tenants tids fl =
     map snd (sort (List.map_filter (\<lambda>tid. map_option (\<lambda>t. (t, tid)) (oldest_waiting (fl_shops fl tid))) tids))"

fun claim_first :: "instant \<Rightarrow> int list \<Rightarrow> floor \<Rightarrow> (int \<times> claude_job \<times> claimed) option \<times> floor" where
  "claim_first now [] fl = (None, fl)"
| "claim_first now (tid # tids) fl =
     (case claim_in_tenant now (fl_shops fl tid) of
        (Some (j, c), ws) \<Rightarrow> (Some (tid, j, c), set_shop tid ws fl)
      | (None, ws) \<Rightarrow> claim_first now tids (set_shop tid ws fl))"

definition claim_next :: "settings \<Rightarrow> instant \<Rightarrow> floor \<Rightarrow> (int \<times> claude_job \<times> claimed) option \<times> floor" where
  "claim_next cfg now fl =
     (let tids = enabled_tenants fl;
          fl1 = requeue_all cfg now tids fl
      in claim_first now (waiting_tenants tids fl1) fl1)"

definition record_heartbeat :: "instant \<Rightarrow> string \<Rightarrow> string option \<Rightarrow> floor \<Rightarrow> floor" where
  "record_heartbeat now name detail fl =
     fl\<lparr>fl_heartbeats :=
       (if name \<in> fst ` set (fl_heartbeats fl)
        then update_where (\<lambda>h. fst h = name) (\<lambda>_. (name, now, detail)) (fl_heartbeats fl)
        else fl_heartbeats fl @ [(name, now, detail)])\<rparr>"

definition last_heartbeat :: "floor \<Rightarrow> instant option" where
  "last_heartbeat fl =
     (case map (fst \<circ> snd) (fl_heartbeats fl) of [] \<Rightarrow> None | t # ts \<Rightarrow> Some (fold max ts t))"

definition worker_online :: "settings \<Rightarrow> instant \<Rightarrow> instant option \<Rightarrow> bool" where
  "worker_online cfg now seen_at \<longleftrightarrow>
     (case seen_at of None \<Rightarrow> False | Some t \<Rightarrow> now - t \<le> seconds (claude_worker_offline_seconds cfg))"

definition claim :: "settings \<Rightarrow> instant \<Rightarrow> string \<Rightarrow> floor \<Rightarrow> (int \<times> claude_job \<times> claimed) option \<times> floor" where
  "claim cfg now worker fl = claim_next cfg now (record_heartbeat now worker None fl)"

definition find_job :: "string \<Rightarrow> workshop \<Rightarrow> claude_job result" where
  "find_job public_id ws =
     (case find (\<lambda>j. cj_public_id j = public_id) (ws_jobs ws) of
        None \<Rightarrow> Inl (NotFoundError ''Job not found.'')
      | Some j \<Rightarrow> Inr j)"

definition translating_job :: "string \<Rightarrow> workshop \<Rightarrow> claude_job result" where
  "translating_job public_id ws =
     bind_result (find_job public_id ws) (\<lambda>j.
       if cj_status j = TRANSLATING then Inr j
       else Inl (ConflictError (''This job is '' @ status_value (cj_status j) @ '', not translating.'')))"

definition download_source :: "storage \<Rightarrow> reply \<Rightarrow> string \<Rightarrow> floor \<Rightarrow> string result" where
  "download_source s r ref fl =
     bind_result (parse_job_ref ref) (\<lambda>(tid, public_id).
     bind_result (translating_job public_id (fl_shops fl tid)) (\<lambda>j.
       case live_file (ws_room (fl_shops fl tid)) (cj_source_file_id j) of
         None \<Rightarrow> Inl (NotFoundError ''That file is no longer there.'')
       | Some f \<Rightarrow>
           (case open_download s r f (rm_objects (ws_room (fl_shops fl tid))) of
              Inl e \<Rightarrow> Inl (storage_failure e)
            | Inr content \<Rightarrow> Inr content)))"

text \<open>
  \<^verbatim>\<open>domain/word_file.py\<close>: what the zip library reads of the bytes (the parts with their
  unpacked sizes, or that they are no zip) is a parameter.
\<close>

definition MAX_PARTS :: nat where "MAX_PARTS = 2000"
definition MAX_UNPACKED_BYTES :: int where "MAX_UNPACKED_BYTES = 300 * 1024 * 1024"

definition ensure_word_document :: "(string \<Rightarrow> (string \<times> int) list option) \<Rightarrow> string \<Rightarrow> unit result" where
  "ensure_word_document unzip content =
     (case unzip content of
        None \<Rightarrow> Inl (ValidationError ''This is not a Word document.'')
      | Some parts \<Rightarrow>
          if MAX_PARTS < length parts \<or> MAX_UNPACKED_BYTES < sum_list (map snd parts)
            then Inl (ValidationError ''This Word document is too large to keep.'')
          else if \<not> {''[Content_Types].xml'', ''word/document.xml''} \<subseteq> fst ` set parts
            then Inl (ValidationError ''This is not a Word document.'')
          else if \<exists>part \<in> set parts. starts_with (lower (fst part)) ''word/vbaproject''
            then Inl (ValidationError ''Word documents with macros are not kept.'')
          else Inr ())"

definition finish_job :: "instant \<Rightarrow> claude_job \<Rightarrow> claude_job" where
  "finish_job now j = j\<lparr>cj_status := TRANSLATED, cj_error := None, cj_finished_at := Some now\<rparr>"

definition lose_document :: "instant \<Rightarrow> claude_job \<Rightarrow> claude_job" where
  "lose_document now j = j\<lparr>cj_status := FAILED,
     cj_error := Some ''The document was removed before it could be translated.'', cj_finished_at := Some now\<rparr>"

definition job_document :: "room \<Rightarrow> claude_job \<Rightarrow> (order \<times> order_document) option" where
  "job_document rm j =
     (case (get_row o_id (cj_order_id j) (orders (rm_office rm)),
            Option.bind (cj_document_id j) (\<lambda>did. if did = 0 then None else get_row d_id did (documents (rm_office rm)))) of
        (Some ord, Some d) \<Rightarrow> Some (ord, d)
      | _ \<Rightarrow> None)"

text \<open>
  A result is filed and the job marked in one transaction: a storage failure leaves the rows as
  they were (bytes may have been left outside). A job whose document is gone is failed, and
  that is kept although the answer is an error.
\<close>

definition post_result ::
    "storage \<Rightarrow> replies \<Rightarrow> (string \<Rightarrow> string) \<Rightarrow> (string \<Rightarrow> (string \<times> int) list option) \<Rightarrow> nat \<Rightarrow> instant
     \<Rightarrow> string \<Rightarrow> string \<Rightarrow> string \<Rightarrow> floor \<Rightarrow> (string \<times> string) result \<times> floor" where
  "post_result s rp sha256 unzip max_bytes now file_public_id ref upload fl =
     (case bind_result (parse_job_ref ref) (\<lambda>target.
            bind_result (read_upload max_bytes upload) (\<lambda>content.
            bind_result (ensure_word_document unzip content) (\<lambda>_.
            bind_result (translating_job (snd target) (fl_shops fl (fst target))) (\<lambda>j.
              Inr (fst target, content, j))))) of
        Inl e \<Rightarrow> (Inl e, fl)
      | Inr (tid, content, j) \<Rightarrow>
          let ws = fl_shops fl tid in
          (case job_document (ws_room ws) j of
             None \<Rightarrow> (Inl (ConflictError ''The document was removed before it could be translated.''),
                      set_shop tid (set_job (cj_id j) (lose_document now) ws) fl)
           | Some (ord, d) \<Rightarrow>
               let name = unique_name (result_name (cj_file_name j))
                            (map f_name (list_document_files (d_id d) (ws_room ws)));
                   ws1 = set_job (cj_id j) (finish_job now) ws
               in case upload_document_file s rp sha256 now file_public_id (o_id ord) (d_id d) TRANSLATION_file
                         name content DOCX_CONTENT_TYPE
                         (''claude:'' @ show_int (or_else (cj_requested_by j) 0)) (ws_room ws) of
                    (Inl e, rm) \<Rightarrow> (Inl (storage_failure e), set_shop tid (ws\<lparr>ws_room := rm\<rparr>) fl)
                  | (Inr row, rm) \<Rightarrow>
                      (Inr (f_public_id row, name),
                       set_shop tid (set_job (cj_id j) (\<lambda>j. j\<lparr>cj_result_file_id := Some (f_id row)\<rparr>)
                                       (ws1\<lparr>ws_room := rm\<rparr>)) fl)))"

definition MAX_ERROR :: nat where "MAX_ERROR = 500"

datatype job_report = Report_failed | Report_queued

definition reported :: "instant \<Rightarrow> job_report \<Rightarrow> string option \<Rightarrow> claude_job \<Rightarrow> claude_job" where
  "reported now report message j =
     (case report of
        Report_failed \<Rightarrow> j\<lparr>cj_status := FAILED, cj_error := message, cj_finished_at := Some now\<rparr>
      | Report_queued \<Rightarrow> j\<lparr>cj_status := QUEUED, cj_error := message,
                           cj_attempts := (if 0 < cj_attempts j then cj_attempts j - 1 else 0)\<rparr>)"

definition report_message :: "string option \<Rightarrow> string option" where
  "report_message m = (let t = take MAX_ERROR (strip (or_blank m)) in if t = [] then None else Some t)"

definition report_status ::
    "instant \<Rightarrow> string \<Rightarrow> job_report \<Rightarrow> string option \<Rightarrow> floor \<Rightarrow> (claude_job_status \<times> floor) result" where
  "report_status now ref report message fl =
     (if \<not> at_most MAX_ERROR message then Inl (ValidationError ''Request validation failed.'') else
      bind_result (parse_job_ref ref) (\<lambda>(tid, public_id).
      bind_result (translating_job public_id (fl_shops fl tid)) (\<lambda>j.
        Inr (cj_status (reported now report (report_message message) j),
             set_shop tid (set_job (cj_id j) (reported now report (report_message message)) (fl_shops fl tid)) fl))))"

section \<open>Staff\<close>

definition MAX_FILES :: nat where "MAX_FILES = 50"

definition feature_enabled :: "int \<Rightarrow> floor \<Rightarrow> unit result" where
  "feature_enabled tid fl =
     (case get_row t_id tid (fl_tenants fl) of
        Some t \<Rightarrow> if t_claude_translate_enabled t then Inr ()
                  else Inl (PermissionDeniedError ''Claude Translate is not enabled for this account.'')
      | None \<Rightarrow> Inl (PermissionDeniedError ''Claude Translate is not enabled for this account.''))"

definition jobs_of :: "int \<Rightarrow> workshop \<Rightarrow> claude_job list" where
  "jobs_of order_id ws = rev (filter (\<lambda>j. cj_order_id j = order_id) (ws_jobs ws))"

definition order_of :: "int \<Rightarrow> workshop \<Rightarrow> order result" where
  "order_of oid ws =
     (case get_row o_id oid (orders (rm_office (ws_room ws))) of
        None \<Rightarrow> Inl (NotFoundError ''Order not found.'') | Some ord \<Rightarrow> Inr ord)"

text \<open>Source files that have a finished translation still on the document.\<close>

definition live_outputs :: "claude_job list \<Rightarrow> room \<Rightarrow> int set" where
  "live_outputs js rm =
     {i. \<exists>j \<in> set js. cj_status j = TRANSLATED \<and> cj_source_file_id j = Some i \<and> i \<noteq> 0 \<and>
           (\<exists>r. cj_result_file_id j = Some r \<and> r \<noteq> 0 \<and>
                (\<exists>f \<in> set (rm_files rm). f_id f = r \<and> is_live_file f))}"

definition validate_create_jobs :: "string list \<Rightarrow> string list result" where
  "validate_create_jobs files =
     (if files = [] \<or> MAX_FILES < length files then Inl (ValidationError ''Request validation failed.'')
      else if \<not> distinct files then Inl (ValidationError ''A file can be picked once.'')
      else if \<not> list_all is_file_id files then Inl (ValidationError ''Not a file id.'')
      else Inr files)"

definition source_file :: "int list \<Rightarrow> string \<Rightarrow> room \<Rightarrow> order_file option" where
  "source_file document_ids public_id rm =
     find (\<lambda>f. f_public_id f = public_id \<and> (\<exists>did \<in> set document_ids. f_document_id f = Some did) \<and>
               is_live_file f \<and> f_kind f = SOURCE_file) (rm_files rm)"

definition chosen_files :: "int list \<Rightarrow> string list \<Rightarrow> room \<Rightarrow> order_file list result" where
  "chosen_files document_ids files rm =
     map_result (\<lambda>i. case source_file document_ids i rm of
         None \<Rightarrow> Inl (NotFoundError ''File not found.'') | Some f \<Rightarrow> Inr f) files"

definition new_job :: "auth_session \<Rightarrow> instant \<Rightarrow> order \<Rightarrow> order_document list \<Rightarrow> int \<Rightarrow> string \<Rightarrow> order_file \<Rightarrow> claude_job" where
  "new_job session now ord ds i public_id f =
     (let d = find (\<lambda>d. f_document_id f = Some (d_id d)) ds
      in \<lparr>cj_id = i, cj_public_id = public_id, cj_order_id = o_id ord, cj_document_id = f_document_id f,
          cj_source_file_id = Some (f_id f), cj_result_file_id = None, cj_status = QUEUED,
          cj_file_name = f_name f, cj_content_type = f_content_type f,
          cj_source_language = (case d of None \<Rightarrow> [] | Some d \<Rightarrow> d_source_language d),
          cj_target_language = (case d of None \<Rightarrow> [] | Some d \<Rightarrow> d_target_language d),
          cj_instructions = o_translation_instructions ord, cj_attempts = 0, cj_error = None,
          cj_requested_by = Some (as_user_id session), cj_created_at = now, cj_started_at = None,
          cj_finished_at = None\<rparr>)"

fun new_jobs :: "auth_session \<Rightarrow> instant \<Rightarrow> order \<Rightarrow> order_document list \<Rightarrow> int \<Rightarrow> (string \<times> order_file) list \<Rightarrow> claude_job list" where
  "new_jobs session now ord ds i [] = []"
| "new_jobs session now ord ds i ((public_id, f) # rest) =
     new_job session now ord ds i public_id f # new_jobs session now ord ds (i + 1) rest"

definition log_shop :: "auth_session \<Rightarrow> string \<Rightarrow> int \<Rightarrow> workshop \<Rightarrow> workshop" where
  "log_shop session action oid ws = ws\<lparr>ws_room := log_room session action oid (ws_room ws)\<rparr>"

text \<open>The public ids are what \<^verbatim>\<open>new_public_id\<close> draws, one per file.\<close>

definition create_jobs ::
    "auth_session \<Rightarrow> instant \<Rightarrow> string list \<Rightarrow> int \<Rightarrow> string list \<Rightarrow> bool \<Rightarrow> floor \<Rightarrow> (claude_job list \<times> floor) result" where
  "create_jobs session now public_ids oid payload confirm_retranslate fl =
     (let tid = as_tenant_id session; ws = fl_shops fl tid in
     bind_result (feature_enabled tid fl) (\<lambda>_.
     bind_result (validate_create_jobs payload) (\<lambda>files.
     bind_result (order_of oid ws) (\<lambda>ord.
     let ds = order_documents oid (rm_office (ws_room ws)) in
     bind_result (chosen_files (map d_id ds) files (ws_room ws)) (\<lambda>chosen.
       if \<exists>f \<in> set chosen. \<not> downloadable f
         then Inl (ValidationError ''These files are kept in the Order Vault and cannot be translated from here.'')
       else if \<exists>j \<in> set (jobs_of oid ws). is_active_job j \<and> (\<exists>f \<in> set chosen. cj_source_file_id j = Some (f_id f))
         then Inl (ConflictError ''These files are already waiting for Claude or being translated.'')
       else if (\<exists>f \<in> set chosen. f_id f \<in> live_outputs (jobs_of oid ws) (ws_room ws)) \<and> \<not> confirm_retranslate
         then Inl (ConflictError ''These files already have a Claude translation.'')
       else let js = new_jobs session now ord ds (ws_next_job ws) (zip public_ids chosen)
            in if \<not> one_active (ws_jobs ws @ js)
                 then Inl (ConflictError ''One of these files is already waiting for Claude.'')
               else Inr (js, set_shop tid (log_shop session ''order.claude_translation_requested'' oid
                 (ws\<lparr>ws_next_job := ws_next_job ws + int (length js), ws_jobs := ws_jobs ws @ js\<rparr>)) fl))))))"

definition list_jobs :: "settings \<Rightarrow> instant \<Rightarrow> auth_session \<Rightarrow> int \<Rightarrow> floor \<Rightarrow> ((claude_job list \<times> bool) \<times> floor) result" where
  "list_jobs cfg now session oid fl =
     (let tid = as_tenant_id session in
     bind_result (feature_enabled tid fl) (\<lambda>_.
     bind_result (order_of oid (fl_shops fl tid)) (\<lambda>_.
       let ws = requeue_stuck cfg now (fl_shops fl tid)
       in Inr ((jobs_of oid ws, worker_online cfg now (last_heartbeat fl)), set_shop tid ws fl))))"

definition order_job :: "int \<Rightarrow> string \<Rightarrow> workshop \<Rightarrow> claude_job result" where
  "order_job oid public_id ws =
     (case find (\<lambda>j. cj_public_id j = public_id \<and> cj_order_id j = oid) (ws_jobs ws) of
        None \<Rightarrow> Inl (NotFoundError ''Job not found.'')
      | Some j \<Rightarrow> Inr j)"

definition retried :: "claude_job \<Rightarrow> claude_job" where
  "retried j = j\<lparr>cj_status := QUEUED, cj_attempts := 0, cj_error := None, cj_started_at := None,
     cj_finished_at := None\<rparr>"

definition retry_job :: "auth_session \<Rightarrow> int \<Rightarrow> string \<Rightarrow> floor \<Rightarrow> floor result" where
  "retry_job session oid public_id fl =
     (let tid = as_tenant_id session; ws = fl_shops fl tid in
     bind_result (feature_enabled tid fl) (\<lambda>_.
     bind_result (order_job oid public_id ws) (\<lambda>j.
       if live_file (ws_room ws) (cj_source_file_id j) = None
         then Inl (ConflictError ''The file was removed, so there is nothing to translate again.'')
       else if cj_status j \<noteq> FAILED
         then Inl (ConflictError ''Only a failed job can be retried.'')
       else bind_result (store_jobs (update_where (\<lambda>r. cj_id r = cj_id j) retried (ws_jobs ws)) ws) (\<lambda>ws1.
              Inr (set_shop tid (log_shop session ''order.claude_translation_retried'' oid ws1) fl)))))"

definition cancelled :: "instant \<Rightarrow> claude_job \<Rightarrow> claude_job" where
  "cancelled now j = j\<lparr>cj_status := CANCELLED, cj_finished_at := Some now\<rparr>"

definition cancel_job :: "auth_session \<Rightarrow> instant \<Rightarrow> int \<Rightarrow> string \<Rightarrow> floor \<Rightarrow> floor result" where
  "cancel_job session now oid public_id fl =
     (let tid = as_tenant_id session; ws = fl_shops fl tid in
     bind_result (feature_enabled tid fl) (\<lambda>_.
     bind_result (order_job oid public_id ws) (\<lambda>j.
       if cj_status j \<noteq> QUEUED then Inl (ConflictError ''Only a waiting job can be cancelled.'')
       else Inr (set_shop tid (log_shop session ''order.claude_translation_cancelled'' oid
                   (set_job (cj_id j) (cancelled now) ws)) fl))))"

text \<open>What deleting orders, documents and file rows does to the jobs that name them: a job goes
  with its order, and a document or a file that is gone is set to null.\<close>

definition known :: "int set \<Rightarrow> int option \<Rightarrow> int option" where
  "known ids i = (case i of None \<Rightarrow> None | Some n \<Rightarrow> if n \<in> ids then Some n else None)"

definition settle_jobs :: "room \<Rightarrow> workshop \<Rightarrow> workshop" where
  "settle_jobs rm ws = ws\<lparr>ws_room := rm,
     ws_jobs := map (\<lambda>j. j\<lparr>cj_document_id := known (d_id ` set (documents (rm_office rm))) (cj_document_id j),
                           cj_source_file_id := known (f_id ` set (rm_files rm)) (cj_source_file_id j),
                           cj_result_file_id := known (f_id ` set (rm_files rm)) (cj_result_file_id j)\<rparr>)
                  (filter (\<lambda>j. cj_order_id j \<in> o_id ` set (orders (rm_office rm))) (ws_jobs ws))\<rparr>"

text \<open>What the dialog lists: each live source file of the order with its latest job.\<close>

record pickable =
  pk_file :: order_file
  pk_source_language :: string
  pk_target_language :: string
  pk_downloadable :: bool
  pk_job_status :: "claude_job_status option"
  pk_has_output :: bool

definition pickable_of :: "claude_job list \<Rightarrow> room \<Rightarrow> order_document \<Rightarrow> order_file \<Rightarrow> pickable" where
  "pickable_of js rm d f =
     \<lparr>pk_file = f, pk_source_language = d_source_language d, pk_target_language = d_target_language d,
      pk_downloadable = downloadable f,
      pk_job_status = map_option cj_status (find (\<lambda>j. cj_source_file_id j = Some (f_id f)) js),
      pk_has_output = (f_id f \<in> live_outputs js rm)\<rparr>"

definition list_pickable_files :: "auth_session \<Rightarrow> int \<Rightarrow> floor \<Rightarrow> (pickable list \<times> string option) result" where
  "list_pickable_files session oid fl =
     (let tid = as_tenant_id session; ws = fl_shops fl tid; rm = ws_room ws in
     bind_result (feature_enabled tid fl) (\<lambda>_.
     bind_result (order_of oid ws) (\<lambda>ord.
       Inr (List.map_filter (\<lambda>f.
              if is_live_file f \<and> f_kind f = SOURCE_file
              then map_option (\<lambda>d. pickable_of (jobs_of oid ws) rm d f)
                     (find (\<lambda>d. f_document_id f = Some (d_id d)) (order_documents oid (rm_office rm)))
              else None) (rm_files rm),
            o_translation_instructions ord))))"

section \<open>The machine the queue implements\<close>

text \<open>
  The life of a job as the module documents it, with who may move it: a status and the number
  of attempts used. The two timeouts happen whenever anyone looks at the queue.
\<close>

datatype actor = Worker | Staff

inductive job_move :: "int \<Rightarrow> actor \<Rightarrow> claude_job_status \<times> int \<Rightarrow> claude_job_status \<times> int \<Rightarrow> bool" for limit where
  claimed: "job_move limit Worker (QUEUED, n) (TRANSLATING, n + 1)"
| given_back: "job_move limit Worker (TRANSLATING, n) (QUEUED, if 0 < n then n - 1 else 0)"
| reported_failed: "job_move limit Worker (TRANSLATING, n) (FAILED, n)"
| finished: "job_move limit Worker (TRANSLATING, n) (TRANSLATED, n)"
| put_back: "n < limit \<Longrightarrow> job_move limit a (TRANSLATING, n) (QUEUED, n)"
| gave_up: "limit \<le> n \<Longrightarrow> job_move limit a (TRANSLATING, n) (FAILED, n)"
| cancelled: "job_move limit Staff (QUEUED, n) (CANCELLED, n)"
| retried: "job_move limit Staff (FAILED, n) (QUEUED, 0)"

inductive_cases from_translated: "job_move limit a (TRANSLATED, n) v"
inductive_cases from_cancelled: "job_move limit a (CANCELLED, n) v"
inductive_cases from_failed: "job_move limit a (FAILED, n) v"

abbreviation job_moves :: "int \<Rightarrow> actor \<Rightarrow> claude_job_status \<times> int \<Rightarrow> claude_job_status \<times> int \<Rightarrow> bool" where
  "job_moves limit a \<equiv> (job_move limit a)\<^sup>*\<^sup>*"

type_synonym board = "int \<Rightarrow> int \<Rightarrow> (claude_job_status \<times> int) option"

text \<open>One step of the machine: every job moves as documented; new ones wait unattempted, and only
  staff add jobs or let them go with their order.\<close>

definition board_step :: "int \<Rightarrow> actor \<Rightarrow> board \<Rightarrow> board \<Rightarrow> bool" where
  "board_step limit a B B' \<longleftrightarrow>
     (\<forall>tid i. case B tid i of
        None \<Rightarrow> B' tid i = None \<or> a = Staff \<and> B' tid i = Some (QUEUED, 0)
      | Some v \<Rightarrow> (case B' tid i of None \<Rightarrow> a = Staff | Some v' \<Rightarrow> job_moves limit a v v'))"

definition view :: "claude_job \<Rightarrow> claude_job_status \<times> int" where
  "view j = (cj_status j, cj_attempts j)"

definition board :: "floor \<Rightarrow> board" where
  "board fl tid i = map_option view (get_row cj_id i (ws_jobs (fl_shops fl tid)))"

text \<open>One bureau's rows going from one list to another the way the machine allows.\<close>

definition rows_move :: "int \<Rightarrow> actor \<Rightarrow> claude_job list \<Rightarrow> claude_job list \<Rightarrow> bool" where
  "rows_move limit a js js' \<longleftrightarrow>
     (\<forall>i. case get_row cj_id i js of
        None \<Rightarrow> get_row cj_id i js' = None
      | Some j \<Rightarrow> (case get_row cj_id i js' of None \<Rightarrow> False | Some j' \<Rightarrow> job_moves limit a (view j) (view j')))"

lemma rows_move_refl [simp]: "rows_move limit a js js"
  by (simp add: rows_move_def split: option.split)

lemma rows_move_trans: "rows_move limit a js js1 \<Longrightarrow> rows_move limit a js1 js2 \<Longrightarrow> rows_move limit a js js2"
  unfolding rows_move_def
  by (rule allI) (drule_tac x = i in spec, drule_tac x = i in spec,
      auto split: option.splits intro: rtranclp_trans)

lemma rows_move_update:
  assumes "\<And>j. cj_id (f j) = cj_id j"
    and "\<And>j. j \<in> set js \<Longrightarrow> Q j \<Longrightarrow> job_moves limit a (view j) (view (f j))"
  shows "rows_move limit a js (update_where Q f js)"
proof -
  have "get_row cj_id i (update_where Q f js) = map_option (\<lambda>j. if Q j then f j else j) (get_row cj_id i js)" for i
    by (rule get_row_update_where_gen) (rule assms(1))
  then show ?thesis using assms(2) by (auto simp: rows_move_def split: option.split dest: get_row_SomeD)
qed

section \<open>What a queue keeps\<close>

text \<open>
  Attempts stay within the limit, a job being translated has been started, a job that is over
  has an end, ids are distinct, and no file has two active jobs.
\<close>

fun job_ok :: "int \<Rightarrow> claude_job \<Rightarrow> bool" where
  "job_ok limit j = (case cj_status j of
     QUEUED \<Rightarrow> 0 \<le> cj_attempts j \<and> cj_attempts j < limit
   | TRANSLATING \<Rightarrow> 1 \<le> cj_attempts j \<and> cj_attempts j \<le> limit \<and> cj_started_at j \<noteq> None
   | _ \<Rightarrow> 0 \<le> cj_attempts j \<and> cj_attempts j \<le> limit \<and> cj_finished_at j \<noteq> None)"

definition shop_ok :: "int \<Rightarrow> workshop \<Rightarrow> bool" where
  "shop_ok limit ws \<longleftrightarrow> 0 < limit \<and> distinct (map cj_id (ws_jobs ws)) \<and> one_active (ws_jobs ws) \<and>
     (\<forall>j \<in> set (ws_jobs ws). cj_id j < ws_next_job ws \<and> job_ok limit j)"

lemma one_active_shrinks:
  assumes "one_active js"
    and "\<And>j. j \<in> set js \<Longrightarrow> is_active_job (g j) \<and> cj_source_file_id (g j) \<noteq> None \<Longrightarrow>
           is_active_job j \<and> cj_source_file_id (g j) = cj_source_file_id j"
  shows "one_active (map g (filter R js))"
  using assms unfolding one_active_def
proof (induction js)
  case (Cons j js)
  let ?P = "\<lambda>j. is_active_job j \<and> cj_source_file_id j \<noteq> None"
  have IH: "distinct (map cj_source_file_id (filter ?P (map g (filter R js))))"
    using Cons by (simp split: if_splits)
  show ?case
  proof (cases "R j \<and> ?P (g j)")
    case True
    then have j: "?P j" "cj_source_file_id (g j) = cj_source_file_id j" using Cons.prems(2) [of j] by auto
    have "cj_source_file_id (g j) \<noteq> cj_source_file_id (g k)" if "k \<in> set js" "?P (g k)" for k
      using Cons.prems(1) Cons.prems(2) [of k] that j by (auto simp: image_iff)
    then show ?thesis using IH True by auto
  qed (use IH in auto)
qed simp

lemma shop_ok_update:
  assumes "shop_ok limit ws"
    and "\<And>j. cj_id (f j) = cj_id j"
    and "\<And>j. cj_source_file_id (f j) = cj_source_file_id j"
    and "\<And>j. j \<in> set (ws_jobs ws) \<Longrightarrow> Q j \<Longrightarrow> job_ok limit j \<Longrightarrow> job_ok limit (f j)"
    and "\<And>j. j \<in> set (ws_jobs ws) \<Longrightarrow> Q j \<Longrightarrow> is_active_job (f j) \<Longrightarrow> is_active_job j"
  shows "shop_ok limit (ws\<lparr>ws_jobs := update_where Q f (ws_jobs ws)\<rparr>)"
proof -
  have "one_active (map (\<lambda>j. if Q j then f j else j) (filter (\<lambda>_. True) (ws_jobs ws)))"
    by (rule one_active_shrinks) (use assms(1,3,5) in \<open>auto simp: shop_ok_def split: if_split_asm\<close>)
  then have "one_active (update_where Q f (ws_jobs ws))" by (simp add: update_where_def)
  moreover have "map cj_id (update_where Q f (ws_jobs ws)) = map cj_id (ws_jobs ws)"
    by (rule map_key_update_where) (rule assms(2))
  moreover have "cj_id j < ws_next_job ws \<and> job_ok limit j" if "j \<in> set (update_where Q f (ws_jobs ws))" for j
    using that assms(1,2,4) unfolding shop_ok_def set_update_where by auto
  ultimately show ?thesis using assms(1) by (simp add: shop_ok_def)
qed

text \<open>The row of one id.\<close>

lemma shop_ok_same: "shop_ok limit ws \<Longrightarrow> j \<in> set (ws_jobs ws) \<Longrightarrow> k \<in> set (ws_jobs ws) \<Longrightarrow> cj_id k = cj_id j \<Longrightarrow> k = j"
  unfolding shop_ok_def by (meson distinct_map_eq)

definition shop_moves :: "int \<Rightarrow> actor \<Rightarrow> workshop \<Rightarrow> workshop \<Rightarrow> bool" where
  "shop_moves limit a ws ws' \<longleftrightarrow> rows_move limit a (ws_jobs ws) (ws_jobs ws') \<and> shop_ok limit ws'"

lemma shop_moves_trans: "shop_moves limit a ws ws1 \<Longrightarrow> shop_moves limit a ws1 ws2 \<Longrightarrow> shop_moves limit a ws ws2"
  unfolding shop_moves_def using rows_move_trans by blast

lemma set_job_moves:
  assumes "shop_ok limit ws" and "j \<in> set (ws_jobs ws)"
    and "\<And>j. cj_id (f j) = cj_id j" and "\<And>j. cj_source_file_id (f j) = cj_source_file_id j"
    and "job_ok limit j \<Longrightarrow> job_ok limit (f j)" and "is_active_job (f j) \<Longrightarrow> is_active_job j"
    and "job_moves limit a (view j) (view (f j))"
  shows "shop_moves limit a ws (set_job (cj_id j) f ws)"
proof -
  have one: "k = j" if "k \<in> set (ws_jobs ws)" "cj_id k = cj_id j" for k
    using shop_ok_same [OF assms(1,2) that] .
  have "rows_move limit a (ws_jobs ws) (update_where (\<lambda>k. cj_id k = cj_id j) f (ws_jobs ws))"
    by (rule rows_move_update) (use assms(3,7) one in auto)
  moreover have "shop_ok limit (ws\<lparr>ws_jobs := update_where (\<lambda>k. cj_id k = cj_id j) f (ws_jobs ws)\<rparr>)"
    by (rule shop_ok_update [OF assms(1)]) (use assms(3-6) one in auto)
  ultimately show ?thesis by (simp add: shop_moves_def set_job_def)
qed

lemma requeue_stuck_moves:
  assumes "shop_ok (claude_job_max_attempts cfg) ws"
  shows "shop_moves (claude_job_max_attempts cfg) a ws (requeue_stuck cfg now ws)"
proof -
  let ?limit = "claude_job_max_attempts cfg"
  let ?Q1 = "\<lambda>j. held_too_long cfg now j \<and> ?limit \<le> cj_attempts j"
  let ?Q2 = "\<lambda>j. held_too_long cfg now j \<and> cj_attempts j < ?limit"
  let ?ws1 = "ws\<lparr>ws_jobs := update_where ?Q1 (give_up cfg now) (ws_jobs ws)\<rparr>"
  have 1: "shop_ok ?limit ?ws1"
    by (rule shop_ok_update [OF assms])
      (auto simp: give_up_def held_too_long_def is_active_job_def ACTIVE_STATUSES_def)
  have m1: "rows_move ?limit a (ws_jobs ws) (ws_jobs ?ws1)"
    by (simp, rule rows_move_update)
      (auto simp: give_up_def held_too_long_def view_def intro!: r_into_rtranclp job_move.gave_up)
  have 2: "shop_ok ?limit (?ws1\<lparr>ws_jobs := update_where ?Q2 put_back (ws_jobs ?ws1)\<rparr>)"
    by (rule shop_ok_update [OF 1]) (auto simp: put_back_def held_too_long_def is_active_job_def ACTIVE_STATUSES_def)
  have m2: "rows_move ?limit a (ws_jobs ?ws1) (update_where ?Q2 put_back (ws_jobs ?ws1))"
    by (rule rows_move_update)
      (auto simp: put_back_def held_too_long_def view_def intro!: r_into_rtranclp job_move.put_back)
  from rows_move_trans [OF m1 m2] 2 show ?thesis
    by (simp add: shop_moves_def requeue_stuck_def Let_def)
qed

lemma claim_row_moves:
  assumes "shop_ok limit ws"
  shows "shop_moves limit Worker ws (claim_row now i ws)"
proof -
  have "rows_move limit Worker (ws_jobs ws)
      (update_where (\<lambda>j. cj_id j = i \<and> cj_status j = QUEUED) (start_job now) (ws_jobs ws))"
    by (rule rows_move_update)
      (auto simp: start_job_def view_def intro!: r_into_rtranclp job_move.claimed)
  moreover have "shop_ok limit (ws\<lparr>ws_jobs :=
      update_where (\<lambda>j. cj_id j = i \<and> cj_status j = QUEUED) (start_job now) (ws_jobs ws)\<rparr>)"
    by (rule shop_ok_update [OF assms]) (auto simp: start_job_def is_active_job_def ACTIVE_STATUSES_def)
  ultimately show ?thesis by (simp add: shop_moves_def claim_row_def)
qed

lemma claim_in_tenant_moves:
  "shop_ok limit ws \<Longrightarrow> claim_in_tenant now ws = (r, ws') \<Longrightarrow> shop_moves limit Worker ws ws'"
proof (induction now ws arbitrary: r ws' rule: claim_in_tenant.induct)
  case (1 now ws)
  show ?case
  proof (cases "waiting_jobs ws")
    case Nil
    with 1(2,3) show ?thesis by (subst (asm) claim_in_tenant.simps) (simp add: shop_moves_def)
  next
    case (Cons j js)
    let ?ws1 = "claim_row now (cj_id j) ws"
    note first = claim_row_moves [OF 1(2), of now "cj_id j"]
    show ?thesis
    proof (cases "live_file (ws_room ws) (cj_source_file_id j)")
      case (Some f)
      with 1(3) Cons first show ?thesis by (subst (asm) claim_in_tenant.simps) (simp add: Let_def)
    next
      case None
      have j: "j \<in> set (ws_jobs ws)" "cj_status j = QUEUED" using waiting_jobs_mem [of j ws] Cons by simp_all
      let ?j1 = "start_job now j"
      have ok1: "shop_ok limit ?ws1" using first by (simp add: shop_moves_def)
      have j1: "?j1 \<in> set (ws_jobs ?ws1)" using j by (auto simp: claim_row_def set_update_where)
      have "shop_moves limit Worker ?ws1 (set_job (cj_id ?j1) (lose_file now) ?ws1)"
        by (rule set_job_moves [OF ok1 j1])
          (auto simp: lose_file_def start_job_def view_def is_active_job_def ACTIVE_STATUSES_def
            intro!: r_into_rtranclp job_move.reported_failed)
      then have second: "shop_moves limit Worker ?ws1 (set_job (cj_id j) (lose_file now) ?ws1)"
        by (simp add: start_job_def)
      have rest: "claim_in_tenant now (set_job (cj_id j) (lose_file now) ?ws1) = (r, ws')"
        using 1(3) Cons None by (subst (asm) claim_in_tenant.simps) (simp add: Let_def)
      have "shop_moves limit Worker (set_job (cj_id j) (lose_file now) ?ws1) ws'"
        using 1(1) [OF Cons refl None _ rest] second by (simp add: shop_moves_def)
      with first second show ?thesis using shop_moves_trans by blast
    qed
  qed
qed

lemma shop_ok_room [simp]: "shop_ok limit (ws\<lparr>ws_room := rm\<rparr>) = shop_ok limit ws"
  by (simp add: shop_ok_def)

lemma shop_ok_log [simp]: "shop_ok limit (log_shop session action oid ws) = shop_ok limit ws"
  by (simp add: log_shop_def)

lemma shop_jobs_room [simp]:
  "ws_jobs (log_shop session action oid ws) = ws_jobs ws"
  by (simp add: log_shop_def)

lemma shop_moves_refl: "shop_ok limit ws \<Longrightarrow> shop_moves limit a ws ws"
  by (simp add: shop_moves_def)

definition floor_ok :: "int \<Rightarrow> floor \<Rightarrow> bool" where
  "floor_ok limit fl \<longleftrightarrow> (\<forall>tid. shop_ok limit (fl_shops fl tid))"

definition floor_moves :: "int \<Rightarrow> actor \<Rightarrow> floor \<Rightarrow> floor \<Rightarrow> bool" where
  "floor_moves limit a fl fl' \<longleftrightarrow> (\<forall>tid. shop_moves limit a (fl_shops fl tid) (fl_shops fl' tid))"

lemma floor_moves_trans: "floor_moves limit a fl fl1 \<Longrightarrow> floor_moves limit a fl1 fl2 \<Longrightarrow> floor_moves limit a fl fl2"
  unfolding floor_moves_def using shop_moves_trans by blast

lemma floor_moves_ok: "floor_moves limit a fl fl' \<Longrightarrow> floor_ok limit fl'"
  by (simp add: floor_moves_def floor_ok_def shop_moves_def)

lemma floor_moves_refl: "floor_ok limit fl \<Longrightarrow> floor_moves limit a fl fl"
  by (simp add: floor_moves_def floor_ok_def shop_moves_refl)

lemma set_shop_moves:
  "floor_ok limit fl \<Longrightarrow> shop_moves limit a (fl_shops fl tid) ws \<Longrightarrow> floor_moves limit a fl (set_shop tid ws fl)"
  by (simp add: floor_moves_def set_shop_def floor_ok_def shop_moves_refl)

lemma floor_moves_board: "floor_moves limit a fl fl' \<Longrightarrow> board_step limit a (board fl) (board fl')"
  unfolding floor_moves_def board_step_def board_def shop_moves_def rows_move_def
  by (intro allI, drule_tac x = tid in spec, drule conjunct1, drule_tac x = i in spec)
    (auto split: option.splits)

lemma requeue_all_moves:
  assumes "floor_ok (claude_job_max_attempts cfg) fl"
  shows "floor_moves (claude_job_max_attempts cfg) a fl (requeue_all cfg now tids fl)"
  unfolding requeue_all_def using assms
proof (induction tids arbitrary: fl)
  case (Cons tid tids)
  let ?fl1 = "set_shop tid (requeue_stuck cfg now (fl_shops fl tid)) fl"
  have m: "floor_moves (claude_job_max_attempts cfg) a fl ?fl1"
    by (rule set_shop_moves [OF Cons.prems requeue_stuck_moves]) (use Cons.prems in \<open>simp add: floor_ok_def\<close>)
  from floor_moves_trans [OF m Cons.IH [OF floor_moves_ok [OF m]]] show ?case by simp
qed (simp add: floor_moves_refl)

lemma claim_first_moves:
  "floor_ok limit fl \<Longrightarrow> claim_first now tids fl = (r, fl') \<Longrightarrow> floor_moves limit Worker fl fl'"
proof (induction now tids fl arbitrary: r fl' rule: claim_first.induct)
  case (1 now fl)
  then show ?case by (simp add: floor_moves_refl)
next
  case (2 now tid tids fl)
  obtain x ws where x: "claim_in_tenant now (fl_shops fl tid) = (x, ws)" by fastforce
  have m: "floor_moves limit Worker fl (set_shop tid ws fl)"
    by (rule set_shop_moves [OF 2(2) claim_in_tenant_moves [OF _ x]]) (use 2(2) in \<open>simp add: floor_ok_def\<close>)
  show ?case
  proof (cases x)
    case None
    with 2(3) x have "claim_first now tids (set_shop tid ws fl) = (r, fl')" by simp
    from floor_moves_trans [OF m 2(1) [OF x [symmetric, unfolded None] refl floor_moves_ok [OF m] this]]
    show ?thesis .
  next
    case (Some p)
    with 2(3) x m show ?thesis by (cases p) simp
  qed
qed

lemma claim_next_moves:
  assumes "floor_ok (claude_job_max_attempts cfg) fl" and "claim_next cfg now fl = (r, fl')"
  shows "floor_moves (claude_job_max_attempts cfg) Worker fl fl'"
proof -
  note m = requeue_all_moves [OF assms(1), of Worker now "enabled_tenants fl"]
  from assms(2) show ?thesis
    using floor_moves_trans [OF m claim_first_moves [OF floor_moves_ok [OF m]]]
    by (simp add: claim_next_def Let_def)
qed

lemma heartbeat_shops [simp]: "fl_shops (record_heartbeat now name detail fl) = fl_shops fl"
  by (simp add: record_heartbeat_def)

lemma claim_moves:
  assumes "floor_ok (claude_job_max_attempts cfg) fl" and "claim cfg now worker fl = (r, fl')"
  shows "floor_moves (claude_job_max_attempts cfg) Worker fl fl'"
  using claim_next_moves [of cfg "record_heartbeat now worker None fl" now r fl'] assms
  by (simp add: claim_def floor_ok_def floor_moves_def)

lemma translating_job_Inr:
  "translating_job public_id ws = Inr j \<Longrightarrow> j \<in> set (ws_jobs ws) \<and> cj_status j = TRANSLATING \<and> cj_public_id j = public_id"
  by (auto simp: translating_job_def find_job_def find_Some_iff bind_result_Inr_iff
      split: option.split_asm if_split_asm)

lemma order_job_Inr:
  "order_job oid public_id ws = Inr j \<Longrightarrow> j \<in> set (ws_jobs ws) \<and> cj_order_id j = oid"
  by (auto simp: order_job_def find_Some_iff split: option.split_asm)

text \<open>What a worker may do to the job it holds.\<close>

lemma held_job_moves:
  assumes "shop_ok limit ws" and "translating_job public_id ws = Inr j"
  shows "shop_moves limit Worker ws (set_job (cj_id j) (finish_job now) ws)"
    and "shop_moves limit Worker ws (set_job (cj_id j) (lose_document now) ws)"
    and "shop_moves limit Worker ws (set_job (cj_id j) (reported now report message) ws)"
proof -
  have j: "j \<in> set (ws_jobs ws)" "cj_status j = TRANSLATING" using translating_job_Inr [OF assms(2)] by auto
  show "shop_moves limit Worker ws (set_job (cj_id j) (finish_job now) ws)"
    by (rule set_job_moves [OF assms(1) j(1)])
      (use j(2) in \<open>auto simp: finish_job_def view_def is_active_job_def ACTIVE_STATUSES_def
        intro!: r_into_rtranclp job_move.finished\<close>)
  show "shop_moves limit Worker ws (set_job (cj_id j) (lose_document now) ws)"
    by (rule set_job_moves [OF assms(1) j(1)])
      (use j(2) in \<open>auto simp: lose_document_def view_def is_active_job_def ACTIVE_STATUSES_def
        intro!: r_into_rtranclp job_move.reported_failed\<close>)
  have gb: "job_moves limit Worker (TRANSLATING, n) (QUEUED, if 0 < n then n - 1 else 0)" for n
    by (rule r_into_rtranclp, rule job_move.given_back)
  have fail: "job_moves limit Worker (TRANSLATING, n) (FAILED, n)" for n
    by (rule r_into_rtranclp, rule job_move.reported_failed)
  show "shop_moves limit Worker ws (set_job (cj_id j) (reported now report message) ws)"
    by (rule set_job_moves [OF assms(1) j(1)])
      (use j(2) gb [of "cj_attempts j"] fail [of "cj_attempts j"] in
        \<open>auto simp: reported_def view_def is_active_job_def ACTIVE_STATUSES_def split: job_report.split\<close>)
qed

section \<open>Steps\<close>

text \<open>
  Whatever the two sides do: the worker claims, files results and reports; staff queue files,
  look, retry and cancel; and orders, documents and files change or go.
\<close>

inductive queue_step :: "settings \<Rightarrow> actor \<Rightarrow> floor \<Rightarrow> floor \<Rightarrow> bool" for cfg where
  claims: "claim cfg now worker fl = (r, fl') \<Longrightarrow> queue_step cfg Worker fl fl'"
| results: "post_result s rp sha256 unzip max_bytes now file_public_id ref upload fl = (x, fl') \<Longrightarrow>
    queue_step cfg Worker fl fl'"
| reports: "report_status now ref report message fl = Inr (st, fl') \<Longrightarrow> queue_step cfg Worker fl fl'"
| queues: "create_jobs session now public_ids oid files confirm fl = Inr (js, fl') \<Longrightarrow> queue_step cfg Staff fl fl'"
| looks: "list_jobs cfg now session oid fl = Inr (out, fl') \<Longrightarrow> queue_step cfg Staff fl fl'"
| retries: "retry_job session oid public_id fl = Inr fl' \<Longrightarrow> queue_step cfg Staff fl fl'"
| cancels: "cancel_job session now oid public_id fl = Inr fl' \<Longrightarrow> queue_step cfg Staff fl fl'"
| settles: "queue_step cfg Staff fl (set_shop tid (settle_jobs rm (fl_shops fl tid)) fl)"

inductive queue_run :: "settings \<Rightarrow> floor \<Rightarrow> floor \<Rightarrow> bool" for cfg where
  idle: "queue_run cfg fl fl"
| more: "queue_run cfg fl fl1 \<Longrightarrow> queue_step cfg a fl1 fl2 \<Longrightarrow> queue_run cfg fl fl2"

inductive board_run :: "int \<Rightarrow> board \<Rightarrow> board \<Rightarrow> bool" for limit where
  idle: "board_run limit B B"
| more: "board_run limit B B1 \<Longrightarrow> board_step limit a B1 B2 \<Longrightarrow> board_run limit B B2"

definition step_ok :: "int \<Rightarrow> actor \<Rightarrow> floor \<Rightarrow> floor \<Rightarrow> bool" where
  "step_ok limit a fl fl' \<longleftrightarrow> floor_ok limit fl' \<and> board_step limit a (board fl) (board fl')"

lemma moves_step_ok: "floor_moves limit a fl fl' \<Longrightarrow> step_ok limit a fl fl'"
  using floor_moves_ok floor_moves_board by (auto simp: step_ok_def)

lemma shop_step_ok:
  "floor_ok limit fl \<Longrightarrow> shop_moves limit a (fl_shops fl tid) ws \<Longrightarrow> step_ok limit a fl (set_shop tid ws fl)"
  by (rule moves_step_ok [OF set_shop_moves])

lemma shop_moves_jobs:
  "shop_moves limit a ws ws1 \<Longrightarrow> ws_jobs ws2 = ws_jobs ws1 \<Longrightarrow> ws_next_job ws2 = ws_next_job ws1 \<Longrightarrow>
     shop_moves limit a ws ws2"
  by (simp add: shop_moves_def shop_ok_def)

text \<open>Noting the result file moves nothing.\<close>

lemma note_result_moves:
  assumes "shop_ok limit ws"
  shows "shop_moves limit a ws (set_job i (\<lambda>j. j\<lparr>cj_result_file_id := r\<rparr>) ws)"
proof -
  have "rows_move limit a (ws_jobs ws) (update_where (\<lambda>j. cj_id j = i) (\<lambda>j. j\<lparr>cj_result_file_id := r\<rparr>) (ws_jobs ws))"
    by (rule rows_move_update) (simp_all add: view_def)
  moreover have "shop_ok limit (ws\<lparr>ws_jobs := update_where (\<lambda>j. cj_id j = i) (\<lambda>j. j\<lparr>cj_result_file_id := r\<rparr>) (ws_jobs ws)\<rparr>)"
    by (rule shop_ok_update [OF assms]) (auto simp: is_active_job_def split: claude_job_status.split)
  ultimately show ?thesis by (simp add: shop_moves_def set_job_def)
qed

lemma post_result_ok:
  assumes "floor_ok limit fl"
    and "post_result s rp sha256 unzip max_bytes now file_public_id ref upload fl = (x, fl')"
  shows "step_ok limit Worker fl fl'"
proof (cases "bind_result (parse_job_ref ref) (\<lambda>target.
            bind_result (read_upload max_bytes upload) (\<lambda>content.
            bind_result (ensure_word_document unzip content) (\<lambda>_.
            bind_result (translating_job (snd target) (fl_shops fl (fst target))) (\<lambda>j.
              Inr (fst target, content, j)))))")
  case (Inl e)
  with assms(2) have "fl' = fl" by (simp add: post_result_def)
  then show ?thesis using moves_step_ok [OF floor_moves_refl [OF assms(1)]] by simp
next
  case (Inr p)
  obtain tid content j where p: "p = (tid, content, j)" by (cases p)
  from Inr p obtain public_id where held: "translating_job public_id (fl_shops fl tid) = Inr j"
    by (auto simp: bind_result_Inr_iff)
  let ?ws = "fl_shops fl tid"
  have ok: "shop_ok limit ?ws" using assms(1) by (simp add: floor_ok_def)
  note moves = held_job_moves [OF ok held]
  show ?thesis
  proof (cases "job_document (ws_room ?ws) j")
    case None
    with assms(2) Inr p have "fl' = set_shop tid (set_job (cj_id j) (lose_document now) ?ws) fl"
      by (simp add: post_result_def Let_def)
    then show ?thesis using shop_step_ok [OF assms(1) moves(2)] by simp
  next
    case (Some od)
    let ?name = "unique_name (result_name (cj_file_name j)) (map f_name (list_document_files (d_id (snd od)) (ws_room ?ws)))"
    obtain y rm where y: "upload_document_file s rp sha256 now file_public_id (o_id (fst od)) (d_id (snd od))
        TRANSLATION_file ?name content DOCX_CONTENT_TYPE (''claude:'' @ show_int (or_else (cj_requested_by j) 0))
        (ws_room ?ws) = (y, rm)" by fastforce
    show ?thesis
    proof (cases y)
      case (Inl e)
      with assms(2) Inr p Some y have "fl' = set_shop tid (?ws\<lparr>ws_room := rm\<rparr>) fl"
        by (cases od) (simp add: post_result_def Let_def)
      moreover have "shop_moves limit Worker ?ws (?ws\<lparr>ws_room := rm\<rparr>)"
        by (rule shop_moves_jobs [OF shop_moves_refl [OF ok]]) simp_all
      ultimately show ?thesis using shop_step_ok [OF assms(1)] by simp
    next
      case (Inr row)
      let ?ws1 = "(set_job (cj_id j) (finish_job now) ?ws)\<lparr>ws_room := rm\<rparr>"
      let ?ws2 = "set_job (cj_id j) (\<lambda>j. j\<lparr>cj_result_file_id := Some (f_id row)\<rparr>) ?ws1"
      have fl': "fl' = set_shop tid ?ws2 fl"
        using assms(2) \<open>_ = Inr p\<close> p Some y Inr by (cases od) (simp add: post_result_def Let_def)
      have m1: "shop_moves limit Worker ?ws ?ws1" by (rule shop_moves_jobs [OF moves(1)]) simp_all
      have "shop_moves limit Worker ?ws1 ?ws2"
        by (rule note_result_moves) (use m1 in \<open>simp add: shop_moves_def\<close>)
      from shop_step_ok [OF assms(1) shop_moves_trans [OF m1 this]] fl' show ?thesis by simp
    qed
  qed
qed

lemma report_status_ok:
  assumes "floor_ok limit fl" and "report_status now ref report message fl = Inr (st, fl')"
  shows "step_ok limit Worker fl fl'"
proof -
  from assms(2) obtain tid public_id j where held: "translating_job public_id (fl_shops fl tid) = Inr j"
    and fl': "fl' = set_shop tid (set_job (cj_id j) (reported now report (report_message message)) (fl_shops fl tid)) fl"
    unfolding report_status_def by (auto simp: bind_result_Inr_iff split: if_split_asm)
  have "shop_ok limit (fl_shops fl tid)" using assms(1) by (simp add: floor_ok_def)
  from shop_step_ok [OF assms(1) held_job_moves(3) [OF this held]] fl' show ?thesis by simp
qed

lemma list_jobs_ok:
  assumes "floor_ok (claude_job_max_attempts cfg) fl" and "list_jobs cfg now session oid fl = Inr (out, fl')"
  shows "step_ok (claude_job_max_attempts cfg) Staff fl fl'"
proof -
  let ?tid = "as_tenant_id session"
  from assms(2) have fl': "fl' = set_shop ?tid (requeue_stuck cfg now (fl_shops fl ?tid)) fl"
    by (auto simp: list_jobs_def Let_def bind_result_Inr_iff)
  have "shop_ok (claude_job_max_attempts cfg) (fl_shops fl ?tid)" using assms(1) by (simp add: floor_ok_def)
  from shop_step_ok [OF assms(1) requeue_stuck_moves [OF this]] fl' show ?thesis by simp
qed

lemma retry_job_ok:
  assumes "floor_ok limit fl" and "retry_job session oid public_id fl = Inr fl'"
  shows "step_ok limit Staff fl fl'"
proof -
  let ?tid = "as_tenant_id session"
  let ?ws = "fl_shops fl ?tid"
  let ?jobs = "\<lambda>j. update_where (\<lambda>r. cj_id r = cj_id j) retried (ws_jobs ?ws)"
  from assms(2) obtain j where j: "order_job oid public_id ?ws = Inr j" "cj_status j = FAILED" "one_active (?jobs j)"
    and fl': "fl' = set_shop ?tid (log_shop session ''order.claude_translation_retried'' oid (?ws\<lparr>ws_jobs := ?jobs j\<rparr>)) fl"
    by (auto simp: retry_job_def Let_def bind_result_Inr_iff store_jobs_def split: if_split_asm)
  have ok: "shop_ok limit ?ws" using assms(1) by (simp add: floor_ok_def)
  have mem: "j \<in> set (ws_jobs ?ws)" using order_job_Inr [OF j(1)] by simp
  have one: "k = j" if "k \<in> set (ws_jobs ?ws)" "cj_id k = cj_id j" for k using shop_ok_same [OF ok mem that] .
  have "rows_move limit Staff (ws_jobs ?ws) (?jobs j)"
  proof (rule rows_move_update)
    show "cj_id (retried k) = cj_id k" for k by (simp add: retried_def)
    have "job_moves limit Staff (view j) (view (retried j))"
      using j(2) by (auto simp: retried_def view_def intro!: r_into_rtranclp job_move.retried)
    then show "job_moves limit Staff (view k) (view (retried k))"
      if "k \<in> set (ws_jobs ?ws)" "cj_id k = cj_id j" for k using one [OF that] by simp
  qed
  moreover have "shop_ok limit (?ws\<lparr>ws_jobs := ?jobs j\<rparr>)"
  proof -
    have "map cj_id (?jobs j) = map cj_id (ws_jobs ?ws)" by (rule map_key_update_where) (simp add: retried_def)
    moreover have "cj_id k < ws_next_job ?ws \<and> job_ok limit k" if "k \<in> set (?jobs j)" for k
      using that ok unfolding shop_ok_def set_update_where by (auto simp: retried_def)
    ultimately show ?thesis using ok j(3) by (simp add: shop_ok_def)
  qed
  ultimately have "shop_moves limit Staff ?ws (?ws\<lparr>ws_jobs := ?jobs j\<rparr>)" by (simp add: shop_moves_def)
  then have "shop_moves limit Staff ?ws (log_shop session ''order.claude_translation_retried'' oid (?ws\<lparr>ws_jobs := ?jobs j\<rparr>))"
    by (rule shop_moves_jobs) (simp_all add: log_shop_def)
  from shop_step_ok [OF assms(1) this] fl' show ?thesis by simp
qed

lemma cancel_job_ok:
  assumes "floor_ok limit fl" and "cancel_job session now oid public_id fl = Inr fl'"
  shows "step_ok limit Staff fl fl'"
proof -
  let ?tid = "as_tenant_id session"
  let ?ws = "fl_shops fl ?tid"
  from assms(2) obtain j where j: "order_job oid public_id ?ws = Inr j" "cj_status j = QUEUED"
    and fl': "fl' = set_shop ?tid (log_shop session ''order.claude_translation_cancelled'' oid
      (set_job (cj_id j) (cancelled now) ?ws)) fl"
    by (auto simp: cancel_job_def Let_def bind_result_Inr_iff split: if_split_asm)
  have ok: "shop_ok limit ?ws" using assms(1) by (simp add: floor_ok_def)
  have mem: "j \<in> set (ws_jobs ?ws)" using order_job_Inr [OF j(1)] by simp
  have "shop_moves limit Staff ?ws (set_job (cj_id j) (cancelled now) ?ws)"
    by (rule set_job_moves [OF ok mem])
      (use j(2) in \<open>auto simp: cancelled_def view_def is_active_job_def ACTIVE_STATUSES_def
        intro!: r_into_rtranclp job_move.cancelled\<close>)
  then have "shop_moves limit Staff ?ws (log_shop session ''order.claude_translation_cancelled'' oid
      (set_job (cj_id j) (cancelled now) ?ws))"
    by (rule shop_moves_jobs) (simp_all add: log_shop_def)
  from shop_step_ok [OF assms(1) this] fl' show ?thesis by simp
qed

lemma new_jobs_facts:
  "length (new_jobs session now ord ds i ps) = length ps \<and>
   (\<forall>j \<in> set (new_jobs session now ord ds i ps).
      i \<le> cj_id j \<and> cj_id j < i + int (length ps) \<and> view j = (QUEUED, 0)) \<and>
   distinct (map cj_id (new_jobs session now ord ds i ps))"
proof (induction ps arbitrary: i)
  case (Cons p ps)
  obtain pid f where p: "p = (pid, f)" by fastforce
  have "cj_id (new_job session now ord ds i pid f) = i" "view (new_job session now ord ds i pid f) = (QUEUED, 0)"
    by (simp_all add: new_job_def Let_def view_def)
  with Cons [of "i + 1"] show ?case by (force simp: p)
qed simp

lemma board_step_one:
  assumes "\<And>i. case get_row cj_id i (ws_jobs (fl_shops fl tid)) of
      None \<Rightarrow> (case get_row cj_id i (ws_jobs ws) of None \<Rightarrow> True | Some j \<Rightarrow> view j = (QUEUED, 0))
    | Some j \<Rightarrow> (case get_row cj_id i (ws_jobs ws) of None \<Rightarrow> True | Some j' \<Rightarrow> view j' = view j)"
  shows "board_step limit Staff (board fl) (board (set_shop tid ws fl))"
proof -
  have "case board fl t i of
      None \<Rightarrow> board (set_shop tid ws fl) t i = None \<or> board (set_shop tid ws fl) t i = Some (QUEUED, 0)
    | Some v \<Rightarrow> (case board (set_shop tid ws fl) t i of None \<Rightarrow> True | Some v' \<Rightarrow> v' = v)" for t i
    using assms [of i] by (cases "t = tid") (auto simp: set_shop_def board_def split: option.splits)
  note each = this
  show ?thesis unfolding board_step_def
  proof (intro allI, goal_cases)
    case (1 t i)
    show ?case using each [of t i] by (auto split: option.splits)
  qed
qed

lemma create_jobs_ok:
  assumes "floor_ok limit fl" and "create_jobs session now public_ids oid files confirm fl = Inr (js, fl')"
  shows "step_ok limit Staff fl fl'"
proof -
  let ?tid = "as_tenant_id session"
  let ?ws = "fl_shops fl ?tid"
  from assms(2) obtain ord ds chosen where js: "js = new_jobs session now ord ds (ws_next_job ?ws) (zip public_ids chosen)"
    and act: "one_active (ws_jobs ?ws @ js)"
    and fl': "fl' = set_shop ?tid (log_shop session ''order.claude_translation_requested'' oid
      (?ws\<lparr>ws_next_job := ws_next_job ?ws + int (length js), ws_jobs := ws_jobs ?ws @ js\<rparr>)) fl"
    by (auto simp: create_jobs_def Let_def bind_result_Inr_iff split: if_split_asm)
  let ?ws1 = "?ws\<lparr>ws_next_job := ws_next_job ?ws + int (length js), ws_jobs := ws_jobs ?ws @ js\<rparr>"
  have ok: "shop_ok limit ?ws" using assms(1) by (simp add: floor_ok_def)
  then have old: "j \<in> set (ws_jobs ?ws) \<Longrightarrow> cj_id j < ws_next_job ?ws \<and> job_ok limit j" for j
    by (simp add: shop_ok_def)
  have new: "ws_next_job ?ws \<le> cj_id j \<and> cj_id j < ws_next_job ?ws + int (length js) \<and> view j = (QUEUED, 0)"
    if "j \<in> set js" for j
    using that new_jobs_facts [of session now ord ds "ws_next_job ?ws" "zip public_ids chosen"] js by auto
  have dist: "distinct (map cj_id js)"
    using new_jobs_facts [of session now ord ds "ws_next_job ?ws" "zip public_ids chosen"] js by auto
  have "distinct (map cj_id (ws_jobs ?ws @ js))"
    using ok dist old new by (force simp: shop_ok_def)
  moreover have "job_ok limit j" if "j \<in> set js" for j
    using new [OF that] ok by (auto simp: view_def shop_ok_def)
  ultimately have "shop_ok limit ?ws1" using ok act old new by (force simp: shop_ok_def)
  then have "floor_ok limit fl'" using assms(1) by (simp add: fl' floor_ok_def set_shop_def)
  moreover have "board_step limit Staff (board fl) (board fl')"
    unfolding fl'
  proof (rule board_step_one, goal_cases)
    case (1 i)
    show ?case using new by (auto simp: get_row_append split: option.split dest: get_row_SomeD)
  qed
  ultimately show ?thesis by (simp add: step_ok_def)
qed

lemma settle_jobs_ok:
  assumes "floor_ok limit fl"
  shows "step_ok limit Staff fl (set_shop tid (settle_jobs rm (fl_shops fl tid)) fl)"
proof -
  let ?ws = "fl_shops fl tid"
  define R where "R j \<longleftrightarrow> cj_order_id j \<in> o_id ` set (orders (rm_office rm))" for j :: claude_job
  define g where "g j = j\<lparr>cj_document_id := known (d_id ` set (documents (rm_office rm))) (cj_document_id j),
      cj_source_file_id := known (f_id ` set (rm_files rm)) (cj_source_file_id j),
      cj_result_file_id := known (f_id ` set (rm_files rm)) (cj_result_file_id j)\<rparr>" for j :: claude_job
  have jobs: "ws_jobs (settle_jobs rm ?ws) = map g (filter R (ws_jobs ?ws))"
    by (simp add: settle_jobs_def R_def [abs_def] g_def [abs_def])
  have ok: "shop_ok limit ?ws" using assms by (simp add: floor_ok_def)
  have g: "cj_id (g j) = cj_id j" "view (g j) = view j" "is_active_job (g j) = is_active_job j"
      "job_ok limit (g j) = job_ok limit j" for j
    by (simp_all add: g_def view_def is_active_job_def split: claude_job_status.split)
  have "one_active (map g (filter R (ws_jobs ?ws)))"
    by (rule one_active_shrinks)
      (use ok in \<open>auto simp: shop_ok_def g is_active_job_def g_def known_def split: option.splits if_splits\<close>)
  moreover have dist: "distinct (map cj_id (map g (filter R (ws_jobs ?ws))))"
    using ok by (simp add: shop_ok_def comp_def g distinct_map_filter_subset)
  ultimately have "shop_ok limit (settle_jobs rm ?ws)"
    using ok g(1,4) unfolding shop_ok_def jobs by (auto simp: settle_jobs_def)
  then have "floor_ok limit (set_shop tid (settle_jobs rm ?ws) fl)"
    using assms by (simp add: floor_ok_def set_shop_def)
  moreover have "board_step limit Staff (board fl) (board (set_shop tid (settle_jobs rm ?ws) fl))"
  proof (rule board_step_one, goal_cases)
    case (1 i)
    have from_old: "get_row cj_id i (ws_jobs ?ws) = Some j \<and> view j' = view j"
      if "get_row cj_id i (map g (filter R (ws_jobs ?ws))) = Some j'" "j' = g j" "j \<in> set (ws_jobs ?ws)" for j' j
      using that ok get_row_SomeD [OF that(1)] g by (simp add: shop_ok_def get_row_Some_iff_distinct)
    have "\<exists>j \<in> set (ws_jobs ?ws). j' = g j"
      if "get_row cj_id i (map g (filter R (ws_jobs ?ws))) = Some j'" for j'
      using get_row_SomeD [OF that] by auto
    with from_old show ?case unfolding jobs by (fastforce split: option.split)
  qed
  ultimately show ?thesis by (simp add: step_ok_def)
qed

lemma queue_step_ok:
  assumes "queue_step cfg a fl fl'" and "floor_ok (claude_job_max_attempts cfg) fl"
  shows "step_ok (claude_job_max_attempts cfg) a fl fl'"
  using assms
proof cases
  case claims
  then show ?thesis using moves_step_ok [OF claim_moves [OF assms(2)]] by blast
next
  case results
  then show ?thesis using post_result_ok [OF assms(2)] by blast
next
  case reports
  then show ?thesis using report_status_ok [OF assms(2)] by blast
next
  case queues
  then show ?thesis using create_jobs_ok [OF assms(2)] by blast
next
  case looks
  then show ?thesis using list_jobs_ok [OF assms(2)] by blast
next
  case retries
  then show ?thesis using retry_job_ok [OF assms(2)] by blast
next
  case cancels
  then show ?thesis using cancel_job_ok [OF assms(2)] by blast
next
  case settles
  then show ?thesis using settle_jobs_ok [OF assms(2)] by blast
qed

lemma queue_run_ok:
  "queue_run cfg fl fl' \<Longrightarrow> floor_ok (claude_job_max_attempts cfg) fl \<Longrightarrow>
     floor_ok (claude_job_max_attempts cfg) fl' \<and> board_run (claude_job_max_attempts cfg) (board fl) (board fl')"
proof (induction rule: queue_run.induct)
  case (idle fl)
  then show ?case by (simp add: board_run.idle)
next
  case (more fl fl1 a fl2)
  from queue_step_ok [OF more.hyps(2)] more.IH [OF more.prems]
  have "step_ok (claude_job_max_attempts cfg) a fl1 fl2" by simp
  with more.IH [OF more.prems] show ?case by (auto simp: step_ok_def intro: board_run.more)
qed

section \<open>Claiming, in detail\<close>

text \<open>The attempts a queue has left: what a silent worker uses up.\<close>

definition attempts_left :: "int \<Rightarrow> claude_job \<Rightarrow> nat" where
  "attempts_left limit j = (if is_active_job j then nat (limit - cj_attempts j) else 0)"

definition shop_left :: "int \<Rightarrow> workshop \<Rightarrow> nat" where
  "shop_left limit ws = sum_list (map (attempts_left limit) (ws_jobs ws))"

lemma left_update_le:
  assumes "\<And>j. j \<in> set js \<Longrightarrow> Q j \<Longrightarrow> attempts_left limit (f j) \<le> attempts_left limit j"
  shows "sum_list (map (attempts_left limit) (update_where Q f js)) \<le> sum_list (map (attempts_left limit) js)"
  using assms by (induction js) (auto intro: add_mono)

lemma left_update_less:
  assumes "\<And>j. j \<in> set js \<Longrightarrow> Q j \<Longrightarrow> attempts_left limit (f j) \<le> attempts_left limit j"
    and "j \<in> set js" and "Q j" and "attempts_left limit (f j) < attempts_left limit j"
  shows "sum_list (map (attempts_left limit) (update_where Q f js)) < sum_list (map (attempts_left limit) js)"
proof -
  from assms(2) obtain us vs where js: "js = us @ j # vs" by (meson split_list)
  have "update_where Q f js = update_where Q f us @ f j # update_where Q f vs"
    using assms(3) by (simp add: js update_where_def)
  moreover have "sum_list (map (attempts_left limit) (update_where Q f us)) \<le> sum_list (map (attempts_left limit) us)"
    "sum_list (map (attempts_left limit) (update_where Q f vs)) \<le> sum_list (map (attempts_left limit) vs)"
    by (rule left_update_le; use assms(1) in \<open>simp add: js\<close>)+
  ultimately show ?thesis using assms(4) by (simp add: js)
qed

lemma requeue_left: "shop_left (claude_job_max_attempts cfg) (requeue_stuck cfg now ws) \<le> shop_left (claude_job_max_attempts cfg) ws"
proof -
  let ?limit = "claude_job_max_attempts cfg"
  let ?js = "update_where (\<lambda>j. held_too_long cfg now j \<and> ?limit \<le> cj_attempts j) (give_up cfg now) (ws_jobs ws)"
  have "sum_list (map (attempts_left ?limit) (update_where (\<lambda>j. held_too_long cfg now j \<and> cj_attempts j < ?limit) put_back ?js))
      \<le> sum_list (map (attempts_left ?limit) ?js)"
    by (rule left_update_le) (auto simp: attempts_left_def put_back_def held_too_long_def is_active_job_def ACTIVE_STATUSES_def)
  also have "\<dots> \<le> sum_list (map (attempts_left ?limit) (ws_jobs ws))"
    by (rule left_update_le) (auto simp: attempts_left_def give_up_def is_active_job_def ACTIVE_STATUSES_def)
  finally show ?thesis by (simp add: shop_left_def requeue_stuck_def Let_def)
qed

lemma waiting_first:
  assumes "waiting_jobs ws = j # js" and "k \<in> set (ws_jobs ws)" and "cj_status k = QUEUED"
  shows "(cj_created_at j, cj_id j) \<le> (cj_created_at k, cj_id k)"
proof -
  have "k \<in> set (j # js)" using waiting_jobs_mem [of k ws] assms by simp
  moreover have "sorted (map (\<lambda>j. (cj_created_at j, cj_id j)) (j # js))"
    using assms(1) [symmetric] by (simp add: waiting_jobs_def)
  ultimately show ?thesis by auto
qed

text \<open>The rows after one job was taken from the front.\<close>

lemma claim_row_rows:
  assumes "shop_ok limit ws" and "waiting_jobs ws = j # js"
  shows "start_job now j \<in> set (ws_jobs (claim_row now (cj_id j) ws))"
    and "k \<in> set (ws_jobs (claim_row now (cj_id j) ws)) \<Longrightarrow> k = start_job now j \<or> k \<in> set (ws_jobs ws) \<and> cj_id k \<noteq> cj_id j"
    and "shop_left limit (claim_row now (cj_id j) ws) < shop_left limit ws"
proof -
  have j: "j \<in> set (ws_jobs ws)" "cj_status j = QUEUED" using waiting_jobs_mem [of j ws] assms(2) by simp_all
  have one: "k = j" if "k \<in> set (ws_jobs ws)" "cj_id k = cj_id j" for k using shop_ok_same [OF assms(1) j(1) that] .
  show "start_job now j \<in> set (ws_jobs (claim_row now (cj_id j) ws))"
    using j by (auto simp: claim_row_def set_update_where)
  show "k \<in> set (ws_jobs (claim_row now (cj_id j) ws)) \<Longrightarrow> k = start_job now j \<or> k \<in> set (ws_jobs ws) \<and> cj_id k \<noteq> cj_id j"
    using one j(2) by (auto simp: claim_row_def set_update_where)
  have "job_ok limit j" using assms(1) j(1) by (simp add: shop_ok_def)
  then have "cj_attempts j < limit" using j(2) by simp
  then show "shop_left limit (claim_row now (cj_id j) ws) < shop_left limit ws"
    unfolding shop_left_def claim_row_def using j
    by simp (rule left_update_less [of _ _ _ _ j], auto simp: attempts_left_def start_job_def is_active_job_def ACTIVE_STATUSES_def)
qed

text \<open>What a claim in one bureau comes to.\<close>

definition job_taken :: "instant \<Rightarrow> room \<Rightarrow> claude_job list \<Rightarrow> claude_job \<Rightarrow> claimed \<Rightarrow> bool" where
  "job_taken now rm js j c \<longleftrightarrow>
     j \<in> set js \<and> cj_status j = TRANSLATING \<and> cj_started_at j = Some now \<and>
     live_file rm (cj_source_file_id j) \<noteq> None \<and> cm_ref c = job_ref (rm_tenant_id rm) (cj_public_id j) \<and>
     (\<forall>k \<in> set js. cj_status k = QUEUED \<longrightarrow> (cj_created_at j, cj_id j) \<le> (cj_created_at k, cj_id k))"

definition none_new :: "bool \<Rightarrow> instant \<Rightarrow> claude_job list \<Rightarrow> claude_job list \<Rightarrow> bool" where
  "none_new took now js js' \<longleftrightarrow>
     (\<forall>k \<in> set js'. (cj_status k = QUEUED \<longrightarrow> k \<in> set js) \<and>
        (cj_status k = TRANSLATING \<longrightarrow> k \<in> set js \<or> took \<and> cj_started_at k = Some now))"

definition claim_result :: "int \<Rightarrow> instant \<Rightarrow> workshop \<Rightarrow> (claude_job \<times> claimed) option \<Rightarrow> workshop \<Rightarrow> bool" where
  "claim_result limit now ws r ws' \<longleftrightarrow>
     ws_room ws' = ws_room ws \<and> none_new (r \<noteq> None) now (ws_jobs ws) (ws_jobs ws') \<and>
     (case r of
        None \<Rightarrow> waiting_jobs ws' = [] \<and> shop_left limit ws' \<le> shop_left limit ws
      | Some (j, c) \<Rightarrow> shop_left limit ws' < shop_left limit ws \<and> job_taken now (ws_room ws) (ws_jobs ws') j c)"

lemma claim_result_first:
  assumes "shop_ok limit ws" and "waiting_jobs ws = j # js" and "live_file (ws_room ws) (cj_source_file_id j) = Some f"
  shows "claim_result limit now ws (Some (start_job now j, claimed_of ws (start_job now j) f)) (claim_row now (cj_id j) ws)"
proof -
  let ?ws1 = "claim_row now (cj_id j) ws"
  note rows = claim_row_rows [OF assms(1,2), where now = now]
  have j: "cj_status j = QUEUED" using waiting_jobs_mem [of j ws] assms(2) by simp
  have "(cj_created_at j, cj_id j) \<le> (cj_created_at k, cj_id k)" if "k \<in> set (ws_jobs ?ws1)" "cj_status k = QUEUED" for k
    using rows(2) [OF that(1)] that(2) waiting_first [OF assms(2), of k] by (auto simp: start_job_def)
  then have "job_taken now (ws_room ws) (ws_jobs ?ws1) (start_job now j) (claimed_of ws (start_job now j) f)"
    unfolding job_taken_def using rows(1) assms(3) by (simp add: start_job_def claimed_of_def)
  moreover have "none_new True now (ws_jobs ws) (ws_jobs ?ws1)"
    unfolding none_new_def by (auto simp: start_job_def dest!: rows(2))
  ultimately show ?thesis using rows(3) by (simp add: claim_result_def claim_row_def)
qed

lemma claim_result_later:
  assumes "claim_result limit now ws2 r ws'" and "ws_room ws2 = ws_room ws"
    and "none_new False now (ws_jobs ws) (ws_jobs ws2)" and "shop_left limit ws2 \<le> shop_left limit ws"
  shows "claim_result limit now ws r ws'"
proof -
  have "none_new (r \<noteq> None) now (ws_jobs ws2) (ws_jobs ws')" using assms(1) by (simp add: claim_result_def)
  with assms(3) have "none_new (r \<noteq> None) now (ws_jobs ws) (ws_jobs ws')" unfolding none_new_def by blast
  with assms(1,2,4) show ?thesis by (auto simp: claim_result_def split: option.splits)
qed

lemma claim_in_tenant_result:
  "shop_ok limit ws \<Longrightarrow> claim_in_tenant now ws = (r, ws') \<Longrightarrow> claim_result limit now ws r ws'"
proof (induction now ws arbitrary: r ws' rule: claim_in_tenant.induct)
  case (1 now ws)
  show ?case
  proof (cases "waiting_jobs ws")
    case Nil
    with 1(3) have "r = None" "ws' = ws" by (subst (asm) claim_in_tenant.simps, simp)+
    with Nil show ?thesis by (simp add: claim_result_def none_new_def)
  next
    case (Cons j js)
    let ?ws1 = "claim_row now (cj_id j) ws"
    note rows = claim_row_rows [OF 1(2) Cons, where now = now]
    show ?thesis
    proof (cases "live_file (ws_room ws) (cj_source_file_id j)")
      case (Some f)
      have "r = Some (start_job now j, claimed_of ws (start_job now j) f)" "ws' = ?ws1"
        using 1(3) Cons Some by (subst (asm) claim_in_tenant.simps, simp add: Let_def)+
      with claim_result_first [OF 1(2) Cons Some] show ?thesis by simp
    next
      case None
      let ?ws2 = "set_job (cj_id j) (lose_file now) ?ws1"
      have rest: "claim_in_tenant now ?ws2 = (r, ws')"
        using 1(3) Cons None by (subst (asm) claim_in_tenant.simps) (simp add: Let_def)
      have ok1: "shop_ok limit ?ws1" using claim_row_moves [OF 1(2)] by (simp add: shop_moves_def)
      have "shop_moves limit Worker ?ws1 (set_job (cj_id (start_job now j)) (lose_file now) ?ws1)"
        by (rule set_job_moves [OF ok1 rows(1)])
          (auto simp: lose_file_def start_job_def view_def is_active_job_def ACTIVE_STATUSES_def
            intro!: r_into_rtranclp job_move.reported_failed)
      then have ok2: "shop_ok limit ?ws2" by (simp add: shop_moves_def start_job_def)
      have "shop_left limit ?ws2 \<le> shop_left limit ?ws1"
        unfolding shop_left_def set_job_def
        by simp (rule left_update_le, simp add: attempts_left_def lose_file_def is_active_job_def ACTIVE_STATUSES_def)
      moreover have "none_new False now (ws_jobs ws) (ws_jobs ?ws2)"
        unfolding none_new_def
        by (auto simp: set_job_def set_update_where lose_file_def start_job_def dest!: rows(2))
      moreover have "ws_room ?ws2 = ws_room ws" by (simp add: set_job_def claim_row_def)
      ultimately show ?thesis
        using claim_result_later [OF 1(1) [OF Cons refl None ok2 rest]] rows(3) by simp
    qed
  qed
qed

text \<open>Over all the bureaus a claim visits.\<close>

definition floor_result ::
    "int \<Rightarrow> instant \<Rightarrow> int list \<Rightarrow> floor \<Rightarrow> (int \<times> claude_job \<times> claimed) option \<Rightarrow> floor \<Rightarrow> bool" where
  "floor_result limit now tids fl r fl' \<longleftrightarrow>
     fl_tenants fl' = fl_tenants fl \<and>
     (\<forall>t. ws_room (fl_shops fl' t) = ws_room (fl_shops fl t) \<and>
          none_new (r \<noteq> None) now (ws_jobs (fl_shops fl t)) (ws_jobs (fl_shops fl' t)) \<and>
          shop_left limit (fl_shops fl' t) \<le> shop_left limit (fl_shops fl t)) \<and>
     (case r of
        None \<Rightarrow> \<forall>t \<in> set tids. waiting_jobs (fl_shops fl' t) = []
      | Some (t, j, c) \<Rightarrow> t \<in> set tids \<and> shop_left limit (fl_shops fl' t) < shop_left limit (fl_shops fl t) \<and>
          job_taken now (ws_room (fl_shops fl t)) (ws_jobs (fl_shops fl' t)) j c)"

lemma none_new_refl [simp]: "none_new took now js js"
  by (simp add: none_new_def)

lemma none_new_trans: "none_new False now js js1 \<Longrightarrow> none_new took now js1 js2 \<Longrightarrow> none_new took now js js2"
  unfolding none_new_def by blast

lemma waiting_Nil: "waiting_jobs ws = [] \<longleftrightarrow> (\<forall>k \<in> set (ws_jobs ws). cj_status k \<noteq> QUEUED)"
proof -
  have "waiting_jobs ws = [] \<longleftrightarrow> length (waiting_jobs ws) = 0" by simp
  also have "\<dots> \<longleftrightarrow> filter (\<lambda>j. cj_status j = QUEUED) (ws_jobs ws) = []" by (simp add: waiting_jobs_def)
  finally show ?thesis by (simp add: filter_empty_conv)
qed

lemma none_waiting: "none_new took now (ws_jobs ws) (ws_jobs ws') \<Longrightarrow> waiting_jobs ws = [] \<Longrightarrow> waiting_jobs ws' = []"
  unfolding none_new_def waiting_Nil by blast

lemma claim_first_result:
  "floor_ok limit fl \<Longrightarrow> claim_first now tids fl = (r, fl') \<Longrightarrow> floor_result limit now tids fl r fl'"
proof (induction now tids fl arbitrary: r fl' rule: claim_first.induct)
  case (1 now fl)
  then show ?case by (simp add: floor_result_def)
next
  case (2 now tid tids fl)
  obtain x ws where x: "claim_in_tenant now (fl_shops fl tid) = (x, ws)" by fastforce
  have ok: "shop_ok limit (fl_shops fl tid)" using 2(2) by (simp add: floor_ok_def)
  note res = claim_in_tenant_result [OF ok x]
  show ?case
  proof (cases x)
    case (Some p)
    obtain j c where p: "p = (j, c)" by fastforce
    with 2(3) x Some have "r = Some (tid, j, c)" "fl' = set_shop tid ws fl" by simp_all
    with res Some p show ?thesis by (simp add: floor_result_def claim_result_def set_shop_def)
  next
    case None
    let ?fl1 = "set_shop tid ws fl"
    from 2(3) x None have rest: "claim_first now tids ?fl1 = (r, fl')" by simp
    have "floor_ok limit ?fl1"
      by (rule floor_moves_ok [OF set_shop_moves [OF 2(2) claim_in_tenant_moves [OF ok x]]])
    note IH = 2(1) [OF x [symmetric, unfolded None] refl this rest]
    have one: "ws_room (fl_shops ?fl1 t) = ws_room (fl_shops fl t) \<and>
        none_new False now (ws_jobs (fl_shops fl t)) (ws_jobs (fl_shops ?fl1 t)) \<and>
        shop_left limit (fl_shops ?fl1 t) \<le> shop_left limit (fl_shops fl t)" for t
      using res None by (simp add: claim_result_def set_shop_def)
    have two: "ws_room (fl_shops fl' t) = ws_room (fl_shops ?fl1 t) \<and>
        none_new (r \<noteq> None) now (ws_jobs (fl_shops ?fl1 t)) (ws_jobs (fl_shops fl' t)) \<and>
        shop_left limit (fl_shops fl' t) \<le> shop_left limit (fl_shops ?fl1 t)" for t
      using IH unfolding floor_result_def by blast
    have all: "ws_room (fl_shops fl' t) = ws_room (fl_shops fl t) \<and>
        none_new (r \<noteq> None) now (ws_jobs (fl_shops fl t)) (ws_jobs (fl_shops fl' t)) \<and>
        shop_left limit (fl_shops fl' t) \<le> shop_left limit (fl_shops fl t)" for t
      using one [of t] two [of t] none_new_trans by force
    have here: "waiting_jobs (fl_shops fl' tid) = []"
    proof (rule none_waiting)
      show "none_new (r \<noteq> None) now (ws_jobs (fl_shops ?fl1 tid)) (ws_jobs (fl_shops fl' tid))" using two by blast
      show "waiting_jobs (fl_shops ?fl1 tid) = []" using res None by (simp add: claim_result_def set_shop_def)
    qed
    have tens: "fl_tenants fl' = fl_tenants fl" using IH by (simp add: floor_result_def set_shop_def)
    show ?thesis
    proof (cases r)
      case None
      with IH all here tens show ?thesis by (auto simp: floor_result_def)
    next
      case (Some q)
      obtain t j c where q: "q = (t, j, c)" by (cases q)
      have "t \<in> set tids" "shop_left limit (fl_shops fl' t) < shop_left limit (fl_shops ?fl1 t)"
          "job_taken now (ws_room (fl_shops ?fl1 t)) (ws_jobs (fl_shops fl' t)) j c"
        using IH Some q by (auto simp: floor_result_def)
      with all tens one [of t] Some q show ?thesis by (auto simp: floor_result_def)
    qed
  qed
qed

lemma requeue_rows:
  assumes "k \<in> set (ws_jobs (requeue_stuck cfg now ws))" and "cj_status k = TRANSLATING"
  shows "k \<in> set (ws_jobs ws) \<and> \<not> held_too_long cfg now k"
  using assms
  by (auto simp: requeue_stuck_def Let_def set_update_where give_up_def put_back_def)

lemma requeue_room [simp]: "ws_room (requeue_stuck cfg now ws) = ws_room ws"
  by (simp add: requeue_stuck_def Let_def)

lemma requeue_all_shops:
  "fl_tenants (requeue_all cfg now tids fl) = fl_tenants fl \<and>
   (\<forall>t. ws_room (fl_shops (requeue_all cfg now tids fl) t) = ws_room (fl_shops fl t) \<and>
     shop_left (claude_job_max_attempts cfg) (fl_shops (requeue_all cfg now tids fl) t)
       \<le> shop_left (claude_job_max_attempts cfg) (fl_shops fl t) \<and>
     (\<forall>k \<in> set (ws_jobs (fl_shops (requeue_all cfg now tids fl) t)). cj_status k = TRANSLATING \<longrightarrow>
        k \<in> set (ws_jobs (fl_shops fl t)) \<and> (t \<in> set tids \<longrightarrow> \<not> held_too_long cfg now k)))"
  unfolding requeue_all_def
proof (induction tids arbitrary: fl)
  case (Cons tid tids)
  let ?fl1 = "set_shop tid (requeue_stuck cfg now (fl_shops fl tid)) fl"
  have "ws_room (fl_shops ?fl1 t) = ws_room (fl_shops fl t) \<and>
     shop_left (claude_job_max_attempts cfg) (fl_shops ?fl1 t) \<le> shop_left (claude_job_max_attempts cfg) (fl_shops fl t) \<and>
     (\<forall>k \<in> set (ws_jobs (fl_shops ?fl1 t)). cj_status k = TRANSLATING \<longrightarrow>
        k \<in> set (ws_jobs (fl_shops fl t)) \<and> (t = tid \<longrightarrow> \<not> held_too_long cfg now k))" for t
    using requeue_rows requeue_left by (auto simp: set_shop_def)
  with Cons [of ?fl1] show ?case by (fastforce simp: set_shop_def intro: order_trans)
qed simp

lemma waiting_tenants_mem:
  "t \<in> set (waiting_tenants tids fl) \<longleftrightarrow> t \<in> set tids \<and> waiting_jobs (fl_shops fl t) \<noteq> []"
proof -
  have "oldest_waiting ws \<noteq> None \<longleftrightarrow> waiting_jobs ws \<noteq> []" for ws
    by (simp add: oldest_waiting_def split: list.split)
  moreover have "waiting_jobs ws \<noteq> [] \<Longrightarrow> snd (the (map_option (\<lambda>u. (u, x)) (oldest_waiting ws))) = x"
    for ws and x :: int by (simp add: oldest_waiting_def split: list.split)
  ultimately show ?thesis by (auto simp: waiting_tenants_def map_filter_def image_iff)
qed

text \<open>What a claim comes to, and what it leaves.\<close>

lemma claim_next_result:
  assumes "floor_ok (claude_job_max_attempts cfg) fl" and "claim_next cfg now fl = (r, fl')"
  shows "fl_tenants fl' = fl_tenants fl"
    and "ws_room (fl_shops fl' t) = ws_room (fl_shops fl t)"
    and "shop_left (claude_job_max_attempts cfg) (fl_shops fl' t) \<le> shop_left (claude_job_max_attempts cfg) (fl_shops fl t)"
    and "k \<in> set (ws_jobs (fl_shops fl' t)) \<Longrightarrow> cj_status k = TRANSLATING \<Longrightarrow>
           k \<in> set (ws_jobs (fl_shops fl t)) \<and> (t \<in> set (enabled_tenants fl) \<longrightarrow> \<not> held_too_long cfg now k) \<or>
           r \<noteq> None \<and> cj_started_at k = Some now"
    and "r = None \<Longrightarrow> t \<in> set (enabled_tenants fl) \<Longrightarrow> waiting_jobs (fl_shops fl' t) = []"
    and "r = Some (tid, j, c) \<Longrightarrow> tid \<in> set (enabled_tenants fl) \<and>
           shop_left (claude_job_max_attempts cfg) (fl_shops fl' tid) < shop_left (claude_job_max_attempts cfg) (fl_shops fl tid) \<and>
           job_taken now (ws_room (fl_shops fl tid)) (ws_jobs (fl_shops fl' tid)) j c"
proof -
  let ?limit = "claude_job_max_attempts cfg"
  let ?T = "enabled_tenants fl"
  let ?fl1 = "requeue_all cfg now ?T fl"
  have first: "claim_first now (waiting_tenants ?T ?fl1) ?fl1 = (r, fl')"
    using assms(2) by (simp add: claim_next_def Let_def)
  have ok1: "floor_ok ?limit ?fl1" by (rule floor_moves_ok [OF requeue_all_moves [OF assms(1), of Worker]])
  note res = claim_first_result [OF ok1 first, unfolded floor_result_def]
  note rq = requeue_all_shops [of cfg now ?T fl]
  show "fl_tenants fl' = fl_tenants fl" using res rq by simp
  show "ws_room (fl_shops fl' t) = ws_room (fl_shops fl t)" using res rq by simp
  show "shop_left ?limit (fl_shops fl' t) \<le> shop_left ?limit (fl_shops fl t)"
    using res rq order_trans by blast
  show "k \<in> set (ws_jobs (fl_shops fl t)) \<and> (t \<in> set ?T \<longrightarrow> \<not> held_too_long cfg now k) \<or> r \<noteq> None \<and> cj_started_at k = Some now"
    if "k \<in> set (ws_jobs (fl_shops fl' t))" "cj_status k = TRANSLATING"
  proof -
    have "none_new (r \<noteq> None) now (ws_jobs (fl_shops ?fl1 t)) (ws_jobs (fl_shops fl' t))" using res by blast
    with that have "k \<in> set (ws_jobs (fl_shops ?fl1 t)) \<or> r \<noteq> None \<and> cj_started_at k = Some now"
      unfolding none_new_def by blast
    then show ?thesis using rq that(2) by blast
  qed
  show "waiting_jobs (fl_shops fl' t) = []" if "r = None" "t \<in> set ?T"
  proof (cases "waiting_jobs (fl_shops ?fl1 t) = []")
    case True
    have "none_new (r \<noteq> None) now (ws_jobs (fl_shops ?fl1 t)) (ws_jobs (fl_shops fl' t))" using res by blast
    then show ?thesis by (rule none_waiting) (rule True)
  next
    case False
    with that(2) have "t \<in> set (waiting_tenants ?T ?fl1)" by (simp add: waiting_tenants_mem)
    with res that(1) show ?thesis by simp
  qed
  show "tid \<in> set ?T \<and> shop_left ?limit (fl_shops fl' tid) < shop_left ?limit (fl_shops fl tid) \<and>
      job_taken now (ws_room (fl_shops fl tid)) (ws_jobs (fl_shops fl' tid)) j c" if "r = Some (tid, j, c)"
    using res rq that waiting_tenants_mem [of tid ?T ?fl1] order_less_le_trans by fastforce
qed

section \<open>Workers that go silent\<close>

text \<open>The total of attempts the bureaus with the feature have left.\<close>

definition floor_left :: "int \<Rightarrow> floor \<Rightarrow> nat" where
  "floor_left limit fl = (\<Sum>t \<in> set (enabled_tenants fl). shop_left limit (fl_shops fl t))"

text \<open>Claims made a fixed time apart by workers nothing is ever heard of again.\<close>

primrec silent_claims :: "settings \<Rightarrow> int \<Rightarrow> instant \<Rightarrow> nat \<Rightarrow> floor \<Rightarrow> floor" where
  "silent_claims cfg gap start 0 fl = fl"
| "silent_claims cfg gap start (Suc n) fl =
     snd (claim_next cfg (start + int n * gap) (silent_claims cfg gap start n fl))"

definition started_by :: "instant \<Rightarrow> floor \<Rightarrow> bool" where
  "started_by t fl \<longleftrightarrow> (\<forall>tid \<in> set (enabled_tenants fl). \<forall>k \<in> set (ws_jobs (fl_shops fl tid)).
     cj_status k = TRANSLATING \<longrightarrow> (\<exists>s \<le> t. cj_started_at k = Some s))"

lemma started_by_held:
  assumes "started_by t fl" and "t < now - minutes (claude_job_stuck_minutes cfg)"
    and "tid \<in> set (enabled_tenants fl)" and "k \<in> set (ws_jobs (fl_shops fl tid))" and "cj_status k = TRANSLATING"
  shows "held_too_long cfg now k"
  using assms unfolding started_by_def held_too_long_def by fastforce

lemma enabled_same: "fl_tenants fl' = fl_tenants fl \<Longrightarrow> enabled_tenants fl' = enabled_tenants fl"
  by (simp add: enabled_tenants_def)

lemma claim_next_left:
  assumes "floor_ok (claude_job_max_attempts cfg) fl" and "claim_next cfg now fl = (Some q, fl')"
  shows "floor_left (claude_job_max_attempts cfg) fl' < floor_left (claude_job_max_attempts cfg) fl"
proof -
  obtain tid j c where q: "q = (tid, j, c)" by (cases q)
  note res = claim_next_result [OF assms]
  have "enabled_tenants fl' = enabled_tenants fl" by (rule enabled_same [OF res(1)])
  then show ?thesis unfolding floor_left_def
    using res(3) res(6) [of tid j c] q by (auto intro!: sum_strict_mono_ex1)
qed

lemma silent_invariant:
  assumes "floor_ok (claude_job_max_attempts cfg) fl" and "minutes (claude_job_stuck_minutes cfg) < gap"
    and "started_by (start - gap) fl"
  shows "floor_ok (claude_job_max_attempts cfg) (silent_claims cfg gap start n fl) \<and>
    fl_tenants (silent_claims cfg gap start n fl) = fl_tenants fl \<and>
    started_by (start + int n * gap - gap) (silent_claims cfg gap start n fl)"
proof (induction n)
  case 0
  with assms show ?case by simp
next
  case (Suc n)
  let ?s = "silent_claims cfg gap start n fl"
  let ?now = "start + int n * gap"
  obtain r s' where rs: "claim_next cfg ?now ?s = (r, s')" by fastforce
  from Suc have ok: "floor_ok (claude_job_max_attempts cfg) ?s" and st: "started_by (?now - gap) ?s" by auto
  note res = claim_next_result [OF ok rs]
  have en: "enabled_tenants s' = enabled_tenants ?s" by (rule enabled_same [OF res(1)])
  have "started_by ?now s'"
    unfolding started_by_def
  proof (intro ballI impI)
    fix tid k
    assume tid: "tid \<in> set (enabled_tenants s')" and k: "k \<in> set (ws_jobs (fl_shops s' tid))" "cj_status k = TRANSLATING"
    have early: "?now - gap < ?now - minutes (claude_job_stuck_minutes cfg)" using assms(2) by simp
    from res(4) [OF k] started_by_held [OF st early] tid en k(2) have "cj_started_at k = Some ?now" by auto
    then show "\<exists>s \<le> ?now. cj_started_at k = Some s" by simp
  qed
  moreover have "floor_ok (claude_job_max_attempts cfg) s'" by (rule floor_moves_ok [OF claim_next_moves [OF ok rs]])
  moreover have "?now = start + int (Suc n) * gap - gap" by (simp add: algebra_simps)
  ultimately have "started_by (start + int (Suc n) * gap - gap) s'" "floor_ok (claude_job_max_attempts cfg) s'" by simp_all
  with rs res(1) Suc show ?case by simp
qed

lemma silent_left:
  assumes "floor_ok (claude_job_max_attempts cfg) fl" and "minutes (claude_job_stuck_minutes cfg) < gap"
    and "started_by (start - gap) fl"
    and "\<And>m. m < n \<Longrightarrow> fst (claim_next cfg (start + int m * gap) (silent_claims cfg gap start m fl)) \<noteq> None"
  shows "floor_left (claude_job_max_attempts cfg) (silent_claims cfg gap start n fl) + n
    \<le> floor_left (claude_job_max_attempts cfg) fl"
  using assms(4)
proof (induction n)
  case (Suc n)
  let ?s = "silent_claims cfg gap start n fl"
  have ok: "floor_ok (claude_job_max_attempts cfg) ?s" using silent_invariant [OF assms(1-3)] by blast
  from Suc.prems [of n] obtain q s' where "claim_next cfg (start + int n * gap) ?s = (Some q, s')"
    by (cases "claim_next cfg (start + int n * gap) ?s") auto
  with claim_next_left [OF ok this] Suc show ?case by simp
qed simp

section \<open>Nothing that can be translated is passed over\<close>

lemma claim_none_gone:
  "shop_ok limit ws \<Longrightarrow> claim_in_tenant now ws = (None, ws') \<Longrightarrow> k \<in> set (ws_jobs ws) \<Longrightarrow> cj_status k = QUEUED \<Longrightarrow>
     live_file (ws_room ws) (cj_source_file_id k) = None"
proof (induction now ws arbitrary: ws' rule: claim_in_tenant.induct)
  case (1 now ws)
  show ?case
  proof (cases "waiting_jobs ws")
    case Nil
    with 1(4,5) show ?thesis by (simp add: waiting_Nil)
  next
    case (Cons j js)
    let ?ws1 = "claim_row now (cj_id j) ws"
    let ?ws2 = "set_job (cj_id j) (lose_file now) ?ws1"
    note rows = claim_row_rows [OF 1(2) Cons, where now = now]
    have gone: "live_file (ws_room ws) (cj_source_file_id j) = None"
    proof (rule ccontr)
      assume "live_file (ws_room ws) (cj_source_file_id j) \<noteq> None"
      then obtain f where "live_file (ws_room ws) (cj_source_file_id j) = Some f" by blast
      with 1(3) Cons show False by (subst (asm) claim_in_tenant.simps) (simp add: Let_def)
    qed
    have rest: "claim_in_tenant now ?ws2 = (None, ws')"
      using 1(3) Cons gone by (subst (asm) claim_in_tenant.simps) (simp add: Let_def)
    have ok1: "shop_ok limit ?ws1" using claim_row_moves [OF 1(2)] by (simp add: shop_moves_def)
    have "shop_moves limit Worker ?ws1 (set_job (cj_id (start_job now j)) (lose_file now) ?ws1)"
      by (rule set_job_moves [OF ok1 rows(1)])
        (auto simp: lose_file_def start_job_def view_def is_active_job_def ACTIVE_STATUSES_def
          intro!: r_into_rtranclp job_move.reported_failed)
    then have ok2: "shop_ok limit ?ws2" by (simp add: shop_moves_def start_job_def)
    show ?thesis
    proof (cases "cj_id k = cj_id j")
      case True
      have "j \<in> set (ws_jobs ws)" using waiting_jobs_mem [of j ws] Cons by simp
      from shop_ok_same [OF 1(2) this 1(4) True] gone show ?thesis by simp
    next
      case False
      with 1(4,5) have "k \<in> set (ws_jobs ?ws2)"
        by (auto simp: set_job_def claim_row_def set_update_where)
      from 1(1) [OF Cons refl gone ok2 rest this 1(5)] show ?thesis by (simp add: set_job_def claim_row_def)
    qed
  qed
qed

lemma claim_first_none:
  "floor_ok limit fl \<Longrightarrow> claim_first now tids fl = (None, fl') \<Longrightarrow> t \<in> set tids \<Longrightarrow>
     k \<in> set (ws_jobs (fl_shops fl t)) \<Longrightarrow> cj_status k = QUEUED \<Longrightarrow>
     live_file (ws_room (fl_shops fl t)) (cj_source_file_id k) = None"
proof (induction now tids fl arbitrary: fl' rule: claim_first.induct)
  case (2 now tid tids fl)
  obtain x ws where x: "claim_in_tenant now (fl_shops fl tid) = (x, ws)" by fastforce
  with 2(3) have none: "x = None" "claim_first now tids (set_shop tid ws fl) = (None, fl')"
    by (cases x; auto)+
  have ok: "shop_ok limit (fl_shops fl tid)" using 2(2) by (simp add: floor_ok_def)
  show ?case
  proof (cases "t = tid")
    case True
    with claim_none_gone [OF ok x [unfolded none(1)]] 2(5,6) show ?thesis by simp
  next
    case False
    have "floor_ok limit (set_shop tid ws fl)"
      by (rule floor_moves_ok [OF set_shop_moves [OF 2(2) claim_in_tenant_moves [OF ok x]]])
    from 2(1) [OF x [symmetric, unfolded none(1)] refl this none(2)] 2(4-6) False
    show ?thesis by (simp add: set_shop_def)
  qed
qed simp

lemma requeue_queued: "k \<in> set (ws_jobs ws) \<Longrightarrow> cj_status k = QUEUED \<Longrightarrow> k \<in> set (ws_jobs (requeue_stuck cfg now ws))"
  by (auto simp: requeue_stuck_def Let_def set_update_where held_too_long_def)

lemma requeue_all_queued:
  "k \<in> set (ws_jobs (fl_shops fl t)) \<Longrightarrow> cj_status k = QUEUED \<Longrightarrow>
     k \<in> set (ws_jobs (fl_shops (requeue_all cfg now tids fl) t))"
  unfolding requeue_all_def
proof (induction tids arbitrary: fl)
  case (Cons tid tids)
  have "k \<in> set (ws_jobs (fl_shops (set_shop tid (requeue_stuck cfg now (fl_shops fl tid)) fl) t))"
    using Cons.prems requeue_queued [of k "fl_shops fl tid" cfg now] by (cases "t = tid") (simp_all add: set_shop_def)
  from Cons.IH [OF this Cons.prems(2)] show ?case by simp
qed simp

lemma claim_next_none:
  assumes "floor_ok (claude_job_max_attempts cfg) fl" and "claim_next cfg now fl = (None, fl')"
    and "t \<in> set (enabled_tenants fl)" and "k \<in> set (ws_jobs (fl_shops fl t))" and "cj_status k = QUEUED"
  shows "live_file (ws_room (fl_shops fl t)) (cj_source_file_id k) = None"
proof -
  let ?T = "enabled_tenants fl"
  let ?fl1 = "requeue_all cfg now ?T fl"
  have first: "claim_first now (waiting_tenants ?T ?fl1) ?fl1 = (None, fl')"
    using assms(2) by (simp add: claim_next_def Let_def)
  have ok1: "floor_ok (claude_job_max_attempts cfg) ?fl1"
    by (rule floor_moves_ok [OF requeue_all_moves [OF assms(1), of Worker]])
  have k: "k \<in> set (ws_jobs (fl_shops ?fl1 t))" by (rule requeue_all_queued [OF assms(4,5)])
  with assms(5) have "waiting_jobs (fl_shops ?fl1 t) \<noteq> []" by (auto simp: waiting_Nil)
  with assms(3) have "t \<in> set (waiting_tenants ?T ?fl1)" by (simp add: waiting_tenants_mem)
  from claim_first_none [OF ok1 first this k assms(5)] show ?thesis
    using requeue_all_shops [of cfg now ?T fl] by simp
qed

section \<open>References and names\<close>

lemma parse_job_ref_of:
  assumes "0 \<le> tid" and "tid < 10 ^ 12" and "8 \<le> length pid" and "length pid \<le> 40" and "list_all is_id_char pid"
  shows "parse_job_ref (job_ref tid pid) = Inr (tid, pid)"
proof -
  have "CHR ''.'' \<notin> set (show_nat (nat tid))" using show_nat_ids [of "CHR ''.''" "nat tid"] id_chars_plain by blast
  moreover have "CHR ''.'' \<notin> set pid" using assms(5) id_chars_plain by (auto simp: list_all_iff)
  ultimately have "split_on (CHR ''.'') (job_ref tid pid) = [show_nat (nat tid), pid]"
    using assms(1) by (simp add: job_ref_def show_int_def split_on_append split_on_absent)
  moreover have "list_all is_digit (show_nat (nat tid))" using show_nat_digits by (auto simp: list_all_iff)
  moreover have "length (show_nat (nat tid)) \<le> 12"
    using length_show_nat [of 12 "nat tid"] assms(1,2) by (simp add: nat_less_iff)
  moreover have "1 \<le> length (show_nat (nat tid))" by (cases "show_nat (nat tid)") simp_all
  ultimately show ?thesis using assms by (simp add: parse_job_ref_def)
qed

lemma numbered_name_inj: "lower (numbered_name name m) = lower (numbered_name name n) \<Longrightarrow> m = n"
  using lower_show_nat [unfolded lower_def]
  by (cases "rpartition (CHR ''.'') name") (simp add: numbered_name_def lower_def)

text \<open>A free name is found while fewer than 998 are taken.\<close>

lemma free_number:
  assumes "length taken < length ns" and "distinct ns"
  shows "\<exists>n \<in> set ns. lower (numbered_name name n) \<notin> set (map lower taken)"
proof (rule ccontr)
  assume "\<not> ?thesis"
  then have "(\<lambda>n. lower (numbered_name name n)) ` set ns \<subseteq> set (map lower taken)" by blast
  then have "card ((\<lambda>n. lower (numbered_name name n)) ` set ns) \<le> card (set (map lower taken))"
    by (rule card_mono [rotated]) simp
  moreover have "inj_on (\<lambda>n. lower (numbered_name name n)) (set ns)" using numbered_name_inj by (auto simp: inj_on_def)
  then have "card ((\<lambda>n. lower (numbered_name name n)) ` set ns) = length ns"
    by (simp add: card_image distinct_card [OF assms(2)])
  moreover have "card (set (map lower taken)) \<le> length taken" using card_length [of "map lower taken"] by simp
  ultimately show False using assms(1) by simp
qed

lemma unique_name_free:
  assumes "length taken < 998"
  shows "lower (unique_name name taken) \<notin> set (map lower taken)"
proof (cases "lower name \<in> set (map lower taken)")
  case False
  then show ?thesis by (simp add: unique_name_def Let_def del: upt_Suc)
next
  case True
  define ns where "ns = [2..<1000::nat]"
  have ns: "distinct ns" "length ns = 998" unfolding ns_def by (simp_all del: upt_Suc upt_rec_numeral)
  obtain n where n: "find (\<lambda>n. lower (numbered_name name n) \<notin> set (map lower taken)) ns = Some n"
    using free_number [of taken ns name] assms ns
    by (cases "find (\<lambda>n. lower (numbered_name name n) \<notin> set (map lower taken)) ns") (auto simp: find_None_iff)
  have "lower (numbered_name name n) \<notin> set (map lower taken)" using n by (auto simp: find_Some_iff)
  moreover have "unique_name name taken = numbered_name name n"
    using True n unfolding unique_name_def ns_def [symmetric] Let_def by simp
  ultimately show ?thesis by simp
qed

section \<open>Filing a result\<close>

lemma upload_document_file_result:
  assumes "upload_document_file s rp sha256 now pid oid did kind name content content_type uploaded_by rm = (y, rm')"
  shows "case y of Inl e \<Rightarrow> rm_files rm' = rm_files rm
    | Inr row \<Rightarrow> rm_files rm' = rm_files rm @ [row] \<and> f_public_id row = pid \<and> f_document_id row = Some did \<and>
        f_kind row = kind \<and> f_name row = name \<and> is_live_file row"
  using assms by (auto simp: upload_document_file_def Let_def is_live_file_def split: prod.splits sum.splits)

text \<open>The three ends of a delivered result.\<close>

lemma post_result_cases:
  assumes "post_result s rp sha256 unzip max_bytes now pid ref upload fl = (x, fl')"
  obtains (refused) e where "x = Inl e" "fl' = fl"
  | (gone) e tid jid j where "x = Inl e" "parse_job_ref ref = Inr (tid, jid)"
      "translating_job jid (fl_shops fl tid) = Inr j" "job_document (ws_room (fl_shops fl tid)) j = None"
      "fl' = set_shop tid (set_job (cj_id j) (lose_document now) (fl_shops fl tid)) fl"
  | (stored) tid jid j ord d y rm name where "parse_job_ref ref = Inr (tid, jid)"
      "translating_job jid (fl_shops fl tid) = Inr j" "job_document (ws_room (fl_shops fl tid)) j = Some (ord, d)"
      "name = unique_name (result_name (cj_file_name j)) (map f_name (list_document_files (d_id d) (ws_room (fl_shops fl tid))))"
      "upload_document_file s rp sha256 now pid (o_id ord) (d_id d) TRANSLATION_file name upload DOCX_CONTENT_TYPE
         (''claude:'' @ show_int (or_else (cj_requested_by j) 0)) (ws_room (fl_shops fl tid)) = (y, rm)"
      "case y of Inl e \<Rightarrow> x = Inl (storage_failure e) \<and> fl' = set_shop tid ((fl_shops fl tid)\<lparr>ws_room := rm\<rparr>) fl
       | Inr row \<Rightarrow> x = Inr (f_public_id row, name) \<and>
           fl' = set_shop tid (set_job (cj_id j) (\<lambda>j. j\<lparr>cj_result_file_id := Some (f_id row)\<rparr>)
                   ((set_job (cj_id j) (finish_job now) (fl_shops fl tid))\<lparr>ws_room := rm\<rparr>)) fl"
proof (cases "bind_result (parse_job_ref ref) (\<lambda>target.
            bind_result (read_upload max_bytes upload) (\<lambda>content.
            bind_result (ensure_word_document unzip content) (\<lambda>_.
            bind_result (translating_job (snd target) (fl_shops fl (fst target))) (\<lambda>j.
              Inr (fst target, content, j)))))")
  case (Inl e)
  with assms have "x = Inl e" "fl' = fl" by (simp_all add: post_result_def)
  then show thesis by (rule refused)
next
  case (Inr p)
  obtain tid content j where p: "p = (tid, content, j)" by (cases p)
  from Inr p obtain jid where ref: "parse_job_ref ref = Inr (tid, jid)"
    and held: "translating_job jid (fl_shops fl tid) = Inr j" and read: "read_upload max_bytes upload = Inr content"
    by (auto simp: bind_result_Inr_iff)
  from read have content: "content = upload" by (auto simp: read_upload_def split: if_split_asm)
  show thesis
  proof (cases "job_document (ws_room (fl_shops fl tid)) j")
    case None
    with assms Inr p have x: "x = Inl (ConflictError ''The document was removed before it could be translated.'')"
      and fl': "fl' = set_shop tid (set_job (cj_id j) (lose_document now) (fl_shops fl tid)) fl"
      by (simp_all add: post_result_def Let_def)
    show thesis by (rule gone [OF x ref held None fl'])
  next
    case (Some od)
    obtain ord d where od: "od = (ord, d)" by fastforce
    let ?name = "unique_name (result_name (cj_file_name j)) (map f_name (list_document_files (d_id d) (ws_room (fl_shops fl tid))))"
    obtain y rm where y: "upload_document_file s rp sha256 now pid (o_id ord) (d_id d) TRANSLATION_file ?name upload
        DOCX_CONTENT_TYPE (''claude:'' @ show_int (or_else (cj_requested_by j) 0)) (ws_room (fl_shops fl tid)) = (y, rm)"
      by fastforce
    from assms Inr p content Some od y show thesis
      by (intro stored [OF ref held Some [unfolded od] refl y])
        (cases y; simp add: post_result_def Let_def)+
  qed
qed

lemma translating_jobD:
  assumes "translating_job jid ws = Inr j"
  shows "find (\<lambda>j. cj_public_id j = jid) (ws_jobs ws) = Some j" and "j \<in> set (ws_jobs ws)" and "cj_status j = TRANSLATING"
  using assms
  by (auto simp: translating_job_def find_job_def bind_result_Inr_iff find_Some_iff split: option.splits if_split_asm)

lemma job_document_id: "job_document rm j = Some (ord, d) \<Longrightarrow> cj_document_id j = Some (d_id d)"
  by (auto simp: job_document_def get_row_def find_Some_iff bind_eq_Some_conv split: option.splits if_split_asm)

lemma find_update_where:
  assumes "find P xs = Some x" and "\<And>x. P (f x) = P x" and "Q x"
  shows "find P (update_where Q f xs) = Some (f x)"
  using assms by (induction xs) (auto simp: update_where_def split: if_split_asm)

section \<open>Properties\<close>

text \<open>C28: the queue implements the machine its module documents. Whatever sequence of claims,
  results, reports, requests, timeouts and deletions happens, the jobs' statuses and attempt
  counts move only along its edges, each by the side it belongs to; and every queue keeps its
  attempts within the limit and at most one active job per file.\<close>

theorem queue_refines_machine:
  assumes "queue_run cfg fl fl'" and "floor_ok (claude_job_max_attempts cfg) fl"
  shows "board_run (claude_job_max_attempts cfg) (board fl) (board fl') \<and>
         floor_ok (claude_job_max_attempts cfg) fl'"
  using queue_run_ok [OF assms] by simp

text \<open>A claim takes, among the jobs waiting in the bureau it chooses, the one queued first, and
  only one whose file is still there, started now; and it comes back empty-handed only when no
  bureau with the feature has a waiting job whose file is still there, and then leaves none
  waiting.\<close>

lemma claim_takes_the_oldest:
  assumes "floor_ok (claude_job_max_attempts cfg) fl" and "claim_next cfg now fl = (r, fl')"
  shows "case r of
      None \<Rightarrow> (\<forall>tid \<in> set (enabled_tenants fl).
        (\<forall>k \<in> set (ws_jobs (fl_shops fl tid)). cj_status k = QUEUED \<longrightarrow>
           live_file (ws_room (fl_shops fl tid)) (cj_source_file_id k) = None) \<and>
        (\<forall>k \<in> set (ws_jobs (fl_shops fl' tid)). cj_status k \<noteq> QUEUED))
    | Some (tid, j, c) \<Rightarrow> tid \<in> set (enabled_tenants fl) \<and> j \<in> set (ws_jobs (fl_shops fl' tid)) \<and>
        cj_status j = TRANSLATING \<and> cj_started_at j = Some now \<and>
        live_file (ws_room (fl_shops fl tid)) (cj_source_file_id j) \<noteq> None \<and>
        cm_ref c = job_ref (rm_tenant_id (ws_room (fl_shops fl tid))) (cj_public_id j) \<and>
        (\<forall>k \<in> set (ws_jobs (fl_shops fl' tid)). cj_status k = QUEUED \<longrightarrow>
           (cj_created_at j, cj_id j) \<le> (cj_created_at k, cj_id k))"
proof (cases r)
  case None
  with claim_next_result(5) [OF assms] claim_next_none [OF assms(1)] assms(2) show ?thesis
    by (simp add: waiting_Nil)
next
  case (Some q)
  obtain tid j c where q: "q = (tid, j, c)" by (cases q)
  from claim_next_result(6) [OF assms, of tid j c] Some q show ?thesis by (simp add: job_taken_def)
qed

text \<open>C30: workers that claim jobs and are never heard of again cannot hold the queue: when claims come
  at an even pace, more than the stuck time apart, then after at most as many claims as there are attempts left
  there is nothing to claim, and no job of a bureau with the feature is waiting or being
  translated.\<close>

theorem silent_workers_drain:
  assumes "floor_ok (claude_job_max_attempts cfg) fl" and "minutes (claude_job_stuck_minutes cfg) < gap"
    and "started_by (start - gap) fl"
  shows "\<exists>n \<le> floor_left (claude_job_max_attempts cfg) fl.
    fst (claim_next cfg (start + int n * gap) (silent_claims cfg gap start n fl)) = None \<and>
    (\<forall>tid \<in> set (enabled_tenants fl).
       \<forall>k \<in> set (ws_jobs (fl_shops (silent_claims cfg gap start (Suc n) fl) tid)). \<not> is_active_job k)"
proof -
  let ?limit = "claude_job_max_attempts cfg"
  let ?state = "\<lambda>n. silent_claims cfg gap start n fl"
  let ?answer = "\<lambda>n. fst (claim_next cfg (start + int n * gap) (?state n))"
  have "\<exists>n < Suc (floor_left ?limit fl). ?answer n = None"
  proof (rule ccontr)
    assume no: "\<not> ?thesis"
    have some: "?answer m \<noteq> None" if m: "m < Suc (floor_left ?limit fl)" for m
    proof
      assume "?answer m = None"
      with m have "\<exists>n < Suc (floor_left ?limit fl). ?answer n = None" by (intro exI conjI)
      with no show False by (rule notE)
    qed
    have "floor_left ?limit (?state (Suc (floor_left ?limit fl))) + Suc (floor_left ?limit fl) \<le> floor_left ?limit fl"
      by (rule silent_left [OF assms]) (rule some)
    then show False by simp
  qed
  then obtain n where lt: "n < Suc (floor_left ?limit fl)" and none: "?answer n = None" by (elim exE conjE)
  from lt have le: "n \<le> floor_left ?limit fl" by simp
  from silent_invariant [OF assms, of n] have ok: "floor_ok ?limit (?state n)"
    and en: "enabled_tenants (?state n) = enabled_tenants fl"
    and st: "started_by (start + int n * gap - gap) (?state n)" by (auto intro: enabled_same)
  obtain s' where s': "claim_next cfg (start + int n * gap) (?state n) = (None, s')" using none
    by (cases "claim_next cfg (start + int n * gap) (?state n)") simp
  note res = claim_next_result [OF ok s']
  have early: "start + int n * gap - gap < start + int n * gap - minutes (claude_job_stuck_minutes cfg)"
    using assms(2) by simp
  have "\<not> is_active_job k" if tid: "tid \<in> set (enabled_tenants fl)" and k: "k \<in> set (ws_jobs (fl_shops s' tid))" for tid k
  proof -
    have "cj_status k \<noteq> TRANSLATING" using res(4) [OF k] started_by_held [OF st early] tid en by auto
    moreover have "cj_status k \<noteq> QUEUED" using res(5) [of tid] tid en k by (simp add: waiting_Nil)
    ultimately show ?thesis by (simp add: is_active_job_def ACTIVE_STATUSES_def)
  qed
  then have "\<forall>tid \<in> set (enabled_tenants fl). \<forall>k \<in> set (ws_jobs (fl_shops (?state (Suc n)) tid)). \<not> is_active_job k"
    using s' by simp
  with le none show ?thesis by (intro exI [of _ n] conjI)
qed

text \<open>C31: a result that is accepted is filed and marked in one step: the job the reference names was
  being translated, exactly one live translation file joins its bureau, on the job's document
  and under a name the document's files do not have (while they are fewer than 998), the job is
  translated and points at it, every other job and bureau is as it was, and a second result for
  the job is refused. A result that is not accepted adds no file, and no job but one whose
  document is gone is touched.\<close>

theorem result_filed:
  assumes "floor_ok limit fl"
    and "post_result s rp sha256 unzip max_bytes now pid ref upload fl = (x, fl')"
  shows "case x of
      Inl e \<Rightarrow> (\<forall>t. rm_files (ws_room (fl_shops fl' t)) = rm_files (ws_room (fl_shops fl t)) \<and>
        (\<forall>k \<in> set (ws_jobs (fl_shops fl t)). k \<in> set (ws_jobs (fl_shops fl' t)) \<or>
           cj_status k = TRANSLATING \<and> job_document (ws_room (fl_shops fl t)) k = None \<and>
           lose_document now k \<in> set (ws_jobs (fl_shops fl' t))))
    | Inr (out, name) \<Rightarrow> (\<exists>tid jid j row. parse_job_ref ref = Inr (tid, jid) \<and>
        find_job jid (fl_shops fl tid) = Inr j \<and> cj_status j = TRANSLATING \<and>
        rm_files (ws_room (fl_shops fl' tid)) = rm_files (ws_room (fl_shops fl tid)) @ [row] \<and>
        f_public_id row = out \<and> f_name row = name \<and> f_kind row = TRANSLATION_file \<and> is_live_file row \<and>
        f_document_id row = cj_document_id j \<and> cj_document_id j \<noteq> None \<and>
        (length (list_document_files (the (cj_document_id j)) (ws_room (fl_shops fl tid))) < 998 \<longrightarrow>
           lower name \<notin> lower ` f_name ` set (list_document_files (the (cj_document_id j)) (ws_room (fl_shops fl tid)))) \<and>
        ws_jobs (fl_shops fl' tid) = update_where (\<lambda>k. cj_id k = cj_id j)
          (\<lambda>k. (finish_job now k)\<lparr>cj_result_file_id := Some (f_id row)\<rparr>) (ws_jobs (fl_shops fl tid)) \<and>
        translating_job jid (fl_shops fl' tid) = Inl (ConflictError ''This job is translated, not translating.'') \<and>
        (\<forall>t. t \<noteq> tid \<longrightarrow> fl_shops fl' t = fl_shops fl t))"
  using assms(2)
proof (cases rule: post_result_cases)
  case (refused e)
  then show ?thesis by simp
next
  case (gone e tid jid j)
  have ok: "distinct (map cj_id (ws_jobs (fl_shops fl tid)))" using assms(1) by (simp add: floor_ok_def shop_ok_def)
  have one: "k = j" if "k \<in> set (ws_jobs (fl_shops fl tid))" "cj_id k = cj_id j" for k
    using ok that translating_jobD(2) [OF gone(3)] by (simp add: distinct_map inj_on_def)
  have kept: "k \<in> set (ws_jobs (fl_shops fl' tid)) \<or> k = j" if "k \<in> set (ws_jobs (fl_shops fl tid))" for k
    using one [OF that] that gone(5) by (auto simp: set_shop_def set_job_def set_update_where)
  have lost: "lose_document now j \<in> set (ws_jobs (fl_shops fl' tid))"
    using translating_jobD(2) [OF gone(3)] gone(5) by (auto simp: set_shop_def set_job_def set_update_where)
  have other: "t \<noteq> tid \<Longrightarrow> fl_shops fl' t = fl_shops fl t" for t using gone(5) by (simp add: set_shop_def)
  have "rm_files (ws_room (fl_shops fl' t)) = rm_files (ws_room (fl_shops fl t))" for t
    using gone(5) by (simp add: set_shop_def set_job_def)
  moreover have "k \<in> set (ws_jobs (fl_shops fl' t)) \<or> cj_status k = TRANSLATING \<and>
      job_document (ws_room (fl_shops fl t)) k = None \<and> lose_document now k \<in> set (ws_jobs (fl_shops fl' t))"
    if k: "k \<in> set (ws_jobs (fl_shops fl t))" for t k
  proof (cases "t = tid")
    case True
    with k kept [of k] have "k \<in> set (ws_jobs (fl_shops fl' t)) \<or> k = j" by simp
    then show ?thesis
    proof
      assume "k = j"
      with True lost gone(4) translating_jobD(3) [OF gone(3)] show ?thesis by simp
    qed simp
  next
    case False
    with k other show ?thesis by simp
  qed
  ultimately show ?thesis unfolding gone(1) sum.case by blast
next
  case (stored tid jid j ord d y rm name)
  note up = upload_document_file_result [OF stored(5)]
  show ?thesis
  proof (cases y)
    case (Inl e)
    with stored(6) up show ?thesis by (simp add: set_shop_def)
  next
    case (Inr row)
    let ?f = "\<lambda>k. (finish_job now k)\<lparr>cj_result_file_id := Some (f_id row)\<rparr>"
    let ?ws' = "fl_shops fl' tid"
    from stored(6) Inr have x: "x = Inr (f_public_id row, name)"
      and fl': "fl' = set_shop tid (set_job (cj_id j) (\<lambda>j. j\<lparr>cj_result_file_id := Some (f_id row)\<rparr>)
                   ((set_job (cj_id j) (finish_job now) (fl_shops fl tid))\<lparr>ws_room := rm\<rparr>)) fl" by simp_all
    have jobs: "ws_jobs ?ws' = update_where (\<lambda>k. cj_id k = cj_id j) ?f (ws_jobs (fl_shops fl tid))"
      by (simp add: fl' set_shop_def set_job_def update_where_def finish_job_def)
    have "find (\<lambda>j. cj_public_id j = jid) (ws_jobs ?ws') = Some (?f j)"
      unfolding jobs by (rule find_update_where [OF translating_jobD(1) [OF stored(2)]]) (simp_all add: finish_job_def)
    then have again: "translating_job jid ?ws' = Inl (ConflictError ''This job is translated, not translating.'')"
      by (simp add: translating_job_def find_job_def finish_job_def)
    have files: "rm_files (ws_room ?ws') = rm_files (ws_room (fl_shops fl tid)) @ [row]"
      using up Inr by (simp add: fl' set_shop_def set_job_def)
    have free: "lower name \<notin> lower ` f_name ` set (list_document_files (d_id d) (ws_room (fl_shops fl tid)))"
      if "length (list_document_files (d_id d) (ws_room (fl_shops fl tid))) < 998"
      using unique_name_free [of "map f_name (list_document_files (d_id d) (ws_room (fl_shops fl tid)))"] that
      by (simp add: stored(4) image_image)
    have found: "find_job jid (fl_shops fl tid) = Inr j" "cj_status j = TRANSLATING"
      using translating_jobD [OF stored(2)] by (simp_all add: find_job_def)
    have other: "\<forall>t. t \<noteq> tid \<longrightarrow> fl_shops fl' t = fl_shops fl t" by (simp add: fl' set_shop_def)
    from up Inr have row: "f_name row = name" "f_kind row = TRANSLATION_file" "is_live_file row"
      "f_document_id row = cj_document_id j" by (simp_all add: job_document_id [OF stored(3)])
    show ?thesis
      unfolding x sum.case prod.case
      by (rule exI [of _ tid], rule exI [of _ jid], rule exI [of _ j], rule exI [of _ row])
        (simp add: stored(1) found files row jobs [symmetric] again other job_document_id [OF stored(3)] free)
  qed
qed

section \<open>Examples\<close>

definition ex_job :: claude_job where
  "ex_job = \<lparr>cj_id = 1, cj_public_id = ''jobjobjo'', cj_order_id = 4, cj_document_id = Some 5,
     cj_source_file_id = Some 1, cj_result_file_id = None, cj_status = QUEUED, cj_file_name = ''a.pdf'',
     cj_content_type = ''text/html'', cj_source_language = ''ka'', cj_target_language = ''en'',
     cj_instructions = None, cj_attempts = 0, cj_error = None, cj_requested_by = Some 7,
     cj_created_at = 10, cj_started_at = None, cj_finished_at = None\<rparr>"

definition ex_file :: order_file where
  "ex_file = \<lparr>f_id = 1, f_public_id = ''filefile'', f_document_id = Some 5, f_kind = SOURCE_file,
     f_name = ''a.pdf'', f_content_type = ''text/html'', f_size = 2, f_sha256 = ''hi'',
     f_storage_key = ''k'', f_working_key = None, f_uploaded_by = ''user:7'', f_created_at = 5,
     f_deleted_at = None, f_deleted_by = None\<rparr>"

definition ex_shop :: workshop where
  "ex_shop = \<lparr>ws_room = ex_room\<lparr>rm_files := [ex_file], rm_next_file_id := 2\<rparr>, ws_languages = [],
     ws_next_job = 2, ws_jobs = [ex_job]\<rparr>"

definition ex_floor :: floor where
  "ex_floor = \<lparr>fl_tenants = [ex_tenant\<lparr>t_claude_translate_enabled := True\<rparr>],
     fl_shops = (\<lambda>tid. if tid = 1 then ex_shop else ex_shop\<lparr>ws_jobs := []\<rparr>), fl_heartbeats = []\<rparr>"

lemma ex_floor_ok: "floor_ok (claude_job_max_attempts default_settings) ex_floor"
  by (simp add: floor_ok_def shop_ok_def ex_floor_def ex_shop_def ex_job_def one_active_def default_settings_def)

lemma ex_enabled: "enabled_tenants ex_floor = [1]"
  by (simp add: enabled_tenants_def ex_floor_def ex_tenant_def is_usable_def)

lemma ex_waiting: "waiting_jobs ex_shop = [ex_job]"
  by (simp add: waiting_jobs_def ex_shop_def ex_job_def)

lemma ex_requeue: "requeue_stuck default_settings 100 ex_shop = ex_shop"
  by (simp add: requeue_stuck_def Let_def ex_shop_def ex_job_def held_too_long_def)

lemma ex_claim:
  "claim_next default_settings 100 ex_floor =
     (Some (1, start_job 100 ex_job, claimed_of ex_shop (start_job 100 ex_job) ex_file),
      set_shop 1 (ex_shop\<lparr>ws_jobs := [start_job 100 ex_job]\<rparr>) ex_floor)"
proof -
  have shop: "fl_shops ex_floor 1 = ex_shop" by (simp add: ex_floor_def)
  have rq: "requeue_all default_settings 100 [1] ex_floor = set_shop 1 ex_shop ex_floor"
    by (simp add: requeue_all_def shop ex_requeue)
  have "waiting_tenants [1] (set_shop 1 ex_shop ex_floor) = [1]"
    by (simp add: waiting_tenants_def oldest_waiting_def set_shop_def ex_waiting map_filter_def)
  moreover have "live_file (ws_room ex_shop) (cj_source_file_id ex_job) = Some ex_file"
    by (simp add: live_file_def ex_shop_def ex_job_def ex_file_def is_live_file_def)
  then have "claim_in_tenant 100 ex_shop =
      (Some (start_job 100 ex_job, claimed_of ex_shop (start_job 100 ex_job) ex_file), claim_row 100 (cj_id ex_job) ex_shop)"
    by (subst claim_in_tenant.simps) (simp add: ex_waiting Let_def)
  moreover have "claim_row 100 (cj_id ex_job) ex_shop = ex_shop\<lparr>ws_jobs := [start_job 100 ex_job]\<rparr>"
    by (simp add: claim_row_def ex_shop_def ex_job_def)
  ultimately show ?thesis
    by (simp add: claim_next_def ex_enabled rq Let_def) (simp add: set_shop_def)
qed

theorem queue_refines_machine_witness:
  "\<exists>fl'. queue_run default_settings ex_floor fl' \<and> board ex_floor 1 1 = Some (QUEUED, 0) \<and>
     board_run 3 (board ex_floor) (board fl')"
proof -
  obtain r fl' where c: "claim default_settings 100 ''w'' ex_floor = (r, fl')" by fastforce
  have run: "queue_run default_settings ex_floor fl'"
    by (rule queue_run.more [OF queue_run.idle queue_step.claims [OF c]])
  have "board ex_floor 1 1 = Some (QUEUED, 0)" by (simp add: board_def ex_floor_def ex_shop_def ex_job_def view_def)
  moreover have "claude_job_max_attempts default_settings = 3" by (simp add: default_settings_def)
  ultimately show ?thesis using run queue_refines_machine [OF run ex_floor_ok] by auto
qed

theorem silent_workers_drain_witness:
  "\<exists>n \<le> floor_left 3 ex_floor.
     fst (claim_next default_settings (0 + int n * minutes 31) (silent_claims default_settings (minutes 31) 0 n ex_floor)) = None"
proof -
  have st: "started_by (0 - minutes 31) ex_floor"
    by (simp add: started_by_def ex_enabled ex_floor_def ex_shop_def ex_job_def)
  have gap: "minutes (claude_job_stuck_minutes default_settings) < minutes 31"
    by (simp add: default_settings_def minutes_def seconds_def)
  have "claude_job_max_attempts default_settings = 3" by (simp add: default_settings_def)
  with silent_workers_drain [OF ex_floor_ok gap st] show ?thesis by auto
qed

definition ex_held :: floor where
  "ex_held = \<lparr>fl_tenants = [ex_tenant],
     fl_shops = (\<lambda>_. ex_shop\<lparr>ws_jobs := [start_job 100 ex_job]\<rparr>), fl_heartbeats = []\<rparr>"

definition ex_unzip :: "string \<Rightarrow> (string \<times> int) list option" where
  "ex_unzip content = Some [(''[Content_Types].xml'', 10), (''word/document.xml'', 20)]"

lemma ex_unzip_ok: "ensure_word_document ex_unzip content = Inr ()"
  by (simp add: ensure_word_document_def ex_unzip_def MAX_PARTS_def MAX_UNPACKED_BYTES_def starts_with_def lower_def lower_char_def)

lemma ex_ref: "parse_job_ref ''1.jobjobjo'' = Inr (1, ''jobjobjo'')"
  by (simp add: parse_job_ref_def is_id_char_def is_alpha_def is_digit_def read_nat_def digit_value_def)

lemma ex_names: "map f_name (list_document_files 5 (ws_room ex_shop)) = [''a.pdf'']"
  by (simp add: list_document_files_def ex_shop_def ex_room_def ex_file_def is_live_file_def)

lemma ex_translating:
  "translating_job ''jobjobjo'' (fl_shops ex_held 1) = Inr (start_job 100 ex_job)"
  by (simp add: translating_job_def find_job_def ex_held_def start_job_def ex_job_def)

lemma ex_post:
  obtains name fl' where "post_result (Blob Local) ex_replies id ex_unzip 100 200 ''abcdefgh'' ''1.jobjobjo'' ''doc'' ex_held =
     (Inr (''abcdefgh'', name), fl')"
proof -
  obtain ord d where doc: "job_document (ws_room (fl_shops ex_held 1)) (start_job 100 ex_job) = Some (ord, d)"
      "o_id ord = 4" "d_id d = 5"
    by (simp add: job_document_def ex_held_def ex_shop_def ex_room_def start_job_def ex_job_def ex_office_defs)
  have "\<exists>row rm'. upload_document_file (Blob Local) ex_replies id 200 ''abcdefgh'' 4 5 TRANSLATION_file name ''doc''
      DOCX_CONTENT_TYPE by (ws_room (fl_shops ex_held 1)) = (Inr row, rm') \<and> f_public_id row = ''abcdefgh''" for name "by"
    by (simp add: upload_document_file_def upload_bytes_def blob_put_def ex_key ex_key_ok ex_replies_def
        ex_held_def ex_shop_def ex_room_def Let_def)
  then obtain row rm' where up: "upload_document_file (Blob Local) ex_replies id 200 ''abcdefgh'' (o_id ord) (d_id d) TRANSLATION_file
      (unique_name (result_name (cj_file_name (start_job 100 ex_job)))
        (map f_name (list_document_files (d_id d) (ws_room (fl_shops ex_held 1))))) ''doc''
      DOCX_CONTENT_TYPE (''claude:'' @ show_int (or_else (cj_requested_by (start_job 100 ex_job)) 0))
      (ws_room (fl_shops ex_held 1)) = (Inr row, rm')" and id: "f_public_id row = ''abcdefgh''"
    unfolding doc by blast
  have read: "read_upload 100 ''doc'' = Inr ''doc''" by (simp add: read_upload_def)
  have "\<exists>name fl'. post_result (Blob Local) ex_replies id ex_unzip 100 200 ''abcdefgh'' ''1.jobjobjo'' ''doc'' ex_held =
     (Inr (''abcdefgh'', name), fl')"
    unfolding post_result_def ex_ref read ex_unzip_ok
    by (simp add: ex_translating ex_unzip_ok doc(1) up [unfolded append.simps] id Let_def)
  with that show thesis by blast
qed

theorem result_filed_witness:
  "\<exists>name fl'. post_result (Blob Local) ex_replies id ex_unzip 100 200 ''abcdefgh'' ''1.jobjobjo'' ''doc'' ex_held =
     (Inr (''abcdefgh'', name), fl') \<and>
     translating_job ''jobjobjo'' (fl_shops fl' 1) = Inl (ConflictError ''This job is translated, not translating.'')"
proof -
  obtain name fl' where p: "post_result (Blob Local) ex_replies id ex_unzip 100 200 ''abcdefgh'' ''1.jobjobjo'' ''doc'' ex_held =
     (Inr (''abcdefgh'', name), fl')" by (rule ex_post)
  have "floor_ok 3 ex_held"
    by (simp add: floor_ok_def shop_ok_def ex_held_def ex_shop_def ex_job_def start_job_def one_active_def)
  from result_filed [OF this p] p show ?thesis by (auto simp: ex_ref)
qed

end
