(* ===== verification/Tokens.thy ===== *)
theory Tokens
  imports Sessions Texts
begin

text \<open>
  What proves who someone is, apart from the session itself: passwords
  (\<^verbatim>\<open>security/passwords.py\<close>), single-use links (\<^verbatim>\<open>security/reset_tokens.py\<close>), time-based
  codes and recovery codes (\<^verbatim>\<open>security/totp.py\<close>), the ticket between the two steps of a
  sign-in (\<^verbatim>\<open>security/login_tickets.py\<close>), and the counters that limit guessing
  (\<^verbatim>\<open>core/ratelimit.py\<close>). The hash functions, the password hashing library, the code
  pyotp computes for a time step and the keyed signature are parameters; random tokens are
  arguments. A character is a code point below 256.
\<close>

section \<open>Passwords\<close>

text \<open>The two libraries: whether a password verifies against an Argon2 hash or (bytes) a bcrypt
  hash, whether an Argon2 hash is below today's parameters or unreadable, and a new hash.\<close>

record hashing =
  ha_argon_verify :: "string \<Rightarrow> string \<Rightarrow> bool"
  ha_bcrypt_check :: "string \<Rightarrow> string \<Rightarrow> bool"
  ha_outdated :: "string \<Rightarrow> bool"
  ha_hash :: "string \<Rightarrow> string"

definition MIN_PASSWORD_LENGTH :: nat where "MIN_PASSWORD_LENGTH = 12"

definition is_bcrypt :: "string \<Rightarrow> bool" where
  "is_bcrypt hashed \<longleftrightarrow> starts_with hashed ''$2a$'' \<or> starts_with hashed ''$2b$'' \<or> starts_with hashed ''$2y$''"

definition verify_password :: "hashing \<Rightarrow> string \<Rightarrow> string \<Rightarrow> bool" where
  "verify_password lib password hashed =
     (if is_bcrypt hashed then ha_bcrypt_check lib (take 72 password) hashed
      else ha_argon_verify lib hashed password)"

definition needs_rehash :: "hashing \<Rightarrow> string \<Rightarrow> bool" where
  "needs_rehash lib hashed \<longleftrightarrow> is_bcrypt hashed \<or> ha_outdated lib hashed"

definition verify_and_maybe_rehash :: "hashing \<Rightarrow> string \<Rightarrow> string \<Rightarrow> bool \<times> string option" where
  "verify_and_maybe_rehash lib password hashed =
     (if \<not> verify_password lib password hashed then (False, None)
      else if needs_rehash lib hashed then (True, Some (ha_hash lib password))
      else (True, None))"

definition OBVIOUS :: "string list" where
  "OBVIOUS = [''password'', ''password123'', ''123456789012'', ''qwertyuiop12'', ''administrator'', ''letmein12345'']"

definition validate_password_strength :: "string \<Rightarrow> string list" where
  "validate_password_strength password =
     (if length password < MIN_PASSWORD_LENGTH then [''Password must be at least 12 characters.''] else []) @
     (if password \<noteq> [] \<and> lower password \<in> set OBVIOUS then [''That password is too common.''] else [])"

section \<open>Single-use links\<close>

definition PASSWORD_RESET :: string where "PASSWORD_RESET = ''password_reset''"
definition EMAIL_VERIFICATION :: string where "EMAIL_VERIFICATION = ''email_verification''"
definition INVITATION :: string where "INVITATION = ''invitation''"

definition retire_tokens :: "instant \<Rightarrow> int \<Rightarrow> string \<Rightarrow> id_db \<Rightarrow> id_db" where
  "retire_tokens now uid purpose db = db\<lparr>reset_tokens :=
     update_where (\<lambda>r. rt_user_id r = uid \<and> rt_purpose r = purpose \<and> rt_used_at r = None)
       (\<lambda>r. r\<lparr>rt_used_at := Some now\<rparr>) (reset_tokens db)\<rparr>"

definition issue_token ::
    "(string \<Rightarrow> string) \<Rightarrow> instant \<Rightarrow> string \<Rightarrow> int \<Rightarrow> int \<Rightarrow> string \<Rightarrow> id_db \<Rightarrow> string \<times> id_db" where
  "issue_token hash_token now token uid ttl_seconds purpose db =
     (let db1 = retire_tokens now uid purpose db
      in (token, db1\<lparr>reset_tokens := reset_tokens db1 @
           [\<lparr>rt_user_id = uid, rt_token_hash = hash_token token,
             rt_expires_at = now + seconds ttl_seconds, rt_used_at = None,
             rt_purpose = purpose\<rparr>]\<rparr>))"

definition token_refused :: "instant \<Rightarrow> string \<Rightarrow> reset_token \<Rightarrow> bool" where
  "token_refused now purpose r \<longleftrightarrow> rt_purpose r \<noteq> purpose \<or> rt_used_at r \<noteq> None \<or> rt_expires_at r \<le> now"

definition consume_token ::
    "(string \<Rightarrow> string) \<Rightarrow> instant \<Rightarrow> string \<Rightarrow> string \<Rightarrow> id_db \<Rightarrow> user option \<times> id_db" where
  "consume_token hash_token now token purpose db =
     (case get_row rt_token_hash (hash_token token) (reset_tokens db) of
        None \<Rightarrow> (None, db)
      | Some r \<Rightarrow>
          if token_refused now purpose r then (None, db)
          else (case get_row u_id (rt_user_id r) (users db) of
             None \<Rightarrow> (None, db)
           | Some u \<Rightarrow>
               if \<not> u_is_active u then (None, db)
               else (Some u, db\<lparr>reset_tokens :=
                 update_where (\<lambda>s. rt_token_hash s = rt_token_hash r) (\<lambda>s. s\<lparr>rt_used_at := Some now\<rparr>)
                   (reset_tokens db)\<rparr>)))"

section \<open>Time-based codes\<close>

definition TOTP_INTERVAL :: int where "TOTP_INTERVAL = 30"
definition TOTP_DIGITS :: nat where "TOTP_DIGITS = 6"

definition current_timestep :: "instant \<Rightarrow> int" where
  "current_timestep t = t div seconds TOTP_INTERVAL"

datatype totp_verification = Totp_ok int | Totp_wrong | Totp_replayed

definition plain_code :: "string \<Rightarrow> string" where
  "plain_code code = filter (\<lambda>c. c \<noteq> CHR '' '') (strip code)"

text \<open>The steps of the window in the order they are tried; \<open>otp secret step\<close> is pyotp's code.\<close>

definition code_step :: "(string \<Rightarrow> int \<Rightarrow> string) \<Rightarrow> string \<Rightarrow> string \<Rightarrow> instant \<Rightarrow> int option" where
  "code_step otp secret code now =
     find (\<lambda>n. otp secret n = code)
       (map (\<lambda>offset. current_timestep (now + offset * seconds TOTP_INTERVAL)) [-1, 0, 1])"

definition verify_code ::
    "(string \<Rightarrow> int \<Rightarrow> string) \<Rightarrow> string \<Rightarrow> string \<Rightarrow> int option \<Rightarrow> instant \<Rightarrow> totp_verification" where
  "verify_code otp secret code last_used_timestep now =
     (let code = plain_code code
      in if code = [] \<or> \<not> list_all is_digit code \<or> length code \<noteq> TOTP_DIGITS then Totp_wrong
         else case code_step otp secret code now of
           None \<Rightarrow> Totp_wrong
         | Some n \<Rightarrow>
             (case last_used_timestep of
                Some used \<Rightarrow> if n \<le> used then Totp_replayed else Totp_ok n
              | None \<Rightarrow> Totp_ok n))"

definition normalise_recovery_code :: "string \<Rightarrow> string" where
  "normalise_recovery_code code = filter (\<lambda>c. c \<noteq> CHR '' '') (lower (strip code))"

definition recovery_code_of :: "string \<Rightarrow> string" where
  "recovery_code_of raw = take 5 raw @ ''-'' @ drop 5 raw"

section \<open>Sign-in tickets\<close>

text \<open>The keyed signature of a body and the first 24 hex digits of a password hash's SHA-256.\<close>

record ticket_key =
  tk_sign :: "string \<Rightarrow> string"
  tk_fingerprint :: "string \<Rightarrow> string"

definition TTL_SECONDS :: int where "TTL_SECONDS = 600"

definition epoch_seconds :: "instant \<Rightarrow> int" where "epoch_seconds now = now div seconds 1"

definition ticket_body :: "int \<Rightarrow> int \<Rightarrow> string \<Rightarrow> string" where
  "ticket_body account_id expires fingerprint =
     show_int account_id @ CHR ''.'' # show_int expires @ CHR ''.'' # fingerprint"

definition issue_ticket :: "ticket_key \<Rightarrow> instant \<Rightarrow> int \<Rightarrow> string \<Rightarrow> string" where
  "issue_ticket key now account_id password_hash =
     (let body = ticket_body account_id (epoch_seconds now + TTL_SECONDS) (tk_fingerprint key password_hash)
      in body @ CHR ''.'' # tk_sign key body)"

text \<open>Signing and comparing are defined on ASCII only: anything else is an exception that nothing
  catches. \<^verbatim>\<open>int\<close> reads the fields only once the signature has shown them to be ours; the
  spaces and underscores it would also accept are never in a body that was signed.\<close>

definition is_ascii :: "string \<Rightarrow> bool" where
  "is_ascii s \<longleftrightarrow> list_all (\<lambda>c. (of_char c :: nat) < 128) s"

definition read_int :: "string \<Rightarrow> int option" where
  "read_int s =
     (if s \<noteq> [] \<and> list_all is_digit s then Some (read_nat s)
      else if take 1 s = ''-'' \<and> tl s \<noteq> [] \<and> list_all is_digit (tl s) then Some (- read_nat (tl s))
      else None)"

definition ticket_error :: api_error where
  "ticket_error = AuthenticationError ''Your sign-in has expired. Sign in again.''"

definition read_ticket :: "ticket_key \<Rightarrow> instant \<Rightarrow> string \<Rightarrow> int result" where
  "read_ticket key now ticket =
     (case split_on (CHR ''.'') ticket of
        [account, expires, fingerprint, signature] \<Rightarrow>
          if \<not> is_ascii ticket then Inl (InternalError ''UnicodeEncodeError'')
          else if tk_sign key (account @ CHR ''.'' # expires @ CHR ''.'' # fingerprint) \<noteq> signature
            then Inl ticket_error
          else (case (read_int account, read_int expires) of
             (Some account_id, Some expires_at) \<Rightarrow>
               if expires_at < epoch_seconds now then Inl ticket_error else Inr account_id
           | _ \<Rightarrow> Inl ticket_error)
      | _ \<Rightarrow> Inl ticket_error)"

definition matches_ticket :: "ticket_key \<Rightarrow> string \<Rightarrow> string \<Rightarrow> bool" where
  "matches_ticket key ticket password_hash =
     (case split_on (CHR ''.'') ticket of
        [account, expires, fingerprint, signature] \<Rightarrow> fingerprint = tk_fingerprint key password_hash
      | _ \<Rightarrow> False)"

section \<open>Counters\<close>

text \<open>
  The limiter's two stores: the moments of the hits by key, pruned to the window whenever a key
  is looked at; or Redis, where \<^verbatim>\<open>INCR\<close> starts a missing or expired key at one and every hit
  sets the key to expire a window later. A window is in seconds.
\<close>

datatype limiter =
    Local "string \<Rightarrow> instant list"
  | Redis "string \<Rightarrow> (nat \<times> instant) option"

definition unexpired :: "instant \<Rightarrow> (nat \<times> instant) option \<Rightarrow> nat" where
  "unexpired now entry = (case entry of None \<Rightarrow> 0 | Some (n, until) \<Rightarrow> if now < until then n else 0)"

definition bucket :: "int \<Rightarrow> instant \<Rightarrow> instant list \<Rightarrow> instant list" where
  "bucket window now hits = filter (\<lambda>t. now - seconds window < t) hits"

fun hit_count :: "string \<Rightarrow> int \<Rightarrow> instant \<Rightarrow> limiter \<Rightarrow> nat \<times> limiter" where
  "hit_count key window now (Local m) =
     (let hits = bucket window now (m key) @ [now] in (length hits, Local (m(key := hits))))"
| "hit_count key window now (Redis m) =
     (let n = unexpired now (m key) + 1 in (n, Redis (m(key \<mapsto> (n, now + seconds window)))))"

fun current_count :: "string \<Rightarrow> int \<Rightarrow> instant \<Rightarrow> limiter \<Rightarrow> nat \<times> limiter" where
  "current_count key window now (Local m) =
     (let hits = bucket window now (m key) in (length hits, Local (m(key := hits))))"
| "current_count key window now (Redis m) = (unexpired now (m key), Redis m)"

fun clear_count :: "string \<Rightarrow> limiter \<Rightarrow> limiter" where
  "clear_count key (Local m) = Local (m(key := []))"
| "clear_count key (Redis m) = Redis (m(key := None))"

text \<open>Seconds to wait when the counter has reached its limit.\<close>

definition check_count :: "string \<Rightarrow> nat \<Rightarrow> int \<Rightarrow> instant \<Rightarrow> limiter \<Rightarrow> int option \<times> limiter" where
  "check_count key limit window now l =
     (case current_count key window now l of (n, l') \<Rightarrow> (if limit \<le> n then Some window else None, l'))"

text \<open>Two counters, the second only looked at when the first lets the caller through.\<close>

definition check_two ::
    "string \<Rightarrow> nat \<Rightarrow> string \<Rightarrow> nat \<Rightarrow> int \<Rightarrow> instant \<Rightarrow> limiter \<Rightarrow> int option \<times> limiter" where
  "check_two key1 limit1 key2 limit2 window now l =
     (case check_count key1 limit1 window now l of
        (Some wait, l') \<Rightarrow> (Some wait, l')
      | (None, l') \<Rightarrow> check_count key2 limit2 window now l')"

definition hit_two :: "string \<Rightarrow> string \<Rightarrow> int \<Rightarrow> instant \<Rightarrow> limiter \<Rightarrow> limiter" where
  "hit_two key1 key2 window now l =
     snd (hit_count key2 window now (snd (hit_count key1 window now l)))"

definition check_login :: "settings \<Rightarrow> string \<Rightarrow> string \<Rightarrow> instant \<Rightarrow> limiter \<Rightarrow> int option \<times> limiter" where
  "check_login cfg account_key ip_key =
     check_two account_key (login_max_attempts_per_account cfg) ip_key (login_max_attempts_per_ip cfg)
       (login_window_seconds cfg)"

definition record_login_failure :: "settings \<Rightarrow> string \<Rightarrow> string \<Rightarrow> instant \<Rightarrow> limiter \<Rightarrow> limiter" where
  "record_login_failure cfg account_key ip_key = hit_two account_key ip_key (login_window_seconds cfg)"

definition check_mfa :: "settings \<Rightarrow> string \<Rightarrow> instant \<Rightarrow> limiter \<Rightarrow> int option \<times> limiter" where
  "check_mfa cfg key = check_count key (mfa_max_attempts cfg) (mfa_window_seconds cfg)"

definition record_mfa_failure :: "settings \<Rightarrow> string \<Rightarrow> instant \<Rightarrow> limiter \<Rightarrow> limiter" where
  "record_mfa_failure cfg key now l = snd (hit_count key (mfa_window_seconds cfg) now l)"

definition check_password_reset :: "settings \<Rightarrow> string \<Rightarrow> string \<Rightarrow> instant \<Rightarrow> limiter \<Rightarrow> int option \<times> limiter" where
  "check_password_reset cfg account_key ip_key =
     check_two account_key (password_reset_max_per_account cfg) ip_key (password_reset_max_per_ip cfg)
       (password_reset_window_seconds cfg)"

definition record_password_reset_request :: "settings \<Rightarrow> string \<Rightarrow> string \<Rightarrow> instant \<Rightarrow> limiter \<Rightarrow> limiter" where
  "record_password_reset_request cfg account_key ip_key =
     hit_two account_key ip_key (password_reset_window_seconds cfg)"

definition check_signup :: "settings \<Rightarrow> string \<Rightarrow> instant \<Rightarrow> limiter \<Rightarrow> int option \<times> limiter" where
  "check_signup cfg ip_key = check_count ip_key (signup_max_per_ip cfg) (signup_window_seconds cfg)"

definition record_signup :: "settings \<Rightarrow> string \<Rightarrow> instant \<Rightarrow> limiter \<Rightarrow> limiter" where
  "record_signup cfg ip_key now l = snd (hit_count ip_key (signup_window_seconds cfg) now l)"

definition check_invite :: "settings \<Rightarrow> string \<Rightarrow> instant \<Rightarrow> limiter \<Rightarrow> int option \<times> limiter" where
  "check_invite cfg tenant_key = check_count tenant_key (invite_max_per_tenant cfg) (invite_window_seconds cfg)"

definition record_invite :: "settings \<Rightarrow> string \<Rightarrow> instant \<Rightarrow> limiter \<Rightarrow> limiter" where
  "record_invite cfg tenant_key now l = snd (hit_count tenant_key (invite_window_seconds cfg) now l)"

definition check_email_verification_resend :: "settings \<Rightarrow> string \<Rightarrow> instant \<Rightarrow> limiter \<Rightarrow> int option \<times> limiter" where
  "check_email_verification_resend cfg account_key =
     check_count account_key (email_verification_resend_max cfg) (email_verification_resend_window_seconds cfg)"

definition record_email_verification_resend :: "settings \<Rightarrow> string \<Rightarrow> instant \<Rightarrow> limiter \<Rightarrow> limiter" where
  "record_email_verification_resend cfg account_key now l =
     snd (hit_count account_key (email_verification_resend_window_seconds cfg) now l)"

definition check_document_mail :: "settings \<Rightarrow> string \<Rightarrow> instant \<Rightarrow> limiter \<Rightarrow> int option \<times> limiter" where
  "check_document_mail cfg tenant_key =
     check_count tenant_key (document_mail_max_per_tenant cfg) (document_mail_window_seconds cfg)"

definition record_document_mail :: "settings \<Rightarrow> string \<Rightarrow> instant \<Rightarrow> limiter \<Rightarrow> limiter" where
  "record_document_mail cfg tenant_key now l = snd (hit_count tenant_key (document_mail_window_seconds cfg) now l)"

definition check_write :: "settings \<Rightarrow> string \<Rightarrow> instant \<Rightarrow> limiter \<Rightarrow> int option \<times> limiter" where
  "check_write cfg key now l =
     (case hit_count key 60 now l of
        (n, l') \<Rightarrow> (if write_max_per_minute cfg < n then Some 60 else None, l'))"

section \<open>What a counter promises\<close>

text \<open>How many of the hits \<open>ts\<close> lie in the window that ends at \<open>now\<close>.\<close>

definition recent :: "int \<Rightarrow> instant \<Rightarrow> instant list \<Rightarrow> nat" where
  "recent window now ts = length (filter (\<lambda>t. now - seconds window < t) ts)"

text \<open>
  The contract of a store of counters, over the history \<open>hs\<close> of the hits of each key since it was
  last cleared (newest first): a count is never lower than the hits of its window. Each key is
  used with one window.
\<close>

locale hit_counter =
  fixes hit current :: "string \<Rightarrow> int \<Rightarrow> instant \<Rightarrow> 'c \<Rightarrow> nat \<times> 'c"
    and clear :: "string \<Rightarrow> 'c \<Rightarrow> 'c"
    and tracks :: "(string \<Rightarrow> int) \<Rightarrow> instant \<Rightarrow> 'c \<Rightarrow> (string \<Rightarrow> instant list) \<Rightarrow> bool"
  assumes tracks_later: "tracks win now c hs \<Longrightarrow> now \<le> t \<Longrightarrow> tracks win t c hs"
    and hit_tracks: "tracks win now c hs \<Longrightarrow> tracks win now (snd (hit k (win k) now c)) (hs(k := now # hs k))"
    and current_tracks: "tracks win now c hs \<Longrightarrow> tracks win now (snd (current k (win k) now c)) hs"
    and clear_tracks: "tracks win now c hs \<Longrightarrow> tracks win now (clear k c) (hs(k := []))"
    and current_counts: "tracks win now c hs \<Longrightarrow> recent (win k) now (hs k) \<le> fst (current k (win k) now c)"
begin

lemma below_limit:
  assumes "tracks win now c hs" and "fst (current k (win k) now c) < limit"
  shows "recent (win k) now (hs k) < limit"
  using current_counts [OF assms(1), of k] assms(2) by simp

end

text \<open>A history that was only ever added to below the limit.\<close>

fun throttled :: "int \<Rightarrow> nat \<Rightarrow> instant list \<Rightarrow> bool" where
  "throttled window limit [] = True"
| "throttled window limit (t # ts) =
     (throttled window limit ts \<and> (\<forall>u \<in> set ts. u \<le> t) \<and> recent window t ts < limit)"

lemma recent_Cons: "recent w now (t # ts) = (if now - seconds w < t then 1 else 0) + recent w now ts"
  by (simp add: recent_def)

lemma recent_mono: "t \<le> now \<Longrightarrow> recent w now ts \<le> recent w t ts"
  by (induction ts) (auto simp: recent_Cons recent_def [of _ _ "[]"])

text \<open>Then no window, wherever it lies, has more hits than the limit.\<close>

lemma throttled_bound:
  assumes "throttled w limit ts"
  shows "length (filter (\<lambda>t. now - seconds w < t \<and> t \<le> now) ts) \<le> limit"
  using assms
proof (induction ts)
  case (Cons t ts)
  show ?case
  proof (cases "t \<le> now")
    case True
    have "length (filter (\<lambda>u. now - seconds w < u \<and> u \<le> now) ts) \<le> recent w t ts"
    proof -
      have "length (filter (\<lambda>u. now - seconds w < u \<and> u \<le> now) ts) \<le> recent w now ts"
        by (induction ts) (auto simp: recent_def)
      also have "\<dots> \<le> recent w t ts" by (rule recent_mono [OF True])
      finally show ?thesis .
    qed
    with Cons.prems show ?thesis by (simp split: if_split)
  qed (use Cons in auto)
qed simp

text \<open>What a store has to remember of a key's hits.\<close>

fun limiter_tracks :: "(string \<Rightarrow> int) \<Rightarrow> instant \<Rightarrow> limiter \<Rightarrow> (string \<Rightarrow> instant list) \<Rightarrow> bool" where
  "limiter_tracks win now (Local m) hs \<longleftrightarrow>
     (\<forall>k. (\<forall>t \<in> set (hs k). t \<le> now) \<and> (\<forall>u \<ge> now. recent (win k) u (hs k) \<le> recent (win k) u (m k)))"
| "limiter_tracks win now (Redis m) hs \<longleftrightarrow>
     (\<forall>k. (\<forall>t \<in> set (hs k). t \<le> now) \<and> (\<forall>u \<ge> now. recent (win k) u (hs k) \<le> unexpired u (m k)))"

lemma recent_bucket: "now \<le> u \<Longrightarrow> recent w u (bucket w now ts) = recent w u ts"
  by (induction ts) (auto simp: recent_def bucket_def)

lemma recent_append: "recent w now (xs @ ys) = recent w now xs + recent w now ys"
  by (simp add: recent_def)

lemma recent_none: "\<forall>t \<in> set ts. t \<le> now - seconds w \<Longrightarrow> recent w now ts = 0"
  by (induction ts) (auto simp: recent_def)

lemma limiter_hit_tracks:
  assumes "limiter_tracks win now l hs"
  shows "limiter_tracks win now (snd (hit_count k (win k) now l)) (hs(k := now # hs k))"
proof (cases l)
  case (Local m)
  have "recent (win k) u (now # hs k) \<le> recent (win k) u (bucket (win k) now (m k) @ [now])" if "now \<le> u" for u
    using assms that by (simp add: Local recent_append recent_bucket recent_Cons recent_def [of _ _ "[]"])
  with assms show ?thesis by (simp add: Local Let_def)
next
  case (Redis m)
  have "recent (win k) u (now # hs k) \<le> unexpired u (Some (unexpired now (m k) + 1, now + seconds (win k)))"
    if u: "now \<le> u" for u
  proof (cases "u < now + seconds (win k)")
    case True
    have "recent (win k) u (hs k) \<le> recent (win k) now (hs k)" by (rule recent_mono [OF u])
    also have "\<dots> \<le> unexpired now (m k)" using assms by (simp add: Redis)
    finally show ?thesis using True by (simp add: recent_Cons unexpired_def)
  next
    case False
    then have "\<forall>t \<in> set (now # hs k). t \<le> u - seconds (win k)" using assms by (force simp: Redis)
    from recent_none [OF this] show ?thesis by simp
  qed
  with assms show ?thesis by (simp add: Redis Let_def)
qed

interpretation counter: hit_counter hit_count current_count clear_count limiter_tracks
proof
  show "limiter_tracks win t l hs" if "limiter_tracks win now l hs" "now \<le> t" for win now l hs t
    using that by (cases l) (auto intro: order_trans)
  show "limiter_tracks win now (snd (current_count k (win k) now l)) hs" if "limiter_tracks win now l hs" for win now l hs k
    using that by (cases l) (simp_all add: Let_def recent_bucket)
  show "limiter_tracks win now (clear_count k l) (hs(k := []))" if "limiter_tracks win now l hs" for win now l hs k
    using that by (cases l) (simp_all add: recent_def)
  show "recent (win k) now (hs k) \<le> fst (current_count k (win k) now l)" if "limiter_tracks win now l hs" for win now l hs k
  proof (cases l)
    case (Local m)
    have "recent (win k) now (hs k) \<le> recent (win k) now (m k)" using that by (simp add: Local)
    then show ?thesis by (simp add: Local Let_def recent_def bucket_def)
  qed (use that in simp)
qed (rule limiter_hit_tracks)

text \<open>One more hit on a key whose check let the caller through keeps its history below the limit.\<close>

lemma check_count_hit:
  assumes "limiter_tracks win now l hs" and "throttled (win k) limit (hs k)"
    and "check_count k limit (win k) now l = (None, l')"
  shows "throttled (win k) limit (now # hs k)"
proof -
  have "fst (current_count k (win k) now l) < limit"
    using assms(3) by (auto simp: check_count_def split: prod.splits if_split_asm)
  from counter.below_limit [OF assms(1) this] have "recent (win k) now (hs k) < limit" .
  moreover have "\<forall>u \<in> set (hs k). u \<le> now" using assms(1) by (cases l) auto
  ultimately show ?thesis using assms(2) by simp
qed

lemma check_count_tracks:
  assumes "limiter_tracks win now l hs" and "check_count k limit (win k) now l = (w, l')"
  shows "limiter_tracks win now l' hs"
proof -
  have "l' = snd (current_count k (win k) now l)" using assms(2) by (auto simp: check_count_def split: prod.splits)
  with counter.current_tracks [OF assms(1), of k] show ?thesis by simp
qed

section \<open>Links\<close>

lemma retire_tokens_frame [simp]:
  "users (retire_tokens now uid purpose db) = users db"
  "user_sessions (retire_tokens now uid purpose db) = user_sessions db"
  by (simp_all add: retire_tokens_def)

lemma consume_token_SomeE:
  assumes "consume_token h now token purpose db = (Some u, db')"
  obtains r where "get_row rt_token_hash (h token) (reset_tokens db) = Some r" "rt_purpose r = purpose"
    "rt_used_at r = None" "now < rt_expires_at r" "get_row u_id (rt_user_id r) (users db) = Some u"
    "u_is_active u" "db' = db\<lparr>reset_tokens :=
       update_where (\<lambda>s. rt_token_hash s = h token) (\<lambda>s. s\<lparr>rt_used_at := Some now\<rparr>) (reset_tokens db)\<rparr>"
proof -
  obtain r where row: "get_row rt_token_hash (h token) (reset_tokens db) = Some r"
    using assms by (auto simp: consume_token_def split: option.splits)
  have key: "rt_token_hash r = h token" using get_row_SomeD [OF row] by simp
  have "\<not> token_refused now purpose r \<and> get_row u_id (rt_user_id r) (users db) = Some u \<and> u_is_active u \<and>
      db' = db\<lparr>reset_tokens :=
       update_where (\<lambda>s. rt_token_hash s = h token) (\<lambda>s. s\<lparr>rt_used_at := Some now\<rparr>) (reset_tokens db)\<rparr>"
    using assms row key by (auto simp: consume_token_def split: if_split_asm option.splits)
  with row that show thesis by (simp add: token_refused_def not_le)
qed

lemma consume_token_None: "consume_token h now token purpose db = (None, db') \<Longrightarrow> db' = db"
  by (auto simp: consume_token_def split: if_split_asm option.splits)

text \<open>A used link stays used: whatever keeps the used rows of a table keeps a spent link dead.\<close>

definition links_kept :: "id_db \<Rightarrow> id_db \<Rightarrow> bool" where
  "links_kept db db' \<longleftrightarrow>
     (\<forall>k r. get_row rt_token_hash k (reset_tokens db) = Some r \<longrightarrow>
        (\<exists>r'. get_row rt_token_hash k (reset_tokens db') = Some r' \<and>
           rt_user_id r' = rt_user_id r \<and> rt_purpose r' = rt_purpose r \<and> rt_expires_at r' = rt_expires_at r \<and>
           (rt_used_at r \<noteq> None \<longrightarrow> rt_used_at r' \<noteq> None)))"

lemma links_kept_refl [simp]: "links_kept db db"
  by (simp add: links_kept_def)

lemma links_kept_trans:
  assumes "links_kept a b" and "links_kept b c"
  shows "links_kept a c"
  unfolding links_kept_def
proof (intro allI impI)
  fix k r
  assume "get_row rt_token_hash k (reset_tokens a) = Some r"
  with assms(1) obtain s where s: "get_row rt_token_hash k (reset_tokens b) = Some s" "rt_user_id s = rt_user_id r"
      "rt_purpose s = rt_purpose r" "rt_expires_at s = rt_expires_at r" "rt_used_at r \<noteq> None \<longrightarrow> rt_used_at s \<noteq> None"
    unfolding links_kept_def by blast
  from assms(2) s(1) obtain t where "get_row rt_token_hash k (reset_tokens c) = Some t" "rt_user_id t = rt_user_id s"
      "rt_purpose t = rt_purpose s" "rt_expires_at t = rt_expires_at s" "rt_used_at s \<noteq> None \<longrightarrow> rt_used_at t \<noteq> None"
    unfolding links_kept_def by blast
  then show "\<exists>t. get_row rt_token_hash k (reset_tokens c) = Some t \<and> rt_user_id t = rt_user_id r \<and>
      rt_purpose t = rt_purpose r \<and> rt_expires_at t = rt_expires_at r \<and> (rt_used_at r \<noteq> None \<longrightarrow> rt_used_at t \<noteq> None)"
    using s(2-5) by (intro exI [of _ t]) simp
qed

lemma links_kept_same: "reset_tokens db' = reset_tokens db \<Longrightarrow> links_kept db db'"
  by (simp add: links_kept_def)

lemma links_kept_update:
  assumes "\<And>r. rt_token_hash (f r) = rt_token_hash r" and "\<And>r. rt_user_id (f r) = rt_user_id r"
    and "\<And>r. rt_purpose (f r) = rt_purpose r" and "\<And>r. rt_expires_at (f r) = rt_expires_at r"
    and "\<And>r. P r \<Longrightarrow> rt_used_at r \<noteq> None \<Longrightarrow> rt_used_at (f r) \<noteq> None"
  shows "links_kept db (db\<lparr>reset_tokens := update_where P f (reset_tokens db)\<rparr>)"
  using assms by (auto simp: links_kept_def get_row_update_where_gen)

lemma links_kept_issue: "links_kept db (snd (issue_token h now token uid ttl purpose db))"
proof -
  have "links_kept db (retire_tokens now uid purpose db)"
    unfolding retire_tokens_def by (rule links_kept_update) simp_all
  moreover have "links_kept (retire_tokens now uid purpose db) (snd (issue_token h now token uid ttl purpose db))"
    by (simp add: links_kept_def issue_token_def Let_def get_row_append)
  ultimately show ?thesis by (rule links_kept_trans)
qed

lemma links_kept_consume: "links_kept db (snd (consume_token h now token purpose db))"
proof (cases "consume_token h now token purpose db")
  case (Pair x db')
  show ?thesis
  proof (cases x)
    case None
    with Pair have "db' = db" by (simp add: consume_token_None)
    then show ?thesis by (simp add: Pair)
  next
    case (Some u)
    from Pair [unfolded Some] have "links_kept db db'"
      by (elim consume_token_SomeE) (simp, rule links_kept_update, simp_all)
    with Pair show ?thesis by simp
  qed
qed

lemma spent_link_stays_spent:
  assumes "consume_token h now token purpose db = (Some u, db1)" and "links_kept db1 db2"
  shows "consume_token h later token purpose' db2 = (None, db2)"
  using assms(1)
proof (rule consume_token_SomeE)
  fix r assume row: "get_row rt_token_hash (h token) (reset_tokens db) = Some r"
    and db1: "db1 = db\<lparr>reset_tokens :=
       update_where (\<lambda>s. rt_token_hash s = h token) (\<lambda>s. s\<lparr>rt_used_at := Some now\<rparr>) (reset_tokens db)\<rparr>"
  from get_row_SomeD [OF row] have key: "rt_token_hash r = h token" by simp
  have "get_row rt_token_hash (h token) (reset_tokens db1) = Some (r\<lparr>rt_used_at := Some now\<rparr>)"
    using row key by (simp add: db1 get_row_update_where_gen)
  with assms(2) obtain r' where "get_row rt_token_hash (h token) (reset_tokens db2) = Some r'" "rt_used_at r' \<noteq> None"
    unfolding links_kept_def by fastforce
  then show ?thesis by (auto simp: consume_token_def token_refused_def)
qed

section \<open>Tickets\<close>

lemma read_int_show: "0 \<le> n \<Longrightarrow> read_int (show_int n) = Some n"
proof -
  assume "0 \<le> n"
  moreover have "list_all is_digit (show_nat (nat n))" using show_nat_digits by (auto simp: list_all_iff)
  ultimately show ?thesis by (simp add: read_int_def show_int_def)
qed

lemma show_int_plain: "0 \<le> n \<Longrightarrow> CHR ''.'' \<notin> set (show_int n)"
  using show_nat_ids [of "CHR ''.''" "nat n"] id_chars_plain by (auto simp: show_int_def)

lemma split_ticket:
  assumes "0 \<le> a" and "0 \<le> e" and "CHR ''.'' \<notin> set f" and "CHR ''.'' \<notin> set g"
  shows "split_on (CHR ''.'') (ticket_body a e f @ CHR ''.'' # g) = [show_int a, show_int e, f, g]"
  using assms by (simp add: ticket_body_def split_on_append split_on_absent show_int_plain)

lemma read_issued:
  assumes "0 \<le> a" and "0 \<le> epoch_seconds now" and "CHR ''.'' \<notin> set (tk_fingerprint key h)"
    and "\<And>b. CHR ''.'' \<notin> set (tk_sign key b)" and "is_ascii (issue_ticket key now a h)"
  shows "read_ticket key later (issue_ticket key now a h) =
    (if epoch_seconds now + TTL_SECONDS < epoch_seconds later then Inl ticket_error else Inr a)"
proof -
  let ?e = "epoch_seconds now + TTL_SECONDS"
  have e: "0 \<le> ?e" using assms(2) by (simp add: TTL_SECONDS_def)
  have split: "split_on (CHR ''.'') (issue_ticket key now a h) =
      [show_int a, show_int ?e, tk_fingerprint key h, tk_sign key (ticket_body a ?e (tk_fingerprint key h))]"
    unfolding issue_ticket_def Let_def by (rule split_ticket [OF assms(1) e assms(3,4)])
  show ?thesis using assms(1,5) e
    by (simp add: read_ticket_def split read_int_show ticket_body_def)
qed

lemma matches_issued:
  assumes "0 \<le> a" and "0 \<le> epoch_seconds now" and "CHR ''.'' \<notin> set (tk_fingerprint key h)"
    and "\<And>b. CHR ''.'' \<notin> set (tk_sign key b)"
  shows "matches_ticket key (issue_ticket key now a h) h' \<longleftrightarrow> tk_fingerprint key h = tk_fingerprint key h'"
proof -
  let ?e = "epoch_seconds now + TTL_SECONDS"
  have e: "0 \<le> ?e" using assms(2) by (simp add: TTL_SECONDS_def)
  have "split_on (CHR ''.'') (issue_ticket key now a h) =
      [show_int a, show_int ?e, tk_fingerprint key h, tk_sign key (ticket_body a ?e (tk_fingerprint key h))]"
    unfolding issue_ticket_def Let_def by (rule split_ticket [OF assms(1) e assms(3,4)])
  then show ?thesis by (simp add: matches_ticket_def)
qed

text \<open>Only what was signed is read: a ticket that is accepted carries the signature of its body.\<close>

lemma read_ticket_Inr:
  assumes "read_ticket key now ticket = Inr a"
  obtains account expires fingerprint e where
    "split_on (CHR ''.'') ticket = [account, expires, fingerprint,
       tk_sign key (account @ CHR ''.'' # expires @ CHR ''.'' # fingerprint)]"
    "read_int account = Some a" "read_int expires = Some e" "epoch_seconds now \<le> e"
  using assms
  by (auto simp: read_ticket_def not_less split: list.splits if_split_asm option.splits)

end
