(* ===== verification/Accounts.thy ===== *)
theory Accounts
  imports Users Tokens "HOL-Library.Product_Lexorder"
begin

text \<open>
  People and the organisations they belong to (\<^verbatim>\<open>domain/accounts.py\<close>): finding an account by
  what a person types, tying one to suliko.ge, the memberships that can be entered, founding a
  workspace, and signing a person out everywhere. Who a suliko.ge user is, Unicode folding and the
  database's order of names are parameters; the reference catalogue a new workspace starts with
  is not part of this state.
\<close>

section \<open>State\<close>

datatype deletion_status = REQUESTED | APPROVED | REJECTED | DONE

record deletion_request =
  dr_id :: int
  dr_account_id :: int
  dr_status :: deletion_status
  dr_created_at :: instant
  dr_decided_at :: "instant option"
  dr_decided_by :: "int option"
  dr_review_note :: "string option"
  dr_purge_after :: "instant option"
  dr_done_at :: "instant option"
  dr_portal_deactivated :: bool

definition OPEN_DELETION_STATUSES :: "deletion_status set" where
  "OPEN_DELETION_STATUSES = {REQUESTED, APPROVED}"

record login_attempt =
  la_username :: string
  la_ip :: "string option"
  la_user_agent :: "string option"
  la_succeeded :: bool
  la_failure_reason :: "string option"

text \<open>A person of the translators' portal, as far as closing an account concerns it.\<close>

record portal_person =
  pp_id :: int
  pp_external_user_id :: "string option"
  pp_is_active :: bool

text \<open>Mail handed over after the response: which letter, with which secret, to which address.\<close>

datatype letter =
    Reset_link string
  | Verification_link string
  | Suliko_password
  | Personal_enabled
  | Deletion_for_team
  | Deletion_for_person
  | Deletion_approved
  | Deletion_rejected
  | Deletion_done

record platform =
  pf_db :: id_db
  pf_next :: int
  pf_deletions :: "deletion_request list"
  pf_attempts :: "login_attempt list"
  pf_portal :: "portal_person list"
  pf_limiter :: limiter
  pf_outbox :: "(string \<times> letter) list"

text \<open>What a request brings besides its payload.\<close>

record request =
  rq_now :: instant
  rq_ip :: "string option"
  rq_user_agent :: "string option"

definition on_db :: "(id_db \<Rightarrow> id_db) \<Rightarrow> platform \<Rightarrow> platform" where
  "on_db f p = p\<lparr>pf_db := f (pf_db p)\<rparr>"

definition fresh :: "platform \<Rightarrow> int \<times> platform" where
  "fresh p = (pf_next p, p\<lparr>pf_next := pf_next p + 1\<rparr>)"

definition send_mail :: "string \<Rightarrow> letter \<Rightarrow> platform \<Rightarrow> platform" where
  "send_mail address letter p = p\<lparr>pf_outbox := pf_outbox p @ [(address, letter)]\<rparr>"

text \<open>An entry for someone without a session, filed under a tenant.\<close>

definition log_for_tenant :: "int \<Rightarrow> string \<Rightarrow> string \<Rightarrow> int \<Rightarrow> platform \<Rightarrow> platform" where
  "log_for_tenant tid action entity_type i = on_db (\<lambda>db. db\<lparr>audit_log := audit_log db @
     [(audit_record None action (Some entity_type) (Some i))\<lparr>au_tenant_id := Some tid\<rparr>]\<rparr>)"

section \<open>Finding an account\<close>

definition UNUSABLE_PASSWORD_HASH :: string where "UNUSABLE_PASSWORD_HASH = ''!''"

definition normalise_email :: "string \<Rightarrow> string" where
  "normalise_email email = lower (strip email)"

definition username_for :: "string \<Rightarrow> string" where
  "username_for raw =
     (let email = normalise_email raw
      in if length email \<le> 100 then email else take 100 (hd (split_on (CHR ''@'') email)))"

definition or_else_text :: "string option \<Rightarrow> string option \<Rightarrow> string" where
  "or_else_text a b = (if or_blank a \<noteq> [] then or_blank a else or_blank b)"

definition login_name :: "account \<Rightarrow> string" where
  "login_name a = or_else_text (a_email a) (a_phone a)"

definition username_for_account :: "account \<Rightarrow> string" where
  "username_for_account a =
     (if or_blank (a_email a) \<noteq> [] then username_for (or_blank (a_email a))
      else take 100 (strip (or_blank (a_phone a))))"

definition find_account :: "string \<Rightarrow> id_db \<Rightarrow> account option" where
  "find_account email db = find (\<lambda>a. a_email a = Some (normalise_email email)) (accounts db)"

text \<open>A Georgian number without its country code and trunk zero.\<close>

definition local_number :: "string \<Rightarrow> string" where
  "local_number digits =
     (let local = (if starts_with digits ''995'' \<and> length digits = 12 then drop 3 digits else digits)
      in if length local = 10 \<and> starts_with local ''05'' then drop 1 local else local)"

definition phone_variants :: "string \<Rightarrow> string list" where
  "phone_variants raw =
     (let stripped = strip raw; digits = filter is_digit stripped
      in if length digits < 6 then (if stripped = [] then [] else [stripped])
         else let local = local_number digits;
                  trunk = (if length local = 9 then CHR ''0'' # local else local)
              in rev (remdups (rev [stripped, digits, local, trunk, ''+995'' @ local, ''995'' @ local])))"

text \<open>The query takes the first row that the database returns, without an order; should several accounts
  have spellings of one number, the model takes the one with the lowest id.\<close>

definition find_account_by_login :: "string \<Rightarrow> id_db \<Rightarrow> account option" where
  "find_account_by_login raw db =
     (let login = strip raw
      in if CHR ''@'' \<in> set login then find_account login db
         else find (\<lambda>a. \<exists>v \<in> set (phone_variants login). a_phone a = Some v) (accounts db))"

definition find_account_by_suliko_id :: "string \<Rightarrow> id_db \<Rightarrow> account option" where
  "find_account_by_suliko_id i db = find (\<lambda>a. a_suliko_user_id a = Some i) (accounts db)"

section \<open>People of suliko.ge\<close>

record suliko_user =
  su_id :: string
  su_user_name :: string
  su_first_name :: string
  su_last_name :: string

definition su_full_name :: "suliko_user \<Rightarrow> string" where
  "su_full_name s =
     (let a = strip (su_first_name s); b = strip (su_last_name s)
      in if a = [] then b else if b = [] then a else a @ '' '' @ b)"

definition signs_in_with_email :: "suliko_user \<Rightarrow> bool" where
  "signs_in_with_email s \<longleftrightarrow> CHR ''@'' \<in> set (su_user_name s)"

definition su_email :: "suliko_user \<Rightarrow> string option" where
  "su_email s = (if signs_in_with_email s then Some (lower (strip (su_user_name s))) else None)"

definition su_phone :: "suliko_user \<Rightarrow> string option" where
  "su_phone s = (if signs_in_with_email s then None else Some (strip (su_user_name s)))"

text \<open>The first form of a login under which suliko.ge knows someone.\<close>

fun first_known :: "(string \<Rightarrow> suliko_user option result) \<Rightarrow> string list \<Rightarrow> suliko_user option result" where
  "first_known find_user [] = Inr None"
| "first_known find_user (v # vs) =
     bind_result (find_user v) (\<lambda>found. case found of Some s \<Rightarrow> Inr (Some s) | None \<Rightarrow> first_known find_user vs)"

definition find_suliko_person :: "(string \<Rightarrow> suliko_user option result) \<Rightarrow> string \<Rightarrow> suliko_user option result" where
  "find_suliko_person find_user raw =
     (let login = strip raw
      in if CHR ''@'' \<in> set login then find_user login else first_known find_user (phone_variants login))"

definition link_account_to_suliko :: "instant \<Rightarrow> suliko_user \<Rightarrow> account \<Rightarrow> account" where
  "link_account_to_suliko now s a =
     a\<lparr>a_suliko_user_id := Some (su_id s),
       a_phone := (if or_blank (su_phone s) \<noteq> [] \<and> or_blank (a_phone a) = [] then su_phone s else a_phone a),
       a_password_hash := UNUSABLE_PASSWORD_HASH,
       a_must_change_password := False,
       a_full_name := (if strip (a_full_name a) = [] then or_default (su_full_name s) (su_user_name s)
                       else a_full_name a),
       a_email_verified_at :=
         (if or_blank (su_email s) \<noteq> [] \<and> a_email a = su_email s \<and> a_email_verified_at a = None
          then Some now else a_email_verified_at a)\<rparr>"

definition store_account :: "account \<Rightarrow> id_db \<Rightarrow> id_db" where
  "store_account a db = db\<lparr>accounts := update_where (\<lambda>r. a_id r = a_id a) (\<lambda>_. a) (accounts db)\<rparr>"

text \<open>The three unique columns of an account: a null never collides.\<close>

definition account_taken :: "account \<Rightarrow> id_db \<Rightarrow> bool" where
  "account_taken a db \<longleftrightarrow>
     (\<exists>r \<in> set (accounts db). a_id r \<noteq> a_id a \<and>
        (a_email a \<noteq> None \<and> a_email r = a_email a \<or> a_phone a \<noteq> None \<and> a_phone r = a_phone a \<or>
         a_suliko_user_id a \<noteq> None \<and> a_suliko_user_id r = a_suliko_user_id a))"

definition add_account :: "account \<Rightarrow> platform \<Rightarrow> platform result" where
  "add_account a p =
     (if account_taken a (pf_db p) then Inl (IntegrityError ''uq_accounts'')
      else Inr (on_db (\<lambda>db. db\<lparr>accounts := accounts db @ [a]\<rparr>) p))"

definition upsert_from_suliko :: "instant \<Rightarrow> suliko_user \<Rightarrow> platform \<Rightarrow> (account \<times> platform) result" where
  "upsert_from_suliko now s p =
     (case find_account_by_suliko_id (su_id s) (pf_db p) of
        Some a \<Rightarrow> Inr (a, p)
      | None \<Rightarrow>
          (case find_account_by_login (su_user_name s) (pf_db p) of
             Some office \<Rightarrow>
               if a_suliko_user_id office \<noteq> None \<and> a_suliko_user_id office \<noteq> Some (su_id s)
                 then Inl (ConflictError ''This sign-in is already linked to another person. Contact support.'')
               else let a = link_account_to_suliko now s office
                    in if account_taken a (pf_db p) then Inl (IntegrityError ''uq_accounts'')
                       else Inr (a, on_db (store_account a) p)
           | None \<Rightarrow>
               (case fresh p of (i, p1) \<Rightarrow>
                  let a = \<lparr>a_id = i, a_email = su_email s, a_phone = su_phone s,
                           a_suliko_user_id = Some (su_id s), a_password_hash = UNUSABLE_PASSWORD_HASH,
                           a_full_name = or_default (su_full_name s) (su_user_name s),
                           a_must_change_password = False,
                           a_email_verified_at = (if or_blank (su_email s) \<noteq> [] then Some now else None),
                           a_last_login_at = None, a_tips_seen = [], a_created_at = now\<rparr>
                  in bind_result (add_account a p1) (\<lambda>p2. Inr (a, p2)))))"

section \<open>Memberships\<close>

type_synonym membership = "user \<times> tenant"

text \<open>Last sign-in descending, never last; then the id.\<close>

definition latest_first :: "user \<Rightarrow> int \<times> int \<times> int" where
  "latest_first u = (case u_last_login_at u of Some t \<Rightarrow> (0, - t, u_id u) | None \<Rightarrow> (1, 0, u_id u))"

definition joined_tenants :: "(user \<Rightarrow> bool) \<Rightarrow> id_db \<Rightarrow> membership list" where
  "joined_tenants P db =
     List.map_filter (\<lambda>u. if P u then map_option (Pair u) (get_row t_id (u_tenant_id u) (tenants db)) else None)
       (users db)"

definition is_membership_of :: "int \<Rightarrow> user \<Rightarrow> bool" where
  "is_membership_of aid u \<longleftrightarrow> u_account_id u = Some aid \<and> u_is_active u \<and> \<not> u_invitation_pending u"

fun one_per_tenant :: "int list \<Rightarrow> membership list \<Rightarrow> membership list" where
  "one_per_tenant seen [] = []"
| "one_per_tenant seen ((u, t) # ms) =
     (if \<not> is_usable t \<or> t_id t \<in> set seen then one_per_tenant seen ms
      else (u, t) # one_per_tenant (t_id t # seen) ms)"

text \<open>\<open>name_order\<close> is the rank the database's collation gives a name.\<close>

definition memberships :: "(string \<Rightarrow> int) \<Rightarrow> int \<Rightarrow> id_db \<Rightarrow> membership list" where
  "memberships name_order aid db =
     one_per_tenant [] (sort_key (\<lambda>(u, t). (name_order (t_display_name t), latest_first u))
       (joined_tenants (is_membership_of aid) db))"

definition personal :: "membership list \<Rightarrow> membership option" where
  "personal options = find (\<lambda>(u, t). t_is_personal t \<and> u_role u = OWNER) options"

definition would_strand_organisation :: "user \<Rightarrow> id_db \<Rightarrow> bool" where
  "would_strand_organisation u db \<longleftrightarrow>
     u_role u = OWNER \<and>
     (\<exists>v \<in> set (users db). u_tenant_id v = u_tenant_id u \<and> u_is_active v \<and> u_id v \<noteq> u_id u) \<and>
     \<not> (\<exists>v \<in> set (users db). is_active_owner (u_tenant_id u) v \<and> u_id v \<noteq> u_id u)"

definition revoke_account_sessions :: "instant \<Rightarrow> int \<Rightarrow> id_db \<Rightarrow> id_db" where
  "revoke_account_sessions now aid db = db\<lparr>users :=
     update_where (\<lambda>u. u_account_id u = Some aid) (\<lambda>u. u\<lparr>u_sessions_invalid_before := Some now\<rparr>) (users db)\<rparr>"

section \<open>Founding a workspace\<close>

definition is_slug_char :: "char \<Rightarrow> bool" where
  "is_slug_char c \<longleftrightarrow> is_digit c \<or> is_alpha c \<and> lower_char c = c"

text \<open>Every run of other characters becomes one dash; \<open>gap\<close> says that one has just been written.\<close>

fun dashed :: "bool \<Rightarrow> string \<Rightarrow> string" where
  "dashed gap [] = []"
| "dashed gap (c # cs) =
     (if is_slug_char c then c # dashed False cs
      else (if gap then [] else ''-'') @ dashed True cs)"

definition strip_dashes :: "string \<Rightarrow> string" where
  "strip_dashes s = rev (dropWhile (\<lambda>c. c = CHR ''-'') (rev (dropWhile (\<lambda>c. c = CHR ''-'') s)))"

definition slug_candidate :: "(string \<Rightarrow> string) \<Rightarrow> string \<Rightarrow> string" where
  "slug_candidate ascii_fold name =
     (let slug = strip_dashes (take 40 (strip_dashes (dashed False (lower (ascii_fold name)))))
      in if 2 \<le> length slug then slug else ''bureau'')"

definition unique_slug :: "(string \<Rightarrow> string) \<Rightarrow> string \<Rightarrow> id_db \<Rightarrow> string result" where
  "unique_slug ascii_fold name db =
     (let base = slug_candidate ascii_fold name;
          taken = filter (\<lambda>s. s = base \<or> starts_with s (base @ ''-'')) (map t_slug (tenants db))
      in if base \<notin> set taken then Inr base
         else case find (\<lambda>n. base @ ''-'' @ show_nat n \<notin> set taken) [2..<1000] of
           Some n \<Rightarrow> Inr (base @ ''-'' @ show_nat n)
         | None \<Rightarrow> Inl (ConflictError ''Could not allocate an organisation handle. Try a different name.''))"

fun plan_value :: "tenant_plan \<Rightarrow> string" where
  "plan_value FREELANCER = ''freelancer''"
| "plan_value BUREAU = ''bureau''"

definition found_workspace ::
    "settings \<Rightarrow> (string \<Rightarrow> string) \<Rightarrow> instant \<Rightarrow> account \<Rightarrow> string \<Rightarrow> tenant_plan option \<Rightarrow> bool \<Rightarrow> bool option
     \<Rightarrow> platform \<Rightarrow> (membership \<times> platform) result" where
  "found_workspace cfg ascii_fold now a name plan is_personal accepts p =
     bind_result (unique_slug ascii_fold name (pf_db p)) (\<lambda>slug.
       case fresh p of (tid, p1) \<Rightarrow> (case fresh p1 of (uid, p2) \<Rightarrow>
         let t = \<lparr>t_id = tid, t_slug = slug, t_display_name = name, t_status = TRIAL,
                  t_plan = map_option plan_value plan, t_package_tier = 1,
                  t_locale = default_signup_locale cfg, t_timezone = DEFAULT_TIMEZONE,
                  t_claude_translate_enabled = False, t_is_personal = is_personal,
                  t_accepts_bureau_orders = accepts, t_created_at = now\<rparr>;
             u = \<lparr>u_id = uid, u_tenant_id = tid, u_username = username_for_account a, u_email = a_email a,
                  u_full_name = or_default (strip (a_full_name a)) name, u_position = None, u_phone = None,
                  u_password_hash = UNUSABLE_PASSWORD_HASH, u_role = OWNER, u_is_active = True,
                  u_must_change_password = False, u_email_verified_at = a_email_verified_at a,
                  u_sessions_invalid_before = None, u_account_id = Some (a_id a),
                  u_invitation_pending = False, u_last_login_at = None\<rparr>
         in Inr ((u, t), on_db (\<lambda>db. db\<lparr>tenants := tenants db @ [t], users := users db @ [u]\<rparr>) p2)))"

definition create_personal_workspace ::
    "settings \<Rightarrow> (string \<Rightarrow> string) \<Rightarrow> instant \<Rightarrow> account \<Rightarrow> bool option \<Rightarrow> platform \<Rightarrow> (membership \<times> platform) result" where
  "create_personal_workspace cfg ascii_fold now a accepts p =
     found_workspace cfg ascii_fold now a
       (or_default (strip (a_full_name a)) (hd (split_on (CHR ''@'') (login_name a))))
       (Some FREELANCER) True accepts p"

definition create_bureau ::
    "settings \<Rightarrow> (string \<Rightarrow> string) \<Rightarrow> instant \<Rightarrow> account \<Rightarrow> string \<Rightarrow> tenant_plan option
     \<Rightarrow> platform \<Rightarrow> (membership \<times> platform) result" where
  "create_bureau cfg ascii_fold now a raw plan p =
     (let name = collapse_spaces raw
      in if length name < 2 then Inl (ValidationError ''Enter the bureau's name.'')
         else found_workspace cfg ascii_fold now a name plan False None p)"

section \<open>Starting over\<close>

definition reset_to_new :: "instant \<Rightarrow> account \<Rightarrow> platform \<Rightarrow> (int list \<times> platform) result" where
  "reset_to_new now a p =
     (let mine = filter (\<lambda>u. u_account_id u = Some (a_id a) \<and> u_is_active u) (users (pf_db p))
      in if \<exists>u \<in> set mine. u_role u = SUPERUSER
           then Inl (ValidationError ''This account is a platform superuser; it is not reset.'')
         else Inr (map u_id mine,
           on_db (\<lambda>db. revoke_account_sessions now (a_id a) (store_account (a\<lparr>a_tips_seen := []\<rparr>)
             (db\<lparr>users := update_where (\<lambda>u. u_account_id u = Some (a_id a) \<and> u_is_active u)
                           (\<lambda>u. u\<lparr>u_is_active := False\<rparr>) (users db)\<rparr>))) p))"

section \<open>Facts about memberships\<close>

lemma joined_tenants_mem:
  "(u, t) \<in> set (joined_tenants P db) \<longleftrightarrow>
     u \<in> set (users db) \<and> P u \<and> get_row t_id (u_tenant_id u) (tenants db) = Some t"
  by (auto simp: joined_tenants_def map_filter_def image_iff split: if_splits)

lemma one_per_tenant_sub: "m \<in> set (one_per_tenant seen ms) \<Longrightarrow> m \<in> set ms"
  by (induction seen ms rule: one_per_tenant.induct) (auto split: if_splits)

lemma one_per_tenant_usable:
  "(u, t) \<in> set (one_per_tenant seen ms) \<Longrightarrow> is_usable t \<and> t_id t \<notin> set seen"
  by (induction seen ms rule: one_per_tenant.induct) (auto split: if_splits)

lemma one_per_tenant_distinct: "distinct (map (t_id \<circ> snd) (one_per_tenant seen ms))"
proof (induction seen ms rule: one_per_tenant.induct)
  case (2 seen u t ms)
  have "t_id t \<notin> (t_id \<circ> snd) ` set (one_per_tenant (t_id t # seen) ms)"
    using one_per_tenant_usable [of _ _ "t_id t # seen" ms] by fastforce
  with 2 show ?case by simp
qed simp

text \<open>Who can enter what: an active, accepted member of a usable organisation, once each.\<close>

lemma memberships_mem:
  assumes "(u, t) \<in> set (memberships order aid db)"
  shows "u \<in> set (users db)" "u_account_id u = Some aid" "u_is_active u" "\<not> u_invitation_pending u"
    "get_row t_id (u_tenant_id u) (tenants db) = Some t" "is_usable t"
proof -
  have "(u, t) \<in> set (joined_tenants (is_membership_of aid) db)"
    using one_per_tenant_sub [OF assms [unfolded memberships_def]] by simp
  then show "u \<in> set (users db)" "u_account_id u = Some aid" "u_is_active u" "\<not> u_invitation_pending u"
    "get_row t_id (u_tenant_id u) (tenants db) = Some t"
    by (simp_all add: joined_tenants_mem is_membership_of_def)
  show "is_usable t" using one_per_tenant_usable [OF assms [unfolded memberships_def]] by simp
qed

lemma personal_mem: "personal options = Some m \<Longrightarrow> m \<in> set options"
  by (auto simp: personal_def find_Some_iff in_set_conv_nth)

section \<open>Facts about phone numbers\<close>

lemma set_rev_remdups [simp]: "set (rev (remdups (rev xs))) = set xs"
  by simp

lemma filter_digits: "list_all is_digit s \<Longrightarrow> filter is_digit s = s"
  by (induction s) auto

definition georgian_mobile :: "string \<Rightarrow> bool" where
  "georgian_mobile d \<longleftrightarrow> length d = 9 \<and> list_all is_digit d \<and> starts_with d ''5''"

lemma local_number_forms:
  assumes "georgian_mobile d" and "digits \<in> {d, CHR ''0'' # d, ''995'' @ d}"
  shows "local_number digits = d" and "6 \<le> length digits"
  using assms by (auto simp: georgian_mobile_def local_number_def starts_with_def Let_def)

lemma phone_variants_forms:
  assumes "georgian_mobile d" and "filter is_digit (strip raw) \<in> {d, CHR ''0'' # d, ''995'' @ d}"
  shows "{d, CHR ''0'' # d, ''995'' @ d, ''+995'' @ d} \<subseteq> set (phone_variants raw)"
proof -
  let ?digits = "filter is_digit (strip raw)"
  note local = local_number_forms [OF assms]
  have "phone_variants raw = rev (remdups (rev [strip raw, ?digits, d, CHR ''0'' # d, ''+995'' @ d, ''995'' @ d]))"
    using assms(1) local by (simp add: phone_variants_def Let_def georgian_mobile_def del: remdups.simps rev.simps)
  then have "set (phone_variants raw) = {strip raw, ?digits, d, CHR ''0'' # d, ''+995'' @ d, ''995'' @ d}"
    by (simp only: set_rev_remdups list.set)
  then show ?thesis by simp
qed

section \<open>Facts about handles\<close>

lemma unique_slug_fresh:
  assumes "unique_slug fold_name name db = Inr slug"
  shows "slug \<notin> t_slug ` set (tenants db)"
proof -
  define base where "base = slug_candidate fold_name name"
  define taken where "taken = filter (\<lambda>s. s = base \<or> starts_with s (base @ ''-'')) (map t_slug (tenants db))"
  define ns where "ns = [2..<1000::nat]"
  have slug: "(if base \<notin> set taken then Inr base
      else case find (\<lambda>n. base @ ''-'' @ show_nat n \<notin> set taken) ns of
        Some n \<Rightarrow> Inr (base @ ''-'' @ show_nat n)
      | None \<Rightarrow> Inl (ConflictError ''Could not allocate an organisation handle. Try a different name.'')) = Inr slug"
    using assms unfolding unique_slug_def Let_def base_def taken_def ns_def .
  have own: "slug = base \<or> starts_with slug (base @ ''-'')"
    using slug by (auto simp: starts_with_def split: if_split_asm option.splits)
  have "slug \<notin> set taken"
    using slug by (auto simp: find_Some_iff split: if_split_asm option.splits)
  with own show ?thesis by (auto simp: taken_def)
qed

end
