(* ===== verification/SignIn.thy ===== *)
theory SignIn
  imports Accounts
begin

text \<open>
  Signing in and everything around it (\<^verbatim>\<open>api/v1/auth.py\<close>, \<^verbatim>\<open>api/v1/mfa.py\<close>): the two steps
  of a sign-in, the organisation switcher, the second factor, sign-up, confirming an address,
  and setting, changing and resetting a password. A handler returns its answer and the state it
  leaves: a refusal that commits nothing leaves the state as it was, but for the counters, which
  are not part of the transaction, and for the attempts that are committed before refusing.
\<close>

section \<open>What the handlers are given\<close>

datatype password_check = ACCEPTED "string option" | DENIED | UNAVAILABLE

text \<open>What suliko.ge answers at the moment of the request.\<close>

record backend =
  bk_enabled :: bool
  bk_check_password :: "string \<Rightarrow> string \<Rightarrow> password_check"
  bk_get_user :: "string \<Rightarrow> suliko_user option result"
  bk_redeem :: "string \<Rightarrow> string \<Rightarrow> string \<Rightarrow> suliko_user option result"

text \<open>The libraries and keys, and the database's order of names.\<close>

record tools =
  tl_cfg :: settings
  tl_hashing :: hashing
  tl_hash_token :: "string \<Rightarrow> string"
  tl_key :: ticket_key
  tl_otp :: "string \<Rightarrow> int \<Rightarrow> string"
  tl_name_order :: "string \<Rightarrow> int"
  tl_ascii_fold :: "string \<Rightarrow> string"

type_synonym 'a answer = "'a result \<times> platform"

definition then_answer :: "'a answer \<Rightarrow> ('a \<Rightarrow> platform \<Rightarrow> 'b answer) \<Rightarrow> 'b answer" where
  "then_answer r f = (case r of (Inl e, p) \<Rightarrow> (Inl e, p) | (Inr x, p) \<Rightarrow> f x p)"

text \<open>A transaction over the rows: an error rolls it back.\<close>

definition transact :: "('a \<times> platform) result \<Rightarrow> platform \<Rightarrow> 'a answer" where
  "transact r p = (case r of Inl e \<Rightarrow> (Inl e, p) | Inr (x, p') \<Rightarrow> (Inr x, p'))"

definition with_limiter :: "(limiter \<Rightarrow> limiter) \<Rightarrow> platform \<Rightarrow> platform" where
  "with_limiter f p = p\<lparr>pf_limiter := f (pf_limiter p)\<rparr>"

text \<open>A check of the counters, and the refusal it can make.\<close>

definition limited :: "string \<Rightarrow> (limiter \<Rightarrow> int option \<times> limiter) \<Rightarrow> platform \<Rightarrow> unit answer" where
  "limited message check p =
     (case check (pf_limiter p) of
        (Some wait, l) \<Rightarrow> (Inl (RateLimitedError message wait), p\<lparr>pf_limiter := l\<rparr>)
      | (None, l) \<Rightarrow> (Inr (), p\<lparr>pf_limiter := l\<rparr>))"

definition record_attempt :: "request \<Rightarrow> string \<Rightarrow> bool \<Rightarrow> string option \<Rightarrow> platform \<Rightarrow> platform" where
  "record_attempt rq username succeeded reason p = p\<lparr>pf_attempts := pf_attempts p @
     [\<lparr>la_username = take 100 username, la_ip = rq_ip rq, la_user_agent = nonempty_prefix (rq_user_agent rq),
       la_succeeded = succeeded, la_failure_reason = reason\<rparr>]\<rparr>"

definition or_unknown :: "string option \<Rightarrow> string" where
  "or_unknown ip = or_default (or_blank ip) ''unknown''"

text \<open>What the payloads' length constraints let through; anything else is the same refusal.\<close>

definition text_ok :: "nat \<Rightarrow> nat \<Rightarrow> string \<Rightarrow> bool" where
  "text_ok least most s \<longleftrightarrow> least \<le> length s \<and> length s \<le> most"

definition invalid_payload :: api_error where
  "invalid_payload = ValidationError ''Request validation failed.''"

definition checked :: "bool \<Rightarrow> 'a answer \<Rightarrow> platform \<Rightarrow> 'a answer" where
  "checked ok r p = (if ok then r else (Inl invalid_payload, p))"

text \<open>\<^verbatim>\<open>separator.join(words)\<close>.\<close>

fun separated :: "string \<Rightarrow> string list \<Rightarrow> string" where
  "separated separator [] = []"
| "separated separator [w] = w"
| "separated separator (w # v # ws) = w @ separator @ separated separator (v # ws)"

section \<open>Accounts that asked to be deleted\<close>

definition open_request :: "int \<Rightarrow> platform \<Rightarrow> deletion_request option" where
  "open_request aid p =
     find (\<lambda>r. dr_account_id r = aid \<and> dr_status r \<in> OPEN_DELETION_STATUSES) (pf_deletions p)"

definition ensure_not_pending_deletion :: "int \<Rightarrow> platform \<Rightarrow> unit result" where
  "ensure_not_pending_deletion aid p =
     (if open_request aid p \<noteq> None
      then Inl (AccountDeletionPendingError ''This account is closed because its deletion was requested.'')
      else Inr ())"

section \<open>The chooser\<close>

record org_choice =
  oc_slug :: string
  oc_name :: string
  oc_role :: role
  oc_is_personal :: bool

record login_options =
  lo_ticket :: string
  lo_email :: "string option"
  lo_login :: string
  lo_full_name :: string
  lo_organizations :: "org_choice list"
  lo_personal :: "org_choice option"

definition choice_of :: "membership \<Rightarrow> org_choice" where
  "choice_of m = (case m of (u, t) \<Rightarrow>
     \<lparr>oc_slug = t_slug t, oc_name = t_display_name t, oc_role = u_role u, oc_is_personal = t_is_personal t\<rparr>)"

definition choices :: "tools \<Rightarrow> int \<Rightarrow> platform \<Rightarrow> org_choice list \<times> org_choice option" where
  "choices env aid p =
     (let options = memberships (tl_name_order env) aid (pf_db p); own = personal options
      in (map choice_of (filter (\<lambda>m. Some m \<noteq> own) options), map_option choice_of own))"

definition options_for :: "tools \<Rightarrow> account \<Rightarrow> string \<Rightarrow> platform \<Rightarrow> login_options" where
  "options_for env a ticket p =
     (case choices env (a_id a) p of (organizations, own) \<Rightarrow>
        \<lparr>lo_ticket = ticket, lo_email = a_email a, lo_login = login_name a, lo_full_name = a_full_name a,
         lo_organizations = organizations, lo_personal = own\<rparr>)"

section \<open>Step one\<close>

text \<open>The account of a person suliko.ge has vouched for; \<open>known\<close> is what it already said of them.\<close>

definition account_for_suliko_user ::
    "tools \<Rightarrow> backend \<Rightarrow> instant \<Rightarrow> string \<Rightarrow> suliko_user option \<Rightarrow> platform \<Rightarrow> (account \<times> platform) result" where
  "account_for_suliko_user env bk now suliko_id known p =
     (case find_account_by_suliko_id suliko_id (pf_db p) of
        Some a \<Rightarrow> Inr (a, p)
      | None \<Rightarrow>
          bind_result (case known of Some s \<Rightarrow> Inr (Some s) | None \<Rightarrow> bk_get_user bk suliko_id) (\<lambda>found.
            case found of
              None \<Rightarrow> Inl (UpstreamUnavailableError ''Sign-in is unavailable right now. Try again in a minute.'')
            | Some s \<Rightarrow> upsert_from_suliko now s p))"

text \<open>Who a login and a password belong to, and whether suliko.ge could not be asked.\<close>

definition authenticate ::
    "tools \<Rightarrow> backend \<Rightarrow> instant \<Rightarrow> string \<Rightarrow> string \<Rightarrow> platform \<Rightarrow> ((account option \<times> bool) \<times> platform) result" where
  "authenticate env bk now login password p =
     (let check = (if bk_enabled bk then Some (bk_check_password bk login password) else None);
          locally = (case find_account_by_login login (pf_db p) of
            Some a \<Rightarrow>
              if a_suliko_user_id a = None
              then (case verify_and_maybe_rehash (tl_hashing env) password (a_password_hash a) of
                      (True, new_hash) \<Rightarrow>
                        (case new_hash of
                           None \<Rightarrow> Inr ((Some a, False), p)
                         | Some h \<Rightarrow> let a' = a\<lparr>a_password_hash := h\<rparr>
                                     in Inr ((Some a', False), on_db (store_account a') p))
                    | (False, _) \<Rightarrow> Inr ((None, check = Some UNAVAILABLE), p))
              else Inr ((None, check = Some UNAVAILABLE), p)
          | None \<Rightarrow> Inr ((None, check = Some UNAVAILABLE), p))
      in case check of
           Some (ACCEPTED (Some i)) \<Rightarrow>
             if i = [] then locally
             else bind_result (account_for_suliko_user env bk now i None p) (\<lambda>(a, p'). Inr ((Some a, False), p'))
         | _ \<Rightarrow> locally)"

definition bad_login :: api_error where
  "bad_login = AuthenticationError ''Invalid email, phone or password.''"

definition account_key :: "string \<Rightarrow> string" where
  "account_key login = ''login:acct:'' @ lower login"

definition ip_key :: "string option \<Rightarrow> string" where
  "ip_key ip = ''login:ip:'' @ or_unknown ip"

text \<open>Refused after the password was proved: committed as a failed attempt, and not counted.\<close>

definition refuse_if_deletion_pending :: "request \<Rightarrow> account \<Rightarrow> string \<Rightarrow> platform \<Rightarrow> unit answer" where
  "refuse_if_deletion_pending rq a name p =
     (case ensure_not_pending_deletion (a_id a) p of
        Inl e \<Rightarrow> (Inl e, record_attempt rq name False (Some ''deletion_pending'') p)
      | Inr _ \<Rightarrow> (Inr (), p))"

definition let_in :: "tools \<Rightarrow> request \<Rightarrow> account \<Rightarrow> string \<Rightarrow> string option \<Rightarrow> platform \<Rightarrow> login_options answer" where
  "let_in env rq a name cleared p =
     then_answer (refuse_if_deletion_pending rq a name p) (\<lambda>_ p1.
       let p2 = record_attempt rq name True None p1;
           p3 = (case cleared of None \<Rightarrow> p2 | Some key \<Rightarrow> with_limiter (clear_count key) p2)
       in (Inr (options_for env a (issue_ticket (tl_key env) (rq_now rq) (a_id a) (a_password_hash a)) p3), p3))"

definition login_payload_ok :: "string option \<Rightarrow> string option \<Rightarrow> string \<Rightarrow> bool" where
  "login_payload_ok identifier email password \<longleftrightarrow>
     (case identifier of None \<Rightarrow> True | Some s \<Rightarrow> text_ok 1 255 s) \<and>
     (case email of None \<Rightarrow> True | Some s \<Rightarrow> text_ok 1 255 s) \<and>
     text_ok 1 1024 password \<and> strip (or_else_text identifier email) \<noteq> []"

definition login :: "tools \<Rightarrow> backend \<Rightarrow> request \<Rightarrow> string option \<Rightarrow> string option \<Rightarrow> string \<Rightarrow> platform \<Rightarrow> login_options answer" where
  "login env bk rq identifier email password p =
     checked (login_payload_ok identifier email password)
       (let login_text = strip (or_else_text identifier email);
            akey = account_key login_text; ikey = ip_key (rq_ip rq)
        in then_answer (limited ''Too many attempts. Try again later.'' (check_login (tl_cfg env) akey ikey (rq_now rq)) p)
           (\<lambda>_ p1. then_answer (transact (authenticate env bk (rq_now rq) login_text password p1) p1)
             (\<lambda>(found, unavailable) p2.
                if unavailable
                  then (Inl (UpstreamUnavailableError ''Sign-in is temporarily unavailable. Try again in a minute.''),
                        record_attempt rq (lower login_text) False (Some ''upstream_unavailable'') p2)
                else case found of
                  None \<Rightarrow> (Inl bad_login,
                     record_attempt rq (lower login_text) False (Some ''bad_credentials'')
                       (with_limiter (record_login_failure (tl_cfg env) akey ikey (rq_now rq)) p2))
                | Some a \<Rightarrow> let_in env rq a (lower login_text) (Some akey) p2))) p"

definition sso_key :: "string option \<Rightarrow> string" where
  "sso_key ip = ''login:sso:'' @ or_unknown ip"

definition sso_exchange :: "tools \<Rightarrow> backend \<Rightarrow> request \<Rightarrow> string \<Rightarrow> string \<Rightarrow> string \<Rightarrow> platform \<Rightarrow> login_options answer" where
  "sso_exchange env bk rq code verifier redirect_uri p =
     checked (text_ok 1 200 code \<and> text_ok 43 128 verifier \<and> text_ok 1 500 redirect_uri)
       (let ckey = sso_key (rq_ip rq); ikey = ip_key (rq_ip rq)
        in then_answer (limited ''Too many attempts. Try again later.'' (check_login (tl_cfg env) ckey ikey (rq_now rq)) p)
           (\<lambda>_ p1.
              case bind_result (bk_redeem bk code verifier redirect_uri) (\<lambda>found.
                     case found of
                       None \<Rightarrow> Inr (None, p1)
                     | Some s \<Rightarrow> bind_result (account_for_suliko_user env bk (rq_now rq) (su_id s) (Some s) p1)
                                   (\<lambda>(a, p'). Inr (Some a, p'))) of
                Inl (UpstreamUnavailableError m) \<Rightarrow>
                  (Inl (UpstreamUnavailableError m),
                   record_attempt rq ''suliko.ge'' False (Some ''upstream_unavailable'') p1)
              | Inl e \<Rightarrow> (Inl e, p1)
              | Inr (None, p2) \<Rightarrow>
                  (Inl ticket_error,
                   record_attempt rq ''suliko.ge'' False (Some ''bad_sso_code'')
                     (with_limiter (record_login_failure (tl_cfg env) ckey ikey (rq_now rq)) p2))
              | Inr (Some a, p2) \<Rightarrow> let_in env rq a (login_name a) None p2)) p"

section \<open>Step two\<close>

definition account_from_ticket :: "tools \<Rightarrow> instant \<Rightarrow> string \<Rightarrow> platform \<Rightarrow> account result" where
  "account_from_ticket env now ticket p =
     bind_result (read_ticket (tl_key env) now ticket) (\<lambda>aid.
       case get_row a_id aid (accounts (pf_db p)) of
         None \<Rightarrow> Inl ticket_error
       | Some a \<Rightarrow>
           if \<not> matches_ticket (tl_key env) ticket (a_password_hash a) then Inl ticket_error
           else bind_result (ensure_not_pending_deletion (a_id a) p) (\<lambda>_. Inr a))"

definition login_options_again :: "tools \<Rightarrow> request \<Rightarrow> string \<Rightarrow> platform \<Rightarrow> login_options result" where
  "login_options_again env rq ticket p =
     (if \<not> text_ok 1 300 ticket then Inl invalid_payload
      else bind_result (account_from_ticket env (rq_now rq) ticket p) (\<lambda>a. Inr (options_for env a ticket p)))"

definition resolve_choice ::
    "tools \<Rightarrow> request \<Rightarrow> account \<Rightarrow> string option \<Rightarrow> bool \<Rightarrow> bool option \<Rightarrow> platform
     \<Rightarrow> (membership \<times> platform) result" where
  "resolve_choice env rq a slug want_personal accepts p =
     (let options = memberships (tl_name_order env) (a_id a) (pf_db p)
      in if want_personal
         then (case personal options of
                 Some own \<Rightarrow> Inr (own, p)
               | None \<Rightarrow>
                   bind_result (create_personal_workspace (tl_cfg env) (tl_ascii_fold env) (rq_now rq) a accepts p)
                     (\<lambda>(own, p1).
                        let p2 = log_for_tenant (t_id (snd own)) ''tenant.personal_created'' ''tenant'' (t_id (snd own)) p1
                        in Inr (own, if or_blank (a_email a) = [] then p2
                                     else send_mail (or_blank (a_email a)) Personal_enabled p2)))
         else (case find (\<lambda>(u, t). t_slug t = lower (strip (or_blank slug))) options of
                 Some m \<Rightarrow> Inr (m, p)
               | None \<Rightarrow> Inl (NotFoundError ''You do not have access to that organisation.'')))"

record login_response =
  lr_session_token :: string
  lr_mfa_required :: bool
  lr_mfa_enrolment_required :: bool
  lr_must_change_password :: bool
  lr_user_id :: int
  lr_tenant_id :: int
  lr_tenant_slug :: string
  lr_role :: role
  lr_permissions :: "permission set"

definition challenge_owed :: "settings \<Rightarrow> id_db \<Rightarrow> int \<Rightarrow> bool" where
  "challenge_owed cfg db uid \<longleftrightarrow> mfa_enforced cfg \<and> has_confirmed_mfa db uid"

definition enrolment_required :: "settings \<Rightarrow> id_db \<Rightarrow> user \<Rightarrow> bool" where
  "enrolment_required cfg db u \<longleftrightarrow>
     mfa_require_enrolment cfg \<and> (mfa_enforced cfg \<and> requires_mfa (u_role u)) \<and> \<not> has_confirmed_mfa db (u_id u)"

definition stamp_login :: "instant \<Rightarrow> int \<Rightarrow> int \<Rightarrow> id_db \<Rightarrow> id_db" where
  "stamp_login now uid aid db = db\<lparr>
     users := update_where (\<lambda>u. u_id u = uid) (\<lambda>u. u\<lparr>u_last_login_at := Some now\<rparr>) (users db),
     accounts := update_where (\<lambda>a. a_id a = aid) (\<lambda>a. a\<lparr>a_last_login_at := Some now\<rparr>) (accounts db)\<rparr>"

definition start_session ::
    "tools \<Rightarrow> request \<Rightarrow> string \<Rightarrow> membership \<Rightarrow> account \<Rightarrow> platform \<Rightarrow> (login_response \<times> platform) result" where
  "start_session env rq token m a p =
     bind_result (ensure_not_pending_deletion (a_id a) p) (\<lambda>_.
       case m of (u, t) \<Rightarrow> (case fresh p of (sid, p1) \<Rightarrow>
         let cfg = tl_cfg env; db = pf_db p1;
             owed = challenge_owed cfg db (u_id u); enrol = enrolment_required cfg db u;
             db1 = snd (create_session cfg (tl_hash_token env) (rq_now rq) sid token u (rq_ip rq)
                          (rq_user_agent rq) (\<not> (owed \<or> enrol)) None None db)
         in Inr (\<lparr>lr_session_token = token, lr_mfa_required = owed, lr_mfa_enrolment_required = enrol,
                  lr_must_change_password = a_must_change_password a, lr_user_id = u_id u,
                  lr_tenant_id = u_tenant_id u, lr_tenant_slug = t_slug t, lr_role = u_role u,
                  lr_permissions = effective_permissions (u_role u) (effective_plan (t_plan t))
                    (overrides_of (permission_overrides db) (u_id u))\<rparr>,
                 p1\<lparr>pf_db := stamp_login (rq_now rq) (u_id u) (a_id a) db1\<rparr>)))"

definition login_select ::
    "tools \<Rightarrow> request \<Rightarrow> string \<Rightarrow> string \<Rightarrow> string option \<Rightarrow> bool \<Rightarrow> bool option \<Rightarrow> platform \<Rightarrow> login_response answer" where
  "login_select env rq token ticket slug want_personal accepts p =
     checked (text_ok 1 300 ticket \<and> text_ok 0 63 (or_blank slug))
       (transact (bind_result (account_from_ticket env (rq_now rq) ticket p) (\<lambda>a.
         bind_result (resolve_choice env rq a slug want_personal accepts p) (\<lambda>(m, p1).
           start_session env rq token m a p1))) p) p"

definition found_bureau ::
    "tools \<Rightarrow> request \<Rightarrow> account \<Rightarrow> string \<Rightarrow> platform \<Rightarrow> (membership \<times> platform) result" where
  "found_bureau env rq a name p =
     bind_result (create_bureau (tl_cfg env) (tl_ascii_fold env) (rq_now rq) a name (Some BUREAU) p) (\<lambda>(m, p1).
       Inr (m, log_for_tenant (t_id (snd m)) ''tenant.bureau_created'' ''tenant'' (t_id (snd m)) p1))"

definition organisation_name_ok :: "string \<Rightarrow> bool" where
  "organisation_name_ok name \<longleftrightarrow> text_ok 2 255 name"

definition login_create_bureau :: "tools \<Rightarrow> request \<Rightarrow> string \<Rightarrow> string \<Rightarrow> string \<Rightarrow> platform \<Rightarrow> login_response answer" where
  "login_create_bureau env rq token ticket name p =
     checked (text_ok 1 300 ticket \<and> organisation_name_ok name)
       (transact (bind_result (account_from_ticket env (rq_now rq) ticket p) (\<lambda>a.
         bind_result (found_bureau env rq a name p) (\<lambda>(m, p1). start_session env rq token m a p1))) p) p"

section \<open>The switcher\<close>

definition account_of_session :: "auth_session \<Rightarrow> platform \<Rightarrow> account result" where
  "account_of_session session p =
     (case as_account_id session of
        None \<Rightarrow> Inl (ValidationError ''This sign-in is not linked to an account.'')
      | Some aid \<Rightarrow>
          (case get_row a_id aid (accounts (pf_db p)) of
             None \<Rightarrow> Inl (AuthenticationError ''Your account is no longer available.'')
           | Some a \<Rightarrow> Inr a))"

definition enter_instead ::
    "tools \<Rightarrow> request \<Rightarrow> string \<Rightarrow> auth_session \<Rightarrow> account \<Rightarrow> (membership \<times> platform) result
     \<Rightarrow> (login_response \<times> platform) result" where
  "enter_instead env rq token session a entered =
     bind_result entered (\<lambda>(m, p1). bind_result (start_session env rq token m a p1) (\<lambda>(r, p2).
       Inr (r, on_db (revoke_session (rq_now rq) (as_session_id session)) p2)))"

definition switch_organisation ::
    "tools \<Rightarrow> request \<Rightarrow> string \<Rightarrow> auth_session \<Rightarrow> string option \<Rightarrow> bool \<Rightarrow> platform \<Rightarrow> login_response answer" where
  "switch_organisation env rq token session slug want_personal p =
     checked (text_ok 0 63 (or_blank slug))
       (transact (bind_result (account_of_session session p) (\<lambda>a.
         enter_instead env rq token session a (resolve_choice env rq a slug want_personal None p))) p) p"

definition create_organisation ::
    "tools \<Rightarrow> request \<Rightarrow> string \<Rightarrow> auth_session \<Rightarrow> string \<Rightarrow> platform \<Rightarrow> login_response answer" where
  "create_organisation env rq token session name p =
     checked (organisation_name_ok name)
       (transact (bind_result (account_of_session session p) (\<lambda>a.
         enter_instead env rq token session a (found_bureau env rq a name p))) p) p"

definition logout :: "request \<Rightarrow> auth_session \<Rightarrow> platform \<Rightarrow> platform" where
  "logout rq session = on_db (revoke_session (rq_now rq) (as_session_id session))"

section \<open>The second factor\<close>

definition confirmed_method :: "int \<Rightarrow> id_db \<Rightarrow> mfa_method option" where
  "confirmed_method uid db = find (\<lambda>m. mm_user_id m = uid \<and> mm_confirmed_at m \<noteq> None) (mfa_methods db)"

definition mfa_key :: "int \<Rightarrow> string" where "mfa_key uid = ''mfa:'' @ show_int uid"

definition bad_code :: api_error where "bad_code = AuthenticationError ''Invalid code.''"

fun update_first :: "('r \<Rightarrow> bool) \<Rightarrow> ('r \<Rightarrow> 'r) \<Rightarrow> 'r list \<Rightarrow> 'r list" where
  "update_first P f [] = []"
| "update_first P f (r # rs) = (if P r then f r # rs else r # update_first P f rs)"

definition unused_code :: "int \<Rightarrow> string \<Rightarrow> recovery_code \<Rightarrow> bool" where
  "unused_code uid digest c \<longleftrightarrow> rc_user_id c = uid \<and> rc_code_hash c = digest \<and> rc_used_at c = None"

definition use_recovery_code :: "instant \<Rightarrow> int \<Rightarrow> string \<Rightarrow> id_db \<Rightarrow> id_db option" where
  "use_recovery_code now uid digest db =
     (if \<exists>c \<in> set (recovery_codes db). unused_code uid digest c
      then Some (db\<lparr>recovery_codes :=
        update_first (unused_code uid digest) (\<lambda>c. c\<lparr>rc_used_at := Some now\<rparr>) (recovery_codes db)\<rparr>)
      else None)"

definition use_step :: "int \<Rightarrow> int \<Rightarrow> id_db \<Rightarrow> id_db" where
  "use_step mid n db = db\<lparr>mfa_methods :=
     update_where (\<lambda>m. mm_id m = mid) (\<lambda>m. m\<lparr>mm_last_used_timestep := Some n\<rparr>) (mfa_methods db)\<rparr>"

text \<open>
  \<^verbatim>\<open>_prove\<close>: a current code, or an unused recovery code; \<open>verify_mfa\<close> does the same and then
  stamps the session. A wrong code is counted, a time-based one that is right clears the count.
\<close>

definition prove_code :: "tools \<Rightarrow> instant \<Rightarrow> int \<Rightarrow> mfa_method \<Rightarrow> string \<Rightarrow> platform \<Rightarrow> unit answer" where
  "prove_code env now uid m raw p =
     (let code = strip raw; key = mfa_key uid;
          failed = (Inl bad_code, with_limiter (record_mfa_failure (tl_cfg env) key now) p)
      in if CHR ''-'' \<in> set code
         then (case use_recovery_code now uid (tl_hash_token env (normalise_recovery_code code)) (pf_db p) of
                 None \<Rightarrow> failed
               | Some db \<Rightarrow> (Inr (), p\<lparr>pf_db := db\<rparr>))
         else (case verify_code (tl_otp env) (mm_secret m) code (mm_last_used_timestep m) now of
                 Totp_ok n \<Rightarrow> (Inr (), with_limiter (clear_count key) (on_db (use_step (mm_id m) n) p))
               | _ \<Rightarrow> failed))"

definition code_length_ok :: "string \<Rightarrow> bool" where
  "code_length_ok code \<longleftrightarrow> text_ok 6 11 code"

definition limit_codes :: "tools \<Rightarrow> instant \<Rightarrow> int \<Rightarrow> platform \<Rightarrow> unit answer" where
  "limit_codes env now uid =
     limited ''Too many codes. Try again shortly.'' (check_mfa (tl_cfg env) (mfa_key uid) now)"

definition verify_mfa :: "tools \<Rightarrow> request \<Rightarrow> auth_session \<Rightarrow> string \<Rightarrow> platform \<Rightarrow> permission set answer" where
  "verify_mfa env rq session code p =
     (if \<not> code_length_ok code then (Inl invalid_payload, p)
      else then_answer (limit_codes env (rq_now rq) (as_user_id session) p) (\<lambda>_ p1.
        case confirmed_method (as_user_id session) (pf_db p1) of
          None \<Rightarrow> (Inl (ValidationError ''No second factor is enrolled for this account.''), p1)
        | Some m \<Rightarrow> then_answer (prove_code env (rq_now rq) (as_user_id session) m code p1) (\<lambda>_ p2.
            (Inr (as_permissions session), on_db (mark_mfa_satisfied (rq_now rq) (as_session_id session)) p2))))"

definition role_requires_it :: "settings \<Rightarrow> auth_session \<Rightarrow> bool" where
  "role_requires_it cfg session \<longleftrightarrow> mfa_enforced cfg \<and> mfa_require_enrolment cfg \<and> requires_mfa (as_role session)"

definition enrolling_session :: "settings \<Rightarrow> auth_session \<Rightarrow> auth_session result" where
  "enrolling_session cfg s =
     (if as_must_change_password s
        then Inl (PasswordChangeRequiredError ''Set your own password before continuing.'')
      else if as_mfa_satisfied_at s = None \<and> mfa_enforced cfg \<and> as_has_mfa s
        then Inl (MfaRequiredError ''Two-factor authentication is required to continue.'')
      else Inr s)"

definition signed_in :: "settings \<Rightarrow> auth_session \<Rightarrow> auth_session result" where
  "signed_in cfg s =
     (if as_must_change_password s
        then Inl (PasswordChangeRequiredError ''Set your own password before continuing.'')
      else if as_mfa_satisfied_at s = None \<and> mfa_enforced cfg
        then Inl (MfaRequiredError ''Two-factor authentication is required to continue.'')
      else Inr s)"

definition log_user :: "auth_session \<Rightarrow> string \<Rightarrow> platform \<Rightarrow> platform" where
  "log_user session action = on_db (log_audit session action ''user'' (as_user_id session))"

definition fresh_recovery_codes :: "tools \<Rightarrow> int \<Rightarrow> string list \<Rightarrow> id_db \<Rightarrow> id_db" where
  "fresh_recovery_codes env uid codes db = db\<lparr>recovery_codes :=
     filter (\<lambda>c. rc_user_id c \<noteq> uid) (recovery_codes db) @
     map (\<lambda>c. \<lparr>rc_user_id = uid, rc_code_hash = tl_hash_token env (normalise_recovery_code c), rc_used_at = None\<rparr>)
       codes\<rparr>"

definition mfa_status :: "settings \<Rightarrow> auth_session \<Rightarrow> platform \<Rightarrow> (bool \<times> nat \<times> bool) result" where
  "mfa_status cfg session p =
     bind_result (signed_in cfg session) (\<lambda>s.
       let on = confirmed_method (as_user_id s) (pf_db p) \<noteq> None
       in Inr (on,
               if on then length (filter (\<lambda>c. rc_user_id c = as_user_id s \<and> rc_used_at c = None) (recovery_codes (pf_db p)))
               else 0,
               \<not> role_requires_it cfg s))"

definition enrol :: "settings \<Rightarrow> string \<Rightarrow> auth_session \<Rightarrow> platform \<Rightarrow> string answer" where
  "enrol cfg secret session p =
     transact (bind_result (enrolling_session cfg session) (\<lambda>s.
       if confirmed_method (as_user_id s) (pf_db p) \<noteq> None
       then Inl (ConflictError ''Two-factor authentication is already on. Turn it off first to move it to a new device.'')
       else case fresh p of (mid, p1) \<Rightarrow>
         Inr (secret, on_db (\<lambda>db. db\<lparr>mfa_methods :=
           filter (\<lambda>m. \<not> (mm_user_id m = as_user_id s \<and> mm_confirmed_at m = None)) (mfa_methods db) @
           [\<lparr>mm_id = mid, mm_user_id = as_user_id s, mm_secret = secret, mm_confirmed_at = None,
             mm_last_used_timestep = None\<rparr>]\<rparr>) p1))) p"

text \<open>The latest unconfirmed method: rows are in the order of their ids.\<close>

definition pending_method :: "int \<Rightarrow> id_db \<Rightarrow> mfa_method option" where
  "pending_method uid db = find (\<lambda>m. mm_user_id m = uid \<and> mm_confirmed_at m = None) (rev (mfa_methods db))"

definition mfa_confirm ::
    "tools \<Rightarrow> request \<Rightarrow> string list \<Rightarrow> auth_session \<Rightarrow> string \<Rightarrow> platform \<Rightarrow> string list answer" where
  "mfa_confirm env rq raws session code p =
     (let uid = as_user_id session
      in then_answer (transact (bind_result (enrolling_session (tl_cfg env) session) (\<lambda>_.
           if \<not> code_length_ok code then Inl invalid_payload
           else if confirmed_method uid (pf_db p) \<noteq> None
             then Inl (ConflictError ''Two-factor authentication is already on.'')
           else case pending_method uid (pf_db p) of
             None \<Rightarrow> Inl (ValidationError ''Start enrolment first.'')
           | Some m \<Rightarrow>
               if CHR ''-'' \<in> set code
               then Inl (ValidationError ''Enter the 6-digit code from your authenticator app.'')
               else Inr (m, p))) p) (\<lambda>m p1.
         then_answer (limit_codes env (rq_now rq) uid p1) (\<lambda>_ p2.
         then_answer (prove_code env (rq_now rq) uid m code p2) (\<lambda>_ p3.
           let codes = map recovery_code_of raws;
               turn_on = (\<lambda>db. db\<lparr>mfa_methods :=
                 update_where (\<lambda>r. mm_id r = mm_id m) (\<lambda>r. r\<lparr>mm_confirmed_at := Some (rq_now rq)\<rparr>) (mfa_methods db)\<rparr>)
           in (Inr codes, log_user session ''user.mfa_enabled''
                 (on_db (\<lambda>db. mark_mfa_satisfied (rq_now rq) (as_session_id session)
                    (fresh_recovery_codes env uid codes (turn_on db))) p3))))))"

text \<open>What the two remaining operations ask for first: a factor that is on, and a code.\<close>

definition with_factor ::
    "tools \<Rightarrow> request \<Rightarrow> auth_session \<Rightarrow> string \<Rightarrow> platform \<Rightarrow> unit answer" where
  "with_factor env rq session code p =
     (let uid = as_user_id session
      in case signed_in (tl_cfg env) session of
           Inl e \<Rightarrow> (Inl e, p)
         | Inr _ \<Rightarrow>
             if \<not> code_length_ok code then (Inl invalid_payload, p)
             else case confirmed_method uid (pf_db p) of
               None \<Rightarrow> (Inl (ValidationError ''Two-factor authentication is not on.''), p)
             | Some m \<Rightarrow> then_answer (limit_codes env (rq_now rq) uid p) (\<lambda>_ p1.
                 prove_code env (rq_now rq) uid m code p1))"

definition regenerate_recovery_codes ::
    "tools \<Rightarrow> request \<Rightarrow> string list \<Rightarrow> auth_session \<Rightarrow> string \<Rightarrow> platform \<Rightarrow> string list answer" where
  "regenerate_recovery_codes env rq raws session code p =
     then_answer (with_factor env rq session code p) (\<lambda>_ p1.
       let codes = map recovery_code_of raws
       in (Inr codes, log_user session ''user.mfa_recovery_regenerated''
             (on_db (fresh_recovery_codes env (as_user_id session) codes) p1)))"

definition mfa_disable :: "tools \<Rightarrow> request \<Rightarrow> auth_session \<Rightarrow> string \<Rightarrow> platform \<Rightarrow> unit answer" where
  "mfa_disable env rq session code p =
     (if role_requires_it (tl_cfg env) session \<and> signed_in (tl_cfg env) session = Inr session \<and> code_length_ok code
      then (Inl (ConflictError ''Your role requires two-factor authentication, so it cannot be switched off. To move it to a new phone, ask an administrator to reset it.''), p)
      else then_answer (with_factor env rq session code p) (\<lambda>_ p1.
        (Inr (), log_user session ''user.mfa_disabled''
           (on_db (\<lambda>db. db\<lparr>mfa_methods := filter (\<lambda>m. mm_user_id m \<noteq> as_user_id session) (mfa_methods db),
                           recovery_codes := filter (\<lambda>c. rc_user_id c \<noteq> as_user_id session) (recovery_codes db)\<rparr>) p1))))"

section \<open>Signing up\<close>

text \<open>
  Every organisation with a member at this address, however the member stands there. A bureau is
  named to the visitor; a freelancer, whose workspace bears their name, is not.
\<close>

definition holders :: "string \<Rightarrow> id_db \<Rightarrow> membership list" where
  "holders email db =
     sort_key (t_id \<circ> snd) (joined_tenants (\<lambda>u. map_option lower (u_email u) = Some email) db)"

definition existing_account :: "string option \<Rightarrow> string \<Rightarrow> string option" where
  "existing_account plan display_name = (if effective_plan plan = BUREAU then Some display_name else None)"

definition email_labels :: "string \<Rightarrow> id_db \<Rightarrow> string" where
  "email_labels email db = separated '', ''
     (map (case_option ''Freelancer'' id)
       (rev (remdups (rev (map (\<lambda>(u, t). existing_account (t_plan t) (t_display_name t)) (holders email db))))))"

definition email_taken :: "string \<Rightarrow> id_db \<Rightarrow> api_error option" where
  "email_taken email db =
     (if holders email db \<noteq> [] \<or> find_account email db \<noteq> None
      then Some (ConflictError (''An account with this email already exists: '' @ email_labels email db @ ''.''))
      else None)"

definition hours_of :: "int \<Rightarrow> int" where "hours_of n = n * 3600"

text \<open>The account, its bureau with the plan left open, a session, and a link to confirm the address.\<close>

definition sign_up ::
    "tools \<Rightarrow> request \<Rightarrow> string \<Rightarrow> string \<Rightarrow> string \<Rightarrow> string \<Rightarrow> string \<Rightarrow> string \<Rightarrow> platform
     \<Rightarrow> ((string \<times> string \<times> string) \<times> platform) result" where
  "sign_up env rq token link organisation_name full_name email password p =
     (let cfg = tl_cfg env; now = rq_now rq;
          a = \<lparr>a_id = pf_next p, a_email = Some email, a_phone = None, a_suliko_user_id = None,
               a_password_hash = ha_hash (tl_hashing env) password, a_full_name = strip full_name,
               a_must_change_password = False, a_email_verified_at = None,
               a_last_login_at = None, a_tips_seen = [], a_created_at = now\<rparr>;
          satisfied = (\<not> (mfa_enforced cfg \<and> mfa_require_enrolment cfg \<and> requires_mfa OWNER))
      in bind_result (add_account a (snd (fresh p))) (\<lambda>p1.
         bind_result (create_bureau cfg (tl_ascii_fold env) now a organisation_name None p1) (\<lambda>((u, t), p2).
           Inr ((token, t_slug t, username_for email),
                send_mail email (Verification_link link)
                  (log_for_tenant (t_id t) ''tenant.signed_up'' ''tenant'' (t_id t)
                    (on_db (\<lambda>db. snd (issue_token (tl_hash_token env) now link (u_id u)
                         (hours_of (email_verification_ttl_hours cfg)) EMAIL_VERIFICATION
                         (stamp_login now (u_id u) (a_id a)
                           (snd (create_session cfg (tl_hash_token env) now (pf_next p2) token u (rq_ip rq)
                              (rq_user_agent rq) satisfied None None db)))))
                       (snd (fresh p2))))))))"

definition signup ::
    "tools \<Rightarrow> request \<Rightarrow> string \<Rightarrow> string \<Rightarrow> string \<Rightarrow> string \<Rightarrow> string \<Rightarrow> string \<Rightarrow> platform \<Rightarrow> (string \<times> string \<times> string) answer" where
  "signup env rq token link organisation_name full_name raw_email password p =
     checked (organisation_name_ok organisation_name \<and> organisation_name_ok full_name \<and> text_ok 1 1024 password)
       (let cfg = tl_cfg env; now = rq_now rq; ikey = ''signup:ip:'' @ or_unknown (rq_ip rq);
            email = normalise_email raw_email
        in if \<not> signup_enabled cfg then (Inl (NotFoundError ''Sign-up is closed.''), p)
           else then_answer (limited ''Too many sign-ups from this address.'' (check_signup cfg ikey now) p) (\<lambda>_ p1.
             if validate_password_strength password \<noteq> []
               then (Inl (ValidationError (separated '' '' (validate_password_strength password))), p1)
             else let p2 = with_limiter (record_signup cfg ikey now) p1 in
               case email_taken email (pf_db p2) of
                 Some e \<Rightarrow> (Inl e, p2)
               | None \<Rightarrow>
                   transact (sign_up env rq token link organisation_name full_name email password p2) p2)) p"

section \<open>Confirming an address\<close>

definition verified_user :: "instant \<Rightarrow> int \<Rightarrow> id_db \<Rightarrow> id_db" where
  "verified_user now uid db = db\<lparr>users :=
     update_where (\<lambda>u. u_id u = uid \<and> u_email_verified_at u = None)
       (\<lambda>u. u\<lparr>u_email_verified_at := Some now\<rparr>) (users db)\<rparr>"

definition verified_account :: "instant \<Rightarrow> int \<Rightarrow> id_db \<Rightarrow> id_db" where
  "verified_account now aid db = db\<lparr>accounts :=
     update_where (\<lambda>a. a_id a = aid \<and> a_email_verified_at a = None)
       (\<lambda>a. a\<lparr>a_email_verified_at := Some now\<rparr>) (accounts db)\<rparr>"

definition spend :: "tools \<Rightarrow> request \<Rightarrow> string \<Rightarrow> string \<Rightarrow> platform \<Rightarrow> user option \<times> platform" where
  "spend env rq token purpose p =
     (case consume_token (tl_hash_token env) (rq_now rq) token purpose (pf_db p) of
        (u, db) \<Rightarrow> (u, p\<lparr>pf_db := db\<rparr>))"

definition token_length_ok :: "string \<Rightarrow> bool" where
  "token_length_ok token \<longleftrightarrow> text_ok 1 200 token"

definition verify_email :: "tools \<Rightarrow> request \<Rightarrow> string \<Rightarrow> platform \<Rightarrow> string answer" where
  "verify_email env rq token p =
     (if \<not> token_length_ok token then (Inl invalid_payload, p)
      else case spend env rq token EMAIL_VERIFICATION p of
        (None, _) \<Rightarrow> (Inl (ValidationError ''This confirmation link is no longer valid. Sign in and ask for a new one from your account page.''), p)
      | (Some u, p1) \<Rightarrow>
          (case get_row t_id (u_tenant_id u) (tenants (pf_db p1)) of
             None \<Rightarrow> (Inl (InternalError ''AssertionError''), p)
           | Some t \<Rightarrow>
               let p2 = on_db (verified_user (rq_now rq) (u_id u)) p1;
                   p3 = (case u_account_id u of
                           Some aid \<Rightarrow> if aid = 0 then p2 else on_db (verified_account (rq_now rq) aid) p2
                         | None \<Rightarrow> p2)
               in (Inr (t_slug t), log_for_tenant (u_tenant_id u) ''user.email_verified'' ''user'' (u_id u) p3)))"

definition resend_verification_email :: "tools \<Rightarrow> request \<Rightarrow> string \<Rightarrow> auth_session \<Rightarrow> platform \<Rightarrow> unit answer" where
  "resend_verification_email env rq link session p =
     (case get_member session (as_user_id session) (pf_db p) of
        None \<Rightarrow> (Inl (AuthenticationError ''Your account is no longer available.''), p)
      | Some u \<Rightarrow>
          if as_email_verified session \<or> or_blank (u_email u) = [] then (Inr (), p)
          else let cfg = tl_cfg env; key = ''emailverify:user:'' @ show_int (u_id u)
            in then_answer (limited ''Too many requests. Try again later.''
                              (check_email_verification_resend cfg key (rq_now rq)) p) (\<lambda>_ p1.
                 let p2 = with_limiter (record_email_verification_resend cfg key (rq_now rq)) p1;
                     p3 = on_db (\<lambda>db. snd (issue_token (tl_hash_token env) (rq_now rq) link (u_id u)
                            (hours_of (email_verification_ttl_hours cfg)) EMAIL_VERIFICATION db)) p2
                 in if get_row t_id (u_tenant_id u) (tenants (pf_db p2)) = None
                      then (Inl (InternalError ''AssertionError''), p2)
                    else (Inr (), send_mail (or_blank (u_email u)) (Verification_link link) p3)))"

section \<open>Passwords\<close>

text \<open>The membership that carries an account's reset link: the active one used last.\<close>

definition newest_first :: "user \<Rightarrow> int \<times> int \<times> int" where
  "newest_first u = (case u_last_login_at u of Some t \<Rightarrow> (0, - t, - u_id u) | None \<Rightarrow> (1, 0, - u_id u))"

definition reset_membership :: "int \<Rightarrow> id_db \<Rightarrow> membership option" where
  "reset_membership aid db =
     (case sort_key (newest_first \<circ> fst) (joined_tenants (\<lambda>u. u_account_id u = Some aid \<and> u_is_active u) db) of
        [] \<Rightarrow> None
      | m # _ \<Rightarrow> Some m)"

definition forgot_password :: "tools \<Rightarrow> request \<Rightarrow> string \<Rightarrow> string \<Rightarrow> platform \<Rightarrow> unit answer" where
  "forgot_password env rq link raw_email p =
     (let cfg = tl_cfg env; now = rq_now rq; email = normalise_email raw_email;
          akey = ''pwreset:acct:'' @ email; ikey = ''pwreset:ip:'' @ or_unknown (rq_ip rq)
      in if \<not> text_ok 3 255 raw_email
           then (Inl invalid_payload, p)
         else then_answer (limited ''Too many reset requests. Try again later.''
                             (check_password_reset cfg akey ikey now) p) (\<lambda>_ p1.
           let p2 = with_limiter (record_password_reset_request cfg akey ikey now) p1
           in case find_account email (pf_db p2) of
                None \<Rightarrow> (Inr (), p2)
              | Some a \<Rightarrow>
                  if a_suliko_user_id a \<noteq> None \<or> a_password_hash a = UNUSABLE_PASSWORD_HASH
                    then (Inr (), send_mail email Suliko_password p2)
                  else (case reset_membership (a_id a) (pf_db p2) of
                    None \<Rightarrow> (Inr (), p2)
                  | Some (u, t) \<Rightarrow>
                      (Inr (), send_mail email (Reset_link link)
                        (log_for_tenant (u_tenant_id u) ''user.password_reset_requested'' ''user'' (u_id u)
                          (on_db (\<lambda>db. snd (issue_token (tl_hash_token env) now link (u_id u)
                             (password_reset_ttl_minutes cfg * 60) PASSWORD_RESET db)) p2))))))"

definition set_password :: "tools \<Rightarrow> int \<Rightarrow> string \<Rightarrow> id_db \<Rightarrow> id_db" where
  "set_password env aid password db = db\<lparr>accounts :=
     update_where (\<lambda>a. a_id a = aid)
       (\<lambda>a. a\<lparr>a_password_hash := ha_hash (tl_hashing env) password, a_must_change_password := False\<rparr>) (accounts db)\<rparr>"

definition accepted_invitation :: "int \<Rightarrow> id_db \<Rightarrow> id_db" where
  "accepted_invitation uid db = db\<lparr>users :=
     update_where (\<lambda>u. u_id u = uid) (\<lambda>u. u\<lparr>u_invitation_pending := False\<rparr>) (users db)\<rparr>"

definition dead_link :: api_error where
  "dead_link = ValidationError ''This reset link is no longer valid. Request a new one and use the most recent email.''"

definition password_length_ok :: "string \<Rightarrow> bool" where
  "password_length_ok password \<longleftrightarrow> text_ok 1 1024 password"

text \<open>The spending of the link is part of the transaction: a refusal after it rolls it back.\<close>

definition reset_password :: "tools \<Rightarrow> request \<Rightarrow> string \<Rightarrow> string \<Rightarrow> platform \<Rightarrow> unit answer" where
  "reset_password env rq token password p =
     (if \<not> token_length_ok token \<or> \<not> password_length_ok password
        then (Inl invalid_payload, p)
      else if validate_password_strength password \<noteq> []
        then (Inl (ValidationError (separated '' '' (validate_password_strength password))), p)
      else case spend env rq token PASSWORD_RESET p of
        (None, _) \<Rightarrow> (Inl dead_link, p)
      | (Some u, p1) \<Rightarrow>
          (case account_of (pf_db p1) u of
             None \<Rightarrow> (Inl dead_link, p)
           | Some a \<Rightarrow>
               if a_suliko_user_id a \<noteq> None
                 then (Inl (ConflictError ''Your password is kept on suliko.ge. Reset it there, then sign in here.''), p)
               else (Inr (), log_for_tenant (u_tenant_id u) ''user.password_reset_completed'' ''user'' (u_id u)
                 (on_db (\<lambda>db. revoke_account_sessions (rq_now rq) (a_id a)
                    (accepted_invitation (u_id u) (verified_user (rq_now rq) (u_id u)
                      (verified_account (rq_now rq) (a_id a) (set_password env (a_id a) password db))))) p1))))"

definition session_account :: "auth_session \<Rightarrow> platform \<Rightarrow> account option" where
  "session_account session p =
     (case as_account_id session of
        None \<Rightarrow> None
      | Some i \<Rightarrow> if i = 0 then None else get_row a_id i (accounts (pf_db p)))"

definition change_password :: "tools \<Rightarrow> request \<Rightarrow> auth_session \<Rightarrow> string \<Rightarrow> string \<Rightarrow> platform \<Rightarrow> unit answer" where
  "change_password env rq session current new p =
     (case get_session_for_password_change (tl_cfg env) session of
        Inl e \<Rightarrow> (Inl e, p)
      | Inr _ \<Rightarrow>
          if \<not> password_length_ok current \<or> \<not> password_length_ok new
            then (Inl invalid_payload, p)
          else (case session_account session p of
            None \<Rightarrow> (Inl (AuthenticationError ''Your account is no longer available.''), p)
          | Some a \<Rightarrow>
              if a_suliko_user_id a \<noteq> None
                then (Inl (ConflictError ''Your password is kept on suliko.ge. Change it there, then sign in here.''), p)
              else if \<not> verify_password (tl_hashing env) current (a_password_hash a)
                then (Inl (ValidationError ''Your current password is not correct.''), p)
              else if new = current
                then (Inl (ValidationError ''The new password must be different from the current one.''), p)
              else if validate_password_strength new \<noteq> []
                then (Inl (ValidationError (separated '' '' (validate_password_strength new))), p)
              else (Inr (), log_user session ''user.password_changed''
                (on_db (\<lambda>db. revoke_account_sessions (rq_now rq) (a_id a) (set_password env (a_id a) new db)) p))))"

section \<open>Leaving\<close>

definition require_own_password :: "tools \<Rightarrow> account option \<Rightarrow> string option \<Rightarrow> unit result" where
  "require_own_password env a password =
     (case a of
        None \<Rightarrow> Inr ()
      | Some a \<Rightarrow>
          if a_suliko_user_id a \<noteq> None then Inr ()
          else if or_blank password \<noteq> [] \<and> verify_password (tl_hashing env) (or_blank password) (a_password_hash a)
            then Inr ()
          else Inl (ValidationError ''Your current password is not correct.''))"

definition leave_organisation :: "tools \<Rightarrow> request \<Rightarrow> auth_session \<Rightarrow> string option \<Rightarrow> platform \<Rightarrow> unit answer" where
  "leave_organisation env rq caller password p =
     transact (bind_result (get_authenticated_session (tl_cfg env) caller) (\<lambda>session.
       if \<not> text_ok 0 1024 (or_blank password) then Inl invalid_payload
       else if is_impersonated session
         then Inl (ValidationError ''You cannot close an account while acting as someone else.'')
       else case get_member session (as_user_id session) (pf_db p) of
         None \<Rightarrow> Inl (AuthenticationError ''Your account is no longer available.'')
       | Some u \<Rightarrow> bind_result (require_own_password env (session_account session p) password) (\<lambda>_.
           if would_strand_organisation u (pf_db p)
             then Inl (ConflictError ''You are the only owner. Make someone else an owner under Users first, then you can close your access.'')
           else Inr ((), log_user session ''user.left''
             (on_db (\<lambda>db. revoke_all_for_user (rq_now rq) (u_id u) (store_user (u\<lparr>u_is_active := False\<rparr>) db)) p))))) p"

text \<open>The organisations a person is the last active owner of while others use them.\<close>

definition organisations_left_without_an_owner :: "(string \<Rightarrow> int) \<Rightarrow> int \<Rightarrow> id_db \<Rightarrow> string list" where
  "organisations_left_without_an_owner name_order aid db =
     map (t_display_name \<circ> snd) (filter (\<lambda>(u, t). would_strand_organisation u db)
       (sort_key (\<lambda>(u, t). (name_order (t_display_name t), u_id u))
         (joined_tenants (\<lambda>u. is_membership_of aid u \<and> u_role u = OWNER) db)))"

text \<open>Filing closes the account, and the translators' portal, which has no accounts, with it.\<close>

definition portal_of :: "account \<Rightarrow> platform \<Rightarrow> portal_person option" where
  "portal_of a p =
     (if or_blank (a_suliko_user_id a) = [] then None
      else find (\<lambda>t. pp_external_user_id t = a_suliko_user_id a) (pf_portal p))"

definition set_portal :: "int \<Rightarrow> bool \<Rightarrow> platform \<Rightarrow> platform" where
  "set_portal i active p = p\<lparr>pf_portal :=
     update_where (\<lambda>t. pp_id t = i) (\<lambda>t. t\<lparr>pp_is_active := active\<rparr>) (pf_portal p)\<rparr>"

definition file_request :: "instant \<Rightarrow> account \<Rightarrow> platform \<Rightarrow> (deletion_request \<times> platform) result" where
  "file_request now a p =
     (if open_request (a_id a) p \<noteq> None
        then Inl (DeletionAlreadyRequestedError ''You have already asked for this account to be deleted.'')
      else case fresh p of (i, p1) \<Rightarrow>
        let switched = (case portal_of a p of Some t \<Rightarrow> if pp_is_active t then Some (pp_id t) else None | None \<Rightarrow> None);
            r = \<lparr>dr_id = i, dr_account_id = a_id a, dr_status = REQUESTED, dr_created_at = now,
                 dr_decided_at = None, dr_decided_by = None, dr_review_note = None, dr_purge_after = None,
                 dr_done_at = None, dr_portal_deactivated = (switched \<noteq> None)\<rparr>;
            p2 = p1\<lparr>pf_deletions := pf_deletions p1 @ [r]\<rparr>
        in Inr (r, case switched of None \<Rightarrow> p2 | Some t \<Rightarrow> set_portal t False p2))"

definition request_account_deletion ::
    "tools \<Rightarrow> request \<Rightarrow> string \<Rightarrow> auth_session \<Rightarrow> string option \<Rightarrow> platform \<Rightarrow> deletion_request answer" where
  "request_account_deletion env rq support caller password p =
     transact (bind_result (get_authenticated_session (tl_cfg env) caller) (\<lambda>session.
       if \<not> text_ok 0 1024 (or_blank password) then Inl invalid_payload
       else if is_impersonated session
         then Inl (ValidationError ''You cannot ask for an account to be deleted while acting as someone else.'')
       else case session_account session p of
         None \<Rightarrow> Inl (AuthenticationError ''Your account is no longer available.'')
       | Some a \<Rightarrow> bind_result (require_own_password env (Some a) password) (\<lambda>_.
           let stranded = organisations_left_without_an_owner (tl_name_order env) (a_id a) (pf_db p) in
           if stranded \<noteq> []
             then Inl (ConflictError (''You are the only owner of '' @ separated '', '' stranded @
               '', which other people still use. Make someone else an owner there first, then ask again.''))
           else bind_result (file_request (rq_now rq) a p) (\<lambda>(r, p1).
             let p2 = on_db (\<lambda>db. log_audit session ''account.deletion_requested'' ''account'' (a_id a)
                        (revoke_account_sessions (rq_now rq) (a_id a) db)) p1;
                 p3 = send_mail support Deletion_for_team p2
             in Inr (r, if or_blank (a_email a) = [] then p3
                        else send_mail (or_blank (a_email a)) Deletion_for_person p3))))) p"

section \<open>Invitations\<close>

definition accept_invitation :: "tools \<Rightarrow> request \<Rightarrow> string \<Rightarrow> platform \<Rightarrow> (string \<times> string) answer" where
  "accept_invitation env rq token p =
     (if \<not> token_length_ok token then (Inl invalid_payload, p)
      else case spend env rq token INVITATION p of
        (None, _) \<Rightarrow> (Inl (ValidationError ''This invitation link is no longer valid. Ask the organisation to invite you again.''), p)
      | (Some u, p1) \<Rightarrow>
          (case get_row t_id (u_tenant_id u) (tenants (pf_db p1)) of
             None \<Rightarrow> (Inl (InternalError ''AssertionError''), p)
           | Some t \<Rightarrow> (Inr (t_slug t, t_display_name t),
               log_for_tenant (u_tenant_id u) ''user.invitation_accepted'' ''user'' (u_id u)
                 (on_db (accepted_invitation (u_id u)) p1))))"

section \<open>The signed-in shell\<close>

definition TIP_IDS :: "string list" where
  "TIP_IDS = [''nav-translations'', ''nav-clients'', ''nav-translators'', ''nav-calculator'', ''nav-finances'',
     ''translations-new'', ''order-translate-send'', ''users-invite'']"

record tips_state =
  ts_enabled :: bool
  ts_seen :: "string list"

definition tips_enabled :: "account option \<Rightarrow> instant \<Rightarrow> bool \<Rightarrow> bool \<Rightarrow> bool" where
  "tips_enabled a since onboarding_required impersonated \<longleftrightarrow>
     (case a of None \<Rightarrow> False
      | Some a \<Rightarrow> \<not> onboarding_required \<and> \<not> impersonated \<and> since \<le> a_created_at a)"

definition seen_tips :: "account option \<Rightarrow> string list" where
  "seen_tips a = filter (\<lambda>tip. tip \<in> set (case a of None \<Rightarrow> [] | Some a \<Rightarrow> a_tips_seen a)) TIP_IDS"

definition tips_after :: "string list \<Rightarrow> bool \<Rightarrow> account \<Rightarrow> account" where
  "tips_after seen reset a =
     a\<lparr>a_tips_seen := filter (\<lambda>tip. \<not> reset \<and> (tip \<in> set (a_tips_seen a) \<or> tip \<in> set seen)) TIP_IDS\<rparr>"

definition tips_state_of :: "settings \<Rightarrow> account option \<Rightarrow> auth_session \<Rightarrow> tips_state" where
  "tips_state_of cfg a session =
     \<lparr>ts_enabled = tips_enabled a (tips_accounts_since cfg) (as_onboarding_required session) (is_impersonated session),
      ts_seen = seen_tips a\<rparr>"

definition get_tips :: "settings \<Rightarrow> auth_session \<Rightarrow> platform \<Rightarrow> tips_state result" where
  "get_tips cfg caller p =
     bind_result (get_authenticated_session cfg caller) (\<lambda>session.
       Inr (tips_state_of cfg (session_account session p) session))"

definition update_tips :: "settings \<Rightarrow> auth_session \<Rightarrow> string list \<Rightarrow> bool \<Rightarrow> platform \<Rightarrow> tips_state answer" where
  "update_tips cfg caller seen reset p =
     transact (bind_result (get_authenticated_session cfg caller) (\<lambda>session.
       if 50 < length seen then Inl invalid_payload
       else if is_impersonated session
         then Inl (ValidationError ''Tips cannot be changed while acting as someone else.'')
       else case sort (filter (\<lambda>tip. tip \<notin> set TIP_IDS) seen) of
         tip # _ \<Rightarrow> Inl (ValidationError (''Unknown tip: '' @ tip @ ''.''))
       | [] \<Rightarrow>
           (case session_account session p of
              None \<Rightarrow> Inl (ValidationError ''This account has no tips to save.'')
            | Some a \<Rightarrow>
                let a' = tips_after seen reset a
                in Inr (tips_state_of cfg (Some a') session,
                     on_db (\<lambda>db. db\<lparr>accounts := update_where (\<lambda>r. a_id r = a_id a) (tips_after seen reset) (accounts db)\<rparr>) p)))) p"

record session_info =
  si_login :: string
  si_password_managed_externally :: bool
  si_organizations :: "org_choice list"
  si_personal :: "org_choice option"
  si_mfa_satisfied :: bool
  si_mfa_enforced :: bool
  si_tips :: tips_state
  si_session :: auth_session

text \<open>What the shell is hydrated with: the session's own fields are carried as they are.\<close>

definition current_session :: "tools \<Rightarrow> auth_session \<Rightarrow> platform \<Rightarrow> session_info" where
  "current_session env session p =
     (let fallback = or_else_text (as_email session) (Some (as_username session));
          a = (case as_account_id session of None \<Rightarrow> None | Some i \<Rightarrow> get_row a_id i (accounts (pf_db p)));
          (organizations, own) = (case as_account_id session of None \<Rightarrow> ([], None) | Some i \<Rightarrow> choices env i p)
      in \<lparr>si_login = (case a of None \<Rightarrow> fallback | Some a \<Rightarrow> or_default (login_name a) fallback),
          si_password_managed_externally = (case a of None \<Rightarrow> False | Some a \<Rightarrow> a_suliko_user_id a \<noteq> None),
          si_organizations = organizations, si_personal = own,
          si_mfa_satisfied = (as_mfa_satisfied_at session \<noteq> None \<or> \<not> mfa_enforced (tl_cfg env)),
          si_mfa_enforced = mfa_enforced (tl_cfg env),
          si_tips = tips_state_of (tl_cfg env) a session, si_session = session\<rparr>)"

end
