(* ===== verification/Changes.thy ===== *)
theory Changes
  imports SignIn
begin

text \<open>
  What the handlers of \<^verbatim>\<open>SignIn\<close> do to the rows, seen from outside: every handler is a sequence of a
  few kinds of change (\<^verbatim>\<open>Access\<close> shows it), so an invariant of the whole of sign-in is proved once
  per kind of change. Here: the kinds, the well-formed states, and that every kind preserves them.
\<close>

section \<open>Kinds of change\<close>

definition user_kept :: "instant \<Rightarrow> user \<Rightarrow> user \<Rightarrow> bool" where
  "user_kept now u v \<longleftrightarrow> u_id v = u_id u \<and> u_tenant_id v = u_tenant_id u \<and> u_account_id v = u_account_id u \<and>
     u_sessions_invalid_before v \<in> {u_sessions_invalid_before u, Some now}"

definition account_kept :: "account \<Rightarrow> account \<Rightarrow> bool" where
  "account_kept a b \<longleftrightarrow> a_id b = a_id a \<and> a_email b = a_email a \<and> a_phone b = a_phone a \<and>
     a_suliko_user_id b = a_suliko_user_id a"

definition session_kept :: "user_session \<Rightarrow> user_session \<Rightarrow> bool" where
  "session_kept s r \<longleftrightarrow> row_kept s r \<and> us_tenant_id r = us_tenant_id s \<and> us_token_hash r = us_token_hash s"

definition method_kept :: "mfa_method \<Rightarrow> mfa_method \<Rightarrow> bool" where
  "method_kept m k \<longleftrightarrow> mm_id k = mm_id m \<and> mm_last_used_timestep k = mm_last_used_timestep m"

text \<open>A step later than every step the method has accepted.\<close>

definition step_after :: "int \<Rightarrow> mfa_method \<Rightarrow> bool" where
  "step_after n m \<longleftrightarrow> (case mm_last_used_timestep m of None \<Rightarrow> True | Some k \<Rightarrow> k < n)"

definition freshly_filed :: "instant \<Rightarrow> deletion_request \<Rightarrow> bool" where
  "freshly_filed now r \<longleftrightarrow> dr_status r = REQUESTED \<and> dr_created_at r = now \<and> dr_decided_at r = None \<and>
     dr_decided_by r = None \<and> dr_purge_after r = None \<and> dr_done_at r = None"

inductive change :: "tools \<Rightarrow> instant \<Rightarrow> platform \<Rightarrow> platform \<Rightarrow> bool" for env now where
  noted: "change env now p (p\<lparr>pf_limiter := l, pf_attempts := la, pf_outbox := ob, pf_portal := pp\<rparr>)"
| audit: "change env now p (on_db (\<lambda>db. db\<lparr>audit_log := es\<rparr>) p)"
| id_taken: "change env now p (snd (fresh p))"
| people: "\<forall>u \<in> set (users (pf_db p)). P u \<longrightarrow> user_kept now u (f u) \<Longrightarrow>
    change env now p (on_db (\<lambda>db. db\<lparr>users := update_where P f (users db)\<rparr>) p)"
| account_edited: "\<forall>a. account_kept a (f a) \<Longrightarrow>
    change env now p (on_db (\<lambda>db. db\<lparr>accounts := update_where P f (accounts db)\<rparr>) p)"
| account_linked: "\<not> account_taken a (pf_db p) \<Longrightarrow> change env now p (on_db (store_account a) p)"
| account_made: "a_id a = pf_next p \<Longrightarrow> \<not> account_taken a (pf_db p) \<Longrightarrow>
    change env now p (on_db (\<lambda>db. db\<lparr>accounts := accounts db @ [a]\<rparr>) (snd (fresh p)))"
| workspace_made: "t_id t = pf_next p \<Longrightarrow> u_id u = pf_next p + 1 \<Longrightarrow> u_tenant_id u = t_id t \<Longrightarrow>
    t_slug t \<notin> t_slug ` set (tenants (pf_db p)) \<Longrightarrow> u_account_id u \<in> (Some \<circ> a_id) ` set (accounts (pf_db p)) \<Longrightarrow>
    change env now p (on_db (\<lambda>db. db\<lparr>tenants := tenants db @ [t], users := users db @ [u]\<rparr>)
      (snd (fresh (snd (fresh p)))))"
| session_started: "u \<in> set (users (pf_db p)) \<Longrightarrow> u_account_id u = Some aid \<Longrightarrow> open_request aid p = None \<Longrightarrow>
    change env now p (on_db (\<lambda>db. snd (create_session (tl_cfg env) (tl_hash_token env) now (pf_next p) token u
      ip agent satisfied None None db)) (snd (fresh p)))"
| session_edited: "\<forall>s. P s \<longrightarrow> session_kept s (f s) \<Longrightarrow>
    change env now p (on_db (\<lambda>db. db\<lparr>user_sessions := update_where P f (user_sessions db)\<rparr>) p)"
| links: "links_kept (pf_db p) ((pf_db p)\<lparr>reset_tokens := ts\<rparr>) \<Longrightarrow>
    change env now p (on_db (\<lambda>db. db\<lparr>reset_tokens := ts\<rparr>) p)"
| step_used: "m \<in> set (mfa_methods (pf_db p)) \<Longrightarrow> step_after n m \<Longrightarrow> change env now p (on_db (use_step (mm_id m) n) p)"
| method_edited: "\<forall>m. method_kept m (f m) \<Longrightarrow>
    change env now p (on_db (\<lambda>db. db\<lparr>mfa_methods := update_where P f (mfa_methods db)\<rparr>) p)"
| method_dropped: "change env now p (on_db (\<lambda>db. db\<lparr>mfa_methods := filter P (mfa_methods db)\<rparr>) p)"
| method_made: "mm_id m = pf_next p \<Longrightarrow>
    change env now p (on_db (\<lambda>db. db\<lparr>mfa_methods := mfa_methods db @ [m]\<rparr>) (snd (fresh p)))"
| codes: "change env now p (on_db (\<lambda>db. db\<lparr>recovery_codes := cs\<rparr>) p)"
| deletion_filed: "dr_id r = pf_next p \<Longrightarrow> freshly_filed now r \<Longrightarrow> open_request (dr_account_id r) p = None \<Longrightarrow>
    dr_account_id r \<in> a_id ` set (accounts (pf_db p)) \<Longrightarrow>
    change env now p ((snd (fresh p))\<lparr>pf_deletions := pf_deletions p @ [r]\<rparr>)"

text \<open>Sequences of changes at one moment.\<close>

inductive changes :: "tools \<Rightarrow> instant \<Rightarrow> platform \<Rightarrow> platform \<Rightarrow> bool" for env now where
  none: "changes env now p p"
| more: "changes env now p q \<Longrightarrow> change env now q r \<Longrightarrow> changes env now p r"

lemmas changes_refl [simp, intro] = changes.none

lemma changes_one: "change env now p q \<Longrightarrow> changes env now p q"
  by (rule changes.more [OF changes.none])

lemma changes_trans: "changes env now q r \<Longrightarrow> changes env now p q \<Longrightarrow> changes env now p r"
  by (induction rule: changes.induct) (auto intro: changes.more)

lemma changes_keep:
  assumes "changes env now p q" and "I p" and "\<And>p q. change env now p q \<Longrightarrow> I p \<Longrightarrow> I q"
  shows "I q"
  using assms(1,2) by (induction rule: changes.induct) (auto intro: assms(3))

section \<open>Well-formed rows\<close>

text \<open>
  The keys and foreign keys the tables declare: identifiers are distinct and below the next one,
  handles and the columns of an account are unique, every session is of a member and carries that
  member's organisation, every member's organisation and account exist.
\<close>

definition keys_below :: "('r \<Rightarrow> int) \<Rightarrow> int \<Rightarrow> 'r list \<Rightarrow> bool" where
  "keys_below key n rows \<longleftrightarrow> distinct (map key rows) \<and> (\<forall>r \<in> set rows. key r < n)"

definition rows_ok :: "platform \<Rightarrow> bool" where
  "rows_ok p \<longleftrightarrow> (let db = pf_db p; n = pf_next p in
     keys_below a_id n (accounts db) \<and> keys_below u_id n (users db) \<and> keys_below t_id n (tenants db) \<and>
     keys_below us_id n (user_sessions db) \<and> distinct (map t_slug (tenants db)) \<and>
     (\<forall>m \<in> set (mfa_methods db). mm_id m < n) \<and>
     (\<forall>a \<in> set (accounts db). \<not> account_taken a db) \<and>
     (\<forall>s \<in> set (user_sessions db). \<exists>u \<in> set (users db). u_id u = us_user_id s \<and> u_tenant_id u = us_tenant_id s) \<and>
     (\<forall>u \<in> set (users db). u_tenant_id u \<in> t_id ` set (tenants db)) \<and>
     (\<forall>u \<in> set (users db). u_account_id u \<in> insert None ((Some \<circ> a_id) ` set (accounts db))) \<and>
     (\<forall>r \<in> set (pf_deletions p). dr_account_id r \<in> a_id ` set (accounts db)))"

lemma keys_below_later: "keys_below key n rows \<Longrightarrow> n \<le> m \<Longrightarrow> keys_below key m rows"
  by (auto simp: keys_below_def)

lemma keys_below_add: "keys_below key n rows \<Longrightarrow> n \<le> key r \<Longrightarrow> key r < m \<Longrightarrow> keys_below key m (rows @ [r])"
  by (auto simp: keys_below_def)

lemma set_keys_update:
  "\<forall>r \<in> set rows. P r \<longrightarrow> key (f r) = key r \<Longrightarrow> map key (update_where P f rows) = map key rows"
  by (induction rows) auto

lemma keys_below_update:
  assumes "keys_below key n rows" and "\<forall>r \<in> set rows. P r \<longrightarrow> key (f r) = key r"
  shows "keys_below key n (update_where P f rows)"
proof -
  have "\<forall>k \<in> key ` set (update_where P f rows). k < n"
    using assms(1) set_keys_update [OF assms(2)] unfolding keys_below_def by (metis image_iff list.set_map)
  with assms set_keys_update [OF assms(2)] show ?thesis by (simp add: keys_below_def)
qed

definition clash :: "account \<Rightarrow> account \<Rightarrow> bool" where
  "clash a r \<longleftrightarrow> a_id r \<noteq> a_id a \<and>
     (a_email a \<noteq> None \<and> a_email r = a_email a \<or> a_phone a \<noteq> None \<and> a_phone r = a_phone a \<or>
      a_suliko_user_id a \<noteq> None \<and> a_suliko_user_id r = a_suliko_user_id a)"

lemma clash_sym: "clash a r \<Longrightarrow> clash r a"
  by (auto simp: clash_def)

lemma clash_kept: "account_kept a a' \<Longrightarrow> account_kept r r' \<Longrightarrow> clash a' r' \<longleftrightarrow> clash a r"
  by (simp add: clash_def account_kept_def)

lemma account_kept_refl [simp]: "account_kept a a"
  by (simp add: account_kept_def)

lemma taken_clash: "account_taken a db \<longleftrightarrow> (\<exists>r \<in> set (accounts db). clash a r)"
  by (simp add: account_taken_def clash_def)

definition columns_unique :: "account list \<Rightarrow> bool" where
  "columns_unique rows \<longleftrightarrow> (\<forall>a \<in> set rows. \<forall>r \<in> set rows. \<not> clash a r)"

lemma columns_unique_db: "(\<forall>a \<in> set (accounts db). \<not> account_taken a db) \<longleftrightarrow> columns_unique (accounts db)"
  by (simp add: columns_unique_def taken_clash)

lemma columns_unique_add:
  "columns_unique rows \<Longrightarrow> \<forall>r \<in> set rows. \<not> clash a r \<Longrightarrow> columns_unique (rows @ [a])"
  by (auto simp: columns_unique_def clash_def [of a a] dest: clash_sym)

lemma columns_unique_replace:
  assumes "columns_unique rows" and "\<forall>r \<in> set rows. \<not> clash a r"
  shows "columns_unique (update_where (\<lambda>r. a_id r = a_id a) (\<lambda>_. a) rows)"
proof -
  have "\<forall>r \<in> insert a (set rows). \<not> clash a r \<and> \<not> clash r a"
    using assms(2) by (auto simp: clash_def [of a a] dest: clash_sym)
  with assms(1) show ?thesis unfolding columns_unique_def set_update_where by blast
qed

lemma columns_unique_edit:
  assumes "columns_unique rows" and "\<forall>a. account_kept a (f a)"
  shows "columns_unique (update_where P f rows)"
proof -
  have kept: "\<forall>b \<in> set (update_where P f rows). \<exists>a \<in> set rows. account_kept a b"
  proof
    fix b assume "b \<in> set (update_where P f rows)"
    then consider "b \<in> set rows" | a where "a \<in> set rows" "b = f a" by (auto simp: set_update_where)
    then show "\<exists>a \<in> set rows. account_kept a b" by cases (use assms(2) account_kept_refl in blast)+
  qed
  show ?thesis unfolding columns_unique_def
    using kept assms(1) [unfolded columns_unique_def] clash_kept by blast
qed

lemma rows_okI:
  assumes "keys_below a_id (pf_next p) (accounts (pf_db p))" and "keys_below u_id (pf_next p) (users (pf_db p))"
    and "keys_below t_id (pf_next p) (tenants (pf_db p))" and "keys_below us_id (pf_next p) (user_sessions (pf_db p))"
    and "distinct (map t_slug (tenants (pf_db p)))" and "\<forall>m \<in> set (mfa_methods (pf_db p)). mm_id m < pf_next p"
    and "columns_unique (accounts (pf_db p))"
    and "\<forall>s \<in> set (user_sessions (pf_db p)). \<exists>u \<in> set (users (pf_db p)).
      u_id u = us_user_id s \<and> u_tenant_id u = us_tenant_id s"
    and "\<forall>u \<in> set (users (pf_db p)). u_tenant_id u \<in> t_id ` set (tenants (pf_db p))"
    and "\<forall>u \<in> set (users (pf_db p)). u_account_id u \<in> insert None ((Some \<circ> a_id) ` set (accounts (pf_db p)))"
    and "\<forall>r \<in> set (pf_deletions p). dr_account_id r \<in> a_id ` set (accounts (pf_db p))"
  shows "rows_ok p"
  unfolding rows_ok_def Let_def columns_unique_db by (intro conjI) (fact assms)+

lemma rows_okD:
  assumes "rows_ok p"
  shows "keys_below a_id (pf_next p) (accounts (pf_db p))" and "keys_below u_id (pf_next p) (users (pf_db p))"
    and "keys_below t_id (pf_next p) (tenants (pf_db p))" and "keys_below us_id (pf_next p) (user_sessions (pf_db p))"
    and "distinct (map t_slug (tenants (pf_db p)))" and "\<forall>m \<in> set (mfa_methods (pf_db p)). mm_id m < pf_next p"
    and "columns_unique (accounts (pf_db p))"
    and "\<forall>s \<in> set (user_sessions (pf_db p)). \<exists>u \<in> set (users (pf_db p)).
      u_id u = us_user_id s \<and> u_tenant_id u = us_tenant_id s"
    and "\<forall>u \<in> set (users (pf_db p)). u_tenant_id u \<in> t_id ` set (tenants (pf_db p))"
    and "\<forall>u \<in> set (users (pf_db p)). u_account_id u \<in> insert None ((Some \<circ> a_id) ` set (accounts (pf_db p)))"
    and "\<forall>r \<in> set (pf_deletions p). dr_account_id r \<in> a_id ` set (accounts (pf_db p))"
  using assms unfolding rows_ok_def Let_def columns_unique_db by simp_all

lemmas platform_simps = on_db_def fresh_def

text \<open>Every kind of change keeps the rows well formed.\<close>

lemma ids_of_edit: "\<forall>r \<in> set rows. P r \<longrightarrow> key (f r) = key r \<Longrightarrow> key ` set (update_where P f rows) = key ` set rows"
  using set_keys_update [of rows P key f] by (metis image_set)

lemma image_comp_ids: "key ` set xs = key ` set ys \<Longrightarrow> (Some \<circ> key) ` set xs = (Some \<circ> key) ` set ys"
  by (metis image_comp)

lemma change_rows_ok:
  assumes "change env now p q" and ok: "rows_ok p"
  shows "rows_ok q"
  using assms(1)
proof cases
  case (people P f)
  have same: "tenants (pf_db q) = tenants (pf_db p)" "accounts (pf_db q) = accounts (pf_db p)"
    "user_sessions (pf_db q) = user_sessions (pf_db p)"
    using people(1) by (simp_all add: on_db_def)
  have u: "\<exists>w \<in> set (users (pf_db q)). u_id w = u_id v \<and> u_tenant_id w = u_tenant_id v" if "v \<in> set (users (pf_db p))" for v
    using people that by (auto simp: on_db_def set_update_where user_kept_def)
  have v: "\<exists>w \<in> set (users (pf_db p)). u_tenant_id w = u_tenant_id v \<and> u_account_id w = u_account_id v"
    if "v \<in> set (users (pf_db q))" for v
    using people that by (auto simp: on_db_def set_update_where user_kept_def)
  show ?thesis
  proof (rule rows_okI)
    show "keys_below u_id (pf_next q) (users (pf_db q))"
      using people rows_okD(2) [OF ok] by (simp add: on_db_def keys_below_update user_kept_def)
    show "\<forall>s \<in> set (user_sessions (pf_db q)). \<exists>u \<in> set (users (pf_db q)). u_id u = us_user_id s \<and> u_tenant_id u = us_tenant_id s"
    proof
      fix s assume "s \<in> set (user_sessions (pf_db q))"
      then have "s \<in> set (user_sessions (pf_db p))" unfolding same .
      with rows_okD(8) [OF ok] obtain v where "v \<in> set (users (pf_db p))" "u_id v = us_user_id s \<and> u_tenant_id v = us_tenant_id s"
        by blast
      with u [OF this(1)] show "\<exists>u \<in> set (users (pf_db q)). u_id u = us_user_id s \<and> u_tenant_id u = us_tenant_id s"
        by metis
    qed
    show "\<forall>u \<in> set (users (pf_db q)). u_tenant_id u \<in> t_id ` set (tenants (pf_db q))"
    proof
      fix x assume "x \<in> set (users (pf_db q))"
      from v [OF this] obtain w where "w \<in> set (users (pf_db p))" "u_tenant_id w = u_tenant_id x" by blast
      with rows_okD(9) [OF ok] show "u_tenant_id x \<in> t_id ` set (tenants (pf_db q))" unfolding same by metis
    qed
    show "\<forall>u \<in> set (users (pf_db q)). u_account_id u \<in> insert None ((Some \<circ> a_id) ` set (accounts (pf_db q)))"
    proof
      fix x assume "x \<in> set (users (pf_db q))"
      from v [OF this] obtain w where "w \<in> set (users (pf_db p))" "u_account_id w = u_account_id x" by blast
      with rows_okD(10) [OF ok] show "u_account_id x \<in> insert None ((Some \<circ> a_id) ` set (accounts (pf_db q)))"
        unfolding same by metis
    qed
  qed (use people rows_okD [OF ok] in \<open>simp_all add: on_db_def\<close>)
next
  case (account_edited f P)
  have ids: "a_id ` set (accounts (pf_db q)) = a_id ` set (accounts (pf_db p))"
    using account_edited by (simp add: on_db_def ids_of_edit account_kept_def)
  show ?thesis
  proof (rule rows_okI)
    show "keys_below a_id (pf_next q) (accounts (pf_db q))"
      using account_edited rows_okD(1) [OF ok] by (simp add: on_db_def keys_below_update account_kept_def)
    show "columns_unique (accounts (pf_db q))"
      using account_edited rows_okD(7) [OF ok] by (simp add: on_db_def columns_unique_edit)
  qed (use account_edited(1) ids image_comp_ids [OF ids] rows_okD [OF ok] in \<open>simp_all add: on_db_def\<close>)
next
  case (account_linked a)
  have ids: "a_id ` set (accounts (pf_db q)) = a_id ` set (accounts (pf_db p))"
    using account_linked(1) by (simp add: on_db_def store_account_def ids_of_edit)
  show ?thesis
  proof (rule rows_okI)
    show "keys_below a_id (pf_next q) (accounts (pf_db q))"
      using account_linked(1) rows_okD(1) [OF ok] by (simp add: on_db_def store_account_def keys_below_update)
    show "columns_unique (accounts (pf_db q))"
      using account_linked rows_okD(7) [OF ok]
      by (simp add: on_db_def store_account_def columns_unique_replace taken_clash)
  qed (use account_linked(1) ids image_comp_ids [OF ids] rows_okD [OF ok] in \<open>simp_all add: on_db_def store_account_def\<close>)
next
  case (account_made a)
  show ?thesis
  proof (rule rows_okI)
    show "columns_unique (accounts (pf_db q))"
      using account_made rows_okD(7) [OF ok] by (simp add: platform_simps columns_unique_add taken_clash)
  qed (use account_made(1,2) rows_okD [OF ok] in \<open>force simp: platform_simps intro: keys_below_add keys_below_later\<close>)+
next
  case (workspace_made t u)
  show ?thesis
  proof (rule rows_okI)
    show "keys_below u_id (pf_next q) (users (pf_db q))" "keys_below t_id (pf_next q) (tenants (pf_db q))"
      using workspace_made(1,2,3) rows_okD(2,3) [OF ok] by (auto simp: platform_simps intro: keys_below_add)
    show "\<forall>s \<in> set (user_sessions (pf_db q)). \<exists>u \<in> set (users (pf_db q)). u_id u = us_user_id s \<and> u_tenant_id u = us_tenant_id s"
      using rows_okD(8) [OF ok] workspace_made(1) by (fastforce simp: platform_simps)
    show "\<forall>u \<in> set (users (pf_db q)). u_account_id u \<in> insert None ((Some \<circ> a_id) ` set (accounts (pf_db q)))"
      using rows_okD(10) [OF ok] workspace_made(1,6) by (auto simp: platform_simps)
    show "\<forall>u \<in> set (users (pf_db q)). u_tenant_id u \<in> t_id ` set (tenants (pf_db q))"
      using rows_okD(9) [OF ok] workspace_made(1,4) by (auto simp: platform_simps)
    show "distinct (map t_slug (tenants (pf_db q)))"
      using rows_okD(5) [OF ok] workspace_made(1,5) by (auto simp: platform_simps)
    show "\<forall>m \<in> set (mfa_methods (pf_db q)). mm_id m < pf_next q"
      using rows_okD(6) [OF ok] workspace_made(1) by (fastforce simp: platform_simps)
  qed (use workspace_made(1) rows_okD(1,4,7,11) [OF ok] in \<open>auto simp: platform_simps intro: keys_below_later\<close>)
next
  case (session_started u aid token ip agent satisfied)
  show ?thesis
  proof (rule rows_okI)
    show "keys_below us_id (pf_next q) (user_sessions (pf_db q))"
      using session_started(1) rows_okD(4) [OF ok] by (auto simp: platform_simps create_session_def intro: keys_below_add)
    show "\<forall>s \<in> set (user_sessions (pf_db q)). \<exists>u \<in> set (users (pf_db q)). u_id u = us_user_id s \<and> u_tenant_id u = us_tenant_id s"
      using rows_okD(8) [OF ok] session_started(1,2) by (auto simp: platform_simps create_session_def)
    show "\<forall>m \<in> set (mfa_methods (pf_db q)). mm_id m < pf_next q"
      using rows_okD(6) [OF ok] session_started(1) by (fastforce simp: platform_simps create_session_def)
  qed (use session_started(1) rows_okD(1,2,3,5,7,9,10,11) [OF ok]
     in \<open>auto simp: platform_simps create_session_def intro: keys_below_later\<close>)
next
  case (session_edited P f)
  have v: "\<exists>r \<in> set (user_sessions (pf_db p)). us_user_id r = us_user_id s \<and> us_tenant_id r = us_tenant_id s"
    if "s \<in> set (user_sessions (pf_db q))" for s
    using session_edited that by (auto simp: on_db_def set_update_where session_kept_def row_kept_def)
  show ?thesis
  proof (rule rows_okI)
    show "keys_below us_id (pf_next q) (user_sessions (pf_db q))"
      using session_edited rows_okD(4) [OF ok] by (simp add: on_db_def keys_below_update session_kept_def row_kept_def)
    show "\<forall>s \<in> set (user_sessions (pf_db q)). \<exists>u \<in> set (users (pf_db q)). u_id u = us_user_id s \<and> u_tenant_id u = us_tenant_id s"
      using rows_okD(8) [OF ok] v session_edited(1) by (fastforce simp: on_db_def)
  qed (use session_edited(1) rows_okD [OF ok] in \<open>simp_all add: on_db_def\<close>)
next
  case (step_used m n)
  show ?thesis
    using rows_okD [OF ok] step_used(1)
    by (intro rows_okI) (auto simp: on_db_def use_step_def set_update_where)
next
  case (method_edited f P)
  show ?thesis
    using rows_okD [OF ok] method_edited
    by (intro rows_okI) (auto simp: on_db_def set_update_where method_kept_def)
next
  case (method_made m)
  have "\<forall>m \<in> set (mfa_methods (pf_db q)). mm_id m < pf_next q"
    using rows_okD(6) [OF ok] method_made by (fastforce simp: platform_simps)
  then show ?thesis
    using rows_okD [OF ok] method_made(1)
    by (intro rows_okI) (auto simp: platform_simps intro: keys_below_later)
next
  case id_taken
  have "\<forall>m \<in> set (mfa_methods (pf_db q)). mm_id m < pf_next q"
    using rows_okD(6) [OF ok] id_taken by (fastforce simp: platform_simps)
  then show ?thesis
    using rows_okD [OF ok] id_taken
    by (intro rows_okI) (auto simp: platform_simps intro: keys_below_later)
next
  case (deletion_filed r)
  have "\<forall>m \<in> set (mfa_methods (pf_db q)). mm_id m < pf_next q"
    using rows_okD(6) [OF ok] deletion_filed(1) by (fastforce simp: platform_simps)
  then show ?thesis
    using rows_okD [OF ok] deletion_filed
    by (intro rows_okI) (auto simp: platform_simps intro: keys_below_later)
qed (use rows_okD [OF ok] in \<open>auto simp: platform_simps intro!: rows_okI\<close>)

end
