(* ===== verification/Access.thy ===== *)
theory Access
  imports Changes
begin

text \<open>
  The handlers of sign-in as sequences of changes, and what follows for every run of them: the rows
  stay well formed, a link works once, a code's time step is used once, closing an account ends
  every access to it, and guesses are bounded.
\<close>

section \<open>One operation at a time\<close>

named_theorems change_rules \<open>one more operation after a sequence of changes\<close>

lemma noted_more:
  "changes env now p q \<Longrightarrow>
     changes env now p (q\<lparr>pf_limiter := l, pf_attempts := la, pf_outbox := ob, pf_portal := pp\<rparr>)"
  by (rule changes.more [OF _ change.noted])

lemma limiter_more [change_rules]: "changes env now p q \<Longrightarrow> changes env now p (q\<lparr>pf_limiter := l\<rparr>)"
  using noted_more [where p = p and q = q and l = l and la = "pf_attempts q" and ob = "pf_outbox q" and pp = "pf_portal q"] by simp

lemma with_limiter_more [change_rules]: "changes env now p q \<Longrightarrow> changes env now p (with_limiter f q)"
  unfolding with_limiter_def by (rule limiter_more)

lemma send_mail_more [change_rules]: "changes env now p q \<Longrightarrow> changes env now p (send_mail a l q)"
  using noted_more [where p = p and q = q and l = "pf_limiter q" and la = "pf_attempts q" and ob = "pf_outbox q @ [(a, l)]" and pp = "pf_portal q"]
  by (simp add: send_mail_def)

lemma record_attempt_more [change_rules]: "changes env now p q \<Longrightarrow> changes env now p (record_attempt rq u ok why q)"
  using noted_more [where p = p and q = q and l = "pf_limiter q" and la = "pf_attempts (record_attempt rq u ok why q)" and ob = "pf_outbox q" and pp = "pf_portal q"]
  by (simp add: record_attempt_def)

lemma set_portal_more [change_rules]: "changes env now p q \<Longrightarrow> changes env now p (set_portal i b q)"
  using noted_more [where p = p and q = q and l = "pf_limiter q" and la = "pf_attempts q" and ob = "pf_outbox q" and pp = "pf_portal (set_portal i b q)"]
  by (simp add: set_portal_def)

lemma fresh_more [change_rules]: "changes env now p q \<Longrightarrow> changes env now p (snd (fresh q))"
  by (rule changes.more [OF _ change.id_taken])

text \<open>Operations on the database, each after a sequence of others.\<close>

lemma on_db_comp: "on_db (\<lambda>db. f (g db)) q = on_db f (on_db g q)"
  by (simp add: on_db_def)

lemma on_db_same [change_rules]: "changes env now p q \<Longrightarrow> changes env now p (on_db (\<lambda>db. db) q)"
  by (simp add: on_db_def)

lemma on_db_more:
  assumes "changes env now p (on_db g q)" and "\<And>r. change env now r (on_db f r)"
  shows "changes env now p (on_db (\<lambda>db. f (g db)) q)"
  unfolding on_db_comp by (rule changes.more [OF assms])

lemma audit_more:
  assumes "changes env now p q"
  shows "changes env now p (on_db (\<lambda>db. db\<lparr>audit_log := audit_log db @ es\<rparr>) q)"
  using changes.more [OF assms change.audit [of env now q "audit_log (pf_db q) @ es"]] by (simp add: on_db_def)

lemma log_for_tenant_more [change_rules]: "changes env now p q \<Longrightarrow> changes env now p (log_for_tenant t a e i q)"
  unfolding log_for_tenant_def by (rule audit_more)

lemma log_audit_more [change_rules]:
  "changes env now p (on_db g q) \<Longrightarrow> changes env now p (on_db (\<lambda>db. log_audit s a e i (g db)) q)"
  unfolding on_db_comp [of "log_audit s a e i" g] unfolding log_audit_def by (rule audit_more)

lemma log_user_more [change_rules]: "changes env now p q \<Longrightarrow> changes env now p (log_user s a q)"
  unfolding log_user_def log_audit_def by (rule audit_more)

lemma people_all:
  "(\<And>u. user_kept now u (f u)) \<Longrightarrow> change env now r (on_db (\<lambda>db. db\<lparr>users := update_where P f (users db)\<rparr>) r)"
  by (rule change.people) simp

lemma revoke_account_sessions_more [change_rules]:
  "changes env now p (on_db g q) \<Longrightarrow> changes env now p (on_db (\<lambda>db. revoke_account_sessions now aid (g db)) q)"
  by (erule on_db_more) (unfold revoke_account_sessions_def, rule people_all, simp add: user_kept_def)

lemma revoke_all_for_user_more [change_rules]:
  "changes env now p (on_db g q) \<Longrightarrow> changes env now p (on_db (\<lambda>db. revoke_all_for_user now uid (g db)) q)"
  by (erule on_db_more) (unfold revoke_all_for_user_def, rule people_all, simp add: user_kept_def)

lemma verified_user_more [change_rules]:
  "changes env now p (on_db g q) \<Longrightarrow> changes env now p (on_db (\<lambda>db. verified_user t uid (g db)) q)"
  by (erule on_db_more) (unfold verified_user_def, rule people_all, simp add: user_kept_def)

lemma accepted_invitation_more [change_rules]:
  "changes env now p (on_db g q) \<Longrightarrow> changes env now p (on_db (\<lambda>db. accepted_invitation uid (g db)) q)"
  by (erule on_db_more) (unfold accepted_invitation_def, rule people_all, simp add: user_kept_def)

lemma accounts_all:
  "(\<And>a. account_kept a (f a)) \<Longrightarrow> change env now r (on_db (\<lambda>db. db\<lparr>accounts := update_where P f (accounts db)\<rparr>) r)"
  by (rule change.account_edited) simp

lemma verified_account_more [change_rules]:
  "changes env now p (on_db g q) \<Longrightarrow> changes env now p (on_db (\<lambda>db. verified_account t aid (g db)) q)"
  by (erule on_db_more) (unfold verified_account_def, rule accounts_all, simp add: account_kept_def)

lemma set_password_more [change_rules]:
  "changes env now p (on_db g q) \<Longrightarrow> changes env now p (on_db (\<lambda>db. set_password e aid password (g db)) q)"
  by (erule on_db_more) (unfold set_password_def, rule accounts_all, simp add: account_kept_def)

lemma stamp_login_two:
  "stamp_login now uid aid db =
     (let db1 = db\<lparr>users := update_where (\<lambda>u. u_id u = uid) (\<lambda>u. u\<lparr>u_last_login_at := Some now\<rparr>) (users db)\<rparr>
      in db1\<lparr>accounts := update_where (\<lambda>a. a_id a = aid) (\<lambda>a. a\<lparr>a_last_login_at := Some now\<rparr>) (accounts db1)\<rparr>)"
  by (simp add: stamp_login_def)

lemma stamp_login_more [change_rules]:
  assumes "changes env now p (on_db g q)"
  shows "changes env now p (on_db (\<lambda>db. stamp_login t uid aid (g db)) q)"
proof -
  have "changes env now p (on_db (\<lambda>db. db\<lparr>accounts := update_where (\<lambda>a. a_id a = aid) (\<lambda>a. a\<lparr>a_last_login_at := Some t\<rparr>) (accounts db)\<rparr>)
     (on_db (\<lambda>db. db\<lparr>users := update_where (\<lambda>u. u_id u = uid) (\<lambda>u. u\<lparr>u_last_login_at := Some t\<rparr>) (users db)\<rparr>) (on_db g q)))"
    by (rule changes.more [OF changes.more [OF assms people_all] accounts_all])
      (simp_all add: user_kept_def account_kept_def)
  then show ?thesis by (simp add: on_db_def stamp_login_def)
qed

lemma sessions_all:
  "(\<And>s. P s \<Longrightarrow> session_kept s (f s)) \<Longrightarrow>
     change env now r (on_db (\<lambda>db. db\<lparr>user_sessions := update_where P f (user_sessions db)\<rparr>) r)"
  by (rule change.session_edited) simp

lemma revoke_session_more [change_rules]:
  "changes env now p (on_db g q) \<Longrightarrow> changes env now p (on_db (\<lambda>db. revoke_session t sid (g db)) q)"
  by (erule on_db_more) (unfold revoke_session_def, rule sessions_all, simp add: session_kept_def)

lemma mark_mfa_satisfied_more [change_rules]:
  "changes env now p (on_db g q) \<Longrightarrow> changes env now p (on_db (\<lambda>db. mark_mfa_satisfied t sid (g db)) q)"
  by (erule on_db_more) (unfold mark_mfa_satisfied_def, rule sessions_all, simp add: session_kept_def)

lemma links_more:
  assumes "changes env now p q" and "\<And>db. f db = db\<lparr>reset_tokens := reset_tokens (f db)\<rparr>" and "\<And>db. links_kept db (f db)"
  shows "changes env now p (on_db f q)"
proof -
  have "on_db f q = on_db (\<lambda>db. db\<lparr>reset_tokens := reset_tokens (f (pf_db q))\<rparr>) q"
    using assms(2) [of "pf_db q"] by (simp add: on_db_def)
  moreover have "links_kept (pf_db q) ((pf_db q)\<lparr>reset_tokens := reset_tokens (f (pf_db q))\<rparr>)"
    using assms(2,3) by metis
  ultimately show ?thesis by (metis changes.more [OF assms(1)] change.links)
qed

lemma issue_token_more [change_rules]:
  assumes "changes env now p (on_db g q)"
  shows "changes env now p (on_db (\<lambda>db. snd (issue_token h t token uid ttl purpose (g db))) q)"
  unfolding on_db_comp [of "\<lambda>db. snd (issue_token h t token uid ttl purpose db)" g]
  by (rule links_more [OF assms])
    (simp_all add: links_kept_issue, simp add: issue_token_def retire_tokens_def Let_def)

lemma consume_token_rows: "snd (consume_token h t token purpose db) = db\<lparr>reset_tokens := reset_tokens (snd (consume_token h t token purpose db))\<rparr>"
  by (simp add: consume_token_def split: option.split if_split)

lemma spend_more [change_rules]:
  "changes env now p q \<Longrightarrow> changes env now p (snd (spend e rq token purpose q))"
  using links_more [of env now p q "\<lambda>db. snd (consume_token (tl_hash_token e) (rq_now rq) token purpose db)",
      OF _ consume_token_rows links_kept_consume]
  by (simp add: spend_def on_db_def case_prod_beta)

lemma codes_more:
  "changes env now p q \<Longrightarrow> changes env now p (on_db (\<lambda>db. db\<lparr>recovery_codes := cs db\<rparr>) q)"
  using changes.more [OF _ change.codes [of env now q "cs (pf_db q)"], of p] by (simp add: on_db_def)

lemma fresh_recovery_codes_more [change_rules]:
  "changes env now p (on_db g q) \<Longrightarrow> changes env now p (on_db (\<lambda>db. fresh_recovery_codes e uid cs (g db)) q)"
  unfolding on_db_comp [of "fresh_recovery_codes e uid cs" g] unfolding fresh_recovery_codes_def by (rule codes_more)

section \<open>Answers\<close>

lemma then_answer_more [change_rules]:
  assumes "changes env now p (snd r)"
    and "\<And>x q. r = (Inr x, q) \<Longrightarrow> changes env now p q \<Longrightarrow> changes env now p (snd (f x q))"
  shows "changes env now p (snd (then_answer r f))"
  using assms by (cases r rule: prod.exhaust) (auto simp: then_answer_def split: sum.split)

lemma transact_more [change_rules]:
  assumes "changes env now p q" and "\<And>x r. t = Inr (x, r) \<Longrightarrow> changes env now p r"
  shows "changes env now p (snd (transact t q))"
  using assms by (auto simp: transact_def split: sum.split)

lemma checked_more [change_rules]:
  "changes env now p q \<Longrightarrow> changes env now p (snd r) \<Longrightarrow> changes env now p (snd (checked ok r q))"
  by (simp add: checked_def)

lemma limited_more [change_rules]: "changes env now p q \<Longrightarrow> changes env now p (snd (limited m check q))"
  by (auto simp: limited_def split: prod.split option.split intro: limiter_more)

lemma changes_rows_ok: "changes env now p q \<Longrightarrow> rows_ok p \<Longrightarrow> rows_ok q"
  by (erule changes_keep) (auto intro: change_rows_ok)

section \<open>Finding and founding\<close>

lemma changes_found_ids:
  assumes "changes env now p q" and "i \<in> a_id ` set (accounts (pf_db p))"
  shows "i \<in> a_id ` set (accounts (pf_db q))"
  using assms
proof (rule changes_keep)
  fix r t assume "change env now r t" and i: "i \<in> a_id ` set (accounts (pf_db r))"
  then show "i \<in> a_id ` set (accounts (pf_db t))"
  proof cases
    case (account_edited f P)
    then show ?thesis using i by (simp add: on_db_def ids_of_edit account_kept_def)
  next
    case (account_linked a)
    then show ?thesis using i by (simp add: on_db_def store_account_def ids_of_edit)
  qed (use i in \<open>simp_all add: platform_simps use_step_def create_session_def\<close>)
qed

lemma find_mem: "find P xs = Some x \<Longrightarrow> x \<in> set xs"
  by (auto simp: find_Some_iff in_set_conv_nth)

lemma found_account_mem:
  "find_account email db = Some a \<Longrightarrow> a \<in> set (accounts db)"
  "find_account_by_login typed db = Some a \<Longrightarrow> a \<in> set (accounts db)"
  "find_account_by_suliko_id i db = Some a \<Longrightarrow> a \<in> set (accounts db)"
  by (auto simp: find_account_def find_account_by_login_def find_account_by_suliko_id_def Let_def
      split: if_split_asm dest: find_mem)

lemma add_account_new:
  assumes "add_account a (snd (fresh p)) = Inr q" and "a_id a = pf_next p"
  shows "changes env now p q" and "a_id a \<in> a_id ` set (accounts (pf_db q))"
proof -
  have "\<not> account_taken a (pf_db p)" "q = on_db (\<lambda>db. db\<lparr>accounts := accounts db @ [a]\<rparr>) (snd (fresh p))"
    using assms(1) by (auto simp: add_account_def fresh_def split: if_split_asm)
  with change.account_made [OF assms(2) this(1)] show "changes env now p q" "a_id a \<in> a_id ` set (accounts (pf_db q))"
    by (auto intro: changes_one simp: platform_simps)
qed

lemma store_account_ids: "a_id ` set (accounts (store_account a db)) = a_id ` set (accounts db)"
  by (simp add: store_account_def ids_of_edit)

lemma upsert_changes:
  assumes "upsert_from_suliko now s p = Inr (a, q)"
  shows "changes env now p q" and "a_id a \<in> a_id ` set (accounts (pf_db q))"
proof -
  have "changes env now p q \<and> a_id a \<in> a_id ` set (accounts (pf_db q))"
  proof (cases "find_account_by_suliko_id (su_id s) (pf_db p)")
    case (Some b)
    then show ?thesis using assms found_account_mem(3) [OF Some] by (simp add: upsert_from_suliko_def)
  next
    case none: None
    show ?thesis
    proof (cases "find_account_by_login (su_user_name s) (pf_db p)")
      case (Some b)
      have a: "a = link_account_to_suliko now s b" "\<not> account_taken a (pf_db p)" "q = on_db (store_account a) p"
        using assms none Some by (auto simp: upsert_from_suliko_def Let_def split: if_split_asm)
      have "a_id a = a_id b" by (simp add: a(1) link_account_to_suliko_def)
      then have "a_id a \<in> a_id ` set (accounts (pf_db p))" using found_account_mem(2) [OF Some] by force
      with a(2) show ?thesis unfolding a(3) by (auto simp: on_db_def store_account_ids intro: changes_one change.account_linked [unfolded on_db_def])
    next
      case None
      have "a_id a = pf_next p" and "add_account a (snd (fresh p)) = Inr q"
        using assms none None by (auto simp: upsert_from_suliko_def fresh_def Let_def)
      then show ?thesis using add_account_new by simp
    qed
  qed
  then show "changes env now p q" and "a_id a \<in> a_id ` set (accounts (pf_db q))" by simp_all
qed

lemma suliko_account_changes:
  assumes "account_for_suliko_user e bk now i known p = Inr (a, q)"
  shows "changes env now p q" and "a_id a \<in> a_id ` set (accounts (pf_db q))"
proof -
  have "a \<in> set (accounts (pf_db p)) \<and> q = p \<or> (\<exists>s. upsert_from_suliko now s p = Inr (a, q))"
    using assms found_account_mem(3)
    by (auto simp: account_for_suliko_user_def bind_result_Inr_iff split: option.splits)
  then show "changes env now p q" and "a_id a \<in> a_id ` set (accounts (pf_db q))"
    using upsert_changes by auto
qed

text \<open>A new workspace: a tenant and its owner's membership, both with the next identifiers.\<close>

lemma found_workspace_changes:
  assumes "found_workspace cfg folded now a name plan own accepts p = Inr (m, q)"
    and "a_id a \<in> a_id ` set (accounts (pf_db p))"
  shows "changes env now p q" and "fst m \<in> set (users (pf_db q))" and "u_account_id (fst m) = Some (a_id a)"
    and "snd m \<in> set (tenants (pf_db q))" and "u_tenant_id (fst m) = t_id (snd m)"
proof -
  obtain slug where slug: "unique_slug folded name (pf_db p) = Inr slug"
    using assms(1) by (auto simp: found_workspace_def)
  define u t where "u = fst m" and "t = snd m"
  have m: "m = (u, t)" by (simp add: u_def t_def)
  have ids: "t_id t = pf_next p" "u_id u = pf_next p + 1" "u_tenant_id u = t_id t" "u_account_id u = Some (a_id a)"
    and "t_slug t = slug"
    and q: "q = on_db (\<lambda>db. db\<lparr>tenants := tenants db @ [t], users := users db @ [u]\<rparr>) (snd (fresh (snd (fresh p))))"
    using assms(1) slug by (auto simp: found_workspace_def fresh_def Let_def u_def t_def)
  with slug have slug: "unique_slug folded name (pf_db p) = Inr (t_slug t)" by simp
  have "u_account_id u \<in> (Some \<circ> a_id) ` set (accounts (pf_db p))" using assms(2) ids(4) by auto
  from change.workspace_made [OF ids(1-3) unique_slug_fresh [OF slug] this] show "changes env now p q"
    unfolding q by (rule changes_one)
  show "fst m \<in> set (users (pf_db q))" and "u_account_id (fst m) = Some (a_id a)"
    "snd m \<in> set (tenants (pf_db q))" and "u_tenant_id (fst m) = t_id (snd m)"
    by (simp_all add: q m ids platform_simps)
qed

text \<open>A membership of an account, as the rows have it.\<close>

definition is_members :: "int \<Rightarrow> membership \<Rightarrow> platform \<Rightarrow> bool" where
  "is_members aid m p \<longleftrightarrow> fst m \<in> set (users (pf_db p)) \<and> u_account_id (fst m) = Some aid \<and>
     snd m \<in> set (tenants (pf_db p)) \<and> u_tenant_id (fst m) = t_id (snd m)"

lemma memberships_is_members: "m \<in> set (memberships order aid (pf_db p)) \<Longrightarrow> is_members aid m p"
  using memberships_mem [of "fst m" "snd m" order aid "pf_db p"] get_row_SomeD
  by (fastforce simp: is_members_def)

lemma is_members_notes:
  "is_members aid m (send_mail x y p) \<longleftrightarrow> is_members aid m p"
  "is_members aid m (log_for_tenant t a e i p) \<longleftrightarrow> is_members aid m p"
  by (simp_all add: is_members_def send_mail_def log_for_tenant_def on_db_def)

lemma resolve_choice_changes:
  assumes "resolve_choice e rq a slug want accepts p = Inr (m, q)" and "a_id a \<in> a_id ` set (accounts (pf_db p))"
  shows "changes env (rq_now rq) p q" and "is_members (a_id a) m q"
proof -
  define options where "options = memberships (tl_name_order e) (a_id a) (pf_db p)"
  consider (old) "m \<in> set options" "q = p"
    | (new) r where "create_personal_workspace (tl_cfg e) (tl_ascii_fold e) (rq_now rq) a accepts p = Inr (m, r)"
      and "q = (let p2 = log_for_tenant (t_id (snd m)) ''tenant.personal_created'' ''tenant'' (t_id (snd m)) r
         in if or_blank (a_email a) = [] then p2 else send_mail (or_blank (a_email a)) Personal_enabled p2)"
  proof (cases want)
    case True
    show thesis
    proof (cases "personal options")
      case None
      let ?made = "create_personal_workspace (tl_cfg e) (tl_ascii_fold e) (rq_now rq) a accepts p"
      have "?made \<noteq> Inl x" for x using assms(1) True None by (auto simp: resolve_choice_def options_def)
      then obtain m' r where made: "?made = Inr (m', r)" by (cases ?made) auto
      show thesis
        using assms(1) True None by (intro new [of r]) (auto simp: resolve_choice_def options_def made Let_def)
    next
      case (Some own)
      have "m = own" "q = p" using assms(1) True Some by (simp_all add: resolve_choice_def options_def)
      with personal_mem [OF Some] show thesis by (intro old) simp_all
    qed
  next
    case False
    then have "find (\<lambda>(u, t). t_slug t = lower (strip (or_blank slug))) options = Some m" "q = p"
      using assms(1) by (simp_all add: resolve_choice_def options_def Let_def split: option.splits)
    from find_mem [OF this(1)] this(2) show thesis by (rule old)
  qed
  then have "changes env (rq_now rq) p q \<and> is_members (a_id a) m q"
  proof cases
    case old
    then show ?thesis by (simp add: options_def memberships_is_members)
  next
    case (new r)
    note made = found_workspace_changes [OF new(1) [unfolded create_personal_workspace_def] assms(2)]
    have "is_members (a_id a) m r" using made(2-5) by (simp add: is_members_def)
    with made(1) show ?thesis unfolding new(2) Let_def
      by (auto simp: is_members_notes intro: change_rules)
  qed
  then show "changes env (rq_now rq) p q" and "is_members (a_id a) m q" by simp_all
qed

lemma found_bureau_changes:
  assumes "found_bureau e rq a name p = Inr (m, q)" and "a_id a \<in> a_id ` set (accounts (pf_db p))"
  shows "changes env (rq_now rq) p q" and "is_members (a_id a) m q"
proof -
  obtain r name' where r: "found_workspace (tl_cfg e) (tl_ascii_fold e) (rq_now rq) a name' (Some BUREAU) False None p = Inr (m, r)"
    and q: "q = log_for_tenant (t_id (snd m)) ''tenant.bureau_created'' ''tenant'' (t_id (snd m)) r"
    using assms(1) by (auto simp: found_bureau_def create_bureau_def Let_def split: if_split_asm)
  note made = found_workspace_changes [OF r assms(2)]
  show "changes env (rq_now rq) p q" unfolding q by (rule log_for_tenant_more) (rule made(1))
  show "is_members (a_id a) m q" using made(2-5) by (simp add: q is_members_notes, simp add: is_members_def)
qed

section \<open>Starting a session\<close>

lemma start_session_changes:
  assumes "start_session env rq token m a p = Inr (r, q)" and "is_members (a_id a) m p"
  shows "changes env (rq_now rq) p q"
proof -
  obtain u t where m: "m = (u, t)" by (cases m)
  have open_request: "open_request (a_id a) p = None"
    using assms(1) by (auto simp: start_session_def ensure_not_pending_deletion_def split: if_split_asm)
  define db0 where "db0 = pf_db p"
  define satisfied where "satisfied \<longleftrightarrow>
    \<not> (challenge_owed (tl_cfg env) db0 (u_id u) \<or> enrolment_required (tl_cfg env) db0 u)"
  have q: "q = on_db (\<lambda>db. stamp_login (rq_now rq) (u_id u) (a_id a) (snd (create_session (tl_cfg env)
      (tl_hash_token env) (rq_now rq) (pf_next p) token u (rq_ip rq) (rq_user_agent rq) satisfied None None db)))
      (snd (fresh p))"
    using assms(1) open_request
    by (auto simp: start_session_def ensure_not_pending_deletion_def m fresh_def Let_def on_db_def satisfied_def db0_def)
  show ?thesis unfolding q
    by (rule stamp_login_more, rule changes_one, rule change.session_started [of _ _ "a_id a"])
      (use assms(2) open_request in \<open>simp_all add: is_members_def m\<close>)
qed

section \<open>The handlers\<close>

lemma own_columns_free:
  assumes "rows_ok p" and "a \<in> set (accounts (pf_db p))" and "account_kept a b"
  shows "\<not> account_taken b (pf_db p)"
proof -
  have "clash b r \<longleftrightarrow> clash a r" for r using assms(3) by (simp add: clash_def account_kept_def)
  with rows_okD(7) [OF assms(1)] assms(2) show ?thesis by (simp add: taken_clash columns_unique_def)
qed

lemma authenticate_changes:
  assumes "authenticate e bk now typed password p = Inr (found, q)" and "rows_ok p"
  shows "changes env now p q"
proof -
  have "q = p \<or> (\<exists>i a. account_for_suliko_user e bk now i None p = Inr (a, q)) \<or>
      (\<exists>a h. find_account_by_login typed (pf_db p) = Some a \<and> q = on_db (store_account (a\<lparr>a_password_hash := h\<rparr>)) p)"
    using assms(1) unfolding authenticate_def Let_def
    by (auto simp: bind_result_Inr_iff split: option.splits if_split_asm prod.splits password_check.splits bool.splits)
  then show ?thesis
  proof (elim disjE exE conjE)
    fix a h assume "find_account_by_login typed (pf_db p) = Some a"
    from own_columns_free [OF assms(2) found_account_mem(2) [OF this], of "a\<lparr>a_password_hash := h\<rparr>"]
    have "\<not> account_taken (a\<lparr>a_password_hash := h\<rparr>) (pf_db p)" by (simp add: account_kept_def)
    moreover assume "q = on_db (store_account (a\<lparr>a_password_hash := h\<rparr>)) p"
    ultimately show ?thesis by (simp add: changes_one change.account_linked)
  qed (simp, rule suliko_account_changes)
qed

lemma let_in_changes:
  "changes env now p q \<Longrightarrow> changes env now p (snd (let_in e rq a name cleared q))"
  unfolding let_in_def
  by (rule then_answer_more)
    (auto simp: refuse_if_deletion_pending_def Let_def split: sum.split option.split intro: change_rules)

lemma login_changes:
  assumes "rows_ok p"
  shows "changes env (rq_now rq) p (snd (login env bk rq identifier email password p))"
  unfolding login_def Let_def
proof (rule checked_more, simp, rule then_answer_more, rule limited_more, simp)
  let ?typed = "strip (or_else_text identifier email)"
  fix p1 assume p1: "changes env (rq_now rq) p p1"
  show "changes env (rq_now rq) p (snd (then_answer (transact (authenticate env bk (rq_now rq) ?typed password p1) p1)
     (\<lambda>(found, unavailable) p2.
        if unavailable
          then (Inl (UpstreamUnavailableError ''Sign-in is temporarily unavailable. Try again in a minute.''),
                record_attempt rq (lower ?typed) False (Some ''upstream_unavailable'') p2)
        else case found of
          None \<Rightarrow> (Inl bad_login,
             record_attempt rq (lower ?typed) False (Some ''bad_credentials'')
               (with_limiter (record_login_failure (tl_cfg env) (account_key ?typed) (ip_key (rq_ip rq)) (rq_now rq)) p2))
        | Some a \<Rightarrow> let_in env rq a (lower ?typed) (Some (account_key ?typed)) p2)))"
  proof (rule then_answer_more)
    show "changes env (rq_now rq) p (snd (transact (authenticate env bk (rq_now rq) ?typed password p1) p1))"
      using p1 authenticate_changes [OF _ changes_rows_ok [OF p1 assms]] by (blast intro: transact_more changes_trans)
  qed (auto split: option.split intro!: record_attempt_more with_limiter_more let_in_changes)
qed

lemma sso_exchange_changes:
  "changes env (rq_now rq) p (snd (sso_exchange env bk rq code verifier uri p))"
  unfolding sso_exchange_def Let_def
proof (rule checked_more, simp, rule then_answer_more, rule limited_more, simp, goal_cases)
  case (1 u p1)
  have made: "changes env (rq_now rq) p q"
    if "account_for_suliko_user env bk (rq_now rq) i known p1 = Inr (a, q)" for i known a q
    by (rule changes_trans [OF suliko_account_changes(1) [OF that] 1(2)])
  show ?case
    using 1(2) by (auto simp: bind_result_def case_prod_beta split: sum.split option.split api_error.split
        intro: change_rules let_in_changes made)
qed

lemma account_from_ticket_mem:
  "account_from_ticket env now ticket p = Inr a \<Longrightarrow> a \<in> set (accounts (pf_db p))"
  by (auto simp: account_from_ticket_def bind_result_Inr_iff dest: get_row_SomeD split: option.splits if_split_asm)

lemma account_of_session_mem:
  "account_of_session session p = Inr a \<Longrightarrow> a \<in> set (accounts (pf_db p))"
  by (auto simp: account_of_session_def dest: get_row_SomeD split: option.splits)

text \<open>A session for whoever was just found or founded.\<close>

definition entered_by :: "request \<Rightarrow> tools \<Rightarrow> account \<Rightarrow> platform \<Rightarrow> (membership \<times> platform) result \<Rightarrow> bool" where
  "entered_by rq env a p entered \<longleftrightarrow>
     (\<forall>m s. entered = Inr (m, s) \<longrightarrow> changes env (rq_now rq) p s \<and> is_members (a_id a) m s)"

lemma entered_by_choice: "a \<in> set (accounts (pf_db p)) \<Longrightarrow> entered_by rq env a p (resolve_choice env rq a slug own accepts p)"
  unfolding entered_by_def using resolve_choice_changes by blast

lemma entered_by_founding: "a \<in> set (accounts (pf_db p)) \<Longrightarrow> entered_by rq env a p (found_bureau env rq a name p)"
  unfolding entered_by_def using found_bureau_changes by blast

lemma start_entered:
  assumes "entered_by rq env a p entered"
    and "bind_result entered (\<lambda>(m, s). start_session env rq token m a s) = Inr (r, q)"
  shows "changes env (rq_now rq) p q"
proof -
  obtain m s where "entered = Inr (m, s)" "start_session env rq token m a s = Inr (r, q)"
    using assms(2) by auto
  with assms(1) start_session_changes show ?thesis unfolding entered_by_def by (blast intro: changes_trans)
qed

lemma login_select_changes:
  "changes env (rq_now rq) p (snd (login_select env rq token ticket slug own accepts p))"
  unfolding login_select_def
proof (rule checked_more, simp, rule transact_more, simp, erule bind_result_InrE)
  fix x r a assume "account_from_ticket env (rq_now rq) ticket p = Inr a"
  note chosen = entered_by_choice [OF account_from_ticket_mem [OF this]]
  show "bind_result (resolve_choice env rq a slug own accepts p) (\<lambda>(m, p1). start_session env rq token m a p1) = Inr (x, r)
      \<Longrightarrow> changes env (rq_now rq) p r" by (rule start_entered [OF chosen])
qed

lemma login_create_bureau_changes:
  "changes env (rq_now rq) p (snd (login_create_bureau env rq token ticket name p))"
  unfolding login_create_bureau_def
proof (rule checked_more, simp, rule transact_more, simp, erule bind_result_InrE)
  fix x r a assume "account_from_ticket env (rq_now rq) ticket p = Inr a"
  note founded = entered_by_founding [OF account_from_ticket_mem [OF this]]
  show "bind_result (found_bureau env rq a name p) (\<lambda>(m, p1). start_session env rq token m a p1) = Inr (x, r)
      \<Longrightarrow> changes env (rq_now rq) p r" by (rule start_entered [OF founded])
qed

lemma enter_instead_changes:
  assumes "entered_by rq env a p entered" and "enter_instead env rq token session a entered = Inr (r, q)"
  shows "changes env (rq_now rq) p q"
proof -
  obtain t where start: "bind_result entered (\<lambda>(m, s). start_session env rq token m a s) = Inr (r, t)"
    and q: "q = on_db (revoke_session (rq_now rq) (as_session_id session)) t"
    using assms(2) by (auto simp: enter_instead_def)
  show ?thesis unfolding q
    by (rule revoke_session_more [of _ _ _ "\<lambda>db. db"], rule on_db_same, rule start_entered [OF assms(1) start])
qed

lemma switch_organisation_changes:
  "changes env (rq_now rq) p (snd (switch_organisation env rq token session slug own p))"
  unfolding switch_organisation_def
  by (rule checked_more, simp, rule transact_more, simp, erule bind_result_InrE)
    (rule enter_instead_changes, rule entered_by_choice, erule account_of_session_mem)

lemma create_organisation_changes:
  "changes env (rq_now rq) p (snd (create_organisation env rq token session name p))"
  unfolding create_organisation_def
  by (rule checked_more, simp, rule transact_more, simp, erule bind_result_InrE)
    (rule enter_instead_changes, rule entered_by_founding, erule account_of_session_mem)

lemma logout_changes: "changes env (rq_now rq) p (logout rq session p)"
  unfolding logout_def by (rule revoke_session_more [of _ _ _ "\<lambda>db. db"], rule on_db_same, simp)

subsection \<open>The second factor\<close>

lemma limited_db: "pf_db (snd (limited m check p)) = pf_db p"
  by (simp add: limited_def split: prod.split option.split)

lemma limited_InrD: "limited m check p = (Inr x, q) \<Longrightarrow> pf_db q = pf_db p"
  using limited_db [of m check p] by simp

lemma verify_code_after:
  assumes "verify_code otp (mm_secret m) code (mm_last_used_timestep m) now = Totp_ok n"
  shows "step_after n m"
  using assms by (auto simp: verify_code_def step_after_def Let_def split: if_split_asm option.splits)

lemma use_recovery_code_rows:
  "use_recovery_code now uid digest db = Some db' \<Longrightarrow> \<exists>cs. db' = db\<lparr>recovery_codes := cs\<rparr>"
  by (auto simp: use_recovery_code_def split: if_split_asm)

lemma prove_code_changes:
  assumes "changes env now p q" and "m \<in> set (mfa_methods (pf_db q))"
  shows "changes env now p (snd (prove_code e t uid m raw q))"
proof -
  have codes: "changes env now p (q\<lparr>pf_db := (pf_db q)\<lparr>recovery_codes := cs\<rparr>\<rparr>)" for cs
    using codes_more [OF assms(1), of "\<lambda>_. cs"] by (simp add: on_db_def)
  have used: "changes env now p (on_db (use_step (mm_id m) n) q)" if "step_after n m" for n
    by (rule changes.more [OF assms(1) change.step_used [OF assms(2) that]])
  have failed: "changes env now p (with_limiter f q)" for f by (rule with_limiter_more [OF assms(1)])
  show ?thesis
  proof (cases "CHR ''-'' \<in> set (strip raw)")
    case True
    then show ?thesis using failed codes
      by (auto simp: prove_code_def Let_def split: option.split dest!: use_recovery_code_rows)
  next
    case False
    show ?thesis
    proof (cases "verify_code (tl_otp e) (mm_secret m) (strip raw) (mm_last_used_timestep m) t")
      case (Totp_ok n)
      with False used [OF verify_code_after [OF Totp_ok]] show ?thesis
        by (simp add: prove_code_def Let_def with_limiter_more)
    qed (use False failed in \<open>simp_all add: prove_code_def Let_def\<close>)
  qed
qed

lemma method_mem:
  "confirmed_method uid db = Some m \<Longrightarrow> m \<in> set (mfa_methods db)"
  "pending_method uid db = Some m \<Longrightarrow> m \<in> set (mfa_methods db)"
  unfolding confirmed_method_def pending_method_def by (drule find_mem, simp)+

lemma verify_mfa_changes: "changes env (rq_now rq) p (snd (verify_mfa env rq session code p))"
  unfolding verify_mfa_def limit_codes_def
  by (auto intro!: then_answer_more limited_more prove_code_changes mark_mfa_satisfied_more [of _ _ _ "\<lambda>db. db"]
      on_db_same split: option.split dest: method_mem)

lemma methods_all:
  "(\<And>m. method_kept m (f m)) \<Longrightarrow> change env now r (on_db (\<lambda>db. db\<lparr>mfa_methods := update_where P f (mfa_methods db)\<rparr>) r)"
  by (rule change.method_edited) simp

lemma enrol_changes: "changes env now p (snd (enrol cfg secret session p))"
  unfolding enrol_def
proof (rule transact_more, simp, erule bind_result_InrE)
  fix x q s
  let ?drop = "\<lambda>m. \<not> (mm_user_id m = as_user_id s \<and> mm_confirmed_at m = None)"
  let ?m = "\<lparr>mm_id = pf_next p, mm_user_id = as_user_id s, mm_secret = secret, mm_confirmed_at = None,
    mm_last_used_timestep = None\<rparr>"
  let ?p1 = "on_db (\<lambda>db. db\<lparr>mfa_methods := filter ?drop (mfa_methods db)\<rparr>) p"
  assume "(if confirmed_method (as_user_id s) (pf_db p) \<noteq> None
      then Inl (ConflictError ''Two-factor authentication is already on. Turn it off first to move it to a new device.'')
      else case fresh p of (mid, p1) \<Rightarrow> Inr (secret, on_db (\<lambda>db. db\<lparr>mfa_methods :=
        filter ?drop (mfa_methods db) @ [\<lparr>mm_id = mid, mm_user_id = as_user_id s, mm_secret = secret,
          mm_confirmed_at = None, mm_last_used_timestep = None\<rparr>]\<rparr>) p1)) = Inr (x, q)"
  then have q: "q = on_db (\<lambda>db. db\<lparr>mfa_methods := mfa_methods db @ [?m]\<rparr>) (snd (fresh ?p1))"
    by (auto simp: platform_simps split: if_split_asm)
  have "change env now ?p1 q" unfolding q by (rule change.method_made) (simp add: on_db_def)
  with changes_one [OF change.method_dropped [of env now p ?drop]] show "changes env now p q"
    by (rule changes.more)
qed

lemma turn_on_more:
  assumes "changes env now p (on_db g q)"
  shows "changes env now p (on_db (\<lambda>db. (g db)\<lparr>mfa_methods :=
    update_where (\<lambda>r. mm_id r = i) (\<lambda>r. r\<lparr>mm_confirmed_at := Some t\<rparr>) (mfa_methods (g db))\<rparr>) q)"
  using changes.more [OF assms methods_all [where f = "\<lambda>r. r\<lparr>mm_confirmed_at := Some t\<rparr>" and P = "\<lambda>r. mm_id r = i"]]
  by (simp add: on_db_def method_kept_def)

lemma mfa_confirm_changes: "changes env (rq_now rq) p (snd (mfa_confirm env rq raws session code p))"
  unfolding mfa_confirm_def limit_codes_def Let_def
proof (rule then_answer_more, rule transact_more, simp, goal_cases)
  case 1
  then show ?case by (auto split: if_split_asm option.splits)
next
  case (2 m p1)
  have p1: "p1 = p" and m: "m \<in> set (mfa_methods (pf_db p))"
    using 2(1) by (auto simp: transact_def bind_result_def split: sum.splits if_split_asm option.splits dest: method_mem)
  show ?case
  proof (rule then_answer_more, rule limited_more, rule 2(2), rule then_answer_more, goal_cases)
    case (1 u p2)
    then show ?case using m by (intro prove_code_changes) (simp_all add: limited_InrD p1)
  next
    case (2 u p2 v p3)
    then show ?case
      by (auto intro!: log_user_more mark_mfa_satisfied_more fresh_recovery_codes_more
          turn_on_more [of _ _ _ "\<lambda>db. db"] on_db_same)
  qed
qed

lemma with_factor_changes: "changes env (rq_now rq) p (snd (with_factor env rq session code p))"
  unfolding with_factor_def limit_codes_def Let_def
  by (auto intro!: then_answer_more limited_more prove_code_changes split: option.split sum.split
      dest!: limited_InrD dest: method_mem)

lemma regenerate_changes: "changes env (rq_now rq) p (snd (regenerate_recovery_codes env rq raws session code p))"
  unfolding regenerate_recovery_codes_def Let_def
  by (rule then_answer_more, rule with_factor_changes)
    (auto intro!: log_user_more fresh_recovery_codes_more [of _ _ _ "\<lambda>db. db"] on_db_same)

lemma disable_more:
  assumes "changes env now p q"
  shows "changes env now p (on_db (\<lambda>db. db\<lparr>mfa_methods := filter P (mfa_methods db),
    recovery_codes := filter Q (recovery_codes db)\<rparr>) q)"
  using codes_more [OF changes.more [OF assms change.method_dropped [of env now q P]], of "\<lambda>db. filter Q (recovery_codes db)"]
  by (simp add: on_db_def)

lemma mfa_disable_changes: "changes env (rq_now rq) p (snd (mfa_disable env rq session code p))"
  unfolding mfa_disable_def
  by (simp, intro impI then_answer_more with_factor_changes) (auto intro!: log_user_more disable_more)

subsection \<open>Signing up\<close>

lemma add_account_deletions: "add_account a p = Inr q \<Longrightarrow> pf_deletions q = pf_deletions p"
  by (auto simp: add_account_def on_db_def split: if_split_asm)

lemma found_workspace_deletions:
  "found_workspace cfg folded now a name plan own accepts p = Inr (m, q) \<Longrightarrow> pf_deletions q = pf_deletions p"
  by (auto simp: found_workspace_def fresh_def on_db_def Let_def)

text \<open>A new account has not been closed: requests are of accounts that exist.\<close>

lemma open_request_mem: "open_request aid p = Some r \<Longrightarrow> r \<in> set (pf_deletions p) \<and> dr_account_id r = aid"
  by (auto simp: open_request_def find_Some_iff in_set_conv_nth)

lemma no_request_yet: "rows_ok p \<Longrightarrow> open_request (pf_next p) p = None"
proof (rule ccontr)
  assume ok: "rows_ok p" and "open_request (pf_next p) p \<noteq> None"
  then obtain r where "r \<in> set (pf_deletions p)" "dr_account_id r = pf_next p"
    using open_request_mem by blast
  with rows_okD(11) [OF ok] obtain a where "a \<in> set (accounts (pf_db p))" "a_id a = pf_next p" by fastforce
  with rows_okD(1) [OF ok] show False by (auto simp: keys_below_def)
qed

lemma sign_up_changes:
  assumes "sign_up env rq token link organisation_name full_name email password p = Inr (x, q)" and ok: "rows_ok p"
  shows "changes env (rq_now rq) p q"
proof -
  define a where "a = \<lparr>a_id = pf_next p, a_email = Some email, a_phone = None, a_suliko_user_id = None,
    a_password_hash = ha_hash (tl_hashing env) password, a_full_name = strip full_name,
    a_must_change_password = False, a_email_verified_at = None, a_last_login_at = None, a_tips_seen = [], a_created_at = rq_now rq\<rparr>"
  have id: "a_id a = pf_next p" by (simp add: a_def)
  obtain p1 u t p2 where new: "add_account a (snd (fresh p)) = Inr p1"
    and bureau: "create_bureau (tl_cfg env) (tl_ascii_fold env) (rq_now rq) a organisation_name None p1 = Inr ((u, t), p2)"
    and q: "q = send_mail email (Verification_link link)
      (log_for_tenant (t_id t) ''tenant.signed_up'' ''tenant'' (t_id t)
        (on_db (\<lambda>db. snd (issue_token (tl_hash_token env) (rq_now rq) link (u_id u)
             (hours_of (email_verification_ttl_hours (tl_cfg env))) EMAIL_VERIFICATION
             (stamp_login (rq_now rq) (u_id u) (a_id a)
               (snd (create_session (tl_cfg env) (tl_hash_token env) (rq_now rq) (pf_next p2) token u (rq_ip rq)
                  (rq_user_agent rq)
                  (\<not> (mfa_enforced (tl_cfg env) \<and> mfa_require_enrolment (tl_cfg env) \<and> requires_mfa OWNER))
                  None None db)))))
           (snd (fresh p2))))"
    using assms(1) unfolding sign_up_def Let_def a_def [symmetric] by (elim bind_result_InrE) auto
  obtain name where found: "found_workspace (tl_cfg env) (tl_ascii_fold env) (rq_now rq) a name None False None p1 = Inr ((u, t), p2)"
    using bureau by (auto simp: create_bureau_def Let_def split: if_split_asm)
  note made = add_account_new [OF new id] and workspace = found_workspace_changes [OF found add_account_new(2) [OF new id]]
  have "open_request (a_id a) p2 = None"
    using no_request_yet [OF ok] add_account_deletions [OF new] found_workspace_deletions [OF found]
    by (simp add: open_request_def id fresh_def)
  note session = change.session_started [OF workspace(2,3) this, unfolded fst_conv]
  show ?thesis unfolding q
    by (intro send_mail_more log_for_tenant_more issue_token_more stamp_login_more)
      (rule changes.more [OF changes_trans [OF workspace(1) made(1)] session])
qed

lemma signup_changes:
  assumes ok: "rows_ok p"
  shows "changes env (rq_now rq) p (snd (signup env rq token link organisation_name full_name raw_email password p))"
proof (cases "signup_enabled (tl_cfg env)")
  case True
  show ?thesis
    unfolding signup_def Let_def
    apply (rule checked_more)
     apply simp
    apply (simp only: True not_True_eq_False if_False)
    apply (rule then_answer_more)
     apply (rule limited_more)
     apply simp
    subgoal premises prems for u p1
    proof -
      have p2: "changes env (rq_now rq) p (with_limiter f p1)" for f by (rule with_limiter_more [OF prems(2)])
      show ?thesis
        using prems(2) p2 changes_trans [OF sign_up_changes [OF _ changes_rows_ok [OF p2 ok]] p2]
        by (auto split: option.split intro: transact_more)
    qed
    done
qed (simp add: signup_def checked_def Let_def)

subsection \<open>Links, passwords, leaving\<close>

lemma spend_changes:
  assumes "spend e rq token purpose q = (x, r)" and "changes env now p q"
  shows "changes env now p r"
  using spend_more [OF assms(2), of e rq token purpose] assms(1) by simp

lemma verify_email_changes: "changes env (rq_now rq) p (snd (verify_email e rq token p))"
  unfolding verify_email_def Let_def
  by (auto split: prod.split option.split
      intro!: log_for_tenant_more verified_account_more [of _ _ _ "\<lambda>db. db"] verified_user_more [of _ _ _ "\<lambda>db. db"] on_db_same
      dest: spend_changes)

lemma resend_changes: "changes env (rq_now rq) p (snd (resend_verification_email e rq link session p))"
  unfolding resend_verification_email_def Let_def
  by (auto split: option.split intro!: then_answer_more limited_more send_mail_more with_limiter_more
      issue_token_more [of _ _ _ "\<lambda>db. db"] on_db_same)

lemma forgot_password_changes: "changes env (rq_now rq) p (snd (forgot_password e rq link raw_email p))"
  unfolding forgot_password_def Let_def
  by (auto split: option.split prod.split intro!: then_answer_more limited_more send_mail_more with_limiter_more
      log_for_tenant_more issue_token_more [of _ _ _ "\<lambda>db. db"] on_db_same)

lemma reset_password_changes: "changes env (rq_now rq) p (snd (reset_password e rq token password p))"
  unfolding reset_password_def Let_def
  by (auto split: option.split prod.split
      intro!: log_for_tenant_more revoke_account_sessions_more accepted_invitation_more verified_user_more
        verified_account_more set_password_more [of _ _ _ "\<lambda>db. db"] on_db_same
      dest: spend_changes)

lemma change_password_changes: "changes env (rq_now rq) p (snd (change_password e rq session current new p))"
  unfolding change_password_def Let_def
  by (auto split: option.split sum.split
      intro!: log_user_more revoke_account_sessions_more set_password_more [of _ _ _ "\<lambda>db. db"] on_db_same)

lemma accept_invitation_changes: "changes env (rq_now rq) p (snd (accept_invitation e rq token p))"
  unfolding accept_invitation_def Let_def
  by (auto split: prod.split option.split
      intro!: log_for_tenant_more accepted_invitation_more [of _ _ _ "\<lambda>db. db"] on_db_same
      dest: spend_changes)

lemma store_user_change:
  assumes "rows_ok p" and "u \<in> set (users (pf_db p))" and "user_kept now u v"
  shows "change env now p (on_db (store_user v) p)"
proof -
  have "w = u" if "w \<in> set (users (pf_db p))" "u_id w = u_id u" for w
    using rows_okD(2) [OF assms(1)] that assms(2) by (auto simp: keys_below_def distinct_map dest: inj_onD)
  with assms(3) show ?thesis
    unfolding store_user_def by (intro change.people) (auto simp: user_kept_def)
qed

lemma leave_changes:
  assumes "rows_ok p"
  shows "changes env (rq_now rq) p (snd (leave_organisation e rq caller password p))"
  unfolding leave_organisation_def
proof (rule transact_more, simp, erule bind_result_InrE)
  fix x q session
  assume "(if \<not> text_ok 0 1024 (or_blank password) then Inl invalid_payload
     else if is_impersonated session
       then Inl (ValidationError ''You cannot close an account while acting as someone else.'')
     else case get_member session (as_user_id session) (pf_db p) of
       None \<Rightarrow> Inl (AuthenticationError ''Your account is no longer available.'')
     | Some u \<Rightarrow> bind_result (require_own_password e (session_account session p) password) (\<lambda>_.
         if would_strand_organisation u (pf_db p)
           then Inl (ConflictError ''You are the only owner. Make someone else an owner under Users first, then you can close your access.'')
         else Inr ((), log_user session ''user.left''
           (on_db (\<lambda>db. revoke_all_for_user (rq_now rq) (u_id u) (store_user (u\<lparr>u_is_active := False\<rparr>) db)) p)))) = Inr (x, q)"
  then obtain u where u: "get_member session (as_user_id session) (pf_db p) = Some u"
    and q: "q = log_user session ''user.left''
      (on_db (\<lambda>db. revoke_all_for_user (rq_now rq) (u_id u) (store_user (u\<lparr>u_is_active := False\<rparr>) db)) p)"
    by (auto split: if_split_asm option.splits)
  have mem: "u \<in> set (users (pf_db p))"
    using u by (auto simp: get_member_def dest: get_row_SomeD split: option.splits if_split_asm)
  have "user_kept (rq_now rq) u (u\<lparr>u_is_active := False\<rparr>)" by (simp add: user_kept_def)
  from store_user_change [OF assms mem this] show "changes env (rq_now rq) p q"
    unfolding q by (intro log_user_more revoke_all_for_user_more changes_one)
qed

lemma find_append: "find P (xs @ ys) = (case find P xs of None \<Rightarrow> find P ys | Some x \<Rightarrow> Some x)"
  by (induction xs) simp_all

lemma file_request_changes:
  assumes "file_request now a p = Inr (r, q)" and "a \<in> set (accounts (pf_db p))"
  shows "changes env now p q" and "open_request (a_id a) p = None" and "open_request (a_id a) q = Some r"
    and "pf_db q = pf_db p"
proof -
  have r: "dr_id r = pf_next p" "dr_account_id r = a_id a" "freshly_filed now r"
    and none: "open_request (a_id a) p = None"
    and q: "q = (snd (fresh p))\<lparr>pf_deletions := pf_deletions p @ [r]\<rparr> \<or>
      (\<exists>i. q = set_portal i False ((snd (fresh p))\<lparr>pf_deletions := pf_deletions p @ [r]\<rparr>))"
    using assms(1) by (auto simp: file_request_def fresh_def Let_def freshly_filed_def split: if_split_asm option.splits)
  have known: "dr_account_id r \<in> a_id ` set (accounts (pf_db p))" using r(2) assms(2) by simp
  have first: "open_request (dr_account_id r) p = None" using none r(2) by simp
  from changes_one [OF change.deletion_filed [OF r(1,3) first known]] q show "changes env now p q"
    by (auto intro: set_portal_more)
  show "open_request (a_id a) p = None" by (fact none)
  have "pf_deletions q = pf_deletions p @ [r]" using q by (auto simp: set_portal_def)
  with none r show "open_request (a_id a) q = Some r"
    by (simp add: open_request_def OPEN_DELETION_STATUSES_def find_append freshly_filed_def)
  show "pf_db q = pf_db p" using q by (auto simp: set_portal_def fresh_def)
qed

text \<open>What filing a request leaves behind.\<close>

lemma deletion_filedE:
  assumes "request_account_deletion env rq support caller password p = (Inr r, q)"
  obtains session a p1 where "get_authenticated_session (tl_cfg env) caller = Inr session"
    and "session_account session p = Some a" and "file_request (rq_now rq) a p = Inr (r, p1)"
    and "q = (let p2 = on_db (\<lambda>db. log_audit session ''account.deletion_requested'' ''account'' (a_id a)
                        (revoke_account_sessions (rq_now rq) (a_id a) db)) p1;
                 p3 = send_mail support Deletion_for_team p2
             in if or_blank (a_email a) = [] then p3 else send_mail (or_blank (a_email a)) Deletion_for_person p3)"
  using assms unfolding request_account_deletion_def
  by (auto simp: transact_def bind_result_def Let_def split: sum.splits if_split_asm option.splits)

lemma session_account_mem: "session_account session p = Some a \<Longrightarrow> a \<in> set (accounts (pf_db p))"
  by (auto simp: session_account_def dest: get_row_SomeD split: option.splits if_split_asm)

lemma deletion_changes:
  "changes env (rq_now rq) p (snd (request_account_deletion env rq support caller password p))"
proof (cases "request_account_deletion env rq support caller password p")
  case (Pair r q)
  show ?thesis
  proof (cases r)
    case (Inl e)
    then have "q = p" using Pair by (auto simp: request_account_deletion_def transact_def split: sum.splits)
    then show ?thesis by (simp add: Pair)
  next
    case (Inr d)
    show ?thesis
    proof (rule deletion_filedE [OF Pair [unfolded Inr]])
      fix session a p1
      assume "session_account session p = Some a" and filed: "file_request (rq_now rq) a p = Inr (d, p1)"
        and q: "q = (let p2 = on_db (\<lambda>db. log_audit session ''account.deletion_requested'' ''account'' (a_id a)
                        (revoke_account_sessions (rq_now rq) (a_id a) db)) p1;
                 p3 = send_mail support Deletion_for_team p2
             in if or_blank (a_email a) = [] then p3 else send_mail (or_blank (a_email a)) Deletion_for_person p3)"
      then have "changes env (rq_now rq) p p1" by (blast intro: file_request_changes session_account_mem)
      then have "changes env (rq_now rq) p q" unfolding q Let_def
        by (auto intro!: send_mail_more log_audit_more revoke_account_sessions_more [of _ _ _ "\<lambda>db. db"] on_db_same)
      then show ?thesis by (simp add: Pair)
    qed
  qed
qed

end
