(* ===== verification/Runs.thy ===== *)
theory Runs
  imports Access
begin

text \<open>
  Runs of sign-in: any interleaving of the handlers, of requests that resolve a session and of links
  mailed by other parts of the program, under a clock that never goes back. What suliko.ge answers
  may differ at every step.
\<close>

section \<open>Runs\<close>

inductive auth_step :: "tools \<Rightarrow> platform \<times> instant \<Rightarrow> platform \<times> instant \<Rightarrow> bool" for env where
  tick: "now \<le> later \<Longrightarrow> auth_step env (p, now) (p, later)"
| request_seen: "auth_step env (p, now)
    (on_db (\<lambda>db. snd (resolve_session (tl_cfg env) (tl_hash_token env) token now db)) p, now)"
| link_mailed: "auth_step env (p, now)
    (on_db (\<lambda>db. snd (issue_token (tl_hash_token env) now link uid ttl purpose db)) p, now)"
| logged_in: "auth_step env (p, rq_now rq) (snd (login env bk rq identifier email password p), rq_now rq)"
| sso_done: "auth_step env (p, rq_now rq) (snd (sso_exchange env bk rq code verifier uri p), rq_now rq)"
| selected: "auth_step env (p, rq_now rq) (snd (login_select env rq token ticket slug own accepts p), rq_now rq)"
| bureau_created: "auth_step env (p, rq_now rq) (snd (login_create_bureau env rq token ticket name p), rq_now rq)"
| switched: "auth_step env (p, rq_now rq) (snd (switch_organisation env rq token session slug own p), rq_now rq)"
| organisation_created: "auth_step env (p, rq_now rq) (snd (create_organisation env rq token session name p), rq_now rq)"
| logged_out: "auth_step env (p, rq_now rq) (logout rq session p, rq_now rq)"
| code_entered: "auth_step env (p, rq_now rq) (snd (verify_mfa env rq session code p), rq_now rq)"
| enrolment: "auth_step env (p, now) (snd (enrol (tl_cfg env) secret session p), now)"
| enrolment_confirmed: "auth_step env (p, rq_now rq) (snd (mfa_confirm env rq raws session code p), rq_now rq)"
| codes_replaced: "auth_step env (p, rq_now rq) (snd (regenerate_recovery_codes env rq raws session code p), rq_now rq)"
| factor_disabled: "auth_step env (p, rq_now rq) (snd (mfa_disable env rq session code p), rq_now rq)"
| signed_up: "auth_step env (p, rq_now rq)
    (snd (signup env rq token link organisation_name full_name raw_email password p), rq_now rq)"
| address_confirmed: "auth_step env (p, rq_now rq) (snd (verify_email env rq token p), rq_now rq)"
| link_asked: "auth_step env (p, rq_now rq) (snd (resend_verification_email env rq link session p), rq_now rq)"
| password_forgotten: "auth_step env (p, rq_now rq) (snd (forgot_password env rq link raw_email p), rq_now rq)"
| password_was_reset: "auth_step env (p, rq_now rq) (snd (reset_password env rq token password p), rq_now rq)"
| password_changed: "auth_step env (p, rq_now rq) (snd (change_password env rq session current new p), rq_now rq)"
| member_left: "auth_step env (p, rq_now rq) (snd (leave_organisation env rq session own_password p), rq_now rq)"
| deletion_asked: "auth_step env (p, rq_now rq)
    (snd (request_account_deletion env rq support session own_password p), rq_now rq)"
| invitation_accepted: "auth_step env (p, rq_now rq) (snd (accept_invitation env rq token p), rq_now rq)"

inductive auth_run :: "tools \<Rightarrow> platform \<times> instant \<Rightarrow> platform \<times> instant \<Rightarrow> bool" for env where
  still: "auth_run env c c"
| further: "auth_run env c d \<Longrightarrow> auth_step env d e \<Longrightarrow> auth_run env c e"

lemma resolve_more [change_rules]:
  assumes "changes env now p q"
  shows "changes env now p (on_db (\<lambda>db. snd (resolve_session cfg h token t db)) q)"
proof -
  obtain found db where r: "resolve_session cfg h token t (pf_db q) = (found, db)" by fastforce
  show ?thesis
  proof (cases found)
    case None
    then have "db = pf_db q" using r by (auto simp: resolve_session_def split: if_splits option.splits)
    then show ?thesis using assms r by (simp add: on_db_def)
  next
    case (Some a)
    from r [unfolded Some] obtain i where
      db: "db = (pf_db q)\<lparr>user_sessions := update_where (\<lambda>r. us_id r = i) (slide cfg t) (user_sessions (pf_db q))\<rparr>"
      by (auto elim: resolve_session_SomeE)
    have "change env now q (on_db (\<lambda>db. db\<lparr>user_sessions := update_where (\<lambda>r. us_id r = i) (slide cfg t) (user_sessions db)\<rparr>) q)"
      by (rule sessions_all) (simp add: session_kept_def, simp add: slide_def)
    with assms show ?thesis using r db by (simp add: on_db_def changes.more)
  qed
qed

text \<open>Every step is a sequence of changes at the moment it happens.\<close>

lemma step_changes:
  assumes "auth_step env (p, now) (q, later)" and "rows_ok p"
  shows "changes env now p q" and "now \<le> later"
proof -
  have "changes env now p q \<and> now \<le> later"
    using assms(1)
  proof cases
    case (link_mailed link uid ttl purpose)
    then show ?thesis using issue_token_more [of env now p "\<lambda>db. db"] by (simp add: on_db_def)
  qed (use assms(2) in \<open>simp_all add: login_changes sso_exchange_changes login_select_changes login_create_bureau_changes
      switch_organisation_changes create_organisation_changes logout_changes verify_mfa_changes enrol_changes
      mfa_confirm_changes regenerate_changes mfa_disable_changes signup_changes verify_email_changes resend_changes
      forgot_password_changes reset_password_changes change_password_changes leave_changes deletion_changes
      accept_invitation_changes resolve_more\<close>)
  then show "changes env now p q" and "now \<le> later" by simp_all
qed

text \<open>What every kind of change keeps, and time does not spoil, holds after every run.\<close>

lemma run_keeps:
  assumes "auth_run env c d" and "rows_ok (fst c)" and "I (snd c) (fst c)"
    and kept: "\<And>now p q. change env now p q \<Longrightarrow> rows_ok p \<Longrightarrow> I now p \<Longrightarrow> I now q"
    and later: "\<And>now later p. now \<le> later \<Longrightarrow> I now p \<Longrightarrow> I later p"
  shows "rows_ok (fst d) \<and> I (snd d) (fst d)"
  using assms(1-3)
proof (induction rule: auth_run.induct)
  case (further c d e)
  obtain p now q t where de: "d = (p, now)" "e = (q, t)" by (cases d; cases e) auto
  have p: "rows_ok p" "I now p" using further de by auto
  note made = step_changes [OF further.hyps(2) [unfolded de] p(1)]
  have "rows_ok q \<and> I now q"
    using made(1) p by (rule changes_keep [where I = "\<lambda>r. rows_ok r \<and> I now r", OF _ conjI])
      (auto intro: change_rows_ok kept)
  then show ?case using later [OF made(2)] by (simp add: de)
qed simp

section \<open>An example\<close>

definition ex_account :: account where
  "ex_account = \<lparr>a_id = 5, a_email = Some ''nino@acme.ge'', a_phone = Some ''599123456'', a_suliko_user_id = None,
     a_password_hash = ''ok:an old password'', a_full_name = ''Nino'', a_must_change_password = False,
     a_email_verified_at = None, a_last_login_at = None, a_tips_seen = [], a_created_at = 0\<rparr>"

definition ex_hashing :: hashing where
  "ex_hashing = \<lparr>ha_argon_verify = (\<lambda>h w. h = ''ok:'' @ w), ha_bcrypt_check = (\<lambda>_ _. False),
     ha_outdated = (\<lambda>_. False), ha_hash = (\<lambda>w. ''ok:'' @ w)\<rparr>"

definition ex_env :: tools where
  "ex_env = \<lparr>tl_cfg = default_settings\<lparr>mfa_enforced := True\<rparr>, tl_hashing = ex_hashing, tl_hash_token = id,
     tl_key = \<lparr>tk_sign = (\<lambda>_. ''ff''), tk_fingerprint = (\<lambda>_. ''ab'')\<rparr>,
     tl_otp = (\<lambda>_ n. if n = 33 then ''123456'' else ''000000''), tl_name_order = (\<lambda>_. 0), tl_ascii_fold = id\<rparr>"

definition ex_platform :: platform where
  "ex_platform = \<lparr>pf_db = ex_id_db\<lparr>users := [ex_user\<lparr>u_account_id := Some 5\<rparr>], accounts := [ex_account],
       mfa_methods := [\<lparr>mm_id = 9, mm_user_id = 7, mm_secret = ''s'', mm_confirmed_at = Some 0,
         mm_last_used_timestep = None\<rparr>],
       reset_tokens := [\<lparr>rt_user_id = 7, rt_token_hash = ''link'', rt_expires_at = seconds 5000, rt_used_at = None,
         rt_purpose = PASSWORD_RESET\<rparr>]\<rparr>,
     pf_next = 100, pf_deletions = [], pf_attempts = [], pf_portal = [], pf_limiter = Local (\<lambda>_. []), pf_outbox = []\<rparr>"

definition ex_request :: request where
  "ex_request = \<lparr>rq_now = seconds 1000, rq_ip = Some ''1.2.3.4'', rq_user_agent = None\<rparr>"

definition ex_password :: string where "ex_password = ''Correct horse 12''"

definition ex_session_of_nino :: auth_session where
  "ex_session_of_nino = authenticated (pf_db ex_platform) (ex_session\<lparr>us_mfa_satisfied_at := Some 100\<rparr>)
     (ex_user\<lparr>u_account_id := Some 5\<rparr>) ex_tenant"

lemmas ex_platform_defs = ex_platform_def ex_account_def ex_env_def ex_hashing_def ex_request_def ex_id_defs

lemma ex_rows_ok: "rows_ok ex_platform"
  by (simp add: rows_ok_def keys_below_def account_taken_def ex_platform_defs)

lemma ex_reset: "fst (reset_password ex_env ex_request ''link'' ex_password ex_platform) = Inr ()"
  by code_simp

lemma ex_code: "fst (verify_mfa ex_env ex_request ex_session_of_nino ''123456'' ex_platform) = Inr (as_permissions ex_session_of_nino)"
  by code_simp

lemma ex_deletion:
  "(case fst (request_account_deletion ex_env ex_request ''team'' ex_session_of_nino (Some ''an old password'') ex_platform) of
     Inl _ \<Rightarrow> False | Inr d \<Rightarrow> dr_account_id d = 5)"
  by code_simp

lemma ex_old_sessions: "\<forall>s \<in> set (user_sessions (pf_db ex_platform)). us_created_at s < rq_now ex_request"
  by (simp add: ex_platform_defs time_units)

text \<open>A run of one more mailed link.\<close>

lemma ex_run: "auth_run env (p, rq_now rq)
    (snd (forgot_password env rq ''another link'' ''nino@acme.ge'' p), rq_now rq)"
  by (rule auth_run.further [OF auth_run.still auth_step.password_forgotten])

section \<open>Links\<close>

definition link_used :: "tools \<Rightarrow> request \<Rightarrow> string \<Rightarrow> platform \<Rightarrow> platform \<Rightarrow> bool" where
  "link_used env rq token p q \<longleftrightarrow>
     (\<exists>password. reset_password env rq token password p = (Inr (), q)) \<or>
     (\<exists>slug. verify_email env rq token p = (Inr slug, q)) \<or>
     (\<exists>org. accept_invitation env rq token p = (Inr org, q))"

lemma change_links_kept: "change env now p q \<Longrightarrow> links_kept (pf_db p) (pf_db q)"
  by (cases rule: change.cases)
    (auto simp: platform_simps create_session_def store_account_def use_step_def intro: links_kept_same)

lemma run_links_kept:
  assumes "auth_run env c d" and "rows_ok (fst c)" and "links_kept db (pf_db (fst c))"
  shows "links_kept db (pf_db (fst d))"
  using run_keeps [where I = "\<lambda>_ p. links_kept db (pf_db p)", OF assms(1,2) assms(3)]
  by (meson change_links_kept links_kept_trans)

lemma reset_passwordE:
  assumes "reset_password env rq token password p = (Inr (), q)"
  obtains u p1 a where "spend env rq token PASSWORD_RESET p = (Some u, p1)" and "account_of (pf_db p1) u = Some a"
    and "a_suliko_user_id a = None" and "validate_password_strength password = []"
    and "token_length_ok token" and "password_length_ok password"
    and "q = log_for_tenant (u_tenant_id u) ''user.password_reset_completed'' ''user'' (u_id u)
      (on_db (\<lambda>db. revoke_account_sessions (rq_now rq) (a_id a)
        (accepted_invitation (u_id u) (verified_user (rq_now rq) (u_id u)
          (verified_account (rq_now rq) (a_id a) (set_password env (a_id a) password db))))) p1)"
  using assms by (auto simp: reset_password_def split: if_split_asm option.splits prod.splits)

lemma link_used_spends:
  assumes "link_used env rq token p q"
  obtains u purpose db where "consume_token (tl_hash_token env) (rq_now rq) token purpose (pf_db p) = (Some u, db)"
    and "reset_tokens (pf_db q) = reset_tokens db"
proof -
  have "\<exists>purpose u p1. spend env rq token purpose p = (Some u, p1) \<and> reset_tokens (pf_db q) = reset_tokens (pf_db p1)"
    using assms unfolding link_used_def
  proof (elim disjE exE)
    fix password assume "reset_password env rq token password p = (Inr (), q)"
    then show ?thesis
      by (rule reset_passwordE) (auto simp: log_for_tenant_def on_db_def revoke_account_sessions_def accepted_invitation_def
          verified_user_def verified_account_def set_password_def)
  next
    fix slug assume "verify_email env rq token p = (Inr slug, q)"
    then show ?thesis
      by (auto simp: verify_email_def Let_def log_for_tenant_def on_db_def verified_user_def verified_account_def
          split: if_split_asm option.splits prod.splits) blast+
  next
    fix org assume "accept_invitation env rq token p = (Inr org, q)"
    then show ?thesis
      by (auto simp: accept_invitation_def log_for_tenant_def on_db_def accepted_invitation_def
          split: if_split_asm option.splits prod.splits) blast
  qed
  then obtain purpose u p1 where "spend env rq token purpose p = (Some u, p1)"
    and "reset_tokens (pf_db q) = reset_tokens (pf_db p1)" by blast
  then show thesis by (intro that [of purpose u "pf_db p1"]) (auto simp: spend_def split: prod.splits)
qed

text \<open>C13: a link works once: after it has set a password, confirmed an address or accepted an invitation, no
  run of sign-in, whatever links are mailed in between, brings the state back to one where the same link is
  accepted for any of the three.\<close>

theorem link_works_once:
  assumes "rows_ok q" and "link_used env rq token p q" and "auth_run env (q, now) (r, later)"
  shows "\<not> link_used env rq' token r r'"
proof
  obtain u purpose db where used: "consume_token (tl_hash_token env) (rq_now rq) token purpose (pf_db p) = (Some u, db)"
    and kept: "reset_tokens (pf_db q) = reset_tokens db"
    by (rule link_used_spends [OF assms(2)])
  have "links_kept db (pf_db r)"
    using run_links_kept [OF assms(3)] assms(1) links_kept_same [OF kept] by simp
  note dead = spent_link_stays_spent [OF used this]
  assume "link_used env rq' token r r'"
  then show False
    by (rule link_used_spends) (use dead in simp)
qed

theorem link_works_once_witness:
  "let q = snd (reset_password ex_env ex_request ''link'' ex_password ex_platform) in
     \<not> link_used ex_env ex_request ''link'' (snd (forgot_password ex_env ex_request ''another link'' ''nino@acme.ge'' q)) q"
  unfolding Let_def
proof (rule link_works_once)
  show "rows_ok (snd (reset_password ex_env ex_request ''link'' ex_password ex_platform))"
    by (rule changes_rows_ok [OF reset_password_changes ex_rows_ok])
  show "link_used ex_env ex_request ''link'' ex_platform (snd (reset_password ex_env ex_request ''link'' ex_password ex_platform))"
    unfolding link_used_def using ex_reset by (metis prod.collapse)
qed (rule ex_run)

section \<open>Time-based codes\<close>

text \<open>Every row of the method \<open>mid\<close> has accepted step \<open>n\<close> or a later one.\<close>

definition step_spent :: "int \<Rightarrow> int \<Rightarrow> platform \<Rightarrow> bool" where
  "step_spent mid n p \<longleftrightarrow> mid < pf_next p \<and>
     (\<forall>m \<in> set (mfa_methods (pf_db p)). mm_id m = mid \<longrightarrow> (\<exists>k. mm_last_used_timestep m = Some k \<and> n \<le> k))"

lemma change_step_spent:
  assumes "change env now p q" and spent: "step_spent mid n p"
  shows "step_spent mid n q"
  using assms(1)
proof cases
  case (step_used m k)
  have "n \<le> k" if "mm_id m = mid"
    using step_used(2,3) spent that by (fastforce simp: step_spent_def step_after_def)
  then show ?thesis
    using spent step_used(1) by (auto simp: step_spent_def on_db_def use_step_def set_update_where)
next
  case (method_edited f P)
  then show ?thesis using spent by (auto simp: step_spent_def on_db_def set_update_where method_kept_def)
next
  case (method_made m)
  then show ?thesis using spent by (auto simp: step_spent_def platform_simps)
qed (use spent in \<open>auto simp: step_spent_def platform_simps create_session_def store_account_def\<close>)

lemma run_step_spent:
  "auth_run env c d \<Longrightarrow> rows_ok (fst c) \<Longrightarrow> step_spent mid n (fst c) \<Longrightarrow> step_spent mid n (fst d)"
  using run_keeps [where I = "\<lambda>_. step_spent mid n"] change_step_spent by blast

lemma verify_mfa_step:
  assumes "verify_mfa env rq session code p = (Inr granted, q)" and "CHR ''-'' \<notin> set (strip code)"
    and "confirmed_method (as_user_id session) (pf_db p) = Some m"
  obtains n p2 where "verify_code (tl_otp env) (mm_secret m) (strip code) (mm_last_used_timestep m) (rq_now rq) = Totp_ok n"
    and "pf_db p2 = use_step (mm_id m) n (pf_db p)" and "pf_next p2 = pf_next p"
    and "q = on_db (mark_mfa_satisfied (rq_now rq) (as_session_id session)) p2"
proof -
  obtain p1 where p1: "limit_codes env (rq_now rq) (as_user_id session) p = (Inr (), p1)"
    using assms(1) by (auto simp: verify_mfa_def then_answer_def split: prod.splits sum.splits if_split_asm)
  have same: "pf_db p1 = pf_db p" "pf_next p1 = pf_next p"
    using p1 by (auto simp: limit_codes_def limited_def split: prod.splits option.splits)
  obtain p2 where p2: "prove_code env (rq_now rq) (as_user_id session) m code p1 = (Inr (), p2)"
    and q: "q = on_db (mark_mfa_satisfied (rq_now rq) (as_session_id session)) p2"
    using assms(1,3) p1 same
    by (auto simp: verify_mfa_def then_answer_def split: prod.splits sum.splits if_split_asm)
  obtain n where "verify_code (tl_otp env) (mm_secret m) (strip code) (mm_last_used_timestep m) (rq_now rq) = Totp_ok n"
    and "p2 = with_limiter (clear_count (mfa_key (as_user_id session))) (on_db (use_step (mm_id m) n) p1)"
    using p2 assms(2) by (auto simp: prove_code_def Let_def split: totp_verification.splits)
  with q same show thesis by (intro that [of n p2]) (auto simp: with_limiter_def on_db_def)
qed

text \<open>C20: a code's time step is accepted once: after a session has been satisfied with the code of some step,
  no run of sign-in brings the same method back to accepting a code of that step or of an earlier one.\<close>

theorem codes_move_forward:
  assumes "rows_ok p" and "verify_mfa env rq session code p = (Inr granted, q)" and "CHR ''-'' \<notin> set (strip code)"
    and "confirmed_method (as_user_id session) (pf_db p) = Some m"
    and "auth_run env (q, rq_now rq) (r, later)" and "m' \<in> set (mfa_methods (pf_db r))" and "mm_id m' = mm_id m"
  shows "\<exists>n. verify_code (tl_otp env) (mm_secret m) (strip code) (mm_last_used_timestep m) (rq_now rq) = Totp_ok n \<and>
    (\<forall>typed t k. verify_code (tl_otp env) (mm_secret m') typed (mm_last_used_timestep m') t = Totp_ok k \<longrightarrow> n < k)"
proof -
  obtain n p2 where n: "verify_code (tl_otp env) (mm_secret m) (strip code) (mm_last_used_timestep m) (rq_now rq) = Totp_ok n"
    and p2: "pf_db p2 = use_step (mm_id m) n (pf_db p)" "pf_next p2 = pf_next p"
    and q: "q = on_db (mark_mfa_satisfied (rq_now rq) (as_session_id session)) p2"
    by (rule verify_mfa_step [OF assms(2-4)])
  have "rows_ok q" using changes_rows_ok [OF verify_mfa_changes assms(1), of env rq session code] assms(2) by simp
  moreover have "step_spent (mm_id m) n q"
    using rows_okD(6) [OF assms(1)] method_mem(1) [OF assms(4)] p2
    by (auto simp: q on_db_def mark_mfa_satisfied_def step_spent_def use_step_def set_update_where)
  ultimately have "step_spent (mm_id m) n r" using run_step_spent [OF assms(5)] by simp
  then obtain k' where "mm_last_used_timestep m' = Some k'" "n \<le> k'"
    using assms(6,7) by (auto simp: step_spent_def)
  then have "n < k" if "verify_code (tl_otp env) (mm_secret m') typed (mm_last_used_timestep m') t = Totp_ok k" for typed t k
    using verify_code_after [OF that] by (simp add: step_after_def)
  with n show ?thesis by blast
qed

theorem codes_move_forward_witness:
  "let q = snd (verify_mfa ex_env ex_request ex_session_of_nino ''123456'' ex_platform);
       r = snd (forgot_password ex_env ex_request ''another link'' ''nino@acme.ge'' q)
   in \<forall>m' \<in> set (mfa_methods (pf_db r)). mm_id m' = 9 \<longrightarrow>
        (\<exists>n. verify_code (tl_otp ex_env) ''s'' (strip ''123456'') None (rq_now ex_request) = Totp_ok n \<and>
           (\<forall>typed t k. verify_code (tl_otp ex_env) (mm_secret m') typed (mm_last_used_timestep m') t = Totp_ok k \<longrightarrow> n < k))"
proof -
  define m where "m = \<lparr>mm_id = 9, mm_user_id = 7, mm_secret = ''s'', mm_confirmed_at = Some 0, mm_last_used_timestep = None\<rparr>"
  have m: "confirmed_method (as_user_id ex_session_of_nino) (pf_db ex_platform) = Some m"
    by (simp add: confirmed_method_def ex_session_of_nino_def authenticated_def ex_platform_defs m_def Let_def)
  have ok: "verify_mfa ex_env ex_request ex_session_of_nino ''123456'' ex_platform =
      (Inr (as_permissions ex_session_of_nino), snd (verify_mfa ex_env ex_request ex_session_of_nino ''123456'' ex_platform))"
    using ex_code by (metis prod.collapse)
  have plain: "CHR ''-'' \<notin> set (strip ''123456'')" by code_simp
  show ?thesis unfolding Let_def
    using codes_move_forward [OF ex_rows_ok ok plain m ex_run] by (simp add: m_def)
qed

section \<open>Well-formed rows\<close>

text \<open>C19: sign-in keeps the rows well formed: identifiers, handles and the unique columns of an account stay
  unique, and every session, member and deletion request keeps pointing at rows that exist.\<close>

theorem sign_in_keeps_rows:
  assumes "rows_ok p" and "auth_run env (p, now) (q, later)"
  shows "rows_ok q"
  using run_keeps [where I = "\<lambda>_ _. True", OF assms(2)] assms(1) by simp

theorem sign_in_keeps_rows_witness:
  "rows_ok (snd (forgot_password ex_env ex_request ''another link'' ''nino@acme.ge'' ex_platform))"
  by (rule sign_in_keeps_rows [OF ex_rows_ok ex_run])

section \<open>Closed accounts\<close>

lemma account_from_ticketE:
  assumes "account_from_ticket env t ticket p = Inr a"
  obtains "read_ticket (tl_key env) t ticket = Inr (a_id a)" and "a \<in> set (accounts (pf_db p))"
    and "matches_ticket (tl_key env) ticket (a_password_hash a)" and "open_request (a_id a) p = None"
proof -
  obtain aid where aid: "read_ticket (tl_key env) t ticket = Inr aid" and
    a: "(case get_row a_id aid (accounts (pf_db p)) of None \<Rightarrow> Inl ticket_error
       | Some a \<Rightarrow> if \<not> matches_ticket (tl_key env) ticket (a_password_hash a) then Inl ticket_error
           else bind_result (ensure_not_pending_deletion (a_id a) p) (\<lambda>_. Inr a)) = Inr a"
    using assms unfolding account_from_ticket_def by (elim bind_result_InrE)
  obtain b where row: "get_row a_id aid (accounts (pf_db p)) = Some b"
    using a by (cases "get_row a_id aid (accounts (pf_db p))") auto
  have "b = a" "matches_ticket (tl_key env) ticket (a_password_hash a)" "open_request (a_id a) p = None"
    using a row by (auto simp: ensure_not_pending_deletion_def bind_result_def split: if_split_asm)
  with aid get_row_SomeD [OF row] show thesis by (intro that) auto
qed

text \<open>Every session of the account's memberships was started before they were signed out.\<close>

definition closed_to :: "int \<Rightarrow> instant \<Rightarrow> platform \<Rightarrow> bool" where
  "closed_to aid now p \<longleftrightarrow> open_request aid p \<noteq> None \<and>
     (\<forall>s \<in> set (user_sessions (pf_db p)). \<forall>u \<in> set (users (pf_db p)).
        u_id u = us_user_id s \<longrightarrow> u_account_id u = Some aid \<longrightarrow>
        (\<exists>b. u_sessions_invalid_before u = Some b \<and> us_created_at s < b \<and> b \<le> now))"

lemma closed_toD:
  assumes "closed_to aid now p" and "s \<in> set (user_sessions (pf_db p))" and "u \<in> set (users (pf_db p))"
    and "u_id u = us_user_id s" and "u_account_id u = Some aid"
  obtains b where "u_sessions_invalid_before u = Some b" "us_created_at s < b" "b \<le> now"
  using assms unfolding closed_to_def by blast

lemma open_request_append:
  "open_request aid p \<noteq> None \<Longrightarrow> pf_deletions q = pf_deletions p @ ds \<Longrightarrow> open_request aid q \<noteq> None"
  by (auto simp: open_request_def find_append split: option.splits)

lemma change_deletions:
  "change env now p q \<Longrightarrow> \<exists>ds. pf_deletions q = pf_deletions p @ ds"
  by (cases rule: change.cases) (auto simp: platform_simps)

lemma change_closed_to:
  assumes "change env now p q" and ok: "rows_ok p" and closed: "closed_to aid now p"
  shows "closed_to aid now q"
proof -
  have pending: "open_request aid q \<noteq> None"
    using open_request_append change_deletions [OF assms(1)] closed unfolding closed_to_def by blast
  have "\<exists>b. u_sessions_invalid_before u = Some b \<and> us_created_at s < b \<and> b \<le> now"
    if s: "s \<in> set (user_sessions (pf_db q))" and u: "u \<in> set (users (pf_db q))"
      and own: "u_id u = us_user_id s" "u_account_id u = Some aid" for s u
    using assms(1)
  proof cases
    case (people P f)
    then have "\<exists>w \<in> set (users (pf_db p)). user_kept now w u \<or> u = w"
      using u by (auto simp: on_db_def set_update_where)
    then obtain w where w: "w \<in> set (users (pf_db p))" "user_kept now w u"
      by (auto simp: user_kept_def)
    have "s \<in> set (user_sessions (pf_db p))" using s people(1) by (simp add: on_db_def)
    then obtain b where b: "u_sessions_invalid_before w = Some b" "us_created_at s < b" "b \<le> now"
      using closed_toD [OF closed _ w(1)] w(2) own unfolding user_kept_def by metis
    have "u_sessions_invalid_before u = Some b \<or> u_sessions_invalid_before u = Some now"
      using w(2) b(1) by (simp add: user_kept_def)
    with b show ?thesis by (elim disjE) auto
  next
    case (workspace_made t v)
    have "u \<noteq> v"
      using s own rows_okD(8) [OF ok] rows_okD(2) [OF ok] workspace_made(1,3)
      by (fastforce simp: platform_simps keys_below_def)
    then show ?thesis using closed_toD [OF closed _ _ own] s u workspace_made(1) by (auto simp: platform_simps)
  next
    case (session_started v a token ip agent satisfied)
    have same: "x = v" if "x \<in> set (users (pf_db p))" "u_id x = u_id v" for x
      using rows_okD(2) [OF ok] that session_started(2) by (auto simp: keys_below_def distinct_map dest: inj_onD)
    have "a \<noteq> aid" using session_started(4) closed by (auto simp: closed_to_def)
    then have "us_user_id s \<noteq> u_id v"
      using u own same [of u] session_started(1,3) by (auto simp: platform_simps create_session_def)
    then have "s \<in> set (user_sessions (pf_db p))"
      using s session_started(1) by (auto simp: platform_simps create_session_def split: if_split_asm)
    then show ?thesis
      using closed_toD [OF closed _ _ own] u session_started(1) by (auto simp: platform_simps create_session_def)
  next
    case (session_edited P f)
    then obtain w where w: "w \<in> set (user_sessions (pf_db p))" "session_kept w s \<or> s = w"
      using s by (auto simp: on_db_def set_update_where)
    then have "us_user_id w = us_user_id s" "us_created_at w = us_created_at s"
      by (auto simp: session_kept_def row_kept_def)
    with closed_toD [OF closed w(1)] own u session_edited(1) show ?thesis by (auto simp: on_db_def)
  qed (use closed_toD [OF closed _ _ own] s u in \<open>auto simp: platform_simps use_step_def store_account_def\<close>)
  with pending show ?thesis unfolding closed_to_def by blast
qed

lemma closed_to_later: "now \<le> later \<Longrightarrow> closed_to aid now p \<Longrightarrow> closed_to aid later p"
  unfolding closed_to_def by (meson order_trans)

lemma run_closed_to:
  assumes "auth_run env (p, now) (q, later)" and "rows_ok p" and "closed_to aid now p"
  shows "closed_to aid later q"
proof -
  have "rows_ok (fst (q, later)) \<and> closed_to aid (snd (q, later)) (fst (q, later))"
  proof (rule run_keeps [where I = "closed_to aid", OF assms(1)])
    show "rows_ok (fst (p, now))" "closed_to aid (snd (p, now)) (fst (p, now))" using assms(2,3) by simp_all
  qed (rule change_closed_to, assumption+, rule closed_to_later)
  then show ?thesis by simp
qed

lemma filing_closes:
  assumes "rows_ok p" and "\<forall>s \<in> set (user_sessions (pf_db p)). us_created_at s < rq_now rq"
    and "request_account_deletion env rq support caller password p = (Inr d, q)"
  shows "closed_to (dr_account_id d) (rq_now rq) q"
proof (rule deletion_filedE [OF assms(3)])
  fix session a p1
  assume a: "session_account session p = Some a" and filed: "file_request (rq_now rq) a p = Inr (d, p1)"
    and q: "q = (let p2 = on_db (\<lambda>db. log_audit session ''account.deletion_requested'' ''account'' (a_id a)
                        (revoke_account_sessions (rq_now rq) (a_id a) db)) p1;
                 p3 = send_mail support Deletion_for_team p2
             in if or_blank (a_email a) = [] then p3 else send_mail (or_blank (a_email a)) Deletion_for_person p3)"
  note facts = file_request_changes [OF filed session_account_mem [OF a]]
  have d: "dr_account_id d = a_id a" using open_request_mem [OF facts(3)] by simp
  have db: "users (pf_db q) = update_where (\<lambda>u. u_account_id u = Some (a_id a))
      (\<lambda>u. u\<lparr>u_sessions_invalid_before := Some (rq_now rq)\<rparr>) (users (pf_db p))"
    "user_sessions (pf_db q) = user_sessions (pf_db p)" and "pf_deletions q = pf_deletions p1"
    by (simp_all add: q Let_def send_mail_def on_db_def log_audit_def revoke_account_sessions_def facts(4))
  then have "open_request (dr_account_id d) q \<noteq> None" using facts(3) by (simp add: d open_request_def)
  then show ?thesis using assms(2) by (auto simp: closed_to_def db d set_update_where)
qed

text \<open>C3: closing an account ends every access to it: once a person has asked for their account to be deleted,
  and as long as only sign-in runs, no token resolves to a session of that account, in any organisation, and no
  ticket is accepted for it. The sessions there were when the request was filed are assumed to be older than it.\<close>

theorem closing_ends_all_access:
  assumes "rows_ok p" and "\<forall>s \<in> set (user_sessions (pf_db p)). us_created_at s < rq_now rq"
    and "request_account_deletion env rq support caller password p = (Inr d, q)"
    and "auth_run env (q, rq_now rq) (r, later)"
  shows "(\<forall>token t session db. resolve_session (tl_cfg env) (tl_hash_token env) token t (pf_db r) = (Some session, db) \<longrightarrow>
        as_account_id session \<noteq> Some (dr_account_id d)) \<and>
      (\<forall>ticket t a. account_from_ticket env t ticket r = Inr a \<longrightarrow> a_id a \<noteq> dr_account_id d)"
proof (intro conjI allI impI)
  have "rows_ok q" using changes_rows_ok [OF deletion_changes assms(1), of env rq support caller password] assms(3) by simp
  have closed: "closed_to (dr_account_id d) later r"
    by (rule run_closed_to [OF assms(4) \<open>rows_ok q\<close> filing_closes [OF assms(1-3)]])
  fix token t session db
  assume "resolve_session (tl_cfg env) (tl_hash_token env) token t (pf_db r) = (Some session, db)"
  then show "as_account_id session \<noteq> Some (dr_account_id d)"
  proof (rule resolve_session_SomeE)
    fix s u tn
    assume row: "session_row (pf_db r) (tl_hash_token env token) = Some (s, u, tn)"
      and fine: "\<not> session_refused s u tn t" and "session = authenticated (pf_db r) s u tn"
    then have own: "as_account_id session = u_account_id u" by (simp add: authenticated_def Let_def)
    show ?thesis
    proof
      assume "as_account_id session = Some (dr_account_id d)"
      with own have "u_account_id u = Some (dr_account_id d)" by simp
      from closed_toD [OF closed session_rowD(1,3,4) [OF row] this]
      obtain b where "u_sessions_invalid_before u = Some b" "us_created_at s < b" by blast
      with fine show False by (simp add: session_refused_def)
    qed
  qed
next
  have "rows_ok q" using changes_rows_ok [OF deletion_changes assms(1), of env rq support caller password] assms(3) by simp
  from run_closed_to [OF assms(4) this filing_closes [OF assms(1-3)]]
  have "open_request (dr_account_id d) r \<noteq> None" by (simp add: closed_to_def)
  then show "account_from_ticket env t ticket r = Inr a \<Longrightarrow> a_id a \<noteq> dr_account_id d" for ticket t a
    by (auto elim: account_from_ticketE)
qed

theorem closing_ends_all_access_witness:
  "let q = snd (request_account_deletion ex_env ex_request ''team'' ex_session_of_nino (Some ''an old password'') ex_platform);
       r = snd (forgot_password ex_env ex_request ''another link'' ''nino@acme.ge'' q)
   in \<forall>token t session db. resolve_session (tl_cfg ex_env) (tl_hash_token ex_env) token t (pf_db r) = (Some session, db) \<longrightarrow>
     as_account_id session \<noteq> Some 5"
proof -
  let ?answer = "request_account_deletion ex_env ex_request ''team'' ex_session_of_nino (Some ''an old password'') ex_platform"
  obtain d where d: "fst ?answer = Inr d" "dr_account_id d = 5"
    using ex_deletion by (cases "fst ?answer") simp_all
  from d(1) have filed: "?answer = (Inr d, snd ?answer)" by (metis prod.collapse)
  show ?thesis unfolding Let_def
    using closing_ends_all_access [OF ex_rows_ok ex_old_sessions filed ex_run] unfolding d(2) by blast
qed

end
