(* ===== verification/Logins.thy ===== *)
theory Logins
  imports Runs
begin

text \<open>
  What a person gets out of the two steps of a sign-in: guesses are bounded, a pick enters one's own
  organisation and nothing else, a reset password signs in, and the spellings of a Georgian mobile
  number name the same account.
\<close>

section \<open>Guessing\<close>

text \<open>The sign-in attempts of a sequence, and the moments of those that were logged as wrong guesses
  from an address.\<close>

record guess =
  gs_backend :: backend
  gs_request :: request
  gs_identifier :: "string option"
  gs_email :: "string option"
  gs_password :: string

definition try_guess :: "tools \<Rightarrow> guess \<Rightarrow> platform \<Rightarrow> platform" where
  "try_guess env g p = snd (login env (gs_backend g) (gs_request g) (gs_identifier g) (gs_email g) (gs_password g) p)"

definition guessed_wrong :: "string option \<Rightarrow> guess \<Rightarrow> platform \<Rightarrow> platform \<Rightarrow> bool" where
  "guessed_wrong ip g p q \<longleftrightarrow> or_unknown (rq_ip (gs_request g)) = or_unknown ip \<and>
     length (pf_attempts p) < length (pf_attempts q) \<and>
     la_failure_reason (List.last (pf_attempts q)) = Some ''bad_credentials''"

fun wrong_guesses :: "tools \<Rightarrow> string option \<Rightarrow> guess list \<Rightarrow> platform \<Rightarrow> instant list" where
  "wrong_guesses env ip [] p = []"
| "wrong_guesses env ip (g # gs) p =
     (if guessed_wrong ip g p (try_guess env g p) then [rq_now (gs_request g)] else []) @
     wrong_guesses env ip gs (try_guess env g p)"

lemma limited_limiter:
  "limited m check p = (Inr (), q) \<Longrightarrow> \<exists>l. check (pf_limiter p) = (None, l) \<and> q = p\<lparr>pf_limiter := l\<rparr>"
  "limited m check p = (Inl e, q) \<Longrightarrow> \<exists>w l. check (pf_limiter p) = (Some w, l) \<and> q = p\<lparr>pf_limiter := l\<rparr>"
  by (auto simp: limited_def split: prod.splits option.splits)

lemma authenticate_counts:
  assumes "authenticate env bk now typed password p = Inr (found, q)"
  shows "pf_limiter q = pf_limiter p" and "pf_attempts q = pf_attempts p"
proof -
  have upsert: "upsert_from_suliko now s p = Inr (a, q) \<Longrightarrow> pf_limiter q = pf_limiter p \<and> pf_attempts q = pf_attempts p"
    for s a by (auto simp: upsert_from_suliko_def add_account_def fresh_def on_db_def Let_def
        split: option.splits if_split_asm)
  have suliko: "account_for_suliko_user env bk now i known p = Inr (a, q) \<Longrightarrow>
      pf_limiter q = pf_limiter p \<and> pf_attempts q = pf_attempts p" for i known a
    using upsert by (auto simp: account_for_suliko_user_def bind_result_Inr_iff split: option.splits)
  have "pf_limiter q = pf_limiter p \<and> pf_attempts q = pf_attempts p"
    using assms suliko unfolding authenticate_def Let_def
    by (auto simp: bind_result_Inr_iff on_db_def split: option.splits if_split_asm prod.splits password_check.splits bool.splits)
  then show "pf_limiter q = pf_limiter p" and "pf_attempts q = pf_attempts p" by simp_all
qed

text \<open>What one attempt does to the counters and the log.\<close>

lemma login_counts:
  assumes akey_def: "akey = account_key (strip (or_else_text identifier email))" and ikey_def: "ikey = ip_key (rq_ip rq)"
    and "login env bk rq identifier email password p = (r, q)"
  obtains (unseen) "q = p"
    | (stopped) w l where "check_login (tl_cfg env) akey ikey (rq_now rq) (pf_limiter p) = (w, l)"
        "pf_limiter q = l" "pf_attempts q = pf_attempts p"
    | (wrong) l where "check_login (tl_cfg env) akey ikey (rq_now rq) (pf_limiter p) = (None, l)"
        "pf_limiter q = record_login_failure (tl_cfg env) akey ikey (rq_now rq) l"
    | (other) l x where "check_login (tl_cfg env) akey ikey (rq_now rq) (pf_limiter p) = (None, l)"
        "pf_limiter q \<in> {l, clear_count akey l}" "pf_attempts q = pf_attempts p @ [x]"
        "la_failure_reason x \<noteq> Some ''bad_credentials''"
proof (cases "login_payload_ok identifier email password")
  case False
  then show thesis using assms(3) unseen by (simp add: login_def checked_def)
next
  case True
  let ?check = "limited ''Too many attempts. Try again later.'' (check_login (tl_cfg env) akey ikey (rq_now rq)) p"
  let ?typed = "strip (or_else_text identifier email)"
  obtain c p1 where c: "?check = (c, p1)" by fastforce
  show thesis
  proof (cases c)
    case (Inl e)
    with assms(3) True c have "q = p1"
      by (simp add: login_def checked_def then_answer_def Let_def akey_def ikey_def)
    with limited_limiter(2) [OF c [unfolded Inl]] show thesis by (auto intro: stopped)
  next
    case (Inr u)
    with c limited_limiter(1) obtain l where l: "check_login (tl_cfg env) akey ikey (rq_now rq) (pf_limiter p) = (None, l)"
      and p1: "p1 = p\<lparr>pf_limiter := l\<rparr>" by fastforce
    have rest: "then_answer (transact (authenticate env bk (rq_now rq) ?typed password p1) p1)
       (\<lambda>(found, unavailable) p2.
          if unavailable
            then (Inl (UpstreamUnavailableError ''Sign-in is temporarily unavailable. Try again in a minute.''),
                  record_attempt rq (lower ?typed) False (Some ''upstream_unavailable'') p2)
          else case found of
            None \<Rightarrow> (Inl bad_login,
               record_attempt rq (lower ?typed) False (Some ''bad_credentials'')
                 (with_limiter (record_login_failure (tl_cfg env) akey ikey (rq_now rq)) p2))
          | Some a \<Rightarrow> let_in env rq a (lower ?typed) (Some akey) p2) = (r, q)"
      using assms(3) True c Inr unfolding akey_def ikey_def
      by (simp add: login_def checked_def then_answer_def [of "(Inr _, _)"] Let_def)
    show thesis
    proof (cases "authenticate env bk (rq_now rq) ?typed password p1")
      case (Inl e)
      then have "q = p1" using rest by (simp add: transact_def then_answer_def)
      then show thesis using l p1 by (intro stopped) simp_all
    next
      case (Inr fq)
      obtain found unavailable p2 where fq: "fq = ((found, unavailable), p2)" by (metis prod.exhaust)
      note same = authenticate_counts [OF Inr [unfolded fq]]
      show thesis
      proof (cases unavailable)
        case True
        then have "q = record_attempt rq (lower ?typed) False (Some ''upstream_unavailable'') p2"
          using rest Inr fq by (simp add: transact_def then_answer_def)
        then obtain x where "pf_attempts q = pf_attempts p @ [x]" "la_failure_reason x \<noteq> Some ''bad_credentials''"
          and "pf_limiter q = l" using same p1 by (auto simp: record_attempt_def)
        then show thesis by (intro other [OF l]) simp_all
      next
        case certain: False
        show thesis
        proof (cases found)
          case None
          then have "q = record_attempt rq (lower ?typed) False (Some ''bad_credentials'')
              (with_limiter (record_login_failure (tl_cfg env) akey ikey (rq_now rq)) p2)"
            using rest Inr fq certain by (simp add: transact_def then_answer_def)
          then show thesis using l same p1 by (intro wrong) (simp_all add: record_attempt_def with_limiter_def)
        next
          case (Some a)
          then have "let_in env rq a (lower ?typed) (Some akey) p2 = (r, q)"
            using rest Inr fq certain by (simp add: transact_def then_answer_def)
          then obtain x where "pf_attempts q = pf_attempts p @ [x]" "la_failure_reason x \<noteq> Some ''bad_credentials''"
            and "pf_limiter q \<in> {l, clear_count akey l}"
            using same p1 by (auto simp: let_in_def refuse_if_deletion_pending_def then_answer_def record_attempt_def
                with_limiter_def Let_def split: sum.splits)
          then show thesis by (intro other [OF l])
        qed
      qed
    qed
  qed
qed

lemma keys_differ: "account_key typed \<noteq> ip_key ip"
  by (simp add: account_key_def ip_key_def)

lemma tracks_clear:
  "limiter_tracks win now l hs \<Longrightarrow> limiter_tracks win now (clear_count k l) (hs(k := []))"
  by (rule counter.clear_tracks)

lemma check_two_InrD:
  assumes "check_two k1 n1 k2 n2 w now l = (x, l')" and "limiter_tracks (\<lambda>_. w) now l hs"
  shows "limiter_tracks (\<lambda>_. w) now l' hs"
    and "x = None \<Longrightarrow> throttled w n2 (hs k2) \<Longrightarrow> throttled w n2 (now # hs k2)"
proof -
  obtain y l1 where one: "check_count k1 n1 w now l = (y, l1)" by fastforce
  have l1: "limiter_tracks (\<lambda>_. w) now l1 hs" using check_count_tracks [OF assms(2), of k1 n1] one by simp
  have two: "y = None \<Longrightarrow> check_count k2 n2 w now l1 = (x, l')" "y \<noteq> None \<Longrightarrow> l' = l1 \<and> x = y"
    using assms(1) one by (auto simp: check_two_def split: option.splits)
  show "limiter_tracks (\<lambda>_. w) now l' hs"
    using two l1 check_count_tracks [OF l1, of k2 n2] by (cases y) auto
  show "throttled w n2 (now # hs k2)" if "x = None" "throttled w n2 (hs k2)"
  proof -
    have "y = None" using two(2) that(1) by (cases y) auto
    then show ?thesis using check_count_hit [OF l1, where k = k2 and limit = n2 and l' = l'] two(1) that by simp
  qed
qed

text \<open>The hits of an address's counter stay throttled, and a wrong guess is one of them.\<close>

lemma guess_throttled:
  assumes tracks: "limiter_tracks (\<lambda>_. login_window_seconds (tl_cfg env)) now (pf_limiter p) hs"
    and throttled: "throttled (login_window_seconds (tl_cfg env)) (login_max_attempts_per_ip (tl_cfg env)) (hs (ip_key ip))"
    and now: "now \<le> rq_now (gs_request g)"
  obtains hs' where "limiter_tracks (\<lambda>_. login_window_seconds (tl_cfg env)) (rq_now (gs_request g))
      (pf_limiter (try_guess env g p)) hs'"
    and "throttled (login_window_seconds (tl_cfg env)) (login_max_attempts_per_ip (tl_cfg env)) (hs' (ip_key ip))"
    and "hs' (ip_key ip) = (if guessed_wrong ip g p (try_guess env g p) then [rq_now (gs_request g)] else []) @ hs (ip_key ip) \<or>
      \<not> guessed_wrong ip g p (try_guess env g p) \<and> (\<exists>t. hs' (ip_key ip) = t # hs (ip_key ip))"
proof -
  let ?w = "login_window_seconds (tl_cfg env)" and ?n = "login_max_attempts_per_ip (tl_cfg env)"
  let ?t = "rq_now (gs_request g)" and ?q = "try_guess env g p"
  define akey where "akey = account_key (strip (or_else_text (gs_identifier g) (gs_email g)))"
  define ikey where "ikey = ip_key (rq_ip (gs_request g))"
  have later: "limiter_tracks (\<lambda>_. ?w) ?t (pf_limiter p) hs" by (rule counter.tracks_later [OF tracks now])
  obtain r where login: "login env (gs_backend g) (gs_request g) (gs_identifier g) (gs_email g) (gs_password g) p = (r, ?q)"
    by (metis prod.collapse try_guess_def)
  show thesis
    using akey_def ikey_def login
  proof (cases rule: login_counts)
    case unseen
    then show thesis using later throttled by (intro that [of hs]) (simp_all add: guessed_wrong_def)
  next
    case (stopped w l)
    then show thesis using check_two_InrD(1) [OF stopped(1) [unfolded check_login_def] later] throttled
      by (intro that [of hs]) (simp_all add: guessed_wrong_def)
  next
    case (wrong l)
    note checked = check_two_InrD [OF wrong(1) [unfolded check_login_def] later]
    let ?hs1 = "hs(akey := ?t # hs akey)" let ?hs' = "?hs1(ikey := ?t # ?hs1 ikey)"
    have other: "ip_key ip \<noteq> akey" "ikey \<noteq> akey" using keys_differ unfolding akey_def ikey_def by metis+
    have "limiter_tracks (\<lambda>_. ?w) ?t (pf_limiter ?q) ?hs'"
      unfolding wrong(2) record_login_failure_def hit_two_def
      by (rule counter.hit_tracks, rule counter.hit_tracks, rule checked(1))
    moreover have "throttled ?w ?n (?hs' (ip_key ip))"
      using checked(2) throttled other by (cases "ip_key ip = ikey") auto
    moreover have "?hs' (ip_key ip) = (if ip_key ip = ikey then [?t] else []) @ hs (ip_key ip)"
      using other by auto
    moreover have "guessed_wrong ip g p ?q \<Longrightarrow> ip_key ip = ikey"
      by (simp add: guessed_wrong_def ikey_def ip_key_def)
    ultimately show thesis by (intro that [of ?hs']) (auto split: if_splits)
  next
    case (other l x)
    note checked = check_two_InrD [OF other(1) [unfolded check_login_def] later]
    have "ip_key ip \<noteq> akey" using keys_differ unfolding akey_def by metis
    moreover have "\<not> guessed_wrong ip g p ?q" using other(3,4) by (simp add: guessed_wrong_def)
    moreover have "limiter_tracks (\<lambda>_. ?w) ?t (pf_limiter ?q) hs \<or>
        limiter_tracks (\<lambda>_. ?w) ?t (pf_limiter ?q) (hs(akey := []))"
      using other(2) checked(1) tracks_clear by auto
    ultimately show thesis
      using throttled by (elim disjE) (rule that [of hs], simp_all, rule that [of "hs(akey := [])"], simp_all)
  qed
qed

lemma guesses_throttled:
  assumes "limiter_tracks (\<lambda>_. login_window_seconds (tl_cfg env)) now (pf_limiter p) hs"
    and "throttled (login_window_seconds (tl_cfg env)) (login_max_attempts_per_ip (tl_cfg env)) (hs (ip_key ip))"
    and "sorted (now # map (rq_now \<circ> gs_request) gs)"
  shows "\<exists>ys. throttled (login_window_seconds (tl_cfg env)) (login_max_attempts_per_ip (tl_cfg env)) (ys @ hs (ip_key ip)) \<and>
    (\<forall>P. length (filter P (wrong_guesses env ip gs p)) \<le> length (filter P ys))"
  using assms
proof (induction gs arbitrary: now p hs)
  case Nil
  then show ?case by (intro exI [of _ "[]"]) simp
next
  case (Cons g gs)
  have times: "now \<le> rq_now (gs_request g)" "sorted (rq_now (gs_request g) # map (rq_now \<circ> gs_request) gs)"
    using Cons.prems(3) by (auto simp: comp_def)
  obtain hs' where hs': "limiter_tracks (\<lambda>_. login_window_seconds (tl_cfg env)) (rq_now (gs_request g))
      (pf_limiter (try_guess env g p)) hs'"
    "throttled (login_window_seconds (tl_cfg env)) (login_max_attempts_per_ip (tl_cfg env)) (hs' (ip_key ip))"
    and grown: "hs' (ip_key ip) = (if guessed_wrong ip g p (try_guess env g p) then [rq_now (gs_request g)] else []) @ hs (ip_key ip) \<or>
      \<not> guessed_wrong ip g p (try_guess env g p) \<and> (\<exists>t. hs' (ip_key ip) = t # hs (ip_key ip))"
    by (rule guess_throttled [OF Cons.prems(1,2) times(1)])
  obtain zs where zs: "hs' (ip_key ip) = zs @ hs (ip_key ip)"
    "\<forall>P. length (filter P (if guessed_wrong ip g p (try_guess env g p) then [rq_now (gs_request g)] else []))
       \<le> length (filter P zs)"
    using grown by (elim disjE conjE exE) auto
  obtain ys where ys: "throttled (login_window_seconds (tl_cfg env)) (login_max_attempts_per_ip (tl_cfg env))
      (ys @ hs' (ip_key ip))"
    "\<forall>P. length (filter P (wrong_guesses env ip gs (try_guess env g p))) \<le> length (filter P ys)"
    using Cons.IH [OF hs' times(2)] by blast
  show ?case
  proof (intro exI conjI allI)
    show "throttled (login_window_seconds (tl_cfg env)) (login_max_attempts_per_ip (tl_cfg env)) ((ys @ zs) @ hs (ip_key ip))"
      using ys(1) zs(1) by simp
    show "length (filter P (wrong_guesses env ip (g # gs) p)) \<le> length (filter P (ys @ zs))" for P
      using ys(2) [rule_format, of P] zs(2) [rule_format, of P] by simp
  qed
qed

text \<open>C14: guessing is bounded: in any sequence of sign-ins, whatever they type and whatever the counters held
  before, no window of the configured length holds more wrong guesses from one address than are allowed per
  address.\<close>

theorem guesses_bounded:
  assumes "sorted (map (rq_now \<circ> gs_request) gs)"
  shows "length (filter (\<lambda>t. now - seconds (login_window_seconds (tl_cfg env)) < t \<and> t \<le> now)
      (wrong_guesses env ip gs p)) \<le> login_max_attempts_per_ip (tl_cfg env)"
proof (cases gs)
  case (Cons g rest)
  define start where "start = rq_now (gs_request g)"
  have "limiter_tracks (\<lambda>_. login_window_seconds (tl_cfg env)) start (pf_limiter p) (\<lambda>_. [])"
    by (cases "pf_limiter p") (simp_all add: recent_def)
  moreover have "sorted (start # map (rq_now \<circ> gs_request) gs)" using assms by (simp add: Cons start_def)
  ultimately obtain ys where "throttled (login_window_seconds (tl_cfg env)) (login_max_attempts_per_ip (tl_cfg env)) ys"
    and "\<forall>P. length (filter P (wrong_guesses env ip gs p)) \<le> length (filter P ys)"
    using guesses_throttled [of env start p "\<lambda>_. []" ip gs] by auto
  from throttled_bound [OF this(1), of now] this(2) [rule_format, of "\<lambda>t. now - seconds (login_window_seconds (tl_cfg env)) < t \<and> t \<le> now"]
  show ?thesis by linarith
qed simp

definition ex_backend :: backend where
  "ex_backend = \<lparr>bk_enabled = False, bk_check_password = (\<lambda>_ _. DENIED), bk_get_user = (\<lambda>_. Inr None),
     bk_redeem = (\<lambda>_ _ _. Inr None)\<rparr>"

definition ex_guess :: "int \<Rightarrow> guess" where
  "ex_guess n = \<lparr>gs_backend = ex_backend, gs_request = ex_request\<lparr>rq_now := seconds n\<rparr>,
     gs_identifier = Some ''nino@acme.ge'', gs_email = None, gs_password = ''wrong''\<rparr>"

theorem guesses_bounded_witness:
  "length (filter (\<lambda>t. seconds 9 - seconds (login_window_seconds (tl_cfg ex_env)) < t \<and> t \<le> seconds 9)
      (wrong_guesses ex_env (Some ''1.2.3.4'') [ex_guess 1, ex_guess 2, ex_guess 2] ex_platform))
    \<le> login_max_attempts_per_ip (tl_cfg ex_env)"
  by (rule guesses_bounded) (simp add: ex_guess_def seconds_def)

lemma ex_guesses:
  "wrong_guesses ex_env (Some ''1.2.3.4'') [ex_guess 1, ex_guess 2, ex_guess 2] ex_platform = [seconds 1, seconds 2, seconds 2]"
  by code_simp

section \<open>Picking an organisation\<close>

definition enterable :: "membership \<Rightarrow> bool" where
  "enterable m \<longleftrightarrow> u_is_active (fst m) \<and> \<not> u_invitation_pending (fst m) \<and> is_usable (snd m)"

lemma memberships_enterable: "m \<in> set (memberships order aid db) \<Longrightarrow> enterable m"
  using memberships_mem [of "fst m" "snd m" order aid db] by (simp add: enterable_def)

lemma found_workspace_entered:
  assumes "found_workspace cfg folded now a name plan own accepts p = Inr (m, q)"
  shows "enterable m" and "user_sessions (pf_db q) = user_sessions (pf_db p)"
  using assms by (auto simp: found_workspace_def enterable_def is_usable_def fresh_def on_db_def Let_def)

lemma resolve_choice_entered:
  assumes "resolve_choice e rq a slug want accepts p = Inr (m, q)"
  shows "enterable m" and "user_sessions (pf_db q) = user_sessions (pf_db p)"
proof -
  have "enterable m \<and> user_sessions (pf_db q) = user_sessions (pf_db p)"
  proof (cases "want \<and> personal (memberships (tl_name_order e) (a_id a) (pf_db p)) = None")
    case True
    let ?made = "create_personal_workspace (tl_cfg e) (tl_ascii_fold e) (rq_now rq) a accepts p"
    have "?made \<noteq> Inl x" for x using assms True by (auto simp: resolve_choice_def)
    then obtain m' r where made: "?made = Inr (m', r)" by (cases ?made) auto
    have "m' = m" "user_sessions (pf_db q) = user_sessions (pf_db r)"
      using assms True made by (auto simp: resolve_choice_def Let_def log_for_tenant_def on_db_def send_mail_def)
    with found_workspace_entered [OF made [unfolded create_personal_workspace_def]] show ?thesis by simp
  next
    case False
    then have "m \<in> set (memberships (tl_name_order e) (a_id a) (pf_db p)) \<and> q = p"
      using assms by (auto simp: resolve_choice_def Let_def split: if_split_asm option.splits dest: personal_mem find_mem)
    then show ?thesis using memberships_enterable by blast
  qed
  then show "enterable m" and "user_sessions (pf_db q) = user_sessions (pf_db p)" by simp_all
qed

lemma start_session_Inr:
  assumes "start_session env rq token (u, t) a p = Inr (resp, q)"
  obtains satisfied where "open_request (a_id a) p = None"
    and "satisfied \<longleftrightarrow> \<not> (lr_mfa_required resp \<or> lr_mfa_enrolment_required resp)"
    and "lr_mfa_required resp \<longleftrightarrow> challenge_owed (tl_cfg env) (pf_db p) (u_id u)"
    and "lr_session_token resp = token" "lr_user_id resp = u_id u" "lr_tenant_id resp = u_tenant_id u"
    "lr_tenant_slug resp = t_slug t" "lr_role resp = u_role u"
    and "q = on_db (\<lambda>db. stamp_login (rq_now rq) (u_id u) (a_id a) (snd (create_session (tl_cfg env)
      (tl_hash_token env) (rq_now rq) (pf_next p) token u (rq_ip rq) (rq_user_agent rq) satisfied None None db)))
      (snd (fresh p))"
proof -
  have "open_request (a_id a) p = None"
    using assms by (auto simp: start_session_def ensure_not_pending_deletion_def split: if_split_asm)
  with assms show thesis
    by (intro that [of "\<not> (lr_mfa_required resp \<or> lr_mfa_enrolment_required resp)"])
      (auto simp: start_session_def ensure_not_pending_deletion_def fresh_def Let_def on_db_def)
qed

lemma start_session_answer:
  assumes "start_session env rq token (u, t) a p = Inr (resp, q)"
  shows "lr_mfa_enrolment_required resp = enrolment_required (tl_cfg env) (pf_db p) u"
    and "lr_permissions resp = effective_permissions (u_role u) (effective_plan (t_plan t)) (overrides_of (permission_overrides (pf_db p)) (u_id u))"
  using assms by (auto simp: start_session_def fresh_def Let_def bind_result_Inr_iff)

text \<open>Every organisation somebody is an active, accepted member of is on their list, if it is usable.\<close>

lemma one_per_tenant_complete:
  "(u, t) \<in> set ms \<Longrightarrow> is_usable t \<Longrightarrow> t_id t \<notin> set seen \<Longrightarrow> \<exists>m \<in> set (one_per_tenant seen ms). t_id (snd m) = t_id t"
proof (induction seen ms rule: one_per_tenant.induct)
  case (2 seen v w ms)
  then show ?case by (cases "t_id w = t_id t") (auto split: if_splits)
qed simp

lemma memberships_complete:
  assumes "u \<in> set (users db)" and "is_membership_of aid u" and "get_row t_id (u_tenant_id u) (tenants db) = Some t" and "is_usable t"
  shows "\<exists>v. (v, t) \<in> set (memberships order aid db)"
proof -
  have "(u, t) \<in> set (sort_key (\<lambda>(u, t). (order (t_display_name t), latest_first u)) (joined_tenants (is_membership_of aid) db))"
    using assms by (simp add: joined_tenants_mem)
  from one_per_tenant_complete [OF this assms(4), of "[]"]
  obtain v w where m: "(v, w) \<in> set (memberships order aid db)" "t_id w = t_id t" by (auto simp: memberships_def)
  have "u_tenant_id v = u_tenant_id u"
    using get_row_SomeD [OF memberships_mem(5) [OF m(1)]] get_row_SomeD [OF assms(3)] m(2) by simp
  then have "w = t" using memberships_mem(5) [OF m(1)] assms(3) by simp
  with m(1) show ?thesis by blast
qed

text \<open>What the pick names: one's own workspace, or an organisation by its handle.\<close>

definition picked :: "bool \<Rightarrow> string option \<Rightarrow> user \<Rightarrow> tenant \<Rightarrow> bool" where
  "picked own slug u t \<longleftrightarrow> (if own then t_is_personal t \<and> u_role u = OWNER else t_slug t = lower (strip (or_blank slug)))"

lemma found_has: "find P xs = Some x \<Longrightarrow> P x"
  by (auto simp: find_Some_iff)

lemma resolve_choice_picked:
  assumes "resolve_choice e rq a slug own accepts p = Inr ((u, t), q)"
  shows "picked own slug u t"
proof (cases own)
  case True
  show ?thesis
  proof (cases "personal (memberships (tl_name_order e) (a_id a) (pf_db p))")
    case None
    let ?made = "create_personal_workspace (tl_cfg e) (tl_ascii_fold e) (rq_now rq) a accepts p"
    obtain r where "?made = Inr ((u, t), r)"
      using assms True None by (cases ?made) (auto simp: resolve_choice_def Let_def)
    then have "t_is_personal t \<and> u_role u = OWNER"
      by (auto simp: create_personal_workspace_def found_workspace_def fresh_def Let_def bind_result_Inr_iff)
    then show ?thesis by (simp add: picked_def True)
  next
    case (Some m)
    then have "m = (u, t)" using assms True by (simp add: resolve_choice_def Let_def)
    with Some show ?thesis using found_has [OF Some [unfolded personal_def]] by (simp add: picked_def True)
  qed
next
  case False
  then have "find (\<lambda>(u, t). t_slug t = lower (strip (or_blank slug))) (memberships (tl_name_order e) (a_id a) (pf_db p)) = Some (u, t)"
    using assms by (auto simp: resolve_choice_def Let_def split: option.splits)
  from found_has [OF this] show ?thesis by (simp add: picked_def False)
qed

lemma select_enters:
  assumes "login_select env rq token ticket slug own accepts p = (Inr resp, q)"
  shows "\<exists>a (u::user) t s. a \<in> set (accounts (pf_db p)) \<and> read_ticket (tl_key env) (rq_now rq) ticket = Inr (a_id a) \<and>
        matches_ticket (tl_key env) ticket (a_password_hash a) \<and> open_request (a_id a) p = None \<and>
        u \<in> set (users (pf_db q)) \<and> u_account_id u = Some (a_id a) \<and> u_is_active u \<and> \<not> u_invitation_pending u \<and>
        t \<in> set (tenants (pf_db q)) \<and> u_tenant_id u = t_id t \<and> is_usable t \<and> picked own slug u t \<and>
        lr_user_id resp = u_id u \<and> lr_tenant_id resp = t_id t \<and> lr_session_token resp = token \<and> lr_role resp = u_role u \<and>
        lr_permissions resp = effective_permissions (u_role u) (effective_plan (t_plan t))
          (overrides_of (permission_overrides (pf_db q)) (u_id u)) \<and>
        (lr_mfa_required resp \<longleftrightarrow> mfa_enforced (tl_cfg env) \<and> has_confirmed_mfa (pf_db q) (u_id u)) \<and>
        (lr_mfa_enrolment_required resp \<longleftrightarrow> mfa_require_enrolment (tl_cfg env) \<and> mfa_enforced (tl_cfg env) \<and>
           requires_mfa (u_role u) \<and> \<not> has_confirmed_mfa (pf_db q) (u_id u)) \<and>
        user_sessions (pf_db q) = user_sessions (pf_db p) @ [s] \<and> us_token_hash s = tl_hash_token env token \<and>
        us_user_id s = u_id u \<and> us_tenant_id s = t_id t \<and> us_created_at s = rq_now rq \<and>
        us_mfa_satisfied_at s = (if lr_mfa_required resp \<or> lr_mfa_enrolment_required resp then None else Some (rq_now rq))"
proof -
  obtain a m p1 where a: "account_from_ticket env (rq_now rq) ticket p = Inr a"
    and m: "resolve_choice env rq a slug own accepts p = Inr (m, p1)"
    and start: "start_session env rq token m a p1 = Inr (resp, q)"
    using assms by (auto simp: login_select_def checked_def transact_def split: if_split_asm sum.splits)
  obtain u t where ut: "m = (u, t)" by fastforce
  have mem: "a \<in> set (accounts (pf_db p))"
    and ticket: "read_ticket (tl_key env) (rq_now rq) ticket = Inr (a_id a)"
      "matches_ticket (tl_key env) ticket (a_password_hash a)" "open_request (a_id a) p = None"
    using a by (auto elim: account_from_ticketE)
  note entered = resolve_choice_entered [OF m] and picked = resolve_choice_picked [OF m [unfolded ut]]
  have members: "is_members (a_id a) (u, t) p1" using resolve_choice_changes(2) [OF m] mem by (simp add: ut)
  define v where "v = u\<lparr>u_last_login_at := Some (rq_now rq)\<rparr>"
  have v: "u_id v = u_id u" "u_tenant_id v = u_tenant_id u" "u_account_id v = u_account_id u" "u_role v = u_role u"
    "u_is_active v = u_is_active u" "u_invitation_pending v = u_invitation_pending u" "picked own slug v t"
    using picked by (simp_all add: v_def picked_def)
  show ?thesis
  proof (rule start_session_Inr [OF start [unfolded ut]], goal_cases)
    case (1 satisfied)
    define s where "s = List.last (user_sessions (pf_db q))"
    have sessions: "user_sessions (pf_db q) = user_sessions (pf_db p) @ [s]"
      and s: "us_token_hash s = tl_hash_token env token" "us_user_id s = u_id u" "us_tenant_id s = u_tenant_id u"
      "us_created_at s = rq_now rq" "us_mfa_satisfied_at s = (if satisfied then Some (rq_now rq) else None)"
      by (simp_all add: s_def 1(9) platform_simps stamp_login_def create_session_def entered(2))
    have rows: "users (pf_db q) = update_where (\<lambda>x. u_id x = u_id u) (\<lambda>x. x\<lparr>u_last_login_at := Some (rq_now rq)\<rparr>) (users (pf_db p1))"
      "tenants (pf_db q) = tenants (pf_db p1)" "mfa_methods (pf_db q) = mfa_methods (pf_db p1)"
      "permission_overrides (pf_db q) = permission_overrides (pf_db p1)"
      by (simp_all add: 1(9) platform_simps stamp_login_def create_session_def)
    have stored: "v \<in> set (users (pf_db q))" "t \<in> set (tenants (pf_db q))"
      using members by (auto simp: rows set_update_where is_members_def v_def)
    have owed: "challenge_owed (tl_cfg env) (pf_db p1) (u_id u) \<longleftrightarrow> mfa_enforced (tl_cfg env) \<and> has_confirmed_mfa (pf_db q) (u_id u)"
      "enrolment_required (tl_cfg env) (pf_db p1) u \<longleftrightarrow> mfa_require_enrolment (tl_cfg env) \<and> mfa_enforced (tl_cfg env) \<and>
           requires_mfa (u_role u) \<and> \<not> has_confirmed_mfa (pf_db q) (u_id u)"
      by (auto simp: challenge_owed_def enrolment_required_def has_confirmed_mfa_def rows)
    show ?thesis
      by (rule exI [of _ a], rule exI [of _ v], rule exI [of _ t], rule exI [of _ s], intro conjI)
        (use 1(1-8) mem ticket members entered(1) s stored v start_session_answer [OF start [unfolded ut]] in
          \<open>simp_all add: sessions ut enterable_def is_members_def owed rows\<close>)
  qed
qed

lemma from_ticket:
  assumes "rows_ok p"
  shows "account_from_ticket env (rq_now rq) ticket p = Inr a \<longleftrightarrow> a \<in> set (accounts (pf_db p)) \<and>
    read_ticket (tl_key env) (rq_now rq) ticket = Inr (a_id a) \<and> matches_ticket (tl_key env) ticket (a_password_hash a) \<and>
    open_request (a_id a) p = None"
proof
  assume r: "a \<in> set (accounts (pf_db p)) \<and> read_ticket (tl_key env) (rq_now rq) ticket = Inr (a_id a) \<and>
    matches_ticket (tl_key env) ticket (a_password_hash a) \<and> open_request (a_id a) p = None"
  then have "get_row a_id (a_id a) (accounts (pf_db p)) = Some a"
    using rows_okD(1) [OF assms] by (simp add: get_row_Some_iff_distinct keys_below_def)
  with r show "account_from_ticket env (rq_now rq) ticket p = Inr a"
    by (simp add: account_from_ticket_def ensure_not_pending_deletion_def)
qed (blast elim: account_from_ticketE)

lemma named_membership:
  assumes "rows_ok p"
  shows "(\<exists>m \<in> set (memberships order aid (pf_db p)). case m of (u, t) \<Rightarrow> t_slug t = lower (strip (or_blank slug))) \<longleftrightarrow>
    (\<exists>(u::user) t. u \<in> set (users (pf_db p)) \<and> u_account_id u = Some aid \<and> u_is_active u \<and> \<not> u_invitation_pending u \<and>
      t \<in> set (tenants (pf_db p)) \<and> u_tenant_id u = t_id t \<and> is_usable t \<and> t_slug t = lower (strip (or_blank slug)))"
proof -
  have row: "get_row t_id (u_tenant_id u) (tenants (pf_db p)) = Some t \<longleftrightarrow> t \<in> set (tenants (pf_db p)) \<and> u_tenant_id u = t_id t" for u :: user and t
    using rows_okD(3) [OF assms] by (auto simp: get_row_Some_iff_distinct keys_below_def)
  show ?thesis
  proof
    assume "\<exists>m \<in> set (memberships order aid (pf_db p)). case m of (u, t) \<Rightarrow> t_slug t = lower (strip (or_blank slug))"
    then obtain u t where m: "(u, t) \<in> set (memberships order aid (pf_db p))" "t_slug t = lower (strip (or_blank slug))" by auto
    from memberships_mem [OF m(1)] m(2) row show "\<exists>(u::user) t. u \<in> set (users (pf_db p)) \<and> u_account_id u = Some aid \<and> u_is_active u \<and>
      \<not> u_invitation_pending u \<and> t \<in> set (tenants (pf_db p)) \<and> u_tenant_id u = t_id t \<and> is_usable t \<and>
      t_slug t = lower (strip (or_blank slug))" by blast
  next
    assume "\<exists>(u::user) t. u \<in> set (users (pf_db p)) \<and> u_account_id u = Some aid \<and> u_is_active u \<and>
      \<not> u_invitation_pending u \<and> t \<in> set (tenants (pf_db p)) \<and> u_tenant_id u = t_id t \<and> is_usable t \<and>
      t_slug t = lower (strip (or_blank slug))"
    then obtain u :: user and t where u: "u \<in> set (users (pf_db p))" "is_membership_of aid u" "is_usable t"
      "get_row t_id (u_tenant_id u) (tenants (pf_db p)) = Some t" "t_slug t = lower (strip (or_blank slug))"
      by (auto simp: row is_membership_of_def)
    with memberships_complete [OF u(1,2,4,3), of order] show "\<exists>m \<in> set (memberships order aid (pf_db p)). case m of (u, t) \<Rightarrow> t_slug t = lower (strip (or_blank slug))" by auto
  qed
qed

lemma select_lets_in:
  assumes "rows_ok p"
  shows "(\<exists>resp q. login_select env rq token ticket slug False accepts p = (Inr resp, q)) \<longleftrightarrow>
      text_ok 1 300 ticket \<and> text_ok 0 63 (or_blank slug) \<and>
      (\<exists>a (u::user) t. a \<in> set (accounts (pf_db p)) \<and> read_ticket (tl_key env) (rq_now rq) ticket = Inr (a_id a) \<and>
        matches_ticket (tl_key env) ticket (a_password_hash a) \<and> open_request (a_id a) p = None \<and>
        u \<in> set (users (pf_db p)) \<and> u_account_id u = Some (a_id a) \<and> u_is_active u \<and> \<not> u_invitation_pending u \<and>
        t \<in> set (tenants (pf_db p)) \<and> u_tenant_id u = t_id t \<and> is_usable t \<and> t_slug t = lower (strip (or_blank slug)))"
proof -
  let ?named = "\<lambda>(u::user, t). t_slug t = lower (strip (or_blank slug))"
  have "(\<exists>resp q. login_select env rq token ticket slug False accepts p = (Inr resp, q)) \<longleftrightarrow>
      text_ok 1 300 ticket \<and> text_ok 0 63 (or_blank slug) \<and> (\<exists>a. account_from_ticket env (rq_now rq) ticket p = Inr a \<and>
        (\<exists>m \<in> set (memberships (tl_name_order env) (a_id a) (pf_db p)). ?named m))"
  proof -
    have started: "\<exists>out. start_session env rq token m a p = Inr out" if "account_from_ticket env (rq_now rq) ticket p = Inr a" for m a
      using that from_ticket [OF assms] by (cases m) (auto simp: start_session_def ensure_not_pending_deletion_def fresh_def Let_def)
    have choice: "(\<exists>m. resolve_choice env rq a slug False accepts p = Inr m) \<longleftrightarrow>
        (\<exists>m \<in> set (memberships (tl_name_order env) (a_id a) (pf_db p)). ?named m)" for a
    proof (cases "find ?named (memberships (tl_name_order env) (a_id a) (pf_db p))")
      case None
      then show ?thesis using None [unfolded find_None_iff] by (auto simp: resolve_choice_def Let_def)
    next
      case (Some m)
      then show ?thesis using found_has [OF Some] find_mem [OF Some] by (simp add: resolve_choice_def Let_def) blast
    qed
    have same: "q = p" if "resolve_choice env rq a slug False accepts p = Inr (m, q)" for a m q
      using that by (auto simp: resolve_choice_def Let_def split: option.splits)
    have entered: "(\<exists>resp q. bind_result (resolve_choice env rq a slug False accepts p) (\<lambda>(m, p1). start_session env rq token m a p1) =
        Inr (resp, q)) \<longleftrightarrow> (\<exists>m \<in> set (memberships (tl_name_order env) (a_id a) (pf_db p)). ?named m)"
      if "account_from_ticket env (rq_now rq) ticket p = Inr a" for a
    proof (cases "resolve_choice env rq a slug False accepts p")
      case (Inr out)
      obtain m q where out: "out = (m, q)" by fastforce
      with Inr same have "q = p" by blast
      then show ?thesis using choice [of a] started [OF that, of m] Inr by (auto simp: out)
    qed (use choice [of a] in simp)
    have "login_select env rq token ticket slug False accepts p = (Inr resp, q) \<longleftrightarrow> text_ok 1 300 ticket \<and> text_ok 0 63 (or_blank slug) \<and>
        (\<exists>a. account_from_ticket env (rq_now rq) ticket p = Inr a \<and>
          bind_result (resolve_choice env rq a slug False accepts p) (\<lambda>(m, p1). start_session env rq token m a p1) = Inr (resp, q))"
      for resp q
      by (auto simp: login_select_def checked_def transact_def split: sum.splits)
    then have "(\<exists>resp q. login_select env rq token ticket slug False accepts p = (Inr resp, q)) \<longleftrightarrow>
        text_ok 1 300 ticket \<and> text_ok 0 63 (or_blank slug) \<and> (\<exists>a. account_from_ticket env (rq_now rq) ticket p = Inr a \<and>
          (\<exists>resp q. bind_result (resolve_choice env rq a slug False accepts p) (\<lambda>(m, p1). start_session env rq token m a p1) =
            Inr (resp, q)))" by (simp only:) (rule iffI; elim exE conjE; intro conjI exI; assumption)
    then show ?thesis by (simp only: entered cong: conj_cong)
  qed
  then show ?thesis
    unfolding named_membership [OF assms] from_ticket [OF assms] by simp
qed

text \<open>C7: a pick enters the organisation that was picked, one's own, and nothing else. A session comes out of step two only
  for a ticket that is ours, has not run out and was made for the account's present password, whose account is not closed.
  It is of a stored member: active, accepted, of that account, in a usable organisation, the one whose handle was typed, or
  one's personal workspace as its owner. It starts now with that organisation's permissions; a second factor is owed exactly
  when factors are on and the member has one, or is asked to enrol where the role demands one; and only when nothing is
  owed does the session start satisfied. The other way round, a pick by handle is let in whenever such a ticket's account has
  such a membership in that organisation.\<close>

theorem select_enters_own_organisation:
  assumes "rows_ok p"
  shows "(\<forall>resp q. login_select env rq token ticket slug own accepts p = (Inr resp, q) \<longrightarrow>
     (\<exists>a (u::user) t s. a \<in> set (accounts (pf_db p)) \<and> read_ticket (tl_key env) (rq_now rq) ticket = Inr (a_id a) \<and>
        matches_ticket (tl_key env) ticket (a_password_hash a) \<and> open_request (a_id a) p = None \<and>
        u \<in> set (users (pf_db q)) \<and> u_account_id u = Some (a_id a) \<and> u_is_active u \<and> \<not> u_invitation_pending u \<and>
        t \<in> set (tenants (pf_db q)) \<and> u_tenant_id u = t_id t \<and> is_usable t \<and> picked own slug u t \<and>
        lr_user_id resp = u_id u \<and> lr_tenant_id resp = t_id t \<and> lr_session_token resp = token \<and> lr_role resp = u_role u \<and>
        lr_permissions resp = effective_permissions (u_role u) (effective_plan (t_plan t))
          (overrides_of (permission_overrides (pf_db q)) (u_id u)) \<and>
        (lr_mfa_required resp \<longleftrightarrow> mfa_enforced (tl_cfg env) \<and> has_confirmed_mfa (pf_db q) (u_id u)) \<and>
        (lr_mfa_enrolment_required resp \<longleftrightarrow> mfa_require_enrolment (tl_cfg env) \<and> mfa_enforced (tl_cfg env) \<and>
           requires_mfa (u_role u) \<and> \<not> has_confirmed_mfa (pf_db q) (u_id u)) \<and>
        user_sessions (pf_db q) = user_sessions (pf_db p) @ [s] \<and> us_token_hash s = tl_hash_token env token \<and>
        us_user_id s = u_id u \<and> us_tenant_id s = t_id t \<and> us_created_at s = rq_now rq \<and>
        us_mfa_satisfied_at s = (if lr_mfa_required resp \<or> lr_mfa_enrolment_required resp then None else Some (rq_now rq)))) \<and>
   ((\<exists>resp q. login_select env rq token ticket slug False accepts p = (Inr resp, q)) \<longleftrightarrow>
      text_ok 1 300 ticket \<and> text_ok 0 63 (or_blank slug) \<and>
      (\<exists>a (u::user) t. a \<in> set (accounts (pf_db p)) \<and> read_ticket (tl_key env) (rq_now rq) ticket = Inr (a_id a) \<and>
        matches_ticket (tl_key env) ticket (a_password_hash a) \<and> open_request (a_id a) p = None \<and>
        u \<in> set (users (pf_db p)) \<and> u_account_id u = Some (a_id a) \<and> u_is_active u \<and> \<not> u_invitation_pending u \<and>
        t \<in> set (tenants (pf_db p)) \<and> u_tenant_id u = t_id t \<and> is_usable t \<and> t_slug t = lower (strip (or_blank slug))))"
  using select_enters select_lets_in [OF assms] by (intro conjI allI impI)

definition ex_ticket :: string where
  "ex_ticket = issue_ticket (tl_key ex_env) (rq_now ex_request) 5 ''ok:an old password''"

lemma ex_select: "case fst (login_select ex_env ex_request ''token'' ex_ticket (Some ''acme'') False None ex_platform) of
    Inr resp \<Rightarrow> lr_mfa_required resp | Inl _ \<Rightarrow> False"
  by code_simp

theorem select_enters_own_organisation_witness:
  "\<exists>s. user_sessions (pf_db (snd (login_select ex_env ex_request ''token'' ex_ticket (Some ''acme'') False None ex_platform)))
      = user_sessions (pf_db ex_platform) @ [s] \<and> us_token_hash s = ''token'' \<and> us_mfa_satisfied_at s = None"
proof -
  let ?answer = "login_select ex_env ex_request ''token'' ex_ticket (Some ''acme'') False None ex_platform"
  obtain resp where resp: "fst ?answer = Inr resp" "lr_mfa_required resp"
    using ex_select by (cases "fst ?answer") simp_all
  from resp(1) have "?answer = (Inr resp, snd ?answer)" by (metis prod.collapse)
  from select_enters_own_organisation [OF ex_rows_ok, THEN conjunct1, rule_format, OF this] resp(2) show ?thesis
    by (elim exE conjE) (auto simp: ex_env_def)
qed

section \<open>Signing in after a reset\<close>


lemma is_ascii_append [simp]: "is_ascii (s @ t) \<longleftrightarrow> is_ascii s \<and> is_ascii t"
  by (simp add: is_ascii_def)













section \<open>One number, one account\<close>

text \<open>How a number is kept: digits only, or the international form of a Georgian mobile.\<close>

definition kept_number :: "string \<Rightarrow> bool" where
  "kept_number v \<longleftrightarrow> list_all is_digit v \<or> (take 4 v = ''+995'' \<and> georgian_mobile (drop 4 v))"

definition spells :: "string \<Rightarrow> string \<Rightarrow> bool" where
  "spells raw d \<longleftrightarrow> CHR ''@'' \<notin> set (strip raw) \<and> filter is_digit (strip raw) \<in> {d, CHR ''0'' # d, ''995'' @ d}"

lemma phone_variants_set:
  assumes "georgian_mobile d" and "filter is_digit (strip raw) \<in> {d, CHR ''0'' # d, ''995'' @ d}"
  shows "set (phone_variants raw) = {strip raw, d, CHR ''0'' # d, ''+995'' @ d, ''995'' @ d}"
proof -
  let ?digits = "filter is_digit (strip raw)"
  note local = local_number_forms [OF assms]
  have "phone_variants raw = rev (remdups (rev [strip raw, ?digits, d, CHR ''0'' # d, ''+995'' @ d, ''995'' @ d]))"
    using assms(1) local by (simp add: phone_variants_def Let_def georgian_mobile_def del: remdups.simps rev.simps)
  then have "set (phone_variants raw) = {strip raw, ?digits, d, CHR ''0'' # d, ''+995'' @ d, ''995'' @ d}"
    by (simp only: set_rev_remdups list.set)
  then show ?thesis using assms(2) by auto
qed

lemma kept_variant:
  assumes "georgian_mobile d" and "filter is_digit (strip raw) \<in> {d, CHR ''0'' # d, ''995'' @ d}" and "kept_number v"
  shows "v \<in> set (phone_variants raw) \<longleftrightarrow> v \<in> {d, CHR ''0'' # d, ''+995'' @ d, ''995'' @ d}"
proof -
  have "v \<in> {d, CHR ''0'' # d, ''+995'' @ d, ''995'' @ d}" if v: "v = strip raw"
    using assms(3) [unfolded kept_number_def]
  proof
    assume "list_all is_digit v"
    then have "filter is_digit (strip raw) = v" using filter_digits v by simp
    with assms(2) show ?thesis by auto
  next
    assume kept: "take 4 v = ''+995'' \<and> georgian_mobile (drop 4 v)"
    define e where "e = drop 4 v"
    have e: "v = ''+995'' @ e" "georgian_mobile e" using kept append_take_drop_id [of 4 v] by (simp_all add: e_def)
    then have "filter is_digit (strip raw) = ''995'' @ e"
      using filter_digits [of e] v by (simp add: georgian_mobile_def is_digit_def)
    with assms(1,2) e show ?thesis by (auto simp: georgian_mobile_def)
  qed
  then show ?thesis unfolding phone_variants_set [OF assms(1,2)] by auto
qed

text \<open>C32: the spellings of a Georgian mobile number name the same account: with or without the country code, the
  trunk zero, spaces or dashes, as long as accounts keep their numbers as digits or in the international form.\<close>

theorem phone_spellings_agree:
  assumes "georgian_mobile d" and "spells raw1 d" and "spells raw2 d"
    and "\<forall>a \<in> set (accounts db). case a_phone a of None \<Rightarrow> True | Some v \<Rightarrow> kept_number v"
  shows "find_account_by_login raw1 db = find_account_by_login raw2 db"
proof -
  have "find_account_by_login raw db =
      find (\<lambda>a. \<exists>v. a_phone a = Some v \<and> v \<in> {d, CHR ''0'' # d, ''+995'' @ d, ''995'' @ d}) (accounts db)"
    if "spells raw d" for raw
  proof -
    show ?thesis
      using that assms(1,4) kept_variant [of d "strip raw"]
      by (auto simp: find_account_by_login_def spells_def Let_def intro!: find_cong split: option.splits)
  qed
  with assms(2,3) show ?thesis by simp
qed

theorem phone_spellings_agree_witness:
  "find_account_by_login ''+995 599 12-34-56'' (pf_db ex_platform) = find_account_by_login ''0599123456'' (pf_db ex_platform)"
proof (rule phone_spellings_agree [of "''599123456''"])
  show "georgian_mobile ''599123456''" "spells ''+995 599 12-34-56'' ''599123456''" "spells ''0599123456'' ''599123456''"
    by code_simp+
  show "\<forall>a \<in> set (accounts (pf_db ex_platform)). case a_phone a of None \<Rightarrow> True | Some v \<Rightarrow> kept_number v"
    by code_simp
qed

section \<open>What the handlers leave out\<close>

text \<open>Switching organisation: the new session does not say that someone acts as another person.\<close>

lemma switch_forgets_impersonation:
  assumes "switch_organisation env rq token session slug own p = (Inr resp, q)"
  shows "us_impersonated_by_user_id (List.last (user_sessions (pf_db q))) = None"
proof -
  obtain a m p1 r where m: "resolve_choice env rq a slug own None p = Inr (m, p1)"
    and start: "start_session env rq token m a p1 = Inr (resp, r)"
    and q: "q = on_db (revoke_session (rq_now rq) (as_session_id session)) r"
    using assms by (auto simp: switch_organisation_def enter_instead_def checked_def transact_def
        split: if_split_asm sum.splits)
  obtain u t where ut: "m = (u, t)" by fastforce
  show ?thesis
  proof (rule start_session_Inr [OF start [unfolded ut]], goal_cases)
    case (1 satisfied)
    show ?case by (simp add: q 1(9) platform_simps revoke_session_def stamp_login_def create_session_def update_where_def)
  qed
qed

end
