(* ===== verification/Deletions.thy ===== *)
theory Deletions
  imports Runs Finances Billing
begin

text \<open>
  Deciding on a request to delete an account, and deleting (\<^verbatim>\<open>domain/account_deletion.py\<close>, the
  screens of \<^verbatim>\<open>api/v1/platform.py\<close> and the daily command of \<^verbatim>\<open>cli.py\<close>). The state puts beside the
  people's rows what the review and the deletion reach into: every bureau's work, the translators'
  portal and the inboxes. The team's mails are letters, without their wording.
\<close>

section \<open>State\<close>

record portal_link =
  pl_id :: int
  pl_portal_id :: int
  pl_tenant_id :: int
  pl_translator_id :: int

record portal_invite =
  pi_user_id :: "int option"
  pi_portal_id :: "int option"

record personal_order =
  ps_id :: int
  ps_portal_id :: int

text \<open>A row of a table that belongs to one row of another: a file or a language pair to a personal
  order; a notification, a mention or a reading mark to a member.\<close>

record owned_row =
  ow_id :: int
  ow_owner_id :: int

record estate =
  es_platform :: platform
  es_offices :: "int \<Rightarrow> office"
  es_links :: "portal_link list"
  es_invites :: "portal_invite list"
  es_personal :: "personal_order list"
  es_personal_files :: "owned_row list"
  es_personal_pairs :: "owned_row list"
  es_notifications :: "owned_row list"
  es_mentions :: "owned_row list"
  es_reads :: "owned_row list"

definition on_platform :: "(platform \<Rightarrow> platform) \<Rightarrow> estate \<Rightarrow> estate" where
  "on_platform f e = e\<lparr>es_platform := f (es_platform e)\<rparr>"

definition DELETION_GRACE_DAYS :: int where "DELETION_GRACE_DAYS = 30"
definition DELETED_NAME :: string where "DELETED_NAME = ''Deleted user''"

fun deletion_value :: "deletion_status \<Rightarrow> string" where
  "deletion_value REQUESTED = ''requested''"
| "deletion_value APPROVED = ''approved''"
| "deletion_value REJECTED = ''rejected''"
| "deletion_value DONE = ''done''"

section \<open>Saying no\<close>

definition request_or_error :: "int \<Rightarrow> platform \<Rightarrow> deletion_request result" where
  "request_or_error i p =
     (case get_row dr_id i (pf_deletions p) of
        None \<Rightarrow> Inl (ValidationError (''There is no deletion request '' @ show_int i @ ''.''))
      | Some r \<Rightarrow> Inr r)"

definition clean_note :: "string option \<Rightarrow> string option" where
  "clean_note text = (let s = strip (or_blank text) in if s = [] then None else Some s)"

definition store_request :: "deletion_request \<Rightarrow> platform \<Rightarrow> platform" where
  "store_request r p = p\<lparr>pf_deletions := update_where (\<lambda>q. dr_id q = dr_id r) (\<lambda>_. r) (pf_deletions p)\<rparr>"

text \<open>Whatever filing the request switched off is switched back on.\<close>

definition portal_back_on :: "deletion_request \<Rightarrow> platform \<Rightarrow> platform" where
  "portal_back_on r p =
     (if \<not> dr_portal_deactivated r then p
      else case get_row a_id (dr_account_id r) (accounts (pf_db p)) of
        None \<Rightarrow> p
      | Some a \<Rightarrow> (case portal_of a p of None \<Rightarrow> p | Some t \<Rightarrow> set_portal (pp_id t) True p))"

definition reject_request ::
    "instant \<Rightarrow> int \<Rightarrow> int option \<Rightarrow> string option \<Rightarrow> platform \<Rightarrow> (deletion_request \<times> platform) result" where
  "reject_request now i decided_by text p =
     bind_result (request_or_error i p) (\<lambda>r.
       if dr_status r \<notin> OPEN_DELETION_STATUSES
       then Inl (ValidationError (''Request '' @ show_int i @ '' is already '' @ deletion_value (dr_status r) @
              ''; there is nothing to cancel.''))
       else let r' = r\<lparr>dr_status := REJECTED, dr_decided_at := Some now, dr_decided_by := decided_by,
                       dr_review_note := clean_note text, dr_purge_after := None, dr_portal_deactivated := False\<rparr>
            in Inr (r', store_request r' (portal_back_on r p)))"

section \<open>What a reviewer should look at\<close>

record finding =
  fi_code :: string
  fi_organisation :: string
  fi_count :: "nat option"
  fi_amount :: "rat option"
  fi_blocking :: bool

text \<open>Ids in bunches of 500, and the sums the database makes for each bunch, in whole cents.\<close>

function chunks :: "'a list \<Rightarrow> 'a list list" where
  "chunks ids = (if ids = [] then [] else take 500 ids # chunks (drop 500 ids))"
  by pat_completeness auto
termination by (relation "measure length") auto

declare chunks.simps [simp del]

definition cents_by :: "('r \<Rightarrow> 'k) \<Rightarrow> ('r \<Rightarrow> rat) \<Rightarrow> 'k list \<Rightarrow> 'r list \<Rightarrow> 'k \<Rightarrow> int" where
  "cents_by key amount ids rows k =
     (\<Sum>chunk \<leftarrow> chunks ids. if k \<in> set chunk then to_cents (sum_where amount (\<lambda>r. key r = k) rows) else 0)"

text \<open>An order's status is its latest event's; an order with none is new.\<close>

definition current_status :: "office \<Rightarrow> int \<Rightarrow> string" where
  "current_status db oid =
     (case latest_status oid db of None \<Rightarrow> INITIAL_STATUS | Some s \<Rightarrow> normalise (Some s))"

definition workspace_findings :: "string \<Rightarrow> office \<Rightarrow> finding list" where
  "workspace_findings organisation db =
     (let ids = map o_id (orders db);
          open_orders = length (filter (\<lambda>oid. current_status db oid \<notin> CLOSED_STATUSES) ids);
          live = filter (\<lambda>ord. current_status db (o_id ord) \<notin> EXCLUDED_FROM_AGGREGATES) (orders db);
          billed = cents_by d_order_id d_price (map o_id live) (documents db);
          paid = cents_by al_target_id al_amount (map o_id live) (client_allocations db);
          owed = map (\<lambda>ord. to_cents (o_delivery_cost ord) + billed (o_id ord) - paid (o_id ord)) live;
          unpaid = filter (\<lambda>cents. 0 < cents) owed
      in (if open_orders = 0 then []
          else [\<lparr>fi_code = ''open_orders'', fi_organisation = organisation, fi_count = Some open_orders,
                 fi_amount = None, fi_blocking = False\<rparr>]) @
         (if unpaid = [] then []
          else [\<lparr>fi_code = ''unpaid_orders'', fi_organisation = organisation, fi_count = Some (length unpaid),
                 fi_amount = Some (from_cents (sum_list unpaid)), fi_blocking = False\<rparr>]))"

text \<open>What one bureau still owes a translator, by the bureau's own sums.\<close>

definition payout_cents :: "office \<Rightarrow> int \<Rightarrow> int" where
  "payout_cents db tid =
     (let earned = (\<Sum>d \<leftarrow> filter (\<lambda>d. d_translator_id d = Some tid \<and>
              current_status db (d_order_id d) \<notin> EXCLUDED_FROM_AGGREGATES) (documents db). to_cents (d_translator_cost d));
          payments = filter (\<lambda>p. l_party p = tid) (translator_payments db);
          through = map (Some \<circ> l_id) payments;
          fronted = (\<Sum>k \<leftarrow> through. cents_by l_party l_amount through (notary_payments db) k);
          paid = (\<Sum>p \<leftarrow> payments. to_cents (l_amount p)) - fronted
      in earned - paid)"

definition payout_findings :: "(string \<Rightarrow> int) \<Rightarrow> account \<Rightarrow> estate \<Rightarrow> finding list" where
  "payout_findings name_order a e =
     (case portal_of a (es_platform e) of
        None \<Rightarrow> []
      | Some person \<Rightarrow>
          List.map_filter (\<lambda>(link, t).
              let owed = payout_cents (es_offices e (pl_tenant_id link)) (pl_translator_id link)
              in if 0 < owed
                 then Some \<lparr>fi_code = ''payouts_owed'', fi_organisation = t_display_name t, fi_count = None,
                            fi_amount = Some (from_cents owed), fi_blocking = False\<rparr>
                 else None)
            (sort_key (\<lambda>(link, t). (name_order (t_display_name t), pl_id link))
              (List.map_filter (\<lambda>link. map_option (Pair link)
                  (get_row t_id (pl_tenant_id link) (tenants (pf_db (es_platform e)))))
                (filter (\<lambda>link. pl_portal_id link = pp_id person) (es_links e)))))"

definition owned_organisations :: "(string \<Rightarrow> int) \<Rightarrow> int \<Rightarrow> id_db \<Rightarrow> membership list" where
  "owned_organisations name_order aid db =
     sort_key (\<lambda>(u, t). (name_order (t_display_name t), u_id u))
       (joined_tenants (\<lambda>u. is_membership_of aid u \<and> u_role u = OWNER) db)"

definition used_by_others :: "user \<Rightarrow> id_db \<Rightarrow> bool" where
  "used_by_others u db \<longleftrightarrow>
     (\<exists>v \<in> set (users db). u_tenant_id v = u_tenant_id u \<and> u_is_active v \<and> u_id v \<noteq> u_id u)"

definition organisation_findings :: "estate \<Rightarrow> membership \<Rightarrow> finding list" where
  "organisation_findings e m =
     (case m of (u, t) \<Rightarrow>
        if would_strand_organisation u (pf_db (es_platform e))
          then [\<lparr>fi_code = ''only_owner'', fi_organisation = t_display_name t, fi_count = None,
                 fi_amount = None, fi_blocking = True\<rparr>]
        else if used_by_others u (pf_db (es_platform e)) then []
        else workspace_findings (t_display_name t) (es_offices e (t_id t)))"

definition findings :: "(string \<Rightarrow> int) \<Rightarrow> int \<Rightarrow> estate \<Rightarrow> finding list" where
  "findings name_order aid e =
     (case get_row a_id aid (accounts (pf_db (es_platform e))) of
        None \<Rightarrow> []
      | Some a \<Rightarrow>
          concat (map (organisation_findings e) (owned_organisations name_order aid (pf_db (es_platform e)))) @
          payout_findings name_order a e)"

section \<open>Saying yes\<close>

definition approve_request ::
    "(string \<Rightarrow> int) \<Rightarrow> instant \<Rightarrow> int \<Rightarrow> int \<Rightarrow> string option \<Rightarrow> bool \<Rightarrow> estate
     \<Rightarrow> (deletion_request \<times> estate) result" where
  "approve_request name_order now i decided_by text acknowledged e =
     bind_result (request_or_error i (es_platform e)) (\<lambda>r.
       if dr_status r \<noteq> REQUESTED
       then Inl (ValidationError (''Request '' @ show_int i @ '' is '' @ deletion_value (dr_status r) @
              ''; only a new request can be approved.''))
       else let found = findings name_order (dr_account_id r) e;
                stranded = map fi_organisation (filter fi_blocking found)
            in if stranded \<noteq> []
               then Inl (ConflictError (separated '', '' stranded @
                      '' would be left without an owner. Hand it over to someone first, then approve.''))
               else if found \<noteq> [] \<and> \<not> acknowledged
               then Inl (ConflictError ''This person has things that may count as obligations. Look at them, then confirm that you have.'')
               else let r' = r\<lparr>dr_status := APPROVED, dr_decided_at := Some now, dr_decided_by := Some decided_by,
                               dr_review_note := clean_note text,
                               dr_purge_after := Some (now + hours (24 * DELETION_GRACE_DAYS))\<rparr>
                    in Inr (r', on_platform (store_request r') e))"

section \<open>Deleting\<close>

text \<open>Every request keeping an account closed, oldest first, with its account.\<close>

definition open_requests :: "platform \<Rightarrow> (deletion_request \<times> account) list" where
  "open_requests p =
     List.map_filter (\<lambda>r. map_option (Pair r) (get_row a_id (dr_account_id r) (accounts (pf_db p))))
       (sort_key (\<lambda>r. (dr_created_at r, dr_id r))
         (filter (\<lambda>r. dr_status r \<in> OPEN_DELETION_STATUSES) (pf_deletions p)))"

text \<open>Approved requests whose waiting time is over, the longest waiting first.\<close>

definition is_due :: "instant \<Rightarrow> deletion_request \<Rightarrow> bool" where
  "is_due now r \<longleftrightarrow> dr_status r = APPROVED \<and> (case dr_purge_after r of None \<Rightarrow> False | Some t \<Rightarrow> t \<le> now)"

definition due_for_purge :: "instant \<Rightarrow> platform \<Rightarrow> deletion_request list" where
  "due_for_purge now p =
     sort_key (\<lambda>r. (case dr_purge_after r of None \<Rightarrow> 0 | Some t \<Rightarrow> t, dr_id r)) (filter (is_due now) (pf_deletions p))"

definition deleted_username :: "user \<Rightarrow> string" where
  "deleted_username u = ''deleted-'' @ show_int (u_id u)"

definition emptied_user :: "instant \<Rightarrow> user \<Rightarrow> user" where
  "emptied_user now u = u\<lparr>u_full_name := DELETED_NAME, u_username := deleted_username u, u_email := None,
     u_phone := None, u_position := None, u_password_hash := UNUSABLE_PASSWORD_HASH, u_is_active := False,
     u_invitation_pending := False, u_must_change_password := False, u_email_verified_at := None,
     u_sessions_invalid_before := Some now\<rparr>"

definition emptied_account :: "account \<Rightarrow> account" where
  "emptied_account a = a\<lparr>a_email := None, a_phone := None, a_suliko_user_id := None,
     a_full_name := DELETED_NAME, a_password_hash := UNUSABLE_PASSWORD_HASH,
     a_must_change_password := False, a_email_verified_at := None\<rparr>"

text \<open>Handles are unique in an organisation: somebody else may already have the new one.\<close>

definition handle_taken :: "int \<Rightarrow> id_db \<Rightarrow> bool" where
  "handle_taken aid db \<longleftrightarrow>
     (\<exists>u \<in> set (users db). \<exists>v \<in> set (users db). u_account_id u = Some aid \<and> u_account_id v \<noteq> Some aid \<and>
        u_tenant_id v = u_tenant_id u \<and> u_username v = deleted_username u)"

text \<open>What belongs to a set of members, dropped from every table that names them.\<close>

definition without_members :: "int list \<Rightarrow> id_db \<Rightarrow> id_db" where
  "without_members uids db = db\<lparr>
     user_sessions := filter (\<lambda>s. us_user_id s \<notin> set uids) (user_sessions db),
     mfa_methods := filter (\<lambda>m. mm_user_id m \<notin> set uids) (mfa_methods db),
     recovery_codes := filter (\<lambda>c. rc_user_id c \<notin> set uids) (recovery_codes db),
     reset_tokens := filter (\<lambda>r. rt_user_id r \<notin> set uids) (reset_tokens db),
     permission_overrides := filter (\<lambda>o'. po_user_id o' \<notin> set uids) (permission_overrides db)\<rparr>"

definition without_inboxes :: "int list \<Rightarrow> estate \<Rightarrow> estate" where
  "without_inboxes uids e = e\<lparr>
     es_notifications := filter (\<lambda>r. ow_owner_id r \<notin> set uids) (es_notifications e),
     es_mentions := filter (\<lambda>r. ow_owner_id r \<notin> set uids) (es_mentions e),
     es_reads := filter (\<lambda>r. ow_owner_id r \<notin> set uids) (es_reads e),
     es_invites := filter (\<lambda>i. pi_user_id i \<notin> Some ` set uids) (es_invites e)\<rparr>"

text \<open>The translators' portal: the person's own orders and what hangs on them, their links and the record.\<close>

definition without_portal :: "int \<Rightarrow> estate \<Rightarrow> estate" where
  "without_portal i e =
     (let order_ids = map ps_id (filter (\<lambda>x. ps_portal_id x = i) (es_personal e))
      in e\<lparr>es_personal_files := filter (\<lambda>r. ow_owner_id r \<notin> set order_ids) (es_personal_files e),
           es_personal_pairs := filter (\<lambda>r. ow_owner_id r \<notin> set order_ids) (es_personal_pairs e),
           es_personal := filter (\<lambda>x. ps_portal_id x \<noteq> i) (es_personal e),
           es_invites := filter (\<lambda>v. pi_portal_id v \<noteq> Some i) (es_invites e),
           es_links := filter (\<lambda>l. pl_portal_id l \<noteq> i) (es_links e),
           es_platform := (es_platform e)\<lparr>pf_portal := filter (\<lambda>t. pp_id t \<noteq> i) (pf_portal (es_platform e))\<rparr>\<rparr>)"

definition typed_names :: "account \<Rightarrow> string set" where
  "typed_names a = lower ` ({or_blank (a_email a), or_blank (a_phone a)} - {[]})"

definition purge_account ::
    "instant \<Rightarrow> deletion_request \<Rightarrow> estate \<Rightarrow> ((string option \<times> string) \<times> estate) result" where
  "purge_account now r e =
     (let p = es_platform e; db = pf_db p in
      case get_row a_id (dr_account_id r) (accounts db) of
        None \<Rightarrow> Inl (ValidationError (''Request '' @ show_int (dr_id r) @ '' points at an account that is gone.''))
      | Some a \<Rightarrow>
          let uids = map u_id (filter (\<lambda>u. u_account_id u = Some (a_id a)) (users db));
              db1 = without_members uids (db\<lparr>users :=
                update_where (\<lambda>u. u_account_id u = Some (a_id a)) (emptied_user now) (users db)\<rparr>);
              e1 = without_inboxes uids (on_platform (on_db (\<lambda>_. db1)) e);
              e2 = (case portal_of a p of None \<Rightarrow> e1 | Some t \<Rightarrow> without_portal (pp_id t) e1)
          in if handle_taken (a_id a) db then Inl (IntegrityError ''uq_users_tenant_username'')
             else Inr ((a_email a, a_full_name a),
               on_platform (\<lambda>q. store_request (r\<lparr>dr_status := DONE, dr_done_at := Some now, dr_portal_deactivated := False\<rparr>)
                 (on_db (store_account (emptied_account a))
                   (q\<lparr>pf_attempts := filter (\<lambda>l. lower (la_username l) \<notin> typed_names a) (pf_attempts q)\<rparr>))) e2))"

section \<open>The team's screens and the daily command\<close>

definition log_system :: "string \<Rightarrow> string \<Rightarrow> int \<Rightarrow> platform \<Rightarrow> platform" where
  "log_system action entity_type i = on_db (\<lambda>db. db\<lparr>audit_log := audit_log db @
     [audit_record None action (Some entity_type) (Some i)]\<rparr>)"

definition tell :: "account \<Rightarrow> letter \<Rightarrow> platform \<Rightarrow> platform" where
  "tell a letter p = (if or_blank (a_email a) = [] then p else send_mail (or_blank (a_email a)) letter p)"

definition existing_deletion_request :: "int \<Rightarrow> platform \<Rightarrow> (deletion_request \<times> account) result" where
  "existing_deletion_request i p =
     (case get_row dr_id i (pf_deletions p) of
        None \<Rightarrow> Inl (NotFoundError ''Deletion request not found.'')
      | Some r \<Rightarrow>
          (case get_row a_id (dr_account_id r) (accounts (pf_db p)) of
             None \<Rightarrow> Inl (NotFoundError ''Deletion request not found.'')
           | Some a \<Rightarrow> Inr (r, a)))"

record deletion_out =
  do_request :: deletion_request
  do_name :: string
  do_login :: string
  do_organisations :: "string list"
  do_findings :: "finding list"

definition deletion_out_of :: "tools \<Rightarrow> bool \<Rightarrow> deletion_request \<Rightarrow> account \<Rightarrow> estate \<Rightarrow> deletion_out" where
  "deletion_out_of env weigh r a e =
     \<lparr>do_request = r, do_name = a_full_name a, do_login = login_name a,
      do_organisations = map (t_display_name \<circ> snd) (sort_key (\<lambda>(u, t). tl_name_order env (t_display_name t))
        (joined_tenants (\<lambda>u. u_account_id u = Some (a_id a) \<and> u_is_active u) (pf_db (es_platform e)))),
      do_findings = (if weigh then findings (tl_name_order env) (a_id a) e else [])\<rparr>"

definition waiting_requests :: "tools \<Rightarrow> instant \<Rightarrow> auth_session \<Rightarrow> estate \<Rightarrow> deletion_out list result" where
  "waiting_requests env now caller e =
     bind_result (require (tl_cfg env) now [PLATFORM_TENANTS] caller) (\<lambda>_.
       Inr (map (\<lambda>(r, a). deletion_out_of env True r a e) (open_requests (es_platform e))))"

definition approve_deletion_request ::
    "tools \<Rightarrow> instant \<Rightarrow> auth_session \<Rightarrow> int \<Rightarrow> string option \<Rightarrow> bool \<Rightarrow> estate \<Rightarrow> (deletion_out \<times> estate) result" where
  "approve_deletion_request env now caller i text acknowledged e =
     bind_result (require (tl_cfg env) now [PLATFORM_TENANTS] caller) (\<lambda>session.
       if \<not> text_ok 0 2000 (or_blank text) then Inl invalid_payload
       else bind_result (existing_deletion_request i (es_platform e)) (\<lambda>(_, a).
         bind_result (approve_request (tl_name_order env) now i (as_user_id session) text acknowledged e) (\<lambda>(r, e1).
           let e2 = on_platform (\<lambda>p. tell a Deletion_approved
                      (on_db (log_audit session ''platform.deletion_approved'' ''account'' (a_id a)) p)) e1
           in Inr (deletion_out_of env False r a e2, e2))))"

definition reject_deletion_request ::
    "tools \<Rightarrow> instant \<Rightarrow> auth_session \<Rightarrow> int \<Rightarrow> string option \<Rightarrow> estate \<Rightarrow> (deletion_out \<times> estate) result" where
  "reject_deletion_request env now caller i text e =
     bind_result (require (tl_cfg env) now [PLATFORM_TENANTS] caller) (\<lambda>session.
       if \<not> text_ok 0 2000 (or_blank text) then Inl invalid_payload
       else bind_result (existing_deletion_request i (es_platform e)) (\<lambda>(_, a).
         bind_result (reject_request now i (Some (as_user_id session)) text (es_platform e)) (\<lambda>(r, p1).
           let e2 = e\<lparr>es_platform := tell a Deletion_rejected
                      (on_db (log_audit session ''platform.deletion_rejected'' ''account'' (a_id a)) p1)\<rparr>
           in Inr (deletion_out_of env False r a e2, e2))))"

definition cancel_deletion_request :: "instant \<Rightarrow> int \<Rightarrow> estate \<Rightarrow> estate result" where
  "cancel_deletion_request now i e =
     bind_result (reject_request now i None None (es_platform e)) (\<lambda>(r, p1).
       Inr (e\<lparr>es_platform := log_system ''account.deletion_cancelled'' ''account'' (dr_account_id r) p1\<rparr>))"

text \<open>One request of the daily command, a transaction of its own: a failure is counted and leaves no trace.\<close>

definition purge_one :: "instant \<Rightarrow> int \<Rightarrow> nat \<times> estate \<Rightarrow> nat \<times> estate" where
  "purge_one now i state =
     (case state of (failed, e) \<Rightarrow>
        case get_row dr_id i (pf_deletions (es_platform e)) of
          None \<Rightarrow> (failed + 1, e)
        | Some r \<Rightarrow>
            (case purge_account now r e of
               Inl _ \<Rightarrow> (failed + 1, e)
             | Inr ((address, name), e1) \<Rightarrow>
                 (failed, on_platform (\<lambda>p.
                    let q = log_system ''account.deleted'' ''account'' (dr_account_id r) p
                    in if or_blank address = [] then q else send_mail (or_blank address) Deletion_done q) e1)))"

text \<open>The ids that are due are read in one transaction, and each is deleted in one of its own: \<open>nows\<close> are the moments at
  which their turns come, and \<open>meanwhile\<close> what everybody else does to the state before each turn.\<close>

definition purge_accounts ::
    "instant \<Rightarrow> (int \<Rightarrow> instant) \<Rightarrow> (int \<Rightarrow> estate \<Rightarrow> estate) \<Rightarrow> estate \<Rightarrow> nat \<times> estate" where
  "purge_accounts now nows meanwhile e =
     fold (\<lambda>i (failed, e'). purge_one (nows i) i (failed, meanwhile i e')) (map dr_id (due_for_purge now (es_platform e))) (0, e)"

end
