(* ===== verification/Closures.thy ===== *)
theory Closures
  imports Deletions
begin

text \<open>
  What closing and deleting an account guarantee: an approval nobody had to wave through means that
  the bureaus' own books are settled; a refusal puts everything back; nothing is deleted before its
  time; and what is deleted is the person, and only the person.
\<close>

section \<open>The review and the books\<close>

lemma concat_chunks: "concat (chunks ids) = ids"
proof (induction ids rule: chunks.induct)
  case (1 ids)
  show ?case
  proof (cases "ids = []")
    case False
    with 1 show ?thesis by (subst chunks.simps) simp
  qed (simp add: chunks.simps)
qed

lemma one_bunch:
  "distinct (concat bunches) \<Longrightarrow>
     (\<Sum>bunch \<leftarrow> bunches. if k \<in> set bunch then c else (0::int)) = (if k \<in> set (concat bunches) then c else 0)"
  by (induction bunches) auto

lemma cents_by_distinct:
  "distinct ids \<Longrightarrow>
     cents_by key amount ids rows k = (if k \<in> set ids then to_cents (sum_where amount (\<lambda>r. key r = k) rows) else 0)"
  unfolding cents_by_def using one_bunch [of "chunks ids" k] by (simp add: concat_chunks)

lemma cents_exact: "is_cents x \<Longrightarrow> of_int (to_cents x) = x * 100"
  by (auto simp: is_cents_def to_cents_def elim!: Ints_cases)

lemma cents_exact_sum: "\<forall>r \<in> set rows. is_cents (amount r) \<Longrightarrow>
    of_int (\<Sum>r \<leftarrow> rows. to_cents (amount r)) = (\<Sum>r \<leftarrow> rows. amount r) * 100"
  by (induction rows) (simp_all add: cents_exact algebra_simps)

lemma is_cents_sum_where: "\<forall>r \<in> set rows. is_cents (amount r) \<Longrightarrow> is_cents (sum_where amount P rows)"
  by (induction rows) auto

text \<open>A bureau whose amounts are whole cents, whose rows fit together, and where no status of its own spells cancelled or
  rejected in another way. The review compares statuses without their case, the finance screens as they are stored.\<close>

definition books_tidy :: "office \<Rightarrow> bool" where
  "books_tidy db \<longleftrightarrow> distinct (map o_id (orders db)) \<and> distinct (map l_id (translator_payments db)) \<and>
     (\<forall>ord \<in> set (orders db). is_cents (o_delivery_cost ord)) \<and>
     (\<forall>d \<in> set (documents db). is_cents (d_price d) \<and> is_cents (d_translator_cost d) \<and> d_order_id d \<in> o_id ` set (orders db)) \<and>
     (\<forall>al \<in> set (client_allocations db). is_cents (al_amount al)) \<and>
     (\<forall>l \<in> set (translator_payments db). is_cents (l_amount l)) \<and>
     (\<forall>l \<in> set (notary_payments db). is_cents (l_amount l)) \<and>
     (\<forall>ev \<in> set (status_events db). normalise (Some (e_status ev)) \<in> EXCLUDED_FROM_AGGREGATES \<longrightarrow>
        e_status ev \<in> EXCLUDED_FROM_AGGREGATES)"

lemma current_live:
  assumes "books_tidy db" and "oid \<in> o_id ` set (orders db)"
  shows "current_status db oid \<notin> EXCLUDED_FROM_AGGREGATES \<longleftrightarrow> is_live db oid"
proof -
  have "normalise (Some x) \<in> EXCLUDED_FROM_AGGREGATES" if "x \<in> EXCLUDED_FROM_AGGREGATES" for x
    using that unfolding EXCLUDED_FROM_AGGREGATES_def by (elim insertE emptyE) (simp, code_simp)+
  then have "normalise (Some (e_status ev)) \<in> EXCLUDED_FROM_AGGREGATES \<longleftrightarrow> e_status ev \<in> EXCLUDED_FROM_AGGREGATES"
    if "ev \<in> set (status_events db)" for ev
    using that assms(1) by (auto simp: books_tidy_def)
  moreover have "INITIAL_STATUS \<notin> EXCLUDED_FROM_AGGREGATES" "[] \<notin> EXCLUDED_FROM_AGGREGATES"
    by (simp_all add: INITIAL_STATUS_def EXCLUDED_FROM_AGGREGATES_def)
  ultimately show ?thesis
    using assms(2) latest_event_mem [of oid "status_events db"]
    by (auto simp: current_status_def is_live_def latest_status_def or_blank_def split: option.splits)
qed

lemma current_closed: "current_status db oid \<in> CLOSED_STATUSES \<longleftrightarrow> is_closed (latest_status oid db)"
  by (simp add: current_status_def is_closed_def INITIAL_STATUS_def CLOSED_STATUSES_def normalise_def or_blank_def
      lower_def strip_def split: option.splits)

lemma payout_is_balance:
  assumes "books_tidy db"
  shows "from_cents (payout_cents db (tr_id t)) = b_outstanding (translator_balance_of db t)"
proof -
  define mine where "mine = filter (\<lambda>d. d_translator_id d = Some (tr_id t) \<and>
    current_status db (d_order_id d) \<notin> EXCLUDED_FROM_AGGREGATES) (documents db)"
  define payments where "payments = filter (\<lambda>p. l_party p = tr_id t) (translator_payments db)"
  define through where "through = map (Some \<circ> l_id) payments"
  have tidy: "\<forall>d \<in> set (documents db). is_cents (d_translator_cost d) \<and> d_order_id d \<in> o_id ` set (orders db)"
    "\<forall>l \<in> set (translator_payments db). is_cents (l_amount l)" "\<forall>l \<in> set (notary_payments db). is_cents (l_amount l)"
    "distinct (map l_id (translator_payments db))"
    using assms by (simp_all add: books_tidy_def)
  have "translator_earned db (tr_id t) = sum_where d_translator_cost (\<lambda>d. d_translator_id d = Some (tr_id t) \<and>
      current_status db (d_order_id d) \<notin> EXCLUDED_FROM_AGGREGATES) (documents db)"
    unfolding translator_earned_def by (rule sum_where_cong) (use current_live [OF assms] tidy(1) in auto)
  then have earned: "of_int (\<Sum>d \<leftarrow> mine. to_cents (d_translator_cost d)) = translator_earned db (tr_id t) * 100"
    by (subst cents_exact_sum) (use tidy(1) in \<open>auto simp: mine_def sum_where_def\<close>)
  have paid: "of_int (\<Sum>p \<leftarrow> payments. to_cents (l_amount p)) = translator_payouts db (tr_id t) * 100"
    by (subst cents_exact_sum) (use tidy(2) in \<open>auto simp: payments_def translator_payouts_def sum_where_def\<close>)
  have "distinct (map l_id payments)" using tidy(4) by (simp add: payments_def distinct_map_filter)
  then have "distinct through" by (auto simp: through_def distinct_map inj_on_def)
  then have "(\<Sum>k \<leftarrow> through. cents_by l_party l_amount through (notary_payments db) k) =
      (\<Sum>k \<leftarrow> through. to_cents (sum_where l_amount (\<lambda>r. l_party r = k) (notary_payments db)))"
    by (intro arg_cong [where f = sum_list] map_cong) (simp_all add: cents_by_distinct)
  also have "\<dots> = (\<Sum>p \<leftarrow> payments. to_cents (paid_through db (l_id p)))"
    by (simp add: through_def paid_through_def comp_def)
  finally have "of_int (\<Sum>k \<leftarrow> through. cents_by l_party l_amount through (notary_payments db) k) =
      (\<Sum>p \<leftarrow> payments. paid_through db (l_id p)) * 100"
    using cents_exact_sum [of payments "\<lambda>p. paid_through db (l_id p)"] is_cents_sum_where [OF tidy(3)]
    by (simp add: paid_through_def)
  then have "of_int (\<Sum>k \<leftarrow> through. cents_by l_party l_amount through (notary_payments db) k) =
      translator_fronted db (tr_id t) * 100"
    by (simp add: payments_def translator_fronted_def sum_where_def)
  with earned paid show ?thesis
    by (simp add: payout_cents_def Let_def translator_balance_of_def from_cents_def mine_def payments_def through_def
        field_simps)
qed

lemma owed_cents:
  assumes "books_tidy db" and "ord \<in> set live" and "distinct (map o_id live)" and "set live \<subseteq> set (orders db)"
  shows "of_int (to_cents (o_delivery_cost ord) + cents_by d_order_id d_price (map o_id live) (documents db) (o_id ord) -
      cents_by al_target_id al_amount (map o_id live) (client_allocations db) (o_id ord)) = w_owed (owed_row_of db ord) * 100"
proof -
  have "is_cents (o_delivery_cost ord)" "is_cents (documents_total (o_id ord) db)" "is_cents (paid_on (o_id ord) db)"
    using assms(1,2,4) by (auto simp: books_tidy_def documents_total_def paid_on_def intro!: is_cents_sum_where)
  moreover have "o_id ord \<in> o_id ` set live" using assms(2) by simp
  ultimately show ?thesis
    using assms(3) unfolding documents_total_def paid_on_def
    by (simp add: cents_by_distinct cents_exact owed_row_of_def billed_on_def documents_total_def paid_on_def algebra_simps)
qed

lemma positive_sum_none: "(\<Sum>x \<leftarrow> filter (\<lambda>x. 0 < f x) xs. f x) = (0::rat) \<longleftrightarrow> (\<forall>x \<in> set xs. f x \<le> 0)"
proof (induction xs)
  case (Cons x xs)
  have "0 \<le> (\<Sum>x \<leftarrow> filter (\<lambda>x. 0 < f x) xs. f x)" by (rule sum_list_nonneg) auto
  with Cons show ?case by auto
qed simp

lemma receivables_none: "fo_receivables (overview m t s e db) = 0 \<longleftrightarrow> (\<forall>w \<in> set (per_order_owed db). w_owed w \<le> 0)"
  using positive_sum_none [of w_owed "per_order_owed db"] by (simp add: overview_def Let_def split: prod.split)

lemma no_workspace_findings:
  assumes "books_tidy db"
  shows "workspace_findings organisation db = [] \<longleftrightarrow>
    (\<forall>ord \<in> set (orders db). is_closed (latest_status (o_id ord) db)) \<and> fo_receivables (overview m t s e db) = 0"
proof -
  define live where "live = filter (\<lambda>ord. current_status db (o_id ord) \<notin> EXCLUDED_FROM_AGGREGATES) (orders db)"
  define owed where "owed ord = to_cents (o_delivery_cost ord) + cents_by d_order_id d_price (map o_id live) (documents db) (o_id ord) -
    cents_by al_target_id al_amount (map o_id live) (client_allocations db) (o_id ord)" for ord :: order
  have "distinct (map o_id live)" using assms by (simp add: live_def books_tidy_def distinct_map_filter)
  then have exact: "of_int (owed ord) = w_owed (owed_row_of db ord) * 100" if "ord \<in> set live" for ord
    unfolding owed_def by (intro owed_cents [OF assms that]) (auto simp: live_def)
  have "live = filter (\<lambda>ord. is_live db (o_id ord)) (orders db)"
    unfolding live_def by (rule filter_cong) (use current_live [OF assms] in auto)
  then have owing: "set (per_order_owed db) = owed_row_of db ` set live" by (simp add: per_order_owed_def)
  have "0 < owed ord \<longleftrightarrow> 0 < w_owed (owed_row_of db ord)" if "ord \<in> set live" for ord
    using exact [OF that] of_int_0_less_iff [where ?'a = rat, of "owed ord"] by (simp add: zero_less_mult_iff)
  then have "(\<forall>ord \<in> set live. \<not> 0 < owed ord) \<longleftrightarrow> fo_receivables (overview m t s e db) = 0"
    unfolding receivables_none owing by (auto simp: not_less)
  moreover have "workspace_findings organisation db = [] \<longleftrightarrow>
      (\<forall>ord \<in> set (orders db). current_status db (o_id ord) \<in> CLOSED_STATUSES) \<and> (\<forall>ord \<in> set live. \<not> 0 < owed ord)"
    by (auto simp: workspace_findings_def Let_def live_def owed_def filter_empty_conv)
  ultimately show ?thesis by (simp add: current_closed)
qed

text \<open>No bureau owes this person anything as a translator, by its own balance.\<close>

definition owed_nothing :: "account \<Rightarrow> estate \<Rightarrow> bool" where
  "owed_nothing a e \<longleftrightarrow>
     (\<forall>person link tr. portal_of a (es_platform e) = Some person \<longrightarrow> link \<in> set (es_links e) \<longrightarrow>
        pl_portal_id link = pp_id person \<longrightarrow> pl_tenant_id link \<in> t_id ` set (tenants (pf_db (es_platform e))) \<longrightarrow>
        tr_id tr = pl_translator_id link \<longrightarrow> b_outstanding (translator_balance_of (es_offices e (pl_tenant_id link)) tr) \<le> 0)"

text \<open>Nothing that may count as an obligation, by the bureaus' own books.\<close>

definition settled :: "(string \<Rightarrow> int) \<Rightarrow> account \<Rightarrow> estate \<Rightarrow> bool" where
  "settled name_order a e \<longleftrightarrow>
     (\<forall>(u, t) \<in> set (owned_organisations name_order (a_id a) (pf_db (es_platform e))).
        \<not> would_strand_organisation u (pf_db (es_platform e)) \<and>
        (used_by_others u (pf_db (es_platform e)) \<or>
         (\<forall>ord \<in> set (orders (es_offices e (t_id t))). is_closed (latest_status (o_id ord) (es_offices e (t_id t)))) \<and>
         fo_receivables (overview 0 0 None None (es_offices e (t_id t))) = 0)) \<and>
     owed_nothing a e"

lemma map_filter_none: "List.map_filter f xs = [] \<longleftrightarrow> (\<forall>x \<in> set xs. f x = None)"
  by (auto simp: List.map_filter_def filter_empty_conv)

lemma map_filter_pair:
  "x \<in> set (List.map_filter (\<lambda>r. map_option (Pair r) (g r)) rs) \<longleftrightarrow> (case x of (r, y) \<Rightarrow> r \<in> set rs \<and> g r = Some y)"
  by (cases x) (force simp: List.map_filter_def image_iff)

lemma no_payout_findings:
  assumes "\<forall>tid. books_tidy (es_offices e tid)"
  shows "payout_findings name_order a e = [] \<longleftrightarrow> owed_nothing a e"
proof -
  have owed: "payout_cents (es_offices e tid) (tr_id tr) \<le> 0 \<longleftrightarrow>
      b_outstanding (translator_balance_of (es_offices e tid) tr) \<le> 0" for tid tr
  proof -
    have "rat_of_int (payout_cents (es_offices e tid) (tr_id tr)) = b_outstanding (translator_balance_of (es_offices e tid) tr) * 100"
      using payout_is_balance [of "es_offices e tid" tr] assms by (simp add: from_cents_def)
    moreover have "b * 100 \<le> 0 \<longleftrightarrow> b \<le> 0" for b :: rat by (simp add: mult_le_0_iff)
    ultimately show ?thesis using of_int_le_0_iff [where ?'a = rat] by metis
  qed
  have known: "k \<in> t_id ` set ts \<longleftrightarrow> (\<exists>t. get_row t_id k ts = Some t)" for k and ts :: "tenant list"
    using get_row_None_notin [of t_id k ts] by (cases "get_row t_id k ts") auto
  have rows: "\<exists>(tr::translator). tr_id tr = i" for i by (rule exI [of _ "ex_translator\<lparr>tr_id := i\<rparr>"]) simp
  show ?thesis
  proof (cases "portal_of a (es_platform e)")
    case (Some person)
    have "payout_findings name_order a e = [] \<longleftrightarrow>
        (\<forall>link t. link \<in> set (es_links e) \<longrightarrow> pl_portal_id link = pp_id person \<longrightarrow>
          get_row t_id (pl_tenant_id link) (tenants (pf_db (es_platform e))) = Some t \<longrightarrow>
          payout_cents (es_offices e (pl_tenant_id link)) (pl_translator_id link) \<le> 0)"
      unfolding payout_findings_def Some option.case map_filter_none set_sort Ball_def map_filter_pair
      by (auto simp: Let_def not_less)
    also have "\<dots> \<longleftrightarrow> owed_nothing a e"
      unfolding owed_nothing_def Some known option.inject using owed rows by metis
    finally show ?thesis .
  qed (simp add: owed_nothing_def payout_findings_def)
qed

lemma no_findings:
  assumes "\<forall>tid. books_tidy (es_offices e tid)" and "get_row a_id aid (accounts (pf_db (es_platform e))) = Some a"
  shows "findings name_order aid e = [] \<longleftrightarrow> settled name_order a e"
proof -
  have "a_id a = aid" using get_row_SomeD [OF assms(2)] by simp
  moreover have "organisation_findings e m = [] \<longleftrightarrow> (case m of (u, t) \<Rightarrow>
        \<not> would_strand_organisation u (pf_db (es_platform e)) \<and>
        (used_by_others u (pf_db (es_platform e)) \<or>
         (\<forall>ord \<in> set (orders (es_offices e (t_id t))). is_closed (latest_status (o_id ord) (es_offices e (t_id t)))) \<and>
         fo_receivables (overview 0 0 None None (es_offices e (t_id t))) = 0))" for m
    using no_workspace_findings [OF assms(1) [rule_format]]
    by (cases m) (simp add: organisation_findings_def)
  moreover have "findings name_order aid e = [] \<longleftrightarrow>
      (\<forall>m \<in> set (owned_organisations name_order aid (pf_db (es_platform e))). organisation_findings e m = []) \<and>
      payout_findings name_order a e = []"
    by (simp add: findings_def assms(2))
  ultimately show ?thesis
    by (simp add: settled_def no_payout_findings [OF assms(1)])
qed

lemma blocking_findings:
  assumes "get_row a_id aid (accounts (pf_db (es_platform e))) = Some a"
  shows "filter fi_blocking (findings name_order aid e) = [] \<longleftrightarrow>
    (\<forall>(u, t) \<in> set (owned_organisations name_order aid (pf_db (es_platform e))).
       \<not> would_strand_organisation u (pf_db (es_platform e)))"
proof -
  have "\<forall>f \<in> set (workspace_findings organisation db). \<not> fi_blocking f" for organisation db
    by (auto simp: workspace_findings_def Let_def)
  moreover have "\<forall>f \<in> set (payout_findings name_order a e). \<not> fi_blocking f"
    by (auto simp: payout_findings_def List.map_filter_def Let_def split: option.splits if_split_asm)
  moreover have "(\<forall>f \<in> set (organisation_findings e m). \<not> fi_blocking f) \<longleftrightarrow>
      (case m of (u, t) \<Rightarrow> \<not> would_strand_organisation u (pf_db (es_platform e)))" for m
    using calculation(1) by (cases m) (simp add: organisation_findings_def)
  ultimately show ?thesis by (simp add: filter_empty_conv findings_def assms)
qed

lemma settled_strands_nobody:
  "settled name_order a e \<Longrightarrow> \<forall>(u, t) \<in> set (owned_organisations name_order (a_id a) (pf_db (es_platform e))).
     \<not> would_strand_organisation u (pf_db (es_platform e))"
  by (auto simp: settled_def)

text \<open>C6: an approval is possible exactly when nobody is left stranded and, unless the reviewer says to have
  looked, everything is settled by the bureaus' own books: in every organisation only this person uses, every order
  is closed and the finance screen shows nothing receivable, and no bureau's balance for them as a translator is
  above zero. This holds where every bureau's rows fit together (distinct ids, documents of orders that exist), its amounts
  are whole tetri, and no status it stores spells cancelled or rejected in another way, as a status of its own never may;
  its own statuses may be spelled as it likes otherwise.\<close>

theorem approval_means_settled:
  assumes "\<forall>tid. books_tidy (es_offices e tid)"
  shows "(\<exists>out e'. approve_deletion_request env now caller i text acknowledged e = Inr (out, e')) \<longleftrightarrow>
    (\<exists>session r a. require (tl_cfg env) now [PLATFORM_TENANTS] caller = Inr session \<and> text_ok 0 2000 (or_blank text) \<and>
       get_row dr_id i (pf_deletions (es_platform e)) = Some r \<and> dr_status r = REQUESTED \<and>
       get_row a_id (dr_account_id r) (accounts (pf_db (es_platform e))) = Some a \<and>
       (\<forall>(u, t) \<in> set (owned_organisations (tl_name_order env) (a_id a) (pf_db (es_platform e))).
          \<not> would_strand_organisation u (pf_db (es_platform e))) \<and>
       (acknowledged \<or> settled (tl_name_order env) a e))"
proof -
  have decided: "(\<exists>out. approve_request (tl_name_order env) now i who text acknowledged e = Inr out) \<longleftrightarrow>
      dr_status r = REQUESTED \<and>
      (\<forall>(u, t) \<in> set (owned_organisations (tl_name_order env) (a_id a) (pf_db (es_platform e))).
         \<not> would_strand_organisation u (pf_db (es_platform e))) \<and> (acknowledged \<or> settled (tl_name_order env) a e)"
    if "get_row dr_id i (pf_deletions (es_platform e)) = Some r"
      "get_row a_id (dr_account_id r) (accounts (pf_db (es_platform e))) = Some a" for who r a
    using that no_findings [OF assms that(2)] blocking_findings [OF that(2)] get_row_SomeD [OF that(2)]
    by (auto simp: approve_request_def request_or_error_def bind_result_def Let_def)
  have known: "existing_deletion_request i (es_platform e) = Inr (r, a) \<longleftrightarrow>
      get_row dr_id i (pf_deletions (es_platform e)) = Some r \<and>
      get_row a_id (dr_account_id r) (accounts (pf_db (es_platform e))) = Some a" for r a
    by (auto simp: existing_deletion_request_def split: option.splits)
  have "(\<exists>out e'. approve_deletion_request env now caller i text acknowledged e = Inr (out, e')) \<longleftrightarrow>
      (\<exists>session r a. require (tl_cfg env) now [PLATFORM_TENANTS] caller = Inr session \<and> text_ok 0 2000 (or_blank text) \<and>
        existing_deletion_request i (es_platform e) = Inr (r, a) \<and>
        (\<exists>out. approve_request (tl_name_order env) now i (as_user_id session) text acknowledged e = Inr out))"
    unfolding approve_deletion_request_def bind_result_Inr_iff Let_def by (force split: if_split_asm)
  then show ?thesis unfolding known using decided by blast
qed

section \<open>Deciding leaves people alone\<close>

text \<open>The rows a decision does not touch.\<close>

definition people_same :: "platform \<Rightarrow> platform \<Rightarrow> bool" where
  "people_same p q \<longleftrightarrow> accounts (pf_db q) = accounts (pf_db p) \<and> users (pf_db q) = users (pf_db p) \<and>
     tenants (pf_db q) = tenants (pf_db p) \<and> user_sessions (pf_db q) = user_sessions (pf_db p) \<and>
     mfa_methods (pf_db q) = mfa_methods (pf_db p) \<and> pf_next q = pf_next p"

lemma people_same_refl [simp]: "people_same p p"
  by (simp add: people_same_def)

lemma people_same_ops [simp]:
  "people_same p (store_request r q) \<longleftrightarrow> people_same p q" "people_same p (set_portal k active q) \<longleftrightarrow> people_same p q"
  "people_same p (tell a letter q) \<longleftrightarrow> people_same p q" "people_same p (log_system action kind j q) \<longleftrightarrow> people_same p q"
  "people_same p (on_db (log_audit session action kind j) q) \<longleftrightarrow> people_same p q"
  "people_same p (portal_back_on r q) \<longleftrightarrow> people_same p q"
  by (auto simp: people_same_def store_request_def set_portal_def tell_def send_mail_def log_system_def on_db_def
      log_audit_def portal_back_on_def split: option.splits)

lemma deletions_ops [simp]:
  "pf_deletions (set_portal k active q) = pf_deletions q" "pf_deletions (tell a letter q) = pf_deletions q"
  "pf_deletions (log_system action kind j q) = pf_deletions q" "pf_deletions (on_db f q) = pf_deletions q"
  "pf_deletions (portal_back_on r q) = pf_deletions q"
  "pf_deletions (store_request r q) = update_where (\<lambda>x. dr_id x = dr_id r) (\<lambda>_. r) (pf_deletions q)"
  by (auto simp: set_portal_def tell_def send_mail_def log_system_def on_db_def portal_back_on_def store_request_def
      split: option.splits)

lemma rows_ok_same:
  assumes "rows_ok p" and "people_same p q"
    and "dr_account_id ` set (pf_deletions q) \<subseteq> dr_account_id ` set (pf_deletions p)"
  shows "rows_ok q"
proof -
  have "\<forall>r \<in> set (pf_deletions q). dr_account_id r \<in> a_id ` set (accounts (pf_db q))"
    using assms(2,3) rows_okD(11) [OF assms(1)] by (force simp: people_same_def)
  then show ?thesis
    using assms(2) rows_okD [OF assms(1)] by (intro rows_okI) (simp_all add: people_same_def)
qed

text \<open>What each decision does to its request.\<close>

lemma approve_request_Inr:
  assumes "approve_request name_order now i who text acknowledged e = Inr (r', e')"
  obtains r where "r \<in> set (pf_deletions (es_platform e))" and "dr_id r = i" and "dr_status r = REQUESTED"
    and "r' = r\<lparr>dr_status := APPROVED, dr_decided_at := Some now, dr_decided_by := Some who,
      dr_review_note := clean_note text, dr_purge_after := Some (now + hours (24 * DELETION_GRACE_DAYS))\<rparr>"
    and "e' = on_platform (store_request r') e"
  using assms
  by (auto simp: approve_request_def request_or_error_def bind_result_def Let_def
      split: option.splits if_split_asm dest: get_row_SomeD)

lemma reject_request_Inr:
  assumes "reject_request now i who text p = Inr (r', q)"
  obtains r where "get_row dr_id i (pf_deletions p) = Some r" and "dr_status r \<in> OPEN_DELETION_STATUSES"
    and "r' = r\<lparr>dr_status := REJECTED, dr_decided_at := Some now, dr_decided_by := who,
      dr_review_note := clean_note text, dr_purge_after := None, dr_portal_deactivated := False\<rparr>"
    and "q = store_request r' (portal_back_on r p)"
  using assms
  by (auto simp: reject_request_def request_or_error_def bind_result_def Let_def split: option.splits if_split_asm)

text \<open>One row of a request replaced by \<open>r'\<close>, everybody's rows as they were.\<close>

definition decided :: "deletion_request \<Rightarrow> deletion_request \<Rightarrow> estate \<Rightarrow> estate \<Rightarrow> bool" where
  "decided r r' e e' \<longleftrightarrow> r \<in> set (pf_deletions (es_platform e)) \<and> people_same (es_platform e) (es_platform e') \<and>
     dr_id r' = dr_id r \<and> dr_account_id r' = dr_account_id r \<and>
     pf_deletions (es_platform e') = update_where (\<lambda>x. dr_id x = dr_id r) (\<lambda>_. r') (pf_deletions (es_platform e))"

lemma approval_decides:
  assumes "approve_deletion_request env now caller i text acknowledged e = Inr (out, e')"
  obtains r r' who where "decided r r' e e'" and "dr_status r = REQUESTED" and "dr_status r' = APPROVED"
    and "dr_decided_at r' = Some now" and "dr_decided_by r' = Some who"
    and "dr_purge_after r' = Some (now + hours (24 * DELETION_GRACE_DAYS))" and "dr_done_at r' = dr_done_at r"
proof -
  obtain session a r' e1 where "approve_request (tl_name_order env) now i (as_user_id session) text acknowledged e = Inr (r', e1)"
    and e': "e' = on_platform (\<lambda>p. tell a Deletion_approved
                      (on_db (log_audit session ''platform.deletion_approved'' ''account'' (a_id a)) p)) e1"
    using assms unfolding approve_deletion_request_def
    by (auto simp: bind_result_Inr_iff Let_def split: if_split_asm)
  then obtain r where "r \<in> set (pf_deletions (es_platform e))" "dr_id r = i" "dr_status r = REQUESTED"
    "r' = r\<lparr>dr_status := APPROVED, dr_decided_at := Some now, dr_decided_by := Some (as_user_id session),
      dr_review_note := clean_note text, dr_purge_after := Some (now + hours (24 * DELETION_GRACE_DAYS))\<rparr>"
    "e1 = on_platform (store_request r') e"
    by (elim approve_request_Inr)
  with e' show thesis
    by (intro that [of r r' "as_user_id session"]) (simp_all add: decided_def on_platform_def)
qed

lemma rejection_decides:
  assumes "reject_request now i who text (es_platform e) = Inr (r', q)" and "people_same q p'" and "pf_deletions p' = pf_deletions q"
  obtains r where "decided r r' e (e\<lparr>es_platform := p'\<rparr>)" and "dr_status r \<in> OPEN_DELETION_STATUSES"
    and "dr_status r' = REJECTED" and "dr_purge_after r' = None" and "dr_decided_at r' = Some now" and "dr_done_at r' = dr_done_at r"
proof -
  obtain r where r: "get_row dr_id i (pf_deletions (es_platform e)) = Some r" "dr_status r \<in> OPEN_DELETION_STATUSES"
    "r' = r\<lparr>dr_status := REJECTED, dr_decided_at := Some now, dr_decided_by := who,
      dr_review_note := clean_note text, dr_purge_after := None, dr_portal_deactivated := False\<rparr>"
    "q = store_request r' (portal_back_on r (es_platform e))"
    by (rule reject_request_Inr [OF assms(1)])
  have "people_same (es_platform e) q" using r(4) by simp
  then have "people_same (es_platform e) p'" using assms(2) by (simp add: people_same_def)
  with r assms(3) get_row_SomeD [OF r(1)] show thesis
    by (intro that [of r]) (simp_all add: decided_def)
qed

section \<open>The life of a request\<close>

definition approved_at :: "instant \<Rightarrow> deletion_request \<Rightarrow> bool" where
  "approved_at t r \<longleftrightarrow> dr_decided_at r = Some t \<and> dr_decided_by r \<noteq> None \<and>
     dr_purge_after r = Some (t + hours (24 * DELETION_GRACE_DAYS))"

definition request_ok :: "deletion_request \<Rightarrow> bool" where
  "request_ok r \<longleftrightarrow>
     (case dr_status r of
        REQUESTED \<Rightarrow> dr_decided_at r = None \<and> dr_purge_after r = None \<and> dr_done_at r = None
      | APPROVED \<Rightarrow> (\<exists>t. approved_at t r) \<and> dr_done_at r = None
      | REJECTED \<Rightarrow> dr_decided_at r \<noteq> None \<and> dr_purge_after r = None \<and> dr_done_at r = None
      | DONE \<Rightarrow> dr_done_at r \<noteq> None)"

definition is_open :: "deletion_request \<Rightarrow> bool" where
  "is_open r \<longleftrightarrow> dr_status r \<in> OPEN_DELETION_STATUSES"

definition requests_ok :: "platform \<Rightarrow> bool" where
  "requests_ok p \<longleftrightarrow> keys_below dr_id (pf_next p) (pf_deletions p) \<and> (\<forall>r \<in> set (pf_deletions p). request_ok r) \<and>
     (\<forall>r \<in> set (pf_deletions p). \<forall>s \<in> set (pf_deletions p).
        is_open r \<longrightarrow> is_open s \<longrightarrow> dr_account_id r = dr_account_id s \<longrightarrow> r = s)"

lemma requests_okD:
  assumes "requests_ok p"
  shows "keys_below dr_id (pf_next p) (pf_deletions p)" and "\<And>r. r \<in> set (pf_deletions p) \<Longrightarrow> request_ok r"
    and "\<And>r s. r \<in> set (pf_deletions p) \<Longrightarrow> s \<in> set (pf_deletions p) \<Longrightarrow> is_open r \<Longrightarrow> is_open s \<Longrightarrow>
      dr_account_id r = dr_account_id s \<Longrightarrow> r = s"
  using assms by (simp_all add: requests_ok_def)

lemma request_row:
  assumes "requests_ok p" and "r \<in> set (pf_deletions p)"
  shows "get_row dr_id (dr_id r) (pf_deletions p) = Some r"
  using requests_okD(1) [OF assms(1)] assms(2) by (simp add: get_row_Some_iff_distinct keys_below_def)

lemma request_unique:
  assumes "requests_ok p" and "r \<in> set (pf_deletions p)" and "s \<in> set (pf_deletions p)" and "dr_id s = dr_id r"
  shows "s = r"
  using request_row [OF assms(1,2)] request_row [OF assms(1,3)] assms(4) by simp

lemma change_requests_ok:
  assumes "change env now p q" and "requests_ok p"
  shows "requests_ok q"
  using assms(1)
proof cases
  case (deletion_filed r)
  have "r \<notin> set (pf_deletions p)" using requests_okD(1) [OF assms(2)] deletion_filed(2) by (auto simp: keys_below_def)
  moreover have "\<not> (is_open s \<and> dr_account_id s = dr_account_id r)" if "s \<in> set (pf_deletions p)" for s
    using deletion_filed(4) that by (auto simp: open_request_def find_None_iff is_open_def)
  moreover have "request_ok r" using deletion_filed(3) by (simp add: request_ok_def freshly_filed_def)
  moreover have "pf_deletions q = pf_deletions p @ [r]" "pf_next q = pf_next p + 1"
    using deletion_filed(1) by (simp_all add: fresh_def)
  ultimately show ?thesis
    unfolding requests_ok_def using requests_okD [OF assms(2)] deletion_filed(2)
    by (auto intro: keys_below_add; metis)
qed (use assms(2) in \<open>auto simp: requests_ok_def platform_simps use_step_def store_account_def create_session_def intro: keys_below_later\<close>)

lemma auth_step_ok:
  assumes "auth_step env (p, now) (q, later)" and "rows_ok p" and "requests_ok p"
  shows "rows_ok q" and "requests_ok q" and "now \<le> later"
proof -
  note made = step_changes [OF assms(1,2)]
  show "rows_ok q" by (rule changes_rows_ok [OF made(1) assms(2)])
  show "requests_ok q" using made(1) assms(3) by (rule changes_keep) (rule change_requests_ok)
  show "now \<le> later" by (rule made(2))
qed

text \<open>A decision that leaves the request well formed, and opens nothing.\<close>

lemma decided_ok:
  assumes "decided r r' e e'" and "rows_ok (es_platform e)" and "requests_ok (es_platform e)"
    and "request_ok r \<Longrightarrow> request_ok r'" and "is_open r' \<Longrightarrow> is_open r"
  shows "rows_ok (es_platform e')" and "requests_ok (es_platform e')"
proof -
  let ?p = "es_platform e" and ?q = "es_platform e'"
  have r: "r \<in> set (pf_deletions ?p)" "dr_id r' = dr_id r" "dr_account_id r' = dr_account_id r" "people_same ?p ?q"
    "pf_deletions ?q = update_where (\<lambda>x. dr_id x = dr_id r) (\<lambda>_. r') (pf_deletions ?p)"
    using assms(1) by (simp_all add: decided_def)
  have rows: "x \<in> set (pf_deletions ?q) \<longleftrightarrow> x = r' \<or> x \<in> set (pf_deletions ?p) \<and> dr_id x \<noteq> dr_id r" for x
    using r(1) by (auto simp: r(5) set_update_where)
  show "rows_ok ?q" using r(1,3) by (intro rows_ok_same [OF assms(2) r(4)]) (auto simp: rows image_iff)
  have "keys_below dr_id (pf_next ?q) (pf_deletions ?q)"
    using requests_okD(1) [OF assms(3)] r(2,4) by (simp add: r(5) keys_below_update people_same_def)
  moreover have "request_ok x" if "x \<in> set (pf_deletions ?q)" for x
    using that requests_okD(2) [OF assms(3)] assms(4) r(1) by (auto simp: rows)
  moreover have "x = y" if "x \<in> set (pf_deletions ?q)" "y \<in> set (pf_deletions ?q)" "is_open x" "is_open y"
    "dr_account_id x = dr_account_id y" for x y
    using that requests_okD(3) [OF assms(3)] r(1,3) assms(5) unfolding rows by metis
  ultimately show "requests_ok ?q" by (simp add: requests_ok_def)
qed

section \<open>Deleting\<close>

definition done_request :: "instant \<Rightarrow> deletion_request \<Rightarrow> deletion_request" where
  "done_request now r = r\<lparr>dr_status := DONE, dr_done_at := Some now, dr_portal_deactivated := False\<rparr>"

lemma without_portal_platform [simp]:
  "es_platform (without_portal i e) = (es_platform e)\<lparr>pf_portal := filter (\<lambda>t. pp_id t \<noteq> i) (pf_portal (es_platform e))\<rparr>"
  by (simp add: without_portal_def Let_def)

lemma without_inboxes_platform [simp]: "es_platform (without_inboxes uids e) = es_platform e"
  by (simp add: without_inboxes_def)

lemma offices_kept [simp]:
  "es_offices (without_portal i e) = es_offices e" "es_offices (without_inboxes uids e) = es_offices e"
  "es_offices (on_platform f e) = es_offices e"
  by (simp_all add: without_portal_def without_inboxes_def on_platform_def Let_def)

text \<open>The rows a deletion leaves.\<close>

lemma purge_account_Inr:
  assumes "purge_account now r e = Inr (person, e')"
  obtains a where "get_row a_id (dr_account_id r) (accounts (pf_db (es_platform e))) = Some a"
    and "person = (a_email a, a_full_name a)" and "\<not> handle_taken (a_id a) (pf_db (es_platform e))"
    and "pf_db (es_platform e') = store_account (emptied_account a) (without_members
        (map u_id (filter (\<lambda>u. u_account_id u = Some (a_id a)) (users (pf_db (es_platform e)))))
        ((pf_db (es_platform e))\<lparr>users := update_where (\<lambda>u. u_account_id u = Some (a_id a)) (emptied_user now)
           (users (pf_db (es_platform e)))\<rparr>))"
    and "pf_next (es_platform e') = pf_next (es_platform e)"
    and "pf_deletions (es_platform e') =
        update_where (\<lambda>x. dr_id x = dr_id r) (\<lambda>_. done_request now r) (pf_deletions (es_platform e))"
    and "pf_attempts (es_platform e') = filter (\<lambda>l. lower (la_username l) \<notin> typed_names a) (pf_attempts (es_platform e))"
    and "pf_portal (es_platform e') = (case portal_of a (es_platform e) of None \<Rightarrow> pf_portal (es_platform e)
        | Some t \<Rightarrow> filter (\<lambda>x. pp_id x \<noteq> pp_id t) (pf_portal (es_platform e)))"
    and "es_offices e' = es_offices e"
proof -
  obtain a where a: "get_row a_id (dr_account_id r) (accounts (pf_db (es_platform e))) = Some a"
    and free: "\<not> handle_taken (a_id a) (pf_db (es_platform e))"
    using assms by (auto simp: purge_account_def Let_def split: option.splits if_split_asm)
  have e': "person = (a_email a, a_full_name a)"
    "e' = (let p = es_platform e; db = pf_db p;
          uids = map u_id (filter (\<lambda>u. u_account_id u = Some (a_id a)) (users db));
          db1 = without_members uids (db\<lparr>users :=
                update_where (\<lambda>u. u_account_id u = Some (a_id a)) (emptied_user now) (users db)\<rparr>);
              e1 = without_inboxes uids (on_platform (on_db (\<lambda>_. db1)) e);
              e2 = (case portal_of a p of None \<Rightarrow> e1 | Some t \<Rightarrow> without_portal (pp_id t) e1)
          in on_platform (\<lambda>q. store_request (done_request now r)
                 (on_db (store_account (emptied_account a))
                   (q\<lparr>pf_attempts := filter (\<lambda>l. lower (la_username l) \<notin> typed_names a) (pf_attempts q)\<rparr>))) e2)"
    using assms a free by (simp_all add: purge_account_def Let_def done_request_def)
  have "dr_id (done_request now r) = dr_id r" by (simp add: done_request_def)
  then show thesis
    by (intro that [OF a e'(1) free])
      (simp_all add: e'(2) Let_def on_platform_def on_db_def store_request_def split: option.split)
qed

lemma emptied_users:
  "u_id (emptied_user now u) = u_id u" "u_tenant_id (emptied_user now u) = u_tenant_id u"
  "u_account_id (emptied_user now u) = u_account_id u"
  by (simp_all add: emptied_user_def)

lemma no_clash_emptied: "\<not> clash (emptied_account a) r"
  by (simp add: clash_def emptied_account_def)

lemma purge_rows_ok:
  assumes "purge_account now r e = Inr (person, e')" and ok: "rows_ok (es_platform e)" and "r \<in> set (pf_deletions (es_platform e))"
  shows "rows_ok (es_platform e')"
proof (rule purge_account_Inr [OF assms(1)])
  let ?db = "pf_db (es_platform e)" and ?q = "es_platform e'"
  fix a :: account
  define mine where "mine = map u_id (filter (\<lambda>u. u_account_id u = Some (a_id a)) (users ?db))"
  assume db: "pf_db ?q = store_account (emptied_account a) (without_members
        (map u_id (filter (\<lambda>u. u_account_id u = Some (a_id a)) (users ?db)))
        (?db\<lparr>users := update_where (\<lambda>u. u_account_id u = Some (a_id a)) (emptied_user now) (users ?db)\<rparr>))"
    and next': "pf_next ?q = pf_next (es_platform e)"
    and requests: "pf_deletions ?q = update_where (\<lambda>x. dr_id x = dr_id r) (\<lambda>_. done_request now r) (pf_deletions (es_platform e))"
  note ok = rows_okD [OF ok]
  have accounts: "accounts (pf_db ?q) = update_where (\<lambda>x. a_id x = a_id (emptied_account a)) (\<lambda>_. emptied_account a) (accounts ?db)"
    and users: "users (pf_db ?q) = update_where (\<lambda>u. u_account_id u = Some (a_id a)) (emptied_user now) (users ?db)"
    and others: "tenants (pf_db ?q) = tenants ?db" "user_sessions (pf_db ?q) = filter (\<lambda>s. us_user_id s \<notin> set mine) (user_sessions ?db)"
      "mfa_methods (pf_db ?q) = filter (\<lambda>m. mm_user_id m \<notin> set mine) (mfa_methods ?db)"
    by (simp_all add: db store_account_def without_members_def mine_def)
  have ids: "a_id ` set (accounts (pf_db ?q)) = a_id ` set (accounts ?db)" unfolding accounts by (rule ids_of_edit) simp
  have people: "\<exists>w \<in> set (users (pf_db ?q)). u_id w = u_id v \<and> u_tenant_id w = u_tenant_id v" if "v \<in> set (users ?db)" for v
    by (rule bexI [of _ "if u_account_id v = Some (a_id a) then emptied_user now v else v"])
      (use that in \<open>auto simp: users set_update_where emptied_users\<close>)
  have earlier: "\<exists>w \<in> set (users ?db). u_tenant_id w = u_tenant_id v \<and> u_account_id w = u_account_id v"
    if "v \<in> set (users (pf_db ?q))" for v
    using that by (auto simp: users set_update_where emptied_users)
  show "rows_ok ?q"
  proof (rule rows_okI)
    show "keys_below a_id (pf_next ?q) (accounts (pf_db ?q))" unfolding accounts next' using ok(1) by (rule keys_below_update) simp
    show "keys_below u_id (pf_next ?q) (users (pf_db ?q))"
      unfolding users next' using ok(2) by (rule keys_below_update) (simp add: emptied_users)
    show "keys_below t_id (pf_next ?q) (tenants (pf_db ?q))" "distinct (map t_slug (tenants (pf_db ?q)))"
      using ok(3,5) by (simp_all add: others next')
    show "keys_below us_id (pf_next ?q) (user_sessions (pf_db ?q))"
      using ok(4) by (auto simp: others next' keys_below_def distinct_map_filter)
    show "\<forall>m \<in> set (mfa_methods (pf_db ?q)). mm_id m < pf_next ?q" using ok(6) by (simp add: others next')
    show "columns_unique (accounts (pf_db ?q))"
      unfolding accounts using ok(7) by (rule columns_unique_replace) (simp add: no_clash_emptied)
    show "\<forall>s \<in> set (user_sessions (pf_db ?q)). \<exists>u \<in> set (users (pf_db ?q)). u_id u = us_user_id s \<and> u_tenant_id u = us_tenant_id s"
    proof
      fix s assume "s \<in> set (user_sessions (pf_db ?q))"
      then obtain v where "v \<in> set (users ?db)" "u_id v = us_user_id s \<and> u_tenant_id v = us_tenant_id s"
        using ok(8) by (auto simp: others)
      with people [OF this(1)] show "\<exists>u \<in> set (users (pf_db ?q)). u_id u = us_user_id s \<and> u_tenant_id u = us_tenant_id s" by metis
    qed
    show "\<forall>u \<in> set (users (pf_db ?q)). u_tenant_id u \<in> t_id ` set (tenants (pf_db ?q))"
      using earlier ok(9) unfolding others by metis
    show "\<forall>u \<in> set (users (pf_db ?q)). u_account_id u \<in> insert None ((Some \<circ> a_id) ` set (accounts (pf_db ?q)))"
      unfolding image_comp_ids [OF ids] using earlier ok(10) by metis
    show "\<forall>x \<in> set (pf_deletions ?q). dr_account_id x \<in> a_id ` set (accounts (pf_db ?q))"
      unfolding ids using ok(11) assms(3) by (auto simp: requests set_update_where done_request_def)
  qed
qed

text \<open>A request, whatever its status by then, becomes one that is done.\<close>

lemma purge_requests_ok:
  assumes "purge_account now r e = Inr (person, e')" and "requests_ok (es_platform e)"
    and "r \<in> set (pf_deletions (es_platform e))"
  shows "requests_ok (es_platform e')"
proof (rule purge_account_Inr [OF assms(1)])
  let ?p = "es_platform e" and ?q = "es_platform e'"
  assume next': "pf_next ?q = pf_next ?p"
    and requests: "pf_deletions ?q = update_where (\<lambda>x. dr_id x = dr_id r) (\<lambda>_. done_request now r) (pf_deletions ?p)"
  have rows: "x \<in> set (pf_deletions ?q) \<longleftrightarrow> x = done_request now r \<or> x \<in> set (pf_deletions ?p) \<and> dr_id x \<noteq> dr_id r" for x
    using assms(3) by (auto simp: requests set_update_where)
  have "request_ok (done_request now r)" by (simp add: request_ok_def done_request_def)
  moreover have "\<not> is_open (done_request now r)" by (simp add: is_open_def done_request_def OPEN_DELETION_STATUSES_def)
  moreover have "keys_below dr_id (pf_next ?q) (pf_deletions ?q)"
    unfolding requests next' using requests_okD(1) [OF assms(2)] by (rule keys_below_update) (simp add: done_request_def)
  ultimately show "requests_ok ?q"
    unfolding requests_ok_def using requests_okD(2,3) [OF assms(2)] by (auto simp: rows)
qed

lemma purge_one_cases:
  obtains "purge_one now i (failed, e) = (failed + 1, e)"
  | r person e1 where "r \<in> set (pf_deletions (es_platform e))" and "dr_id r = i" and "purge_account now r e = Inr (person, e1)"
      and "people_same (es_platform e1) (es_platform (snd (purge_one now i (failed, e))))"
      and "pf_deletions (es_platform (snd (purge_one now i (failed, e)))) = pf_deletions (es_platform e1)"
proof (cases "get_row dr_id i (pf_deletions (es_platform e))")
  case (Some r)
  show thesis
  proof (cases "purge_account now r e")
    case (Inr out)
    obtain address name e1 where out: "out = ((address, name), e1)" by (metis prod.collapse)
    show thesis
      using get_row_SomeD [OF Some] Some Inr
      by (intro that(2) [of r "(address, name)" e1])
        (auto simp: purge_one_def out on_platform_def Let_def people_same_def log_system_def on_db_def send_mail_def)
  qed (use Some that(1) in \<open>simp add: purge_one_def\<close>)
qed (use that(1) in \<open>simp add: purge_one_def\<close>)

text \<open>One turn of the daily command.\<close>

lemma purge_one_ok:
  assumes "rows_ok (es_platform e)" and "requests_ok (es_platform e)"
  shows "rows_ok (es_platform (snd (purge_one now i (failed, e))))" and "requests_ok (es_platform (snd (purge_one now i (failed, e))))"
proof -
  let ?e' = "snd (purge_one now i (failed, e))"
  have "rows_ok (es_platform ?e') \<and> requests_ok (es_platform ?e')"
  proof (rule purge_one_cases [of now i failed e])
    fix r person e1
    assume r: "r \<in> set (pf_deletions (es_platform e))" and purged: "purge_account now r e = Inr (person, e1)"
      and same: "people_same (es_platform e1) (es_platform ?e')" "pf_deletions (es_platform ?e') = pf_deletions (es_platform e1)"
    note good = purge_rows_ok [OF purged assms(1) r] purge_requests_ok [OF purged assms(2) r]
    have "rows_ok (es_platform ?e')" by (rule rows_ok_same [OF good(1) same(1)]) (simp add: same(2))
    moreover have "requests_ok (es_platform ?e')" using good(2) same by (simp add: requests_ok_def people_same_def)
    ultimately show ?thesis ..
  qed (use assms in simp)
  then show "rows_ok (es_platform ?e')" "requests_ok (es_platform ?e')" by simp_all
qed

section \<open>Runs of the whole\<close>

text \<open>
  Sign-in, the team's screens, the commands, and whatever happens elsewhere in the bureaus and the portal. The third part
  of a state is what the running daily commands have still to delete: they read the ids that are due in one step and
  delete one of them in another, and anything may happen in between.
\<close>

type_synonym desk = "estate \<times> instant \<times> int list"

inductive desk_step :: "tools \<Rightarrow> desk \<Rightarrow> desk \<Rightarrow> bool" for env where
  signed: "auth_step env (es_platform e, now) (p, later) \<Longrightarrow> desk_step env (e, now, due) (e\<lparr>es_platform := p\<rparr>, later, due)"
| worked: "es_platform e' = es_platform e \<Longrightarrow> desk_step env (e, now, due) (e', now, due)"
| approved: "approve_deletion_request env now caller i text acknowledged e = Inr (out, e') \<Longrightarrow> desk_step env (e, now, due) (e', now, due)"
| rejected: "reject_deletion_request env now caller i text e = Inr (out, e') \<Longrightarrow> desk_step env (e, now, due) (e', now, due)"
| cancelled: "cancel_deletion_request now i e = Inr e' \<Longrightarrow> desk_step env (e, now, due) (e', now, due)"
| read_due: "desk_step env (e, now, due) (e, now, due @ map dr_id (due_for_purge now (es_platform e)))"
| deleted: "i \<in> set due \<Longrightarrow> desk_step env (e, now, due) (snd (purge_one now i (failed, e)), now, remove1 i due)"

inductive desk_run :: "tools \<Rightarrow> desk \<Rightarrow> desk \<Rightarrow> bool" for env where
  still: "desk_run env c c"
| further: "desk_run env c d \<Longrightarrow> desk_step env d e \<Longrightarrow> desk_run env c e"

lemma desk_run_trans: "desk_run env c d \<Longrightarrow> desk_run env d e \<Longrightarrow> desk_run env c e"
  by (rotate_tac) (induction rule: desk_run.induct, auto intro: desk_run.further)

text \<open>The whole daily command is such a run, whatever runs between its turns.\<close>

lemma turns_run:
  assumes "\<forall>i e' t. t \<le> nows i \<longrightarrow> (\<forall>due. desk_run env (e', t, due) (meanwhile i e', nows i, due))"
    and "sorted (now # map nows is)"
  shows "\<exists>later. desk_run env (e, now, is)
    (snd (fold (\<lambda>i (failed, e'). purge_one (nows i) i (failed, meanwhile i e')) is (failed, e)), later, [])"
  using assms(2)
proof (induction "is" arbitrary: now e failed)
  case (Cons i "is")
  obtain failed' e1 where e1: "purge_one (nows i) i (failed, meanwhile i e) = (failed', e1)" by fastforce
  have "desk_run env (e, now, i # is) (meanwhile i e, nows i, i # is)" using assms(1) Cons.prems by simp
  moreover have "desk_step env (meanwhile i e, nows i, i # is) (e1, nows i, is)"
    using desk_step.deleted [of i "i # is" env "meanwhile i e" "nows i" failed] by (simp add: e1)
  ultimately have "desk_run env (e, now, i # is) (e1, nows i, is)" by (rule desk_run.further)
  moreover have "sorted (nows i # map nows is)" using Cons.prems by simp
  note Cons.IH [OF this, of e1 failed']
  ultimately show ?case using desk_run_trans by (fastforce simp: e1)
qed (auto intro: desk_run.still)

lemma command_runs:
  assumes "\<forall>i e' t. t \<le> nows i \<longrightarrow> (\<forall>due. desk_run env (e', t, due) (meanwhile i e', nows i, due))"
    and "sorted (now # map nows (map dr_id (due_for_purge now (es_platform e))))"
  shows "\<exists>later. desk_run env (e, now, []) (snd (purge_accounts now nows meanwhile e), later, [])"
proof -
  let ?is = "map dr_id (due_for_purge now (es_platform e))"
  have "desk_run env (e, now, []) (e, now, ?is)"
    using desk_run.further [OF desk_run.still desk_step.read_due [of env e now "[]"]] by simp
  then show ?thesis
    using turns_run [OF assms, of e 0] desk_run_trans unfolding purge_accounts_def by blast
qed

lemma rejected_ok:
  fixes e :: estate
  assumes "reject_request now i who text (es_platform e) = Inr (r', q)" and "people_same q p'" and "pf_deletions p' = pf_deletions q"
    and "rows_ok (es_platform e)" and "requests_ok (es_platform e)"
  shows "rows_ok p'" and "requests_ok p'"
proof -
  obtain r where r: "decided r r' e (e\<lparr>es_platform := p'\<rparr>)" "dr_status r \<in> OPEN_DELETION_STATUSES"
    "dr_status r' = REJECTED" "dr_purge_after r' = None" "dr_decided_at r' = Some now" "dr_done_at r' = dr_done_at r"
    by (rule rejection_decides [OF assms(1-3)])
  have "request_ok r'" if "request_ok r"
    using that r(2-6) by (auto simp: request_ok_def OPEN_DELETION_STATUSES_def split: deletion_status.splits)
  moreover have "\<not> is_open r'" using r(3) by (simp add: is_open_def OPEN_DELETION_STATUSES_def)
  ultimately show "rows_ok p'" "requests_ok p'" using decided_ok [OF r(1) assms(4,5)] by simp_all
qed

lemma desk_step_ok:
  assumes "desk_step env (e, now, due) (e', later, due')" and "rows_ok (es_platform e)" and "requests_ok (es_platform e)"
  shows "rows_ok (es_platform e') \<and> requests_ok (es_platform e')"
  using assms(1)
proof cases
  case (signed p)
  then show ?thesis using auth_step_ok [OF signed(3) assms(2,3)] by simp
next
  case worked
  then show ?thesis using assms(2,3) by simp
next
  case (approved caller i words acknowledged out)
  obtain r r' who where r: "decided r r' e e'" "dr_status r = REQUESTED" "dr_status r' = APPROVED"
    "dr_decided_at r' = Some now" "dr_decided_by r' = Some who"
    "dr_purge_after r' = Some (now + hours (24 * DELETION_GRACE_DAYS))" "dr_done_at r' = dr_done_at r"
    by (rule approval_decides [OF approved(3)])
  have "request_ok r'" if "request_ok r" using that r(2-7) by (simp add: request_ok_def approved_at_def)
  moreover have "is_open r" using r(2) by (simp add: is_open_def OPEN_DELETION_STATUSES_def)
  ultimately show ?thesis using decided_ok [OF r(1) assms(2,3)] by simp
next
  case (rejected caller i words out)
  then obtain session a r' p1 where "reject_request now i (Some (as_user_id session)) words (es_platform e) = Inr (r', p1)"
    and "e' = e\<lparr>es_platform := tell a Deletion_rejected (on_db (log_audit session ''platform.deletion_rejected'' ''account'' (a_id a)) p1)\<rparr>"
    unfolding reject_deletion_request_def by (auto simp: bind_result_Inr_iff Let_def split: if_split_asm)
  then show ?thesis using rejected_ok [OF _ _ _ assms(2,3)] by simp
next
  case (cancelled i)
  then obtain r' p1 where "reject_request now i None None (es_platform e) = Inr (r', p1)"
    and "e' = e\<lparr>es_platform := log_system ''account.deletion_cancelled'' ''account'' (dr_account_id r') p1\<rparr>"
    unfolding cancel_deletion_request_def by (auto simp: bind_result_Inr_iff)
  then show ?thesis using rejected_ok [OF _ _ _ assms(2,3)] by simp
next
  case read_due
  then show ?thesis using assms(2,3) by simp
next
  case (deleted i failed)
  then show ?thesis using purge_one_ok [OF assms(2,3)] by simp
qed

lemma desk_run_ok:
  assumes "desk_run env c d" and "rows_ok (es_platform (fst c))" and "requests_ok (es_platform (fst c))"
  shows "rows_ok (es_platform (fst d)) \<and> requests_ok (es_platform (fst d))"
  using assms
proof (induction rule: desk_run.induct)
  case (further c d e)
  then show ?case using desk_step_ok [of env "fst d" "fst (snd d)" "snd (snd d)" "fst e"] by (cases e) simp
qed simp

text \<open>What a step does to the requests: a row is kept unless it was open or waits to be deleted, no row changes its person,
  and a row that is done was done before or is deleted now.\<close>

definition rows_step :: "desk \<Rightarrow> desk \<Rightarrow> bool" where
  "rows_step c d \<longleftrightarrow> (let rows = set (pf_deletions (es_platform (fst c))); rows' = set (pf_deletions (es_platform (fst d)))
     in (\<forall>r \<in> rows. r \<in> rows' \<or> is_open r \<or> dr_id r \<in> set (snd (snd c))) \<and>
        (\<forall>r \<in> rows. \<exists>r' \<in> rows'. dr_id r' = dr_id r \<and> dr_account_id r' = dr_account_id r) \<and>
        (\<forall>r \<in> rows'. dr_status r = DONE \<longrightarrow> r \<in> rows \<or> dr_id r \<in> set (snd (snd c)) \<and> dr_done_at r = Some (fst (snd d))) \<and>
        fst (snd c) \<le> fst (snd d))"

lemma signed_rows:
  assumes "changes env now p q"
  shows "\<exists>filed. pf_deletions q = pf_deletions p @ filed \<and> (\<forall>r \<in> set filed. dr_status r = REQUESTED)"
  using assms
proof (rule changes_keep)
  fix p' q' assume "change env now p' q'"
    and before: "\<exists>filed. pf_deletions p' = pf_deletions p @ filed \<and> (\<forall>r \<in> set filed. dr_status r = REQUESTED)"
  then show "\<exists>filed. pf_deletions q' = pf_deletions p @ filed \<and> (\<forall>r \<in> set filed. dr_status r = REQUESTED)"
  proof cases
    case (deletion_filed r)
    then show ?thesis using before by (auto simp: freshly_filed_def)
  qed (use before in \<open>auto simp: platform_simps use_step_def store_account_def create_session_def\<close>)
qed simp

lemma replaced_rows:
  assumes "r \<in> set (pf_deletions (es_platform e))" and "dr_id r' = dr_id r" and "dr_account_id r' = dr_account_id r"
    and "pf_deletions (es_platform e') = update_where (\<lambda>x. dr_id x = dr_id r) (\<lambda>_. r') (pf_deletions (es_platform e))"
    and "requests_ok (es_platform e)" and "is_open r \<or> dr_id r \<in> set due"
    and "dr_status r' = DONE \<longrightarrow> dr_id r \<in> set due \<and> dr_done_at r' = Some now"
  shows "rows_step (e, now, due) (e', now, due')"
proof -
  have only: "x = r" if "x \<in> set (pf_deletions (es_platform e))" "dr_id x = dr_id r" for x
    using request_unique [OF assms(5,1) that] .
  have rows: "x \<in> set (pf_deletions (es_platform e')) \<longleftrightarrow> x = r' \<or> x \<in> set (pf_deletions (es_platform e)) \<and> x \<noteq> r" for x
    using assms(1) only by (auto simp: assms(4) set_update_where)
  have "\<exists>y \<in> set (pf_deletions (es_platform e')). dr_id y = dr_id x \<and> dr_account_id y = dr_account_id x"
    if "x \<in> set (pf_deletions (es_platform e))" for x
    using that assms(2,3) rows by (cases "x = r") blast+
  then show ?thesis using assms(2,6,7) by (auto simp: rows_step_def Let_def rows)
qed

lemma decided_rows:
  assumes "decided r r' e e'" and "is_open r" and "dr_status r' \<noteq> DONE" and "requests_ok (es_platform e)"
  shows "rows_step (e, now, due) (e', now, due)"
  by (rule replaced_rows [of r e r']) (use assms in \<open>simp_all add: decided_def\<close>)

lemma desk_step_rows:
  assumes "desk_step env (e, now, due) (e', later, due')" and "rows_ok (es_platform e)" and "requests_ok (es_platform e)"
  shows "rows_step (e, now, due) (e', later, due')"
  using assms(1)
proof cases
  case (signed p)
  note made = step_changes [OF signed(3) assms(2)]
  from signed_rows [OF made(1)] show ?thesis using made(2) by (auto simp: rows_step_def signed(1,2) Let_def)
next
  case worked
  then show ?thesis by (auto simp: rows_step_def Let_def)
next
  case (approved caller i words acknowledged out)
  obtain r r' who where r: "decided r r' e e'" "dr_status r = REQUESTED" "dr_status r' = APPROVED"
    by (rule approval_decides [OF approved(3)])
  show ?thesis
    unfolding approved(1,2) by (rule decided_rows [OF r(1) _ _ assms(3)]) (simp_all add: r is_open_def OPEN_DELETION_STATUSES_def)
next
  case (rejected caller i words out)
  then obtain session a r' p1 where refused: "reject_request now i (Some (as_user_id session)) words (es_platform e) = Inr (r', p1)"
    and e': "e' = e\<lparr>es_platform := tell a Deletion_rejected (on_db (log_audit session ''platform.deletion_rejected'' ''account'' (a_id a)) p1)\<rparr>"
    unfolding reject_deletion_request_def by (auto simp: bind_result_Inr_iff Let_def split: if_split_asm)
  obtain r where r: "decided r r' e e'" "dr_status r \<in> OPEN_DELETION_STATUSES" "dr_status r' = REJECTED"
    by (rule rejection_decides [OF refused, of "es_platform e'"]) (simp_all add: e')
  show ?thesis
    unfolding rejected(1,2) by (rule decided_rows [OF r(1) _ _ assms(3)]) (use r in \<open>simp_all add: is_open_def\<close>)
next
  case (cancelled i)
  then obtain r' p1 where refused: "reject_request now i None None (es_platform e) = Inr (r', p1)"
    and e': "e' = e\<lparr>es_platform := log_system ''account.deletion_cancelled'' ''account'' (dr_account_id r') p1\<rparr>"
    unfolding cancel_deletion_request_def by (auto simp: bind_result_Inr_iff)
  obtain r where r: "decided r r' e e'" "dr_status r \<in> OPEN_DELETION_STATUSES" "dr_status r' = REJECTED"
    by (rule rejection_decides [OF refused, of "es_platform e'"]) (simp_all add: e')
  show ?thesis
    unfolding cancelled(1,2) by (rule decided_rows [OF r(1) _ _ assms(3)]) (use r in \<open>simp_all add: is_open_def\<close>)
next
  case read_due
  then show ?thesis by (auto simp: rows_step_def Let_def)
next
  case (deleted i failed)
  show ?thesis
  proof (rule purge_one_cases [of now i failed e])
    assume "purge_one now i (failed, e) = (failed + 1, e)"
    then show ?thesis using deleted(1,2) by (auto simp: rows_step_def Let_def)
  next
    fix r person e1
    assume r: "r \<in> set (pf_deletions (es_platform e))" "dr_id r = i" and purged: "purge_account now r e = Inr (person, e1)"
      and same: "pf_deletions (es_platform (snd (purge_one now i (failed, e)))) = pf_deletions (es_platform e1)"
    have "pf_deletions (es_platform e1) =
        update_where (\<lambda>x. dr_id x = dr_id r) (\<lambda>_. done_request now r) (pf_deletions (es_platform e))"
      by (rule purge_account_Inr [OF purged])
    then show ?thesis
      unfolding deleted(2) using r same deleted(1,4) assms(3)
      by (intro replaced_rows [of r e "done_request now r"]) (simp_all add: done_request_def)
  qed
qed

text \<open>Approved by somebody, and the thirty days over, at the moment of a state.\<close>

definition was_due :: "int \<Rightarrow> int \<Rightarrow> desk \<Rightarrow> bool" where
  "was_due i aid c \<longleftrightarrow> (\<exists>s t who. s \<in> set (pf_deletions (es_platform (fst c))) \<and> dr_id s = i \<and> dr_account_id s = aid \<and>
     dr_status s = APPROVED \<and> dr_decided_at s = Some t \<and> dr_decided_by s = Some who \<and> t + hours (24 * 30) \<le> fst (snd c))"

lemma due_was_due:
  assumes "requests_ok (es_platform e)" and "i \<in> set (map dr_id (due_for_purge now (es_platform e)))"
  shows "\<exists>aid. was_due i aid (e, now, due)"
proof -
  obtain s where s: "s \<in> set (pf_deletions (es_platform e))" "dr_id s = i" "is_due now s"
    using assms(2) by (auto simp: due_for_purge_def)
  then show ?thesis
    using requests_okD(2) [OF assms(1) s(1)]
    by (auto simp: was_due_def is_due_def request_ok_def approved_at_def DELETION_GRACE_DAYS_def)
qed

text \<open>What holds of every run that begins when no daily command is running.\<close>

definition history_ok :: "tools \<Rightarrow> desk \<Rightarrow> desk \<Rightarrow> bool" where
  "history_ok env c d \<longleftrightarrow>
     (\<forall>i \<in> set (snd (snd d)). \<exists>m aid. desk_run env c m \<and> desk_run env m d \<and> was_due i aid m \<and> fst (snd m) \<le> fst (snd d) \<and>
        (\<exists>r \<in> set (pf_deletions (es_platform (fst d))). dr_id r = i \<and> dr_account_id r = aid)) \<and>
     (\<forall>r \<in> set (pf_deletions (es_platform (fst d))). dr_status r = DONE \<longrightarrow> r \<in> set (pf_deletions (es_platform (fst c))) \<or>
        (\<exists>m t. desk_run env c m \<and> desk_run env m d \<and> was_due (dr_id r) (dr_account_id r) m \<and>
           dr_done_at r = Some t \<and> fst (snd m) \<le> t)) \<and>
     (\<forall>r \<in> set (pf_deletions (es_platform (fst c))). dr_status r = REJECTED \<longrightarrow>
        r \<in> set (pf_deletions (es_platform (fst d))) \<and> dr_id r \<notin> set (snd (snd d)))"

lemma desk_run_due:
  assumes "desk_step env c d"
  shows "set (snd (snd d)) \<subseteq> set (snd (snd c)) \<or> d = (fst c, fst (snd c), snd (snd c) @ map dr_id (due_for_purge (fst (snd c)) (es_platform (fst c))))"
  using assms by cases (auto dest: in_set_takeD notin_set_remove1 set_remove1_subset [THEN subsetD])

lemma history_step:
  assumes run: "desk_run env c d" and step: "desk_step env d f" and old: "history_ok env c d"
    and ok: "rows_ok (es_platform (fst d))" "requests_ok (es_platform (fst d))"
  shows "history_ok env c f"
proof -
  obtain e now due e' later due' where df: "d = (e, now, due)" "f = (e', later, due')" by (cases d; cases f) auto
  note rows = desk_step_rows [OF step [unfolded df] ok [unfolded df fst_conv], unfolded rows_step_def Let_def fst_conv snd_conv]
  have new: "requests_ok (es_platform e')" using desk_step_ok [OF step [unfolded df]] ok by (simp add: df)
  have next': "desk_run env m d \<Longrightarrow> desk_run env m f" for m using step by (rule desk_run.further [rotated])
  have past: "\<exists>m aid. desk_run env c m \<and> desk_run env m d \<and> was_due i aid m \<and> fst (snd m) \<le> now \<and>
      (\<exists>r \<in> set (pf_deletions (es_platform e)). dr_id r = i \<and> dr_account_id r = aid)" if "i \<in> set due" for i
    using old that by (simp add: history_ok_def df)
  have later: "now \<le> later" using rows by simp
  have kept: "\<exists>r' \<in> set (pf_deletions (es_platform e')). dr_id r' = dr_id r \<and> dr_account_id r' = dr_account_id r"
    if "r \<in> set (pf_deletions (es_platform e))" for r using rows that by simp
  have waiting: "\<exists>m aid. desk_run env c m \<and> desk_run env m f \<and> was_due i aid m \<and> fst (snd m) \<le> later \<and>
      (\<exists>r \<in> set (pf_deletions (es_platform e')). dr_id r = i \<and> dr_account_id r = aid)" if i: "i \<in> set due'" for i
  proof -
    have "i \<in> set due \<or> (e' = e \<and> later = now \<and> i \<in> set (map dr_id (due_for_purge now (es_platform e))))"
      using desk_run_due [OF step] i by (auto simp: df)
    then show ?thesis
    proof
      assume "i \<in> set due"
      then obtain m aid r where "desk_run env c m" "desk_run env m d" "was_due i aid m" "fst (snd m) \<le> now"
        "r \<in> set (pf_deletions (es_platform e))" "dr_id r = i" "dr_account_id r = aid" using past by blast
      with next' kept later show ?thesis by (intro exI [of _ m] exI [of _ aid]) fastforce
    next
      assume here: "e' = e \<and> later = now \<and> i \<in> set (map dr_id (due_for_purge now (es_platform e)))"
      then obtain aid where due: "was_due i aid d" using due_was_due [of e i now due] ok(2) by (auto simp: df)
      then have "\<exists>r \<in> set (pf_deletions (es_platform e)). dr_id r = i \<and> dr_account_id r = aid" by (auto simp: was_due_def df)
      with here due run next' [OF desk_run.still] show ?thesis by (intro exI [of _ d] exI [of _ aid]) (simp add: df)
    qed
  qed
  moreover have "r \<in> set (pf_deletions (es_platform (fst c))) \<or>
      (\<exists>m t. desk_run env c m \<and> desk_run env m f \<and> was_due (dr_id r) (dr_account_id r) m \<and> dr_done_at r = Some t \<and> fst (snd m) \<le> t)"
    if r: "r \<in> set (pf_deletions (es_platform e'))" "dr_status r = DONE" for r
  proof (cases "r \<in> set (pf_deletions (es_platform e))")
    case True
    then show ?thesis using old r(2) next' unfolding history_ok_def df fst_conv snd_conv by blast
  next
    case False
    then have i: "dr_id r \<in> set due" "dr_done_at r = Some later" using rows r by auto
    then obtain m aid s where m: "desk_run env c m" "desk_run env m d" "was_due (dr_id r) aid m" "fst (snd m) \<le> now"
      "s \<in> set (pf_deletions (es_platform e))" "dr_id s = dr_id r" "dr_account_id s = aid" using past by blast
    from kept [OF m(5)] obtain s' where "s' \<in> set (pf_deletions (es_platform e'))" "dr_id s' = dr_id s" "dr_account_id s' = dr_account_id s"
      by blast
    with request_unique [OF new r(1)] m(6,7) have "dr_account_id r = aid" by metis
    with m i(2) next' later show ?thesis by (intro disjI2 exI [of _ m] exI [of _ later]) auto
  qed
  moreover have "r \<in> set (pf_deletions (es_platform e')) \<and> dr_id r \<notin> set due'"
    if r: "r \<in> set (pf_deletions (es_platform (fst c)))" "dr_status r = REJECTED" for r
  proof -
    have here: "r \<in> set (pf_deletions (es_platform e))" "dr_id r \<notin> set due" using old r by (simp_all add: history_ok_def df)
    then have "r \<in> set (pf_deletions (es_platform e'))"
      using rows r(2) by (auto simp: is_open_def OPEN_DELETION_STATUSES_def)
    moreover have "dr_id r \<notin> set (map dr_id (due_for_purge now (es_platform e)))"
    proof
      assume "dr_id r \<in> set (map dr_id (due_for_purge now (es_platform e)))"
      then obtain s where "s \<in> set (pf_deletions (es_platform e))" "dr_id s = dr_id r" "is_due now s" by (auto simp: due_for_purge_def)
      moreover from this(1,2) have "s = r" using request_unique ok(2) here(1) by (auto simp: df)
      ultimately show False using r(2) by (simp add: is_due_def)
    qed
    ultimately show ?thesis using desk_run_due [OF step] here(2) by (auto simp: df)
  qed
  ultimately show ?thesis by (simp add: history_ok_def df)
qed

lemma history_run:
  assumes "desk_run env c d" and "rows_ok (es_platform (fst c))" and "requests_ok (es_platform (fst c))" and "snd (snd c) = []"
  shows "history_ok env c d"
  using assms
proof (induction rule: desk_run.induct)
  case (further c d f)
  then show ?case using history_step [OF further.hyps] desk_run_ok [OF further.hyps(1)] by simp
qed (simp add: history_ok_def)

text \<open>C4: nothing is deleted early. Take any interleaving of sign-in, the team's decisions, the bureaus' work and the
  daily command, which reads the ids that are due in one transaction and deletes each in one of its own while requests go
  on, from a moment at which no such command is running. Then an account has at most one open request; the data of an
  account is deleted for a request only if, at some moment before, that very request stood approved by somebody and the
  thirty days after the approval were over; and a request that was rejected when no command was running is never
  deleted. (One rejected while a command that has read its id is running is deleted all the same; the command does not
  look again.)\<close>

theorem nothing_deleted_early:
  assumes "desk_run env (e, now, []) (e', later, due)" and "rows_ok (es_platform e)" and "requests_ok (es_platform e)"
  shows "(\<forall>r \<in> set (pf_deletions (es_platform e')). \<forall>s \<in> set (pf_deletions (es_platform e')).
      is_open r \<and> is_open s \<and> dr_account_id r = dr_account_id s \<longrightarrow> r = s) \<and>
    (\<forall>r \<in> set (pf_deletions (es_platform e')). dr_status r = DONE \<longrightarrow> r \<in> set (pf_deletions (es_platform e)) \<or>
      (\<exists>m deleted_at. desk_run env (e, now, []) m \<and> desk_run env m (e', later, due) \<and>
         was_due (dr_id r) (dr_account_id r) m \<and> dr_done_at r = Some deleted_at \<and> fst (snd m) \<le> deleted_at)) \<and>
    (\<forall>r \<in> set (pf_deletions (es_platform e)). dr_status r = REJECTED \<longrightarrow> r \<in> set (pf_deletions (es_platform e')))"
proof -
  have ok: "requests_ok (es_platform e')" using desk_run_ok [OF assms(1)] assms(2,3) by simp
  have "history_ok env (e, now, []) (e', later, due)" by (rule history_run [OF assms(1)]) (use assms(2,3) in simp_all)
  then show ?thesis using requests_okD(3) [OF ok] unfolding history_ok_def fst_conv snd_conv by blast
qed

section \<open>A refusal puts everything back\<close>

lemma find_updated:
  "(\<And>x. P (f x) = P x) \<Longrightarrow> find P (update_where Q f xs) = map_option (\<lambda>x. if Q x then f x else x) (find P xs)"
  by (induction xs) auto

lemma switched_back:
  assumes "distinct (map pp_id ps)" and "t \<in> set ps" and "pp_is_active t"
  shows "update_where (\<lambda>x. pp_id x = pp_id t) (\<lambda>x. x\<lparr>pp_is_active := True\<rparr>)
    (update_where (\<lambda>x. pp_id x = pp_id t) (\<lambda>x. x\<lparr>pp_is_active := False\<rparr>) ps) = ps"
  using assms by (induction ps) (auto simp: update_where_absent)

lemma file_request_Inr:
  assumes "file_request now a p = Inr (r, q)"
  obtains switched where "r = \<lparr>dr_id = pf_next p, dr_account_id = a_id a, dr_status = REQUESTED, dr_created_at = now,
      dr_decided_at = None, dr_decided_by = None, dr_review_note = None, dr_purge_after = None, dr_done_at = None,
      dr_portal_deactivated = (switched \<noteq> None)\<rparr>"
    and "switched = (case portal_of a p of Some t \<Rightarrow> if pp_is_active t then Some (pp_id t) else None | None \<Rightarrow> None)"
    and "pf_deletions q = pf_deletions p @ [r]" and "pf_db q = pf_db p" and "open_request (a_id a) p = None"
    and "pf_portal q = (case switched of None \<Rightarrow> pf_portal p
      | Some i \<Rightarrow> update_where (\<lambda>t. pp_id t = i) (\<lambda>t. t\<lparr>pp_is_active := False\<rparr>) (pf_portal p))"
  using assms
  by (auto simp: file_request_def fresh_def Let_def set_portal_def split: if_split_asm option.splits)

text \<open>The person of the portal is found again, switched off as they are.\<close>

lemma portal_back:
  assumes "file_request now a p = Inr (r, q)" and "distinct (map pp_id (pf_portal p))"
    and "pf_portal q' = pf_portal q" and "get_row a_id (a_id a) (accounts (pf_db q')) = Some a"
  shows "pf_portal (portal_back_on r q') = pf_portal p"
proof (rule file_request_Inr [OF assms(1)])
  fix switched
  assume r: "r = \<lparr>dr_id = pf_next p, dr_account_id = a_id a, dr_status = REQUESTED, dr_created_at = now,
      dr_decided_at = None, dr_decided_by = None, dr_review_note = None, dr_purge_after = None, dr_done_at = None,
      dr_portal_deactivated = (switched \<noteq> None)\<rparr>"
    and switched: "switched = (case portal_of a p of Some t \<Rightarrow> if pp_is_active t then Some (pp_id t) else None | None \<Rightarrow> None)"
    and portal: "pf_portal q = (case switched of None \<Rightarrow> pf_portal p
      | Some i \<Rightarrow> update_where (\<lambda>t. pp_id t = i) (\<lambda>t. t\<lparr>pp_is_active := False\<rparr>) (pf_portal p))"
  show ?thesis
  proof (cases switched)
    case None
    then show ?thesis using assms(3) portal by (simp add: portal_back_on_def r)
  next
    case (Some i)
    then obtain t where t: "portal_of a p = Some t" "pp_is_active t" "i = pp_id t"
      using switched by (auto split: option.splits if_split_asm)
    then have mem: "t \<in> set (pf_portal p)" and known: "or_blank (a_suliko_user_id a) \<noteq> []"
      by (auto simp: portal_of_def find_Some_iff in_set_conv_nth split: if_split_asm)
    have "find (\<lambda>x. pp_external_user_id x = a_suliko_user_id a) (pf_portal q') = Some (t\<lparr>pp_is_active := False\<rparr>)"
      using t known unfolding assms(3) portal Some option.case portal_of_def by (subst find_updated) auto
    then have "portal_of a q' = Some (t\<lparr>pp_is_active := False\<rparr>)" using known by (simp add: portal_of_def)
    then show ?thesis
      using switched_back [OF assms(2) mem t(2)] assms(3,4) portal Some t(3)
      by (simp add: portal_back_on_def r set_portal_def)
  qed
qed

text \<open>C16: a refusal puts everything back: when a request to delete an account is rejected, the portal, the account
  and every membership are as they were before it was filed, but that every earlier session of the person has ended,
  and each sign-in ticket is worth again exactly what it was worth then.\<close>

theorem rejection_reopens:
  assumes "rows_ok p" and "requests_ok p" and "distinct (map pp_id (pf_portal p))"
    and "request_account_deletion env rq support caller password p = (Inr r, q)"
  shows "\<exists>r' q'. reject_request later (dr_id r) who words q = Inr (r', q') \<and> pf_portal q' = pf_portal p \<and>
    accounts (pf_db q') = accounts (pf_db p) \<and> tenants (pf_db q') = tenants (pf_db p) \<and>
    mfa_methods (pf_db q') = mfa_methods (pf_db p) \<and> permission_overrides (pf_db q') = permission_overrides (pf_db p) \<and>
    users (pf_db q') = update_where (\<lambda>u. u_account_id u = Some (dr_account_id r))
      (\<lambda>u. u\<lparr>u_sessions_invalid_before := Some (rq_now rq)\<rparr>) (users (pf_db p)) \<and>
    (\<forall>t ticket. account_from_ticket env t ticket q' = account_from_ticket env t ticket p)"
proof (rule deletion_filedE [OF assms(4)])
  fix session a p1
  assume a: "session_account session p = Some a" and filed: "file_request (rq_now rq) a p = Inr (r, p1)"
    and q: "q = (let p2 = on_db (\<lambda>db. log_audit session ''account.deletion_requested'' ''account'' (a_id a)
                        (revoke_account_sessions (rq_now rq) (a_id a) db)) p1;
                 p3 = send_mail support Deletion_for_team p2
             in if or_blank (a_email a) = [] then p3 else send_mail (or_blank (a_email a)) Deletion_for_person p3)"
  have mem: "a \<in> set (accounts (pf_db p))" using a by (rule session_account_mem)
  obtain switched :: "int option" where r: "r = \<lparr>dr_id = pf_next p, dr_account_id = a_id a, dr_status = REQUESTED, dr_created_at = rq_now rq,
      dr_decided_at = None, dr_decided_by = None, dr_review_note = None, dr_purge_after = None, dr_done_at = None,
      dr_portal_deactivated = (switched \<noteq> None)\<rparr>"
    and p1: "pf_deletions p1 = pf_deletions p @ [r]" "pf_db p1 = pf_db p" and none: "open_request (a_id a) p = None"
    by (rule file_request_Inr [OF filed])
  have pq: "pf_deletions q = pf_deletions p @ [r]" "pf_portal q = pf_portal p1"
    "pf_db q = log_audit session ''account.deletion_requested'' ''account'' (a_id a)
       (revoke_account_sessions (rq_now rq) (a_id a) (pf_db p))"
    by (simp_all add: q Let_def send_mail_def on_db_def p1)
  have "get_row dr_id (dr_id r) (pf_deletions p) = None"
    using requests_okD(1) [OF assms(2)] by (auto simp: get_row_None_iff keys_below_def r)
  then have row: "get_row dr_id (dr_id r) (pf_deletions q) = Some r" by (simp add: pq get_row_append)
  define r' where "r' = r\<lparr>dr_status := REJECTED, dr_decided_at := Some later, dr_decided_by := who,
    dr_review_note := clean_note words, dr_purge_after := None, dr_portal_deactivated := False\<rparr>"
  define q' where "q' = store_request r' (portal_back_on r q)"
  have "reject_request later (dr_id r) who words q = Inr (r', q')"
    using row by (simp add: reject_request_def request_or_error_def bind_result_def Let_def r'_def q'_def,
        simp add: r OPEN_DELETION_STATUSES_def)
  moreover have same: "pf_db q' = pf_db q"
    by (auto simp: q'_def store_request_def portal_back_on_def set_portal_def split: option.split)
  moreover have "pf_portal q' = pf_portal p"
  proof -
    have "get_row a_id (a_id a) (accounts (pf_db q)) = Some a"
      using rows_okD(1) [OF assms(1)] mem
      by (simp add: pq log_audit_def revoke_account_sessions_def get_row_Some_iff_distinct keys_below_def)
    then show ?thesis
      using portal_back [OF filed assms(3) pq(2)] by (simp add: q'_def store_request_def)
  qed
  moreover have "account_from_ticket env t ticket q' = account_from_ticket env t ticket p" for t ticket
  proof -
    have "pf_deletions q' = pf_deletions p @ [r']"
    proof -
      have "update_where (\<lambda>x. dr_id x = dr_id r) f (pf_deletions p) = pf_deletions p" for f
        by (rule update_where_absent) (use requests_okD(1) [OF assms(2)] in \<open>auto simp: keys_below_def r\<close>)
      moreover have "dr_id r' = dr_id r" by (simp add: r'_def)
      ultimately show ?thesis by (simp add: q'_def pq update_where_def)
    qed
    then have "open_request aid q' = open_request aid p" for aid
      by (simp add: open_request_def find_append r'_def OPEN_DELETION_STATUSES_def split: option.split)
    then have pending: "ensure_not_pending_deletion aid q' = ensure_not_pending_deletion aid p" for aid
      by (simp add: ensure_not_pending_deletion_def)
    have "accounts (pf_db q') = accounts (pf_db p)"
      by (simp add: same pq log_audit_def revoke_account_sessions_def)
    then show ?thesis unfolding account_from_ticket_def pending by simp
  qed
  ultimately show ?thesis
    by (intro exI [of _ r'] exI [of _ q']) (simp add: pq log_audit_def revoke_account_sessions_def r)
qed

section \<open>What is deleted, and what is not\<close>







text \<open>The deletion does not look at the request again: one rejected after the day's list was made is deleted all the same.\<close>

lemma purge_ignores_status:
  "(\<exists>x. purge_account now (r\<lparr>dr_status := st\<rparr>) e = Inr x) \<longleftrightarrow> (\<exists>x. purge_account now r e = Inr x)"
  by (simp add: purge_account_def Let_def split: option.split)

section \<open>An example: a member who leaves\<close>

definition ex_filed :: deletion_request where
  "ex_filed = \<lparr>dr_id = 50, dr_account_id = 5, dr_status = REQUESTED, dr_created_at = 0, dr_decided_at = None,
     dr_decided_by = None, dr_review_note = None, dr_purge_after = None, dr_done_at = None, dr_portal_deactivated = False\<rparr>"

definition ex_leaver :: platform where
  "ex_leaver = ex_platform\<lparr>
     pf_db := (pf_db ex_platform)\<lparr>accounts := [ex_account\<lparr>a_suliko_user_id := Some ''s-1''\<rparr>]\<rparr>,
     pf_portal := [\<lparr>pp_id = 60, pp_external_user_id = Some ''s-1'', pp_is_active = True\<rparr>]\<rparr>"

definition ex_estate :: estate where
  "ex_estate = \<lparr>es_platform = ex_leaver\<lparr>pf_deletions := [ex_filed]\<rparr>, es_offices = (\<lambda>_. ex_office),
     es_links = [\<lparr>pl_id = 61, pl_portal_id = 60, pl_tenant_id = 1, pl_translator_id = 2\<rparr>],
     es_invites = [], es_personal = [\<lparr>ps_id = 62, ps_portal_id = 60\<rparr>],
     es_personal_files = [\<lparr>ow_id = 63, ow_owner_id = 62\<rparr>], es_personal_pairs = [], es_notifications = [],
     es_mentions = [], es_reads = []\<rparr>"

definition ex_reviewer :: auth_session where
  "ex_reviewer = ex_session_of_nino\<lparr>as_permissions := {PLATFORM_TENANTS}, as_mfa_satisfied_at := Some (days 1)\<rparr>"

lemmas ex_leaver_defs = ex_leaver_def ex_filed_def ex_estate_def ex_platform_defs

lemma ex_leaver_ok: "rows_ok ex_leaver" "rows_ok (es_platform ex_estate)"
  "requests_ok ex_leaver" "requests_ok (es_platform ex_estate)"
  by (auto simp: rows_ok_def requests_ok_def request_ok_def keys_below_def account_taken_def columns_unique_def ex_leaver_defs)

lemma ex_books_tidy: "books_tidy (es_offices ex_estate tid)"
proof -
  have "normalise (Some ''new'') = ''new''" by code_simp
  then show ?thesis by (simp add: ex_estate_def books_tidy_def is_cents_def ex_office_defs)
qed

text \<open>The bureau has work going on: without a look at it there is no approval.\<close>

lemma ex_unacknowledged: "\<not> (case approve_deletion_request ex_env (days 1) ex_reviewer 50 None False ex_estate of Inr _ \<Rightarrow> True | Inl _ \<Rightarrow> False)"
  by code_simp

lemma ex_acknowledged: "case approve_deletion_request ex_env (days 1) ex_reviewer 50 None True ex_estate of
    Inr (out, e') \<Rightarrow> due_for_purge (days 1) (es_platform e') = [] \<and> map dr_id (due_for_purge (days 31) (es_platform e')) = [50] \<and>
      map dr_status (pf_deletions (es_platform (snd (purge_accounts (days 31) (\<lambda>_. days 31) (\<lambda>_. id) e')))) = [DONE] | Inl _ \<Rightarrow> False"
  by code_simp

theorem approval_means_settled_witness:
  "\<not> settled (tl_name_order ex_env) (ex_account\<lparr>a_suliko_user_id := Some ''s-1''\<rparr>) ex_estate"
proof
  assume settled: "settled (tl_name_order ex_env) (ex_account\<lparr>a_suliko_user_id := Some ''s-1''\<rparr>) ex_estate"
  have "case require (tl_cfg ex_env) (days 1) [PLATFORM_TENANTS] ex_reviewer of Inr _ \<Rightarrow> True | Inl _ \<Rightarrow> False"
    "\<forall>(u, t) \<in> set (owned_organisations (tl_name_order ex_env) 5 (pf_db (es_platform ex_estate))).
       \<not> would_strand_organisation u (pf_db (es_platform ex_estate))"
    by code_simp+
  moreover have "get_row dr_id 50 (pf_deletions (es_platform ex_estate)) = Some ex_filed"
    "get_row a_id 5 (accounts (pf_db (es_platform ex_estate))) = Some (ex_account\<lparr>a_suliko_user_id := Some ''s-1''\<rparr>)"
    by (simp_all add: ex_leaver_defs)
  ultimately have "\<exists>out e'. approve_deletion_request ex_env (days 1) ex_reviewer 50 None False ex_estate = Inr (out, e')"
    unfolding approval_means_settled [OF allI [OF ex_books_tidy]]
    using settled by (auto simp: ex_filed_def ex_account_def text_ok_def or_blank_def split: sum.splits)
  then show False using ex_unacknowledged by auto
qed

theorem nothing_deleted_early_witness:
  "\<exists>e' later r m. desk_run ex_env (ex_estate, days 1, []) (e', later, []) \<and> pf_deletions (es_platform e') = [r] \<and>
     dr_status r = DONE \<and> desk_run ex_env m (e', later, []) \<and> was_due (dr_id r) (dr_account_id r) m"
proof -
  obtain out e1 where yes: "approve_deletion_request ex_env (days 1) ex_reviewer 50 None True ex_estate = Inr (out, e1)"
    and due: "map dr_id (due_for_purge (days 31) (es_platform e1)) = [50]"
    and gone: "map dr_status (pf_deletions (es_platform (snd (purge_accounts (days 31) (\<lambda>_. days 31) (\<lambda>_. id) e1)))) = [DONE]"
    using ex_acknowledged by (auto split: sum.splits prod.splits)
  let ?e' = "snd (purge_accounts (days 31) (\<lambda>_. days 31) (\<lambda>_. id) e1)"
  have waits: "desk_run ex_env (x, t, xs) (x, u, xs)" if "t \<le> u" for x t u and xs :: "int list"
    using desk_run.further [OF desk_run.still desk_step.signed [OF auth_step.tick [OF that]], of ex_env x xs] by simp
  have "desk_run ex_env (ex_estate, days 1, []) (e1, days 1, [])"
    by (rule desk_run.further [OF desk_run.still desk_step.approved [OF yes]])
  moreover have "desk_run ex_env (e1, days 1, []) (e1, days 31, [])" by (rule waits) (simp add: days_def time_units)
  moreover obtain later where "desk_run ex_env (e1, days 31, []) (?e', later, [])"
    using command_runs [where meanwhile = "\<lambda>_. id" and nows = "\<lambda>_. days 31" and now = "days 31" and e = e1 and env = ex_env]
    by (auto simp: due intro: waits)
  ultimately have run: "desk_run ex_env (ex_estate, days 1, []) (?e', later, [])" by (blast intro: desk_run_trans)
  obtain r where r: "pf_deletions (es_platform ?e') = [r]" "dr_status r = DONE" using gone by (cases "pf_deletions (es_platform ?e')") auto
  moreover have "r \<notin> set (pf_deletions (es_platform ex_estate))" using r(2) by (auto simp: ex_leaver_defs)
  ultimately show ?thesis
    using nothing_deleted_early [OF run ex_leaver_ok(2,4)] run by (intro exI [of _ ?e'] exI [of _ later] exI [of _ r]) auto
qed

theorem rejection_reopens_witness:
  "let q = snd (request_account_deletion ex_env ex_request ''team'' ex_session_of_nino (Some ''an old password'') ex_leaver)
   in map pp_is_active (pf_portal q) = [False] \<and>
     (\<exists>r' q'. reject_request (days 2) 100 (Some 1) None q = Inr (r', q') \<and> pf_portal q' = pf_portal ex_leaver)"
proof -
  let ?answer = "request_account_deletion ex_env ex_request ''team'' ex_session_of_nino (Some ''an old password'') ex_leaver"
  have runs: "case fst ?answer of Inr r \<Rightarrow> dr_id r = 100 | Inl _ \<Rightarrow> False" and off: "map pp_is_active (pf_portal (snd ?answer)) = [False]"
    by code_simp+
  obtain r where r: "fst ?answer = Inr r" "dr_id r = 100" using runs by (cases "fst ?answer") simp_all
  from r(1) have filed: "?answer = (Inr r, snd ?answer)" by (metis prod.collapse)
  have "distinct (map pp_id (pf_portal ex_leaver))" by (simp add: ex_leaver_defs)
  then show ?thesis
    using off rejection_reopens [OF ex_leaver_ok(1,3) _ filed, of "days 2" "Some 1" None] unfolding r(2) Let_def by blast
qed


end
