(* ===== verification/OrderHistory.thy ===== *)
theory OrderHistory
  imports Orders
begin

text \<open>
  Everything that can happen to a bureau's orders and money, as a step relation over \<open>office\<close>,
  and what stays true through any sequence of steps: the rows fit together, every order keeps
  between one and fifty well-formed documents, the status log is only ever appended to, and
  no order leaves the bureau's figures except by being deleted.
\<close>

section \<open>Steps\<close>

inductive office_step :: "office \<Rightarrow> office \<Rightarrow> bool" where
  created: "create_order session env p db = Inr (n, db') \<Longrightarrow> office_step db db'"
| header: "update_order session oid u db = Inr db' \<Longrightarrow> office_step db db'"
| added: "add_order_document session oid item db = Inr db' \<Longrightarrow> office_step db db'"
| edited: "update_order_document session oid did c db = Inr db' \<Longrightarrow> office_step db db'"
| removed: "delete_order_document session oid did db = Inr db' \<Longrightarrow> office_step db db'"
| saved: "save_order session oid s db = Inr (ids, db') \<Longrightarrow> office_step db db'"
| status: "change_status session now oid raw note db = Inr db' \<Longrightarrow> office_step db db'"
| deleted: "delete_order session oid db = Inr db' \<Longrightarrow> office_step db db'"
| money_moved: "ledger_step db db' \<Longrightarrow> office_step db db'"
| option_added: "add_option session key raw db = Inr (n, db') \<Longrightarrow> office_step db db'"
| option_removed: "delete_option session key i db = Inr db' \<Longrightarrow> office_step db db'"

inductive office_run :: "office \<Rightarrow> office \<Rightarrow> bool" where
  no_step: "office_run db db"
| more: "office_run db db' \<Longrightarrow> office_step db' db'' \<Longrightarrow> office_run db db''"

section \<open>The invariant\<close>

definition doc_ok :: "order_document \<Rightarrow> bool" where
  "doc_ok d \<longleftrightarrow>
     (d_service_type d = ORAL \<longrightarrow> d_document_type_id d = None \<and> d_copy_type d = ORIGINAL \<and> \<not> d_is_notarized d) \<and>
     (d_service_type d = WRITTEN \<longrightarrow> d_document_type_id d \<noteq> None \<and> d_interpreting_place d = None \<and>
        d_interpreting_date d = None \<and> d_interpreting_time d = None) \<and>
     (\<not> d_is_notarized d \<longrightarrow> d_notary_id d = None) \<and>
     is_cents (d_price d) \<and> is_cents (d_translator_cost d) \<and> is_cents (d_notary_cost d) \<and>
     1 \<le> d_page_count d \<and> d_page_count d \<le> 10000"

definition orders_ok :: "office \<Rightarrow> bool" where
  "orders_ok db \<longleftrightarrow>
     (\<forall>ord \<in> set (orders db). o_id ord < next_id db \<and> o_client_id ord \<in> cl_id ` set (clients db) \<and>
        1 \<le> document_count (o_id ord) db \<and> document_count (o_id ord) db \<le> MAX_DOCUMENTS) \<and>
     o_id ` set (orders db) \<subseteq> e_order_id ` set (status_events db) \<and>
     distinct (map o_number (orders db)) \<and>
     (\<forall>d \<in> set (documents db). d_id d < next_id db \<and> d_order_id d \<in> o_id ` set (orders db) \<and> doc_ok d) \<and>
     (\<forall>e \<in> set (status_events db). e_order_id e \<in> o_id ` set (orders db)) \<and>
     (\<forall>x \<in> set (expenses db). \<forall>oid. x_order_id x = Some oid \<longrightarrow> oid \<in> o_id ` set (orders db))"

definition office_ok :: "office \<Rightarrow> bool" where
  "office_ok db \<longleftrightarrow> books_ok db \<and> orders_ok db"

subsection \<open>Documents\<close>

lemma engine_cents:
  "is_cents (pb_price (ctx_price ctx t s g n c u f k h))"
  "is_cents (pb_translator_cost (ctx_price ctx t s g n c u f k h))"
  "is_cents (pb_notary_cost (ctx_price ctx t s g n c u f k h))"
  by (simp_all add: ctx_price_def priced_cents)

lemma oral_not_notarized: "\<not> pb_is_notarized (ctx_price ctx t s g n c u f ORAL h)"
  by (simp add: ctx_price_def price_document_def price_oral_def Let_def)

lemma default_cost_cents: "translator_default_cost t n k = Some x \<Longrightarrow> is_cents x"
  by (auto simp: translator_default_cost_def split: option.splits if_splits)

lemma or_else_cents: "(\<And>x. v = Some x \<Longrightarrow> is_cents x) \<Longrightarrow> is_cents d \<Longrightarrow> is_cents (or_else v d)"
  by (simp add: or_else_def split: option.split)

lemma required_cents: "(\<And>x. v = Some (Some x) \<Longrightarrow> is_cents x) \<Longrightarrow> is_cents d \<Longrightarrow> is_cents (required v d)"
  by (simp add: required_def split: option.split)

lemma validate_document_in_Inr:
  assumes "validate_document_in raw = Inr item"
  shows "kind_rules raw = Inr item" "1 \<le> di_page_count raw" "di_page_count raw \<le> 10000"
    "optional money_field (di_price_override raw)" "optional money_field (di_translator_cost_override raw)"
    "optional money_field (di_notary_cost_override raw)"
  using assms unfolding validate_document_in_def by (simp_all split: if_split_asm)

lemma kind_rules_Inr:
  assumes "kind_rules raw = Inr item"
  shows "di_page_count item = di_page_count raw" "di_price_override item = di_price_override raw"
    "di_translator_cost_override item = di_translator_cost_override raw"
    "di_notary_cost_override item = di_notary_cost_override raw"
    "di_service_type item = ORAL \<Longrightarrow> di_document_type_id item = None \<and> di_copy_type item = ORIGINAL"
    "di_service_type item = WRITTEN \<Longrightarrow> di_document_type_id item \<noteq> None"
  using assms unfolding kind_rules_def by (cases "di_service_type raw"; force split: if_split_asm)+

lemma validated_item:
  assumes "validate_document_in raw = Inr item"
  shows "di_service_type item = ORAL \<Longrightarrow> di_document_type_id item = None \<and> di_copy_type item = ORIGINAL"
    "di_service_type item = WRITTEN \<Longrightarrow> di_document_type_id item \<noteq> None"
    "1 \<le> di_page_count item" "di_page_count item \<le> 10000"
    "optional money_field (di_price_override item)" "optional money_field (di_translator_cost_override item)"
    "optional money_field (di_notary_cost_override item)"
  using validate_document_in_Inr [OF assms] kind_rules_Inr [OF validate_document_in_Inr(1) [OF assms]] by simp_all

lemma money_cents: "optional money_field v \<Longrightarrow> v = Some x \<Longrightarrow> is_cents x"
  by (simp add: optional_def money_field_def)

lemma document_row_ok:
  assumes "validate_document_in raw = Inr item" and "document_row ord item ctx assigned i = Inr d"
  shows "doc_ok d"
proof -
  note v = validated_item [OF assms(1)]
  from assms(2) have d: "d_service_type d = di_service_type item" "d_document_type_id d = di_document_type_id item"
    "d_copy_type d = di_copy_type item" "d_page_count d = di_page_count item"
    "d_service_type d = WRITTEN \<longrightarrow> d_interpreting_place d = None \<and> d_interpreting_date d = None \<and> d_interpreting_time d = None"
    by (auto simp: document_row_def Let_def)
  note r = document_row_Inr [OF assms(2)]
  have "is_cents (d_price d)" "is_cents (d_notary_cost d)" "is_cents (d_translator_cost d)"
    unfolding r by (intro or_else_cents; auto simp: item_price_def intro: engine_cents money_cents v default_cost_cents)+
  moreover have "d_service_type d = ORAL \<longrightarrow> \<not> d_is_notarized d"
    by (auto simp: r(7) d(1) item_price_def oral_not_notarized)
  ultimately show ?thesis using v(1-4) d r(7,8) by (auto simp: doc_ok_def)
qed

lemma validate_document_update_Inr:
  assumes "validate_document_update p = Inr ()"
  shows "optional (optional (\<lambda>n. 1 \<le> n \<and> n \<le> 10000)) (du_page_count p)"
    "optional (optional money_field) (du_price p)" "optional (optional money_field) (du_translator_cost p)"
    "optional (optional money_field) (du_notary_cost p)"
  using assms unfolding validate_document_update_def by (simp_all split: if_split_asm)

lemma validated_update:
  assumes "validate_document_update p = Inr ()"
  shows "du_page_count p = Some (Some n) \<Longrightarrow> 1 \<le> n \<and> n \<le> 10000"
    "du_price p = Some (Some x) \<Longrightarrow> is_cents x" "du_translator_cost p = Some (Some x) \<Longrightarrow> is_cents x"
    "du_notary_cost p = Some (Some x) \<Longrightarrow> is_cents x"
  using validate_document_update_Inr [OF assms] by (simp_all add: optional_def money_field_def)

text \<open>The parts of \<open>doc_ok\<close> the last two stages of an edit leave alone or restore.\<close>

definition kind_ok :: "order_document \<Rightarrow> bool" where
  "kind_ok d \<longleftrightarrow>
     (d_service_type d = ORAL \<longrightarrow> d_document_type_id d = None \<and> d_copy_type d = ORIGINAL \<and> \<not> d_is_notarized d) \<and>
     (d_service_type d = WRITTEN \<longrightarrow> d_document_type_id d \<noteq> None \<and> d_interpreting_place d = None \<and>
        d_interpreting_date d = None \<and> d_interpreting_time d = None) \<and>
     is_cents (d_price d) \<and> is_cents (d_translator_cost d) \<and> is_cents (d_notary_cost d) \<and>
     1 \<le> d_page_count d \<and> d_page_count d \<le> 10000"

lemma drop_notary_ok:
  assumes "kind_ok d" and "validate_document_update p = Inr ()"
  shows "doc_ok (drop_notary p (explicit_figures p d))"
proof -
  have "is_cents (required (du_price p) (d_price d))" "is_cents (required (du_translator_cost p) (d_translator_cost d))"
    "is_cents (required (du_notary_cost p) (d_notary_cost d))"
    using assms(1) validated_update(2-4) [OF assms(2)] by (auto simp: kind_ok_def intro!: required_cents)
  with assms(1) show ?thesis by (auto simp: doc_ok_def kind_ok_def drop_notary_def explicit_figures_def)
qed

lemma restructure_ok:
  assumes "restructure session p u given db d = Inr d'" and "1 \<le> d_page_count d" "d_page_count d \<le> 10000"
  shows "kind_ok d'"
proof -
  note r = restructure_Inr [OF assms(1)]
  have "d_service_type d' = d_service_type d" by (simp add: r(4))
  moreover have "d_service_type d = ORAL \<Longrightarrow> d_document_type_id d' = None \<and> d_copy_type d' = ORIGINAL \<and> \<not> d_is_notarized d'"
    by (simp add: r(4) computed_with_def oral_not_notarized) (simp add: clean_kind_def)
  moreover have "d_service_type d = WRITTEN \<Longrightarrow> d_document_type_id d' \<noteq> None \<and> d_interpreting_place d' = None \<and>
      d_interpreting_date d' = None \<and> d_interpreting_time d' = None"
    using r(1) by (simp add: r(4)) (simp add: clean_kind_def)
  moreover have "is_cents (d_price d') \<and> is_cents (d_translator_cost d') \<and> is_cents (d_notary_cost d')"
    by (simp add: r(4) computed_with_def engine_cents, rule or_else_cents) (auto simp: engine_cents dest: default_cost_cents)
  moreover have "d_page_count d' = d_page_count d" by (simp add: r(4))
  ultimately show ?thesis using assms(2,3) unfolding kind_ok_def by simp
qed

lemma unchanged_structure:
  "\<not> structural_change p \<Longrightarrow> apply_structure p d = d\<lparr>d_translator_id := or_else (du_translator_id p) (d_translator_id d),
     d_notary_id := or_else (du_notary_id p) (d_notary_id d)\<rparr>"
  by (simp add: apply_structure_def structural_change_def or_else_def required_def)

lemma changed_document_ok:
  assumes "changed_document session p u given db d = Inr d'" and "doc_ok d"
    and "validate_document_update p = Inr ()"
  shows "doc_ok d'"
proof -
  from assms(1) obtain d1 d2 where 1: "apply_place p (apply_structure p d) = Inr d1"
    and 2: "(if structural_change p then restructure session p u given db d1 else Inr (new_translator_rate p given d1)) = Inr d2"
    and 3: "d' = drop_notary p (explicit_figures p d2)"
    by (auto simp: changed_document_def bind_result_Inr_iff)
  note place = apply_place_keys [OF 1]
  have pages: "1 \<le> d_page_count d1 \<and> d_page_count d1 \<le> 10000"
    unfolding place(9) apply_structure_def using assms(2) validated_update(1) [OF assms(3)]
    by (auto simp: doc_ok_def required_def split: option.split)
  have "kind_ok d2"
  proof (cases "structural_change p")
    case True
    with 2 pages show ?thesis by (auto intro: restructure_ok)
  next
    case False
    have "kind_ok d1"
      using assms(2) pages 1 by (auto simp: kind_ok_def doc_ok_def place apply_place_def Let_def
          unchanged_structure [OF False] split: if_splits)
    moreover have "is_cents (or_else (translator_default_cost given (d_page_count d1) (d_service_type d1)) (d_translator_cost d1))"
      by (rule or_else_cents) (use \<open>kind_ok d1\<close> in \<open>auto simp: kind_ok_def dest: default_cost_cents\<close>)
    ultimately show ?thesis
      using False 2 by (auto simp: new_translator_rate_def kind_ok_def split: if_splits)
  qed
  with assms(3) show ?thesis unfolding 3 by (rule drop_notary_ok [rotated])
qed


subsection \<open>Every step keeps it\<close>

text \<open>The tables an operation on orders leaves alone.\<close>

definition same_money :: "office \<Rightarrow> office \<Rightarrow> bool" where
  "same_money db db' \<longleftrightarrow> client_payments db' = client_payments db \<and> client_allocations db' = client_allocations db \<and>
     translator_payments db' = translator_payments db \<and> translator_allocations db' = translator_allocations db \<and>
     notary_payments db' = notary_payments db \<and> notary_allocations db' = notary_allocations db \<and>
     expenses db' = expenses db \<and> clients db' = clients db \<and> next_id db \<le> next_id db'"

lemma books_ok_frame:
  assumes "books_ok db" and "same_money db db'"
    and "distinct (map o_id (orders db'))" and "distinct (map d_id (documents db'))"
    and "al_target_id ` set (client_allocations db) \<subseteq> o_id ` set (orders db')"
    and "al_target_id ` set (translator_allocations db) \<subseteq> o_id ` set (orders db')"
    and "al_target_id ` set (notary_allocations db) \<subseteq> d_id ` set (documents db')"
  shows "books_ok db'"
  using assms
  by (auto simp: books_ok_def same_money_def intro: ledger_ok_next ledger_ok_targets)

lemma books_targets:
  assumes "books_ok db"
  shows "al_target_id ` set (client_allocations db) \<subseteq> o_id ` set (orders db)"
    "al_target_id ` set (translator_allocations db) \<subseteq> o_id ` set (orders db)"
    "al_target_id ` set (notary_allocations db) \<subseteq> d_id ` set (documents db)"
  using assms by (auto simp: books_ok_def ledger_ok_def)

lemma orders_okD:
  assumes "orders_ok db"
  shows "ord \<in> set (orders db) \<Longrightarrow> o_id ord < next_id db"
    "ord \<in> set (orders db) \<Longrightarrow> o_client_id ord \<in> cl_id ` set (clients db)"
    "ord \<in> set (orders db) \<Longrightarrow> 1 \<le> document_count (o_id ord) db"
    "ord \<in> set (orders db) \<Longrightarrow> document_count (o_id ord) db \<le> MAX_DOCUMENTS"
    "distinct (map o_number (orders db))"
    "d \<in> set (documents db) \<Longrightarrow> d_id d < next_id db"
    "d \<in> set (documents db) \<Longrightarrow> d_order_id d \<in> o_id ` set (orders db)"
    "d \<in> set (documents db) \<Longrightarrow> doc_ok d"
    "e \<in> set (status_events db) \<Longrightarrow> e_order_id e \<in> o_id ` set (orders db)"
  using assms by (auto simp: orders_ok_def)

lemma orders_okI:
  assumes "\<And>ord. ord \<in> set (orders db) \<Longrightarrow> o_id ord < next_id db"
    and "\<And>ord. ord \<in> set (orders db) \<Longrightarrow> o_client_id ord \<in> cl_id ` set (clients db)"
    and "\<And>ord. ord \<in> set (orders db) \<Longrightarrow> 1 \<le> document_count (o_id ord) db \<and> document_count (o_id ord) db \<le> MAX_DOCUMENTS"
    and "\<And>ord. ord \<in> set (orders db) \<Longrightarrow> o_id ord \<in> e_order_id ` set (status_events db)"
    and "distinct (map o_number (orders db))"
    and "\<And>d. d \<in> set (documents db) \<Longrightarrow> d_id d < next_id db \<and> d_order_id d \<in> o_id ` set (orders db) \<and> doc_ok d"
    and "\<And>e. e \<in> set (status_events db) \<Longrightarrow> e_order_id e \<in> o_id ` set (orders db)"
    and "\<And>x oid. x \<in> set (expenses db) \<Longrightarrow> x_order_id x = Some oid \<Longrightarrow> oid \<in> o_id ` set (orders db)"
  shows "orders_ok db"
  using assms by (auto simp: orders_ok_def)

lemma orders_ok_expense: "orders_ok db \<Longrightarrow> x \<in> set (expenses db) \<Longrightarrow> x_order_id x = Some oid \<Longrightarrow> oid \<in> o_id ` set (orders db)"
  by (auto simp: orders_ok_def)

lemma orders_ok_logged: "orders_ok db \<Longrightarrow> ord \<in> set (orders db) \<Longrightarrow> o_id ord \<in> e_order_id ` set (status_events db)"
  by (auto simp: orders_ok_def)

lemma fold_max_ge: "m \<le> fold max xs (m :: int)"
proof (induction xs arbitrary: m)
  case (Cons x xs)
  from Cons.IH [of "max x m"] show ?case by simp
qed simp

lemma fold_max_mem: "n \<in> set xs \<Longrightarrow> n \<le> fold max xs (m :: int)"
proof (induction xs arbitrary: m)
  case (Cons x xs)
  then show ?case using fold_max_ge [of "max x m" xs] by auto
qed simp

lemma next_number_fresh: "ord \<in> set (orders db) \<Longrightarrow> o_number ord < next_number db"
  unfolding next_number_def using fold_max_mem [of "o_number ord" "map o_number (orders db)" 0] by simp

lemma list_all2_right: "list_all2 P xs ys \<Longrightarrow> y \<in> set ys \<Longrightarrow> \<exists>x \<in> set xs. P x y"
  by (induction rule: list_all2_induct) auto

text \<open>Creating.\<close>

lemma create_order_ok:
  assumes "create_order session env payload db = Inr (oid, db')" and "books_ok db" and "orders_ok db"
  shows "books_ok db'" "orders_ok db'"
proof -
  from assms(1) obtain p cl ctx given rows where p: "validate_order_in payload = Inr p"
    and cl: "get_row cl_id (oi_client_id p) (clients db) = Some cl"
    and given: "length given = length (oi_documents p)"
    and rows: "document_rows (new_order session env p cl ctx db) ctx (zip (oi_documents p) given) (next_id db + 1) = Inr rows"
    and db': "db' = insert_order session env (new_order session env p cl ctx db) rows db"
    by (rule create_order_Inr) (auto dest: list_all2_lengthD)
  note p' = validate_order_in_Inr [OF p] and r = document_rows_Inr [OF rows]
  note ok = orders_okD [OF assms(3)]
  have len: "length rows = length (oi_documents p)" using r(3) given by simp
  have row: "d_order_id d = next_id db \<and> doc_ok d" if d: "d \<in> set rows" for d
  proof -
    from list_all2_right [OF r(1) d] obtain item g n where "(item, g) \<in> set (zip (oi_documents p) given)"
      "document_row (new_order session env p cl ctx db) item ctx g n = Inr d" by auto
    moreover obtain raw where "validate_document_in raw = Inr item"
      using list_all2_right [OF p'(3)] calculation(1) by (auto dest: set_zip_leftD)
    ultimately show ?thesis using document_row_ok document_row_Inr(2) by fastforce
  qed
  have ids: "d_id d \<in> {next_id db + 1..next_id db + int (length rows)}" if "d \<in> set rows" for d
  proof -
    have "d_id d \<in> set (map d_id rows)" using that by simp
    then show ?thesis unfolding r(2) using r(3) by simp
  qed
  have fresh: "document_count (next_id db) db = 0"
    using ok(1,7) by (force simp: document_count_def order_documents_def filter_empty_conv)
  have "filter (\<lambda>d. d_order_id d = i) rows = (if i = next_id db then rows else [])" for i
    using row by (auto simp: filter_empty_conv intro: filter_True)
  then have count: "document_count i db' = document_count i db + (if i = next_id db then length rows else 0)" for i
    by (simp add: db' document_count_def order_documents_def)
  have cid: "oi_client_id p \<in> cl_id ` set (clients db)" using get_row_SomeD [OF cl] by force
  show "orders_ok db'"
  proof (rule orders_okI)
    fix ord assume ord: "ord \<in> set (orders db')"
    then show "o_id ord < next_id db'" using ok(1) by (force simp: db')
    show "o_client_id ord \<in> cl_id ` set (clients db')" using ord ok(2) cid by (auto simp: db')
    show "o_id ord \<in> e_order_id ` set (status_events db')"
      using ord orders_ok_logged [OF assms(3), of ord] by (auto simp: db')
    show "1 \<le> document_count (o_id ord) db' \<and> document_count (o_id ord) db' \<le> MAX_DOCUMENTS"
    proof (cases "o_id ord = next_id db")
      case True
      with p'(1,2) fresh len show ?thesis by (cases "oi_documents p") (simp_all add: count)
    next
      case False
      with ord ok(3,4) show ?thesis by (simp add: count) (auto simp: db')
    qed
  next
    show "distinct (map o_number (orders db'))"
      using ok(5) next_number_fresh [of _ db] by (force simp: db')
  next
    fix d assume "d \<in> set (documents db')"
    then consider "d \<in> set (documents db)" | "d \<in> set rows" by (auto simp: db')
    then show "d_id d < next_id db' \<and> d_order_id d \<in> o_id ` set (orders db') \<and> doc_ok d"
    proof cases
      case 1
      from ok(6) [OF 1] ok(7) [OF 1] ok(8) [OF 1] show ?thesis by (auto simp: db')
    next
      case 2
      with row ids show ?thesis by (force simp: db')
    qed
  next
    show "e_order_id e \<in> o_id ` set (orders db')" if "e \<in> set (status_events db')" for e
      using that ok(9) by (auto simp: db')
    show "oid \<in> o_id ` set (orders db')" if "x \<in> set (expenses db')" "x_order_id x = Some oid" for x oid
      using orders_ok_expense [OF assms(3) _ that(2)] that(1) by (auto simp: db')
  qed
  have "distinct (map d_id rows)" unfolding r(2) by simp
  moreover have "d_id ` set (documents db) \<inter> d_id ` set rows = {}" using ok(6) ids by force
  ultimately have "distinct (map d_id (documents db'))" using assms(2) by (simp add: db' books_ok_def)
  moreover have "distinct (map o_id (orders db'))" using assms(2) ok(1) by (force simp: db' books_ok_def)
  ultimately show "books_ok db'"
    using books_targets [OF assms(2)] by (intro books_ok_frame [OF assms(2)]) (auto simp: same_money_def db')
qed

text \<open>Editing: the orders keep their ids and numbers, only headers and documents change.\<close>

lemma set_map_eq: "map f xs = map f ys \<Longrightarrow> f ` set xs = f ` set ys"
  by (metis set_map)

lemma orders_ok_edited:
  assumes "orders_ok db" and ids: "map o_id (orders db') = map o_id (orders db)"
    and numbers: "map o_number (orders db') = map o_number (orders db)"
    and same: "clients db' = clients db" "expenses db' = expenses db" "status_events db' = status_events db"
      "next_id db \<le> next_id db'"
    and moved: "\<And>ord. ord \<in> set (orders db') \<Longrightarrow> o_client_id ord \<in> cl_id ` set (clients db)"
    and count: "\<And>i. i \<in> o_id ` set (orders db) \<Longrightarrow> 1 \<le> document_count i db' \<and> document_count i db' \<le> MAX_DOCUMENTS"
    and docs: "\<And>d. d \<in> set (documents db') \<Longrightarrow> d_id d < next_id db' \<and> d_order_id d \<in> o_id ` set (orders db) \<and> doc_ok d"
  shows "orders_ok db'"
proof (rule orders_okI)
  note eq = set_map_eq [OF ids]
  fix ord assume ord: "ord \<in> set (orders db')"
  then have mem: "o_id ord \<in> o_id ` set (orders db)" using eq by blast
  then show "o_id ord < next_id db'" using orders_okD(1) [OF assms(1)] same(4) by force
  show "o_id ord \<in> e_order_id ` set (status_events db')"
    using mem orders_ok_logged [OF assms(1)] same(3) by auto
  show "o_client_id ord \<in> cl_id ` set (clients db')" using moved [OF ord] same(1) by simp
  show "1 \<le> document_count (o_id ord) db' \<and> document_count (o_id ord) db' \<le> MAX_DOCUMENTS"
    using mem by (rule count)
next
  note eq = set_map_eq [OF ids]
  show "distinct (map o_number (orders db'))" using orders_okD(5) [OF assms(1)] numbers by simp
  show "d_id d < next_id db' \<and> d_order_id d \<in> o_id ` set (orders db') \<and> doc_ok d"
    if "d \<in> set (documents db')" for d using docs [OF that] eq by simp
  show "e_order_id e \<in> o_id ` set (orders db')" if "e \<in> set (status_events db')" for e
    using that orders_okD(9) [OF assms(1)] eq same(3) by simp
  show "oid \<in> o_id ` set (orders db')" if "x \<in> set (expenses db')" "x_order_id x = Some oid" for x oid
    using that orders_ok_expense [OF assms(1)] eq same(2) by auto
qed

lemma document_count_eq:
  assumes "map d_order_id (documents db') = map d_order_id (documents db)"
  shows "document_count i db' = document_count i db"
proof -
  have "length (filter (\<lambda>d. d_order_id d = i) ds) = count_list (map d_order_id ds) i" for ds :: "order_document list"
    by (induction ds) auto
  with assms show ?thesis by (simp only: document_count_def order_documents_def)
qed

lemma orders_ok_counts:
  "orders_ok db \<Longrightarrow> i \<in> o_id ` set (orders db) \<Longrightarrow> 1 \<le> document_count i db \<and> document_count i db \<le> MAX_DOCUMENTS"
  using orders_okD(3,4) by auto

lemma reprice_ok:
  assumes "doc_ok d"
  shows "doc_ok (reprice ctx u u' d)"
proof -
  have "is_cents (pb_price (computed d ctx u))" "is_cents (pb_translator_cost (computed d ctx u))"
    "is_cents (pb_notary_cost (computed d ctx u))" for u
    by (simp_all add: computed_def computed_with_def engine_cents)
  with assms show ?thesis by (simp add: doc_ok_def reprice_def Let_def)
qed

lemma edit_order_ok:
  assumes "edit_order session oid p db = Inr db'" and "books_ok db" and "orders_ok db"
  shows "books_ok db' \<and> orders_ok db'"
proof -
  from assms(1) obtain ord ctx where ord: "get_row o_id oid (orders db) = Some ord"
    and moved: "case moves_client p ord of None \<Rightarrow> True
       | Some c \<Rightarrow> get_row cl_id c (clients db) \<noteq> None \<and> (\<forall>a \<in> set (client_allocations db). al_target_id a \<noteq> oid)"
    and db': "db' = log_office session ''order.updated'' ''order'' oid
       (db\<lparr>orders := update_where (\<lambda>r. o_id r = oid) (\<lambda>_. edited_header ctx p ord) (orders db),
           documents := (if required (ou_urgency p) (o_urgency ord) \<noteq> o_urgency ord
             then update_where (\<lambda>d. d_order_id d = oid)
               (reprice ctx (o_urgency ord) (required (ou_urgency p) (o_urgency ord))) (documents db)
             else documents db)\<rparr>)"
    by (rule edit_order_Inr)
  have oid: "o_id ord = oid" and mem: "ord \<in> set (orders db)" using get_row_SomeD [OF ord] by auto
  have one: "r = ord" if "r \<in> set (orders db)" "o_id r = oid" for r
    using assms(2) that mem oid by (auto simp: books_ok_def distinct_map dest: inj_onD)
  have heads: "map o_id (orders db') = map o_id (orders db)" "map o_number (orders db') = map o_number (orders db)"
    using one oid by (auto simp: db' update_where_def)
  have docs: "map d_id (documents db') = map d_id (documents db)"
    "map d_order_id (documents db') = map d_order_id (documents db)"
    by (auto simp: db' update_where_def)
  have fine: "doc_ok d" if "d \<in> set (documents db')" for d
    using that orders_okD(8) [OF assms(3)] by (auto simp: db' update_where_def reprice_ok split: if_splits)
  have "required (ou_client_id p) (o_client_id ord) \<in> cl_id ` set (clients db)"
    using moved orders_okD(2) [OF assms(3) mem]
    by (auto simp: moves_client_def required_def get_row_None_notin split: option.splits if_splits)
  then have client: "o_client_id r \<in> cl_id ` set (clients db)" if "r \<in> set (orders db')" for r
    using that orders_okD(2) [OF assms(3)] by (auto simp: db' update_where_def)
  have "orders_ok db'"
  proof (rule orders_ok_edited [OF assms(3) heads])
    show "1 \<le> document_count i db' \<and> document_count i db' \<le> MAX_DOCUMENTS" if "i \<in> o_id ` set (orders db)" for i
      using orders_ok_counts [OF assms(3) that] document_count_eq [OF docs(2)] by simp
    fix d assume d: "d \<in> set (documents db')"
    then have "d_id d \<in> d_id ` set (documents db)" "d_order_id d \<in> d_order_id ` set (documents db)"
      using set_map_eq [OF docs(1)] set_map_eq [OF docs(2)] by blast+
    then show "d_id d < next_id db' \<and> d_order_id d \<in> o_id ` set (orders db) \<and> doc_ok d"
      using fine [OF d] orders_okD(6,7) [OF assms(3)] by (auto simp: db')
  qed (simp_all add: client, simp_all add: db')
  moreover have "books_ok db'"
    using books_targets [OF assms(2)] assms(2)
    by (intro books_ok_frame [OF assms(2)]; simp add: heads docs set_map_eq [OF heads(1)] set_map_eq [OF docs(1)])
      (simp_all add: books_ok_def same_money_def db')
  ultimately show ?thesis by simp
qed

lemma add_document_ok:
  assumes "add_document session oid item db = Inr db'" and "validate_document_in raw = Inr item"
    and "books_ok db" and "orders_ok db"
  shows "books_ok db' \<and> orders_ok db'"
proof -
  from assms(1) obtain ord ctx assigned row where ord: "get_row o_id oid (orders db) = Some ord"
    and room: "document_count oid db < MAX_DOCUMENTS"
    and row: "document_row ord item ctx assigned (next_id db) = Inr row"
    and db': "db' = log_office session ''order.document_added'' ''order'' oid
       (db\<lparr>next_id := next_id db + 1, documents := documents db @ [row]\<rparr>)"
    by (rule add_document_Inr)
  note r = document_row_Inr(1,2) [OF row] document_row_ok [OF assms(2) row]
  have oid: "d_order_id row = oid" "oid \<in> o_id ` set (orders db)" using get_row_SomeD [OF ord] r(2) by force+
  have count: "document_count i db' = document_count i db + (if i = oid then 1 else 0)" for i
    by (simp add: db' document_count_def order_documents_def oid)
  have "orders_ok db'"
  proof (rule orders_ok_edited [OF assms(4)])
    show "1 \<le> document_count i db' \<and> document_count i db' \<le> MAX_DOCUMENTS" if "i \<in> o_id ` set (orders db)" for i
      using orders_ok_counts [OF assms(4) that] room by (simp add: count)
    show "d_id d < next_id db' \<and> d_order_id d \<in> o_id ` set (orders db) \<and> doc_ok d"
      if "d \<in> set (documents db')" for d
      using that orders_okD(6-8) [OF assms(4), of d] r oid by (auto simp: db')
  qed (simp_all add: db' orders_okD(2) [OF assms(4)])
  moreover have "distinct (map d_id (documents db'))"
    using assms(3) orders_okD(6) [OF assms(4)] r(1) by (force simp: db' books_ok_def)
  then have "books_ok db'"
    using books_targets [OF assms(3)] assms(3)
    by (intro books_ok_frame [OF assms(3)]) (auto simp: books_ok_def same_money_def db')
  ultimately show ?thesis by simp
qed

lemma edit_document_ok:
  assumes "edit_document session oid did p db = Inr db'" and "validate_document_update p = Inr ()"
    and "books_ok db" and "orders_ok db"
  shows "books_ok db' \<and> orders_ok db'"
proof -
  from assms(1) obtain d ord given d' where d: "get_row d_id did (documents db) = Some d"
    and "get_row o_id oid (orders db) = Some ord"
    and ch: "changed_document session p (o_urgency ord) given db d = Inr d'"
    and db': "db' = log_office session ''order.document_updated'' ''order'' oid
       (db\<lparr>documents := update_where (\<lambda>r. d_id r = did) (\<lambda>_. d') (documents db)\<rparr>)"
    by (rule edit_document_Inr) blast
  have mem: "d \<in> set (documents db)" "d_id d = did" using get_row_SomeD [OF d] by auto
  note keys = changed_document_keys [OF ch]
  have fine: "doc_ok d'" using changed_document_ok [OF ch orders_okD(8) [OF assms(4) mem(1)] assms(2)] .
  have one: "r = d" if "r \<in> set (documents db)" "d_id r = did" for r
    using assms(3) that mem by (auto simp: books_ok_def distinct_map dest: inj_onD)
  have docs: "map d_id (documents db') = map d_id (documents db)"
    "map d_order_id (documents db') = map d_order_id (documents db)"
    using one keys by (auto simp: db' update_where_def)
  have "orders_ok db'"
  proof (rule orders_ok_edited [OF assms(4)])
    show "1 \<le> document_count i db' \<and> document_count i db' \<le> MAX_DOCUMENTS" if "i \<in> o_id ` set (orders db)" for i
      using orders_ok_counts [OF assms(4) that] document_count_eq [OF docs(2)] by simp
    show "d_id e < next_id db' \<and> d_order_id e \<in> o_id ` set (orders db) \<and> doc_ok e"
      if "e \<in> set (documents db')" for e
    proof -
      from that have "e = d' \<or> e \<in> set (documents db)" by (auto simp: db' update_where_def)
      moreover have "d_id d' < next_id db" "d_order_id d' \<in> o_id ` set (orders db)"
        using orders_okD(6,7) [OF assms(4) mem(1)] keys by auto
      ultimately show ?thesis using fine orders_okD(6-8) [OF assms(4), of e] by (auto simp: db')
    qed
  qed (simp_all add: db' orders_okD(2) [OF assms(4)])
  moreover have "books_ok db'"
    using books_targets [OF assms(3)] assms(3)
    by (intro books_ok_frame [OF assms(3)]; simp add: docs set_map_eq [OF docs(1)])
      (simp_all add: books_ok_def same_money_def db')
  ultimately show ?thesis by simp
qed

lemma delete_order_document_ok:
  assumes "delete_order_document session oid did db = Inr db'" and "books_ok db" and "orders_ok db"
  shows "books_ok db' \<and> orders_ok db'"
proof -
  from assms(1) obtain d where d: "get_row d_id did (documents db) = Some d" "d_order_id d = oid"
    and more: "1 < document_count oid db" and unpaid: "\<forall>a \<in> set (notary_allocations db). al_target_id a \<noteq> did"
    and db': "db' = log_office session ''order.document_removed'' ''order'' oid
       (db\<lparr>documents := filter (\<lambda>r. d_id r \<noteq> did) (documents db)\<rparr>)"
    by (rule delete_order_document_Inr)
  have dist: "distinct (map d_id (documents db))" using assms(2) by (simp add: books_ok_def)
  have count: "document_count i db' + (if i = oid then 1 else 0) = document_count i db" for i
    using count_removed [OF dist d(1), of "\<lambda>d. d_order_id d = i"] d(2)
    by (auto simp: db' document_count_def order_documents_def split: if_splits)
  have "orders_ok db'"
  proof (rule orders_ok_edited [OF assms(3)])
    show "1 \<le> document_count i db' \<and> document_count i db' \<le> MAX_DOCUMENTS" if "i \<in> o_id ` set (orders db)" for i
      using orders_ok_counts [OF assms(3) that] more count [of i] by (auto split: if_splits)
    show "d_id e < next_id db' \<and> d_order_id e \<in> o_id ` set (orders db) \<and> doc_ok e"
      if "e \<in> set (documents db')" for e
      using that orders_okD(6-8) [OF assms(3)] by (auto simp: db')
  qed (simp_all add: db' orders_okD(2) [OF assms(3)])
  moreover have "al_target_id ` set (notary_allocations db) \<subseteq> d_id ` set (documents db')"
    using books_targets(3) [OF assms(2)] unpaid by (fastforce simp: db')
  then have "books_ok db'"
    using books_targets [OF assms(2)] assms(2)
    by (intro books_ok_frame [OF assms(2)]) (auto simp: books_ok_def same_money_def db' distinct_map_filter)
  ultimately show ?thesis by simp
qed

lemma change_status_ok:
  assumes "change_status session now oid raw note db = Inr db'" and "books_ok db" and "orders_ok db"
  shows "books_ok db' \<and> orders_ok db'"
proof -
  from assms(1) obtain ord st where ord: "get_row o_id oid (orders db) = Some ord"
    and db': "db' = log_office session ''order.status_changed'' ''order'' oid
       (db\<lparr>next_id := next_id db + 1,
           status_events := status_events db @
             [\<lparr>e_id = next_id db, e_order_id = oid, e_status = st, e_changed_at = now,
               e_changed_by_user_id = Some (as_user_id session), e_note = note\<rparr>],
           notices := notices db'\<rparr>)"
    by (rule change_status_Inr)
  have same: "orders db' = orders db" "documents db' = documents db" "same_money db db'"
    "next_id db' = next_id db + 1"
    "set (status_events db') = insert \<lparr>e_id = next_id db, e_order_id = oid, e_status = st, e_changed_at = now,
               e_changed_by_user_id = Some (as_user_id session), e_note = note\<rparr> (set (status_events db))"
    by (subst db', simp add: same_money_def)+
  have oid: "oid \<in> o_id ` set (orders db)" using get_row_SomeD [OF ord] by force
  have "document_count i db' = document_count i db" for i
    by (simp add: document_count_def order_documents_def same)
  then have "orders_ok db'"
    using assms(3) oid same(3) by (auto simp: orders_ok_def same same_money_def)
  moreover have "books_ok db'"
    using books_targets [OF assms(2)] assms(2) same
    by (intro books_ok_frame [OF assms(2)]) (simp_all add: books_ok_def)
  ultimately show ?thesis by simp
qed

lemma delete_order_ok:
  assumes "delete_order session oid db = Inr db'" and "books_ok db" and "orders_ok db"
  shows "books_ok db' \<and> orders_ok db'"
proof -
  from assms(1) obtain ord where ord: "get_row o_id oid (orders db) = Some ord"
    and free: "\<not> money_recorded oid db"
    and db': "db' = log_office session ''order.deleted'' ''order'' oid
       (db\<lparr>orders := filter (\<lambda>r. o_id r \<noteq> oid) (orders db),
           documents := filter (\<lambda>d. d_order_id d \<noteq> oid) (documents db),
           status_events := filter (\<lambda>e. e_order_id e \<noteq> oid) (status_events db)\<rparr>)"
    by (rule delete_order_Inr)
  note ok = orders_okD [OF assms(3)]
  have count: "i \<noteq> oid \<Longrightarrow> document_count i db' = document_count i db" for i
    by (auto simp: db' document_count_def order_documents_def intro!: arg_cong [where f = length] filter_cong)
  have "orders_ok db'"
  proof (rule orders_okI)
    fix r assume "r \<in> set (orders db')"
    then have r: "r \<in> set (orders db)" "o_id r \<noteq> oid" by (simp_all add: db')
    show "o_id r < next_id db'" "o_client_id r \<in> cl_id ` set (clients db')"
      using ok(1,2) [OF r(1)] by (simp_all add: db')
    show "1 \<le> document_count (o_id r) db' \<and> document_count (o_id r) db' \<le> MAX_DOCUMENTS"
      using ok(3,4) [OF r(1)] count r(2) by simp
    show "o_id r \<in> e_order_id ` set (status_events db')"
      using orders_ok_logged [OF assms(3) r(1)] r(2) by (auto simp: db')
  next
    show "distinct (map o_number (orders db'))" using ok(5) by (simp add: db' distinct_map_filter)
    show "d_id d < next_id db' \<and> d_order_id d \<in> o_id ` set (orders db') \<and> doc_ok d"
      if "d \<in> set (documents db')" for d
      using that ok(6-8) [of d] by (auto simp: db')
    show "e_order_id e \<in> o_id ` set (orders db')" if "e \<in> set (status_events db')" for e
      using that ok(9) [of e] by (auto simp: db')
    show "i \<in> o_id ` set (orders db')" if "x \<in> set (expenses db')" "x_order_id x = Some i" for x i
    proof -
      have "x \<in> set (expenses db)" using that(1) by (simp add: db')
      moreover from this that(2) free have "i \<noteq> oid" by (auto simp: money_recorded_def)
      ultimately show ?thesis using that(2) orders_ok_expense [OF assms(3), of x i] by (auto simp: db')
    qed
  qed
  moreover have "books_ok db'"
  proof (rule books_ok_frame [OF assms(2)])
    show "al_target_id ` set (notary_allocations db) \<subseteq> d_id ` set (documents db')"
    proof
      fix t assume "t \<in> al_target_id ` set (notary_allocations db)"
      then obtain a d where "a \<in> set (notary_allocations db)" "t = al_target_id a" "d \<in> set (documents db)" "d_id d = t"
        using books_targets(3) [OF assms(2)] by fastforce
      moreover from calculation have "d_order_id d \<noteq> oid" using free by (auto simp: money_recorded_def)
      ultimately show "t \<in> d_id ` set (documents db')" by (force simp: db')
    qed
    have orders: "o_id ` set (orders db') = o_id ` set (orders db) - {oid}" by (auto simp: db')
    show "al_target_id ` set (client_allocations db) \<subseteq> o_id ` set (orders db')"
      "al_target_id ` set (translator_allocations db) \<subseteq> o_id ` set (orders db')"
      using books_targets(1,2) [OF assms(2)] free unfolding orders by (auto simp: money_recorded_def)
  qed (use assms(2) in \<open>simp_all add: books_ok_def same_money_def db' distinct_map_filter\<close>)
  ultimately show ?thesis by simp
qed

text \<open>The whole edit screen: a sequence of the steps above.\<close>

lemma save_order_Inr:
  assumes "save_order session oid payload db = Inr (ids, db')"
  obtains p db1 db2 db3 where "validate_order_save payload = Inr p"
    "(case os_header p of None \<Rightarrow> Inr db | Some h \<Rightarrow> edit_order session oid h db) = Inr db1"
    "fold_result (add_step session oid) (os_add p) ([], db1) = Inr (ids, db2)"
    "fold_result (\<lambda>(did, u) s. if u = no_document_change then Inr s
        else edit_document session oid did u s) (os_update p) db2 = Inr db3"
    "fold_result (delete_order_document session oid) (os_remove p) db3 = Inr db'"
  using assms by (auto simp: save_order_def split: if_splits)

lemma save_order_ok:
  assumes "save_order session oid payload db = Inr (ids, db')" and "books_ok db" and "orders_ok db"
  shows "books_ok db' \<and> orders_ok db'"
proof -
  let ?ok = "\<lambda>s. books_ok s \<and> orders_ok s"
  from assms(1) obtain p db1 db2 db3 where p: "validate_order_save payload = Inr p"
    and 1: "(case os_header p of None \<Rightarrow> Inr db | Some h \<Rightarrow> edit_order session oid h db) = Inr db1"
    and 2: "fold_result (add_step session oid) (os_add p) ([], db1) = Inr (ids, db2)"
    and 3: "fold_result (\<lambda>(did, u) s. if u = no_document_change then Inr s
        else edit_document session oid did u s) (os_update p) db2 = Inr db3"
    and 4: "fold_result (delete_order_document session oid) (os_remove p) db3 = Inr db'"
    by (rule save_order_Inr)
  have valid: "\<exists>raw. validate_document_in raw = Inr item" if "item \<in> set (os_add p)" for item
    using p that list_all2_right by (fastforce simp: validate_order_save_def map_result_Inr_iff split: if_splits)
  have upd: "validate_document_update u = Inr ()" if "(i, u) \<in> set (os_update p)" for i u
  proof -
    from p obtain us where "list_all2 (\<lambda>(i, u) y. validate_document_update u = Inr y) (os_update p) us"
      by (auto simp: validate_order_save_def map_result_Inr_iff case_prod_unfold split: if_splits)
    with that show ?thesis by (auto simp: list_all2_conv_all_nth in_set_conv_nth)
  qed
  have "?ok db1" using 1 assms(2,3) by (auto dest: edit_order_ok split: option.splits)
  then have "?ok db2"
    using fold_result_invariant [OF 2, of "\<lambda>s. ?ok (snd s)"] valid
    by (fastforce simp: add_step_def dest: add_document_ok split: prod.splits)
  then have "?ok db3"
    by (rule fold_result_invariant [OF 3]) (auto split: if_splits, (blast dest: edit_document_ok upd)+)
  then show "?ok db'"
    by (rule fold_result_invariant [OF 4]) (auto dest: delete_order_document_ok)
qed

text \<open>Recording and undoing money, and the bureau's options, leave the orders alone.\<close>

lemma ledger_step_frame:
  assumes "ledger_step db db'"
  shows "orders db' = orders db \<and> documents db' = documents db \<and> status_events db' = status_events db \<and>
    clients db' = clients db \<and> custom_options db' = custom_options db \<and> next_id db \<le> next_id db'"
  using assms
proof (cases rule: ledger_step.cases)
  case (payment session p n)
  show ?thesis
    by (cases "ledger_lookup (pi_idempotency_key p) (client_payments db)")
      (use record_payment_first(5) [OF payment] record_payment_again(3) [OF payment] in auto)
next
  case (payout session p n)
  show ?thesis
    by (cases "ledger_lookup (pi_idempotency_key p) (translator_payments db)")
      (use pay_translator_first(5) [OF payout] pay_translator_again(3) [OF payout] in auto)
next
  case (notary session q n)
  show ?thesis
    by (cases "ledger_lookup (ni_idempotency_key q) (notary_payments db)")
      (use pay_notary_first(6) [OF notary] pay_notary_again(3) [OF notary] in auto)
qed (auto dest!: delete_payment_Inr(2) delete_translator_payout_Inr(2) delete_notary_payout_Inr delete_expense_Inr
    elim!: create_expense_Inr)

lemma ledger_step_expenses:
  assumes "ledger_step db db'" and "x \<in> set (expenses db')"
  shows "x \<in> set (expenses db) \<or> (\<forall>oid. x_order_id x = Some oid \<longrightarrow> oid \<in> o_id ` set (orders db))"
  using assms(1)
proof (cases rule: ledger_step.cases)
  case (payment session p n)
  with assms(2) show ?thesis
    by (cases "ledger_lookup (pi_idempotency_key p) (client_payments db)")
      (auto dest: record_payment_first(5) record_payment_again(3))
next
  case (payout session p n)
  with assms(2) show ?thesis
    by (cases "ledger_lookup (pi_idempotency_key p) (translator_payments db)")
      (auto dest: pay_translator_first(5) pay_translator_again(3))
next
  case (notary session q n)
  with assms(2) show ?thesis
    by (cases "ledger_lookup (ni_idempotency_key q) (notary_payments db)")
      (auto dest: pay_notary_first(6) pay_notary_again(3))
next
  case (expense session y n)
  then show ?thesis using assms(2) by (elim create_expense_Inr) auto
qed (use assms(2) in \<open>auto dest!: delete_payment_Inr(2) delete_translator_payout_Inr(2) delete_notary_payout_Inr delete_expense_Inr\<close>)

lemma ledger_step_ok:
  assumes "ledger_step db db'" and "books_ok db" and "orders_ok db"
  shows "books_ok db' \<and> orders_ok db'"
proof
  show "books_ok db'" using ledger_step_books [OF assms(1,2)] .
  note f = ledger_step_frame [OF assms(1)]
  have c: "document_count i db' = document_count i db" for i
    using f by (simp add: document_count_def order_documents_def)
  note ok = orders_okD [OF assms(3)]
  show "orders_ok db'"
  proof (rule orders_okI)
    show "oid \<in> o_id ` set (orders db')" if "x \<in> set (expenses db')" "x_order_id x = Some oid" for x oid
      using ledger_step_expenses [OF assms(1) that(1)] that(2) orders_ok_expense [OF assms(3), of x oid] f by auto
    show "o_id ord < next_id db'" if "ord \<in> set (orders db')" for ord using ok(1) [of ord] that f by simp
    show "d_id d < next_id db' \<and> d_order_id d \<in> o_id ` set (orders db') \<and> doc_ok d"
      if "d \<in> set (documents db')" for d using ok(6-8) [of d] that f by simp
  qed (use f c ok(2-5,9) orders_ok_logged [OF assms(3)] in simp_all)
qed

lemma add_option_frame:
  assumes "add_option session key raw db = Inr (n, db')"
  shows "orders db' = orders db \<and> documents db' = documents db \<and> status_events db' = status_events db \<and> same_money db db'"
  using assms by (auto simp: add_option_def same_money_def split: if_splits list.splits)

lemma delete_option_frame:
  assumes "delete_option session key i db = Inr db'"
  shows "orders db' = orders db \<and> documents db' = documents db \<and> status_events db' = status_events db \<and> same_money db db'"
  using assms by (auto simp: delete_option_def same_money_def split: if_splits option.splits)

lemma frame_ok:
  assumes "orders db' = orders db \<and> documents db' = documents db \<and> status_events db' = status_events db \<and> same_money db db'"
    and "books_ok db" and "orders_ok db"
  shows "books_ok db' \<and> orders_ok db'"
proof
  have c: "document_count i db' = document_count i db" for i
    using assms(1) by (simp add: document_count_def order_documents_def)
  show "books_ok db'"
    using books_targets [OF assms(2)] assms(1,2) by (intro books_ok_frame [OF assms(2)]) (simp_all add: books_ok_def)
  show "orders_ok db'"
    by (rule orders_ok_edited [OF assms(3)])
      (use assms(1) c orders_okD(2) [OF assms(3)] orders_ok_counts [OF assms(3)] in \<open>simp_all add: same_money_def\<close>,
       use orders_okD(6-8) [OF assms(3)] in force)
qed

lemma office_step_ok:
  assumes "office_step db db'" and "office_ok db"
  shows "office_ok db'"
proof -
  from assms(2) have ok: "books_ok db" "orders_ok db" by (simp_all add: office_ok_def)
  from assms(1) show ?thesis
    unfolding office_ok_def
  proof (cases rule: office_step.cases)
    case (added session oid item)
    then obtain item' where "add_document session oid item' db = Inr db'" "validate_document_in item = Inr item'"
      by (auto simp: add_order_document_def)
    with ok show "books_ok db' \<and> orders_ok db'" by (blast dest: add_document_ok)
  next
    case (edited session oid did c)
    then show "books_ok db' \<and> orders_ok db'" using ok by (auto simp: update_order_document_def dest: edit_document_ok)
  next
    case (header session oid u)
    then show "books_ok db' \<and> orders_ok db'" using ok by (auto simp: update_order_def dest: edit_order_ok)
  next
    case (option_added session key raw n)
    show "books_ok db' \<and> orders_ok db'" by (rule frame_ok [OF add_option_frame [OF option_added] ok])
  next
    case (option_removed session key i)
    show "books_ok db' \<and> orders_ok db'" by (rule frame_ok [OF delete_option_frame [OF option_removed] ok])
  qed (use ok in \<open>blast dest: create_order_ok delete_order_document_ok save_order_ok change_status_ok delete_order_ok
      ledger_step_ok\<close>)+
qed

lemma office_run_ok: "office_run db db' \<Longrightarrow> office_ok db \<Longrightarrow> office_ok db'"
  by (induction rule: office_run.induct) (auto dest: office_step_ok)

section \<open>The status log\<close>

text \<open>A step that touches neither the log, nor the set of orders, nor the bureau's statuses.\<close>

definition quiet :: "office \<Rightarrow> office \<Rightarrow> bool" where
  "quiet db db' \<longleftrightarrow> status_events db' = status_events db \<and> custom_options db' = custom_options db \<and>
     o_id ` set (orders db') = o_id ` set (orders db) \<and> next_id db \<le> next_id db'"

lemma quiet_trans: "quiet a b \<Longrightarrow> quiet b c \<Longrightarrow> quiet a c"
  by (simp add: quiet_def)

lemma quiet_refl: "quiet a a"
  by (simp add: quiet_def)

lemma edit_order_quiet:
  assumes "edit_order session oid p db = Inr db'"
  shows "quiet db db'"
proof -
  from assms obtain ord ctx where ord: "get_row o_id oid (orders db) = Some ord"
    and db': "db' = log_office session ''order.updated'' ''order'' oid
       (db\<lparr>orders := update_where (\<lambda>r. o_id r = oid) (\<lambda>_. edited_header ctx p ord) (orders db),
           documents := (if required (ou_urgency p) (o_urgency ord) \<noteq> o_urgency ord
             then update_where (\<lambda>d. d_order_id d = oid)
               (reprice ctx (o_urgency ord) (required (ou_urgency p) (o_urgency ord))) (documents db)
             else documents db)\<rparr>)"
    by (rule edit_order_Inr)
  have "map o_id (update_where (\<lambda>r. o_id r = oid) (\<lambda>_. edited_header ctx p ord) rows) = map o_id rows" for rows
    using get_row_SomeD [OF ord] by (induction rows) auto
  then have "o_id ` set (orders db') = o_id ` set (orders db)"
    by (intro set_map_eq) (simp add: db')
  then show ?thesis by (simp add: quiet_def, simp add: db')
qed

lemma document_steps_quiet:
  "add_document session oid item db = Inr db' \<Longrightarrow> quiet db db'"
  "edit_document session oid did u db = Inr db' \<Longrightarrow> quiet db db'"
  "delete_order_document session oid did db = Inr db' \<Longrightarrow> quiet db db'"
  by (auto simp: quiet_def elim!: add_document_Inr edit_document_Inr delete_order_document_Inr)

lemma save_order_quiet:
  assumes "save_order session oid payload db = Inr (ids, db')"
  shows "quiet db db'"
proof -
  from assms obtain p db1 db2 db3 where "validate_order_save payload = Inr p"
    and 1: "(case os_header p of None \<Rightarrow> Inr db | Some h \<Rightarrow> edit_order session oid h db) = Inr db1"
    and 2: "fold_result (add_step session oid) (os_add p) ([], db1) = Inr (ids, db2)"
    and 3: "fold_result (\<lambda>(did, u) s. if u = no_document_change then Inr s
        else edit_document session oid did u s) (os_update p) db2 = Inr db3"
    and 4: "fold_result (delete_order_document session oid) (os_remove p) db3 = Inr db'"
    by (rule save_order_Inr)
  have "quiet db db1" using 1 by (auto simp: quiet_refl dest: edit_order_quiet split: option.splits)
  then have "quiet db (snd (ids, db2))"
    by (intro fold_result_invariant [OF 2, of "\<lambda>s. quiet db (snd s)"])
      (auto simp: add_step_def dest!: document_steps_quiet(1) elim: quiet_trans)
  then have "quiet db db3"
    by (intro fold_result_invariant [OF 3, of "quiet db"]) (auto dest!: document_steps_quiet(2) elim: quiet_trans split: if_splits)
  then show ?thesis
    by (intro fold_result_invariant [OF 4, of "quiet db"]) (auto dest!: document_steps_quiet(3) elim: quiet_trans)
qed

lemma office_step_cases [consumes 1, case_names quiet created status deleted options]:
  assumes "office_step db db'"
  obtains "quiet db db'"
  | session env p n where "create_order session env p db = Inr (n, db')"
  | session now oid raw nt where "change_status session now oid raw nt db = Inr db'"
  | session oid where "delete_order session oid db = Inr db'"
  | "orders db' = orders db" "status_events db' = status_events db" "next_id db \<le> next_id db'"
      "options_ok db \<longrightarrow> options_ok db'"
  using assms
proof (cases rule: office_step.cases)
  case (header session oid u)
  then show ?thesis by (auto simp: update_order_def intro: edit_order_quiet that(1))
next
  case (added session oid item)
  then show ?thesis by (auto simp: add_order_document_def intro: document_steps_quiet(1) that(1))
next
  case (edited session oid did c)
  then show ?thesis by (auto simp: update_order_document_def intro: document_steps_quiet(2) that(1))
next
  case (money_moved)
  then show ?thesis using ledger_step_frame that(1) by (auto simp: quiet_def)
next
  case (option_added session key raw n)
  from add_option_frame [OF this] add_option_ok [OF this] show ?thesis
    by (intro that(5)) (simp_all add: same_money_def)
next
  case (option_removed session key i)
  from delete_option_frame [OF this] delete_option_ok [OF this] show ?thesis
    by (intro that(5)) (simp_all add: same_money_def)
qed (blast intro: that document_steps_quiet(3) save_order_quiet)+

definition history :: "int \<Rightarrow> office \<Rightarrow> status_event list" where
  "history oid db = filter (\<lambda>e. e_order_id e = oid) (status_events db)"

lemma change_status_frame:
  assumes "change_status session now oid raw nt db = Inr db'"
  shows "orders db' = orders db" "documents db' = documents db" "next_id db' = next_id db + 1"
    "custom_options db' = custom_options db"
    "\<exists>st. resolve_status db raw = Inr st \<and> status_events db' = status_events db @
       [\<lparr>e_id = next_id db, e_order_id = oid, e_status = st, e_changed_at = now,
         e_changed_by_user_id = Some (as_user_id session), e_note = nt\<rparr>]"
  using assms by (auto simp: change_status_def Let_def split: option.splits if_splits)

text \<open>An id an order once had is never given out again.\<close>

lemma step_ids:
  assumes "office_step db db'" and "orders_ok db"
  shows "next_id db \<le> next_id db'" "oid \<in> o_id ` set (orders db') \<Longrightarrow> oid \<in> o_id ` set (orders db) \<or> next_id db \<le> oid"
proof -
  show "next_id db \<le> next_id db'" using assms(1)
  proof (cases rule: office_step_cases)
    case (status session now oid raw nt)
    then show ?thesis using change_status_frame(3) by simp
  qed (auto simp: quiet_def elim!: create_order_Inr delete_order_Inr)
  show "oid \<in> o_id ` set (orders db) \<or> next_id db \<le> oid" if "oid \<in> o_id ` set (orders db')"
    using assms(1)
  proof (cases rule: office_step_cases)
    case (status session now oid raw nt)
    with that show ?thesis using change_status_frame(1) by simp
  next
    case (created session env p n)
    then have "\<exists>ord. o_id ord = next_id db \<and> orders db' = orders db @ [ord]"
      by (elim create_order_Inr) auto
    with that show ?thesis by auto
  next
    case (deleted session oid)
    then have "set (orders db') \<subseteq> set (orders db)" by (elim delete_order_Inr) auto
    with that show ?thesis by blast
  qed (use that in \<open>simp_all add: quiet_def\<close>)
qed

text \<open>One step of one order's log: new entries only, each the initial status or a resolved one.\<close>

lemma step_events:
  assumes "office_step db db'" and "e \<in> set (status_events db')"
  shows "e \<in> set (status_events db) \<or> e_status e = INITIAL_STATUS \<or> (\<exists>raw. resolve_status db raw = Inr (e_status e))"
  using assms(1)
proof (cases rule: office_step_cases)
  case (status session now oid raw nt)
  with assms(2) show ?thesis using change_status_frame(5) by fastforce
next
  case (created session env p n)
  then have "\<exists>x. e_status x = INITIAL_STATUS \<and> status_events db' = status_events db @ [x]"
    by (elim create_order_Inr) auto
  with assms(2) show ?thesis by auto
next
  case (deleted session oid)
  then have "set (status_events db') \<subseteq> set (status_events db)" by (elim delete_order_Inr) auto
  with assms(2) show ?thesis by blast
qed (use assms(2) in \<open>simp_all add: quiet_def\<close>)

lemma step_history:
  assumes "office_step db db'" and "oid \<in> o_id ` set (orders db)" and "oid \<in> o_id ` set (orders db')"
  shows "\<exists>new. history oid db' = history oid db @ new"
  using assms(1)
proof (cases rule: office_step_cases)
  case (status session now i raw nt)
  then show ?thesis using change_status_frame(5) by (fastforce simp: history_def)
next
  case (created session env p n)
  then have "\<exists>x. status_events db' = status_events db @ [x]" by (elim create_order_Inr) auto
  then show ?thesis by (auto simp: history_def)
next
  case (deleted session i)
  with assms(3) have "i \<noteq> oid" by (elim delete_order_Inr) auto
  with deleted have "history oid db' = history oid db"
    by (elim delete_order_Inr) (auto simp: history_def intro!: filter_cong)
  then show ?thesis by simp
qed (simp_all add: quiet_def history_def)

lemma step_options: "office_step db db' \<Longrightarrow> options_ok db \<Longrightarrow> options_ok db'"
  by (cases rule: office_step_cases, assumption)
    (auto simp: quiet_def options_ok_def change_status_frame(4) elim!: create_order_Inr delete_order_Inr)

text \<open>No entry of the log takes an order out of the figures, read raw or normalised.\<close>

definition statuses_count :: "office \<Rightarrow> bool" where
  "statuses_count db \<longleftrightarrow> (\<forall>e \<in> set (status_events db).
     normalise (Some (e_status e)) \<notin> EXCLUDED_FROM_AGGREGATES \<and> e_status e \<notin> EXCLUDED_FROM_AGGREGATES)"

lemma initial_counts:
  "normalise (Some INITIAL_STATUS) \<notin> EXCLUDED_FROM_AGGREGATES" "INITIAL_STATUS \<notin> EXCLUDED_FROM_AGGREGATES"
  by (simp_all add: INITIAL_STATUS_def EXCLUDED_FROM_AGGREGATES_def normalise_def or_blank_def strip_def is_space_def
      lower_def lower_char_def)

lemma step_statuses:
  assumes "office_step db db'" and "options_ok db" and "statuses_count db"
  shows "statuses_count db'"
  unfolding statuses_count_def
proof
  fix e assume "e \<in> set (status_events db')"
  with step_events [OF assms(1) this] assms(3) initial_counts resolved_status_counts [OF _ assms(2)]
  show "normalise (Some (e_status e)) \<notin> EXCLUDED_FROM_AGGREGATES \<and> e_status e \<notin> EXCLUDED_FROM_AGGREGATES"
    by (auto simp: statuses_count_def)
qed

text \<open>A status that would take an order out of the figures resolves to nothing.\<close>

lemma excluded_refused:
  assumes "options_ok db" and raw: "normalise (Some raw) \<in> EXCLUDED_FROM_AGGREGATES"
  shows "\<exists>e. change_status session now oid raw nt db = Inl e"
proof -
  have "resolve_status db raw \<noteq> Inr st" for st
  proof
    assume st: "resolve_status db raw = Inr st"
    have "\<not> is_selectable (Some raw)" using selectable_counts raw by (auto simp: is_selectable_def)
    with st obtain c where c: "c \<in> set (custom_options db)" "co_list_key c = ORDER_STATUS"
        "lower (co_value c) = lower (strip raw)" "st = co_value c"
      by (auto simp: resolve_status_def split: option.splits dest!: find_SomeD)
    then have "normalise (Some (co_value c)) = normalise (Some raw)"
      by (simp add: normalise_def or_blank_def strip_lower [symmetric])
    with raw resolved_status_counts(1) [OF st assms(1)] c(4) show False by simp
  qed
  then show ?thesis
    by (cases "change_status session now oid raw nt db") (auto elim!: change_status_Inr)
qed

lemma counted_live: "statuses_count db \<Longrightarrow> ord \<in> set (orders db) \<Longrightarrow> is_live db (o_id ord)"
  using latest_event_mem [of "o_id ord" "status_events db"]
  by (auto simp: is_live_def latest_status_def statuses_count_def or_blank_def EXCLUDED_FROM_AGGREGATES_def
      split: option.split)

section \<open>Properties\<close>

text \<open>Whatever the office does, its rows fit together. From a consistent start, through any sequence of
  requests to create, edit, save, restatus and delete orders and to record and undo money, in
  any order: every order has between one and fifty documents, a client and a status; every
  document, event, allocation and expense belongs to an order that exists; order numbers are
  unique; an interpreting line has no document type, copy type or notary, a written one has a
  type and no place, only a notarised one has a notary; every amount is whole tetri; and the
  ledgers stay consistent.\<close>

lemma office_run_keeps_orders:
  assumes "office_run db db'" and "office_ok db"
  shows "office_ok db'"
  using assms by (rule office_run_ok)

text \<open>C27: a status change takes effect at once and on its own order only. Accepted at an instant later than
  every status change of that order so far, it becomes the order's latest status, as the bureau spells
  it; the change is one entry at the end of the log; every other order's latest status, and every
  order, document, client, payment, allocation and expense stay as they were.\<close>

theorem status_change_takes_effect:
  assumes "change_status session now oid raw nt db = Inr db'"
    and "\<forall>e \<in> set (status_events db). e_order_id e = oid \<longrightarrow> e_changed_at e < now"
  shows "(\<exists>st. resolve_status db raw = Inr st \<and> latest_status oid db' = Some st) \<and>
     (\<exists>e. status_events db' = status_events db @ [e] \<and> e_order_id e = oid \<and> e_changed_at e = now \<and> e_note e = nt) \<and>
     (\<forall>i. i \<noteq> oid \<longrightarrow> latest_status i db' = latest_status i db) \<and>
     documents db' = documents db \<and> orders db' = orders db \<and> clients db' = clients db \<and>
     client_payments db' = client_payments db \<and> client_allocations db' = client_allocations db \<and>
     client_refunds db' = client_refunds db \<and> translator_payments db' = translator_payments db \<and>
     translator_allocations db' = translator_allocations db \<and> notary_payments db' = notary_payments db \<and>
     notary_allocations db' = notary_allocations db \<and> expenses db' = expenses db"
proof -
  from change_status_frame(5) [OF assms(1)] obtain st where st: "resolve_status db raw = Inr st"
    "status_events db' = status_events db @
       [\<lparr>e_id = next_id db, e_order_id = oid, e_status = st, e_changed_at = now,
         e_changed_by_user_id = Some (as_user_id session), e_note = nt\<rparr>]" by blast
  have "e_changed_at b < now" if "latest_event oid (status_events db) = Some b" for b
    using latest_event_mem [OF that] assms(2) by blast
  then have "latest_status oid db' = Some st"
    by (force simp: latest_status_def st(2) latest_event_append later_event_def split: option.split)
  moreover have "clients db' = clients db \<and> client_payments db' = client_payments db \<and>
      client_allocations db' = client_allocations db \<and>
      client_refunds db' = client_refunds db \<and> translator_payments db' = translator_payments db \<and>
      translator_allocations db' = translator_allocations db \<and> notary_payments db' = notary_payments db \<and>
      notary_allocations db' = notary_allocations db \<and> expenses db' = expenses db"
    using assms(1) by (auto simp: change_status_def Let_def split: option.splits if_splits)
  ultimately show ?thesis
    using st change_status_frame(1,2) [OF assms(1)] latest_status_other [OF st(2)] by auto
qed

section \<open>Witnesses\<close>

lemma ex_office_ok: "office_ok ex_office"
proof -
  have "doc_ok ex_document" by (simp add: doc_ok_def ex_document_def)
  then have "orders_ok ex_office"
    by (simp add: orders_ok_def ex_office_def ex_order_def ex_client_def ex_event_def document_count_def
        order_documents_def MAX_DOCUMENTS_def) (simp add: ex_document_def)
  with ex_books show ?thesis by (simp add: office_ok_def)
qed

lemma ex_statuses: "options_ok ex_office" "statuses_count ex_office" "4 \<in> o_id ` set (orders ex_office)"
  by (simp_all add: options_ok_def statuses_count_def ex_office_defs EXCLUDED_FROM_AGGREGATES_def normalise_def
      or_blank_def strip_def is_space_def lower_def lower_char_def)

lemma ex_confirm: "\<exists>db'. change_status ex_caller 2000 4 '' confirmed'' None ex_office = Inr db' \<and>
    4 \<in> o_id ` set (orders db')"
proof -
  have "resolve_status ex_office '' confirmed'' = Inr ''confirmed''"
    by (simp add: resolve_status_def is_selectable_def normalise_def or_blank_def strip_def is_space_def
        lower_def lower_char_def SELECTABLE_STATUSES_def)
  then show ?thesis
    by (simp add: change_status_def validate_status_change_def at_most_def ex_office_def ex_order_def Let_def)
qed

theorem status_change_takes_effect_witness:
  "\<exists>db' st. change_status ex_caller 2000 4 '' confirmed'' None ex_office = Inr db' \<and>
     resolve_status ex_office '' confirmed'' = Inr st \<and> latest_status 4 db' = Some st \<and> expenses db' = expenses ex_office"
proof -
  from ex_confirm obtain db' where run: "change_status ex_caller 2000 4 '' confirmed'' None ex_office = Inr db'" by blast
  have "\<forall>e \<in> set (status_events ex_office). e_order_id e = 4 \<longrightarrow> e_changed_at e < 2000" by (simp add: ex_office_defs)
  from status_change_takes_effect [OF run this] run show ?thesis by blast
qed

end
