(* ===== verification/Directories.thy ===== *)
theory Directories
  imports OrderHistory SignIn "HOL-Library.Sublist"
begin

text \<open>
  The three directories of a bureau: clients, translators and notaries (\<^verbatim>\<open>api/v1/clients.py\<close>,
  \<^verbatim>\<open>api/v1/translators.py\<close>, \<^verbatim>\<open>api/v1/notaries.py\<close>, \<^verbatim>\<open>api/v1/_shared.py\<close>,
  \<^verbatim>\<open>domain/translator_pairs.py\<close>, \<^verbatim>\<open>domain/cities.py\<close>). They are tables of the bureau's state of
  theory Office, so what a deletion does to orders and money is part of the model: the foreign keys
  refuse it, or clear the reference. Handlers stand behind the gate of theory Sessions. The
  database's collation is the argument \<open>name_order\<close>.
\<close>

section \<open>Searching text\<close>

definition LIKE_ESCAPE :: char where "LIKE_ESCAPE = CHR 0x5C"

definition replace_char :: "char \<Rightarrow> string \<Rightarrow> string \<Rightarrow> string" where
  "replace_char c new s = concat (map (\<lambda>d. if d = c then new else [d]) s)"

definition like_pattern :: "string \<Rightarrow> string" where
  "like_pattern search =
     CHR ''%'' # replace_char (CHR ''_'') [LIKE_ESCAPE, CHR ''_'']
       (replace_char (CHR ''%'') [LIKE_ESCAPE, CHR ''%'']
         (replace_char LIKE_ESCAPE [LIKE_ESCAPE, LIKE_ESCAPE] (strip search))) @ ''%''"

text \<open>
  SQL's \<^verbatim>\<open>LIKE\<close>: a percent sign stands for any text, an underscore for any one character, the
  backslash takes the next character literally. A pattern that ends in a backslash is an error the
  code's patterns, which all end in a percent sign, cannot cause.
\<close>

fun sql_like :: "string \<Rightarrow> string \<Rightarrow> bool" where
  "sql_like [] t \<longleftrightarrow> t = []"
| "sql_like (c # p) t \<longleftrightarrow>
     (if c = CHR ''%'' then list_ex (\<lambda>k. sql_like p (drop k t)) [0..<Suc (length t)]
      else if c = LIKE_ESCAPE
        then (case p of [] \<Rightarrow> False | e # q \<Rightarrow> (case t of [] \<Rightarrow> False | d # u \<Rightarrow> e = d \<and> sql_like q u))
      else (case t of [] \<Rightarrow> False | d # u \<Rightarrow> (c = CHR ''_'' \<or> c = d) \<and> sql_like p u))"

text \<open>\<^verbatim>\<open>ILIKE\<close> on a column that may be null.\<close>

definition ilike :: "string option \<Rightarrow> string \<Rightarrow> bool" where
  "ilike column pattern \<longleftrightarrow> (case column of None \<Rightarrow> False | Some t \<Rightarrow> sql_like (lower pattern) (lower t))"

definition digits_of :: "string \<Rightarrow> string" where
  "digits_of value = filter is_digit value"

definition phone_digits :: "string option \<Rightarrow> string option" where
  "phone_digits column = map_option (fold (\<lambda>c. replace_char c []) '' -()+.'') column"

definition has_digits :: "string option \<Rightarrow> string \<Rightarrow> bool" where
  "has_digits column pattern \<longleftrightarrow>
     (case phone_digits column of None \<Rightarrow> False | Some t \<Rightarrow> sql_like pattern t)"

definition all_digits :: "string \<Rightarrow> bool" where
  "all_digits s \<longleftrightarrow> s \<noteq> [] \<and> list_all is_digit s"

section \<open>Lists\<close>

datatype order_by = By_name | By_id

record list_query =
  lq_search :: "string option"
  lq_by :: order_by
  lq_descending :: bool
  lq_limit :: nat
  lq_offset :: nat

record 'a page =
  pg_items :: "'a list"
  pg_total :: nat

definition page_ok :: "string option \<Rightarrow> nat \<Rightarrow> bool" where
  "page_ok search limit \<longleftrightarrow> optional (text_ok 0 255) search \<and> 1 \<le> limit \<and> limit \<le> 200"

definition page_of :: "nat \<Rightarrow> nat \<Rightarrow> ('r \<Rightarrow> 'a) \<Rightarrow> 'r list \<Rightarrow> 'a page" where
  "page_of limit offset out rows = \<lparr>pg_items = map out (take limit (drop offset rows)), pg_total = length rows\<rparr>"

text \<open>The bullet of a masked value is written as character 149.\<close>

definition BULLET :: char where "BULLET = CHR 0x95"

definition mask_tail :: "string option \<Rightarrow> string option" where
  "mask_tail v =
     (let s = or_blank v in
      if s = [] then None
      else if length s \<le> 4 then Some (replicate (length s) BULLET)
      else Some (replicate (length s - 4) BULLET @ drop (length s - 4) s))"

definition mask_personal_number :: "string option \<Rightarrow> string option" where
  "mask_personal_number v =
     (let s = or_blank v in
      if s = [] then None
      else if length s \<le> 4 then Some (replicate (length s) BULLET)
      else Some (replicate (length s - 4) BULLET @ drop (length s - 4) s))"

section \<open>Clients\<close>

record client_summary =
  cs_id :: int
  cs_number :: int
  cs_name :: string
  cs_client_type :: client_type
  cs_email :: "string option"
  cs_phone :: "string option"
  cs_personal_number_masked :: "string option"

record client_detail = client_summary +
  cd_address :: "string option"
  cd_acquisition_source :: "string option"
  cd_notes :: "string option"

definition to_summary :: "client \<Rightarrow> client_summary" where
  "to_summary c = \<lparr>cs_id = cl_id c, cs_number = cl_number c, cs_name = cl_name c, cs_client_type = cl_client_type c,
     cs_email = cl_email c, cs_phone = cl_phone c, cs_personal_number_masked = mask_personal_number (cl_personal_number c)\<rparr>"

definition to_detail :: "client \<Rightarrow> client_detail" where
  "to_detail c = \<lparr>cs_id = cl_id c, cs_number = cl_number c, cs_name = cl_name c, cs_client_type = cl_client_type c,
     cs_email = cl_email c, cs_phone = cl_phone c, cs_personal_number_masked = mask_personal_number (cl_personal_number c),
     cd_address = cl_address c, cd_acquisition_source = cl_acquisition_source c, cd_notes = cl_notes c\<rparr>"

definition client_matches :: "string \<Rightarrow> client \<Rightarrow> bool" where
  "client_matches search c \<longleftrightarrow>
     (let pattern = like_pattern search; digits = digits_of search; bare = strip search
      in ilike (Some (cl_name c)) pattern \<or> ilike (cl_email c) pattern \<or> ilike (cl_phone c) pattern \<or>
         ilike (cl_personal_number c) pattern \<or>
         (4 \<le> length digits \<and> has_digits (cl_phone c) (CHR ''%'' # digits @ ''%'')) \<or>
         (all_digits bare \<and> length bare \<le> 9 \<and> cl_number c = read_nat bare))"

definition clients_listed :: "(string \<Rightarrow> int) \<Rightarrow> list_query \<Rightarrow> client_type option \<Rightarrow> office \<Rightarrow> client list" where
  "clients_listed name_order q kind db =
     (let rows = filter (\<lambda>c. (strip (or_blank (lq_search q)) = [] \<or> client_matches (or_blank (lq_search q)) c) \<and>
            (case kind of None \<Rightarrow> True | Some k \<Rightarrow> cl_client_type c = k)) (clients db);
          key = (\<lambda>c. (if lq_by q = By_name then name_order (cl_name c) else cl_id c, cl_id c));
          down = (\<lambda>c. case key c of (n, i) \<Rightarrow> (- n, - i))
      in sort_key (if lq_descending q then down else key) rows)"

definition list_clients :: "(string \<Rightarrow> int) \<Rightarrow> list_query \<Rightarrow> client_type option \<Rightarrow> office \<Rightarrow> client_summary page result" where
  "list_clients name_order q kind db =
     (if \<not> page_ok (lq_search q) (lq_limit q) then Inl invalid_payload
      else Inr (page_of (lq_limit q) (lq_offset q) to_summary (clients_listed name_order q kind db)))"

text \<open>The warning that a client may already be there: which of the details given are theirs too.\<close>

record possible_duplicate =
  pd_id :: int
  pd_number :: int
  pd_name :: string
  pd_client_type :: client_type
  pd_matched_on :: "string list"

definition last_nine :: "string \<Rightarrow> string" where
  "last_nine s = drop (length s - 9) s"

definition duplicate_checks ::
    "string option \<Rightarrow> string option \<Rightarrow> string option \<Rightarrow> (client \<Rightarrow> bool) list" where
  "duplicate_checks phone email personal_number =
     (let digits = digits_of (or_blank phone) in
      (if 6 \<le> length digits then [\<lambda>c. has_digits (cl_phone c) (CHR ''%'' # last_nine digits)] else []) @
      (if strip (or_blank email) \<noteq> [] then [\<lambda>c. map_option lower (cl_email c) = Some (lower (strip (or_blank email)))] else []) @
      (if strip (or_blank personal_number) \<noteq> [] then [\<lambda>c. cl_personal_number c = Some (strip (or_blank personal_number))] else []))"

definition matched_on :: "string option \<Rightarrow> string option \<Rightarrow> string option \<Rightarrow> client \<Rightarrow> string list" where
  "matched_on phone email personal_number c =
     (let digits = digits_of (or_blank phone) in
      (if 6 \<le> length digits \<and> suffix (last_nine digits) (digits_of (or_blank (cl_phone c))) then [''phone''] else []) @
      (if or_blank email \<noteq> [] \<and> lower (or_blank (cl_email c)) = lower (strip (or_blank email)) then [''email''] else []) @
      (if or_blank personal_number \<noteq> [] \<and> cl_personal_number c = Some (strip (or_blank personal_number))
       then [''personal_number''] else []))"

definition possible_duplicates ::
    "string option \<Rightarrow> string option \<Rightarrow> string option \<Rightarrow> int option \<Rightarrow> office \<Rightarrow> possible_duplicate list result" where
  "possible_duplicates phone email personal_number exclude_id db =
     (if \<not> (optional (text_ok 0 50) phone \<and> optional (text_ok 0 255) email \<and> optional (text_ok 0 50) personal_number)
      then Inl invalid_payload
      else let checks = duplicate_checks phone email personal_number
           in if checks = [] then Inr []
              else Inr (map (\<lambda>c. \<lparr>pd_id = cl_id c, pd_number = cl_number c, pd_name = cl_name c,
                       pd_client_type = cl_client_type c, pd_matched_on = matched_on phone email personal_number c\<rparr>)
                (take 10 (sort_key cl_id
                  (filter (\<lambda>c. list_ex (\<lambda>check. check c) checks \<and> exclude_id \<noteq> Some (cl_id c)) (clients db))))))"

definition get_client :: "int \<Rightarrow> office \<Rightarrow> client_detail result" where
  "get_client i db = (case get_row cl_id i (clients db) of
     None \<Rightarrow> Inl (NotFoundError ''Client not found.'') | Some c \<Rightarrow> Inr (to_detail c))"

record client_create =
  cc_name :: string
  cc_client_type :: client_type
  cc_email :: "string option"
  cc_phone :: "string option"
  cc_address :: "string option"
  cc_acquisition_source :: "string option"
  cc_notes :: "string option"
  cc_personal_number :: "string option"

definition client_create_ok :: "client_create \<Rightarrow> bool" where
  "client_create_ok p \<longleftrightarrow> text_ok 1 255 (cc_name p) \<and> optional (text_ok 0 50) (cc_phone p) \<and>
     optional (text_ok 0 500) (cc_address p) \<and> optional (text_ok 0 255) (cc_acquisition_source p) \<and>
     optional (text_ok 0 50) (cc_personal_number p)"

definition next_client_number :: "office \<Rightarrow> int" where
  "next_client_number db = fold max (map cl_number (clients db)) 0 + 1"

definition create_client :: "auth_session \<Rightarrow> client_create \<Rightarrow> office \<Rightarrow> (client_detail \<times> office) result" where
  "create_client session p db =
     (if \<not> client_create_ok p then Inl invalid_payload
      else let c = \<lparr>cl_id = next_id db, cl_name = cc_name p, cl_phone = cc_phone p, cl_number = next_client_number db,
                    cl_client_type = cc_client_type p, cl_email = cc_email p, cl_address = cc_address p,
                    cl_personal_number = cc_personal_number p, cl_acquisition_source = cc_acquisition_source p,
                    cl_notes = cc_notes p\<rparr>
           in Inr (to_detail c, log_office session ''client.created'' ''client'' (cl_id c)
                (db\<lparr>next_id := next_id db + 1, clients := clients db @ [c]\<rparr>)))"

text \<open>An edit: a field left out stays, a field sent as null clears its column, which two columns refuse.\<close>

record client_update =
  cu_name :: "string option option"
  cu_client_type :: "client_type option option"
  cu_email :: "string option option"
  cu_phone :: "string option option"
  cu_address :: "string option option"
  cu_personal_number :: "string option option"
  cu_acquisition_source :: "string option option"
  cu_notes :: "string option option"

definition client_update_ok :: "client_update \<Rightarrow> bool" where
  "client_update_ok p \<longleftrightarrow> optional (optional (text_ok 1 255)) (cu_name p) \<and> optional (optional (text_ok 0 50)) (cu_phone p) \<and>
     optional (optional (text_ok 0 500)) (cu_address p) \<and> optional (optional (text_ok 0 255)) (cu_acquisition_source p) \<and>
     optional (optional (text_ok 0 50)) (cu_personal_number p)"

definition apply_client_update :: "client_update \<Rightarrow> client \<Rightarrow> client" where
  "apply_client_update p c = c\<lparr>cl_name := required (cu_name p) (cl_name c),
     cl_client_type := required (cu_client_type p) (cl_client_type c), cl_email := or_else (cu_email p) (cl_email c),
     cl_phone := or_else (cu_phone p) (cl_phone c), cl_address := or_else (cu_address p) (cl_address c),
     cl_personal_number := or_else (cu_personal_number p) (cl_personal_number c),
     cl_acquisition_source := or_else (cu_acquisition_source p) (cl_acquisition_source c),
     cl_notes := or_else (cu_notes p) (cl_notes c)\<rparr>"

definition update_client :: "auth_session \<Rightarrow> int \<Rightarrow> client_update \<Rightarrow> office \<Rightarrow> (client_detail \<times> office) result" where
  "update_client session i p db =
     (if \<not> client_update_ok p then Inl invalid_payload
      else case get_row cl_id i (clients db) of
        None \<Rightarrow> Inl (NotFoundError ''Client not found.'')
      | Some c \<Rightarrow>
          if cu_name p = Some None \<or> cu_client_type p = Some None then Inl (IntegrityError ''clients'')
          else Inr (to_detail (apply_client_update p c), log_office session ''client.updated'' ''client'' i
            (db\<lparr>clients := update_where (\<lambda>r. cl_id r = i) (apply_client_update p) (clients db)\<rparr>)))"

text \<open>A client with orders or payments is kept by the foreign keys of those.\<close>

definition delete_client :: "auth_session \<Rightarrow> int \<Rightarrow> office \<Rightarrow> office result" where
  "delete_client session i db =
     (case get_row cl_id i (clients db) of
        None \<Rightarrow> Inl (NotFoundError ''Client not found.'')
      | Some _ \<Rightarrow>
          if i \<in> o_client_id ` set (orders db) \<or> i \<in> l_party ` set (client_payments db) then Inl (IntegrityError ''clients'')
          else Inr (log_office session ''client.deleted'' ''client'' i
            (db\<lparr>clients := filter (\<lambda>r. cl_id r \<noteq> i) (clients db)\<rparr>)))"

section \<open>Translators\<close>

subsection \<open>Cities\<close>

definition CITIES :: "string list" where
  "CITIES = [''tbilisi'', ''batumi'', ''kutaisi'', ''rustavi'', ''gori'', ''zugdidi'', ''poti'', ''telavi'',
     ''akhaltsikhe'', ''ozurgeti'', ''kobuleti'', ''mtskheta'', ''sighnaghi'', ''borjomi'', ''marneuli'',
     ''gardabani'', ''samtredia'', ''senaki'', ''khashuri'', ''sachkhere'']"

fun join_with :: "char \<Rightarrow> string list \<Rightarrow> string" where
  "join_with sep [] = []"
| "join_with sep [x] = x"
| "join_with sep (x # y # xs) = x @ sep # join_with sep (y # xs)"

definition pack :: "string list \<Rightarrow> string option" where
  "pack codes = (if codes = [] then None else Some (CHR '','' # join_with (CHR '','') codes @ '',''))"

definition unpack :: "string option \<Rightarrow> string list" where
  "unpack stored = filter (\<lambda>c. c \<noteq> []) (split_on (CHR '','') (or_blank stored))"

text \<open>\<^verbatim>\<open>list(dict.fromkeys(xs))\<close>: each once, where it first stands.\<close>

definition once_each :: "'a list \<Rightarrow> 'a list" where
  "once_each xs = fold (\<lambda>x seen. if x \<in> set seen then seen else seen @ [x]) xs []"

definition valid_cities :: "string list \<Rightarrow> string list result" where
  "valid_cities cities =
     (let cleaned = map (\<lambda>c. lower (strip c)) cities
      in if set cleaned \<subseteq> set CITIES then Inr (once_each cleaned) else Inl invalid_payload)"

subsection \<open>Language pairs\<close>

record pair_in =
  pr_source :: string
  pr_target :: string
  pr_rate :: "rat option"
  pr_one_way :: bool

definition rate_field :: "rat \<Rightarrow> bool" where
  "rate_field x \<longleftrightarrow> 0 \<le> x \<and> x \<le> 100000"

definition clean_pair :: "pair_in \<Rightarrow> pair_in result" where
  "clean_pair p =
     (let p' = p\<lparr>pr_source := lower (strip (pr_source p)), pr_target := lower (strip (pr_target p))\<rparr>
      in if \<not> (text_ok 2 5 (pr_source p) \<and> text_ok 2 5 (pr_target p) \<and> optional rate_field (pr_rate p)) then Inl invalid_payload
         else if pr_source p' = pr_target p' then Inl invalid_payload
         else Inr p')"

text \<open>
  A \<^verbatim>\<open>NUMERIC\<close> column with \<open>n\<close> decimals rounds what is not negative half up. The row in memory, which the
  answer is made from, keeps what was sent; the table has what the column holds.
\<close>

definition numeric :: "nat \<Rightarrow> rat \<Rightarrow> rat" where
  "numeric n x = of_int \<lfloor>x * 10 ^ n + 1 / 2\<rfloor> / 10 ^ n"

definition direction :: "pair_in \<Rightarrow> string \<times> string" where
  "direction p = (pr_source p, pr_target p)"

definition unique_pairs :: "pair_in list \<Rightarrow> pair_in list result" where
  "unique_pairs pairs = (if distinct (map direction pairs) then Inr pairs else Inl invalid_payload)"

text \<open>What is stored for the pairs listed: each, and after it its reverse unless it is one way or listed too.\<close>

definition both_ways_step ::
    "pair_in \<Rightarrow> (string \<times> string) set \<times> (string \<times> string \<times> rat option) list
       \<Rightarrow> (string \<times> string) set \<times> (string \<times> string \<times> rat option) list" where
  "both_ways_step p state =
     (case state of (explicit, stored) \<Rightarrow>
        let back = (pr_target p, pr_source p); here = stored @ [(pr_source p, pr_target p, pr_rate p)]
        in if \<not> pr_one_way p \<and> back \<notin> explicit
           then (insert back explicit, here @ [(pr_target p, pr_source p, None)])
           else (explicit, here))"

definition both_ways :: "pair_in list \<Rightarrow> (string \<times> string \<times> rat option) list" where
  "both_ways listed = snd (fold both_ways_step listed (set (map direction listed), []))"

definition pair_rows :: "int \<Rightarrow> int \<Rightarrow> (string \<times> string \<times> rat option) list \<Rightarrow> translator_pair list" where
  "pair_rows i first stored =
     map (\<lambda>(k, s, t, r). \<lparr>tp_id = first + int k, tp_translator_id = i, tp_source_language = s, tp_target_language = t,
        tp_rate_per_page = r\<rparr>) (enumerate 0 stored)"

definition replace_pairs :: "int \<Rightarrow> pair_in list \<Rightarrow> office \<Rightarrow> office result" where
  "replace_pairs i pairs db =
     (if \<not> set (map pr_source pairs) \<union> set (map pr_target pairs) \<subseteq> la_code ` set (languages db)
      then Inl (ValidationError ''Not one of your languages. Add it under Settings first.'')
      else let stored = both_ways pairs
           in Inr (db\<lparr>next_id := next_id db + int (length stored),
                translator_pairs := filter (\<lambda>r. tp_translator_id r \<noteq> i) (translator_pairs db) @
                  pair_rows i (next_id db) stored\<rparr>))"

text \<open>What the columns make of a translator's rates.\<close>

definition rates_to_columns :: "int \<Rightarrow> office \<Rightarrow> office" where
  "rates_to_columns i db = db\<lparr>
     translators := update_where (\<lambda>t. tr_id t = i)
       (\<lambda>t. t\<lparr>tr_default_rate := map_option (numeric 2) (tr_default_rate t)\<rparr>) (translators db),
     translator_pairs := update_where (\<lambda>p. tp_translator_id p = i)
       (\<lambda>p. p\<lparr>tp_rate_per_page := map_option (numeric 2) (tp_rate_per_page p)\<rparr>) (translator_pairs db)\<rparr>"

definition pairs_of :: "int \<Rightarrow> office \<Rightarrow> translator_pair list" where
  "pairs_of i db = sort_key tp_id (filter (\<lambda>r. tp_translator_id r = i) (translator_pairs db))"

subsection \<open>What the screens show\<close>

definition has_portal_account :: "translator \<Rightarrow> bool" where
  "has_portal_account t \<longleftrightarrow> or_blank (tr_portal_username t) \<noteq> [] \<and> or_blank (tr_portal_password_hash t) \<noteq> []"

record translator_summary =
  tsm_id :: int
  tsm_name :: string
  tsm_phone :: "string option"
  tsm_email :: "string option"
  tsm_is_active :: bool
  tsm_has_portal_account :: bool
  tsm_bank_iban_masked :: "string option"
  tsm_default_rate :: "rat option"
  tsm_can_notarize :: bool
  tsm_works_written :: bool
  tsm_works_oral :: bool
  tsm_cities :: "string list"
  tsm_language_pairs :: "(string \<times> string \<times> rat option) list"

record translator_detail = translator_summary +
  tdt_office_address :: "string option"
  tdt_comment :: "string option"
  tdt_experience_from :: "date option"
  tdt_bank_inn :: "string option"
  tdt_bank_code :: "string option"
  tdt_portal_username :: "string option"

definition pair_out :: "translator_pair \<Rightarrow> string \<times> string \<times> rat option" where
  "pair_out p = (tp_source_language p, tp_target_language p, tp_rate_per_page p)"

definition translator_summary_of :: "office \<Rightarrow> translator \<Rightarrow> translator_summary" where
  "translator_summary_of db t =
     \<lparr>tsm_id = tr_id t, tsm_name = tr_name t, tsm_phone = tr_phone t, tsm_email = tr_email t, tsm_is_active = tr_is_active t,
      tsm_has_portal_account = has_portal_account t, tsm_bank_iban_masked = mask_tail (tr_bank_iban t),
      tsm_default_rate = tr_default_rate t, tsm_can_notarize = tr_can_notarize t, tsm_works_written = tr_works_written t,
      tsm_works_oral = tr_works_oral t, tsm_cities = unpack (tr_cities t),
      tsm_language_pairs = map pair_out (pairs_of (tr_id t) db)\<rparr>"

definition translator_detail_of :: "office \<Rightarrow> translator \<Rightarrow> translator_detail" where
  "translator_detail_of db t = translator_summary.extend (translator_summary_of db t)
     (translator_detail.fields (tr_office_address t) (tr_comment t) (tr_experience_from t) (tr_bank_inn t)
        (tr_bank_code t) (tr_portal_username t))"

datatype work_filter = Written_work | Oral_work | Both_kinds

text \<open>The pattern is not escaped here, and rows of one name come in whatever order the planner finds
  them: \<open>plan\<close> is that order.\<close>

definition translators_listed ::
    "(string \<Rightarrow> int) \<Rightarrow> (translator list \<Rightarrow> translator list) \<Rightarrow> list_query \<Rightarrow> bool option \<Rightarrow> string option
     \<Rightarrow> string option \<Rightarrow> work_filter option \<Rightarrow> office \<Rightarrow> translator list" where
  "translators_listed name_order plan q active language city work db =
     (let typed = or_blank (lq_search q); pattern = CHR ''%'' # typed @ ''%'';
          code = lower (strip (or_blank language)); place = lower (strip (or_blank city));
          rows = filter (\<lambda>t.
            (typed = [] \<or> ilike (Some (tr_name t)) pattern \<or> ilike (tr_email t) pattern \<or> ilike (tr_phone t) pattern) \<and>
            (case active of None \<Rightarrow> True | Some a \<Rightarrow> tr_is_active t = a) \<and>
            (code = [] \<or> (\<exists>p \<in> set (translator_pairs db). tp_translator_id p = tr_id t \<and>
               (tp_source_language p = code \<or> tp_target_language p = code))) \<and>
            (place = [] \<or> (case tr_cities t of None \<Rightarrow> False | Some c \<Rightarrow> sql_like (''%,'' @ place @ '',%'') c)) \<and>
            (work \<in> {Some Written_work, Some Both_kinds} \<longrightarrow> tr_works_written t) \<and>
            (work \<in> {Some Oral_work, Some Both_kinds} \<longrightarrow> tr_works_oral t)) (translators db);
          key = (\<lambda>t. if lq_by q = By_name then name_order (tr_name t) else tr_id t)
      in sort_key (if lq_descending q then (\<lambda>t. - key t) else key) (plan rows))"

definition list_translators ::
    "(string \<Rightarrow> int) \<Rightarrow> (translator list \<Rightarrow> translator list) \<Rightarrow> list_query \<Rightarrow> bool option \<Rightarrow> string option
     \<Rightarrow> string option \<Rightarrow> work_filter option \<Rightarrow> office \<Rightarrow> translator_summary page result" where
  "list_translators name_order plan q active language city work db =
     (if \<not> (page_ok (lq_search q) (lq_limit q) \<and> optional (text_ok 0 5) language \<and> optional (text_ok 0 30) city)
      then Inl invalid_payload
      else Inr (page_of (lq_limit q) (lq_offset q) (translator_summary_of db)
        (translators_listed name_order plan q active language city work db)))"

definition get_translator :: "int \<Rightarrow> office \<Rightarrow> translator_detail result" where
  "get_translator i db = (case get_row tr_id i (translators db) of
     None \<Rightarrow> Inl (NotFoundError ''Translator not found.'') | Some t \<Rightarrow> Inr (translator_detail_of db t))"

subsection \<open>Changing them\<close>

record translator_in =
  ti_name :: string
  ti_phone :: "string option"
  ti_email :: "string option"
  ti_office_address :: "string option"
  ti_comment :: "string option"
  ti_experience_from :: "date option"
  ti_is_active :: bool
  ti_default_rate :: "rat option"
  ti_bank_iban :: "string option"
  ti_bank_inn :: "string option"
  ti_bank_code :: "string option"
  ti_can_notarize :: bool
  ti_works_written :: bool
  ti_works_oral :: bool
  ti_cities :: "string list"
  ti_language_pairs :: "pair_in list"

definition translator_in_ok :: "translator_in \<Rightarrow> bool" where
  "translator_in_ok p \<longleftrightarrow> text_ok 1 255 (ti_name p) \<and> optional (text_ok 0 50) (ti_phone p) \<and>
     optional (text_ok 0 255) (ti_office_address p) \<and> optional rate_field (ti_default_rate p) \<and>
     optional (text_ok 0 34) (ti_bank_iban p) \<and> optional (text_ok 0 20) (ti_bank_inn p) \<and>
     optional (text_ok 0 20) (ti_bank_code p) \<and> length (ti_cities p) \<le> length CITIES \<and>
     length (ti_language_pairs p) \<le> 100 \<and> (ti_works_written p \<or> ti_works_oral p)"

definition validate_translator_in :: "translator_in \<Rightarrow> translator_in result" where
  "validate_translator_in p =
     (if \<not> translator_in_ok p then Inl invalid_payload
      else bind_result (map_result clean_pair (ti_language_pairs p)) (\<lambda>cleaned.
        bind_result (unique_pairs cleaned) (\<lambda>pairs.
          bind_result (valid_cities (ti_cities p)) (\<lambda>cities.
            Inr (p\<lparr>ti_language_pairs := pairs, ti_cities := cities\<rparr>)))))"

definition translator_of :: "int \<Rightarrow> translator_in \<Rightarrow> translator" where
  "translator_of i p =
     \<lparr>tr_id = i, tr_name = ti_name p, tr_default_rate = ti_default_rate p, tr_phone = ti_phone p,
      tr_email = ti_email p, tr_office_address = ti_office_address p, tr_comment = ti_comment p,
      tr_experience_from = ti_experience_from p, tr_is_active = ti_is_active p,
      tr_can_notarize = ti_can_notarize p, tr_works_written = ti_works_written p, tr_works_oral = ti_works_oral p,
      tr_cities = pack (ti_cities p), tr_portal_username = None, tr_portal_password_hash = None,
      tr_bank_iban = ti_bank_iban p, tr_bank_inn = ti_bank_inn p, tr_bank_code = ti_bank_code p\<rparr>"

definition create_translator :: "auth_session \<Rightarrow> translator_in \<Rightarrow> office \<Rightarrow> (translator_detail \<times> office) result" where
  "create_translator session raw db =
     bind_result (validate_translator_in raw) (\<lambda>p.
       let i = next_id db; t = translator_of i p
       in bind_result (replace_pairs i (ti_language_pairs p) (db\<lparr>next_id := i + 1, translators := translators db @ [t]\<rparr>)) (\<lambda>db'.
            let db2 = log_office session ''translator.created'' ''translator'' i db'
            in Inr (translator_detail_of db2 t, rates_to_columns i db2)))"

record translator_update =
  tu_name :: "string option option"
  tu_phone :: "string option option"
  tu_email :: "string option option"
  tu_office_address :: "string option option"
  tu_comment :: "string option option"
  tu_experience_from :: "date option option"
  tu_is_active :: "bool option option"
  tu_default_rate :: "rat option option"
  tu_bank_iban :: "string option option"
  tu_bank_inn :: "string option option"
  tu_bank_code :: "string option option"
  tu_can_notarize :: "bool option option"
  tu_works_written :: "bool option option"
  tu_works_oral :: "bool option option"
  tu_cities :: "string list option option"
  tu_language_pairs :: "pair_in list option option"

definition translator_update_ok :: "translator_update \<Rightarrow> bool" where
  "translator_update_ok p \<longleftrightarrow> optional (optional (text_ok 1 255)) (tu_name p) \<and> optional (optional (text_ok 0 50)) (tu_phone p) \<and>
     optional (optional (text_ok 0 255)) (tu_office_address p) \<and> optional (optional rate_field) (tu_default_rate p) \<and>
     optional (optional (text_ok 0 34)) (tu_bank_iban p) \<and> optional (optional (text_ok 0 20)) (tu_bank_inn p) \<and>
     optional (optional (text_ok 0 20)) (tu_bank_code p) \<and>
     optional (optional (\<lambda>cs. length cs \<le> length CITIES)) (tu_cities p) \<and>
     optional (optional (\<lambda>ps. length ps \<le> 100)) (tu_language_pairs p)"

text \<open>
  The validator cleans what was sent; a list sent as null counts as empty. It assigns the cities
  whether they were sent or not, and pydantic counts a field that was assigned among those that
  were set: an edit that leaves the cities out empties them (lemma \<open>edit_clears_cities\<close>).
\<close>

definition validate_translator_update ::
    "translator_update \<Rightarrow> (translator_update \<times> string list \<times> pair_in list option) result" where
  "validate_translator_update p =
     (if \<not> translator_update_ok p then Inl invalid_payload
      else bind_result (map_result clean_pair (or_else (or_else (tu_language_pairs p) None) [])) (\<lambda>cleaned.
        bind_result (unique_pairs cleaned) (\<lambda>pairs.
          bind_result (valid_cities (or_else (or_else (tu_cities p) None) [])) (\<lambda>cities.
            Inr (p, cities,
              (case tu_language_pairs p of Some (Some _) \<Rightarrow> Some pairs | _ \<Rightarrow> None))))))"

definition apply_translator_update :: "translator_update \<Rightarrow> string list \<Rightarrow> translator \<Rightarrow> translator" where
  "apply_translator_update p cities t = t\<lparr>tr_name := required (tu_name p) (tr_name t), tr_phone := or_else (tu_phone p) (tr_phone t),
     tr_email := or_else (tu_email p) (tr_email t), tr_office_address := or_else (tu_office_address p) (tr_office_address t),
     tr_comment := or_else (tu_comment p) (tr_comment t),
     tr_experience_from := or_else (tu_experience_from p) (tr_experience_from t),
     tr_is_active := required (tu_is_active p) (tr_is_active t), tr_default_rate := or_else (tu_default_rate p) (tr_default_rate t),
     tr_bank_iban := or_else (tu_bank_iban p) (tr_bank_iban t), tr_bank_inn := or_else (tu_bank_inn p) (tr_bank_inn t),
     tr_bank_code := or_else (tu_bank_code p) (tr_bank_code t),
     tr_can_notarize := required (tu_can_notarize p) (tr_can_notarize t),
     tr_works_written := required (tu_works_written p) (tr_works_written t),
     tr_works_oral := required (tu_works_oral p) (tr_works_oral t),
     tr_cities := pack cities\<rparr>"

text \<open>What stands on the row while the handler looks at it: a kind of work sent as null is off.\<close>

definition does_some_work :: "translator_update \<Rightarrow> translator \<Rightarrow> bool" where
  "does_some_work p t \<longleftrightarrow>
     (case tu_works_written p of None \<Rightarrow> tr_works_written t | Some v \<Rightarrow> v = Some True) \<or>
     (case tu_works_oral p of None \<Rightarrow> tr_works_oral t | Some v \<Rightarrow> v = Some True)"

definition nulls_a_column :: "translator_update \<Rightarrow> bool" where
  "nulls_a_column p \<longleftrightarrow> tu_name p = Some None \<or> tu_is_active p = Some None \<or> tu_can_notarize p = Some None \<or>
     tu_works_written p = Some None \<or> tu_works_oral p = Some None"

definition update_translator ::
    "auth_session \<Rightarrow> int \<Rightarrow> translator_update \<Rightarrow> office \<Rightarrow> (translator_detail \<times> office) result" where
  "update_translator session i raw db =
     bind_result (validate_translator_update raw) (\<lambda>(p, cities, pairs).
       case get_row tr_id i (translators db) of
         None \<Rightarrow> Inl (NotFoundError ''Translator not found.'')
       | Some t \<Rightarrow>
           if \<not> does_some_work p t then Inl (ValidationError ''A translator does written work, oral work, or both.'')
           else if nulls_a_column p then Inl (IntegrityError ''translators'')
           else let t' = apply_translator_update p cities t;
                    db1 = db\<lparr>translators := update_where (\<lambda>r. tr_id r = i) (apply_translator_update p cities) (translators db)\<rparr>
                in bind_result (case pairs of None \<Rightarrow> Inr db1 | Some ps \<Rightarrow> replace_pairs i ps db1) (\<lambda>db2.
                     let db3 = log_office session ''translator.updated'' ''translator'' i db2
                     in Inr (translator_detail_of db3 t', rates_to_columns i db3)))"

text \<open>Payouts keep their translator; a document's reference is cleared, its cost stays.\<close>

definition delete_translator :: "auth_session \<Rightarrow> int \<Rightarrow> office \<Rightarrow> office result" where
  "delete_translator session i db =
     (case get_row tr_id i (translators db) of
        None \<Rightarrow> Inl (NotFoundError ''Translator not found.'')
      | Some _ \<Rightarrow>
          if i \<in> l_party ` set (translator_payments db) then Inl (IntegrityError ''translators'')
          else Inr (log_office session ''translator.deleted'' ''translator'' i
            (db\<lparr>translators := filter (\<lambda>r. tr_id r \<noteq> i) (translators db),
                translator_pairs := filter (\<lambda>r. tp_translator_id r \<noteq> i) (translator_pairs db),
                documents := update_where (\<lambda>d. d_translator_id d = Some i) (\<lambda>d. d\<lparr>d_translator_id := None\<rparr>) (documents db)\<rparr>)))"

section \<open>Notaries\<close>

record notary_summary =
  nsm_id :: int
  nsm_name :: string
  nsm_phone :: "string option"
  nsm_email :: "string option"
  nsm_registration_number :: "string option"
  nsm_bank_ready :: bool
  nsm_bank_iban_masked :: "string option"

record notary_detail = notary_summary +
  ndt_office_address :: "string option"
  ndt_comment :: "string option"
  ndt_bank_inn :: "string option"
  ndt_bank_code :: "string option"

definition bank_ready :: "notary \<Rightarrow> bool" where
  "bank_ready n \<longleftrightarrow> or_blank (no_bank_iban n) \<noteq> []"

definition notary_summary_of :: "notary \<Rightarrow> notary_summary" where
  "notary_summary_of n = \<lparr>nsm_id = no_id n, nsm_name = no_name n, nsm_phone = no_phone n, nsm_email = no_email n,
     nsm_registration_number = no_registration_number n, nsm_bank_ready = bank_ready n,
     nsm_bank_iban_masked = mask_tail (no_bank_iban n)\<rparr>"

definition notary_detail_of :: "notary \<Rightarrow> notary_detail" where
  "notary_detail_of n = notary_summary.extend (notary_summary_of n)
     (notary_detail.fields (no_office_address n) (no_comment n) (no_bank_inn n) (no_bank_code n))"

definition notaries_listed :: "(string \<Rightarrow> int) \<Rightarrow> (notary list \<Rightarrow> notary list) \<Rightarrow> list_query \<Rightarrow> office \<Rightarrow> notary list" where
  "notaries_listed name_order plan q db =
     (let typed = or_blank (lq_search q); pattern = CHR ''%'' # typed @ ''%'';
          rows = filter (\<lambda>n. typed = [] \<or> ilike (Some (no_name n)) pattern \<or> ilike (no_email n) pattern \<or>
            ilike (no_registration_number n) pattern) (notaries db);
          key = (\<lambda>n. if lq_by q = By_name then name_order (no_name n) else no_id n)
      in sort_key (if lq_descending q then (\<lambda>n. - key n) else key) (plan rows))"

definition list_notaries ::
    "(string \<Rightarrow> int) \<Rightarrow> (notary list \<Rightarrow> notary list) \<Rightarrow> list_query \<Rightarrow> office \<Rightarrow> notary_summary page result" where
  "list_notaries name_order plan q db =
     (if \<not> page_ok (lq_search q) (lq_limit q) then Inl invalid_payload
      else Inr (page_of (lq_limit q) (lq_offset q) notary_summary_of (notaries_listed name_order plan q db)))"

definition get_notary :: "int \<Rightarrow> office \<Rightarrow> notary_detail result" where
  "get_notary i db = (case get_row no_id i (notaries db) of
     None \<Rightarrow> Inl (NotFoundError ''Notary not found.'') | Some n \<Rightarrow> Inr (notary_detail_of n))"

record notary_in =
  ni_name :: string
  ni_phone :: "string option"
  ni_email :: "string option"
  ni_registration_number :: "string option"
  ni_office_address :: "string option"
  ni_comment :: "string option"
  ni_bank_iban :: "string option"
  ni_bank_inn :: "string option"
  ni_bank_code :: "string option"

definition notary_in_ok :: "notary_in \<Rightarrow> bool" where
  "notary_in_ok p \<longleftrightarrow> text_ok 1 255 (ni_name p) \<and> optional (text_ok 0 50) (ni_phone p) \<and>
     optional (text_ok 0 100) (ni_registration_number p) \<and> optional (text_ok 0 255) (ni_office_address p) \<and>
     optional (text_ok 0 34) (ni_bank_iban p) \<and> optional (text_ok 0 20) (ni_bank_inn p) \<and> optional (text_ok 0 20) (ni_bank_code p)"

definition create_notary :: "auth_session \<Rightarrow> notary_in \<Rightarrow> office \<Rightarrow> (notary_detail \<times> office) result" where
  "create_notary session p db =
     (if \<not> notary_in_ok p then Inl invalid_payload
      else let n = \<lparr>no_id = next_id db, no_name = ni_name p, no_phone = ni_phone p, no_email = ni_email p,
                    no_registration_number = ni_registration_number p, no_office_address = ni_office_address p,
                    no_comment = ni_comment p, no_bank_iban = ni_bank_iban p, no_bank_inn = ni_bank_inn p,
                    no_bank_code = ni_bank_code p\<rparr>
           in Inr (notary_detail_of n, log_office session ''notary.created'' ''notary'' (no_id n)
                (db\<lparr>next_id := next_id db + 1, notaries := notaries db @ [n]\<rparr>)))"

record notary_update =
  nu_name :: "string option option"
  nu_phone :: "string option option"
  nu_email :: "string option option"
  nu_registration_number :: "string option option"
  nu_office_address :: "string option option"
  nu_comment :: "string option option"
  nu_bank_iban :: "string option option"
  nu_bank_inn :: "string option option"
  nu_bank_code :: "string option option"

definition notary_update_ok :: "notary_update \<Rightarrow> bool" where
  "notary_update_ok p \<longleftrightarrow> optional (optional (text_ok 1 255)) (nu_name p) \<and> optional (optional (text_ok 0 50)) (nu_phone p) \<and>
     optional (optional (text_ok 0 100)) (nu_registration_number p) \<and> optional (optional (text_ok 0 255)) (nu_office_address p) \<and>
     optional (optional (text_ok 0 34)) (nu_bank_iban p) \<and> optional (optional (text_ok 0 20)) (nu_bank_inn p) \<and>
     optional (optional (text_ok 0 20)) (nu_bank_code p)"

definition apply_notary_update :: "notary_update \<Rightarrow> notary \<Rightarrow> notary" where
  "apply_notary_update p n = n\<lparr>no_name := required (nu_name p) (no_name n), no_phone := or_else (nu_phone p) (no_phone n),
     no_email := or_else (nu_email p) (no_email n),
     no_registration_number := or_else (nu_registration_number p) (no_registration_number n),
     no_office_address := or_else (nu_office_address p) (no_office_address n), no_comment := or_else (nu_comment p) (no_comment n),
     no_bank_iban := or_else (nu_bank_iban p) (no_bank_iban n), no_bank_inn := or_else (nu_bank_inn p) (no_bank_inn n),
     no_bank_code := or_else (nu_bank_code p) (no_bank_code n)\<rparr>"

definition update_notary :: "auth_session \<Rightarrow> int \<Rightarrow> notary_update \<Rightarrow> office \<Rightarrow> (notary_detail \<times> office) result" where
  "update_notary session i p db =
     (if \<not> notary_update_ok p then Inl invalid_payload
      else case get_row no_id i (notaries db) of
        None \<Rightarrow> Inl (NotFoundError ''Notary not found.'')
      | Some n \<Rightarrow>
          if nu_name p = Some None then Inl (IntegrityError ''notaries'')
          else Inr (notary_detail_of (apply_notary_update p n), log_office session ''notary.updated'' ''notary'' i
            (db\<lparr>notaries := update_where (\<lambda>r. no_id r = i) (apply_notary_update p) (notaries db)\<rparr>)))"

definition delete_notary :: "auth_session \<Rightarrow> int \<Rightarrow> office \<Rightarrow> office result" where
  "delete_notary session i db =
     (case get_row no_id i (notaries db) of
        None \<Rightarrow> Inl (NotFoundError ''Notary not found.'')
      | Some _ \<Rightarrow> Inr (log_office session ''notary.deleted'' ''notary'' i
          (db\<lparr>notaries := filter (\<lambda>r. no_id r \<noteq> i) (notaries db),
              documents := update_where (\<lambda>d. d_notary_id d = Some i) (\<lambda>d. d\<lparr>d_notary_id := None\<rparr>) (documents db)\<rparr>)))"

end
