(* ===== verification/Settings.thy ===== *)
theory Settings
  imports Directories
begin

text \<open>
  The settings of a bureau (\<^verbatim>\<open>api/v1/settings.py\<close>) and the reference data the order form and the
  calculator are filled from (\<^verbatim>\<open>api/v1/reference.py\<close>): the general settings, document types, languages
  and the prices of language pairs, tables of the bureau's state that theory Pricing reads. The
  organisation's own row is passed beside the bureau's.
\<close>

section \<open>General settings\<close>

definition default_settings_row :: tenant_settings where
  "default_settings_row = \<lparr>ts_urgency_standard = 1, ts_urgency_express = 3 / 2, ts_urgency_urgent = 2, ts_delivery_fee = 10,
     ts_default_translator_share = 1 / 2, ts_characters_per_page = 1800, ts_due_days_standard = 5, ts_due_days_express = 2,
     ts_due_days_urgent = 0, ts_default_language = ''ka'', ts_system_email = None, ts_pricing_unit = PAGES\<rparr>"

text \<open>The row is made the first time it is asked for.\<close>

definition settings_row :: "office \<Rightarrow> tenant_settings" where
  "settings_row db = (case tenant_settings_row db of None \<Rightarrow> default_settings_row | Some s \<Rightarrow> s)"

record general_settings =
  gs_organisation_name :: string
  gs_timezone :: string
  gs_row :: tenant_settings
  gs_accepts_bureau_orders :: "bool option"

definition general_out :: "tenant_settings \<Rightarrow> tenant \<Rightarrow> general_settings" where
  "general_out row t = \<lparr>gs_organisation_name = t_display_name t, gs_timezone = t_timezone t, gs_row = row,
     gs_accepts_bureau_orders = t_accepts_bureau_orders t\<rparr>"

definition get_general :: "tenant option \<Rightarrow> office \<Rightarrow> (general_settings \<times> office) result" where
  "get_general organisation db =
     (case organisation of
        None \<Rightarrow> Inl (NotFoundError ''Organisation not found.'')
      | Some t \<Rightarrow> Inr (general_out (settings_row db) t, db\<lparr>tenant_settings_row := Some (settings_row db)\<rparr>))"

record general_update =
  gu_default_language :: "string option option"
  gu_system_email :: "string option option"
  gu_urgency_standard :: "rat option option"
  gu_urgency_express :: "rat option option"
  gu_urgency_urgent :: "rat option option"
  gu_delivery_fee :: "rat option option"
  gu_default_translator_share :: "rat option option"
  gu_pricing_unit :: "pricing_unit option option"
  gu_characters_per_page :: "int option option"
  gu_due_days_standard :: "int option option"
  gu_due_days_express :: "int option option"
  gu_due_days_urgent :: "int option option"
  gu_organisation_name :: "string option option"
  gu_timezone :: "string option option"
  gu_accepts_bureau_orders :: "bool option option"

definition multiplier_field :: "rat \<Rightarrow> bool" where
  "multiplier_field x \<longleftrightarrow> 1 / 10 \<le> x \<and> x \<le> 10"

definition share_field :: "rat \<Rightarrow> bool" where
  "share_field x \<longleftrightarrow> 0 \<le> x \<and> x \<le> 1 \<and> x * 1000 \<in> \<int>"

definition days_field :: "int \<Rightarrow> bool" where
  "days_field n \<longleftrightarrow> 0 \<le> n \<and> n \<le> 365"

definition general_update_ok :: "general_update \<Rightarrow> bool" where
  "general_update_ok p \<longleftrightarrow>
     optional (optional (text_ok 2 5)) (gu_default_language p) \<and>
     optional (optional multiplier_field) (gu_urgency_standard p) \<and>
     optional (optional multiplier_field) (gu_urgency_express p) \<and>
     optional (optional multiplier_field) (gu_urgency_urgent p) \<and>
     optional (optional (\<lambda>x. 0 \<le> x \<and> x \<le> 10000)) (gu_delivery_fee p) \<and>
     optional (optional share_field) (gu_default_translator_share p) \<and>
     optional (optional (\<lambda>n. 100 \<le> n \<and> n \<le> 100000)) (gu_characters_per_page p) \<and>
     optional (optional days_field) (gu_due_days_standard p) \<and> optional (optional days_field) (gu_due_days_express p) \<and>
     optional (optional days_field) (gu_due_days_urgent p) \<and>
     optional (optional (text_ok 1 255)) (gu_organisation_name p) \<and> optional (optional (text_ok 1 64)) (gu_timezone p)"

definition empties_a_setting :: "general_update \<Rightarrow> bool" where
  "empties_a_setting p \<longleftrightarrow> gu_default_language p = Some None \<or> gu_urgency_standard p = Some None \<or>
     gu_urgency_express p = Some None \<or> gu_urgency_urgent p = Some None \<or> gu_delivery_fee p = Some None \<or>
     gu_default_translator_share p = Some None \<or> gu_pricing_unit p = Some None \<or> gu_characters_per_page p = Some None \<or>
     gu_due_days_standard p = Some None \<or> gu_due_days_express p = Some None \<or> gu_due_days_urgent p = Some None \<or>
     gu_organisation_name p = Some None \<or> gu_timezone p = Some None \<or> gu_accepts_bureau_orders p = Some None"

definition apply_settings :: "general_update \<Rightarrow> tenant_settings \<Rightarrow> tenant_settings" where
  "apply_settings p s = s\<lparr>ts_urgency_standard := required (gu_urgency_standard p) (ts_urgency_standard s),
     ts_urgency_express := required (gu_urgency_express p) (ts_urgency_express s),
     ts_urgency_urgent := required (gu_urgency_urgent p) (ts_urgency_urgent s),
     ts_delivery_fee := required (gu_delivery_fee p) (ts_delivery_fee s),
     ts_default_translator_share := required (gu_default_translator_share p) (ts_default_translator_share s),
     ts_characters_per_page := required (gu_characters_per_page p) (ts_characters_per_page s),
     ts_due_days_standard := required (gu_due_days_standard p) (ts_due_days_standard s),
     ts_due_days_express := required (gu_due_days_express p) (ts_due_days_express s),
     ts_due_days_urgent := required (gu_due_days_urgent p) (ts_due_days_urgent s),
     ts_default_language := required (gu_default_language p) (ts_default_language s),
     ts_system_email := or_else (gu_system_email p) (ts_system_email s),
     ts_pricing_unit := required (gu_pricing_unit p) (ts_pricing_unit s)\<rparr>"

definition settings_to_columns :: "tenant_settings \<Rightarrow> tenant_settings" where
  "settings_to_columns s = s\<lparr>ts_urgency_standard := numeric 3 (ts_urgency_standard s),
     ts_urgency_express := numeric 3 (ts_urgency_express s), ts_urgency_urgent := numeric 3 (ts_urgency_urgent s),
     ts_delivery_fee := numeric 2 (ts_delivery_fee s),
     ts_default_translator_share := numeric 3 (ts_default_translator_share s)\<rparr>"

definition apply_organisation :: "general_update \<Rightarrow> tenant \<Rightarrow> tenant" where
  "apply_organisation p t = t\<lparr>t_display_name := (case gu_organisation_name p of Some (Some n) \<Rightarrow> strip n | _ \<Rightarrow> t_display_name t),
     t_timezone := required (gu_timezone p) (t_timezone t),
     t_accepts_bureau_orders := (case gu_accepts_bureau_orders p of Some (Some b) \<Rightarrow> Some b | _ \<Rightarrow> t_accepts_bureau_orders t)\<rparr>"

definition update_general ::
    "(string \<Rightarrow> bool) \<Rightarrow> auth_session \<Rightarrow> general_update \<Rightarrow> tenant option \<Rightarrow> office
     \<Rightarrow> (general_settings \<times> tenant \<times> office) result" where
  "update_general is_valid_zone session p organisation db =
     (if \<not> general_update_ok p then Inl invalid_payload
      else case organisation of
        None \<Rightarrow> Inl (NotFoundError ''Organisation not found.'')
      | Some t \<Rightarrow>
          if empties_a_setting p then Inl (ValidationError '' cannot be empty.'')
          else if (case gu_timezone p of Some (Some z) \<Rightarrow> \<not> is_valid_zone z | _ \<Rightarrow> False)
            then Inl (ValidationError ''Unknown timezone. Use an IANA name such as Asia/Tbilisi.'')
          else if gu_accepts_bureau_orders p \<noteq> None \<and> \<not> t_is_personal t
            then Inl (ValidationError ''Only a freelancer's personal workspace can accept bureau orders.'')
          else let row = apply_settings p (settings_row db); t' = apply_organisation p t
               in Inr (general_out row t', t', log_office session ''settings.updated'' ''tenant_settings'' 0
                    (db\<lparr>tenant_settings_row := Some (settings_to_columns row)\<rparr>)))"

section \<open>Document types\<close>

record document_type_in =
  dti_name_en :: string
  dti_name_ka :: string
  dti_price_multiplier :: rat
  dti_is_active :: bool

definition document_type_in_ok :: "document_type_in \<Rightarrow> bool" where
  "document_type_in_ok p \<longleftrightarrow> text_ok 1 255 (dti_name_en p) \<and> text_ok 1 255 (dti_name_ka p) \<and>
     1 / 10 \<le> dti_price_multiplier p \<and> dti_price_multiplier p \<le> 100"

definition document_type_of :: "int \<Rightarrow> document_type_in \<Rightarrow> document_type" where
  "document_type_of i p = \<lparr>dt_id = i, dt_price_multiplier = dti_price_multiplier p, dt_is_active = dti_is_active p,
     dt_name_en = dti_name_en p, dt_name_ka = dti_name_ka p\<rparr>"

definition document_type_to_columns :: "document_type \<Rightarrow> document_type" where
  "document_type_to_columns r = r\<lparr>dt_price_multiplier := numeric 3 (dt_price_multiplier r)\<rparr>"

definition list_document_types :: "(string \<Rightarrow> int) \<Rightarrow> office \<Rightarrow> document_type list" where
  "list_document_types name_order db = sort_key (\<lambda>r. name_order (dt_name_en r)) (document_types db)"

definition create_document_type :: "auth_session \<Rightarrow> document_type_in \<Rightarrow> office \<Rightarrow> (document_type \<times> office) result" where
  "create_document_type session p db =
     (if \<not> document_type_in_ok p then Inl invalid_payload
      else let r = document_type_of (next_id db) p
           in Inr (r, log_office session ''document_type.created'' ''document_type'' (dt_id r)
                (db\<lparr>next_id := next_id db + 1, document_types := document_types db @ [document_type_to_columns r]\<rparr>)))"

definition update_document_type ::
    "auth_session \<Rightarrow> int \<Rightarrow> document_type_in \<Rightarrow> office \<Rightarrow> (document_type \<times> office) result" where
  "update_document_type session i p db =
     (if \<not> document_type_in_ok p then Inl invalid_payload
      else case get_row dt_id i (document_types db) of
        None \<Rightarrow> Inl (NotFoundError ''Document type not found.'')
      | Some _ \<Rightarrow> let r = document_type_of i p
          in Inr (r, log_office session ''document_type.updated'' ''document_type'' i
            (db\<lparr>document_types := update_where (\<lambda>x. dt_id x = i) (\<lambda>_. document_type_to_columns r) (document_types db)\<rparr>)))"

section \<open>Languages\<close>

record language_in =
  li_code :: string
  li_name_en :: string
  li_name_ka :: string
  li_is_active :: bool

definition is_lower_letter :: "char \<Rightarrow> bool" where
  "is_lower_letter c \<longleftrightarrow> is_alpha c \<and> lower_char c = c"

definition language_in_ok :: "language_in \<Rightarrow> bool" where
  "language_in_ok p \<longleftrightarrow> text_ok 2 5 (li_code p) \<and> list_all is_lower_letter (li_code p) \<and>
     text_ok 1 100 (li_name_en p) \<and> text_ok 1 100 (li_name_ka p)"

definition language_of :: "int \<Rightarrow> language_in \<Rightarrow> language" where
  "language_of i p = \<lparr>la_id = i, la_code = lower (li_code p), la_name_en = li_name_en p, la_name_ka = li_name_ka p,
     la_is_active = li_is_active p\<rparr>"

definition list_languages :: "(string \<Rightarrow> int) \<Rightarrow> office \<Rightarrow> language list" where
  "list_languages name_order db = sort_key (\<lambda>r. name_order (la_name_en r)) (languages db)"

definition create_language :: "auth_session \<Rightarrow> language_in \<Rightarrow> office \<Rightarrow> (language \<times> office) result" where
  "create_language session p db =
     (if \<not> language_in_ok p then Inl invalid_payload
      else if li_code p \<in> la_code ` set (languages db) then Inl (ConflictError ''Language already exists.'')
      else let r = language_of (next_id db) p
           in Inr (r, log_office session ''language.created'' ''language'' (la_id r)
                (db\<lparr>next_id := next_id db + 1, languages := languages db @ [r]\<rparr>)))"

definition update_language :: "auth_session \<Rightarrow> int \<Rightarrow> language_in \<Rightarrow> office \<Rightarrow> (language \<times> office) result" where
  "update_language session i p db =
     (if \<not> language_in_ok p then Inl invalid_payload
      else case get_row la_id i (languages db) of
        None \<Rightarrow> Inl (NotFoundError ''Language not found.'')
      | Some r \<Rightarrow>
          if lower (li_code p) \<noteq> la_code r \<and> lower (li_code p) \<in> la_code ` set (languages db)
            then Inl (ConflictError ''Language already exists.'')
          else Inr (language_of i p, log_office session ''language.updated'' ''language'' i
            (db\<lparr>languages := update_where (\<lambda>x. la_id x = i) (\<lambda>_. language_of i p) (languages db)\<rparr>)))"

section \<open>Prices of language pairs\<close>

record pair_price_in =
  pp_source :: string
  pp_target :: string
  pp_price_per_page :: rat
  pp_price_per_minute :: "rat option"
  pp_price_per_page_bureau :: "rat option option"
  pp_active :: bool

definition pair_price_in_ok :: "pair_price_in \<Rightarrow> bool" where
  "pair_price_in_ok p \<longleftrightarrow> text_ok 2 5 (pp_source p) \<and> text_ok 2 5 (pp_target p) \<and> rate_field (pp_price_per_page p) \<and>
     optional rate_field (pp_price_per_minute p) \<and> optional (optional rate_field) (pp_price_per_page_bureau p)"

definition priced_pair :: "language_pair_price \<Rightarrow> string \<times> string" where
  "priced_pair r = (lp_source_language r, lp_target_language r)"

definition pair_price_of :: "int \<Rightarrow> pair_price_in \<Rightarrow> rat option \<Rightarrow> language_pair_price" where
  "pair_price_of i p bureau = \<lparr>lp_source_language = lower (pp_source p), lp_target_language = lower (pp_target p),
     lp_price_per_page = pp_price_per_page p, lp_price_per_minute = pp_price_per_minute p, lp_is_active = pp_active p,
     lp_id = i, lp_price_per_page_bureau = bureau\<rparr>"

definition pair_price_to_columns :: "language_pair_price \<Rightarrow> language_pair_price" where
  "pair_price_to_columns r = r\<lparr>lp_price_per_page := numeric 2 (lp_price_per_page r),
     lp_price_per_minute := map_option (numeric 2) (lp_price_per_minute r),
     lp_price_per_page_bureau := map_option (numeric 2) (lp_price_per_page_bureau r)\<rparr>"

definition list_pricing :: "(string \<Rightarrow> int) \<Rightarrow> office \<Rightarrow> language_pair_price list" where
  "list_pricing name_order db =
     sort_key (\<lambda>r. (name_order (lp_source_language r), name_order (lp_target_language r))) (language_pairs db)"

definition create_pair_price :: "auth_session \<Rightarrow> pair_price_in \<Rightarrow> office \<Rightarrow> (language_pair_price \<times> office) result" where
  "create_pair_price session p db =
     (if \<not> pair_price_in_ok p then Inl invalid_payload
      else let r = pair_price_of (next_id db) p (or_else (pp_price_per_page_bureau p) None)
           in if lp_source_language r = lp_target_language r
                then Inl (ConflictError ''Source and target language cannot be the same.'')
              else if priced_pair r \<in> priced_pair ` set (language_pairs db)
                then Inl (ConflictError ''A rate for the pair already exists.'')
              else Inr (r, log_office session ''pricing.created'' ''language_pair_price'' (lp_id r)
                (db\<lparr>next_id := next_id db + 1, language_pairs := language_pairs db @ [pair_price_to_columns r]\<rparr>)))"

text \<open>An update looks neither for two equal languages nor for the pair's other row, which the unique
  index refuses.\<close>

definition update_pair_price ::
    "auth_session \<Rightarrow> int \<Rightarrow> pair_price_in \<Rightarrow> office \<Rightarrow> (language_pair_price \<times> office) result" where
  "update_pair_price session i p db =
     (if \<not> pair_price_in_ok p then Inl invalid_payload
      else case get_row lp_id i (language_pairs db) of
        None \<Rightarrow> Inl (NotFoundError ''Rate not found.'')
      | Some old \<Rightarrow>
          let r = pair_price_of i p (or_else (pp_price_per_page_bureau p) (lp_price_per_page_bureau old))
          in if \<exists>x \<in> set (language_pairs db). lp_id x \<noteq> i \<and> priced_pair x = priced_pair r
               then Inl (IntegrityError ''uq_lpp_tenant_pair'')
             else Inr (r, log_office session ''pricing.updated'' ''language_pair_price'' i
               (db\<lparr>language_pairs := update_where (\<lambda>x. lp_id x = i) (\<lambda>_. pair_price_to_columns r) (language_pairs db)\<rparr>)))"

definition delete_pair_price :: "auth_session \<Rightarrow> int \<Rightarrow> office \<Rightarrow> office result" where
  "delete_pair_price session i db =
     (case get_row lp_id i (language_pairs db) of
        None \<Rightarrow> Inl (NotFoundError ''Rate not found.'')
      | Some _ \<Rightarrow> Inr (log_office session ''pricing.deleted'' ''language_pair_price'' i
          (db\<lparr>language_pairs := filter (\<lambda>x. lp_id x \<noteq> i) (language_pairs db)\<rparr>)))"

section \<open>Reference data\<close>

record level_option =
  lv_multiplier :: rat
  lv_days :: int

record reference_data =
  rd_languages :: "(string \<times> string \<times> string) list"
  rd_document_types :: "(int \<times> string \<times> string \<times> rat) list"
  rd_language_pairs :: "(string \<times> string \<times> rat \<times> rat option) list"
  rd_urgency_levels :: "(urgency \<times> level_option) list"
  rd_handover_costs :: "(handover_method \<times> rat \<times> bool) list"
  rd_copy_types :: "(copy_type \<times> bool) list"
  rd_today :: date
  rd_acquisition_sources :: "string list"
  rd_custom_statuses :: "string list"
  rd_pricing_unit :: pricing_unit
  rd_characters_per_page :: int

definition bureau_options :: "option_list \<Rightarrow> office \<Rightarrow> string list" where
  "bureau_options key db = map co_value (sort_key co_id (filter (\<lambda>o'. co_list_key o' = key) (custom_options db)))"

definition get_reference :: "(string \<Rightarrow> int) \<Rightarrow> date \<Rightarrow> office \<Rightarrow> reference_data" where
  "get_reference name_order today db =
     (let s = tenant_settings_row db; due = due_days_from_settings s
      in \<lparr>rd_languages = map (\<lambda>r. (la_code r, la_name_en r, la_name_ka r))
            (sort_key (\<lambda>r. name_order (la_name_en r)) (filter la_is_active (languages db))),
          rd_document_types = map (\<lambda>r. (dt_id r, dt_name_en r, dt_name_ka r, dt_price_multiplier r))
            (sort_key (\<lambda>r. name_order (dt_name_en r)) (filter dt_is_active (document_types db))),
          rd_language_pairs = map (\<lambda>r. (lp_source_language r, lp_target_language r, lp_price_per_page r, lp_price_per_minute r))
            (sort_key (\<lambda>r. (name_order (lp_source_language r), name_order (lp_target_language r)))
              (filter lp_is_active (language_pairs db))),
          rd_urgency_levels =
            [(STANDARD, \<lparr>lv_multiplier = (case s of None \<Rightarrow> 1 | Some r \<Rightarrow> ts_urgency_standard r), lv_days = due STANDARD\<rparr>),
             (EXPRESS, \<lparr>lv_multiplier = (case s of None \<Rightarrow> 3 / 2 | Some r \<Rightarrow> ts_urgency_express r), lv_days = due EXPRESS\<rparr>),
             (URGENT, \<lparr>lv_multiplier = (case s of None \<Rightarrow> 2 | Some r \<Rightarrow> ts_urgency_urgent r), lv_days = due URGENT\<rparr>)],
          rd_handover_costs =
            [(SCAN, 0, False), (PICKUP, 0, False),
             (DELIVERY, (case s of None \<Rightarrow> 10 | Some r \<Rightarrow> ts_delivery_fee r), True)],
          rd_copy_types = [(PLAIN, False), (ORIGINAL, False), (NOTARY_COPY, True), (NOTARY_ORIGINAL, True), (NOTARY_CERTIFIED, True)],
          rd_today = today, rd_acquisition_sources = bureau_options ACQUISITION_SOURCE db,
          rd_custom_statuses = bureau_options ORDER_STATUS db,
          rd_pricing_unit = (case s of None \<Rightarrow> PAGES | Some r \<Rightarrow> ts_pricing_unit r),
          rd_characters_per_page = (case s of None \<Rightarrow> 1800 | Some r \<Rightarrow> ts_characters_per_page r)\<rparr>)"

end
