(* ===== verification/Bureau.thy ===== *)
theory Bureau
  imports Settings
begin

text \<open>
  A bureau's directories and settings under way: the step relation over the operations of theories
  Directories and Settings, what they may touch, and what they cannot: the orders there are, what
  those cost, and what has been paid.
\<close>

section \<open>The step relation\<close>

inductive setup_step :: "office \<Rightarrow> office \<Rightarrow> bool" where
  client_made: "create_client session p db = Inr (out, db') \<Longrightarrow> setup_step db db'"
| client_edited: "update_client session i u db = Inr (out, db') \<Longrightarrow> setup_step db db'"
| client_deleted: "delete_client session i db = Inr db' \<Longrightarrow> setup_step db db'"
| translator_made: "create_translator session t db = Inr (tout, db') \<Longrightarrow> setup_step db db'"
| translator_edited: "update_translator session i tu db = Inr (tout, db') \<Longrightarrow> setup_step db db'"
| translator_deleted: "delete_translator session i db = Inr db' \<Longrightarrow> setup_step db db'"
| notary_made: "create_notary session n db = Inr (nout, db') \<Longrightarrow> setup_step db db'"
| notary_edited: "update_notary session i nu db = Inr (nout, db') \<Longrightarrow> setup_step db db'"
| notary_deleted: "delete_notary session i db = Inr db' \<Longrightarrow> setup_step db db'"
| settings_read: "get_general organisation db = Inr (gout, db') \<Longrightarrow> setup_step db db'"
| settings_saved: "update_general zone_ok session g organisation db = Inr (gout, t', db') \<Longrightarrow> setup_step db db'"
| type_made: "create_document_type session d db = Inr (dout, db') \<Longrightarrow> setup_step db db'"
| type_edited: "update_document_type session i d db = Inr (dout, db') \<Longrightarrow> setup_step db db'"
| language_made: "create_language session l db = Inr (lout, db') \<Longrightarrow> setup_step db db'"
| language_edited: "update_language session i l db = Inr (lout, db') \<Longrightarrow> setup_step db db'"
| price_made: "create_pair_price session pr db = Inr (prout, db') \<Longrightarrow> setup_step db db'"
| price_edited: "update_pair_price session i pr db = Inr (prout, db') \<Longrightarrow> setup_step db db'"
| price_deleted: "delete_pair_price session i db = Inr db' \<Longrightarrow> setup_step db db'"

inductive setup_run :: "office \<Rightarrow> office \<Rightarrow> bool" where
  no_setup: "setup_run db db"
| one_more: "setup_run db db' \<Longrightarrow> setup_step db' db'' \<Longrightarrow> setup_run db db''"

text \<open>Orders, money and setup together, in any order.\<close>

inductive bureau_run :: "office \<Rightarrow> office \<Rightarrow> bool" where
  at_rest: "bureau_run db db"
| worked: "bureau_run db db' \<Longrightarrow> office_step db' db'' \<Longrightarrow> bureau_run db db''"
| set_up: "bureau_run db db' \<Longrightarrow> setup_step db' db'' \<Longrightarrow> bureau_run db db''"

section \<open>What a step may touch\<close>

definition line_kept :: "order_document \<Rightarrow> order_document \<Rightarrow> bool" where
  "line_kept d d' \<longleftrightarrow> (\<exists>t \<in> {None, d_translator_id d}. \<exists>n \<in> {None, d_notary_id d}. d' = d\<lparr>d_translator_id := t, d_notary_id := n\<rparr>)"

definition paid_parties :: "office \<Rightarrow> int set" where
  "paid_parties db = l_party ` set (translator_payments db)"

text \<open>The work and the money stay; a line may lose its translator or notary, but not a translator who was paid;
  a client with orders stays.\<close>

definition work_kept :: "office \<Rightarrow> office \<Rightarrow> bool" where
  "work_kept db db' \<longleftrightarrow>
     orders db' = orders db \<and> status_events db' = status_events db \<and> expenses db' = expenses db \<and>
     client_payments db' = client_payments db \<and> client_allocations db' = client_allocations db \<and>
     client_refunds db' = client_refunds db \<and>
     translator_payments db' = translator_payments db \<and> translator_allocations db' = translator_allocations db \<and>
     notary_payments db' = notary_payments db \<and> notary_allocations db' = notary_allocations db \<and>
     custom_options db' = custom_options db \<and> notices db' = notices db \<and>
     next_id db \<le> next_id db' \<and> list_all2 line_kept (documents db) (documents db') \<and>
     list_all2 (\<lambda>d d'. d_translator_id d \<in> Some ` paid_parties db \<longrightarrow> d_translator_id d' = d_translator_id d)
       (documents db) (documents db') \<and>
     (\<forall>ord \<in> set (orders db). o_client_id ord \<in> cl_id ` set (clients db) \<longrightarrow> o_client_id ord \<in> cl_id ` set (clients db'))"

lemma line_kept_refl [simp]: "line_kept d d"
proof -
  have "d = d\<lparr>d_translator_id := d_translator_id d, d_notary_id := d_notary_id d\<rparr>" by simp
  then show ?thesis unfolding line_kept_def by blast
qed

lemma list_all2_refl: "(\<And>x. P x x) \<Longrightarrow> list_all2 P xs xs"
  by (induction xs) auto

lemma list_all2_update_where:
  "(\<And>x. R x x) \<Longrightarrow> (\<And>x. P x \<Longrightarrow> R x (f x)) \<Longrightarrow> list_all2 R xs (update_where P f xs)"
  by (induction xs) auto

lemma work_kept_refl [simp]: "work_kept db db"
  by (simp add: work_kept_def list_all2_refl)

lemma line_kept_trans: "line_kept a b \<Longrightarrow> line_kept b c \<Longrightarrow> line_kept a c"
  unfolding line_kept_def by force

lemma work_kept_trans:
  assumes "work_kept a b" and "work_kept b c"
  shows "work_kept a c"
proof -
  have "list_all2 line_kept (documents a) (documents c)"
    using assms list_all2_trans [of line_kept line_kept line_kept "documents a" "documents b" "documents c"] line_kept_trans
    unfolding work_kept_def by blast
  moreover have "list_all2 (\<lambda>d d'. d_translator_id d \<in> Some ` paid_parties a \<longrightarrow> d_translator_id d' = d_translator_id d)
      (documents a) (documents c)"
  proof -
    have "paid_parties b = paid_parties a" using assms(1) by (simp add: work_kept_def paid_parties_def)
    then have two: "list_all2 (\<lambda>d d'. d_translator_id d \<in> Some ` paid_parties a \<longrightarrow> d_translator_id d' = d_translator_id d)
        (documents a) (documents b)"
      "list_all2 (\<lambda>d d'. d_translator_id d \<in> Some ` paid_parties a \<longrightarrow> d_translator_id d' = d_translator_id d)
        (documents b) (documents c)"
      using assms by (simp_all add: work_kept_def)
    show ?thesis by (rule list_all2_trans [OF _ two]) auto
  qed
  ultimately show ?thesis using assms unfolding work_kept_def by simp
qed

lemma work_kept_logged [simp]: "work_kept db (log_office s a e i db') \<longleftrightarrow> work_kept db db'"
  by (simp add: work_kept_def log_office_def)

lemma work_kept_lines:
  assumes "\<And>d. P d \<Longrightarrow> line_kept d (f d)"
    and "\<And>d. P d \<Longrightarrow> d_translator_id d \<in> Some ` paid_parties db \<Longrightarrow> d_translator_id (f d) = d_translator_id d"
  shows "work_kept db (db\<lparr>translators := ts, notaries := ns, translator_pairs := tps, documents := update_where P f (documents db)\<rparr>)"
proof -
  have "list_all2 line_kept (documents db) (update_where P f (documents db))"
    by (rule list_all2_update_where) (simp_all add: assms(1))
  moreover have "list_all2 (\<lambda>d d'. d_translator_id d \<in> Some ` paid_parties db \<longrightarrow> d_translator_id d' = d_translator_id d)
      (documents db) (update_where P f (documents db))"
    by (rule list_all2_update_where) (simp_all add: assms(2))
  ultimately show ?thesis by (simp add: work_kept_def)
qed

lemma unassigned_kept: "line_kept d (d\<lparr>d_translator_id := None\<rparr>)" "line_kept d (d\<lparr>d_notary_id := None\<rparr>)"
proof -
  have "d\<lparr>d_translator_id := None\<rparr> = d\<lparr>d_translator_id := None, d_notary_id := d_notary_id d\<rparr>"
    "d\<lparr>d_notary_id := None\<rparr> = d\<lparr>d_translator_id := d_translator_id d, d_notary_id := None\<rparr>"
    by simp_all
  then show "line_kept d (d\<lparr>d_translator_id := None\<rparr>)" "line_kept d (d\<lparr>d_notary_id := None\<rparr>)"
    unfolding line_kept_def by blast+
qed

lemma edited_clients: "cl_id ` set (update_where P (apply_client_update p) cs) = cl_id ` set cs"
  by (induction cs) (auto simp: apply_client_update_def)

lemma replace_pairs_tables:
  assumes "replace_pairs i ps db = Inr db'"
  obtains n tps where "db' = db\<lparr>next_id := n, translator_pairs := tps\<rparr>" and "next_id db \<le> n"
  using assms by (auto simp: replace_pairs_def Let_def split: if_split_asm)

lemma to_columns_kept [simp]: "work_kept db (rates_to_columns i db') \<longleftrightarrow> work_kept db db'"
  by (simp add: work_kept_def rates_to_columns_def)

lemma replaced_kept: "replace_pairs i ps db' = Inr db'' \<Longrightarrow> work_kept db db' \<Longrightarrow> work_kept db db''"
  by (erule replace_pairs_tables) (simp add: work_kept_def)

lemmas kept_simps = work_kept_def list_all2_refl log_office_def Let_def

lemma setup_step_kept: "setup_step db db' \<Longrightarrow> work_kept db db'"
proof (induction rule: setup_step.induct)
  case (client_made session p db out db')
  then show ?case by (auto simp: create_client_def kept_simps split: if_split_asm)
next
  case (client_edited session i u db out db')
  then show ?case
    by (auto simp: update_client_def edited_clients kept_simps split: if_split_asm option.splits)
next
  case (client_deleted session i db db')
  then have db': "db' = log_office session ''client.deleted'' ''client'' i (db\<lparr>clients := filter (\<lambda>r. cl_id r \<noteq> i) (clients db)\<rparr>)"
    and free: "i \<notin> o_client_id ` set (orders db)"
    by (auto simp: delete_client_def split: if_split_asm option.splits)
  have "o_client_id ord \<in> cl_id ` {c \<in> set (clients db). cl_id c \<noteq> i}"
    if "ord \<in> set (orders db)" and "o_client_id ord \<in> cl_id ` set (clients db)" for ord
    using that free by force
  then show ?case by (simp add: db' kept_simps)
next
  case (translator_made session t db out db')
  then show ?case
    by (auto simp: create_translator_def Let_def elim!: replaced_kept) (simp add: kept_simps)
next
  case (translator_edited session i tu db out db')
  have kept: "work_kept db (db\<lparr>translators := ts\<rparr>)" for ts by (simp add: kept_simps)
  from translator_edited show ?case
    by (auto simp: update_translator_def Let_def kept split: if_split_asm option.splits) (erule replaced_kept, rule kept)
next
  case (translator_deleted session i db db')
  then have free: "Some i \<notin> Some ` paid_parties db"
    by (auto simp: delete_translator_def paid_parties_def split: if_split_asm option.splits)
  have "work_kept db (db\<lparr>translators := ts, notaries := notaries db, translator_pairs := tps,
      documents := update_where (\<lambda>d. d_translator_id d = Some i) (\<lambda>d. d\<lparr>d_translator_id := None\<rparr>) (documents db)\<rparr>)" for ts tps
    by (rule work_kept_lines) (use free in \<open>auto simp: unassigned_kept\<close>)
  with translator_deleted show ?case by (auto simp: delete_translator_def split: if_split_asm option.splits)
next
  case (notary_made session n db nout db')
  then show ?case by (auto simp: create_notary_def kept_simps split: if_split_asm)
next
  case (notary_edited session i nu db nout db')
  then show ?case by (auto simp: update_notary_def kept_simps split: if_split_asm option.splits)
next
  case (notary_deleted session i db db')
  have "work_kept db (db\<lparr>translators := translators db, notaries := ns, translator_pairs := translator_pairs db,
      documents := update_where (\<lambda>d. d_notary_id d = Some i) (\<lambda>d. d\<lparr>d_notary_id := None\<rparr>) (documents db)\<rparr>)" for ns
    by (rule work_kept_lines) (simp_all add: unassigned_kept)
  with notary_deleted show ?case by (auto simp: delete_notary_def split: option.splits)
next
  case (settings_read organisation db gout db')
  then show ?case by (auto simp: get_general_def kept_simps split: option.splits)
next
  case (settings_saved zone_ok session g organisation db gout t' db')
  then show ?case
    by (auto simp: update_general_def kept_simps split: if_split_asm option.splits)
next
  case (type_made session d db dout db')
  then show ?case by (auto simp: create_document_type_def kept_simps split: if_split_asm)
next
  case (type_edited session i d db dout db')
  then show ?case by (auto simp: update_document_type_def kept_simps split: if_split_asm option.splits)
next
  case (language_made session l db lout db')
  then show ?case by (auto simp: create_language_def kept_simps split: if_split_asm)
next
  case (language_edited session i l db lout db')
  then show ?case by (auto simp: update_language_def kept_simps split: if_split_asm option.splits)
next
  case (price_made session pr db prout db')
  then show ?case by (auto simp: create_pair_price_def kept_simps split: if_split_asm)
next
  case (price_edited session i pr db prout db')
  then show ?case by (auto simp: update_pair_price_def kept_simps split: if_split_asm option.splits)
next
  case (price_deleted session i db db')
  then show ?case by (auto simp: delete_pair_price_def kept_simps split: option.splits)
qed

lemma setup_run_kept: "setup_run db db' \<Longrightarrow> work_kept db db'"
  by (induction rule: setup_run.induct) (auto intro: work_kept_trans setup_step_kept)

section \<open>What stays\<close>

lemma line_keptE:
  assumes "line_kept d d'"
  obtains t n where "d' = d\<lparr>d_translator_id := t, d_notary_id := n\<rparr>" and "t \<in> {None, d_translator_id d}"
    and "n \<in> {None, d_notary_id d}"
  using assms unfolding line_kept_def by blast

lemma line_kept_same:
  assumes "line_kept d d'" and "\<And>t n. f (d\<lparr>d_translator_id := t, d_notary_id := n\<rparr>) = f d"
  shows "f d' = f d"
  using assms unfolding line_kept_def by metis

lemma line_kept_doc_ok:
  assumes "line_kept d d'" and "doc_ok d"
  shows "doc_ok d'"
proof (rule line_keptE [OF assms(1)])
  fix t n assume d': "d' = d\<lparr>d_translator_id := t, d_notary_id := n\<rparr>" and "n \<in> {None, d_notary_id d}"
  then have "\<not> d_is_notarized d \<Longrightarrow> n = None" using assms(2) unfolding doc_ok_def by auto
  with assms(2) show "doc_ok d'" unfolding d' doc_ok_def by simp
qed

lemma sum_where_lines:
  assumes "list_all2 line_kept xs ys" and "\<And>d t n. f (d\<lparr>d_translator_id := t, d_notary_id := n\<rparr>) = f d"
    and "\<And>d t n. P (d\<lparr>d_translator_id := t, d_notary_id := n\<rparr>) = P d"
  shows "sum_where f P ys = sum_where f P xs"
  using assms(1)
proof (induction rule: list_all2_induct)
  case (Cons d ds d' ds')
  have "f d' = f d" "P d' = P d" by (rule line_kept_same [OF Cons(1)], rule assms)+
  with Cons show ?case by simp
qed simp

lemma map_lines:
  assumes "list_all2 line_kept xs ys" and "\<And>d t n. f (d\<lparr>d_translator_id := t, d_notary_id := n\<rparr>) = f d"
  shows "map f ys = map f xs"
  using assms(1)
proof (induction rule: list_all2_induct)
  case (Cons d ds d' ds')
  have "f d' = f d" by (rule line_kept_same [OF Cons(1)], rule assms)
  with Cons show ?case by simp
qed simp

lemma count_lines:
  assumes "list_all2 line_kept xs ys"
  shows "length (filter (\<lambda>d. d_order_id d = oid) ys) = length (filter (\<lambda>d. d_order_id d = oid) xs)"
  using assms by (induction rule: list_all2_induct) (auto elim!: line_keptE)

lemma work_kept_statuses:
  assumes "work_kept db db'"
  shows "latest_status oid db' = latest_status oid db" and "is_live db' oid = is_live db oid" and "history oid db' = history oid db"
  using assms by (simp_all add: work_kept_def latest_status_def is_live_def history_def)

lemma work_kept_row:
  assumes "work_kept db db'"
  shows "order_row_of db' ord = order_row_of db ord"
proof -
  have lines: "list_all2 line_kept (documents db) (documents db')" using assms by (simp add: work_kept_def)
  have same: "client_allocations db' = client_allocations db" "expenses db' = expenses db"
    using assms by (simp_all add: work_kept_def)
  show ?thesis
    unfolding order_row_of_def documents_total_def translator_total_def notary_total_def documents_gross_profit_def
      document_count_def pages_total_def paid_on_def order_expenses_def order_documents_def same
      work_kept_statuses [OF assms]
    by (simp add: sum_where_lines [OF lines] count_lines [OF lines] document_profit_def)
qed

lemma work_kept_owed:
  assumes "work_kept db db'"
  shows "per_order_owed db' = per_order_owed db"
proof -
  have "documents_total oid db' = documents_total oid db" "paid_on oid db' = paid_on oid db" for oid
    using work_kept_row [OF assms, of "ord\<lparr>o_id := oid\<rparr>" for ord] by (simp_all add: order_row_of_def)
  then show ?thesis
    using assms work_kept_statuses(2) [OF assms]
    by (simp add: per_order_owed_def owed_row_of_def billed_on_def work_kept_def)
qed

text \<open>Whoever has been paid as a translator keeps their account.\<close>

lemma work_kept_balance:
  assumes kept: "work_kept db db'" and paid: "tr_id t \<in> paid_parties db"
  shows "translator_balance_of db' t = translator_balance_of db t"
proof -
  have "list_all2 (\<lambda>d d'. line_kept d d' \<and> (d_translator_id d = Some (tr_id t) \<longrightarrow> d_translator_id d' = d_translator_id d))
      (documents db) (documents db')"
    using kept paid by (auto simp: work_kept_def list_all2_conv_all_nth)
  then have "sum_where d_translator_cost (\<lambda>d. d_translator_id d = Some (tr_id t) \<and> L (d_order_id d)) (documents db') =
      sum_where d_translator_cost (\<lambda>d. d_translator_id d = Some (tr_id t) \<and> L (d_order_id d)) (documents db)" for L
    by (induction rule: list_all2_induct) (auto elim!: line_keptE)
  then have "translator_earned db' (tr_id t) = translator_earned db (tr_id t)"
    using work_kept_statuses(2) [OF kept] by (simp add: translator_earned_def)
  then show ?thesis
    using kept by (simp add: translator_balance_of_def translator_payouts_def translator_fronted_def paid_through_def work_kept_def)
qed

lemma work_kept_ok:
  assumes kept: "work_kept db db'" and ok: "office_ok db"
  shows "office_ok db'"
proof -
  have lines: "list_all2 line_kept (documents db) (documents db')" using kept by (simp add: work_kept_def)
  have ids: "map d_id (documents db') = map d_id (documents db)" by (rule map_lines [OF lines]) simp
  have line: "\<exists>d0 \<in> set (documents db). line_kept d0 d" if "d \<in> set (documents db')" for d
    using that lines unfolding list_all2_conv_all_nth in_set_conv_nth by (metis nth_mem)
  have counts: "document_count oid db' = document_count oid db" for oid
    using count_lines [OF lines] by (simp add: document_count_def order_documents_def)
  have "orders_ok db" "books_ok db" using ok by (simp_all add: office_ok_def)
  note o_ok = orders_okD [OF \<open>orders_ok db\<close>]
  have same: "orders db' = orders db" "status_events db' = status_events db" "expenses db' = expenses db" "next_id db \<le> next_id db'"
    and clients: "\<And>ord. ord \<in> set (orders db) \<Longrightarrow> o_client_id ord \<in> cl_id ` set (clients db) \<Longrightarrow> o_client_id ord \<in> cl_id ` set (clients db')"
    using kept by (simp_all add: work_kept_def)
  have "orders_ok db'"
  proof (rule orders_okI)
    fix d assume "d \<in> set (documents db')"
    from line [OF this] obtain d0 where d0: "d0 \<in> set (documents db)" "line_kept d0 d" by blast
    have "d_id d = d_id d0" "d_order_id d = d_order_id d0" by (rule line_kept_same [OF d0(2)], simp)+
    with o_ok(6,7) [OF d0(1)] line_kept_doc_ok [OF d0(2) o_ok(8) [OF d0(1)]]
    show "d_id d < next_id db' \<and> d_order_id d \<in> o_id ` set (orders db') \<and> doc_ok d"
      using same(1,4) by simp
  next
    fix ord assume "ord \<in> set (orders db')"
    then have ord: "ord \<in> set (orders db)" by (simp add: same)
    show "o_id ord < next_id db'" using o_ok(1) [OF ord] same(4) by simp
    show "o_client_id ord \<in> cl_id ` set (clients db')" by (rule clients [OF ord o_ok(2) [OF ord]])
    show "1 \<le> document_count (o_id ord) db' \<and> document_count (o_id ord) db' \<le> MAX_DOCUMENTS"
      using o_ok(3,4) [OF ord] by (simp add: counts)
    show "o_id ord \<in> e_order_id ` set (status_events db')"
      using orders_ok_logged [OF \<open>orders_ok db\<close> ord] by (simp add: same)
  next
    fix x oid assume "x \<in> set (expenses db')" "x_order_id x = Some oid"
    then show "oid \<in> o_id ` set (orders db')"
      using orders_ok_expense [OF \<open>orders_ok db\<close>] by (simp add: same)
  qed (use o_ok(5,9) in \<open>simp_all add: same\<close>)
  moreover have "books_ok db'"
  proof -
    have "set (map d_id (documents db')) = set (map d_id (documents db))" by (simp only: ids)
    then have targets: "d_id ` set (documents db') = d_id ` set (documents db)" by simp
    show ?thesis
      using \<open>books_ok db\<close> kept unfolding books_ok_def ids targets
      by (auto simp: work_kept_def intro: ledger_ok_next)
  qed
  ultimately show ?thesis by (simp add: office_ok_def)
qed

lemma bureau_run_ok: "bureau_run db db' \<Longrightarrow> office_ok db \<Longrightarrow> office_ok db'"
  by (induction rule: bureau_run.induct) (auto dest: office_step_ok setup_step_kept work_kept_ok)

text \<open>An id an order once had is never given out again, and its log only grows.\<close>

lemma bureau_ids:
  assumes "bureau_run db db'" and "office_ok db"
  shows "next_id db \<le> next_id db'" and "oid < next_id db \<Longrightarrow> oid \<in> o_id ` set (orders db') \<Longrightarrow> oid \<in> o_id ` set (orders db)"
proof -
  have "next_id db \<le> next_id db' \<and> (oid < next_id db \<longrightarrow> oid \<in> o_id ` set (orders db') \<longrightarrow> oid \<in> o_id ` set (orders db))"
    using assms
  proof (induction rule: bureau_run.induct)
    case (worked db db' db'')
    then have "orders_ok db'" using bureau_run_ok by (auto simp: office_ok_def)
    from step_ids [OF worked.hyps(2) this] worked show ?case by force
  next
    case (set_up db db' db'')
    with setup_step_kept [OF set_up.hyps(2)] show ?case by (simp add: work_kept_def)
  qed simp
  then show "next_id db \<le> next_id db'" and "oid < next_id db \<Longrightarrow> oid \<in> o_id ` set (orders db') \<Longrightarrow> oid \<in> o_id ` set (orders db)"
    by simp_all
qed

lemma bureau_history:
  assumes "bureau_run db db'" and "office_ok db" and "oid \<in> o_id ` set (orders db)" and "oid \<in> o_id ` set (orders db')"
  shows "\<exists>new. history oid db' = history oid db @ new"
  using assms
proof (induction rule: bureau_run.induct)
  case (worked db db' db'')
  then have ok: "orders_ok db'" "orders_ok db" using bureau_run_ok by (auto simp: office_ok_def)
  have "oid < next_id db'"
    using worked.prems(2) orders_okD(1) [OF ok(2)] bureau_ids(1) [OF worked.hyps(1) worked.prems(1)] by fastforce
  with step_ids(2) [OF worked.hyps(2) ok(1) worked.prems(3)] have there: "oid \<in> o_id ` set (orders db')" by simp
  from worked.IH [OF worked.prems(1,2) there] step_history [OF worked.hyps(2) there worked.prems(3)] show ?case by fastforce
next
  case (set_up db db' db'')
  note kept = setup_step_kept [OF set_up.hyps(2)]
  then have "oid \<in> o_id ` set (orders db')" using set_up.prems(3) by (simp add: work_kept_def)
  with set_up show ?case by (simp add: work_kept_statuses(3) [OF kept])
qed simp



section \<open>Properties\<close>

text \<open>C8: whatever a bureau does, its rows fit together. From a consistent start, through any sequence of
  requests to create, edit, save, restatus and delete orders, to record and undo money, and to add,
  edit and delete clients, translators, notaries, prices, languages and document types, in any
  order: every order has between one and fifty documents, a client and a status; every document,
  event, allocation and expense belongs to an order that exists; order numbers are unique; an
  interpreting line has no document type, copy type or notary, a written one has a type and no
  place, only a notarised one has a notary; every amount is whole tetri; and the ledgers stay
  consistent.
\<close>

theorem bureau_run_keeps_office:
  assumes "bureau_run db db'" and "office_ok db"
  shows "office_ok db'"
  using assms by (rule bureau_run_ok)

text \<open>C9: setting a bureau up moves no money. Through any sequence of changes to clients, translators,
  notaries, settings, prices, languages and document types, deletions included, the orders stay as
  they are with every total, profit and status in the list of them; what each client owes on each
  order stays; what came in and went out in any period stays; the status log stays; and a translator
  who has ever been paid keeps the balance they had, so that no deletion hides a payment.
\<close>

theorem setup_moves_no_money:
  assumes "setup_run db db'"
  shows "orders db' = orders db \<and> base_order_query db' = base_order_query db \<and> per_order_owed db' = per_order_owed db \<and>
     (\<forall>start end. cash_flow db' start end = cash_flow db start end) \<and> (\<forall>oid. history oid db' = history oid db) \<and>
     (\<forall>t. tr_id t \<in> paid_parties db \<longrightarrow> translator_balance_of db' t = translator_balance_of db t)"
proof (intro conjI allI impI)
  note kept = setup_run_kept [OF assms]
  show "orders db' = orders db" using kept by (simp add: work_kept_def)
  then show "base_order_query db' = base_order_query db" by (simp add: base_order_query_def work_kept_row [OF kept])
  show "per_order_owed db' = per_order_owed db" by (rule work_kept_owed [OF kept])
  show "cash_flow db' start end = cash_flow db start end" for start "end" using kept by (simp add: cash_flow_def work_kept_def)
  show "history oid db' = history oid db" for oid by (rule work_kept_statuses(3) [OF kept])
  show "tr_id t \<in> paid_parties db \<Longrightarrow> translator_balance_of db' t = translator_balance_of db t" for t
    by (rule work_kept_balance [OF kept])
qed

text \<open>C26: the status log is append-only. Through any sequence of the requests that create, edit, save,
  restatus and delete orders, record and undo money, and change clients, translators, notaries,
  settings, prices, languages and document types, the log of an order that still exists is its old log
  with entries added at the end; and once an order has gone, whatever those requests do next, no order
  ever has its id again, so that no log is taken up by another order. Imports and their undoing are
  not among those requests.
\<close>

theorem status_log_append_only:
  assumes "bureau_run db db'" and "office_ok db" and "oid \<in> o_id ` set (orders db)"
  shows "(oid \<in> o_id ` set (orders db') \<longrightarrow> (\<exists>new. history oid db' = history oid db @ new)) \<and>
     (oid \<notin> o_id ` set (orders db') \<longrightarrow> (\<forall>db''. bureau_run db' db'' \<longrightarrow> oid \<notin> o_id ` set (orders db'')))"
proof (intro conjI impI allI)
  show "\<exists>new. history oid db' = history oid db @ new" if "oid \<in> o_id ` set (orders db')"
    by (rule bureau_history [OF assms that])
next
  fix db'' assume gone: "oid \<notin> o_id ` set (orders db')" and later: "bureau_run db' db''"
  have "oid < next_id db"
    using assms(2,3) orders_okD(1) by (fastforce simp: office_ok_def)
  with bureau_ids(1) [OF assms(1,2)] have "oid < next_id db'" by simp
  with bureau_ids(2) [OF later bureau_run_ok [OF assms(1,2)]] gone show "oid \<notin> o_id ` set (orders db'')" by blast
qed


text \<open>The notary leaves the example office, in which the translator has been paid.\<close>

definition ex_paid_office :: office where
  "ex_paid_office = ex_office\<lparr>translator_payments := [\<lparr>l_id = 50, l_party = 2, l_amount = 5, l_payment_date = 20,
     l_method = CASH, l_notes = None, l_recorded_by_user_id = None, l_idempotency_key = None\<rparr>]\<rparr>"

lemma ex_notary_leaves: "\<exists>db'. delete_notary ex_caller 3 ex_office = Inr db' \<and> setup_run ex_office db'"
proof -
  have "case delete_notary ex_caller 3 ex_office of Inr _ \<Rightarrow> True | Inl _ \<Rightarrow> False" by code_simp
  then obtain db' where "delete_notary ex_caller 3 ex_office = Inr db'" by (auto split: sum.splits)
  with one_more [OF no_setup notary_deleted] show ?thesis by blast
qed

theorem bureau_run_keeps_office_witness:
  "\<exists>db'. delete_notary ex_caller 3 ex_office = Inr db' \<and> office_ok db'"
proof -
  from ex_notary_leaves obtain db' where gone: "delete_notary ex_caller 3 ex_office = Inr db'" by blast
  from bureau_run_keeps_office [OF set_up [OF at_rest notary_deleted [OF gone]] ex_office_ok] gone show ?thesis by blast
qed

theorem setup_moves_no_money_witness:
  "\<exists>db'. delete_notary ex_caller 3 ex_paid_office = Inr db' \<and> notaries db' = [] \<and>
     base_order_query db' = base_order_query ex_paid_office \<and>
     translator_balance_of db' ex_translator = translator_balance_of ex_paid_office ex_translator"
proof -
  have "case delete_notary ex_caller 3 ex_paid_office of Inr db' \<Rightarrow> notaries db' = [] | Inl _ \<Rightarrow> False" by code_simp
  then obtain db' where gone: "delete_notary ex_caller 3 ex_paid_office = Inr db'" "notaries db' = []" by (auto split: sum.splits)
  have paid: "tr_id ex_translator \<in> paid_parties ex_paid_office" by (simp add: paid_parties_def ex_paid_office_def ex_translator_def)
  have "base_order_query db' = base_order_query ex_paid_office \<and>
      translator_balance_of db' ex_translator = translator_balance_of ex_paid_office ex_translator"
    using setup_moves_no_money [OF one_more [OF no_setup notary_deleted [OF gone(1)]]] paid by blast
  with gone show ?thesis by blast
qed

theorem status_log_append_only_witness:
  "\<exists>db' new. change_status ex_caller 2000 4 '' confirmed'' None ex_office = Inr db' \<and>
     history 4 db' = history 4 ex_office @ new"
proof -
  from ex_confirm obtain db' where run: "change_status ex_caller 2000 4 '' confirmed'' None ex_office = Inr db'"
    "4 \<in> o_id ` set (orders db')" by blast
  from status_log_append_only [OF worked [OF at_rest office_step.status [OF run(1)]] ex_office_ok ex_statuses(3)] run
  show ?thesis by blast
qed


end
