(* ===== verification/Lookups.thy ===== *)
theory Lookups
  imports Bureau
begin

text \<open>
  What the lists and forms of a bureau show: a search finds the text that was typed and nothing else,
  pages make up the whole list, a translator's languages and cities are read back as they were saved,
  and the prices of the reference data are the ones the engine charges.
\<close>

section \<open>Searching\<close>

definition specials :: "char set" where
  "specials = {CHR ''%'', CHR ''_'', LIKE_ESCAPE}"

definition escape_char :: "char \<Rightarrow> string" where
  "escape_char c = (if c \<in> specials then [LIKE_ESCAPE, c] else [c])"

lemma replace_char_simps [simp]:
  "replace_char c new [] = []"
  "replace_char c new (d # s) = (if d = c then new else [d]) @ replace_char c new s"
  by (simp_all add: replace_char_def)

lemma replace_char_append: "replace_char c new (s @ t) = replace_char c new s @ replace_char c new t"
  by (simp add: replace_char_def)

lemma like_pattern_escaped: "like_pattern search = CHR ''%'' # concat (map escape_char (strip search)) @ ''%''"
proof -
  have "replace_char (CHR ''_'') [LIKE_ESCAPE, CHR ''_''] (replace_char (CHR ''%'') [LIKE_ESCAPE, CHR ''%'']
      (replace_char LIKE_ESCAPE [LIKE_ESCAPE, LIKE_ESCAPE] s)) = concat (map escape_char s)" for s
    by (induction s) (auto simp: escape_char_def specials_def LIKE_ESCAPE_def)
  then show ?thesis by (simp add: like_pattern_def)
qed

lemma like_any: "sql_like (CHR ''%'' # p) t \<longleftrightarrow> (\<exists>u v. t = u @ v \<and> sql_like p v)"
proof -
  have "(\<exists>k \<in> {0..<Suc (length t)}. sql_like p (drop k t)) \<longleftrightarrow> (\<exists>u v. t = u @ v \<and> sql_like p v)"
  proof
    assume "\<exists>k \<in> {0..<Suc (length t)}. sql_like p (drop k t)"
    then obtain k where "sql_like p (drop k t)" by blast
    then show "\<exists>u v. t = u @ v \<and> sql_like p v" by (metis append_take_drop_id)
  next
    assume "\<exists>u v. t = u @ v \<and> sql_like p v"
    then obtain u v where "t = u @ v" "sql_like p v" by blast
    then show "\<exists>k \<in> {0..<Suc (length t)}. sql_like p (drop k t)" by (intro bexI [of _ "length u"]) auto
  qed
  then show ?thesis by (simp add: list_ex_iff del: upt_Suc)
qed

lemma like_literal: "sql_like (concat (map escape_char s) @ p) t \<longleftrightarrow> (\<exists>u. t = s @ u \<and> sql_like p u)"
proof (induction s arbitrary: t)
  case (Cons c s)
  have step: "sql_like (escape_char c @ q) t \<longleftrightarrow> (\<exists>u. t = c # u \<and> sql_like q u)" for q
    by (cases t) (auto simp: escape_char_def specials_def LIKE_ESCAPE_def simp del: sql_like.simps(2)
        simp: sql_like.simps(2) [of "CHR 0x5C"] sql_like.simps(2) [of c])
  show ?case by (simp add: step Cons) blast
qed simp

lemma like_contains: "sql_like (CHR ''%'' # concat (map escape_char s) @ ''%'') t \<longleftrightarrow> sublist s t"
proof -
  have "sql_like ''%'' u" for u unfolding like_any by simp
  then show ?thesis unfolding like_any like_literal sublist_def by auto
qed

lemma lower_keeps_special: "c \<in> specials \<Longrightarrow> lower_char c = c"
  by (auto simp: specials_def LIKE_ESCAPE_def lower_char_def)

lemma lower_special: "lower_char c \<in> specials \<longleftrightarrow> c \<in> specials"
proof
  have codes: "d \<in> specials \<Longrightarrow> of_char d \<in> {37, 95, 92 :: nat}" for d by (auto simp: specials_def LIKE_ESCAPE_def)
  assume "lower_char c \<in> specials"
  from codes [OF this] have "\<not> (65 \<le> (of_char c :: nat) \<and> of_char c \<le> (90 :: nat))" by (auto split: if_splits)
  with \<open>lower_char c \<in> specials\<close> show "c \<in> specials" by (simp add: lower_char_def Let_def split: if_splits)
qed (simp add: lower_keeps_special)

lemma lower_escaped: "lower (concat (map escape_char s)) = concat (map escape_char (lower s))"
proof (induction s)
  case (Cons c s)
  have "LIKE_ESCAPE \<in> specials" by (simp add: specials_def)
  then have "map lower_char (escape_char c) = escape_char (lower_char c)"
    by (simp add: escape_char_def lower_special lower_keeps_special)
  with Cons show ?case by (simp add: lower_def)
qed (simp add: lower_def)

lemma ilike_contains:
  "ilike column (like_pattern s) \<longleftrightarrow> (case column of None \<Rightarrow> False | Some t \<Rightarrow> sublist (lower (strip s)) (lower t))"
proof -
  have "lower (like_pattern s) = CHR ''%'' # concat (map escape_char (lower (strip s))) @ ''%''"
    using lower_escaped [of "strip s"] lower_keeps_special [of "CHR ''%''"]
    by (simp add: like_pattern_escaped lower_def specials_def)
  then show ?thesis unfolding ilike_def by (simp only: like_contains split: option.split)
qed

lemma phone_digits_filter: "phone_digits column = map_option (filter (\<lambda>c. c \<notin> set '' -()+.'')) column"
proof -
  have "replace_char c [] s = filter (\<lambda>d. d \<noteq> c) s" for c s by (induction s) auto
  then have "fold (\<lambda>c. replace_char c []) cs s = filter (\<lambda>d. d \<notin> set cs) s" for cs s
    by (induction cs arbitrary: s) (auto intro: filter_cong)
  then have "fold (\<lambda>c. replace_char c []) cs = filter (\<lambda>d. d \<notin> set cs)" for cs by blast
  then show ?thesis unfolding phone_digits_def by (simp only:)
qed

lemma digits_plain: "escape_char c = [c]" if "is_digit c" for c
proof -
  have "\<not> is_digit (CHR ''%'')" "\<not> is_digit (CHR ''_'')" "\<not> is_digit LIKE_ESCAPE"
    by (simp_all add: is_digit_def LIKE_ESCAPE_def)
  with that show ?thesis by (auto simp: escape_char_def specials_def)
qed

lemma has_digits_contains:
  assumes "list_all is_digit ds"
  shows "has_digits column (CHR ''%'' # ds @ ''%'') \<longleftrightarrow>
    (case column of None \<Rightarrow> False | Some t \<Rightarrow> sublist ds (filter (\<lambda>c. c \<notin> set '' -()+.'') t))"
proof -
  have "ds = concat (map escape_char ds)" using assms by (induction ds) (simp_all add: digits_plain)
  then have "sql_like (CHR ''%'' # ds @ ''%'') t \<longleftrightarrow> sublist ds t" for t using like_contains [of ds t] by simp
  then show ?thesis
    unfolding has_digits_def phone_digits_filter by (simp del: sql_like.simps split: option.split)
qed

text \<open>What a search is for, said without patterns.\<close>

definition contains :: "string option \<Rightarrow> string \<Rightarrow> bool" where
  "contains column text' \<longleftrightarrow> (case column of None \<Rightarrow> False | Some t \<Rightarrow> sublist (lower text') (lower t))"

definition client_found :: "string \<Rightarrow> client \<Rightarrow> bool" where
  "client_found search c \<longleftrightarrow>
     (let typed = strip search; digits = filter is_digit search in
      typed = [] \<or> contains (Some (cl_name c)) typed \<or> contains (cl_email c) typed \<or> contains (cl_phone c) typed \<or>
      contains (cl_personal_number c) typed \<or>
      (4 \<le> length digits \<and> (case cl_phone c of None \<Rightarrow> False | Some t \<Rightarrow> sublist digits (filter (\<lambda>d. d \<notin> set '' -()+.'') t))) \<or>
      (all_digits typed \<and> length typed \<le> 9 \<and> cl_number c = read_nat typed))"

lemma client_matches_found: "strip search = [] \<or> client_matches search c \<longleftrightarrow> client_found search c"
proof -
  have "list_all is_digit (digits_of search)" by (simp add: digits_of_def list_all_iff)
  from has_digits_contains [OF this] show ?thesis
    unfolding client_matches_def client_found_def Let_def ilike_contains contains_def
    by (simp only: digits_of_def option.case)
qed

lemma clients_listed_mset:
  "mset (clients_listed name_order q kind db) =
     mset (filter (\<lambda>c. client_found (or_blank (lq_search q)) c \<and> (case kind of None \<Rightarrow> True | Some k \<Rightarrow> cl_client_type c = k)) (clients db))"
  by (simp add: clients_listed_def Let_def client_matches_found)

text \<open>Pages of one size, put together, are the list.\<close>

lemma pages_make_list: "concat (map (\<lambda>i. take n (drop (i * n) xs)) [0..<k]) = take (k * n) xs"
proof (induction k)
  case (Suc k)
  have "take (Suc k * n) xs = take (k * n) xs @ take n (drop (k * n) xs)"
    by (metis add.commute mult_Suc take_add)
  with Suc show ?case by simp
qed simp

text \<open>C35: a search finds what was typed. The pages of a client list, put together, are exactly the clients of the kind
  asked for whose name, address, phone or ID number contains the text typed, letter case aside and every character
  of it meaning itself, or whose phone has its digits, or whose number it is; each stands on one page only, and
  each page tells how many there are.\<close>

theorem search_finds_the_text:
  assumes "page_ok (lq_search q) (lq_limit q)"
  shows "\<exists>rows pages. mset rows = mset (filter (\<lambda>c. client_found (or_blank (lq_search q)) c \<and>
        (case kind of None \<Rightarrow> True | Some k \<Rightarrow> cl_client_type c = k)) (clients db)) \<and>
     (\<forall>i. list_clients name_order (q\<lparr>lq_offset := i * lq_limit q\<rparr>) kind db = Inr (pages i) \<and> pg_total (pages i) = length rows) \<and>
     (\<forall>k. concat (map (\<lambda>i. pg_items (pages i)) [0..<k]) = take (k * lq_limit q) (map to_summary rows))"
proof -
  let ?rows = "clients_listed name_order q kind db"
  let ?pages = "\<lambda>i. page_of (lq_limit q) (i * lq_limit q) to_summary ?rows"
  have same: "clients_listed name_order (q\<lparr>lq_offset := n\<rparr>) kind db = ?rows" for n by (simp add: clients_listed_def)
  have "list_clients name_order (q\<lparr>lq_offset := i * lq_limit q\<rparr>) kind db = Inr (?pages i) \<and> pg_total (?pages i) = length ?rows" for i
    using assms by (simp add: list_clients_def same, simp add: page_of_def)
  moreover have "concat (map (\<lambda>i. pg_items (?pages i)) [0..<k]) = take (k * lq_limit q) (map to_summary ?rows)" for k
    using pages_make_list [of "lq_limit q" "map to_summary ?rows" k] by (simp add: page_of_def take_map drop_map)
  ultimately show ?thesis
    by (intro exI [of _ ?rows] exI [of _ ?pages] conjI allI clients_listed_mset) simp_all
qed

theorem search_finds_the_text_witness:
  "\<exists>rows. mset rows = mset (filter (client_found ''LIE'') [ex_client]) \<and> length rows = 1 \<and>
     client_found ''LIE'' ex_client \<and> \<not> client_found ''l_e'' ex_client"
proof -
  have found: "client_found ''LIE'' ex_client" "\<not> client_found ''l_e'' ex_client"
    by code_simp+
  let ?q = "\<lparr>lq_search = Some ''LIE'', lq_by = By_id, lq_descending = True, lq_limit = 20, lq_offset = 0\<rparr>"
  have "page_ok (lq_search ?q) (lq_limit ?q)" by (simp add: page_ok_def optional_def text_ok_def)
  from search_finds_the_text [OF this, of None ex_office "\<lambda>_. 0"] found show ?thesis
    by (auto simp: ex_office_def or_blank_def dest: mset_eq_length)
qed

section \<open>Prices\<close>

definition tariff_ok :: "office \<Rightarrow> bool" where
  "tariff_ok db \<longleftrightarrow> distinct (map priced_pair (language_pairs db)) \<and>
     (\<forall>r \<in> set (language_pairs db). pair_of r = priced_pair r \<and> lp_id r < next_id db) \<and>
     distinct (map lp_id (language_pairs db)) \<and> distinct (map dt_id (document_types db)) \<and>
     (\<forall>r \<in> set (document_types db). dt_id r < next_id db)"

lemma distinct_replaced:
  assumes "distinct (map key rows)" and "distinct (map iden rows)" and "\<forall>x \<in> set rows. iden x \<noteq> i \<longrightarrow> key x \<noteq> key r"
  shows "distinct (map key (update_where (\<lambda>x. iden x = i) (\<lambda>_. r) rows))"
  using assms
proof (induction rows)
  case (Cons x rows)
  have *: "y \<in> set rows \<Longrightarrow> iden x = i \<Longrightarrow> iden y \<noteq> i" for y using Cons.prems(2) by (simp, metis image_eqI)
  show ?case using Cons * by (fastforce simp: set_update_where)
qed simp

lemma distinct_ids_kept: "(\<And>x. iden (f x) = iden x) \<Longrightarrow> map iden (update_where P f rows) = map iden rows"
  by (rule map_key_update_where)

lemma priced_pair_of [simp]:
  "pair_of (pair_price_to_columns (pair_price_of i p b)) = (lower (pp_source p), lower (pp_target p))"
  "priced_pair (pair_price_to_columns (pair_price_of i p b)) = (lower (pp_source p), lower (pp_target p))"
  "priced_pair (pair_price_of i p b) = (lower (pp_source p), lower (pp_target p))"
  "lp_id (pair_price_to_columns (pair_price_of i p b)) = i"
  by (simp_all add: pair_of_def priced_pair_def pair_price_to_columns_def pair_price_of_def)

lemma typed_id [simp]: "dt_id (document_type_to_columns (document_type_of i p)) = i"
  by (simp add: document_type_to_columns_def document_type_of_def)

text \<open>What a step may do to the tariff.\<close>

inductive tariff_change :: "office \<Rightarrow> office \<Rightarrow> bool" where
  same_tariff: "language_pairs db' = language_pairs db \<Longrightarrow> document_types db' = document_types db \<Longrightarrow> tariff_change db db'"
| more_types: "document_types db' = document_types db @ [document_type_to_columns (document_type_of (next_id db) d)] \<Longrightarrow>
    language_pairs db' = language_pairs db \<Longrightarrow> next_id db' = next_id db + 1 \<Longrightarrow> tariff_change db db'"
| other_type: "document_types db' = update_where (\<lambda>x. dt_id x = i) (\<lambda>_. document_type_to_columns (document_type_of i d)) (document_types db) \<Longrightarrow>
    language_pairs db' = language_pairs db \<Longrightarrow> tariff_change db db'"
| more_pairs: "language_pairs db' = language_pairs db @ [pair_price_to_columns (pair_price_of (next_id db) pr b)] \<Longrightarrow>
    (lower (pp_source pr), lower (pp_target pr)) \<notin> priced_pair ` set (language_pairs db) \<Longrightarrow>
    document_types db' = document_types db \<Longrightarrow> next_id db' = next_id db + 1 \<Longrightarrow> tariff_change db db'"
| other_pair: "language_pairs db' = update_where (\<lambda>x. lp_id x = i) (\<lambda>_. pair_price_to_columns (pair_price_of i pr b)) (language_pairs db) \<Longrightarrow>
    \<forall>x \<in> set (language_pairs db). lp_id x \<noteq> i \<longrightarrow> priced_pair x \<noteq> (lower (pp_source pr), lower (pp_target pr)) \<Longrightarrow>
    document_types db' = document_types db \<Longrightarrow> tariff_change db db'"
| fewer_pairs: "language_pairs db' = filter (\<lambda>x. lp_id x \<noteq> i) (language_pairs db) \<Longrightarrow>
    document_types db' = document_types db \<Longrightarrow> tariff_change db db'"

lemmas tables_simps = log_office_def rates_to_columns_def Let_def

lemma setup_step_changes: "setup_step db db' \<Longrightarrow> tariff_change db db'"
proof (induction rule: setup_step.induct)
  case (client_made session p db out db')
  then show ?case by (intro same_tariff) (auto simp: create_client_def tables_simps split: if_split_asm)
next
  case (client_edited session i u db out db')
  then show ?case by (intro same_tariff) (auto simp: update_client_def tables_simps split: if_split_asm option.splits)
next
  case (client_deleted session i db db')
  then show ?case by (intro same_tariff) (auto simp: delete_client_def tables_simps split: if_split_asm option.splits)
next
  case (translator_made session t db tout db')
  then show ?case by (intro same_tariff) (auto simp: create_translator_def tables_simps elim!: replace_pairs_tables)
next
  case (translator_edited session i tu db tout db')
  then show ?case
    by (intro same_tariff) (auto simp: update_translator_def tables_simps split: if_split_asm option.splits elim!: replace_pairs_tables)
next
  case (translator_deleted session i db db')
  then show ?case by (intro same_tariff) (auto simp: delete_translator_def tables_simps split: if_split_asm option.splits)
next
  case (notary_made session n db nout db')
  then show ?case by (intro same_tariff) (auto simp: create_notary_def tables_simps split: if_split_asm)
next
  case (notary_edited session i nu db nout db')
  then show ?case by (intro same_tariff) (auto simp: update_notary_def tables_simps split: if_split_asm option.splits)
next
  case (notary_deleted session i db db')
  then show ?case by (intro same_tariff) (auto simp: delete_notary_def tables_simps split: option.splits)
next
  case (settings_read organisation db gout db')
  then show ?case by (intro same_tariff) (auto simp: get_general_def split: option.splits)
next
  case (settings_saved zone_ok session g organisation db gout t' db')
  then have "\<exists>row. db' = log_office session ''settings.updated'' ''tenant_settings'' 0 (db\<lparr>tenant_settings_row := row\<rparr>)"
    unfolding update_general_def Let_def by (cases organisation) (simp_all split: if_split_asm, blast)
  then show ?case by (intro same_tariff) (auto simp: log_office_def)
next
  case (type_made session d db dout db')
  then show ?case
    by (intro more_types [of _ _ d]) (auto simp: create_document_type_def tables_simps document_type_of_def split: if_split_asm)
next
  case (type_edited session i d db dout db')
  then show ?case
    by (intro other_type [of _ i d]) (auto simp: update_document_type_def tables_simps split: if_split_asm option.splits)
next
  case (language_made session l db lout db')
  then show ?case by (intro same_tariff) (auto simp: create_language_def tables_simps split: if_split_asm)
next
  case (language_edited session i l db lout db')
  then show ?case by (intro same_tariff) (auto simp: update_language_def tables_simps split: if_split_asm option.splits)
next
  case (price_made session pr db prout db')
  then show ?case
    by (intro more_pairs [of _ _ pr "or_else (pp_price_per_page_bureau pr) None"])
      (auto simp: create_pair_price_def tables_simps split: if_split_asm)
next
  case (price_edited session i pr db prout db')
  then obtain old where "get_row lp_id i (language_pairs db) = Some old"
    by (auto simp: update_pair_price_def split: if_split_asm option.splits)
  with price_edited show ?case
    by (intro other_pair [of _ i pr "or_else (pp_price_per_page_bureau pr) (lp_price_per_page_bureau old)"])
      (auto simp: update_pair_price_def tables_simps split: if_split_asm)
next
  case (price_deleted session i db db')
  then show ?case by (intro fewer_pairs [of _ i]) (auto simp: delete_pair_price_def tables_simps split: option.splits)
qed

lemma replaced_ids: "iden r = i \<Longrightarrow> map iden (update_where (\<lambda>x. iden x = i) (\<lambda>_. r) rows) = map iden rows"
  by (induction rows) auto

lemma tariff_change_ok:
  assumes "tariff_change db db'" and "tariff_ok db" and later: "next_id db \<le> next_id db'"
  shows "tariff_ok db'"
  using assms(1)
proof cases
  case same_tariff
  with assms show ?thesis by (auto simp: tariff_ok_def dest: order_less_le_trans)
next
  case (more_types d)
  with assms(2) have "next_id db \<notin> dt_id ` set (document_types db)" by (auto simp: tariff_ok_def)
  with more_types assms(2) show ?thesis by (auto simp: tariff_ok_def)
next
  case (other_type i d)
  have ids: "map dt_id (document_types db') = map dt_id (document_types db)" unfolding other_type(1) by (rule replaced_ids) simp
  then have same: "dt_id ` set (document_types db') = dt_id ` set (document_types db)" by (metis set_map)
  have "\<forall>n \<in> dt_id ` set (document_types db). n < next_id db'" using assms(2) later by (auto simp: tariff_ok_def)
  then have "\<forall>r \<in> set (document_types db'). dt_id r < next_id db'" unfolding same [symmetric] by simp
  then show ?thesis using assms(2) later other_type(2) ids unfolding tariff_ok_def by auto
next
  case (more_pairs pr b)
  with assms(2) have "next_id db \<notin> lp_id ` set (language_pairs db)" by (auto simp: tariff_ok_def)
  with more_pairs assms(2) show ?thesis by (auto simp: tariff_ok_def)
next
  case (other_pair i pr b)
  have ids: "map lp_id (language_pairs db') = map lp_id (language_pairs db)" unfolding other_pair(1) by (rule replaced_ids) simp
  then have same: "lp_id ` set (language_pairs db') = lp_id ` set (language_pairs db)" by (metis set_map)
  have "\<forall>n \<in> lp_id ` set (language_pairs db). n < next_id db'" using assms(2) later by (auto simp: tariff_ok_def)
  then have "\<forall>r \<in> set (language_pairs db'). lp_id r < next_id db'" unfolding same [symmetric] by simp
  moreover have "distinct (map priced_pair (language_pairs db'))"
    unfolding other_pair(1) by (rule distinct_replaced) (use assms(2) other_pair(2) in \<open>simp_all add: tariff_ok_def\<close>)
  moreover have "\<forall>r \<in> set (language_pairs db'). pair_of r = priced_pair r"
    using assms(2) unfolding other_pair(1) tariff_ok_def by (auto simp: set_update_where)
  ultimately show ?thesis using assms(2) later other_pair(3) ids unfolding tariff_ok_def by auto
next
  case (fewer_pairs i)
  with assms show ?thesis by (auto simp: tariff_ok_def distinct_map_filter dest: order_less_le_trans)
qed

lemma setup_run_tariff: "setup_run db db' \<Longrightarrow> tariff_ok db \<Longrightarrow> tariff_ok db'"
proof (induction rule: setup_run.induct)
  case (one_more db db' db'')
  have "next_id db' \<le> next_id db''" using setup_step_kept [OF one_more(2)] by (simp add: work_kept_def)
  with one_more tariff_change_ok [OF setup_step_changes [OF one_more(2)]] show ?case by blast
qed

lemma fold_rates:
  assumes "distinct (map k rows)"
  shows "fold (\<lambda>r m. case v r of None \<Rightarrow> m | Some p \<Rightarrow> m(k r \<mapsto> p)) rows Map.empty x = Some p \<longleftrightarrow>
    (\<exists>r \<in> set rows. k r = x \<and> v r = Some p)"
  using assms
proof (induction rows arbitrary: p rule: rev_induct)
  case (snoc r rows)
  then have "k r \<notin> k ` set rows" by simp
  then have other: "k s \<noteq> k r" if "s \<in> set rows" for s using that by (metis image_eqI)
  show ?case
  proof (cases "k r = x")
    case True
    have "fold (\<lambda>r m. case v r of None \<Rightarrow> m | Some p \<Rightarrow> m(k r \<mapsto> p)) rows Map.empty x \<noteq> Some q" for q
      using snoc True other by auto
    with True other show ?thesis by (auto split: option.split)
  next
    case False
    with snoc show ?thesis by (auto split: option.split)
  qed
qed simp

lemma load_rates_iff:
  assumes "tariff_ok db"
  shows "load_rates (language_pairs db) x = Some p \<longleftrightarrow>
      (\<exists>r \<in> set (language_pairs db). lp_is_active r \<and> priced_pair r = x \<and> lp_price_per_page r = p)"
    and "load_minute_rates (language_pairs db) x = Some p \<longleftrightarrow>
      (\<exists>r \<in> set (language_pairs db). lp_is_active r \<and> priced_pair r = x \<and> lp_price_per_minute r = Some p)"
proof -
  have e: "map pair_of (filter lp_is_active (language_pairs db)) = map priced_pair (filter lp_is_active (language_pairs db))"
    using assms by (auto simp: tariff_ok_def)
  have d: "distinct (map pair_of (filter lp_is_active (language_pairs db)))"
    unfolding e using assms by (simp add: tariff_ok_def distinct_map_filter)
  have same: "pair_of r = priced_pair r" if "r \<in> set (language_pairs db)" for r using assms that by (simp add: tariff_ok_def)
  show "load_rates (language_pairs db) x = Some p \<longleftrightarrow>
      (\<exists>r \<in> set (language_pairs db). lp_is_active r \<and> priced_pair r = x \<and> lp_price_per_page r = p)"
    using fold_rates [OF d, of "\<lambda>r. Some (lp_price_per_page r)" x p] same by (auto simp: load_rates_def)
  show "load_minute_rates (language_pairs db) x = Some p \<longleftrightarrow>
      (\<exists>r \<in> set (language_pairs db). lp_is_active r \<and> priced_pair r = x \<and> lp_price_per_minute r = Some p)"
    using fold_rates [OF d, of lp_price_per_minute x p] same by (auto simp: load_minute_rates_def)
qed

text \<open>C24: what the order form and the calculator are told is what the engine charges. After any changes of the settings,
  the rates per page and per minute listed for a pair are the ones an order in that pair is priced with, and no
  other pair has one; so are the multipliers of document types and urgencies, the courier's fee, the default due
  days and the characters to a page.\<close>

theorem prices_shown_are_charged:
  assumes "setup_run db db'" and "tariff_ok db"
  shows "let ref = get_reference name_order today db';
             ctx = load_pricing_context (tenant_settings_row db') (language_pairs db') (document_types db') plan type_ids
         in (\<forall>s t p. ctx_rate ctx s t = Some p \<longleftrightarrow> (\<exists>m. (lower s, lower t, p, m) \<in> set (rd_language_pairs ref))) \<and>
            (\<forall>s t m. ctx_minute_rate ctx s t = Some m \<longleftrightarrow> (\<exists>p. (lower s, lower t, p, Some m) \<in> set (rd_language_pairs ref))) \<and>
            (\<forall>(i, _, _, m) \<in> set (rd_document_types ref). i \<in> set type_ids \<longrightarrow> pc_multipliers ctx i = Some m) \<and>
            (\<forall>u. \<exists>l. (u, l) \<in> set (rd_urgency_levels ref) \<and> urgency_multiplier (pc_config ctx) u = lv_multiplier l \<and>
               pc_due_days ctx u = lv_days l) \<and>
            (DELIVERY, delivery_fee (pc_config ctx), True) \<in> set (rd_handover_costs ref) \<and>
            pc_characters_per_page ctx = rd_characters_per_page ref"
proof -
  have ok: "tariff_ok db'" by (rule setup_run_tariff [OF assms])
  let ?ref = "get_reference name_order today db'"
  let ?ctx = "load_pricing_context (tenant_settings_row db') (language_pairs db') (document_types db') plan type_ids"
  have pairs: "(s, t, p, m) \<in> set (rd_language_pairs ?ref) \<longleftrightarrow> (\<exists>r \<in> set (language_pairs db'). lp_is_active r \<and>
      priced_pair r = (s, t) \<and> lp_price_per_page r = p \<and> lp_price_per_minute r = m)" for s t p m
    by (auto simp: get_reference_def Let_def priced_pair_def)
  have "(\<forall>s t p. ctx_rate ?ctx s t = Some p \<longleftrightarrow> (\<exists>m. (lower s, lower t, p, m) \<in> set (rd_language_pairs ?ref))) \<and>
      (\<forall>s t m. ctx_minute_rate ?ctx s t = Some m \<longleftrightarrow> (\<exists>p. (lower s, lower t, p, Some m) \<in> set (rd_language_pairs ?ref)))"
    by (auto simp: ctx_rate_def ctx_minute_rate_def load_pricing_context_def pairs load_rates_iff [OF ok])
  moreover have "\<forall>(i, _, _, m) \<in> set (rd_document_types ?ref). i \<in> set type_ids \<longrightarrow> pc_multipliers ?ctx i = Some m"
    using ok by (auto simp: get_reference_def Let_def load_pricing_context_def tariff_ok_def get_row_Some_iff_distinct)
  moreover have "\<exists>l. (u, l) \<in> set (rd_urgency_levels ?ref) \<and> urgency_multiplier (pc_config ?ctx) u = lv_multiplier l \<and>
      pc_due_days ?ctx u = lv_days l" for u
    by (cases u; cases "tenant_settings_row db'")
      (simp_all add: get_reference_def Let_def load_pricing_context_def config_from_settings_def pricing_for_plan_def
        pricing_defaults_def urgency_multiplier_def)
  moreover have "(DELIVERY, delivery_fee (pc_config ?ctx), True) \<in> set (rd_handover_costs ?ref) \<and>
      pc_characters_per_page ?ctx = rd_characters_per_page ?ref"
    by (cases "tenant_settings_row db'")
      (simp_all add: get_reference_def Let_def load_pricing_context_def config_from_settings_def pricing_for_plan_def pricing_defaults_def)
  ultimately show ?thesis unfolding Let_def by blast
qed

text \<open>A bureau that sets a price for a new pair.\<close>

definition ex_price :: pair_price_in where
  "ex_price = \<lparr>pp_source = ''EN'', pp_target = ''de'', pp_price_per_page = 20, pp_price_per_minute = None,
     pp_price_per_page_bureau = None, pp_active = True\<rparr>"

lemma ex_tariff: "tariff_ok ex_office"
proof -
  have "pair_of r = priced_pair r" if "r \<in> set (language_pairs ex_office)" for r
    using that by (simp add: ex_office_def pair_of_def priced_pair_def lower_def lower_char_def)
  then show ?thesis by (simp add: tariff_ok_def ex_office_def)
qed

theorem prices_shown_are_charged_witness:
  "\<exists>out db'. create_pair_price ex_caller ex_price ex_office = Inr (out, db') \<and>
     ctx_rate (load_pricing_context (tenant_settings_row db') (language_pairs db') (document_types db') BUREAU []) ''En'' ''DE'' = Some 20"
proof -
  have "case create_pair_price ex_caller ex_price ex_office of
      Inr (out, db') \<Rightarrow> map (\<lambda>(s, t, p, m). (s, t, p)) (rd_language_pairs (get_reference (\<lambda>_. 0) 0 db')) =
        [(''ka'', ''en'', 15), (''en'', ''de'', 20)] | Inl _ \<Rightarrow> False"
    by code_simp
  then obtain out db' where made: "create_pair_price ex_caller ex_price ex_office = Inr (out, db')"
    and shown: "map (\<lambda>(s, t, p, m). (s, t, p)) (rd_language_pairs (get_reference (\<lambda>_. 0) 0 db')) = [(''ka'', ''en'', 15), (''en'', ''de'', 20)]"
    by (auto split: sum.splits prod.splits)
  from shown have "(''en'', ''de'', 20) \<in> set (map (\<lambda>(s, t, p, m). (s, t, p)) (rd_language_pairs (get_reference (\<lambda>_. 0) 0 db')))"
    by simp
  then obtain m where entry: "(''en'', ''de'', 20, m) \<in> set (rd_language_pairs (get_reference (\<lambda>_. 0) 0 db'))" by auto
  have codes: "lower ''En'' = ''en''" "lower ''DE'' = ''de''" by code_simp+
  have run: "setup_run ex_office db'" by (rule one_more [OF no_setup price_made [OF made]])
  have "ctx_rate (load_pricing_context (tenant_settings_row db') (language_pairs db') (document_types db') BUREAU []) ''En'' ''DE'' = Some 20"
    using entry unfolding conjunct1 [OF prices_shown_are_charged [OF run ex_tariff, where name_order = "\<lambda>_. 0" and today = 0, unfolded Let_def], rule_format] codes by blast
  with made show ?thesis by blast
qed

section \<open>Translators\<close>

text \<open>A language pair as it is stored: from, into, and a rate of its own.\<close>

definition from_into :: "string \<times> string \<times> rat option \<Rightarrow> string \<times> string" where
  "from_into = (\<lambda>(s, t, _). (s, t))"

lemma both_ways_fold:
  assumes "distinct (map direction ps)" and "set (map direction ps) \<inter> from_into ` set st = {}"
    and "distinct (map from_into st)" and "E = set (map direction ps) \<union> from_into ` set st"
    and "fold both_ways_step ps (E, st) = (E', st')"
  shows "distinct (map from_into st') \<and> set st \<subseteq> set st' \<and>
    (\<forall>p \<in> set ps. (pr_source p, pr_target p, pr_rate p) \<in> set st' \<and>
       (\<not> pr_one_way p \<longrightarrow> (pr_target p, pr_source p) \<in> from_into ` set st')) \<and>
    set st' \<subseteq> set st \<union> {(pr_source p, pr_target p, pr_rate p) |p. p \<in> set ps} \<union>
      {(pr_target p, pr_source p, None) |p. p \<in> set ps \<and> \<not> pr_one_way p}"
  using assms
proof (induction ps arbitrary: E st)
  case (Cons p ps)
  let ?turned = "(pr_target p, pr_source p)"
  let ?here = "st @ [(pr_source p, pr_target p, pr_rate p)]"
  have dir: "from_into (pr_source p, pr_target p, pr_rate p) = direction p" "from_into (pr_target p, pr_source p, None) = ?turned"
    by (simp_all add: from_into_def direction_def)
  have apart: "direction p \<notin> set (map direction ps)" "direction p \<notin> from_into ` set st"
    "set (map direction ps) \<inter> from_into ` set st = {}" using Cons.prems(1,2) by auto
  show ?case
  proof (cases "\<not> pr_one_way p \<and> ?turned \<notin> E")
    case True
    define new where "new = ?here @ [(pr_target p, pr_source p, None)]"
    have "?turned \<notin> set (map direction ps)" "?turned \<noteq> direction p" "?turned \<notin> from_into ` set st"
      using True Cons.prems(4) by auto
    then have "set (map direction ps) \<inter> from_into ` set new = {}" "distinct (map from_into new)"
      using apart Cons.prems(3) dir by (auto simp: new_def)
    moreover have "insert ?turned E = set (map direction ps) \<union> from_into ` set new" using Cons.prems(4) dir by (auto simp: new_def)
    moreover have "fold both_ways_step ps (insert ?turned E, new) = (E', st')"
    proof -
      have "both_ways_step p (E, st) = (insert ?turned E, new)" using True by (simp add: both_ways_step_def Let_def new_def)
      then show ?thesis using Cons.prems(5) by simp
    qed
    ultimately have IH: "distinct (map from_into st') \<and> set new \<subseteq> set st' \<and>
        (\<forall>p \<in> set ps. (pr_source p, pr_target p, pr_rate p) \<in> set st' \<and>
           (\<not> pr_one_way p \<longrightarrow> (pr_target p, pr_source p) \<in> from_into ` set st')) \<and>
        set st' \<subseteq> set new \<union> {(pr_source p, pr_target p, pr_rate p) |p. p \<in> set ps} \<union>
          {(pr_target p, pr_source p, None) |p. p \<in> set ps \<and> \<not> pr_one_way p}"
      using Cons.IH Cons.prems(1) by simp
    then have added: "(pr_source p, pr_target p, pr_rate p) \<in> set st'" "(pr_target p, pr_source p, None) \<in> set st'"
      "set st \<subseteq> set st'" unfolding new_def by simp_all
    have "?turned \<in> from_into ` set st'" using added(2) dir(2) by (rule_tac image_eqI [OF sym]) auto
    moreover have "set st' \<subseteq> set st \<union> {(pr_source q, pr_target q, pr_rate q) |q. q \<in> set (p # ps)} \<union>
        {(pr_target q, pr_source q, None) |q. q \<in> set (p # ps) \<and> \<not> pr_one_way q}"
    proof
      fix x assume "x \<in> set st'"
      with IH have "x \<in> set new \<or> (\<exists>q \<in> set ps. x = (pr_source q, pr_target q, pr_rate q)) \<or>
        (\<exists>q \<in> set ps. x = (pr_target q, pr_source q, None) \<and> \<not> pr_one_way q)" by blast
      then show "x \<in> set st \<union> {(pr_source q, pr_target q, pr_rate q) |q. q \<in> set (p # ps)} \<union>
        {(pr_target q, pr_source q, None) |q. q \<in> set (p # ps) \<and> \<not> pr_one_way q}"
        using True unfolding new_def by fastforce
    qed
    ultimately show ?thesis using IH added by simp
  next
    case False
    define new where "new = ?here"
    have "set (map direction ps) \<inter> from_into ` set new = {}" "distinct (map from_into new)"
      using apart Cons.prems(3) dir by (auto simp: new_def)
    moreover have "E = set (map direction ps) \<union> from_into ` set new" using Cons.prems(4) dir by (auto simp: new_def)
    moreover have "fold both_ways_step ps (E, new) = (E', st')"
    proof -
      have "both_ways_step p (E, st) = (E, new)" unfolding both_ways_step_def Let_def new_def using False by auto
      then show ?thesis using Cons.prems(5) by simp
    qed
    ultimately have IH: "distinct (map from_into st') \<and> set new \<subseteq> set st' \<and>
        (\<forall>p \<in> set ps. (pr_source p, pr_target p, pr_rate p) \<in> set st' \<and>
           (\<not> pr_one_way p \<longrightarrow> (pr_target p, pr_source p) \<in> from_into ` set st')) \<and>
        set st' \<subseteq> set new \<union> {(pr_source p, pr_target p, pr_rate p) |p. p \<in> set ps} \<union>
          {(pr_target p, pr_source p, None) |p. p \<in> set ps \<and> \<not> pr_one_way p}"
      using Cons.IH Cons.prems(1) by simp
    have "?turned \<in> from_into ` set st'" if "\<not> pr_one_way p"
    proof -
      have "?turned \<in> set (map direction ps) \<union> from_into ` set new" using False that Cons.prems(4) dir by (auto simp: new_def)
      then consider q where "q \<in> set ps" "?turned = direction q" | "?turned \<in> from_into ` set new" by auto
      then show ?thesis
      proof cases
        case 1
        then have "(pr_source q, pr_target q, pr_rate q) \<in> set st'" using IH by blast
        then show ?thesis using 1(2) by (rule_tac image_eqI) (simp_all add: direction_def from_into_def)
      next
        case 2
        then show ?thesis using IH image_mono [of "set new" "set st'" from_into] by blast
      qed
    qed
    moreover have "set st' \<subseteq> set st \<union> {(pr_source q, pr_target q, pr_rate q) |q. q \<in> set (p # ps)} \<union>
        {(pr_target q, pr_source q, None) |q. q \<in> set (p # ps) \<and> \<not> pr_one_way q}"
    proof
      fix x assume "x \<in> set st'"
      with IH have "x \<in> set new \<or> (\<exists>q \<in> set ps. x = (pr_source q, pr_target q, pr_rate q)) \<or>
        (\<exists>q \<in> set ps. x = (pr_target q, pr_source q, None) \<and> \<not> pr_one_way q)" by blast
      then show "x \<in> set st \<union> {(pr_source q, pr_target q, pr_rate q) |q. q \<in> set (p # ps)} \<union>
        {(pr_target q, pr_source q, None) |q. q \<in> set (p # ps) \<and> \<not> pr_one_way q}"
        unfolding new_def by fastforce
    qed
    moreover have "set st \<subseteq> set st'" "(pr_source p, pr_target p, pr_rate p) \<in> set st'" using IH unfolding new_def by simp_all
    ultimately show ?thesis using IH by simp
  qed
qed auto

lemma both_ways_pairs:
  assumes "distinct (map direction ps)"
  shows "distinct (map from_into (both_ways ps))"
    and "p \<in> set ps \<Longrightarrow> (pr_source p, pr_target p, pr_rate p) \<in> set (both_ways ps)"
    and "p \<in> set ps \<Longrightarrow> \<not> pr_one_way p \<Longrightarrow> (pr_target p, pr_source p) \<in> from_into ` set (both_ways ps)"
    and "x \<in> set (both_ways ps) \<Longrightarrow> \<exists>p \<in> set ps. x = (pr_source p, pr_target p, pr_rate p) \<or>
      (\<not> pr_one_way p \<and> x = (pr_target p, pr_source p, None))"
proof -
  obtain E st where run: "fold both_ways_step ps (set (map direction ps), []) = (E, st)" by fastforce
  then have st: "both_ways ps = st" by (simp add: both_ways_def)
  from both_ways_fold [OF assms _ _ _ run] have facts: "distinct (map from_into st)"
    "\<forall>p \<in> set ps. (pr_source p, pr_target p, pr_rate p) \<in> set st \<and> (\<not> pr_one_way p \<longrightarrow> (pr_target p, pr_source p) \<in> from_into ` set st)"
    "set st \<subseteq> {(pr_source p, pr_target p, pr_rate p) |p. p \<in> set ps} \<union> {(pr_target p, pr_source p, None) |p. p \<in> set ps \<and> \<not> pr_one_way p}"
    by simp_all
  show "distinct (map from_into (both_ways ps))" using facts(1) by (simp add: st)
  show "p \<in> set ps \<Longrightarrow> (pr_source p, pr_target p, pr_rate p) \<in> set (both_ways ps)" using facts(2) by (simp add: st)
  show "p \<in> set ps \<Longrightarrow> \<not> pr_one_way p \<Longrightarrow> (pr_target p, pr_source p) \<in> from_into ` set (both_ways ps)" using facts(2) by (simp add: st)
  show "x \<in> set (both_ways ps) \<Longrightarrow> \<exists>p \<in> set ps. x = (pr_source p, pr_target p, pr_rate p) \<or>
      (\<not> pr_one_way p \<and> x = (pr_target p, pr_source p, None))" using facts(3) unfolding st by blast
qed

lemma once_each_facts: "distinct (once_each xs) \<and> set (once_each xs) = set xs"
proof -
  have "distinct (fold (\<lambda>x seen. if x \<in> set seen then seen else seen @ [x]) xs acc) \<and>
      set (fold (\<lambda>x seen. if x \<in> set seen then seen else seen @ [x]) xs acc) = set acc \<union> set xs" if "distinct acc" for acc
    using that by (induction xs arbitrary: acc) auto
  then show ?thesis by (simp add: once_each_def)
qed

lemma valid_citiesD:
  assumes "valid_cities cs = Inr out"
  shows "distinct out" and "set out = (\<lambda>c. lower (strip c)) ` set cs" and "set out \<subseteq> set CITIES"
  using assms once_each_facts [of "map (\<lambda>c. lower (strip c)) cs"]
  by (auto simp: valid_cities_def Let_def split: if_splits)

lemma city_plain: "c \<in> set CITIES \<Longrightarrow> c \<noteq> [] \<and> CHR '','' \<notin> set c"
  by (auto simp: CITIES_def)

lemma split_joined:
  "cs \<noteq> [] \<Longrightarrow> (\<And>c. c \<in> set cs \<Longrightarrow> sep \<notin> set c) \<Longrightarrow>
     split_on sep (join_with sep cs @ [sep]) = cs @ [[]]"
  by (induction sep cs rule: join_with.induct) (auto simp: split_on_append split_on_absent)

text \<open>The column gives back the list that was packed into it.\<close>

lemma unpack_pack:
  assumes "set cs \<subseteq> set CITIES"
  shows "unpack (pack cs) = cs"
proof (cases "cs = []")
  case True
  then show ?thesis by (simp add: unpack_def pack_def or_blank_def)
next
  case False
  have plain: "c \<noteq> [] \<and> CHR '','' \<notin> set c" if "c \<in> set cs" for c using city_plain assms that by blast
  have "split_on (CHR '','') (CHR '','' # join_with (CHR '','') cs @ '','') = [] # cs @ [[]]"
    using split_joined [OF False, of "CHR '',''"] plain by simp
  moreover have "filter (\<lambda>c. c \<noteq> []) cs = cs" using plain by (simp add: filter_id_conv)
  ultimately show ?thesis using False by (simp add: unpack_def pack_def or_blank_def)
qed

lemma pair_rows_out: "map pair_out (pair_rows i n st) = st"
  by (rule nth_equalityI) (auto simp: pair_rows_def pair_out_def nth_enumerate_eq split: prod.splits)

lemma pair_rows_ids: "map tp_id (pair_rows i n st) = map (\<lambda>k. n + int k) [0..<length st]"
  by (rule nth_equalityI) (auto simp: pair_rows_def nth_enumerate_eq split: prod.splits)

lemma pair_rows_party: "r \<in> set (pair_rows i n st) \<Longrightarrow> tp_translator_id r = i"
  by (auto simp: pair_rows_def)

lemma replaced_pairs_listed:
  assumes "replace_pairs i ps db = Inr db'"
  shows "pairs_of i db' = pair_rows i (next_id db) (both_ways ps)"
proof -
  have "filter (\<lambda>r. tp_translator_id r = i) (translator_pairs db') = pair_rows i (next_id db) (both_ways ps)"
    using assms pair_rows_party [of _ i "next_id db" "both_ways ps"]
    by (auto simp: replace_pairs_def Let_def filter_empty_conv filter_id_conv split: if_splits)
  moreover have "sorted (map tp_id (pair_rows i (next_id db) (both_ways ps)))"
    by (simp add: pair_rows_ids sorted_iff_nth_mono)
  ultimately show ?thesis by (simp add: pairs_of_def sort_key_id_if_sorted)
qed

lemma sort_key_map_kept: "(\<And>x. key (f x) = key x) \<Longrightarrow> sort_key key (map f xs) = map f (sort_key key xs)"
proof (induction xs)
  case (Cons x xs)
  have "insort_key key (f x) (map f ys) = map f (insort_key key x ys)" for ys
    by (induction ys) (auto simp: Cons.prems)
  with Cons show ?case by simp
qed simp

lemma columns_pairs: "pairs_of i (rates_to_columns i db) =
   map (\<lambda>p. p\<lparr>tp_rate_per_page := map_option (numeric 2) (tp_rate_per_page p)\<rparr>) (pairs_of i db)"
  unfolding pairs_of_def rates_to_columns_def by (simp add: filter_update_where sort_key_map_kept)

lemma columns_pairs_out: "map pair_out (pairs_of i (rates_to_columns i db)) =
   map (\<lambda>(s, t, r). (s, t, map_option (numeric 2) r)) (map pair_out (pairs_of i db))"
proof -
  have "map pair_out (map (\<lambda>p. p\<lparr>tp_rate_per_page := map_option (numeric 2) (tp_rate_per_page p)\<rparr>) rows) =
      map (\<lambda>(s, t, r). (s, t, map_option (numeric 2) r)) (map pair_out rows)" for rows
    by (induction rows) (simp_all add: pair_out_def)
  then show ?thesis by (simp only: columns_pairs)
qed

lemma get_row_created:
  assumes "\<forall>r \<in> set rows. key r \<noteq> k" and "key x = k"
  shows "get_row key k (rows @ [x]) = Some x"
  using assms by (induction rows) (auto simp: get_row_def)

lemma get_row_updated:
  "(\<And>r. key (f r) = key r) \<Longrightarrow> get_row key k (update_where (\<lambda>r. key r = k) f rows) = map_option f (get_row key k rows)"
  by (induction rows) (auto simp: get_row_def update_where_def)

lemma both_ways_shown:
  assumes "distinct (map direction ps)"
  defines "out \<equiv> map (\<lambda>(s, t, r). (s, t, map_option (numeric 2) r)) (both_ways ps)"
  shows "distinct (map from_into out)"
    and "q \<in> set ps \<Longrightarrow> (pr_source q, pr_target q, map_option (numeric 2) (pr_rate q)) \<in> set out"
    and "q \<in> set ps \<Longrightarrow> \<not> pr_one_way q \<Longrightarrow> (pr_target q, pr_source q) \<in> from_into ` set out"
    and "x \<in> set out \<Longrightarrow> \<exists>q \<in> set ps. x = (pr_source q, pr_target q, map_option (numeric 2) (pr_rate q)) \<or>
      (\<not> pr_one_way q \<and> x = (pr_target q, pr_source q, None))"
proof -
  have ways: "map from_into out = map from_into (both_ways ps)" by (auto simp: out_def from_into_def)
  then show "distinct (map from_into out)" using both_ways_pairs(1) [OF assms(1)] by simp
  show "(pr_source q, pr_target q, map_option (numeric 2) (pr_rate q)) \<in> set out" if "q \<in> set ps"
    using both_ways_pairs(2) [OF assms(1) that] by (force simp: out_def)
  have "from_into ` set out = from_into ` set (both_ways ps)" using arg_cong [OF ways, of set] by simp
  then show "q \<in> set ps \<Longrightarrow> \<not> pr_one_way q \<Longrightarrow> (pr_target q, pr_source q) \<in> from_into ` set out"
    using both_ways_pairs(3) [OF assms(1)] by simp
  assume "x \<in> set out"
  then obtain s t r where "x = (s, t, map_option (numeric 2) r)" "(s, t, r) \<in> set (both_ways ps)" by (auto simp: out_def)
  with both_ways_pairs(4) [OF assms(1) this(2)] show "\<exists>q \<in> set ps. x = (pr_source q, pr_target q, map_option (numeric 2) (pr_rate q)) \<or>
      (\<not> pr_one_way q \<and> x = (pr_target q, pr_source q, None))" by fastforce
qed

text \<open>Whatever else an edit changes, a translator whose cities it leaves out has none afterwards.\<close>

lemma edit_clears_cities:
  assumes "update_translator session i u db = Inr (out, db')" and "tu_cities u = None"
  shows "tsm_cities out = []"
proof -
  from assms(2) have none: "valid_cities (or_else (or_else (tu_cities u) None) []) = Inr []"
    by (simp add: valid_cities_def once_each_def or_else_def)
  from assms(1) show ?thesis
    by (auto simp: update_translator_def validate_translator_update_def none Let_def translator_detail_of_def
        translator_summary_of_def translator_summary.defs apply_translator_update_def pack_def unpack_def or_blank_def
        split: option.splits if_splits)
qed

text \<open>C36: a translator is read back as they were entered. When \<^verbatim>\<open>create_translator\<close> accepts what was
  typed, their screen shows the cities typed, trimmed, in lower case and each once, though one text
  column keeps them; their rates as the columns round them; every language pair listed, with its
  rate; the reverse of each that is not one way; no direction twice; and no pair besides these.
\<close>

theorem translator_reads_back:
  assumes made: "create_translator session raw db = Inr (out, db')"
    and young: "\<forall>t \<in> set (translators db). tr_id t < next_id db"
  shows "\<exists>p shown. validate_translator_in raw = Inr p \<and> get_translator (next_id db) db' = Inr shown \<and>
     tsm_name shown = ti_name raw \<and> tsm_default_rate shown = map_option (numeric 2) (ti_default_rate raw) \<and>
     distinct (tsm_cities shown) \<and> set (tsm_cities shown) = (\<lambda>c. lower (strip c)) ` set (ti_cities raw) \<and>
     distinct (map from_into (tsm_language_pairs shown)) \<and>
     (\<forall>q \<in> set (ti_language_pairs p).
        (pr_source q, pr_target q, map_option (numeric 2) (pr_rate q)) \<in> set (tsm_language_pairs shown) \<and>
        (\<not> pr_one_way q \<longrightarrow> (pr_target q, pr_source q) \<in> from_into ` set (tsm_language_pairs shown))) \<and>
     (\<forall>x \<in> set (tsm_language_pairs shown). \<exists>q \<in> set (ti_language_pairs p).
        x = (pr_source q, pr_target q, map_option (numeric 2) (pr_rate q)) \<or>
        (\<not> pr_one_way q \<and> x = (pr_target q, pr_source q, None)))"
proof -
  from made obtain p where p: "validate_translator_in raw = Inr p"
    by (cases "validate_translator_in raw") (simp_all add: create_translator_def)
  then obtain cleaned where cleaned: "unique_pairs cleaned = Inr (ti_language_pairs p)" "valid_cities (ti_cities raw) = Inr (ti_cities p)"
    and kept: "ti_name p = ti_name raw" "ti_default_rate p = ti_default_rate raw"
    by (auto simp: validate_translator_in_def split: if_splits elim!: bind_result_InrE)
  have dirs: "distinct (map direction (ti_language_pairs p))" using cleaned(1) by (auto simp: unique_pairs_def split: if_splits)
  define i where "i = next_id db"
  define ps where "ps = both_ways (ti_language_pairs p)"
  let ?row = "translator_of i p"
  from made p obtain db1 where
    replaced: "replace_pairs i (ti_language_pairs p) (db\<lparr>next_id := i + 1, translators := translators db @ [?row]\<rparr>) = Inr db1"
    and db': "db' = rates_to_columns i (log_office session ''translator.created'' ''translator'' i db1)"
    by (auto simp: create_translator_def Let_def i_def)
  have rows: "translators db1 = translators db @ [?row]" using replaced by (auto simp: replace_pairs_def Let_def split: if_splits)
  let ?t = "?row\<lparr>tr_default_rate := map_option (numeric 2) (ti_default_rate p)\<rparr>"
  have made: "tr_id ?row = i" "tr_default_rate ?row = ti_default_rate p" "tr_name ?row = ti_name p" "tr_cities ?row = pack (ti_cities p)"
    by (simp_all add: translator_of_def)
  have "get_row tr_id i (translators db @ [?row]) = Some ?row"
    using young by (intro get_row_created) (auto simp: made(1) i_def [symmetric])
  then have "get_row tr_id i (translators db') = Some ?t"
    using get_row_updated [of tr_id "\<lambda>t. t\<lparr>tr_default_rate := map_option (numeric 2) (tr_default_rate t)\<rparr>" i "translators db @ [?row]"]
    by (simp add: db' rates_to_columns_def log_office_def rows made)
  then have got: "get_translator i db' = Inr (translator_detail_of db' ?t)" by (simp add: get_translator_def)
  have "map pair_out (pairs_of i db1) = ps" using replaced_pairs_listed [OF replaced] by (simp add: pair_rows_out ps_def)
  moreover have "pairs_of i (log_office session a e n db1) = pairs_of i db1" for a e n by (simp add: pairs_of_def log_office_def)
  ultimately have pairs: "map pair_out (pairs_of i db') = map (\<lambda>(s, t, r). (s, t, map_option (numeric 2) r)) ps"
    by (simp only: db' columns_pairs_out)
  have shown: "tsm_name (translator_detail_of db' ?t) = ti_name raw" "tsm_cities (translator_detail_of db' ?t) = ti_cities p"
    "tsm_default_rate (translator_detail_of db' ?t) = map_option (numeric 2) (ti_default_rate raw)"
    "tsm_language_pairs (translator_detail_of db' ?t) = map (\<lambda>(s, t, r). (s, t, map_option (numeric 2) r)) ps"
    using unpack_pack [OF valid_citiesD(3) [OF cleaned(2)]] kept pairs made
    by (simp_all add: translator_detail_of_def translator_summary_of_def translator_summary.defs)
  show ?thesis
  proof (intro exI conjI)
    show "validate_translator_in raw = Inr p" by (rule p)
    show "get_translator (next_id db) db' = Inr (translator_detail_of db' ?t)" using got by (simp add: i_def)
  qed (simp_all only: shown valid_citiesD [OF cleaned(2)] ps_def, use both_ways_shown [OF dirs] in \<open>blast+\<close>)
qed

definition ex_translator_in :: translator_in where
  "ex_translator_in = \<lparr>ti_name = ''Maka'', ti_phone = None, ti_email = None, ti_office_address = None, ti_comment = None,
     ti_experience_from = None, ti_is_active = True, ti_default_rate = Some (7 / 2), ti_bank_iban = None, ti_bank_inn = None,
     ti_bank_code = None, ti_can_notarize = False, ti_works_written = True, ti_works_oral = False,
     ti_cities = [''Batumi '', ''batumi'', ''tbilisi''],
     ti_language_pairs = [\<lparr>pr_source = ''KA'', pr_target = ''en'', pr_rate = Some 6, pr_one_way = False\<rparr>]\<rparr>"

text \<open>Two spellings of one city, and a pair worked both ways.\<close>

theorem translator_reads_back_witness:
  "\<exists>out db' shown. create_translator ex_caller ex_translator_in ex_office = Inr (out, db') \<and>
     get_translator 100 db' = Inr shown \<and> set (tsm_cities shown) = {''batumi'', ''tbilisi''} \<and>
     (''en'', ''ka'') \<in> from_into ` set (tsm_language_pairs shown)"
proof -
  have "case create_translator ex_caller ex_translator_in ex_office of Inr _ \<Rightarrow> True | Inl _ \<Rightarrow> False" by code_simp
  then obtain out db' where made: "create_translator ex_caller ex_translator_in ex_office = Inr (out, db')"
    by (auto split: sum.splits)
  have "case validate_translator_in ex_translator_in of
      Inr p \<Rightarrow> ti_language_pairs p = [\<lparr>pr_source = ''ka'', pr_target = ''en'', pr_rate = Some 6, pr_one_way = False\<rparr>] | Inl _ \<Rightarrow> False"
    by code_simp
  then have listed: "ti_language_pairs p = [\<lparr>pr_source = ''ka'', pr_target = ''en'', pr_rate = Some 6, pr_one_way = False\<rparr>]"
    if "validate_translator_in ex_translator_in = Inr p" for p using that by simp
  have young: "\<forall>t \<in> set (translators ex_office). tr_id t < next_id ex_office" by (simp add: ex_office_defs)
  have first: "next_id ex_office = 100" by (simp add: ex_office_def)
  have cities: "(\<lambda>c. lower (strip c)) ` set (ti_cities ex_translator_in) = {''batumi'', ''tbilisi''}" by code_simp
  from translator_reads_back [OF made young, unfolded first cities] obtain p shown where
    p: "validate_translator_in ex_translator_in = Inr p" and shown: "get_translator 100 db' = Inr shown"
      "set (tsm_cities shown) = {''batumi'', ''tbilisi''}"
    and ways: "\<forall>q \<in> set (ti_language_pairs p). \<not> pr_one_way q \<longrightarrow> (pr_target q, pr_source q) \<in> from_into ` set (tsm_language_pairs shown)"
    by (elim exE conjE) (rule that, assumption, assumption, assumption, simp)
  have "(''en'', ''ka'') \<in> from_into ` set (tsm_language_pairs shown)" using ways listed [OF p] by simp
  with made shown show ?thesis by blast
qed

end
