(* ===== verification/Sheets.thy ===== *)
theory Sheets
  imports Directories
begin

text \<open>
  Judging the rows of a spreadsheet (\<^verbatim>\<open>domain/imports.py\<close>): what is typed in a cell, which column is
  which, and for each row of clients, translators or notaries whether it is new, already there, or
  cannot be used. Pure functions, as in the code. What the file libraries read is a list of cells;
  the words people use in Georgian and Russian are a \<open>lexicon\<close>, an argument. Folding of case is that
  of ASCII letters, and the dashes of a language pair are the ASCII ones.
\<close>

section \<open>Cells\<close>

text \<open>\<open>Whole\<close> is a float without a fraction, \<open>Day\<close> a date or the date of a moment, \<open>Typed\<close> text or any other value, as
  \<^verbatim>\<open>str\<close> writes it.\<close>

datatype cell = Empty_cell | Truth bool | Whole int | Day int int int | Typed string

fun split_spaces :: "string \<Rightarrow> string list" where
  "split_spaces [] = [[]]"
| "split_spaces (c # s) =
     (if is_space c then [] # split_spaces s
      else case split_spaces s of [] \<Rightarrow> [[c]] | p # ps \<Rightarrow> (c # p) # ps)"

text \<open>\<^verbatim>\<open>sep.join(parts)\<close>\<close>

fun join_by :: "string \<Rightarrow> string list \<Rightarrow> string" where
  "join_by sep [] = []"
| "join_by sep [s] = s"
| "join_by sep (s # t # rest) = s @ sep @ join_by sep (t # rest)"

definition squeeze :: "string \<Rightarrow> string" where
  "squeeze s = join_with (CHR '' '') (filter (\<lambda>w. w \<noteq> []) (split_spaces (replace_char (CHR 0xA0) '' '' s)))"

definition two_digits :: "int \<Rightarrow> string" where
  "two_digits n = [digit_char (n div 10 mod 10), digit_char (n mod 10)]"

definition isoformat :: "int \<Rightarrow> int \<Rightarrow> int \<Rightarrow> string" where
  "isoformat y m d = two_digits (y div 100) @ two_digits (y mod 100) @ ''-'' @ two_digits m @ ''-'' @ two_digits d"

definition cell_text :: "cell \<Rightarrow> string" where
  "cell_text v = (case v of Empty_cell \<Rightarrow> [] | Truth b \<Rightarrow> if b then ''yes'' else ''no'' | Whole i \<Rightarrow> show_int i
     | Day y m d \<Rightarrow> isoformat y m d | Typed s \<Rightarrow> squeeze s)"

subsection \<open>Phones, addresses, amounts\<close>

definition clean_phone :: "string \<Rightarrow> string option" where
  "clean_phone value = (if 6 \<le> length (digits_of value) then Some (take 50 value) else None)"

definition phone_key :: "string option \<Rightarrow> string option" where
  "phone_key value =
     (let digits = digits_of (or_blank value) in if 6 \<le> length digits then Some (last_nine digits) else None)"

text \<open>The pattern of an address: one at sign, something before it, and after it a dot that is neither first nor
  last.\<close>

definition email_shape :: "string \<Rightarrow> bool" where
  "email_shape s \<longleftrightarrow> list_all (\<lambda>c. \<not> is_space c) s \<and>
     (case split_on (CHR ''@'') s of
        [before, behind] \<Rightarrow> before \<noteq> [] \<and> list_ex (\<lambda>i. behind ! i = CHR ''.'') [1..<length behind - 1]
      | _ \<Rightarrow> False)"

text \<open>\<^verbatim>\<open>Decimal(text)\<close> on what the cleaning leaves of an amount: digits, dots and dashes.\<close>

definition read_unsigned :: "string \<Rightarrow> rat option" where
  "read_unsigned s = (case split_on (CHR ''.'') s of
       [a] \<Rightarrow> if all_digits a then Some (of_int (read_nat a)) else None
     | [a, b] \<Rightarrow>
         if list_all is_digit (a @ b) \<and> a @ b \<noteq> [] then Some (of_int (read_nat (a @ b)) / 10 ^ length b) else None
     | _ \<Rightarrow> None)"

definition read_decimal :: "string \<Rightarrow> rat option" where
  "read_decimal s = (case s of c # t \<Rightarrow> if c = CHR ''-'' then map_option uminus (read_unsigned t) else read_unsigned s
     | [] \<Rightarrow> None)"

definition parse_rate :: "string \<Rightarrow> rat option" where
  "parse_rate value =
     (let cleaned = replace_char (CHR '','') ''.''
            (filter (\<lambda>c. is_digit c \<or> c = CHR '','' \<or> c = CHR ''.'' \<or> c = CHR ''-'') value)
      in if cleaned = [] \<or> 1 < length (filter (\<lambda>c. c = CHR ''.'') cleaned) then None
         else case read_decimal cleaned of
             None \<Rightarrow> None
           | Some amount \<Rightarrow> if 0 \<le> amount \<and> amount \<le> 100000 then Some amount else None)"

definition parse_int :: "string \<Rightarrow> int option" where
  "parse_int value =
     (let digits = takeWhile is_digit (dropWhile (\<lambda>c. \<not> is_digit c) (replace_char (CHR '','') ''.'' value))
      in if digits = [] then None else Some (read_nat digits))"

subsection \<open>Dates\<close>

text \<open>\<^verbatim>\<open>date.toordinal\<close>: days are counted from the first of January of the year 1.\<close>

definition ordinal :: "int \<Rightarrow> int \<Rightarrow> int \<Rightarrow> date" where
  "ordinal y m d = (y - 1) * 365 + (y - 1) div 4 - (y - 1) div 100 + (y - 1) div 400 +
     sum_list (map (days_in_month y) [1..m - 1]) + d"

text \<open>The pieces \<^verbatim>\<open>strptime\<close> reads: \<^verbatim>\<open>%d\<close>, which may have a blank before one digit, \<^verbatim>\<open>%m\<close>, \<^verbatim>\<open>%Y\<close>, \<^verbatim>\<open>%y\<close>, and the
  parts of a time of day.\<close>

definition in_digits :: "nat \<Rightarrow> nat \<Rightarrow> int \<Rightarrow> int \<Rightarrow> string \<Rightarrow> int option" where
  "in_digits shortest longest lo hi s =
     (if all_digits s \<and> shortest \<le> length s \<and> length s \<le> longest \<and> lo \<le> read_nat s \<and> read_nat s \<le> hi
      then Some (read_nat s) else None)"

definition strp_d :: "string \<Rightarrow> int option" where
  "strp_d s = (case s of [b, c] \<Rightarrow> if b = (CHR '' '') then in_digits 1 1 1 9 [c] else in_digits 1 2 1 31 s
     | _ \<Rightarrow> in_digits 1 2 1 31 s)"

definition strp_m :: "string \<Rightarrow> int option" where "strp_m = in_digits 1 2 1 12"

definition strp_Y :: "string \<Rightarrow> int option" where "strp_Y = in_digits 4 4 1 9999"

definition strp_y :: "string \<Rightarrow> int option" where
  "strp_y s = map_option (\<lambda>n. if n \<le> 68 then 2000 + n else 1900 + n) (in_digits 2 2 0 99 s)"

definition day_of :: "int option \<Rightarrow> int option \<Rightarrow> int option \<Rightarrow> (int \<times> int \<times> int) option" where
  "day_of y m d = (case (y, m, d) of
       (Some y, Some m, Some d) \<Rightarrow> if d \<le> days_in_month y m then Some (y, m, d) else None
     | _ \<Rightarrow> None)"

definition day_first :: "char \<Rightarrow> (string \<Rightarrow> int option) \<Rightarrow> string \<Rightarrow> (int \<times> int \<times> int) option" where
  "day_first sep year s = (case split_on sep s of [d, m, y] \<Rightarrow> day_of (year y) (strp_m m) (strp_d d) | _ \<Rightarrow> None)"

definition year_first :: "char \<Rightarrow> string \<Rightarrow> (int \<times> int \<times> int) option" where
  "year_first sep s = (case split_on sep s of [y, m, d] \<Rightarrow> day_of (strp_Y y) (strp_m m) (strp_d d) | _ \<Rightarrow> None)"

definition is_time :: "(string \<Rightarrow> int option) list \<Rightarrow> string \<Rightarrow> bool" where
  "is_time parts s \<longleftrightarrow> (let pieces = split_on (CHR '':'') s in
     length pieces = length parts \<and> list_all (\<lambda>(f, p). f p \<noteq> None) (zip parts pieces))"

text \<open>A day, a blank and a time; the blank is the last one, since the day may have one of its own.\<close>

definition with_time :: "(string \<Rightarrow> (int \<times> int \<times> int) option) \<Rightarrow> (string \<Rightarrow> int option) list \<Rightarrow> string
    \<Rightarrow> (int \<times> int \<times> int) option" where
  "with_time day parts s = (case rpartition (CHR '' '') s of
     (before, sep, behind) \<Rightarrow> if sep \<noteq> [] \<and> is_time parts behind then day before else None)"

definition hour_minute :: "(string \<Rightarrow> int option) list" where
  "hour_minute = [in_digits 1 2 0 23, in_digits 1 2 0 59]"

definition DATE_FORMATS :: "(string \<Rightarrow> (int \<times> int \<times> int) option) list" where
  "DATE_FORMATS = [day_first (CHR ''.'') strp_Y, day_first (CHR ''.'') strp_y, day_first (CHR ''/'') strp_Y,
     day_first (CHR ''/'') strp_y, day_first (CHR ''-'') strp_Y, year_first (CHR ''-''), year_first (CHR ''/''),
     with_time (day_first (CHR ''.'') strp_Y) hour_minute,
     with_time (year_first (CHR ''-'')) (hour_minute @ [in_digits 1 2 0 59])]"

definition first_some :: "('a \<Rightarrow> 'b option) list \<Rightarrow> 'a \<Rightarrow> 'b option" where
  "first_some fs x = fold (\<lambda>f found. case found of None \<Rightarrow> f x | Some _ \<Rightarrow> found) fs None"

definition parse_date :: "cell \<Rightarrow> date option" where
  "parse_date value =
     (let found = (case value of Day y m d \<Rightarrow> Some (y, m, d) | _ \<Rightarrow> first_some DATE_FORMATS (cell_text value))
      in case found of
          None \<Rightarrow> None
        | Some (y, m, d) \<Rightarrow> if 2000 \<le> y \<and> y \<le> 2100 then Some (ordinal y m d) else None)"

section \<open>Which column is which\<close>

datatype sheet_kind = Clients_sheet | Translators_sheet | Notaries_sheet | Orders_sheet

definition KINDS :: "sheet_kind list" where
  "KINDS = [Clients_sheet, Translators_sheet, Notaries_sheet, Orders_sheet]"

definition IMPORT_MAX_ROWS :: nat where "IMPORT_MAX_ROWS = 5000"

text \<open>The fields of each kind, and whether the sheet must have them.\<close>

definition FIELDS :: "sheet_kind \<Rightarrow> (string \<times> bool) list" where
  "FIELDS kind = (case kind of
     Clients_sheet \<Rightarrow> [(''name'', True), (''client_type'', False), (''phone'', False), (''email'', False),
       (''personal_number'', False), (''address'', False), (''acquisition_source'', False), (''notes'', False)]
   | Translators_sheet \<Rightarrow> [(''name'', True), (''phone'', False), (''email'', False), (''office_address'', False),
       (''comment'', False), (''default_rate'', False), (''bank_iban'', False), (''can_notarize'', False),
       (''works_oral'', False), (''cities'', False), (''language_pairs'', False)]
   | Notaries_sheet \<Rightarrow> [(''name'', True), (''phone'', False), (''email'', False), (''registration_number'', False),
       (''office_address'', False), (''comment'', False), (''bank_iban'', False), (''bank_inn'', False),
       (''bank_code'', False)]
   | Orders_sheet \<Rightarrow> [(''client_name'', False), (''client_phone'', False), (''client_email'', False),
       (''client_personal_number'', False), (''order_date'', True), (''due_date'', False), (''language_pair'', False),
       (''source_language'', False), (''target_language'', False), (''document_type'', False), (''pages'', False),
       (''price'', True), (''translator'', False), (''translator_phone'', False), (''translator_cost'', False),
       (''notary'', False), (''notary_phone'', False), (''notary_cost'', False), (''status'', False), (''paid'', False),
       (''identifier'', False), (''notes'', False)])"

text \<open>
  The words people use: for the header of each field, for yes and no, for companies and people,
  the marks of a company in its name, the two names of each city, the words of a total and those
  in a sheet's name.
\<close>

record lexicon =
  lx_synonyms :: "sheet_kind \<Rightarrow> string \<Rightarrow> string list"
  lx_yes :: "string list"
  lx_no :: "string list"
  lx_company_words :: "string list"
  lx_person_words :: "string list"
  lx_company_mark :: "string \<Rightarrow> bool"
  lx_city_names :: "string \<Rightarrow> string \<times> string"
  lx_total_words :: "string list"
  lx_name_hints :: "sheet_kind \<Rightarrow> string list"

text \<open>Lower case, letters and digits, single blanks.\<close>

definition norm_header :: "string \<Rightarrow> string" where
  "norm_header s = squeeze (map (\<lambda>c. if is_alpha c \<or> is_digit c then c else (CHR '' '')) (lower s))"

type_synonym columns = "(string \<times> nat) list"

definition column_taken :: "nat \<Rightarrow> columns \<Rightarrow> bool" where
  "column_taken i found \<longleftrightarrow> i \<in> snd ` set found"

text \<open>One field of one pass: its first column that is free and has a header of that name, exactly or inside.\<close>

definition suggest_field :: "string list \<Rightarrow> bool \<Rightarrow> string list \<Rightarrow> string \<Rightarrow> columns \<Rightarrow> columns" where
  "suggest_field normalised exact names key found =
     (if map_of found key \<noteq> None then found
      else case find (\<lambda>i. \<not> column_taken i found \<and> normalised ! i \<noteq> [] \<and>
             (if exact then normalised ! i \<in> set names
              else list_ex (\<lambda>w. 3 < length w \<and> sublist w (normalised ! i)) names)) [0..<length normalised] of
          None \<Rightarrow> found
        | Some i \<Rightarrow> found @ [(key, i)])"

definition suggest_pass :: "lexicon \<Rightarrow> sheet_kind \<Rightarrow> string list \<Rightarrow> bool \<Rightarrow> columns \<Rightarrow> columns" where
  "suggest_pass lx kind normalised exact found =
     fold (\<lambda>(key, _). suggest_field normalised exact (map norm_header (lx_synonyms lx kind key)) key) (FIELDS kind) found"

definition PHONE_OWNERS :: "(string \<times> string) list" where
  "PHONE_OWNERS = [(''client_phone'', ''client_name''), (''translator_phone'', ''translator''), (''notary_phone'', ''notary'')]"

text \<open>A phone column belongs to the nearest name on its left, and to the client when there is none.\<close>

definition phone_anchors :: "columns \<Rightarrow> (nat \<times> string) list" where
  "phone_anchors found = List.map_filter (\<lambda>(phone, name). map_option (\<lambda>i. (i, phone)) (map_of found name)) PHONE_OWNERS"

definition phone_owner :: "(nat \<times> string) list \<Rightarrow> nat \<Rightarrow> string" where
  "phone_owner anchors column =
     snd (fold (\<lambda>a best. if fst a < column \<and> fst best \<le> fst a then a else best) anchors (0, ''client_phone''))"

definition give_phone :: "(nat \<times> string) list \<Rightarrow> nat \<Rightarrow> columns \<Rightarrow> columns" where
  "give_phone anchors column found =
     (let owner = phone_owner anchors column in if map_of found owner \<noteq> None then found else found @ [(owner, column)])"

definition assign_phone_columns :: "string list \<Rightarrow> columns \<Rightarrow> string list \<Rightarrow> columns" where
  "assign_phone_columns normalised found phone_words =
     (let spots = filter (\<lambda>i. normalised ! i \<in> set (map norm_header phone_words)) [0..<length normalised]
      in if spots = [] then found
         else let rest = filter (\<lambda>(key, _). key \<notin> fst ` set PHONE_OWNERS) found
              in fold (give_phone (phone_anchors rest)) spots rest)"

definition suggest_mapping :: "lexicon \<Rightarrow> sheet_kind \<Rightarrow> string list \<Rightarrow> columns" where
  "suggest_mapping lx kind headers =
     (let normalised = map norm_header headers;
          found = suggest_pass lx kind normalised False (suggest_pass lx kind normalised True [])
      in if kind = Orders_sheet then assign_phone_columns normalised found (lx_synonyms lx Orders_sheet ''client_phone'')
         else found)"

text \<open>The columns a person chose, where \<open>None\<close> is a value that is no whole number.\<close>

definition check_column :: "sheet_kind \<Rightarrow> nat \<Rightarrow> string \<times> int option \<Rightarrow> (string \<times> nat) result" where
  "check_column kind column_count item =
     (case item of (key, i) \<Rightarrow>
        if key \<notin> fst ` set (FIELDS kind) then Inl (ValidationError ''Unknown field'')
        else case i of
            None \<Rightarrow> Inl (ValidationError ''Column is not in the file.'')
          | Some n \<Rightarrow> if 0 \<le> n \<and> n < int column_count then Inr (key, nat n)
              else Inl (ValidationError ''Column is not in the file.''))"

definition check_mapping :: "sheet_kind \<Rightarrow> (string \<times> int option) list \<Rightarrow> nat \<Rightarrow> columns result" where
  "check_mapping kind mapping column_count =
     bind_result (map_result (check_column kind column_count) mapping) (\<lambda>clean.
       if list_ex (\<lambda>(key, needed). needed \<and> map_of clean key = None) (FIELDS kind)
         then Inl (ValidationError ''Choose the column'')
       else if \<not> distinct (map snd clean) then Inl (ValidationError ''A column can be used for one field only.'')
       else Inr clean)"

definition raw_cell :: "cell list \<Rightarrow> columns \<Rightarrow> string \<Rightarrow> cell" where
  "raw_cell cells mapping key =
     (case map_of mapping key of None \<Rightarrow> Empty_cell | Some i \<Rightarrow> if length cells \<le> i then Empty_cell else cells ! i)"

definition cell_at :: "cell list \<Rightarrow> columns \<Rightarrow> string \<Rightarrow> string" where
  "cell_at cells mapping key = cell_text (raw_cell cells mapping key)"

section \<open>Who is already known\<close>

text \<open>A record elsewhere: an id, or the name of one the import is about to create.\<close>

datatype ref = Id int | New string

record ref_counter =
  rc_prefix :: string
  rc_count :: nat

definition peek_ref :: "ref_counter \<Rightarrow> ref" where
  "peek_ref c = New (rc_prefix c @ '':'' @ show_nat (rc_count c))"

definition next_ref :: "ref_counter \<Rightarrow> ref_counter" where
  "next_ref c = c\<lparr>rc_count := rc_count c + 1\<rparr>"

record existing_person =
  xp_label :: string
  xp_phone :: "string option"
  xp_email :: "string option"
  xp_personal_number :: "string option"
  xp_name :: "string option"
  xp_ref :: "ref option"

type_synonym entry = "string \<times> ref option"

record seen =
  by_phone :: "string \<rightharpoonup> entry"
  by_email :: "string \<rightharpoonup> entry"
  by_number :: "string \<rightharpoonup> entry"
  by_name :: "string \<rightharpoonup> entry"

definition setdefault :: "'k option \<Rightarrow> 'v \<Rightarrow> ('k \<rightharpoonup> 'v) \<Rightarrow> ('k \<rightharpoonup> 'v)" where
  "setdefault key v m =
     (case key of None \<Rightarrow> m | Some k \<Rightarrow> (case m k of None \<Rightarrow> m(k \<mapsto> v) | Some _ \<Rightarrow> m))"

text \<open>What is there and not empty, with its case folded.\<close>

definition folded :: "string option \<Rightarrow> string option" where
  "folded v = (if or_blank v = [] then None else Some (lower (or_blank v)))"

definition seen_add :: "existing_person \<Rightarrow> seen \<Rightarrow> seen" where
  "seen_add p s = (let entry = (xp_label p, xp_ref p) in
     \<lparr>by_phone = setdefault (phone_key (xp_phone p)) entry (by_phone s), by_email = setdefault (folded (xp_email p)) entry (by_email s),
      by_number = setdefault (folded (xp_personal_number p)) entry (by_number s),
      by_name = setdefault (folded (xp_name p)) entry (by_name s)\<rparr>)"

definition no_one :: seen where
  "no_one = \<lparr>by_phone = (\<lambda>_. None), by_email = (\<lambda>_. None), by_number = (\<lambda>_. None), by_name = (\<lambda>_. None)\<rparr>"

definition seen_of :: "existing_person list \<Rightarrow> seen" where
  "seen_of existing = fold seen_add existing no_one"

datatype matched_by = Same_phone | Same_email | Same_number | Same_name

definition lookup_key :: "string option \<Rightarrow> (string \<rightharpoonup> entry) \<Rightarrow> matched_by \<Rightarrow> (matched_by \<times> entry) option" where
  "lookup_key key m what = (case key of None \<Rightarrow> None | Some k \<Rightarrow> map_option (Pair what) (m k))"

definition match_ref :: "existing_person \<Rightarrow> bool \<Rightarrow> seen \<Rightarrow> (matched_by \<times> entry) option" where
  "match_ref p named s =
     (case lookup_key (phone_key (xp_phone p)) (by_phone s) Same_phone of Some hit \<Rightarrow> Some hit | None \<Rightarrow>
      (case lookup_key (folded (xp_email p)) (by_email s) Same_email of Some hit \<Rightarrow> Some hit | None \<Rightarrow>
       (case lookup_key (folded (xp_personal_number p)) (by_number s) Same_number of Some hit \<Rightarrow> Some hit | None \<Rightarrow>
        if named then lookup_key (folded (xp_name p)) (by_name s) Same_name else None)))"

section \<open>Judging a row\<close>

datatype row_status = Row_ok | Row_duplicate | Row_error

datatype row_message =
    No_name | Name_too_long
  | Already_listed matched_by string
  | No_order_date | Not_a_date string | Languages_not_recognised | No_document_type
  | No_price | Price_not_an_amount string | No_client_name | Client_name_too_long
  | Same_order string

datatype row_warning =
    Phone_left_out string | Email_left_out string | Rate_left_out string
  | Cities_not_recognised "string list" | Pairs_not_understood "string list"
  | Due_date_left_out string | Type_not_recognised string string | Pages_not_understood string
  | Translator_not_found string | Translator_cost_left_out string
  | Notary_not_found string | Notary_cost_left_out string
  | Status_not_recognised string | Paid_left_out string | Paid_above_price rat rat
  | Matched_by_name_only string

record 'v row_result =
  rr_row :: nat
  rr_status :: row_status
  rr_name :: string
  rr_values :: "'v option"
  rr_messages :: "row_message list"
  rr_warnings :: "row_warning list"
  rr_matched :: "string option"
  rr_ref :: "ref option"
  rr_matched_ref :: "ref option"

definition fresh_result :: "nat \<Rightarrow> string \<Rightarrow> row_warning list \<Rightarrow> 'v row_result" where
  "fresh_result number name warnings = \<lparr>rr_row = number, rr_status = Row_ok, rr_name = name, rr_values = None,
     rr_messages = [], rr_warnings = warnings, rr_matched = None, rr_ref = None, rr_matched_ref = None\<rparr>"

definition failed :: "row_message \<Rightarrow> 'v row_result \<Rightarrow> 'v row_result" where
  "failed message r = r\<lparr>rr_status := Row_error, rr_messages := rr_messages r @ [message]\<rparr>"

definition already_listed :: "matched_by \<times> entry \<Rightarrow> 'v row_result \<Rightarrow> 'v row_result" where
  "already_listed hit r = (case hit of (what, label, ref) \<Rightarrow>
     r\<lparr>rr_status := Row_duplicate, rr_matched := Some label, rr_matched_ref := ref,
       rr_messages := rr_messages r @ [Already_listed what label]\<rparr>)"

text \<open>\<^verbatim>\<open>text[:n] or None\<close>\<close>

definition up_to :: "nat \<Rightarrow> string \<Rightarrow> string option" where
  "up_to n s = (if s = [] then None else Some (take n s))"

text \<open>Name, phone and e-mail, cleaned, with what was left out noted.\<close>

definition common :: "cell list \<Rightarrow> columns \<Rightarrow> string \<times> string option \<times> string option \<times> row_warning list" where
  "common cells mapping =
     (let name = cell_at cells mapping ''name''; phone_raw = cell_at cells mapping ''phone'';
          email_raw = lower (cell_at cells mapping ''email'');
          phone = (if phone_raw = [] then None else clean_phone phone_raw);
          email = (if email_shape email_raw \<and> length email_raw \<le> 255 then Some email_raw else None)
      in (name, phone, email,
          (if phone_raw \<noteq> [] \<and> phone = None then [Phone_left_out (take 30 phone_raw)] else []) @
          (if email_raw \<noteq> [] \<and> email = None then [Email_left_out (take 40 email_raw)] else [])))"

text \<open>
  Every kind of person is admitted the same way: one who is known is a duplicate; anyone else is
  accepted, under a ref when later rows may point at them, and known from then on. \<open>remembered\<close> is the
  name kept for later rows.
\<close>

definition admit :: "bool \<Rightarrow> (ref_counter option \<Rightarrow> string option) \<Rightarrow> existing_person \<Rightarrow> 'v \<Rightarrow> 'v row_result
    \<Rightarrow> seen \<times> ref_counter option \<Rightarrow> 'v row_result \<times> seen \<times> ref_counter option" where
  "admit named remembered p v r state = (case state of (s, refs) \<Rightarrow>
     (case match_ref p named s of
        Some hit \<Rightarrow> (already_listed hit r, s, refs)
      | None \<Rightarrow>
          let given = map_option peek_ref refs
          in (r\<lparr>rr_ref := given, rr_values := Some v\<rparr>,
              seen_add (p\<lparr>xp_ref := given, xp_name := remembered refs\<rparr>) s, map_option next_ref refs)))"

definition name_problem :: "string \<Rightarrow> row_message option" where
  "name_problem name = (if name = [] then Some No_name else if 255 < length name then Some Name_too_long else None)"

subsection \<open>Clients\<close>

record client_values =
  cv_name :: string
  cv_client_type :: client_type
  cv_phone :: "string option"
  cv_email :: "string option"
  cv_personal_number :: "string option"
  cv_address :: "string option"
  cv_acquisition_source :: "string option"
  cv_notes :: "string option"

definition client_kind :: "lexicon \<Rightarrow> string \<Rightarrow> string \<Rightarrow> client_type" where
  "client_kind lx kind_text name =
     (if kind_text \<in> set (lx_company_words lx) then B2B
      else if kind_text \<in> set (lx_person_words lx) then B2C
      else if lx_company_mark lx name then B2B else B2C)"

definition judge_client :: "lexicon \<Rightarrow> nat \<Rightarrow> cell list \<Rightarrow> columns \<Rightarrow> seen \<times> ref_counter option
    \<Rightarrow> client_values row_result \<times> seen \<times> ref_counter option" where
  "judge_client lx number cells mapping state =
     (case common cells mapping of (name, phone, email, warnings) \<Rightarrow>
        let r = fresh_result number name warnings
        in case name_problem name of
            Some message \<Rightarrow> (failed message r, state)
          | None \<Rightarrow>
              let personal = up_to 50 (cell_at cells mapping ''personal_number'')
              in admit False (\<lambda>refs. if refs = None then None else Some name)
                   \<lparr>xp_label = name, xp_phone = phone, xp_email = email, xp_personal_number = personal, xp_name = None,
                    xp_ref = None\<rparr>
                   \<lparr>cv_name = name, cv_client_type = client_kind lx (lower (cell_at cells mapping ''client_type'')) name,
                    cv_phone = phone, cv_email = email, cv_personal_number = personal,
                    cv_address = up_to 500 (cell_at cells mapping ''address''),
                    cv_acquisition_source = up_to 255 (cell_at cells mapping ''acquisition_source''),
                    cv_notes = (let n = cell_at cells mapping ''notes'' in if n = [] then None else Some n)\<rparr> r state)"

subsection \<open>Translators\<close>

definition parse_bool :: "lexicon \<Rightarrow> string \<Rightarrow> bool option" where
  "parse_bool lx value = (let token = strip (lower value) in
     if token \<in> set (lx_yes lx) then Some True else if token \<in> set (lx_no lx) then Some False else None)"

text \<open>The pieces of a list in a cell: between commas, semicolons, strokes and line ends.\<close>

definition is_separator :: "char \<Rightarrow> bool" where
  "is_separator c \<longleftrightarrow> c \<in> {CHR '','', CHR '';'', CHR ''/'', CHR 0x0A, CHR 0x7C}"

definition pieces :: "string \<Rightarrow> string list" where
  "pieces value = filter (\<lambda>w. w \<noteq> [])
     (map strip (split_on (CHR '','') (map (\<lambda>c. if is_separator c then CHR '','' else c) value)))"

definition city_lookup :: "lexicon \<Rightarrow> string \<rightharpoonup> string" where
  "city_lookup lx = fold (\<lambda>code m. case lx_city_names lx code of
     (en, ka) \<Rightarrow> m(code \<mapsto> code, lower en \<mapsto> code, lower ka \<mapsto> code)) CITIES (\<lambda>_. None)"

definition parse_cities :: "lexicon \<Rightarrow> string \<Rightarrow> string list \<times> string list" where
  "parse_cities lx value =
     (let known = city_lookup lx; parts = pieces value
      in (once_each (List.map_filter (\<lambda>w. known (lower w)) parts), filter (\<lambda>w. known (lower w) = None) parts))"

text \<open>A pair is split at a dash or an arrow.\<close>

fun dash_split :: "string \<Rightarrow> string list" where
  "dash_split [] = [[]]"
| "dash_split [c] = (if c = CHR ''-'' \<or> c = CHR ''>'' then [[], []] else [[c]])"
| "dash_split (c # d # s) =
     (if (c = CHR ''-'' \<or> c = CHR ''='') \<and> d = CHR ''>'' then [] # dash_split s
      else if c = CHR ''-'' \<or> c = CHR ''>'' then [] # dash_split (d # s)
      else case dash_split (d # s) of [] \<Rightarrow> [[c]] | p # ps \<Rightarrow> (c # p) # ps)"

definition parse_pair :: "(string \<Rightarrow> string option) \<Rightarrow> string \<Rightarrow> (string \<times> string) option" where
  "parse_pair language_lookup part = (case dash_split part of
       [a, b] \<Rightarrow> (case (language_lookup (strip a), language_lookup (strip b)) of
           (Some source, Some target) \<Rightarrow> if source = target then None else Some (source, target)
         | _ \<Rightarrow> None)
     | _ \<Rightarrow> None)"

definition parse_pairs :: "(string \<Rightarrow> string option) \<Rightarrow> string \<Rightarrow> (string \<times> string) list \<times> string list" where
  "parse_pairs language_lookup value =
     (let parts = pieces value
      in (once_each (List.map_filter (parse_pair language_lookup) parts), filter (\<lambda>w. parse_pair language_lookup w = None) parts))"

record translator_values =
  tv_name :: string
  tv_phone :: "string option"
  tv_email :: "string option"
  tv_office_address :: "string option"
  tv_comment :: "string option"
  tv_default_rate :: "rat option"
  tv_bank_iban :: "string option"
  tv_can_notarize :: bool
  tv_works_oral :: bool
  tv_cities :: "string list"
  tv_language_pairs :: "(string \<times> string) list"

definition judge_translator :: "lexicon \<Rightarrow> (string \<Rightarrow> string option) \<Rightarrow> nat \<Rightarrow> cell list \<Rightarrow> columns
    \<Rightarrow> seen \<times> ref_counter option \<Rightarrow> translator_values row_result \<times> seen \<times> ref_counter option" where
  "judge_translator lx language_lookup number cells mapping state =
     (case common cells mapping of (name, phone, email, warnings) \<Rightarrow>
        case name_problem name of
          Some message \<Rightarrow> (failed message (fresh_result number name warnings), state)
        | None \<Rightarrow>
            let rate_text = cell_at cells mapping ''default_rate'';
                rate = (if rate_text = [] then None else parse_rate rate_text);
                cities = parse_cities lx (cell_at cells mapping ''cities'');
                pairs = parse_pairs language_lookup (cell_at cells mapping ''language_pairs'');
                r = fresh_result number name (warnings @
                  (if rate_text \<noteq> [] \<and> rate = None then [Rate_left_out (take 20 rate_text)] else []) @
                  (if snd cities \<noteq> [] then [Cities_not_recognised (take 5 (snd cities))] else []) @
                  (if snd pairs \<noteq> [] then [Pairs_not_understood (take 5 (snd pairs))] else []))
            in admit True (\<lambda>_. Some name)
                 \<lparr>xp_label = name, xp_phone = phone, xp_email = email, xp_personal_number = None, xp_name = Some name,
                  xp_ref = None\<rparr>
                 \<lparr>tv_name = name, tv_phone = phone, tv_email = email,
                  tv_office_address = up_to 255 (cell_at cells mapping ''office_address''),
                  tv_comment = (let n = cell_at cells mapping ''comment'' in if n = [] then None else Some n),
                  tv_default_rate = rate,
                  tv_bank_iban = up_to 34 (replace_char (CHR '' '') [] (cell_at cells mapping ''bank_iban'')),
                  tv_can_notarize = (parse_bool lx (cell_at cells mapping ''can_notarize'') = Some True),
                  tv_works_oral = (parse_bool lx (cell_at cells mapping ''works_oral'') = Some True),
                  tv_cities = fst cities, tv_language_pairs = fst pairs\<rparr> r state)"

subsection \<open>Notaries\<close>

record notary_values =
  nv_name :: string
  nv_phone :: "string option"
  nv_email :: "string option"
  nv_registration_number :: "string option"
  nv_office_address :: "string option"
  nv_comment :: "string option"
  nv_bank_iban :: "string option"
  nv_bank_inn :: "string option"
  nv_bank_code :: "string option"

definition upper :: "string \<Rightarrow> string" where "upper s = map upper_char s"

definition judge_notary :: "nat \<Rightarrow> cell list \<Rightarrow> columns \<Rightarrow> seen \<times> ref_counter option
    \<Rightarrow> notary_values row_result \<times> seen \<times> ref_counter option" where
  "judge_notary number cells mapping state =
     (case common cells mapping of (name, phone, email, warnings) \<Rightarrow>
        let r = fresh_result number name warnings
        in case name_problem name of
            Some message \<Rightarrow> (failed message r, state)
          | None \<Rightarrow>
              admit True (\<lambda>_. Some name)
                \<lparr>xp_label = name, xp_phone = phone, xp_email = email, xp_personal_number = None, xp_name = Some name,
                 xp_ref = None\<rparr>
                \<lparr>nv_name = name, nv_phone = phone, nv_email = email,
                 nv_registration_number = up_to 100 (cell_at cells mapping ''registration_number''),
                 nv_office_address = up_to 255 (cell_at cells mapping ''office_address''),
                 nv_comment = (let n = cell_at cells mapping ''comment'' in if n = [] then None else Some n),
                 nv_bank_iban = up_to 34 (upper (replace_char (CHR '' '') [] (cell_at cells mapping ''bank_iban''))),
                 nv_bank_inn = up_to 20 (cell_at cells mapping ''bank_inn''),
                 nv_bank_code = up_to 20 (upper (cell_at cells mapping ''bank_code''))\<rparr> r state)"

section \<open>A whole sheet\<close>

type_synonym numbered_row = "nat \<times> cell list"

text \<open>One row after the other, each seeing what the earlier ones left.\<close>

fun judge_rows :: "(nat \<Rightarrow> cell list \<Rightarrow> 's \<Rightarrow> 'r \<times> 's) \<Rightarrow> numbered_row list \<Rightarrow> 's \<Rightarrow> 'r list \<times> 's" where
  "judge_rows judge [] state = ([], state)"
| "judge_rows judge ((number, cells) # rows) state =
     (case judge number cells state of (r, state') \<Rightarrow>
        case judge_rows judge rows state' of (rs, state'') \<Rightarrow> (r # rs, state''))"

definition count_status :: "row_status \<Rightarrow> 'v row_result list \<Rightarrow> nat" where
  "count_status st rs = length (filter (\<lambda>r. rr_status r = st) rs)"

end
