(* ===== verification/OrderSheets.thy ===== *)
theory OrderSheets
  imports Sheets
begin

text \<open>
  Judging the rows of a sheet of orders (\<^verbatim>\<open>domain/imports_orders.py\<close>). A row is one order with one
  document, priced as typed. It names its client, translator and notary: they are matched to the
  bureau's own, to those an earlier sheet creates, or introduced by the row itself, under a ref
  that exists from the moment the row is accepted. What the code keeps in one mutable context is
  the record \<open>orders_context\<close>, passed from row to row.
\<close>

section \<open>The context\<close>

record existing_order =
  xo_label :: string
  xo_client_id :: int
  xo_order_date :: date
  xo_source_language :: string
  xo_target_language :: string
  xo_page_count :: int
  xo_price :: rat
  xo_identifier :: "string option"

type_synonym order_key = "ref option \<times> date \<times> string \<times> string \<times> int \<times> rat \<times> string"

type_synonym person_ref = "ref \<times> string"

text \<open>A translator or notary a row introduces; a translator with the pairs the rows show.\<close>

record introduced =
  in_name :: string
  in_phone :: "string option"
  in_pairs :: "(string \<times> string) list"

record people =
  pe_by_name :: "string \<rightharpoonup> person_ref"
  pe_by_phone :: "string \<rightharpoonup> person_ref"
  pe_create :: bool
  pe_made :: "(ref \<times> introduced) list"
  pe_refs :: ref_counter

record orders_context =
  oc_language_lookup :: "string \<Rightarrow> string option"
  oc_document_types :: "string \<rightharpoonup> int \<times> string"
  oc_default_document_type :: "(int \<times> string) option"
  oc_translators :: people
  oc_notaries :: people
  oc_client_refs :: ref_counter
  oc_known_orders :: "(order_key \<rightharpoonup> string) option"
  oc_status_lookup :: "string \<Rightarrow> string option"
  oc_existing_orders :: "existing_order list"

definition fresh_refs :: "string \<Rightarrow> ref_counter" where
  "fresh_refs kind = \<lparr>rc_prefix = kind, rc_count = 0\<rparr>"

definition order_key :: "ref option \<Rightarrow> date \<Rightarrow> string \<Rightarrow> string \<Rightarrow> int \<Rightarrow> rat \<Rightarrow> string option \<Rightarrow> order_key" where
  "order_key client day source target pages price identifier =
     (client, day, source, target, pages, price, lower (or_blank identifier))"

section \<open>Translators and notaries\<close>

definition remember_person :: "ref option \<Rightarrow> string \<Rightarrow> string option \<Rightarrow> people \<Rightarrow> people" where
  "remember_person ref name phone pe =
     (case ref of
        None \<Rightarrow> pe
      | Some r \<Rightarrow>
          if strip name = [] then pe
          else pe\<lparr>pe_by_name := setdefault (Some (lower (strip name))) (r, strip name) (pe_by_name pe),
                  pe_by_phone := setdefault (phone_key phone) (r, strip name) (pe_by_phone pe)\<rparr>)"

definition find_person :: "people \<Rightarrow> string \<Rightarrow> string option \<Rightarrow> person_ref option" where
  "find_person pe name phone =
     (case (if name = [] then None else pe_by_name pe (lower name)) of
        Some found \<Rightarrow> Some found
      | None \<Rightarrow> (case phone_key phone of None \<Rightarrow> None | Some k \<Rightarrow> pe_by_phone pe k))"

definition create_person :: "string \<Rightarrow> string option \<Rightarrow> people \<Rightarrow> person_ref \<times> people" where
  "create_person name phone pe =
     (let r = peek_ref (pe_refs pe); person = (r, name)
      in (person, pe\<lparr>pe_refs := next_ref (pe_refs pe),
            pe_made := pe_made pe @ [(r, \<lparr>in_name = take 255 name, in_phone = phone, in_pairs = []\<rparr>)],
            pe_by_name := (pe_by_name pe)(lower name \<mapsto> person),
            pe_by_phone := (case phone_key phone of None \<Rightarrow> pe_by_phone pe | Some k \<Rightarrow> (pe_by_phone pe)(k \<mapsto> person))\<rparr>))"

text \<open>A translator made from the sheet works the pairs the sheet shows them in.\<close>

definition show_pair :: "ref \<Rightarrow> string \<times> string \<Rightarrow> people \<Rightarrow> people" where
  "show_pair r pair pe = pe\<lparr>pe_made := map (\<lambda>(r', who).
     (r', if r' = r \<and> pair \<notin> set (in_pairs who) then who\<lparr>in_pairs := in_pairs who @ [pair]\<rparr> else who)) (pe_made pe)\<rparr>"

text \<open>Whom a row names: someone found, someone to be made, or nobody.\<close>

datatype named = Found person_ref | To_make | Nobody

definition named_by :: "people \<Rightarrow> string \<Rightarrow> string option \<Rightarrow> named" where
  "named_by pe name phone =
     (case find_person pe name phone of
        Some p \<Rightarrow> Found p
      | None \<Rightarrow> if name \<noteq> [] \<and> pe_create pe then To_make else Nobody)"

definition settle_person :: "named \<Rightarrow> string \<Rightarrow> string option \<Rightarrow> people \<Rightarrow> ref option \<times> people" where
  "settle_person who name phone pe =
     (case who of
        Found p \<Rightarrow> (Some (fst p), pe)
      | To_make \<Rightarrow> (case create_person name phone pe of (p, pe') \<Rightarrow> (Some (fst p), pe'))
      | Nobody \<Rightarrow> (None, pe))"

section \<open>The parts of a row\<close>

definition order_languages :: "orders_context \<Rightarrow> cell list \<Rightarrow> columns \<Rightarrow> (string \<times> string) option" where
  "order_languages ctx cells mapping =
     (let pair_text = cell_at cells mapping ''language_pair''; lookup = oc_language_lookup ctx;
          side = (\<lambda>key. let s = cell_at cells mapping key in lookup (if s = [] then [CHR 0x00] else s));
          both = (if pair_text = [] then (side ''source_language'', side ''target_language'')
                  else case fst (parse_pairs lookup pair_text) of [] \<Rightarrow> (None, None) | (a, b) # _ \<Rightarrow> (Some a, Some b))
      in case both of
          (Some a, Some b) \<Rightarrow> if a = [] \<or> b = [] \<or> a = b then None else Some (a, b)
        | _ \<Rightarrow> None)"

definition order_type :: "orders_context \<Rightarrow> string \<Rightarrow> (int \<times> string) option \<times> row_warning list" where
  "order_type ctx s =
     (case (if s = [] then None else oc_document_types ctx (lower s)) of
        Some t \<Rightarrow> (Some t, [])
      | None \<Rightarrow> (case oc_default_document_type ctx of
            None \<Rightarrow> (None, [])
          | Some t \<Rightarrow> (Some t, if s = [] then [] else [Type_not_recognised (take 30 s) (snd t)])))"

definition order_pages :: "string \<Rightarrow> int \<times> row_warning list" where
  "order_pages s =
     (case (if s = [] then Some 1 else parse_int s) of
        Some n \<Rightarrow> if 1 \<le> n \<and> n \<le> 10000 then (n, []) else (1, [Pages_not_understood (take 10 s)])
      | None \<Rightarrow> (1, [Pages_not_understood (take 10 s)]))"

definition amount_or_warn :: "(string \<Rightarrow> row_warning) \<Rightarrow> string \<Rightarrow> rat option \<times> row_warning list" where
  "amount_or_warn warn s =
     (let amount = (if s = [] then None else parse_rate s)
      in (amount, if s \<noteq> [] \<and> amount = None then [warn (take 20 s)] else []))"

definition order_paid :: "rat \<Rightarrow> string \<Rightarrow> rat option \<times> row_warning list" where
  "order_paid price s =
     (case amount_or_warn Paid_left_out s of
        (None, ws) \<Rightarrow> (None, ws)
      | (Some paid, ws) \<Rightarrow>
          let capped = (if price < paid then price else paid)
          in (if 0 < capped then Some capped else None, ws @ (if price < paid then [Paid_above_price paid price] else [])))"

text \<open>\<open>_common\<close> reads columns called name, phone and email; this sheet calls them the client's.\<close>

definition client_columns :: "columns \<Rightarrow> columns" where
  "client_columns mapping = List.map_filter (\<lambda>(field, column). map_option (Pair field) (map_of mapping column))
     [(''name'', ''client_name''), (''phone'', ''client_phone''), (''email'', ''client_email'')]"

record order_values =
  ov_client_ref :: "ref option"
  ov_new_client :: "client_values option"
  ov_order_date :: date
  ov_due_date :: "date option"
  ov_source_language :: string
  ov_target_language :: string
  ov_document_type_id :: int
  ov_document_type_label :: string
  ov_page_count :: int
  ov_price :: rat
  ov_translator_id :: "ref option"
  ov_translator_cost :: rat
  ov_notary_id :: "ref option"
  ov_notary_cost :: rat
  ov_status :: "string option"
  ov_paid :: "rat option"
  ov_identifier :: "string option"
  ov_notes :: "string option"

text \<open>Everything a row says of the order itself, or why it cannot be one. The warnings so far come along.\<close>

record order_part =
  op_date :: date
  op_due :: "date option"
  op_languages :: "string \<times> string"
  op_type :: "int \<times> string"
  op_pages :: int
  op_price :: rat

definition read_order :: "orders_context \<Rightarrow> cell list \<Rightarrow> columns
    \<Rightarrow> (row_message \<times> row_warning list) + (order_part \<times> row_warning list)" where
  "read_order ctx cells mapping =
     (case parse_date (raw_cell cells mapping ''order_date'') of
        None \<Rightarrow> Inl (let shown = cell_at cells mapping ''order_date'' in if shown = [] then No_order_date else Not_a_date shown, [])
      | Some day \<Rightarrow>
          let due_text = cell_at cells mapping ''due_date''; due = parse_date (raw_cell cells mapping ''due_date'');
              w1 = (if due_text \<noteq> [] \<and> due = None then [Due_date_left_out (take 20 due_text)] else [])
          in case order_languages ctx cells mapping of
              None \<Rightarrow> Inl (Languages_not_recognised, w1)
            | Some pair \<Rightarrow>
                (case order_type ctx (cell_at cells mapping ''document_type'') of
                   (None, _) \<Rightarrow> Inl (No_document_type, w1)
                 | (Some kind, w2) \<Rightarrow>
                     (case order_pages (cell_at cells mapping ''pages'') of (pages, w3) \<Rightarrow>
                        let price_text = cell_at cells mapping ''price''
                        in case (if price_text = [] then None else parse_rate price_text) of
                            None \<Rightarrow> Inl (if price_text = [] then No_price else Price_not_an_amount price_text, w1 @ w2 @ w3)
                          | Some price \<Rightarrow> Inr (\<lparr>op_date = day, op_due = due, op_languages = pair, op_type = kind,
                              op_pages = pages, op_price = price\<rparr>, w1 @ w2 @ w3))))"

text \<open>The client a row names: a known one, with a warning when only the name says so, or a new one.\<close>

definition read_client :: "lexicon \<Rightarrow> ref_counter \<Rightarrow> cell list \<Rightarrow> columns \<Rightarrow> seen
    \<Rightarrow> (row_message \<times> row_warning list) + (ref option \<times> string \<times> client_values option \<times> row_warning list)" where
  "read_client lx refs cells mapping s =
     (case common cells (client_columns mapping) of (name, phone, email, ws) \<Rightarrow>
        let personal = up_to 50 (cell_at cells mapping ''client_personal_number'');
            p = \<lparr>xp_label = name, xp_phone = phone, xp_email = email, xp_personal_number = personal,
                 xp_name = (if name = [] then None else Some name), xp_ref = None\<rparr>
        in case match_ref p (name \<noteq> []) s of
            Some (what, label, ref) \<Rightarrow>
              Inr (ref, label, None, ws @ (if what = Same_name then [Matched_by_name_only label] else []))
          | None \<Rightarrow>
              if name = [] then Inl (No_client_name, ws)
              else if 255 < length name then Inl (Client_name_too_long, ws)
              else Inr (Some (peek_ref refs), name,
                Some \<lparr>cv_name = name, cv_client_type = (if lx_company_mark lx name then B2B else B2C), cv_phone = phone,
                      cv_email = email, cv_personal_number = personal, cv_address = None, cv_acquisition_source = None,
                      cv_notes = None\<rparr>, ws))"

definition person_of_client :: "ref option \<Rightarrow> client_values \<Rightarrow> existing_person" where
  "person_of_client ref v = \<lparr>xp_label = cv_name v, xp_phone = cv_phone v, xp_email = cv_email v,
     xp_personal_number = cv_personal_number v, xp_name = Some (cv_name v), xp_ref = ref\<rparr>"

section \<open>A row\<close>

text \<open>What accepting a row leaves behind.\<close>

definition accept_order :: "nat \<Rightarrow> order_key \<Rightarrow> order_part \<Rightarrow> ref option \<Rightarrow> client_values option
    \<Rightarrow> (string \<times> string option \<times> named) \<Rightarrow> (string \<times> string option \<times> named) \<Rightarrow> seen \<times> orders_context
    \<Rightarrow> ref option \<times> ref option \<times> seen \<times> orders_context" where
  "accept_order number key part client_ref new_client translator notary state =
     (case (state, translator, notary) of ((s, ctx), (t_name, t_phone, t_who), (n_name, n_phone, n_who)) \<Rightarrow>
        case settle_person t_who t_name t_phone (oc_translators ctx) of (t_ref, t_people) \<Rightarrow>
        case settle_person n_who n_name n_phone (oc_notaries ctx) of (n_ref, n_people) \<Rightarrow>
          (t_ref, n_ref,
           (case new_client of None \<Rightarrow> s | Some v \<Rightarrow> seen_add (person_of_client client_ref v) s),
           ctx\<lparr>oc_known_orders := Some ((case oc_known_orders ctx of None \<Rightarrow> (\<lambda>_. None) | Some m \<Rightarrow> m)(key \<mapsto> ''row '' @ show_nat number)),
               oc_translators := (case t_ref of None \<Rightarrow> t_people | Some r \<Rightarrow> show_pair r (op_languages part) t_people),
               oc_notaries := n_people,
               oc_client_refs := (if new_client = None then oc_client_refs ctx else next_ref (oc_client_refs ctx))\<rparr>))"

definition judge_order :: "lexicon \<Rightarrow> columns \<Rightarrow> nat \<Rightarrow> cell list \<Rightarrow> seen \<times> orders_context
    \<Rightarrow> order_values row_result \<times> seen \<times> orders_context" where
  "judge_order lx mapping number cells state =
     (case state of (s, ctx) \<Rightarrow>
      case read_order ctx cells mapping of
        Inl (message, ws) \<Rightarrow> (failed message (fresh_result number [] ws), state)
      | Inr (part, w1) \<Rightarrow>
          let t_name = cell_at cells mapping ''translator''; t_phone = clean_phone (cell_at cells mapping ''translator_phone'');
              t_who = named_by (oc_translators ctx) t_name t_phone;
              w2 = (if t_name \<noteq> [] \<and> t_who = Nobody then [Translator_not_found (take 30 t_name)] else []);
              t_cost = amount_or_warn Translator_cost_left_out (cell_at cells mapping ''translator_cost'');
              n_name = cell_at cells mapping ''notary''; n_phone = clean_phone (cell_at cells mapping ''notary_phone'');
              n_who = named_by (oc_notaries ctx) n_name n_phone;
              w3 = (if n_name \<noteq> [] \<and> n_who = Nobody then [Notary_not_found (take 30 n_name)] else []);
              n_cost = amount_or_warn Notary_cost_left_out (cell_at cells mapping ''notary_cost'');
              status_text = cell_at cells mapping ''status'';
              status = (if status_text = [] then None else oc_status_lookup ctx status_text);
              w4 = (if status_text \<noteq> [] \<and> status = None then [Status_not_recognised (take 30 status_text)] else []);
              paid = order_paid (op_price part) (cell_at cells mapping ''paid'');
              ws = w1 @ w2 @ snd t_cost @ w3 @ snd n_cost @ w4 @ snd paid;
              identifier = up_to 100 (cell_at cells mapping ''identifier'');
              remarks = (let n = cell_at cells mapping ''notes'' in if n = [] then None else Some n)
          in case read_client lx (oc_client_refs ctx) cells mapping s of
              Inl (message, w5) \<Rightarrow> (failed message (fresh_result number [] (ws @ w5)), state)
            | Inr (client_ref, label, new_client, w5) \<Rightarrow>
                let key = order_key client_ref (op_date part) (fst (op_languages part)) (snd (op_languages part))
                            (op_pages part) (op_price part) identifier;
                    r = fresh_result number label (ws @ w5)
                in case (case oc_known_orders ctx of None \<Rightarrow> None | Some m \<Rightarrow> m key) of
                    Some there \<Rightarrow> (r\<lparr>rr_status := Row_duplicate, rr_matched := Some there, rr_messages := [Same_order there]\<rparr>, state)
                  | None \<Rightarrow>
                      (case accept_order number key part client_ref new_client (t_name, t_phone, t_who) (n_name, n_phone, n_who) state of
                         (t_ref, n_ref, state') \<Rightarrow>
                           (r\<lparr>rr_values := Some \<lparr>ov_client_ref = client_ref, ov_new_client = new_client,
                              ov_order_date = op_date part, ov_due_date = op_due part, ov_source_language = fst (op_languages part),
                              ov_target_language = snd (op_languages part), ov_document_type_id = fst (op_type part),
                              ov_document_type_label = snd (op_type part), ov_page_count = op_pages part, ov_price = op_price part,
                              ov_translator_id = t_ref, ov_translator_cost = (case fst t_cost of None \<Rightarrow> 0 | Some c \<Rightarrow> c),
                              ov_notary_id = n_ref, ov_notary_cost = (case fst n_cost of None \<Rightarrow> 0 | Some c \<Rightarrow> c),
                              ov_status = status, ov_paid = fst paid, ov_identifier = identifier, ov_notes = remarks\<rparr>\<rparr>, state')))"

text \<open>The orders already there are read into the context the first time it is needed.\<close>

definition know_orders :: "orders_context \<Rightarrow> orders_context" where
  "know_orders ctx = (case oc_known_orders ctx of
       Some _ \<Rightarrow> ctx
     | None \<Rightarrow> ctx\<lparr>oc_known_orders := Some (fold (\<lambda>o' m.
         m(order_key (Some (Id (xo_client_id o'))) (xo_order_date o') (xo_source_language o') (xo_target_language o')
             (xo_page_count o') (xo_price o') (xo_identifier o') \<mapsto> xo_label o')) (oc_existing_orders ctx) (\<lambda>_. None))\<rparr>)"

definition judge_orders :: "lexicon \<Rightarrow> numbered_row list \<Rightarrow> columns \<Rightarrow> seen \<times> orders_context
    \<Rightarrow> order_values row_result list \<times> seen \<times> orders_context" where
  "judge_orders lx rows mapping state =
     (case state of (s, ctx) \<Rightarrow> judge_rows (judge_order lx mapping) rows (s, know_orders ctx))"

end
