(* ===== verification/Workbooks.thy ===== *)
theory Workbooks
  imports OrderSheets
begin

text \<open>
  A whole file (\<^verbatim>\<open>read_workbook\<close> and \<^verbatim>\<open>read_sheet\<close> of \<^verbatim>\<open>domain/imports.py\<close>, \<^verbatim>\<open>domain/imports_combined.py\<close>):
  which row of a sheet is its header, what the sheet is and how sure that is, which rows are not
  records, and judging every sheet against the bureau's records and the other sheets: notaries,
  translators, clients, then orders. What the Excel and CSV libraries read is an argument.
\<close>

section \<open>Reading a file\<close>

record raw_sheet =
  rs_name :: string
  rs_rows :: "numbered_row list"

text \<open>The readers: whether the bytes are a zip file, and each format's sheets or its refusal.\<close>

record readers =
  rd_is_zip :: "string \<Rightarrow> bool"
  rd_xlsx :: "string \<Rightarrow> raw_sheet list result"
  rd_xls :: "string \<Rightarrow> raw_sheet list result"
  rd_csv :: "string \<Rightarrow> numbered_row list"

definition IMPORT_MAX_BYTES :: nat where "IMPORT_MAX_BYTES = 4 * 1024 * 1024"

definition OLE_MAGIC :: string where "OLE_MAGIC = [CHR 0xD0, CHR 0xCF, CHR 0x11, CHR 0xE0]"

definition ends_with :: "string \<Rightarrow> string \<Rightarrow> bool" where
  "ends_with s t \<longleftrightarrow> suffix t s"

definition not_blank :: "numbered_row \<Rightarrow> bool" where
  "not_blank row \<longleftrightarrow> list_ex (\<lambda>c. cell_text c \<noteq> []) (snd row)"

text \<open>\<^verbatim>\<open>(filename or "file").rsplit(".", 1)[0] or "file"\<close>\<close>

definition stem_of :: "string \<Rightarrow> string" where
  "stem_of filename =
     (let name = (if filename = [] then ''file'' else filename);
          stem = (case rpartition (CHR ''.'') name of (a, sep, _) \<Rightarrow> if sep = [] then name else a)
      in if stem = [] then ''file'' else stem)"

definition read_format :: "readers \<Rightarrow> string \<Rightarrow> string \<Rightarrow> raw_sheet list result" where
  "read_format rd content filename =
     (let name = lower filename in
      if ends_with name ''.xlsx'' \<or> ends_with name ''.xlsm'' \<or> rd_is_zip rd content then rd_xlsx rd content
      else if ends_with name ''.xls'' \<or> starts_with content OLE_MAGIC then rd_xls rd content
      else if ends_with name ''.csv'' \<or> ends_with name ''.txt'' \<or> \<not> ends_with name ''.ods''
        then Inr [\<lparr>rs_name = stem_of filename, rs_rows = rd_csv rd content\<rparr>]
      else Inl (ValidationError ''Save the file as .xlsx, .xls or .csv first: the .ods format is not read.''))"

definition read_workbook :: "readers \<Rightarrow> string \<Rightarrow> string \<Rightarrow> raw_sheet list result" where
  "read_workbook rd content filename =
     (if IMPORT_MAX_BYTES < length content then Inl (ValidationError ''The file is larger than 4 MB. Split it and import it in parts.'')
      else if content = [] then Inl (ValidationError ''The file is empty.'')
      else bind_result (read_format rd content filename) (\<lambda>sheets.
        let kept = filter (\<lambda>sh. rs_rows sh \<noteq> []) (map (\<lambda>sh. sh\<lparr>rs_rows := filter not_blank (rs_rows sh)\<rparr>) sheets)
        in if kept = [] then Inl (ValidationError ''The file has no rows.'') else Inr kept))"

definition read_sheet :: "readers \<Rightarrow> string \<Rightarrow> string \<Rightarrow> (string list \<times> numbered_row list) result" where
  "read_sheet rd content filename =
     bind_result (read_workbook rd content filename) (\<lambda>kept.
       let rows = rs_rows (hd kept); body = tl rows
       in if IMPORT_MAX_ROWS < length body then Inl (ValidationError ''The file has too many rows; one import takes at most 5,000. Split it.'')
          else if body = [] then Inl (ValidationError ''The file has a header but no rows under it.'')
          else Inr (map cell_text (snd (hd rows)), body))"

section \<open>The header\<close>

definition HEADER_SCAN :: nat where "HEADER_SCAN = 15"

definition recognised_fields :: "lexicon \<Rightarrow> string list \<Rightarrow> nat" where
  "recognised_fields lx headers = fold max (map (\<lambda>kind. length (suggest_mapping lx kind headers)) KINDS) 0"

text \<open>The row that names the most fields, two at least, the earliest of those; else the first with two cells filled.\<close>

definition scan_header :: "lexicon \<Rightarrow> nat \<times> string list \<Rightarrow> nat option \<times> nat \<times> nat option \<Rightarrow> nat option \<times> nat \<times> nat option" where
  "scan_header lx row state =
     (case (row, state) of ((position, headers), (found, best, first_wide)) \<Rightarrow>
        if length (filter (\<lambda>s. s \<noteq> []) headers) < 2 then state
        else let wide = (if first_wide = None then Some position else first_wide); score = recognised_fields lx headers
             in if best < score then (Some position, score, wide) else (found, best, wide))"

definition find_header :: "lexicon \<Rightarrow> numbered_row list \<Rightarrow> (nat \<times> bool) option" where
  "find_header lx rows =
     (case fold (scan_header lx) (enumerate 0 (map (\<lambda>(_, cells). map cell_text cells) (take HEADER_SCAN rows))) (None, 1, None) of
        (Some position, _, _) \<Rightarrow> Some (position, True)
      | (None, _, Some position) \<Rightarrow> Some (position, False)
      | (None, _, None) \<Rightarrow> None)"

section \<open>What a sheet is\<close>

datatype confidence = High | Low | No_confidence

datatype why = By_columns | By_its_name | Unsure | Nothing_recognised | Chosen

definition DISTINCTIVE :: "sheet_kind \<Rightarrow> string list" where
  "DISTINCTIVE kind = (case kind of
     Clients_sheet \<Rightarrow> [''client_type'', ''personal_number'', ''address'', ''acquisition_source'']
   | Translators_sheet \<Rightarrow> [''default_rate'', ''can_notarize'', ''works_oral'', ''cities'', ''language_pairs'']
   | Notaries_sheet \<Rightarrow> [''registration_number'', ''bank_inn'', ''bank_code'']
   | Orders_sheet \<Rightarrow> [''order_date'', ''price'', ''pages'', ''language_pair'', ''document_type'', ''paid'', ''status''])"

definition distinctive_hits :: "sheet_kind \<Rightarrow> columns \<Rightarrow> nat" where
  "distinctive_hits kind mapping = length (filter (\<lambda>key. map_of mapping key \<noteq> None) (DISTINCTIVE kind))"

definition has_required :: "sheet_kind \<Rightarrow> columns \<Rightarrow> bool" where
  "has_required kind mapping \<longleftrightarrow> list_all (\<lambda>(key, needed). needed \<longrightarrow> map_of mapping key \<noteq> None) (FIELDS kind)"

definition hinted :: "lexicon \<Rightarrow> string \<Rightarrow> sheet_kind \<Rightarrow> bool" where
  "hinted lx sheet_name kind \<longleftrightarrow> list_ex (\<lambda>w. sublist w (norm_header sheet_name)) (lx_name_hints lx kind)"

definition scored_kinds :: "lexicon \<Rightarrow> string \<Rightarrow> string list \<Rightarrow> (nat \<times> sheet_kind \<times> columns \<times> bool) list" where
  "scored_kinds lx sheet_name headers =
     sort_key (\<lambda>e. - int (fst e))
       (List.map_filter (\<lambda>kind.
          let mapping = suggest_mapping lx kind headers; hint = hinted lx sheet_name kind
          in if has_required kind mapping
             then Some (3 * distinctive_hits kind mapping + length mapping + (if hint then 4 else 0), kind, mapping, hint)
             else None) KINDS)"

definition classify :: "lexicon \<Rightarrow> string \<Rightarrow> string list \<Rightarrow> sheet_kind option \<times> confidence \<times> why \<times> columns" where
  "classify lx sheet_name headers =
     (case scored_kinds lx sheet_name headers of
        [] \<Rightarrow> (None, No_confidence, Nothing_recognised, [])
      | (score, kind, mapping, hint) # others \<Rightarrow>
          let gap = (case others of [] \<Rightarrow> score | e # _ \<Rightarrow> score - fst e)
          in if distinctive_hits kind mapping = 0 \<and> \<not> hint then (Some kind, Low, Unsure, mapping)
             else if 3 \<le> gap then (Some kind, High, if hint then By_its_name else By_columns, mapping)
             else (Some kind, Low, Unsure, mapping))"

section \<open>Rows that are not records\<close>

datatype skip_reason = Heading | Totals

type_synonym raw_columns = "(string \<times> int option) list"

definition filled_columns :: "cell list \<Rightarrow> nat list" where
  "filled_columns cells = filter (\<lambda>i. cell_text (cells ! i) \<noteq> []) [0..<length cells]"

definition skip_row :: "lexicon \<Rightarrow> sheet_kind \<Rightarrow> raw_columns \<Rightarrow> cell list \<Rightarrow> skip_reason option" where
  "skip_row lx kind mapping cells =
     (let filled = filled_columns cells
      in if list_ex (\<lambda>i. norm_header (cell_text (cells ! i)) \<in> set (lx_total_words lx)) filled then Some Totals
         else if length filled = 1 \<and> (kind = Orders_sheet \<or> Some (int (hd filled)) \<notin> snd ` set mapping) then Some Heading
         else None)"

definition split_rows :: "lexicon \<Rightarrow> sheet_kind \<Rightarrow> raw_columns \<Rightarrow> numbered_row list
    \<Rightarrow> numbered_row list \<times> (nat \<times> skip_reason) list" where
  "split_rows lx kind mapping rows =
     (filter (\<lambda>(_, cells). skip_row lx kind mapping cells = None) rows,
      List.map_filter (\<lambda>(n, cells). map_option (Pair n) (skip_row lx kind mapping cells)) rows)"

section \<open>The plan\<close>

record choice =
  ch_skip :: bool
  ch_kind :: "sheet_kind option"
  ch_header_row :: "int option"
  ch_mapping :: "raw_columns option"

definition no_choice :: choice where
  "no_choice = \<lparr>ch_skip = False, ch_kind = None, ch_header_row = None, ch_mapping = None\<rparr>"

record sheet_plan =
  sp_index :: nat
  sp_name :: string
  sp_header_row :: "nat option"
  sp_headers :: "string list"
  sp_kind :: "sheet_kind option"
  sp_confidence :: confidence
  sp_why :: why
  sp_mapping :: raw_columns
  sp_rows :: "numbered_row list"
  sp_skipped :: "(nat \<times> skip_reason) list"

definition raw_columns_of :: "columns \<Rightarrow> raw_columns" where
  "raw_columns_of mapping = map (\<lambda>(key, i). (key, Some (int i))) mapping"

definition header_position :: "lexicon \<Rightarrow> numbered_row list \<Rightarrow> choice \<Rightarrow> (nat option \<times> bool) result" where
  "header_position lx rows ch =
     (case ch_header_row ch of
        Some n \<Rightarrow> (case find (\<lambda>i. int (fst (rows ! i)) = n) [0..<length rows] of
            None \<Rightarrow> Inl (ValidationError ''The header row is empty or not in the sheet.'')
          | Some i \<Rightarrow> Inr (Some i, True))
      | None \<Rightarrow> (case find_header lx rows of None \<Rightarrow> Inr (None, False) | Some (i, recognised) \<Rightarrow> Inr (Some i, recognised)))"

definition plan_kind :: "lexicon \<Rightarrow> string \<Rightarrow> string list \<Rightarrow> bool \<Rightarrow> choice
    \<Rightarrow> sheet_kind option \<times> confidence \<times> why \<times> raw_columns" where
  "plan_kind lx name headers recognised ch =
     (if ch_skip ch then (None, No_confidence, Chosen, [])
      else (case ch_kind ch of
          Some kind \<Rightarrow> (Some kind, High, Chosen, raw_columns_of (suggest_mapping lx kind headers))
        | None \<Rightarrow>
            if \<not> recognised then (None, No_confidence, Nothing_recognised, [])
            else (case classify lx name headers of (kind, sure, reason, mapping) \<Rightarrow> (kind, sure, reason, raw_columns_of mapping))))"

definition plan_one :: "lexicon \<Rightarrow> nat \<Rightarrow> raw_sheet \<Rightarrow> choice \<Rightarrow> sheet_plan result" where
  "plan_one lx index raw ch =
     bind_result (header_position lx (rs_rows raw) ch) (\<lambda>(position, recognised).
       case position of
         None \<Rightarrow> Inr \<lparr>sp_index = index, sp_name = rs_name raw, sp_header_row = None, sp_headers = [], sp_kind = None,
           sp_confidence = No_confidence, sp_why = Nothing_recognised, sp_mapping = [], sp_rows = [], sp_skipped = []\<rparr>
       | Some i \<Rightarrow>
           let (header_row, header_cells) = rs_rows raw ! i; headers = map cell_text header_cells;
               body = drop (Suc i) (rs_rows raw);
               (kind, sure, reason, suggested) = plan_kind lx (rs_name raw) headers recognised ch;
               mapping = (case (kind, ch_mapping ch) of (Some _, Some chosen) \<Rightarrow> chosen | _ \<Rightarrow> suggested);
               (kept, skipped) = (case kind of None \<Rightarrow> (body, []) | Some k \<Rightarrow> split_rows lx k mapping body)
           in Inr \<lparr>sp_index = index, sp_name = rs_name raw, sp_header_row = Some header_row, sp_headers = headers, sp_kind = kind,
                sp_confidence = sure, sp_why = reason, sp_mapping = mapping, sp_rows = kept, sp_skipped = skipped\<rparr>)"

definition plan_sheets :: "lexicon \<Rightarrow> raw_sheet list \<Rightarrow> (int \<times> choice) list \<Rightarrow> sheet_plan list result" where
  "plan_sheets lx sheets picked =
     map_result (\<lambda>(i, raw). plan_one lx i raw (case map_of picked (int i) of None \<Rightarrow> no_choice | Some ch \<Rightarrow> ch)) (enumerate 0 sheets)"

section \<open>Judging all of it\<close>

datatype sheet_results =
    Client_rows "client_values row_result list"
  | Translator_rows "translator_values row_result list"
  | Notary_rows "notary_values row_result list"
  | Order_rows "order_values row_result list"

record judging =
  jg_clients :: seen
  jg_translators :: seen
  jg_notaries :: seen
  jg_context :: orders_context
  jg_judged :: "(nat \<times> sheet_results) list"

text \<open>A sheet of translators or notaries, remembered as they are judged: a duplicate is the record it matched, under this
  spelling too.\<close>

definition judge_person :: "(nat \<Rightarrow> cell list \<Rightarrow> seen \<times> ref_counter option \<Rightarrow> 'v row_result \<times> seen \<times> ref_counter option)
    \<Rightarrow> ('v \<Rightarrow> string option) \<Rightarrow> nat \<Rightarrow> cell list \<Rightarrow> seen \<times> people \<Rightarrow> 'v row_result \<times> seen \<times> people" where
  "judge_person judge phone_of number cells state =
     (case state of (s, pe) \<Rightarrow>
      case judge number cells (s, Some (pe_refs pe)) of (r, s', refs) \<Rightarrow>
        let pe' = pe\<lparr>pe_refs := (case refs of None \<Rightarrow> pe_refs pe | Some c \<Rightarrow> c)\<rparr>;
            ref = (if rr_status r = Row_ok then rr_ref r else rr_matched_ref r)
        in (r, s', if rr_status r = Row_error then pe'
                   else remember_person ref (rr_name r) (case rr_values r of None \<Rightarrow> None | Some v \<Rightarrow> phone_of v) pe'))"

definition judge_client_sheet :: "lexicon \<Rightarrow> columns \<Rightarrow> nat \<Rightarrow> cell list \<Rightarrow> seen \<times> orders_context
    \<Rightarrow> client_values row_result \<times> seen \<times> orders_context" where
  "judge_client_sheet lx mapping number cells state =
     (case state of (s, ctx) \<Rightarrow>
      case judge_client lx number cells mapping (s, Some (oc_client_refs ctx)) of (r, s', refs) \<Rightarrow>
        (r, s', ctx\<lparr>oc_client_refs := (case refs of None \<Rightarrow> oc_client_refs ctx | Some c \<Rightarrow> c)\<rparr>))"

definition judge_plan :: "lexicon \<Rightarrow> sheet_kind \<Rightarrow> nat \<times> columns \<times> numbered_row list \<Rightarrow> judging \<Rightarrow> judging" where
  "judge_plan lx kind plan j =
     (case plan of (index, mapping, rows) \<Rightarrow>
        let ctx = jg_context j; done' = (\<lambda>rs. jg_judged j @ [(index, rs)]) in
        case kind of
          Notaries_sheet \<Rightarrow>
            (case judge_rows (judge_person (\<lambda>n cells. judge_notary n cells mapping) nv_phone) rows (jg_notaries j, oc_notaries ctx) of
               (rs, s, pe) \<Rightarrow> j\<lparr>jg_notaries := s, jg_context := ctx\<lparr>oc_notaries := pe\<rparr>, jg_judged := done' (Notary_rows rs)\<rparr>)
        | Translators_sheet \<Rightarrow>
            (case judge_rows (judge_person (\<lambda>n cells. judge_translator lx (oc_language_lookup ctx) n cells mapping) tv_phone) rows
                (jg_translators j, oc_translators ctx) of
               (rs, s, pe) \<Rightarrow> j\<lparr>jg_translators := s, jg_context := ctx\<lparr>oc_translators := pe\<rparr>, jg_judged := done' (Translator_rows rs)\<rparr>)
        | Clients_sheet \<Rightarrow>
            (case judge_rows (judge_client_sheet lx mapping) rows (jg_clients j, ctx) of
               (rs, s, ctx') \<Rightarrow> j\<lparr>jg_clients := s, jg_context := ctx', jg_judged := done' (Client_rows rs)\<rparr>)
        | Orders_sheet \<Rightarrow>
            (case judge_orders lx rows mapping (jg_clients j, ctx) of
               (rs, s, ctx') \<Rightarrow> j\<lparr>jg_clients := s, jg_context := ctx', jg_judged := done' (Order_rows rs)\<rparr>))"

record directory =
  dy_clients :: "existing_person list"
  dy_translators :: "existing_person list"
  dy_notaries :: "existing_person list"

definition JUDGING_ORDER :: "sheet_kind list" where
  "JUDGING_ORDER = [Notaries_sheet, Translators_sheet, Clients_sheet, Orders_sheet]"

definition start_judging :: "sheet_kind list \<Rightarrow> directory \<Rightarrow> orders_context \<Rightarrow> judging" where
  "start_judging kinds dy ctx =
     \<lparr>jg_clients = seen_of (dy_clients dy), jg_translators = seen_of (dy_translators dy), jg_notaries = seen_of (dy_notaries dy),
      jg_context = ctx\<lparr>oc_translators := (oc_translators ctx)\<lparr>pe_create := Translators_sheet \<notin> set kinds\<rparr>,
                       oc_notaries := (oc_notaries ctx)\<lparr>pe_create := Notaries_sheet \<notin> set kinds\<rparr>\<rparr>,
      jg_judged = []\<rparr>"

text \<open>A plan with its kind and its columns checked.\<close>

definition checked_plan :: "sheet_plan \<Rightarrow> (sheet_kind \<times> nat \<times> columns \<times> numbered_row list) result" where
  "checked_plan plan =
     (let kind = the (sp_kind plan) in
      bind_result (check_mapping kind (sp_mapping plan) (length (sp_headers plan))) (\<lambda>mapping.
        if sp_rows plan = [] then Inl (ValidationError ''A sheet has a header but no rows under it.'')
        else Inr (kind, sp_index plan, mapping, sp_rows plan)))"

definition judge_workbook :: "lexicon \<Rightarrow> sheet_plan list \<Rightarrow> directory \<Rightarrow> orders_context \<Rightarrow> judging result" where
  "judge_workbook lx plans dy ctx =
     (let chosen = filter (\<lambda>p. sp_kind p \<noteq> None) plans in
      if chosen = [] then Inl (ValidationError ''None of the sheets could be recognised. Choose what each sheet holds.'')
      else if IMPORT_MAX_ROWS < sum_list (map (\<lambda>p. length (sp_rows p)) chosen)
        then Inl (ValidationError ''The file has too many rows; one import takes at most 5,000. Split it.'')
      else bind_result (map_result checked_plan chosen) (\<lambda>checked.
        Inr (fold (\<lambda>kind. fold (\<lambda>(k, plan). if k = kind then judge_plan lx kind plan else id) checked) JUDGING_ORDER
              (start_judging (map fst checked) dy ctx))))"

end
