(* ===== verification/Imports.thy ===== *)
theory Imports
  imports Workbooks Files
begin

text \<open>
  Importing a spreadsheet into a bureau (\<^verbatim>\<open>api/v1/imports.py\<close>, \<^verbatim>\<open>models/imports.py\<close>): what the rows are
  matched against, saving the accepted ones in one transaction, the list of what an import
  created, and undoing the latest import. Requests stand behind the gate of theory Sessions. The
  form's JSON arrives parsed; files and comments of orders, which only forbid an undo, are the ids
  of the documents and orders that have any.
\<close>

section \<open>Rows\<close>

datatype batch_kind = Combined | Single sheet_kind

record import_batch =
  ib_id :: int
  ib_kind :: batch_kind
  ib_file_name :: string
  ib_rows_total :: nat
  ib_created_count :: nat
  ib_duplicate_count :: nat
  ib_error_count :: nat
  ib_created_by_user_id :: "int option"
  ib_created_at :: instant
  ib_undone_at :: "instant option"

datatype import_entity = Client_made | Translator_made | Notary_made | Order_made | Payment_made

record import_item =
  ii_batch_id :: int
  ii_entity :: import_entity
  ii_entity_id :: int

record import_room =
  im_office :: office
  im_batches :: "import_batch list"
  im_items :: "import_item list"
  im_live_files :: "int list"
  im_comments :: "int list"

section \<open>What the rows are matched against\<close>

definition number_label :: "int \<Rightarrow> string \<Rightarrow> string" where
  "number_label number name = CHR 0x23 # show_int number @ '' '' @ name"

text \<open>A sheet of orders may name a client by name as well; a sheet of clients only asks for the details.\<close>

definition clients_to_name :: "office \<Rightarrow> existing_person list" where
  "clients_to_name db = map (\<lambda>c. \<lparr>xp_label = number_label (cl_number c) (cl_name c), xp_phone = cl_phone c,
     xp_email = cl_email c, xp_personal_number = cl_personal_number c, xp_name = Some (cl_name c),
     xp_ref = Some (Id (cl_id c))\<rparr>) (clients db)"

definition existing_clients :: "office \<Rightarrow> existing_person list" where
  "existing_clients db = map (\<lambda>c. \<lparr>xp_label = number_label (cl_number c) (cl_name c), xp_phone = cl_phone c,
     xp_email = cl_email c, xp_personal_number = cl_personal_number c, xp_name = None, xp_ref = None\<rparr>) (clients db)"

definition existing_notaries :: "office \<Rightarrow> existing_person list" where
  "existing_notaries db = map (\<lambda>n. \<lparr>xp_label = no_name n, xp_phone = no_phone n, xp_email = no_email n,
     xp_personal_number = None, xp_name = Some (no_name n), xp_ref = Some (Id (no_id n))\<rparr>) (notaries db)"

definition existing_translators :: "office \<Rightarrow> existing_person list" where
  "existing_translators db = map (\<lambda>t. \<lparr>xp_label = tr_name t, xp_phone = tr_phone t, xp_email = tr_email t,
     xp_personal_number = None, xp_name = Some (tr_name t), xp_ref = Some (Id (tr_id t))\<rparr>) (translators db)"

definition word_key :: "string \<Rightarrow> string option" where
  "word_key w = (if w = [] then None else Some (lower (strip w)))"

definition language_table :: "office \<Rightarrow> string \<rightharpoonup> string" where
  "language_table db = fold (\<lambda>l m. fold (\<lambda>w. setdefault (word_key w) (la_code l)) [la_code l, la_name_en l, la_name_ka l] m)
     (languages db) (\<lambda>_. None)"

definition language_lookup :: "office \<Rightarrow> string \<Rightarrow> string option" where
  "language_lookup db w = language_table db (lower (strip w))"

definition type_label :: "document_type \<Rightarrow> string" where
  "type_label t = (if dt_name_en t = [] then dt_name_ka t else dt_name_en t)"

definition active_types :: "(string \<Rightarrow> int) \<Rightarrow> office \<Rightarrow> document_type list" where
  "active_types name_order db = sort_key (\<lambda>t. name_order (dt_name_en t)) (filter dt_is_active (document_types db))"

definition type_table :: "document_type list \<Rightarrow> string \<rightharpoonup> int \<times> string" where
  "type_table types = fold (\<lambda>t m. fold (\<lambda>w. setdefault (word_key w) (dt_id t, type_label t)) [dt_name_en t, dt_name_ka t] m)
     types (\<lambda>_. None)"

text \<open>A status as typed: a stored key, a label, or one of the bureau's own, which wins.\<close>

definition status_table :: "office \<Rightarrow> string \<rightharpoonup> string" where
  "status_table db =
     (let built_in = fold (\<lambda>(key, label, _) m. setdefault (Some (lower label)) key (m(lower key \<mapsto> key)))
            STATUS_DEFINITIONS (\<lambda>_. None)
      in fold (\<lambda>value m. m(lower (strip value) \<mapsto> value))
           (map co_value (filter (\<lambda>o'. co_list_key o' = ORDER_STATUS) (custom_options db))) built_in)"

definition no_people :: "string \<Rightarrow> people" where
  "no_people kind = \<lparr>pe_by_name = (\<lambda>_. None), pe_by_phone = (\<lambda>_. None), pe_create = False, pe_made = [],
     pe_refs = fresh_refs kind\<rparr>"

definition known_translators :: "office \<Rightarrow> people" where
  "known_translators db = fold (\<lambda>t. remember_person (Some (Id (tr_id t))) (tr_name t) (tr_phone t))
     (filter tr_is_active (translators db)) (no_people ''newt'')"

definition known_notaries :: "office \<Rightarrow> people" where
  "known_notaries db = fold (\<lambda>n. remember_person (Some (Id (no_id n))) (no_name n) (no_phone n)) (notaries db) (no_people ''newn'')"

definition existing_orders :: "office \<Rightarrow> existing_order list" where
  "existing_orders db = concat (map (\<lambda>o'. map (\<lambda>d. \<lparr>xo_label = ''order #'' @ show_int (o_number o'), xo_client_id = o_client_id o',
       xo_order_date = o_order_date o', xo_source_language = d_source_language d, xo_target_language = d_target_language d,
       xo_page_count = d_page_count d, xo_price = d_price d, xo_identifier = o_identifier o'\<rparr>)
     (order_documents (o_id o') db)) (orders db))"

definition orders_context_of :: "(string \<Rightarrow> int) \<Rightarrow> office \<Rightarrow> orders_context" where
  "orders_context_of name_order db =
     (let types = active_types name_order db in
      \<lparr>oc_language_lookup = language_lookup db, oc_document_types = type_table types,
       oc_default_document_type = (case types of [] \<Rightarrow> None | t # _ \<Rightarrow> Some (dt_id t, type_label t)),
       oc_translators = known_translators db, oc_notaries = known_notaries db, oc_client_refs = fresh_refs ''new'',
       oc_known_orders = None, oc_status_lookup = (\<lambda>s. status_table db (lower (strip s))), oc_existing_orders = existing_orders db\<rparr>)"

definition directory_of :: "office \<Rightarrow> directory" where
  "directory_of db = \<lparr>dy_clients = clients_to_name db, dy_translators = existing_translators db,
     dy_notaries = existing_notaries db\<rparr>"

text \<open>A sheet of one kind.\<close>

definition judge_sheet :: "lexicon \<Rightarrow> (string \<Rightarrow> int) \<Rightarrow> sheet_kind \<Rightarrow> numbered_row list \<Rightarrow> columns \<Rightarrow> office \<Rightarrow> sheet_results" where
  "judge_sheet lx name_order kind rows mapping db = (case kind of
     Clients_sheet \<Rightarrow> Client_rows (fst (judge_rows (\<lambda>n cells. judge_client lx n cells mapping) rows (seen_of (existing_clients db), None)))
   | Translators_sheet \<Rightarrow> Translator_rows (fst (judge_rows (\<lambda>n cells. judge_translator lx (language_lookup db) n cells mapping) rows
       (seen_of (existing_translators db), None)))
   | Notaries_sheet \<Rightarrow> Notary_rows (fst (judge_rows (\<lambda>n cells. judge_notary n cells mapping) rows (seen_of (existing_notaries db), None)))
   | Orders_sheet \<Rightarrow> Order_rows (fst (judge_orders lx rows mapping (seen_of (clients_to_name db), orders_context_of name_order db))))"

section \<open>Saving\<close>

text \<open>What to save for a record, and the ref the rest of the import knows it by, if any.\<close>

type_synonym 'v spec = "ref option \<times> 'v"

type_synonym known = "ref \<rightharpoonup> int"

definition learn :: "ref option \<Rightarrow> int \<Rightarrow> known \<Rightarrow> known" where
  "learn ref i m = (case ref of None \<Rightarrow> m | Some r \<Rightarrow> m(r \<mapsto> i))"

definition client_row :: "int \<Rightarrow> int \<Rightarrow> client_values \<Rightarrow> client" where
  "client_row i number v = \<lparr>cl_id = i, cl_name = cv_name v, cl_phone = cv_phone v, cl_number = number,
     cl_client_type = cv_client_type v, cl_email = cv_email v, cl_address = cv_address v,
     cl_personal_number = cv_personal_number v, cl_acquisition_source = cv_acquisition_source v, cl_notes = cv_notes v\<rparr>"

definition add_client :: "client_values spec \<Rightarrow> known \<times> int list \<times> office \<Rightarrow> known \<times> int list \<times> office" where
  "add_client sp state = (case (sp, state) of ((ref, v), (m, made, db)) \<Rightarrow>
     let i = next_id db in (learn ref i m, made @ [i],
       db\<lparr>next_id := i + 1, clients := clients db @ [client_row i (next_client_number db) v]\<rparr>))"

definition add_clients :: "client_values spec list \<Rightarrow> known \<Rightarrow> office \<Rightarrow> known \<times> int list \<times> office" where
  "add_clients specs m db = fold add_client specs (m, [], db)"

definition notary_row :: "int \<Rightarrow> notary_values \<Rightarrow> notary" where
  "notary_row i v = \<lparr>no_id = i, no_name = nv_name v, no_phone = nv_phone v, no_email = nv_email v,
     no_registration_number = nv_registration_number v, no_office_address = nv_office_address v, no_comment = nv_comment v,
     no_bank_iban = nv_bank_iban v, no_bank_inn = nv_bank_inn v, no_bank_code = nv_bank_code v\<rparr>"

definition add_notary :: "notary_values spec \<Rightarrow> known \<times> int list \<times> office \<Rightarrow> known \<times> int list \<times> office" where
  "add_notary sp state = (case (sp, state) of ((ref, v), (m, made, db)) \<Rightarrow>
     let i = next_id db in (learn ref i m, made @ [i], db\<lparr>next_id := i + 1, notaries := notaries db @ [notary_row i v]\<rparr>))"

definition add_notaries :: "notary_values spec list \<Rightarrow> known \<Rightarrow> office \<Rightarrow> known \<times> int list \<times> office" where
  "add_notaries specs m db = fold add_notary specs (m, [], db)"

definition translator_row :: "int \<Rightarrow> translator_values \<Rightarrow> translator" where
  "translator_row i v = \<lparr>tr_id = i, tr_name = tv_name v, tr_default_rate = map_option (numeric 2) (tv_default_rate v),
     tr_phone = tv_phone v, tr_email = tv_email v, tr_office_address = tv_office_address v, tr_comment = tv_comment v,
     tr_experience_from = None, tr_is_active = True, tr_can_notarize = tv_can_notarize v, tr_works_written = True,
     tr_works_oral = tv_works_oral v, tr_cities = pack (tv_cities v), tr_portal_username = None, tr_portal_password_hash = None,
     tr_bank_iban = tv_bank_iban v, tr_bank_inn = None, tr_bank_code = None\<rparr>"

definition add_translator :: "translator_values spec \<Rightarrow> known \<times> int list \<times> office \<Rightarrow> known \<times> int list \<times> office" where
  "add_translator sp state = (case (sp, state) of ((ref, v), (m, made, db)) \<Rightarrow>
     let i = next_id db in (learn ref i m, made @ [i], db\<lparr>next_id := i + 1, translators := translators db @ [translator_row i v]\<rparr>))"

text \<open>A pair works both ways, as when it is typed into the form.\<close>

definition add_pairs :: "int \<times> (string \<times> string) list \<Rightarrow> office \<Rightarrow> office" where
  "add_pairs made db = (case made of (i, pairs) \<Rightarrow>
     let stored = both_ways (map (\<lambda>(s, t). \<lparr>pr_source = s, pr_target = t, pr_rate = None, pr_one_way = False\<rparr>) pairs)
     in db\<lparr>next_id := next_id db + int (length stored),
          translator_pairs := translator_pairs db @ pair_rows i (next_id db) stored\<rparr>)"

definition add_translators :: "translator_values spec list \<Rightarrow> known \<Rightarrow> office \<Rightarrow> known \<times> int list \<times> office" where
  "add_translators specs m db =
     (case fold add_translator specs (m, [], db) of (m', made, db') \<Rightarrow>
        (m', made, fold add_pairs (zip made (map (tv_language_pairs \<circ> snd) specs)) db'))"

text \<open>Whom the orders introduce is a name, a phone and, for a translator, pairs.\<close>

definition introduced_notary :: "introduced \<Rightarrow> notary_values" where
  "introduced_notary w = \<lparr>nv_name = in_name w, nv_phone = in_phone w, nv_email = None, nv_registration_number = None,
     nv_office_address = None, nv_comment = None, nv_bank_iban = None, nv_bank_inn = None, nv_bank_code = None\<rparr>"

definition introduced_translator :: "introduced \<Rightarrow> translator_values" where
  "introduced_translator w = \<lparr>tv_name = in_name w, tv_phone = in_phone w, tv_email = None, tv_office_address = None,
     tv_comment = None, tv_default_rate = None, tv_bank_iban = None, tv_can_notarize = False, tv_works_oral = False,
     tv_cities = [], tv_language_pairs = in_pairs w\<rparr>"

subsection \<open>Orders\<close>

text \<open>The id behind a ref. A ref nothing was saved under would be a \<^verbatim>\<open>KeyError\<close> nobody catches.\<close>

definition resolved :: "ref option \<Rightarrow> known \<Rightarrow> int option result" where
  "resolved ref m = (case ref of
       None \<Rightarrow> Inr None
     | Some (Id i) \<Rightarrow> Inr (Some i)
     | Some (New r) \<Rightarrow> (case m (New r) of None \<Rightarrow> Inl (InternalError ''KeyError'') | Some i \<Rightarrow> Inr (Some i)))"

definition imported_order :: "auth_session \<Rightarrow> instant \<Rightarrow> int \<Rightarrow> order_values \<Rightarrow> office \<Rightarrow> order" where
  "imported_order session now client_id v db =
     \<lparr>o_id = next_id db, o_number = next_number db, o_client_id = client_id, o_order_date = ov_order_date v,
      o_due_date = ov_due_date v, o_contact_info = None, o_identifier = ov_identifier v, o_urgency = STANDARD,
      o_handover_method = SCAN, o_delivery_address = None, o_delivery_cost = 0, o_source = Some ''import'',
      o_notes = ov_notes v, o_translation_instructions = None, o_created_by_user_id = Some (as_user_id session),
      o_created_at = now\<rparr>"

definition add_order :: "auth_session \<Rightarrow> instant \<Rightarrow> known \<Rightarrow> order_values \<Rightarrow> (order_values \<times> order) list \<times> office
    \<Rightarrow> ((order_values \<times> order) list \<times> office) result" where
  "add_order session now clients_known v state = (case state of (made, db) \<Rightarrow>
     bind_result (resolved (ov_client_ref v) clients_known) (\<lambda>c. case c of
         None \<Rightarrow> Inl (IntegrityError ''orders'')
       | Some cid \<Rightarrow> let o' = imported_order session now cid v db
           in Inr (made @ [(v, o')], db\<lparr>next_id := next_id db + 1, orders := orders db @ [o']\<rparr>)))"

definition imported_document :: "int \<Rightarrow> int \<Rightarrow> int option \<Rightarrow> int option \<Rightarrow> order_values \<Rightarrow> order_document" where
  "imported_document i oid translator notary v =
     \<lparr>d_id = i, d_order_id = oid, d_document_type_id = Some (ov_document_type_id v), d_service_type = WRITTEN,
      d_source_language = ov_source_language v, d_target_language = ov_target_language v, d_page_count = ov_page_count v,
      d_character_count = None, d_interpreting_place = None, d_interpreting_date = None, d_interpreting_time = None,
      d_copy_type = ORIGINAL, d_is_notarized = (notary \<noteq> None \<or> 0 < ov_notary_cost v), d_price = numeric 2 (ov_price v),
      d_translator_cost = numeric 2 (ov_translator_cost v), d_notary_cost = numeric 2 (ov_notary_cost v),
      d_translator_id = translator, d_notary_id = notary\<rparr>"

text \<open>Midnight UTC of a day, in microseconds since 1970.\<close>

definition midnight :: "date \<Rightarrow> instant" where
  "midnight day = (day - 719163) * 86400 * 1000000"

definition imported_events :: "auth_session \<Rightarrow> instant \<Rightarrow> int \<Rightarrow> int \<Rightarrow> order_values \<Rightarrow> status_event list" where
  "imported_events session now i oid v =
     \<lparr>e_id = i, e_order_id = oid, e_status = INITIAL_STATUS, e_changed_at = midnight (ov_order_date v),
      e_changed_by_user_id = Some (as_user_id session), e_note = None\<rparr> #
     (case ov_status v of
        None \<Rightarrow> []
      | Some st \<Rightarrow> if st = [] \<or> st = INITIAL_STATUS then []
          else [\<lparr>e_id = i + 1, e_order_id = oid, e_status = st, e_changed_at = now,
                 e_changed_by_user_id = Some (as_user_id session), e_note = Some ''Imported''\<rparr>])"

definition imported_payment :: "auth_session \<Rightarrow> int \<Rightarrow> order \<Rightarrow> order_values \<Rightarrow> rat \<Rightarrow> client_payment" where
  "imported_payment session i o' v paid = \<lparr>l_id = i, l_party = o_client_id o', l_amount = numeric 2 paid,
     l_payment_date = ov_order_date v, l_method = OTHER, l_notes = Some ''Imported with the order'',
     l_recorded_by_user_id = Some (as_user_id session), l_idempotency_key = None\<rparr>"

text \<open>What hangs from an order: its document, its log, and a payment, which the columns must leave above zero.\<close>

definition add_details :: "auth_session \<Rightarrow> instant \<Rightarrow> known \<Rightarrow> known \<Rightarrow> order_values \<times> order
    \<Rightarrow> (int \<times> int \<times> rat) list \<times> office \<Rightarrow> ((int \<times> int \<times> rat) list \<times> office) result" where
  "add_details session now translators_known notaries_known item state =
     (case (item, state) of ((v, o'), (paid_in, db)) \<Rightarrow>
      bind_result (resolved (ov_notary_id v) notaries_known) (\<lambda>notary.
      bind_result (resolved (ov_translator_id v) translators_known) (\<lambda>translator.
        let i = next_id db; d = imported_document i (o_id o') translator notary v;
            log = imported_events session now (i + 1) (o_id o') v; pid = i + 1 + int (length log);
            db1 = db\<lparr>next_id := pid + 1, documents := documents db @ [d], status_events := status_events db @ log\<rparr>
        in case ov_paid v of
            None \<Rightarrow> Inr (paid_in, db1)
          | Some paid \<Rightarrow>
              if numeric 2 paid \<le> 0 then Inl (IntegrityError ''client_payments'')
              else Inr (paid_in @ [(pid, o_id o', numeric 2 paid)],
                     db1\<lparr>client_payments := client_payments db1 @ [imported_payment session pid o' v paid]\<rparr>))))"

definition create_orders :: "auth_session \<Rightarrow> instant \<Rightarrow> order_values list \<Rightarrow> known \<times> known \<times> known \<Rightarrow> office
    \<Rightarrow> ((import_entity \<times> int) list \<times> office) result" where
  "create_orders session now good refs db =
     (case refs of (clients_known, translators_known, notaries_known) \<Rightarrow>
      case add_clients (List.map_filter (\<lambda>v. map_option (Pair (ov_client_ref v)) (ov_new_client v)) good) clients_known db of
        (clients_known', made, db1) \<Rightarrow>
      bind_result (fold_result (add_order session now clients_known') good ([], db1)) (\<lambda>(placed, db2).
      bind_result (fold_result (add_details session now translators_known notaries_known) placed ([], db2)) (\<lambda>(paid_in, db3).
        Inr (map (Pair Client_made) made @ map (\<lambda>(_, o'). (Order_made, o_id o')) placed @
               map (\<lambda>(pid, _, _). (Payment_made, pid)) paid_in,
             db3\<lparr>client_allocations := client_allocations db3 @
               map (\<lambda>(pid, oid, amount). \<lparr>al_payment_id = pid, al_target_id = oid, al_amount = amount\<rparr>) paid_in\<rparr>))))"

section \<open>The requests\<close>

definition ok_values :: "'v row_result list \<Rightarrow> 'v list" where
  "ok_values rs = List.map_filter rr_values (filter (\<lambda>r. rr_status r = Row_ok) rs)"

definition ok_specs :: "'v row_result list \<Rightarrow> 'v spec list" where
  "ok_specs rs = List.map_filter (\<lambda>r. map_option (Pair (rr_ref r)) (rr_values r)) (filter (\<lambda>r. rr_status r = Row_ok) rs)"

definition results_count :: "row_status \<Rightarrow> sheet_results \<Rightarrow> nat" where
  "results_count st rs = (case rs of Client_rows r \<Rightarrow> count_status st r | Translator_rows r \<Rightarrow> count_status st r
     | Notary_rows r \<Rightarrow> count_status st r | Order_rows r \<Rightarrow> count_status st r)"

definition results_total :: "sheet_results \<Rightarrow> nat" where
  "results_total rs = (case rs of Client_rows r \<Rightarrow> length r | Translator_rows r \<Rightarrow> length r
     | Notary_rows r \<Rightarrow> length r | Order_rows r \<Rightarrow> length r)"

record batch_out =
  bo_batch :: import_batch
  bo_can_undo :: bool

text \<open>The batch, the list of what it made, and the audit line.\<close>

definition new_batch :: "auth_session \<Rightarrow> instant \<Rightarrow> int \<Rightarrow> batch_kind \<Rightarrow> string \<Rightarrow> nat \<Rightarrow> nat \<Rightarrow> nat \<Rightarrow> nat \<Rightarrow> import_batch" where
  "new_batch session now i kind filename rows_total made duplicates errors =
     \<lparr>ib_id = i, ib_kind = kind, ib_file_name = take 255 (safe_file_name (Some filename)), ib_rows_total = rows_total,
      ib_created_count = made, ib_duplicate_count = duplicates, ib_error_count = errors,
      ib_created_by_user_id = Some (as_user_id session), ib_created_at = now, ib_undone_at = None\<rparr>"

definition finish :: "auth_session \<Rightarrow> import_batch \<Rightarrow> (import_entity \<times> int) list \<Rightarrow> office \<Rightarrow> import_room
    \<Rightarrow> batch_out \<times> import_room" where
  "finish session batch created db room =
     (\<lparr>bo_batch = batch, bo_can_undo = True\<rparr>,
      room\<lparr>im_office := log_office session ''import.committed'' ''import'' (ib_id batch) db,
           im_batches := im_batches room @ [batch],
           im_items := im_items room @ map (\<lambda>(entity, i). \<lparr>ii_batch_id = ib_id batch, ii_entity = entity, ii_entity_id = i\<rparr>) created\<rparr>)"

definition save_results :: "auth_session \<Rightarrow> instant \<Rightarrow> sheet_results \<Rightarrow> office \<Rightarrow> ((import_entity \<times> int) list \<times> office) result" where
  "save_results session now rs db = (case rs of
       Client_rows r \<Rightarrow> (case add_clients (map (Pair None) (ok_values r)) (\<lambda>_. None) db of (_, made, db') \<Rightarrow> Inr (map (Pair Client_made) made, db'))
     | Translator_rows r \<Rightarrow> (case add_translators (map (Pair None) (ok_values r)) (\<lambda>_. None) db of
         (_, made, db') \<Rightarrow> Inr (map (Pair Translator_made) made, db'))
     | Notary_rows r \<Rightarrow> (case add_notaries (map (Pair None) (ok_values r)) (\<lambda>_. None) db of
         (_, made, db') \<Rightarrow> Inr (map (Pair Notary_made) made, db'))
     | Order_rows r \<Rightarrow> create_orders session now (ok_values r) ((\<lambda>_. None), (\<lambda>_. None), (\<lambda>_. None)) db)"

text \<open>\<^verbatim>\<open>_read\<close>: the file, the columns, the rows.\<close>

definition read_and_judge :: "lexicon \<Rightarrow> (string \<Rightarrow> int) \<Rightarrow> readers \<Rightarrow> sheet_kind \<Rightarrow> string \<Rightarrow> string \<Rightarrow> raw_columns option \<Rightarrow> office
    \<Rightarrow> sheet_results result" where
  "read_and_judge lx name_order rd kind content filename mapping db =
     bind_result (read_sheet rd content filename) (\<lambda>(headers, rows).
       case mapping of
         None \<Rightarrow> Inl (ValidationError ''The column choices could not be read.'')
       | Some raw \<Rightarrow> bind_result (check_mapping kind raw (length headers)) (\<lambda>columns.
           Inr (judge_sheet lx name_order kind rows columns db)))"

definition nothing_to_import :: api_error where
  "nothing_to_import = ValidationError ''Nothing to import: every row is a duplicate or has an error.''"

definition commit :: "lexicon \<Rightarrow> (string \<Rightarrow> int) \<Rightarrow> readers \<Rightarrow> auth_session \<Rightarrow> instant \<Rightarrow> sheet_kind \<Rightarrow> string \<Rightarrow> string
    \<Rightarrow> raw_columns option \<Rightarrow> import_room \<Rightarrow> (batch_out \<times> import_room) result" where
  "commit lx name_order rd session now kind content filename mapping room =
     bind_result (read_and_judge lx name_order rd kind content filename mapping (im_office room)) (\<lambda>rs.
       if results_count Row_ok rs = 0 then Inl nothing_to_import
       else let db = im_office room;
                batch = new_batch session now (next_id db) (Single kind) filename (results_total rs) (results_count Row_ok rs)
                  (results_count Row_duplicate rs) (results_count Row_error rs)
            in bind_result (save_results session now rs (db\<lparr>next_id := next_id db + 1\<rparr>)) (\<lambda>(created, db').
                 Inr (finish session batch created db' room)))"

subsection \<open>A whole workbook\<close>

definition plan_file :: "lexicon \<Rightarrow> readers \<Rightarrow> string \<Rightarrow> string \<Rightarrow> (int \<times> choice) list option \<Rightarrow> sheet_plan list result" where
  "plan_file lx rd content filename picked =
     bind_result (read_workbook rd content filename) (\<lambda>sheets.
       case picked of
         None \<Rightarrow> Inl (ValidationError ''The choices for the sheets could not be read.'')
       | Some cs \<Rightarrow> plan_sheets lx sheets cs)"

definition judge_file :: "lexicon \<Rightarrow> (string \<Rightarrow> int) \<Rightarrow> readers \<Rightarrow> string \<Rightarrow> string \<Rightarrow> (int \<times> choice) list option \<Rightarrow> office
    \<Rightarrow> judging result" where
  "judge_file lx name_order rd content filename picked db =
     bind_result (plan_file lx rd content filename picked) (\<lambda>plans.
       judge_workbook lx plans (directory_of db) (orders_context_of name_order db))"

text \<open>The results of one kind, in the order of the file's sheets.\<close>

definition in_file_order :: "judging \<Rightarrow> sheet_results list" where
  "in_file_order j = map snd (sort_key fst (jg_judged j))"

definition client_results :: "judging \<Rightarrow> client_values row_result list" where
  "client_results j = concat (map (\<lambda>rs. case rs of Client_rows r \<Rightarrow> r | _ \<Rightarrow> []) (in_file_order j))"

definition translator_results :: "judging \<Rightarrow> translator_values row_result list" where
  "translator_results j = concat (map (\<lambda>rs. case rs of Translator_rows r \<Rightarrow> r | _ \<Rightarrow> []) (in_file_order j))"

definition notary_results :: "judging \<Rightarrow> notary_values row_result list" where
  "notary_results j = concat (map (\<lambda>rs. case rs of Notary_rows r \<Rightarrow> r | _ \<Rightarrow> []) (in_file_order j))"

definition order_results :: "judging \<Rightarrow> order_values row_result list" where
  "order_results j = concat (map (\<lambda>rs. case rs of Order_rows r \<Rightarrow> r | _ \<Rightarrow> []) (in_file_order j))"

definition judged_count :: "row_status \<Rightarrow> judging \<Rightarrow> nat" where
  "judged_count st j = sum_list (map (results_count st) (map snd (jg_judged j)))"

text \<open>What the import would add, counting what the orders bring with them.\<close>

record creates_out =
  cr_clients :: nat
  cr_translators :: nat
  cr_notaries :: nat
  cr_orders :: nat

definition creates :: "judging \<Rightarrow> creates_out" where
  "creates j =
     (let os = ok_values (order_results j) in
      \<lparr>cr_clients = length (ok_specs (client_results j)) + length (filter (\<lambda>v. ov_new_client v \<noteq> None) os),
       cr_translators = length (ok_specs (translator_results j)) + length (pe_made (oc_translators (jg_context j))),
       cr_notaries = length (ok_specs (notary_results j)) + length (pe_made (oc_notaries (jg_context j))),
       cr_orders = length os\<rparr>)"

definition records_made :: "creates_out \<Rightarrow> nat" where
  "records_made c = cr_clients c + cr_translators c + cr_notaries c + cr_orders c"

definition introduced_specs :: "(introduced \<Rightarrow> 'v) \<Rightarrow> people \<Rightarrow> 'v spec list" where
  "introduced_specs f pe = map (\<lambda>(r, w). (Some r, f w)) (pe_made pe)"

definition save_judged :: "auth_session \<Rightarrow> instant \<Rightarrow> judging \<Rightarrow> office \<Rightarrow> ((import_entity \<times> int) list \<times> office) result" where
  "save_judged session now j db =
     (case add_notaries (ok_specs (notary_results j) @ introduced_specs introduced_notary (oc_notaries (jg_context j)))
        (\<lambda>_. None) db of (n_known, n_made, db1) \<Rightarrow>
      case add_translators (ok_specs (translator_results j) @ introduced_specs introduced_translator (oc_translators (jg_context j)))
        (\<lambda>_. None) db1 of (t_known, t_made, db2) \<Rightarrow>
      case add_clients (ok_specs (client_results j)) (\<lambda>_. None) db2 of (c_known, c_made, db3) \<Rightarrow>
      bind_result (create_orders session now (ok_values (order_results j)) (c_known, t_known, n_known) db3) (\<lambda>(created, db4).
        Inr (map (Pair Notary_made) n_made @ map (Pair Translator_made) t_made @ map (Pair Client_made) c_made @ created, db4)))"

definition commit_combined :: "lexicon \<Rightarrow> (string \<Rightarrow> int) \<Rightarrow> readers \<Rightarrow> auth_session \<Rightarrow> instant \<Rightarrow> string \<Rightarrow> string
    \<Rightarrow> (int \<times> choice) list option \<Rightarrow> import_room \<Rightarrow> (batch_out \<times> import_room) result" where
  "commit_combined lx name_order rd session now content filename picked room =
     bind_result (judge_file lx name_order rd content filename picked (im_office room)) (\<lambda>j.
       if judged_count Row_ok j = 0 then Inl nothing_to_import
       else let db = im_office room;
                batch = new_batch session now (next_id db) Combined filename
                  (sum_list (map results_total (map snd (jg_judged j)))) (records_made (creates j)) (judged_count Row_duplicate j) (judged_count Row_error j)
            in bind_result (save_judged session now j (db\<lparr>next_id := next_id db + 1\<rparr>)) (\<lambda>(created, db').
                 Inr (finish session batch created db' room)))"

section \<open>Undo\<close>

definition made_ids :: "import_entity \<Rightarrow> import_item list \<Rightarrow> int list" where
  "made_ids entity items = map ii_entity_id (filter (\<lambda>x. ii_entity x = entity) items)"

definition orders_in_use :: "import_item list \<Rightarrow> import_room \<Rightarrow> bool" where
  "orders_in_use items room =
     (let db = im_office room; oids = set (made_ids Order_made items); pids = set (made_ids Payment_made items);
          dids = d_id ` set (filter (\<lambda>d. d_order_id d \<in> oids) (documents db))
      in list_ex (\<lambda>a. al_target_id a \<in> oids \<and> al_payment_id a \<notin> pids) (client_allocations db) \<or>
         list_ex (\<lambda>a. al_target_id a \<in> oids) (translator_allocations db) \<or>
         list_ex (\<lambda>a. al_target_id a \<in> dids) (notary_allocations db) \<or>
         list_ex (\<lambda>d. d \<in> dids) (im_live_files room) \<or> list_ex (\<lambda>o'. o' \<in> oids) (im_comments room))"

text \<open>
  The rows an import of orders made, with what hangs from them; an expense goes with its order
  (the foreign key cascades), and a refund keeps its payment, which is an error here. Clients the
  import made stay when they have gained other orders or payments since.
\<close>

definition delete_orders :: "import_item list \<Rightarrow> office \<Rightarrow> office result" where
  "delete_orders items db =
     (let oids = set (made_ids Order_made items); pids = set (made_ids Payment_made items); cids = set (made_ids Client_made items);
          payments' = filter (\<lambda>p. l_id p \<notin> pids) (client_payments db); orders' = filter (\<lambda>o'. o_id o' \<notin> oids) (orders db)
      in if list_ex (\<lambda>r. rf_payment_id r \<in> pids) (client_refunds db) then Inl (IntegrityError ''client_refunds'')
         else Inr (db\<lparr>client_allocations := filter (\<lambda>a. al_payment_id a \<notin> pids) (client_allocations db),
                client_payments := payments',
                status_events := filter (\<lambda>e. e_order_id e \<notin> oids) (status_events db),
                documents := filter (\<lambda>d. d_order_id d \<notin> oids) (documents db),
                orders := orders',
                expenses := filter (\<lambda>x. case x_order_id x of None \<Rightarrow> True | Some o' \<Rightarrow> o' \<notin> oids) (expenses db),
                clients := filter (\<lambda>c. cl_id c \<notin> cids \<or> cl_id c \<in> o_client_id ` set orders' \<or> cl_id c \<in> l_party ` set payments')
                  (clients db)\<rparr>))"

definition orders_conflict :: api_error where
  "orders_conflict = ConflictError ''Some of the imported orders already have other payments, a translator or notary payout, files or comments, so this import can no longer be undone.''"

definition undo_orders :: "import_item list \<Rightarrow> import_room \<Rightarrow> office result" where
  "undo_orders items room = (if orders_in_use items room then Inl orders_conflict else delete_orders items (im_office room))"

definition people_elsewhere :: "import_item list \<Rightarrow> office \<Rightarrow> bool" where
  "people_elsewhere items db =
     (let oids = set (made_ids Order_made items); tids = set (made_ids Translator_made items); nids = set (made_ids Notary_made items)
      in list_ex (\<lambda>d. (case d_translator_id d of None \<Rightarrow> False | Some t \<Rightarrow> t \<in> tids) \<and> d_order_id d \<notin> oids) (documents db) \<or>
         list_ex (\<lambda>p. l_party p \<in> tids) (translator_payments db) \<or>
         list_ex (\<lambda>d. (case d_notary_id d of None \<Rightarrow> False | Some n \<Rightarrow> n \<in> nids) \<and> d_order_id d \<notin> oids) (documents db))"

definition delete_translators :: "int set \<Rightarrow> office \<Rightarrow> office" where
  "delete_translators tids db = db\<lparr>translator_pairs := filter (\<lambda>p. tp_translator_id p \<notin> tids) (translator_pairs db),
     translators := filter (\<lambda>t. tr_id t \<notin> tids) (translators db)\<rparr>"

definition delete_notaries :: "int set \<Rightarrow> office \<Rightarrow> office" where
  "delete_notaries nids db = db\<lparr>notaries := filter (\<lambda>n. no_id n \<notin> nids) (notaries db)\<rparr>"

definition in_use_conflict :: api_error where
  "in_use_conflict = ConflictError ''Some of what was imported is already in use, so this import can no longer be undone.''"

definition undo_combined :: "import_item list \<Rightarrow> import_room \<Rightarrow> office result" where
  "undo_combined items room =
     (if orders_in_use items room then Inl orders_conflict
      else if people_elsewhere items (im_office room) then Inl in_use_conflict
      else bind_result (delete_orders items (im_office room)) (\<lambda>db.
        Inr (delete_notaries (set (made_ids Notary_made items)) (delete_translators (set (made_ids Translator_made items)) db))))"

definition undo_clients :: "int set \<Rightarrow> office \<Rightarrow> office result" where
  "undo_clients ids db =
     (if list_ex (\<lambda>o'. o_client_id o' \<in> ids) (orders db) \<or> list_ex (\<lambda>p. l_party p \<in> ids) (client_payments db) then Inl in_use_conflict
      else Inr (db\<lparr>clients := filter (\<lambda>c. cl_id c \<notin> ids) (clients db)\<rparr>))"

definition undo_notaries :: "int set \<Rightarrow> office \<Rightarrow> office result" where
  "undo_notaries ids db =
     (if list_ex (\<lambda>d. case d_notary_id d of None \<Rightarrow> False | Some n \<Rightarrow> n \<in> ids) (documents db) then Inl in_use_conflict
      else Inr (delete_notaries ids db))"

definition undo_translators :: "int set \<Rightarrow> office \<Rightarrow> office result" where
  "undo_translators ids db =
     (if list_ex (\<lambda>d. case d_translator_id d of None \<Rightarrow> False | Some t \<Rightarrow> t \<in> ids) (documents db) \<or>
         list_ex (\<lambda>p. l_party p \<in> ids) (translator_payments db) then Inl in_use_conflict
      else Inr (delete_translators ids db))"

definition undo_batch :: "batch_kind \<Rightarrow> import_item list \<Rightarrow> import_room \<Rightarrow> office result" where
  "undo_batch kind items room =
     (let ids = set (map ii_entity_id items) in
      case kind of
        Combined \<Rightarrow> undo_combined items room
      | Single Orders_sheet \<Rightarrow> undo_orders items room
      | Single Clients_sheet \<Rightarrow> undo_clients ids (im_office room)
      | Single Notaries_sheet \<Rightarrow> undo_notaries ids (im_office room)
      | Single Translators_sheet \<Rightarrow> undo_translators ids (im_office room))"

definition latest_batch :: "import_room \<Rightarrow> int option" where
  "latest_batch room = (let open = map ib_id (filter (\<lambda>b. ib_undone_at b = None) (im_batches room)) in
     if open = [] then None else Some (fold max open (hd open)))"

definition undo :: "auth_session \<Rightarrow> instant \<Rightarrow> int \<Rightarrow> import_room \<Rightarrow> (batch_out \<times> import_room) result" where
  "undo session now i room =
     (case get_row ib_id i (im_batches room) of
        None \<Rightarrow> Inl (NotFoundError ''Import not found.'')
      | Some batch \<Rightarrow>
          if ib_undone_at batch \<noteq> None then Inl (ConflictError ''That import was already undone.'')
          else if latest_batch room \<noteq> Some i then Inl (ConflictError ''Only the latest import can be undone. Undo the newer one first.'')
          else let items = filter (\<lambda>x. ii_batch_id x = i) (im_items room); batch' = batch\<lparr>ib_undone_at := Some now\<rparr>
               in bind_result (undo_batch (ib_kind batch) items room) (\<lambda>db.
                    Inr (\<lparr>bo_batch = batch', bo_can_undo = False\<rparr>,
                         room\<lparr>im_office := log_office session ''import.undone'' ''import'' i db,
                              im_batches := update_where (\<lambda>b. ib_id b = i) (\<lambda>_. batch') (im_batches room),
                              im_items := filter (\<lambda>x. ii_batch_id x \<noteq> i) (im_items room)\<rparr>)))"

text \<open>The latest imports, newest first; only the newest that was not undone can be undone.\<close>

definition import_history :: "import_room \<Rightarrow> batch_out list" where
  "import_history room =
     (let rows = take 20 (rev (sort_key ib_id (im_batches room)));
          latest = map_option ib_id (find (\<lambda>b. ib_undone_at b = None) rows)
      in map (\<lambda>b. \<lparr>bo_batch = b, bo_can_undo = (latest = Some (ib_id b) \<and> ib_undone_at b = None)\<rparr>) rows)"

end
