(* ===== verification/Previews.thy ===== *)
theory Previews
  imports Imports
begin

text \<open>
  What the import screen shows before anything is saved (\<^verbatim>\<open>api/v1/imports.py\<close>): the columns of a file
  and a guess at what they hold, and the judged rows, with a sample and the problems in full up to a
  limit. Nothing here changes the bureau's tables.
\<close>

definition SAMPLE_ROWS :: nat where "SAMPLE_ROWS = 25"

definition PROBLEM_ROWS :: nat where "PROBLEM_ROWS = 300"

section \<open>The file\<close>

record column_out =
  cu_index :: nat
  cu_header :: string
  cu_sample :: "string list"

record analysis_out =
  an_file_name :: string
  an_total_rows :: nat
  an_max_rows :: nat
  an_columns :: "column_out list"
  an_fields :: "(string \<times> bool) list"
  an_suggested :: columns

text \<open>The first three values under a header, out of the first fifty rows.\<close>

definition column_sample :: "numbered_row list \<Rightarrow> nat \<Rightarrow> string list" where
  "column_sample rows i = take 3 (filter (\<lambda>s. s \<noteq> [])
     (map (\<lambda>(_, cells). if i < length cells then cell_text (cells ! i) else []) (take 50 rows)))"

definition columns_out :: "string list \<Rightarrow> numbered_row list \<Rightarrow> column_out list" where
  "columns_out headers rows = map (\<lambda>(i, header). \<lparr>cu_index = i,
     cu_header = (if header = [] then ''('' @ show_nat (i + 1) @ '')'' else header),
     cu_sample = column_sample rows i\<rparr>) (enumerate 0 headers)"

definition analyse :: "lexicon \<Rightarrow> readers \<Rightarrow> sheet_kind \<Rightarrow> string \<Rightarrow> string \<Rightarrow> analysis_out result" where
  "analyse lx rd kind content filename =
     bind_result (read_sheet rd content filename) (\<lambda>(headers, rows).
       Inr \<lparr>an_file_name = safe_file_name (Some filename), an_total_rows = length rows, an_max_rows = IMPORT_MAX_ROWS,
            an_columns = columns_out headers rows, an_fields = FIELDS kind, an_suggested = suggest_mapping lx kind headers\<rparr>)"

record sheet_out =
  so_index :: nat
  so_name :: string
  so_kind :: "sheet_kind option"
  so_confidence :: confidence
  so_why :: why
  so_header_row :: "nat option"
  so_total_rows :: nat
  so_skipped_count :: nat
  so_skipped :: "(nat \<times> skip_reason) list"
  so_columns :: "column_out list"
  so_mapping :: raw_columns
  so_suggested :: "(sheet_kind \<times> columns) list"

definition sheet_out_of :: "lexicon \<Rightarrow> sheet_plan \<Rightarrow> sheet_out" where
  "sheet_out_of lx plan = \<lparr>so_index = sp_index plan, so_name = sp_name plan, so_kind = sp_kind plan,
     so_confidence = sp_confidence plan, so_why = sp_why plan, so_header_row = sp_header_row plan,
     so_total_rows = length (sp_rows plan) + length (sp_skipped plan), so_skipped_count = length (sp_skipped plan),
     so_skipped = take 10 (sp_skipped plan), so_columns = columns_out (sp_headers plan) (sp_rows plan),
     so_mapping = sp_mapping plan, so_suggested = map (\<lambda>kind. (kind, suggest_mapping lx kind (sp_headers plan))) KINDS\<rparr>"

record combined_analysis =
  ca_file_name :: string
  ca_max_rows :: nat
  ca_sheets :: "sheet_out list"
  ca_fields :: "(sheet_kind \<times> (string \<times> bool) list) list"

definition analyse_combined :: "lexicon \<Rightarrow> readers \<Rightarrow> string \<Rightarrow> string \<Rightarrow> combined_analysis result" where
  "analyse_combined lx rd content filename =
     bind_result (plan_file lx rd content filename (Some [])) (\<lambda>plans.
       Inr \<lparr>ca_file_name = safe_file_name (Some filename), ca_max_rows = IMPORT_MAX_ROWS,
            ca_sheets = map (sheet_out_of lx) plans, ca_fields = map (\<lambda>kind. (kind, FIELDS kind)) KINDS\<rparr>)"

section \<open>The rows\<close>

text \<open>What would be saved, as short text. A date is written out and an amount as it was typed; here
  they are the date and the number.\<close>

datatype summary_part = Shown string | On date | Price_of rat | Paid_of rat

definition shown_all :: "string option list \<Rightarrow> summary_part list" where
  "shown_all vs = map Shown (List.map_filter (\<lambda>v. case v of None \<Rightarrow> None | Some s \<Rightarrow> if s = [] then None else Some s) vs)"

definition is_new :: "ref option \<Rightarrow> bool" where
  "is_new r \<longleftrightarrow> (case r of Some (New _) \<Rightarrow> True | _ \<Rightarrow> False)"

definition order_row_summary :: "order_values \<Rightarrow> summary_part list" where
  "order_row_summary v =
     [On (ov_order_date v), Shown (ov_source_language v @ ''-'' @ ov_target_language v),
      Shown (ov_document_type_label v @ '' x'' @ show_int (ov_page_count v)), Price_of (ov_price v)] @
     (case ov_paid v of None \<Rightarrow> [] | Some paid \<Rightarrow> if paid = 0 then [] else [Paid_of paid]) @
     (if ov_new_client v \<noteq> None then [Shown ''new client''] else []) @
     (if is_new (ov_translator_id v) then [Shown ''new translator''] else []) @
     (if is_new (ov_notary_id v) then [Shown ''new notary''] else [])"

definition client_row_summary :: "client_values \<Rightarrow> summary_part list" where
  "client_row_summary v = Shown (case cv_client_type v of B2B \<Rightarrow> ''B2B'' | B2C \<Rightarrow> ''B2C'') #
     shown_all [cv_phone v, cv_email v, cv_personal_number v]"

definition notary_row_summary :: "notary_values \<Rightarrow> summary_part list" where
  "notary_row_summary v = shown_all [nv_phone v, nv_email v, nv_registration_number v, nv_bank_iban v] @
     (if or_blank (nv_bank_iban v) = [] then [Shown ''no IBAN''] else [])"

definition translator_row_summary :: "translator_values \<Rightarrow> summary_part list" where
  "translator_row_summary v = shown_all [tv_phone v, tv_email v] @
     (if tv_language_pairs v = [] then [] else [Shown (join_by '', '' (map (\<lambda>(a, b). a @ ''-'' @ b) (tv_language_pairs v)))]) @
     (if tv_cities v = [] then [] else [Shown (join_by '', '' (tv_cities v))]) @
     (if tv_can_notarize v then [Shown ''notary''] else [])"

record row_out =
  ro_row :: nat
  ro_status :: row_status
  ro_name :: string
  ro_messages :: "row_message list"
  ro_warnings :: "row_warning list"
  ro_matched :: "string option"
  ro_summary :: "summary_part list"

definition row_out_of :: "('v \<Rightarrow> summary_part list) \<Rightarrow> 'v row_result \<Rightarrow> row_out" where
  "row_out_of summary r = \<lparr>ro_row = rr_row r, ro_status = rr_status r, ro_name = rr_name r, ro_messages = rr_messages r,
     ro_warnings = rr_warnings r, ro_matched = rr_matched r,
     ro_summary = (case rr_values r of None \<Rightarrow> [] | Some v \<Rightarrow> summary v)\<rparr>"

definition rows_out :: "sheet_results \<Rightarrow> row_out list" where
  "rows_out rs = (case rs of
       Client_rows r \<Rightarrow> map (row_out_of client_row_summary) r
     | Translator_rows r \<Rightarrow> map (row_out_of translator_row_summary) r
     | Notary_rows r \<Rightarrow> map (row_out_of notary_row_summary) r
     | Order_rows r \<Rightarrow> map (row_out_of order_row_summary) r)"

record preview_out =
  po_total :: nat
  po_will_create :: nat
  po_duplicates :: nat
  po_errors :: nat
  po_with_warnings :: nat
  po_sample :: "row_out list"
  po_problems :: "row_out list"
  po_problems_truncated :: bool

definition is_problem :: "row_out \<Rightarrow> bool" where
  "is_problem r \<longleftrightarrow> ro_status r \<noteq> Row_ok \<or> ro_warnings r \<noteq> []"

definition preview_of :: "sheet_results \<Rightarrow> preview_out" where
  "preview_of rs =
     (let rows = rows_out rs; problems = filter is_problem rows
      in \<lparr>po_total = results_total rs, po_will_create = results_count Row_ok rs, po_duplicates = results_count Row_duplicate rs,
          po_errors = results_count Row_error rs,
          po_with_warnings = length (filter (\<lambda>r. ro_status r = Row_ok \<and> ro_warnings r \<noteq> []) rows),
          po_sample = take SAMPLE_ROWS rows, po_problems = take PROBLEM_ROWS problems,
          po_problems_truncated = (PROBLEM_ROWS < length problems)\<rparr>)"

definition preview :: "lexicon \<Rightarrow> (string \<Rightarrow> int) \<Rightarrow> readers \<Rightarrow> sheet_kind \<Rightarrow> string \<Rightarrow> string
    \<Rightarrow> raw_columns option \<Rightarrow> office \<Rightarrow> preview_out result" where
  "preview lx name_order rd kind content filename mapping db =
     bind_result (read_and_judge lx name_order rd kind content filename mapping db) (\<lambda>rs. Inr (preview_of rs))"

record sheet_preview =
  sv_index :: nat
  sv_name :: string
  sv_kind :: sheet_kind
  sv_skipped_count :: nat
  sv_rows :: preview_out

definition sheet_preview_of :: "judging \<Rightarrow> sheet_plan \<Rightarrow> sheet_preview list" where
  "sheet_preview_of j plan =
     (case (sp_kind plan, map_of (jg_judged j) (sp_index plan)) of
        (Some kind, Some rs) \<Rightarrow> [\<lparr>sv_index = sp_index plan, sv_name = sp_name plan, sv_kind = kind,
          sv_skipped_count = length (sp_skipped plan), sv_rows = preview_of rs\<rparr>]
      | _ \<Rightarrow> [])"

record combined_preview =
  cp_sheets :: "sheet_preview list"
  cp_total :: nat
  cp_will_create :: nat
  cp_duplicates :: nat
  cp_errors :: nat
  cp_with_warnings :: nat
  cp_creates :: creates_out

definition preview_combined :: "lexicon \<Rightarrow> (string \<Rightarrow> int) \<Rightarrow> readers \<Rightarrow> string \<Rightarrow> string
    \<Rightarrow> (int \<times> choice) list option \<Rightarrow> office \<Rightarrow> combined_preview result" where
  "preview_combined lx name_order rd content filename picked db =
     bind_result (plan_file lx rd content filename picked) (\<lambda>plans.
     bind_result (judge_workbook lx plans (directory_of db) (orders_context_of name_order db)) (\<lambda>j.
       let sheets = concat (map (sheet_preview_of j) plans)
       in Inr \<lparr>cp_sheets = sheets, cp_total = sum_list (map results_total (map snd (jg_judged j))),
               cp_will_create = judged_count Row_ok j, cp_duplicates = judged_count Row_duplicate j,
               cp_errors = judged_count Row_error j,
               cp_with_warnings = sum_list (map (po_with_warnings \<circ> sv_rows) sheets), cp_creates = creates j\<rparr>))"

end
