(* ===== verification/ImportRuns.thy ===== *)
theory ImportRuns
  imports Imports Bureau
begin

text \<open>
  What importing guarantees. The locale \<open>sieve\<close> is the contract between a judge of rows and what it
  already knows: a row is an error, a duplicate or accepted, and only an accepted row is known
  from then on. Clients, translators and notaries are judged by one, so their sheets add nobody
  twice. The rest follows an import into the bureau's tables and an undo out of them.
\<close>

section \<open>A row against what is known\<close>

fun accepted_before :: "('r \<Rightarrow> row_status) \<Rightarrow> ('k set option \<times> 'r) list \<Rightarrow> 'k set" where
  "accepted_before status [] = {}"
| "accepted_before status ((K, r) # rest) =
     (if status r = Row_ok then (case K of None \<Rightarrow> {} | Some k \<Rightarrow> k) else {}) \<union> accepted_before status rest"

definition verdict :: "'k set option \<Rightarrow> 'k set \<Rightarrow> row_status" where
  "verdict K there = (case K of None \<Rightarrow> Row_error | Some k \<Rightarrow> if k \<inter> there = {} then Row_ok else Row_duplicate)"

locale sieve =
  fixes judge :: "nat \<Rightarrow> cell list \<Rightarrow> 's \<Rightarrow> 'r \<times> 's"
    and keys_of :: "cell list \<Rightarrow> 'k set option"
    and known :: "'s \<Rightarrow> 'k set"
    and status :: "'r \<Rightarrow> row_status"
  assumes judged: "judge n cells s = (r, s') \<Longrightarrow> status r = verdict (keys_of cells) (known s)"
    and learned: "judge n cells s = (r, s') \<Longrightarrow>
      known s' = known s \<union> (if status r = Row_ok then the (keys_of cells) else {})"
begin

lemma rows_length: "length (fst (judge_rows judge rows s)) = length rows"
  by (induction judge rows s rule: judge_rows.induct) (auto split: prod.splits)

text \<open>A row is judged by its own details and those of the rows accepted before it.\<close>

lemma each_row:
  "i < length rows \<Longrightarrow> status (fst (judge_rows judge rows s) ! i) =
     verdict (keys_of (snd (rows ! i))) (known s \<union>
       accepted_before status (zip (map (keys_of \<circ> snd) (take i rows)) (take i (fst (judge_rows judge rows s)))))"
proof (induction rows arbitrary: s i)
  case (Cons row rows)
  obtain n cells where row: "row = (n, cells)" by fastforce
  obtain r s' where j: "judge n cells s = (r, s')" by fastforce
  have rest: "fst (judge_rows judge (row # rows) s) = r # fst (judge_rows judge rows s')"
    by (simp add: row j split: prod.split)
  have ok_some: "status r = Row_ok \<Longrightarrow> keys_of cells \<noteq> None" using judged [OF j] by (auto simp: verdict_def split: option.splits)
  show ?case
  proof (cases i)
    case 0
    then show ?thesis unfolding 0 rest using judged [OF j] by (simp add: row)
  next
    case (Suc k)
    then have "k < length rows" using Cons.prems by simp
    from Cons.IH [OF this, of s'] show ?thesis
      unfolding Suc rest using learned [OF j] ok_some by (auto simp: row Un_assoc)
  qed
qed simp

lemma known_after: "known (snd (judge_rows judge rows s)) =
  known s \<union> accepted_before status (zip (map (keys_of \<circ> snd) rows) (fst (judge_rows judge rows s)))"
proof (induction rows arbitrary: s)
  case (Cons row rows)
  obtain n cells where row: "row = (n, cells)" by fastforce
  obtain r s' where j: "judge n cells s = (r, s')" by fastforce
  have ok_some: "status r = Row_ok \<Longrightarrow> keys_of cells \<noteq> None" using judged [OF j] by (auto simp: verdict_def split: option.splits)
  show ?case using Cons.IH [of s'] learned [OF j] ok_some by (auto simp: row j split: prod.splits)
qed simp

end

lemma accepted_before_iff:
  "k \<in> accepted_before status ps \<longleftrightarrow> (\<exists>(K, r) \<in> set ps. status r = Row_ok \<and> (\<exists>k' \<in> set_option K. k \<in> k'))"
  by (induction status ps rule: accepted_before.induct) (auto split: option.splits)

section \<open>People\<close>

definition person_keys :: "bool \<Rightarrow> existing_person \<Rightarrow> (matched_by \<times> string) set" where
  "person_keys named p =
     Pair Same_phone ` set_option (phone_key (xp_phone p)) \<union> Pair Same_email ` set_option (folded (xp_email p)) \<union>
     Pair Same_number ` set_option (folded (xp_personal_number p)) \<union>
     (if named then Pair Same_name ` set_option (folded (xp_name p)) else {})"

definition seen_keys :: "bool \<Rightarrow> seen \<Rightarrow> (matched_by \<times> string) set" where
  "seen_keys named s = Pair Same_phone ` dom (by_phone s) \<union> Pair Same_email ` dom (by_email s) \<union>
     Pair Same_number ` dom (by_number s) \<union> (if named then Pair Same_name ` dom (by_name s) else {})"

lemma dom_setdefault: "dom (setdefault key v m) = dom m \<union> set_option key"
  by (auto simp: setdefault_def split: option.splits if_splits)

lemma seen_keys_add: "seen_keys named (seen_add p s) = seen_keys named s \<union> person_keys named p"
  by (auto simp: seen_keys_def person_keys_def seen_add_def Let_def dom_setdefault)

lemma seen_keys_of: "seen_keys named (seen_of ps) = (\<Union>p \<in> set ps. person_keys named p)"
proof -
  have "seen_keys named (fold seen_add ps s) = seen_keys named s \<union> (\<Union>p \<in> set ps. person_keys named p)" for s
    by (induction ps arbitrary: s) (auto simp: seen_keys_add)
  then show ?thesis by (simp add: seen_of_def no_one_def seen_keys_def)
qed

lemma tagged_same: "Pair a ` X \<inter> Pair a ` Y = {} \<longleftrightarrow> X \<inter> Y = {}"
  by auto

lemma tagged_apart: "a \<noteq> b \<Longrightarrow> Pair a ` X \<inter> Pair b ` Y = {}"
  by auto

lemma match_iff: "match_ref p named s = None \<longleftrightarrow> person_keys named p \<inter> seen_keys named s = {}"
proof -
  have one: "lookup_key key m what = None \<longleftrightarrow> set_option key \<inter> dom m = {}" for key m what
    by (cases key) (auto simp: lookup_key_def)
  have "match_ref p named s = None \<longleftrightarrow> lookup_key (phone_key (xp_phone p)) (by_phone s) Same_phone = None \<and>
      lookup_key (folded (xp_email p)) (by_email s) Same_email = None \<and>
      lookup_key (folded (xp_personal_number p)) (by_number s) Same_number = None \<and>
      (named \<longrightarrow> lookup_key (folded (xp_name p)) (by_name s) Same_name = None)"
    by (simp add: match_ref_def split: option.splits)
  also have "\<dots> \<longleftrightarrow> person_keys named p \<inter> seen_keys named s = {}"
    by (simp add: one person_keys_def seen_keys_def Int_Un_distrib Int_Un_distrib2 tagged_same tagged_apart)
  finally show ?thesis .
qed

lemma admit_verdict:
  assumes "admit named remembered p v (fresh_result number name ws) (s, refs) = (r, s', refs')"
    and "named \<Longrightarrow> remembered refs = xp_name p"
  shows "rr_status r = verdict (Some (person_keys named p)) (seen_keys named s)"
    and "seen_keys named s' = seen_keys named s \<union> (if rr_status r = Row_ok then person_keys named p else {})"
proof -
  have same: "person_keys named (p\<lparr>xp_ref := g, xp_name := remembered refs\<rparr>) = person_keys named p" for g
    using assms(2) by (cases named) (auto simp: person_keys_def)
  have "rr_status r = verdict (Some (person_keys named p)) (seen_keys named s) \<and>
      seen_keys named s' = seen_keys named s \<union> (if rr_status r = Row_ok then person_keys named p else {})"
  proof (cases "match_ref p named s")
    case None
    then have "r = (fresh_result number name ws)\<lparr>rr_ref := map_option peek_ref refs, rr_values := Some v\<rparr>"
        "s' = seen_add (p\<lparr>xp_ref := map_option peek_ref refs, xp_name := remembered refs\<rparr>) s"
      using assms(1) by (simp_all add: admit_def Let_def)
    with None match_iff [of p named s] show ?thesis by (simp add: verdict_def fresh_result_def seen_keys_add same)
  next
    case (Some hit)
    then have "r = already_listed hit (fresh_result number name ws)" "s' = s" using assms(1) by (simp_all add: admit_def)
    with Some match_iff [of p named s] show ?thesis
      by (simp add: verdict_def already_listed_def fresh_result_def split: prod.splits)
  qed
  then show "rr_status r = verdict (Some (person_keys named p)) (seen_keys named s)"
    and "seen_keys named s' = seen_keys named s \<union> (if rr_status r = Row_ok then person_keys named p else {})" by simp_all
qed

subsection \<open>What a row says\<close>

definition client_person :: "columns \<Rightarrow> cell list \<Rightarrow> existing_person" where
  "client_person mapping cells = (case common cells mapping of (name, phone, email, _) \<Rightarrow>
     \<lparr>xp_label = name, xp_phone = phone, xp_email = email,
      xp_personal_number = up_to 50 (cell_at cells mapping ''personal_number''), xp_name = None, xp_ref = None\<rparr>)"

text \<open>What a row of clients can be recognised by, if it can be used at all.\<close>

definition client_keys :: "columns \<Rightarrow> cell list \<Rightarrow> (matched_by \<times> string) set option" where
  "client_keys mapping cells =
     (if name_problem (cell_at cells mapping ''name'') \<noteq> None then None else Some (person_keys False (client_person mapping cells)))"

definition named_person :: "columns \<Rightarrow> cell list \<Rightarrow> existing_person" where
  "named_person mapping cells = (case common cells mapping of (name, phone, email, _) \<Rightarrow>
     \<lparr>xp_label = name, xp_phone = phone, xp_email = email, xp_personal_number = None, xp_name = Some name, xp_ref = None\<rparr>)"

text \<open>The same for translators and notaries, whom their name tells as well.\<close>

definition named_keys :: "columns \<Rightarrow> cell list \<Rightarrow> (matched_by \<times> string) set option" where
  "named_keys mapping cells =
     (if name_problem (cell_at cells mapping ''name'') \<noteq> None then None else Some (person_keys True (named_person mapping cells)))"

lemma common_name: "fst (common cells mapping) = cell_at cells mapping ''name''"
  by (simp add: common_def Let_def)

lemma failed_status [simp]: "rr_status (failed m r) = Row_error"
  by (simp add: failed_def)

lemma sieve_from_admit:
  assumes "name_problem name \<noteq> None \<Longrightarrow> rr_status r = Row_error \<and> s' = s"
    and "name_problem name = None \<Longrightarrow> \<exists>v ws. admit named remembered p v (fresh_result n name ws) (s, refs) = (r, s', refs')"
    and "named \<Longrightarrow> remembered refs = xp_name p"
    and "K = (if name_problem name \<noteq> None then None else Some (person_keys named p))"
  shows "rr_status r = verdict K (seen_keys named s) \<and>
    seen_keys named s' = seen_keys named s \<union> (if rr_status r = Row_ok then the K else {})"
proof (cases "name_problem name")
  case None
  with assms(2) obtain v ws where "admit named remembered p v (fresh_result n name ws) (s, refs) = (r, s', refs')" by blast
  from admit_verdict [OF this assms(3)] show ?thesis using None assms(4) by simp
qed (use assms(1,4) in \<open>simp add: verdict_def\<close>)

lemma client_sieve:
  assumes "judge_client lx n cells mapping s = (r, s')"
  shows "rr_status r = verdict (client_keys mapping cells) (seen_keys False (fst s)) \<and>
    seen_keys False (fst s') = seen_keys False (fst s) \<union> (if rr_status r = Row_ok then the (client_keys mapping cells) else {})"
proof -
  obtain name phone email ws where c: "common cells mapping = (name, phone, email, ws)" by (metis prod.exhaust)
  have name: "cell_at cells mapping ''name'' = name" using common_name [of cells mapping] c by simp
  show ?thesis
  proof (rule sieve_from_admit [where name = name])
    show "rr_status r = Row_error \<and> fst s' = fst s" if "name_problem name \<noteq> None"
      using assms that by (auto simp: judge_client_def c)
    show "\<exists>v ws. admit False (\<lambda>refs. if refs = None then None else Some name) (client_person mapping cells) v (fresh_result n name ws) (fst s, snd s) = (r, fst s', snd s')"
      if "name_problem name = None"
      using assms that unfolding judge_client_def c client_person_def Let_def by (intro exI) simp
  qed (simp_all add: client_keys_def name client_person_def c)
qed

lemma notary_sieve:
  assumes "judge_notary n cells mapping s = (r, s')"
  shows "rr_status r = verdict (named_keys mapping cells) (seen_keys True (fst s)) \<and>
    seen_keys True (fst s') = seen_keys True (fst s) \<union> (if rr_status r = Row_ok then the (named_keys mapping cells) else {})"
proof -
  obtain name phone email ws where c: "common cells mapping = (name, phone, email, ws)" by (metis prod.exhaust)
  have name: "cell_at cells mapping ''name'' = name" using common_name [of cells mapping] c by simp
  show ?thesis
  proof (rule sieve_from_admit [where name = name])
    show "rr_status r = Row_error \<and> fst s' = fst s" if "name_problem name \<noteq> None"
      using assms that by (auto simp: judge_notary_def c)
    show "\<exists>v ws. admit True (\<lambda>_. Some name) (named_person mapping cells) v (fresh_result n name ws) (fst s, snd s) = (r, fst s', snd s')"
      if "name_problem name = None"
      using assms that unfolding judge_notary_def c named_person_def Let_def by (intro exI) simp
  qed (simp_all add: named_keys_def name named_person_def c)
qed

lemma translator_sieve:
  assumes "judge_translator lx lookup n cells mapping s = (r, s')"
  shows "rr_status r = verdict (named_keys mapping cells) (seen_keys True (fst s)) \<and>
    seen_keys True (fst s') = seen_keys True (fst s) \<union> (if rr_status r = Row_ok then the (named_keys mapping cells) else {})"
proof -
  obtain name phone email ws where c: "common cells mapping = (name, phone, email, ws)" by (metis prod.exhaust)
  have name: "cell_at cells mapping ''name'' = name" using common_name [of cells mapping] c by simp
  show ?thesis
  proof (rule sieve_from_admit [where name = name])
    show "rr_status r = Row_error \<and> fst s' = fst s" if "name_problem name \<noteq> None"
      using assms that by (auto simp: judge_translator_def c)
    show "\<exists>v ws. admit True (\<lambda>_. Some name) (named_person mapping cells) v (fresh_result n name ws) (fst s, snd s) = (r, fst s', snd s')"
      if "name_problem name = None"
      using assms that unfolding judge_translator_def c named_person_def Let_def by (intro exI) simp
  qed (simp_all add: named_keys_def name named_person_def c)
qed

interpretation client_rows: sieve "\<lambda>n cells. judge_client lx n cells mapping" "client_keys mapping"
  "\<lambda>s. seen_keys False (fst s)" rr_status for lx mapping
  by unfold_locales (use client_sieve in blast)+

interpretation notary_rows: sieve "\<lambda>n cells. judge_notary n cells mapping" "named_keys mapping"
  "\<lambda>s. seen_keys True (fst s)" rr_status for mapping
  by unfold_locales (use notary_sieve in blast)+

interpretation translator_rows: sieve "\<lambda>n cells. judge_translator lx lookup n cells mapping" "named_keys mapping"
  "\<lambda>s. seen_keys True (fst s)" rr_status for lx lookup mapping
  by unfold_locales (use translator_sieve in blast)+

text \<open>The sheets of a workbook, whose states hold more, are sieved the same way.\<close>

interpretation client_sheets: sieve "judge_client_sheet lx mapping" "client_keys mapping"
  "\<lambda>s. seen_keys False (fst s)" rr_status for lx mapping
proof
  fix n cells s r s' assume j: "judge_client_sheet lx mapping n cells s = (r, s')"
  obtain sn ctx where s: "s = (sn, ctx)" by fastforce
  obtain r0 s0 refs where j0: "judge_client lx n cells mapping (sn, Some (oc_client_refs ctx)) = (r0, s0, refs)" by (metis prod.exhaust)
  have "r = r0" "fst s' = s0" using j by (auto simp: judge_client_sheet_def s j0)
  with client_sieve [OF j0] show "rr_status r = verdict (client_keys mapping cells) (seen_keys False (fst s))"
    "seen_keys False (fst s') = seen_keys False (fst s) \<union> (if rr_status r = Row_ok then the (client_keys mapping cells) else {})"
    by (simp_all add: s)
qed

section \<open>What is accepted\<close>

definition details_of :: "string option \<Rightarrow> string option \<Rightarrow> string option \<Rightarrow> (matched_by \<times> string) set" where
  "details_of phone email number = Pair Same_phone ` set_option (phone_key phone) \<union>
     Pair Same_email ` set_option (folded email) \<union> Pair Same_number ` set_option (folded number)"

definition client_details :: "client \<Rightarrow> (matched_by \<times> string) set" where
  "client_details c = details_of (cl_phone c) (cl_email c) (cl_personal_number c)"

lemma rows_nth:
  "i < length rows \<Longrightarrow> \<exists>s s'. judge (fst (rows ! i)) (snd (rows ! i)) s = (fst (judge_rows judge rows s0) ! i, s')"
proof (induction rows arbitrary: i s0)
  case (Cons row rows)
  obtain n cells where row: "row = (n, cells)" by fastforce
  obtain r s1 where j: "judge n cells s0 = (r, s1)" by fastforce
  have rest: "fst (judge_rows judge (row # rows) s0) = r # fst (judge_rows judge rows s1)"
    by (simp add: row j split: prod.split)
  show ?case
  proof (cases i)
    case 0
    then show ?thesis unfolding 0 rest using j by (auto simp: row)
  next
    case (Suc k)
    then show ?thesis unfolding Suc rest using Cons.IH [of k s1] Cons.prems Suc by simp
  qed
qed simp

lemma client_values_of:
  assumes "judge_client lx n cells mapping s = (r, s')" and "rr_status r = Row_ok"
  shows "\<exists>v. rr_values r = Some v \<and> client_keys mapping cells = Some (details_of (cv_phone v) (cv_email v) (cv_personal_number v))"
proof -
  obtain name phone email ws where c: "common cells mapping = (name, phone, email, ws)" by (metis prod.exhaust)
  have name: "cell_at cells mapping ''name'' = name" using common_name [of cells mapping] c by simp
  obtain sn refs where s: "s = (sn, refs)" by fastforce
  have none: "name_problem name = None"
  proof (rule ccontr)
    assume "name_problem name \<noteq> None"
    then have "rr_status r = Row_error" using assms(1) by (auto simp: judge_client_def c Let_def)
    with assms(2) show False by simp
  qed
  let ?p = "client_person mapping cells"
  have "\<exists>v. admit False (\<lambda>refs. if refs = None then None else Some name) ?p v (fresh_result n name ws) (sn, refs) = (r, s') \<and>
      cv_phone v = xp_phone ?p \<and> cv_email v = xp_email ?p \<and> cv_personal_number v = xp_personal_number ?p"
    using assms(1) none unfolding judge_client_def c client_person_def Let_def s by (intro exI conjI, simp) simp_all
  then obtain v where v: "admit False (\<lambda>refs. if refs = None then None else Some name) ?p v (fresh_result n name ws) (sn, refs) = (r, s')"
    "cv_phone v = xp_phone ?p" "cv_email v = xp_email ?p" "cv_personal_number v = xp_personal_number ?p" by blast
  have "rr_values r = Some v"
  proof (cases "match_ref ?p False sn")
    case None
    with v(1) show ?thesis by (auto simp: admit_def Let_def)
  next
    case (Some hit)
    with v(1) have "r = already_listed hit (fresh_result n name ws)" by (simp add: admit_def)
    with assms(2) show ?thesis by (simp add: already_listed_def split: prod.splits)
  qed
  with v(2-4) none show ?thesis by (simp add: client_keys_def name person_keys_def details_of_def)
qed

lemma client_keys_existing: "(\<Union>p \<in> set (existing_clients db). person_keys False p) = (\<Union>c \<in> set (clients db). client_details c)"
  by (simp add: existing_clients_def client_details_def details_of_def person_keys_def)

lemma accepted_earlier:
  assumes "length ks = length rs" and "i \<le> length rs"
  shows "k \<in> accepted_before status (zip (take i ks) (take i rs)) \<longleftrightarrow>
    (\<exists>j < i. status (rs ! j) = Row_ok \<and> (\<exists>k' \<in> set_option (ks ! j). k \<in> k'))"
proof -
  have "zip (take i ks) (take i rs) = map (\<lambda>j. (ks ! j, rs ! j)) [0..<i]" by (rule nth_equalityI) (use assms in simp_all)
  then show ?thesis by (auto simp: accepted_before_iff)
qed

text \<open>C33: a sheet of clients adds nobody twice. A row without a name of at most 255 characters is an
  error; any other is a duplicate exactly when its phone (by its last nine digits), its e-mail or
  its ID number, in any spelling of case, is that of a client the bureau has or of an earlier row
  that was accepted, and accepted otherwise: so no two accepted rows, and no accepted row and
  client, share any of the three.\<close>

theorem sheet_adds_nobody_twice:
  assumes "judge_sheet lx name_order Clients_sheet rows mapping db = Client_rows rs"
  shows "length rs = length rows \<and> (\<forall>i < length rows. rr_status (rs ! i) =
    (case client_keys mapping (snd (rows ! i)) of
       None \<Rightarrow> Row_error
     | Some details \<Rightarrow>
         if (\<exists>c \<in> set (clients db). details \<inter> client_details c \<noteq> {}) \<or>
            (\<exists>j < i. rr_status (rs ! j) = Row_ok \<and> details \<inter> the (client_keys mapping (snd (rows ! j))) \<noteq> {})
         then Row_duplicate else Row_ok))"
proof (intro conjI allI impI)
  have rs: "rs = fst (judge_rows (\<lambda>n cells. judge_client lx n cells mapping) rows (seen_of (existing_clients db), None))"
    using assms by (simp add: judge_sheet_def)
  show len: "length rs = length rows" unfolding rs by (rule client_rows.rows_length)
  fix i assume i: "i < length rows"
  let ?ks = "map (client_keys mapping \<circ> snd) rows"
  have there: "seen_keys False (seen_of (existing_clients db)) = (\<Union>c \<in> set (clients db). client_details c)"
    by (simp add: seen_keys_of client_keys_existing)
  have earlier: "k \<in> accepted_before rr_status (zip (take i ?ks) (take i rs)) \<longleftrightarrow>
      (\<exists>j < i. rr_status (rs ! j) = Row_ok \<and> (\<exists>k' \<in> set_option (?ks ! j). k \<in> k'))" for k
    by (rule accepted_earlier) (use i len in simp_all)
  have some: "client_keys mapping (snd (rows ! j)) \<noteq> None" if "rr_status (rs ! j) = Row_ok" "j < i" for j
    using client_rows.each_row [of j rows lx mapping "(seen_of (existing_clients db), None)"] that i
    by (auto simp: rs [symmetric] verdict_def split: option.splits)
  have judged: "rr_status (rs ! i) = verdict (client_keys mapping (snd (rows ! i)))
      ((\<Union>c \<in> set (clients db). client_details c) \<union> accepted_before rr_status (zip (take i ?ks) (take i rs)))"
    using client_rows.each_row [OF i, of lx mapping "(seen_of (existing_clients db), None)"] there
    by (simp add: rs [symmetric] take_map)
  have meet: "details \<inter> ((\<Union>c \<in> set (clients db). client_details c) \<union> accepted_before rr_status (zip (take i ?ks) (take i rs))) \<noteq> {} \<longleftrightarrow>
      (\<exists>c \<in> set (clients db). details \<inter> client_details c \<noteq> {}) \<or>
      (\<exists>j < i. rr_status (rs ! j) = Row_ok \<and> details \<inter> the (client_keys mapping (snd (rows ! j))) \<noteq> {})" for details
  proof -
    have "details \<inter> accepted_before rr_status (zip (take i ?ks) (take i rs)) \<noteq> {} \<longleftrightarrow>
        (\<exists>j < i. rr_status (rs ! j) = Row_ok \<and> details \<inter> the (client_keys mapping (snd (rows ! j))) \<noteq> {})"
      using some i by (fastforce simp: earlier)
    then show ?thesis by blast
  qed
  show "rr_status (rs ! i) = (case client_keys mapping (snd (rows ! i)) of None \<Rightarrow> Row_error
     | Some details \<Rightarrow> if (\<exists>c \<in> set (clients db). details \<inter> client_details c \<noteq> {}) \<or>
            (\<exists>j < i. rr_status (rs ! j) = Row_ok \<and> details \<inter> the (client_keys mapping (snd (rows ! j))) \<noteq> {})
         then Row_duplicate else Row_ok)"
  proof (cases "client_keys mapping (snd (rows ! i))")
    case (Some details)
    have flip: "verdict (Some d) X = (if d \<inter> X \<noteq> {} then Row_duplicate else Row_ok)" for d :: "(matched_by \<times> string) set" and X
      by (simp add: verdict_def)
    show ?thesis by (simp only: judged Some option.case flip meet)
  qed (simp add: judged verdict_def)
qed

subsection \<open>The same file again\<close>

text \<open>What an import of clients leaves in the table: the clients there were, and one for each accepted row.\<close>

lemma add_clients_fold:
  "fold add_client specs (m, made, db) = (m', made', db') \<Longrightarrow>
     (\<Union>c \<in> set (clients db'). client_details c) = (\<Union>c \<in> set (clients db). client_details c) \<union>
       (\<Union>(_, v) \<in> set specs. details_of (cv_phone v) (cv_email v) (cv_personal_number v))"
proof (induction specs arbitrary: m made db)
  case (Cons sp specs)
  obtain ref v where sp: "sp = (ref, v)" by fastforce
  let ?c = "client_row (next_id db) (next_client_number db) v"
  let ?db = "db\<lparr>next_id := next_id db + 1, clients := clients db @ [?c]\<rparr>"
  have "add_client sp (m, made, db) = (learn ref (next_id db) m, made @ [next_id db], ?db)"
    by (simp add: add_client_def sp Let_def)
  then have "fold add_client specs (learn ref (next_id db) m, made @ [next_id db], ?db) = (m', made', db')"
    using Cons.prems by simp
  from Cons.IH [OF this] show ?case by (auto simp: sp client_details_def client_row_def)
qed simp

lemma set_ok_values: "set (ok_values rs) = {v. \<exists>r \<in> set rs. rr_status r = Row_ok \<and> rr_values r = Some v}"
  by (force simp: ok_values_def List.map_filter_def image_iff)

lemma saved_clients:
  assumes "save_results session now (Client_rows rs) db = Inr (created, db')"
  shows "(\<Union>c \<in> set (clients db'). client_details c) = (\<Union>c \<in> set (clients db). client_details c) \<union>
    (\<Union>v \<in> set (ok_values rs). details_of (cv_phone v) (cv_email v) (cv_personal_number v))"
proof -
  obtain m made db1 where f: "fold add_client (map (Pair None) (ok_values rs)) (\<lambda>_. None, [], db) = (m, made, db1)" by (metis prod.exhaust)
  with assms have "db' = db1" by (simp add: save_results_def add_clients_def)
  with add_clients_fold [OF f] show ?thesis by simp
qed

text \<open>C34: a file of clients that was imported can be imported again without harm. Whatever columns were chosen,
  when the same file is judged after its import was committed, a row is accepted a second time only
  if it has no phone, no e-mail and no ID number to be recognised by.\<close>

theorem same_file_adds_nobody:
  assumes committed: "commit lx name_order rd session now Clients_sheet content filename mapping room = Inr (out, room')"
    and again: "read_and_judge lx name_order rd Clients_sheet content filename mapping (im_office room') = Inr (Client_rows rs')"
  shows "\<forall>v \<in> set (ok_values rs'). phone_key (cv_phone v) = None \<and> folded (cv_email v) = None \<and> folded (cv_personal_number v) = None"
proof
  fix v assume v: "v \<in> set (ok_values rs')"
  let ?db = "im_office room" and ?db' = "im_office room'"
  from committed obtain results created db' where judged: "read_and_judge lx name_order rd Clients_sheet content filename mapping ?db = Inr results"
    and saved: "save_results session now results (?db\<lparr>next_id := next_id ?db + 1\<rparr>) = Inr (created, db')"
    and after: "clients ?db' = clients db'"
    by (auto simp: commit_def finish_def log_office_def Let_def split: if_splits)
  from judged obtain headers rows raw columns where read: "read_sheet rd content filename = Inr (headers, rows)"
    "mapping = Some raw" "check_mapping Clients_sheet raw (length headers) = Inr columns"
    and results: "results = judge_sheet lx name_order Clients_sheet rows columns ?db"
    by (auto simp: read_and_judge_def split: option.splits)
  obtain rs where rs: "judge_sheet lx name_order Clients_sheet rows columns ?db = Client_rows rs" by (simp add: judge_sheet_def)
  have rs': "judge_sheet lx name_order Clients_sheet rows columns ?db' = Client_rows rs'" using again read by (simp add: read_and_judge_def)
  have stored: "(\<Union>c \<in> set (clients ?db'). client_details c) = (\<Union>c \<in> set (clients ?db). client_details c) \<union>
      (\<Union>v \<in> set (ok_values rs). details_of (cv_phone v) (cv_email v) (cv_personal_number v))"
    using saved_clients [of session now rs] saved results rs after by simp
  have first: "length rs = length rows" using rs client_rows.rows_length by (auto simp: judge_sheet_def)
  have second: "length rs' = length rows" using rs' client_rows.rows_length by (auto simp: judge_sheet_def)
  from v obtain r where r: "r \<in> set rs'" "rr_status r = Row_ok" "rr_values r = Some v" by (auto simp: set_ok_values)
  then obtain i where i: "i < length rows" "rs' ! i = r" using second by (auto simp: in_set_conv_nth)
  let ?judge = "\<lambda>n cells. judge_client lx n cells columns"
  obtain s s' where "?judge (fst (rows ! i)) (snd (rows ! i)) s = (r, s')"
    using rows_nth [OF i(1), of ?judge "(seen_of (existing_clients ?db'), None)"] rs' i(2) by (auto simp: judge_sheet_def)
  from client_values_of [OF this r(2)] r(3) have keys: "client_keys columns (snd (rows ! i)) =
      Some (details_of (cv_phone v) (cv_email v) (cv_personal_number v))" by simp
  let ?K = "details_of (cv_phone v) (cv_email v) (cv_personal_number v)"
  have apart: "?K \<inter> (\<Union>c \<in> set (clients ?db'). client_details c) = {}"
    using client_rows.each_row [OF i(1), of lx columns "(seen_of (existing_clients ?db'), None)"] rs' i(2) r(2) keys
    by (auto simp: judge_sheet_def verdict_def seen_keys_of client_keys_existing split: if_splits)
  have "?K = {}"
  proof (cases "rr_status (rs ! i) = Row_ok")
    case True
    obtain t t' where "?judge (fst (rows ! i)) (snd (rows ! i)) t = (rs ! i, t')"
      using rows_nth [OF i(1), of ?judge "(seen_of (existing_clients ?db), None)"] rs by (auto simp: judge_sheet_def)
    from client_values_of [OF this True] obtain w where w: "rr_values (rs ! i) = Some w"
      "client_keys columns (snd (rows ! i)) = Some (details_of (cv_phone w) (cv_email w) (cv_personal_number w))" by blast
    have "w \<in> set (ok_values rs)" using w(1) True i(1) first by (auto simp: set_ok_values)
    then have "?K \<subseteq> (\<Union>c \<in> set (clients ?db'). client_details c)" using w(2) keys unfolding stored by auto
    with apart show ?thesis by blast
  next
    case False
    then have "?K \<inter> (seen_keys False (seen_of (existing_clients ?db)) \<union>
        accepted_before rr_status (zip (map (client_keys columns \<circ> snd) (take i rows)) (take i rs))) \<noteq> {}"
      using client_rows.each_row [OF i(1), of lx columns "(seen_of (existing_clients ?db), None)"] rs keys
      by (auto simp: judge_sheet_def verdict_def split: if_splits)
    moreover have "accepted_before rr_status (zip (map (client_keys columns \<circ> snd) (take i rows)) (take i rs)) \<subseteq>
        (\<Union>v \<in> set (ok_values rs). details_of (cv_phone v) (cv_email v) (cv_personal_number v))"
    proof
      fix k assume "k \<in> accepted_before rr_status (zip (map (client_keys columns \<circ> snd) (take i rows)) (take i rs))"
      then obtain j where j: "j < i" "rr_status (rs ! j) = Row_ok" "k \<in> the (client_keys columns (snd (rows ! j)))"
        using accepted_earlier [of "map (client_keys columns \<circ> snd) rows" rs i k rr_status] i(1) first by (auto simp: take_map)
      have jl: "j < length rows" using j(1) i(1) by simp
      obtain t t' where "?judge (fst (rows ! j)) (snd (rows ! j)) t = (rs ! j, t')"
        using rows_nth [OF jl, of ?judge "(seen_of (existing_clients ?db), None)"] rs by (auto simp: judge_sheet_def)
      from client_values_of [OF this j(2)] obtain w where w: "rr_values (rs ! j) = Some w"
        "client_keys columns (snd (rows ! j)) = Some (details_of (cv_phone w) (cv_email w) (cv_personal_number w))" by blast
      have "w \<in> set (ok_values rs)" using w(1) j(2) jl first by (auto simp: set_ok_values)
      then show "k \<in> (\<Union>v \<in> set (ok_values rs). details_of (cv_phone v) (cv_email v) (cv_personal_number v))" using w(2) j(3) by auto
    qed
    ultimately have "?K \<inter> (\<Union>c \<in> set (clients ?db'). client_details c) \<noteq> {}"
      unfolding stored by (auto simp: seen_keys_of client_keys_existing)
    with apart show ?thesis by blast
  qed
  then show "phone_key (cv_phone v) = None \<and> folded (cv_email v) = None \<and> folded (cv_personal_number v) = None"
    by (auto simp: details_of_def)
qed

subsection \<open>A file to import\<close>

text \<open>Two columns and three rows: a new client, the same phone spelt otherwise, and one with nothing but a name.\<close>

definition ex_lexicon :: lexicon where
  "ex_lexicon = \<lparr>lx_synonyms = (\<lambda>kind key. if key = ''name'' then [''name''] else if key = ''phone'' then [''phone''] else []),
     lx_yes = [''yes''], lx_no = [''no''], lx_company_words = [''company''], lx_person_words = [''person''],
     lx_company_mark = (\<lambda>_. False), lx_city_names = (\<lambda>city. (city, city)), lx_total_words = [''total''],
     lx_name_hints = (\<lambda>_. [])\<rparr>"

definition ex_rows :: "numbered_row list" where
  "ex_rows = [(1, [Typed ''Name'', Typed ''Phone'']), (2, [Typed ''Nino'', Typed ''+995 599 11 22 33'']),
     (3, [Typed ''Nino B.'', Typed ''599112233'']), (4, [Typed ''Gio''])]"

definition ex_readers :: readers where
  "ex_readers = \<lparr>rd_is_zip = (\<lambda>_. False), rd_xlsx = (\<lambda>_. Inr []), rd_xls = (\<lambda>_. Inr []), rd_csv = (\<lambda>_. ex_rows)\<rparr>"

definition ex_import_room :: import_room where
  "ex_import_room = \<lparr>im_office = ex_office, im_batches = [], im_items = [], im_live_files = [], im_comments = []\<rparr>"

definition ex_columns :: columns where
  "ex_columns = [(''name'', 0), (''phone'', 1)]"

definition client_statuses :: "sheet_results \<Rightarrow> row_status list" where
  "client_statuses rs = (case rs of Client_rows r \<Rightarrow> map rr_status r | _ \<Rightarrow> [])"

lemma duplicate_case:
  "(case k of None \<Rightarrow> Row_error | Some d \<Rightarrow> if P d then Row_duplicate else Row_ok) = Row_duplicate \<Longrightarrow> \<exists>d. k = Some d \<and> P d"
  by (auto split: option.splits if_splits)

theorem sheet_adds_nobody_twice_witness:
  "\<exists>rs. judge_sheet ex_lexicon (\<lambda>_. 0) Clients_sheet (tl ex_rows) ex_columns ex_office = Client_rows rs \<and>
     map rr_status rs = [Row_ok, Row_duplicate, Row_ok] \<and>
     the (client_keys ex_columns (snd (tl ex_rows ! 1))) \<inter> the (client_keys ex_columns (snd (tl ex_rows ! 0))) \<noteq> {}"
proof -
  let ?res = "judge_sheet ex_lexicon (\<lambda>_. 0) Clients_sheet (tl ex_rows) ex_columns ex_office"
  obtain rs where rs: "?res = Client_rows rs" by (simp add: judge_sheet_def)
  have st: "client_statuses ?res = [Row_ok, Row_duplicate, Row_ok]" by code_simp
  then have sts: "map rr_status rs = [Row_ok, Row_duplicate, Row_ok]" by (simp add: rs client_statuses_def)
  have "length rs = 3" using arg_cong [OF sts, of length] by simp
  then have "rr_status (rs ! 1) = map rr_status rs ! 1" by simp
  then have dup: "rr_status (rs ! 1) = Row_duplicate" by (simp add: sts)
  have one: "1 < length (tl ex_rows)" by (simp add: ex_rows_def)
  have "\<exists>details. client_keys ex_columns (snd (tl ex_rows ! 1)) = Some details \<and>
      ((\<exists>c \<in> set (clients ex_office). details \<inter> client_details c \<noteq> {}) \<or>
       (\<exists>j < 1. rr_status (rs ! j) = Row_ok \<and> details \<inter> the (client_keys ex_columns (snd (tl ex_rows ! j))) \<noteq> {}))"
    by (rule duplicate_case) (rule trans [OF sym [OF sheet_adds_nobody_twice [OF rs, THEN conjunct2, THEN spec, THEN mp, OF one]] dup])
  moreover have "client_details c = {}" if "c \<in> set (clients ex_office)" for c
    using that by (simp add: ex_office_def ex_client_def client_details_def details_of_def phone_key_def folded_def digits_of_def or_blank_def)
  ultimately show ?thesis using rs sts by auto
qed

definition ex_picked :: raw_columns where
  "ex_picked = map (\<lambda>(key, i). (key, Some (int i))) ex_columns"

definition ex_commit :: "import_room \<Rightarrow> (batch_out \<times> import_room) result" where
  "ex_commit = commit ex_lexicon (\<lambda>_. 0) ex_readers ex_caller 700 Clients_sheet ''x'' ''clients.csv'' (Some ex_picked)"

lemma ex_read: "read_sheet ex_readers ''x'' ''clients.csv'' = Inr ([''Name'', ''Phone''], tl ex_rows)"
proof -
  have rows: "tl ex_rows \<noteq> []" "ex_rows \<noteq> []" "length ex_rows = 4" by (simp_all add: ex_rows_def)
  have "read_format ex_readers ''x'' ''clients.csv'' = Inr [\<lparr>rs_name = ''clients'', rs_rows = ex_rows\<rparr>]" by code_simp
  moreover have "filter not_blank ex_rows = ex_rows" by code_simp
  moreover have "map cell_text (snd (hd ex_rows)) = [''Name'', ''Phone'']" by code_simp
  ultimately show ?thesis
    by (simp add: read_sheet_def read_workbook_def IMPORT_MAX_BYTES_def IMPORT_MAX_ROWS_def rows Let_def)
qed

lemma ex_judge: "read_and_judge ex_lexicon name_order ex_readers Clients_sheet ''x'' ''clients.csv'' (Some ex_picked) db =
  Inr (judge_sheet ex_lexicon name_order Clients_sheet (tl ex_rows) ex_columns db)"
proof -
  have "check_mapping Clients_sheet ex_picked (length [''Name'', ''Phone'']) = Inr ex_columns" by code_simp
  then show ?thesis by (simp add: read_and_judge_def ex_read)
qed

lemma ex_committed:
  "case ex_commit ex_import_room of Inl _ \<Rightarrow> False
    | Inr (out, room') \<Rightarrow> map cl_name (clients (im_office room')) = [''Client'', ''Nino'', ''Gio''] \<and>
        (case judge_sheet ex_lexicon (\<lambda>_. 0) Clients_sheet (tl ex_rows) ex_columns (im_office room') of
           Client_rows rs' \<Rightarrow> map cv_name (ok_values rs') = [''Gio''] | _ \<Rightarrow> False)"
  unfolding ex_commit_def commit_def ex_judge by code_simp

theorem same_file_adds_nobody_witness:
  "\<exists>out room' rs'. ex_commit ex_import_room = Inr (out, room') \<and> map cl_name (clients (im_office room')) = [''Client'', ''Nino'', ''Gio''] \<and>
     read_and_judge ex_lexicon (\<lambda>_. 0) ex_readers Clients_sheet ''x'' ''clients.csv'' (Some ex_picked) (im_office room') =
       Inr (Client_rows rs') \<and>
     map cv_name (ok_values rs') = [''Gio''] \<and> (\<forall>v \<in> set (ok_values rs'). phone_key (cv_phone v) = None)"
proof -
  let ?again = "\<lambda>room. judge_sheet ex_lexicon (\<lambda>_. 0) Clients_sheet (tl ex_rows) ex_columns (im_office room)"
  from ex_committed obtain out room' rs' where c: "ex_commit ex_import_room = Inr (out, room')" and r: "?again room' = Client_rows rs'"
    and n: "map cl_name (clients (im_office room')) = [''Client'', ''Nino'', ''Gio'']" "map cv_name (ok_values rs') = [''Gio'']"
    by (auto split: sum.splits prod.splits sheet_results.splits)
  have r': "read_and_judge ex_lexicon (\<lambda>_. 0) ex_readers Clients_sheet ''x'' ''clients.csv'' (Some ex_picked) (im_office room') =
      Inr (Client_rows rs')" by (simp only: ex_judge r)
  from same_file_adds_nobody [OF c [unfolded ex_commit_def] r']
  have "\<forall>v \<in> set (ok_values rs'). phone_key (cv_phone v) = None" by simp
  with c r' n show ?thesis by (intro exI [of _ out] exI [of _ room'] exI [of _ rs']) simp
qed

end
