(* ===== verification/Undoing.thy ===== *)
theory Undoing
  imports ImportRuns Previews
begin

text \<open>
  Undoing an import gives back what there was before it. An import only adds rows, every one under a
  new id or hanging from a row it added (\<open>only_adds\<close>), and lists what it added; so directly
  afterwards nothing can be in the way of an undo, and the undo removes exactly those rows.
\<close>

section \<open>An import only adds\<close>

type_synonym made = "(import_entity \<times> int) set"

definition adds_people :: "made \<Rightarrow> client list \<Rightarrow> translator list \<Rightarrow> translator_pair list \<Rightarrow> notary list \<Rightarrow> bool" where
  "adds_people M cs ts tps ns \<longleftrightarrow>
     Pair Client_made ` cl_id ` set cs \<subseteq> M \<and> Pair Translator_made ` tr_id ` set ts \<subseteq> M \<and>
     Pair Translator_made ` tp_translator_id ` set tps \<subseteq> M \<and> Pair Notary_made ` no_id ` set ns \<subseteq> M"

definition adds_orders :: "made \<Rightarrow> int \<Rightarrow> order list \<Rightarrow> order_document list \<Rightarrow> status_event list \<Rightarrow> client_payment list
    \<Rightarrow> allocation list \<Rightarrow> bool" where
  "adds_orders M n os ds es ps as \<longleftrightarrow>
     Pair Order_made ` o_id ` set os \<subseteq> M \<and> Pair Order_made ` d_order_id ` set ds \<subseteq> M \<and>
     Pair Order_made ` e_order_id ` set es \<subseteq> M \<and> Pair Payment_made ` l_id ` set ps \<subseteq> M \<and>
     Pair Payment_made ` al_payment_id ` set as \<subseteq> M \<and> (\<forall>d \<in> set ds. n \<le> d_id d)"

definition grown :: "int \<Rightarrow> client list \<Rightarrow> translator list \<Rightarrow> translator_pair list \<Rightarrow> notary list \<Rightarrow> order list
    \<Rightarrow> order_document list \<Rightarrow> status_event list \<Rightarrow> client_payment list \<Rightarrow> allocation list \<Rightarrow> office \<Rightarrow> office" where
  "grown n cs ts tps ns os ds es ps as db =
     db\<lparr>next_id := n, clients := clients db @ cs, translators := translators db @ ts,
        translator_pairs := translator_pairs db @ tps, notaries := notaries db @ ns, orders := orders db @ os,
        documents := documents db @ ds, status_events := status_events db @ es,
        client_payments := client_payments db @ ps, client_allocations := client_allocations db @ as\<rparr>"

definition only_adds :: "made \<Rightarrow> office \<Rightarrow> office \<Rightarrow> bool" where
  "only_adds M db db' \<longleftrightarrow>
     (\<exists>n cs ts tps ns os ds es ps as. db' = grown n cs ts tps ns os ds es ps as db \<and> next_id db \<le> n \<and>
        adds_people M cs ts tps ns \<and> adds_orders M (next_id db) os ds es ps as)"

lemma only_addsI:
  assumes "db' = grown n cs ts tps ns os ds es ps as db" and "next_id db \<le> n"
    and "adds_people M cs ts tps ns" and "adds_orders M (next_id db) os ds es ps as"
  shows "only_adds M db db'"
  using assms unfolding only_adds_def by blast

lemma only_addsE:
  assumes "only_adds M db db'"
  obtains n cs ts tps ns os ds es ps as where "db' = grown n cs ts tps ns os ds es ps as db" "next_id db \<le> n"
    "adds_people M cs ts tps ns" "adds_orders M (next_id db) os ds es ps as"
  using assms unfolding only_adds_def by blast

lemma only_adds_next: "next_id db \<le> n \<Longrightarrow> only_adds M db (db\<lparr>next_id := n\<rparr>)"
  by (rule only_addsI [of _ n "[]" "[]" "[]" "[]" "[]" "[]" "[]" "[]" "[]"])
    (simp_all add: grown_def adds_people_def adds_orders_def)

lemma only_adds_refl [simp]: "only_adds M db db"
  using only_adds_next [of db "next_id db" M] by simp

lemma only_adds_trans:
  assumes "only_adds M db db'" and "only_adds M db' db''"
  shows "only_adds M db db''"
proof -
  from assms(1) obtain n cs ts tps ns os ds es ps as where 1: "db' = grown n cs ts tps ns os ds es ps as db" "next_id db \<le> n"
    "adds_people M cs ts tps ns" "adds_orders M (next_id db) os ds es ps as" by (rule only_addsE)
  from assms(2) obtain n' cs' ts' tps' ns' os' ds' es' ps' as' where
    2: "db'' = grown n' cs' ts' tps' ns' os' ds' es' ps' as' db'" "next_id db' \<le> n'"
    "adds_people M cs' ts' tps' ns'" "adds_orders M (next_id db') os' ds' es' ps' as'" by (rule only_addsE)
  show ?thesis
  proof (rule only_addsI)
    show "db'' = grown n' (cs @ cs') (ts @ ts') (tps @ tps') (ns @ ns') (os @ os') (ds @ ds') (es @ es') (ps @ ps') (as @ as') db"
      by (simp add: 2(1) 1(1) grown_def)
    have n: "next_id db' = n" by (simp add: 1(1) grown_def)
    show "next_id db \<le> n'" using 1(2) 2(2) n by simp
    show "adds_people M (cs @ cs') (ts @ ts') (tps @ tps') (ns @ ns')" using 1(3) 2(3) by (auto simp: adds_people_def)
    show "adds_orders M (next_id db) (os @ os') (ds @ ds') (es @ es') (ps @ ps') (as @ as')"
      using 1(2,4) 2(4) n unfolding adds_orders_def set_append image_Un Un_subset_iff ball_Un by (meson order_trans order_refl)
  qed
qed

lemma only_adds_ids: "only_adds M db db' \<Longrightarrow> next_id db \<le> next_id db'"
  by (erule only_addsE) (simp add: grown_def)

subsection \<open>People\<close>

lemma client_adds:
  assumes "(Client_made, cl_id c) \<in> M"
  shows "only_adds M db (db\<lparr>next_id := next_id db + 1, clients := clients db @ [c]\<rparr>)"
  by (rule only_addsI [of _ "next_id db + 1" "[c]" "[]" "[]" "[]" "[]" "[]" "[]" "[]" "[]"])
    (use assms in \<open>simp_all add: grown_def adds_people_def adds_orders_def\<close>)

lemma notary_adds:
  assumes "(Notary_made, no_id c) \<in> M"
  shows "only_adds M db (db\<lparr>next_id := next_id db + 1, notaries := notaries db @ [c]\<rparr>)"
  by (rule only_addsI [of _ "next_id db + 1" "[]" "[]" "[]" "[c]" "[]" "[]" "[]" "[]" "[]"])
    (use assms in \<open>simp_all add: grown_def adds_people_def adds_orders_def\<close>)

lemma translator_adds:
  assumes "(Translator_made, tr_id c) \<in> M"
  shows "only_adds M db (db\<lparr>next_id := next_id db + 1, translators := translators db @ [c]\<rparr>)"
  by (rule only_addsI [of _ "next_id db + 1" "[]" "[c]" "[]" "[]" "[]" "[]" "[]" "[]" "[]"])
    (use assms in \<open>simp_all add: grown_def adds_people_def adds_orders_def\<close>)

lemma pairs_add: "(Translator_made, i) \<in> M \<Longrightarrow> only_adds M db (add_pairs (i, pairs) db)"
  unfolding add_pairs_def prod.case Let_def
  by (rule only_addsI [of _ "next_id db + int (length (both_ways (map (\<lambda>(s, t). \<lparr>pr_source = s, pr_target = t, pr_rate = None, pr_one_way = False\<rparr>) pairs)))"
        "[]" "[]" "pair_rows i (next_id db) (both_ways (map (\<lambda>(s, t). \<lparr>pr_source = s, pr_target = t, pr_rate = None, pr_one_way = False\<rparr>) pairs))"
        "[]" "[]" "[]" "[]" "[]" "[]"])
    (auto simp: grown_def adds_people_def adds_orders_def pair_rows_def)

text \<open>A loop that saves people, one new id each.\<close>

definition people_added :: "import_entity \<Rightarrow> int list \<Rightarrow> office \<Rightarrow> office \<Rightarrow> bool" where
  "people_added entity made db db' \<longleftrightarrow>
     (\<forall>M. Pair entity ` set made \<subseteq> M \<longrightarrow> only_adds M db db') \<and> (\<forall>i \<in> set made. next_id db \<le> i)"

lemma save_people:
  assumes "fold add specs (m, made, db) = (m', made', db')"
    and one: "\<And>sp m made db. \<exists>m' db'. add sp (m, made, db) = (m', made @ [next_id db], db') \<and>
      (\<forall>M. (entity, next_id db) \<in> M \<longrightarrow> only_adds M db db')"
  shows "\<exists>more. made' = made @ more \<and> length more = length specs \<and> people_added entity more db db'"
  using assms(1)
proof (induction specs arbitrary: m made db)
  case Nil
  then show ?case by (simp add: people_added_def)
next
  case (Cons sp specs)
  from one [of sp m made db] obtain m1 db1 where a: "add sp (m, made, db) = (m1, made @ [next_id db], db1)"
    and grows: "\<And>M. (entity, next_id db) \<in> M \<Longrightarrow> only_adds M db db1" by blast
  with Cons.prems have "fold add specs (m1, made @ [next_id db], db1) = (m', made', db')" by simp
  from Cons.IH [OF this] obtain more where more: "made' = (made @ [next_id db]) @ more" "length more = length specs"
    "people_added entity more db1 db'" by blast
  have "next_id db \<le> next_id db1" using only_adds_ids [OF grows [of UNIV]] by simp
  then have "people_added entity (next_id db # more) db db'"
    using more(3) grows only_adds_trans by (fastforce simp: people_added_def)
  with more(1,2) show ?case by (intro exI [of _ "next_id db # more"]) simp
qed

lemma clients_added:
  assumes "add_clients specs m db = (m', made, db')"
  shows "length made = length specs \<and> people_added Client_made made db db'"
proof -
  have "\<exists>m' db'. add_client sp (m, made, db) = (m', made @ [next_id db], db') \<and>
      (\<forall>M. (Client_made, next_id db) \<in> M \<longrightarrow> only_adds M db db')" for sp m made db
    by (cases sp) (auto simp: add_client_def Let_def client_row_def intro!: client_adds)
  from save_people [OF assms [unfolded add_clients_def] this] show ?thesis by simp
qed

lemma notaries_added:
  assumes "add_notaries specs m db = (m', made, db')"
  shows "length made = length specs \<and> people_added Notary_made made db db'"
proof -
  have "\<exists>m' db'. add_notary sp (m, made, db) = (m', made @ [next_id db], db') \<and>
      (\<forall>M. (Notary_made, next_id db) \<in> M \<longrightarrow> only_adds M db db')" for sp m made db
    by (cases sp) (auto simp: add_notary_def Let_def notary_row_def intro!: notary_adds)
  from save_people [OF assms [unfolded add_notaries_def] this] show ?thesis by simp
qed

lemma all_pairs_add: "Pair Translator_made ` fst ` set xs \<subseteq> M \<Longrightarrow> only_adds M db (fold add_pairs xs db)"
proof (induction xs arbitrary: db)
  case (Cons x xs)
  have "only_adds M db (add_pairs x db)" using Cons.prems by (cases x) (auto intro: pairs_add)
  moreover have "only_adds M (add_pairs x db) (fold add_pairs xs (add_pairs x db))" using Cons by auto
  ultimately show ?case by (simp add: only_adds_trans [where db' = "add_pairs x db"])
qed simp

lemma translators_added:
  assumes "add_translators specs m db = (m', made, db')"
  shows "length made = length specs \<and> people_added Translator_made made db db'"
proof -
  obtain m1 made1 db1 where f: "fold add_translator specs (m, [], db) = (m1, made1, db1)" by (metis prod.exhaust)
  have "\<exists>m' db'. add_translator sp (m, made, db) = (m', made @ [next_id db], db') \<and>
      (\<forall>M. (Translator_made, next_id db) \<in> M \<longrightarrow> only_adds M db db')" for sp m made db
    by (cases sp) (auto simp: add_translator_def Let_def translator_row_def intro!: translator_adds)
  from save_people [OF f this] have first: "length made1 = length specs" "people_added Translator_made made1 db db1" by simp_all
  have eq: "made = made1" "db' = fold add_pairs (zip made1 (map (tv_language_pairs \<circ> snd) specs)) db1"
    using assms by (auto simp: add_translators_def f)
  have "only_adds M db1 db'" if "Pair Translator_made ` set made1 \<subseteq> M" for M
    unfolding eq(2) by (rule all_pairs_add) (use that in \<open>fastforce dest: set_zip_leftD\<close>)
  with first show ?thesis unfolding eq(1) by (auto simp: people_added_def intro: only_adds_trans)
qed

subsection \<open>Orders\<close>

lemma order_adds:
  assumes "(Order_made, o_id o') \<in> M"
  shows "only_adds M db (db\<lparr>next_id := next_id db + 1, orders := orders db @ [o']\<rparr>)"
  by (rule only_addsI [of _ "next_id db + 1" "[]" "[]" "[]" "[]" "[o']" "[]" "[]" "[]" "[]"])
    (use assms in \<open>simp_all add: grown_def adds_people_def adds_orders_def\<close>)

lemma orders_added:
  assumes "fold_result (add_order session now m) good (made, db) = Inr (made', db')"
  shows "\<exists>more. made' = made @ more \<and> map fst more = good \<and>
    (\<forall>M. Pair Order_made ` o_id ` snd ` set more \<subseteq> M \<longrightarrow> only_adds M db db') \<and> (\<forall>x \<in> set more. next_id db \<le> o_id (snd x))"
  using assms
proof (induction good arbitrary: made db)
  case (Cons v good)
  from Cons.prems obtain state where a: "add_order session now m v (made, db) = Inr state"
    "fold_result (add_order session now m) good state = Inr (made', db')" by (auto simp: bind_result_Inr_iff)
  then obtain cid where state: "state = (made @ [(v, imported_order session now cid v db)],
      db\<lparr>next_id := next_id db + 1, orders := orders db @ [imported_order session now cid v db]\<rparr>)"
    by (auto simp: add_order_def Let_def split: option.splits)
  let ?o = "imported_order session now cid v db"
  let ?db = "db\<lparr>next_id := next_id db + 1, orders := orders db @ [?o]\<rparr>"
  from Cons.IH [OF a(2) [unfolded state]] obtain more where more: "made' = (made @ [(v, ?o)]) @ more" "map fst more = good"
    "\<And>M. Pair Order_made ` o_id ` snd ` set more \<subseteq> M \<Longrightarrow> only_adds M ?db db'" "\<forall>x \<in> set more. next_id ?db \<le> o_id (snd x)"
    by blast
  have "only_adds M db db'" if "Pair Order_made ` o_id ` snd ` set ((v, ?o) # more) \<subseteq> M" for M
    by (rule only_adds_trans [OF order_adds [of ?o] more(3)]) (use that in simp_all)
  with more show ?case by (intro exI [of _ "(v, ?o) # more"]) (auto simp: imported_order_def)
qed simp

lemma details_grow:
  assumes "(Order_made, oid) \<in> M" and "d_order_id d = oid" and "next_id db \<le> d_id d" and "\<forall>e \<in> set es. e_order_id e = oid"
    and "Pair Payment_made ` l_id ` set ps \<subseteq> M" and "next_id db \<le> n"
  shows "only_adds M db (db\<lparr>next_id := n, documents := documents db @ [d], status_events := status_events db @ es,
    client_payments := client_payments db @ ps\<rparr>)"
  by (rule only_addsI [of _ n "[]" "[]" "[]" "[]" "[]" "[d]" es ps "[]"])
    (use assms in \<open>auto simp: grown_def adds_people_def adds_orders_def\<close>)

lemma imported_events_of: "e \<in> set (imported_events session now i oid v) \<Longrightarrow> e_order_id e = oid"
  by (auto simp: imported_events_def split: option.splits if_splits)

lemma detail_added:
  assumes "add_details session now tm nm (v, o') (paid, db) = Inr (paid', db')"
  shows "\<exists>more. paid' = paid @ more \<and> (\<forall>p \<in> set more. next_id db \<le> fst p) \<and>
    (\<forall>M. (Order_made, o_id o') \<in> M \<longrightarrow> Pair Payment_made ` fst ` set more \<subseteq> M \<longrightarrow> only_adds M db db')"
proof -
  define i where "i = next_id db"
  from assms obtain notary translator where at_all: "add_details session now tm nm (v, o') (paid, db) = Inr (paid', db')"
    and refs: "resolved (ov_notary_id v) nm = Inr notary" "resolved (ov_translator_id v) tm = Inr translator"
    by (auto simp: add_details_def)
  let ?d = "imported_document i (o_id o') translator notary v"
  let ?es = "imported_events session now (i + 1) (o_id o') v"
  let ?pid = "i + 1 + int (length ?es)"
  let ?db = "\<lambda>ps. db\<lparr>next_id := ?pid + 1, documents := documents db @ [?d], status_events := status_events db @ ?es,
    client_payments := client_payments db @ ps\<rparr>"
  have grow: "only_adds M db (?db ps)" if "(Order_made, o_id o') \<in> M" "Pair Payment_made ` l_id ` set ps \<subseteq> M" for M ps
    by (rule details_grow [OF that(1)])
      (use that(2) in \<open>auto simp: imported_document_def i_def dest: imported_events_of\<close>)
  show ?thesis
  proof (cases "ov_paid v")
    case None
    then have "paid' = paid" "db' = ?db []" using assms by (auto simp: add_details_def refs i_def Let_def)
    with grow [of _ "[]"] show ?thesis by (intro exI [of _ "[]"]) simp
  next
    case (Some amount)
    then have eq: "paid' = paid @ [(?pid, o_id o', numeric 2 amount)]" "db' = ?db [imported_payment session ?pid o' v amount]"
      using assms by (auto simp: add_details_def refs i_def Let_def split: if_splits)
    have "only_adds M db db'" if "(Order_made, o_id o') \<in> M" "(Payment_made, ?pid) \<in> M" for M
      unfolding eq(2) by (rule grow) (use that in \<open>simp_all add: imported_payment_def\<close>)
    then show ?thesis by (intro exI [of _ "[(?pid, o_id o', numeric 2 amount)]"]) (simp add: eq(1), simp add: i_def)
  qed
qed

lemma details_added:
  assumes "fold_result (add_details session now tm nm) placed (paid, db) = Inr (paid', db')"
  shows "\<exists>more. paid' = paid @ more \<and> (\<forall>p \<in> set more. next_id db \<le> fst p) \<and>
    (\<forall>M. Pair Order_made ` o_id ` snd ` set placed \<subseteq> M \<longrightarrow> Pair Payment_made ` fst ` set more \<subseteq> M \<longrightarrow> only_adds M db db')"
  using assms
proof (induction placed arbitrary: paid db)
  case (Cons x placed)
  obtain v o' where x: "x = (v, o')" by fastforce
  from Cons.prems obtain paid1 db1 where a: "add_details session now tm nm (v, o') (paid, db) = Inr (paid1, db1)"
    "fold_result (add_details session now tm nm) placed (paid1, db1) = Inr (paid', db')" by (auto simp: bind_result_Inr_iff x)
  from detail_added [OF a(1)] obtain p where p: "paid1 = paid @ p" "\<forall>q \<in> set p. next_id db \<le> fst q"
    "\<And>M. (Order_made, o_id o') \<in> M \<Longrightarrow> Pair Payment_made ` fst ` set p \<subseteq> M \<Longrightarrow> only_adds M db db1" by blast
  from Cons.IH [OF a(2)] obtain more where more: "paid' = paid1 @ more" "\<forall>q \<in> set more. next_id db1 \<le> fst q"
    "\<And>M. Pair Order_made ` o_id ` snd ` set placed \<subseteq> M \<Longrightarrow> Pair Payment_made ` fst ` set more \<subseteq> M \<Longrightarrow> only_adds M db1 db'" by blast
  have le: "next_id db \<le> next_id db1" using only_adds_ids [OF p(3) [of UNIV]] by simp
  have "only_adds M db db'" if "Pair Order_made ` o_id ` snd ` set (x # placed) \<subseteq> M" "Pair Payment_made ` fst ` set (p @ more) \<subseteq> M" for M
    by (rule only_adds_trans [OF p(3) more(3)]) (use that in \<open>auto simp: x\<close>)
  moreover have "\<forall>q \<in> set (p @ more). next_id db \<le> fst q" using p(2) more(2) le by fastforce
  ultimately show ?case using p(1) more(1) by (intro exI [of _ "p @ more"]) simp
qed simp

lemma allocations_add:
  assumes "Pair Payment_made ` al_payment_id ` set as \<subseteq> M"
  shows "only_adds M db (db\<lparr>client_allocations := client_allocations db @ as\<rparr>)"
  by (rule only_addsI [of _ "next_id db" "[]" "[]" "[]" "[]" "[]" "[]" "[]" "[]" as])
    (use assms in \<open>simp_all add: grown_def adds_people_def adds_orders_def\<close>)

text \<open>What an operation lists as created is all it added, under new ids.\<close>

definition accounted :: "(import_entity \<times> int) list \<Rightarrow> office \<Rightarrow> office \<Rightarrow> bool" where
  "accounted created db db' \<longleftrightarrow> (\<forall>M. set created \<subseteq> M \<longrightarrow> only_adds M db db') \<and> (\<forall>x \<in> set created. next_id db \<le> snd x)"

lemma accounted_ids: "accounted created db db' \<Longrightarrow> next_id db \<le> next_id db'"
  by (auto simp: accounted_def dest!: spec [of _ UNIV] only_adds_ids)

lemma accounted_trans:
  assumes "accounted c1 db db1" and "accounted c2 db1 db2"
  shows "accounted (c1 @ c2) db db2"
proof -
  have "next_id db \<le> next_id db1" by (rule accounted_ids [OF assms(1)])
  show ?thesis
    unfolding accounted_def
  proof (intro conjI allI impI)
    fix M assume "set (c1 @ c2) \<subseteq> M"
    then have "only_adds M db db1" "only_adds M db1 db2" using assms by (simp_all add: accounted_def)
    then show "only_adds M db db2" by (rule only_adds_trans)
  next
    show "\<forall>x \<in> set (c1 @ c2). next_id db \<le> snd x"
      using assms \<open>next_id db \<le> next_id db1\<close> unfolding accounted_def by (auto dest!: bspec)
  qed
qed

lemma accounted_people: "people_added entity made db db' \<Longrightarrow> accounted (map (Pair entity) made) db db'"
  by (auto simp: accounted_def people_added_def)

lemma create_orders_accounted:
  assumes "create_orders session now good refs db = Inr (created, db')"
  shows "accounted created db db' \<and> length (filter (\<lambda>x. fst x = Order_made) created) = length good"
proof -
  obtain cm tm nm where refs: "refs = (cm, tm, nm)" by (rule prod_cases3)
  obtain cm' made db1 where c: "add_clients (List.map_filter (\<lambda>v. map_option (Pair (ov_client_ref v)) (ov_new_client v)) good) cm db =
      (cm', made, db1)" by (rule prod_cases3)
  from assms obtain placed db2 paid db3 where o: "fold_result (add_order session now cm') good ([], db1) = Inr (placed, db2)"
    and d: "fold_result (add_details session now tm nm) placed ([], db2) = Inr (paid, db3)"
    and created: "created = map (Pair Client_made) made @ map (\<lambda>(_, o'). (Order_made, o_id o')) placed @ map (\<lambda>(pid, _, _). (Payment_made, pid)) paid"
    and db': "db' = db3\<lparr>client_allocations := client_allocations db3 @
               map (\<lambda>(pid, oid, amount). \<lparr>al_payment_id = pid, al_target_id = oid, al_amount = amount\<rparr>) paid\<rparr>"
    by (auto simp: create_orders_def refs c)
  from clients_added [OF c] have 1: "accounted (map (Pair Client_made) made) db db1" by (auto intro: accounted_people)
  from orders_added [OF o] have 2: "map fst placed = good" "accounted (map (\<lambda>(_, o'). (Order_made, o_id o')) placed) db1 db2"
    by (auto simp: accounted_def image_image split_def)
  from details_added [OF d] have 3: "\<forall>p \<in> set paid. next_id db2 \<le> fst p"
    "\<And>M. Pair Order_made ` o_id ` snd ` set placed \<subseteq> M \<Longrightarrow> Pair Payment_made ` fst ` set paid \<subseteq> M \<Longrightarrow> only_adds M db2 db3" by auto
  have 4: "only_adds M db3 db'" if "Pair Payment_made ` fst ` set paid \<subseteq> M" for M
    unfolding db' by (rule allocations_add) (use that in \<open>auto simp: image_image split_def\<close>)
  have ids: "next_id db \<le> next_id db1" "next_id db1 \<le> next_id db2" using 1 2 by (auto dest: accounted_ids)
  have "accounted created db db'"
    unfolding accounted_def
  proof (intro conjI allI impI)
    fix M assume M: "set created \<subseteq> M"
    then have parts: "set (map (Pair Client_made) made) \<subseteq> M" "set (map (\<lambda>(_, o'). (Order_made, o_id o')) placed) \<subseteq> M"
      "Pair Payment_made ` fst ` set paid \<subseteq> M" "Pair Order_made ` o_id ` snd ` set placed \<subseteq> M"
      by (auto simp: created image_image split_def)
    have "only_adds M db db1" "only_adds M db1 db2" using 1 2(2) parts unfolding accounted_def by blast+
    moreover have "only_adds M db2 db3" using 3(2) parts by blast
    moreover have "only_adds M db3 db'" using 4 parts by blast
    ultimately show "only_adds M db db'" by (blast intro: only_adds_trans)
  next
    show "\<forall>x \<in> set created. next_id db \<le> snd x" using 1 2(2) 3(1) ids by (fastforce simp: created accounted_def)
  qed
  moreover have "length placed = length good" using arg_cong [OF 2(1), of length] by simp
  then have "length (filter (\<lambda>x. fst x = Order_made) created) = length good"
    by (simp add: created filter_map comp_def split_def)
  ultimately show ?thesis by simp
qed

section \<open>What is there before\<close>

text \<open>Every id in a table, or referred to from one.\<close>

definition people_ids :: "office \<Rightarrow> int set" where
  "people_ids db = cl_id ` set (clients db) \<union> tr_id ` set (translators db) \<union> tp_translator_id ` set (translator_pairs db) \<union>
     no_id ` set (notaries db) \<union> l_party ` set (client_payments db) \<union> l_party ` set (translator_payments db) \<union>
     o_client_id ` set (orders db) \<union> (\<Union>d \<in> set (documents db). set_option (d_translator_id d) \<union> set_option (d_notary_id d))"

definition work_ids :: "office \<Rightarrow> int set" where
  "work_ids db = o_id ` set (orders db) \<union> d_id ` set (documents db) \<union> d_order_id ` set (documents db) \<union>
     e_order_id ` set (status_events db) \<union> l_id ` set (client_payments db) \<union> al_payment_id ` set (client_allocations db) \<union>
     al_target_id ` set (client_allocations db) \<union> al_target_id ` set (translator_allocations db) \<union>
     al_target_id ` set (notary_allocations db) \<union> rf_payment_id ` set (client_refunds db) \<union>
     (\<Union>x \<in> set (expenses db). set_option (x_order_id x))"

definition room_ids :: "import_room \<Rightarrow> int set" where
  "room_ids room = people_ids (im_office room) \<union> work_ids (im_office room) \<union> ib_id ` set (im_batches room) \<union>
     ii_batch_id ` set (im_items room) \<union> set (im_live_files room) \<union> set (im_comments room)"

text \<open>The ids in use come from the sequence new ids are drawn from.\<close>

definition numbered :: "import_room \<Rightarrow> bool" where
  "numbered room \<longleftrightarrow> (\<forall>i \<in> room_ids room. i < next_id (im_office room))"

lemma filter_back: "(\<And>x. x \<in> set xs \<Longrightarrow> P x) \<Longrightarrow> (\<And>y. y \<in> set ys \<Longrightarrow> \<not> P y) \<Longrightarrow> filter P (xs @ ys) = xs"
  by (simp add: filter_id_conv)

text \<open>The ids of one kind among what an import lists.\<close>

definition ids_of :: "import_entity \<Rightarrow> made \<Rightarrow> int set" where
  "ids_of entity M = {i. (entity, i) \<in> M}"

text \<open>The old rows keep out of the way of ids above theirs.\<close>

lemma apart:
  assumes "\<forall>i \<in> people_ids db \<union> work_ids db. i < b" and "\<forall>x \<in> M. b \<le> snd x"
  shows "c \<in> set (clients db) \<Longrightarrow> cl_id c \<notin> ids_of entity M" "t \<in> set (translators db) \<Longrightarrow> tr_id t \<notin> ids_of entity M"
    "tp \<in> set (translator_pairs db) \<Longrightarrow> tp_translator_id tp \<notin> ids_of entity M" "n \<in> set (notaries db) \<Longrightarrow> no_id n \<notin> ids_of entity M"
    "p \<in> set (client_payments db) \<Longrightarrow> l_party p \<notin> ids_of entity M" "tpay \<in> set (translator_payments db) \<Longrightarrow> l_party tpay \<notin> ids_of entity M"
    "o' \<in> set (orders db) \<Longrightarrow> o_client_id o' \<notin> ids_of entity M" "d \<in> set (documents db) \<Longrightarrow> d_translator_id d = Some i \<Longrightarrow> i \<notin> ids_of entity M"
    "d \<in> set (documents db) \<Longrightarrow> d_notary_id d = Some i \<Longrightarrow> i \<notin> ids_of entity M" "o' \<in> set (orders db) \<Longrightarrow> o_id o' \<notin> ids_of entity M"
    "d \<in> set (documents db) \<Longrightarrow> d_id d \<notin> ids_of entity M" "d \<in> set (documents db) \<Longrightarrow> d_order_id d \<notin> ids_of entity M"
    "e \<in> set (status_events db) \<Longrightarrow> e_order_id e \<notin> ids_of entity M" "p \<in> set (client_payments db) \<Longrightarrow> l_id p \<notin> ids_of entity M"
    "a \<in> set (client_allocations db) \<Longrightarrow> al_payment_id a \<notin> ids_of entity M" "a \<in> set (client_allocations db) \<Longrightarrow> al_target_id a \<notin> ids_of entity M"
    "ta \<in> set (translator_allocations db) \<Longrightarrow> al_target_id ta \<notin> ids_of entity M" "na \<in> set (notary_allocations db) \<Longrightarrow> al_target_id na \<notin> ids_of entity M"
    "r \<in> set (client_refunds db) \<Longrightarrow> rf_payment_id r \<notin> ids_of entity M" "x \<in> set (expenses db) \<Longrightarrow> x_order_id x = Some i \<Longrightarrow> i \<notin> ids_of entity M"
proof -
  have "i < b \<Longrightarrow> i \<notin> ids_of entity M" for i using assms(2) by (force simp: ids_of_def)
  then have key: "i \<in> people_ids db \<Longrightarrow> i \<notin> ids_of entity M" "i \<in> work_ids db \<Longrightarrow> i \<notin> ids_of entity M" for i
    using assms(1) by blast+
  note 1 = key(1) [unfolded people_ids_def] and 2 = key(2) [unfolded work_ids_def]
  show "c \<in> set (clients db) \<Longrightarrow> cl_id c \<notin> ids_of entity M" "t \<in> set (translators db) \<Longrightarrow> tr_id t \<notin> ids_of entity M"
    "tp \<in> set (translator_pairs db) \<Longrightarrow> tp_translator_id tp \<notin> ids_of entity M" "n \<in> set (notaries db) \<Longrightarrow> no_id n \<notin> ids_of entity M"
    "p \<in> set (client_payments db) \<Longrightarrow> l_party p \<notin> ids_of entity M" "tpay \<in> set (translator_payments db) \<Longrightarrow> l_party tpay \<notin> ids_of entity M"
    "o' \<in> set (orders db) \<Longrightarrow> o_client_id o' \<notin> ids_of entity M" by (rule 1, simp)+
  show "d \<in> set (documents db) \<Longrightarrow> d_translator_id d = Some i \<Longrightarrow> i \<notin> ids_of entity M"
    "d \<in> set (documents db) \<Longrightarrow> d_notary_id d = Some i \<Longrightarrow> i \<notin> ids_of entity M" by (rule 1, force)+
  show "o' \<in> set (orders db) \<Longrightarrow> o_id o' \<notin> ids_of entity M"
    "d \<in> set (documents db) \<Longrightarrow> d_id d \<notin> ids_of entity M" "d \<in> set (documents db) \<Longrightarrow> d_order_id d \<notin> ids_of entity M"
    "e \<in> set (status_events db) \<Longrightarrow> e_order_id e \<notin> ids_of entity M" "p \<in> set (client_payments db) \<Longrightarrow> l_id p \<notin> ids_of entity M"
    "a \<in> set (client_allocations db) \<Longrightarrow> al_payment_id a \<notin> ids_of entity M" "a \<in> set (client_allocations db) \<Longrightarrow> al_target_id a \<notin> ids_of entity M"
    "ta \<in> set (translator_allocations db) \<Longrightarrow> al_target_id ta \<notin> ids_of entity M" "na \<in> set (notary_allocations db) \<Longrightarrow> al_target_id na \<notin> ids_of entity M"
    "r \<in> set (client_refunds db) \<Longrightarrow> rf_payment_id r \<notin> ids_of entity M" by (rule 2, simp)+
  show "x \<in> set (expenses db) \<Longrightarrow> x_order_id x = Some i \<Longrightarrow> i \<notin> ids_of entity M" by (rule 2, force)
qed

section \<open>Taking it back\<close>

lemma grown_fields:
  "clients (grown n cs ts tps ns os ds es ps as db) = clients db @ cs"
  "client_payments (grown n cs ts tps ns os ds es ps as db) = client_payments db @ ps"
  "orders (grown n cs ts tps ns os ds es ps as db) = orders db @ os"
  "documents (grown n cs ts tps ns os ds es ps as db) = documents db @ ds"
  "status_events (grown n cs ts tps ns os ds es ps as db) = status_events db @ es"
  "client_allocations (grown n cs ts tps ns os ds es ps as db) = client_allocations db @ as"
  "client_refunds (grown n cs ts tps ns os ds es ps as db) = client_refunds db"
  "expenses (grown n cs ts tps ns os ds es ps as db) = expenses db"
  "translator_payments (grown n cs ts tps ns os ds es ps as db) = translator_payments db"
  by (simp_all add: grown_def)

lemma delete_orders_back:
  assumes below: "\<forall>i \<in> people_ids db \<union> work_ids db. i < b" and above: "\<forall>x \<in> M. b \<le> snd x"
    and items: "\<And>entity. set (made_ids entity items) = ids_of entity M"
    and people: "adds_people M cs ts tps ns" and work: "adds_orders M m os ds es ps as"
  shows "delete_orders items (grown n cs ts tps ns os ds es ps as db) = Inr (grown n [] ts tps ns [] [] [] [] [] db)"
proof -
  note old = apart [OF below above]
  have new: "c \<in> set cs \<Longrightarrow> cl_id c \<in> ids_of Client_made M" "o' \<in> set os \<Longrightarrow> o_id o' \<in> ids_of Order_made M"
    "d \<in> set ds \<Longrightarrow> d_order_id d \<in> ids_of Order_made M" "e \<in> set es \<Longrightarrow> e_order_id e \<in> ids_of Order_made M"
    "p \<in> set ps \<Longrightarrow> l_id p \<in> ids_of Payment_made M" "a \<in> set as \<Longrightarrow> al_payment_id a \<in> ids_of Payment_made M"
    for c o' d e p a using people work by (simp_all add: adds_people_def adds_orders_def ids_of_def image_subset_iff)
  have 1: "filter (\<lambda>a. al_payment_id a \<notin> ids_of Payment_made M) (client_allocations db @ as) = client_allocations db"
    by (rule filter_back) (simp_all add: old(15) new(6))
  have 2: "filter (\<lambda>p. l_id p \<notin> ids_of Payment_made M) (client_payments db @ ps) = client_payments db"
    by (rule filter_back) (simp_all add: old(14) new(5))
  have 3: "filter (\<lambda>e. e_order_id e \<notin> ids_of Order_made M) (status_events db @ es) = status_events db"
    by (rule filter_back) (simp_all add: old(13) new(4))
  have 4: "filter (\<lambda>d. d_order_id d \<notin> ids_of Order_made M) (documents db @ ds) = documents db"
    by (rule filter_back) (simp_all add: old(12) new(3))
  have 5: "filter (\<lambda>o'. o_id o' \<notin> ids_of Order_made M) (orders db @ os) = orders db"
    by (rule filter_back) (simp_all add: old(10) new(2))
  have 6: "filter (\<lambda>x. case x_order_id x of None \<Rightarrow> True | Some o' \<Rightarrow> o' \<notin> ids_of Order_made M) (expenses db) = expenses db"
    by (rule filter_True) (use old(20) in \<open>auto split: option.split\<close>)
  have 7: "filter (\<lambda>c. cl_id c \<notin> ids_of Client_made M \<or> cl_id c \<in> o_client_id ` set (orders db) \<or>
      cl_id c \<in> l_party ` set (client_payments db)) (clients db @ cs) = clients db"
  proof (rule filter_back)
    fix c assume "c \<in> set cs"
    then have in_M: "cl_id c \<in> ids_of Client_made M" by (rule new(1))
    then have "cl_id c \<notin> o_client_id ` set (orders db)" "cl_id c \<notin> l_party ` set (client_payments db)"
      using old(5,7) by (metis imageE)+
    with in_M show "\<not> (cl_id c \<notin> ids_of Client_made M \<or> cl_id c \<in> o_client_id ` set (orders db) \<or>
      cl_id c \<in> l_party ` set (client_payments db))" by blast
  qed (simp add: old(1))
  have 8: "\<not> list_ex (\<lambda>r. rf_payment_id r \<in> ids_of Payment_made M) (client_refunds db)"
    using old(19) by (auto simp: list_ex_iff)
  show ?thesis by (simp only: delete_orders_def Let_def items grown_fields 1 2 3 4 5 6 7 8 if_False) (simp add: grown_def)
qed

lemma delete_people_back:
  assumes below: "\<forall>i \<in> people_ids db \<union> work_ids db. i < b" and above: "\<forall>x \<in> M. b \<le> snd x"
    and people: "adds_people M [] ts tps ns"
  shows "delete_notaries (ids_of Notary_made M) (delete_translators (ids_of Translator_made M) (grown n [] ts tps ns [] [] [] [] [] db)) =
    db\<lparr>next_id := n\<rparr>"
proof -
  note old = apart [OF below above]
  have new: "t \<in> set ts \<Longrightarrow> tr_id t \<in> ids_of Translator_made M" "tp \<in> set tps \<Longrightarrow> tp_translator_id tp \<in> ids_of Translator_made M"
    "x \<in> set ns \<Longrightarrow> no_id x \<in> ids_of Notary_made M" for t tp x
    using people by (simp_all add: adds_people_def ids_of_def image_subset_iff)
  have 1: "filter (\<lambda>t. tr_id t \<notin> ids_of Translator_made M) (translators db @ ts) = translators db"
    by (rule filter_back) (simp_all add: old(2) new(1))
  have 2: "filter (\<lambda>p. tp_translator_id p \<notin> ids_of Translator_made M) (translator_pairs db @ tps) = translator_pairs db"
    by (rule filter_back) (simp_all add: old(3) new(2))
  have 3: "filter (\<lambda>x. no_id x \<notin> ids_of Notary_made M) (notaries db @ ns) = notaries db"
    by (rule filter_back) (simp_all add: old(4) new(3))
  show ?thesis by (simp add: delete_notaries_def delete_translators_def grown_def 1 2 3 del: filter_append)
qed

text \<open>Nothing can be in the way of an undo that follows the import directly.\<close>

lemma orders_not_in_use:
  assumes below: "\<forall>i \<in> people_ids db \<union> work_ids db \<union> set (im_live_files room) \<union> set (im_comments room). i < b" and above: "\<forall>x \<in> M. b \<le> snd x"
    and office: "im_office room = grown n cs ts tps ns os ds es ps as db"
    and items: "\<And>entity. set (made_ids entity items) = ids_of entity M"
    and work: "adds_orders M m os ds es ps as" and "b \<le> m"
  shows "\<not> orders_in_use items room"
proof -
  have below': "\<forall>i \<in> people_ids db \<union> work_ids db. i < b" using below by blast
  note old = apart [OF below' above]
  have alloc: "al_payment_id a \<in> ids_of Payment_made M" if "a \<in> set as" for a
    using work that by (simp add: adds_orders_def ids_of_def image_subset_iff)
  have doc: "b \<le> d_id d" if "d \<in> set ds" for d using work that \<open>b \<le> m\<close> by (auto simp: adds_orders_def)
  let ?dids = "d_id ` set (filter (\<lambda>d. d_order_id d \<in> ids_of Order_made M) (documents db @ ds))"
  have dids: "b \<le> i" if "i \<in> ?dids" for i using that doc old(12) by auto
  have up: "b \<le> i" if "i \<in> ids_of entity M" for i entity using that above by (auto simp: ids_of_def)
  have 1: "\<not> list_ex (\<lambda>a. al_target_id a \<in> ids_of Order_made M \<and> al_payment_id a \<notin> ids_of Payment_made M) (client_allocations db @ as)"
    using alloc old(16) by (auto simp: list_ex_iff)
  have 2: "\<not> list_ex (\<lambda>a. al_target_id a \<in> ids_of Order_made M) (translator_allocations db)"
    using old(17) by (auto simp: list_ex_iff)
  have low: "al_target_id a < b" if "a \<in> set (notary_allocations db)" for a
    using that below by (auto simp: work_ids_def)
  have 3: "\<not> list_ex (\<lambda>a. al_target_id a \<in> ?dids) (notary_allocations db)"
    unfolding list_ex_iff using dids low by (meson not_le)
  have 4: "\<not> list_ex (\<lambda>d. d \<in> ?dids) (im_live_files room)"
    unfolding list_ex_iff using dids below by (meson UnCI not_le)
  have 5: "\<not> list_ex (\<lambda>o'. o' \<in> ids_of Order_made M) (im_comments room)"
    unfolding list_ex_iff using up below by (meson UnCI not_le)
  show ?thesis unfolding orders_in_use_def office Let_def items using 1 2 3 4 5 by (simp add: grown_def)
qed

lemma nobody_elsewhere:
  assumes below: "\<forall>i \<in> people_ids db \<union> work_ids db. i < b" and above: "\<forall>x \<in> M. b \<le> snd x"
    and items: "\<And>entity. set (made_ids entity items) = ids_of entity M"
    and work: "adds_orders M m os ds es ps as"
  shows "\<not> people_elsewhere items (grown n cs ts tps ns os ds es ps as db)"
proof -
  note old = apart [OF below above]
  have own: "d_order_id d \<in> ids_of Order_made M" if "d \<in> set ds" for d
    using work that by (simp add: adds_orders_def ids_of_def image_subset_iff)
  have 1: "\<not> list_ex (\<lambda>d. (case d_translator_id d of None \<Rightarrow> False | Some t \<Rightarrow> t \<in> ids_of Translator_made M) \<and>
      d_order_id d \<notin> ids_of Order_made M) (documents db @ ds)"
    using own old(8) by (fastforce simp: list_ex_iff split: option.splits)
  have 2: "\<not> list_ex (\<lambda>d. (case d_notary_id d of None \<Rightarrow> False | Some t \<Rightarrow> t \<in> ids_of Notary_made M) \<and>
      d_order_id d \<notin> ids_of Order_made M) (documents db @ ds)"
    using own old(9) by (fastforce simp: list_ex_iff split: option.splits)
  have 3: "\<not> list_ex (\<lambda>p. l_party p \<in> ids_of Translator_made M) (translator_payments db)"
    using old(6) by (auto simp: list_ex_iff)
  show ?thesis using 1 2 3 by (simp add: people_elsewhere_def grown_def items)
qed

fun entities :: "batch_kind \<Rightarrow> import_entity set" where
  "entities (Single Clients_sheet) = {Client_made}"
| "entities (Single Translators_sheet) = {Translator_made}"
| "entities (Single Notaries_sheet) = {Notary_made}"
| "entities (Single Orders_sheet) = {Client_made, Order_made, Payment_made}"
| "entities Combined = UNIV"

lemma no_such_people:
  assumes "adds_people M cs ts tps ns"
  shows "Client_made \<notin> fst ` M \<Longrightarrow> cs = []" "Translator_made \<notin> fst ` M \<Longrightarrow> ts = []" "Translator_made \<notin> fst ` M \<Longrightarrow> tps = []"
    "Notary_made \<notin> fst ` M \<Longrightarrow> ns = []"
proof -
  have *: "e \<notin> fst ` M \<Longrightarrow> Pair e ` X \<subseteq> M \<Longrightarrow> X = {}" for e and X :: "int set" by force
  show "Client_made \<notin> fst ` M \<Longrightarrow> cs = []" "Translator_made \<notin> fst ` M \<Longrightarrow> ts = []" "Translator_made \<notin> fst ` M \<Longrightarrow> tps = []"
    "Notary_made \<notin> fst ` M \<Longrightarrow> ns = []" using assms unfolding adds_people_def by (auto dest: *)
qed

lemma no_such_work:
  assumes "adds_orders M m os ds es ps as" and "Order_made \<notin> fst ` M" and "Payment_made \<notin> fst ` M"
  shows "os = []" "ds = []" "es = []" "ps = []" "as = []"
proof -
  have *: "e \<notin> fst ` M \<Longrightarrow> Pair e ` X \<subseteq> M \<Longrightarrow> X = {}" for e and X :: "int set" by force
  show "os = []" "ds = []" "es = []" "ps = []" "as = []" using assms unfolding adds_orders_def by (auto dest: *)
qed

lemma all_of_one_kind: "fst ` M \<subseteq> {e} \<Longrightarrow> snd ` M = ids_of e M"
  by (force simp: ids_of_def)

lemma undo_batch_back:
  assumes below: "\<forall>i \<in> people_ids db \<union> work_ids db \<union> set (im_live_files room) \<union> set (im_comments room). i < b"
    and above: "\<forall>x \<in> M. b \<le> snd x" and office: "im_office room = grown n cs ts tps ns os ds es ps as db"
    and items: "\<And>entity. set (made_ids entity items) = ids_of entity M" and all: "set (map ii_entity_id items) = snd ` M"
    and people: "adds_people M cs ts tps ns" and work: "adds_orders M m os ds es ps as" and m: "b \<le> m"
    and kinds: "fst ` M \<subseteq> entities kind"
  shows "undo_batch kind items room = Inr (db\<lparr>next_id := n\<rparr>)"
proof -
  have below': "\<forall>i \<in> people_ids db \<union> work_ids db. i < b" using below by blast
  note old = apart [OF below' above]
  note free = orders_not_in_use [OF below above office items work m]
  note elsewhere = nobody_elsewhere [OF below' above items work, of n cs ts tps ns]
  note gone = delete_orders_back [OF below' above items people work, of n]
  have some: "adds_people M [] ts tps ns" using people by (simp add: adds_people_def)
  show ?thesis
  proof (cases kind)
    case Combined
    have "undo_combined items room = Inr (db\<lparr>next_id := n\<rparr>)"
      using free elsewhere gone delete_people_back [OF below' above some, of n] by (simp add: undo_combined_def office items)
    then show ?thesis by (simp add: undo_batch_def Combined)
  next
    case (Single k)
    show ?thesis
    proof (cases k)
      case Clients_sheet
      have M: "fst ` M \<subseteq> {Client_made}" using kinds by (simp add: Single Clients_sheet)
      then have made: "e \<notin> fst ` M" if "e \<noteq> Client_made" for e using that by blast
      have none: "ts = []" "tps = []" "ns = []" "os = []" "ds = []" "es = []" "ps = []" "as = []"
        by (rule no_such_people [OF people] no_such_work [OF work], (simp add: made)+)+
      have cs: "c \<in> set cs \<Longrightarrow> cl_id c \<in> ids_of Client_made M" for c
        using people by (simp add: adds_people_def ids_of_def image_subset_iff)
      have "filter (\<lambda>c. cl_id c \<notin> ids_of Client_made M) (clients db @ cs) = clients db"
        by (rule filter_back) (simp_all add: old(1) cs)
      moreover have "\<not> list_ex (\<lambda>o'. o_client_id o' \<in> ids_of Client_made M) (orders db)"
        "\<not> list_ex (\<lambda>p. l_party p \<in> ids_of Client_made M) (client_payments db)" using old(5,7) by (auto simp: list_ex_iff)
      ultimately have "undo_clients (ids_of Client_made M) (im_office room) = Inr (db\<lparr>next_id := n\<rparr>)"
        by (simp add: undo_clients_def office none grown_def del: filter_append)
      then show ?thesis by (simp add: undo_batch_def Single Clients_sheet all [simplified] all_of_one_kind [OF M])
    next
      case Translators_sheet
      have M: "fst ` M \<subseteq> {Translator_made}" using kinds by (simp add: Single Translators_sheet)
      then have made: "e \<notin> fst ` M" if "e \<noteq> Translator_made" for e using that by blast
      have none: "cs = []" "ns = []" "os = []" "ds = []" "es = []" "ps = []" "as = []"
        by (rule no_such_people [OF people] no_such_work [OF work], (simp add: made)+)+
      have "ids_of Notary_made M = {}" using M by (force simp: ids_of_def)
      with delete_people_back [OF below' above some, of n]
      have "delete_translators (ids_of Translator_made M) (im_office room) = db\<lparr>next_id := n\<rparr>" by (simp add: office none delete_notaries_def)
      moreover have "\<not> list_ex (\<lambda>d. case d_translator_id d of None \<Rightarrow> False | Some t \<Rightarrow> t \<in> ids_of Translator_made M) (documents db)"
        using old(8) by (fastforce simp: list_ex_iff split: option.splits)
      moreover have "\<not> list_ex (\<lambda>p. l_party p \<in> ids_of Translator_made M) (translator_payments db)"
        using old(6) by (auto simp: list_ex_iff)
      ultimately have "undo_translators (ids_of Translator_made M) (im_office room) = Inr (db\<lparr>next_id := n\<rparr>)"
        by (simp add: undo_translators_def office none grown_fields)
      then show ?thesis by (simp add: undo_batch_def Single Translators_sheet all [simplified] all_of_one_kind [OF M])
    next
      case Notaries_sheet
      have M: "fst ` M \<subseteq> {Notary_made}" using kinds by (simp add: Single Notaries_sheet)
      then have made: "e \<notin> fst ` M" if "e \<noteq> Notary_made" for e using that by blast
      have none: "cs = []" "ts = []" "tps = []" "os = []" "ds = []" "es = []" "ps = []" "as = []"
        by (rule no_such_people [OF people] no_such_work [OF work], (simp add: made)+)+
      have "ids_of Translator_made M = {}" using M by (force simp: ids_of_def)
      with delete_people_back [OF below' above some, of n]
      have "delete_notaries (ids_of Notary_made M) (im_office room) = db\<lparr>next_id := n\<rparr>" by (simp add: office none delete_translators_def)
      moreover have "\<not> list_ex (\<lambda>d. case d_notary_id d of None \<Rightarrow> False | Some t \<Rightarrow> t \<in> ids_of Notary_made M) (documents db)"
        using old(9) by (fastforce simp: list_ex_iff split: option.splits)
      ultimately have "undo_notaries (ids_of Notary_made M) (im_office room) = Inr (db\<lparr>next_id := n\<rparr>)"
        by (simp add: undo_notaries_def office none grown_fields)
      then show ?thesis by (simp add: undo_batch_def Single Notaries_sheet all [simplified] all_of_one_kind [OF M])
    next
      case Orders_sheet
      have M: "fst ` M \<subseteq> {Client_made, Order_made, Payment_made}" using kinds by (simp add: Single Orders_sheet)
      have none: "ts = []" "tps = []" "ns = []" using no_such_people [OF people] M by auto
      have "undo_orders items room = Inr (db\<lparr>next_id := n\<rparr>)"
        using free gone by (simp add: undo_orders_def office none) (simp add: grown_def)
      then show ?thesis by (simp add: undo_batch_def Single Orders_sheet)
    qed
  qed
qed

subsection \<open>What saving leaves\<close>

fun kind_of_results :: "sheet_results \<Rightarrow> sheet_kind" where
  "kind_of_results (Client_rows _) = Clients_sheet"
| "kind_of_results (Translator_rows _) = Translators_sheet"
| "kind_of_results (Notary_rows _) = Notaries_sheet"
| "kind_of_results (Order_rows _) = Orders_sheet"

lemma judged_kind: "kind_of_results (judge_sheet lx name_order kind rows mapping db) = kind"
  by (simp add: judge_sheet_def split: sheet_kind.split)

lemma create_orders_kinds:
  assumes "create_orders session now good refs db = Inr (created, db')"
  shows "fst ` set created \<subseteq> entities (Single Orders_sheet)"
proof -
  obtain cm tm nm where refs: "refs = (cm, tm, nm)" by (rule prod_cases3)
  obtain cm' made db1 where c: "add_clients (List.map_filter (\<lambda>v. map_option (Pair (ov_client_ref v)) (ov_new_client v)) good) cm db =
      (cm', made, db1)" by (rule prod_cases3)
  from assms show ?thesis by (auto simp: create_orders_def refs c)
qed

lemma results_saved:
  assumes "save_results session now rs db = Inr (created, db')"
  shows "accounted created db db' \<and> fst ` set created \<subseteq> entities (Single (kind_of_results rs))"
proof (cases rs)
  case (Client_rows r)
  obtain m made db1 where "add_clients (map (Pair None) (ok_values r)) (\<lambda>_. None) db = (m, made, db1)" by (rule prod_cases3)
  with assms clients_added [OF this] show ?thesis by (auto simp: save_results_def Client_rows intro: accounted_people)
next
  case (Translator_rows r)
  obtain m made db1 where "add_translators (map (Pair None) (ok_values r)) (\<lambda>_. None) db = (m, made, db1)" by (rule prod_cases3)
  with assms translators_added [OF this] show ?thesis by (auto simp: save_results_def Translator_rows intro: accounted_people)
next
  case (Notary_rows r)
  obtain m made db1 where "add_notaries (map (Pair None) (ok_values r)) (\<lambda>_. None) db = (m, made, db1)" by (rule prod_cases3)
  with assms notaries_added [OF this] show ?thesis by (auto simp: save_results_def Notary_rows intro: accounted_people)
next
  case (Order_rows r)
  then have "create_orders session now (ok_values r) ((\<lambda>_. None), (\<lambda>_. None), (\<lambda>_. None)) db = Inr (created, db')"
    using assms by (simp add: save_results_def)
  from create_orders_accounted [OF this] create_orders_kinds [OF this] show ?thesis by (simp add: Order_rows)
qed

lemma judged_saved:
  assumes "save_judged session now j db = Inr (created, db')"
  shows "accounted created db db'"
proof -
  obtain nm ns db1 where n: "add_notaries (ok_specs (notary_results j) @ introduced_specs introduced_notary (oc_notaries (jg_context j)))
      (\<lambda>_. None) db = (nm, ns, db1)" by (rule prod_cases3)
  obtain tm ts db2 where t: "add_translators (ok_specs (translator_results j) @
      introduced_specs introduced_translator (oc_translators (jg_context j))) (\<lambda>_. None) db1 = (tm, ts, db2)" by (rule prod_cases3)
  obtain cm cs db3 where c: "add_clients (ok_specs (client_results j)) (\<lambda>_. None) db2 = (cm, cs, db3)" by (rule prod_cases3)
  from assms obtain rest where o: "create_orders session now (ok_values (order_results j)) (cm, tm, nm) db3 = Inr (rest, db')"
    and created: "created = map (Pair Notary_made) ns @ map (Pair Translator_made) ts @ map (Pair Client_made) cs @ rest"
    by (auto simp: save_judged_def n t c)
  have "accounted (map (Pair Notary_made) ns) db db1" "accounted (map (Pair Translator_made) ts) db1 db2"
    "accounted (map (Pair Client_made) cs) db2 db3" "accounted rest db3 db'"
    using notaries_added [OF n] translators_added [OF t] clients_added [OF c] create_orders_accounted [OF o]
    by (simp_all add: accounted_people)
  then show ?thesis unfolding created by (intro accounted_trans)
qed

subsection \<open>The import and its undo\<close>

lemma log_grown: "log_office session action entity i (grown n cs ts tps ns os ds es ps as db) =
  grown n cs ts tps ns os ds es ps as (log_office session action entity i db)"
  by (simp add: log_office_def grown_def)

lemma log_ids [simp]:
  "people_ids (log_office session action entity i db) = people_ids db" "work_ids (log_office session action entity i db) = work_ids db"
  "people_ids (db\<lparr>next_id := n\<rparr>) = people_ids db" "work_ids (db\<lparr>next_id := n\<rparr>) = work_ids db"
  by (simp_all add: log_office_def people_ids_def work_ids_def)

lemma fold_max_upper:
  assumes "\<And>x. x \<in> set xs \<Longrightarrow> x \<le> b" and "a \<le> b" and "b \<in> insert a (set xs)"
  shows "fold max xs a = (b :: int)"
proof -
  have "Max (set (a # xs)) = b" by (rule Max_eqI) (use assms in auto)
  then show ?thesis by (simp only: Max.set_eq_fold)
qed

lemma newest_open:
  assumes "ib_undone_at batch = None" and "\<forall>b \<in> set bs. ib_id b < ib_id batch" and room: "im_batches room = bs @ [batch]"
  shows "latest_batch room = Some (ib_id batch)"
proof -
  let ?open = "map ib_id (filter (\<lambda>b. ib_undone_at b = None) (bs @ [batch]))"
  have set: "x \<in> set ?open \<Longrightarrow> x \<le> ib_id batch" for x
    using assms(2) by (auto split: if_splits intro: less_imp_le)
  have last: "ib_id batch \<in> set ?open" using assms(1) by simp
  then have ne: "?open \<noteq> []" by (metis list.set(1) empty_iff)
  then have "hd ?open \<le> ib_id batch" by (rule set [OF hd_in_set])
  with set last have "fold max ?open (hd ?open) = ib_id batch" by (intro fold_max_upper) simp_all
  with ne show ?thesis by (simp add: latest_batch_def room Let_def del: filter_append map_append)
qed

lemma finished_then_undone:
  assumes numbered: "numbered room"
    and saved: "accounted created ((im_office room)\<lparr>next_id := next_id (im_office room) + 1\<rparr>) db'"
    and batch: "ib_id batch = next_id (im_office room)" "ib_undone_at batch = None"
    and kinds: "fst ` set created \<subseteq> entities (ib_kind batch)"
    and finish: "(out, room') = finish session batch created db' room"
  shows "\<exists>out' room''. undo session2 now2 (ib_id (bo_batch out)) room' = Inr (out', room'') \<and>
    im_office room'' = (im_office room)\<lparr>next_id := next_id (im_office room'), office_audit := office_audit (im_office room'')\<rparr> \<and>
    im_items room'' = im_items room \<and> im_batches room'' = im_batches room @ [(bo_batch out)\<lparr>ib_undone_at := Some now2\<rparr>]"
proof -
  have out: "bo_batch out = batch" using finish by (simp add: finish_def)
  define db where "db = im_office room"
  define b where "b = next_id db + 1"
  define base where "base = log_office session ''import.committed'' ''import'' (ib_id batch) (db\<lparr>next_id := b\<rparr>)"
  define items where "items = map (\<lambda>(entity, i). \<lparr>ii_batch_id = ib_id batch, ii_entity = entity, ii_entity_id = i\<rparr>) created"
  have room': "room' = room\<lparr>im_office := log_office session ''import.committed'' ''import'' (ib_id batch) db',
      im_batches := im_batches room @ [batch], im_items := im_items room @ items\<rparr>"
    using finish by (simp add: finish_def items_def)
  from saved have "only_adds (set created) (db\<lparr>next_id := b\<rparr>) db'" by (simp add: accounted_def db_def b_def)
  then obtain n cs ts tps ns os ds es ps as where g: "db' = grown n cs ts tps ns os ds es ps as (db\<lparr>next_id := b\<rparr>)" "b \<le> n"
    "adds_people (set created) cs ts tps ns" "adds_orders (set created) b os ds es ps as" by (auto elim!: only_addsE)
  have office: "im_office room' = grown n cs ts tps ns os ds es ps as base" by (simp add: room' g(1) log_grown base_def)
  have old: "\<forall>i \<in> room_ids room. i < next_id db" using numbered by (simp add: numbered_def db_def)
  have below: "\<forall>i \<in> people_ids base \<union> work_ids base \<union> set (im_live_files room') \<union> set (im_comments room'). i < b"
  proof
    fix i assume "i \<in> people_ids base \<union> work_ids base \<union> set (im_live_files room') \<union> set (im_comments room')"
    then have "i \<in> room_ids room" by (auto simp: base_def room_ids_def room' db_def)
    with old have "i < next_id db" by blast
    then show "i < b" by (simp add: b_def)
  qed
  have above: "\<forall>x \<in> set created. b \<le> snd x" using saved by (simp add: accounted_def db_def b_def)
  have other: "ii_batch_id x \<noteq> ib_id batch" if "x \<in> set (im_items room)" for x
  proof -
    have "ii_batch_id x \<in> room_ids room" using that by (simp add: room_ids_def)
    with old batch(1) show ?thesis by (auto simp: db_def)
  qed
  have mine: "filter (\<lambda>x. ii_batch_id x = ib_id batch) (im_items room') = items"
  proof -
    have "filter (\<lambda>x. ii_batch_id x = ib_id batch) (im_items room) = []" using other by simp
    moreover have "filter (\<lambda>x. ii_batch_id x = ib_id batch) items = items"
      by (rule filter_True) (auto simp: items_def)
    ultimately show ?thesis by (simp add: room')
  qed
  have others: "filter (\<lambda>x. ii_batch_id x \<noteq> ib_id batch) (im_items room') = im_items room"
  proof -
    have "im_items room' = im_items room @ items" by (simp add: room')
    then show ?thesis by (simp only:) (rule filter_back, auto simp: items_def other)
  qed
  have made: "set (made_ids entity items) = ids_of entity (set created)" for entity
    by (force simp: made_ids_def items_def ids_of_def)
  have all: "set (map ii_entity_id items) = snd ` set created" by (force simp: items_def)
  have restored: "undo_batch (ib_kind batch) items room' = Inr (base\<lparr>next_id := n\<rparr>)"
    by (rule undo_batch_back [OF below above office made all g(3,4) order_refl kinds])
  have fresh: "\<forall>x \<in> set (im_batches room). ib_id x < ib_id batch" using old batch(1) by (simp add: room_ids_def db_def)
  have found: "get_row ib_id (ib_id batch) (im_batches room') = Some batch"
  proof -
    have "get_row ib_id (ib_id batch) (im_batches room) = None" using fresh by (auto simp: get_row_None_iff)
    then show ?thesis by (simp add: get_row_append room')
  qed
  have newest: "latest_batch room' = Some (ib_id batch)"
    by (rule newest_open [OF batch(2) fresh]) (simp add: room')
  have marked: "update_where (\<lambda>x. ib_id x = ib_id batch) (\<lambda>_. batch\<lparr>ib_undone_at := Some now2\<rparr>) (im_batches room') =
      im_batches room @ [batch\<lparr>ib_undone_at := Some now2\<rparr>]"
    using fresh by (auto simp: update_where_def room' intro!: map_idI)
  have next_room: "next_id (im_office room') = n" by (simp add: office grown_def)
  show ?thesis
    by (simp add: out undo_def found batch(2) newest mine restored others marked Let_def next_room)
      (simp add: base_def log_office_def db_def)
qed

text \<open>C12: undoing an import right away gives back what was there. Whether one sheet was imported or a whole workbook, of
  people or of orders with their documents, log and payments: when the ids in use are older than the import's, nothing is in
  the way of undoing it, every table of the bureau is again what it was, and so is the list of what imports made; all that stays
  is the import itself, marked as undone, the audit log and the ids it used up.\<close>

theorem undo_restores:
  assumes numbered: "numbered room"
    and imported: "commit lx name_order rd session now kind content filename mapping room = Inr (out, room') \<or>
      commit_combined lx name_order rd session now content filename picked room = Inr (out, room')"
  shows "\<exists>out' room''. undo session2 now2 (ib_id (bo_batch out)) room' = Inr (out', room'') \<and>
    im_office room'' = (im_office room)\<lparr>next_id := next_id (im_office room'), office_audit := office_audit (im_office room'')\<rparr> \<and>
    im_items room'' = im_items room \<and> im_batches room'' = im_batches room @ [(bo_batch out)\<lparr>ib_undone_at := Some now2\<rparr>]"
  using imported
proof
  assume "commit lx name_order rd session now kind content filename mapping room = Inr (out, room')"
  then obtain rs created db' where judged: "read_and_judge lx name_order rd kind content filename mapping (im_office room) = Inr rs"
    and saved: "save_results session now rs ((im_office room)\<lparr>next_id := next_id (im_office room) + 1\<rparr>) = Inr (created, db')"
    and finish: "(out, room') = finish session (new_batch session now (next_id (im_office room)) (Single kind) filename (results_total rs)
      (results_count Row_ok rs) (results_count Row_duplicate rs) (results_count Row_error rs)) created db' room"
    by (auto simp: commit_def Let_def split: if_splits)
  have "kind_of_results rs = kind" using judged judged_kind by (auto simp: read_and_judge_def split: option.splits)
  with results_saved [OF saved] show ?thesis
    by (intro finished_then_undone [OF numbered _ _ _ _ finish]) (simp_all add: new_batch_def)
next
  assume "commit_combined lx name_order rd session now content filename picked room = Inr (out, room')"
  then obtain j created db' where saved: "save_judged session now j ((im_office room)\<lparr>next_id := next_id (im_office room) + 1\<rparr>) = Inr (created, db')"
    and finish: "finish session (new_batch session now (next_id (im_office room)) Combined filename
      (sum_list (map (results_total \<circ> snd) (jg_judged j))) (records_made (creates j))
      (judged_count Row_duplicate j) (judged_count Row_error j)) created db' room = (out, room')"
    by (auto simp: commit_combined_def Let_def split: if_splits)
  show ?thesis
    by (rule finished_then_undone [OF numbered judged_saved [OF saved] _ _ _ finish [symmetric]]) (simp_all add: new_batch_def)
qed

theorem undo_restores_witness:
  "\<exists>out room' out' room''. ex_commit ex_import_room = Inr (out, room') \<and>
     map cl_name (clients (im_office room')) = [''Client'', ''Nino'', ''Gio''] \<and>
     undo ex_caller 900 (ib_id (bo_batch out)) room' = Inr (out', room'') \<and> clients (im_office room'') = clients ex_office"
proof -
  from ex_committed obtain out room' where c: "ex_commit ex_import_room = Inr (out, room')"
    and n: "map cl_name (clients (im_office room')) = [''Client'', ''Nino'', ''Gio'']" by (auto split: sum.splits prod.splits)
  have "numbered ex_import_room" by code_simp
  from undo_restores [OF this disjI1 [OF c [unfolded ex_commit_def]], of ex_caller 900] obtain out' room'' where
    u: "undo ex_caller 900 (ib_id (bo_batch out)) room' = Inr (out', room'')"
    and same: "im_office room'' = (im_office ex_import_room)\<lparr>next_id := next_id (im_office room'), office_audit := office_audit (im_office room'')\<rparr>"
    by blast
  have "clients (im_office room'') = clients ex_office"
    using arg_cong [OF same, of clients] by (simp add: ex_import_room_def)
  with c n u show ?thesis by (intro exI conjI) (assumption | simp)+
qed

end
