(* ===== verification/Listings.thy ===== *)
theory Listings
  imports Lookups
begin

text \<open>
  The lists of orders, payments and expenses (\<^verbatim>\<open>api/v1/orders.py\<close>, \<^verbatim>\<open>api/v1/finances.py\<close>): what a screen
  filters by, the order of the rows, the page. They read the aggregates of theory Office. The arrow
  between two languages is written as character 154.
\<close>

section \<open>Orders\<close>

datatype orders_by = Order_date | Order_id | Order_due

record orders_query =
  oq_search :: "string option"
  oq_client_type :: "client_type option"
  oq_status :: "string option"
  oq_language :: "string option"
  oq_client_id :: "int option"
  oq_translator_id :: "int option"
  oq_document_type_id :: "int option"
  oq_date_from :: "date option"
  oq_date_to :: "date option"
  oq_overdue :: bool
  oq_due_today :: bool
  oq_unpaid :: bool
  oq_mine :: bool
  oq_by :: orders_by
  oq_descending :: bool
  oq_limit :: nat
  oq_offset :: nat

definition orders_query_ok :: "orders_query \<Rightarrow> bool" where
  "orders_query_ok q \<longleftrightarrow> page_ok (oq_search q) (oq_limit q) \<and> optional (text_ok 0 60) (oq_status q) \<and>
     optional (text_ok 0 5) (oq_language q)"

definition asked :: "'a option \<Rightarrow> ('a \<Rightarrow> bool) \<Rightarrow> bool" where
  "asked v P \<longleftrightarrow> (case v of None \<Rightarrow> True | Some x \<Rightarrow> P x)"

definition has_document :: "(order_document \<Rightarrow> bool) \<Rightarrow> order \<Rightarrow> office \<Rightarrow> bool" where
  "has_document P ord db \<longleftrightarrow> list_ex P (order_documents (o_id ord) db)"

definition translated_by :: "string \<Rightarrow> office \<Rightarrow> order_document \<Rightarrow> bool" where
  "translated_by pattern db d \<longleftrightarrow>
     (case d_translator_id d of None \<Rightarrow> False
      | Some i \<Rightarrow> list_ex (\<lambda>t. tr_id t = i \<and> ilike (Some (tr_name t)) pattern) (translators db))"

text \<open>The search of the order screen: the client, the order's own texts, its translators, a phone's digits, its number.\<close>

definition order_matches :: "string \<Rightarrow> office \<Rightarrow> client \<Rightarrow> order \<Rightarrow> bool" where
  "order_matches search db c ord \<longleftrightarrow>
     (let pattern = like_pattern search; digits = digits_of search; bare = strip search
      in ilike (Some (cl_name c)) pattern \<or> ilike (cl_email c) pattern \<or> ilike (cl_personal_number c) pattern \<or>
         ilike (o_contact_info ord) pattern \<or> ilike (o_identifier ord) pattern \<or>
         has_document (translated_by pattern db) ord db \<or>
         (4 \<le> length digits \<and> has_digits (cl_phone c) (CHR ''%'' # digits @ ''%'')) \<or>
         (all_digits bare \<and> o_number ord = read_nat bare))"

text \<open>A number the column cannot hold is an error of the driver.\<close>

definition search_overflows :: "orders_query \<Rightarrow> bool" where
  "search_overflows q \<longleftrightarrow> (let bare = strip (or_blank (oq_search q)) in all_digits bare \<and> 2 ^ 31 \<le> read_nat bare)"

definition row_status_value :: "order_row \<Rightarrow> string" where
  "row_status_value r = (case ro_status r of None \<Rightarrow> INITIAL_STATUS | Some s \<Rightarrow> s)"

definition order_shown :: "auth_session \<Rightarrow> date \<Rightarrow> orders_query \<Rightarrow> office \<Rightarrow> client \<Rightarrow> order_row \<Rightarrow> bool" where
  "order_shown session today q db c r \<longleftrightarrow>
     (let ord = ro_order r; still_open = (row_status_value r \<notin> CLOSED_STATUSES) in
      (strip (or_blank (oq_search q)) = [] \<or> order_matches (or_blank (oq_search q)) db c ord) \<and>
      asked (oq_client_type q) (\<lambda>k. cl_client_type c = k) \<and>
      asked (oq_client_id q) (\<lambda>i. o_client_id ord = i) \<and>
      asked (oq_translator_id q) (\<lambda>i. has_document (\<lambda>d. d_translator_id d = Some i) ord db) \<and>
      asked (oq_document_type_id q) (\<lambda>i. has_document (\<lambda>d. d_document_type_id d = Some i) ord db) \<and>
      (or_blank (oq_status q) = [] \<or> map_option lower (ro_status r) = Some (normalise (oq_status q))) \<and>
      (or_blank (oq_language q) = [] \<or>
        has_document (\<lambda>d. lower (or_blank (oq_language q)) \<in> {d_source_language d, d_target_language d}) ord db) \<and>
      asked (oq_date_from q) (\<lambda>d. d \<le> o_order_date ord) \<and> asked (oq_date_to q) (\<lambda>d. o_order_date ord \<le> d) \<and>
      (oq_overdue q \<longrightarrow> (case o_due_date ord of None \<Rightarrow> False | Some d \<Rightarrow> d < today) \<and> still_open) \<and>
      (oq_due_today q \<longrightarrow> o_due_date ord = Some today \<and> still_open) \<and>
      (oq_unpaid q \<longrightarrow> ro_paid r < ro_documents_total r + o_delivery_cost ord \<and> row_status_value r \<notin> EXCLUDED_FROM_AGGREGATES) \<and>
      (oq_mine q \<longrightarrow> o_created_by_user_id ord = Some (as_user_id session)))"

text \<open>The primary column, missing due dates last either way, then the id.\<close>

definition orders_key :: "orders_query \<Rightarrow> order \<Rightarrow> int \<times> int \<times> int" where
  "orders_key q ord =
     (let signed = (\<lambda>n. if oq_descending q then - n else n)
      in case oq_by q of
          Order_date \<Rightarrow> (0, signed (o_order_date ord), signed (o_id ord))
        | Order_id \<Rightarrow> (0, signed (o_id ord), signed (o_id ord))
        | Order_due \<Rightarrow> (case o_due_date ord of None \<Rightarrow> (1, 0, signed (o_id ord)) | Some d \<Rightarrow> (0, signed d, signed (o_id ord))))"

definition orders_listed :: "auth_session \<Rightarrow> date \<Rightarrow> orders_query \<Rightarrow> office \<Rightarrow> order_row list" where
  "orders_listed session today q db =
     sort_key (\<lambda>r. orders_key q (ro_order r))
       (filter (\<lambda>r. case get_row cl_id (o_client_id (ro_order r)) (clients db) of
            None \<Rightarrow> False | Some c \<Rightarrow> order_shown session today q db c r) (base_order_query db))"

text \<open>Who translates an order and between which languages, each once, first seen first.\<close>

definition first_seen :: "'a list \<Rightarrow> 'a list" where
  "first_seen xs = fold (\<lambda>x seen. if x \<in> set seen then seen else seen @ [x]) xs []"

definition ARROW :: string where "ARROW = [CHR 0x9A]"

definition pair_names :: "int \<Rightarrow> office \<Rightarrow> string list" where
  "pair_names oid db = first_seen (map (\<lambda>d. d_source_language d @ ARROW @ d_target_language d) (order_documents oid db))"

definition translator_names :: "int \<Rightarrow> office \<Rightarrow> string list" where
  "translator_names oid db = first_seen (filter (\<lambda>n. n \<noteq> []) (List.map_filter (\<lambda>d.
     case d_translator_id d of None \<Rightarrow> None | Some i \<Rightarrow> map_option tr_name (get_row tr_id i (translators db)))
     (order_documents oid db)))"

record order_listed = order_summary +
  ol_identifier :: "string option"
  ol_order_date :: date
  ol_due_date :: "date option"
  ol_client_id :: int
  ol_client_name :: string
  ol_client_type :: client_type
  ol_status :: "string option"
  ol_urgency :: urgency
  ol_translator_names :: "string list"
  ol_language_pairs :: "string list"

definition order_listed_of :: "auth_session \<Rightarrow> date \<Rightarrow> office \<Rightarrow> order_row \<Rightarrow> order_listed" where
  "order_listed_of session today db r =
     (let ord = ro_order r; s = summary_from_row r today (shows_costs session); c = get_row cl_id (o_client_id ord) (clients db)
      in \<lparr>sm_id = sm_id s, sm_number = sm_number s, sm_status_label = sm_status_label s, sm_document_count = sm_document_count s,
          sm_page_count = sm_page_count s, sm_total = sm_total s, sm_paid = sm_paid s, sm_profit = sm_profit s,
          sm_paid_state = sm_paid_state s, sm_is_overdue = sm_is_overdue s,
          ol_identifier = o_identifier ord, ol_order_date = o_order_date ord, ol_due_date = o_due_date ord,
          ol_client_id = o_client_id ord, ol_client_name = (case c of None \<Rightarrow> [] | Some x \<Rightarrow> cl_name x),
          ol_client_type = (case c of None \<Rightarrow> B2C | Some x \<Rightarrow> cl_client_type x), ol_status = ro_status r,
          ol_urgency = o_urgency ord, ol_translator_names = translator_names (o_id ord) db,
          ol_language_pairs = pair_names (o_id ord) db\<rparr>)"

definition list_orders :: "auth_session \<Rightarrow> date \<Rightarrow> orders_query \<Rightarrow> office \<Rightarrow> order_listed page result" where
  "list_orders session today q db =
     (if \<not> orders_query_ok q then Inl invalid_payload
      else if search_overflows q then Inl (InternalError ''DataError'')
      else Inr (page_of (oq_limit q) (oq_offset q) (order_listed_of session today db) (orders_listed session today q db)))"

section \<open>Money\<close>

definition order_number :: "int \<Rightarrow> office \<Rightarrow> int option" where
  "order_number oid db = map_option o_number (get_row o_id oid (orders db))"

record 'a money_page =
  mp_page :: "'a page"
  mp_total_amount :: rat

record payments_query =
  pq_client_id :: "int option"
  pq_order_id :: "int option"
  pq_start :: "date option"
  pq_end :: "date option"
  pq_method :: "payment_method option"
  pq_search :: "string option"
  pq_limit :: nat
  pq_offset :: nat

definition payment_shown :: "payments_query \<Rightarrow> office \<Rightarrow> client_payment \<Rightarrow> bool" where
  "payment_shown q db p \<longleftrightarrow>
     asked (pq_client_id q) (\<lambda>i. l_party p = i) \<and>
     asked (pq_order_id q) (\<lambda>i. list_ex (\<lambda>a. al_target_id a = i \<and> al_payment_id a = l_id p) (client_allocations db)) \<and>
     asked (pq_start q) (\<lambda>d. d \<le> l_payment_date p) \<and> asked (pq_end q) (\<lambda>d. l_payment_date p \<le> d) \<and>
     asked (pq_method q) (\<lambda>m. l_method p = m) \<and>
     (strip (or_blank (pq_search q)) = [] \<or>
      (let pattern = like_pattern (or_blank (pq_search q))
       in ilike (l_notes p) pattern \<or> list_ex (\<lambda>c. cl_id c = l_party p \<and> ilike (Some (cl_name c)) pattern) (clients db)))"

definition payments_listed :: "payments_query \<Rightarrow> office \<Rightarrow> client_payment list" where
  "payments_listed q db = sort_key (\<lambda>p. (- l_payment_date p, - l_id p)) (filter (payment_shown q db) (client_payments db))"

record allocation_out =
  ao_order_id :: int
  ao_order_number :: "int option"
  ao_amount :: rat

record payment_out =
  py_id :: int
  py_client_id :: int
  py_client_name :: "string option"
  py_amount :: rat
  py_payment_date :: date
  py_method :: payment_method
  py_notes :: "string option"
  py_recorded_by :: "int option"
  py_allocations :: "allocation_out list"
  py_unallocated :: rat

definition payment_out_of :: "office \<Rightarrow> client_payment \<Rightarrow> payment_out" where
  "payment_out_of db p =
     (let mine = filter (\<lambda>a. al_payment_id a = l_id p) (client_allocations db)
      in \<lparr>py_id = l_id p, py_client_id = l_party p, py_client_name = map_option cl_name (get_row cl_id (l_party p) (clients db)),
          py_amount = l_amount p, py_payment_date = l_payment_date p, py_method = l_method p, py_notes = l_notes p,
          py_recorded_by = l_recorded_by_user_id p,
          py_allocations = map (\<lambda>a. \<lparr>ao_order_id = al_target_id a, ao_order_number = order_number (al_target_id a) db,
            ao_amount = al_amount a\<rparr>) mine,
          py_unallocated = l_amount p - sum_list (map al_amount mine)\<rparr>)"

definition list_payments :: "payments_query \<Rightarrow> office \<Rightarrow> payment_out money_page result" where
  "list_payments q db =
     (if \<not> page_ok (pq_search q) (pq_limit q) then Inl invalid_payload
      else let rows = payments_listed q db
           in Inr \<lparr>mp_page = page_of (pq_limit q) (pq_offset q) (payment_out_of db) rows,
                   mp_total_amount = sum_list (map l_amount rows)\<rparr>)"

record expenses_query =
  eq_start :: "date option"
  eq_end :: "date option"
  eq_category :: "string option"
  eq_order_id :: "int option"
  eq_search :: "string option"
  eq_by_amount :: bool
  eq_descending :: bool
  eq_limit :: nat
  eq_offset :: nat

definition expense_shown :: "expenses_query \<Rightarrow> expense \<Rightarrow> bool" where
  "expense_shown q x \<longleftrightarrow>
     asked (eq_start q) (\<lambda>d. d \<le> x_expense_date x) \<and> asked (eq_end q) (\<lambda>d. x_expense_date x \<le> d) \<and>
     (or_blank (eq_category q) = [] \<or> x_category x = or_blank (eq_category q)) \<and>
     asked (eq_order_id q) (\<lambda>i. x_order_id x = Some i) \<and>
     (strip (or_blank (eq_search q)) = [] \<or> ilike (Some (x_description x)) (like_pattern (or_blank (eq_search q))))"

definition expenses_listed :: "expenses_query \<Rightarrow> office \<Rightarrow> expense list" where
  "expenses_listed q db =
     (let signed = (\<lambda>n. if eq_descending q then - n else n)
      in sort_key (\<lambda>x. (if eq_by_amount q then signed (x_amount x) else signed (of_int (x_expense_date x)), - x_id x))
           (filter (expense_shown q) (expenses db)))"

record expense_out =
  eo_id :: int
  eo_expense_date :: date
  eo_category :: string
  eo_description :: string
  eo_amount :: rat
  eo_order :: "int option"
  eo_order_number :: "int option"

definition expense_out_of :: "office \<Rightarrow> expense \<Rightarrow> expense_out" where
  "expense_out_of db x = \<lparr>eo_id = x_id x, eo_expense_date = x_expense_date x, eo_category = x_category x,
     eo_description = x_description x, eo_amount = x_amount x, eo_order = x_order_id x,
     eo_order_number = (case x_order_id x of None \<Rightarrow> None | Some i \<Rightarrow> order_number i db)\<rparr>"

definition list_expenses :: "expenses_query \<Rightarrow> office \<Rightarrow> expense_out money_page result" where
  "list_expenses q db =
     (if \<not> page_ok (eq_search q) (eq_limit q) \<or> \<not> optional (text_ok 0 50) (eq_category q) then Inl invalid_payload
      else let rows = expenses_listed q db
           in Inr \<lparr>mp_page = page_of (eq_limit q) (eq_offset q) (expense_out_of db) rows,
                   mp_total_amount = sum_list (map x_amount rows)\<rparr>)"

end
