(* ===== verification/Exports.thy ===== *)
theory Exports
  imports Listings Sheets
begin

text \<open>
  The CSV files a bureau takes out (\<^verbatim>\<open>api/v1/exports.py\<close>). Each runs the list of its screen page by page
  until the list says it is finished or fifty thousand rows are read, and writes the rows for a
  spreadsheet program. The pages are read in separate statements, so what a page says may differ
  from one to the next: a page is a function of its offset. The Georgian labels are an argument, and
  so is how an amount is written, which depends on the decimals it carries.
\<close>

section \<open>Page by page\<close>

definition PAGE :: nat where "PAGE = 200"

definition MAX_ROWS :: nat where "MAX_ROWS = 50000"

function (sequential) collect :: "(nat \<Rightarrow> 'a page result) \<Rightarrow> nat \<Rightarrow> 'a list \<Rightarrow> 'a list result" where
  "collect fetch offset rows =
     (if MAX_ROWS \<le> offset then Inr rows
      else case fetch offset of
          Inl e \<Rightarrow> Inl e
        | Inr page \<Rightarrow>
            if pg_total page \<le> offset + PAGE then Inr (rows @ pg_items page)
            else collect fetch (offset + PAGE) (rows @ pg_items page))"
  by pat_completeness auto
termination by (relation "measure (\<lambda>(_, offset, _). MAX_ROWS - offset)") (auto simp: PAGE_def)

declare collect.simps [simp del]

section \<open>Cells\<close>

text \<open>What a row holds, before it is text.\<close>

datatype out_cell = Blank | Flag bool | Number int | Amount rat | On_date date | Words string

definition FORMULA_PREFIXES :: string where
  "FORMULA_PREFIXES = ''=+-@'' @ [CHR 0x09, CHR 0x0D]"

text \<open>\<^verbatim>\<open>date.isoformat\<close> of a day counted from the first of January of the year 1, by cycles of 400, 100 and 4 years.\<close>

definition month_and_day :: "int \<Rightarrow> int \<Rightarrow> int \<times> int" where
  "month_and_day y n =
     fold (\<lambda>m (month, rest). if month = m \<and> days_in_month y m \<le> rest then (m + 1, rest - days_in_month y m) else (month, rest))
       [1..11] (1, n)"

definition civil :: "date \<Rightarrow> int \<times> int \<times> int" where
  "civil day =
     (let n = day - 1; n400 = n div 146097; r400 = n mod 146097; n100 = r400 div 36524; r100 = r400 mod 36524;
          n4 = r100 div 1461; r4 = r100 mod 1461; n1 = r4 div 365; y = n400 * 400 + n100 * 100 + n4 * 4 + n1 + 1
      in if n1 = 4 \<or> n100 = 4 then (y - 1, 12, 31)
         else case month_and_day y (r4 mod 365) of (m, rest) \<Rightarrow> (y, m, rest + 1))"

definition date_text :: "date \<Rightarrow> string" where
  "date_text day = (case civil day of (y, m, d) \<Rightarrow> isoformat y m d)"

definition safe_cell :: "out_cell \<Rightarrow> (int + rat) + string" where
  "safe_cell v = (case v of
       Blank \<Rightarrow> Inr []
     | Flag b \<Rightarrow> Inr (if b then ''1'' else ''0'')
     | Number n \<Rightarrow> Inl (Inl n)
     | Amount x \<Rightarrow> Inl (Inr x)
     | On_date d \<Rightarrow> Inr (date_text d)
     | Words s \<Rightarrow> Inr (case s of [] \<Rightarrow> [] | c # _ \<Rightarrow> if c \<in> set FORMULA_PREFIXES then CHR 0x27 # s else s))"

definition cell_words :: "(rat \<Rightarrow> string) \<Rightarrow> out_cell \<Rightarrow> string" where
  "cell_words amount_text v =
     (case safe_cell v of Inl (Inl n) \<Rightarrow> show_int n | Inl (Inr x) \<Rightarrow> amount_text x | Inr s \<Rightarrow> s)"

section \<open>The file\<close>

text \<open>\<^verbatim>\<open>csv.writer\<close> with its minimal quoting: a field with a comma, a quotation mark or a line break is quoted, and so is an
  empty field that is alone in its row.\<close>

definition QUOTE :: char where "QUOTE = CHR 0x22"

definition needs_quotes :: "string \<Rightarrow> bool" where
  "needs_quotes s \<longleftrightarrow> list_ex (\<lambda>c. c \<in> {CHR '','', QUOTE, CHR 0x0D, CHR 0x0A}) s"

definition quoted :: "string \<Rightarrow> string" where
  "quoted s = QUOTE # concat (map (\<lambda>c. if c = QUOTE then [QUOTE, QUOTE] else [c]) s) @ [QUOTE]"

definition csv_field :: "string \<Rightarrow> string" where
  "csv_field s = (if needs_quotes s then quoted s else s)"

definition csv_row :: "string list \<Rightarrow> string" where
  "csv_row row = (if row = [[]] then quoted [] else join_by '','' (map csv_field row)) @ [CHR 0x0D, CHR 0x0A]"

text \<open>The text after the byte-order mark.\<close>

definition csv_text :: "(rat \<Rightarrow> string) \<Rightarrow> string list \<Rightarrow> out_cell list list \<Rightarrow> string" where
  "csv_text amount_text header rows = concat (map csv_row (header # map (map (cell_words amount_text)) rows))"

section \<open>The four exports\<close>

datatype lang = KA | EN

record labels =
  lb_headers :: "string \<Rightarrow> string list"
  lb_status :: "string \<rightharpoonup> string"
  lb_word :: "string \<Rightarrow> string \<rightharpoonup> string"
  lb_yes :: string
  lb_no :: string

definition headers_of :: "labels \<Rightarrow> lang \<Rightarrow> string \<Rightarrow> string list" where
  "headers_of lb lang name = (case lang of
       KA \<Rightarrow> lb_headers lb name
     | EN \<Rightarrow>
         if name = ''orders'' then [''Order'', ''Date'', ''Due'', ''Client'', ''Client type'', ''Status'', ''Speed'', ''Languages'',
           ''Translators'', ''Documents'', ''Pages'', ''Total'', ''Paid'', ''Balance'', ''Overdue'']
         else if name = ''orders_profit'' then [''Profit'']
         else if name = ''clients'' then [''Number'', ''Name'', ''Type'', ''Email'', ''Phone'', ''ID number'']
         else if name = ''payments'' then [''ID'', ''Date'', ''Client'', ''Method'', ''Amount'', ''Unallocated'', ''Orders'', ''Notes'']
         else [''ID'', ''Date'', ''Category'', ''Description'', ''Order'', ''Amount''])"

definition status_text :: "labels \<Rightarrow> string option \<Rightarrow> string \<Rightarrow> lang \<Rightarrow> string" where
  "status_text lb status english lang = (case lang of
       EN \<Rightarrow> english
     | KA \<Rightarrow>
         let s = (if or_blank status = [] then ''new'' else or_blank status);
             key = map (\<lambda>c. if c = CHR '' '' then CHR ''_'' else c) (lower (strip s))
         in case lb_status lb key of None \<Rightarrow> english | Some l \<Rightarrow> l)"

definition label_of :: "labels \<Rightarrow> string \<Rightarrow> string \<Rightarrow> lang \<Rightarrow> string" where
  "label_of lb mapping value lang = (case lang of
       EN \<Rightarrow> value
     | KA \<Rightarrow> (case lb_word lb mapping value of None \<Rightarrow> value | Some l \<Rightarrow> l))"

definition client_type_value :: "client_type \<Rightarrow> string" where
  "client_type_value k = (case k of B2B \<Rightarrow> ''B2B'' | B2C \<Rightarrow> ''B2C'')"

definition urgency_value :: "urgency \<Rightarrow> string" where
  "urgency_value u = (case u of STANDARD \<Rightarrow> ''standard'' | EXPRESS \<Rightarrow> ''express'' | URGENT \<Rightarrow> ''urgent'')"

definition method_value :: "payment_method \<Rightarrow> string" where
  "method_value m = (case m of CASH \<Rightarrow> ''cash'' | BANK_TRANSFER \<Rightarrow> ''bank_transfer'' | CARD \<Rightarrow> ''card''
     | BOG_ONLINE \<Rightarrow> ''bog_online'' | OTHER \<Rightarrow> ''other'')"

definition optional_words :: "string option \<Rightarrow> out_cell" where
  "optional_words v = (case v of None \<Rightarrow> Blank | Some s \<Rightarrow> Words s)"

definition order_cells :: "labels \<Rightarrow> lang \<Rightarrow> bool \<Rightarrow> order_listed \<Rightarrow> out_cell list" where
  "order_cells lb lang show_profit ord =
     [Number (sm_number ord), On_date (ol_order_date ord), (case ol_due_date ord of None \<Rightarrow> Blank | Some d \<Rightarrow> On_date d),
      Words (ol_client_name ord), Words (label_of lb ''client_type'' (client_type_value (ol_client_type ord)) lang),
      Words (status_text lb (ol_status ord) (sm_status_label ord) lang),
      Words (label_of lb ''urgency'' (urgency_value (ol_urgency ord)) lang),
      Words (join_by '', '' (ol_language_pairs ord)), Words (join_by '', '' (ol_translator_names ord)),
      Number (int (sm_document_count ord)), Number (sm_page_count ord), Amount (sm_total ord), Amount (sm_paid ord),
      Amount (max (sm_total ord - sm_paid ord) 0),
      Words (case lang of KA \<Rightarrow> if sm_is_overdue ord then lb_yes lb else lb_no lb | EN \<Rightarrow> if sm_is_overdue ord then ''yes'' else ''no'')] @
     (if show_profit then [case sm_profit ord of None \<Rightarrow> Blank | Some x \<Rightarrow> Amount x] else [])"

definition export_orders :: "(rat \<Rightarrow> string) \<Rightarrow> labels \<Rightarrow> lang \<Rightarrow> auth_session \<Rightarrow> date \<Rightarrow> orders_query \<Rightarrow> (nat \<Rightarrow> office) \<Rightarrow> string result" where
  "export_orders amount_text lb lang session today q db_at =
     (let profit = shows_costs session;
          fetch = (\<lambda>offset. list_orders session today (q\<lparr>oq_document_type_id := None, oq_limit := PAGE, oq_offset := offset\<rparr>) (db_at offset))
      in bind_result (collect fetch 0 []) (\<lambda>found.
           Inr (csv_text amount_text (headers_of lb lang ''orders'' @ (if profit then headers_of lb lang ''orders_profit'' else []))
                  (map (order_cells lb lang profit) found))))"

definition client_cells :: "labels \<Rightarrow> lang \<Rightarrow> client_summary \<Rightarrow> out_cell list" where
  "client_cells lb lang c =
     [Number (cs_number c), Words (cs_name c), Words (label_of lb ''client_type'' (client_type_value (cs_client_type c)) lang),
      optional_words (cs_email c), optional_words (cs_phone c), optional_words (cs_personal_number_masked c)]"

definition export_clients :: "(rat \<Rightarrow> string) \<Rightarrow> labels \<Rightarrow> lang \<Rightarrow> (string \<Rightarrow> int) \<Rightarrow> string option \<Rightarrow> client_type option
    \<Rightarrow> (nat \<Rightarrow> office) \<Rightarrow> string result" where
  "export_clients amount_text lb lang name_order search kind db_at =
     (let fetch = (\<lambda>offset. list_clients name_order
            \<lparr>lq_search = search, lq_by = By_name, lq_descending = False, lq_limit = PAGE, lq_offset = offset\<rparr> kind (db_at offset))
      in bind_result (collect fetch 0 []) (\<lambda>found.
           Inr (csv_text amount_text (headers_of lb lang ''clients'') (map (client_cells lb lang) found))))"

text \<open>\<^verbatim>\<open>f"#{number or id}"\<close>\<close>

definition order_tag :: "int option \<Rightarrow> int \<Rightarrow> string" where
  "order_tag number oid = CHR 0x23 # show_int (case number of None \<Rightarrow> oid | Some n \<Rightarrow> if n = 0 then oid else n)"

definition payment_cells :: "labels \<Rightarrow> lang \<Rightarrow> payment_out \<Rightarrow> out_cell list" where
  "payment_cells lb lang p =
     [Number (py_id p), On_date (py_payment_date p), optional_words (py_client_name p),
      Words (label_of lb ''method'' (method_value (py_method p)) lang), Amount (py_amount p), Amount (py_unallocated p),
      Words (join_by '', '' (map (\<lambda>a. order_tag (ao_order_number a) (ao_order_id a)) (py_allocations p))), optional_words (py_notes p)]"

definition money_items :: "'a money_page result \<Rightarrow> 'a page result" where
  "money_items r = bind_result r (\<lambda>p. Inr (mp_page p))"

definition export_payments :: "(rat \<Rightarrow> string) \<Rightarrow> labels \<Rightarrow> lang \<Rightarrow> payments_query \<Rightarrow> (nat \<Rightarrow> office) \<Rightarrow> string result" where
  "export_payments amount_text lb lang q db_at =
     (let fetch = (\<lambda>offset. money_items (list_payments (q\<lparr>pq_order_id := None, pq_limit := PAGE, pq_offset := offset\<rparr>) (db_at offset)))
      in bind_result (collect fetch 0 []) (\<lambda>found.
           Inr (csv_text amount_text (headers_of lb lang ''payments'') (map (payment_cells lb lang) found))))"

definition expense_cells :: "labels \<Rightarrow> lang \<Rightarrow> expense_out \<Rightarrow> out_cell list" where
  "expense_cells lb lang x =
     [Number (eo_id x), On_date (eo_expense_date x), Words (label_of lb ''category'' (eo_category x) lang), Words (eo_description x),
      Words (case eo_order x of None \<Rightarrow> [] | Some i \<Rightarrow> if i = 0 then [] else order_tag (eo_order_number x) i), Amount (eo_amount x)]"

definition export_expenses :: "(rat \<Rightarrow> string) \<Rightarrow> labels \<Rightarrow> lang \<Rightarrow> expenses_query \<Rightarrow> (nat \<Rightarrow> office) \<Rightarrow> string result" where
  "export_expenses amount_text lb lang q db_at =
     (let fetch = (\<lambda>offset. money_items (list_expenses (q\<lparr>eq_order_id := None, eq_by_amount := False, eq_descending := True,
            eq_limit := PAGE, eq_offset := offset\<rparr>) (db_at offset)))
      in bind_result (collect fetch 0 []) (\<lambda>found.
           Inr (csv_text amount_text (headers_of lb lang ''expenses'') (map (expense_cells lb lang) found))))"

section \<open>An export ends\<close>

text \<open>The offsets an export asks for, in order.\<close>

function pages_read :: "(nat \<Rightarrow> 'a page result) \<Rightarrow> nat \<Rightarrow> nat list" where
  "pages_read fetch offset =
     (if MAX_ROWS \<le> offset then []
      else offset # (case fetch offset of
          Inl e \<Rightarrow> []
        | Inr page \<Rightarrow> if pg_total page \<le> offset + PAGE then [] else pages_read fetch (offset + PAGE)))"
  by pat_completeness auto
termination by (relation "measure (\<lambda>(_, offset). MAX_ROWS - offset)") (auto simp: PAGE_def)

declare pages_read.simps [simp del]

lemma last_page: "pages_read fetch offset \<noteq> [] \<Longrightarrow> PAGE * (length (pages_read fetch offset) - 1) + offset < MAX_ROWS"
proof (induction fetch offset rule: pages_read.induct)
  case (1 fetch offset)
  then have start: "\<not> MAX_ROWS \<le> offset" by (auto simp: pages_read.simps [of fetch offset])
  show ?case
  proof (cases "\<exists>page. fetch offset = Inr page \<and> \<not> pg_total page \<le> offset + PAGE")
    case True
    then obtain page where page: "fetch offset = Inr page" "\<not> pg_total page \<le> offset + PAGE" by blast
    then have here: "pages_read fetch offset = offset # pages_read fetch (offset + PAGE)"
      using start by (simp add: pages_read.simps [of fetch offset])
    show ?thesis
    proof (cases "pages_read fetch (offset + PAGE)")
      case Nil
      then show ?thesis using start here by simp
    next
      case (Cons n ns)
      then show ?thesis using 1 (1) [OF start page] here by (simp add: algebra_simps)
    qed
  next
    case False
    then have "pages_read fetch offset = [offset]"
      using start by (auto simp: pages_read.simps [of fetch offset] split: sum.split)
    then show ?thesis using start by simp
  qed
qed

lemma few_pages: "length (pages_read fetch 0) \<le> 250"
  using last_page [of fetch 0] by (cases "pages_read fetch 0") (simp_all add: PAGE_def MAX_ROWS_def)

lemma collect_pages:
  "collect fetch offset rows =
     bind_result (map_result fetch (pages_read fetch offset)) (\<lambda>pages. Inr (rows @ concat (map pg_items pages)))"
proof (induction fetch offset rows rule: collect.induct)
  case (1 fetch offset rows)
  show ?case
  proof (cases "MAX_ROWS \<le> offset")
    case True
    then show ?thesis by (simp add: collect.simps [of fetch offset] pages_read.simps [of fetch offset])
  next
    case False
    show ?thesis
    proof (cases "fetch offset")
      case (Inl e)
      then show ?thesis using False by (simp add: collect.simps [of fetch offset] pages_read.simps [of fetch offset])
    next
      case (Inr page)
      show ?thesis
      proof (cases "pg_total page \<le> offset + PAGE")
        case True
        then show ?thesis using False Inr by (simp add: collect.simps [of fetch offset] pages_read.simps [of fetch offset])
      next
        case more: False
        from 1 [OF False Inr more] show ?thesis
          using False Inr more
          by (cases "map_result fetch (pages_read fetch (offset + PAGE))")
            (simp_all add: collect.simps [of fetch offset rows] pages_read.simps [of fetch offset])
      qed
    qed
  qed
qed

subsection \<open>A list that holds still\<close>

text \<open>The contract of a list endpoint towards an export: its pages are parts of one list, or every page is refused.\<close>

locale paged =
  fixes fetch :: "nat \<Rightarrow> 'a page result" and refused :: "api_error option" and rows :: "'a list"
  assumes page: "fetch n = (case refused of Some e \<Rightarrow> Inl e
    | None \<Rightarrow> Inr \<lparr>pg_items = take PAGE (drop n rows), pg_total = length rows\<rparr>)"
begin

lemma collect_from:
  "refused = None \<Longrightarrow> collect fetch (k * PAGE) acc = Inr (acc @ take (MAX_ROWS - k * PAGE) (drop (k * PAGE) rows))"
proof (induction "250 - k" arbitrary: k acc)
  case 0
  then have "MAX_ROWS \<le> k * PAGE" by (simp add: MAX_ROWS_def PAGE_def)
  then show ?case by (simp add: collect.simps [of fetch "k * PAGE"])
next
  case (Suc n)
  then have k: "k < 250" by simp
  have here: "fetch (k * PAGE) = Inr \<lparr>pg_items = take PAGE (drop (k * PAGE) rows), pg_total = length rows\<rparr>"
    using page Suc.prems by simp
  have room: "\<not> MAX_ROWS \<le> k * PAGE" "MAX_ROWS - k * PAGE = PAGE + (MAX_ROWS - Suc k * PAGE)"
    using k by (simp_all add: MAX_ROWS_def PAGE_def)
  show ?case
  proof (cases "length rows \<le> k * PAGE + PAGE")
    case True
    then have "length (drop (k * PAGE) rows) \<le> PAGE" by simp
    then have "take PAGE (drop (k * PAGE) rows) = drop (k * PAGE) rows"
      "take (MAX_ROWS - k * PAGE) (drop (k * PAGE) rows) = drop (k * PAGE) rows" by (simp_all add: room(2))
    then show ?thesis using True here room(1) by (simp add: collect.simps [of fetch "k * PAGE"])
  next
    case False
    have "collect fetch (Suc k * PAGE) (acc @ take PAGE (drop (k * PAGE) rows)) =
        Inr ((acc @ take PAGE (drop (k * PAGE) rows)) @ take (MAX_ROWS - Suc k * PAGE) (drop (Suc k * PAGE) rows))"
      by (rule Suc.hyps(1)) (use Suc.hyps(2) Suc.prems in simp_all)
    moreover have "take (MAX_ROWS - k * PAGE) (drop (k * PAGE) rows) =
        take PAGE (drop (k * PAGE) rows) @ take (MAX_ROWS - Suc k * PAGE) (drop (Suc k * PAGE) rows)"
      by (simp only: room(2) take_add drop_drop) (simp add: add.commute)
    ultimately show ?thesis using False here room(1)
      by (simp add: collect.simps [of fetch "k * PAGE" acc] add.commute)
  qed
qed

lemma collected: "collect fetch 0 [] = (case refused of Some e \<Rightarrow> Inl e | None \<Rightarrow> Inr (take MAX_ROWS rows))"
proof (cases refused)
  case None
  then show ?thesis using collect_from [of 0 "[]"] by simp
next
  case (Some e)
  then show ?thesis using page [of 0] by (simp add: collect.simps [of fetch 0] MAX_ROWS_def)
qed

end

definition orders_at :: "orders_query \<Rightarrow> nat \<Rightarrow> orders_query" where
  "orders_at q n = q\<lparr>oq_document_type_id := None, oq_limit := PAGE, oq_offset := n\<rparr>"

lemma orders_same [simp]:
  "orders_listed session today (orders_at q n) db = orders_listed session today (q\<lparr>oq_document_type_id := None\<rparr>) db"
proof -
  have key: "orders_key (orders_at q n) = orders_key (q\<lparr>oq_document_type_id := None\<rparr>)"
    by (simp add: fun_eq_iff orders_key_def orders_at_def Let_def)
  have shown: "order_shown session today (orders_at q n) = order_shown session today (q\<lparr>oq_document_type_id := None\<rparr>)"
    by (simp add: fun_eq_iff order_shown_def orders_at_def Let_def)
  show ?thesis by (simp only: orders_listed_def key shown)
qed

lemma orders_query_at: "orders_query_ok (orders_at q n) \<longleftrightarrow> orders_query_ok (q\<lparr>oq_limit := PAGE\<rparr>)"
  "search_overflows (orders_at q n) \<longleftrightarrow> search_overflows q" "oq_limit (orders_at q n) = PAGE" "oq_offset (orders_at q n) = n"
  by (simp_all add: orders_query_ok_def search_overflows_def orders_at_def)

interpretation order_pages: paged "\<lambda>n. list_orders session today (orders_at q n) db"
  "if \<not> orders_query_ok (q\<lparr>oq_limit := PAGE\<rparr>) then Some invalid_payload
   else if search_overflows q then Some (InternalError ''DataError'') else None"
  "map (order_listed_of session today db) (orders_listed session today (q\<lparr>oq_document_type_id := None\<rparr>) db)"
  for session today q db
  by unfold_locales (simp add: list_orders_def orders_query_at page_of_def take_map drop_map)

interpretation client_pages: paged
  "\<lambda>n. list_clients name_order \<lparr>lq_search = search, lq_by = By_name, lq_descending = False, lq_limit = PAGE, lq_offset = n\<rparr> kind db"
  "if \<not> page_ok search PAGE then Some invalid_payload else None"
  "map to_summary (clients_listed name_order \<lparr>lq_search = search, lq_by = By_name, lq_descending = False, lq_limit = PAGE, lq_offset = 0\<rparr> kind db)"
  for name_order search kind db
  by unfold_locales (simp add: list_clients_def clients_listed_def page_of_def take_map drop_map)

lemma payments_same [simp]: "payments_listed (q\<lparr>pq_limit := l, pq_offset := n\<rparr>) db = payments_listed q db"
proof -
  have "payment_shown (q\<lparr>pq_limit := l, pq_offset := n\<rparr>) = payment_shown q" by (simp add: fun_eq_iff payment_shown_def)
  then show ?thesis by (simp add: payments_listed_def)
qed

interpretation payment_pages: paged
  "\<lambda>n. money_items (list_payments (q\<lparr>pq_limit := PAGE, pq_offset := n\<rparr>) db)"
  "if \<not> page_ok (pq_search q) PAGE then Some invalid_payload else None"
  "map (payment_out_of db) (payments_listed q db)" for q db
  by unfold_locales (simp add: list_payments_def money_items_def page_of_def take_map drop_map Let_def)

lemma expenses_same [simp]: "expenses_listed (q\<lparr>eq_limit := l, eq_offset := n\<rparr>) db = expenses_listed q db"
proof -
  have "expense_shown (q\<lparr>eq_limit := l, eq_offset := n\<rparr>) = expense_shown q" by (simp add: fun_eq_iff expense_shown_def)
  then show ?thesis by (simp add: expenses_listed_def)
qed

interpretation expense_pages: paged
  "\<lambda>n. money_items (list_expenses (q\<lparr>eq_limit := PAGE, eq_offset := n\<rparr>) db)"
  "if \<not> page_ok (eq_search q) PAGE \<or> \<not> optional (text_ok 0 50) (eq_category q) then Some invalid_payload else None"
  "map (expense_out_of db) (expenses_listed q db)" for q db
  by unfold_locales (simp add: list_expenses_def money_items_def page_of_def take_map drop_map Let_def)

text \<open>C37: every export ends, and its file is the whole of its list. Whatever the pages say, and however the bureau
  changes while they are read, no export asks for more than 250 of them, and the rows it collects are
  those of the pages it read, in their order. When the list holds still, each export is fully
  determined. A query its parameters refuse (a search beyond 255 characters, a status, language or
  category too long) is refused, and an order search for a number beyond 32 bits is the database
  driver's error. Otherwise the file is the heading and one row for each entry, first to last and up to
  fifty thousand, of this list: for orders, the order screen's list with the same filters and sort but
  without its document-type filter; for clients, the client screen's list with the same search and
  type, by name; for payments, the payment screen's with the same filters but its order's; for expenses,
  the expense screen's with the same filters but its order's, newest first. (The module's docstring says the file
  matches the filtered view exactly; the findings record where it does not.)\<close>

theorem exports_end:
  "length (pages_read fetch 0) \<le> 250 \<and>
   collect fetch 0 [] = bind_result (map_result fetch (pages_read fetch 0)) (\<lambda>pages. Inr (concat (map pg_items pages))) \<and>
   export_orders amount_text lb lang session today q (\<lambda>_. db) =
     (if \<not> orders_query_ok (q\<lparr>oq_limit := PAGE\<rparr>) then Inl invalid_payload
      else if search_overflows q then Inl (InternalError ''DataError'')
      else Inr (csv_text amount_text
        (headers_of lb lang ''orders'' @ (if shows_costs session then headers_of lb lang ''orders_profit'' else []))
        (map (order_cells lb lang (shows_costs session) \<circ> order_listed_of session today db)
          (take MAX_ROWS (orders_listed session today (q\<lparr>oq_document_type_id := None\<rparr>) db))))) \<and>
   export_clients amount_text lb lang name_order search kind (\<lambda>_. db) =
     (if \<not> page_ok search PAGE then Inl invalid_payload
      else Inr (csv_text amount_text (headers_of lb lang ''clients'')
        (map (client_cells lb lang \<circ> to_summary) (take MAX_ROWS (clients_listed name_order
          \<lparr>lq_search = search, lq_by = By_name, lq_descending = False, lq_limit = PAGE, lq_offset = 0\<rparr> kind db))))) \<and>
   export_payments amount_text lb lang pq (\<lambda>_. db) =
     (if \<not> page_ok (pq_search pq) PAGE then Inl invalid_payload
      else Inr (csv_text amount_text (headers_of lb lang ''payments'')
        (map (payment_cells lb lang \<circ> payment_out_of db) (take MAX_ROWS (payments_listed (pq\<lparr>pq_order_id := None\<rparr>) db))))) \<and>
   export_expenses amount_text lb lang xq (\<lambda>_. db) =
     (if \<not> page_ok (eq_search xq) PAGE \<or> \<not> optional (text_ok 0 50) (eq_category xq) then Inl invalid_payload
      else Inr (csv_text amount_text (headers_of lb lang ''expenses'')
        (map (expense_cells lb lang \<circ> expense_out_of db) (take MAX_ROWS
          (expenses_listed (xq\<lparr>eq_order_id := None, eq_by_amount := False, eq_descending := True\<rparr>) db)))))"
proof (intro conjI)
  show "length (pages_read fetch 0) \<le> 250" by (rule few_pages)
  show "collect fetch 0 [] = bind_result (map_result fetch (pages_read fetch 0)) (\<lambda>pages. Inr (concat (map pg_items pages)))"
    using collect_pages [of fetch 0 "[]"] by simp
next
  show "export_orders amount_text lb lang session today q (\<lambda>_. db) =
     (if \<not> orders_query_ok (q\<lparr>oq_limit := PAGE\<rparr>) then Inl invalid_payload
      else if search_overflows q then Inl (InternalError ''DataError'')
      else Inr (csv_text amount_text
        (headers_of lb lang ''orders'' @ (if shows_costs session then headers_of lb lang ''orders_profit'' else []))
        (map (order_cells lb lang (shows_costs session) \<circ> order_listed_of session today db)
          (take MAX_ROWS (orders_listed session today (q\<lparr>oq_document_type_id := None\<rparr>) db)))))"
    using order_pages.collected [of session today q db] by (simp add: export_orders_def orders_at_def Let_def take_map)
next
  show "export_clients amount_text lb lang name_order search kind (\<lambda>_. db) =
     (if \<not> page_ok search PAGE then Inl invalid_payload
      else Inr (csv_text amount_text (headers_of lb lang ''clients'')
        (map (client_cells lb lang \<circ> to_summary) (take MAX_ROWS (clients_listed name_order
          \<lparr>lq_search = search, lq_by = By_name, lq_descending = False, lq_limit = PAGE, lq_offset = 0\<rparr> kind db)))))"
    using client_pages.collected [of name_order search kind db] by (simp add: export_clients_def Let_def take_map)
next
  show "export_payments amount_text lb lang pq (\<lambda>_. db) =
     (if \<not> page_ok (pq_search pq) PAGE then Inl invalid_payload
      else Inr (csv_text amount_text (headers_of lb lang ''payments'')
        (map (payment_cells lb lang \<circ> payment_out_of db) (take MAX_ROWS (payments_listed (pq\<lparr>pq_order_id := None\<rparr>) db)))))"
    using payment_pages.collected [of "pq\<lparr>pq_order_id := None\<rparr>" db] by (simp add: export_payments_def Let_def take_map)
next
  show "export_expenses amount_text lb lang xq (\<lambda>_. db) =
     (if \<not> page_ok (eq_search xq) PAGE \<or> \<not> optional (text_ok 0 50) (eq_category xq) then Inl invalid_payload
      else Inr (csv_text amount_text (headers_of lb lang ''expenses'')
        (map (expense_cells lb lang \<circ> expense_out_of db) (take MAX_ROWS
          (expenses_listed (xq\<lparr>eq_order_id := None, eq_by_amount := False, eq_descending := True\<rparr>) db)))))"
    using expense_pages.collected [of "xq\<lparr>eq_order_id := None, eq_by_amount := False, eq_descending := True\<rparr>" db]
    by (simp add: export_expenses_def Let_def take_map)
qed

section \<open>A file reads back\<close>

text \<open>
  A reader of such files: fields stand between commas, rows end with a carriage return and a line
  feed, and a quoted field may hold anything, a quotation mark doubled.
\<close>

datatype place = Field_start | In_field | In_quotes | After_quote

fun csv_scan :: "place \<Rightarrow> string \<Rightarrow> string list \<Rightarrow> string list list \<Rightarrow> string \<Rightarrow> string list list option" where
  "csv_scan pl field row rows [] = (if pl = Field_start \<and> field = [] \<and> row = [] then Some rows else None)"
| "csv_scan pl field row rows (c # rest) =
     (if pl = In_quotes
      then (if c = QUOTE then csv_scan After_quote field row rows rest else csv_scan In_quotes (field @ [c]) row rows rest)
      else if c = CHR '','' then csv_scan Field_start [] (row @ [field]) rows rest
      else if c = CHR 0x0D then (case rest of [] \<Rightarrow> None
        | d # rest' \<Rightarrow> if d = CHR 0x0A then csv_scan Field_start [] [] (rows @ [row @ [field]]) rest' else None)
      else if c = QUOTE then (case pl of Field_start \<Rightarrow> csv_scan In_quotes field row rows rest
        | After_quote \<Rightarrow> csv_scan In_quotes (field @ [QUOTE]) row rows rest | _ \<Rightarrow> None)
      else if pl = After_quote then None else csv_scan In_field (field @ [c]) row rows rest)"

definition csv_read :: "string \<Rightarrow> string list list option" where
  "csv_read s = csv_scan Field_start [] [] [] s"

lemma scan_plain:
  "\<not> needs_quotes s \<Longrightarrow> pl \<in> {Field_start, In_field} \<Longrightarrow>
     csv_scan pl field row rows (s @ rest) = csv_scan (if s = [] then pl else In_field) (field @ s) row rows rest"
  by (induction s arbitrary: pl field) (auto simp: needs_quotes_def)

lemma scan_quoted:
  "csv_scan In_quotes field row rows (concat (map (\<lambda>c. if c = QUOTE then [QUOTE, QUOTE] else [c]) s) @ QUOTE # rest) =
     csv_scan After_quote (field @ s) row rows rest"
  by (induction s arbitrary: field) (auto simp: QUOTE_def)

lemma scan_comma: "pl \<noteq> In_quotes \<Longrightarrow> csv_scan pl field row rows (CHR '','' # rest) = csv_scan Field_start [] (row @ [field]) rows rest"
  by simp

lemma scan_line: "pl \<noteq> In_quotes \<Longrightarrow>
  csv_scan pl field row rows (CHR 0x0D # CHR 0x0A # rest) = csv_scan Field_start [] [] (rows @ [row @ [field]]) rest"
  by simp

lemma scan_quotes: "csv_scan Field_start [] row rows (quoted s @ rest) = csv_scan After_quote s row rows rest"
  using scan_quoted [of "[]" row rows s rest] by (simp add: quoted_def QUOTE_def)

lemma scan_field: "\<exists>pl. pl \<noteq> In_quotes \<and> (\<forall>rest. csv_scan Field_start [] row rows (csv_field s @ rest) = csv_scan pl s row rows rest)"
proof (cases "needs_quotes s")
  case True
  then show ?thesis using scan_quotes by (intro exI [of _ After_quote]) (simp add: csv_field_def)
next
  case False
  then show ?thesis using scan_plain [OF False, of Field_start "[]"]
    by (intro exI [of _ "if s = [] then Field_start else In_field"]) (simp add: csv_field_def)
qed

lemma scan_fields:
  "fs \<noteq> [] \<Longrightarrow> csv_scan Field_start [] row rows (join_by '','' (map csv_field fs) @ CHR 0x0D # CHR 0x0A # rest) =
     csv_scan Field_start [] [] (rows @ [row @ fs]) rest"
proof (induction fs arbitrary: row rule: induct_list012)
  case (2 s)
  obtain pl where "pl \<noteq> In_quotes" "\<And>rest. csv_scan Field_start [] row rows (csv_field s @ rest) = csv_scan pl s row rows rest"
    using scan_field by blast
  then show ?case by (simp add: scan_line del: csv_scan.simps)
next
  case (3 s t fs)
  obtain pl where "pl \<noteq> In_quotes" "\<And>rest. csv_scan Field_start [] row rows (csv_field s @ rest) = csv_scan pl s row rows rest"
    using scan_field by blast
  then show ?case using 3(2) [of "row @ [s]"] by (simp add: scan_comma del: csv_scan.simps)
qed simp

lemma scan_row: "r \<noteq> [] \<Longrightarrow> csv_scan Field_start [] [] rows (csv_row r @ rest) = csv_scan Field_start [] [] (rows @ [r]) rest"
proof (cases "r = [[]]")
  case True
  have "csv_scan Field_start [] [] rows (quoted [] @ CHR 0x0D # CHR 0x0A # rest) = csv_scan Field_start [] [] (rows @ [[[]]]) rest"
    by (simp add: scan_quotes scan_line del: csv_scan.simps)
  then show ?thesis by (simp add: csv_row_def True)
next
  case False
  then show "r \<noteq> [] \<Longrightarrow> ?thesis" using scan_fields [of r "[]" rows rest] by (simp add: csv_row_def)
qed

lemma scan_rows:
  "[] \<notin> set rs \<Longrightarrow> csv_scan Field_start [] [] rows (concat (map csv_row rs)) = Some (rows @ rs)"
proof (induction rs arbitrary: rows)
  case (Cons r rs)
  then have "r \<noteq> []" by auto
  with Cons show ?case by (simp add: scan_row del: csv_scan.simps)
qed simp

text \<open>C38: a file reads back as what was exported, and runs no formula. Read as comma-separated text, the file of
  a heading that is not empty and rows that are not is that heading and then every row, cell by cell,
  whatever commas, quotation marks and line breaks a client's name or a note holds. A cell of text is
  that text, except one that starts with an equals sign, plus, minus, at sign, tab or carriage return, which
  comes with an apostrophe before it, so that no cell of text starts with one of the six; two different
  texts whose first character is not an apostrophe never give the same cell; and numbers and amounts
  are written as they are.\<close>

theorem exported_file_reads_back:
  assumes "header \<noteq> []" and "[] \<notin> set rows"
  shows "csv_read (csv_text amount_text header rows) = Some (header # map (map (cell_words amount_text)) rows) \<and>
    (\<forall>s. cell_words amount_text (Words s) =
       (if s \<noteq> [] \<and> hd s \<in> {CHR ''='', CHR ''+'', CHR ''-'', CHR ''@'', CHR 0x09, CHR 0x0D} then CHR 0x27 # s else s)) \<and>
    (\<forall>s c rest. cell_words amount_text (Words s) = c # rest \<longrightarrow>
       c \<notin> {CHR ''='', CHR ''+'', CHR ''-'', CHR ''@'', CHR 0x09, CHR 0x0D}) \<and>
    (\<forall>s t. cell_words amount_text (Words s) = cell_words amount_text (Words t) \<and>
       take 1 s \<noteq> [CHR 0x27] \<and> take 1 t \<noteq> [CHR 0x27] \<longrightarrow> s = t) \<and>
    (\<forall>n. cell_words amount_text (Number n) = show_int n) \<and> (\<forall>x. cell_words amount_text (Amount x) = amount_text x)"
proof (intro conjI)
  have "[] \<notin> set (header # map (map (cell_words amount_text)) rows)" using assms by auto
  from scan_rows [OF this, of "[]"]
  show "csv_read (csv_text amount_text header rows) = Some (header # map (map (cell_words amount_text)) rows)"
    by (simp add: csv_read_def csv_text_def)
qed (auto simp: cell_words_def safe_cell_def FORMULA_PREFIXES_def split: list.splits if_splits)

section \<open>A file to export\<close>

definition ex_labels :: labels where
  "ex_labels = \<lparr>lb_headers = (\<lambda>_. [''Header'']), lb_status = (\<lambda>_. None), lb_word = (\<lambda>_ _. None), lb_yes = ''yes'', lb_no = ''no''\<rparr>"

definition ex_client_file :: string where
  "ex_client_file = csv_text (\<lambda>_. ''0.00'') (headers_of ex_labels EN ''clients'')
     [[Number 1, Words ''Client'', Words ''B2C'', Blank, Blank, Blank]]"

theorem exports_end_witness:
  "export_clients (\<lambda>_. ''0.00'') ex_labels EN (\<lambda>_. 0) None None (\<lambda>_. ex_office) = Inr ex_client_file"
proof -
  have "page_ok None PAGE" by (simp add: page_ok_def optional_def PAGE_def)
  moreover have "clients_listed (\<lambda>_. 0) \<lparr>lq_search = None, lq_by = By_name, lq_descending = False, lq_limit = PAGE, lq_offset = 0\<rparr>
      None ex_office = [ex_client]" by code_simp
  moreover have "client_cells ex_labels EN (to_summary ex_client) =
      [Number 1, Words ''Client'', Words ''B2C'', Blank, Blank, Blank]" by code_simp
  ultimately show ?thesis
    using exports_end [where fetch = "\<lambda>_. Inl invalid_payload :: order_listed page result" and lb = ex_labels and lang = EN
      and amount_text = "\<lambda>_. ''0.00''" and db = ex_office and search = None and kind = None and name_order = "\<lambda>_. 0"]
    by (simp add: ex_client_file_def MAX_ROWS_def)
qed

theorem exported_file_reads_back_witness:
  "csv_read (csv_text (\<lambda>_. ''0.00'') [''Name''] [[Words ''=1,2''], [Words []], [Words ''a=b'']]) =
     Some [[''Name''], [CHR 0x27 # ''=1,2''], [[]], [''a=b'']]"
proof -
  have "[''Name''] \<noteq> []" "[] \<notin> set [[Words ''=1,2''], [Words []], [Words ''a=b'']]" by simp_all
  note all = exported_file_reads_back [OF this, of "\<lambda>_. ''0.00''"]
  have "cell_words (\<lambda>_. ''0.00'') (Words s) =
      (if s \<noteq> [] \<and> hd s \<in> {CHR ''='', CHR ''+'', CHR ''-'', CHR ''@'', CHR 0x09, CHR 0x0D} then CHR 0x27 # s else s)" for s
    using all by blast
  then show ?thesis using conjunct1 [OF all] by simp
qed

end
