(* ===== verification/Spec2Isabelle.thy ===== *)
theory Spec2Isabelle
  imports Users Calculator Jobs Logins Closures Lookups Previews ImportRuns Undoing Exports
begin

text \<open>
  A verification library for the office API of a translation bureau (\<^verbatim>\<open>src/suliko\<close>, FastAPI over
  PostgreSQL). Bureaus and freelancers are tenants; a person has one account and a membership in
  each organisation; a bureau takes orders of documents, prices them, has them translated,
  notarised and paid for, keeps their files, and may have a worker translate them. It brings its
  records in from spreadsheets and takes them out again as files. The library models the parts that
  decide something: who gets in, who may do what, what an order costs, what is owed, which file is
  which, which job is whose, and which row of a sheet is somebody the bureau knows.

  \<^bold>\<open>How code becomes definitions.\<close> A table is a list of records in the order of its ids, a
  database a record of tables, a handler a function of the request and the database that returns
  \<open>Inr\<close> its answer and the new state, or \<open>Inl\<close> the error; a transaction that raises leaves the
  state it began with. What is committed before a refusal, or kept outside the transaction (the
  counters of the limiter, objects in a bucket), changes all the same. Every \<^verbatim>\<open>raise\<close> is a branch
  with its message. Randomness, the clock, hashes, signatures, time-based codes, the zip library,
  suliko.ge, Unicode folding, the database's collation, the libraries that open spreadsheets, and the
  word lists and labels in three languages are arguments of the definitions. Amounts
  are exact rationals with Python's decimal context written out wherever it rounds, ids are
  integers drawn from one counter, a moment is a number of microseconds.

  \<^bold>\<open>Theories\<close>, in the order they build on each other:

  \<^item> \<open>Prelude\<close> (\<^verbatim>\<open>core/errors.py\<close>): the exceptions, tables, ASCII strings. \<open>Decimals\<close>: the decimal
    arithmetic of \<^verbatim>\<open>domain/pricing.py\<close>, with when it is exact. \<open>Texts\<close>: decimal numerals, splitting.

  \<^item> \<open>Permissions\<close> (\<^verbatim>\<open>security/permissions.py\<close>, \<^verbatim>\<open>domain/plans.py\<close>): catalogue, role bundles, plan
    masks, effective permissions. \<open>Models\<close> (\<^verbatim>\<open>models/user.py\<close>, \<^verbatim>\<open>models/tenant.py\<close>,
    \<^verbatim>\<open>models/audit.py\<close>, \<^verbatim>\<open>config.py\<close>): the rows and settings. \<open>Sessions\<close>
    (\<^verbatim>\<open>security/sessions.py\<close>, \<^verbatim>\<open>api/deps.py\<close>, \<^verbatim>\<open>core/audit.py\<close>): sessions and the gate every
    endpoint is behind. \<open>Users\<close> (\<^verbatim>\<open>api/v1/users.py\<close>): changing and removing members.

  \<^item> \<open>Tokens\<close> (\<^verbatim>\<open>security/passwords.py\<close>, \<^verbatim>\<open>security/reset_tokens.py\<close>, \<^verbatim>\<open>security/totp.py\<close>,
    \<^verbatim>\<open>security/login_tickets.py\<close>, \<^verbatim>\<open>core/ratelimit.py\<close>): the secrets people sign in with and the
    counters that bound guessing. \<open>Accounts\<close> (\<^verbatim>\<open>domain/accounts.py\<close>): people, memberships, founding
    a workspace. \<open>SignIn\<close> (\<^verbatim>\<open>api/v1/auth.py\<close>, \<^verbatim>\<open>api/v1/mfa.py\<close>, \<^verbatim>\<open>domain/tips.py\<close>): every handler.
    \<open>Changes\<close> gives the kinds of change a sign-in handler makes to the state and proves that each keeps
    the rows well formed; \<open>Access\<close> shows of every handler that it makes only such changes; \<open>Runs\<close> is
    the step relation over them, with the invariants of links, codes and closed accounts; \<open>Logins\<close>
    counts guesses, and composes a reset with the sign-in after it.

  \<^item> \<open>Deletions\<close> (\<^verbatim>\<open>domain/account_deletion.py\<close>, the deletion screens of \<^verbatim>\<open>api/v1/platform.py\<close>, the
    deletion commands of \<^verbatim>\<open>cli.py\<close>): the review of a request, approving, refusing, and the nightly
    deletion, over a state that holds the people's rows, every bureau's work and the portal.
    \<open>Closures\<close> relates the review to the bureaus' own balances (theories \<open>Finances\<close> and \<open>Ledgers\<close>),
    and proves what approving, refusing and deleting guarantee over any run.

  \<^item> \<open>Pricing\<close> (\<^verbatim>\<open>domain/pricing.py\<close>, \<^verbatim>\<open>domain/pricing_context.py\<close>): the engine. \<open>Office\<close>
    (\<^verbatim>\<open>models/order.py\<close>, \<^verbatim>\<open>models/finance.py\<close>, \<^verbatim>\<open>models/directory.py\<close>, \<^verbatim>\<open>domain/statuses.py\<close>,
    \<^verbatim>\<open>domain/orders.py\<close>): one bureau's rows and the aggregates every screen shares. \<open>Finances\<close> and
    \<open>Ledgers\<close> (\<^verbatim>\<open>api/v1/finances.py\<close>): what is owed, and recording and undoing payments. \<open>Billing\<close>
    (\<^verbatim>\<open>domain/billing.py\<close>): packages and months. \<open>Orders\<close> (\<^verbatim>\<open>api/v1/orders.py\<close>, \<^verbatim>\<open>api/v1/options.py\<close>):
    every change of an order. \<open>OrderHistory\<close> is the step relation of orders and money together.
    \<open>Calculator\<close> (\<^verbatim>\<open>api/v1/calculator.py\<close>): the quote.

  \<^item> \<open>Storage\<close> (\<^verbatim>\<open>integrations/object_storage.py\<close>), \<open>Files\<close> (\<^verbatim>\<open>domain/order_files.py\<close>,
    \<^verbatim>\<open>api/v1/order_files.py\<close>): where bytes are kept and the rows that name them. \<open>Jobs\<close>
    (\<^verbatim>\<open>domain/claude_translate.py\<close>, \<^verbatim>\<open>api/v1/claude_worker.py\<close>, \<^verbatim>\<open>api/v1/claude_translate.py\<close>): the
    queue of machine translations, over every bureau.

  \<^item> \<open>Directories\<close> (\<^verbatim>\<open>api/v1/_shared.py\<close>, \<^verbatim>\<open>api/v1/clients.py\<close>, \<^verbatim>\<open>api/v1/translators.py\<close>,
    \<^verbatim>\<open>api/v1/notaries.py\<close>, \<^verbatim>\<open>domain/cities.py\<close>, \<^verbatim>\<open>domain/translator_pairs.py\<close>): the bureau's people, how
    they are searched for and changed. \<open>Settings\<close> (\<^verbatim>\<open>api/v1/settings.py\<close>, \<^verbatim>\<open>api/v1/reference.py\<close>): its
    prices, languages and document types. \<open>Bureau\<close> is the step relation of all these beside orders and
    money. \<open>Lookups\<close> proves what a search finds, that the prices shown are the prices charged, and
    that a translator reads back as entered.

  \<^item> \<open>Sheets\<close> (\<^verbatim>\<open>domain/imports.py\<close>), \<open>OrderSheets\<close> (\<^verbatim>\<open>domain/imports_orders.py\<close>) and \<open>Workbooks\<close>
    (\<^verbatim>\<open>domain/imports_combined.py\<close>): what a cell means, which column is which, and what becomes of each
    row of a sheet or of a workbook of several. \<open>Imports\<close> (\<^verbatim>\<open>api/v1/imports.py\<close>, \<^verbatim>\<open>models/imports.py\<close>):
    what the bureau has, saving what is accepted, and undoing the latest import; \<open>Previews\<close>: what the
    screen shows before. \<open>ImportRuns\<close> proves that judging admits nobody twice, in one file or over two
    imports of it; \<open>Undoing\<close> that an undo gives back the bureau there was.

  \<^item> \<open>Listings\<close> (the list endpoints of \<^verbatim>\<open>api/v1/orders.py\<close> and \<^verbatim>\<open>api/v1/finances.py\<close>) and \<open>Exports\<close>
    (\<^verbatim>\<open>api/v1/exports.py\<close>): the lists a screen shows, and the CSV files that hold all of their pages.

  \<^bold>\<open>State machines.\<close> \<open>id_step\<close> (Sessions), \<open>member_step\<close> (Users), \<open>auth_step\<close> (Runs), \<open>ledger_step\<close>
  (Ledgers), \<open>office_step\<close> (OrderHistory), \<open>room_step\<close> (Files), \<open>queue_step\<close> (Jobs), \<open>desk_step\<close> (Closures) and
  \<open>setup_step\<close> (Bureau, with \<open>bureau_run\<close> for setup, orders and money in any order) have one rule per handler, so a run is any interleaving of requests, each atomic, as the database makes them.
  The daily deletion is not one transaction but a list of ids read in one and a deletion for each in another: \<open>desk_step\<close>
  splits it there, and any request may fall in between (the command does not look at a request again, lemma
  \<open>purge_ignores_status\<close>). \<open>room_step\<close> lets the vault do what it likes with what it holds.
  Invariants are proved by rule induction, one lemma per handler.

  \<^bold>\<open>Interfaces.\<close> What a component relies on is a locale, interpreted on the model's own definitions:
  \<open>rounding\<close> (Decimals, on the two roundings to cents), \<open>once_ledger\<close> (Ledgers, the duplicate-submit
  guard on the three ledgers), \<open>object_store\<close> (Storage, on every backend), \<open>hit_counter\<close> (Tokens, on
  the limiter's two stores), \<open>sieve\<close> (ImportRuns, a judge of rows that remembers whom it has admitted, on
  the judges of clients, translators and notaries) and \<open>paged\<close> (Exports, a list endpoint whose pages are parts of one
  list, on the four lists). The queue refines an abstract machine of jobs (\<open>job_move\<close>).

  \<^bold>\<open>What the properties show\<close>, in the manifest's order: nobody hands out what they do not have; a
  token stands for a live session of an active member, and stops doing so when the account is
  closed; nothing is deleted before an approval is thirty days old, what is deleted is the person and
  nothing else, a refusal reopens the account, and an approval that waves nothing through means settled books; step two of a sign-in enters only one's own organisation; orders, documents, status logs
  and books stay consistent through any run; links and codes work once; guesses are bounded; a
  reset signs out everywhere and lets back in; a quote is what the order then costs; prices are the
  exact amounts rounded once; payments never exceed what is owed; setting up a bureau moves no money; files in the bureau's own storage keep their bytes and no download serves another's; the
  queue loses no job and drains when its workers are silent; a search finds the text as it was typed;
  an import adds nobody twice and an undo leaves the bureau as it was; every export ends, holds the
  whole of its list, reads back cell by cell and runs no formula.

  \<^bold>\<open>Bounds and fuel.\<close> No definition takes fuel: loops over rows are list functions, and the
  recursions that are not structural (printing a number, dividing years, taking ids in bunches, the pages
  of an export, which stop at fifty thousand rows) have their measures. The
  limits of the code (50 documents, 999 handle suffixes, lengths of fields)
  are constants of the model.

  \<^bold>\<open>Not modelled, and why.\<close> The tenancy hooks of the ORM (\<^verbatim>\<open>db/tenancy.py\<close>) and row-level security:
  a state holds the rows the hooks show. Concurrent writers inside one transaction, beyond the
  unique indexes and the guarded updates the code itself relies on. The shape check of addresses
  (\<^verbatim>\<open>EmailStr\<close>) and non-ASCII letters in case folding and stripping, where the library has its own
  tables. The order in which a request's body and its session are refused. The limiter's local store reads a
  monotonic clock, modelled by the same clock as everything else. Mail is a letter in an outbox,
  without its wording. Of two status events of an order
  at one instant the model takes the later row, where the query of the lists leaves the choice to the database
  (\<open>latest_event\<close> in Office). The bullet and the arrow a screen shows are the
  characters 149 and 154, as a character here has eight bits. Mails and Word files, reports, the migrations from other systems, a bureau's
  own companies and invoices, the invitations to translators, the translators' portal, operators' screens
  and calls to outside services are not modelled; the manifest lists each with its reason.
\<close>

end
